(* ===== verification/Prelude.thy ===== *)
theory Prelude
  imports Main "HOL-Library.Word" "HOL-Library.Monad_Syntax"
begin

section \<open>Machine model shared by the components\<close>

text \<open>
  HouseOS is a 32-bit kernel for i386 (\<^verbatim>\<open>size_t\<close>, \<^verbatim>\<open>uintptr_t\<close> and pointers
  are 4 bytes, see \<^verbatim>\<open>src/kernel/include/stdint.h\<close>).  This theory holds what every
  component shares: the flat byte memory with little-endian 32-bit accesses, 32-bit
  wrap-around on natural numbers, and generic lemmas on lists.

  Bytes are values of type \<^typ>\<open>char\<close> (HOL characters are exactly 8 bits), so that string
  literals of the source are string literals of the model.  Addresses are natural numbers;
  an object of the source lies at an address below \<open>2^32\<close>, the null pointer is \<open>0\<close>.
  Loads and stores of a 32-bit word go through \<open>load32\<close> and \<open>store32\<close>, so a stored
  value is reduced modulo \<open>2^32\<close> as on the machine.
\<close>

type_synonym byte = char
type_synonym addr = nat
type_synonym mem = "nat \<Rightarrow> byte"
type_synonym u8 = "8 word"
type_synonym u16 = "16 word"
type_synonym u32 = "32 word"

named_theorems mem_simps \<open>loads after stores\<close>
named_theorems wrap_simps \<open>32-bit arithmetic without overflow\<close>

abbreviation NUL :: byte where
  "NUL \<equiv> CHR 0x00"

subsection \<open>Unsigned 32-bit arithmetic\<close>

text \<open>Addition, subtraction and multiplication of \<^verbatim>\<open>size_t\<close> values: they wrap.\<close>

definition add32 :: "nat \<Rightarrow> nat \<Rightarrow> nat" where
  "add32 a b = (a + b) mod 2 ^ 32"

definition sub32 :: "nat \<Rightarrow> nat \<Rightarrow> nat" where
  "sub32 a b = (a + (2 ^ 32 - b mod 2 ^ 32)) mod 2 ^ 32"

definition mul32 :: "nat \<Rightarrow> nat \<Rightarrow> nat" where
  "mul32 a b = (a * b) mod 2 ^ 32"

lemma add32_lt: "add32 a b < 2 ^ 32"
  by (simp add: add32_def)

lemma sub32_lt: "sub32 a b < 2 ^ 32"
  by (simp add: sub32_def)

lemma add32_eq [wrap_simps]: "a + b < 2 ^ 32 \<Longrightarrow> add32 a b = a + b"
  by (simp add: add32_def)

lemma sub32_eq [wrap_simps]:
  assumes "b \<le> a" "a < 2 ^ 32"
  shows "sub32 a b = a - b"
proof -
  from assms have "a + (2 ^ 32 - b mod 2 ^ 32) = (a - b) + 2 ^ 32" by simp
  then have "sub32 a b = ((a - b) + 2 ^ 32) mod 2 ^ 32"
    by (simp only: sub32_def)
  also have "\<dots> = (a - b) mod 2 ^ 32" by (rule mod_add_self2)
  also have "\<dots> = a - b" using assms by (intro mod_less) linarith
  finally show ?thesis .
qed

lemma mul32_eq [wrap_simps]: "a * b < 2 ^ 32 \<Longrightarrow> mul32 a b = a * b"
  by (simp add: mul32_def)

subsection \<open>Little-endian 32-bit words in memory\<close>

definition load32 :: "mem \<Rightarrow> addr \<Rightarrow> nat" where
  "load32 m a = of_char (m a) + 256 * of_char (m (a + 1))
     + 65536 * of_char (m (a + 2)) + 16777216 * of_char (m (a + 3))"

definition store32 :: "mem \<Rightarrow> addr \<Rightarrow> nat \<Rightarrow> mem" where
  "store32 m a v = m(a := char_of v, a + 1 := char_of (v div 256),
     a + 2 := char_of (v div 65536), a + 3 := char_of (v div 16777216))"

lemma of_char_less_256 [simp]: "(of_char c :: nat) < 256"
  by (cases c) (simp add: of_char_def)

lemma load32_lt: "load32 m a < 2 ^ 32"
proof -
  have "(of_char (m a) :: nat) \<le> 255" "(of_char (m (a + 1)) :: nat) \<le> 255"
    "(of_char (m (a + 2)) :: nat) \<le> 255" "(of_char (m (a + 3)) :: nat) \<le> 255"
    using of_char_less_256 less_Suc_eq_le by fastforce+
  then show ?thesis by (simp add: load32_def)
qed

lemma load32_store32 [mem_simps]: "load32 (store32 m a v) a = v mod 2 ^ 32"
proof -
  have "v mod (256 * (256 * (256 * 256))) = 256 * (v div 256 mod (256 * (256 * 256))) + v mod 256"
    by (rule mod_mult2_eq)
  also have "v div 256 mod (256 * (256 * 256))
      = 256 * (v div 256 div 256 mod (256 * 256)) + v div 256 mod 256"
    by (rule mod_mult2_eq)
  also have "v div 256 div 256 mod (256 * 256)
      = 256 * (v div 256 div 256 div 256 mod 256) + v div 256 div 256 mod 256"
    by (rule mod_mult2_eq)
  finally have "v mod 2 ^ 32 = v mod 256 + 256 * (v div 256 mod 256)
      + 65536 * (v div 256 div 256 mod 256) + 16777216 * (v div 256 div 256 div 256 mod 256)"
    by simp
  moreover have "v div 65536 = v div 256 div 256" "v div 16777216 = v div 256 div 256 div 256"
    by (simp_all add: div_mult2_eq [symmetric])
  ultimately show ?thesis
    by (simp only: load32_def store32_def fun_upd_def of_char_of) simp
qed

lemma load32_store32_other [mem_simps]:
  "a + 4 \<le> b \<or> b + 4 \<le> a \<Longrightarrow> load32 (store32 m a v) b = load32 m b"
  by (auto simp: load32_def store32_def)

lemma store32_other [mem_simps]:
  "x < a \<or> a + 4 \<le> x \<Longrightarrow> store32 m a v x = m x"
  by (auto simp: store32_def)

lemma load32_cong:
  assumes "\<And>i. i < 4 \<Longrightarrow> m (a + i) = m' (a + i)"
  shows "load32 m a = load32 m' a"
  using assms [of 0] assms [of 1] assms [of 2] assms [of 3] by (simp add: load32_def)

end
