(* ===== verification/CString.thy ===== *)
theory CString
  imports Prelude
begin

section \<open>The kernel's string library\<close>

text \<open>
  Model of \<^verbatim>\<open>src/kernel/lib/string.c\<close> over the flat byte memory of the prelude.  Pointers are
  addresses, the null pointer is \<open>0\<close>.  A loop that runs until it reads a NUL byte need not
  end, so it is a partial function into \<open>option\<close> (\<open>None\<close>: the C loop never
  stops); a loop with a counter is total.  The functions of the source that return their
  destination pointer (\<^verbatim>\<open>strcpy\<close>, \<^verbatim>\<open>memcpy\<close>, ...) return the new memory here.  The
  lemmas relate each routine to the string stored in memory (predicate \<open>cstr\<close>).
\<close>

subsection \<open>Copying and measuring\<close>

partial_function (option) strlen_loop :: "mem \<Rightarrow> addr \<Rightarrow> nat \<Rightarrow> nat option" where
  "strlen_loop m str len =
     (if m (str + len) \<noteq> NUL then strlen_loop m str (len + 1) else Some len)"

definition strlen :: "mem \<Rightarrow> addr \<Rightarrow> nat option" where
  "strlen m str = strlen_loop m str 0"

partial_function (option) strcpy_loop :: "mem \<Rightarrow> addr \<Rightarrow> addr \<Rightarrow> mem option" where
  "strcpy_loop m d src =
     (if m src \<noteq> NUL then strcpy_loop (m(d := m src)) (d + 1) (src + 1)
      else Some (m(d := m src)))"

definition strcpy :: "mem \<Rightarrow> addr \<Rightarrow> addr \<Rightarrow> mem option" where
  "strcpy m dest src = strcpy_loop m dest src"

text \<open>\<^verbatim>\<open>strncpy\<close>: the first loop copies at most \<open>n\<close> characters and stops at a NUL, the second
  pads with NUL up to \<open>n\<close>.\<close>

function strncpy_copy :: "mem \<Rightarrow> addr \<Rightarrow> addr \<Rightarrow> nat \<Rightarrow> nat \<Rightarrow> mem \<times> nat" where
  "strncpy_copy m dest src n i =
     (if i < n \<and> m (src + i) \<noteq> NUL
      then strncpy_copy (m(dest + i := m (src + i))) dest src n (i + 1) else (m, i))"
  by pat_completeness auto
termination
  by (relation "measure (\<lambda>(m, dest, src, n, i). n - i)") auto

function strncpy_pad :: "mem \<Rightarrow> addr \<Rightarrow> nat \<Rightarrow> nat \<Rightarrow> mem" where
  "strncpy_pad m dest n i =
     (if i < n then strncpy_pad (m(dest + i := NUL)) dest n (i + 1) else m)"
  by pat_completeness auto
termination
  by (relation "measure (\<lambda>(m, dest, n, i). n - i)") auto

declare strncpy_copy.simps [simp del] strncpy_pad.simps [simp del]

definition strncpy :: "mem \<Rightarrow> addr \<Rightarrow> addr \<Rightarrow> nat \<Rightarrow> mem" where
  "strncpy m dest src n =
     (case strncpy_copy m dest src n 0 of (m', i) \<Rightarrow> strncpy_pad m' dest n i)"

partial_function (option) seek_nul :: "mem \<Rightarrow> addr \<Rightarrow> addr option" where
  "seek_nul m d = (if m d \<noteq> NUL then seek_nul m (d + 1) else Some d)"

definition strcat :: "mem \<Rightarrow> addr \<Rightarrow> addr \<Rightarrow> mem option" where
  "strcat m dest src = do { d \<leftarrow> seek_nul m dest; strcpy_loop m d src }"

function strncat_loop :: "mem \<Rightarrow> addr \<Rightarrow> addr \<Rightarrow> nat \<Rightarrow> nat \<Rightarrow> mem \<times> nat" where
  "strncat_loop m d src n i =
     (if i < n \<and> m (src + i) \<noteq> NUL
      then strncat_loop (m(d + i := m (src + i))) d src n (i + 1) else (m, i))"
  by pat_completeness auto
termination
  by (relation "measure (\<lambda>(m, d, src, n, i). n - i)") auto

declare strncat_loop.simps [simp del]

definition strncat :: "mem \<Rightarrow> addr \<Rightarrow> addr \<Rightarrow> nat \<Rightarrow> mem option" where
  "strncat m dest src n = do {
     d \<leftarrow> seek_nul m dest;
     case strncat_loop m d src n 0 of (m', i) \<Rightarrow> Some (m'(d + i := NUL)) }"

subsection \<open>Comparing and searching\<close>

definition char_diff :: "byte \<Rightarrow> byte \<Rightarrow> int" where
  "char_diff a b = int (of_char a) - int (of_char b)"

partial_function (option) strcmp :: "mem \<Rightarrow> addr \<Rightarrow> addr \<Rightarrow> int option" where
  "strcmp m str1 str2 =
     (if m str1 \<noteq> NUL \<and> m str1 = m str2 then strcmp m (str1 + 1) (str2 + 1)
      else Some (char_diff (m str1) (m str2)))"

text \<open>The argument of the loop is the counter before \<^verbatim>\<open>--n\<close>; it is never \<open>0\<close> here.\<close>

fun strncmp_loop :: "mem \<Rightarrow> addr \<Rightarrow> addr \<Rightarrow> nat \<Rightarrow> int" where
  "strncmp_loop m str1 str2 0 = 0"
| "strncmp_loop m str1 str2 (Suc n) =
     (if n \<noteq> 0 \<and> m str1 \<noteq> NUL \<and> m str1 = m str2
      then strncmp_loop m (str1 + 1) (str2 + 1) n
      else char_diff (m str1) (m str2))"

definition strncmp :: "mem \<Rightarrow> addr \<Rightarrow> addr \<Rightarrow> nat \<Rightarrow> int" where
  "strncmp m str1 str2 n = (if n = 0 then 0 else strncmp_loop m str1 str2 n)"

partial_function (option) strchr :: "mem \<Rightarrow> addr \<Rightarrow> byte \<Rightarrow> addr option" where
  "strchr m str ch =
     (if m str \<noteq> ch then (if m str = NUL then Some 0 else strchr m (str + 1) ch)
      else Some str)"

partial_function (option) strrchr_loop :: "mem \<Rightarrow> addr \<Rightarrow> byte \<Rightarrow> addr \<Rightarrow> addr option" where
  "strrchr_loop m str ch lst =
     (let lst' = (if m str = ch then str else lst) in
      if m str \<noteq> NUL then strrchr_loop m (str + 1) ch lst' else Some lst')"

definition strrchr :: "mem \<Rightarrow> addr \<Rightarrow> byte \<Rightarrow> addr option" where
  "strrchr m str ch = strrchr_loop m str ch 0"

text \<open>The inner loop of \<^verbatim>\<open>strstr\<close> returns where the needle pointer stopped.\<close>

partial_function (option) strstr_match :: "mem \<Rightarrow> addr \<Rightarrow> addr \<Rightarrow> addr option" where
  "strstr_match m h n =
     (if m h \<noteq> NUL \<and> m n \<noteq> NUL \<and> m h = m n then strstr_match m (h + 1) (n + 1)
      else Some n)"

partial_function (option) strstr_loop :: "mem \<Rightarrow> addr \<Rightarrow> addr \<Rightarrow> addr option" where
  "strstr_loop m haystack needle =
     (if m haystack \<noteq> NUL
      then if m haystack = m needle
           then do { n \<leftarrow> strstr_match m haystack needle;
                     if m n = NUL then Some haystack
                     else strstr_loop m (haystack + 1) needle }
           else strstr_loop m (haystack + 1) needle
      else Some 0)"

definition strstr :: "mem \<Rightarrow> addr \<Rightarrow> addr \<Rightarrow> addr option" where
  "strstr m haystack needle =
     (if m needle = NUL then Some haystack else strstr_loop m haystack needle)"

subsection \<open>Raw memory\<close>

fun memset :: "mem \<Rightarrow> addr \<Rightarrow> int \<Rightarrow> nat \<Rightarrow> mem" where
  "memset m p val 0 = m"
| "memset m p val (Suc num) = memset (m(p := char_of val)) (p + 1) val num"

fun memcpy :: "mem \<Rightarrow> addr \<Rightarrow> addr \<Rightarrow> nat \<Rightarrow> mem" where
  "memcpy m d s 0 = m"
| "memcpy m d s (Suc num) = memcpy (m(d := m s)) (d + 1) (s + 1) num"

text \<open>The descending loop of \<^verbatim>\<open>memmove\<close>: \<open>d\<close> and \<open>s\<close> point one past the
  bytes still to be copied.\<close>

fun memmove_down :: "mem \<Rightarrow> addr \<Rightarrow> addr \<Rightarrow> nat \<Rightarrow> mem" where
  "memmove_down m d s 0 = m"
| "memmove_down m d s (Suc num) = memmove_down (m(d - 1 := m (s - 1))) (d - 1) (s - 1) num"

definition memmove :: "mem \<Rightarrow> addr \<Rightarrow> addr \<Rightarrow> nat \<Rightarrow> mem" where
  "memmove m d s num =
     (if d < s then memcpy m d s num else memmove_down m (d + num) (s + num) num)"

fun memcmp :: "mem \<Rightarrow> addr \<Rightarrow> addr \<Rightarrow> nat \<Rightarrow> int" where
  "memcmp m p1 p2 0 = 0"
| "memcmp m p1 p2 (Suc num) =
     (if m p1 \<noteq> m p2 then char_diff (m p1) (m p2) else memcmp m (p1 + 1) (p2 + 1) num)"

fun memchr :: "mem \<Rightarrow> addr \<Rightarrow> int \<Rightarrow> nat \<Rightarrow> addr" where
  "memchr m p val 0 = 0"
| "memchr m p val (Suc num) = (if m p = char_of val then p else memchr m (p + 1) val num)"

subsection \<open>Character classes\<close>

definition isdigit :: "int \<Rightarrow> bool" where "isdigit c = (48 \<le> c \<and> c \<le> 57)"
definition isupper :: "int \<Rightarrow> bool" where "isupper c = (65 \<le> c \<and> c \<le> 90)"
definition islower :: "int \<Rightarrow> bool" where "islower c = (97 \<le> c \<and> c \<le> 122)"
definition isalpha :: "int \<Rightarrow> bool" where
  "isalpha c = ((97 \<le> c \<and> c \<le> 122) \<or> (65 \<le> c \<and> c \<le> 90))"
definition isalnum :: "int \<Rightarrow> bool" where "isalnum c = (isalpha c \<or> isdigit c)"
definition isspace :: "int \<Rightarrow> bool" where
  "isspace c = (c = 32 \<or> c = 9 \<or> c = 10 \<or> c = 13 \<or> c = 12 \<or> c = 11)"
definition toupper :: "int \<Rightarrow> int" where
  "toupper c = (if islower c then c - 97 + 65 else c)"
definition tolower :: "int \<Rightarrow> int" where
  "tolower c = (if isupper c then c - 65 + 97 else c)"

text \<open>A plain \<^verbatim>\<open>char\<close> is signed on i386 and is widened to \<^verbatim>\<open>int\<close> with its sign.\<close>

definition schar :: "byte \<Rightarrow> int" where
  "schar c = (if (of_char c :: int) < 128 then of_char c else of_char c - 256)"

subsection \<open>Numbers\<close>

text \<open>
  \<^verbatim>\<open>atoi\<close> and \<^verbatim>\<open>atol\<close>: \<^verbatim>\<open>int\<close> and \<^verbatim>\<open>long\<close> are 32 bits wide; the accumulator
  is a 32-bit word (the i386 multiplication and addition wrap).
\<close>

partial_function (option) skip_space :: "mem \<Rightarrow> addr \<Rightarrow> addr option" where
  "skip_space m str = (if isspace (schar (m str)) then skip_space m (str + 1) else Some str)"

partial_function (option) atoi_digits :: "mem \<Rightarrow> addr \<Rightarrow> u32 \<Rightarrow> u32 option" where
  "atoi_digits m str result =
     (if isdigit (schar (m str))
      then atoi_digits m (str + 1) (result * 10 + (of_int (schar (m str)) - 48))
      else Some result)"

definition atoi :: "mem \<Rightarrow> addr \<Rightarrow> u32 option" where
  "atoi m str = do {
     p \<leftarrow> skip_space m str;
     let sgn = (if m p = CHR ''-'' then - 1 else 1);
     let q = (if m p = CHR ''-'' then p + 1 else if m p = CHR ''+'' then p + 1 else p);
     result \<leftarrow> atoi_digits m q 0;
     Some (sgn * result) }"

definition atol :: "mem \<Rightarrow> addr \<Rightarrow> u32 option" where
  "atol m str = do {
     p \<leftarrow> skip_space m str;
     let sgn = (if m p = CHR ''-'' then - 1 else 1);
     let q = (if m p = CHR ''-'' then p + 1 else if m p = CHR ''+'' then p + 1 else p);
     result \<leftarrow> atoi_digits m q 0;
     Some (sgn * result) }"

definition digit_chars :: string where
  "digit_chars = ''0123456789abcdefghijklmnopqrstuvwxyz''"

text \<open>The \<^verbatim>\<open>do ... while\<close> loop of \<^verbatim>\<open>itoa\<close> and \<^verbatim>\<open>utoa\<close>; it returns the memory and the pointer
  after the last digit.  The base is at least 2 where it is called.\<close>

function put_digits :: "mem \<Rightarrow> addr \<Rightarrow> nat \<Rightarrow> nat \<Rightarrow> mem \<times> addr" where
  "put_digits m p u base =
     (let m' = m(p := digit_chars ! (u mod base)) in
      if 2 \<le> base \<and> u div base \<noteq> 0 then put_digits m' (p + 1) (u div base) base
      else (m', p + 1))"
  by pat_completeness auto
termination
  by (relation "measure (\<lambda>(m, p, u, base). u)") (auto simp: div_greater_zero_iff intro!: div_less_dividend)

function swap_ends :: "mem \<Rightarrow> addr \<Rightarrow> addr \<Rightarrow> mem" where
  "swap_ends m low p =
     (if low < p then swap_ends (m(low := m p, p := m low)) (low + 1) (p - 1) else m)"
  by pat_completeness auto
termination
  by (relation "measure (\<lambda>(m, low, p). p - low)") auto

declare put_digits.simps [simp del] swap_ends.simps [simp del]

definition itoa :: "mem \<Rightarrow> u32 \<Rightarrow> addr \<Rightarrow> int \<Rightarrow> mem" where
  "itoa m val str base =
     (if base < 2 \<or> base > 36 then m(str := NUL)
      else let neg = (sint val < 0 \<and> base = 10);
               m1 = (if neg then m(str := CHR ''-'') else m);
               low = (if neg then str + 1 else str);
               uvalue = (if neg then 0 - val else val);
               (m2, p) = put_digits m1 low (unat uvalue) (nat base);
               m3 = m2(p := NUL)
           in swap_ends m3 low (p - 1))"

definition utoa :: "mem \<Rightarrow> u32 \<Rightarrow> addr \<Rightarrow> int \<Rightarrow> mem" where
  "utoa m val str base =
     (if base < 2 \<or> base > 36 then m(str := NUL)
      else let (m2, p) = put_digits m str (unat val) (nat base);
               m3 = m2(p := NUL)
           in swap_ends m3 str (p - 1))"

subsection \<open>Tokens, spans and messages\<close>

text \<open>The scanning loops test membership with \<^verbatim>\<open>strchr\<close>; a NUL is never passed to it.\<close>

partial_function (option) skip_delims :: "mem \<Rightarrow> addr \<Rightarrow> addr \<Rightarrow> addr option" where
  "skip_delims m str delimiters =
     (if m str \<noteq> NUL
      then do { q \<leftarrow> strchr m delimiters (m str);
                if q \<noteq> 0 then skip_delims m (str + 1) delimiters else Some str }
      else Some str)"

partial_function (option) skip_token :: "mem \<Rightarrow> addr \<Rightarrow> addr \<Rightarrow> addr option" where
  "skip_token m str delimiters =
     (if m str \<noteq> NUL
      then do { q \<leftarrow> strchr m delimiters (m str);
                if q = 0 then skip_token m (str + 1) delimiters else Some str }
      else Some str)"

text \<open>\<^verbatim>\<open>strtok\<close> keeps its position in the static variable \<^verbatim>\<open>strtok_save\<close>, an argument and a
  result here: the token (or \<open>0\<close>), the memory and the new \<^verbatim>\<open>strtok_save\<close>.\<close>

definition strtok :: "mem \<Rightarrow> addr \<Rightarrow> addr \<Rightarrow> addr \<Rightarrow> (addr \<times> mem \<times> addr) option" where
  "strtok m strtok_save str0 delimiters =
     (if str0 = 0 \<and> strtok_save = 0 then Some (0, m, strtok_save)
      else do {
        str \<leftarrow> skip_delims m (if str0 = 0 then strtok_save else str0) delimiters;
        if m str = NUL then Some (0, m, 0)
        else do {
          e \<leftarrow> skip_token m str delimiters;
          if m e = NUL then Some (str, m, 0)
          else Some (str, m(e := NUL), e + 1) } })"

partial_function (option) strspn_loop :: "mem \<Rightarrow> addr \<Rightarrow> addr \<Rightarrow> nat \<Rightarrow> nat option" where
  "strspn_loop m str1 str2 count =
     (if m str1 \<noteq> NUL
      then do { q \<leftarrow> strchr m str2 (m str1);
                if q \<noteq> 0 then strspn_loop m (str1 + 1) str2 (count + 1) else Some count }
      else Some count)"

definition strspn :: "mem \<Rightarrow> addr \<Rightarrow> addr \<Rightarrow> nat option" where
  "strspn m str1 str2 = strspn_loop m str1 str2 0"

partial_function (option) strcspn_loop :: "mem \<Rightarrow> addr \<Rightarrow> addr \<Rightarrow> nat \<Rightarrow> nat option" where
  "strcspn_loop m str1 str2 count =
     (if m str1 \<noteq> NUL
      then do { q \<leftarrow> strchr m str2 (m str1);
                if q = 0 then strcspn_loop m (str1 + 1) str2 (count + 1) else Some count }
      else Some count)"

definition strcspn :: "mem \<Rightarrow> addr \<Rightarrow> addr \<Rightarrow> nat option" where
  "strcspn m str1 str2 = strcspn_loop m str1 str2 0"

partial_function (option) strpbrk :: "mem \<Rightarrow> addr \<Rightarrow> addr \<Rightarrow> addr option" where
  "strpbrk m str1 str2 =
     (if m str1 \<noteq> NUL
      then do { q \<leftarrow> strchr m str2 (m str1);
                if q \<noteq> 0 then Some str1 else strpbrk m (str1 + 1) str2 }
      else Some 0)"

definition error_messages :: "string list" where
  "error_messages =
     [''No error'', ''Operation not permitted'', ''No such file or directory'',
      ''Interrupted system call'', ''Input/output error'', ''Bad file descriptor'',
      ''No child processes'', ''Out of memory'', ''Permission denied'', ''Bad address'',
      ''Try again'']"

definition strerror :: "int \<Rightarrow> string" where
  "strerror errnum =
     (if errnum < 0 \<or> errnum \<ge> int (length error_messages) then ''Unknown error''
      else error_messages ! nat errnum)"

subsection \<open>Strings in memory\<close>

text \<open>\<open>cstr m p s\<close>: the NUL-terminated string at \<open>p\<close> is \<open>s\<close>.\<close>

fun cstr :: "mem \<Rightarrow> addr \<Rightarrow> string \<Rightarrow> bool" where
  "cstr m p [] = (m p = NUL)"
| "cstr m p (c # cs) = (c \<noteq> NUL \<and> m p = c \<and> cstr m (p + 1) cs)"

lemma cstr_append: "cstr m p (s @ t) = (NUL \<notin> set s \<and> (\<forall>i < length s. m (p + i) = s ! i)
    \<and> cstr m (p + length s) t)"
proof (induction s arbitrary: p)
  case (Cons c s)
  have "(\<forall>i < Suc (length s). m (p + i) = (c # s) ! i) =
      (m p = c \<and> (\<forall>i < length s. m (p + 1 + i) = s ! i))"
    by (auto simp: less_Suc_eq_0_disj)
  then show ?case by (auto simp: Cons)
qed simp

lemma cstr_iff: "cstr m p s = (NUL \<notin> set s \<and> (\<forall>i < length s. m (p + i) = s ! i)
    \<and> m (p + length s) = NUL)"
  using cstr_append [of m p s "[]"] by simp

lemma cstr_frame:
  assumes "cstr m p s" "\<And>i. i \<le> length s \<Longrightarrow> m' (p + i) = m (p + i)"
  shows "cstr m' p s"
  using assms by (auto simp: cstr_iff)

lemma cstr_unique: "cstr m p s \<Longrightarrow> cstr m p t \<Longrightarrow> s = t"
proof (induction s arbitrary: p t)
  case Nil
  then show ?case by (cases t) auto
next
  case (Cons c s)
  then show ?case by (cases t) auto
qed

subsection \<open>Length\<close>

lemma strlen_loop_cstr: "cstr m (str + len) s \<Longrightarrow> strlen_loop m str len = Some (len + length s)"
proof (induction s arbitrary: len)
  case Nil
  then show ?case by (subst strlen_loop.simps) simp
next
  case (Cons c s)
  then show ?case by (subst strlen_loop.simps) (simp add: Cons.IH)
qed

lemma strlen_cstr: "cstr m p s \<Longrightarrow> strlen m p = Some (length s)"
  using strlen_loop_cstr [of m p 0 s] by (simp add: strlen_def)

lemma seek_nul_cstr: "cstr m p s \<Longrightarrow> seek_nul m p = Some (p + length s)"
proof (induction s arbitrary: p)
  case Nil
  then show ?case by (subst seek_nul.simps) simp
next
  case (Cons c s)
  then show ?case by (subst seek_nul.simps) simp
qed

subsection \<open>Writing a string\<close>

text \<open>The memory after the bytes of \<open>s\<close> have been written at \<open>p\<close>.\<close>

definition put_bytes :: "mem \<Rightarrow> addr \<Rightarrow> byte list \<Rightarrow> mem" where
  "put_bytes m p s = (\<lambda>a. if p \<le> a \<and> a < p + length s then s ! (a - p) else m a)"

lemma put_bytes_Nil [simp]: "put_bytes m p [] = m"
  by (rule ext) (auto simp: put_bytes_def)

lemma put_bytes_Cons: "put_bytes m p (c # s) = put_bytes (m(p := c)) (p + 1) s"
  by (rule ext) (auto simp: put_bytes_def nth_Cons split: nat.splits
      intro!: arg_cong [where f = "(!) s"])

lemma put_bytes_append: "put_bytes m p (s @ t) = put_bytes (put_bytes m p s) (p + length s) t"
  by (rule ext) (auto simp: put_bytes_def nth_append)

lemma put_bytes_snoc: "put_bytes m p (s @ [c]) = (put_bytes m p s)(p + length s := c)"
  by (rule ext) (auto simp: put_bytes_def nth_append)

lemma put_bytes_outside [mem_simps]: "a < p \<or> p + length s \<le> a \<Longrightarrow> put_bytes m p s a = m a"
  by (auto simp: put_bytes_def)

lemma put_bytes_inside [mem_simps]: "i < length s \<Longrightarrow> put_bytes m p s (p + i) = s ! i"
  by (auto simp: put_bytes_def)

lemma cstr_put_bytes: "NUL \<notin> set s \<Longrightarrow> cstr (put_bytes m p (s @ [NUL])) p s"
  by (auto simp: cstr_iff put_bytes_def nth_append)

lemma cstr_put_bytes_other:
  "cstr m q t \<Longrightarrow> q + length t < p \<or> p + length s \<le> q \<Longrightarrow> cstr (put_bytes m p s) q t"
  by (auto simp: cstr_iff put_bytes_def)

text \<open>The source and destination of a copy do not overlap destructively: the destination is
  at or below the source, or it starts after the source's terminator.\<close>

lemma strcpy_loop_cstr:
  assumes "cstr m src s" "d \<le> src \<or> src + length s < d"
  shows "strcpy_loop m d src = Some (put_bytes m d (s @ [NUL]))"
  using assms
proof (induction s arbitrary: m d src)
  case Nil
  then show ?case by (subst strcpy_loop.simps) (simp add: put_bytes_Cons)
next
  case (Cons c s)
  have "cstr (m(d := c)) (src + 1) s"
    by (rule cstr_frame [of m]) (use Cons.prems in auto)
  then have "strcpy_loop (m(d := c)) (d + 1) (src + 1)
      = Some (put_bytes (m(d := c)) (d + 1) (s @ [NUL]))"
    by (rule Cons.IH) (use Cons.prems(2) in auto)
  with Cons.prems(1) show ?case
    by (subst strcpy_loop.simps) (simp add: put_bytes_Cons)
qed

lemma strcat_cstr:
  assumes "cstr m dest s" "cstr m src t"
    "dest + length s \<le> src \<or> src + length t < dest + length s"
  shows "strcat m dest src = Some (put_bytes m (dest + length s) (t @ [NUL]))"
  using assms by (simp add: strcat_def seek_nul_cstr strcpy_loop_cstr)

lemma cstr_put_bytes_at_end:
  assumes "cstr m dest s" "NUL \<notin> set t"
  shows "cstr (put_bytes m (dest + length s) (t @ [NUL])) dest (s @ t)"
  using assms by (auto simp: cstr_iff put_bytes_def nth_append)

subsection \<open>Comparison\<close>

text \<open>The order \<^verbatim>\<open>strcmp\<close> computes: the sign of the first difference, on unsigned bytes.\<close>

fun str_diff :: "string \<Rightarrow> string \<Rightarrow> int" where
  "str_diff [] [] = 0"
| "str_diff [] (d # ds) = char_diff NUL d"
| "str_diff (c # cs) [] = char_diff c NUL"
| "str_diff (c # cs) (d # ds) = (if c = d then str_diff cs ds else char_diff c d)"

lemma char_diff_eq_0 [simp]: "char_diff a b = 0 \<longleftrightarrow> a = b"
  by (auto simp: char_diff_def)

lemma char_diff_NUL [simp]: "char_diff NUL NUL = 0"
  by (simp add: char_diff_def)

lemma str_diff_eq_0: "NUL \<notin> set s \<Longrightarrow> NUL \<notin> set t \<Longrightarrow> str_diff s t = 0 \<longleftrightarrow> s = t"
  by (induction s t rule: str_diff.induct) auto

lemma strcmp_cstr: "cstr m p s \<Longrightarrow> cstr m q t \<Longrightarrow> strcmp m p q = Some (str_diff s t)"
proof (induction s t arbitrary: p q rule: str_diff.induct)
  case 1
  then show ?case by (subst strcmp.simps) simp
next
  case (2 d ds)
  then show ?case by (subst strcmp.simps) simp
next
  case (3 c cs)
  then show ?case by (subst strcmp.simps) simp
next
  case (4 c cs d ds)
  then show ?case by (subst strcmp.simps) simp
qed

lemma strncmp_loop_cstr:
  "cstr m p s \<Longrightarrow> cstr m q t \<Longrightarrow> n \<noteq> 0 \<Longrightarrow>
     strncmp_loop m p q n = str_diff (take n s) (take n t)"
proof (induction s t arbitrary: p q n rule: str_diff.induct)
  case 1
  then show ?case by (cases n) auto
next
  case (2 d ds)
  then show ?case by (cases n) auto
next
  case (3 c cs)
  then show ?case by (cases n) auto
next
  case (4 c cs d ds)
  then obtain k where n: "n = Suc k" by (cases n) auto
  show ?case
  proof (cases "c = d \<and> k \<noteq> 0")
    case True
    with 4 n show ?thesis by simp
  next
    case False
    with 4 n show ?thesis by auto
  qed
qed

lemma strncmp_cstr:
  "cstr m p s \<Longrightarrow> cstr m q t \<Longrightarrow> strncmp m p q n = str_diff (take n s) (take n t)"
  by (simp add: strncmp_def strncmp_loop_cstr)

subsection \<open>Searching\<close>

lemma strchr_cstr:
  "cstr m p s \<Longrightarrow> ch \<noteq> NUL \<Longrightarrow>
     strchr m p ch = Some (if ch \<in> set s then p + length (takeWhile (\<lambda>c. c \<noteq> ch) s) else 0)"
proof (induction s arbitrary: p)
  case Nil
  then show ?case by (subst strchr.simps) simp
next
  case (Cons c s)
  then show ?case by (subst strchr.simps) auto
qed

lemma strchr_member: "cstr m p s \<Longrightarrow> ch \<noteq> NUL \<Longrightarrow> p \<noteq> 0 \<Longrightarrow>
    \<exists>q. strchr m p ch = Some q \<and> (q \<noteq> 0 \<longleftrightarrow> ch \<in> set s)"
  by (simp add: strchr_cstr)

text \<open>Position of the last occurrence.\<close>

fun last_index :: "byte \<Rightarrow> string \<Rightarrow> nat option" where
  "last_index ch [] = None"
| "last_index ch (c # cs) =
     (case last_index ch cs of Some i \<Rightarrow> Some (Suc i)
      | None \<Rightarrow> if c = ch then Some 0 else None)"

lemma last_index_None: "last_index ch s = None \<longleftrightarrow> ch \<notin> set s"
  by (induction s) (auto split: option.splits)

lemma last_index_Some:
  "last_index ch s = Some i \<Longrightarrow> i < length s \<and> s ! i = ch \<and> ch \<notin> set (drop (Suc i) s)"
proof (induction s arbitrary: i)
  case (Cons c s)
  then show ?case
    by (cases "last_index ch s") (auto simp: last_index_None split: if_splits)
qed simp

lemma strrchr_loop_cstr:
  "cstr m p s \<Longrightarrow> ch \<noteq> NUL \<Longrightarrow>
     strrchr_loop m p ch l = Some (case last_index ch s of None \<Rightarrow> l | Some i \<Rightarrow> p + i)"
proof (induction s arbitrary: p l)
  case Nil
  then show ?case by (subst strrchr_loop.simps) simp
next
  case (Cons c s)
  then show ?case
    by (subst strrchr_loop.simps) (auto simp: Let_def split: option.splits)
qed

lemma strrchr_cstr:
  "cstr m p s \<Longrightarrow> ch \<noteq> NUL \<Longrightarrow>
     strrchr m p ch = Some (case last_index ch s of None \<Rightarrow> 0 | Some i \<Rightarrow> p + i)"
  by (simp add: strrchr_def strrchr_loop_cstr)

text \<open>Position of the first occurrence of a string.\<close>

fun str_find :: "string \<Rightarrow> string \<Rightarrow> nat option" where
  "str_find [] needle = (if needle = [] then Some 0 else None)"
| "str_find (c # cs) needle =
     (if take (length needle) (c # cs) = needle then Some 0
      else map_option Suc (str_find cs needle))"

lemma strstr_match_cstr:
  assumes "cstr m h s" "cstr m n t"
  shows "\<exists>k. strstr_match m h n = Some (n + k) \<and>
    (m (n + k) = NUL \<longleftrightarrow> take (length t) s = t)"
  using assms
proof (induction t arbitrary: h n s)
  case Nil
  then have "strstr_match m h n = Some n" by (subst strstr_match.simps) simp
  with Nil show ?case by (intro exI [of _ 0]) simp
next
  case (Cons d t)
  show ?case
  proof (cases s)
    case Nil
    with Cons.prems have "strstr_match m h n = Some n" by (subst strstr_match.simps) simp
    with Cons.prems Nil show ?thesis by (intro exI [of _ 0]) simp
  next
    case (Cons c s')
    show ?thesis
    proof (cases "c = d")
      case True
      with Cons.prems Cons obtain k where
        k: "strstr_match m (h + 1) (n + 1) = Some (n + 1 + k)"
          "m (n + 1 + k) = NUL \<longleftrightarrow> take (length t) s' = t"
        using Cons.IH [of "h + 1" s' "n + 1"] by auto
      have "strstr_match m h n = Some (n + Suc k)"
        using True Cons.prems Cons k(1) by (subst strstr_match.simps) simp
      moreover have "m (n + Suc k) = NUL \<longleftrightarrow> take (length (d # t)) s = d # t"
        using k(2) True Cons by simp
      ultimately show ?thesis by blast
    next
      case False
      with Cons.prems Cons have "strstr_match m h n = Some n"
        by (subst strstr_match.simps) auto
      with False Cons.prems Cons show ?thesis by (intro exI [of _ 0]) simp
    qed
  qed
qed

lemma strstr_loop_cstr:
  assumes "cstr m h s" "cstr m n t" "t \<noteq> []"
  shows "strstr_loop m h n = Some (case str_find s t of None \<Rightarrow> 0 | Some i \<Rightarrow> h + i)"
  using assms
proof (induction s arbitrary: h)
  case Nil
  then show ?case by (subst strstr_loop.simps) simp
next
  case (Cons c s)
  obtain k where k: "strstr_match m h n = Some (n + k)"
    "m (n + k) = NUL \<longleftrightarrow> take (length t) (c # s) = t"
    using strstr_match_cstr [OF Cons.prems(1,2)] by blast
  have ih: "strstr_loop m (h + 1) n = Some (case str_find s t of None \<Rightarrow> 0 | Some i \<Rightarrow> h + 1 + i)"
    using Cons by (auto split: option.splits)
  obtain d t' where t: "t = d # t'" using Cons.prems(3) by (cases t) auto
  show ?case
  proof (cases "c = d")
    case True
    with Cons.prems t k ih show ?thesis
      by (subst strstr_loop.simps) (auto split: option.splits)
  next
    case False
    with Cons.prems t ih show ?thesis
      by (subst strstr_loop.simps) (auto split: option.splits)
  qed
qed

lemma strstr_cstr:
  assumes "cstr m h s" "cstr m n t"
  shows "strstr m h n = Some (case str_find s t of None \<Rightarrow> 0 | Some i \<Rightarrow> h + i)"
proof (cases t)
  case Nil
  with assms show ?thesis by (cases s) (auto simp: strstr_def)
next
  case Cons
  with assms strstr_loop_cstr [OF assms] show ?thesis by (auto simp: strstr_def)
qed

lemma str_find_Some:
  "str_find s t = Some i \<Longrightarrow>
     take (length t) (drop i s) = t \<and> (\<forall>j < i. take (length t) (drop j s) \<noteq> t)"
proof (induction s arbitrary: i)
  case Nil
  then show ?case by (auto split: if_splits)
next
  case (Cons c s)
  show ?case
  proof (cases "take (length t) (c # s) = t")
    case True
    with Cons.prems show ?thesis by simp
  next
    case False
    with Cons.prems obtain k where "str_find s t = Some k" "i = Suc k" by auto
    with False Cons.IH [of k] show ?thesis by (auto simp: less_Suc_eq_0_disj)
  qed
qed

lemma str_find_None: "str_find s t = None \<Longrightarrow> t \<noteq> [] \<and> (\<forall>j. take (length t) (drop j s) \<noteq> t)"
proof (induction s)
  case Nil
  then show ?case by (auto split: if_splits)
next
  case (Cons c s)
  then have "take (length t) (c # s) \<noteq> t" "str_find s t = None"
    by (auto split: if_splits)
  with Cons.IH show ?case by (auto simp: drop_Cons split: nat.splits)
qed

subsection \<open>Raw memory\<close>

lemma memset_eq: "memset m p v n = put_bytes m p (replicate n (char_of v))"
  by (induction n arbitrary: m p) (auto simp: put_bytes_Cons)

text \<open>The ascending loop copies the source as it was unless the destination starts inside the
  source range, above its start.\<close>

lemma memcpy_eq:
  assumes "d \<le> s \<or> s + n \<le> d"
  shows "memcpy m d s n = put_bytes m d (map (\<lambda>i. m (s + i)) [0..<n])"
  using assms
proof (induction n arbitrary: m d s)
  case (Suc n)
  have shift: "map (\<lambda>i. (m(d := m s)) (s + 1 + i)) [0..<n] = map (\<lambda>i. m (s + Suc i)) [0..<n]"
    using Suc.prems by auto
  have "memcpy (m(d := m s)) (d + 1) (s + 1) n
      = put_bytes (m(d := m s)) (d + 1) (map (\<lambda>i. (m(d := m s)) (s + 1 + i)) [0..<n])"
    by (rule Suc.IH) (use Suc.prems in auto)
  also have "\<dots> = put_bytes (m(d := m s)) (d + 1) (map (\<lambda>i. m (s + Suc i)) [0..<n])"
    by (simp only: shift)
  also have "\<dots> = put_bytes m d (map (\<lambda>i. m (s + i)) [0..<Suc n])"
    by (simp add: put_bytes_Cons upt_conv_Cons map_Suc_upt [symmetric] comp_def del: upt_Suc)
  finally show ?case by simp
qed simp

lemma memmove_down_eq:
  assumes "s \<le> d \<or> d + n \<le> s"
  shows "memmove_down m (d + n) (s + n) n = put_bytes m d (map (\<lambda>i. m (s + i)) [0..<n])"
  using assms
proof (induction n arbitrary: m)
  case (Suc n)
  let ?m = "m(d + n := m (s + n))"
  have shift: "map (\<lambda>i. ?m (s + i)) [0..<n] = map (\<lambda>i. m (s + i)) [0..<n]"
    using Suc.prems by auto
  have "memmove_down ?m (d + n) (s + n) n = put_bytes ?m d (map (\<lambda>i. ?m (s + i)) [0..<n])"
    by (rule Suc.IH) (use Suc.prems in auto)
  also have "\<dots> = put_bytes ?m d (map (\<lambda>i. m (s + i)) [0..<n])"
    by (simp only: shift)
  also have "\<dots> = (put_bytes m d (map (\<lambda>i. m (s + i)) [0..<n]))(d + n := m (s + n))"
    by (rule ext) (auto simp: put_bytes_def)
  also have "\<dots> = put_bytes m d (map (\<lambda>i. m (s + i)) [0..<Suc n])"
    using put_bytes_snoc [of m d "map (\<lambda>i. m (s + i)) [0..<n]" "m (s + n)"] by simp
  finally show ?case by simp
qed simp

lemma memmove_eq: "memmove m d s n = put_bytes m d (map (\<lambda>i. m (s + i)) [0..<n])"
  by (cases "d < s") (simp_all add: memmove_def memcpy_eq memmove_down_eq)

lemma memcmp_eq_0: "memcmp m p q n = 0 \<longleftrightarrow> (\<forall>i < n. m (p + i) = m (q + i))"
  by (induction n arbitrary: p q) (auto simp: less_Suc_eq_0_disj)

lemma memchr_eq: "memchr m p v n = (if \<exists>i < n. m (p + i) = char_of v
    then p + (LEAST i. m (p + i) = char_of v) else 0)"
proof (induction n arbitrary: p)
  case (Suc n)
  show ?case
  proof (cases "m p = char_of v")
    case True
    then have "(LEAST i. m (p + i) = char_of v) = 0" by (intro Least_equality) auto
    with True show ?thesis by auto
  next
    case False
    have ex: "(\<exists>i < Suc n. m (p + i) = char_of v) = (\<exists>i < n. m (p + 1 + i) = char_of v)"
      using False by (auto simp: less_Suc_eq_0_disj)
    show ?thesis
    proof (cases "\<exists>i < n. m (p + 1 + i) = char_of v")
      case True
      then obtain i where "m (p + Suc i) = char_of v" by auto
      then have "(LEAST i. m (p + i) = char_of v) = Suc (LEAST i. m (p + Suc i) = char_of v)"
        using False Least_Suc [of "\<lambda>i. m (p + i) = char_of v" "Suc i"] by simp
      with True False ex show ?thesis by (simp add: Suc.IH)
    next
      case no: False
      with False ex show ?thesis by (auto simp: Suc.IH)
    qed
  qed
qed simp

subsection \<open>Bounded copying\<close>

lemma strncpy_pad_eq: "i \<le> n \<Longrightarrow>
    strncpy_pad m dest n i = put_bytes m (dest + i) (replicate (n - i) NUL)"
proof (induction m dest n i rule: strncpy_pad.induct)
  case (1 m dest n i)
  show ?case
  proof (cases "i < n")
    case True
    then have "replicate (n - i) NUL = NUL # replicate (n - Suc i) NUL"
      by (metis Suc_diff_Suc replicate_Suc)
    with 1 True show ?thesis
      by (simp add: strncpy_pad.simps [of m dest n i] put_bytes_Cons fun_upd_def)
  next
    case False
    with 1 have "i = n" by simp
    then show ?thesis by (subst strncpy_pad.simps) simp
  qed
qed

lemma strncpy_copy_cstr:
  assumes "cstr m (src + i) s" "i \<le> n" "dest + n \<le> src \<or> src + i + length s < dest"
  shows "strncpy_copy m dest src n i =
    (put_bytes m (dest + i) (take (n - i) s), i + length (take (n - i) s))"
  using assms
proof (induction s arbitrary: m i)
  case Nil
  then show ?case by (subst strncpy_copy.simps) simp
next
  case (Cons c s)
  show ?case
  proof (cases "i < n")
    case True
    let ?m = "m(dest + i := c)"
    have "cstr ?m (src + Suc i) s"
      by (rule cstr_frame [of m]) (use Cons.prems True in auto)
    then have "strncpy_copy ?m dest src n (Suc i) = (put_bytes ?m (dest + Suc i) (take (n - Suc i) s),
        Suc i + length (take (n - Suc i) s))"
      by (rule Cons.IH) (use Cons.prems True in auto)
    moreover have "take (n - i) (c # s) = c # take (n - Suc i) s"
      using True by (metis Suc_diff_Suc take_Suc_Cons)
    ultimately show ?thesis
      using Cons.prems True by (subst strncpy_copy.simps) (simp add: put_bytes_Cons)
  next
    case False
    with Cons.prems show ?thesis by (subst strncpy_copy.simps) simp
  qed
qed

lemma strncpy_cstr:
  assumes "cstr m src s" "dest + n \<le> src \<or> src + length s < dest"
  shows "strncpy m dest src n = put_bytes m dest (take n s @ replicate (n - length s) NUL)"
proof -
  have "strncpy_copy m dest src n 0 = (put_bytes m dest (take n s), length (take n s))"
    using strncpy_copy_cstr [of m src 0 s n dest] assms by simp
  then have "strncpy m dest src n
      = put_bytes (put_bytes m dest (take n s)) (dest + length (take n s))
          (replicate (n - length (take n s)) NUL)"
    by (simp add: strncpy_def strncpy_pad_eq)
  moreover have "n - length (take n s) = n - length s" by auto
  ultimately show ?thesis by (simp only: put_bytes_append)
qed

subsection \<open>Numerals\<close>

text \<open>The digits the loop of \<^verbatim>\<open>itoa\<close> produces, least significant first.\<close>

function rdigits :: "nat \<Rightarrow> nat \<Rightarrow> string" where
  "rdigits base u = digit_chars ! (u mod base) #
     (if 2 \<le> base \<and> u div base \<noteq> 0 then rdigits base (u div base) else [])"
  by pat_completeness auto
termination
  by (relation "measure snd") (auto simp: div_greater_zero_iff intro!: div_less_dividend)

declare rdigits.simps [simp del]

lemma put_digits_eq:
  "put_digits m p u base = (put_bytes m p (rdigits base u), p + length (rdigits base u))"
proof (induction m p u base rule: put_digits.induct)
  case (1 m p u base)
  show ?case
  proof (cases "2 \<le> base \<and> u div base \<noteq> 0")
    case True
    have "put_digits (m(p := digit_chars ! (u mod base))) (p + 1) (u div base) base =
        (put_bytes (m(p := digit_chars ! (u mod base))) (p + 1) (rdigits base (u div base)),
         p + 1 + length (rdigits base (u div base)))"
      using 1 [OF refl True] by (simp add: fun_upd_def)
    with True show ?thesis
      by (simp add: put_digits.simps [of m p u base] rdigits.simps [of base u] put_bytes_Cons)
  next
    case False
    then have c: "(2 \<le> base \<and> u div base \<noteq> 0) = False" by blast
    show ?thesis
      by (simp only: put_digits.simps [of m p u base] rdigits.simps [of base u] c Let_def if_False)
        (simp add: put_bytes_Cons fun_upd_def)
  qed
qed

text \<open>Swapping from both ends reverses the bytes between them.\<close>

lemma put_bytes_swap:
  "(put_bytes m p ([a] @ s @ [b]))(p := b, p + Suc (length s) := a) = put_bytes m p ([b] @ s @ [a])"
  by (rule ext) (auto simp: put_bytes_def nth_append nth_Cons')

lemma swap_ends_rev:
  "swap_ends (put_bytes m low s) low (low + length s - 1) = put_bytes m low (rev s)"
proof (induction "length s" arbitrary: m low s rule: less_induct)
  case less
  show ?case
  proof (cases "length s < 2")
    case True
    then have "rev s = s" by (cases s; cases "tl s") auto
    with True show ?thesis by (subst swap_ends.simps) auto
  next
    case False
    then obtain a t b where s: "s = [a] @ t @ [b]"
      by (cases s; cases "tl s" rule: rev_cases) auto
    let ?m = "m(low := b, low + Suc (length t) := a)"
    have "swap_ends (put_bytes m low s) low (low + length s - 1)
        = swap_ends (put_bytes m low ([b] @ t @ [a])) (low + 1) (low + length t)"
      using put_bytes_swap [of m low a t b]
      by (subst swap_ends.simps) (simp add: s mem_simps put_bytes_def)
    also have "put_bytes m low ([b] @ t @ [a]) = put_bytes ?m (low + 1) t"
      by (rule ext) (auto simp: put_bytes_def nth_append nth_Cons')
    also have "swap_ends \<dots> (low + 1) (low + length t) = put_bytes ?m (low + 1) (rev t)"
      using less [of t ?m "low + 1"] s by simp
    also have "\<dots> = put_bytes m low (rev s)"
      by (rule ext) (auto simp: put_bytes_def nth_append nth_Cons' s)
    finally show ?thesis .
  qed
qed

text \<open>The numeral \<^verbatim>\<open>itoa\<close> writes.\<close>

definition itoa_string :: "u32 \<Rightarrow> nat \<Rightarrow> string" where
  "itoa_string val base =
     (if sint val < 0 \<and> base = 10 then CHR ''-'' # rev (rdigits base (unat (- val)))
      else rev (rdigits base (unat val)))"

lemma write_digits_eq:
  assumes "put_digits m low u base = (m2, p)"
  shows "swap_ends (m2(p := NUL)) low (p - 1) = put_bytes m low (rev (rdigits base u) @ [NUL])"
proof -
  let ?ds = "rdigits base u"
  have eq: "m2 = put_bytes m low ?ds" "p = low + length ?ds"
    using assms by (simp_all add: put_digits_eq)
  have "m2(p := NUL) = put_bytes (m(p := NUL)) low ?ds"
    by (rule ext) (auto simp: eq put_bytes_def)
  then have "swap_ends (m2(p := NUL)) low (p - 1) = put_bytes (m(p := NUL)) low (rev ?ds)"
    using swap_ends_rev [of "m(p := NUL)" low ?ds] by (simp only: eq(2))
  also have "\<dots> = put_bytes m low (rev ?ds @ [NUL])"
    by (rule ext) (auto simp: put_bytes_def eq nth_append)
  finally show ?thesis .
qed

lemma itoa_eq:
  assumes "2 \<le> base" "base \<le> 36"
  shows "itoa m val str base = put_bytes m str (itoa_string val (nat base) @ [NUL])"
proof -
  let ?neg = "sint val < 0 \<and> base = 10"
  obtain m2 p where pd: "put_digits (if ?neg then m(str := CHR ''-'') else m)
      (if ?neg then str + 1 else str) (unat (if ?neg then 0 - val else val)) (nat base) = (m2, p)"
    by fastforce
  have base: "nat base = 10 \<longleftrightarrow> base = 10" by auto
  from write_digits_eq [OF pd] assms show ?thesis
    unfolding itoa_def itoa_string_def Let_def pd
    by (auto simp: put_bytes_Cons base split: if_splits)
qed

lemma utoa_eq:
  assumes "2 \<le> base" "base \<le> 36"
  shows "utoa m val str base = put_bytes m str (rev (rdigits (nat base) (unat val)) @ [NUL])"
proof -
  obtain m2 p where pd: "put_digits m str (unat val) (nat base) = (m2, p)" by fastforce
  from write_digits_eq [OF pd] assms show ?thesis by (simp add: utoa_def pd)
qed

lemma digit_chars_not_NUL: "NUL \<notin> set digit_chars"
  by (simp add: digit_chars_def)

lemma digit_chars_nth: "k < 36 \<Longrightarrow> digit_chars ! k \<in> set digit_chars"
  by (rule nth_mem) (simp add: digit_chars_def)

lemma set_rdigits: "base \<le> 36 \<Longrightarrow> 0 < base \<Longrightarrow> set (rdigits base u) \<subseteq> set digit_chars"
proof (induction base u rule: rdigits.induct)
  case (1 base u)
  have "digit_chars ! (u mod base) \<in> set digit_chars"
    using 1 by (intro digit_chars_nth) (meson mod_less_divisor order_less_le_trans)
  with 1 show ?case by (subst rdigits.simps) auto
qed

lemma itoa_string_not_NUL:
  assumes "2 \<le> base" "base \<le> 36"
  shows "NUL \<notin> set (itoa_string val base)"
proof -
  have "NUL \<notin> set (rdigits base u)" for u
    using assms set_rdigits [of base u] digit_chars_not_NUL by auto
  then show ?thesis by (auto simp: itoa_string_def)
qed

definition dec_step :: "u32 \<Rightarrow> byte \<Rightarrow> u32" where
  "dec_step r c = r * 10 + (of_int (schar c) - 48)"

lemma atoi_digits_cstr:
  assumes "cstr m p s" "\<forall>c \<in> set s. isdigit (schar c)"
  shows "atoi_digits m p r = Some (foldl dec_step r s)"
  using assms
proof (induction s arbitrary: p r)
  case Nil
  then show ?case by (subst atoi_digits.simps) (simp add: isdigit_def schar_def)
next
  case (Cons c s)
  then have "atoi_digits m p r = atoi_digits m (p + 1) (dec_step r c)"
    by (subst atoi_digits.simps) (simp add: dec_step_def)
  with Cons show ?case by simp
qed

lemma dec_digit: "k < 10 \<Longrightarrow> schar (digit_chars ! k) = 48 + int k"
  by (auto simp: less_Suc_eq numeral_eq_Suc digit_chars_def schar_def)

lemma rdigits_dec_isdigit: "c \<in> set (rdigits 10 u) \<Longrightarrow> isdigit (schar c)"
proof (induction "10::nat" u rule: rdigits.induct)
  case (1 u)
  have "isdigit (schar (digit_chars ! (u mod 10)))"
    by (simp add: dec_digit isdigit_def)
  with 1 show ?case by (subst (asm) rdigits.simps) (auto split: if_splits)
qed

lemma foldl_dec_digits: "foldl dec_step 0 (rev (rdigits 10 u)) = of_nat u"
proof (induction "10::nat" u rule: rdigits.induct)
  case (1 u)
  have last: "dec_step r (digit_chars ! (u mod 10)) = r * 10 + of_nat (u mod 10)" for r
    by (simp add: dec_step_def dec_digit)
  have split: "(of_nat u :: u32) = of_nat (u div 10) * 10 + of_nat (u mod 10)"
    by (metis div_mult_mod_eq of_nat_add of_nat_mult of_nat_numeral)
  show ?case
  proof (cases "u div 10 = 0")
    case True
    then have "rdigits 10 u = [digit_chars ! (u mod 10)]" by (subst rdigits.simps) simp
    then show ?thesis using split True last [of 0] by simp
  next
    case False
    with 1 have "foldl dec_step 0 (rev (rdigits 10 (u div 10))) = of_nat (u div 10)" by simp
    with False show ?thesis using split by (subst rdigits.simps) (simp add: last)
  qed
qed

lemma skip_space_stop: "\<not> isspace (schar (m p)) \<Longrightarrow> skip_space m p = Some p"
  by (subst skip_space.simps) simp

lemma isdigit_facts:
  assumes "isdigit (schar c)"
  shows "\<not> isspace (schar c)" "c \<noteq> CHR ''-''" "c \<noteq> CHR ''+''"
  using assms by (auto simp: isdigit_def isspace_def schar_def)

lemma atoi_unsigned:
  assumes "cstr m p s" "s \<noteq> []" "\<forall>c \<in> set s. isdigit (schar c)"
  shows "atoi m p = Some (foldl dec_step 0 s)"
proof -
  from assms have "isdigit (schar (m p))" by (cases s) auto
  from isdigit_facts [OF this] show ?thesis
    by (simp add: atoi_def skip_space_stop atoi_digits_cstr [OF assms(1,3)])
qed

lemma atoi_negative:
  assumes "cstr m p (CHR ''-'' # s)" "\<forall>c \<in> set s. isdigit (schar c)"
  shows "atoi m p = Some (- foldl dec_step 0 s)"
proof -
  have "\<not> isspace (schar (m p))" using assms by (simp add: isspace_def schar_def)
  moreover have "atoi_digits m (p + 1) 0 = Some (foldl dec_step 0 s)"
    using assms by (intro atoi_digits_cstr) auto
  ultimately show ?thesis using assms by (simp add: atoi_def skip_space_stop)
qed

lemma atoi_itoa_string:
  assumes "cstr m p (itoa_string v 10)"
  shows "atoi m p = Some v"
proof (cases "sint v < 0")
  case True
  with assms have "cstr m p (CHR ''-'' # rev (rdigits 10 (unat (- v))))"
    by (simp add: itoa_string_def)
  then have "atoi m p = Some (- foldl dec_step 0 (rev (rdigits 10 (unat (- v)))))"
    by (rule atoi_negative) (auto dest: rdigits_dec_isdigit)
  then show ?thesis by (simp add: foldl_dec_digits)
next
  case False
  with assms have c: "cstr m p (rev (rdigits 10 (unat v)))"
    by (simp add: itoa_string_def)
  have "rdigits 10 (unat v) \<noteq> []" by (subst rdigits.simps) simp
  then have "atoi m p = Some (foldl dec_step 0 (rev (rdigits 10 (unat v))))"
    by (intro atoi_unsigned [OF c]) (auto dest: rdigits_dec_isdigit)
  then show ?thesis by (simp add: foldl_dec_digits)
qed

subsection \<open>Spans and tokens\<close>

text \<open>Every scanning loop of this group asks \<^verbatim>\<open>strchr\<close> whether a character is in a string.\<close>

lemma strchr_mem:
  assumes "cstr m d ds" "d \<noteq> 0" "c \<noteq> NUL"
  obtains q where "strchr m d c = Some q" "q = 0 \<longleftrightarrow> c \<notin> set ds"
  using strchr_member [OF assms(1,3,2)] by auto

lemma skip_delims_cstr:
  assumes "cstr m p s" "cstr m d ds" "d \<noteq> 0"
  shows "skip_delims m p d = Some (p + length (takeWhile (\<lambda>c. c \<in> set ds) s))"
  using assms(1)
proof (induction s arbitrary: p)
  case Nil
  then show ?case by (subst skip_delims.simps) simp
next
  case (Cons c s)
  then obtain q where "strchr m d c = Some q" "q = 0 \<longleftrightarrow> c \<notin> set ds"
    using strchr_mem [OF assms(2,3), of c] by auto
  with Cons show ?case by (subst skip_delims.simps) auto
qed

lemma skip_token_cstr:
  assumes "cstr m p s" "cstr m d ds" "d \<noteq> 0"
  shows "skip_token m p d = Some (p + length (takeWhile (\<lambda>c. c \<notin> set ds) s))"
  using assms(1)
proof (induction s arbitrary: p)
  case Nil
  then show ?case by (subst skip_token.simps) simp
next
  case (Cons c s)
  then obtain q where "strchr m d c = Some q" "q = 0 \<longleftrightarrow> c \<notin> set ds"
    using strchr_mem [OF assms(2,3), of c] by auto
  with Cons show ?case by (subst skip_token.simps) auto
qed

lemma strspn_loop_cstr:
  assumes "cstr m p s" "cstr m d ds" "d \<noteq> 0"
  shows "strspn_loop m p d n = Some (n + length (takeWhile (\<lambda>c. c \<in> set ds) s))"
  using assms(1)
proof (induction s arbitrary: p n)
  case Nil
  then show ?case by (subst strspn_loop.simps) simp
next
  case (Cons c s)
  then obtain q where "strchr m d c = Some q" "q = 0 \<longleftrightarrow> c \<notin> set ds"
    using strchr_mem [OF assms(2,3), of c] by auto
  with Cons show ?case by (subst strspn_loop.simps) auto
qed

lemma strcspn_loop_cstr:
  assumes "cstr m p s" "cstr m d ds" "d \<noteq> 0"
  shows "strcspn_loop m p d n = Some (n + length (takeWhile (\<lambda>c. c \<notin> set ds) s))"
  using assms(1)
proof (induction s arbitrary: p n)
  case Nil
  then show ?case by (subst strcspn_loop.simps) simp
next
  case (Cons c s)
  then obtain q where "strchr m d c = Some q" "q = 0 \<longleftrightarrow> c \<notin> set ds"
    using strchr_mem [OF assms(2,3), of c] by auto
  with Cons show ?case by (subst strcspn_loop.simps) auto
qed

lemma cstr_drop: "cstr m p s \<Longrightarrow> k \<le> length s \<Longrightarrow> cstr m (p + k) (drop k s)"
  using cstr_append [of m p "take k s" "drop k s"] by (simp add: min_absorb2)

lemma cstr_dropWhile:
  "cstr m p s \<Longrightarrow> cstr m (p + length (takeWhile P s)) (dropWhile P s)"
  by (metis cstr_drop dropWhile_eq_drop length_takeWhile_le)

lemma cstr_cut:
  assumes "cstr m p (s @ t)"
  shows "cstr (m(p + length s := NUL)) p s"
  using assms by (auto simp: cstr_iff nth_append)

text \<open>One call of \<^verbatim>\<open>strtok\<close> on the string \<open>s\<close>: \<open>r\<close> is what is left after the leading
  delimiters, the token is its longest delimiter-free prefix.\<close>

lemma strtok_cstr:
  assumes s: "cstr m p s" and ds: "cstr m d ds" and nn: "p \<noteq> 0" "d \<noteq> 0"
    and sep: "p + length s < d \<or> d + length ds < p"
  defines "r \<equiv> dropWhile (\<lambda>c. c \<in> set ds) s"
  defines "tok \<equiv> takeWhile (\<lambda>c. c \<notin> set ds) r"
  defines "rest \<equiv> dropWhile (\<lambda>c. c \<notin> set ds) r"
  shows "\<exists>q m' save'. strtok m save p d = Some (q, m', save') \<and>
    (if r = [] then q = 0 \<and> m' = m \<and> save' = 0
     else q \<noteq> 0 \<and> cstr m' q tok \<and> cstr m' d ds \<and>
       (if rest = [] then save' = 0 else save' \<noteq> 0 \<and> cstr m' save' (tl rest)))"
proof -
  let ?a = "p + length (takeWhile (\<lambda>c. c \<in> set ds) s)"
  let ?e = "?a + length tok"
  have a: "skip_delims m p d = Some ?a" by (rule skip_delims_cstr [OF s ds nn(2)])
  have r: "cstr m ?a r" unfolding r_def by (rule cstr_dropWhile [OF s])
  have e: "skip_token m ?a d = Some ?e" unfolding tok_def by (rule skip_token_cstr [OF r ds nn(2)])
  have rest: "cstr m ?e rest" unfolding rest_def tok_def by (rule cstr_dropWhile [OF r])
  have tr: "r = tok @ rest" by (simp add: tok_def rest_def)
  have nul: "m ?a = NUL \<longleftrightarrow> r = []" using r by (cases r) auto
  have nul': "m ?e = NUL \<longleftrightarrow> rest = []" using rest by (cases rest) auto
  have len: "length s = length (takeWhile (\<lambda>c. c \<in> set ds) s) + length r"
    unfolding r_def by (metis length_append takeWhile_dropWhile_id)
  consider "r = []" | "r \<noteq> []" "rest = []" | "r \<noteq> []" "rest \<noteq> []" by auto
  then show ?thesis
  proof cases
    case 1
    with nn nul a show ?thesis by (simp add: strtok_def)
  next
    case 2
    with nn nul nul' a e r tr ds show ?thesis by (simp add: strtok_def)
  next
    case 3
    let ?m = "m(?e := NUL)"
    have "strtok m save p d = Some (?a, ?m, ?e + 1)"
      using 3 nn nul nul' a e by (simp add: strtok_def)
    moreover have "cstr ?m ?a tok" using r tr cstr_cut [of m ?a tok rest] by simp
    moreover have "cstr ?m d ds"
      by (rule cstr_frame [OF ds]) (use sep len tr 3 in auto)
    moreover have "cstr ?m (?e + 1) (tl rest)"
      by (rule cstr_frame [of m]) (use rest 3 in \<open>cases rest; auto\<close>)+
    ultimately show ?thesis using 3 nn by auto
  qed
qed

end
