(* ===== verification/CString_Props.thy ===== *)
theory CString_Props
  imports CString
begin

section \<open>Properties of the string library\<close>

text \<open>
  The theorems on \<^verbatim>\<open>src/kernel/lib/string.c\<close>.  \<open>cstr m p s\<close> says that the memory \<open>m\<close> holds the
  string \<open>s\<close> at \<open>p\<close>, with its terminating NUL.  The instances use a memory with three strings.
\<close>

definition demo_mem :: mem where
  "demo_mem = put_bytes (put_bytes (put_bytes (\<lambda>_. NUL) 100 ''/dev/tty'') 200 ''dev'') 300 ''/''"

lemma demo_strings: "cstr demo_mem 100 ''/dev/tty''" "cstr demo_mem 200 ''dev''" "cstr demo_mem 300 ''/''"
  by (simp_all add: demo_mem_def put_bytes_def nth_Cons')

text \<open>\<open>strcpy\<close> then \<open>strcat\<close> into a buffer that overlaps neither source leaves the
  concatenation of the two strings in the buffer, which \<open>strlen\<close> measures; bytes outside the buffer
  keep their values.\<close>

theorem strcpy_strcat_concat:
  assumes "cstr m p s" "cstr m q t"
    and "d + length s + length t < p \<or> p + length s < d" "d + length s + length t < q \<or> q + length t < d"
  shows "\<exists>m1 m2. strcpy m d p = Some m1 \<and> strcat m1 d q = Some m2 \<and> cstr m2 d (s @ t) \<and>
    strlen m2 d = Some (length s + length t) \<and>
    (\<forall>a. a < d \<or> d + length s + length t < a \<longrightarrow> m2 a = m a)"
proof -
  let ?m1 = "put_bytes m d (s @ [NUL])"
  let ?m2 = "put_bytes ?m1 (d + length s) (t @ [NUL])"
  have nul: "NUL \<notin> set s" "NUL \<notin> set t" using assms(1,2) by (simp_all add: cstr_iff)
  have d: "cstr ?m1 d s" by (rule cstr_put_bytes [OF nul(1)])
  have q: "cstr ?m1 q t" by (rule cstr_put_bytes_other [OF assms(2)]) (use assms(4) in auto)
  have cat: "cstr ?m2 d (s @ t)" by (rule cstr_put_bytes_at_end [OF d nul(2)])
  have "strcpy m d p = Some ?m1"
    unfolding strcpy_def by (rule strcpy_loop_cstr [OF assms(1)]) (use assms(3) in auto)
  moreover have "strcat ?m1 d q = Some ?m2" by (rule strcat_cstr [OF d q]) (use assms(4) in auto)
  moreover have "strlen ?m2 d = Some (length s + length t)" using strlen_cstr [OF cat] by simp
  moreover have "\<forall>a. a < d \<or> d + length s + length t < a \<longrightarrow> ?m2 a = m a" by (auto simp: put_bytes_def)
  ultimately show ?thesis using cat by blast
qed

theorem strcpy_strcat_concat_witness:
  "\<exists>m1 m2. strcpy demo_mem 400 300 = Some m1 \<and> strcat m1 400 200 = Some m2 \<and> cstr m2 400 ''/dev''"
  using strcpy_strcat_concat [of demo_mem 300 "''/''" 200 "''dev''" 400] demo_strings
  by (simp del: cstr.simps) blast

text \<open>\<open>strcmp\<close> returns on any two strings; it answers 0 exactly when they are equal, and
  otherwise the difference of the first characters that differ, taken as unsigned bytes.\<close>

theorem strcmp_compares:
  assumes "cstr m p s" "cstr m q t"
  shows "\<exists>r. strcmp m p q = Some r \<and> (r = 0 \<longleftrightarrow> s = t) \<and>
    (\<forall>u a b s' t'. s = u @ a # s' \<and> t = u @ b # t' \<and> a \<noteq> b \<longrightarrow> r = int (of_char a) - int (of_char b))"
proof -
  have nul: "NUL \<notin> set s" "NUL \<notin> set t" using assms by (simp_all add: cstr_iff)
  have "str_diff (u @ a # s') (u @ b # t') = int (of_char a) - int (of_char b)" if "a \<noteq> b" for u a b s' t'
    using that by (induction u) (auto simp: char_diff_def)
  then show ?thesis using strcmp_cstr [OF assms] str_diff_eq_0 [OF nul] by blast
qed

theorem strcmp_compares_witness: "\<exists>r. strcmp demo_mem 100 300 = Some r \<and> r \<noteq> 0"
  using strcmp_compares [of demo_mem 100 "''/dev/tty''" 300 "''/''"] demo_strings by auto

text \<open>\<open>strstr\<close> returns on any two strings: the address of the first occurrence of the second
  in the first, or null when there is none.\<close>

theorem strstr_first:
  assumes "cstr m h s" "cstr m n t" "h \<noteq> 0"
  shows "\<exists>r. strstr m h n = Some r \<and>
    (if r = 0 then \<forall>i. take (length t) (drop i s) \<noteq> t
     else h \<le> r \<and> take (length t) (drop (r - h) s) = t \<and> (\<forall>j < r - h. take (length t) (drop j s) \<noteq> t))"
proof (cases "str_find s t")
  case None
  then show ?thesis using strstr_cstr [OF assms(1,2)] str_find_None [OF None] by simp
next
  case (Some i)
  then show ?thesis using strstr_cstr [OF assms(1,2)] str_find_Some [OF Some] assms(3) by simp
qed

theorem strstr_first_witness:
  "\<exists>r. strstr demo_mem 100 200 = Some r \<and> r \<noteq> 0 \<and> take 3 (drop (r - 100) ''/dev/tty'') = ''dev''"
proof -
  have h: "(100 :: nat) \<noteq> 0" by simp
  from strstr_first [OF demo_strings(1,2) h] obtain r where r: "strstr demo_mem 100 200 = Some r"
    "if r = 0 then \<forall>i. take (length ''dev'') (drop i ''/dev/tty'') \<noteq> ''dev''
     else 100 \<le> r \<and> take (length ''dev'') (drop (r - 100) ''/dev/tty'') = ''dev'' \<and>
       (\<forall>j < r - 100. take (length ''dev'') (drop j ''/dev/tty'') \<noteq> ''dev'')" by blast
  have "take (length ''dev'') (drop 1 ''/dev/tty'') = ''dev''" by simp
  with r(2) have "r \<noteq> 0" by metis
  with r show ?thesis by (simp add: numeral_3_eq_3)
qed

text \<open>\<open>memmove\<close> copies the source as it was before the call for every overlap of the two ranges,
  and changes nothing outside the destination; \<open>memcpy\<close> does the same unless the destination
  starts inside the source.\<close>

theorem memmove_any_overlap:
  "(\<forall>i < n. memmove m d s n (d + i) = m (s + i)) \<and> (\<forall>a. a < d \<or> d + n \<le> a \<longrightarrow> memmove m d s n a = m a) \<and>
   (memcpy m d s n = memmove m d s n \<or> (s < d \<and> d < s + n))"
  using memcpy_eq [of d s n m] by (auto simp: memmove_eq put_bytes_def)

theorem memmove_any_overlap_witness:
  "memmove demo_mem 101 100 4 101 = CHR ''/'' \<and> memmove demo_mem 101 100 4 104 = CHR ''v''"
  using memmove_any_overlap [of 4 demo_mem 101 100, THEN conjunct1, rule_format, of 0]
    memmove_any_overlap [of 4 demo_mem 101 100, THEN conjunct1, rule_format, of 3] demo_strings by simp

text \<open>\<open>atoi\<close> reads back what \<open>itoa\<close> writes in base 10, for every 32-bit value, the most negative
  one included.\<close>

theorem itoa_atoi_roundtrip: "atoi (itoa m v p 10) p = Some v"
proof -
  have "cstr (itoa m v p 10) p (itoa_string v 10)"
    using itoa_eq [of 10 m v p] itoa_string_not_NUL [of 10 v] by (simp add: cstr_put_bytes)
  then show ?thesis by (rule atoi_itoa_string)
qed

text \<open>the first call of \<open>strtok\<close> on a string returns null when the string holds delimiters only;
  otherwise it returns the first token as a string of its own and keeps, for the next call, the part
  after the delimiter that ended it (null when the token was the last).\<close>

theorem strtok_splits:
  assumes "cstr m p s" "cstr m d ds" "p \<noteq> 0" "d \<noteq> 0" "p + length s < d \<or> d + length ds < p"
  shows "\<exists>q m' save'. strtok m save p d = Some (q, m', save') \<and>
    (let r = dropWhile (\<lambda>c. c \<in> set ds) s; rest = dropWhile (\<lambda>c. c \<notin> set ds) r in
     if r = [] then q = 0 \<and> m' = m \<and> save' = 0
     else q \<noteq> 0 \<and> cstr m' q (takeWhile (\<lambda>c. c \<notin> set ds) r) \<and> cstr m' d ds \<and>
       (if rest = [] then save' = 0 else save' \<noteq> 0 \<and> cstr m' save' (tl rest)))"
  unfolding Let_def by (rule strtok_cstr [OF assms])

theorem strtok_splits_witness:
  "\<exists>q m' save'. strtok demo_mem 0 100 300 = Some (q, m', save') \<and> cstr m' q ''dev'' \<and> cstr m' save' ''tty''"
  using strtok_splits [of demo_mem 100 "''/dev/tty''" 300 "''/''" 0] demo_strings
  by (simp add: Let_def del: cstr.simps) blast

text \<open>\<open>strncpy\<close> writes exactly \<open>n\<close> bytes: the first \<open>n\<close> characters of the source, padded with NUL;
  the result is a string only when the source is shorter than \<open>n\<close>.\<close>

theorem strncpy_bounded:
  assumes "cstr m src s" "dest + n \<le> src \<or> src + length s < dest"
  shows "(\<forall>i < n. strncpy m dest src n (dest + i) = (if i < length s then s ! i else NUL)) \<and>
    (\<forall>a. a < dest \<or> dest + n \<le> a \<longrightarrow> strncpy m dest src n a = m a) \<and>
    (length s < n \<longrightarrow> cstr (strncpy m dest src n) dest s)"
proof -
  have eq: "strncpy m dest src n = put_bytes m dest (take n s @ replicate (n - length s) NUL)"
    by (rule strncpy_cstr [OF assms])
  have "NUL \<notin> set s" using assms(1) by (simp add: cstr_iff)
  then show ?thesis unfolding eq by (auto simp: put_bytes_def nth_append cstr_iff)
qed

theorem strncpy_bounded_witness:
  "strncpy demo_mem 400 100 4 (400 + 3) = CHR ''v'' \<and> cstr (strncpy demo_mem 400 200 8) 400 ''dev''"
proof
  show "strncpy demo_mem 400 100 4 (400 + 3) = CHR ''v''"
    using strncpy_bounded [OF demo_strings(1), of 400 4, THEN conjunct1, rule_format, of 3] by simp
  show "cstr (strncpy demo_mem 400 200 8) 400 ''dev''"
    using strncpy_bounded [OF demo_strings(2), of 400 8] by (simp del: cstr.simps)
qed

end
