(* ===== verification/Heap_Model.thy ===== *)
theory Heap_Model
  imports CString
begin

unbundle bit_operations_syntax

section \<open>Memory management: the model\<close>

text \<open>
  Model of \<^verbatim>\<open>src/kernel/arch/i386/mm.c\<close>: the E820 map, paging, the user memory slots and the
  kernel heap.  The heap is the one of the source: block headers live in the byte memory
  (20 bytes: magic at offset 0, size at 4, the \<^verbatim>\<open>is_free\<close> byte at 8, next at 12, prev at
  16, as \<^verbatim>\<open>gcc -m32\<close> lays out \<^verbatim>\<open>block_header_t\<close>), and the free list is linked through them.
  Walking that list is a partial function: a damaged list may be circular, so every operation
  that walks it returns an \<open>option\<close> and \<open>None\<close> is a walk that never ends.

  All static variables of the file are fields of \<open>mm_state\<close>; the static array
  \<^verbatim>\<open>kernel_page_directory\<close> is an address of the memory.  The messages printed on heap
  corruption are not modelled.
\<close>

definition HEAP_MAGIC :: nat where "HEAP_MAGIC = 0xDEADBEEF"
definition MIN_BLOCK_SIZE :: nat where "MIN_BLOCK_SIZE = 16"
definition ALIGNMENT :: nat where "ALIGNMENT = 8"
definition MM_MAP_ADDRESS :: nat where "MM_MAP_ADDRESS = 0x5000"
definition MM_MAX_ENTRIES :: nat where "MM_MAX_ENTRIES = 64"
definition USER_VADDR_BASE :: nat where "USER_VADDR_BASE = 0x00400000"
definition USER_VADDR_SIZE :: nat where "USER_VADDR_SIZE = 0x00400000"
definition USER_SLOT_BASE_PHYS :: nat where "USER_SLOT_BASE_PHYS = 0x02000000"
definition USER_SLOT_SIZE_PHYS :: nat where "USER_SLOT_SIZE_PHYS = 0x00400000"
definition USER_SLOT_COUNT :: nat where "USER_SLOT_COUNT = 12"

abbreviation (input) sizeof_block_header :: nat where
  "sizeof_block_header \<equiv> 20"

record mm_map_entry =
  base_low :: nat
  base_high :: nat
  length_low :: nat
  length_high :: nat
  entry_type :: nat

record mm_state =
  mm_mem :: mem
  heap_start :: addr
  heap_end :: addr
  free_list :: addr
  total_heap_size :: nat
  used_heap_size :: nat
  kernel_page_directory :: addr
  paging_enabled :: bool
  user_slot_used :: "bool list"
  global_mmap :: "mm_map_entry list"
  cr0 :: u32
  cr3 :: nat
  cr4 :: u32

subsection \<open>Block headers\<close>

definition b_magic :: "mem \<Rightarrow> addr \<Rightarrow> nat" where "b_magic m b = load32 m b"
definition b_size :: "mem \<Rightarrow> addr \<Rightarrow> nat" where "b_size m b = load32 m (b + 4)"
definition b_is_free :: "mem \<Rightarrow> addr \<Rightarrow> bool" where "b_is_free m b = (m (b + 8) \<noteq> NUL)"
definition b_next :: "mem \<Rightarrow> addr \<Rightarrow> addr" where "b_next m b = load32 m (b + 12)"
definition b_prev :: "mem \<Rightarrow> addr \<Rightarrow> addr" where "b_prev m b = load32 m (b + 16)"

definition set_magic :: "addr \<Rightarrow> nat \<Rightarrow> mem \<Rightarrow> mem" where "set_magic b v m = store32 m b v"
definition set_size :: "addr \<Rightarrow> nat \<Rightarrow> mem \<Rightarrow> mem" where "set_size b v m = store32 m (b + 4) v"
definition set_is_free :: "addr \<Rightarrow> bool \<Rightarrow> mem \<Rightarrow> mem" where
  "set_is_free b v m = m(b + 8 := (if v then CHR 0x01 else CHR 0x00))"
definition set_next :: "addr \<Rightarrow> addr \<Rightarrow> mem \<Rightarrow> mem" where "set_next b v m = store32 m (b + 12) v"
definition set_prev :: "addr \<Rightarrow> addr \<Rightarrow> mem \<Rightarrow> mem" where "set_prev b v m = store32 m (b + 16) v"

definition align_size :: "nat \<Rightarrow> nat" where
  "align_size sz = unat ((word_of_nat sz + (word_of_nat ALIGNMENT - 1) :: u32)
     AND NOT (word_of_nat ALIGNMENT - 1))"

definition block_total_size :: "mem \<Rightarrow> addr \<Rightarrow> nat" where
  "block_total_size m b = add32 (b_size m b) sizeof_block_header"

definition get_block_payload :: "addr \<Rightarrow> addr" where
  "get_block_payload b = b + sizeof_block_header"

definition get_block_from_payload :: "addr \<Rightarrow> addr" where
  "get_block_from_payload p = (if p = 0 then 0 else p - sizeof_block_header)"

subsection \<open>The free list\<close>

partial_function (option) find_free_loop :: "mem \<Rightarrow> addr \<Rightarrow> nat \<Rightarrow> addr option" where
  "find_free_loop m cur needed =
     (if cur \<noteq> 0
      then if b_is_free m cur \<and> b_size m cur \<ge> needed then Some cur
           else find_free_loop m (b_next m cur) needed
      else Some 0)"

definition find_free_block :: "mm_state \<Rightarrow> nat \<Rightarrow> addr option" where
  "find_free_block s needed = find_free_loop (mm_mem s) (free_list s) needed"

text \<open>The search of \<^verbatim>\<open>insert_into_list_sorted\<close>; the result is \<open>(prev, cur)\<close>.\<close>

partial_function (option) insert_seek :: "mem \<Rightarrow> addr \<Rightarrow> addr \<Rightarrow> addr \<Rightarrow> (addr \<times> addr) option" where
  "insert_seek m block prv cur =
     (if cur \<noteq> 0 \<and> cur < block then insert_seek m block cur (b_next m cur)
      else Some (prv, cur))"

definition insert_into_list_sorted :: "mm_state \<Rightarrow> addr \<Rightarrow> mm_state option" where
  "insert_into_list_sorted s block =
     (if free_list s = 0
      then Some (s\<lparr>free_list := block, mm_mem := set_next block 0 (set_prev block 0 (mm_mem s))\<rparr>)
      else do {
        (prv, cur) \<leftarrow> insert_seek (mm_mem s) block 0 (free_list s);
        let m1 = set_prev block prv (set_next block cur (mm_mem s));
        let m2 = (if prv \<noteq> 0 then set_next prv block m1 else m1);
        let m3 = (if cur \<noteq> 0 then set_prev cur block m2 else m2);
        Some (s\<lparr>mm_mem := m3, free_list := (if prv \<noteq> 0 then free_list s else block)\<rparr>) })"

definition remove_from_list :: "mm_state \<Rightarrow> addr \<Rightarrow> mm_state" where
  "remove_from_list s block =
     (if block = 0 then s
      else let m = mm_mem s;
               m1 = (if b_prev m block \<noteq> 0 then set_next (b_prev m block) (b_next m block) m else m);
               fl = (if b_prev m block \<noteq> 0 then free_list s else b_next m block);
               m2 = (if b_next m1 block \<noteq> 0
                     then set_prev (b_next m1 block) (b_prev m1 block) m1 else m1);
               m3 = set_prev block 0 (set_next block 0 m2)
           in s\<lparr>mm_mem := m3, free_list := fl\<rparr>)"

text \<open>\<^verbatim>\<open>split_block\<close> returns the new free block (or \<open>0\<close>) and the state.\<close>

definition split_block :: "mm_state \<Rightarrow> addr \<Rightarrow> nat \<Rightarrow> (addr \<times> mm_state) option" where
  "split_block s block payload =
     (let payload_size = align_size payload;
          remaining = sub32 (b_size (mm_mem s) block) payload_size in
      if remaining \<ge> sizeof_block_header + MIN_BLOCK_SIZE
      then let new_block = get_block_payload block + payload_size;
               m1 = set_prev new_block 0 (set_next new_block 0 (set_is_free new_block True
                      (set_size new_block (remaining - sizeof_block_header)
                      (set_magic new_block HEAP_MAGIC (mm_mem s)))));
               m2 = set_size block payload_size m1
           in do { s' \<leftarrow> insert_into_list_sorted (s\<lparr>mm_mem := m2\<rparr>) new_block;
                   Some (new_block, s') }
      else Some (0, s))"

text \<open>The two halves of \<^verbatim>\<open>merge_free_blocks\<close>: joining a block to its predecessor in the free list
  (which yields the block to continue with), then its successor to it.\<close>

definition merge_with_prev :: "mem \<Rightarrow> addr \<Rightarrow> mem \<times> addr" where
  "merge_with_prev m block =
     (let p = b_prev m block in
      if p \<noteq> 0 \<and> b_is_free m p \<and> block = p + block_total_size m p
      then let m1 = set_size p (add32 (b_size m p) (block_total_size m block)) m;
               m2 = set_next p (b_next m1 block) m1;
               m3 = (if b_next m2 block \<noteq> 0 then set_prev (b_next m2 block) p m2 else m2)
           in (m3, p)
      else (m, block))"

definition merge_with_next :: "mem \<Rightarrow> addr \<Rightarrow> mem" where
  "merge_with_next m block =
     (let n = b_next m block in
      if n \<noteq> 0 \<and> b_is_free m n \<and> n = block + block_total_size m block
      then let m1 = set_size block (add32 (b_size m block) (block_total_size m n)) m;
               m2 = set_next block (b_next m1 n) m1
           in (if b_next m2 block \<noteq> 0 then set_prev (b_next m2 block) block m2 else m2)
      else m)"

definition merge_free_blocks :: "mm_state \<Rightarrow> addr \<Rightarrow> mm_state" where
  "merge_free_blocks s block =
     (if block = 0 \<or> \<not> b_is_free (mm_mem s) block then s
      else let (m, b) = merge_with_prev (mm_mem s) block
           in s\<lparr>mm_mem := merge_with_next m b\<rparr>)"

subsection \<open>Allocation\<close>

definition kmalloc :: "mm_state \<Rightarrow> nat \<Rightarrow> (addr \<times> mm_state) option" where
  "kmalloc s sz =
     (if sz = 0 \<or> heap_start s = 0 then Some (0, s)
      else do {
        let sz = align_size sz;
        block \<leftarrow> find_free_block s sz;
        if block = 0 then Some (0, s)
        else do {
          let s1 = remove_from_list s block;
          (_, s2) \<leftarrow> split_block s1 block sz;
          let m3 = set_is_free block False (mm_mem s2);
          Some (get_block_payload block,
            s2\<lparr>mm_mem := m3,
               used_heap_size := add32 (used_heap_size s2) (block_total_size m3 block)\<rparr>) } })"

definition kfree :: "mm_state \<Rightarrow> addr \<Rightarrow> mm_state option" where
  "kfree s p =
     (if p = 0 \<or> heap_start s = 0 then Some s
      else let block = get_block_from_payload p in
        if block = 0 \<or> b_magic (mm_mem s) block \<noteq> HEAP_MAGIC then Some s
        else if b_is_free (mm_mem s) block then Some s
        else do {
          let m1 = set_is_free block True (mm_mem s);
          let s1 = s\<lparr>mm_mem := m1,
                     used_heap_size := sub32 (used_heap_size s) (block_total_size m1 block)\<rparr>;
          s2 \<leftarrow> insert_into_list_sorted s1 block;
          Some (merge_free_blocks s2 block) })"

definition kcalloc :: "mm_state \<Rightarrow> nat \<Rightarrow> nat \<Rightarrow> (addr \<times> mm_state) option" where
  "kcalloc s num sz =
     (if num \<noteq> 0 \<and> (2 ^ 32 - 1) div num < sz then Some (0, s)
      else do {
        let total = mul32 num sz;
        (p, s') \<leftarrow> kmalloc s total;
        Some (p, if p \<noteq> 0 then s'\<lparr>mm_mem := memset (mm_mem s') p 0 total\<rparr> else s') })"

definition krealloc :: "mm_state \<Rightarrow> addr \<Rightarrow> nat \<Rightarrow> (addr \<times> mm_state) option" where
  "krealloc s ptr sz =
     (if ptr = 0 then kmalloc s sz
      else if sz = 0 then do { s' \<leftarrow> kfree s ptr; Some (0, s') }
      else let block = get_block_from_payload ptr in
        if block = 0 \<or> b_magic (mm_mem s) block \<noteq> HEAP_MAGIC then Some (0, s)
        else let sz = align_size sz in
          if b_size (mm_mem s) block \<ge> sz
          then do {
            (new_free, s') \<leftarrow> split_block s block sz;
            Some (ptr, if new_free \<noteq> 0
                       then s'\<lparr>used_heap_size :=
                              sub32 (used_heap_size s') (block_total_size (mm_mem s') new_free)\<rparr>
                       else s') }
          else do {
            (newp, s1) \<leftarrow> kmalloc s sz;
            if newp = 0 then Some (0, s1)
            else do {
              let s2 = s1\<lparr>mm_mem := memcpy (mm_mem s1) newp ptr (b_size (mm_mem s1) block)\<rparr>;
              s3 \<leftarrow> kfree s2 ptr;
              Some (newp, s3) } })"

definition valloc :: "mm_state \<Rightarrow> nat \<Rightarrow> (addr \<times> mm_state) option" where
  "valloc s sz = kmalloc s sz"

definition valloc_aligned :: "mm_state \<Rightarrow> nat \<Rightarrow> nat \<Rightarrow> (addr \<times> mm_state) option" where
  "valloc_aligned s sz alignment0 = do {
     let alignment = (if alignment0 < ALIGNMENT then ALIGNMENT else alignment0);
     let total = add32 (add32 sz alignment) 4;
     (raw, s') \<leftarrow> kmalloc s total;
     if raw = 0 then Some (0, s')
     else do {
       let ad = add32 raw 4;
       let aligned = unat ((word_of_nat (sub32 (add32 ad alignment) 1) :: u32)
                       AND NOT (word_of_nat (sub32 alignment 1)));
       Some (aligned, s'\<lparr>mm_mem := store32 (mm_mem s') (aligned - 4) raw\<rparr>) } }"

definition vfree :: "mm_state \<Rightarrow> addr \<Rightarrow> mm_state option" where
  "vfree s p = (if p = 0 then Some s else kfree s (load32 (mm_mem s) (p - 4)))"

definition get_total_heap :: "mm_state \<Rightarrow> nat" where "get_total_heap s = total_heap_size s"
definition get_used_heap :: "mm_state \<Rightarrow> nat" where "get_used_heap s = used_heap_size s"
definition get_free_heap :: "mm_state \<Rightarrow> nat" where
  "get_free_heap s = sub32 (total_heap_size s) (used_heap_size s)"

subsection \<open>The memory map and the heap region\<close>

definition entry_base :: "mm_map_entry \<Rightarrow> nat" where
  "entry_base e = base_high e * 2 ^ 32 + base_low e"

definition entry_length :: "mm_map_entry \<Rightarrow> nat" where
  "entry_length e = length_high e * 2 ^ 32 + length_low e"

definition read_map_entry :: "mem \<Rightarrow> nat \<Rightarrow> mm_map_entry" where
  "read_map_entry m i = (let a = MM_MAP_ADDRESS + 20 * i in
     \<lparr>base_low = load32 m a, base_high = load32 m (a + 4), length_low = load32 m (a + 8),
      length_high = load32 m (a + 12), entry_type = load32 m (a + 16)\<rparr>)"

text \<open>The loop of \<^verbatim>\<open>mm_init\<close>; its argument is the number of entries still to be looked at.
  The inner test of the count never fails here, since at most 64 entries are read.\<close>

fun mm_init_loop :: "mem \<Rightarrow> nat \<Rightarrow> nat \<Rightarrow> mm_map_entry list \<Rightarrow> mm_map_entry list" where
  "mm_init_loop m i 0 acc = acc"
| "mm_init_loop m i (Suc k) acc =
     (let e = read_map_entry m i in
      if entry_base e = 0 \<and> entry_length e = 0 then acc
      else mm_init_loop m (i + 1) k (if length acc < MM_MAX_ENTRIES then acc @ [e] else acc))"

definition mm_init :: "mm_state \<Rightarrow> mm_state" where
  "mm_init s = s\<lparr>global_mmap := mm_init_loop (mm_mem s) 0 MM_MAX_ENTRIES []\<rparr>"

definition region_holds :: "nat \<Rightarrow> nat \<Rightarrow> mm_map_entry \<Rightarrow> bool" where
  "region_holds heap_base heap_size e =
     (entry_type e = 1 \<and> entry_base e \<le> heap_base \<and>
      (entry_base e + entry_length e) mod 2 ^ 64 \<ge> heap_base + heap_size)"

definition region_fits :: "nat \<Rightarrow> mm_map_entry \<Rightarrow> bool" where
  "region_fits heap_size e =
     (entry_type e = 1 \<and> entry_base e \<ge> 0x900000 \<and> entry_length e \<ge> heap_size)"

definition kmalloc_init :: "mm_state \<Rightarrow> mm_state" where
  "kmalloc_init s =
     (let heap_size = 0x1000000;
          found = (\<exists>e \<in> set (global_mmap s). region_holds 0x900000 heap_size e);
          heap_base = (if found then 0x900000
                       else case find (region_fits heap_size) (global_mmap s) of
                              Some e \<Rightarrow> entry_base e | None \<Rightarrow> 0x900000);
          first = heap_base mod 2 ^ 32;
          last = (first + heap_size) mod 2 ^ 32;
          m = set_prev first 0 (set_next first 0 (set_is_free first True
                (set_size first (sub32 (sub32 last first) sizeof_block_header)
                (set_magic first HEAP_MAGIC (mm_mem s)))))
      in s\<lparr>heap_start := first, heap_end := last, mm_mem := m, free_list := first,
           total_heap_size := block_total_size m first, used_heap_size := 0\<rparr>)"

subsection \<open>Paging and user slots\<close>

definition PDE_PRESENT :: u32 where "PDE_PRESENT = 0x001"
definition PDE_RW :: u32 where "PDE_RW = 0x002"
definition PDE_USER :: u32 where "PDE_USER = 0x004"
definition PDE_PS :: u32 where "PDE_PS = 0x080"
definition CR0_PG :: u32 where "CR0_PG = 0x80000000"
definition CR4_PSE :: u32 where "CR4_PSE = 0x00000010"

definition kernel_pde :: "nat \<Rightarrow> u32" where
  "kernel_pde i = push_bit 22 (word_of_nat i) OR PDE_PRESENT OR PDE_RW OR PDE_PS"

definition paging_init :: "mm_state \<Rightarrow> mm_state" where
  "paging_init s = s\<lparr>
     mm_mem := fold (\<lambda>i m. store32 m (kernel_page_directory s + 4 * i) (unat (kernel_pde i)))
                 [0..<1024] (mm_mem s),
     user_slot_used := replicate USER_SLOT_COUNT False,
     cr4 := cr4 s OR CR4_PSE,
     cr3 := kernel_page_directory s,
     cr0 := cr0 s OR CR0_PG,
     paging_enabled := True\<rparr>"

definition mm_kernel_cr3 :: "mm_state \<Rightarrow> nat" where
  "mm_kernel_cr3 s = kernel_page_directory s"

definition mm_switch_cr3 :: "mm_state \<Rightarrow> nat \<Rightarrow> mm_state" where
  "mm_switch_cr3 s cr3_phys =
     (if \<not> paging_enabled s \<or> cr3_phys = 0 then s else s\<lparr>cr3 := cr3_phys\<rparr>)"

text \<open>The first free slot at or above \<open>idx\<close>.\<close>

function slot_search :: "bool list \<Rightarrow> nat \<Rightarrow> nat option" where
  "slot_search used idx =
     (if idx < USER_SLOT_COUNT
      then if \<not> used ! idx then Some idx else slot_search used (idx + 1)
      else None)"
  by pat_completeness auto
termination
  by (relation "measure (\<lambda>(used, idx). USER_SLOT_COUNT - idx)") auto

declare slot_search.simps [simp del]

text \<open>\<^verbatim>\<open>mm_user_slot_alloc\<close> with its two out-parameters as the result (\<open>None\<close>: \<^verbatim>\<open>-1\<close>); the
  null checks of the out-parameters do not arise.\<close>

definition mm_user_slot_alloc :: "mm_state \<Rightarrow> (nat \<times> nat) option \<times> mm_state" where
  "mm_user_slot_alloc s =
     (case slot_search (user_slot_used s) 0 of
        None \<Rightarrow> (None, s)
      | Some idx \<Rightarrow>
          let phys = USER_SLOT_BASE_PHYS + idx * USER_SLOT_SIZE_PHYS in
          (Some (idx, phys),
           s\<lparr>user_slot_used := (user_slot_used s)[idx := True],
             mm_mem := memset (mm_mem s) phys 0 USER_SLOT_SIZE_PHYS\<rparr>))"

definition mm_user_slot_free :: "mm_state \<Rightarrow> nat \<Rightarrow> mm_state" where
  "mm_user_slot_free s slot_idx =
     (if slot_idx \<ge> USER_SLOT_COUNT then s
      else s\<lparr>user_slot_used := (user_slot_used s)[slot_idx := False]\<rparr>)"

definition mm_user_cr3_create :: "mm_state \<Rightarrow> nat \<Rightarrow> (nat \<times> mm_state) option" where
  "mm_user_cr3_create s user_phys_base =
     (if (word_of_nat user_phys_base :: u32) AND (word_of_nat USER_SLOT_SIZE_PHYS - 1) \<noteq> 0
      then Some (0, s)
      else do {
        (pd, s') \<leftarrow> valloc_aligned s 4096 4096;
        if pd = 0 then Some (0, s')
        else do {
          let m1 = memcpy (mm_mem s') pd (kernel_page_directory s') 4096;
          let user_pde = ((word_of_nat user_phys_base :: u32) AND 0xFFC00000)
                OR PDE_PRESENT OR PDE_RW OR PDE_USER OR PDE_PS;
          let m2 = store32 m1 (pd + 4 * (USER_VADDR_BASE div 2 ^ 22)) (unat user_pde);
          Some (pd, s'\<lparr>mm_mem := m2\<rparr>) } })"

definition mm_user_cr3_destroy :: "mm_state \<Rightarrow> nat \<Rightarrow> mm_state option" where
  "mm_user_cr3_destroy s cr3_phys =
     (if cr3_phys = 0 \<or> cr3_phys = kernel_page_directory s then Some s else vfree s cr3_phys)"

end
