(* ===== verification/Heap_Lists.thy ===== *)
theory Heap_Lists
  imports Heap_Model
begin

section \<open>Headers and the doubly linked free list\<close>

text \<open>
  Facts about block headers in memory: what a field holds after another field was written,
  the doubly linked list predicate \<open>dllseg\<close>, and the effect of the list operations of
  \<^verbatim>\<open>mm.c\<close> (search, sorted insertion, removal) on it.
\<close>

named_theorems hdr_simps \<open>header fields after a header field is written\<close>

text \<open>Two headers at different addresses do not overlap.\<close>

definition hsep :: "addr \<Rightarrow> addr \<Rightarrow> bool" where
  "hsep b c \<longleftrightarrow> b + 20 \<le> c \<or> c + 20 \<le> b"

lemma hsep_sym: "hsep b c \<Longrightarrow> hsep c b"
  by (auto simp: hsep_def)

lemmas hdr_defs = b_magic_def b_size_def b_is_free_def b_next_def b_prev_def
  set_magic_def set_size_def set_is_free_def set_next_def set_prev_def

lemma hdr_same [hdr_simps]:
  "b_magic (set_magic b v m) b = v mod 2 ^ 32"
  "b_size (set_size b v m) b = v mod 2 ^ 32"
  "b_is_free (set_is_free b f m) b = f"
  "b_next (set_next b v m) b = v mod 2 ^ 32"
  "b_prev (set_prev b v m) b = v mod 2 ^ 32"
  by (simp_all add: hdr_defs load32_store32)

lemma load32_upd_other: "x < a \<or> a + 4 \<le> x \<Longrightarrow> load32 (m(x := c)) a = load32 m a"
  by (auto simp: load32_def)

lemma hdr_field_other [hdr_simps]:
  "b_magic (set_size b v m) b = b_magic m b"
  "b_magic (set_is_free b f m) b = b_magic m b"
  "b_magic (set_next b v m) b = b_magic m b"
  "b_magic (set_prev b v m) b = b_magic m b"
  "b_size (set_magic b v m) b = b_size m b"
  "b_size (set_is_free b f m) b = b_size m b"
  "b_size (set_next b v m) b = b_size m b"
  "b_size (set_prev b v m) b = b_size m b"
  "b_is_free (set_magic b v m) b = b_is_free m b"
  "b_is_free (set_size b v m) b = b_is_free m b"
  "b_is_free (set_next b v m) b = b_is_free m b"
  "b_is_free (set_prev b v m) b = b_is_free m b"
  "b_next (set_magic b v m) b = b_next m b"
  "b_next (set_size b v m) b = b_next m b"
  "b_next (set_is_free b f m) b = b_next m b"
  "b_next (set_prev b v m) b = b_next m b"
  "b_prev (set_magic b v m) b = b_prev m b"
  "b_prev (set_size b v m) b = b_prev m b"
  "b_prev (set_is_free b f m) b = b_prev m b"
  "b_prev (set_next b v m) b = b_prev m b"
  by (simp_all add: hdr_defs load32_store32_other store32_other load32_upd_other)

text \<open>Writing any field of \<open>c\<close> leaves every field of another header unchanged; in general
  the bytes outside \<open>[c, c + 20)\<close> are unchanged.\<close>

lemma set_field_outside:
  assumes "x < c \<or> c + 20 \<le> x"
  shows "set_magic c v m x = m x" "set_size c v m x = m x" "set_is_free c f m x = m x"
    "set_next c v m x = m x" "set_prev c v m x = m x"
  using assms by (auto simp: hdr_defs store32_other)

lemma hdr_cong:
  assumes "\<And>i. i < 20 \<Longrightarrow> m' (b + i) = m (b + i)"
  shows "b_magic m' b = b_magic m b" "b_size m' b = b_size m b"
    "b_is_free m' b = b_is_free m b" "b_next m' b = b_next m b" "b_prev m' b = b_prev m b"
proof -
  have "load32 m' (b + k) = load32 m (b + k)" if "k \<le> 16" for k
    by (rule load32_cong) (use assms [of "k + i" for i] that in \<open>simp add: ac_simps\<close>)
  from this [of 0] this [of 4] this [of 12] this [of 16] assms [of 8]
  show "b_magic m' b = b_magic m b" "b_size m' b = b_size m b"
    "b_is_free m' b = b_is_free m b" "b_next m' b = b_next m b" "b_prev m' b = b_prev m b"
    by (simp_all add: hdr_defs)
qed

lemma hdr_other:
  assumes "hsep b c"
  shows "b_magic (set_magic c v m) b = b_magic m b" "b_magic (set_size c v m) b = b_magic m b"
    "b_magic (set_is_free c f m) b = b_magic m b" "b_magic (set_next c v m) b = b_magic m b"
    "b_magic (set_prev c v m) b = b_magic m b"
    "b_size (set_magic c v m) b = b_size m b" "b_size (set_size c v m) b = b_size m b"
    "b_size (set_is_free c f m) b = b_size m b" "b_size (set_next c v m) b = b_size m b"
    "b_size (set_prev c v m) b = b_size m b"
    "b_is_free (set_magic c v m) b = b_is_free m b" "b_is_free (set_size c v m) b = b_is_free m b"
    "b_is_free (set_is_free c f m) b = b_is_free m b" "b_is_free (set_next c v m) b = b_is_free m b"
    "b_is_free (set_prev c v m) b = b_is_free m b"
    "b_next (set_magic c v m) b = b_next m b" "b_next (set_size c v m) b = b_next m b"
    "b_next (set_is_free c f m) b = b_next m b" "b_next (set_next c v m) b = b_next m b"
    "b_next (set_prev c v m) b = b_next m b"
    "b_prev (set_magic c v m) b = b_prev m b" "b_prev (set_size c v m) b = b_prev m b"
    "b_prev (set_is_free c f m) b = b_prev m b" "b_prev (set_next c v m) b = b_prev m b"
    "b_prev (set_prev c v m) b = b_prev m b"
proof -
  have out: "b + i < c \<or> c + 20 \<le> b + i" if "i < 20" for i
    using assms that by (auto simp: hsep_def)
  have eqs: "set_magic c v m (b + i) = m (b + i)" "set_size c v m (b + i) = m (b + i)"
    "set_is_free c f m (b + i) = m (b + i)" "set_next c v m (b + i) = m (b + i)"
    "set_prev c v m (b + i) = m (b + i)" if "i < 20" for i
    using set_field_outside [OF out [OF that]] by auto
  show "b_magic (set_magic c v m) b = b_magic m b" "b_size (set_magic c v m) b = b_size m b"
    "b_is_free (set_magic c v m) b = b_is_free m b" "b_next (set_magic c v m) b = b_next m b"
    "b_prev (set_magic c v m) b = b_prev m b"
    by (rule hdr_cong, rule eqs(1), assumption)+
  show "b_magic (set_size c v m) b = b_magic m b" "b_size (set_size c v m) b = b_size m b"
    "b_is_free (set_size c v m) b = b_is_free m b" "b_next (set_size c v m) b = b_next m b"
    "b_prev (set_size c v m) b = b_prev m b"
    by (rule hdr_cong, rule eqs(2), assumption)+
  show "b_magic (set_is_free c f m) b = b_magic m b" "b_size (set_is_free c f m) b = b_size m b"
    "b_is_free (set_is_free c f m) b = b_is_free m b" "b_next (set_is_free c f m) b = b_next m b"
    "b_prev (set_is_free c f m) b = b_prev m b"
    by (rule hdr_cong, rule eqs(3), assumption)+
  show "b_magic (set_next c v m) b = b_magic m b" "b_size (set_next c v m) b = b_size m b"
    "b_is_free (set_next c v m) b = b_is_free m b" "b_next (set_next c v m) b = b_next m b"
    "b_prev (set_next c v m) b = b_prev m b"
    by (rule hdr_cong, rule eqs(4), assumption)+
  show "b_magic (set_prev c v m) b = b_magic m b" "b_size (set_prev c v m) b = b_size m b"
    "b_is_free (set_prev c v m) b = b_is_free m b" "b_next (set_prev c v m) b = b_next m b"
    "b_prev (set_prev c v m) b = b_prev m b"
    by (rule hdr_cong, rule eqs(5), assumption)+
qed

lemmas hdr_other_simps [hdr_simps] = hdr_other

lemma b_next_lt: "b_next m b < 2 ^ 32" and b_prev_lt: "b_prev m b < 2 ^ 32"
  and b_size_lt: "b_size m b < 2 ^ 32"
  by (simp_all add: b_next_def b_prev_def b_size_def load32_lt del: power_numeral)

subsection \<open>Doubly linked segments\<close>

text \<open>\<open>dllseg m q p xs p'\<close>: from \<open>p\<close> the next pointers run through \<open>xs\<close> to \<open>p'\<close>, and
  the prev pointers run back to \<open>q\<close>.\<close>

fun dllseg :: "mem \<Rightarrow> addr \<Rightarrow> addr \<Rightarrow> addr list \<Rightarrow> addr \<Rightarrow> bool" where
  "dllseg m q p [] p' = (p = p')"
| "dllseg m q p (x # xs) p' = (p = x \<and> x \<noteq> 0 \<and> b_prev m x = q \<and> dllseg m x (b_next m x) xs p')"

definition last0 :: "addr \<Rightarrow> addr list \<Rightarrow> addr" where
  "last0 q xs = (if xs = [] then q else last xs)"

definition hd0 :: "addr list \<Rightarrow> addr \<Rightarrow> addr" where
  "hd0 xs p = (if xs = [] then p else hd xs)"

lemma last0_simps [simp]: "last0 q [] = q" "last0 q (xs @ [x]) = x" "last0 q (x # xs) = last0 x xs"
  by (auto simp: last0_def)

lemma hd0_simps [simp]: "hd0 [] p = p" "hd0 (x # xs) p = x" "hd0 (xs @ ys) p = hd0 xs (hd0 ys p)"
  by (auto simp: hd0_def)

lemma dllseg_hd: "dllseg m q p xs p' \<Longrightarrow> p = hd0 xs p'"
  by (cases xs) auto

lemma dllseg_append:
  "dllseg m q p (xs @ ys) p' \<longleftrightarrow>
     dllseg m q p xs (hd0 ys p') \<and> dllseg m (last0 q xs) (hd0 ys p') ys p'"
proof (induction xs arbitrary: q p)
  case Nil
  then show ?case by (auto dest: dllseg_hd)
qed auto

lemma dllseg_cong:
  assumes "\<And>x. x \<in> set xs \<Longrightarrow> b_next m' x = b_next m x" "\<And>x. x \<in> set xs \<Longrightarrow> b_prev m' x = b_prev m x"
  shows "dllseg m' q p xs p' = dllseg m q p xs p'"
  using assms by (induction xs arbitrary: q p) auto

lemma dllseg_nonzero: "dllseg m q p xs p' \<Longrightarrow> 0 \<notin> set xs"
  by (induction xs arbitrary: q p) auto

subsection \<open>Walking the free list\<close>

lemma find_free_loop_dllseg:
  "dllseg m q p xs 0 \<Longrightarrow>
     find_free_loop m p n =
       Some (case find (\<lambda>b. b_is_free m b \<and> n \<le> b_size m b) xs of None \<Rightarrow> 0 | Some b \<Rightarrow> b)"
proof (induction xs arbitrary: q p)
  case Nil
  then show ?case by (subst find_free_loop.simps) simp
next
  case (Cons x xs)
  then show ?case by (subst find_free_loop.simps) auto
qed

lemma insert_seek_dllseg:
  assumes "dllseg m q p xs 0"
  shows "insert_seek m b q p =
    Some (last0 q (takeWhile (\<lambda>x. x < b) xs), hd0 (dropWhile (\<lambda>x. x < b) xs) 0)"
  using assms
proof (induction xs arbitrary: q p)
  case Nil
  then show ?case by (subst insert_seek.simps) simp
next
  case (Cons x xs)
  then show ?case by (subst insert_seek.simps) auto
qed

subsection \<open>Changing links only\<close>

text \<open>\<open>m'\<close> differs from \<open>m\<close> at most in the link fields of the headers in \<open>F\<close>.\<close>

definition links_only :: "addr set \<Rightarrow> mem \<Rightarrow> mem \<Rightarrow> bool" where
  "links_only F m m' \<longleftrightarrow> (\<forall>a. (\<forall>x \<in> F. a < x + 12 \<or> x + 20 \<le> a) \<longrightarrow> m' a = m a)"

lemma links_only_refl: "links_only F m m"
  by (simp add: links_only_def)

lemma links_only_set_next: "links_only F m m' \<Longrightarrow> x \<in> F \<Longrightarrow> links_only F m (set_next x v m')"
  by (auto simp: links_only_def set_next_def store32_def)

lemma links_only_set_prev: "links_only F m m' \<Longrightarrow> x \<in> F \<Longrightarrow> links_only F m (set_prev x v m')"
  by (auto simp: links_only_def set_prev_def store32_def)

lemma links_only_mono: "links_only F m m' \<Longrightarrow> F \<subseteq> G \<Longrightarrow> links_only G m m'"
  by (auto simp: links_only_def)

lemma links_only_fields:
  assumes "links_only F m m'" "\<And>x. x \<in> F \<Longrightarrow> c = x \<or> hsep c x"
  shows "b_magic m' c = b_magic m c" "b_size m' c = b_size m c" "b_is_free m' c = b_is_free m c"
proof -
  have eq: "m' (c + i) = m (c + i)" if "i < 12" for i
  proof -
    have "\<forall>x \<in> F. c + i < x + 12 \<or> x + 20 \<le> c + i"
      using assms(2) that by (fastforce simp: hsep_def)
    with assms(1) show ?thesis by (simp add: links_only_def)
  qed
  show "b_magic m' c = b_magic m c"
    unfolding b_magic_def by (rule load32_cong) (use eq in auto)
  show "b_size m' c = b_size m c"
    unfolding b_size_def by (rule load32_cong) (use eq [of "4 + i" for i] in \<open>simp add: ac_simps\<close>)
  show "b_is_free m' c = b_is_free m c"
    unfolding b_is_free_def using eq [of 8] by simp
qed

lemma links_only_other:
  assumes "links_only F m m'" "\<And>x. x \<in> F \<Longrightarrow> hsep c x"
  shows "b_next m' c = b_next m c" "b_prev m' c = b_prev m c"
proof -
  have eq: "m' (c + i) = m (c + i)" if "i < 20" for i
  proof -
    have "\<forall>x \<in> F. c + i < x + 12 \<or> x + 20 \<le> c + i"
      using assms(2) that by (fastforce simp: hsep_def)
    with assms(1) show ?thesis by (simp add: links_only_def)
  qed
  show "b_next m' c = b_next m c" "b_prev m' c = b_prev m c"
    by (rule hdr_cong, rule eq, assumption)+
qed

lemma dllseg_set_last:
  assumes "dllseg m q p xs pe" "distinct xs"
    "\<And>z. z \<in> set xs \<Longrightarrow> b_prev m' z = b_prev m z"
    "\<And>z. z \<in> set xs \<Longrightarrow> b_next m' z = (if z = last xs then r else b_next m z)"
  shows "dllseg m' q (if xs = [] then r else p) xs r"
proof (cases xs rule: rev_cases)
  case Nil
  then show ?thesis by simp
next
  case (snoc zs z)
  have "dllseg m' q p zs z = dllseg m q p zs z"
    by (rule dllseg_cong) (use assms snoc in auto)
  with assms snoc show ?thesis by (auto simp: dllseg_append)
qed

lemma dllseg_set_hd:
  assumes "dllseg m q r ys p'" "distinct ys"
    "\<And>z. z \<in> set ys \<Longrightarrow> b_next m' z = b_next m z"
    "\<And>z. z \<in> set ys \<Longrightarrow> b_prev m' z = (if z = hd ys then q' else b_prev m z)"
  shows "dllseg m' q' r ys p'"
proof (cases ys)
  case Nil
  with assms show ?thesis by simp
next
  case (Cons z zs)
  have "dllseg m' z (b_next m z) zs p' = dllseg m z (b_next m z) zs p'"
    by (rule dllseg_cong) (use assms Cons in auto)
  with assms Cons show ?thesis by auto
qed

definition sep_list :: "addr list \<Rightarrow> bool" where
  "sep_list xs \<longleftrightarrow> distinct xs \<and> (\<forall>x \<in> set xs. \<forall>y \<in> set xs. x \<noteq> y \<longrightarrow> hsep x y) \<and>
     (\<forall>x \<in> set xs. x < 2 ^ 32)"

lemma sep_listD:
  assumes "sep_list xs"
  shows "distinct xs" "\<And>x y. x \<in> set xs \<Longrightarrow> y \<in> set xs \<Longrightarrow> x \<noteq> y \<Longrightarrow> hsep x y"
    "\<And>x. x \<in> set xs \<Longrightarrow> x < 2 ^ 32"
  using assms by (auto simp: sep_list_def)

lemma sep_list_sub: "sep_list xs \<Longrightarrow> set ys \<subseteq> set xs \<Longrightarrow> distinct ys \<Longrightarrow> sep_list ys"
  by (auto simp: sep_list_def)

lemma last0_in: "last0 0 xs \<noteq> 0 \<Longrightarrow> last0 0 xs \<in> set xs"
  by (auto simp: last0_def split: if_splits)

lemma hd0_in: "hd0 xs 0 \<noteq> 0 \<Longrightarrow> hd0 xs 0 \<in> set xs"
  by (auto simp: hd0_def split: if_splits)

text \<open>Setting one link field, on any header of a separated list.\<close>

lemma link_fields:
  assumes "x = y \<or> hsep x y"
  shows "b_next (set_next y v m) x = (if x = y then v mod 2 ^ 32 else b_next m x)"
    "b_prev (set_prev y v m) x = (if x = y then v mod 2 ^ 32 else b_prev m x)"
    "b_next (set_prev y v m) x = b_next m x" "b_prev (set_next y v m) x = b_prev m x"
  using assms hdr_other [of x y] by (auto simp: hdr_simps)

lemma link_fields_if:
  assumes "c \<longrightarrow> x = y \<or> hsep x y"
  shows "b_next (if c then set_next y v m else m) x = (if c \<and> x = y then v mod 2 ^ 32 else b_next m x)"
    "b_prev (if c then set_prev y v m else m) x = (if c \<and> x = y then v mod 2 ^ 32 else b_prev m x)"
    "b_next (if c then set_prev y v m else m) x = b_next m x"
    "b_prev (if c then set_next y v m else m) x = b_prev m x"
  using assms link_fields [of x y] by auto

text \<open>Removing \<open>b\<close> from between \<open>xs\<close> and \<open>ys\<close>.\<close>

lemma remove_from_list_dllseg:
  assumes dll: "dllseg (mm_mem s) 0 (free_list s) (xs @ b # ys) 0"
    and sep: "sep_list (xs @ b # ys)"
  defines "s' \<equiv> remove_from_list s b"
  shows "dllseg (mm_mem s') 0 (free_list s') (xs @ ys) 0"
    "links_only (set (xs @ b # ys)) (mm_mem s) (mm_mem s')"
    "s' = s\<lparr>mm_mem := mm_mem s', free_list := free_list s'\<rparr>"
    "b_prev (mm_mem s') b = 0"
proof -
  let ?m = "mm_mem s" and ?p = "last0 0 xs" and ?n = "hd0 ys 0"
  let ?B = "set (xs @ b # ys)"
  have seg0: "dllseg ?m 0 (free_list s) xs b" "b \<noteq> 0" "b_prev ?m b = ?p"
    "dllseg ?m b (b_next ?m b) ys 0"
    using dll by (auto simp: dllseg_append)
  have nb: "b_next ?m b = ?n" by (rule dllseg_hd [OF seg0(4)])
  note seg = seg0(1-3) seg0(4) [unfolded nb] nb
  have nz: "0 \<notin> set xs" "0 \<notin> set ys" using dllseg_nonzero [OF dll] by auto
  have B: "x = y \<or> hsep x y" if "x \<in> ?B" "y \<in> ?B" for x y
    using sep_listD(2) [OF sep] that by blast
  have dist: "distinct (xs @ b # ys)" by (rule sep_listD(1) [OF sep])
  have p: "?p \<noteq> 0 \<Longrightarrow> ?p \<in> set xs" by (rule last0_in)
  have n: "?n \<noteq> 0 \<Longrightarrow> ?n \<in> set ys" by (rule hd0_in)
  have pb: "?p \<noteq> b" using p seg(2) dist by auto
  have nb: "?n \<noteq> b" using n seg(2) dist by auto
  have n32: "?n mod 2 ^ 32 = ?n" using b_next_lt [of ?m b] seg(5) by simp
  have p32: "?p mod 2 ^ 32 = ?p" using b_prev_lt [of ?m b] seg(3) by simp
  let ?m1 = "if ?p \<noteq> 0 then set_next ?p ?n ?m else ?m"
  have m1b: "b_next ?m1 b = ?n" "b_prev ?m1 b = ?p"
    using link_fields [of b ?p ?n ?m] B [of b ?p] p pb seg by auto
  let ?m2 = "if ?n \<noteq> 0 then set_prev ?n ?p ?m1 else ?m1"
  let ?m3 = "set_prev b 0 (set_next b 0 ?m2)"
  have s': "s' = s\<lparr>mm_mem := ?m3, free_list := (if ?p \<noteq> 0 then free_list s else ?n)\<rparr>"
    using seg(2) unfolding s'_def remove_from_list_def Let_def seg(3,5)
    by (simp only: m1b if_False)
  then have mem: "mm_mem s' = ?m3" and fl: "free_list s' = (if ?p \<noteq> 0 then free_list s else ?n)"
    by simp_all
  show "s' = s\<lparr>mm_mem := mm_mem s', free_list := free_list s'\<rparr>" using s' by simp
  show "b_prev (mm_mem s') b = 0" by (simp add: mem hdr_simps)
  have pB: "?p \<noteq> 0 \<Longrightarrow> ?p \<in> ?B" and nB: "?n \<noteq> 0 \<Longrightarrow> ?n \<in> ?B" using p n by auto
  show "links_only ?B ?m (mm_mem s')"
    unfolding mem using pB nB
    by (auto intro!: links_only_set_next links_only_set_prev links_only_refl)
  define M where "M = ?m3"
  have nxt: "b_next M z = (if z = ?p \<and> ?p \<noteq> 0 then ?n else b_next ?m z)"
    and prv: "b_prev M z = (if z = ?n \<and> ?n \<noteq> 0 then ?p else b_prev ?m z)"
    if "z \<in> ?B" "z \<noteq> b" for z
  proof -
    have Bz: "z = b \<or> hsep z b" "?p \<noteq> 0 \<longrightarrow> z = ?p \<or> hsep z ?p" "?n \<noteq> 0 \<longrightarrow> z = ?n \<or> hsep z ?n"
      using B [OF that(1)] pB nB by auto
    show "b_next M z = (if z = ?p \<and> ?p \<noteq> 0 then ?n else b_next ?m z)"
      by (simp only: M_def link_fields [OF Bz(1)] link_fields_if [OF Bz(2)] link_fields_if [OF Bz(3)]
          n32 that(2) if_False) auto
    show "b_prev M z = (if z = ?n \<and> ?n \<noteq> 0 then ?p else b_prev ?m z)"
      by (simp only: M_def link_fields [OF Bz(1)] link_fields_if [OF Bz(2)] link_fields_if [OF Bz(3)]
          p32 that(2) if_False) auto
  qed
  have zp: "z = ?p \<longleftrightarrow> z = last xs" if "z \<in> set xs" for z using that by (auto simp: last0_def)
  have zn: "z = ?n \<longleftrightarrow> z = hd ys" if "z \<in> set ys" for z using that by (auto simp: hd0_def)
  have zx: "z \<noteq> b \<and> z \<noteq> ?n \<and> z \<noteq> 0" if "z \<in> set xs" for z
    using that dist n nz by (cases "?n = 0") auto
  have zy: "z \<noteq> b \<and> z \<noteq> ?p \<and> z \<noteq> 0" if "z \<in> set ys" for z
    using that dist p nz by (cases "?p = 0") auto
  have "dllseg M 0 (if xs = [] then ?n else free_list s) xs ?n"
  proof (rule dllseg_set_last [OF seg(1)])
    show "b_prev M z = b_prev ?m z" if "z \<in> set xs" for z
      using prv [of z] zx [OF that] that by simp
    show "b_next M z = (if z = last xs then ?n else b_next ?m z)" if "z \<in> set xs" for z
      using nxt [of z] zx [OF that] zp [OF that] that by (cases "z = last xs") auto
  qed (use dist in simp)
  moreover have "dllseg M ?p ?n ys 0"
  proof (rule dllseg_set_hd [OF seg(4)])
    show "b_next M z = b_next ?m z" if "z \<in> set ys" for z
      using nxt [of z] zy [OF that] that by simp
    show "b_prev M z = (if z = hd ys then ?p else b_prev ?m z)" if "z \<in> set ys" for z
      using prv [of z] zy [OF that] zn [OF that] that by (cases "z = hd ys") auto
  qed (use dist in simp)
  moreover have "(if xs = [] then ?n else free_list s) = free_list s'"
    using p nz(1) fl by (cases xs rule: rev_cases) auto
  moreover have "mm_mem s' = M" by (simp only: mem M_def)
  ultimately show "dllseg (mm_mem s') 0 (free_list s') (xs @ ys) 0"
    by (simp add: dllseg_append)
qed

text \<open>Inserting \<open>b\<close> at its place by address.\<close>

lemma insert_into_list_sorted_dllseg:
  assumes dll: "dllseg (mm_mem s) 0 (free_list s) (xs @ ys) 0"
    and ord: "\<forall>x \<in> set xs. x < b" "\<forall>y \<in> set ys. b < y"
    and sep: "sep_list (xs @ b # ys)" and b: "b \<noteq> 0"
  obtains s' where "insert_into_list_sorted s b = Some s'"
    "dllseg (mm_mem s') 0 (free_list s') (xs @ b # ys) 0"
    "links_only (set (xs @ b # ys)) (mm_mem s) (mm_mem s')"
    "s' = s\<lparr>mm_mem := mm_mem s', free_list := free_list s'\<rparr>"
proof -
  let ?m = "mm_mem s" and ?p = "last0 0 xs" and ?n = "hd0 ys 0"
  let ?B = "set (xs @ b # ys)"
  have nz: "0 \<notin> set xs" "0 \<notin> set ys" using dllseg_nonzero [OF dll] by auto
  have B: "x = y \<or> hsep x y" if "x \<in> ?B" "y \<in> ?B" for x y
    using sep_listD(2) [OF sep] that by blast
  have lt: "x \<in> ?B \<Longrightarrow> x mod 2 ^ 32 = x" for x using sep_listD(3) [OF sep] by simp
  have dist: "distinct (xs @ b # ys)" by (rule sep_listD(1) [OF sep])
  have seg: "dllseg ?m 0 (free_list s) xs ?n" "dllseg ?m ?p ?n ys 0"
    using dll by (auto simp: dllseg_append)
  have p: "?p \<noteq> 0 \<Longrightarrow> ?p \<in> set xs" by (rule last0_in)
  have n: "?n \<noteq> 0 \<Longrightarrow> ?n \<in> set ys" by (rule hd0_in)
  have tw: "takeWhile (\<lambda>x. x < b) (xs @ ys) = xs" "dropWhile (\<lambda>x. x < b) (xs @ ys) = ys"
    using ord by (cases ys; auto simp: takeWhile_append dropWhile_append)+
  have seek: "insert_seek ?m b 0 (free_list s) = Some (?p, ?n)"
    using insert_seek_dllseg [OF dll, of b] by (simp only: tw)
  have empty: "free_list s = 0 \<longleftrightarrow> xs = [] \<and> ys = []"
    using dllseg_hd [OF dll] nz by (cases xs; cases ys) auto
  let ?m1 = "set_prev b ?p (set_next b ?n ?m)"
  let ?m2 = "if ?p \<noteq> 0 then set_next ?p b ?m1 else ?m1"
  let ?m3 = "if ?n \<noteq> 0 then set_prev ?n b ?m2 else ?m2"
  let ?s = "s\<lparr>mm_mem := ?m3, free_list := (if ?p \<noteq> 0 then free_list s else b)\<rparr>"
  have swap: "set_next b 0 (set_prev b 0 ?m) = set_prev b 0 (set_next b 0 ?m)"
    by (auto simp: set_next_def set_prev_def store32_def fun_upd_twist)
  have "insert_into_list_sorted s b = Some ?s"
    using empty swap by (auto simp: insert_into_list_sorted_def seek)
  moreover have links: "links_only ?B ?m ?m3"
    using p n by (auto intro!: links_only_set_next links_only_set_prev links_only_refl)
  moreover have "dllseg ?m3 0 (if ?p \<noteq> 0 then free_list s else b) (xs @ b # ys) 0"
  proof -
    define M where "M = ?m3"
    have pB: "?p \<noteq> 0 \<Longrightarrow> ?p \<in> ?B" and nB: "?n \<noteq> 0 \<Longrightarrow> ?n \<in> ?B" using p n by auto
    have n32: "?n mod 2 ^ 32 = ?n" using nB lt by (cases "?n = 0") auto
    have p32: "?p mod 2 ^ 32 = ?p" using pB lt by (cases "?p = 0") auto
    have b32: "b mod 2 ^ 32 = b" using lt by simp
    have nxt: "b_next M z = (if z = ?p \<and> ?p \<noteq> 0 then b else if z = b then ?n else b_next ?m z)"
      and prv: "b_prev M z = (if z = ?n \<and> ?n \<noteq> 0 then b else if z = b then ?p else b_prev ?m z)"
      if "z \<in> ?B" for z
    proof -
      have Bz: "z = b \<or> hsep z b" "?p \<noteq> 0 \<longrightarrow> z = ?p \<or> hsep z ?p" "?n \<noteq> 0 \<longrightarrow> z = ?n \<or> hsep z ?n"
        using B [OF that] pB nB by auto
      show "b_next M z = (if z = ?p \<and> ?p \<noteq> 0 then b else if z = b then ?n else b_next ?m z)"
        by (simp only: M_def link_fields [OF Bz(1)] link_fields_if [OF Bz(2)] link_fields_if [OF Bz(3)]
            n32 b32) auto
      show "b_prev M z = (if z = ?n \<and> ?n \<noteq> 0 then b else if z = b then ?p else b_prev ?m z)"
        by (simp only: M_def link_fields [OF Bz(1)] link_fields_if [OF Bz(2)] link_fields_if [OF Bz(3)]
            p32 b32) auto
    qed
    have zp: "z = ?p \<longleftrightarrow> z = last xs" if "z \<in> set xs" for z using that by (auto simp: last0_def)
    have zn: "z = ?n \<longleftrightarrow> z = hd ys" if "z \<in> set ys" for z using that by (auto simp: hd0_def)
    have zx: "z \<noteq> b \<and> z \<noteq> ?n \<and> z \<noteq> 0" if "z \<in> set xs" for z
      using that dist n nz by (cases "?n = 0") auto
    have zy: "z \<noteq> b \<and> z \<noteq> ?p \<and> z \<noteq> 0" if "z \<in> set ys" for z
      using that dist p nz by (cases "?p = 0") auto
    have "dllseg M 0 (if xs = [] then b else free_list s) xs b"
    proof (rule dllseg_set_last [OF seg(1)])
      show "b_prev M z = b_prev ?m z" if "z \<in> set xs" for z
        using prv [of z] zx [OF that] that by simp
      show "b_next M z = (if z = last xs then b else b_next ?m z)" if "z \<in> set xs" for z
        using nxt [of z] zx [OF that] zp [OF that] that by (cases "z = last xs") auto
    qed (use dist in simp)
    moreover have "dllseg M b ?n ys 0"
    proof (rule dllseg_set_hd [OF seg(2)])
      show "b_next M z = b_next ?m z" if "z \<in> set ys" for z
        using nxt [of z] zy [OF that] that by simp
      show "b_prev M z = (if z = hd ys then b else b_prev ?m z)" if "z \<in> set ys" for z
        using prv [of z] zy [OF that] zn [OF that] that by (cases "z = hd ys") auto
    qed (use dist in simp)
    moreover have "(if xs = [] then b else free_list s) = (if ?p \<noteq> 0 then free_list s else b)"
      using p nz(1) by (cases xs rule: rev_cases) auto
    moreover have "b_prev M b = ?p" "b_next M b = ?n"
      using nxt [of b] prv [of b] zx [of b] zy [of b] p n by auto
    ultimately have "dllseg M 0 (if ?p \<noteq> 0 then free_list s else b) (xs @ b # ys) 0"
      using b by (simp add: dllseg_append)
    then show ?thesis by (simp only: M_def)
  qed
  ultimately show ?thesis by (intro that [of ?s]) simp_all
qed

end
