(* ===== verification/Heap_Layout.thy ===== *)
theory Heap_Layout
  imports Heap_Lists
begin

section \<open>The block layout of the heap\<close>

text \<open>
  The blocks of the heap tile the region \<open>[heap_start, heap_end)\<close>: each header is followed by
  its payload and then by the next header.  \<open>walk\<close> recomputes the blocks from memory, \<open>layout\<close>
  describes them as (address, size, free) triples, \<open>heap_ok\<close> is the invariant of the allocator.
\<close>

definition usum :: "mem \<Rightarrow> addr list \<Rightarrow> nat" where
  "usum m bs = sum_list (map (\<lambda>b. if b_is_free m b then 0 else b_size m b + 20) bs)"

fun tiles :: "mem \<Rightarrow> addr \<Rightarrow> addr \<Rightarrow> addr list \<Rightarrow> bool" where
  "tiles m a e [] = (a = e)"
| "tiles m a e (b # bs) =
     (b = a \<and> b_magic m b = HEAP_MAGIC \<and> tiles m (a + 20 + b_size m b) e bs)"

function walk :: "mem \<Rightarrow> addr \<Rightarrow> addr \<Rightarrow> addr list" where
  "walk m a e = (if a < e then a # walk m (a + 20 + b_size m a) e else [])"
  by pat_completeness auto
termination
  by (relation "measure (\<lambda>(m, a, e). e - a)") auto

declare walk.simps [simp del]

type_synonym layout = "(addr \<times> nat \<times> bool) list"

definition describe :: "mem \<Rightarrow> addr list \<Rightarrow> layout" where
  "describe m bs = map (\<lambda>b. (b, b_size m b, b_is_free m b)) bs"

definition blocks :: "mm_state \<Rightarrow> addr list" where
  "blocks s = walk (mm_mem s) (heap_start s) (heap_end s)"

definition layout :: "mm_state \<Rightarrow> layout" where
  "layout s = describe (mm_mem s) (blocks s)"

text \<open>The geometry of the heap region, and with it the free list and the byte accounting.\<close>

definition regions :: "mm_state \<Rightarrow> addr list \<Rightarrow> bool" where
  "regions s bs \<longleftrightarrow> 0 < heap_start s \<and> heap_end s < 2 ^ 32 \<and> total_heap_size s = heap_end s - heap_start s
     \<and> bs \<noteq> [] \<and> tiles (mm_mem s) (heap_start s) (heap_end s) bs"

definition heap_wf :: "mm_state \<Rightarrow> addr list \<Rightarrow> bool" where
  "heap_wf s bs \<longleftrightarrow> regions s bs
     \<and> dllseg (mm_mem s) 0 (free_list s) (filter (b_is_free (mm_mem s)) bs) 0
     \<and> used_heap_size s = usum (mm_mem s) bs"

definition heap_ok :: "mm_state \<Rightarrow> bool" where
  "heap_ok s \<longleftrightarrow> heap_wf s (blocks s)"

text \<open>A block taken out of the free list: the rest of the list is intact.\<close>

definition heap_part :: "mm_state \<Rightarrow> addr list \<Rightarrow> addr \<Rightarrow> addr list \<Rightarrow> bool" where
  "heap_part s us b vs \<longleftrightarrow> regions s (us @ b # vs)
     \<and> dllseg (mm_mem s) 0 (free_list s)
         (filter (b_is_free (mm_mem s)) us @ filter (b_is_free (mm_mem s)) vs) 0"

lemma tiles_append: "tiles m a e (xs @ ys) \<longleftrightarrow> (\<exists>c. tiles m a c xs \<and> tiles m c e ys)"
  by (induction xs arbitrary: a) auto

lemma tiles_le: "tiles m a e bs \<Longrightarrow> a \<le> e"
proof (induction bs arbitrary: a)
  case (Cons b bs)
  then have "a + 20 + b_size m b \<le> e" by auto
  then show ?case by simp
qed simp

lemma tiles_mem: "tiles m a e bs \<Longrightarrow> b \<in> set bs \<Longrightarrow>
    a \<le> b \<and> b + 20 + b_size m b \<le> e \<and> b_magic m b = HEAP_MAGIC"
proof (induction bs arbitrary: a)
  case (Cons c bs)
  then show ?case using tiles_le [of m "a + 20 + b_size m c" e bs] by fastforce
qed simp

lemma tiles_split:
  assumes "tiles m a e (us @ b # vs)"
  shows "tiles m a b us" "tiles m (b + 20 + b_size m b) e vs" "b_magic m b = HEAP_MAGIC"
    "\<And>u. u \<in> set us \<Longrightarrow> u + 20 + b_size m u \<le> b"
    "\<And>v. v \<in> set vs \<Longrightarrow> b + 20 + b_size m b \<le> v \<and> v + 20 + b_size m v \<le> e"
    "a \<le> b" "b + 20 + b_size m b \<le> e"
  using assms tiles_mem [of m a b us] tiles_mem [of m "b + 20 + b_size m b" e vs]
    tiles_le [of m a b us] tiles_le [of m "b + 20 + b_size m b" e vs]
  by (auto simp: tiles_append)

lemma tiles_cong:
  assumes "\<And>b. b \<in> set bs \<Longrightarrow> b_magic m' b = b_magic m b" "\<And>b. b \<in> set bs \<Longrightarrow> b_size m' b = b_size m b"
  shows "tiles m' a e bs = tiles m a e bs"
  using assms by (induction bs arbitrary: a) auto

lemma tiles_sep:
  assumes "tiles m a e bs" "e < 2 ^ 32"
  shows "sep_list bs"
proof -
  have "distinct bs \<and> (\<forall>x \<in> set bs. \<forall>y \<in> set bs. x \<noteq> y \<longrightarrow> hsep x y)"
    using assms(1)
  proof (induction bs arbitrary: a)
    case (Cons b bs)
    have ge: "b + 20 \<le> c" if "c \<in> set bs" for c
      using tiles_split(5) [of m a e "[]" b bs c] Cons.prems that by auto
    then have "b \<notin> set bs" "\<And>c. c \<in> set bs \<Longrightarrow> hsep b c \<and> hsep c b" by (fastforce simp: hsep_def)+
    with Cons show ?case by auto
  qed simp
  moreover have "x < 2 ^ 32" if "x \<in> set bs" for x
    using tiles_mem [OF assms(1) that] assms(2) by linarith
  ultimately show ?thesis by (simp add: sep_list_def)
qed

lemma tiles_walk: "tiles m a e bs \<Longrightarrow> walk m a e = bs"
proof (induction bs arbitrary: a)
  case Nil
  then show ?case by (subst walk.simps) simp
next
  case (Cons b bs)
  then have "a < e" using tiles_le [of m "a + 20 + b_size m b" e bs] by auto
  with Cons show ?case by (subst walk.simps) auto
qed

lemma heap_wf_blocks: "heap_wf s bs \<Longrightarrow> blocks s = bs"
  by (simp add: heap_wf_def regions_def blocks_def tiles_walk)

lemma heap_wf_ok: "heap_wf s bs \<Longrightarrow> heap_ok s"
  by (simp add: heap_ok_def heap_wf_blocks)

lemma regions_sep: "regions s bs \<Longrightarrow> sep_list bs"
  unfolding regions_def using tiles_sep by blast

lemma regions_mem:
  assumes "regions s (us @ b # vs)"
  shows "0 < b" "b + 20 + b_size (mm_mem s) b < 2 ^ 32" "b_magic (mm_mem s) b = HEAP_MAGIC"
    "\<And>u. u \<in> set us \<Longrightarrow> u + 20 + b_size (mm_mem s) u \<le> b"
    "\<And>v. v \<in> set vs \<Longrightarrow> b + 20 + b_size (mm_mem s) b \<le> v"
  using assms tiles_split [of "mm_mem s" "heap_start s" "heap_end s" us b vs]
  by (fastforce simp: regions_def)+

lemma regions_hsep:
  assumes "regions s bs" "x \<in> set bs" "y \<in> set bs"
  shows "x = y \<or> hsep x y"
  using sep_listD(2) [OF regions_sep [OF assms(1)]] assms(2,3) by blast

text \<open>A change of link fields keeps the geometry.\<close>

lemma regions_links:
  assumes "regions s bs" "links_only F (mm_mem s) m'" "F \<subseteq> set bs"
  shows "regions (s\<lparr>mm_mem := m', free_list := fl\<rparr>) bs"
    "\<And>b. b \<in> set bs \<Longrightarrow> b_size m' b = b_size (mm_mem s) b"
    "\<And>b. b \<in> set bs \<Longrightarrow> b_is_free m' b = b_is_free (mm_mem s) b"
    "\<And>b. b \<in> set bs \<Longrightarrow> b_magic m' b = b_magic (mm_mem s) b"
proof -
  have f: "b_magic m' b = b_magic (mm_mem s) b \<and> b_size m' b = b_size (mm_mem s) b \<and>
      b_is_free m' b = b_is_free (mm_mem s) b" if "b \<in> set bs" for b
    using links_only_fields [OF assms(2), of b] regions_hsep [OF assms(1) that] assms(3) by blast
  then show "\<And>b. b \<in> set bs \<Longrightarrow> b_size m' b = b_size (mm_mem s) b"
    "\<And>b. b \<in> set bs \<Longrightarrow> b_is_free m' b = b_is_free (mm_mem s) b"
    "\<And>b. b \<in> set bs \<Longrightarrow> b_magic m' b = b_magic (mm_mem s) b" by blast+
  have "tiles m' a e bs = tiles (mm_mem s) a e bs" for a e
    by (rule tiles_cong) (use f in auto)
  with assms(1) show "regions (s\<lparr>mm_mem := m', free_list := fl\<rparr>) bs"
    by (simp add: regions_def)
qed

lemma usum_append [simp]: "usum m (xs @ ys) = usum m xs + usum m ys"
  by (simp add: usum_def)

lemma usum_Cons [simp]:
  "usum m (b # bs) = (if b_is_free m b then 0 else b_size m b + 20) + usum m bs"
  by (simp add: usum_def)

lemma usum_Nil [simp]: "usum m [] = 0"
  by (simp add: usum_def)

lemma usum_cong:
  assumes "\<And>b. b \<in> set bs \<Longrightarrow> b_size m' b = b_size m b" "\<And>b. b \<in> set bs \<Longrightarrow> b_is_free m' b = b_is_free m b"
  shows "usum m' bs = usum m bs"
  using assms by (induction bs) auto

lemma usum_le: "tiles m a e bs \<Longrightarrow> usum m bs \<le> e - a"
proof (induction bs arbitrary: a)
  case (Cons b bs)
  then have "usum m bs \<le> e - (a + 20 + b_size m b)" "a + 20 + b_size m b \<le> e"
    using tiles_le by auto
  then show ?case by auto
qed simp

lemma describe_cong:
  assumes "\<And>b. b \<in> set bs \<Longrightarrow> b_size m' b = b_size m b" "\<And>b. b \<in> set bs \<Longrightarrow> b_is_free m' b = b_is_free m b"
  shows "describe m' bs = describe m bs"
  using assms by (simp add: describe_def)

lemma filter_free_cong:
  assumes "\<And>b. b \<in> set bs \<Longrightarrow> b_is_free m' b = b_is_free m b"
  shows "filter (b_is_free m') bs = filter (b_is_free m) bs"
  using assms by (rule filter_cong [OF refl])

text \<open>The alignment of sizes to multiples of 8: it wraps around for the last seven values.\<close>

lemma and_not_mask: "(w :: u32) AND NOT (mask n) = push_bit n (drop_bit n w)"
  by (rule bit_eqI) (auto simp: bit_simps)

lemma align_size_eq:
  assumes "n < 2 ^ 32"
  shows "align_size n = ((n + 7) mod 2 ^ 32) div 8 * 8"
proof -
  have mask: "word_of_nat ALIGNMENT - 1 = (mask 3 :: u32)"
    by (simp add: ALIGNMENT_def mask_eq_exp_minus_1)
  let ?w = "word_of_nat n + mask 3 :: u32"
  have w: "unat ?w = (n + 7) mod 2 ^ 32"
    by (simp add: unat_word_ariths unat_of_nat mask_eq_exp_minus_1 mod_simps)
  have "push_bit 3 (drop_bit 3 ?w) = ?w div 8 * 8"
    by (simp add: push_bit_eq_mult drop_bit_eq_div)
  moreover have "unat (?w div 8 * 8) = (unat ?w div 8 * 8) mod 2 ^ 32"
    by (simp add: unat_word_ariths unat_div)
  moreover have "unat ?w div 8 * 8 < 2 ^ 32"
    using w by (metis div_times_less_eq_dividend mod_less_divisor order_le_less_trans zero_less_numeral zero_less_power)
  ultimately show ?thesis
    unfolding align_size_def mask and_not_mask by (simp only: w mod_less)
qed

lemma align_size_lt: "n < 2 ^ 32 \<Longrightarrow> align_size n < 2 ^ 32"
  using align_size_eq by (metis div_times_less_eq_dividend mod_less_divisor order_le_less_trans
      zero_less_numeral zero_less_power)

lemma align_size_no_wrap: "n \<le> 2 ^ 32 - 8 \<Longrightarrow> n \<le> align_size n \<and> align_size n < n + 8"
proof -
  assume n: "n \<le> 2 ^ 32 - 8"
  then have "(n + 7) mod 2 ^ 32 = n + 7" by simp
  with n have "align_size n = (n + 7) div 8 * 8" by (simp add: align_size_eq)
  then show ?thesis by presburger
qed

lemma align_size_wrap: "2 ^ 32 - 8 < n \<Longrightarrow> n < 2 ^ 32 \<Longrightarrow> align_size n = 0"
proof -
  assume n: "2 ^ 32 - 8 < n" "n < 2 ^ 32"
  then have "n + 7 = (n + 7 - 2 ^ 32) + 2 ^ 32" by simp
  then have "(n + 7) mod 2 ^ 32 = (n + 7 - 2 ^ 32) mod 2 ^ 32" by (metis mod_add_self2)
  with n have "(n + 7) mod 2 ^ 32 < 8" by simp
  with n show ?thesis by (simp add: align_size_eq)
qed

lemma align_size_idem [simp]: "n < 2 ^ 32 \<Longrightarrow> align_size (align_size n) = align_size n"
proof -
  assume n: "n < 2 ^ 32"
  obtain k where k: "align_size n = 8 * k" using align_size_eq [OF n] by simp
  then have "8 * k < 2 ^ 32" using align_size_lt [OF n] by simp
  then have "k \<le> 536870911" by simp
  then have "(8 * k + 7) mod 2 ^ 32 div 8 = k" by simp
  with \<open>8 * k < 2 ^ 32\<close> k show ?thesis by (simp add: align_size_eq)
qed

end
