(* ===== verification/Heap.thy ===== *)
theory Heap
  imports Heap_Layout
begin

section \<open>Correctness of the allocator\<close>

text \<open>
  The operations of \<^verbatim>\<open>mm.c\<close> on a well-formed heap: what they do to the blocks, to the free list,
  to the byte accounting, and which bytes they leave alone.
\<close>

text \<open>The bytes outside every header of \<open>bs\<close>.\<close>

definition off_headers :: "addr list \<Rightarrow> addr \<Rightarrow> bool" where
  "off_headers bs a \<longleftrightarrow> (\<forall>x \<in> set bs. a < x \<or> x + 20 \<le> a)"

lemma links_only_off:
  assumes "links_only (set bs) m m'" "off_headers bs a"
  shows "m' a = m a"
proof -
  have "\<forall>x \<in> set bs. a < x + 12 \<or> x + 20 \<le> a" using assms(2) by (fastforce simp: off_headers_def)
  with assms(1) show ?thesis by (simp add: links_only_def)
qed

lemma off_headers_sub: "off_headers bs a \<Longrightarrow> set cs \<subseteq> set bs \<Longrightarrow> off_headers cs a"
  by (auto simp: off_headers_def)

subsection \<open>Splitting a block\<close>

text \<open>Writing a fresh header at \<open>nb\<close> and shrinking \<open>b\<close>.\<close>

definition fresh_header :: "addr \<Rightarrow> nat \<Rightarrow> mem \<Rightarrow> mem" where
  "fresh_header nb sz m = set_prev nb 0 (set_next nb 0 (set_is_free nb True
     (set_size nb sz (set_magic nb HEAP_MAGIC m))))"

lemma fresh_header_fields [hdr_simps]:
  "b_magic (fresh_header nb sz m) nb = HEAP_MAGIC" "b_size (fresh_header nb sz m) nb = sz mod 2 ^ 32"
  "b_is_free (fresh_header nb sz m) nb" "b_next (fresh_header nb sz m) nb = 0"
  "b_prev (fresh_header nb sz m) nb = 0"
  by (simp_all add: fresh_header_def hdr_simps HEAP_MAGIC_def)

lemma fresh_header_outside: "x < nb \<or> nb + 20 \<le> x \<Longrightarrow> fresh_header nb sz m x = m x"
  by (simp add: fresh_header_def set_field_outside)

lemma fresh_header_other [hdr_simps]:
  assumes "hsep c nb"
  shows "b_magic (fresh_header nb sz m) c = b_magic m c" "b_size (fresh_header nb sz m) c = b_size m c"
    "b_is_free (fresh_header nb sz m) c = b_is_free m c" "b_next (fresh_header nb sz m) c = b_next m c"
    "b_prev (fresh_header nb sz m) c = b_prev m c"
  using assms by (simp_all add: fresh_header_def hdr_other)

text \<open>The geometry after a split, before the new block is linked into the free list.\<close>

lemma split_regions:
  assumes reg: "regions s (us @ b # vs)" and sz: "n + 36 \<le> b_size (mm_mem s) b"
  defines "nb \<equiv> b + 20 + n" and "rest \<equiv> b_size (mm_mem s) b - n - 20"
  defines "m' \<equiv> set_size b n (fresh_header nb rest (mm_mem s))"
  shows "regions (s\<lparr>mm_mem := m'\<rparr>) (us @ b # nb # vs)"
    "\<And>c. c \<in> set us \<union> set vs \<Longrightarrow> b_size m' c = b_size (mm_mem s) c \<and>
       b_is_free m' c = b_is_free (mm_mem s) c \<and> b_next m' c = b_next (mm_mem s) c \<and>
       b_prev m' c = b_prev (mm_mem s) c"
    "b_size m' b = n" "b_size m' nb = rest" "b_is_free m' nb"
    "b_is_free m' b = b_is_free (mm_mem s) b" "b_magic m' b = HEAP_MAGIC"
    "b_next m' b = b_next (mm_mem s) b" "b_prev m' b = b_prev (mm_mem s) b"
proof -
  let ?m = "mm_mem s"
  note R = regions_mem [OF reg]
  have bnb: "hsep b nb" "hsep nb b" by (auto simp: hsep_def nb_def)
  have sep: "hsep c b" "hsep c nb" if "c \<in> set us \<union> set vs" for c
    using that R(4) [of c] R(5) [of c] sz by (auto simp: hsep_def nb_def)
  have n32: "n < 2 ^ 32" "rest < 2 ^ 32" using sz b_size_lt [of ?m b] by (auto simp: rest_def)
  show other: "b_size m' c = b_size ?m c \<and> b_is_free m' c = b_is_free ?m c \<and>
      b_next m' c = b_next ?m c \<and> b_prev m' c = b_prev ?m c" if "c \<in> set us \<union> set vs" for c
    using sep [OF that] by (simp add: m'_def hdr_simps)
  have magic: "b_magic m' c = b_magic ?m c" if "c \<in> set us \<union> set vs" for c
    using sep [OF that] by (simp add: m'_def hdr_simps)
  show b: "b_size m' b = n" "b_is_free m' b = b_is_free ?m b" "b_magic m' b = HEAP_MAGIC"
    "b_next m' b = b_next ?m b" "b_prev m' b = b_prev ?m b"
    using bnb n32 R(3) by (simp_all add: m'_def hdr_simps)
  show nb: "b_size m' nb = rest" "b_is_free m' nb"
    using bnb n32 by (simp_all add: m'_def hdr_simps)
  have nbm: "b_magic m' nb = HEAP_MAGIC" using bnb by (simp add: m'_def hdr_simps)
  have t: "tiles ?m (heap_start s) b us" "tiles ?m (b + 20 + b_size ?m b) (heap_end s) vs"
    using reg tiles_split [of ?m "heap_start s" "heap_end s" us b vs] by (auto simp: regions_def)
  have "tiles m' (heap_start s) b us"
    using t(1) tiles_cong [of us m' ?m] other magic by blast
  moreover have "tiles m' (b + 20 + b_size ?m b) (heap_end s) vs"
    using t(2) tiles_cong [of vs m' ?m] other magic by blast
  moreover have "b + 20 + b_size ?m b = nb + 20 + b_size m' nb"
    using sz nb by (simp add: nb_def rest_def)
  ultimately have "tiles m' nb (heap_end s) (nb # vs)" using nbm by simp
  moreover have "nb = b + 20 + b_size m' b" by (simp add: nb_def b)
  ultimately have "tiles m' b (heap_end s) (b # nb # vs)" using b(3) by (simp only: tiles.simps)
  with \<open>tiles m' (heap_start s) b us\<close>
  have "tiles m' (heap_start s) (heap_end s) (us @ b # nb # vs)"
    unfolding tiles_append by blast
  with reg show "regions (s\<lparr>mm_mem := m'\<rparr>) (us @ b # nb # vs)"
    by (simp add: regions_def)
qed

text \<open>\<^verbatim>\<open>split_block\<close> on a block outside the free list.\<close>

lemma split_block_part:
  assumes part: "heap_part s us b vs" and n: "align_size n = n" "n \<le> b_size (mm_mem s) b"
    and big: "n + 36 \<le> b_size (mm_mem s) b"
  obtains s' where "split_block s b n = Some (b + 20 + n, s')"
    "heap_part s' us b ((b + 20 + n) # vs)"
    "s' = s\<lparr>mm_mem := mm_mem s', free_list := free_list s'\<rparr>"
    "\<forall>c \<in> set us \<union> set vs. b_size (mm_mem s') c = b_size (mm_mem s) c \<and>
       b_is_free (mm_mem s') c = b_is_free (mm_mem s) c"
    "b_size (mm_mem s') b = n" "b_is_free (mm_mem s') b = b_is_free (mm_mem s) b"
    "b_size (mm_mem s') (b + 20 + n) = b_size (mm_mem s) b - n - 20"
    "b_is_free (mm_mem s') (b + 20 + n)" "b_prev (mm_mem s') b = b_prev (mm_mem s) b"
    "\<forall>a. off_headers (us @ b # (b + 20 + n) # vs) a \<longrightarrow> mm_mem s' a = mm_mem s a"
    "\<forall>c \<in> set us \<union> set vs. \<not> b_is_free (mm_mem s) c \<longrightarrow> b_prev (mm_mem s') c = b_prev (mm_mem s) c"
proof -
  let ?m = "mm_mem s" and ?nb = "b + 20 + n" and ?rest = "b_size (mm_mem s) b - n - 20"
  let ?m' = "set_size b n (fresh_header ?nb ?rest ?m)"
  let ?bs = "us @ b # ?nb # vs"
  have reg: "regions s (us @ b # vs)" and
    dll: "dllseg ?m 0 (free_list s) (filter (b_is_free ?m) us @ filter (b_is_free ?m) vs) 0"
    using part by (auto simp: heap_part_def)
  note S = split_regions [OF reg big]
  have size32: "b_size ?m b < 2 ^ 32" by (rule b_size_lt)
  have rem: "sub32 (b_size ?m b) n = b_size ?m b - n" using n size32 by (simp add: wrap_simps)
  have fus: "filter (b_is_free ?m') us = filter (b_is_free ?m) us"
    and fvs: "filter (b_is_free ?m') vs = filter (b_is_free ?m) vs"
    using S(2) by (auto intro!: filter_free_cong)
  let ?xs = "filter (b_is_free ?m) us" and ?ys = "filter (b_is_free ?m) vs"
  have "dllseg ?m' 0 (free_list s) (?xs @ ?ys) 0 = dllseg ?m 0 (free_list s) (?xs @ ?ys) 0"
    by (rule dllseg_cong) (use S(2) in auto)
  with dll have dll': "dllseg (mm_mem (s\<lparr>mm_mem := ?m'\<rparr>)) 0 (free_list (s\<lparr>mm_mem := ?m'\<rparr>)) (?xs @ ?ys) 0"
    by simp
  have sepl: "sep_list ?bs" using regions_sep [OF S(1)] .
  have sep': "sep_list (?xs @ ?nb # ?ys)"
    using sepl sep_listD(1) [OF sepl] by (intro sep_list_sub [OF sepl]) auto
  note R = regions_mem [OF reg]
  have "x < ?nb" if "x \<in> set us" for x using R(4) [OF that] by linarith
  moreover have "?nb < y" if "y \<in> set vs" for y using R(5) [OF that] big by linarith
  ultimately have ord: "\<forall>x \<in> set ?xs. x < ?nb" "\<forall>y \<in> set ?ys. ?nb < y" by auto
  obtain s' where s': "insert_into_list_sorted (s\<lparr>mm_mem := ?m'\<rparr>) ?nb = Some s'"
    "dllseg (mm_mem s') 0 (free_list s') (?xs @ ?nb # ?ys) 0"
    "links_only (set (?xs @ ?nb # ?ys)) ?m' (mm_mem s')"
    "s' = s\<lparr>mm_mem := mm_mem s', free_list := free_list s'\<rparr>"
    using insert_into_list_sorted_dllseg [OF dll' ord sep'] by auto
  have sub: "set (?xs @ ?nb # ?ys) \<subseteq> set ?bs" by auto
  have L0: "links_only (set (?xs @ ?nb # ?ys)) (mm_mem (s\<lparr>mm_mem := ?m'\<rparr>)) (mm_mem s')"
    using s'(3) by simp
  note L = regions_links [OF S(1) L0 sub]
  have same: "b_size (mm_mem s') c = b_size ?m' c \<and> b_is_free (mm_mem s') c = b_is_free ?m' c"
    if "c \<in> set ?bs" for c using L(2,3) that by simp
  have split: "split_block s b n = Some (?nb, s')"
    using big n(1) rem s'(1)
    by (simp add: split_block_def Let_def MIN_BLOCK_SIZE_def get_block_payload_def
        fresh_header_def [symmetric])
  have "regions (s\<lparr>mm_mem := mm_mem s', free_list := free_list s'\<rparr>) ?bs"
    using L(1) [of "free_list s'"] by simp
  then have "regions s' ?bs" by (subst s'(4))
  moreover have "filter (b_is_free (mm_mem s')) us = ?xs"
    unfolding fus [symmetric] by (rule filter_free_cong) (use same in auto)
  moreover have "filter (b_is_free (mm_mem s')) vs = ?ys"
    unfolding fvs [symmetric] by (rule filter_free_cong) (use same in auto)
  ultimately have part': "heap_part s' us b (?nb # vs)"
    using s'(2) same [of ?nb] S(5) by (simp add: heap_part_def)
  have frame: "mm_mem s' a = ?m a" if "off_headers ?bs a" for a
  proof -
    have "mm_mem s' a = ?m' a"
      using links_only_off [of ?bs ?m' "mm_mem s'"] links_only_mono [OF s'(3) sub] that by blast
    also have "\<dots> = ?m a"
      using that by (auto simp: off_headers_def set_field_outside fresh_header_outside)
    finally show ?thesis .
  qed
  have "hsep b x" if "x \<in> set (?xs @ ?nb # ?ys)" for x
    using that sub sep_listD(1,2) [OF sepl] by auto
  from links_only_other(2) [OF s'(3) this] have prv: "b_prev (mm_mem s') b = b_prev ?m b"
    using S(9) by simp
  have oprv: "b_prev (mm_mem s') c = b_prev ?m c" if c: "c \<in> set us \<union> set vs" "\<not> b_is_free ?m c" for c
  proof -
    have "hsep c x" if "x \<in> set (?xs @ ?nb # ?ys)" for x
    proof -
      have "x \<in> set ?bs" "c \<in> set ?bs" using that sub c(1) by auto
      moreover have "x \<noteq> c" using that c R(4) [of c] R(5) [of c] big by auto
      ultimately show ?thesis using sep_listD(2) [OF sepl] by blast
    qed
    from links_only_other(2) [OF s'(3) this] S(2) [OF c(1)] show ?thesis by simp
  qed
  show ?thesis
    by (rule that [OF split part' s'(4)]) (use S(2-6) same frame prv oprv in auto)
qed

subsection \<open>Taking a block out of the free list and claiming it\<close>

lemma remove_part:
  assumes wf: "heap_wf s (us @ b # vs)" and free: "b_is_free (mm_mem s) b"
  defines "s' \<equiv> remove_from_list s b"
  shows "heap_part s' us b vs" "s' = s\<lparr>mm_mem := mm_mem s', free_list := free_list s'\<rparr>"
    "\<And>c. c \<in> set (us @ b # vs) \<Longrightarrow> b_size (mm_mem s') c = b_size (mm_mem s) c \<and>
       b_is_free (mm_mem s') c = b_is_free (mm_mem s) c"
    "b_prev (mm_mem s') b = 0"
    "\<And>a. off_headers (us @ b # vs) a \<Longrightarrow> mm_mem s' a = mm_mem s a"
    "\<And>c. c \<in> set us \<union> set vs \<Longrightarrow> \<not> b_is_free (mm_mem s) c \<Longrightarrow> b_prev (mm_mem s') c = b_prev (mm_mem s) c"
proof -
  let ?m = "mm_mem s" and ?bs = "us @ b # vs"
  let ?xs = "filter (b_is_free ?m) us" and ?ys = "filter (b_is_free ?m) vs"
  have reg: "regions s ?bs" and dll: "dllseg ?m 0 (free_list s) (?xs @ b # ?ys) 0"
    using wf free by (auto simp: heap_wf_def)
  have sep: "sep_list (?xs @ b # ?ys)"
    by (rule sep_list_sub [OF regions_sep [OF reg]])
      (use sep_listD(1) [OF regions_sep [OF reg]] in auto)
  note r = remove_from_list_dllseg [OF dll sep, folded s'_def]
  have sub: "set (?xs @ b # ?ys) \<subseteq> set ?bs" by auto
  note L = regions_links [OF reg r(2) sub]
  show eq: "s' = s\<lparr>mm_mem := mm_mem s', free_list := free_list s'\<rparr>" by (rule r(3))
  show fields: "b_size (mm_mem s') c = b_size ?m c \<and> b_is_free (mm_mem s') c = b_is_free ?m c"
    if "c \<in> set ?bs" for c using L(2,3) that by blast
  have "regions s' ?bs" by (subst eq) (rule L(1))
  moreover have "filter (b_is_free (mm_mem s')) us = ?xs" "filter (b_is_free (mm_mem s')) vs = ?ys"
    using fields by (auto intro!: filter_free_cong)
  ultimately show "heap_part s' us b vs" using r(1) by (simp add: heap_part_def)
  show "b_prev (mm_mem s') b = 0" by (rule r(4))
  show "mm_mem s' a = ?m a" if "off_headers ?bs a" for a
    using links_only_off [OF links_only_mono [OF r(2) sub] that] .
  show "b_prev (mm_mem s') c = b_prev ?m c" if c: "c \<in> set us \<union> set vs" "\<not> b_is_free ?m c" for c
  proof (rule links_only_other(2) [OF r(2)])
    fix x assume x: "x \<in> set (?xs @ b # ?ys)"
    have "x \<in> set ?bs" "c \<in> set ?bs" "x \<noteq> c" using x sub c free by auto
    then show "hsep c x" using sep_listD(2) [OF regions_sep [OF reg]] by blast
  qed
qed

text \<open>Clearing or setting the free flag of one block.\<close>

lemma set_is_free_part:
  assumes part: "heap_part s us b vs" and m'_def: "m' = set_is_free b f (mm_mem s)"
  shows "heap_part (s\<lparr>mm_mem := m', used_heap_size := u\<rparr>) us b vs"
    "\<And>c. c \<in> set us \<union> set vs \<Longrightarrow> b_is_free m' c = b_is_free (mm_mem s) c"
    "\<And>c. c \<in> set (us @ b # vs) \<Longrightarrow> b_size m' c = b_size (mm_mem s) c \<and> b_magic m' c = b_magic (mm_mem s) c"
    "b_is_free m' b = f" "b_prev m' b = b_prev (mm_mem s) b"
proof -
  let ?m = "mm_mem s" and ?bs = "us @ b # vs"
  have reg: "regions s ?bs" using part by (simp add: heap_part_def)
  have sep: "hsep c b" if "c \<in> set us \<union> set vs" for c
    using that sep_listD(1,2) [OF regions_sep [OF reg]] by auto
  show free: "b_is_free m' c = b_is_free ?m c" if "c \<in> set us \<union> set vs" for c
    using sep [OF that] by (simp add: m'_def hdr_simps)
  show size: "b_size m' c = b_size ?m c \<and> b_magic m' c = b_magic ?m c" if "c \<in> set ?bs" for c
    using that sep [of c] by (auto simp: m'_def hdr_simps)
  show "b_is_free m' b = f" "b_prev m' b = b_prev ?m b" by (simp_all add: m'_def hdr_simps)
  have "tiles m' a e ?bs = tiles ?m a e ?bs" for a e
    by (rule tiles_cong) (use size in auto)
  with reg have "regions (s\<lparr>mm_mem := m', used_heap_size := u\<rparr>) ?bs" by (simp add: regions_def)
  moreover have "filter (b_is_free m') us = filter (b_is_free ?m) us"
    "filter (b_is_free m') vs = filter (b_is_free ?m) vs"
    using free by (auto intro!: filter_free_cong)
  moreover have "dllseg m' q p (filter (b_is_free ?m) us @ filter (b_is_free ?m) vs) r =
      dllseg ?m q p (filter (b_is_free ?m) us @ filter (b_is_free ?m) vs) r" for q p r
    by (rule dllseg_cong) (use sep in \<open>auto simp: m'_def hdr_simps\<close>)
  ultimately show "heap_part (s\<lparr>mm_mem := m', used_heap_size := u\<rparr>) us b vs"
    using part by (simp add: heap_part_def)
qed

lemma set_is_free_outside: "x < b \<or> b + 20 \<le> x \<Longrightarrow> set_is_free b f m x = m x"
  by (rule set_field_outside)

lemma claim_wf:
  assumes part: "heap_part s us b vs"
    and used: "used_heap_size s = usum (mm_mem s) us + usum (mm_mem s) vs"
  defines "m' \<equiv> set_is_free b False (mm_mem s)"
  shows "heap_wf (s\<lparr>mm_mem := m',
      used_heap_size := add32 (used_heap_size s) (block_total_size m' b)\<rparr>) (us @ b # vs)"
proof -
  let ?m = "mm_mem s" and ?bs = "us @ b # vs"
  let ?u = "add32 (used_heap_size s) (block_total_size m' b)"
  have m'_eq: "m' = set_is_free b False (mm_mem s)" by (simp only: m'_def)
  note F = set_is_free_part [OF part m'_eq]
  have reg: "regions (s\<lparr>mm_mem := m', used_heap_size := ?u\<rparr>) ?bs"
    using F(1) [of ?u] by (simp add: heap_part_def)
  have R: "b + 20 + b_size m' b < 2 ^ 32" using regions_mem(2) [OF reg] by simp
  have total: "block_total_size m' b = b_size m' b + 20"
    using R by (simp add: block_total_size_def wrap_simps)
  have us: "usum m' us = usum ?m us" "usum m' vs = usum ?m vs"
    using F(2,3) by (auto intro!: usum_cong)
  have sum: "usum m' ?bs = usum ?m us + (b_size m' b + 20) + usum ?m vs"
    using us F(4) by simp
  have "usum m' ?bs \<le> heap_end s - heap_start s"
    using reg usum_le by (fastforce simp: regions_def)
  moreover have "heap_end s < 2 ^ 32" using reg by (simp add: regions_def)
  ultimately have "usum m' ?bs < 2 ^ 32" by linarith
  with sum used total have "?u = usum m' ?bs" by (simp add: wrap_simps)
  with reg F(1) [of ?u] F(4) show ?thesis by (simp add: heap_wf_def heap_part_def)
qed

subsection \<open>Allocation\<close>

lemma find_filter: "(\<And>x. P x \<Longrightarrow> Q x) \<Longrightarrow> find P (filter Q xs) = find P xs"
  by (induction xs) auto

lemma find_append_skip: "(\<And>x. x \<in> set us \<Longrightarrow> \<not> P x) \<Longrightarrow> find P (us @ vs) = find P vs"
  by (induction us) auto

lemma find_free_block_wf:
  assumes "heap_wf s bs"
  shows "find_free_block s n = Some (case find (\<lambda>b. b_is_free (mm_mem s) b \<and> n \<le> b_size (mm_mem s) b) bs
    of None \<Rightarrow> 0 | Some b \<Rightarrow> b)"
proof -
  let ?m = "mm_mem s"
  have "dllseg ?m 0 (free_list s) (filter (b_is_free ?m) bs) 0" using assms by (simp add: heap_wf_def)
  from find_free_loop_dllseg [OF this, of n] show ?thesis
    unfolding find_free_block_def
    by (simp only: find_filter [of "\<lambda>b. b_is_free ?m b \<and> n \<le> b_size ?m b" "b_is_free ?m" bs] simp_thms)
qed

lemma heap_wf_start: "heap_wf s bs \<Longrightarrow> heap_start s \<noteq> 0"
  by (simp add: heap_wf_def regions_def)

lemma kmalloc_nofit:
  assumes wf: "heap_wf s bs"
    and none: "\<And>b. b \<in> set bs \<Longrightarrow> b_is_free (mm_mem s) b \<Longrightarrow> b_size (mm_mem s) b < align_size sz"
  shows "kmalloc s sz = Some (0, s)"
proof -
  have "find (\<lambda>b. b_is_free (mm_mem s) b \<and> align_size sz \<le> b_size (mm_mem s) b) bs = None"
    using none by (fastforce simp: find_None_iff)
  with find_free_block_wf [OF wf, of "align_size sz"] show ?thesis by (simp add: kmalloc_def)
qed

text \<open>\<^verbatim>\<open>split_block\<close> in both cases: it splits when a header and 16 bytes are left over.\<close>

lemma split_block_any:
  assumes part: "heap_part s us b vs" and n: "align_size n = n" "n \<le> b_size (mm_mem s) b"
  obtains s2 x where "split_block s b n = Some (x, s2)"
    "heap_part s2 us b ((if n + 36 \<le> b_size (mm_mem s) b then [b + 20 + n] else []) @ vs)"
    "s2 = s\<lparr>mm_mem := mm_mem s2, free_list := free_list s2\<rparr>"
    "\<forall>c \<in> set us \<union> set vs. b_size (mm_mem s2) c = b_size (mm_mem s) c \<and>
       b_is_free (mm_mem s2) c = b_is_free (mm_mem s) c"
    "b_size (mm_mem s2) b = (if n + 36 \<le> b_size (mm_mem s) b then n else b_size (mm_mem s) b)"
    "b_is_free (mm_mem s2) b = b_is_free (mm_mem s) b"
    "x = (if n + 36 \<le> b_size (mm_mem s) b then b + 20 + n else 0)"
    "n + 36 \<le> b_size (mm_mem s) b \<longrightarrow>
       b_size (mm_mem s2) (b + 20 + n) = b_size (mm_mem s) b - n - 20 \<and>
       b_is_free (mm_mem s2) (b + 20 + n)"
    "b_prev (mm_mem s2) b = b_prev (mm_mem s) b"
    "\<forall>a. off_headers (us @ b # (if n + 36 \<le> b_size (mm_mem s) b then [b + 20 + n] else []) @ vs) a
       \<longrightarrow> mm_mem s2 a = mm_mem s a"
    "\<forall>c \<in> set us \<union> set vs. \<not> b_is_free (mm_mem s) c \<longrightarrow> b_prev (mm_mem s2) c = b_prev (mm_mem s) c"
proof (cases "n + 36 \<le> b_size (mm_mem s) b")
  case True
  obtain s2 where S: "split_block s b n = Some (b + 20 + n, s2)"
    "heap_part s2 us b ((b + 20 + n) # vs)"
    "s2 = s\<lparr>mm_mem := mm_mem s2, free_list := free_list s2\<rparr>"
    "\<forall>c \<in> set us \<union> set vs. b_size (mm_mem s2) c = b_size (mm_mem s) c \<and>
       b_is_free (mm_mem s2) c = b_is_free (mm_mem s) c"
    "b_size (mm_mem s2) b = n" "b_is_free (mm_mem s2) b = b_is_free (mm_mem s) b"
    "b_size (mm_mem s2) (b + 20 + n) = b_size (mm_mem s) b - n - 20"
    "b_is_free (mm_mem s2) (b + 20 + n)" "b_prev (mm_mem s2) b = b_prev (mm_mem s) b"
    "\<forall>a. off_headers (us @ b # (b + 20 + n) # vs) a \<longrightarrow> mm_mem s2 a = mm_mem s a"
    "\<forall>c \<in> set us \<union> set vs. \<not> b_is_free (mm_mem s) c \<longrightarrow> b_prev (mm_mem s2) c = b_prev (mm_mem s) c"
    by (rule split_block_part [OF part n True])
  show ?thesis by (rule that [OF S(1)]) (use True S in simp_all)
next
  case False
  have "sub32 (b_size (mm_mem s) b) n = b_size (mm_mem s) b - n"
    using n(2) b_size_lt [of "mm_mem s" b] by (simp add: wrap_simps)
  moreover have "\<not> 36 \<le> b_size (mm_mem s) b - n" using False by simp
  ultimately have S: "split_block s b n = Some (0, s)"
    using n(1) by (simp add: split_block_def Let_def MIN_BLOCK_SIZE_def)
  show ?thesis by (rule that [OF S]) (use False part in simp_all)
qed

lemma two_updates:
  "s1 = s\<lparr>mm_mem := a, free_list := b\<rparr> \<Longrightarrow> s2 = s1\<lparr>mm_mem := c, free_list := d\<rparr> \<Longrightarrow>
     s2\<lparr>mm_mem := e, used_heap_size := f\<rparr> = s\<lparr>mm_mem := e, free_list := d, used_heap_size := f\<rparr>"
  by simp

text \<open>The first block that fits is split if enough is left for another block.\<close>

lemma kmalloc_fit:
  assumes wf: "heap_wf s (us @ b # vs)" and sz: "0 < sz" "sz < 2 ^ 32"
    and free: "b_is_free (mm_mem s) b" and fits: "align_size sz \<le> b_size (mm_mem s) b"
    and first: "\<And>u. u \<in> set us \<Longrightarrow> b_is_free (mm_mem s) u \<Longrightarrow> b_size (mm_mem s) u < align_size sz"
  defines "n \<equiv> align_size sz"
  defines "spl \<equiv> (n + 36 \<le> b_size (mm_mem s) b)"
  obtains s' where "kmalloc s sz = Some (b + 20, s')"
    "heap_wf s' (us @ b # (if spl then [b + 20 + n] else []) @ vs)"
    "s' = s\<lparr>mm_mem := mm_mem s', free_list := free_list s', used_heap_size := used_heap_size s'\<rparr>"
    "\<forall>c \<in> set us \<union> set vs. b_size (mm_mem s') c = b_size (mm_mem s) c \<and>
       b_is_free (mm_mem s') c = b_is_free (mm_mem s) c"
    "b_size (mm_mem s') b = (if spl then n else b_size (mm_mem s) b)" "\<not> b_is_free (mm_mem s') b"
    "spl \<longrightarrow> b_size (mm_mem s') (b + 20 + n) = b_size (mm_mem s) b - n - 20 \<and>
       b_is_free (mm_mem s') (b + 20 + n)"
    "b_prev (mm_mem s') b = 0"
    "\<forall>a. off_headers (us @ b # vs) a \<longrightarrow> a < b + 20 \<or> b + 20 + b_size (mm_mem s) b \<le> a \<longrightarrow>
       mm_mem s' a = mm_mem s a"
    "\<forall>c \<in> set us \<union> set vs. \<not> b_is_free (mm_mem s) c \<longrightarrow> b_prev (mm_mem s') c = b_prev (mm_mem s) c"
proof -
  let ?m = "mm_mem s" and ?s1 = "remove_from_list s b"
  let ?nb = "if spl then [b + 20 + n] else []"
  note r = remove_part [OF wf free]
  have reg: "regions s (us @ b # vs)" using wf by (simp add: heap_wf_def)
  note R = regions_mem [OF reg]
  have idem: "align_size n = n" using sz by (simp add: n_def)
  have size1: "b_size (mm_mem ?s1) b = b_size ?m b" using r(3) [of b] by simp
  have "find (\<lambda>b. b_is_free ?m b \<and> n \<le> b_size ?m b) (us @ b # vs) = Some b"
    using free fits first by (subst find_append_skip) (fastforce simp: n_def)+
  with find_free_block_wf [OF wf, of n] have found: "find_free_block s n = Some b" by simp
  have le: "n \<le> b_size (mm_mem ?s1) b" using fits by (simp add: n_def size1)
  obtain s2 x where s2': "split_block ?s1 b n = Some (x, s2)" "heap_part s2 us b (?nb @ vs)"
    "s2 = ?s1\<lparr>mm_mem := mm_mem s2, free_list := free_list s2\<rparr>"
    "\<forall>c \<in> set us \<union> set vs. b_size (mm_mem s2) c = b_size (mm_mem ?s1) c \<and>
       b_is_free (mm_mem s2) c = b_is_free (mm_mem ?s1) c"
    "b_size (mm_mem s2) b = (if spl then n else b_size ?m b)"
    "b_is_free (mm_mem s2) b = b_is_free (mm_mem ?s1) b" "x = (if spl then b + 20 + n else 0)"
    "spl \<longrightarrow> b_size (mm_mem s2) (b + 20 + n) = b_size ?m b - n - 20 \<and>
       b_is_free (mm_mem s2) (b + 20 + n)"
    "b_prev (mm_mem s2) b = b_prev (mm_mem ?s1) b"
    "\<forall>a. off_headers (us @ b # ?nb @ vs) a \<longrightarrow> mm_mem s2 a = mm_mem ?s1 a"
    "\<forall>c \<in> set us \<union> set vs. \<not> b_is_free (mm_mem ?s1) c \<longrightarrow> b_prev (mm_mem s2) c = b_prev (mm_mem ?s1) c"
    by (rule split_block_any [OF r(1) idem le, unfolded size1, folded spl_def])
  have s2: "b_size (mm_mem s2) c = b_size ?m c \<and> b_is_free (mm_mem s2) c = b_is_free ?m c"
    if "c \<in> set us \<union> set vs" for c using s2'(4) r(3) that by auto
  have s2b: "b_prev (mm_mem s2) b = 0" "b_size (mm_mem s2) b = (if spl then n else b_size ?m b)"
    using s2'(5,9) r(4) size1 by auto
  let ?m3 = "set_is_free b False (mm_mem s2)"
  let ?s' = "s2\<lparr>mm_mem := ?m3, used_heap_size := add32 (used_heap_size s2) (block_total_size ?m3 b)\<rparr>"
  have r2: "used_heap_size ?s1 = used_heap_size s" by (subst r(2)) simp
  have s2u: "used_heap_size s2 = used_heap_size s" by (subst s2'(3)) (simp add: r2)
  have "usum (mm_mem s2) us = usum ?m us" "usum (mm_mem s2) vs = usum ?m vs"
    using s2 by (auto intro!: usum_cong)
  then have "used_heap_size s2 = usum (mm_mem s2) us + usum (mm_mem s2) (?nb @ vs)"
    using wf free s2'(8) s2u by (auto simp: heap_wf_def)
  from claim_wf [OF s2'(2) this] have wf': "heap_wf ?s' (us @ b # ?nb @ vs)" .
  note F = set_is_free_part [OF s2'(2) refl, where f = False]
  have km: "kmalloc s sz = Some (b + 20, ?s')"
    using sz heap_wf_start [OF wf] found R(1) s2'(1)
    by (simp add: kmalloc_def n_def [symmetric] get_block_payload_def Let_def)
  have eqs: "?s' = s\<lparr>mm_mem := mm_mem ?s', free_list := free_list ?s', used_heap_size := used_heap_size ?s'\<rparr>"
    using two_updates [OF r(2) s2'(3), where e = ?m3] by simp
  have frame: "mm_mem ?s' a = ?m a"
    if "off_headers (us @ b # vs) a" "a < b + 20 \<or> b + 20 + b_size ?m b \<le> a" for a
  proof -
    have "off_headers (us @ b # ?nb @ vs) a"
      using that fits by (auto simp: off_headers_def spl_def)
    from s2'(10) this r(5) [OF that(1)] have "mm_mem s2 a = ?m a" by simp
    moreover have "?m3 a = mm_mem s2 a"
      by (rule set_is_free_outside) (use that(1) in \<open>auto simp: off_headers_def\<close>)
    ultimately show ?thesis by simp
  qed
  have oprv: "b_prev ?m3 c = b_prev ?m c" if c: "c \<in> set us \<union> set vs" "\<not> b_is_free ?m c" for c
  proof -
    have "hsep c b" using c(1) sep_listD(1,2) [OF regions_sep [OF reg]] by auto
    then have "b_prev ?m3 c = b_prev (mm_mem s2) c" by (simp add: hdr_simps)
    also have "\<dots> = b_prev ?m c" using s2'(11) r(3,6) c by auto
    finally show ?thesis .
  qed
  show ?thesis
    by (rule that [OF km wf' eqs]) (use F(2-5) s2 s2b s2'(8) frame oprv in auto)
qed

end
