(* ===== verification/Heap_Free.thy ===== *)
theory Heap_Free
  imports Heap
begin

section \<open>Releasing and resizing blocks\<close>

text \<open>
  \<^verbatim>\<open>kfree\<close> links a block back into the free list and coalesces it with its free neighbours;
  \<^verbatim>\<open>krealloc\<close> shrinks in place or moves.  Coalescing two neighbours is one step, \<open>absorb\<close>, whichever of
  the two neighbours started it.
\<close>

definition absorb :: "mem \<Rightarrow> addr \<Rightarrow> addr \<Rightarrow> mem" where
  "absorb m p b =
     (let m2 = set_next p (b_next m b) (set_size p (b_size m p + (b_size m b + 20)) m) in
      if b_next m b \<noteq> 0 then set_prev (b_next m b) p m2 else m2)"

lemma absorb_wf:
  assumes wf: "heap_wf s (us @ p # b # vs)"
    and free: "b_is_free (mm_mem s) p" "b_is_free (mm_mem s) b"
  defines "m' \<equiv> absorb (mm_mem s) p b"
  shows "heap_wf (s\<lparr>mm_mem := m'\<rparr>) (us @ p # vs)"
    "\<And>c. c \<in> set us \<union> set vs \<Longrightarrow> b_size m' c = b_size (mm_mem s) c \<and>
       b_is_free m' c = b_is_free (mm_mem s) c"
    "b_size m' p = b_size (mm_mem s) p + 20 + b_size (mm_mem s) b" "b_is_free m' p"
    "\<And>a. off_headers (us @ p # b # vs) a \<Longrightarrow> m' a = mm_mem s a"
proof -
  let ?m = "mm_mem s" and ?n = "b_next (mm_mem s) b" and ?bs = "us @ p # b # vs"
  let ?xs = "filter (b_is_free ?m) us" and ?ys = "filter (b_is_free ?m) vs"
  have reg: "regions s ?bs" and dll: "dllseg ?m 0 (free_list s) (?xs @ p # b # ?ys) 0"
    using wf free by (auto simp: heap_wf_def)
  have sepl: "sep_list ?bs" by (rule regions_sep [OF reg])
  have dist: "distinct ?bs" by (rule sep_listD(1) [OF sepl])
  have B: "x = y \<or> hsep x y" if "x \<in> set ?bs" "y \<in> set ?bs" for x y
    by (rule regions_hsep [OF reg that])
  have seg: "dllseg ?m 0 (free_list s) (?xs @ [p]) b" "dllseg ?m b ?n ?ys 0"
    using dll by (auto simp: dllseg_append)
  have n: "?n = hd0 ?ys 0" by (rule dllseg_hd [OF seg(2)])
  have nB: "?n \<noteq> 0 \<longrightarrow> ?n \<in> set ?ys" using hd0_in [of ?ys] n by auto
  have nz: "0 \<notin> set ?ys" using dllseg_nonzero [OF seg(2)] .
  have pb: "hsep p b" using B [of p b] dist by auto
  have adj: "b = p + 20 + b_size ?m p" "tiles ?m (heap_start s) p us"
    "tiles ?m (b + 20 + b_size ?m b) (heap_end s) vs" "heap_end s < 2 ^ 32"
    using reg by (auto simp: regions_def tiles_append)
  let ?sz = "b_size ?m p + (b_size ?m b + 20)"
  have sz32: "?sz < 2 ^ 32"
    using regions_mem(2) [of s "us @ [p]" b vs] reg adj(1) by auto
  let ?m1 = "set_size p ?sz ?m" and ?m2 = "set_next p ?n (set_size p ?sz ?m)"
  have m': "m' = (if ?n \<noteq> 0 then set_prev ?n p ?m2 else ?m2)"
    by (simp add: m'_def absorb_def Let_def)
  have n32: "?n mod 2 ^ 32 = ?n" using b_next_lt [of ?m b] by simp
  have p32: "p mod 2 ^ 32 = p" using sep_listD(3) [OF sepl, of p] by simp
  have links: "links_only (set (p # vs)) ?m1 m'"
    unfolding m' using nB by (auto intro!: links_only_set_next links_only_set_prev links_only_refl)
  have keep: "b_magic m' c = b_magic ?m1 c \<and> b_size m' c = b_size ?m1 c \<and> b_is_free m' c = b_is_free ?m1 c"
    if "c \<in> set ?bs" for c
    using links_only_fields [OF links, of c] B [OF that] by auto
  have sep: "hsep c p" if "c \<in> set us \<union> set vs" for c using that B [of c p] dist by auto
  show other: "b_size m' c = b_size ?m c \<and> b_is_free m' c = b_is_free ?m c"
    if "c \<in> set us \<union> set vs" for c
    using keep [of c] sep [OF that] that by (auto simp: hdr_simps)
  have magic: "b_magic m' c = b_magic ?m c" if "c \<in> set us \<union> set vs \<union> {p}" for c
    using keep [of c] sep [of c] that by (auto simp: hdr_simps)
  show pf: "b_size m' p = b_size ?m p + 20 + b_size ?m b" "b_is_free m' p"
    using keep [of p] sz32 free by (simp_all add: hdr_simps)
  have nxt: "b_next m' z = (if z = p then ?n else b_next ?m z)"
    and prv: "b_prev m' z = (if z = ?n \<and> ?n \<noteq> 0 then p else b_prev ?m z)"
    if "z \<in> set ?bs" for z
  proof -
    have Bz: "z = p \<or> hsep z p" "?n \<noteq> 0 \<longrightarrow> z = ?n \<or> hsep z ?n"
      using B [OF that] nB by auto
    have m1: "b_next ?m1 z = b_next ?m z" "b_prev ?m1 z = b_prev ?m z"
      using Bz(1) hdr_other [of z p] by (auto simp: hdr_simps)
    show "b_next m' z = (if z = p then ?n else b_next ?m z)"
      by (simp only: m' link_fields_if [OF Bz(2)] link_fields [OF Bz(1)] n32 m1)
    show "b_prev m' z = (if z = ?n \<and> ?n \<noteq> 0 then p else b_prev ?m z)"
      by (simp only: m' link_fields_if [OF Bz(2)] link_fields [OF Bz(1)] p32 m1) auto
  qed
  have fus: "filter (b_is_free m') us = ?xs" and fvs: "filter (b_is_free m') vs = ?ys"
    using other by (auto intro!: filter_free_cong)
  have "dllseg m' 0 (if ?xs @ [p] = [] then ?n else free_list s) (?xs @ [p]) ?n"
  proof (rule dllseg_set_last [OF seg(1)])
    show "distinct (?xs @ [p])" using dist by auto
    show "b_prev m' z = b_prev ?m z" if "z \<in> set (?xs @ [p])" for z
      using prv [of z] that dist nB by auto
    show "b_next m' z = (if z = last (?xs @ [p]) then ?n else b_next ?m z)"
      if "z \<in> set (?xs @ [p])" for z
      using nxt [of z] that by auto
  qed
  moreover have "dllseg m' p ?n ?ys 0"
  proof (rule dllseg_set_hd [OF seg(2)])
    show "distinct ?ys" using dist by auto
    show "b_next m' z = b_next ?m z" if "z \<in> set ?ys" for z
      using nxt [of z] that dist by auto
    show "b_prev m' z = (if z = hd ?ys then p else b_prev ?m z)" if "z \<in> set ?ys" for z
    proof -
      have ne: "?ys \<noteq> []" by (rule notI) (use that in simp)
      then have "?n = hd ?ys" using n by (simp add: hd0_def)
      moreover have "hd ?ys \<noteq> 0" using hd_in_set [OF ne] nz by metis
      ultimately show ?thesis using prv [of z] that by auto
    qed
  qed
  ultimately have "dllseg m' 0 (free_list s) (?xs @ p # ?ys) 0"
    using n by (simp add: dllseg_append)
  moreover have "tiles m' (heap_start s) (heap_end s) (us @ p # vs)"
  proof -
    have "tiles m' (heap_start s) p us"
      using adj(2) tiles_cong [of us m' ?m] other magic by blast
    moreover have "tiles m' (b + 20 + b_size ?m b) (heap_end s) vs"
      using adj(3) tiles_cong [of vs m' ?m] other magic by blast
    moreover have "b + 20 + b_size ?m b = p + 20 + b_size m' p" using adj(1) pf(1) by simp
    moreover have "b_magic m' p = HEAP_MAGIC"
      using magic [of p] regions_mem(3) [OF reg] by simp
    ultimately have "tiles m' p (heap_end s) (p # vs)" by simp
    with \<open>tiles m' (heap_start s) p us\<close> show ?thesis unfolding tiles_append by blast
  qed
  moreover have "usum m' us = usum ?m us" "usum m' vs = usum ?m vs"
    using other by (auto intro!: usum_cong)
  ultimately show "heap_wf (s\<lparr>mm_mem := m'\<rparr>) (us @ p # vs)"
    using wf reg free pf(2) fus fvs by (simp add: heap_wf_def regions_def)
  show "m' a = ?m a" if "off_headers ?bs a" for a
  proof -
    have "m' a = ?m1 a"
      by (rule links_only_off [OF links off_headers_sub [OF that]]) auto
    also have "\<dots> = ?m a" using that by (auto simp: off_headers_def set_field_outside)
    finally show ?thesis .
  qed
qed

subsection \<open>Coalescing\<close>

lemma merge_with_prev_absorb:
  assumes "p = b_prev m b" "p \<noteq> 0" "b_is_free m p" "b = p + 20 + b_size m p" "hsep b p"
    "b_size m p + (b_size m b + 20) < 2 ^ 32"
  shows "merge_with_prev m b = (absorb m p b, p)"
proof -
  have tot: "block_total_size m p = b_size m p + 20" "block_total_size m b = b_size m b + 20"
    using assms(6) b_size_lt [of m p]
    by (simp_all add: block_total_size_def wrap_simps)
  show ?thesis
    using assms tot by (simp add: merge_with_prev_def absorb_def Let_def wrap_simps hdr_other)
qed

lemma merge_with_next_absorb:
  assumes "n = b_next m b" "n \<noteq> 0" "b_is_free m n" "n = b + 20 + b_size m b" "hsep n b"
    "b_size m b + (b_size m n + 20) < 2 ^ 32"
  shows "merge_with_next m b = absorb m b n"
proof -
  have tot: "block_total_size m b = b_size m b + 20" "block_total_size m n = b_size m n + 20"
    using assms(6) by (simp_all add: block_total_size_def wrap_simps)
  have n32: "b_next m n mod 2 ^ 32 = b_next m n" using b_next_lt [of m n] by simp
  show ?thesis
    using assms tot n32
    by (simp add: merge_with_next_def absorb_def Let_def wrap_simps hdr_other hdr_same)
qed

lemma wf_links:
  assumes wf: "heap_wf s (us @ b # vs)" and free: "b_is_free (mm_mem s) b"
  shows "b_prev (mm_mem s) b = last0 0 (filter (b_is_free (mm_mem s)) us)"
    "b_next (mm_mem s) b = hd0 (filter (b_is_free (mm_mem s)) vs) 0" "b \<noteq> 0"
proof -
  have "dllseg (mm_mem s) 0 (free_list s)
      (filter (b_is_free (mm_mem s)) us @ b # filter (b_is_free (mm_mem s)) vs) 0"
    using wf free by (simp add: heap_wf_def)
  then show "b_prev (mm_mem s) b = last0 0 (filter (b_is_free (mm_mem s)) us)"
    "b_next (mm_mem s) b = hd0 (filter (b_is_free (mm_mem s)) vs) 0" "b \<noteq> 0"
    by (auto simp: dllseg_append dest: dllseg_hd)
qed

lemma wf_size_sum:
  assumes "heap_wf s (us @ p # b # vs)"
  shows "b_size (mm_mem s) p + (b_size (mm_mem s) b + 20) < 2 ^ 32" "b = p + 20 + b_size (mm_mem s) p"
    "hsep b p" "hsep p b"
proof -
  have reg: "regions s (us @ p # b # vs)" "regions s ((us @ [p]) @ b # vs)"
    using assms by (simp_all add: heap_wf_def)
  show "b = p + 20 + b_size (mm_mem s) p" using reg by (auto simp: regions_def tiles_append)
  with regions_mem(2) [OF reg(2)]
  show "b_size (mm_mem s) p + (b_size (mm_mem s) b + 20) < 2 ^ 32" by simp
  show "hsep b p" "hsep p b"
    using \<open>b = p + 20 + b_size (mm_mem s) p\<close> by (auto simp: hsep_def)
qed

text \<open>Joining to the left happens exactly when the block before \<open>b\<close> is free.\<close>

lemma merge_with_prev_join:
  assumes wf: "heap_wf s (us @ p # b # vs)" and free: "b_is_free (mm_mem s) p" "b_is_free (mm_mem s) b"
  shows "merge_with_prev (mm_mem s) b = (absorb (mm_mem s) p b, p)"
proof -
  have "heap_wf s ((us @ [p]) @ b # vs)" using wf by simp
  from wf_links(1) [OF this free(2)] free(1) have "b_prev (mm_mem s) b = p" by simp
  moreover have "p \<noteq> 0" using wf_links(3) [OF wf free(1)] .
  ultimately show ?thesis
    using wf_size_sum [OF wf] free by (intro merge_with_prev_absorb) auto
qed

lemma merge_with_prev_skip:
  assumes wf: "heap_wf s (us @ b # vs)" and free: "b_is_free (mm_mem s) b"
    and no: "us = [] \<or> \<not> b_is_free (mm_mem s) (last us)"
  shows "merge_with_prev (mm_mem s) b = (mm_mem s, b)"
proof -
  let ?m = "mm_mem s" and ?p = "b_prev (mm_mem s) b"
  have "b \<noteq> ?p + block_total_size ?m ?p" if "?p \<noteq> 0"
  proof -
    have "?p \<in> set (filter (b_is_free ?m) us)"
      using that wf_links(1) [OF wf free] last0_in by metis
    then have p: "?p \<in> set us" "b_is_free ?m ?p" by auto
    from p(1) obtain vs' where us: "us = butlast us @ [last us]" "us \<noteq> []"
      by (cases us rule: rev_cases) auto
    with no p have pl: "?p \<in> set (butlast us)" by (metis (mono_tags) Un_iff empty_iff
          empty_set list.set_cases set_ConsD set_append)
    have reg: "regions s (butlast us @ last us # b # vs)"
      using wf us by (metis append.assoc append_Cons append_Nil heap_wf_def)
    have "?p + 20 + b_size ?m ?p \<le> last us" using regions_mem(4) [OF reg pl] .
    moreover have "last us < b" using regions_mem(5) [OF reg, of b] by simp
    moreover have "last us < 2 ^ 32" using regions_mem(2) [OF reg] by simp
    ultimately show ?thesis by (simp add: block_total_size_def wrap_simps)
  qed
  then show ?thesis by (auto simp: merge_with_prev_def Let_def)
qed

lemma merge_with_next_join:
  assumes wf: "heap_wf s (us @ b # n # vs)" and free: "b_is_free (mm_mem s) b" "b_is_free (mm_mem s) n"
  shows "merge_with_next (mm_mem s) b = absorb (mm_mem s) b n"
proof -
  have "b_next (mm_mem s) b = n" using wf_links(2) [OF wf free(1)] free(2) by simp
  moreover have "n \<noteq> 0" using wf_links(3) [of s "us @ [b]" n vs] wf free(2) by simp
  ultimately show ?thesis
    using wf_size_sum [OF wf] free by (intro merge_with_next_absorb) auto
qed

lemma merge_with_next_skip:
  assumes wf: "heap_wf s (us @ b # vs)" and free: "b_is_free (mm_mem s) b"
    and no: "vs = [] \<or> \<not> b_is_free (mm_mem s) (hd vs)"
  shows "merge_with_next (mm_mem s) b = mm_mem s"
proof -
  let ?m = "mm_mem s" and ?n = "b_next (mm_mem s) b"
  have "?n \<noteq> b + block_total_size ?m b" if "?n \<noteq> 0"
  proof -
    have "?n \<in> set (filter (b_is_free ?m) vs)"
      using that wf_links(2) [OF wf free] hd0_in by metis
    then have n: "?n \<in> set vs" "b_is_free ?m ?n" by auto
    then obtain v vs' where vs: "vs = v # vs'" by (cases vs) auto
    with no n have "?n \<in> set vs'" by auto
    moreover have reg: "regions s ((us @ [b]) @ v # vs')" using wf vs by (simp add: heap_wf_def)
    ultimately have "v + 20 \<le> ?n" using regions_mem(5) [OF reg] by fastforce
    moreover have "b + 20 + b_size ?m b = v"
      using reg by (auto simp: regions_def tiles_append)
    moreover have "b + 20 + b_size ?m b < 2 ^ 32"
      using regions_mem(2) [of s us b vs] wf by (simp add: heap_wf_def)
    ultimately show ?thesis by (simp add: block_total_size_def wrap_simps)
  qed
  then show ?thesis by (auto simp: merge_with_next_def Let_def)
qed

subsection \<open>The abstract allocator\<close>

text \<open>What the allocator does to the layout.  Allocation is first fit; a release marks the block
  free and joins it with a free block before it and with a free block after it.\<close>

fun lalloc :: "nat \<Rightarrow> layout \<Rightarrow> (addr \<times> layout) option" where
  "lalloc n [] = None"
| "lalloc n ((b, k, f) # r) =
     (if f \<and> n \<le> k
      then Some (b, if n + 36 \<le> k then (b, n, False) # (b + 20 + n, k - n - 20, True) # r
                    else (b, k, False) # r)
      else map_option (\<lambda>(p, r'). (p, (b, k, f) # r')) (lalloc n r))"

fun join_next :: "layout \<Rightarrow> layout" where
  "join_next ((a, n, True) # (b, k, True) # r) = (a, n + 20 + k, True) # r"
| "join_next r = r"

fun lfree :: "addr \<Rightarrow> layout \<Rightarrow> layout" where
  "lfree b [] = []"
| "lfree b ((a, n, f) # r) =
     (if a = b then join_next ((a, n, True) # r)
      else case r of
          [] \<Rightarrow> [(a, n, f)]
        | (a', n', f') # r' \<Rightarrow>
            if f \<and> a' = b then join_next ((a, n + 20 + n', True) # r') else (a, n, f) # lfree b r)"

lemma describe_simps [simp]:
  "describe m [] = []" "describe m (b # bs) = (b, b_size m b, b_is_free m b) # describe m bs"
  "describe m (xs @ ys) = describe m xs @ describe m ys"
  by (simp_all add: describe_def)

lemma join_next_free: "join_next ((a, n, True) # describe m vs) =
    (if vs \<noteq> [] \<and> b_is_free m (hd vs) then (a, n + 20 + b_size m (hd vs), True) # describe m (tl vs)
     else (a, n, True) # describe m vs)"
  by (cases vs; cases "b_is_free m (hd vs)") auto

lemma lfree_describe:
  assumes "b \<notin> set us"
  shows "lfree b (describe m us @ (b, n, f) # r) =
    (if us \<noteq> [] \<and> b_is_free m (last us)
     then describe m (butlast us) @ join_next ((last us, b_size m (last us) + 20 + n, True) # r)
     else describe m us @ join_next ((b, n, True) # r))"
  using assms
proof (induction us)
  case (Cons u us)
  then show ?case by (cases us) auto
qed simp

lemma lalloc_describe_None:
  "(\<And>b. b \<in> set bs \<Longrightarrow> b_is_free m b \<Longrightarrow> b_size m b < n) \<Longrightarrow> lalloc n (describe m bs) = None"
  by (induction bs) (auto simp: not_le)

lemma lalloc_describe_Some:
  assumes "\<And>u. u \<in> set us \<Longrightarrow> b_is_free m u \<Longrightarrow> b_size m u < n" "b_is_free m b" "n \<le> b_size m b"
  shows "lalloc n (describe m (us @ b # vs)) = Some (b, describe m us @
    (if n + 36 \<le> b_size m b then (b, n, False) # (b + 20 + n, b_size m b - n - 20, True) # describe m vs
     else (b, b_size m b, False) # describe m vs))"
  using assms
proof (induction us)
  case (Cons u us)
  have "\<not> (b_is_free m u \<and> n \<le> b_size m u)" using Cons.prems(1) [of u] by auto
  then show ?case using Cons by auto
qed simp

subsection \<open>Release\<close>

lemma insert_wf:
  assumes part: "heap_part s us b vs" and free: "b_is_free (mm_mem s) b"
    and used: "used_heap_size s = usum (mm_mem s) us + usum (mm_mem s) vs"
  obtains s' where "insert_into_list_sorted s b = Some s'" "heap_wf s' (us @ b # vs)"
    "s' = s\<lparr>mm_mem := mm_mem s', free_list := free_list s'\<rparr>"
    "\<forall>c \<in> set (us @ b # vs). b_size (mm_mem s') c = b_size (mm_mem s) c \<and>
       b_is_free (mm_mem s') c = b_is_free (mm_mem s) c"
    "\<forall>a. off_headers (us @ b # vs) a \<longrightarrow> mm_mem s' a = mm_mem s a"
proof -
  let ?m = "mm_mem s" and ?bs = "us @ b # vs"
  let ?xs = "filter (b_is_free ?m) us" and ?ys = "filter (b_is_free ?m) vs"
  have reg: "regions s ?bs" and dll: "dllseg ?m 0 (free_list s) (?xs @ ?ys) 0"
    using part by (auto simp: heap_part_def)
  note R = regions_mem [OF reg]
  have sepl: "sep_list ?bs" by (rule regions_sep [OF reg])
  have sep: "sep_list (?xs @ b # ?ys)"
    by (rule sep_list_sub [OF sepl]) (use sep_listD(1) [OF sepl] in auto)
  have "x < b" if "x \<in> set us" for x using R(4) [OF that] by linarith
  moreover have "b < y" if "y \<in> set vs" for y using R(5) [OF that] by linarith
  ultimately have ord: "\<forall>x \<in> set ?xs. x < b" "\<forall>y \<in> set ?ys. b < y" by auto
  obtain s' where s': "insert_into_list_sorted s b = Some s'"
    "dllseg (mm_mem s') 0 (free_list s') (?xs @ b # ?ys) 0"
    "links_only (set (?xs @ b # ?ys)) ?m (mm_mem s')"
    "s' = s\<lparr>mm_mem := mm_mem s', free_list := free_list s'\<rparr>"
    using insert_into_list_sorted_dllseg [OF dll ord sep] R(1) by auto
  have sub: "set (?xs @ b # ?ys) \<subseteq> set ?bs" by auto
  note L = regions_links [OF reg s'(3) sub]
  have fields: "\<forall>c \<in> set ?bs. b_size (mm_mem s') c = b_size ?m c \<and> b_is_free (mm_mem s') c = b_is_free ?m c"
    using L(2,3) by blast
  have reg': "regions s' ?bs" by (subst s'(4)) (rule L(1))
  have filt: "filter (b_is_free (mm_mem s')) ?bs = ?xs @ b # ?ys"
    using filter_free_cong [of ?bs "mm_mem s'" ?m] fields free by auto
  have us: "used_heap_size s' = used_heap_size s" by (subst s'(4)) simp
  have "usum (mm_mem s') ?bs = usum ?m ?bs" by (rule usum_cong) (use fields in auto)
  then have wf': "heap_wf s' ?bs"
    using reg' s'(2) us used free unfolding heap_wf_def filt by simp
  have frame: "\<forall>a. off_headers ?bs a \<longrightarrow> mm_mem s' a = ?m a"
    using links_only_off [OF links_only_mono [OF s'(3) sub]] by blast
  show ?thesis by (rule that [OF s'(1) wf' s'(4) fields frame])
qed

lemma merge_next_wf:
  assumes wf: "heap_wf s (us @ b # vs)" and free: "b_is_free (mm_mem s) b"
  defines "m' \<equiv> merge_with_next (mm_mem s) b"
  obtains bs' where "heap_wf (s\<lparr>mm_mem := m'\<rparr>) bs'"
    "describe m' bs' = describe (mm_mem s) us @ join_next (describe (mm_mem s) (b # vs))"
    "\<forall>a. off_headers (us @ b # vs) a \<longrightarrow> m' a = mm_mem s a"
proof (cases "vs \<noteq> [] \<and> b_is_free (mm_mem s) (hd vs)")
  case True
  then obtain n ws where vs: "vs = n # ws" "b_is_free (mm_mem s) n" by (cases vs) auto
  have wf': "heap_wf s (us @ b # n # ws)" using wf vs by simp
  have m': "m' = absorb (mm_mem s) b n"
    unfolding m'_def by (rule merge_with_next_join [OF wf' free vs(2)])
  note A = absorb_wf [OF wf' free vs(2), folded m']
  have d: "describe m' (us @ b # ws) = describe (mm_mem s) us @ join_next (describe (mm_mem s) (b # vs))"
    using A(2-4) vs free describe_cong [of us m' "mm_mem s"] describe_cong [of ws m' "mm_mem s"]
    by simp
  show ?thesis by (rule that [OF A(1) d]) (use A(5) vs in auto)
next
  case False
  then have m': "m' = mm_mem s"
    unfolding m'_def using merge_with_next_skip [OF wf free] by blast
  have "heap_wf (s\<lparr>mm_mem := m'\<rparr>) (us @ b # vs)" using wf m' by simp
  then show ?thesis
    by (rule that) (use False free in \<open>auto simp: m' join_next_free\<close>)
qed

lemma merge_free_blocks_wf:
  assumes wf: "heap_wf s (us @ b # vs)" and free: "b_is_free (mm_mem s) b"
  obtains bs' m' where "merge_free_blocks s b = s\<lparr>mm_mem := m'\<rparr>" "heap_wf (s\<lparr>mm_mem := m'\<rparr>) bs'"
    "describe m' bs' = lfree b (describe (mm_mem s) (us @ b # vs))"
    "\<forall>a. off_headers (us @ b # vs) a \<longrightarrow> m' a = mm_mem s a"
proof -
  let ?m = "mm_mem s"
  have bn: "b \<notin> set us"
    using sep_listD(1) [OF regions_sep [of s "us @ b # vs"]] wf by (auto simp: heap_wf_def)
  have b0: "b \<noteq> 0" by (rule wf_links(3) [OF wf free])
  show ?thesis
  proof (cases "us \<noteq> [] \<and> b_is_free ?m (last us)")
    case True
    then obtain ws p where us: "us = ws @ [p]" "b_is_free ?m p" by (cases us rule: rev_cases) auto
    have wf1: "heap_wf s (ws @ p # b # vs)" using wf us by simp
    let ?m1 = "absorb ?m p b"
    note A = absorb_wf [OF wf1 us(2) free]
    note J = merge_with_prev_join [OF wf1 us(2) free]
    have "heap_wf (s\<lparr>mm_mem := ?m1\<rparr>) (ws @ p # vs)" "b_is_free (mm_mem (s\<lparr>mm_mem := ?m1\<rparr>)) p"
      using A(1,4) by simp_all
    from merge_next_wf [OF this] obtain bs' where N:
      "heap_wf (s\<lparr>mm_mem := merge_with_next ?m1 p\<rparr>) bs'"
      "describe (merge_with_next ?m1 p) bs' = describe ?m1 ws @ join_next (describe ?m1 (p # vs))"
      "\<forall>a. off_headers (ws @ p # vs) a \<longrightarrow> merge_with_next ?m1 p a = ?m1 a"
      by auto
    have d: "describe ?m1 ws = describe ?m ws" "describe ?m1 vs = describe ?m vs"
      using A(2) by (auto intro!: describe_cong)
    have eq: "merge_free_blocks s b = s\<lparr>mm_mem := merge_with_next ?m1 p\<rparr>"
      using b0 free J by (simp add: merge_free_blocks_def)
    have "describe (merge_with_next ?m1 p) bs' = lfree b (describe ?m (us @ b # vs))"
      using N(2) A(3,4) us bn lfree_describe [OF bn, of ?m] d by simp
    moreover have "\<forall>a. off_headers (us @ b # vs) a \<longrightarrow> merge_with_next ?m1 p a = ?m a"
      using N(3) A(5) us by (auto simp: off_headers_def)
    ultimately show ?thesis by (rule that [OF eq N(1)])
  next
    case False
    have skip: "merge_with_prev ?m b = (?m, b)"
      by (rule merge_with_prev_skip [OF wf free]) (use False in auto)
    from merge_next_wf [OF wf free] obtain bs' where N:
      "heap_wf (s\<lparr>mm_mem := merge_with_next ?m b\<rparr>) bs'"
      "describe (merge_with_next ?m b) bs' = describe ?m us @ join_next (describe ?m (b # vs))"
      "\<forall>a. off_headers (us @ b # vs) a \<longrightarrow> merge_with_next ?m b a = ?m a" by blast
    have eq: "merge_free_blocks s b = s\<lparr>mm_mem := merge_with_next ?m b\<rparr>"
      using b0 free skip by (simp add: merge_free_blocks_def)
    show ?thesis
      by (rule that [OF eq N(1) _ N(3)]) (use N(2) False free lfree_describe [OF bn, of ?m] in auto)
  qed
qed

lemma kfree_wf:
  assumes wf: "heap_wf s (us @ b # vs)" and used: "\<not> b_is_free (mm_mem s) b"
  obtains s' bs' where "kfree s (b + 20) = Some s'" "heap_wf s' bs'"
    "describe (mm_mem s') bs' = lfree b (describe (mm_mem s) (us @ b # vs))"
    "s' = s\<lparr>mm_mem := mm_mem s', free_list := free_list s', used_heap_size := used_heap_size s'\<rparr>"
    "\<forall>a. off_headers (us @ b # vs) a \<longrightarrow> mm_mem s' a = mm_mem s a"
proof -
  let ?m = "mm_mem s" and ?bs = "us @ b # vs"
  let ?m1 = "set_is_free b True ?m"
  let ?s1 = "s\<lparr>mm_mem := ?m1, used_heap_size := sub32 (used_heap_size s) (block_total_size ?m1 b)\<rparr>"
  have reg: "regions s ?bs" using wf by (simp add: heap_wf_def)
  note R = regions_mem [OF reg]
  have bn: "b \<notin> set us" using sep_listD(1) [OF regions_sep [OF reg]] by auto
  have part: "heap_part s us b vs" using wf used by (simp add: heap_wf_def heap_part_def)
  note F = set_is_free_part [OF part refl, where f = True]
  have sum: "used_heap_size s = usum ?m us + (b_size ?m b + 20) + usum ?m vs"
    using wf used by (simp add: heap_wf_def)
  have le: "usum ?m ?bs \<le> heap_end s - heap_start s" "heap_end s < 2 ^ 32"
    using reg usum_le by (fastforce simp: regions_def)+
  have tot: "block_total_size ?m1 b = b_size ?m b + 20"
    using F(3) [of b] R(2) by (simp add: block_total_size_def wrap_simps)
  have us: "usum ?m1 us = usum ?m us" "usum ?m1 vs = usum ?m vs"
    using F(2,3) by (auto intro!: usum_cong)
  have u1: "used_heap_size ?s1 = usum (mm_mem ?s1) us + usum (mm_mem ?s1) vs"
    using sum le used tot us by (simp add: wrap_simps)
  have part1: "heap_part ?s1 us b vs" and free1: "b_is_free (mm_mem ?s1) b" using F(1,4) by simp_all
  obtain s2 where s2: "insert_into_list_sorted ?s1 b = Some s2" "heap_wf s2 ?bs"
    "s2 = ?s1\<lparr>mm_mem := mm_mem s2, free_list := free_list s2\<rparr>"
    "\<forall>c \<in> set ?bs. b_size (mm_mem s2) c = b_size (mm_mem ?s1) c \<and> b_is_free (mm_mem s2) c = b_is_free (mm_mem ?s1) c"
    "\<forall>a. off_headers ?bs a \<longrightarrow> mm_mem s2 a = mm_mem ?s1 a"
    by (rule insert_wf [OF part1 free1 u1])
  have free2: "b_is_free (mm_mem s2) b" using s2(4) free1 by simp
  obtain bs' m' where M: "merge_free_blocks s2 b = s2\<lparr>mm_mem := m'\<rparr>" "heap_wf (s2\<lparr>mm_mem := m'\<rparr>) bs'"
    "describe m' bs' = lfree b (describe (mm_mem s2) ?bs)"
    "\<forall>a. off_headers ?bs a \<longrightarrow> m' a = mm_mem s2 a"
    by (rule merge_free_blocks_wf [OF s2(2) free2])
  have d2: "describe (mm_mem s2) us = describe ?m us" "describe (mm_mem s2) vs = describe ?m vs"
    using s2(4) F(2,3) by (auto intro!: describe_cong)
  have last: "us \<noteq> [] \<Longrightarrow> b_is_free (mm_mem s2) (last us) = b_is_free ?m (last us) \<and>
      b_size (mm_mem s2) (last us) = b_size ?m (last us)"
    using s2(4) F(2,3) by simp
  have but: "describe (mm_mem s2) (butlast us) = describe ?m (butlast us)"
    using s2(4) F(2,3) by (auto intro!: describe_cong dest: in_set_butlastD)
  have desc: "describe m' bs' = lfree b (describe ?m ?bs)"
    using M(3) d2 last but s2(4) F(3) [of b] lfree_describe [OF bn] by auto
  have kf: "kfree s (b + 20) = Some (s2\<lparr>mm_mem := m'\<rparr>)"
    using heap_wf_start [OF wf] R(1,3) used s2(1) M(1)
    by (simp add: kfree_def get_block_from_payload_def Let_def)
  have u2: "used_heap_size s2 = sub32 (used_heap_size s) (block_total_size ?m1 b)"
    by (subst s2(3)) simp
  have eqs: "s2\<lparr>mm_mem := m'\<rparr> = s\<lparr>mm_mem := m', free_list := free_list s2,
      used_heap_size := used_heap_size s2\<rparr>"
    by (subst s2(3)) (simp add: u2)
  have frame: "\<forall>a. off_headers ?bs a \<longrightarrow> m' a = ?m a"
    using M(4) s2(5) by (auto simp: off_headers_def set_is_free_outside)
  show ?thesis
    by (rule that [OF kf M(2)]) (use desc eqs frame in auto)
qed

end
