(* ===== verification/Allocator.thy ===== *)
theory Allocator
  imports Prelude
begin

section \<open>The contract of a memory allocator\<close>

text \<open>
  What the clients of the kernel heap rely on, stated once for every allocator.  A state has an
  invariant, a set of live blocks (payload address and size) and the bytes of memory.  An
  allocation returns \<open>0\<close> and changes nothing, or a fresh block; releasing a live block removes
  exactly that block; neither touches the bytes of any other live block, and both always return.
\<close>

datatype heap_op = Alloc nat | Release addr

fun run_op :: "('s \<Rightarrow> nat \<Rightarrow> (addr \<times> 's) option) \<Rightarrow> ('s \<Rightarrow> addr \<Rightarrow> 's option) \<Rightarrow> heap_op \<Rightarrow> 's \<Rightarrow> 's option" where
  "run_op alloc release (Alloc n) s = map_option snd (alloc s n)"
| "run_op alloc release (Release p) s = release s p"

fun run_ops :: "('s \<Rightarrow> nat \<Rightarrow> (addr \<times> 's) option) \<Rightarrow> ('s \<Rightarrow> addr \<Rightarrow> 's option) \<Rightarrow> heap_op list \<Rightarrow> 's \<Rightarrow> 's option" where
  "run_ops alloc release [] s = Some s"
| "run_ops alloc release (x # xs) s =
     Option.bind (run_op alloc release x s) (run_ops alloc release xs)"

text \<open>A call sequence is proper when every release names a block that is live at that point
  (or the null pointer) and every request is a 32-bit size.\<close>

fun proper_op :: "('s \<Rightarrow> (addr \<times> nat) set) \<Rightarrow> heap_op \<Rightarrow> 's \<Rightarrow> bool" where
  "proper_op live (Alloc n) s = (n < 2 ^ 32)"
| "proper_op live (Release p) s = (p = 0 \<or> p \<in> fst ` live s)"

fun proper_ops :: "('s \<Rightarrow> nat \<Rightarrow> (addr \<times> 's) option) \<Rightarrow> ('s \<Rightarrow> addr \<Rightarrow> 's option) \<Rightarrow>
    ('s \<Rightarrow> (addr \<times> nat) set) \<Rightarrow> heap_op list \<Rightarrow> 's \<Rightarrow> bool" where
  "proper_ops alloc release live [] s = True"
| "proper_ops alloc release live (x # xs) s =
     (proper_op live x s \<and>
      (case run_op alloc release x s of None \<Rightarrow> True | Some s' \<Rightarrow> proper_ops alloc release live xs s'))"

locale allocator =
  fixes inv :: "'s \<Rightarrow> bool" and live :: "'s \<Rightarrow> (addr \<times> nat) set" and bytes :: "'s \<Rightarrow> mem"
    and alloc :: "'s \<Rightarrow> nat \<Rightarrow> (addr \<times> 's) option" and release :: "'s \<Rightarrow> addr \<Rightarrow> 's option"
  assumes live_apart: "inv s \<Longrightarrow> (p, n) \<in> live s \<Longrightarrow> (q, k) \<in> live s \<Longrightarrow>
      (p, n) = (q, k) \<or> p + n < q \<or> q + k < p"
    and live_nonnull: "inv s \<Longrightarrow> (p, n) \<in> live s \<Longrightarrow> p \<noteq> 0"
    and alloc_cases: "inv s \<Longrightarrow> n < 2 ^ 32 \<Longrightarrow>
      alloc s n = Some (0, s) \<or>
      (\<exists>p k s'. alloc s n = Some (p, s') \<and> inv s' \<and> (p, k) \<notin> live s \<and> live s' = insert (p, k) (live s)
         \<and> (n \<le> 2 ^ 32 - 8 \<longrightarrow> n \<le> k)
         \<and> (\<forall>(q, j) \<in> live s. \<forall>i < j. bytes s' (q + i) = bytes s (q + i)))"
    and release_null: "inv s \<Longrightarrow> release s 0 = Some s"
    and release_live: "inv s \<Longrightarrow> (p, n) \<in> live s \<Longrightarrow>
      \<exists>s'. release s p = Some s' \<and> inv s' \<and> live s' = live s - {(p, n)}
         \<and> (\<forall>(q, j) \<in> live s'. \<forall>i < j. bytes s' (q + i) = bytes s (q + i))"
begin

lemma live_unique: "inv s \<Longrightarrow> (p, n) \<in> live s \<Longrightarrow> (p, k) \<in> live s \<Longrightarrow> n = k"
  using live_apart [of s p n p k] by auto

text \<open>A fresh block is nowhere inside a live one.\<close>

lemma alloc_fresh:
  assumes "inv s" "n < 2 ^ 32" "alloc s n = Some (p, s')" "p \<noteq> 0" "(q, j) \<in> live s" "i < j"
  shows "q + i \<noteq> p"
proof
  assume eq: "q + i = p"
  from alloc_cases [OF assms(1,2)] assms(3,4) obtain k where
    A: "inv s'" "live s' = insert (p, k) (live s)" "(p, k) \<notin> live s" by auto
  then have "(p, k) = (q, j) \<or> p + k < q \<or> q + j < p"
    using live_apart [of s' p k q j] assms(5) by auto
  with A(3) assms(5,6) eq show False by auto
qed

lemma op_step:
  assumes "inv s" "proper_op live x s"
  shows "\<exists>s'. run_op alloc release x s = Some s' \<and> inv s' \<and>
    (\<forall>b \<in> live s. x \<noteq> Release (fst b) \<longrightarrow> b \<in> live s' \<and>
       (\<forall>i < snd b. bytes s' (fst b + i) = bytes s (fst b + i)))"
proof (cases x)
  case (Alloc n)
  with assms alloc_cases [of s n] show ?thesis by fastforce
next
  case (Release p)
  show ?thesis
  proof (cases "p = 0")
    case True
    with Release assms release_null show ?thesis by auto
  next
    case False
    with Release assms obtain n where n: "(p, n) \<in> live s" by auto
    from release_live [OF assms(1) n] Release show ?thesis by fastforce
  qed
qed

text \<open>Any proper sequence of calls returns, keeps the invariant, and leaves a live block that it
  does not release live and its contents as they were.\<close>

lemma ops_keep_block:
  assumes "inv s" "proper_ops alloc release live xs s" "(p, n) \<in> live s" "Release p \<notin> set xs"
  shows "\<exists>s'. run_ops alloc release xs s = Some s' \<and> inv s' \<and> (p, n) \<in> live s' \<and>
    (\<forall>i < n. bytes s' (p + i) = bytes s (p + i))"
  using assms
proof (induction xs arbitrary: s)
  case (Cons x xs)
  then have "proper_op live x s" "x \<noteq> Release p" by auto
  from op_step [OF Cons.prems(1) this(1)] this(2) Cons.prems(3) obtain s1 where s1:
    "run_op alloc release x s = Some s1" "inv s1" "(p, n) \<in> live s1"
    "\<forall>i < n. bytes s1 (p + i) = bytes s (p + i)" by fastforce
  with Cons.prems have "proper_ops alloc release live xs s1" "Release p \<notin> set xs" by auto
  from Cons.IH [OF s1(2) this(1) s1(3) this(2)] s1 show ?case by auto
qed simp

end

end
