(* ===== verification/Heap_Api.thy ===== *)
theory Heap_Api
  imports Heap_Free Allocator
begin

section \<open>The kernel heap as an allocator\<close>

text \<open>
  The theorems of \<^verbatim>\<open>src/kernel/arch/i386/mm.c\<close> a caller needs: on a heap in order
  (\<open>heap_ok\<close>), \<open>kmalloc\<close> and \<open>kfree\<close> implement the layout functions \<open>lalloc\<close> and \<open>lfree\<close> and
  satisfy the allocator contract.
\<close>

definition live :: "mm_state \<Rightarrow> (addr \<times> nat) set" where
  "live s = {(b + 20, n) |b n. (b, n, False) \<in> set (layout s)}"

lemma live_mem: "(p, n) \<in> live s \<longleftrightarrow> 20 \<le> p \<and> (p - 20, n, False) \<in> set (layout s)"
  by (force simp: live_def intro: exI [of _ "p - 20"])

lemma heap_wf_layout: "heap_wf s bs \<Longrightarrow> layout s = describe (mm_mem s) bs"
  by (simp add: layout_def heap_wf_blocks)

lemma mem_describe: "(b, n, f) \<in> set (describe m bs) \<longleftrightarrow> b \<in> set bs \<and> n = b_size m b \<and> f = b_is_free m b"
  by (auto simp: describe_def)

lemma mem_live: "heap_wf s bs \<Longrightarrow>
    (p, n) \<in> live s \<longleftrightarrow> (\<exists>b \<in> set bs. \<not> b_is_free (mm_mem s) b \<and> p = b + 20 \<and> n = b_size (mm_mem s) b)"
  by (auto simp: live_def heap_wf_layout mem_describe)

lemma blocks_apart:
  assumes "regions s bs" "b \<in> set bs" "c \<in> set bs"
  shows "b = c \<or> b + 20 + b_size (mm_mem s) b \<le> c \<or> c + 20 + b_size (mm_mem s) c \<le> b"
proof -
  obtain us vs where bs: "bs = us @ b # vs" using assms(2) by (meson split_list)
  note R = regions_mem [OF assms(1) [unfolded bs]]
  from assms(3) bs R(4) [of c] R(5) [of c] show ?thesis by auto
qed

lemma payload_off_headers:
  assumes "regions s bs" "b \<in> set bs" "i < b_size (mm_mem s) b"
  shows "off_headers bs (b + 20 + i)"
  using blocks_apart [OF assms(1,2)] assms(3) by (fastforce simp: off_headers_def)

text \<open>\<^verbatim>\<open>kmalloc\<close> on a heap in order: null exactly when no free block is large enough, and
  otherwise the layout changes as \<open>lalloc\<close> says.\<close>

lemma kmalloc_outcome:
  assumes ok: "heap_ok s" and sz: "0 < sz" "sz < 2 ^ 32"
  shows "case lalloc (align_size sz) (layout s) of
      None \<Rightarrow> kmalloc s sz = Some (0, s)
    | Some (b, l) \<Rightarrow> \<exists>s'. kmalloc s sz = Some (b + 20, s') \<and> heap_ok s' \<and> layout s' = l \<and>
        (\<exists>k. (b, k, True) \<in> set (layout s)) \<and>
        b_prev (mm_mem s') b = 0 \<and>
        s' = s\<lparr>mm_mem := mm_mem s', free_list := free_list s', used_heap_size := used_heap_size s'\<rparr> \<and>
        (\<forall>(p, n) \<in> live s. \<forall>i < n. mm_mem s' (p + i) = mm_mem s (p + i)) \<and>
        (\<forall>(p, n) \<in> live s. load32 (mm_mem s') (p - 4) = load32 (mm_mem s) (p - 4))"
proof -
  let ?m = "mm_mem s" and ?n = "align_size sz" and ?bs = "blocks s"
  have wf: "heap_wf s ?bs" using ok by (simp add: heap_ok_def)
  show ?thesis
  proof (cases "\<exists>b \<in> set ?bs. b_is_free ?m b \<and> ?n \<le> b_size ?m b")
    case False
    then have "lalloc ?n (layout s) = None"
      unfolding layout_def by (intro lalloc_describe_None) (auto simp: not_le)
    moreover have "kmalloc s sz = Some (0, s)"
      by (rule kmalloc_nofit [OF wf]) (use False sz in \<open>auto simp: not_le\<close>)
    ultimately show ?thesis by simp
  next
    case True
    then obtain us b vs where bs: "?bs = us @ b # vs" and b: "b_is_free ?m b" "?n \<le> b_size ?m b"
      and first: "\<forall>u \<in> set us. \<not> (b_is_free ?m u \<and> ?n \<le> b_size ?m u)"
      by (rule split_list_first_propE) auto
    have first': "b_size ?m u < ?n" if "u \<in> set us" "b_is_free ?m u" for u
      using first that by auto
    have wf1: "heap_wf s (us @ b # vs)" using wf bs by simp
    let ?spl = "?n + 36 \<le> b_size ?m b"
    obtain s' where K: "kmalloc s sz = Some (b + 20, s')"
      "heap_wf s' (us @ b # (if ?spl then [b + 20 + ?n] else []) @ vs)"
      "s' = s\<lparr>mm_mem := mm_mem s', free_list := free_list s', used_heap_size := used_heap_size s'\<rparr>"
      "\<forall>c \<in> set us \<union> set vs. b_size (mm_mem s') c = b_size ?m c \<and> b_is_free (mm_mem s') c = b_is_free ?m c"
      "b_size (mm_mem s') b = (if ?spl then ?n else b_size ?m b)" "\<not> b_is_free (mm_mem s') b"
      "?spl \<longrightarrow> b_size (mm_mem s') (b + 20 + ?n) = b_size ?m b - ?n - 20 \<and> b_is_free (mm_mem s') (b + 20 + ?n)"
      "b_prev (mm_mem s') b = 0"
      "\<forall>a. off_headers (us @ b # vs) a \<longrightarrow> a < b + 20 \<or> b + 20 + b_size ?m b \<le> a \<longrightarrow> mm_mem s' a = ?m a"
      "\<forall>c \<in> set us \<union> set vs. \<not> b_is_free ?m c \<longrightarrow> b_prev (mm_mem s') c = b_prev ?m c"
      by (rule kmalloc_fit [OF wf1 sz b first'])
    have d: "describe (mm_mem s') us = describe ?m us" "describe (mm_mem s') vs = describe ?m vs"
      using K(4) by (auto intro!: describe_cong)
    have l: "lalloc ?n (layout s) = Some (b, layout s')"
      using lalloc_describe_Some [where us = us and b = b and m = ?m and n = ?n and vs = vs] first' b
        heap_wf_layout [OF K(2)] d K(5-7) by (auto simp: layout_def bs)
    have free: "\<exists>k. (b, k, True) \<in> set (layout s)"
      using b by (auto simp: layout_def bs describe_def)
    have frame: "\<forall>(p, n) \<in> live s. \<forall>i < n. mm_mem s' (p + i) = ?m (p + i)"
    proof safe
      fix p n i assume pn: "(p, n) \<in> live s" "i < n"
      then obtain c where c: "c \<in> set (us @ b # vs)" "\<not> b_is_free ?m c" "p = c + 20" "n = b_size ?m c"
        using mem_live [OF wf1] by auto
      have reg: "regions s (us @ b # vs)" using wf1 by (simp add: heap_wf_def)
      have "c \<noteq> b" using b(1) c(2) by auto
      with blocks_apart [OF reg c(1), of b] pn(2) c(4)
      have "c + 20 + i < b + 20 \<or> b + 20 + b_size ?m b \<le> c + 20 + i" by auto
      moreover have "off_headers (us @ b # vs) (c + 20 + i)"
        by (rule payload_off_headers [OF reg c(1)]) (use pn(2) c(4) in simp)
      ultimately have "mm_mem s' (c + 20 + i) = ?m (c + 20 + i)" using K(9) by blast
      then show "mm_mem s' (p + i) = ?m (p + i)" by (simp add: c(3))
    qed
    have prevs: "\<forall>(p, n) \<in> live s. load32 (mm_mem s') (p - 4) = load32 ?m (p - 4)"
    proof safe
      fix p n assume "(p, n) \<in> live s"
      then obtain c where c: "c \<in> set (us @ b # vs)" "\<not> b_is_free ?m c" "p = c + 20"
        using mem_live [OF wf1] by auto
      then have "b_prev (mm_mem s') c = b_prev ?m c" using K(10) b(1) by auto
      then show "load32 (mm_mem s') (p - 4) = load32 ?m (p - 4)" by (simp add: c(3) b_prev_def add.commute)
    qed
    show ?thesis using l K(1,8) heap_wf_ok [OF K(2)] free frame prevs K(3) by auto
  qed
qed

lemma lalloc_None_iff: "lalloc n l = None \<longleftrightarrow> (\<forall>(b, k, f) \<in> set l. f \<longrightarrow> k < n)"
  by (induction n l rule: lalloc.induct) (auto split: if_splits)

lemma lalloc_set:
  "lalloc n l = Some (b, l') \<Longrightarrow> \<exists>k. n \<le> k \<and>
     {(a, j). (a, j, False) \<in> set l'} = insert (b, k) {(a, j). (a, j, False) \<in> set l}"
proof (induction l arbitrary: b l')
  case (Cons x l)
  obtain a k f where x: "x = (a, k, f)" by (cases x)
  show ?case
  proof (cases "f \<and> n \<le> k")
    case True
    then show ?thesis using Cons.prems x
      by (intro exI [of _ "if n + 36 \<le> k then n else k"]) (auto split: if_splits)
  next
    case False
    with Cons.prems x obtain r where r: "lalloc n l = Some (b, r)" "l' = (a, k, f) # r" by auto
    from Cons.IH [OF r(1)] obtain j where j: "n \<le> j"
      "{(c, i). (c, i, False) \<in> set r} = insert (b, j) {(c, i). (c, i, False) \<in> set l}" by auto
    show ?thesis
    proof (intro exI conjI set_eqI)
      fix y
      show "y \<in> {(c, i). (c, i, False) \<in> set l'} \<longleftrightarrow>
          y \<in> insert (b, j) {(c, i). (c, i, False) \<in> set (x # l)}"
        using j(2) [THEN eq_refl, THEN subsetD, of y] j(2) [THEN equalityD2, THEN subsetD, of y]
        by (auto simp: r x)
    qed (rule j(1))
  qed
qed simp

lemma heap_ok_live: "heap_ok s \<Longrightarrow>
    (p, n) \<in> live s \<longleftrightarrow> (\<exists>b \<in> set (blocks s). \<not> b_is_free (mm_mem s) b \<and> p = b + 20 \<and> n = b_size (mm_mem s) b)"
  unfolding heap_ok_def by (rule mem_live)

lemma live_map: "live s = (\<lambda>(b, n). (b + 20, n)) ` {(b, n). (b, n, False) \<in> set (layout s)}"
  by (auto simp: live_def)

lemma live_separate:
  assumes ok: "heap_ok s" and p: "(p, n) \<in> live s" and q: "(q, k) \<in> live s"
  shows "(p, n) = (q, k) \<or> p + n < q \<or> q + k < p"
proof -
  have reg: "regions s (blocks s)" using ok by (simp add: heap_ok_def heap_wf_def)
  from p q obtain b c where "b \<in> set (blocks s)" "c \<in> set (blocks s)" "p = b + 20" "n = b_size (mm_mem s) b"
    "q = c + 20" "k = b_size (mm_mem s) c" using heap_ok_live [OF ok] by auto
  with blocks_apart [OF reg, of b c] show ?thesis by auto
qed

text \<open>\<^verbatim>\<open>kfree\<close> of a live block.\<close>

lemma kfree_outcome:
  assumes ok: "heap_ok s" and p: "(p, n) \<in> live s"
  obtains s' where "kfree s p = Some s'" "heap_ok s'" "layout s' = lfree (p - 20) (layout s)"
    "s' = s\<lparr>mm_mem := mm_mem s', free_list := free_list s', used_heap_size := used_heap_size s'\<rparr>"
    "\<forall>(q, k) \<in> live s. \<forall>i < k. mm_mem s' (q + i) = mm_mem s (q + i)"
proof -
  let ?m = "mm_mem s"
  from p obtain b where b: "b \<in> set (blocks s)" "\<not> b_is_free ?m b" "p = b + 20"
    using heap_ok_live [OF ok] by auto
  then obtain us vs where bs: "blocks s = us @ b # vs" by (meson split_list)
  have wf: "heap_wf s (us @ b # vs)" using ok bs by (simp add: heap_ok_def)
  obtain s' bs' where K: "kfree s (b + 20) = Some s'" "heap_wf s' bs'"
    "describe (mm_mem s') bs' = lfree b (describe ?m (us @ b # vs))"
    "s' = s\<lparr>mm_mem := mm_mem s', free_list := free_list s', used_heap_size := used_heap_size s'\<rparr>"
    "\<forall>a. off_headers (us @ b # vs) a \<longrightarrow> mm_mem s' a = ?m a"
    by (rule kfree_wf [OF wf b(2)])
  have "\<forall>(q, k) \<in> live s. \<forall>i < k. mm_mem s' (q + i) = ?m (q + i)"
  proof safe
    fix q k i assume qk: "(q, k) \<in> live s" "i < k"
    then obtain c where c: "c \<in> set (us @ b # vs)" "q = c + 20" "k = b_size ?m c"
      using mem_live [OF wf] by auto
    have "off_headers (us @ b # vs) (c + 20 + i)"
      by (rule payload_off_headers [of s]) (use wf c qk(2) in \<open>auto simp: heap_wf_def\<close>)
    with K(5) c show "mm_mem s' (q + i) = ?m (q + i)" by blast
  qed
  with K(1-4) heap_wf_ok [OF K(2)] heap_wf_layout [OF K(2)] heap_wf_layout [OF wf] b(3)
  show ?thesis by (intro that) simp_all
qed

lemma join_next_used: "(x, j, False) \<in> set (join_next l) \<longleftrightarrow> (x, j, False) \<in> set l"
  by (induction l rule: join_next.induct) auto

lemma lfree_used:
  "distinct (map fst l) \<Longrightarrow> (x, j, False) \<in> set (lfree b l) \<longleftrightarrow> (x, j, False) \<in> set l \<and> x \<noteq> b"
proof (induction l)
  case (Cons y l)
  obtain a n f where y: "y = (a, n, f)" by (cases y)
  have skip: "lfree b (y # l) = y # lfree b l" if "a \<noteq> b" "\<not> (l \<noteq> [] \<and> f \<and> fst (hd l) = b)"
    using that by (cases l) (auto simp: y)
  consider "a = b" | "a \<noteq> b" "l \<noteq> []" "f" "fst (hd l) = b"
    | "a \<noteq> b" "lfree b (y # l) = y # lfree b l"
    using skip by blast
  then show ?case
  proof cases
    case 1
    with Cons.prems y show ?thesis by (auto simp: join_next_used image_iff)
  next
    case 2
    then obtain k g r where "l = (b, k, g) # r" by (cases l) auto
    with 2 Cons.prems y show ?thesis by (auto simp: join_next_used image_iff)
  next
    case 3
    with Cons y show ?thesis by auto
  qed
qed simp

lemma heap_ok_distinct: "heap_ok s \<Longrightarrow> distinct (map fst (layout s))"
  using sep_listD(1) [OF regions_sep [of s "blocks s"]]
  by (simp add: heap_ok_def heap_wf_def layout_def describe_def comp_def)

lemma kfree_live:
  assumes ok: "heap_ok s" and p: "(p, n) \<in> live s" and l: "layout s' = lfree (p - 20) (layout s)"
  shows "live s' = live s - {(p, n)}"
proof -
  from p obtain b where b: "(b, n, False) \<in> set (layout s)" "p = b + 20" by (auto simp: live_def)
  have "j = n" if "(b, j, False) \<in> set (layout s)" for j
    using eq_key_imp_eq_value [OF heap_ok_distinct [OF ok] b(1) that] by simp
  then have "(q, k) \<in> live s' \<longleftrightarrow> (q, k) \<in> live s - {(p, n)}" for q k
    using lfree_used [OF heap_ok_distinct [OF ok], of "q - 20" k b] b(2)
    by (auto simp: live_mem l)
  then show ?thesis by auto
qed

lemma kmalloc_zero: "kmalloc s 0 = Some (0, s)"
  by (simp add: kmalloc_def)

lemma kmalloc_cases:
  assumes ok: "heap_ok s" and n: "n < 2 ^ 32"
  shows "kmalloc s n = Some (0, s) \<or>
      (\<exists>p k s'. kmalloc s n = Some (p, s') \<and> heap_ok s' \<and> (p, k) \<notin> live s \<and> live s' = insert (p, k) (live s)
         \<and> (n \<le> 2 ^ 32 - 8 \<longrightarrow> n \<le> k)
         \<and> (\<forall>(q, j) \<in> live s. \<forall>i < j. mm_mem s' (q + i) = mm_mem s (q + i)))"
proof (cases "n = 0")
  case False
  show ?thesis
  proof (cases "lalloc (align_size n) (layout s)")
    case None
    then show ?thesis using kmalloc_outcome [OF ok _ n] False by simp
  next
    case (Some x)
    then obtain b l where x: "lalloc (align_size n) (layout s) = Some (b, l)" by (cases x) auto
    from kmalloc_outcome [OF ok _ n] False x obtain s' where s':
      "kmalloc s n = Some (b + 20, s')" "heap_ok s'" "layout s' = l"
      "\<exists>k. (b, k, True) \<in> set (layout s)"
      "\<forall>(q, j) \<in> live s. \<forall>i < j. mm_mem s' (q + i) = mm_mem s (q + i)" by auto
    from lalloc_set [OF x] obtain k where k: "align_size n \<le> k"
      "{(a, j). (a, j, False) \<in> set l} = insert (b, k) {(a, j). (a, j, False) \<in> set (layout s)}" by auto
    have "(b, k, False) \<notin> set (layout s)"
      using s'(4) eq_key_imp_eq_value [OF heap_ok_distinct [OF ok]] by fastforce
    then have "(b + 20, k) \<notin> live s" by (auto simp: live_def)
    moreover have "live s' = insert (b + 20, k) (live s)" using k(2) s'(3) by (simp add: live_map)
    moreover have "n \<le> 2 ^ 32 - 8 \<longrightarrow> n \<le> k" using align_size_no_wrap [of n] k(1) by linarith
    ultimately show ?thesis using s'(1,2,5) by blast
  qed
qed (simp add: kmalloc_zero)

interpretation kheap: allocator heap_ok live mm_mem kmalloc kfree
proof unfold_locales
  fix s p n assume ok: "heap_ok s" and p: "(p, n) \<in> live s"
  show "p \<noteq> 0" using p by (auto simp: live_def)
  obtain s' where K: "kfree s p = Some s'" "heap_ok s'" "layout s' = lfree (p - 20) (layout s)"
    "s' = s\<lparr>mm_mem := mm_mem s', free_list := free_list s', used_heap_size := used_heap_size s'\<rparr>"
    "\<forall>(q, k) \<in> live s. \<forall>i < k. mm_mem s' (q + i) = mm_mem s (q + i)"
    by (rule kfree_outcome [OF ok p])
  show "\<exists>s'. kfree s p = Some s' \<and> heap_ok s' \<and> live s' = live s - {(p, n)} \<and>
      (\<forall>(q, j) \<in> live s'. \<forall>i < j. mm_mem s' (q + i) = mm_mem s (q + i))"
    using K(1,2,5) kfree_live [OF ok p K(3)] by auto
next
  fix s assume "heap_ok s"
  show "kfree s 0 = Some s" by (simp add: kfree_def)
qed (use live_separate kmalloc_cases in \<open>simp_all\<close>)

end
