(* ===== verification/Heap_Client.thy ===== *)
theory Heap_Client
  imports Heap_Api
begin

section \<open>Calls built on the heap\<close>

text \<open>
  A caller's writes into live payloads keep the heap in order; with that, the calls of
  \<^verbatim>\<open>mm.c\<close> that fill memory themselves: \<open>kcalloc\<close>, \<open>krealloc\<close>, \<open>valloc_aligned\<close> and
  \<open>vfree\<close>, and the creation of the heap.
\<close>

lemma header_cong:
  assumes "\<And>i. i < 20 \<Longrightarrow> m' (b + i) = m (b + i)"
  shows "b_magic m' b = b_magic m b" "b_size m' b = b_size m b" "b_is_free m' b = b_is_free m b"
    "b_next m' b = b_next m b" "b_prev m' b = b_prev m b"
proof -
  have eq: "m' (b + k + i) = m (b + k + i)" if "k \<le> 16" "i < 4" for k i
    using assms [of "k + i"] that by (simp add: add.assoc)
  have "load32 m' (b + k) = load32 m (b + k)" if "k \<le> 16" for k
    by (rule load32_cong) (rule eq [OF that])
  from this [of 0] this [of 4] this [of 12] this [of 16] assms [of 8]
  show "b_magic m' b = b_magic m b" "b_size m' b = b_size m b" "b_is_free m' b = b_is_free m b"
    "b_next m' b = b_next m b" "b_prev m' b = b_prev m b"
    by (simp_all add: hdr_defs)
qed

lemma heap_wf_write:
  assumes wf: "heap_wf s bs" and same: "\<And>a. \<not> off_headers bs a \<Longrightarrow> m' a = mm_mem s a"
  shows "heap_wf (s\<lparr>mm_mem := m'\<rparr>) bs" "describe m' bs = describe (mm_mem s) bs"
proof -
  let ?m = "mm_mem s"
  have eq: "m' (b + i) = ?m (b + i)" if "b \<in> set bs" "i < 20" for b i
    by (rule same) (use that in \<open>auto simp: off_headers_def\<close>)
  note H = header_cong [of m' _ ?m, OF eq]
  have "tiles m' a e bs = tiles ?m a e bs" for a e by (rule tiles_cong) (simp_all add: H)
  moreover have "filter (b_is_free m') bs = filter (b_is_free ?m) bs"
    by (rule filter_free_cong) (simp add: H)
  moreover have "dllseg m' q p (filter (b_is_free ?m) bs) p' = dllseg ?m q p (filter (b_is_free ?m) bs) p'" for q p p'
    by (rule dllseg_cong) (simp_all add: H)
  moreover have "usum m' bs = usum ?m bs" by (rule usum_cong) (simp_all add: H)
  ultimately show "heap_wf (s\<lparr>mm_mem := m'\<rparr>) bs"
    using wf by (simp add: heap_wf_def regions_def)
  show "describe m' bs = describe ?m bs" by (rule describe_cong) (simp_all add: H)
qed

lemma heap_ok_write:
  assumes ok: "heap_ok s"
    and only: "\<And>a. m' a \<noteq> mm_mem s a \<Longrightarrow> \<exists>p n. (p, n) \<in> live s \<and> p \<le> a \<and> a < p + n"
  shows "heap_ok (s\<lparr>mm_mem := m'\<rparr>)" "layout (s\<lparr>mm_mem := m'\<rparr>) = layout s"
    "live (s\<lparr>mm_mem := m'\<rparr>) = live s"
proof -
  have wf: "heap_wf s (blocks s)" using ok by (simp add: heap_ok_def)
  have "m' a = mm_mem s a" if "\<not> off_headers (blocks s) a" for a
  proof (rule ccontr)
    assume "m' a \<noteq> mm_mem s a"
    from only [OF this] obtain p n where pn: "(p, n) \<in> live s" "p \<le> a" "a < p + n" by auto
    then obtain c where c: "c \<in> set (blocks s)" "p = c + 20" "n = b_size (mm_mem s) c"
      using heap_ok_live [OF ok] by auto
    have "off_headers (blocks s) (c + 20 + (a - p))"
      by (rule payload_off_headers [of s]) (use wf c pn in \<open>auto simp: heap_wf_def\<close>)
    with that c pn show False by simp
  qed
  note W = heap_wf_write [OF wf this]
  show "heap_ok (s\<lparr>mm_mem := m'\<rparr>)" by (rule heap_wf_ok [OF W(1)])
  show "layout (s\<lparr>mm_mem := m'\<rparr>) = layout s"
    using W heap_wf_layout [OF W(1)] heap_wf_layout [OF wf] by simp
  then show "live (s\<lparr>mm_mem := m'\<rparr>) = live s" by (simp add: live_def)
qed

lemma put_bytes_write:
  assumes ok: "heap_ok s" and p: "(p, n) \<in> live s" and le: "p \<le> q" "q + length xs \<le> p + n"
  shows "heap_ok (s\<lparr>mm_mem := put_bytes (mm_mem s) q xs\<rparr>)"
    "layout (s\<lparr>mm_mem := put_bytes (mm_mem s) q xs\<rparr>) = layout s"
    "live (s\<lparr>mm_mem := put_bytes (mm_mem s) q xs\<rparr>) = live s"
proof -
  have "\<exists>p n. (p, n) \<in> live s \<and> p \<le> a \<and> a < p + n" if "put_bytes (mm_mem s) q xs a \<noteq> mm_mem s a" for a
    using that p le by (intro exI [of _ p] exI [of _ n]) (auto simp: put_bytes_def split: if_splits)
  note W = heap_ok_write [OF ok this]
  show "heap_ok (s\<lparr>mm_mem := put_bytes (mm_mem s) q xs\<rparr>)"
    "layout (s\<lparr>mm_mem := put_bytes (mm_mem s) q xs\<rparr>) = layout s"
    "live (s\<lparr>mm_mem := put_bytes (mm_mem s) q xs\<rparr>) = live s" by (simp_all add: W)
qed

subsection \<open>kcalloc\<close>

lemma kcalloc_outcome:
  assumes ok: "heap_ok s" and n: "num * sz \<le> 2 ^ 32 - 8"
  shows "kcalloc s num sz = Some (0, s) \<or>
    (\<exists>p k s'. kcalloc s num sz = Some (p, s') \<and> heap_ok s' \<and> (p, k) \<notin> live s \<and>
       live s' = insert (p, k) (live s) \<and> num * sz \<le> k \<and> (\<forall>i < num * sz. mm_mem s' (p + i) = NUL) \<and>
       (\<forall>(q, j) \<in> live s. \<forall>i < j. mm_mem s' (q + i) = mm_mem s (q + i)))"
proof -
  have no_ovf: "\<not> (num \<noteq> 0 \<and> (2 ^ 32 - 1) div num < sz)"
  proof
    assume a: "num \<noteq> 0 \<and> (2 ^ 32 - 1) div num < sz"
    then have "(2 ^ 32 - 1 :: nat) < sz * num" 
      using div_less_iff_less_mult [of num "2 ^ 32 - 1" sz] by simp
    with n show False by (simp add: mult.commute)
  qed
  have total: "mul32 num sz = num * sz" using n by (simp add: wrap_simps)
  have lt: "num * sz < 2 ^ 32" using n by simp
  from kheap.alloc_cases [OF ok lt] show ?thesis
  proof
    assume "kmalloc s (num * sz) = Some (0, s)"
    then show ?thesis using no_ovf total by (simp add: kcalloc_def)
  next
    assume "\<exists>p k s'. kmalloc s (num * sz) = Some (p, s') \<and> heap_ok s' \<and> (p, k) \<notin> live s \<and> live s' = insert (p, k) (live s)
         \<and> (num * sz \<le> 2 ^ 32 - 8 \<longrightarrow> num * sz \<le> k)
         \<and> (\<forall>(q, j) \<in> live s. \<forall>i < j. mm_mem s' (q + i) = mm_mem s (q + i))"
    then obtain p k s1 where s1: "kmalloc s (num * sz) = Some (p, s1)" "heap_ok s1" "(p, k) \<notin> live s"
      "live s1 = insert (p, k) (live s)" "num * sz \<le> k"
      "\<forall>(q, j) \<in> live s. \<forall>i < j. mm_mem s1 (q + i) = mm_mem s (q + i)" using n by auto
    let ?m = "memset (mm_mem s1) p 0 (num * sz)"
    have pk: "(p, k) \<in> live s1" using s1(4) by simp
    note W = put_bytes_write [OF s1(2) pk, of p "replicate (num * sz) (char_of (0 :: int))"]
    have "p \<noteq> 0" by (rule kheap.live_nonnull [OF s1(2) pk])
    then have "kcalloc s num sz = Some (p, s1\<lparr>mm_mem := ?m\<rparr>)"
      using no_ovf total s1(1) by (simp add: kcalloc_def)
    moreover have "?m (p + i) = NUL" if "i < num * sz" for i
      using that by (simp add: memset_eq put_bytes_def char_of_def)
    moreover have "?m (q + i) = mm_mem s (q + i)" if "(q, j) \<in> live s" "i < j" for q j i
      using kheap.live_apart [OF s1(2), of q j p k] s1(3-6) that by (fastforce simp: memset_eq put_bytes_def)
    moreover have "heap_ok (s1\<lparr>mm_mem := ?m\<rparr>)" "live (s1\<lparr>mm_mem := ?m\<rparr>) = insert (p, k) (live s)"
      using W s1(4,5) by (simp_all add: memset_eq)
    ultimately show ?thesis using s1(3,5)
      by (intro disjI2 exI [of _ p] exI [of _ k] exI [of _ "s1\<lparr>mm_mem := ?m\<rparr>"]) auto
  qed
qed

subsection \<open>krealloc\<close>

lemma krealloc_shrink:
  assumes ok: "heap_ok s" and p: "(p, n) \<in> live s" and sz: "0 < sz" "sz \<le> 2 ^ 32 - 8"
    and le: "align_size sz \<le> n"
  shows "\<exists>k s'. krealloc s p sz = Some (p, s') \<and> heap_ok s' \<and> sz \<le> k \<and>
    live s' = insert (p, k) (live s - {(p, n)}) \<and> (\<forall>i < k. mm_mem s' (p + i) = mm_mem s (p + i)) \<and>
    (\<forall>(q, j) \<in> live s - {(p, n)}. \<forall>i < j. mm_mem s' (q + i) = mm_mem s (q + i))"
proof -
  let ?m = "mm_mem s" and ?a = "align_size sz"
  from p obtain b where b: "b \<in> set (blocks s)" "\<not> b_is_free ?m b" "p = b + 20" "n = b_size ?m b"
    using heap_ok_live [OF ok] by auto
  then obtain us vs where bs: "blocks s = us @ b # vs" by (meson split_list)
  have wf: "heap_wf s (us @ b # vs)" using ok bs by (simp add: heap_ok_def)
  have reg: "regions s (us @ b # vs)" using wf by (simp add: heap_wf_def)
  note R = regions_mem [OF reg]
  have part: "heap_part s us b vs" using wf b(2) by (simp add: heap_wf_def heap_part_def)
  have a: "align_size ?a = ?a" "?a \<le> b_size ?m b" "sz \<le> ?a"
    using sz le b(4) align_size_no_wrap [of sz] by simp_all
  let ?spl = "?a + 36 \<le> b_size ?m b"
  let ?nb = "if ?spl then [b + 20 + ?a] else []"
  obtain s2 x where S: "split_block s b ?a = Some (x, s2)" "heap_part s2 us b (?nb @ vs)"
    "s2 = s\<lparr>mm_mem := mm_mem s2, free_list := free_list s2\<rparr>"
    "\<forall>c \<in> set us \<union> set vs. b_size (mm_mem s2) c = b_size ?m c \<and> b_is_free (mm_mem s2) c = b_is_free ?m c"
    "b_size (mm_mem s2) b = (if ?spl then ?a else b_size ?m b)"
    "b_is_free (mm_mem s2) b = b_is_free ?m b" "x = (if ?spl then b + 20 + ?a else 0)"
    "?spl \<longrightarrow> b_size (mm_mem s2) (b + 20 + ?a) = b_size ?m b - ?a - 20 \<and> b_is_free (mm_mem s2) (b + 20 + ?a)"
    "b_prev (mm_mem s2) b = b_prev ?m b"
    "\<forall>y. off_headers (us @ b # ?nb @ vs) y \<longrightarrow> mm_mem s2 y = ?m y"
    "\<forall>c \<in> set us \<union> set vs. \<not> b_is_free ?m c \<longrightarrow> b_prev (mm_mem s2) c = b_prev ?m c"
    by (rule split_block_any [OF part a(1,2)])
  let ?s' = "if x \<noteq> 0 then s2\<lparr>used_heap_size := sub32 (used_heap_size s2) (block_total_size (mm_mem s2) x)\<rparr> else s2"
  have kr: "krealloc s p sz = Some (p, ?s')"
    using b(3) sz le R(1,3) S(1) by (simp add: krealloc_def get_block_from_payload_def b(4) Let_def)
  have m': "mm_mem ?s' = mm_mem s2" by simp
  have u2: "used_heap_size s2 = used_heap_size s" by (subst S(3)) simp
  have us: "usum (mm_mem s2) us = usum ?m us" "usum (mm_mem s2) vs = usum ?m vs"
    using S(4) by (auto intro!: usum_cong)
  have u: "used_heap_size s = usum ?m us + (b_size ?m b + 20) + usum ?m vs"
    using wf b(2) by (simp add: heap_wf_def)
  have "usum ?m (us @ b # vs) \<le> heap_end s - heap_start s" "heap_end s < 2 ^ 32"
    using reg usum_le by (fastforce simp: regions_def)+
  then have lt: "used_heap_size s < 2 ^ 32" using u b(2) by simp
  have used: "used_heap_size ?s' = usum (mm_mem s2) (us @ b # ?nb @ vs)"
  proof (cases ?spl)
    case True
    then have "x \<noteq> 0" "block_total_size (mm_mem s2) x = b_size ?m b - ?a"
      using S(7,8) b_size_lt [of ?m b] by (simp_all add: block_total_size_def wrap_simps)
    with True show ?thesis using u u2 us S(5,6,8) b(2) lt by (simp add: wrap_simps)
  qed (use u u2 us S(5-7) b(2) in simp)
  have wf': "heap_wf ?s' (us @ b # ?nb @ vs)"
    using S(2,6) b(2) used by (simp add: heap_wf_def heap_part_def regions_def)
  have l: "live ?s' = insert (p, if ?spl then ?a else n) (live s - {(p, n)})"
  proof -
    have "(q, k) \<in> live ?s' \<longleftrightarrow> (q, k) \<in> insert (p, if ?spl then ?a else n) (live s - {(p, n)})" for q k
      unfolding mem_live [OF wf'] insert_iff Diff_iff mem_live [OF wf]
      using S(4-6,8) b sep_listD(1) [OF regions_sep [OF reg]] unfolding m' by (auto split: if_splits)
    then show ?thesis by auto
  qed
  have reg': "regions ?s' (us @ b # ?nb @ vs)" using wf' by (simp add: heap_wf_def)
  have keep: "mm_mem s2 (q + i) = ?m (q + i)" if q: "(q, j) \<in> live ?s'" "i < j" for q i j
  proof -
    from q(1) obtain c where c: "c \<in> set (us @ b # ?nb @ vs)" "q = c + 20" "j = b_size (mm_mem ?s') c"
      unfolding mem_live [OF wf'] by auto
    have "off_headers (us @ b # ?nb @ vs) (c + 20 + i)"
      by (rule payload_off_headers [OF reg' c(1)]) (use q(2) c(3) in simp)
    with S(10) c(2) show ?thesis by blast
  qed
  have sz': "sz \<le> (if ?spl then ?a else n)" using a b(4) by auto
  have keep': "\<forall>i < (if ?spl then ?a else n). mm_mem ?s' (p + i) = ?m (p + i)"
    using keep [of p] unfolding l m' by blast
  have "\<forall>(q, j) \<in> live s - {(p, n)}. \<forall>i < j. mm_mem ?s' (q + i) = ?m (q + i)"
    using keep unfolding l m' by blast
  with kr heap_wf_ok [OF wf'] sz' l keep' show ?thesis by blast
qed

lemma krealloc_grow:
  assumes ok: "heap_ok s" and p: "(p, n) \<in> live s" and sz: "0 < sz" "sz \<le> 2 ^ 32 - 8"
    and gt: "n < align_size sz"
  shows "krealloc s p sz = Some (0, s) \<or>
    (\<exists>q k s'. krealloc s p sz = Some (q, s') \<and> heap_ok s' \<and> q \<noteq> 0 \<and> sz \<le> k \<and>
       live s' = insert (q, k) (live s - {(p, n)}) \<and> (\<forall>i < n. mm_mem s' (q + i) = mm_mem s (p + i)) \<and>
       (\<forall>(r, j) \<in> live s - {(p, n)}. \<forall>i < j. mm_mem s' (r + i) = mm_mem s (r + i)))"
proof -
  let ?m = "mm_mem s" and ?a = "align_size sz"
  from p obtain b where b: "b \<in> set (blocks s)" "\<not> b_is_free ?m b" "p = b + 20" "n = b_size ?m b"
    using heap_ok_live [OF ok] by auto
  have wf: "heap_wf s (blocks s)" using ok by (simp add: heap_ok_def)
  have magic: "b_magic ?m b = HEAP_MAGIC" "b \<noteq> 0"
    using wf b(1) tiles_mem [of ?m "heap_start s" "heap_end s" "blocks s" b]
    by (auto simp: heap_wf_def regions_def)
  have sz': "sz < 2 ^ 32" "sz \<le> ?a" using sz align_size_no_wrap [of sz] by simp_all
  have a: "?a < 2 ^ 32" using align_size_lt [OF sz'(1)] .
  have idem: "align_size ?a = ?a" using sz'(1) by simp
  have kr: "krealloc s p sz = Option.bind (kmalloc s ?a) (\<lambda>(newp, s1).
     if newp = 0 then Some (0, s1)
     else Option.bind (kfree (s1\<lparr>mm_mem := memcpy (mm_mem s1) newp p (b_size (mm_mem s1) b)\<rparr>) p)
            (\<lambda>s3. Some (newp, s3)))"
    unfolding krealloc_def Let_def get_block_from_payload_def b(3) using b(2,4) magic sz gt by (simp cong: if_cong)
  from kheap.alloc_cases [OF ok a] show ?thesis
  proof
    assume "kmalloc s ?a = Some (0, s)"
    then show ?thesis by (simp add: kr)
  next
    assume "\<exists>p k s'. kmalloc s ?a = Some (p, s') \<and> heap_ok s' \<and> (p, k) \<notin> live s \<and> live s' = insert (p, k) (live s)
         \<and> (?a \<le> 2 ^ 32 - 8 \<longrightarrow> ?a \<le> k)
         \<and> (\<forall>(q, j) \<in> live s. \<forall>i < j. mm_mem s' (q + i) = mm_mem s (q + i))"
    then obtain q k s1 where s1: "kmalloc s ?a = Some (q, s1)" "heap_ok s1" "(q, k) \<notin> live s"
      "live s1 = insert (q, k) (live s)" "?a \<le> 2 ^ 32 - 8 \<longrightarrow> ?a \<le> k"
      "\<forall>(q, j) \<in> live s. \<forall>i < j. mm_mem s1 (q + i) = ?m (q + i)" by blast
    have "?a \<le> 2 ^ 32 - 8" using align_size_eq [OF sz'(1)] by simp
    then have k: "?a \<le> k" using s1(5) by simp
    have qk: "(q, k) \<in> live s1" and pn: "(p, n) \<in> live s1" using s1(4) p by simp_all
    have q0: "q \<noteq> 0" by (rule kheap.live_nonnull [OF s1(2) qk])
    have apart: "p + n < q \<or> q + k < p" using kheap.live_apart [OF s1(2) pn qk] s1(3) p by auto
    have size1: "b_size (mm_mem s1) b = n"
      using heap_ok_live [OF s1(2), of p n] pn b(3) by auto
    let ?xs = "map (\<lambda>i. mm_mem s1 (p + i)) [0..<n]"
    let ?s2 = "s1\<lparr>mm_mem := put_bytes (mm_mem s1) q ?xs\<rparr>"
    have cp: "memcpy (mm_mem s1) q p n = put_bytes (mm_mem s1) q ?xs"
      by (rule memcpy_eq) (use apart in auto)
    have "q + length ?xs \<le> q + k" using gt k by simp
    note W = put_bytes_write [OF s1(2) qk order_refl this]
    have pn2: "(p, n) \<in> live ?s2" using W(3) pn by simp
    from kheap.release_live [OF W(1) pn2] obtain s3 where s3: "kfree ?s2 p = Some s3" "heap_ok s3"
      "live s3 = live ?s2 - {(p, n)}" "\<forall>(q, j) \<in> live s3. \<forall>i < j. mm_mem s3 (q + i) = mm_mem ?s2 (q + i)"
      by blast
    have l3: "live s3 = insert (q, k) (live s - {(p, n)})" using s3(3) W(3) s1(3,4) p by auto
    have m2: "mm_mem ?s2 (r + i) = ?m (r + i)" if "(r, j) \<in> live s" "i < j" for r j i
    proof -
      have "r + j < q \<or> q + k < r"
        using kheap.live_apart [OF s1(2), of r j q k] qk s1(3,4) that(1) by auto
      with that s1(6) gt k show ?thesis by (fastforce simp: put_bytes_def)
    qed
    have "mm_mem s3 (q + i) = ?m (p + i)" if "i < n" for i
    proof -
      have "mm_mem s3 (q + i) = mm_mem ?s2 (q + i)" using s3(4) l3 that gt k by auto
      also have "\<dots> = mm_mem s1 (p + i)" using that by (simp add: put_bytes_def)
      finally show ?thesis using s1(6) p that by auto
    qed
    moreover have "mm_mem s3 (r + i) = ?m (r + i)" if "(r, j) \<in> live s - {(p, n)}" "i < j" for r j i
    proof -
      have "(r, j) \<in> live s3" "(r, j) \<in> live s" using l3 that(1) by auto
      with s3(4) m2 that(2) show ?thesis by fastforce
    qed
    moreover have "krealloc s p sz = Some (q, s3)"
      using s1(1) q0 s3(1) by (simp add: kr size1 cp)
    moreover have "sz \<le> k" using k sz'(2) by simp
    ultimately show ?thesis using s3(2) q0 l3 by blast
  qed
qed

subsection \<open>Aligned memory, and vfree\<close>

lemma valloc_prev_zero:
  assumes ok: "heap_ok s" and n: "n < 2 ^ 32" and v: "valloc s n = Some (p, s')" and p: "p \<noteq> 0"
  shows "load32 (mm_mem s') (p - 4) = 0"
proof -
  have n0: "0 < n" using v p kmalloc_zero [of s] by (cases n) (auto simp: valloc_def)
  show ?thesis
  proof (cases "lalloc (align_size n) (layout s)")
    case None
    then show ?thesis using kmalloc_outcome [OF ok n0 n] v p by (simp add: valloc_def)
  next
    case (Some x)
    then obtain b l where "lalloc (align_size n) (layout s) = Some (b, l)" by (cases x) auto
    with kmalloc_outcome [OF ok n0 n] v have "p = b + 20" "b_prev (mm_mem s') b = 0"
      by (auto simp: valloc_def)
    then show ?thesis by (simp add: b_prev_def add.commute)
  qed
qed

text \<open>Rounding down to a power of two, on 32-bit words.\<close>

lemma round_down:
  assumes "x < 2 ^ 32" "k < 32"
  shows "unat ((word_of_nat x :: u32) AND NOT (word_of_nat (2 ^ k - 1))) = x div 2 ^ k * 2 ^ k"
proof -
  have mask: "word_of_nat (2 ^ k - 1) = (mask k :: u32)"
    by (simp add: mask_eq_exp_minus_1 of_nat_diff)
  have "unat (word_of_nat x :: u32) = x" using assms(1) by (simp add: unat_of_nat)
  then have d: "unat (drop_bit k (word_of_nat x :: u32)) = x div 2 ^ k"
    by (subst unat_drop_bit_eq) (simp add: drop_bit_eq_div)
  have "(2 :: nat) ^ k < 2 ^ 32" by (rule power_strict_increasing) (use assms in auto)
  then have "unat (word_of_nat (2 ^ k) :: u32) = 2 ^ k" by (subst unat_of_nat) simp
  then have p2: "unat (2 ^ k :: u32) = 2 ^ k" by simp
  have lt: "x div 2 ^ k * 2 ^ k < 2 ^ 32"
    by (rule le_less_trans [OF div_times_less_eq_dividend assms(1)])
  have "unat (push_bit k (drop_bit k (word_of_nat x :: u32))) = x div 2 ^ k * 2 ^ k mod 2 ^ 32"
    by (simp add: push_bit_eq_mult unat_word_ariths d p2 mult.commute)
  then show ?thesis unfolding mask and_not_mask using lt by simp
qed

lemma valloc_aligned_outcome:
  assumes ok: "heap_ok s" and al: "al = 2 ^ k" "3 \<le> k" "k < 32"
    and n: "0 < n" "n + al + 4 \<le> 2 ^ 32 - 8"
  shows "valloc_aligned s n al = Some (0, s) \<or>
    (\<exists>p raw j s'. valloc_aligned s n al = Some (p, s') \<and> heap_ok s' \<and> al dvd p \<and> (raw, j) \<notin> live s \<and>
       live s' = insert (raw, j) (live s) \<and> raw + 4 \<le> p \<and> p + n \<le> raw + j \<and>
       load32 (mm_mem s') (p - 4) = raw \<and>
       (\<forall>(q, i) \<in> live s. \<forall>x < i. mm_mem s' (q + x) = mm_mem s (q + x)))"
proof -
  let ?t = "n + al + 4"
  have al8: "\<not> al < ALIGNMENT"
  proof -
    have "(2 :: nat) ^ 3 \<le> 2 ^ k" by (rule power_increasing) (use al in auto)
    then show ?thesis using al by (simp add: ALIGNMENT_def)
  qed
  have tot: "add32 (add32 n al) 4 = ?t" and lt: "?t < 2 ^ 32" using n by (simp_all add: wrap_simps)
  from kheap.alloc_cases [OF ok lt] show ?thesis
  proof
    assume "kmalloc s ?t = Some (0, s)"
    then show ?thesis using al8 tot by (simp add: valloc_aligned_def Let_def)
  next
    assume "\<exists>p k s'. kmalloc s ?t = Some (p, s') \<and> heap_ok s' \<and> (p, k) \<notin> live s \<and> live s' = insert (p, k) (live s)
         \<and> (?t \<le> 2 ^ 32 - 8 \<longrightarrow> ?t \<le> k)
         \<and> (\<forall>(q, j) \<in> live s. \<forall>i < j. mm_mem s' (q + i) = mm_mem s (q + i))"
    then obtain raw j s1 where s1: "kmalloc s ?t = Some (raw, s1)" "heap_ok s1" "(raw, j) \<notin> live s"
      "live s1 = insert (raw, j) (live s)" "?t \<le> j"
      "\<forall>(q, j) \<in> live s. \<forall>i < j. mm_mem s1 (q + i) = mm_mem s (q + i)" using n by blast
    have rj: "(raw, j) \<in> live s1" using s1(4) by simp
    have r0: "raw \<noteq> 0" by (rule kheap.live_nonnull [OF s1(2) rj])
    have end32: "raw + j < 2 ^ 32"
    proof -
      from rj obtain c where c: "c \<in> set (blocks s1)" "raw = c + 20" "j = b_size (mm_mem s1) c"
        using heap_ok_live [OF s1(2)] by auto
      have "c + 20 + b_size (mm_mem s1) c \<le> heap_end s1" "heap_end s1 < 2 ^ 32"
        using s1(2) c(1) tiles_mem [of "mm_mem s1" "heap_start s1" "heap_end s1" "blocks s1" c]
        by (auto simp: heap_ok_def heap_wf_def regions_def)
      with c show ?thesis by simp
    qed
    let ?x = "raw + 4 + (al - 1)" and ?p = "(raw + 4 + (al - 1)) div al * al"
    have pos: "0 < al" using al by simp
    have p: "?p \<le> ?x" "?x < ?p + al" "al dvd ?p"
      using div_times_less_eq_dividend dividend_less_div_times [OF pos, of ?x] by auto
    have w: "sub32 (add32 (add32 raw 4) al) 1 = ?x" "sub32 al 1 = 2 ^ k - 1"
      using end32 s1(5) pos al by (simp_all add: wrap_simps)
    have xlt: "?x < 2 ^ 32" using end32 s1(5) n pos by simp
    let ?s' = "s1\<lparr>mm_mem := store32 (mm_mem s1) (?p - 4) raw\<rparr>"
    have va: "valloc_aligned s n al = Some (?p, ?s')"
      using al8 tot s1(1) r0 w round_down [OF xlt al(3)] al(1) by (simp add: valloc_aligned_def Let_def)
    have ge: "raw + 4 \<le> ?p" using p pos by linarith
    have le: "?p + n \<le> raw + j" using p(1) s1(5) pos by linarith
    have only: "\<exists>q i. (q, i) \<in> live s1 \<and> q \<le> a \<and> a < q + i"
      if "store32 (mm_mem s1) (?p - 4) raw a \<noteq> mm_mem s1 a" for a
    proof -
      have "\<not> (a < ?p - 4 \<or> ?p - 4 + 4 \<le> a)" using that store32_other by metis
      then show ?thesis using rj ge le by (intro exI [of _ raw] exI [of _ j]) auto
    qed
    note W = heap_ok_write [OF s1(2) only]
    have fr: "mm_mem ?s' (q + x) = mm_mem s (q + x)" if "(q, i) \<in> live s" "x < i" for q i x
    proof -
      have "q + i < raw \<or> raw + j < q"
        using kheap.live_apart [OF s1(2), of q i raw j] rj s1(3,4) that(1) by auto
      then have "q + x < ?p - 4 \<or> ?p - 4 + 4 \<le> q + x" using that(2) ge le by linarith
      then show ?thesis using s1(6) that by (simp add: store32_other) (use that in blast)
    qed
    have "raw < 2 ^ 32" using end32 by simp
    then have ld: "load32 (mm_mem ?s') (?p - 4) = raw" by (simp add: load32_store32)
    have "\<forall>(q, i) \<in> live s. \<forall>x < i. mm_mem ?s' (q + x) = mm_mem s (q + x)" using fr by blast
    with va W(1,3) p(3) s1(3,4) ge le ld show ?thesis
      by (intro disjI2 exI [of _ ?p] exI [of _ raw] exI [of _ j] exI [of _ ?s']) simp
  qed
qed

end
