(* ===== verification/Heap_Props.thy ===== *)
theory Heap_Props
  imports Heap_Client
begin

section \<open>Properties of the memory manager\<close>

text \<open>
  The theorems on \<^verbatim>\<open>src/kernel/arch/i386/mm.c\<close>, each with an instance on a concrete heap:
  \<open>heap0\<close> is the heap \<open>kmalloc_init\<close> creates on a machine with 128 MB of memory, \<open>heap1\<close> that
  heap after an allocation of 100 bytes.
\<close>

lemma kmalloc_init_wf:
  assumes fit: "\<And>e. e \<in> set (global_mmap s) \<Longrightarrow> region_fits 0x1000000 e \<Longrightarrow> entry_base e + 0x1000000 < 2 ^ 32"
  obtains b where "heap_wf (kmalloc_init s) [b]"
    "describe (mm_mem (kmalloc_init s)) [b] = [(b, 0x1000000 - 20, True)]"
    "b = 0x900000 \<or> (\<exists>e \<in> set (global_mmap s). region_fits 0x1000000 e \<and> b = entry_base e)"
    "heap_start (kmalloc_init s) = b" "heap_end (kmalloc_init s) = b + 0x1000000"
    "(\<exists>e \<in> set (global_mmap s). region_holds 0x900000 0x1000000 e) \<longrightarrow> b = 0x900000"
proof -
  let ?found = "\<exists>e \<in> set (global_mmap s). region_holds 0x900000 0x1000000 e"
  define hb where "hb = (if ?found then 0x900000
     else case find (region_fits 0x1000000) (global_mmap s) of Some e \<Rightarrow> entry_base e | None \<Rightarrow> 0x900000)"
  have hb: "hb = 0x900000 \<or> (\<exists>e \<in> set (global_mmap s). region_fits 0x1000000 e \<and> hb = entry_base e)"
    by (auto simp: hb_def find_Some_iff split: option.splits)
  have range: "0 < hb" "hb + 0x1000000 < 2 ^ 32" using hb fit by (auto simp: region_fits_def)
  define m where "m = fresh_header hb (0x1000000 - 20) (mm_mem s)"
  have init: "kmalloc_init s = s\<lparr>heap_start := hb, heap_end := hb + 0x1000000, mm_mem := m, free_list := hb,
      total_heap_size := block_total_size m hb, used_heap_size := 0\<rparr>"
    using range unfolding kmalloc_init_def Let_def hb_def [symmetric] m_def
    by (simp add: fresh_header_def wrap_simps)
  have F: "b_magic m hb = HEAP_MAGIC" "b_size m hb = 0x1000000 - 20" "b_is_free m hb"
    "b_next m hb = 0" "b_prev m hb = 0"
    by (simp_all add: m_def hdr_simps HEAP_MAGIC_def)
  have "heap_wf (kmalloc_init s) [hb]"
    using range F by (simp add: heap_wf_def regions_def init block_total_size_def wrap_simps)
  then show ?thesis
    by (rule that [OF _ _ hb]) (use F in \<open>simp_all add: init, auto simp: hb_def\<close>)
qed

definition boot_state :: mm_state where
  "boot_state = \<lparr>mm_mem = (\<lambda>_. NUL), heap_start = 0, heap_end = 0, free_list = 0, total_heap_size = 0,
     used_heap_size = 0, kernel_page_directory = 0x200000, paging_enabled = False,
     user_slot_used = replicate 12 False,
     global_mmap = [\<lparr>base_low = 0, base_high = 0, length_low = 0x9FC00, length_high = 0, entry_type = 1\<rparr>,
       \<lparr>base_low = 0x100000, base_high = 0, length_low = 0x7EF0000, length_high = 0, entry_type = 1\<rparr>],
     cr0 = 1, cr3 = 0, cr4 = 0\<rparr>"

definition heap0 :: mm_state where
  "heap0 = kmalloc_init boot_state"

definition heap1 :: mm_state where
  "heap1 = snd (the (kmalloc heap0 100))"

lemma heap0_facts: "heap_ok heap0" "layout heap0 = [(0x900000, 0xFFFFEC, True)]"
proof -
  have fit: "entry_base e + 0x1000000 < 2 ^ 32" if "e \<in> set (global_mmap boot_state)" for e
    using that by (auto simp: boot_state_def entry_base_def)
  have holds: "\<exists>e \<in> set (global_mmap boot_state). region_holds 0x900000 0x1000000 e"
    by (simp add: boot_state_def region_holds_def entry_base_def entry_length_def)
  obtain b where b: "heap_wf (kmalloc_init boot_state) [b]"
    "describe (mm_mem (kmalloc_init boot_state)) [b] = [(b, 0x1000000 - 20, True)]" "b = 0x900000"
    using kmalloc_init_wf [of boot_state] fit holds by metis
  show "heap_ok heap0" "layout heap0 = [(0x900000, 0xFFFFEC, True)]"
    using b heap_wf_ok [OF b(1)] heap_wf_layout [OF b(1)] by (simp_all add: heap0_def)
qed

lemma align_100: "align_size 100 = 104"
  by (simp add: align_size_eq)

lemma heap1_facts:
  "kmalloc heap0 100 = Some (0x900014, heap1)" "heap_ok heap1"
  "layout heap1 = [(0x900000, 104, False), (0x90007C, 0xFFFF70, True)]" "live heap1 = {(0x900014, 104)}"
proof -
  have "lalloc (align_size 100) (layout heap0) =
      Some (0x900000, [(0x900000, 104, False), (0x90007C, 0xFFFF70, True)])"
    by (simp add: heap0_facts(2) align_100)
  with kmalloc_outcome [OF heap0_facts(1), of 100] obtain s' where s':
    "kmalloc heap0 100 = Some (0x900014, s')" "heap_ok s'"
    "layout s' = [(0x900000, 104, False), (0x90007C, 0xFFFF70, True)]" by auto
  moreover have "heap1 = s'" by (simp add: heap1_def s'(1))
  ultimately show "kmalloc heap0 100 = Some (0x900014, heap1)" "heap_ok heap1"
    "layout heap1 = [(0x900000, 104, False), (0x90007C, 0xFFFF70, True)]" by simp_all
  then show "live heap1 = {(0x900014, 104)}" by (auto simp: live_def)
qed

subsection \<open>The heap\<close>

text \<open>\<open>kmalloc_init\<close> makes a heap in order: one free block that spans the region, which is the
  16 MB at \<open>0x900000\<close> or the first usable region above it that is large enough (provided such
  regions end below 4 GB: the code keeps only the low 32 bits of a base address).\<close>

theorem kmalloc_init_ok:
  assumes "\<And>e. e \<in> set (global_mmap s) \<Longrightarrow> region_fits 0x1000000 e \<Longrightarrow> entry_base e + 0x1000000 < 2 ^ 32"
  shows "heap_ok (kmalloc_init s) \<and> get_used_heap (kmalloc_init s) = 0 \<and> get_free_heap (kmalloc_init s) = 0x1000000 \<and>
    (\<exists>b. layout (kmalloc_init s) = [(b, 0x1000000 - 20, True)] \<and>
       (b = 0x900000 \<or> (\<exists>e \<in> set (global_mmap s). region_fits 0x1000000 e \<and> b = entry_base e)) \<and>
       ((\<exists>e \<in> set (global_mmap s). region_holds 0x900000 0x1000000 e) \<longrightarrow> b = 0x900000))"
proof -
  obtain b where b: "heap_wf (kmalloc_init s) [b]"
    "describe (mm_mem (kmalloc_init s)) [b] = [(b, 0x1000000 - 20, True)]"
    "b = 0x900000 \<or> (\<exists>e \<in> set (global_mmap s). region_fits 0x1000000 e \<and> b = entry_base e)"
    "heap_start (kmalloc_init s) = b" "heap_end (kmalloc_init s) = b + 0x1000000"
    "(\<exists>e \<in> set (global_mmap s). region_holds 0x900000 0x1000000 e) \<longrightarrow> b = 0x900000"
    by (rule kmalloc_init_wf [OF assms])
  have "used_heap_size (kmalloc_init s) = 0" by (simp add: kmalloc_init_def Let_def)
  moreover have "total_heap_size (kmalloc_init s) = 0x1000000"
    using b(1,4,5) by (simp add: heap_wf_def regions_def)
  ultimately have "get_used_heap (kmalloc_init s) = 0" "get_free_heap (kmalloc_init s) = 0x1000000"
    by (simp_all add: get_used_heap_def get_free_heap_def wrap_simps)
  then show ?thesis using b heap_wf_ok [OF b(1)] heap_wf_layout [OF b(1)] by auto
qed

theorem kmalloc_init_ok_witness:
  "heap_ok (kmalloc_init boot_state) \<and> layout (kmalloc_init boot_state) = [(0x900000, 0xFFFFEC, True)]"
proof -
  have fit: "entry_base e + 0x1000000 < 2 ^ 32" if "e \<in> set (global_mmap boot_state)" for e
    using that by (auto simp: boot_state_def entry_base_def)
  have holds: "\<exists>e \<in> set (global_mmap boot_state). region_holds 0x900000 0x1000000 e"
    by (simp add: boot_state_def region_holds_def entry_base_def entry_length_def)
  show ?thesis using kmalloc_init_ok [of boot_state, OF fit] holds by auto
qed

text \<open>C1: on a heap in order \<open>kmalloc\<close> returns, and implements first fit on the layout: it answers
  null and changes nothing exactly when no free block holds the rounded size; otherwise it returns
  the payload of the first such block, split when a header and 16 bytes are left over, keeps the
  heap in order and every byte of every live block.\<close>

theorem kmalloc_refines_first_fit:
  assumes "heap_ok s" "0 < sz" "sz < 2 ^ 32"
  shows "case lalloc (align_size sz) (layout s) of
      None \<Rightarrow> kmalloc s sz = Some (0, s)
    | Some (b, l) \<Rightarrow> \<exists>s'. kmalloc s sz = Some (b + 20, s') \<and> heap_ok s' \<and> layout s' = l \<and>
        (\<forall>(p, n) \<in> live s. \<forall>i < n. mm_mem s' (p + i) = mm_mem s (p + i))"
  using kmalloc_outcome [OF assms] by (auto split: option.splits)

theorem kmalloc_refines_first_fit_witness:
  "heap_ok heap1 \<and> (\<exists>s'. kmalloc heap1 8 = Some (0x900090, s') \<and> heap_ok s' \<and>
     layout s' = [(0x900000, 104, False), (0x90007C, 8, False), (0x900098, 0xFFFF54, True)])"
proof -
  have "align_size 8 = 8" by (simp add: align_size_eq)
  then have "lalloc (align_size 8) (layout heap1) =
      Some (0x90007C, [(0x900000, 104, False), (0x90007C, 8, False), (0x900098, 0xFFFF54, True)])"
    by (simp add: heap1_facts(3))
  then show ?thesis using kmalloc_refines_first_fit [of heap1 8] heap1_facts(2) by auto
qed

text \<open>C2: releasing a live block with \<open>kfree\<close> returns, keeps the heap in order and every byte of
  every live block, and changes the layout as \<open>lfree\<close> says: the block becomes free and is joined
  with a free block directly before it and a free block directly after it.\<close>

theorem kfree_refines_join:
  assumes "heap_ok s" "(p, n) \<in> live s"
  shows "\<exists>s'. kfree s p = Some s' \<and> heap_ok s' \<and> layout s' = lfree (p - 20) (layout s) \<and>
    live s' = live s - {(p, n)} \<and> (\<forall>(q, k) \<in> live s. \<forall>i < k. mm_mem s' (q + i) = mm_mem s (q + i))"
proof -
  obtain s' where K: "kfree s p = Some s'" "heap_ok s'" "layout s' = lfree (p - 20) (layout s)"
    "s' = s\<lparr>mm_mem := mm_mem s', free_list := free_list s', used_heap_size := used_heap_size s'\<rparr>"
    "\<forall>(q, k) \<in> live s. \<forall>i < k. mm_mem s' (q + i) = mm_mem s (q + i)"
    by (rule kfree_outcome [OF assms])
  with kfree_live [OF assms K(3)] show ?thesis by blast
qed

theorem kfree_refines_join_witness:
  "heap_ok heap1 \<and> (0x900014, 104) \<in> live heap1 \<and>
   (\<exists>s'. kfree heap1 0x900014 = Some s' \<and> heap_ok s' \<and> layout s' = [(0x900000, 0xFFFFEC, True)])"
  using kfree_refines_join [of heap1 "0x900014" 104] heap1_facts by auto

text \<open>C9: over any sequence of \<open>kmalloc\<close> and \<open>kfree\<close> calls in which every \<open>kfree\<close> names a live block
  or null, every call returns, the heap stays in order, and a live block that the sequence does not
  release is still live at the end with the same size and the same contents.\<close>

theorem heap_calls_keep_block:
  assumes "heap_ok s" "proper_ops kmalloc kfree live xs s" "(p, n) \<in> live s" "Release p \<notin> set xs"
  shows "\<exists>s'. run_ops kmalloc kfree xs s = Some s' \<and> heap_ok s' \<and> (p, n) \<in> live s' \<and>
    (\<forall>i < n. mm_mem s' (p + i) = mm_mem s (p + i))"
  by (rule kheap.ops_keep_block [OF assms])

theorem heap_calls_keep_block_witness:
  "\<exists>s'. run_ops kmalloc kfree [Alloc 8, Release 0x900090, Alloc 0x1000000] heap1 = Some s' \<and>
     heap_ok s' \<and> (0x900014, 104) \<in> live s'"
proof -
  have "align_size 8 = 8" by (simp add: align_size_eq)
  then have "lalloc (align_size 8) (layout heap1) =
      Some (0x90007C, [(0x900000, 104, False), (0x90007C, 8, False), (0x900098, 0xFFFF54, True)])"
    by (simp add: heap1_facts(3))
  with kmalloc_outcome [OF heap1_facts(2), of 8] obtain s' where s': "kmalloc heap1 8 = Some (0x900090, s')"
    "layout s' = [(0x900000, 104, False), (0x90007C, 8, False), (0x900098, 0xFFFF54, True)]" by auto
  have "(0x900090, 8) \<in> live s'" by (simp add: live_mem s'(2))
  then have "0x900090 \<in> fst ` live s'" by force
  then have "proper_ops kmalloc kfree live [Alloc 8, Release 0x900090, Alloc 0x1000000] heap1"
    by (simp add: s'(1) split: option.split)
  from heap_calls_keep_block [OF heap1_facts(2) this, of "0x900014" 104] show ?thesis
    by (auto simp: heap1_facts(4))
qed

text \<open>\<open>krealloc\<close> of a live block of \<open>n\<close> bytes to \<open>sz\<close> bytes returns; it answers null and changes
  nothing, or a block of at least \<open>sz\<close> bytes that takes the place of the old one and holds its first
  \<open>min n sz\<close> bytes; no byte of another live block changes and the heap stays in order.\<close>

theorem krealloc_keeps_contents:
  assumes "heap_ok s" "(p, n) \<in> live s" "0 < sz" "sz \<le> 2 ^ 32 - 8"
  shows "krealloc s p sz = Some (0, s) \<or>
    (\<exists>q k s'. krealloc s p sz = Some (q, s') \<and> heap_ok s' \<and> q \<noteq> 0 \<and> sz \<le> k \<and>
       live s' = insert (q, k) (live s - {(p, n)}) \<and>
       (\<forall>i < min n sz. mm_mem s' (q + i) = mm_mem s (p + i)) \<and>
       (\<forall>(r, j) \<in> live s - {(p, n)}. \<forall>i < j. mm_mem s' (r + i) = mm_mem s (r + i)))"
proof (cases "align_size sz \<le> n")
  case True
  from krealloc_shrink [OF assms True] obtain k s' where K: "krealloc s p sz = Some (p, s')" "heap_ok s'"
    "sz \<le> k" "live s' = insert (p, k) (live s - {(p, n)})" "\<forall>i < k. mm_mem s' (p + i) = mm_mem s (p + i)"
    "\<forall>(q, j) \<in> live s - {(p, n)}. \<forall>i < j. mm_mem s' (q + i) = mm_mem s (q + i)" by blast
  have "p \<noteq> 0" by (rule kheap.live_nonnull [OF assms(1,2)])
  moreover have "\<forall>i < min n sz. mm_mem s' (p + i) = mm_mem s (p + i)" using K(3,5) by simp
  ultimately show ?thesis using K(1-4,6) by blast
next
  case False
  then have "n < align_size sz" by simp
  from krealloc_grow [OF assms this] show ?thesis
  proof (elim disjE exE conjE)
    fix q k s'
    assume K: "krealloc s p sz = Some (q, s')" "heap_ok s'" "q \<noteq> 0" "sz \<le> k"
      "live s' = insert (q, k) (live s - {(p, n)})" "\<forall>i < n. mm_mem s' (q + i) = mm_mem s (p + i)"
      "\<forall>(r, j) \<in> live s - {(p, n)}. \<forall>i < j. mm_mem s' (r + i) = mm_mem s (r + i)"
    have "\<forall>i < min n sz. mm_mem s' (q + i) = mm_mem s (p + i)" using K(6) by simp
    with K(1-5,7) show ?thesis by blast
  qed simp
qed

theorem krealloc_keeps_contents_witness:
  "krealloc heap1 0x900014 200 = Some (0, heap1) \<or>
   (\<exists>q k s'. krealloc heap1 0x900014 200 = Some (q, s') \<and> heap_ok s' \<and> 200 \<le> k \<and> live s' = {(q, k)})"
  using krealloc_keeps_contents [of heap1 "0x900014" 104 200] heap1_facts by auto

text \<open>\<open>kcalloc\<close> of \<open>num * sz\<close> bytes (without overflow) answers null and changes nothing, or a fresh
  block of at least that many bytes, all zero, with every other live block untouched; when the
  product exceeds 32 bits it answers null.\<close>

theorem kcalloc_zeroed:
  assumes "heap_ok s" "num * sz \<le> 2 ^ 32 - 8 \<or> 2 ^ 32 \<le> num * sz"
  shows "kcalloc s num sz = Some (0, s) \<or>
    (\<exists>p k s'. kcalloc s num sz = Some (p, s') \<and> heap_ok s' \<and> (p, k) \<notin> live s \<and>
       live s' = insert (p, k) (live s) \<and> num * sz \<le> k \<and> (\<forall>i < num * sz. mm_mem s' (p + i) = NUL) \<and>
       (\<forall>(q, j) \<in> live s. \<forall>i < j. mm_mem s' (q + i) = mm_mem s (q + i)))"
  using assms(2)
proof
  assume "num * sz \<le> 2 ^ 32 - 8"
  from kcalloc_outcome [OF assms(1) this] show ?thesis .
next
  assume ovf: "2 ^ 32 \<le> num * sz"
  then have "num \<noteq> 0" by (intro notI) simp
  moreover from this ovf have "(2 ^ 32 - 1) div num < sz"
    using div_less_iff_less_mult [of num "2 ^ 32 - 1" sz] by (simp add: mult.commute)
  ultimately show ?thesis by (simp add: kcalloc_def)
qed

theorem kcalloc_zeroed_witness:
  "kcalloc heap0 4 25 = Some (0, heap0) \<or>
   (\<exists>p k s'. kcalloc heap0 4 25 = Some (p, s') \<and> heap_ok s' \<and> (p, k) \<in> live s' \<and> 100 \<le> k \<and> (\<forall>i < 100. mm_mem s' (p + i) = NUL))"
  using kcalloc_zeroed [of heap0 4 25] heap0_facts(1) by auto

text \<open>memory from \<open>valloc_aligned\<close> with a power-of-two alignment of at least 8 starts at a multiple
  of the alignment, lies with its \<open>n\<close> bytes in one fresh live block, and \<open>vfree\<close> releases exactly that
  block.\<close>

theorem valloc_aligned_vfree:
  assumes "heap_ok s" "al = 2 ^ k" "3 \<le> k" "k < 32" "0 < n" "n + al + 4 \<le> 2 ^ 32 - 8"
  shows "valloc_aligned s n al = Some (0, s) \<or>
    (\<exists>p raw j s' s''. valloc_aligned s n al = Some (p, s') \<and> heap_ok s' \<and> al dvd p \<and>
       (raw, j) \<notin> live s \<and> live s' = insert (raw, j) (live s) \<and> raw + 4 \<le> p \<and> p + n \<le> raw + j \<and>
       vfree s' p = Some s'' \<and> heap_ok s'' \<and> live s'' = live s)"
proof (cases "valloc_aligned s n al = Some (0, s)")
  case False
  from valloc_aligned_outcome [OF assms] this obtain p raw j s' where A:
    "valloc_aligned s n al = Some (p, s')" "heap_ok s'" "al dvd p" "(raw, j) \<notin> live s"
    "live s' = insert (raw, j) (live s)" "raw + 4 \<le> p" "p + n \<le> raw + j"
    "load32 (mm_mem s') (p - 4) = raw" by blast
  have "(raw, j) \<in> live s'" using A(5) by simp
  from kheap.release_live [OF A(2) this] obtain s'' where
    "kfree s' raw = Some s''" "heap_ok s''" "live s'' = live s' - {(raw, j)}" by blast
  moreover have "vfree s' p = kfree s' raw" using A(6,8) by (simp add: vfree_def)
  ultimately show ?thesis using A
    by (intro disjI2 exI [of _ p] exI [of _ raw] exI [of _ j] exI [of _ s'] exI [of _ s'']) auto
qed simp

theorem valloc_aligned_vfree_witness:
  "valloc_aligned heap0 4096 4096 = Some (0, heap0) \<or>
   (\<exists>p raw j s'. valloc_aligned heap0 4096 4096 = Some (p, s') \<and> heap_ok s' \<and> 4096 dvd p \<and>
      raw + 4 \<le> p \<and> p + 4096 \<le> raw + j)"
  using valloc_aligned_vfree [of heap0 4096 12 4096] heap0_facts(1) by auto

text \<open>\<open>vfree\<close> does not release memory that \<open>valloc\<close> returned: the word before the payload is the
  \<open>prev\<close> field of the block header, which is null for an allocated block, so \<open>kfree\<close> is called with
  null and the state is unchanged.\<close>

theorem vfree_valloc_leaks:
  assumes "heap_ok s" "n < 2 ^ 32" "valloc s n = Some (p, s')" "p \<noteq> 0"
  shows "vfree s' p = Some s'"
  using valloc_prev_zero [OF assms] by (simp add: vfree_def kfree_def)

theorem vfree_valloc_leaks_witness:
  "valloc heap0 100 = Some (0x900014, heap1) \<and> vfree heap1 0x900014 = Some heap1"
  using vfree_valloc_leaks [of heap0 100 "0x900014" heap1] heap0_facts(1) heap1_facts(1)
  by (simp add: valloc_def)

text \<open>the size computation of \<open>kmalloc\<close> wraps: a request for more than \<open>2 ^ 32 - 8\<close> bytes is
  rounded to 0 and served from the first free block, with a payload that may be empty.\<close>

theorem kmalloc_size_wraps:
  assumes "2 ^ 32 - 8 < sz" "sz < 2 ^ 32"
  shows "align_size sz = 0 \<and>
    (\<exists>s'. kmalloc heap0 sz = Some (0x900014, s') \<and> layout s' = [(0x900000, 0, False), (0x900014, 0xFFFFD8, True)])"
proof -
  have a: "align_size sz = 0" using assms by (rule align_size_wrap)
  have "lalloc (align_size sz) (layout heap0) =
      Some (0x900000, [(0x900000, 0, False), (0x900014, 0xFFFFD8, True)])"
    by (simp add: heap0_facts(2) a)
  moreover have "0 < sz" using assms(1) by simp
  ultimately show ?thesis using a kmalloc_outcome [OF heap0_facts(1) _ assms(2)] by auto
qed

theorem kmalloc_size_wraps_witness:
  "\<exists>s'. kmalloc heap0 0xFFFFFFFF = Some (0x900014, s') \<and> (0x900000, 0, False) \<in> set (layout s')"
  using kmalloc_size_wraps [of "0xFFFFFFFF"] by auto

subsection \<open>User memory slots\<close>

lemma slot_search_spec:
  "slot_search used i = (if \<exists>j. i \<le> j \<and> j < USER_SLOT_COUNT \<and> \<not> used ! j
     then Some (LEAST j. i \<le> j \<and> j < USER_SLOT_COUNT \<and> \<not> used ! j) else None)"
proof (induction used i rule: slot_search.induct)
  case (1 used i)
  consider "\<not> i < USER_SLOT_COUNT" | "i < USER_SLOT_COUNT" "\<not> used ! i" | "i < USER_SLOT_COUNT" "used ! i"
    by blast
  then show ?case
  proof cases
    case 1
    then show ?thesis by (subst slot_search.simps) auto
  next
    case 2
    then have "(LEAST j. i \<le> j \<and> j < USER_SLOT_COUNT \<and> \<not> used ! j) = i" by (intro Least_equality) auto
    with 2 show ?thesis by (subst slot_search.simps) auto
  next
    case 3
    have "(i \<le> j \<and> j < USER_SLOT_COUNT \<and> \<not> used ! j) = (i + 1 \<le> j \<and> j < USER_SLOT_COUNT \<and> \<not> used ! j)" for j
      using 3 by (cases "i = j") auto
    then have "(\<lambda>j. i \<le> j \<and> j < USER_SLOT_COUNT \<and> \<not> used ! j) = (\<lambda>j. i + 1 \<le> j \<and> j < USER_SLOT_COUNT \<and> \<not> used ! j)"
      by (rule ext)
    moreover have "slot_search used i = slot_search used (i + 1)" using 3 by (subst slot_search.simps) simp
    ultimately show ?thesis using 1 [OF 3(1)] 3(2) by (simp only: not_not)
  qed
qed

text \<open>\<open>mm_user_slot_alloc\<close> fails exactly when all 12 slots are taken and then changes nothing;
  otherwise it takes the lowest free slot, marks only that one, and clears the slot's 4 MB, which no
  other slot shares, and no byte outside them.\<close>

theorem mm_user_slot_alloc_lowest:
  assumes "length (user_slot_used s) = USER_SLOT_COUNT"
  shows "case mm_user_slot_alloc s of
      (None, s') \<Rightarrow> s' = s \<and> (\<forall>j < USER_SLOT_COUNT. user_slot_used s ! j)
    | (Some (i, phys), s') \<Rightarrow>
        i < USER_SLOT_COUNT \<and> \<not> user_slot_used s ! i \<and> (\<forall>j < i. user_slot_used s ! j) \<and>
        user_slot_used s' = (user_slot_used s)[i := True] \<and>
        phys = USER_SLOT_BASE_PHYS + i * USER_SLOT_SIZE_PHYS \<and>
        (\<forall>k < USER_SLOT_SIZE_PHYS. mm_mem s' (phys + k) = NUL) \<and>
        (\<forall>a. a < phys \<or> phys + USER_SLOT_SIZE_PHYS \<le> a \<longrightarrow> mm_mem s' a = mm_mem s a)"
proof (cases "slot_search (user_slot_used s) 0")
  case None
  then show ?thesis by (auto simp: mm_user_slot_alloc_def slot_search_spec split: if_splits)
next
  case (Some i)
  let ?P = "\<lambda>j. j < USER_SLOT_COUNT \<and> \<not> user_slot_used s ! j"
  have i: "\<exists>j. ?P j" "i = (LEAST j. ?P j)"
    using Some by (auto simp: slot_search_spec split: if_splits)
  from LeastI_ex [OF i(1)] have "?P i" unfolding i(2) .
  moreover have "user_slot_used s ! j" if "j < i" for j
    using not_less_Least [of j ?P] that \<open>?P i\<close> i(2) by auto
  ultimately show ?thesis
    using Some by (auto simp: mm_user_slot_alloc_def memset_eq put_bytes_def char_of_def Let_def)
qed

theorem mm_user_slot_alloc_lowest_witness:
  "length (user_slot_used boot_state) = USER_SLOT_COUNT \<and>
   (\<exists>s'. mm_user_slot_alloc boot_state = (Some (0, 0x02000000), s') \<and> user_slot_used s' ! 0)"
  using mm_user_slot_alloc_lowest [of boot_state]
  by (simp add: boot_state_def USER_SLOT_COUNT_def mm_user_slot_alloc_def slot_search.simps
      USER_SLOT_BASE_PHYS_def Let_def)

end
