(* ===== verification/Tasks.thy ===== *)
theory Tasks
  imports Heap_Client
begin

section \<open>Tasks and the scheduler: the model\<close>

text \<open>
  Model of \<^verbatim>\<open>src/kernel/arch/i386/task.c\<close> and \<^verbatim>\<open>timer.c\<close>.  A \<^verbatim>\<open>task_t*\<close> is an index into the
  array \<^verbatim>\<open>tasks\<close>.  The kernel state holds the static variables of both files, the memory manager,
  the kernel stack pointer of the TSS, and of the processor the stack pointer (\<open>cpu_esp\<close>, as it is just before the
  \<^verbatim>\<open>call\<close> of \<^verbatim>\<open>context_switch\<close>); the page directory register is the one of the memory manager.  The interrupt flag is not part of the
  state: the code only disables interrupts around these operations and restores the flag after them.

  An operation that may not come back (a walk of a damaged list, a processor that halts with no
  interrupt to come, a null task pointer) returns \<open>None\<close>.  Where the code waits, the model takes a
  list of what other code does to the state meanwhile.
\<close>

definition STACK_SIZE :: nat where "STACK_SIZE = 16384"
definition MAX_TASKS :: nat where "MAX_TASKS = 16"

definition NO_SLOT :: nat where "NO_SLOT = 2 ^ 32 - 1"

datatype task_state = TASK_READY | TASK_RUNNING | TASK_BLOCKED | TASK_TERMINATED

record task =
  t_esp :: nat
  t_esp0 :: nat
  t_pid :: nat
  t_ppid :: nat
  t_cr3 :: nat
  t_user_slot :: nat
  t_user_phys_base :: nat
  t_state :: task_state
  t_stack :: addr
  t_next :: nat
  t_wake_tick :: nat
  t_exit_status :: int
  t_term_signal :: nat
  t_tty_path :: string
  t_prog_path :: string
  t_cmdline :: string

record kstate =
  mm :: mm_state
  tasks :: "task list"
  task_count :: nat
  next_pid :: nat
  current_task :: "nat option"
  idle_ptr :: "nat option"
  ready_head :: "nat option"
  ready_tail :: "nat option"
  tss_esp0 :: nat
  cpu_esp :: nat
  ticks :: nat
  task_exit_addr :: nat
  idle_task_addr :: nat

definition upd_task :: "nat \<Rightarrow> (task \<Rightarrow> task) \<Rightarrow> kstate \<Rightarrow> kstate" where
  "upd_task i f s = s\<lparr>tasks := (tasks s)[i := f (tasks s ! i)]\<rparr>"

text \<open>A 32-bit unsigned value converted to \<^verbatim>\<open>int\<close>.\<close>

definition to_int32 :: "nat \<Rightarrow> int" where
  "to_int32 n = sint (word_of_nat n :: u32)"

definition push32 :: "nat \<Rightarrow> mem \<times> addr \<Rightarrow> mem \<times> addr" where
  "push32 v = (\<lambda>(m, tp). (store32 m (sub32 tp 4) v, sub32 tp 4))"

text \<open>The frame \<^verbatim>\<open>context_switch\<close> pops when the task runs for the first time.\<close>

definition push_frame :: "nat \<Rightarrow> nat \<Rightarrow> nat \<Rightarrow> mem \<Rightarrow> addr \<Rightarrow> mem \<times> addr" where
  "push_frame arg exit_addr entry m tp =
     fold push32 ([arg, exit_addr, entry, 0x202] @ replicate 7 0) (m, tp)"

definition task_release_resources :: "nat \<Rightarrow> kstate \<Rightarrow> kstate option" where
  "task_release_resources i s = do {
     let t = tasks s ! i;
     m1 \<leftarrow> (if t_cr3 t \<noteq> 0 \<and> t_cr3 t \<noteq> mm_kernel_cr3 (mm s)
            then mm_user_cr3_destroy (mm s) (t_cr3 t) else Some (mm s));
     let m2 = (if t_user_slot t \<noteq> NO_SLOT then mm_user_slot_free m1 (t_user_slot t) else m1);
     m3 \<leftarrow> (if t_stack t \<noteq> 0 then kfree m2 (t_stack t) else Some m2);
     Some (upd_task i (\<lambda>t. t\<lparr>t_stack := 0, t_cr3 := mm_kernel_cr3 m3, t_user_slot := NO_SLOT,
             t_user_phys_base := 0\<rparr>) (s\<lparr>mm := m3\<rparr>)) }"

text \<open>The fields a new task starts with.\<close>

definition fresh_task :: "nat \<Rightarrow> nat \<Rightarrow> nat \<Rightarrow> task_state \<Rightarrow> addr \<Rightarrow> nat \<Rightarrow> nat \<Rightarrow> task \<Rightarrow> task" where
  "fresh_task pid ppid cr st stack esp esp0 t = t\<lparr>t_pid := pid, t_ppid := ppid, t_state := st,
     t_cr3 := cr, t_user_slot := NO_SLOT, t_user_phys_base := 0, t_stack := stack, t_esp := esp,
     t_esp0 := esp0, t_wake_tick := 0, t_exit_status := 0, t_term_signal := 0, t_tty_path := '''',
     t_prog_path := '''', t_cmdline := ''''\<rparr>"

definition task_init :: "kstate \<Rightarrow> kstate option" where
  "task_init s = do {
     (idle_stack, mm1) \<leftarrow> kmalloc (mm s) STACK_SIZE;
     let (m, idle_top) = push_frame 0 (task_exit_addr s) (idle_task_addr s) (mm_mem mm1) (add32 idle_stack STACK_SIZE);
     let mm2 = mm1\<lparr>mm_mem := m\<rparr>;
     let idle = task_count s;
     let s1 = upd_task idle (fresh_task (next_pid s) 0 (mm_kernel_cr3 mm2) TASK_READY idle_stack idle_top
                (add32 idle_stack STACK_SIZE))
                (s\<lparr>mm := mm2, task_count := idle + 1, next_pid := add32 (next_pid s) 1, idle_ptr := Some idle\<rparr>);
     let init_task = task_count s1;
     let s2 = upd_task init_task (fresh_task (next_pid s1) 0 (mm_kernel_cr3 mm2) TASK_RUNNING 0 (cpu_esp s) (cpu_esp s))
                (s1\<lparr>task_count := init_task + 1, next_pid := add32 (next_pid s1) 1\<rparr>);
     let s3 = upd_task idle (\<lambda>t. t\<lparr>t_next := init_task\<rparr>) (upd_task init_task (\<lambda>t. t\<lparr>t_next := idle\<rparr>) s2);
     Some (s3\<lparr>current_task := Some init_task, ready_head := Some idle, ready_tail := Some init_task\<rparr>) }"

text \<open>The search of \<^verbatim>\<open>task_create\<close> for a slot to use again.\<close>

definition find_terminated :: "kstate \<Rightarrow> nat option" where
  "find_terminated s = find (\<lambda>i. t_state (tasks s ! i) = TASK_TERMINATED) [0..<task_count s]"

text \<open>A new array slot is linked at the end of the ring.\<close>

definition link_new :: "kstate \<Rightarrow> nat \<times> kstate" where
  "link_new s = (let i = task_count s; s1 = s\<lparr>task_count := i + 1\<rparr> in
     (i, case ready_head s of
           None \<Rightarrow> upd_task i (\<lambda>t. t\<lparr>t_next := i\<rparr>) (s1\<lparr>ready_head := Some i, ready_tail := Some i\<rparr>)
         | Some h \<Rightarrow>
             (upd_task (the (ready_tail s)) (\<lambda>t. t\<lparr>t_next := i\<rparr>) (upd_task i (\<lambda>t. t\<lparr>t_next := h\<rparr>) s1))
               \<lparr>ready_tail := Some i\<rparr>))"

definition task_create :: "nat \<Rightarrow> nat \<Rightarrow> kstate \<Rightarrow> (int \<times> kstate) option" where
  "task_create entry arg s = do {
     (stack, mm1) \<leftarrow> kmalloc (mm s) STACK_SIZE;
     if stack = 0 then Some (-1, s\<lparr>mm := mm1\<rparr>)
     else do {
       let (m, tp) = push_frame arg (task_exit_addr s) entry (mm_mem mm1) (add32 stack STACK_SIZE);
       let s1 = s\<lparr>mm := mm1\<lparr>mm_mem := m\<rparr>\<rparr>;
       if find_terminated s1 = None \<and> task_count s1 \<ge> MAX_TASKS
       then do { mm2 \<leftarrow> kfree (mm s1) stack; Some (-1, s1\<lparr>mm := mm2\<rparr>) }
       else do {
         (i, s2) \<leftarrow> (case find_terminated s1 of
                       Some i \<Rightarrow> do { s' \<leftarrow> task_release_resources i s1; Some (i, s') }
                     | None \<Rightarrow> Some (link_new s1));
         let ppid = (case current_task s2 of Some c \<Rightarrow> t_pid (tasks s2 ! c) | None \<Rightarrow> 0);
         let s3 = upd_task i (fresh_task (next_pid s2) ppid (mm_kernel_cr3 (mm s2)) TASK_READY stack tp
                    (add32 stack STACK_SIZE)) (s2\<lparr>next_pid := add32 (next_pid s2) 1\<rparr>);
         Some (to_int32 (t_pid (tasks s3 ! i)), s3) } } }"

subsection \<open>The scheduler\<close>

text \<open>The loop of \<^verbatim>\<open>schedule\<close>: it follows the ring from \<open>nxt\<close> until it is back at \<open>cur\<close>; the result is
  \<open>(next, first_idle, found)\<close>.\<close>

partial_function (option) schedule_loop ::
    "task list \<Rightarrow> nat \<Rightarrow> nat option \<Rightarrow> nat \<Rightarrow> nat option \<Rightarrow> (nat \<times> nat option \<times> bool) option" where
  "schedule_loop ts cur idle nxt first_idle =
     (let n = t_next (ts ! nxt) in
      if t_state (ts ! n) = TASK_READY
      then if Some n = idle
           then let fi = (if first_idle = None then Some n else first_idle) in
                if n \<noteq> cur then schedule_loop ts cur idle n fi else Some (n, fi, False)
           else Some (n, first_idle, True)
      else if n \<noteq> cur then schedule_loop ts cur idle n first_idle else Some (n, first_idle, False))"

definition schedule_pick :: "kstate \<Rightarrow> nat \<Rightarrow> nat option option" where
  "schedule_pick s cur = do {
     (n, first_idle, found) \<leftarrow> schedule_loop (tasks s) cur (idle_ptr s) cur None;
     Some (if found then Some n else first_idle) }"

text \<open>Handing the processor over: \<^verbatim>\<open>context_switch\<close> pushes eight registers, saves the stack pointer
  in the old task and loads the new one and its page directory.\<close>

definition switch_to :: "nat \<Rightarrow> nat \<Rightarrow> kstate \<Rightarrow> kstate" where
  "switch_to prv n s =
     (let s1 = upd_task n (\<lambda>t. t\<lparr>t_state := TASK_RUNNING\<rparr>) (s\<lparr>current_task := Some n\<rparr>);
          s2 = s1\<lparr>tss_esp0 := t_esp0 (tasks s1 ! n)\<rparr>;
          s3 = (if t_state (tasks s2 ! prv) = TASK_RUNNING
                then upd_task prv (\<lambda>t. t\<lparr>t_state := TASK_READY\<rparr>) s2 else s2);
          new_esp = t_esp (tasks s3 ! n);
          new_cr3 = (if t_cr3 (tasks s3 ! n) \<noteq> 0 then t_cr3 (tasks s3 ! n) else mm_kernel_cr3 (mm s3));
          s4 = upd_task prv (\<lambda>t. t\<lparr>t_esp := sub32 (cpu_esp s3) 36\<rparr>) s3
      in s4\<lparr>cpu_esp := new_esp, mm := (mm s4)\<lparr>cr3 := new_cr3\<rparr>\<rparr>)"

text \<open>With nothing to run the processor halts until the next interrupt and tries again; \<open>irqs\<close> is
  what the interrupts to come do to the state.\<close>

fun schedule :: "(kstate \<Rightarrow> kstate) list \<Rightarrow> kstate \<Rightarrow> kstate option" where
  "schedule irqs s =
     (case current_task s of
        None \<Rightarrow> None
      | Some cur \<Rightarrow>
          (case schedule_pick s cur of
             None \<Rightarrow> None
           | Some (Some n) \<Rightarrow> Some (switch_to cur n s)
           | Some None \<Rightarrow> (case irqs of [] \<Rightarrow> None | f # fs \<Rightarrow> schedule fs (f s))))"

declare schedule.simps [simp del]

definition task_yield :: "(kstate \<Rightarrow> kstate) list \<Rightarrow> kstate \<Rightarrow> kstate option" where
  "task_yield irqs s = schedule irqs s"

definition task_exit :: "(kstate \<Rightarrow> kstate) list \<Rightarrow> kstate \<Rightarrow> kstate option" where
  "task_exit irqs s =
     (case current_task s of
        None \<Rightarrow> None
      | Some c \<Rightarrow> schedule irqs (upd_task c (\<lambda>t. t\<lparr>t_state := TASK_TERMINATED\<rparr>) s))"

definition task_find_by_pid :: "nat \<Rightarrow> kstate \<Rightarrow> nat option" where
  "task_find_by_pid pid s = find (\<lambda>i. t_pid (tasks s ! i) = pid) [0..<task_count s]"

definition task_state_by_pid :: "nat \<Rightarrow> kstate \<Rightarrow> task_state option" where
  "task_state_by_pid pid s = map_option (\<lambda>i. t_state (tasks s ! i)) (task_find_by_pid pid s)"

definition task_terminate_by_pid :: "(kstate \<Rightarrow> kstate) list \<Rightarrow> nat \<Rightarrow> int \<Rightarrow> nat \<Rightarrow> kstate \<Rightarrow> (int \<times> kstate) option" where
  "task_terminate_by_pid irqs pid exit_status term_signal s =
     (case task_find_by_pid pid s of
        None \<Rightarrow> Some (-1, s)
      | Some i \<Rightarrow>
          if Some i = idle_ptr s then Some (-1, s)
          else if t_state (tasks s ! i) = TASK_TERMINATED then Some (0, s)
          else let s1 = upd_task i (\<lambda>t. t\<lparr>t_exit_status := exit_status, t_term_signal := term_signal\<rparr>) s in
            if Some i = current_task s then do { s2 \<leftarrow> task_exit irqs s1; Some (0, s2) }
            else Some (0, upd_task i (\<lambda>t. t\<lparr>t_state := TASK_TERMINATED\<rparr>) s1))"

subsection \<open>Waiting for a child\<close>

definition is_child :: "kstate \<Rightarrow> nat \<Rightarrow> int \<Rightarrow> nat \<Rightarrow> bool" where
  "is_child s cur pid i \<longleftrightarrow> Some i \<noteq> idle_ptr s \<and> t_pid (tasks s ! i) \<noteq> 0 \<and>
     t_ppid (tasks s ! i) = t_pid (tasks s ! cur) \<and> \<not> (pid > 0 \<and> nat pid \<noteq> t_pid (tasks s ! i))"

definition wait_status :: "task \<Rightarrow> int" where
  "wait_status t = (if t_term_signal t \<noteq> 0 then int (t_term_signal t mod 128)
                    else (t_exit_status t mod 256) * 256)"

definition reap :: "nat \<Rightarrow> kstate \<Rightarrow> kstate option" where
  "reap i s = do {
     s1 \<leftarrow> task_release_resources i s;
     Some (upd_task i (\<lambda>t. t\<lparr>t_pid := 0, t_ppid := 0, t_state := TASK_TERMINATED, t_exit_status := 0,
       t_term_signal := 0, t_tty_path := '''', t_prog_path := '''', t_cmdline := ''''\<rparr>) s1) }"

text \<open>\<^verbatim>\<open>task_waitpid\<close>: the result, the status stored through \<^verbatim>\<open>status_out\<close> if any, and the state.
  Each pass yields; \<open>envs\<close> holds, for each of them, the interrupts while nothing is ready and what
  happens from the switch until this task runs again.\<close>

fun task_waitpid :: "((kstate \<Rightarrow> kstate) list \<times> (kstate \<Rightarrow> kstate)) list \<Rightarrow> int \<Rightarrow> nat \<Rightarrow> kstate \<Rightarrow> (int \<times> int option \<times> kstate) option" where
  "task_waitpid envs pid options s =
     (case current_task s of
        None \<Rightarrow> Some (-1, None, s)
      | Some cur \<Rightarrow>
          (case find (\<lambda>i. is_child s cur pid i \<and> t_state (tasks s ! i) = TASK_TERMINATED) [0..<task_count s] of
             Some i \<Rightarrow> (case reap i s of None \<Rightarrow> None
                | Some s1 \<Rightarrow> Some (to_int32 (t_pid (tasks s ! i)), Some (wait_status (tasks s ! i)), s1))
           | None \<Rightarrow>
               if \<not> (\<exists>i \<in> set [0..<task_count s]. is_child s cur pid i) then Some (-1, None, s)
               else if odd options then Some (0, None, s)
               else (case envs of [] \<Rightarrow> None
                | (irqs, f) # fs \<Rightarrow> (case task_yield irqs s of None \<Rightarrow> None | Some s1 \<Rightarrow> task_waitpid fs pid options (f s1)))))"

declare task_waitpid.simps [simp del]

subsection \<open>The timer\<close>

definition wake_sleepers :: "kstate \<Rightarrow> kstate" where
  "wake_sleepers s = s\<lparr>tasks := map (\<lambda>i. let t = tasks s ! i in
       if i < task_count s \<and> t_state t = TASK_BLOCKED \<and> t_wake_tick t \<le> ticks s
       then t\<lparr>t_state := TASK_READY\<rparr> else t) [0..<length (tasks s)]\<rparr>"

definition timer_handler :: "(kstate \<Rightarrow> kstate) list \<Rightarrow> kstate \<Rightarrow> kstate option" where
  "timer_handler irqs s =
     (let s1 = wake_sleepers (s\<lparr>ticks := add32 (ticks s) 1\<rparr>) in
      if current_task s1 \<noteq> None then schedule irqs s1 else Some s1)"

definition timer_get_ticks :: "kstate \<Rightarrow> nat" where
  "timer_get_ticks s = ticks s"

definition sleep :: "(kstate \<Rightarrow> kstate) list \<Rightarrow> nat \<Rightarrow> kstate \<Rightarrow> kstate option" where
  "sleep irqs ms s =
     (if ms = 0 then Some s
      else let w = mul32 ms 100 div 1000;
               ticks_to_wait = (if w = 0 then 1 else w);
               deadline = add32 (ticks s) ticks_to_wait
           in case current_task s of
                None \<Rightarrow> None
              | Some c \<Rightarrow> schedule irqs
                  (upd_task c (\<lambda>t. t\<lparr>t_state := TASK_BLOCKED, t_wake_tick := deadline\<rparr>) s))"

end
