(* ===== verification/Task_Sched.thy ===== *)
theory Task_Sched
  imports Tasks
begin

section \<open>The ring of tasks and the scheduler\<close>

text \<open>
  The invariant of the task table (\<open>sched_ok\<close>) and what one call of \<open>schedule\<close> does: the ring
  of \<^verbatim>\<open>next\<close> pointers runs through the used slots in array order, so the walk visits the slots
  after the current one in turn.
\<close>

definition tring_ok :: "kstate \<Rightarrow> bool" where
  "tring_ok s \<longleftrightarrow> length (tasks s) = MAX_TASKS \<and> 0 < task_count s \<and> task_count s \<le> MAX_TASKS \<and>
     (\<forall>i < task_count s. t_next (tasks s ! i) = (if i + 1 = task_count s then 0 else i + 1)) \<and>
     ready_head s = Some 0 \<and> ready_tail s = Some (task_count s - 1)"

text \<open>One task runs, the current one; slot 0 is the idle task.\<close>

definition sched_ok :: "kstate \<Rightarrow> bool" where
  "sched_ok s \<longleftrightarrow> tring_ok s \<and> idle_ptr s = Some 0 \<and>
     (case current_task s of None \<Rightarrow> False | Some c \<Rightarrow> c < task_count s \<and>
        (\<forall>i < task_count s. t_state (tasks s ! i) = TASK_RUNNING \<longleftrightarrow> i = c))"

text \<open>The slots in the order the scheduler looks at them.\<close>

definition turn_order :: "nat \<Rightarrow> nat \<Rightarrow> nat list" where
  "turn_order c n = [c + 1..<n] @ [0..<c + 1]"

text \<open>What \<open>schedule\<close> is meant to choose.\<close>

definition choice :: "kstate \<Rightarrow> nat \<Rightarrow> nat option" where
  "choice s c =
     (case find (\<lambda>i. t_state (tasks s ! i) = TASK_READY \<and> Some i \<noteq> idle_ptr s) (turn_order c (task_count s)) of
        Some n \<Rightarrow> Some n
      | None \<Rightarrow> find (\<lambda>i. t_state (tasks s ! i) = TASK_READY) (turn_order c (task_count s)))"

text \<open>\<open>xs\<close> is what a walk along the ring from \<open>p\<close> meets.\<close>

fun chain :: "task list \<Rightarrow> nat \<Rightarrow> nat list \<Rightarrow> bool" where
  "chain ts p [] = True"
| "chain ts p (x # xs) = (t_next (ts ! p) = x \<and> chain ts x xs)"

lemma chain_append: "chain ts p (xs @ ys) \<longleftrightarrow> chain ts p xs \<and> chain ts (if xs = [] then p else last xs) ys"
  by (induction xs arbitrary: p) auto

lemma chain_up: "a \<le> b \<Longrightarrow> (\<And>i. a \<le> i \<Longrightarrow> i < b \<Longrightarrow> t_next (ts ! i) = i + 1) \<Longrightarrow> chain ts a [a + 1..<b + 1]"
proof (induction "b - a" arbitrary: a)
  case (Suc k)
  then have "[a + 1..<b + 1] = (a + 1) # [a + 1 + 1..<b + 1]" by (simp add: upt_rec)
  moreover have "chain ts (a + 1) [a + 1 + 1..<b + 1]" using Suc.hyps(2) Suc.prems by (intro Suc.hyps(1)) auto
  ultimately show ?case using Suc.hyps(2) Suc.prems by simp
qed simp

lemma ring_chain:
  assumes "tring_ok s" "c < task_count s"
  shows "chain (tasks s) c (turn_order c (task_count s))"
proof -
  let ?n = "task_count s"
  have step: "t_next (tasks s ! i) = i + 1" if "i + 1 < ?n" for i using assms(1) that by (auto simp: tring_ok_def)
  have wrap: "t_next (tasks s ! (?n - 1)) = 0" using assms by (auto simp: tring_ok_def)
  have "chain (tasks s) c [c + 1..<?n - 1 + 1]" by (rule chain_up) (use assms(2) step in auto)
  then have 1: "chain (tasks s) c [c + 1..<?n]" using assms(2) by simp
  have "chain (tasks s) 0 [0 + 1..<c + 1]" by (rule chain_up) (use assms(2) step in auto)
  then have 2: "chain (tasks s) (?n - 1) [0..<c + 1]" using wrap by (simp add: upt_rec [of 0] del: upt_Suc)
  have "(if [c + 1..<?n] = [] then c else last [c + 1..<?n]) = ?n - 1" using assms(2) by auto
  then show ?thesis unfolding turn_order_def chain_append using 1 2 by metis
qed

lemma turn_order_facts:
  assumes "c < n"
  shows "set (turn_order c n) = {0..<n}" "distinct (turn_order c n)" "turn_order c n \<noteq> []"
    "last (turn_order c n) = c" "c \<notin> set (butlast (turn_order c n))"
  using assms by (auto simp: turn_order_def butlast_append)

text \<open>The loop over such a list, ending at the current task.\<close>

lemma schedule_loop_chain:
  assumes "chain ts p xs" "xs \<noteq> []" "last xs = cur" "cur \<notin> set (butlast xs)"
  shows "\<exists>n fi' found. schedule_loop ts cur idle p fi = Some (n, fi', found) \<and>
    (if found then Some n else fi') =
      (case find (\<lambda>i. t_state (ts ! i) = TASK_READY \<and> Some i \<noteq> idle) xs of
         Some n \<Rightarrow> Some n
       | None \<Rightarrow> if fi \<noteq> None then fi else find (\<lambda>i. t_state (ts ! i) = TASK_READY) xs)"
  using assms
proof (induction xs arbitrary: p fi)
  case (Cons x xs)
  have nx: "t_next (ts ! p) = x" using Cons.prems(1) by simp
  show ?case
  proof (cases "x = cur")
    case True
    then have "xs = []" using Cons.prems(3,4) by (cases xs) auto
    then show ?thesis using nx True by (subst schedule_loop.simps) (auto simp: Let_def)
  next
    case False
    then have xs: "xs \<noteq> []" "last xs = cur" "cur \<notin> set (butlast xs)" "chain ts x xs"
      using Cons.prems by (cases xs; auto split: if_splits)+
    note IH = Cons.IH [OF xs(4,1,2,3)]
    consider "t_state (ts ! x) \<noteq> TASK_READY" | "t_state (ts ! x) = TASK_READY" "Some x \<noteq> idle"
      | "t_state (ts ! x) = TASK_READY" "Some x = idle" by blast
    then show ?thesis
    proof cases
      case 1
      then have "schedule_loop ts cur idle p fi = schedule_loop ts cur idle x fi"
        using nx False by (subst schedule_loop.simps) (simp add: Let_def)
      moreover have "find (\<lambda>i. t_state (ts ! i) = TASK_READY \<and> Some i \<noteq> idle) (x # xs) =
          find (\<lambda>i. t_state (ts ! i) = TASK_READY \<and> Some i \<noteq> idle) xs"
        "find (\<lambda>i. t_state (ts ! i) = TASK_READY) (x # xs) = find (\<lambda>i. t_state (ts ! i) = TASK_READY) xs"
        using 1 by simp_all
      ultimately show ?thesis using IH [of fi] by (simp only:)
    next
      case 2
      then show ?thesis using nx by (subst schedule_loop.simps) (auto simp: Let_def)
    next
      case 3
      let ?fi = "if fi = None then Some x else fi"
      have "schedule_loop ts cur idle p fi = schedule_loop ts cur idle x ?fi"
        using nx False 3 by (subst schedule_loop.simps) (simp add: Let_def)
      moreover have "find (\<lambda>i. t_state (ts ! i) = TASK_READY \<and> Some i \<noteq> idle) (x # xs) =
          find (\<lambda>i. t_state (ts ! i) = TASK_READY \<and> Some i \<noteq> idle) xs"
        "(if fi \<noteq> None then fi else find (\<lambda>i. t_state (ts ! i) = TASK_READY) (x # xs)) = ?fi" "?fi \<noteq> None"
        using 3 by auto
      ultimately show ?thesis using IH [of ?fi] by (simp only: if_True not_False_eq_True)
    qed
  qed
qed simp

lemma schedule_pick_choice:
  assumes "tring_ok s" "c < task_count s"
  shows "schedule_pick s c = Some (choice s c)"
  using schedule_loop_chain [OF ring_chain [OF assms] turn_order_facts(3-5) [OF assms(2)], of "idle_ptr s" None]
  by (auto simp: schedule_pick_def choice_def)

lemma find_mem: "find P xs = Some x \<Longrightarrow> x \<in> set xs \<and> P x"
  by (auto simp: find_Some_iff)

lemma choice_range:
  assumes "choice s c = Some n" "c < task_count s"
  shows "n < task_count s" "t_state (tasks s ! n) = TASK_READY"
  using assms turn_order_facts(1) [of c "task_count s"]
  by (auto simp: choice_def split: option.splits dest!: find_mem)

lemma choice_None:
  assumes "c < task_count s"
  shows "choice s c = None \<longleftrightarrow> (\<forall>i < task_count s. t_state (tasks s ! i) \<noteq> TASK_READY)"
  using turn_order_facts(1) [OF assms]
  by (auto simp: choice_def find_None_iff split: option.splits dest!: find_mem)

lemma switch_to_fields:
  assumes "c \<noteq> n" "c < length (tasks s)" "n < length (tasks s)"
  shows "t_state (tasks (switch_to c n s) ! i) = (if i = n then TASK_RUNNING
      else if i = c \<and> t_state (tasks s ! c) = TASK_RUNNING then TASK_READY else t_state (tasks s ! i))"
    "t_next (tasks (switch_to c n s) ! i) = t_next (tasks s ! i)"
    "t_pid (tasks (switch_to c n s) ! i) = t_pid (tasks s ! i)"
    "t_esp (tasks (switch_to c n s) ! i) = (if i = c then sub32 (cpu_esp s) 36 else t_esp (tasks s ! i))"
  using assms by (auto simp: switch_to_def upd_task_def Let_def nth_list_update)

lemma switch_to_rest [simp]:
  "length (tasks (switch_to c n s)) = length (tasks s)" "task_count (switch_to c n s) = task_count s"
  "current_task (switch_to c n s) = Some n" "idle_ptr (switch_to c n s) = idle_ptr s"
  "ready_head (switch_to c n s) = ready_head s" "ready_tail (switch_to c n s) = ready_tail s"
  "next_pid (switch_to c n s) = next_pid s" "ticks (switch_to c n s) = ticks s"
  by (auto simp: switch_to_def upd_task_def Let_def)

lemma switch_to_cpu:
  assumes "c \<noteq> n" "c < length (tasks s)" "n < length (tasks s)"
  shows "cpu_esp (switch_to c n s) = t_esp (tasks s ! n)" "tss_esp0 (switch_to c n s) = t_esp0 (tasks s ! n)"
    "cr3 (mm (switch_to c n s)) =
       (if t_cr3 (tasks s ! n) \<noteq> 0 then t_cr3 (tasks s ! n) else mm_kernel_cr3 (mm s))"
  using assms by (auto simp: switch_to_def upd_task_def Let_def nth_list_update)

text \<open>A task that is to be switched out: the current one, not runnable any more or still running.\<close>

definition switch_ok :: "kstate \<Rightarrow> bool" where
  "switch_ok s \<longleftrightarrow> tring_ok s \<and> idle_ptr s = Some 0 \<and>
     (case current_task s of None \<Rightarrow> False | Some c \<Rightarrow> c < task_count s \<and> t_state (tasks s ! c) \<noteq> TASK_READY \<and>
        (\<forall>i < task_count s. t_state (tasks s ! i) = TASK_RUNNING \<longrightarrow> i = c))"

lemma sched_switch_ok: "sched_ok s \<Longrightarrow> switch_ok s"
  by (auto simp: sched_ok_def switch_ok_def split: option.splits)

lemma schedule_step:
  assumes ok: "switch_ok s" and c: "current_task s = Some c"
  shows "schedule irqs s = (case choice s c of
      Some n \<Rightarrow> Some (switch_to c n s)
    | None \<Rightarrow> (case irqs of [] \<Rightarrow> None | f # fs \<Rightarrow> schedule fs (f s)))"
  using assms by (subst schedule.simps) (simp add: switch_ok_def schedule_pick_choice split: option.split)

lemma switch_keeps_ok:
  assumes ok: "switch_ok s" and c: "current_task s = Some c" and n: "choice s c = Some n"
  shows "sched_ok (switch_to c n s)" "n \<noteq> c" "n < task_count s" "c < task_count s"
proof -
  have cs: "c < task_count s" "t_state (tasks s ! c) \<noteq> TASK_READY" "tring_ok s"
    using ok c by (auto simp: switch_ok_def)
  note R = choice_range [OF n cs(1)]
  show nc: "n \<noteq> c" and "n < task_count s" "c < task_count s" using R cs by auto
  have len: "c < length (tasks s)" "n < length (tasks s)" using cs R by (auto simp: tring_ok_def)
  note F = switch_to_fields [OF nc [symmetric] len]
  show "sched_ok (switch_to c n s)"
    using ok c cs(3) R(1) by (auto simp: sched_ok_def switch_ok_def tring_ok_def F)
qed

subsection \<open>Every ready task gets its turn\<close>

text \<open>How many slots the walk from \<open>c\<close> passes before it meets \<open>j\<close>.\<close>

definition turns_before :: "nat \<Rightarrow> nat \<Rightarrow> nat \<Rightarrow> nat" where
  "turns_before c n j = (if c < j then j - c - 1 else n + j - c - 1)"

lemma turn_order_nth: "c < n \<Longrightarrow> j < n \<Longrightarrow>
    turns_before c n j < length (turn_order c n) \<and> turn_order c n ! turns_before c n j = j"
  by (auto simp: turns_before_def turn_order_def nth_append simp del: upt_Suc)

lemma find_before:
  assumes "find P xs = Some x" "i < length xs" "P (xs ! i)"
  shows "\<exists>k \<le> i. xs ! k = x \<and> k < length xs"
proof -
  from assms(1) obtain k where k: "k < length xs" "xs ! k = x" "\<forall>j < k. \<not> P (xs ! j)"
    by (auto simp: find_Some_iff)
  with assms(2,3) show ?thesis by (metis not_le_imp_less)
qed

lemma turns_before_nth: "c < n \<Longrightarrow> k < length (turn_order c n) \<Longrightarrow> turns_before c n (turn_order c n ! k) = k"
  by (auto simp: turns_before_def turn_order_def nth_append simp del: upt_Suc)

lemma turns_less:
  assumes "c < n" "j < n" "p < n" "p \<noteq> j" "turns_before c n p \<le> turns_before c n j" "c \<noteq> p"
  shows "turns_before p n j < turns_before c n j"
  using assms by (auto simp: turns_before_def split: if_splits)

lemma choice_progress:
  assumes "c < task_count s" "j < task_count s" "t_state (tasks s ! j) = TASK_READY" "Some j \<noteq> idle_ptr s"
  obtains p where "choice s c = Some p" "turns_before c (task_count s) p \<le> turns_before c (task_count s) j"
    "p < task_count s"
proof -
  let ?n = "task_count s" and ?P = "\<lambda>i. t_state (tasks s ! i) = TASK_READY \<and> Some i \<noteq> idle_ptr s"
  let ?xs = "turn_order c ?n"
  note N = turn_order_nth [OF assms(1,2)]
  have "j \<in> set ?xs" using assms turn_order_facts(1) by auto
  then obtain p where p: "find ?P ?xs = Some p" using assms by (cases "find ?P ?xs") (auto simp: find_None_iff)
  from find_before [OF p] N assms(3,4) obtain k where
    "k \<le> turns_before c ?n j" "?xs ! k = p" "k < length ?xs" by force
  then have "turns_before c ?n p \<le> turns_before c ?n j" using turns_before_nth [OF assms(1)] by auto
  moreover have "p < ?n" using find_mem [OF p] turn_order_facts(1) [OF assms(1)] by auto
  moreover have "choice s c = Some p" using p by (simp add: choice_def)
  ultimately show thesis by (intro that)
qed

fun run_schedule :: "nat \<Rightarrow> kstate \<Rightarrow> kstate option" where
  "run_schedule 0 s = Some s"
| "run_schedule (Suc k) s = Option.bind (schedule [] s) (run_schedule k)"

lemma run_schedule_reaches:
  assumes "sched_ok s" "current_task s = Some c" "j < task_count s" "t_state (tasks s ! j) = TASK_READY"
    "Some j \<noteq> idle_ptr s"
  shows "\<exists>k s'. k \<le> turns_before c (task_count s) j + 1 \<and> run_schedule k s = Some s' \<and>
    sched_ok s' \<and> current_task s' = Some j"
  using assms
proof (induction "turns_before c (task_count s) j" arbitrary: s c rule: less_induct)
  case less
  have sw: "switch_ok s" by (rule sched_switch_ok [OF less.prems(1)])
  have cn: "c < task_count s" using less.prems(1,2) by (auto simp: sched_ok_def)
  obtain p where p: "choice s c = Some p" "turns_before c (task_count s) p \<le> turns_before c (task_count s) j"
    "p < task_count s"
    by (rule choice_progress [OF cn less.prems(3-5)])
  let ?s = "switch_to c p s"
  note K = switch_keeps_ok [OF sw less.prems(2) p(1)]
  have step: "schedule [] s = Some ?s" using schedule_step [OF sw less.prems(2)] p(1) by simp
  show ?case
  proof (cases "p = j")
    case True
    then have "run_schedule (Suc 0) s = Some ?s" "current_task ?s = Some j" using step by simp_all
    with K(1) show ?thesis by fastforce
  next
    case False
    have len: "c < length (tasks s)" "p < length (tasks s)"
      using sw K(3,4) by (auto simp: switch_ok_def tring_ok_def)
    have "t_state (tasks ?s ! j) = TASK_READY"
      using switch_to_fields(1) [OF K(2) [symmetric] len] less.prems(4) False by auto
    moreover have lt: "turns_before p (task_count ?s) j < turns_before c (task_count s) j"
      using turns_less [OF cn less.prems(3) p(3) False p(2)] K(2) by simp
    ultimately obtain k s' where "k \<le> turns_before p (task_count ?s) j + 1" "run_schedule k ?s = Some s'"
      "sched_ok s'" "current_task s' = Some j"
      using less.hyps [OF lt K(1)] less.prems(3,5) by auto
    moreover from this lt have "Suc k \<le> turns_before c (task_count s) j + 1" by simp
    moreover have "run_schedule (Suc k) s = run_schedule k ?s" using step by simp
    ultimately show ?thesis by metis
  qed
qed

end
