(* ===== verification/Task_Props.thy ===== *)
theory Task_Props
  imports Task_Sched Heap_Props
begin

section \<open>Properties of the tasks\<close>

text \<open>
  Creation, termination and waiting, on top of the scheduler's ring: the theorems of
  \<^verbatim>\<open>src/kernel/arch/i386/task.c\<close> with their instances on a small task table.
\<close>

subsection \<open>Building the first stack frame\<close>

lemma push_fold:
  assumes "4 * length vs \<le> tp" "tp < 2 ^ 32"
  shows "\<exists>m'. fold push32 vs (m, tp) = (m', tp - 4 * length vs) \<and>
    (\<forall>a. a < tp - 4 * length vs \<or> tp \<le> a \<longrightarrow> m' a = m a)"
  using assms
proof (induction vs arbitrary: m tp)
  case (Cons v vs)
  let ?m = "store32 m (tp - 4) v"
  have "sub32 tp 4 = tp - 4" using Cons.prems by (simp add: wrap_simps)
  then have step: "fold push32 (v # vs) (m, tp) = fold push32 vs (?m, tp - 4)" by (simp add: push32_def)
  have "4 * length vs \<le> tp - 4" "tp - 4 < 2 ^ 32" using Cons.prems by simp_all
  from Cons.IH [OF this, of ?m] obtain m' where m': "fold push32 vs (?m, tp - 4) = (m', tp - 4 - 4 * length vs)"
    "\<forall>a. a < tp - 4 - 4 * length vs \<or> tp - 4 \<le> a \<longrightarrow> m' a = ?m a" by blast
  have "m' a = m a" if "a < tp - 4 * length (v # vs) \<or> tp \<le> a" for a
  proof -
    have "m' a = ?m a" using m'(2) that Cons.prems by auto
    also have "\<dots> = m a" by (rule store32_other) (use that Cons.prems in auto)
    finally show ?thesis .
  qed
  then show ?case using step m'(1) by auto
qed simp

lemma push_frame_heap:
  assumes ok: "heap_ok s" and st: "(stack, k) \<in> live s" "STACK_SIZE \<le> k" and lt: "stack + k < 2 ^ 32"
  obtains m' where "push_frame arg ex entry (mm_mem s) (add32 stack STACK_SIZE) = (m', stack + STACK_SIZE - 44)"
    "heap_ok (s\<lparr>mm_mem := m'\<rparr>)" "layout (s\<lparr>mm_mem := m'\<rparr>) = layout s" "live (s\<lparr>mm_mem := m'\<rparr>) = live s"
    "\<forall>a. a < stack \<or> stack + k \<le> a \<longrightarrow> m' a = mm_mem s a"
proof -
  let ?vs = "[arg, ex, entry, 0x202] @ replicate 7 0"
  have len: "length ?vs = 11" by simp
  have tp: "add32 stack STACK_SIZE = stack + STACK_SIZE" using st(2) lt by (simp add: wrap_simps)
  have "4 * length ?vs \<le> stack + STACK_SIZE" "stack + STACK_SIZE < 2 ^ 32"
    using st(2) lt unfolding len by (simp_all add: STACK_SIZE_def)
  from push_fold [OF this, of "mm_mem s"] obtain m' where m':
    "fold push32 ?vs (mm_mem s, stack + STACK_SIZE) = (m', stack + STACK_SIZE - 44)"
    "\<forall>a. a < stack + STACK_SIZE - 44 \<or> stack + STACK_SIZE \<le> a \<longrightarrow> m' a = mm_mem s a"
    unfolding len by auto
  have in_stack: "stack \<le> a \<and> a < stack + k" if "m' a \<noteq> mm_mem s a" for a
  proof -
    have "\<not> (a < stack + STACK_SIZE - 44 \<or> stack + STACK_SIZE \<le> a)" using m'(2) that by blast
    then show ?thesis using st(2) by (simp add: STACK_SIZE_def)
  qed
  have "\<exists>p n. (p, n) \<in> live s \<and> p \<le> a \<and> a < p + n" if "m' a \<noteq> mm_mem s a" for a
    using in_stack [OF that] st(1) by blast
  note W = heap_ok_write [OF ok this]
  have frame: "\<forall>a. a < stack \<or> stack + k \<le> a \<longrightarrow> m' a = mm_mem s a" using in_stack by force
  show thesis
    by (rule that [of m', OF _ W frame]) (use m'(1) tp in \<open>simp_all add: push_frame_def\<close>)
qed

lemma live_end: "heap_ok s \<Longrightarrow> (p, n) \<in> live s \<Longrightarrow> p + n < 2 ^ 32"
proof -
  assume ok: "heap_ok s" and p: "(p, n) \<in> live s"
  from p obtain c where c: "c \<in> set (blocks s)" "p = c + 20" "n = b_size (mm_mem s) c"
    using heap_ok_live [OF ok] by auto
  have "c + 20 + b_size (mm_mem s) c \<le> heap_end s" "heap_end s < 2 ^ 32"
    using ok c(1) tiles_mem [of "mm_mem s" "heap_start s" "heap_end s" "blocks s" c]
    by (auto simp: heap_ok_def heap_wf_def regions_def)
  with c show ?thesis by simp
qed

subsection \<open>Releasing a task's memory\<close>

text \<open>What a task table owns: its stack is null or a live block of the heap; its page directory is
  the kernel's, or lies in a live block (as \<open>valloc_aligned\<close> places it) that is not the stack.\<close>

definition owns_ok :: "mm_state \<Rightarrow> task \<Rightarrow> bool" where
  "owns_ok m t \<longleftrightarrow> (t_stack t = 0 \<or> t_stack t \<in> fst ` live m) \<and>
     (t_cr3 t = 0 \<or> t_cr3 t = mm_kernel_cr3 m \<or>
      (\<exists>(raw, n) \<in> live m. load32 (mm_mem m) (t_cr3 t - 4) = raw \<and> raw \<noteq> t_stack t \<and>
         4 \<le> t_cr3 t \<and> raw \<le> t_cr3 t - 4 \<and> t_cr3 t \<le> raw + n))"

lemma kfree_keeps_kernel: 
  assumes "heap_ok s" "(p, n) \<in> live s" "kfree s p = Some s'"
  shows "kernel_page_directory s' = kernel_page_directory s" "user_slot_used s' = user_slot_used s"
proof -
  obtain s'' where K: "kfree s p = Some s''"
    "s'' = s\<lparr>mm_mem := mm_mem s'', free_list := free_list s'', used_heap_size := used_heap_size s''\<rparr>"
    by (rule kfree_outcome [OF assms(1,2)])
  have eq: "s' = s''" using K(1) assms(3) by simp
  show "kernel_page_directory s' = kernel_page_directory s" unfolding eq by (subst K(2)) simp
  show "user_slot_used s' = user_slot_used s" unfolding eq by (subst K(2)) simp
qed

text \<open>Releasing a pointer that is null or live.\<close>

lemma kfree_owned:
  assumes ok: "heap_ok s" and p: "p = 0 \<or> p \<in> fst ` live s"
  obtains s' where "kfree s p = Some s'" "heap_ok s'" "live s' = {b \<in> live s. fst b \<noteq> p}"
    "kernel_page_directory s' = kernel_page_directory s" "user_slot_used s' = user_slot_used s"
    "\<forall>(q, j) \<in> live s'. \<forall>i < j. mm_mem s' (q + i) = mm_mem s (q + i)"
proof (cases "p = 0")
  case True
  have "{b \<in> live s. fst b \<noteq> 0} = live s" using kheap.live_nonnull [OF ok] by auto
  then show ?thesis using True kheap.release_null [OF ok] ok by (intro that [of s]) auto
next
  case False
  with p obtain n where n: "(p, n) \<in> live s" by auto
  from kheap.release_live [OF ok n] obtain s' where s': "kfree s p = Some s'" "heap_ok s'"
    "live s' = live s - {(p, n)}" "\<forall>(q, j) \<in> live s'. \<forall>i < j. mm_mem s' (q + i) = mm_mem s (q + i)" by blast
  have "live s' = {b \<in> live s. fst b \<noteq> p}"
  proof (rule set_eqI)
    fix b show "b \<in> live s' \<longleftrightarrow> b \<in> {b \<in> live s. fst b \<noteq> p}"
      using s'(3) kheap.live_unique [OF ok n, of "snd b"] n by (cases b) auto
  qed
  from that [OF s'(1,2) this kfree_keeps_kernel [OF ok n s'(1)] s'(4)] show ?thesis .
qed

lemma slot_free_heap:
  assumes "heap_ok m"
  shows "heap_ok (mm_user_slot_free m i)" "live (mm_user_slot_free m i) = live m"
    "mm_mem (mm_user_slot_free m i) = mm_mem m"
    "kernel_page_directory (mm_user_slot_free m i) = kernel_page_directory m"
  using assms by (auto simp: mm_user_slot_free_def heap_ok_def heap_wf_def regions_def blocks_def
      live_def layout_def)

text \<open>The blocks a task gives back.\<close>

definition owned :: "mm_state \<Rightarrow> task \<Rightarrow> addr set" where
  "owned m t = {t_stack t} \<union> (if t_cr3 t \<noteq> 0 \<and> t_cr3 t \<noteq> mm_kernel_cr3 m
     then {load32 (mm_mem m) (t_cr3 t - 4)} else {})"

lemma release_resources_ok:
  assumes ok: "heap_ok (mm s)" and own: "owns_ok (mm s) (tasks s ! i)"
  obtains m' where "task_release_resources i s = Some (upd_task i (\<lambda>t. t\<lparr>t_stack := 0,
      t_cr3 := mm_kernel_cr3 (mm s), t_user_slot := NO_SLOT, t_user_phys_base := 0\<rparr>) (s\<lparr>mm := m'\<rparr>))"
    "heap_ok m'" "live m' = {b \<in> live (mm s). fst b \<notin> owned (mm s) (tasks s ! i)}"
    "kernel_page_directory m' = kernel_page_directory (mm s)"
    "\<forall>(q, j) \<in> live m'. \<forall>x < j. mm_mem m' (q + x) = mm_mem (mm s) (q + x)"
proof -
  let ?t = "tasks s ! i" and ?m = "mm s"
  let ?has = "t_cr3 ?t \<noteq> 0 \<and> t_cr3 ?t \<noteq> mm_kernel_cr3 ?m"
  let ?raw = "if ?has then load32 (mm_mem ?m) (t_cr3 ?t - 4) else 0"
  have raw: "?raw = 0 \<or> ?raw \<in> fst ` live ?m" using own by (force simp: owns_ok_def)
  obtain m1 where m1: "kfree ?m ?raw = Some m1" "heap_ok m1" "live m1 = {b \<in> live ?m. fst b \<noteq> ?raw}"
    "kernel_page_directory m1 = kernel_page_directory ?m" "user_slot_used m1 = user_slot_used ?m"
    "\<forall>(q, j) \<in> live m1. \<forall>x < j. mm_mem m1 (q + x) = mm_mem ?m (q + x)"
    by (rule kfree_owned [OF ok raw])
  have d: "(if ?has then mm_user_cr3_destroy ?m (t_cr3 ?t) else Some ?m) = Some m1"
    using m1(1) kheap.release_null [OF ok]
    by (auto simp: mm_user_cr3_destroy_def mm_kernel_cr3_def vfree_def)
  let ?m2 = "if t_user_slot ?t \<noteq> NO_SLOT then mm_user_slot_free m1 (t_user_slot ?t) else m1"
  have m2: "heap_ok ?m2" "live ?m2 = live m1" "mm_mem ?m2 = mm_mem m1"
    "kernel_page_directory ?m2 = kernel_page_directory m1"
    using slot_free_heap [OF m1(2), of "t_user_slot ?t"] m1(2) by auto
  have st: "t_stack ?t = 0 \<or> t_stack ?t \<in> fst ` live ?m2"
  proof (cases "t_stack ?t = 0")
    case False
    then obtain n where "(t_stack ?t, n) \<in> live ?m" using own by (auto simp: owns_ok_def)
    moreover have "t_stack ?t \<noteq> ?raw" using own False by (auto simp: owns_ok_def)
    ultimately have "(t_stack ?t, n) \<in> live ?m2" using m2(2) m1(3) by auto
    then show ?thesis by force
  qed simp
  obtain m3 where m3: "kfree ?m2 (t_stack ?t) = Some m3" "heap_ok m3"
    "live m3 = {b \<in> live ?m2. fst b \<noteq> t_stack ?t}" "kernel_page_directory m3 = kernel_page_directory ?m2"
    "user_slot_used m3 = user_slot_used ?m2"
    "\<forall>(q, j) \<in> live m3. \<forall>x < j. mm_mem m3 (q + x) = mm_mem ?m2 (q + x)"
    by (rule kfree_owned [OF m2(1) st])
  have f: "(if t_stack ?t \<noteq> 0 then kfree ?m2 (t_stack ?t) else Some ?m2) = Some m3"
    using m3(1) kheap.release_null [OF m2(1)] by auto
  have k3: "kernel_page_directory m3 = kernel_page_directory ?m" using m3(4) m2(4) m1(4) by simp
  have rel: "task_release_resources i s = Some (upd_task i (\<lambda>t. t\<lparr>t_stack := 0,
      t_cr3 := mm_kernel_cr3 ?m, t_user_slot := NO_SLOT, t_user_phys_base := 0\<rparr>) (s\<lparr>mm := m3\<rparr>))"
    unfolding task_release_resources_def Let_def d by (simp only: Option.bind.simps f mm_kernel_cr3_def k3)
  have l3: "live m3 = {b \<in> live ?m. fst b \<notin> owned ?m ?t}"
    using m3(3) m2(2) m1(3) kheap.live_nonnull [OF ok] by (auto simp: owned_def)
  have "\<forall>(q, j) \<in> live m3. \<forall>x < j. mm_mem m3 (q + x) = mm_mem ?m (q + x)"
    using m3(3,6) m2(2,3) m1(6) by fastforce
  then show thesis by (rule that [OF rel m3(2) l3 k3])
qed

subsection \<open>Ownership under changes of the heap\<close>

definition keeps :: "mm_state \<Rightarrow> mm_state \<Rightarrow> bool" where
  "keeps m m' \<longleftrightarrow> kernel_page_directory m' = kernel_page_directory m \<and>
     (\<forall>(q, j) \<in> live m \<inter> live m'. \<forall>x < j. mm_mem m' (q + x) = mm_mem m (q + x))"

lemma owned_keeps:
  assumes k: "keeps m m'" and own: "owns_ok m t" and sub: "{b \<in> live m. fst b \<in> owned m t} \<subseteq> live m'"
  shows "owns_ok m' t" "owned m' t = owned m t"
proof -
  have ker: "mm_kernel_cr3 m' = mm_kernel_cr3 m" using k by (simp add: keeps_def mm_kernel_cr3_def)
  have st: "t_stack t = 0 \<or> t_stack t \<in> fst ` live m'"
    using own sub by (force simp: owns_ok_def owned_def)
  show "owns_ok m' t" "owned m' t = owned m t"
  proof (atomize (full), cases "t_cr3 t = 0 \<or> t_cr3 t = mm_kernel_cr3 m")
    case True
    with st show "owns_ok m' t \<and> owned m' t = owned m t" by (auto simp: owns_ok_def owned_def ker)
  next
    case False
    with own obtain raw n where R: "(raw, n) \<in> live m" "load32 (mm_mem m) (t_cr3 t - 4) = raw"
      "raw \<noteq> t_stack t" "4 \<le> t_cr3 t" "raw \<le> t_cr3 t - 4" "t_cr3 t \<le> raw + n"
      by (auto simp: owns_ok_def)
    then have R': "(raw, n) \<in> live m'" using sub False by (auto simp: owned_def)
    have same: "mm_mem m' (raw + x) = mm_mem m (raw + x)" if "x < n" for x
      using k R(1) R' that by (auto simp: keeps_def)
    have ld: "load32 (mm_mem m') (t_cr3 t - 4) = load32 (mm_mem m) (t_cr3 t - 4)"
    proof (rule load32_cong)
      fix i :: nat assume i: "i < 4"
      have "raw + (t_cr3 t - 4 - raw + i) = t_cr3 t - 4 + i" using R(5) by simp
      moreover have "t_cr3 t - 4 - raw + i < n" using R(4-6) i by simp
      ultimately show "mm_mem m' (t_cr3 t - 4 + i) = mm_mem m (t_cr3 t - 4 + i)" using same by metis
    qed
    then have "owned m' t = owned m t" by (simp add: owned_def ker)
    moreover have "\<exists>(raw, n) \<in> live m'. load32 (mm_mem m') (t_cr3 t - 4) = raw \<and> raw \<noteq> t_stack t \<and>
         4 \<le> t_cr3 t \<and> raw \<le> t_cr3 t - 4 \<and> t_cr3 t \<le> raw + n"
      using R R' ld by (intro bexI [of _ "(raw, n)"]) auto
    ultimately show "owns_ok m' t \<and> owned m' t = owned m t" using st by (simp add: owns_ok_def)
  qed
qed

text \<open>The invariant of the kernel state: the scheduler's ring, the heap, and every task's memory its
  own.\<close>

definition kernel_ok :: "kstate \<Rightarrow> bool" where
  "kernel_ok s \<longleftrightarrow> sched_ok s \<and> heap_ok (mm s) \<and> (\<forall>i < task_count s. owns_ok (mm s) (tasks s ! i)) \<and>
     (\<forall>i < task_count s. \<forall>j < task_count s. i \<noteq> j \<longrightarrow>
        owned (mm s) (tasks s ! i) \<inter> owned (mm s) (tasks s ! j) \<subseteq> {0})"

text \<open>Obtaining a stack with its first frame.\<close>

lemma new_stack:
  assumes ok: "heap_ok m"
  obtains "kmalloc m STACK_SIZE = Some (0, m)"
  | stack k m1 m' where "kmalloc m STACK_SIZE = Some (stack, m1)" "stack \<noteq> 0" "STACK_SIZE \<le> k"
    "push_frame arg ex entry (mm_mem m1) (add32 stack STACK_SIZE) = (m', stack + STACK_SIZE - 44)"
    "heap_ok (m1\<lparr>mm_mem := m'\<rparr>)" "live (m1\<lparr>mm_mem := m'\<rparr>) = insert (stack, k) (live m)"
    "stack \<notin> fst ` live m" "keeps m (m1\<lparr>mm_mem := m'\<rparr>)" "add32 stack STACK_SIZE = stack + STACK_SIZE"
proof -
  have lt: "STACK_SIZE < 2 ^ 32" "0 < STACK_SIZE" "STACK_SIZE \<le> 2 ^ 32 - 8" by (simp_all add: STACK_SIZE_def)
  show thesis
  proof (cases "kmalloc m STACK_SIZE = Some (0, m)")
    case True
    then show thesis by (rule that(1))
  next
    case False
    from kheap.alloc_cases [OF ok lt(1)] False obtain stack k m1 where A:
      "kmalloc m STACK_SIZE = Some (stack, m1)" "heap_ok m1" "(stack, k) \<notin> live m"
      "live m1 = insert (stack, k) (live m)" "STACK_SIZE \<le> k"
      "\<forall>(q, j) \<in> live m. \<forall>i < j. mm_mem m1 (q + i) = mm_mem m (q + i)" using lt(3) by blast
    have sk: "(stack, k) \<in> live m1" using A(4) by simp
    note e = live_end [OF A(2) sk]
    obtain m' where P: "push_frame arg ex entry (mm_mem m1) (add32 stack STACK_SIZE) = (m', stack + STACK_SIZE - 44)"
      "heap_ok (m1\<lparr>mm_mem := m'\<rparr>)" "layout (m1\<lparr>mm_mem := m'\<rparr>) = layout m1" "live (m1\<lparr>mm_mem := m'\<rparr>) = live m1"
      "\<forall>a. a < stack \<or> stack + k \<le> a \<longrightarrow> m' a = mm_mem m1 a"
      by (rule push_frame_heap [OF A(2) sk A(5) e])
    have fresh: "stack \<notin> fst ` live m"
    proof
      assume "stack \<in> fst ` live m"
      then obtain j where "(stack, j) \<in> live m" by auto
      then show False using kheap.live_unique [OF A(2) sk, of j] A(3,4) by auto
    qed
    have ker: "kernel_page_directory m1 = kernel_page_directory m"
    proof -
      from kmalloc_outcome [OF ok lt(2,1)] A(1) False
      have E: "m1 = m\<lparr>mm_mem := mm_mem m1, free_list := free_list m1, used_heap_size := used_heap_size m1\<rparr>"
        by (auto split: option.splits)
      show ?thesis by (subst E) simp
    qed
    have "m' (q + x) = mm_mem m (q + x)" if "(q, j) \<in> live m" "x < j" for q j x
    proof -
      have "q + j < stack \<or> stack + k < q"
        using kheap.live_apart [OF A(2), of q j stack k] sk A(3,4) that(1) by auto
      then have "m' (q + x) = mm_mem m1 (q + x)" using P(5) that(2) by auto
      with A(6) that show ?thesis by fastforce
    qed
    then have "keeps m (m1\<lparr>mm_mem := m'\<rparr>)" using ker by (auto simp: keeps_def)
    moreover have "stack \<noteq> 0" by (rule kheap.live_nonnull [OF A(2) sk])
    moreover have "add32 stack STACK_SIZE = stack + STACK_SIZE" using e A(5) by (simp add: wrap_simps)
    ultimately show thesis using A(1,5) P(1,2,4) A(4) fresh by (intro that(2)) simp_all
  qed
qed

subsection \<open>Creating a task\<close>

lemma owned_cong:
  assumes "t_stack t' = t_stack t" "t_cr3 t' = t_cr3 t"
  shows "owns_ok m t' = owns_ok m t" "owned m t' = owned m t"
  using assms by (simp_all add: owns_ok_def owned_def)

lemma owned_live: "owns_ok m t \<Longrightarrow> p \<in> owned m t \<Longrightarrow> p = 0 \<or> p \<in> fst ` live m"
  by (force simp: owns_ok_def owned_def split: if_splits)

text \<open>Replacing or adding one task whose stack is a fresh block keeps the invariant, as long as the
  other tasks keep their blocks.\<close>

lemma kernel_ok_install:
  assumes ok: "kernel_ok s" and sched: "sched_ok s'" and heap: "heap_ok (mm s')" and k: "keeps (mm s) (mm s')"
    and others: "\<And>j. j < task_count s' \<Longrightarrow> j \<noteq> i \<Longrightarrow> j < task_count s \<and>
      t_stack (tasks s' ! j) = t_stack (tasks s ! j) \<and> t_cr3 (tasks s' ! j) = t_cr3 (tasks s ! j)"
    and blocks: "\<And>j. j < task_count s \<Longrightarrow> j \<noteq> i \<Longrightarrow>
      {b \<in> live (mm s). fst b \<in> owned (mm s) (tasks s ! j)} \<subseteq> live (mm s')"
    and new: "t_stack (tasks s' ! i) = stack" "t_cr3 (tasks s' ! i) = mm_kernel_cr3 (mm s')"
      "stack \<in> fst ` live (mm s')" "stack \<notin> fst ` live (mm s)" "stack \<noteq> 0"
  shows "kernel_ok s'"
proof -
  have old: "owns_ok (mm s') (tasks s' ! j) \<and> owned (mm s') (tasks s' ! j) = owned (mm s) (tasks s ! j) \<and>
      stack \<notin> owned (mm s) (tasks s ! j)" if "j < task_count s'" "j \<noteq> i" for j
  proof -
    note O = others [OF that]
    have own: "owns_ok (mm s) (tasks s ! j)" using ok O by (simp add: kernel_ok_def)
    note K = owned_keeps [OF k own blocks [OF _ that(2)]]
    show ?thesis using K O owned_cong [of "tasks s' ! j" "tasks s ! j"] owned_live [OF own, of stack] new(4,5) by auto
  qed
  have newi: "owns_ok (mm s') (tasks s' ! i)" "owned (mm s') (tasks s' ! i) = {stack}"
    using new by (auto simp: owns_ok_def owned_def)
  have "owned (mm s') (tasks s' ! a) \<inter> owned (mm s') (tasks s' ! b) \<subseteq> {0}"
    if "a < task_count s'" "b < task_count s'" "a \<noteq> b" for a b
  proof -
    have both: "owned (mm s) (tasks s ! a) \<inter> owned (mm s) (tasks s ! b) \<subseteq> {0}" if "a \<noteq> i" "b \<noteq> i"
      using ok others [of a] others [of b] that \<open>a < task_count s'\<close> \<open>b < task_count s'\<close> \<open>a \<noteq> b\<close>
      by (simp add: kernel_ok_def)
    show ?thesis using both old [of a] old [of b] newi that by (cases "a = i"; cases "b = i") auto
  qed
  then show ?thesis using sched heap old newi by (auto simp: kernel_ok_def)
qed

lemma fresh_task_fields [simp]:
  "t_pid (fresh_task pid ppid cr st sk esp esp0 t) = pid" "t_ppid (fresh_task pid ppid cr st sk esp esp0 t) = ppid"
  "t_state (fresh_task pid ppid cr st sk esp esp0 t) = st" "t_cr3 (fresh_task pid ppid cr st sk esp esp0 t) = cr"
  "t_stack (fresh_task pid ppid cr st sk esp esp0 t) = sk" "t_esp (fresh_task pid ppid cr st sk esp esp0 t) = esp"
  "t_esp0 (fresh_task pid ppid cr st sk esp esp0 t) = esp0" "t_next (fresh_task pid ppid cr st sk esp esp0 t) = t_next t"
  "t_user_slot (fresh_task pid ppid cr st sk esp esp0 t) = NO_SLOT"
  by (simp_all add: fresh_task_def)

lemma sched_reuse:
  assumes ok: "sched_ok s" and i: "i < task_count s" "t_state (tasks s ! i) \<noteq> TASK_RUNNING"
    and t: "t_next t = t_next (tasks s ! i)" "t_state t \<noteq> TASK_RUNNING"
  shows "sched_ok (s\<lparr>mm := m, tasks := (tasks s)[i := t], next_pid := np\<rparr>)"
proof -
  have len: "i < length (tasks s)" using ok i by (auto simp: sched_ok_def tring_ok_def)
  then have "t_next ((tasks s)[i := t] ! j) = t_next (tasks s ! j)"
    "t_state ((tasks s)[i := t] ! j) = TASK_RUNNING \<longleftrightarrow> t_state (tasks s ! j) = TASK_RUNNING" for j
    using t i by (auto simp: nth_list_update)
  with ok show ?thesis by (auto simp: sched_ok_def tring_ok_def split: option.splits)
qed

lemma sched_extend:
  assumes ok: "sched_ok s" and n: "task_count s < MAX_TASKS"
    and t: "t_next t = 0" "t_state t \<noteq> TASK_RUNNING"
  shows "sched_ok (s\<lparr>mm := m, tasks := (tasks s)[task_count s - 1 := (tasks s ! (task_count s - 1))\<lparr>t_next := task_count s\<rparr>,
      task_count s := t], task_count := task_count s + 1, ready_tail := Some (task_count s), next_pid := np\<rparr>)"
proof -
  let ?n = "task_count s"
  let ?ts = "(tasks s)[?n - 1 := (tasks s ! (?n - 1))\<lparr>t_next := ?n\<rparr>, ?n := t]"
  have len: "?n < length (tasks s)" "0 < ?n" using ok n by (auto simp: sched_ok_def tring_ok_def)
  have nx: "t_next (?ts ! j) = (if j = ?n then 0 else j + 1)" if "j < ?n + 1" for j
    using ok len t that by (auto simp: nth_list_update sched_ok_def tring_ok_def)
  have st: "t_state (?ts ! j) = (if j = ?n then t_state t else t_state (tasks s ! j))" if "j < ?n + 1" for j
    using len by (auto simp: nth_list_update)
  show ?thesis using ok n t nx st by (auto simp: sched_ok_def tring_ok_def split: option.splits)
qed

lemma to_int32_small:
  assumes "n < 2 ^ 31"
  shows "to_int32 n = int n"
proof -
  have "unat (word_of_nat n :: u32) = n" using assms by (simp add: unat_of_nat)
  then have "uint (word_of_nat n :: u32) = int n" by (simp add: uint_nat)
  then show ?thesis using assms by (simp add: to_int32_def sint_uint signed_take_bit_int_eq_self)
qed

lemma find_terminated_Some:
  assumes "find_terminated s = Some i"
  shows "i < task_count s" "t_state (tasks s ! i) = TASK_TERMINATED"
  using find_mem [OF assms [unfolded find_terminated_def]] by auto

text \<open>What a caller may expect of a new task in slot \<open>i\<close>.\<close>

definition new_task_at :: "kstate \<Rightarrow> kstate \<Rightarrow> nat \<Rightarrow> bool" where
  "new_task_at s s' i \<longleftrightarrow> (let t = tasks s' ! i in
     t_pid t = next_pid s \<and> next_pid s' = next_pid s + 1 \<and> t_state t = TASK_READY \<and>
     t_ppid t = t_pid (tasks s ! the (current_task s)) \<and>
     t_stack t \<notin> fst ` live (mm s) \<and> t_stack t \<in> fst ` live (mm s') \<and>
     t_esp0 t = t_stack t + STACK_SIZE \<and> t_esp t = t_stack t + STACK_SIZE - 44 \<and>
     (\<forall>j < task_count s. j \<noteq> i \<longrightarrow> (tasks s' ! j)\<lparr>t_next := 0\<rparr> = (tasks s ! j)\<lparr>t_next := 0\<rparr>))"

definition finish_create :: "addr \<Rightarrow> nat \<times> kstate \<Rightarrow> int \<times> kstate" where
  "finish_create stack = (\<lambda>(i, s2).
     let ppid = (case current_task s2 of Some c \<Rightarrow> t_pid (tasks s2 ! c) | None \<Rightarrow> 0);
         s3 = upd_task i (fresh_task (next_pid s2) ppid (mm_kernel_cr3 (mm s2)) TASK_READY stack
                (stack + STACK_SIZE - 44) (stack + STACK_SIZE)) (s2\<lparr>next_pid := add32 (next_pid s2) 1\<rparr>)
     in (to_int32 (t_pid (tasks s3 ! i)), s3))"

lemma task_create_steps:
  assumes "kmalloc (mm s) STACK_SIZE = Some (stack, m1)" "stack \<noteq> 0"
    "push_frame arg (task_exit_addr s) entry (mm_mem m1) (add32 stack STACK_SIZE) = (m', stack + STACK_SIZE - 44)"
    "add32 stack STACK_SIZE = stack + STACK_SIZE"
  defines "s1 \<equiv> s\<lparr>mm := m1\<lparr>mm_mem := m'\<rparr>\<rparr>"
  shows "find_terminated s = None \<Longrightarrow> MAX_TASKS \<le> task_count s \<Longrightarrow>
      task_create entry arg s = Option.bind (kfree (mm s1) stack) (\<lambda>m2. Some (-1, s1\<lparr>mm := m2\<rparr>))"
    "find_terminated s = None \<Longrightarrow> \<not> MAX_TASKS \<le> task_count s \<Longrightarrow>
      task_create entry arg s = Some (finish_create stack (link_new s1))"
    "find_terminated s = Some i \<Longrightarrow> task_create entry arg s =
       Option.bind (task_release_resources i s1) (\<lambda>s2. Some (finish_create stack (i, s2)))"
proof -
  have ft: "find_terminated s1 = find_terminated s" by (simp add: find_terminated_def s1_def)
  show "find_terminated s = None \<Longrightarrow> MAX_TASKS \<le> task_count s \<Longrightarrow>
      task_create entry arg s = Option.bind (kfree (mm s1) stack) (\<lambda>m2. Some (-1, s1\<lparr>mm := m2\<rparr>))"
    using assms(1-4) ft by (simp add: task_create_def s1_def)
  show "find_terminated s = None \<Longrightarrow> \<not> MAX_TASKS \<le> task_count s \<Longrightarrow>
      task_create entry arg s = Some (finish_create stack (link_new s1))"
    using assms(1-4) ft by (simp add: task_create_def s1_def finish_create_def Let_def split: prod.split)
  show "find_terminated s = Some i \<Longrightarrow> task_create entry arg s =
       Option.bind (task_release_resources i s1) (\<lambda>s2. Some (finish_create stack (i, s2)))"
    using assms(1-4) ft
    by (cases "task_release_resources i s1") (simp_all add: task_create_def s1_def finish_create_def Let_def)
qed

lemma create_full:
  assumes ok: "kernel_ok s" and m: "heap_ok m" "live m = insert (stack, k) (live (mm s))" "keeps (mm s) m"
    and st: "stack \<notin> fst ` live (mm s)"
  shows "\<exists>m2. kfree m stack = Some m2 \<and> kernel_ok (s\<lparr>mm := m2\<rparr>) \<and> live m2 = live (mm s)"
proof -
  have "stack = 0 \<or> stack \<in> fst ` live m" using m(2) by force
  then obtain m2 where m2: "kfree m stack = Some m2" "heap_ok m2"
    "live m2 = {b \<in> live m. fst b \<noteq> stack}" "kernel_page_directory m2 = kernel_page_directory m"
    "user_slot_used m2 = user_slot_used m" "\<forall>(q, j) \<in> live m2. \<forall>i < j. mm_mem m2 (q + i) = mm_mem m (q + i)"
    by (rule kfree_owned [OF m(1)])
  have l: "live m2 = live (mm s)" using m2(3) m(2) st by force
  have "mm_mem m2 (q + x) = mm_mem (mm s) (q + x)" if "(q, j) \<in> live (mm s)" "x < j" for q j x
  proof -
    have "mm_mem m2 (q + x) = mm_mem m (q + x)" using m2(6) l that by blast
    also have "\<dots> = mm_mem (mm s) (q + x)" using m(2,3) that unfolding keeps_def by blast
    finally show ?thesis .
  qed
  then have "keeps (mm s) m2" using m(3) m2(4) by (auto simp: keeps_def)
  note K = owned_keeps [OF this]
  have "owns_ok m2 (tasks s ! i) \<and> owned m2 (tasks s ! i) = owned (mm s) (tasks s ! i)" if "i < task_count s" for i
    using K [of "tasks s ! i"] ok that l by (auto simp: kernel_ok_def)
  then have "kernel_ok (s\<lparr>mm := m2\<rparr>)"
    using ok m2(2) by (auto simp: kernel_ok_def sched_ok_def tring_ok_def split: option.splits)
  with m2(1) l show ?thesis by blast
qed

lemma create_reuse:
  assumes ok: "kernel_ok s" and pid: "next_pid s < 2 ^ 31" and i: "find_terminated s = Some i"
    and m: "heap_ok m" "live m = insert (stack, k) (live (mm s))" "keeps (mm s) m"
    and st: "stack \<notin> fst ` live (mm s)" "stack \<noteq> 0"
  shows "\<exists>s2 s'. task_release_resources i (s\<lparr>mm := m\<rparr>) = Some s2 \<and>
    finish_create stack (i, s2) = (int (next_pid s), s') \<and> kernel_ok s' \<and> task_count s' = task_count s \<and>
    new_task_at s s' i"
proof -
  note I = find_terminated_Some [OF i]
  have sched: "sched_ok s" and heap: "heap_ok (mm s)" using ok by (simp_all add: kernel_ok_def)
  obtain c where c: "current_task s = Some c" "c < task_count s" "t_state (tasks s ! c) = TASK_RUNNING"
    using sched by (auto simp: sched_ok_def split: option.splits)
  have ic: "i \<noteq> c" using I(2) c(3) by auto
  have len: "i < length (tasks s)" using sched I(1) by (auto simp: sched_ok_def tring_ok_def)
  have own: "owns_ok (mm s) (tasks s ! i)" using ok I(1) by (simp add: kernel_ok_def)
  note O = owned_keeps [OF m(3) own]
  have own': "owns_ok (mm (s\<lparr>mm := m\<rparr>)) (tasks (s\<lparr>mm := m\<rparr>) ! i)" using O m(2) by auto
  have heap': "heap_ok (mm (s\<lparr>mm := m\<rparr>))" using m(1) by simp
  obtain m3 where R: "task_release_resources i (s\<lparr>mm := m\<rparr>) = Some (upd_task i (\<lambda>t. t\<lparr>t_stack := 0,
      t_cr3 := mm_kernel_cr3 (mm (s\<lparr>mm := m\<rparr>)), t_user_slot := NO_SLOT, t_user_phys_base := 0\<rparr>) (s\<lparr>mm := m\<rparr>\<lparr>mm := m3\<rparr>))"
    "heap_ok m3" "live m3 = {b \<in> live (mm (s\<lparr>mm := m\<rparr>)). fst b \<notin> owned (mm (s\<lparr>mm := m\<rparr>)) (tasks (s\<lparr>mm := m\<rparr>) ! i)}"
    "kernel_page_directory m3 = kernel_page_directory (mm (s\<lparr>mm := m\<rparr>))"
    "\<forall>(q, j) \<in> live m3. \<forall>x < j. mm_mem m3 (q + x) = mm_mem (mm (s\<lparr>mm := m\<rparr>)) (q + x)"
    by (rule release_resources_ok [OF heap' own'])
  define t where "t = fresh_task (next_pid s) (t_pid (tasks s ! c)) (mm_kernel_cr3 m3) TASK_READY stack
      (stack + STACK_SIZE - 44) (stack + STACK_SIZE) ((tasks s ! i)\<lparr>t_stack := 0, t_cr3 := mm_kernel_cr3 m,
        t_user_slot := NO_SLOT, t_user_phys_base := 0\<rparr>)"
  let ?s' = "s\<lparr>mm := m3, tasks := (tasks s)[i := t], next_pid := next_pid s + 1\<rparr>"
  have fin: "finish_create stack (i, upd_task i (\<lambda>t. t\<lparr>t_stack := 0, t_cr3 := mm_kernel_cr3 (mm (s\<lparr>mm := m\<rparr>)),
      t_user_slot := NO_SLOT, t_user_phys_base := 0\<rparr>) (s\<lparr>mm := m\<rparr>\<lparr>mm := m3\<rparr>)) = (int (next_pid s), ?s')"
    using pid c(1) len ic to_int32_small [OF pid]
    by (simp add: finish_create_def upd_task_def Let_def t_def wrap_simps)
  have so: "owned m (tasks s ! i) = owned (mm s) (tasks s ! i)" using O m(2) by auto
  have sn: "stack \<notin> owned (mm s) (tasks s ! j)" if "j < task_count s" for j
    using owned_live [of "mm s" "tasks s ! j" stack] ok that st by (auto simp: kernel_ok_def)
  have l3: "(stack, k) \<in> live m3" using R(3) m(2) so sn [OF I(1)] by simp
  have sched': "sched_ok ?s'"
    by (rule sched_reuse [OF sched I(1)]) (use I(2) in \<open>simp_all add: t_def\<close>)
  have byt: "mm_mem m3 (q + x) = mm_mem (mm s) (q + x)" if "(q, j) \<in> live (mm s)" "(q, j) \<in> live m3" "x < j" for q j x
  proof -
    have "mm_mem m3 (q + x) = mm_mem m (q + x)" using R(5) that by auto
    also have "\<dots> = mm_mem (mm s) (q + x)" using m(2,3) that unfolding keeps_def by blast
    finally show ?thesis .
  qed
  have k3: "keeps (mm s) (mm ?s')" using m(3) R(4) byt by (auto simp: keeps_def)
  have blk: "{b \<in> live (mm s). fst b \<in> owned (mm s) (tasks s ! j)} \<subseteq> live (mm ?s')"
    if "j < task_count s" "j \<noteq> i" for j
  proof -
    have "owned (mm s) (tasks s ! j) \<inter> owned (mm s) (tasks s ! i) \<subseteq> {0}"
      using ok that I(1) by (simp add: kernel_ok_def)
    then show ?thesis using R(3) so m(2) kheap.live_nonnull [OF heap] by fastforce
  qed
  have "kernel_ok ?s'"
    by (rule kernel_ok_install [OF ok sched' _ k3 _ blk, where i = i and stack = stack])
      (use R(2) len l3 st in \<open>force simp: t_def\<close>)+
  moreover have "new_task_at s ?s' i"
    using len l3 st(1) c(1) by (force simp: new_task_at_def t_def)
  ultimately show ?thesis using R(1) fin by (intro exI [of _ ?s'] exI conjI) auto
qed

lemma create_extend:
  assumes ok: "kernel_ok s" and pid: "next_pid s < 2 ^ 31" and n: "task_count s < MAX_TASKS"
    and m: "heap_ok m" "live m = insert (stack, k) (live (mm s))" "keeps (mm s) m"
    and st: "stack \<notin> fst ` live (mm s)" "stack \<noteq> 0"
  shows "\<exists>s'. finish_create stack (link_new (s\<lparr>mm := m\<rparr>)) = (int (next_pid s), s') \<and> kernel_ok s' \<and>
    task_count s' = task_count s + 1 \<and> new_task_at s s' (task_count s)"
proof -
  let ?n = "task_count s"
  have sched: "sched_ok s" using ok by (simp add: kernel_ok_def)
  obtain c where c: "current_task s = Some c" "c < ?n" using sched by (auto simp: sched_ok_def split: option.splits)
  have R: "length (tasks s) = MAX_TASKS" "0 < ?n" "ready_head s = Some 0" "ready_tail s = Some (?n - 1)"
    using sched by (simp_all add: sched_ok_def tring_ok_def)
  define t where "t = fresh_task (next_pid s) (t_pid (tasks s ! c)) (mm_kernel_cr3 m) TASK_READY stack
      (stack + STACK_SIZE - 44) (stack + STACK_SIZE) ((tasks s ! ?n)\<lparr>t_next := 0\<rparr>)"
  define ts where "ts = (tasks s)[?n - 1 := (tasks s ! (?n - 1))\<lparr>t_next := ?n\<rparr>, ?n := t]"
  let ?s' = "s\<lparr>mm := m, tasks := ts, task_count := ?n + 1, ready_tail := Some ?n, next_pid := next_pid s + 1\<rparr>"
  have swap: "(tasks s)[?n := (tasks s ! ?n)\<lparr>t_next := 0\<rparr>, ?n - 1 := (tasks s ! (?n - 1))\<lparr>t_next := ?n\<rparr>, ?n := t] = ts"
    using R(2) by (simp add: ts_def list_update_swap)
  have nc: "(tasks s)[?n := x, ?n - 1 := (tasks s ! (?n - 1))\<lparr>t_next := ?n\<rparr>] ! ?n = x" for x
    using R(1,2) n by (simp add: nth_list_update)
  have pc: "t_pid ((tasks s)[?n := x, ?n - 1 := (tasks s ! (?n - 1))\<lparr>t_next := ?n\<rparr>] ! c) = t_pid (tasks s ! c)" for x
    using R(1,2) n c(2) by (simp add: nth_list_update)
  have nth: "ts ! j = (if j = ?n then t else if j = ?n - 1 then (tasks s ! j)\<lparr>t_next := ?n\<rparr> else tasks s ! j)" for j
    using R(1,2) n by (auto simp: ts_def nth_list_update)
  have tsn: "t_pid (ts ! ?n) = next_pid s" by (simp add: nth t_def)
  have fin: "finish_create stack (link_new (s\<lparr>mm := m\<rparr>)) = (int (next_pid s), ?s')"
    using pid c R n to_int32_small [OF pid] swap nc pc tsn
    by (simp add: finish_create_def link_new_def upd_task_def Let_def t_def wrap_simps nth_list_update)
  have tf: "t_next t = 0" "t_state t = TASK_READY" "t_stack t = stack" "t_cr3 t = mm_kernel_cr3 m"
    by (simp_all add: t_def)
  have sched': "sched_ok ?s'" unfolding ts_def by (rule sched_extend [OF sched n]) (simp_all add: tf)
  have "kernel_ok ?s'"
    by (rule kernel_ok_install [OF ok sched', where i = ?n and stack = stack])
      (use m st in \<open>auto simp: nth tf\<close>)
  moreover have "new_task_at s ?s' ?n"
    using st(1) c(1) m(2) by (auto simp: new_task_at_def nth t_def)
  ultimately show ?thesis using fin by (intro exI [of _ ?s']) simp
qed

lemma task_create_outcome:
  assumes ok: "kernel_ok s" and pid: "next_pid s < 2 ^ 31"
  shows "\<exists>r s'. task_create entry arg s = Some (r, s') \<and> kernel_ok s' \<and>
    (if kmalloc (mm s) STACK_SIZE = Some (0, mm s) \<or> find_terminated s = None \<and> task_count s = MAX_TASKS
     then r = -1 \<and> tasks s' = tasks s \<and> task_count s' = task_count s \<and> next_pid s' = next_pid s \<and>
       live (mm s') = live (mm s)
     else r = int (next_pid s) \<and>
       (case find_terminated s of
          Some i \<Rightarrow> task_count s' = task_count s \<and> new_task_at s s' i
        | None \<Rightarrow> task_count s' = task_count s + 1 \<and> new_task_at s s' (task_count s)))"
proof -
  have sched: "sched_ok s" and heap: "heap_ok (mm s)" using ok by (simp_all add: kernel_ok_def)
  have le: "task_count s \<le> MAX_TASKS" using sched by (simp add: sched_ok_def tring_ok_def)
  show ?thesis
  proof (cases rule: new_stack [OF heap, where arg = arg and ex = "task_exit_addr s" and entry = entry])
    case 1
    then show ?thesis using ok by (simp add: task_create_def)
  next
    case (2 stack k m1 m')
    note T = task_create_steps [OF 2(1,2,4,9)]
    have m1: "kmalloc (mm s) STACK_SIZE \<noteq> Some (0, mm s)" using 2(1,2) by simp
    show ?thesis
    proof (cases "find_terminated s")
      case (Some i)
      from create_reuse [OF ok pid Some 2(5,6,8,7,2)] T(3) [OF Some] m1 Some show ?thesis by auto
    next
      case None
      show ?thesis
      proof (cases "task_count s = MAX_TASKS")
        case True
        from create_full [OF ok 2(5,6,8,7)] T(1) [OF None] True None show ?thesis by auto
      next
        case False
        then have "task_count s < MAX_TASKS" using le by simp
        from create_extend [OF ok pid this 2(5,6,8,7,2)] T(2) [OF None] this m1 None show ?thesis by auto
      qed
    qed
  qed
qed


text \<open>A small system for the instances: the idle task, the first task, which runs, one of its
  children, which has ended with status 3, and another that is ready.\<close>

definition demo_task :: "nat \<Rightarrow> nat \<Rightarrow> task_state \<Rightarrow> nat \<Rightarrow> task" where
  "demo_task pid ppid st nxt = \<lparr>t_esp = 0, t_esp0 = 0, t_pid = pid, t_ppid = ppid, t_cr3 = 0x200000,
     t_user_slot = NO_SLOT, t_user_phys_base = 0, t_state = st, t_stack = 0, t_next = nxt, t_wake_tick = 0,
     t_exit_status = (if pid = 3 then 3 else 0), t_term_signal = 0, t_tty_path = '''', t_prog_path = '''', t_cmdline = ''''\<rparr>"

definition demo_kernel :: kstate where
  "demo_kernel = \<lparr>mm = heap0, tasks = [demo_task 1 0 TASK_READY 1, demo_task 2 0 TASK_RUNNING 2,
       demo_task 3 2 TASK_TERMINATED 3, demo_task 4 2 TASK_READY 0] @ replicate 12 (demo_task 0 0 TASK_READY 0),
     task_count = 4, next_pid = 5, current_task = Some 1, idle_ptr = Some 0, ready_head = Some 0,
     ready_tail = Some 3, tss_esp0 = 0, cpu_esp = 0x90000, ticks = 0, task_exit_addr = 0x101000,
     idle_task_addr = 0x102000\<rparr>"

lemma heap0_kernel: "mm_kernel_cr3 heap0 = 0x200000"
  by (simp add: heap0_def mm_kernel_cr3_def kmalloc_init_def boot_state_def Let_def)

lemma demo_lt4: "i < (4 :: nat) \<longleftrightarrow> i = 0 \<or> i = 1 \<or> i = 2 \<or> i = 3"
  by auto

lemma demo_kernel_ok: "kernel_ok demo_kernel"
proof -
  have "sched_ok demo_kernel"
    by (auto simp: demo_kernel_def sched_ok_def tring_ok_def demo_lt4 demo_task_def MAX_TASKS_def)
  moreover have "heap_ok (mm demo_kernel)" by (simp add: demo_kernel_def heap0_facts)
  moreover have "owns_ok (mm demo_kernel) (tasks demo_kernel ! i)" "owned (mm demo_kernel) (tasks demo_kernel ! i) = {0}"
    if "i < 4" for i
    using that by (auto simp: demo_lt4 demo_kernel_def owns_ok_def owned_def demo_task_def heap0_kernel)
  moreover have "task_count demo_kernel = 4" by (simp add: demo_kernel_def)
  ultimately show ?thesis by (simp add: kernel_ok_def)
qed

lemma demo_terminated: "find_terminated demo_kernel = Some 2"
  by (simp add: find_terminated_def demo_kernel_def demo_task_def upt_rec)

lemma demo_stack: "kmalloc heap0 STACK_SIZE \<noteq> Some (0, heap0)"
proof -
  have a: "align_size STACK_SIZE = 16384" by (simp add: align_size_eq STACK_SIZE_def)
  have "lalloc (align_size STACK_SIZE) (layout heap0) \<noteq> None" by (simp add: a heap0_facts(2))
  moreover have "0 < STACK_SIZE" "STACK_SIZE < 2 ^ 32" by (simp_all add: STACK_SIZE_def)
  ultimately show ?thesis using kmalloc_outcome [OF heap0_facts(1), of STACK_SIZE] by (auto split: option.splits)
qed


text \<open>C16: with the ring in order, \<open>schedule\<close> switches, without waiting, as soon as some task is ready: to
  the first ready task after the current one in ring order other than the idle task, or to the idle
  task when no other is ready.  The chosen task runs on its own stack and page directory, the old
  one becomes ready if it was still running and keeps its stack pointer, and again exactly the current
  task runs.\<close>

theorem schedule_next_ready:
  assumes ok: "switch_ok s" and c: "current_task s = Some c"
    and ready: "\<exists>i < task_count s. t_state (tasks s ! i) = TASK_READY"
  shows "\<exists>n s'. schedule irqs s = Some s' \<and> choice s c = Some n \<and> sched_ok s' \<and> current_task s' = Some n \<and>
    t_state (tasks s ! n) = TASK_READY \<and> n < task_count s \<and>
    cpu_esp s' = t_esp (tasks s ! n) \<and> tss_esp0 s' = t_esp0 (tasks s ! n) \<and>
    cr3 (mm s') = (if t_cr3 (tasks s ! n) \<noteq> 0 then t_cr3 (tasks s ! n) else mm_kernel_cr3 (mm s)) \<and>
    t_esp (tasks s' ! c) = sub32 (cpu_esp s) 36 \<and>
    t_state (tasks s' ! c) = (if t_state (tasks s ! c) = TASK_RUNNING then TASK_READY else t_state (tasks s ! c))"
proof -
  have cs: "c < task_count s" "tring_ok s" using ok c by (auto simp: switch_ok_def)
  obtain n where n: "choice s c = Some n" using choice_None [OF cs(1)] ready by (cases "choice s c") auto
  note K = switch_keeps_ok [OF ok c n]
  have len: "c < length (tasks s)" "n < length (tasks s)" using cs K(3) by (auto simp: tring_ok_def)
  note F = switch_to_fields [OF K(2) [symmetric] len] and G = switch_to_cpu [OF K(2) [symmetric] len]
  show ?thesis
    using schedule_step [OF ok c, of irqs] n K F G choice_range [OF n cs(1)]
    by (intro exI [of _ n] exI [of _ "switch_to c n s"]) auto
qed

theorem schedule_next_ready_witness:
  "\<exists>s'. schedule [] demo_kernel = Some s' \<and> current_task s' = Some 3 \<and> sched_ok s'"
proof -
  have sw: "switch_ok demo_kernel" using demo_kernel_ok sched_switch_ok by (simp add: kernel_ok_def)
  have ch: "choice demo_kernel 1 = Some 3"
    by (simp add: choice_def turn_order_def demo_kernel_def demo_task_def upt_rec)
  have "current_task demo_kernel = Some 1" "\<exists>i < task_count demo_kernel. t_state (tasks demo_kernel ! i) = TASK_READY"
    by (auto simp: demo_kernel_def demo_task_def intro: exI [of _ 0])
  from schedule_next_ready [OF sw this, of "[]"] ch show ?thesis by auto
qed

text \<open>C6: no ready task starves: if the scheduler is called again and again and nothing else changes the
  task table, a ready task other than the idle task becomes the current one after at most one more
  call than there are slots between the current task and it.\<close>

theorem ready_task_gets_turn:
  assumes "sched_ok s" "current_task s = Some c" "j < task_count s" "t_state (tasks s ! j) = TASK_READY"
    "Some j \<noteq> idle_ptr s"
  shows "\<exists>k s'. k \<le> turns_before c (task_count s) j + 1 \<and> k \<le> task_count s \<and> run_schedule k s = Some s' \<and>
    sched_ok s' \<and> current_task s' = Some j"
proof -
  have "c < task_count s" using assms(1,2) by (auto simp: sched_ok_def)
  then have "turns_before c (task_count s) j + 1 \<le> task_count s"
    using assms(3) by (auto simp: turns_before_def)
  then show ?thesis using run_schedule_reaches [OF assms] by (meson order_trans)
qed

theorem ready_task_gets_turn_witness:
  "\<exists>k s'. k \<le> 4 \<and> run_schedule k demo_kernel = Some s' \<and> current_task s' = Some 3"
proof -
  have "sched_ok demo_kernel" using demo_kernel_ok by (simp add: kernel_ok_def)
  moreover have "current_task demo_kernel = Some 1" "task_count demo_kernel = 4"
    "t_state (tasks demo_kernel ! 3) = TASK_READY" "Some 3 \<noteq> idle_ptr demo_kernel"
    by (simp_all add: demo_kernel_def demo_task_def)
  ultimately show ?thesis using ready_task_gets_turn [of demo_kernel 1 3] by auto
qed

subsection \<open>Waiting\<close>

lemma sched_reap:
  assumes ok: "sched_ok s" and i: "i < task_count s" "t_state (tasks s ! i) \<noteq> TASK_RUNNING"
    and t: "t_next t = t_next (tasks s ! i)" "t_state t \<noteq> TASK_RUNNING"
  shows "sched_ok (s\<lparr>mm := m, tasks := (tasks s)[i := t]\<rparr>)"
  using sched_reuse [OF assms, where m = m and np = "next_pid s"] by simp

text \<open>Reaping a terminated task returns its memory and keeps the state in order.\<close>

lemma reap_ok:
  assumes ok: "kernel_ok s" and i: "i < task_count s" "t_state (tasks s ! i) = TASK_TERMINATED"
  shows "\<exists>s'. reap i s = Some s' \<and> kernel_ok s' \<and> t_pid (tasks s' ! i) = 0 \<and>
    task_count s' = task_count s \<and> current_task s' = current_task s \<and>
    live (mm s') = {b \<in> live (mm s). fst b \<notin> owned (mm s) (tasks s ! i)} \<and>
    (\<forall>j. j \<noteq> i \<longrightarrow> tasks s' ! j = tasks s ! j)"
proof -
  have sched: "sched_ok s" and heap: "heap_ok (mm s)" and own: "owns_ok (mm s) (tasks s ! i)"
    using ok i by (simp_all add: kernel_ok_def)
  have len: "i < length (tasks s)" using sched i(1) by (auto simp: sched_ok_def tring_ok_def)
  obtain m' where R: "task_release_resources i s = Some (upd_task i (\<lambda>t. t\<lparr>t_stack := 0,
      t_cr3 := mm_kernel_cr3 (mm s), t_user_slot := NO_SLOT, t_user_phys_base := 0\<rparr>) (s\<lparr>mm := m'\<rparr>))"
    "heap_ok m'" "live m' = {b \<in> live (mm s). fst b \<notin> owned (mm s) (tasks s ! i)}"
    "kernel_page_directory m' = kernel_page_directory (mm s)"
    "\<forall>(q, j) \<in> live m'. \<forall>x < j. mm_mem m' (q + x) = mm_mem (mm s) (q + x)"
    by (rule release_resources_ok [OF heap own])
  define t where "t = (tasks s ! i)\<lparr>t_stack := 0, t_cr3 := mm_kernel_cr3 (mm s), t_user_slot := NO_SLOT,
      t_user_phys_base := 0, t_pid := 0, t_ppid := 0, t_state := TASK_TERMINATED, t_exit_status := 0,
      t_term_signal := 0, t_tty_path := '''', t_prog_path := '''', t_cmdline := ''''\<rparr>"
  have tf: "t_stack t = 0" "t_cr3 t = mm_kernel_cr3 (mm s)" "t_pid t = 0" "t_state t = TASK_TERMINATED"
    "t_next t = t_next (tasks s ! i)" by (simp_all add: t_def)
  let ?s' = "s\<lparr>mm := m', tasks := (tasks s)[i := t]\<rparr>"
  have re: "reap i s = Some ?s'" using R(1) len by (simp add: reap_def upd_task_def t_def)
  have nth: "tasks ?s' ! j = (if j = i then t else tasks s ! j)" for j using len by (simp add: nth_list_update)
  have sched': "sched_ok ?s'" by (rule sched_reap [OF sched i(1)]) (use i(2) in \<open>simp_all add: tf\<close>)
  have k: "keeps (mm s) m'" using R(4,5) by (auto simp: keeps_def)
  have ker: "mm_kernel_cr3 m' = mm_kernel_cr3 (mm s)" using R(4) by (simp add: mm_kernel_cr3_def)
  have old: "owns_ok m' (tasks s ! j) \<and> owned m' (tasks s ! j) = owned (mm s) (tasks s ! j)"
    if "j < task_count s" "j \<noteq> i" for j
  proof -
    have "owned (mm s) (tasks s ! j) \<inter> owned (mm s) (tasks s ! i) \<subseteq> {0}"
      using ok that i(1) by (simp add: kernel_ok_def)
    then have "{b \<in> live (mm s). fst b \<in> owned (mm s) (tasks s ! j)} \<subseteq> live m'"
      using R(3) kheap.live_nonnull [OF heap] by fastforce
    moreover have "owns_ok (mm s) (tasks s ! j)" using ok that by (simp add: kernel_ok_def)
    ultimately show ?thesis using owned_keeps [OF k] by blast
  qed
  have newi: "owns_ok m' t" "owned m' t = {0}" using tf ker by (auto simp: owns_ok_def owned_def)
  have apart: "owned (mm s) (tasks s ! a) \<inter> owned (mm s) (tasks s ! b) \<subseteq> {0}"
    if "a < task_count s" "b < task_count s" "a \<noteq> b" for a b using ok that by (simp add: kernel_ok_def)
  have "owned (mm ?s') (tasks ?s' ! a) \<inter> owned (mm ?s') (tasks ?s' ! b) \<subseteq> {0}"
    if "a < task_count s" "b < task_count s" "a \<noteq> b" for a b
    using apart [OF that] old [of a] old [of b] that newi unfolding nth by (cases "a = i"; cases "b = i") auto
  moreover have "owns_ok (mm ?s') (tasks ?s' ! j)" if "j < task_count s" for j
    using old [OF that] newi(1) unfolding nth by (cases "j = i") auto
  ultimately have "kernel_ok ?s'" using sched' R(2) by (simp add: kernel_ok_def)
  then show ?thesis using re R(3) nth tf(3) by (intro exI [of _ ?s']) (simp only: kstate.simps, simp)
qed

text \<open>\<open>task_waitpid\<close> without waiting.  When the current task has terminated children that match, the
  call returns the process id of the first one in the table and its status word (the signal in the
  low seven bits, or the low byte of the exit status in bits 8 to 15), gives back its memory and
  clears its slot, and keeps the state in order; with no matching child it returns -1; with matching
  children that all live and the no-hang option it returns 0.\<close>

theorem task_waitpid_correct:
  assumes ok: "kernel_ok s" and c: "current_task s = Some c"
    and pids: "\<And>i. i < task_count s \<Longrightarrow> t_pid (tasks s ! i) < 2 ^ 31"
    and nohang: "odd options"
  shows "case find (\<lambda>i. is_child s c pid i \<and> t_state (tasks s ! i) = TASK_TERMINATED) [0..<task_count s] of
      Some i \<Rightarrow> \<exists>s'. task_waitpid envs pid options s =
          Some (int (t_pid (tasks s ! i)),
                Some (if t_term_signal (tasks s ! i) \<noteq> 0 then int (t_term_signal (tasks s ! i) mod 128)
                      else (t_exit_status (tasks s ! i) mod 256) * 256), s') \<and>
          kernel_ok s' \<and> t_pid (tasks s' ! i) = 0 \<and>
          live (mm s') = {b \<in> live (mm s). fst b \<notin> owned (mm s) (tasks s ! i)} \<and>
          (\<forall>j. j \<noteq> i \<longrightarrow> tasks s' ! j = tasks s ! j)
    | None \<Rightarrow> task_waitpid envs pid options s =
        Some (if \<exists>i < task_count s. is_child s c pid i then 0 else -1, None, s)"
proof (cases "find (\<lambda>i. is_child s c pid i \<and> t_state (tasks s ! i) = TASK_TERMINATED) [0..<task_count s]")
  case None
  then show ?thesis using c nohang by (subst task_waitpid.simps) auto
next
  case (Some i)
  from find_mem [OF Some] have i: "i < task_count s" "t_state (tasks s ! i) = TASK_TERMINATED" by auto
  from reap_ok [OF ok i] obtain s' where s': "reap i s = Some s'" "kernel_ok s'" "t_pid (tasks s' ! i) = 0"
    "live (mm s') = {b \<in> live (mm s). fst b \<notin> owned (mm s) (tasks s ! i)}"
    "\<forall>j. j \<noteq> i \<longrightarrow> tasks s' ! j = tasks s ! j" by blast
  have "task_waitpid envs pid options s = Some (int (t_pid (tasks s ! i)), Some (wait_status (tasks s ! i)), s')"
    using Some c s'(1) to_int32_small [OF pids [OF i(1)]] by (subst task_waitpid.simps) simp
  with Some s' show ?thesis by (auto simp: wait_status_def)
qed

theorem task_waitpid_correct_witness:
  "\<exists>s'. task_waitpid [] (-1) 1 demo_kernel = Some (3, Some 768, s') \<and> kernel_ok s' \<and> t_pid (tasks s' ! 2) = 0"
proof -
  have c: "current_task demo_kernel = Some 1" by (simp add: demo_kernel_def)
  have f: "find (\<lambda>i. is_child demo_kernel 1 (-1) i \<and> t_state (tasks demo_kernel ! i) = TASK_TERMINATED)
      [0..<task_count demo_kernel] = Some 2"
    by (simp add: demo_kernel_def is_child_def demo_task_def upt_rec)
  have p: "t_pid (tasks demo_kernel ! i) < 2 ^ 31" if "i < task_count demo_kernel" for i
    using that by (auto simp: demo_kernel_def demo_lt4 demo_task_def)
  have t: "t_pid (tasks demo_kernel ! 2) = 3" "t_term_signal (tasks demo_kernel ! 2) = 0"
    "t_exit_status (tasks demo_kernel ! 2) = 3" by (simp_all add: demo_kernel_def demo_task_def)
  show ?thesis
    using task_waitpid_correct [OF demo_kernel_ok c p, where options = 1 and pid = "-1" and envs = "[]"] unfolding f by (auto simp: t)
qed

text \<open>\<open>task_create\<close> takes the slot of a terminated task even when its parent has not waited for it:
  the terminated task can then no longer be found, so its exit status is lost.\<close>

theorem task_create_discards_exit_status:
  assumes "kernel_ok s" "next_pid s < 2 ^ 31" "find_terminated s = Some i"
    "kmalloc (mm s) STACK_SIZE \<noteq> Some (0, mm s)" "t_pid (tasks s ! i) < next_pid s"
    "\<And>j. j < task_count s \<Longrightarrow> j \<noteq> i \<Longrightarrow> t_pid (tasks s ! j) \<noteq> t_pid (tasks s ! i)"
  shows "\<exists>r s'. task_create entry arg s = Some (r, s') \<and>
    task_find_by_pid (t_pid (tasks s ! i)) s = Some i \<and> task_find_by_pid (t_pid (tasks s ! i)) s' = None"
proof -
  let ?p = "t_pid (tasks s ! i)"
  from task_create_outcome [OF assms(1,2), of entry arg] assms(3,4) obtain r s' where
    s': "task_create entry arg s = Some (r, s')" "task_count s' = task_count s" "new_task_at s s' i" by auto
  have "t_pid (tasks s' ! j) \<noteq> ?p" if "j < task_count s" for j
  proof (cases "j = i")
    case True
    then show ?thesis using s'(3) assms(5) by (simp add: new_task_at_def Let_def)
  next
    case False
    then have "(tasks s' ! j)\<lparr>t_next := 0\<rparr> = (tasks s ! j)\<lparr>t_next := 0\<rparr>"
      using s'(3) that by (simp add: new_task_at_def Let_def)
    then have "t_pid (tasks s' ! j) = t_pid (tasks s ! j)" by (metis task.ext_inject task.surjective task.update_convs(10))
    with assms(6) [OF that False] show ?thesis by simp
  qed
  then have "task_find_by_pid ?p s' = None" using s'(2) by (auto simp: task_find_by_pid_def find_None_iff)
  moreover have "task_find_by_pid ?p s = Some i"
  proof (cases "task_find_by_pid ?p s")
    case None
    then show ?thesis using find_terminated_Some(1) [OF assms(3)] by (auto simp: task_find_by_pid_def find_None_iff)
  next
    case (Some j)
    with find_mem [OF Some [unfolded task_find_by_pid_def]] assms(6) [of j] show ?thesis by auto
  qed
  ultimately show ?thesis using s'(1) by blast
qed

theorem task_create_discards_exit_status_witness:
  "\<exists>r s'. task_create 0x103000 0 demo_kernel = Some (r, s') \<and> task_find_by_pid 3 s' = None"
proof -
  have f: "next_pid demo_kernel = 5" "mm demo_kernel = heap0" "t_pid (tasks demo_kernel ! 2) = 3"
    by (simp_all add: demo_kernel_def demo_task_def)
  have "t_pid (tasks demo_kernel ! j) \<noteq> t_pid (tasks demo_kernel ! 2)" if "j < task_count demo_kernel" "j \<noteq> 2" for j
    using that by (auto simp: demo_kernel_def demo_lt4 demo_task_def)
  from task_create_discards_exit_status [OF demo_kernel_ok _ demo_terminated _ _ this, of "0x103000" 0] f demo_stack
  show ?thesis by auto
qed

end
