(* ===== verification/Ring.thy ===== *)
theory Ring
  imports Prelude
begin

section \<open>Ring buffers\<close>

text \<open>
  The pseudo terminals, the mouse and the keyboard of the kernel each keep their input in a ring
  buffer: an array, a head, a tail and a count.  This theory has the facts they share and the
  contracts of such queues as locales: \<open>fifo_queue\<close> for taking elements, \<open>bounded_queue\<close> for a queue
  that forgets its oldest element when it is full, \<open>dropping_queue\<close> for one that drops the new
  one; and what follows from the contracts alone.  Each driver interprets them on its own operations.
\<close>

text \<open>The contents of a ring, oldest first, and the relation of its indices.\<close>

definition ring_list :: "'a list \<Rightarrow> nat \<Rightarrow> nat \<Rightarrow> 'a list" where
  "ring_list data h c = map (\<lambda>i. data ! ((h + i) mod length data)) [0..<c]"

definition ring_ok :: "nat \<Rightarrow> 'a list \<Rightarrow> nat \<Rightarrow> nat \<Rightarrow> nat \<Rightarrow> bool" where
  "ring_ok N data h t c \<longleftrightarrow> length data = N \<and> h < N \<and> c \<le> N \<and> t = (h + c) mod N"

lemma ring_list_length [simp]: "length (ring_list data h c) = c"
  by (simp add: ring_list_def)

lemma ring_list_0 [simp]: "ring_list data h 0 = []"
  by (simp add: ring_list_def)

lemma ring_take:
  assumes "0 < c" "ring_ok N data h t c"
  shows "ring_list data h c = data ! h # ring_list data ((h + 1) mod N) (c - 1)"
    "ring_ok N data ((h + 1) mod N) t (c - 1)"
proof -
  have len: "length data = N" "h < N" and t: "t = (h + c) mod N" using assms by (auto simp: ring_ok_def)
  obtain k where c: "c = Suc k" using assms(1) by (cases c) auto
  have "(h + Suc i) mod N = ((h + 1) mod N + i) mod N" for i by (simp add: mod_simps)
  then show "ring_list data h c = data ! h # ring_list data ((h + 1) mod N) (c - 1)"
    using len by (simp add: ring_list_def c map_upt_Suc del: upt_Suc)
  show "ring_ok N data ((h + 1) mod N) t (c - 1)"
    using assms(2) len c by (auto simp: ring_ok_def mod_simps)
qed

lemma ring_put:
  assumes "c < N" "ring_ok N data h t c"
  shows "ring_list (data[t := x]) h (c + 1) = ring_list data h c @ [x]"
    "ring_ok N (data[t := x]) h ((t + 1) mod N) (c + 1)"
proof -
  have len: "length data = N" "h < N" and t: "t = (h + c) mod N" using assms by (auto simp: ring_ok_def)
  have tN: "t < N" using t len by simp
  have ne: "(h + i) mod N \<noteq> t" if "i < c" for i
  proof
    assume "(h + i) mod N = t"
    then have "(h + i) mod N = (h + c) mod N" using t by simp
    then have "N dvd (h + c) - (h + i)" using that by (metis add_le_cancel_left less_imp_le mod_eq_dvd_iff_nat)
    then have "N dvd c - i" by simp
    then have "N \<le> c - i" using that by (intro dvd_imp_le) auto
    with assms(1) that show False by simp
  qed
  have "map (\<lambda>i. data[t := x] ! ((h + i) mod N)) [0..<c] = map (\<lambda>i. data ! ((h + i) mod N)) [0..<c]"
    using ne by (intro map_cong refl) (metis atLeastLessThan_iff nth_list_update_neq set_upt)
  then show "ring_list (data[t := x]) h (c + 1) = ring_list data h c @ [x]"
    using len t tN by (simp add: ring_list_def)
  show "ring_ok N (data[t := x]) h ((t + 1) mod N) (c + 1)"
    using assms t len by (simp add: ring_ok_def mod_simps)
qed

text \<open>The last \<open>n\<close> elements of a list: what a full ring keeps.\<close>

definition last_n :: "nat \<Rightarrow> 'a list \<Rightarrow> 'a list" where
  "last_n n xs = drop (length xs - n) xs"

lemma last_n_all: "length xs \<le> n \<Longrightarrow> last_n n xs = xs"
  by (simp add: last_n_def)

lemma last_n_length: "length (last_n n xs) = min n (length xs)"
  by (simp add: last_n_def)

lemma last_n_append: "last_n n (last_n n xs @ ys) = last_n n (xs @ ys)"
proof (cases "length xs \<le> n")
  case False
  then have "length xs - n + n = length xs" by simp
  with False show ?thesis by (auto simp: last_n_def min_def add.commute)
qed (simp add: last_n_all)

lemma take_append_take: "take n (take n xs @ ys) = take n (xs @ ys)"
  by (cases "length xs \<le> n") simp_all

locale fifo_queue =
  fixes inv :: "'s \<Rightarrow> bool" and contents :: "'s \<Rightarrow> 'a list" and cap :: nat and pop :: "'s \<Rightarrow> ('a \<times> 's) option"
  assumes bounded: "inv s \<Longrightarrow> length (contents s) \<le> cap"
    and pop_empty: "inv s \<Longrightarrow> contents s = [] \<Longrightarrow> pop s = None"
    and pop_cons: "inv s \<Longrightarrow> contents s = x # xs \<Longrightarrow> \<exists>s'. pop s = Some (x, s') \<and> inv s' \<and> contents s' = xs"
begin

text \<open>Taking up to \<open>k\<close> elements.\<close>

fun pops :: "nat \<Rightarrow> 's \<Rightarrow> 'a list \<times> 's" where
  "pops 0 s = ([], s)"
| "pops (Suc k) s = (case pop s of None \<Rightarrow> ([], s) | Some (x, s') \<Rightarrow> (let (xs, s'') = pops k s' in (x # xs, s'')))"

lemma pops_take:
  "inv s \<Longrightarrow> \<exists>s'. pops k s = (take k (contents s), s') \<and> inv s' \<and> contents s' = drop k (contents s)"
proof (induction k arbitrary: s)
  case (Suc k)
  show ?case
  proof (cases "contents s")
    case Nil
    then show ?thesis using pop_empty [OF Suc.prems] Suc.prems by simp
  next
    case (Cons x xs)
    from pop_cons [OF Suc.prems Cons] obtain s1 where "pop s = Some (x, s1)" "inv s1" "contents s1 = xs" by blast
    with Suc.IH [of s1] Cons show ?thesis by auto
  qed
qed simp

end

locale bounded_queue = fifo_queue +
  fixes push :: "'b \<Rightarrow> 'a \<Rightarrow> 'a"
  assumes push_inv: "inv s \<Longrightarrow> inv (push x s)"
    and push_contents: "inv s \<Longrightarrow> contents (push x s) = last_n cap (contents s @ [x])"
begin

lemma fold_push:
  "inv s \<Longrightarrow> inv (fold push xs s) \<and> contents (fold push xs s) = last_n cap (contents s @ xs)"
proof (induction xs arbitrary: s)
  case Nil
  then show ?case using bounded by (simp add: last_n_all)
next
  case (Cons x xs)
  then show ?case using push_inv push_contents by (simp add: last_n_append)
qed

text \<open>What is pushed onto a queue with room comes out again in order, after what was there.\<close>

lemma fifo:
  assumes "inv s" "length (contents s) + length xs \<le> cap"
  shows "\<exists>s'. pops (length (contents s) + length xs) (fold push xs s) = (contents s @ xs, s') \<and> inv s' \<and> contents s' = []"
proof -
  have "inv (fold push xs s)" "contents (fold push xs s) = contents s @ xs"
    using fold_push [OF assms(1), of xs] assms(2) by (simp_all add: last_n_all)
  then show ?thesis using pops_take [of "fold push xs s" "length (contents s) + length xs"] by simp
qed

end

locale dropping_queue = fifo_queue +
  fixes put :: "'b \<Rightarrow> 'a \<Rightarrow> 'a"
  assumes put_inv: "inv s \<Longrightarrow> inv (put x s)"
    and put_contents: "inv s \<Longrightarrow> contents (put x s) = take cap (contents s @ [x])"
begin

lemma fold_put:
  "inv s \<Longrightarrow> inv (fold put xs s) \<and> contents (fold put xs s) = take cap (contents s @ xs)"
proof (induction xs arbitrary: s)
  case Nil
  then show ?case using bounded by simp
next
  case (Cons x xs)
  then show ?case using put_inv put_contents by (simp add: take_append_take del: take_append)
qed

end

end
