(* ===== verification/Pty.thy ===== *)
theory Pty
  imports Ring
begin

section \<open>Pseudo terminals\<close>

text \<open>
  Model of \<^verbatim>\<open>src/kernel/drivers/pty.c\<close>: four pairs of a master and a slave side with a ring of 4096
  bytes in each direction.  A device context points to a pair by its index.  A null pointer argument
  is \<open>None\<close>.  Where a reader waits for data the model takes the list of what happens to the pairs
  between its wake-ups.
\<close>

definition PTY_PAIR_COUNT :: nat where "PTY_PAIR_COUNT = 4"
definition PTY_RING_SIZE :: nat where "PTY_RING_SIZE = 4096"

definition DEV_IOCTL_PTY_ALLOC :: nat where "DEV_IOCTL_PTY_ALLOC = 0x1900"
definition DEV_IOCTL_PTY_FREE :: nat where "DEV_IOCTL_PTY_FREE = 0x1901"
definition DEV_IOCTL_PTY_RESET :: nat where "DEV_IOCTL_PTY_RESET = 0x1902"
definition DEV_IOCTL_PTY_GET_READABLE :: nat where "DEV_IOCTL_PTY_GET_READABLE = 0x1903"

record pty_ring =
  r_data :: "byte list"
  r_head :: nat
  r_tail :: nat
  r_count :: nat

record pty_pair =
  allocated :: bool
  master_to_slave :: pty_ring
  slave_to_master :: pty_ring

record pty_dev_ctx =
  c_pair :: nat
  c_is_master :: bool
  c_index :: nat

record pty_state =
  g_pairs :: "pty_pair list"
  g_master_ctx :: "pty_dev_ctx list"
  g_slave_ctx :: "pty_dev_ctx list"

definition ring_reset :: "pty_ring \<Rightarrow> pty_ring" where
  "ring_reset r = r\<lparr>r_head := 0, r_tail := 0, r_count := 0\<rparr>"

definition pair_reset :: "pty_pair \<Rightarrow> pty_pair" where
  "pair_reset p = p\<lparr>master_to_slave := ring_reset (master_to_slave p),
                    slave_to_master := ring_reset (slave_to_master p)\<rparr>"

text \<open>One round of the loop of \<^verbatim>\<open>ring_push\<close>: a full ring loses its oldest byte.\<close>

definition push_byte :: "byte \<Rightarrow> pty_ring \<Rightarrow> pty_ring" where
  "push_byte b r =
     (let r1 = (if r_count r \<ge> PTY_RING_SIZE
                then r\<lparr>r_head := (r_head r + 1) mod PTY_RING_SIZE, r_count := r_count r - 1\<rparr> else r)
      in r1\<lparr>r_data := (r_data r1)[r_tail r1 := b], r_tail := (r_tail r1 + 1) mod PTY_RING_SIZE,
            r_count := r_count r1 + 1\<rparr>)"

fun ring_push :: "pty_ring \<Rightarrow> byte list \<Rightarrow> pty_ring" where
  "ring_push r [] = r"
| "ring_push r (b # bs) = ring_push (push_byte b r) bs"

definition pop_byte :: "pty_ring \<Rightarrow> (byte \<times> pty_ring) option" where
  "pop_byte r = (if r_count r > 0
     then Some (r_data r ! r_head r, r\<lparr>r_head := (r_head r + 1) mod PTY_RING_SIZE, r_count := r_count r - 1\<rparr>)
     else None)"

text \<open>\<^verbatim>\<open>ring_pop\<close>: the bytes stored into the buffer and the ring.\<close>

fun ring_pop :: "pty_ring \<Rightarrow> nat \<Rightarrow> byte list \<times> pty_ring" where
  "ring_pop r 0 = ([], r)"
| "ring_pop r (Suc n) = (case pop_byte r of
      None \<Rightarrow> ([], r)
    | Some (b, r') \<Rightarrow> (let (bs, r'') = ring_pop r' n in (b # bs, r'')))"

definition upd_pair :: "nat \<Rightarrow> (pty_pair \<Rightarrow> pty_pair) \<Rightarrow> pty_state \<Rightarrow> pty_state" where
  "upd_pair i f s = s\<lparr>g_pairs := (g_pairs s)[i := f (g_pairs s ! i)]\<rparr>"

definition source_ring :: "pty_dev_ctx \<Rightarrow> pty_state \<Rightarrow> pty_ring" where
  "source_ring d s = (if c_is_master d then slave_to_master (g_pairs s ! c_pair d)
                      else master_to_slave (g_pairs s ! c_pair d))"

definition put_source :: "pty_dev_ctx \<Rightarrow> pty_ring \<Rightarrow> pty_state \<Rightarrow> pty_state" where
  "put_source d r = upd_pair (c_pair d) (\<lambda>p. if c_is_master d then p\<lparr>slave_to_master := r\<rparr> else p\<lparr>master_to_slave := r\<rparr>)"

fun read_loop :: "(pty_state \<Rightarrow> pty_state) list \<Rightarrow> pty_dev_ctx \<Rightarrow> nat \<Rightarrow> pty_state \<Rightarrow> (int \<times> byte list \<times> pty_state) option" where
  "read_loop envs d sz s =
     (let (bs, r) = ring_pop (source_ring d s) sz in
      if bs \<noteq> [] then Some (int (length bs), bs, put_source d r s)
      else if \<not> allocated (g_pairs s ! c_pair d) then Some (0, [], s)
      else case envs of [] \<Rightarrow> None | f # fs \<Rightarrow> read_loop fs d sz (f s))"

declare read_loop.simps [simp del]

text \<open>The result of \<^verbatim>\<open>pty_read\<close> is the return value, the bytes stored and the state; \<open>buf\<close> says whether
  the caller passed a buffer.  The size is a \<^verbatim>\<open>size_t\<close>.\<close>

definition pty_read :: "(pty_state \<Rightarrow> pty_state) list \<Rightarrow> pty_dev_ctx option \<Rightarrow> bool \<Rightarrow> nat \<Rightarrow> pty_state \<Rightarrow>
    (int \<times> byte list \<times> pty_state) option" where
  "pty_read envs ctx buf sz s = (case ctx of
      None \<Rightarrow> Some (-1, [], s)
    | Some d \<Rightarrow>
        if \<not> buf \<or> sz = 0 then Some (-1, [], s)
        else if \<not> allocated (g_pairs s ! c_pair d) then Some (-1, [], s)
        else read_loop envs d sz s)"

definition pty_write :: "pty_dev_ctx option \<Rightarrow> byte list option \<Rightarrow> pty_state \<Rightarrow> int \<times> pty_state" where
  "pty_write ctx buf s = (case (ctx, buf) of
      (Some d, Some bs) \<Rightarrow>
        if \<not> allocated (g_pairs s ! c_pair d) then (-1, s)
        else if bs = [] then (0, s)
        else (int (length bs),
          upd_pair (c_pair d) (\<lambda>p. if c_is_master d
            then p\<lparr>master_to_slave := ring_push (master_to_slave p) bs\<rparr>
            else p\<lparr>slave_to_master := ring_push (slave_to_master p) bs\<rparr>) s)
    | _ \<Rightarrow> (-1, s))"

definition build_pair_paths :: "nat \<Rightarrow> string \<times> string" where
  "build_pair_paths idx =
     (''/dev/pty/'' @ [char_of (48 + idx mod 10)], ''/dev/pts/'' @ [char_of (48 + idx mod 10)])"

text \<open>The control calls; the third component is what is stored through the argument pointer.\<close>

definition pty_dev_ioctl :: "pty_dev_ctx option \<Rightarrow> nat \<Rightarrow> bool \<Rightarrow> pty_state \<Rightarrow> int \<times> nat option \<times> pty_state" where
  "pty_dev_ioctl ctx request arg s = (case ctx of
      None \<Rightarrow> (-1, None, s)
    | Some d \<Rightarrow>
        if request = DEV_IOCTL_PTY_GET_READABLE
        then if \<not> arg then (-1, None, s)
             else if \<not> allocated (g_pairs s ! c_pair d) then (0, Some 0, s)
             else (0, Some (r_count (source_ring d s)), s)
        else if request = DEV_IOCTL_PTY_RESET
        then if \<not> allocated (g_pairs s ! c_pair d) then (-1, None, s)
             else (0, None, upd_pair (c_pair d) pair_reset s)
        else (-1, None, s))"

datatype ptmx_arg = Alloc_out | Index_in nat

text \<open>\<^verbatim>\<open>ptmx_ioctl\<close>; the result of an allocation is the index and the two paths.\<close>

definition ptmx_ioctl :: "nat \<Rightarrow> ptmx_arg option \<Rightarrow> pty_state \<Rightarrow> int \<times> (nat \<times> string \<times> string) option \<times> pty_state" where
  "ptmx_ioctl request arg s =
     (if request = DEV_IOCTL_PTY_ALLOC
      then (case arg of
          Some Alloc_out \<Rightarrow>
            (case find (\<lambda>i. \<not> allocated (g_pairs s ! i)) [0..<PTY_PAIR_COUNT] of
               Some i \<Rightarrow> (0, Some (i, build_pair_paths i), upd_pair i (\<lambda>p. pair_reset (p\<lparr>allocated := True\<rparr>)) s)
             | None \<Rightarrow> (-1, None, s))
        | _ \<Rightarrow> (-1, None, s))
      else if request = DEV_IOCTL_PTY_FREE
      then (case arg of
          Some (Index_in idx) \<Rightarrow>
            if idx \<ge> PTY_PAIR_COUNT then (-1, None, s)
            else (0, None, upd_pair idx (\<lambda>p. pair_reset (p\<lparr>allocated := False\<rparr>)) s)
        | _ \<Rightarrow> (-1, None, s))
      else (-1, None, s))"

subsection \<open>The rings as queues\<close>

definition pring_ok :: "pty_ring \<Rightarrow> bool" where
  "pring_ok r \<longleftrightarrow> ring_ok PTY_RING_SIZE (r_data r) (r_head r) (r_tail r) (r_count r)"

definition pring_list :: "pty_ring \<Rightarrow> byte list" where
  "pring_list r = ring_list (r_data r) (r_head r) (r_count r)"

lemma push_byte_room:
  assumes "pring_ok r" "r_count r < PTY_RING_SIZE"
  shows "pring_ok (push_byte b r)" "pring_list (push_byte b r) = pring_list r @ [b]"
  using ring_put [OF assms(2) assms(1) [unfolded pring_ok_def]] assms(2)
  by (simp_all add: push_byte_def pring_ok_def pring_list_def Let_def)

lemma push_byte_full:
  assumes ok: "pring_ok r" and full: "\<not> r_count r < PTY_RING_SIZE"
  shows "pring_ok (push_byte b r)" "pring_list (push_byte b r) = tl (pring_list r) @ [b]"
proof -
  let ?N = PTY_RING_SIZE
  let ?r = "r\<lparr>r_head := (r_head r + 1) mod ?N, r_count := r_count r - 1\<rparr>"
  have c: "r_count r = ?N" "0 < ?N" using ok full by (auto simp: pring_ok_def ring_ok_def PTY_RING_SIZE_def)
  note T = ring_take [of "r_count r", OF _ ok [unfolded pring_ok_def]]
  have ok': "pring_ok ?r" and room: "r_count ?r < ?N" using T(2) c by (simp_all add: pring_ok_def)
  have eq: "push_byte b r = push_byte b ?r" using c by (simp add: push_byte_def)
  have "pring_list ?r = tl (pring_list r)" using T(1) c by (simp add: pring_list_def)
  with push_byte_room [OF ok' room, of b]
  show "pring_ok (push_byte b r)" "pring_list (push_byte b r) = tl (pring_list r) @ [b]" by (simp_all add: eq)
qed

lemma pring_length [simp]: "length (pring_list r) = r_count r"
  by (simp add: pring_list_def)

interpretation pring: bounded_queue pring_ok pring_list PTY_RING_SIZE pop_byte push_byte
proof unfold_locales
  fix r x assume ok: "pring_ok r"
  then show "length (pring_list r) \<le> PTY_RING_SIZE" by (simp add: pring_ok_def ring_ok_def)
  show "pring_ok (push_byte x r)" using push_byte_room(1) push_byte_full(1) ok by blast
  show "pring_list (push_byte x r) = last_n PTY_RING_SIZE (pring_list r @ [x])"
  proof (cases "r_count r < PTY_RING_SIZE")
    case True
    then show ?thesis using push_byte_room(2) [OF ok True] by (simp add: last_n_all)
  next
    case False
    then have "r_count r = PTY_RING_SIZE" using ok by (simp add: pring_ok_def ring_ok_def)
    then show ?thesis using push_byte_full(2) [OF ok False, of x]
      by (cases "pring_list r") (auto simp: last_n_def PTY_RING_SIZE_def dest: arg_cong [where f = length])
  qed
next
  fix r assume "pring_ok r" "pring_list r = []"
  then have "r_count r = 0" by (metis list.size(3) pring_length)
  then show "pop_byte r = None" by (simp add: pop_byte_def)
next
  fix r x xs assume ok: "pring_ok r" and c: "pring_list r = x # xs"
  then have pos: "0 < r_count r" by (metis length_greater_0_conv list.discI pring_length)
  note T = ring_take [OF pos ok [unfolded pring_ok_def]]
  show "\<exists>r'. pop_byte r = Some (x, r') \<and> pring_ok r' \<and> pring_list r' = xs"
    using T pos c by (simp add: pop_byte_def pring_ok_def pring_list_def)
qed

lemma ring_push_fold: "ring_push r bs = fold push_byte bs r"
  by (induction bs arbitrary: r) auto

lemma ring_pop_pops: "ring_pop r n = pring.pops n r"
  by (induction n arbitrary: r) (auto split: option.splits)

subsection \<open>Properties\<close>

definition pty_ok :: "pty_state \<Rightarrow> bool" where
  "pty_ok s \<longleftrightarrow> length (g_pairs s) = PTY_PAIR_COUNT \<and>
     (\<forall>p \<in> set (g_pairs s). pring_ok (master_to_slave p) \<and> pring_ok (slave_to_master p))"

lemma pty_ok_source: "pty_ok s \<Longrightarrow> c_pair d < PTY_PAIR_COUNT \<Longrightarrow> pring_ok (source_ring d s)"
  by (simp add: pty_ok_def source_ring_def)

lemma upd_pair_ok:
  assumes "pty_ok s" "\<And>p. pring_ok (master_to_slave p) \<Longrightarrow> pring_ok (slave_to_master p) \<Longrightarrow>
      pring_ok (master_to_slave (f p)) \<and> pring_ok (slave_to_master (f p))"
  shows "pty_ok (upd_pair i f s)"
proof (cases "i < length (g_pairs s)")
  case True
  then show ?thesis using assms by (auto simp: pty_ok_def upd_pair_def dest!: subsetD [OF set_update_subset_insert])
next
  case False
  then have "(g_pairs s)[i := f (g_pairs s ! i)] = g_pairs s" by (simp add: list_update_beyond not_less)
  with assms(1) show ?thesis by (simp add: pty_ok_def upd_pair_def)
qed

lemma pring_reset: "pring_ok r \<Longrightarrow> pring_ok (ring_reset r) \<and> pring_list (ring_reset r) = []"
  by (auto simp: pring_ok_def ring_ok_def ring_reset_def pring_list_def)

lemma reset_pair_ok: "pty_ok s \<Longrightarrow> pty_ok (upd_pair i (\<lambda>p. pair_reset (p\<lparr>allocated := b\<rparr>)) s)"
  "pty_ok s \<Longrightarrow> pty_ok (upd_pair i pair_reset s)"
  by (rule upd_pair_ok; simp add: pair_reset_def pring_reset)+

text \<open>The operations a client can call, as steps of one transition system.\<close>

inductive pty_step :: "pty_state \<Rightarrow> pty_state \<Rightarrow> bool" where
  step_write: "pty_write ctx buf s = (r, s') \<Longrightarrow> pty_step s s'"
| step_read: "ctx = None \<or> c_pair (the ctx) < PTY_PAIR_COUNT \<Longrightarrow>
    pty_read [] ctx buf n s = Some (r, bs, s') \<Longrightarrow> pty_step s s'"
| step_dev: "pty_dev_ioctl ctx req arg s = (r, out, s') \<Longrightarrow> pty_step s s'"
| step_ptmx: "ptmx_ioctl req parg s = (r, pout, s') \<Longrightarrow> pty_step s s'"

lemma ring_push_ok: "pring_ok r \<Longrightarrow> pring_ok (ring_push r bs) \<and>
    pring_list (ring_push r bs) = last_n PTY_RING_SIZE (pring_list r @ bs)"
  unfolding ring_push_fold by (rule pring.fold_push)

lemma ring_pop_ok: "pring_ok r \<Longrightarrow>
    \<exists>r'. ring_pop r n = (take n (pring_list r), r') \<and> pring_ok r' \<and> pring_list r' = drop n (pring_list r)"
  unfolding ring_pop_pops by (rule pring.pops_take)

lemma put_source_ok: "pty_ok s \<Longrightarrow> pring_ok r \<Longrightarrow> pty_ok (put_source d r s)"
  unfolding put_source_def by (rule upd_pair_ok) auto

lemma read_loop_once:
  assumes ok: "pty_ok s" and d: "c_pair d < PTY_PAIR_COUNT"
  shows "\<exists>r'. pring_ok r' \<and> pring_list r' = drop n (pring_list (source_ring d s)) \<and>
    read_loop envs d n s = (let q = take n (pring_list (source_ring d s)) in
      if q \<noteq> [] then Some (int (length q), q, put_source d r' s)
      else if \<not> allocated (g_pairs s ! c_pair d) then Some (0, [], s)
      else case envs of [] \<Rightarrow> None | f # fs \<Rightarrow> read_loop fs d n (f s))"
proof -
  from ring_pop_ok [OF pty_ok_source [OF ok d], of n] obtain r' where
    "ring_pop (source_ring d s) n = (take n (pring_list (source_ring d s)), r')" "pring_ok r'"
    "pring_list r' = drop n (pring_list (source_ring d s))" by blast
  then show ?thesis by (intro exI [of _ r']) (subst read_loop.simps, simp add: Let_def)
qed

text \<open>every call on a pseudo terminal keeps its rings in order: the head and tail inside the array
  and the count their distance, at most 4096.\<close>

theorem pty_step_keeps_ok:
  assumes "pty_step s s'" "pty_ok s"
  shows "pty_ok s'"
  using assms
proof (induction rule: pty_step.induct)
  case (step_write ctx buf s r s')
  then show ?case using ring_push_ok
    by (auto simp: pty_write_def split: option.splits if_splits intro!: upd_pair_ok)
next
  case (step_read ctx buf n s r bs s')
  show ?case
  proof (cases ctx)
    case None
    with step_read show ?thesis by (simp add: pty_read_def)
  next
    case (Some d)
    with step_read have d: "c_pair d < PTY_PAIR_COUNT" by simp
    from read_loop_once [OF step_read.prems d, of n "[]", unfolded list.case] obtain r' where r': "pring_ok r'"
      "read_loop [] d n s = (let q = take n (pring_list (source_ring d s)) in
         if q \<noteq> [] then Some (int (length q), q, put_source d r' s)
         else if \<not> allocated (g_pairs s ! c_pair d) then Some (0, [], s) else None)" by blast
    with step_read Some put_source_ok [OF step_read.prems r'(1)] show ?thesis
      by (auto simp: pty_read_def Let_def split: if_splits)
  qed
next
  case (step_dev ctx req arg s r out s')
  then show ?case by (auto simp: pty_dev_ioctl_def reset_pair_ok split: option.splits if_splits)
next
  case (step_ptmx req parg s r pout s')
  then show ?case
    by (auto simp: ptmx_ioctl_def reset_pair_ok split: option.splits if_splits ptmx_arg.splits)
qed

definition demo_ring :: pty_ring where
  "demo_ring = \<lparr>r_data = replicate 4096 NUL, r_head = 0, r_tail = 0, r_count = 0\<rparr>"

definition demo_pty :: pty_state where
  "demo_pty = \<lparr>g_pairs = replicate 4 \<lparr>allocated = True, master_to_slave = demo_ring, slave_to_master = demo_ring\<rparr>,
     g_master_ctx = [], g_slave_ctx = []\<rparr>"

lemma demo_pty_ok: "pty_ok demo_pty"
  by (simp add: pty_ok_def demo_pty_def pring_ok_def ring_ok_def demo_ring_def PTY_PAIR_COUNT_def PTY_RING_SIZE_def)

theorem pty_step_keeps_ok_witness:
  "\<exists>s'. pty_step demo_pty s' \<and> pty_ok s' \<and> \<not> allocated (g_pairs s' ! 2)"
proof -
  let ?s' = "upd_pair 2 (\<lambda>p. pair_reset (p\<lparr>allocated := False\<rparr>)) demo_pty"
  have "ptmx_ioctl DEV_IOCTL_PTY_FREE (Some (Index_in 2)) demo_pty = (0, None, ?s')"
    by (simp add: ptmx_ioctl_def DEV_IOCTL_PTY_FREE_def DEV_IOCTL_PTY_ALLOC_def PTY_PAIR_COUNT_def)
  then have "pty_step demo_pty ?s'" by (rule step_ptmx)
  moreover have "\<not> allocated (g_pairs ?s' ! 2)" by (simp add: upd_pair_def demo_pty_def pair_reset_def)
  ultimately show ?thesis using pty_step_keeps_ok [OF _ demo_pty_ok] by blast
qed

text \<open>C36: what one side of a pseudo terminal writes the other side reads, in order and after what was
  already waiting; when more than 4096 bytes wait, the oldest are lost.  A read returns at once
  when bytes wait, and takes as many of them as it asked for.\<close>

theorem pty_write_read:
  assumes ok: "pty_ok s" and d: "c_pair d < PTY_PAIR_COUNT" "allocated (g_pairs s ! c_pair d)"
    and e: "c_pair e = c_pair d" "c_is_master e = (\<not> c_is_master d)" and bs: "bs \<noteq> []" and n: "0 < n"
  defines "q \<equiv> last_n PTY_RING_SIZE (pring_list (source_ring e s) @ bs)"
  shows "\<exists>s1 s2. pty_write (Some d) (Some bs) s = (int (length bs), s1) \<and>
    pty_read envs (Some e) True n s1 = Some (int (min n (length q)), take n q, s2) \<and>
    pring_list (source_ring e s2) = drop n q \<and> source_ring d s2 = source_ring d s"
proof -
  let ?f = "\<lambda>p. if c_is_master d then p\<lparr>master_to_slave := ring_push (master_to_slave p) bs\<rparr>
            else p\<lparr>slave_to_master := ring_push (slave_to_master p) bs\<rparr>"
  let ?s1 = "upd_pair (c_pair d) ?f s"
  have len: "c_pair d < length (g_pairs s)" using ok d by (simp add: pty_ok_def)
  have w: "pty_write (Some d) (Some bs) s = (int (length bs), ?s1)" using d bs by (simp add: pty_write_def)
  have ok1: "pty_ok ?s1" by (rule upd_pair_ok [OF ok]) (use ring_push_ok in auto)
  have src: "source_ring e ?s1 = ring_push (source_ring e s) bs"
    using len e by (auto simp: source_ring_def upd_pair_def)
  have cp: "c_pair e < PTY_PAIR_COUNT" using e d by simp
  have q: "pring_list (source_ring e ?s1) = q"
    using ring_push_ok [OF pty_ok_source [OF ok cp], of bs] by (simp add: src q_def)
  have qne: "q \<noteq> []"
  proof -
    have "length q = min PTY_RING_SIZE (r_count (source_ring e s) + length bs)"
      by (simp add: q_def last_n_length)
    then show ?thesis using bs by (auto simp: PTY_RING_SIZE_def min_def split: if_splits)
  qed
  have al: "allocated (g_pairs ?s1 ! c_pair e)" using d e len by (auto simp: upd_pair_def)
  from read_loop_once [OF ok1 cp, of n envs] obtain r' where r': "pring_ok r'" "pring_list r' = drop n q"
    "read_loop envs e n ?s1 = Some (int (length (take n q)), take n q, put_source e r' ?s1)"
    using qne n by (auto simp: q Let_def)
  have rd: "pty_read envs (Some e) True n ?s1 = Some (int (min n (length q)), take n q, put_source e r' ?s1)"
    using r'(3) al n by (simp add: pty_read_def)
  have "source_ring e (put_source e r' ?s1) = r'" "source_ring d (put_source e r' ?s1) = source_ring d s"
    using len e by (auto simp: source_ring_def put_source_def upd_pair_def)
  with w rd r'(2) show ?thesis by (intro exI [of _ ?s1] exI [of _ "put_source e r' ?s1"]) simp
qed

theorem pty_write_read_witness:
  "\<exists>s1 s2. pty_write (Some \<lparr>c_pair = 1, c_is_master = True, c_index = 1\<rparr>) (Some ''ls'') demo_pty = (2, s1) \<and>
     pty_read [] (Some \<lparr>c_pair = 1, c_is_master = False, c_index = 1\<rparr>) True 8 s1 = Some (2, ''ls'', s2)"
proof -
  let ?d = "\<lparr>c_pair = 1, c_is_master = True, c_index = 1\<rparr>" and ?e = "\<lparr>c_pair = 1, c_is_master = False, c_index = 1\<rparr>"
  have "pring_list (source_ring ?e demo_pty) = []"
    by (simp add: source_ring_def demo_pty_def demo_ring_def pring_list_def)
  then have q: "last_n PTY_RING_SIZE (pring_list (source_ring ?e demo_pty) @ ''ls'') = ''ls''"
    by (simp add: last_n_def PTY_RING_SIZE_def)
  have h: "c_pair ?d < PTY_PAIR_COUNT" "allocated (g_pairs demo_pty ! c_pair ?d)" "c_pair ?e = c_pair ?d"
    "c_is_master ?e = (\<not> c_is_master ?d)" "''ls'' \<noteq> []" "(0 :: nat) < 8"
    by (simp_all add: demo_pty_def PTY_PAIR_COUNT_def)
  from pty_write_read [OF demo_pty_ok h, of "[]"] show ?thesis unfolding q by (simp del: One_nat_def) blast
qed

end
