(* ===== verification/Port_Io.thy ===== *)
theory Port_Io
  imports Prelude
begin

section \<open>The ports of the machine\<close>

text \<open>
  The devices behind the ports are a parameter of the model: \<open>port_in\<close> is what the device at a port
  answers to the \<open>n\<close>-th access of the run, and every value written is recorded in order.
\<close>

record port_io =
  port_in :: "nat \<Rightarrow> nat \<Rightarrow> u8"
  port_time :: nat
  port_out :: "(nat \<times> u8) list"

definition inb :: "nat \<Rightarrow> port_io \<Rightarrow> u8 \<times> port_io" where
  "inb p io = (port_in io (port_time io) p, io\<lparr>port_time := port_time io + 1\<rparr>)"

definition outb :: "nat \<Rightarrow> u8 \<Rightarrow> port_io \<Rightarrow> port_io" where
  "outb p v io = io\<lparr>port_time := port_time io + 1, port_out := port_out io @ [(p, v)]\<rparr>"

end
