(* ===== verification/Mouse.thy ===== *)
theory Mouse
  imports Ring Port_Io
begin

unbundle bit_operations_syntax

section \<open>The PS/2 mouse\<close>

text \<open>
  Model of \<^verbatim>\<open>src/kernel/drivers/mouse.c\<close>: the interrupt handler that assembles three-byte packets,
  the pointer position and the queue of 128 packets.  The ports are those of \<open>Port_Io\<close>.  Bytes and the 16-bit
  positions are words, so the additions wrap as in the code.  The screen is given as its width
  and height when the frame buffer is in use (\<^verbatim>\<open>vesa_is_initialized\<close>).
\<close>

type_synonym i16 = "16 word"

definition PS2_DATA :: nat where "PS2_DATA = 0x60"
definition PS2_STATUS :: nat where "PS2_STATUS = 0x64"
definition PS2_CMD :: nat where "PS2_CMD = 0x64"
definition PS2_STATUS_OUT_FULL :: u8 where "PS2_STATUS_OUT_FULL = 0x01"
definition PS2_STATUS_IN_FULL :: u8 where "PS2_STATUS_IN_FULL = 0x02"
definition PS2_STATUS_AUX_DATA :: u8 where "PS2_STATUS_AUX_DATA = 0x20"
definition MOUSE_QUEUE_SIZE :: nat where "MOUSE_QUEUE_SIZE = 128"

record mouse_packet =
  p_buttons :: u8
  x_movement :: i16
  y_movement :: i16
  p_x :: i16
  p_y :: i16

record mouse_state =
  g_queue :: "mouse_packet list"
  g_head :: nat
  g_tail :: nat
  g_count :: nat
  g_packet :: "u8 list"
  g_cycle :: nat
  g_x :: i16
  g_y :: i16
  g_buttons :: u8
  m_io :: port_io

definition m_inb :: "nat \<Rightarrow> mouse_state \<Rightarrow> u8 \<times> mouse_state" where
  "m_inb p s = (let (v, io) = inb p (m_io s) in (v, s\<lparr>m_io := io\<rparr>))"

definition m_outb :: "nat \<Rightarrow> u8 \<Rightarrow> mouse_state \<Rightarrow> mouse_state" where
  "m_outb p v s = s\<lparr>m_io := outb p v (m_io s)\<rparr>"

definition io_wait_small :: "mouse_state \<Rightarrow> mouse_state" where
  "io_wait_small s = m_outb 0x80 0 s"

text \<open>The two polling loops; their argument is the number of tries left of 100000.\<close>

fun wait_input_loop :: "nat \<Rightarrow> mouse_state \<Rightarrow> bool \<times> mouse_state" where
  "wait_input_loop 0 s = (False, s)"
| "wait_input_loop (Suc k) s = (let (v, s') = m_inb PS2_STATUS s in
     if v AND PS2_STATUS_IN_FULL = 0 then (True, s') else wait_input_loop k s')"

fun wait_output_loop :: "nat \<Rightarrow> mouse_state \<Rightarrow> bool \<times> mouse_state" where
  "wait_output_loop 0 s = (False, s)"
| "wait_output_loop (Suc k) s = (let (v, s') = m_inb PS2_STATUS s in
     if v AND PS2_STATUS_OUT_FULL \<noteq> 0 then (True, s') else wait_output_loop k s')"

definition ps2_wait_input_empty :: "mouse_state \<Rightarrow> bool \<times> mouse_state" where
  "ps2_wait_input_empty s = wait_input_loop 100000 s"

definition ps2_wait_output_full :: "mouse_state \<Rightarrow> bool \<times> mouse_state" where
  "ps2_wait_output_full s = wait_output_loop 100000 s"

definition ps2_write_cmd :: "u8 \<Rightarrow> mouse_state \<Rightarrow> mouse_state" where
  "ps2_write_cmd cmd s = (let (ok, s1) = ps2_wait_input_empty s in
     if \<not> ok then s1 else io_wait_small (m_outb PS2_CMD cmd s1))"

definition ps2_write_data :: "u8 \<Rightarrow> mouse_state \<Rightarrow> mouse_state" where
  "ps2_write_data d s = (let (ok, s1) = ps2_wait_input_empty s in
     if \<not> ok then s1 else io_wait_small (m_outb PS2_DATA d s1))"

definition ps2_read_data :: "mouse_state \<Rightarrow> u8 \<times> mouse_state" where
  "ps2_read_data s = (let (ok, s1) = ps2_wait_output_full s in
     if \<not> ok then (0xFF, s1) else m_inb PS2_DATA s1)"

definition mouse_write :: "u8 \<Rightarrow> mouse_state \<Rightarrow> mouse_state" where
  "mouse_write d s = ps2_write_data d (ps2_write_cmd 0xD4 s)"

definition mouse_read_ack :: "mouse_state \<Rightarrow> u8 \<times> mouse_state" where
  "mouse_read_ack s = ps2_read_data s"

definition queue_push :: "mouse_packet \<Rightarrow> mouse_state \<Rightarrow> mouse_state" where
  "queue_push p s =
     (let s1 = (if g_count s \<ge> MOUSE_QUEUE_SIZE
                then s\<lparr>g_head := (g_head s + 1) mod MOUSE_QUEUE_SIZE, g_count := g_count s - 1\<rparr> else s)
      in s1\<lparr>g_queue := (g_queue s1)[g_tail s1 := p], g_tail := (g_tail s1 + 1) mod MOUSE_QUEUE_SIZE,
            g_count := g_count s1 + 1\<rparr>)"

text \<open>Clamping to the screen, in the order of the code (signed comparisons).\<close>

definition clamp_axis :: "i16 \<Rightarrow> i16 \<Rightarrow> i16" where
  "clamp_axis mx v = (let v1 = (if sint v < 0 then 0 else v) in if sint v1 > sint mx then mx else v1)"

definition axis_max :: "nat \<Rightarrow> i16" where
  "axis_max n = (if n \<noteq> 0 then word_of_nat (n - 1) else 0)"

definition mouse_inject_packet :: "(nat \<times> nat) option \<Rightarrow> u8 \<Rightarrow> i16 \<Rightarrow> i16 \<Rightarrow> mouse_state \<Rightarrow> mouse_state" where
  "mouse_inject_packet screen buttons xm ym s =
     (let b = buttons AND 0x1F;
          x1 = g_x s + xm;
          y1 = g_y s - ym;
          x2 = (case screen of None \<Rightarrow> x1 | Some (w, h) \<Rightarrow> clamp_axis (axis_max w) x1);
          y2 = (case screen of None \<Rightarrow> y1 | Some (w, h) \<Rightarrow> clamp_axis (axis_max h) y1)
      in queue_push \<lparr>p_buttons = b, x_movement = xm, y_movement = ym, p_x = x2, p_y = y2\<rparr>
           (s\<lparr>g_buttons := b, g_x := x2, g_y := y2\<rparr>))"

definition mouse_available :: "mouse_state \<Rightarrow> bool" where
  "mouse_available s \<longleftrightarrow> g_count s \<noteq> 0"

text \<open>\<open>None\<close> is the answer \<^verbatim>\<open>false\<close>.\<close>

definition mouse_try_get_packet :: "mouse_state \<Rightarrow> (mouse_packet \<times> mouse_state) option" where
  "mouse_try_get_packet s = (if g_count s = 0 then None
     else Some (g_queue s ! g_head s,
            s\<lparr>g_head := (g_head s + 1) mod MOUSE_QUEUE_SIZE, g_count := g_count s - 1\<rparr>))"

text \<open>The waiting variant; \<open>envs\<close> is what the interrupts do between the tries.\<close>

fun mouse_get_packet :: "(mouse_state \<Rightarrow> mouse_state) list \<Rightarrow> mouse_state \<Rightarrow> (mouse_packet \<times> mouse_state) option" where
  "mouse_get_packet envs s = (case mouse_try_get_packet s of
      Some r \<Rightarrow> Some r
    | None \<Rightarrow> (case envs of [] \<Rightarrow> None | f # fs \<Rightarrow> mouse_get_packet fs (f s)))"

declare mouse_get_packet.simps [simp del]

definition mouse_init :: "mouse_state \<Rightarrow> mouse_state" where
  "mouse_init s0 =
     (let s1 = ps2_write_cmd 0x20 (ps2_write_cmd 0xA8 s0);
          (st, s2) = ps2_read_data s1;
          st' = (st OR 0x03) AND NOT 0x30;
          s3 = ps2_write_data st' (ps2_write_cmd 0x60 s2);
          (_, s4) = mouse_read_ack (mouse_write 0xF6 s3);
          (_, s5) = mouse_read_ack (mouse_write 0xF4 s4)
      in s5\<lparr>g_cycle := 0, g_head := 0, g_tail := 0, g_count := 0, g_x := 0, g_y := 0, g_buttons := 0\<rparr>)"

definition mouse_handler :: "(nat \<times> nat) option \<Rightarrow> mouse_state \<Rightarrow> mouse_state" where
  "mouse_handler screen s0 =
     (let (st, s1) = m_inb PS2_STATUS s0 in
      if st AND PS2_STATUS_OUT_FULL = 0 then s1
      else if st AND PS2_STATUS_AUX_DATA = 0 then snd (m_inb PS2_DATA s1)
      else
        let (data, s2) = m_inb PS2_DATA s1 in
        if g_cycle s2 = 0 \<and> data AND 0x08 = 0 then s2
        else
          let s3 = s2\<lparr>g_packet := (g_packet s2)[g_cycle s2 := data], g_cycle := (g_cycle s2 + 1) mod 3\<rparr> in
          if g_cycle s3 = 0
          then let b0 = g_packet s3 ! 0; b1 = g_packet s3 ! 1; b2 = g_packet s3 ! 2 in
            if b0 AND 0xC0 \<noteq> 0 then s3
            else mouse_inject_packet screen (b0 AND 0x07) (scast b1) (scast b2) s3
          else s3)"

definition mouse_get_x :: "mouse_state \<Rightarrow> i16" where "mouse_get_x s = g_x s"
definition mouse_get_y :: "mouse_state \<Rightarrow> i16" where "mouse_get_y s = g_y s"
definition mouse_get_buttons :: "mouse_state \<Rightarrow> u8" where "mouse_get_buttons s = g_buttons s"

subsection \<open>The packet queue\<close>

definition mring_ok :: "mouse_state \<Rightarrow> bool" where
  "mring_ok s \<longleftrightarrow> ring_ok MOUSE_QUEUE_SIZE (g_queue s) (g_head s) (g_tail s) (g_count s)"

definition mring_list :: "mouse_state \<Rightarrow> mouse_packet list" where
  "mring_list s = ring_list (g_queue s) (g_head s) (g_count s)"

lemma mring_length [simp]: "length (mring_list s) = g_count s"
  by (simp add: mring_list_def)

lemma queue_push_room:
  assumes "mring_ok s" "g_count s < MOUSE_QUEUE_SIZE"
  shows "mring_ok (queue_push p s)" "mring_list (queue_push p s) = mring_list s @ [p]"
  using ring_put [OF assms(2) assms(1) [unfolded mring_ok_def]] assms(2)
  by (simp_all add: queue_push_def mring_ok_def mring_list_def Let_def)

lemma queue_push_full:
  assumes ok: "mring_ok s" and full: "\<not> g_count s < MOUSE_QUEUE_SIZE"
  shows "mring_ok (queue_push p s)" "mring_list (queue_push p s) = tl (mring_list s) @ [p]"
proof -
  let ?N = MOUSE_QUEUE_SIZE
  let ?s = "s\<lparr>g_head := (g_head s + 1) mod ?N, g_count := g_count s - 1\<rparr>"
  have c: "g_count s = ?N" "0 < ?N" using ok full by (auto simp: mring_ok_def ring_ok_def MOUSE_QUEUE_SIZE_def)
  note T = ring_take [of "g_count s", OF _ ok [unfolded mring_ok_def]]
  have ok': "mring_ok ?s" and room: "g_count ?s < ?N" using T(2) c by (simp_all add: mring_ok_def)
  have eq: "queue_push p s = queue_push p ?s" using c by (simp add: queue_push_def)
  have "mring_list ?s = tl (mring_list s)" using T(1) c by (simp add: mring_list_def)
  with queue_push_room [OF ok' room, of p]
  show "mring_ok (queue_push p s)" "mring_list (queue_push p s) = tl (mring_list s) @ [p]" by (simp_all add: eq)
qed

interpretation mring: bounded_queue mring_ok mring_list MOUSE_QUEUE_SIZE mouse_try_get_packet queue_push
proof unfold_locales
  fix s p assume ok: "mring_ok s"
  then show "length (mring_list s) \<le> MOUSE_QUEUE_SIZE" by (simp add: mring_ok_def ring_ok_def)
  show "mring_ok (queue_push p s)" using queue_push_room(1) queue_push_full(1) ok by blast
  show "mring_list (queue_push p s) = last_n MOUSE_QUEUE_SIZE (mring_list s @ [p])"
  proof (cases "g_count s < MOUSE_QUEUE_SIZE")
    case True
    then show ?thesis using queue_push_room(2) [OF ok True] by (simp add: last_n_all)
  next
    case False
    then have "g_count s = MOUSE_QUEUE_SIZE" using ok by (simp add: mring_ok_def ring_ok_def)
    then show ?thesis using queue_push_full(2) [OF ok False, of p]
      by (cases "mring_list s") (auto simp: last_n_def MOUSE_QUEUE_SIZE_def dest: arg_cong [where f = length])
  qed
next
  fix s assume "mring_ok s" "mring_list s = []"
  then have "g_count s = 0" by (metis list.size(3) mring_length)
  then show "mouse_try_get_packet s = None" by (simp add: mouse_try_get_packet_def)
next
  fix s p ps assume ok: "mring_ok s" and c: "mring_list s = p # ps"
  then have pos: "0 < g_count s" by (metis length_greater_0_conv list.discI mring_length)
  note T = ring_take [OF pos ok [unfolded mring_ok_def]]
  show "\<exists>s'. mouse_try_get_packet s = Some (p, s') \<and> mring_ok s' \<and> mring_list s' = ps"
    using T pos c by (simp add: mouse_try_get_packet_def mring_ok_def mring_list_def)
qed

subsection \<open>Properties\<close>

definition mouse_ok :: "mouse_state \<Rightarrow> bool" where
  "mouse_ok s \<longleftrightarrow> mring_ok s \<and> length (g_packet s) = 3 \<and> g_cycle s < 3"

text \<open>The state without its ports: what the handler is about.\<close>

lemma m_inb_eq: "m_inb p s = (port_in (m_io s) (port_time (m_io s)) p, s\<lparr>m_io := snd (inb p (m_io s))\<rparr>)"
  by (simp add: m_inb_def inb_def)

lemma m_inb_fields [simp]:
  "mring_ok (s\<lparr>m_io := io\<rparr>) = mring_ok s" "mring_list (s\<lparr>m_io := io\<rparr>) = mring_list s"
  by (simp_all add: mring_ok_def mring_list_def)

lemma mring_frame [simp]:
  "mring_ok (s\<lparr>g_packet := a\<rparr>) = mring_ok s" "mring_list (s\<lparr>g_packet := a\<rparr>) = mring_list s"
  "mring_ok (s\<lparr>g_cycle := c\<rparr>) = mring_ok s" "mring_list (s\<lparr>g_cycle := c\<rparr>) = mring_list s"
  "mring_ok (s\<lparr>g_buttons := b\<rparr>) = mring_ok s" "mring_list (s\<lparr>g_buttons := b\<rparr>) = mring_list s"
  "mring_ok (s\<lparr>g_x := x\<rparr>) = mring_ok s" "mring_list (s\<lparr>g_x := x\<rparr>) = mring_list s"
  "mring_ok (s\<lparr>g_y := y\<rparr>) = mring_ok s" "mring_list (s\<lparr>g_y := y\<rparr>) = mring_list s"
  by (simp_all add: mring_ok_def mring_list_def)

lemma queue_push_rest [simp]:
  "g_packet (queue_push p s) = g_packet s" "g_cycle (queue_push p s) = g_cycle s" "g_x (queue_push p s) = g_x s"
  "g_y (queue_push p s) = g_y s" "g_buttons (queue_push p s) = g_buttons s" "m_io (queue_push p s) = m_io s"
  by (simp_all add: queue_push_def Let_def)

lemma inject_ok:
  assumes "mouse_ok s"
  shows "mouse_ok (mouse_inject_packet scr b x y s)"
  using assms mring.push_inv by (simp add: mouse_ok_def mouse_inject_packet_def Let_def)

lemma clamp_axis_range:
  assumes "0 < n" "n \<le> 2 ^ 15"
  shows "0 \<le> sint (clamp_axis (axis_max n) v)" "sint (clamp_axis (axis_max n) v) < int n"
proof -
  have u: "unat (word_of_nat (n - 1) :: i16) = n - 1" using assms by (subst unat_of_nat) simp
  then have "uint (word_of_nat (n - 1) :: i16) = int (n - 1)" by (simp add: uint_nat)
  then have m: "sint (axis_max n) = int n - 1"
    using assms by (simp add: axis_max_def sint_uint signed_take_bit_int_eq_self of_nat_diff)
  show "0 \<le> sint (clamp_axis (axis_max n) v)" "sint (clamp_axis (axis_max n) v) < int n"
    using m assms(1) by (auto simp: clamp_axis_def Let_def)
qed

text \<open>the mouse interrupt keeps the driver's state in order (the queue within its 128 entries, the
  packet index below 3), whatever the device answers; and whenever a packet was queued while the
  screen is in use, the pointer lies on the screen.\<close>

theorem mouse_handler_keeps_ok:
  assumes ok: "mouse_ok s" and w: "0 < w" "w \<le> 2 ^ 15" and h: "0 < h" "h \<le> 2 ^ 15"
  shows "mouse_ok (mouse_handler (Some (w, h)) s) \<and>
    (mring_list (mouse_handler (Some (w, h)) s) = mring_list s \<or>
     (let s' = mouse_handler (Some (w, h)) s in
        0 \<le> sint (g_x s') \<and> sint (g_x s') < int w \<and> 0 \<le> sint (g_y s') \<and> sint (g_y s') < int h))"
proof -
  let ?st = "port_in (m_io s) (port_time (m_io s)) PS2_STATUS"
  let ?s1 = "s\<lparr>m_io := snd (inb PS2_STATUS (m_io s))\<rparr>"
  let ?d = "port_in (m_io ?s1) (port_time (m_io ?s1)) PS2_DATA"
  let ?s2 = "?s1\<lparr>m_io := snd (inb PS2_DATA (m_io ?s1))\<rparr>"
  let ?s3 = "?s2\<lparr>g_packet := (g_packet ?s2)[g_cycle ?s2 := ?d], g_cycle := (g_cycle ?s2 + 1) mod 3\<rparr>"
  let ?inj = "mouse_inject_packet (Some (w, h)) (g_packet ?s3 ! 0 AND 0x07) (scast (g_packet ?s3 ! 1))
      (scast (g_packet ?s3 ! 2)) ?s3"
  have cases: "mouse_handler (Some (w, h)) s \<in> {?s1, ?s2, ?s3, ?inj}"
    unfolding mouse_handler_def by (simp add: m_inb_eq Let_def)
  have ok3: "mouse_ok ?s3" and ok2: "mouse_ok ?s1" "mouse_ok ?s2" using ok by (simp_all add: mouse_ok_def)
  have keep: "mring_list ?s1 = mring_list s" "mring_list ?s2 = mring_list s" "mring_list ?s3 = mring_list s"
    by simp_all
  have "g_x ?inj = clamp_axis (axis_max w) (g_x s + scast (g_packet ?s3 ! 1))"
    "g_y ?inj = clamp_axis (axis_max h) (g_y s - scast (g_packet ?s3 ! 2))"
    by (simp_all add: mouse_inject_packet_def Let_def)
  with clamp_axis_range [OF w] clamp_axis_range [OF h]
  have scr: "0 \<le> sint (g_x ?inj)" "sint (g_x ?inj) < int w" "0 \<le> sint (g_y ?inj)" "sint (g_y ?inj) < int h"
    by metis+
  from cases consider "mouse_handler (Some (w, h)) s = ?s1" | "mouse_handler (Some (w, h)) s = ?s2"
    | "mouse_handler (Some (w, h)) s = ?s3" | "mouse_handler (Some (w, h)) s = ?inj" by blast
  then show ?thesis
  proof cases
    case 4
    then show ?thesis unfolding 4 Let_def using inject_ok [OF ok3] scr by blast
  qed (use ok2 ok3 keep in metis)+
qed

definition demo_packet :: mouse_packet where
  "demo_packet = \<lparr>p_buttons = 0, x_movement = 0, y_movement = 0, p_x = 0, p_y = 0\<rparr>"

definition demo_mouse :: mouse_state where
  "demo_mouse = \<lparr>g_queue = replicate 128 demo_packet, g_head = 0, g_tail = 0, g_count = 0, g_packet = [0, 0, 0],
     g_cycle = 0, g_x = 5, g_y = 5, g_buttons = 0, m_io = \<lparr>port_in = (\<lambda>t p. 0x29), port_time = 0, port_out = []\<rparr>\<rparr>"

lemma demo_mouse_ok: "mouse_ok demo_mouse"
  by (simp add: mouse_ok_def mring_ok_def ring_ok_def demo_mouse_def MOUSE_QUEUE_SIZE_def)

theorem mouse_handler_keeps_ok_witness: "mouse_ok (mouse_handler (Some (800, 600)) demo_mouse)"
  using mouse_handler_keeps_ok [OF demo_mouse_ok, of 800 600] by simp

text \<open>The device offers one more byte of mouse data.\<close>

definition feed :: "u8 \<Rightarrow> mouse_state \<Rightarrow> mouse_state" where
  "feed b s = s\<lparr>m_io := (m_io s)\<lparr>port_in := (\<lambda>t p. if p = PS2_STATUS then 0x21 else b)\<rparr>\<rparr>"

lemma handler_feed:
  assumes "\<not> (g_cycle s = 0 \<and> b AND 0x08 = 0)"
  shows "\<exists>io. mouse_handler scr (feed b s) =
    (let s3 = s\<lparr>m_io := io, g_packet := (g_packet s)[g_cycle s := b], g_cycle := (g_cycle s + 1) mod 3\<rparr> in
     if g_cycle s3 = 0 then
       (if g_packet s3 ! 0 AND 0xC0 \<noteq> 0 then s3
        else mouse_inject_packet scr (g_packet s3 ! 0 AND 0x07) (scast (g_packet s3 ! 1)) (scast (g_packet s3 ! 2)) s3)
     else s3)"
proof -
  have st: "(0x21 :: u8) AND PS2_STATUS_OUT_FULL \<noteq> 0" "(0x21 :: u8) AND PS2_STATUS_AUX_DATA \<noteq> 0"
    by (simp_all add: PS2_STATUS_OUT_FULL_def PS2_STATUS_AUX_DATA_def)
  have ne: "PS2_DATA \<noteq> PS2_STATUS" by (simp add: PS2_DATA_def PS2_STATUS_def)
  let ?io = "snd (inb PS2_DATA (snd (inb PS2_STATUS (m_io (feed b s)))))"
  show ?thesis
    by (rule exI [of _ ?io]) (use assms st ne in \<open>auto simp: mouse_handler_def m_inb_eq Let_def feed_def inb_def\<close>)
qed

text \<open>three bytes in a row, from the start of a packet, whose first byte has the sync bit set and no
  overflow bit, queue exactly one packet: with the low three bits of the first byte as buttons and
  the second and third byte, sign-extended, as movements; the position moves by them with y inverted
  and is clamped to the screen.\<close>

theorem mouse_packet_assembled:
  fixes b1 b2 :: u8 and scr :: "(nat \<times> nat) option"
  assumes ok: "mouse_ok s" and c: "g_cycle s = 0" and b0: "b0 AND 0x08 \<noteq> 0" "b0 AND 0xC0 = 0"
    and room: "g_count s < MOUSE_QUEUE_SIZE"
  defines "s' \<equiv> mouse_handler scr (feed b2 (mouse_handler scr (feed b1 (mouse_handler scr (feed b0 s)))))"
  shows "\<exists>p. mring_list s' = mring_list s @ [p] \<and> mouse_ok s' \<and> g_cycle s' = 0 \<and>
    p_buttons p = (b0 AND 0x07) AND 0x1F \<and> x_movement p = scast b1 \<and> y_movement p = scast b2 \<and>
    p_x p = (case scr of None \<Rightarrow> g_x s + scast b1 | Some (w, h) \<Rightarrow> clamp_axis (axis_max w) (g_x s + scast b1)) \<and>
    p_y p = (case scr of None \<Rightarrow> g_y s - scast b2 | Some (w, h) \<Rightarrow> clamp_axis (axis_max h) (g_y s - scast b2)) \<and>
    mouse_get_x s' = p_x p \<and> mouse_get_y s' = p_y p \<and> mouse_get_buttons s' = p_buttons p"
proof -
  have len: "length (g_packet s) = 3" using ok by (simp add: mouse_ok_def)
  then obtain x y z where pk: "g_packet s = [x, y, z]" by (auto simp: numeral_3_eq_3 length_Suc_conv)
  obtain io1 where 1: "mouse_handler scr (feed b0 s) = s\<lparr>m_io := io1, g_packet := [b0, y, z], g_cycle := 1\<rparr>"
    using handler_feed [of s b0 scr] b0 c pk by (auto simp: Let_def)
  let ?s1 = "s\<lparr>m_io := io1, g_packet := [b0, y, z], g_cycle := 1\<rparr>"
  obtain io2 where 2: "mouse_handler scr (feed b1 ?s1) = s\<lparr>m_io := io2, g_packet := [b0, b1, z], g_cycle := 2\<rparr>"
    using handler_feed [of ?s1 b1 scr] by (auto simp: Let_def numeral_2_eq_2)
  let ?s2 = "s\<lparr>m_io := io2, g_packet := [b0, b1, z], g_cycle := 2\<rparr>"
  obtain io3 where 3: "mouse_handler scr (feed b2 ?s2) = mouse_inject_packet scr (b0 AND 0x07) (scast b1) (scast b2)
      (s\<lparr>m_io := io3, g_packet := [b0, b1, b2], g_cycle := 0\<rparr>)"
    using handler_feed [of ?s2 b2 scr] b0 by (auto simp: Let_def numeral_2_eq_2)
  let ?s3 = "s\<lparr>m_io := io3, g_packet := [b0, b1, b2], g_cycle := 0\<rparr>"
  have s': "s' = mouse_inject_packet scr (b0 AND 0x07) (scast b1) (scast b2) ?s3"
    unfolding s'_def 1 2 3 ..
  have ok3: "mouse_ok ?s3" "g_count ?s3 < MOUSE_QUEUE_SIZE" using ok room by (simp_all add: mouse_ok_def)
  have mr: "mring_ok (?s3\<lparr>g_buttons := b, g_x := u, g_y := v\<rparr>)"
    "g_count (?s3\<lparr>g_buttons := b, g_x := u, g_y := v\<rparr>) < MOUSE_QUEUE_SIZE" for b u v
    using ok room by (simp_all add: mouse_ok_def)
  show ?thesis
    using inject_ok [OF ok3(1), of scr "b0 AND 0x07" "scast b1" "scast b2"] queue_push_room(2) [OF mr]
    unfolding s' by (simp add: mouse_inject_packet_def Let_def mouse_get_x_def mouse_get_y_def mouse_get_buttons_def)
qed

theorem mouse_packet_assembled_witness:
  "\<exists>p. mring_list (mouse_handler None (feed 0xFE (mouse_handler None (feed 3 (mouse_handler None (feed 0x09 demo_mouse)))))) = [p] \<and>
     x_movement p = 3 \<and> y_movement p = -2 \<and> p_x p = 8 \<and> p_y p = 7"
proof -
  have d: "g_cycle demo_mouse = 0" "mring_list demo_mouse = []" "g_count demo_mouse < MOUSE_QUEUE_SIZE"
    "g_x demo_mouse = 5" "g_y demo_mouse = 5"
    by (simp_all add: demo_mouse_def mring_list_def MOUSE_QUEUE_SIZE_def)
  have v: "(scast (3 :: u8) :: i16) = 3" "(scast (0xFE :: u8) :: i16) = -2" by simp_all
  show ?thesis
    using mouse_packet_assembled [OF demo_mouse_ok d(1) _ _ d(3), of "0x09" None "0xFE" 3] by (auto simp: d v)
qed

end
