(* ===== verification/Keyboard.thy ===== *)
theory Keyboard
  imports Ring Port_Io
begin

unbundle bit_operations_syntax

section \<open>The keyboard\<close>

text \<open>
  Model of \<^verbatim>\<open>src/kernel/drivers/keyboard.c\<close> and its tables in \<^verbatim>\<open>keyboard.h\<close>: the decoding of scan
  codes with the modifier keys, the \<^verbatim>\<open>E0\<close> and \<^verbatim>\<open>E1\<close> prefixes, the hotkeys, and the three ring
  buffers for characters, events and scan codes, which drop what arrives when they are full.  The
  three copies of the ring code are one definition each for putting and taking, at the capacity
  and element of the ring.  Echo on the screen is recorded as the calls of the \<^verbatim>\<open>vga_\<close> functions (macros
  without effect unless \<^verbatim>\<open>ENABLE_VGA\<close> is set), and a call of the hotkey handler as its address and
  arguments.  \<open>k_if\<close> is the interrupt flag.
\<close>

definition KEYBOARD_BUFFER_SIZE :: nat where "KEYBOARD_BUFFER_SIZE = 4096"
definition EVENT_BUFFER_SIZE :: nat where "EVENT_BUFFER_SIZE = 512"
definition SC_MAX :: u8 where "SC_MAX = 0x57"
definition LAYOUT_COUNT :: nat where "LAYOUT_COUNT = 1"

definition KEY_BACKSPACE :: u8 where "KEY_BACKSPACE = 0x0E"
definition KEY_TAB :: u8 where "KEY_TAB = 0x0F"
definition KEY_ENTER :: u8 where "KEY_ENTER = 0x1C"
definition KEY_LCTRL :: u8 where "KEY_LCTRL = 0x1D"
definition KEY_LSHIFT :: u8 where "KEY_LSHIFT = 0x2A"
definition KEY_RSHIFT :: u8 where "KEY_RSHIFT = 0x36"
definition KEY_LALT :: u8 where "KEY_LALT = 0x38"
definition KEY_CAPS :: u8 where "KEY_CAPS = 0x3A"
definition KEY_F1 :: u8 where "KEY_F1 = 0x3B"
definition KEY_F8 :: u8 where "KEY_F8 = 0x42"
definition KEY_NUMLOCK :: u8 where "KEY_NUMLOCK = 0x45"
definition KEY_SCROLLLOCK :: u8 where "KEY_SCROLLLOCK = 0x46"
definition KEY_LEFT :: u8 where "KEY_LEFT = 0x4B"
definition KEY_END :: u8 where "KEY_END = 0x4F"
definition KEY_PAUSE :: u8 where "KEY_PAUSE = 0x61"
definition KEY_NUMPAD_MINUS :: u8 where "KEY_NUMPAD_MINUS = 0x4A"
definition KEY_NUMPAD_PLUS :: u8 where "KEY_NUMPAD_PLUS = 0x4E"

lemmas key_defs = KEY_BACKSPACE_def KEY_TAB_def KEY_ENTER_def KEY_LCTRL_def KEY_LSHIFT_def KEY_RSHIFT_def KEY_LALT_def
  KEY_CAPS_def KEY_F1_def KEY_F8_def KEY_NUMLOCK_def KEY_SCROLLLOCK_def KEY_LEFT_def KEY_END_def KEY_PAUSE_def
  KEY_NUMPAD_MINUS_def KEY_NUMPAD_PLUS_def

text \<open>The rows of the layout without and with shift; the rest of each row of 255 is null.\<close>

definition map_row :: "bool \<Rightarrow> string" where
  "map_row shift =
    (if \<not> shift then
       [NUL, CHR 27] @ ''1234567890-='' @ [CHR 8, CHR 9] @ ''qwertyuiop[]'' @ [CHR 10, NUL] @ ''asdfghjkl;'' @ [CHR 39, CHR 96, NUL, CHR 92] @
       ''zxcvbnm,./'' @ [NUL, CHR ''*'', NUL, CHR '' ''] @ replicate 17 NUL @ [CHR ''-'', NUL, NUL, NUL, CHR ''+''] @ replicate 11 NUL
     else
       [NUL, CHR 27] @ ''!@#$%^&*()_+'' @ [CHR 8, CHR 9] @ ''QWERTYUIOP{}'' @ [CHR 10, NUL] @ ''ASDFGHJKL:'' @ [CHR 34, CHR ''~'', NUL, CHR ''|''] @
       ''ZXCVBNM<>?'' @ [NUL, CHR ''*'', NUL, CHR '' ''] @ replicate 17 NUL @ [CHR ''-'', NUL, NUL, NUL, CHR ''+''] @ replicate 11 NUL)"

definition keyboard_map :: "nat \<Rightarrow> bool \<Rightarrow> nat \<Rightarrow> byte" where
  "keyboard_map layout shift i = (if i < length (map_row shift) then map_row shift ! i else NUL)"

definition ext_scancodes :: "u8 list" where
  "ext_scancodes = [0x1C, 0x35, 0x37, 0x38, 0x47, 0x48, 0x49, 0x4B, 0x4D, 0x4F, 0x50, 0x51, 0x52, 0x53, 0x5B, 0x5C, 0x5D, 0x5E, 0x5F, 0x63]"

record key_event =
  ev_scancode :: u8
  ev_ascii :: byte
  ev_pressed :: bool
  ev_shift :: bool
  ev_ctrl :: bool
  ev_alt :: bool
  ev_caps :: bool

subsection \<open>The rings\<close>

record 'a kring =
  kr_data :: "'a list"
  kr_head :: nat
  kr_tail :: nat
  kr_count :: nat

definition kring_put :: "nat \<Rightarrow> 'a \<Rightarrow> 'a kring \<Rightarrow> 'a kring" where
  "kring_put N x r =
     (if kr_count r < N
      then r\<lparr>kr_data := (kr_data r)[kr_tail r := x], kr_tail := (kr_tail r + 1) mod N, kr_count := kr_count r + 1\<rparr>
      else r)"

definition kring_get :: "nat \<Rightarrow> 'a kring \<Rightarrow> ('a \<times> 'a kring) option" where
  "kring_get N r =
     (if kr_count r > 0
      then Some (kr_data r ! kr_head r, r\<lparr>kr_head := (kr_head r + 1) mod N, kr_count := kr_count r - 1\<rparr>)
      else None)"

definition kring_clear :: "'a kring \<Rightarrow> 'a kring" where
  "kring_clear r = r\<lparr>kr_head := 0, kr_tail := 0, kr_count := 0\<rparr>"

definition kring_ok :: "nat \<Rightarrow> 'a kring \<Rightarrow> bool" where
  "kring_ok N r \<longleftrightarrow> ring_ok N (kr_data r) (kr_head r) (kr_tail r) (kr_count r)"

definition kring_list :: "'a kring \<Rightarrow> 'a list" where
  "kring_list r = ring_list (kr_data r) (kr_head r) (kr_count r)"

lemma kring_length [simp]: "length (kring_list r) = kr_count r"
  by (simp add: kring_list_def)

interpretation kring: dropping_queue "kring_ok N" kring_list N "kring_get N" "kring_put N" for N
proof unfold_locales
  fix r :: "'a kring" and x assume ok: "kring_ok N r"
  then show le: "length (kring_list r) \<le> N" by (simp add: kring_ok_def ring_ok_def)
  show "kring_ok N (kring_put N x r)" using ok ring_put(2) by (auto simp: kring_put_def kring_ok_def)
  show "kring_list (kring_put N x r) = take N (kring_list r @ [x])"
  proof (cases "kr_count r < N")
    case True
    then show ?thesis using ring_put(1) [OF True ok [unfolded kring_ok_def]] by (simp add: kring_put_def kring_list_def)
  next
    case False
    then have "kr_count r = N" using le by simp
    then show ?thesis by (simp add: kring_put_def)
  qed
next
  fix r :: "'a kring" assume "kring_ok N r" "kring_list r = []"
  then have "kr_count r = 0" by (metis list.size(3) kring_length)
  then show "kring_get N r = None" by (simp add: kring_get_def)
next
  fix r :: "'a kring" and x xs assume ok: "kring_ok N r" and c: "kring_list r = x # xs"
  then have pos: "0 < kr_count r" by (metis length_greater_0_conv list.discI kring_length)
  note T = ring_take [OF pos ok [unfolded kring_ok_def]]
  show "\<exists>r'. kring_get N r = Some (x, r') \<and> kring_ok N r' \<and> kring_list r' = xs"
    using T pos c by (simp add: kring_get_def kring_ok_def kring_list_def)
qed

subsection \<open>The state\<close>

datatype vga_call = Vga_print string | Vga_put_char byte | Vga_cursor_update | Vga_backspace | Vga_color_set bool

record hotkey_call =
  hk_handler :: addr
  hk_keycode :: u8
  hk_shift :: bool
  hk_ctrl :: bool
  hk_alt :: bool

record kbd =
  keyboard_buffer :: "byte kring"
  event_buffer :: "key_event kring"
  scancode_buffer :: "u8 kring"
  shift_pressed :: bool
  ctrl_pressed :: bool
  alt_pressed :: bool
  caps_lock :: bool
  num_lock :: bool
  scroll_lock :: bool
  echo_mode :: bool
  ext_scancode :: bool
  pause_break :: bool
  last_scancode :: u8
  current_layout :: nat
  hotkey_handler :: addr
  hotkey_latched_scancode :: int
  pause_buffer :: "u8 list"
  pause_index :: nat
  k_io :: port_io
  k_vga :: "vga_call list"
  k_hotkeys :: "hotkey_call list"
  k_if :: bool

definition k_inb :: "nat \<Rightarrow> kbd \<Rightarrow> u8 \<times> kbd" where
  "k_inb p s = (let (v, io) = inb p (k_io s) in (v, s\<lparr>k_io := io\<rparr>))"

definition k_outb :: "nat \<Rightarrow> u8 \<Rightarrow> kbd \<Rightarrow> kbd" where
  "k_outb p v s = s\<lparr>k_io := outb p v (k_io s)\<rparr>"

definition vga :: "vga_call list \<Rightarrow> kbd \<Rightarrow> kbd" where
  "vga cs s = s\<lparr>k_vga := k_vga s @ cs\<rparr>"

definition buffer_put :: "byte \<Rightarrow> kbd \<Rightarrow> kbd" where
  "buffer_put c s = s\<lparr>keyboard_buffer := kring_put KEYBOARD_BUFFER_SIZE c (keyboard_buffer s)\<rparr>"

definition buffer_get :: "kbd \<Rightarrow> byte \<times> kbd" where
  "buffer_get s = (case kring_get KEYBOARD_BUFFER_SIZE (keyboard_buffer s) of
     None \<Rightarrow> (NUL, s) | Some (c, r) \<Rightarrow> (c, s\<lparr>keyboard_buffer := r\<rparr>))"

definition scancode_buffer_put :: "u8 \<Rightarrow> kbd \<Rightarrow> kbd" where
  "scancode_buffer_put c s = s\<lparr>scancode_buffer := kring_put KEYBOARD_BUFFER_SIZE c (scancode_buffer s)\<rparr>"

definition scancode_buffer_get :: "kbd \<Rightarrow> u8 \<times> kbd" where
  "scancode_buffer_get s = (case kring_get KEYBOARD_BUFFER_SIZE (scancode_buffer s) of
     None \<Rightarrow> (0, s) | Some (c, r) \<Rightarrow> (c, s\<lparr>scancode_buffer := r\<rparr>))"

definition event_buffer_put :: "key_event \<Rightarrow> kbd \<Rightarrow> kbd" where
  "event_buffer_put e s = s\<lparr>event_buffer := kring_put EVENT_BUFFER_SIZE e (event_buffer s)\<rparr>"

definition zero_event :: key_event where
  "zero_event = \<lparr>ev_scancode = 0, ev_ascii = NUL, ev_pressed = False, ev_shift = False, ev_ctrl = False, ev_alt = False, ev_caps = False\<rparr>"

definition event_buffer_get :: "kbd \<Rightarrow> key_event \<times> kbd" where
  "event_buffer_get s = (case kring_get EVENT_BUFFER_SIZE (event_buffer s) of
     None \<Rightarrow> (zero_event, s) | Some (e, r) \<Rightarrow> (e, s\<lparr>event_buffer := r\<rparr>))"

subsection \<open>The controller\<close>

text \<open>The polling loops with the tries left in \<^verbatim>\<open>timeout\<close>; the second tells whether \<^verbatim>\<open>timeout\<close> is still
  positive at its end.\<close>

fun wait_in_empty :: "nat \<Rightarrow> kbd \<Rightarrow> kbd" where
  "wait_in_empty k s = (let (v, s1) = k_inb 0x64 s in
     if v AND 0x02 = 0 then s1 else (case k of 0 \<Rightarrow> s1 | Suc k' \<Rightarrow> wait_in_empty k' s1))"

fun wait_out_full :: "nat \<Rightarrow> kbd \<Rightarrow> bool \<times> kbd" where
  "wait_out_full k s = (let (v, s1) = k_inb 0x64 s in
     if v AND 0x01 \<noteq> 0 then (k > 0, s1) else (case k of 0 \<Rightarrow> (False, s1) | Suc k' \<Rightarrow> wait_out_full k' s1))"

declare wait_in_empty.simps [simp del] wait_out_full.simps [simp del]

definition keyboard_send_command :: "u8 \<Rightarrow> kbd \<Rightarrow> kbd" where
  "keyboard_send_command cmd s = k_outb 0x60 cmd (wait_in_empty 1000 s)"

definition keyboard_read_response :: "kbd \<Rightarrow> u8 \<times> kbd" where
  "keyboard_read_response s = (let (ok, s1) = wait_out_full 1000 s in if \<not> ok then (0xFF, s1) else k_inb 0x60 s1)"

definition keyboard_read_status :: "kbd \<Rightarrow> u8 \<times> kbd" where
  "keyboard_read_status s = k_inb 0x64 s"

definition keyboard_set_leds :: "bool \<Rightarrow> bool \<Rightarrow> bool \<Rightarrow> kbd \<Rightarrow> kbd" where
  "keyboard_set_leds scroll num caps s0 =
     (let s1 = s0\<lparr>scroll_lock := scroll, num_lock := num, caps_lock := caps\<rparr>;
          s2 = k_outb 0x60 0xED (wait_in_empty 1000 s1);
          (ok, s3) = wait_out_full 1000 s2 in
      if \<not> ok then s3
      else let (response, s4) = k_inb 0x60 s3 in
        if response \<noteq> 0xFA then s4
        else let leds = (if scroll then 0x01 else 0) OR (if num then 0x02 else 0) OR (if caps then 0x04 else 0);
                 s5 = k_outb 0x60 leds s4;
                 (ok, s6) = wait_out_full 1000 s5 in
          if \<not> ok then s6 else snd (k_inb 0x60 s6))"

subsection \<open>Decoding\<close>

definition get_ascii :: "kbd \<Rightarrow> u8 \<Rightarrow> bool \<Rightarrow> byte" where
  "get_ascii s scancode shift = (if scancode > SC_MAX then NUL else keyboard_map (current_layout s) shift (unat scancode))"

definition keyboard_is_alpha_scancode :: "u8 \<Rightarrow> bool" where
  "keyboard_is_alpha_scancode c \<longleftrightarrow> (0x10 \<le> c \<and> c \<le> 0x19) \<or> (0x1E \<le> c \<and> c \<le> 0x26) \<or> (0x2C \<le> c \<and> c \<le> 0x32)"

definition keyboard_effective_shift :: "u8 \<Rightarrow> bool \<Rightarrow> bool \<Rightarrow> bool" where
  "keyboard_effective_shift c shift caps = (if \<not> keyboard_is_alpha_scancode c then shift else shift \<noteq> caps)"

definition is_ext_scancode :: "u8 \<Rightarrow> bool" where
  "is_ext_scancode c = List.member ext_scancodes c"

definition on_off :: "bool \<Rightarrow> string" where "on_off b = (if b then ''ON]'' else ''OFF]'')"

definition toggled :: "string \<Rightarrow> (kbd \<Rightarrow> bool) \<Rightarrow> kbd \<Rightarrow> kbd" where
  "toggled text lock s =
     (let s1 = keyboard_set_leds (scroll_lock s) (num_lock s) (caps_lock s) s in
      if echo_mode s1 then vga [Vga_print (CHR 0x0A # text), Vga_print (on_off (lock s1))] s1 else s1)"

definition handle_special_key :: "u8 \<Rightarrow> bool \<Rightarrow> kbd \<Rightarrow> kbd" where
  "handle_special_key c pressed s =
     (if c = KEY_LSHIFT \<or> c = KEY_RSHIFT then s\<lparr>shift_pressed := pressed\<rparr>
      else if c = KEY_LCTRL then s\<lparr>ctrl_pressed := pressed\<rparr>
      else if c = KEY_LALT then s\<lparr>alt_pressed := pressed\<rparr>
      else if c = KEY_CAPS then if pressed then toggled ''[Caps Lock: '' caps_lock (s\<lparr>caps_lock := \<not> caps_lock s\<rparr>) else s
      else if c = KEY_NUMLOCK then if pressed then toggled ''[Num Lock: '' num_lock (s\<lparr>num_lock := \<not> num_lock s\<rparr>) else s
      else if c = KEY_SCROLLLOCK then if pressed then toggled ''[Scroll Lock: '' scroll_lock (s\<lparr>scroll_lock := \<not> scroll_lock s\<rparr>) else s
      else s)"

text \<open>The event of a key in the present state of the modifiers.\<close>

definition key_ev :: "u8 \<Rightarrow> byte \<Rightarrow> bool \<Rightarrow> kbd \<Rightarrow> key_event" where
  "key_ev c a pressed s = \<lparr>ev_scancode = c, ev_ascii = a, ev_pressed = pressed, ev_shift = shift_pressed s, ev_ctrl = ctrl_pressed s,
     ev_alt = alt_pressed s, ev_caps = caps_lock s\<rparr>"

text \<open>The keys with an echo of their own.\<close>

definition echo_key :: "byte \<Rightarrow> vga_call list" where
  "echo_key a = (if a = CHR 8 then [Vga_backspace, Vga_cursor_update] else [Vga_put_char a, Vga_cursor_update])"

definition handle_extended_scancode :: "u8 \<Rightarrow> bool \<Rightarrow> kbd \<Rightarrow> kbd" where
  "handle_extended_scancode c pressed s =
     (if c = KEY_LCTRL then s\<lparr>ctrl_pressed := pressed\<rparr>
      else if c = KEY_LALT then s\<lparr>alt_pressed := pressed\<rparr>
      else if \<not> pressed then s
      else let a = (if c = KEY_ENTER then CHR 10 else if c = KEY_BACKSPACE then CHR 8 else if c = KEY_TAB then CHR 9 else NUL);
               s1 = (if a \<noteq> NUL \<and> echo_mode s \<and> \<not> ctrl_pressed s \<and> \<not> alt_pressed s then vga (echo_key a) s else s);
               s2 = event_buffer_put (key_ev c a pressed s) s1 in
        if a \<noteq> NUL then buffer_put a s2 else s2)"

definition handle_ctrl_alt_combo :: "u8 \<Rightarrow> bool \<Rightarrow> kbd \<Rightarrow> kbd" where
  "handle_ctrl_alt_combo c pressed s =
     (if pressed \<and> ctrl_pressed s \<and> alt_pressed s \<and> c = 0x53 then k_outb 0x64 0xFE s else s)"

text \<open>The character a key gives with Ctrl held.\<close>

definition ctrl_char :: "byte \<Rightarrow> byte" where
  "ctrl_char a =
     (if a = CHR ''c'' \<or> a = CHR ''C'' then CHR 0x03
      else if a = CHR ''d'' \<or> a = CHR ''D'' then CHR 0x04
      else if a = CHR ''z'' \<or> a = CHR ''Z'' then CHR 0x1A
      else if a = CHR ''l'' \<or> a = CHR ''L'' then CHR 0x0C
      else let n = of_char a :: nat in
        if 97 \<le> n \<and> n \<le> 122 then char_of (n - 97 + 1)
        else if 65 \<le> n \<and> n \<le> 90 then char_of (n - 65 + 1)
        else a)"

definition is_hotkey :: "u8 \<Rightarrow> bool \<Rightarrow> kbd \<Rightarrow> bool" where
  "is_hotkey c pressed s \<longleftrightarrow> pressed \<and> KEY_F1 \<le> c \<and> c \<le> KEY_F8 \<and> (alt_pressed s \<or> (ctrl_pressed s \<and> shift_pressed s))"

definition unlatch :: "u8 \<Rightarrow> bool \<Rightarrow> kbd \<Rightarrow> kbd" where
  "unlatch c pressed s = (if \<not> pressed \<and> hotkey_latched_scancode s = uint c then s\<lparr>hotkey_latched_scancode := -1\<rparr> else s)"

definition fire_hotkey :: "u8 \<Rightarrow> kbd \<Rightarrow> kbd" where
  "fire_hotkey c s =
     (if hotkey_latched_scancode s = uint c then s
      else let s1 = (if hotkey_handler s \<noteq> 0
             then s\<lparr>k_hotkeys := k_hotkeys s @ [\<lparr>hk_handler = hotkey_handler s, hk_keycode = c, hk_shift = shift_pressed s,
                    hk_ctrl = ctrl_pressed s, hk_alt = alt_pressed s\<rparr>]\<rparr>
             else s)
        in s1\<lparr>hotkey_latched_scancode := uint c\<rparr>)"

text \<open>A pressed key: its event, and its character where it has one.\<close>

definition key_pressed :: "u8 \<Rightarrow> kbd \<Rightarrow> kbd" where
  "key_pressed c s =
     (let a = get_ascii s c (keyboard_effective_shift c (shift_pressed s) (caps_lock s));
          s1 = event_buffer_put (key_ev c a True s) s in
      if a = NUL then s1
      else if ctrl_pressed s then buffer_put (ctrl_char a) s1
      else if alt_pressed s
      then if echo_mode s then vga [Vga_color_set True, Vga_print ''[Alt+'', Vga_put_char a, Vga_put_char CHR '']'', Vga_color_set False] s1 else s1
      else let s2 = buffer_put a s1 in if echo_mode s then vga (echo_key a) s2 else s2)"

definition keyboard_process_scancode :: "u8 \<Rightarrow> kbd \<Rightarrow> kbd" where
  "keyboard_process_scancode c s0 =
     (let s1 = scancode_buffer_put c (s0\<lparr>last_scancode := c\<rparr>) in
      if c = 0xE1 then s1\<lparr>pause_break := True, pause_index := 0\<rparr>
      else if pause_break s1 then
        let s2 = s1\<lparr>pause_buffer := (pause_buffer s1)[pause_index s1 := c], pause_index := pause_index s1 + 1\<rparr> in
        if pause_index s2 \<ge> 6 then let s3 = s2\<lparr>pause_break := False\<rparr> in event_buffer_put (key_ev KEY_PAUSE NUL True s3) s3 else s2
      else if c = 0xE0 then s1\<lparr>ext_scancode := True\<rparr>
      else let pressed = (c AND 0x80 = 0); k = c AND 0x7F; s2 = handle_ctrl_alt_combo k pressed s1 in
        if ext_scancode s2 then (handle_extended_scancode k pressed s2)\<lparr>ext_scancode := False\<rparr>
        else let s3 = unlatch k pressed (handle_special_key k pressed s2) in
          if is_hotkey k pressed s3 then fire_hotkey k s3
          else if pressed then key_pressed k s3 else s3)"

definition keyboard_handler :: "kbd \<Rightarrow> kbd" where
  "keyboard_handler s =
     (let (status, s1) = k_inb 0x64 s in
      if status AND 0x01 = 0 \<or> status AND 0x20 \<noteq> 0 then s1
      else let (c, s2) = k_inb 0x60 s1 in keyboard_process_scancode c s2)"

definition keyboard_inject_scancode :: "u8 \<Rightarrow> kbd \<Rightarrow> kbd" where
  "keyboard_inject_scancode c s = (keyboard_process_scancode c (s\<lparr>k_if := False\<rparr>))\<lparr>k_if := k_if s\<rparr>"

definition keyboard_inject_event :: "u8 \<Rightarrow> byte \<Rightarrow> bool \<Rightarrow> bool \<Rightarrow> bool \<Rightarrow> bool \<Rightarrow> bool \<Rightarrow> kbd \<Rightarrow> kbd" where
  "keyboard_inject_event c a pressed shift ctrl alt caps s =
     (let s1 = s\<lparr>k_if := False, shift_pressed := shift, ctrl_pressed := ctrl, alt_pressed := alt, caps_lock := caps, last_scancode := c\<rparr>;
          s2 = unlatch c pressed (scancode_buffer_put c s1);
          s3 = (if is_hotkey c pressed s2 then fire_hotkey c s2 else s2);
          s4 = event_buffer_put (key_ev c a pressed s3) s3;
          s5 = (if pressed \<and> a \<noteq> NUL
                then if ctrl_pressed s4 then buffer_put (ctrl_char a) s4 else if \<not> alt_pressed s4 then buffer_put a s4 else s4
                else s4)
      in s5\<lparr>k_if := k_if s\<rparr>)"

subsection \<open>The interface of the driver\<close>

definition keyboard_set_echo_mode :: "bool \<Rightarrow> kbd \<Rightarrow> kbd" where "keyboard_set_echo_mode v s = s\<lparr>echo_mode := v\<rparr>"
definition keyboard_get_echo_mode :: "kbd \<Rightarrow> bool" where "keyboard_get_echo_mode s = echo_mode s"
definition keyboard_get_scancode :: "kbd \<Rightarrow> u8 \<times> kbd" where
  "keyboard_get_scancode s = (if kr_count (scancode_buffer s) = 0 then (0, s) else scancode_buffer_get s)"
definition keyboard_scancode_available :: "kbd \<Rightarrow> bool" where "keyboard_scancode_available s \<longleftrightarrow> kr_count (scancode_buffer s) > 0"
definition keyboard_scancode_to_ascii :: "u8 \<Rightarrow> kbd \<Rightarrow> byte" where
  "keyboard_scancode_to_ascii c s = get_ascii s c (keyboard_effective_shift c (shift_pressed s) (caps_lock s))"
definition keyboard_available :: "kbd \<Rightarrow> bool" where "keyboard_available s \<longleftrightarrow> kr_count (keyboard_buffer s) > 0"
definition keyboard_event_available :: "kbd \<Rightarrow> bool" where "keyboard_event_available s \<longleftrightarrow> kr_count (event_buffer s) > 0"

definition keyboard_try_get_event :: "kbd \<Rightarrow> (key_event \<times> kbd) option" where
  "keyboard_try_get_event s = (if kr_count (event_buffer s) = 0 then None else Some (event_buffer_get s))"

text \<open>The waiting calls; \<open>envs\<close> is what the interrupts do at each \<^verbatim>\<open>hlt\<close>, \<open>None\<close> that none comes any more.
  The interrupt flag is cleared again only if it was clear before.\<close>

fun wait_until :: "(kbd \<Rightarrow> bool) \<Rightarrow> (kbd \<Rightarrow> kbd) list \<Rightarrow> kbd \<Rightarrow> kbd option" where
  "wait_until ready envs s = (if ready s then Some s
     else case envs of [] \<Rightarrow> None | f # fs \<Rightarrow> wait_until ready fs (f (s\<lparr>k_if := True\<rparr>)))"

declare wait_until.simps [simp del]

definition keyboard_getchar :: "(kbd \<Rightarrow> kbd) list \<Rightarrow> kbd \<Rightarrow> (byte \<times> kbd) option" where
  "keyboard_getchar envs s = map_option (\<lambda>s1. buffer_get (if k_if s then s1 else s1\<lparr>k_if := False\<rparr>)) (wait_until keyboard_available envs s)"

definition keyboard_get_event :: "(kbd \<Rightarrow> kbd) list \<Rightarrow> kbd \<Rightarrow> (key_event \<times> kbd) option" where
  "keyboard_get_event envs s = map_option (\<lambda>s1. event_buffer_get (if k_if s then s1 else s1\<lparr>k_if := False\<rparr>)) (wait_until keyboard_event_available envs s)"

definition keyboard_caps_lock :: "kbd \<Rightarrow> bool" where "keyboard_caps_lock s = caps_lock s"
definition keyboard_num_lock :: "kbd \<Rightarrow> bool" where "keyboard_num_lock s = num_lock s"
definition keyboard_scroll_lock :: "kbd \<Rightarrow> bool" where "keyboard_scroll_lock s = scroll_lock s"

definition clear_rings :: "kbd \<Rightarrow> kbd" where
  "clear_rings s = s\<lparr>keyboard_buffer := kring_clear (keyboard_buffer s), event_buffer := kring_clear (event_buffer s),
     scancode_buffer := kring_clear (scancode_buffer s)\<rparr>"

definition keyboard_clear_buffers :: "kbd \<Rightarrow> kbd" where
  "keyboard_clear_buffers s = (clear_rings s)\<lparr>shift_pressed := False, ctrl_pressed := False, alt_pressed := False,
     ext_scancode := False, pause_break := False, pause_index := 0, hotkey_latched_scancode := -1\<rparr>"

definition keyboard_get_last_scancode :: "kbd \<Rightarrow> u8" where "keyboard_get_last_scancode s = last_scancode s"
definition keyboard_set_layout :: "nat \<Rightarrow> kbd \<Rightarrow> kbd" where
  "keyboard_set_layout i s = (if i < LAYOUT_COUNT then s\<lparr>current_layout := i\<rparr> else s)"
definition keyboard_get_layout :: "kbd \<Rightarrow> nat" where "keyboard_get_layout s = current_layout s"
definition keyboard_set_hotkey_handler :: "addr \<Rightarrow> kbd \<Rightarrow> kbd" where "keyboard_set_hotkey_handler h s = s\<lparr>hotkey_handler := h\<rparr>"

text \<open>Draining the output buffer of the controller; a controller that always has data keeps the loop going.\<close>

partial_function (option) drain_output :: "kbd \<Rightarrow> kbd option" where
  "drain_output s = (let (v, s1) = k_inb 0x64 s in if v AND 0x01 = 0 then Some s1 else drain_output (snd (k_inb 0x60 s1)))"

definition keyboard_init :: "kbd \<Rightarrow> kbd option" where
  "keyboard_init s0 =
     (let s1 = (clear_rings s0)\<lparr>shift_pressed := False, ctrl_pressed := False, alt_pressed := False, caps_lock := False,
            num_lock := False, scroll_lock := False, echo_mode := True, ext_scancode := False, pause_break := False,
            pause_index := 0, hotkey_latched_scancode := -1\<rparr> in
      case drain_output (k_outb 0x64 0xAD s1) of
        None \<Rightarrow> None
      | Some s2 \<Rightarrow>
          let (_, s3) = keyboard_read_response (keyboard_send_command 0xF4 (k_outb 0x64 0xAE s2));
              s4 = keyboard_set_leds False False False s3;
              (v, s5) = k_inb 0x21 s4
          in Some (k_outb 0x21 (v AND 0xFD) s5))"

end
