(* ===== verification/Serial.thy ===== *)
theory Serial
  imports Port_Io
begin

unbundle bit_operations_syntax

section \<open>The serial line and the power switch\<close>

text \<open>
  Model of \<^verbatim>\<open>src/kernel/drivers/serial.c\<close> over the ports of \<open>Port_Io\<close>, and of \<^verbatim>\<open>power.c\<close>.  The loops that poll
  the line end only when the device is ready: \<open>None\<close> when it never is.  Restarting and switching off write
  to ports and then halt for good, which is recorded.
\<close>

definition SERIAL_COM1 :: nat where "SERIAL_COM1 = 0x3F8"

definition serial_init :: "nat \<Rightarrow> port_io \<Rightarrow> port_io" where
  "serial_init port io =
     outb (port + 4) 0x0B (outb (port + 2) 0xC7 (outb (port + 3) 0x03 (outb (port + 1) 0x00
       (outb (port + 0) 0x03 (outb (port + 3) 0x80 (outb (port + 1) 0x00 io))))))"

definition serial_received :: "nat \<Rightarrow> port_io \<Rightarrow> bool \<times> port_io" where
  "serial_received port io = (let (v, io1) = inb (port + 5) io in (v AND 1 \<noteq> 0, io1))"

definition serial_transmit_empty :: "nat \<Rightarrow> port_io \<Rightarrow> bool \<times> port_io" where
  "serial_transmit_empty port io = (let (v, io1) = inb (port + 5) io in (v AND 0x20 \<noteq> 0, io1))"

partial_function (option) poll_port :: "(port_io \<Rightarrow> bool \<times> port_io) \<Rightarrow> port_io \<Rightarrow> port_io option" where
  "poll_port ready io = (let (ok, io1) = ready io in if ok then Some io1 else poll_port ready io1)"

definition serial_read_char :: "nat \<Rightarrow> port_io \<Rightarrow> (byte \<times> port_io) option" where
  "serial_read_char port io = do {
     io1 \<leftarrow> poll_port (serial_received port) io;
     let (v, io2) = inb port io1;
     Some (char_of (unat v), io2) }"

definition serial_write_char :: "nat \<Rightarrow> byte \<Rightarrow> port_io \<Rightarrow> port_io option" where
  "serial_write_char port c io = do {
     io1 \<leftarrow> poll_port (serial_transmit_empty port) io;
     Some (outb port (word_of_nat (of_char c)) io1) }"

text \<open>Characters one after the other; \<^verbatim>\<open>serial_write\<close> stops at a null.\<close>

primrec serial_puts :: "nat \<Rightarrow> string \<Rightarrow> port_io \<Rightarrow> port_io option" where
  "serial_puts port [] io = Some io"
| "serial_puts port (c # cs) io = do { io1 \<leftarrow> serial_write_char port c io; serial_puts port cs io1 }"

definition serial_write :: "nat \<Rightarrow> string \<Rightarrow> port_io \<Rightarrow> port_io option" where
  "serial_write port s io = serial_puts port (takeWhile ((\<noteq>) NUL) s) io"

subsection \<open>Power\<close>

definition POWER_CAD_IGNORE :: nat where "POWER_CAD_IGNORE = 0"
definition POWER_CAD_REBOOT :: nat where "POWER_CAD_REBOOT = 1"

record power_state =
  g_cad_mode :: nat
  pw_out :: "(nat \<times> nat) list"
  pw_halted :: bool

definition power_set_ctrl_alt_del_mode :: "nat \<Rightarrow> power_state \<Rightarrow> power_state" where
  "power_set_ctrl_alt_del_mode m s = s\<lparr>g_cad_mode := (if m = POWER_CAD_IGNORE then POWER_CAD_IGNORE else POWER_CAD_REBOOT)\<rparr>"

definition power_get_ctrl_alt_del_mode :: "power_state \<Rightarrow> nat" where
  "power_get_ctrl_alt_del_mode s = g_cad_mode s"

definition power_reboot :: "power_state \<Rightarrow> power_state" where
  "power_reboot s = s\<lparr>pw_out := pw_out s @ [(0x64, 0xFE)], pw_halted := True\<rparr>"

definition power_poweroff :: "power_state \<Rightarrow> power_state" where
  "power_poweroff s = s\<lparr>pw_out := pw_out s @ [(0x604, 0x2000), (0xB004, 0x2000), (0x4004, 0x3400)], pw_halted := True\<rparr>"

subsection \<open>What is written goes out\<close>

text \<open>A line that is ready again and again.\<close>

definition line_drains :: "nat \<Rightarrow> port_io \<Rightarrow> bool" where
  "line_drains port io \<longleftrightarrow> (\<forall>t. \<exists>t' \<ge> t. port_in io t' (port + 5) AND 0x20 \<noteq> 0)"

lemma poll_transmit:
  "port_in io (port_time io + d) (port + 5) AND 0x20 \<noteq> 0 \<Longrightarrow>
    \<exists>io'. poll_port (serial_transmit_empty port) io = Some io' \<and> port_in io' = port_in io \<and> port_out io' = port_out io"
proof (induction d arbitrary: io)
  case 0
  then show ?case by (subst poll_port.simps) (simp add: serial_transmit_empty_def inb_def)
next
  case (Suc d)
  let ?io1 = "io\<lparr>port_time := port_time io + 1\<rparr>"
  have "\<exists>io'. poll_port (serial_transmit_empty port) ?io1 = Some io' \<and> port_in io' = port_in ?io1 \<and> port_out io' = port_out ?io1"
    by (rule Suc.IH) (use Suc.prems in simp)
  then show ?case by (subst poll_port.simps) (auto simp: serial_transmit_empty_def inb_def)
qed

lemma write_char_out:
  assumes "line_drains port io"
  shows "\<exists>io'. serial_write_char port c io = Some io' \<and> line_drains port io' \<and> port_out io' = port_out io @ [(port, word_of_nat (of_char c))]"
proof -
  obtain t' where t': "t' \<ge> port_time io" "port_in io t' (port + 5) AND 0x20 \<noteq> 0" using assms unfolding line_drains_def by blast
  obtain io' where p: "poll_port (serial_transmit_empty port) io = Some io'" "port_in io' = port_in io" "port_out io' = port_out io"
    using poll_transmit [of io "t' - port_time io" port] t' by auto
  then show ?thesis using assms by (auto simp: serial_write_char_def outb_def line_drains_def)
qed

text \<open>A text is sent as a whole and in order, if the device is ready for the next character again and again.\<close>

theorem serial_write_sends:
  assumes "line_drains port io" "NUL \<notin> set s"
  shows "\<exists>io'. serial_write port s io = Some io' \<and> port_out io' = port_out io @ map (\<lambda>c. (port, word_of_nat (of_char c))) s"
proof -
  have "line_drains port io \<Longrightarrow> \<exists>io'. serial_puts port cs io = Some io' \<and> port_out io' = port_out io @ map (\<lambda>c. (port, word_of_nat (of_char c))) cs" for cs
  proof (induction cs arbitrary: io)
    case (Cons c cs)
    obtain io1 where w: "serial_write_char port c io = Some io1" "line_drains port io1" "port_out io1 = port_out io @ [(port, word_of_nat (of_char c))]"
      using write_char_out [OF Cons.prems] by blast
    show ?case using Cons.IH [OF w(2)] w by auto
  qed simp
  moreover
  have "takeWhile ((\<noteq>) NUL) s = s" using assms(2) by (auto simp: takeWhile_eq_all_conv)
  then have "serial_write port s io = serial_puts port s io" by (simp only: serial_write_def)
  ultimately show ?thesis using assms(1) by simp
qed

text \<open>A device that is ready at every third look.\<close>

theorem serial_write_sends_witness:
  "\<exists>io'. serial_write 0x3F8 ''ok'' \<lparr>port_in = (\<lambda>t p. if t mod 3 = 2 then 0x20 else 0), port_time = 0, port_out = []\<rparr> = Some io' \<and>
     port_out io' = [(0x3F8, 0x6F), (0x3F8, 0x6B)]"
proof -
  have "\<exists>t' \<ge> t. t' mod 3 = 2" for t :: nat by (rule exI [of _ "3 * t + 2"]) presburger
  then have "line_drains 0x3F8 \<lparr>port_in = (\<lambda>t p. if t mod 3 = 2 then 0x20 else 0), port_time = 0, port_out = []\<rparr>"
    by (fastforce simp: line_drains_def)
  from serial_write_sends [OF this, of "''ok''"] show ?thesis by simp
qed

end
