(* ===== verification/Valloc.thy ===== *)
theory Valloc
  imports Heap_Client
begin

section \<open>Memory for the file systems\<close>

text \<open>
  The file systems obtain memory with \<^verbatim>\<open>valloc\<close> and give it back with \<^verbatim>\<open>vfree\<close>.  This
  theory holds the contract they rely on.  \<open>quiet\<close> says that the word before every live payload
  (the \<^verbatim>\<open>prev\<close> field of its header) is null; every allocation keeps it, and so \<^verbatim>\<open>vfree\<close> of
  memory from \<^verbatim>\<open>valloc\<close> releases nothing.  \<open>room h r\<close> says that some free block holds
  \<open>r\<close> bytes: then smaller requests succeed, and the room shrinks by the size and a header.
\<close>

definition quiet :: "mm_state \<Rightarrow> bool" where
  "quiet h \<longleftrightarrow> (\<forall>(p, n) \<in> live h. load32 (mm_mem h) (p - 4) = 0)"

definition mem_ok :: "mm_state \<Rightarrow> bool" where
  "mem_ok h \<longleftrightarrow> heap_ok h \<and> quiet h"

definition room :: "mm_state \<Rightarrow> nat \<Rightarrow> bool" where
  "room h r \<longleftrightarrow> (\<exists>b k. (b, k, True) \<in> set (layout h) \<and> r \<le> k)"

lemma mem_ok_heap: "mem_ok h \<Longrightarrow> heap_ok h"
  by (simp add: mem_ok_def)

lemma room_mono: "room h r \<Longrightarrow> r' \<le> r \<Longrightarrow> room h r'"
  unfolding room_def using order_trans by blast

lemma lalloc_room:
  assumes "lalloc n l = Some (b, l')" "(a, k, True) \<in> set l" "n + 36 \<le> k"
  shows "\<exists>a' k'. (a', k', True) \<in> set l' \<and> k - n - 20 \<le> k'"
  using assms
proof (induction n l arbitrary: b l' rule: lalloc.induct)
  case (2 n c j f r)
  show ?case
  proof (cases "f \<and> n \<le> j")
    case True
    show ?thesis
    proof (cases "(a, k, True) = (c, j, f)")
      case True
      then show ?thesis using 2(2,4)
        by (intro exI [of _ "c + 20 + n"] exI [of _ "j - n - 20"]) auto
    next
      case False
      then have "(a, k, True) \<in> set r" using 2(3) by auto
      moreover have "set r \<subseteq> set l'" using 2(2) \<open>f \<and> n \<le> j\<close> by (auto split: if_splits)
      ultimately show ?thesis by (intro exI [of _ a] exI [of _ k]) auto
    qed
  next
    case False
    then obtain r' where r: "lalloc n r = Some (b, r')" "l' = (c, j, f) # r'"
      using 2(2) by auto
    have "(a, k, True) \<in> set r" using False 2(3,4) by auto
    from 2(1) [OF False r(1) this 2(4)] r(2) show ?thesis by auto
  qed
qed simp

text \<open>What a call of \<^verbatim>\<open>valloc\<close> does.\<close>

definition valloc_got :: "mm_state \<Rightarrow> nat \<Rightarrow> addr \<Rightarrow> mm_state \<Rightarrow> bool" where
  "valloc_got h n p h' \<longleftrightarrow> mem_ok h' \<and> p \<noteq> 0 \<and> p \<notin> fst ` live h \<and>
     (\<exists>k. live h' = insert (p, k) (live h) \<and> (n \<le> 2 ^ 32 - 8 \<longrightarrow> n \<le> k)) \<and>
     (\<forall>(q, j) \<in> live h. \<forall>i < j. mm_mem h' (q + i) = mm_mem h (q + i))"

lemma valloc_cases:
  assumes ok: "mem_ok h" and n: "n < 2 ^ 32"
  shows "valloc h n = Some (0, h) \<or> (\<exists>p h'. valloc h n = Some (p, h') \<and> valloc_got h n p h')"
proof (cases "n = 0 \<or> lalloc (align_size n) (layout h) = None")
  case True
  then show ?thesis
    using kmalloc_outcome [OF mem_ok_heap [OF ok] _ n] kmalloc_zero
    by (cases "n = 0") (auto simp: valloc_def)
next
  case False
  have hok: "heap_ok h" by (rule mem_ok_heap [OF ok])
  obtain b l where x: "lalloc (align_size n) (layout h) = Some (b, l)" using False by auto
  from kmalloc_outcome [OF hok _ n] False x obtain h' where h':
    "kmalloc h n = Some (b + 20, h')" "b_prev (mm_mem h') b = 0"
    "\<forall>(p, n) \<in> live h. load32 (mm_mem h') (p - 4) = load32 (mm_mem h) (p - 4)" by auto
  from kmalloc_cases [OF hok n] h'(1) obtain k where K: "heap_ok h'" "(b + 20, k) \<notin> live h"
    "live h' = insert (b + 20, k) (live h)" "n \<le> 2 ^ 32 - 8 \<longrightarrow> n \<le> k"
    "\<forall>(q, j) \<in> live h. \<forall>i < j. mm_mem h' (q + i) = mm_mem h (q + i)" by auto
  have "load32 (mm_mem h') (b + 20 - 4) = 0" using h'(2) by (simp add: b_prev_def add.commute)
  then have "quiet h'" using ok h'(3) unfolding quiet_def mem_ok_def K(3) by (auto dest!: bspec)
  moreover have "b + 20 \<notin> fst ` live h"
  proof
    assume "b + 20 \<in> fst ` live h"
    then obtain j where "(b + 20, j) \<in> live h" by auto
    with kheap.live_unique [OF K(1), of "b + 20" k j] K(2,3) show False by auto
  qed
  moreover have "\<exists>j. live h' = insert (b + 20, j) (live h) \<and> (n \<le> 2 ^ 32 - 8 \<longrightarrow> n \<le> j)"
    using K(3,4) by blast
  moreover have "b + 20 \<noteq> 0" by simp
  ultimately have "valloc_got h n (b + 20) h'" using K(1,5) unfolding valloc_got_def mem_ok_def by blast
  then show ?thesis using h'(1) by (auto simp: valloc_def)
qed

lemma valloc_room:
  assumes ok: "mem_ok h" and n: "0 < n" "n \<le> 2 ^ 32 - 8" and r: "room h r" "align_size n + 36 \<le> r"
  obtains p h' where "valloc h n = Some (p, h')" "valloc_got h n p h'" "room h' (r - align_size n - 20)"
proof -
  have hok: "heap_ok h" and n32: "n < 2 ^ 32" using ok n by (auto simp: mem_ok_def)
  obtain a k where a: "(a, k, True) \<in> set (layout h)" "r \<le> k" using r(1) by (auto simp: room_def)
  then obtain b l where x: "lalloc (align_size n) (layout h) = Some (b, l)"
    using lalloc_None_iff [of "align_size n" "layout h"] r(2) by fastforce
  from kmalloc_outcome [OF hok n(1) n32] x obtain h' where h': "valloc h n = Some (b + 20, h')" "layout h' = l"
    by (auto simp: valloc_def)
  then have got: "valloc_got h n (b + 20) h'" using valloc_cases [OF ok n32] by auto
  have "room h' (k - align_size n - 20)"
    using lalloc_room [OF x a(1)] r(2) a(2) h'(2) by (auto simp: room_def)
  from room_mono [OF this, of "r - align_size n - 20"] a(2) show ?thesis by (intro that [OF h'(1) got]) simp
qed

lemma valloc_zero: "valloc h 0 = Some (0, h)"
  by (simp add: valloc_def kmalloc_zero)

lemma vfree_quiet: "mem_ok h \<Longrightarrow> p = 0 \<or> p \<in> fst ` live h \<Longrightarrow> vfree h p = Some h"
  by (auto simp: vfree_def mem_ok_def quiet_def kfree_def)

text \<open>Writing inside one live block.\<close>

lemma mem_ok_put_bytes:
  assumes ok: "mem_ok h" and p: "(p, n) \<in> live h" and le: "p \<le> q" "q + length xs \<le> p + n"
  shows "mem_ok (h\<lparr>mm_mem := put_bytes (mm_mem h) q xs\<rparr>)"
    "live (h\<lparr>mm_mem := put_bytes (mm_mem h) q xs\<rparr>) = live h"
    "layout (h\<lparr>mm_mem := put_bytes (mm_mem h) q xs\<rparr>) = layout h"
proof -
  have hok: "heap_ok h" by (rule mem_ok_heap [OF ok])
  note W = put_bytes_write [OF hok p le]
  show "live (h\<lparr>mm_mem := put_bytes (mm_mem h) q xs\<rparr>) = live h" by (rule W(3))
  show "layout (h\<lparr>mm_mem := put_bytes (mm_mem h) q xs\<rparr>) = layout h" by (rule W(2))
  have "load32 (put_bytes (mm_mem h) q xs) (r - 4) = load32 (mm_mem h) (r - 4)" if "(r, j) \<in> live h" for r j
  proof (rule load32_cong)
    fix i :: nat assume i: "i < 4"
    from p that obtain b c where bc: "b \<in> set (blocks h)" "c \<in> set (blocks h)" "p = b + 20"
      "n = b_size (mm_mem h) b" "r = c + 20" using heap_ok_live [OF hok] by auto
    have "regions h (blocks h)" using hok by (simp add: heap_ok_def heap_wf_def)
    from blocks_apart [OF this bc(1,2)] bc le i
    show "put_bytes (mm_mem h) q xs (r - 4 + i) = mm_mem h (r - 4 + i)"
      by (auto simp: put_bytes_def)
  qed
  with W ok show "mem_ok (h\<lparr>mm_mem := put_bytes (mm_mem h) q xs\<rparr>)"
    by (auto simp: mem_ok_def quiet_def)
qed

lemma room_put_bytes [simp]:
  "mem_ok h \<Longrightarrow> (p, n) \<in> live h \<Longrightarrow> p \<le> q \<Longrightarrow> q + length xs \<le> p + n \<Longrightarrow>
     room (h\<lparr>mm_mem := put_bytes (mm_mem h) q xs\<rparr>) r = room h r"
  by (simp add: room_def mem_ok_put_bytes(3))

lemma got_block: "valloc_got h n p h' \<Longrightarrow> n \<le> 2 ^ 32 - 8 \<Longrightarrow> \<exists>k. (p, k) \<in> live h' \<and> n \<le> k"
  unfolding valloc_got_def by blast


lemma valloc_fresh:
  assumes "mem_ok h" "valloc h n = Some (p, h')" "p \<noteq> 0" "n < 2 ^ 32"
  shows "p \<notin> fst ` live h"
  using valloc_cases [OF assms(1,4)] assms(2,3) by (auto simp: valloc_got_def)

end
