(* ===== verification/Memfs.thy ===== *)
theory Memfs
  imports Valloc
begin

section \<open>The in-memory file system: the model\<close>

text \<open>
  Model of \<^verbatim>\<open>src/kernel/drivers/filesystem/memfs.c\<close>.  The objects the code obtains with \<^verbatim>\<open>valloc\<close>
  are kept by their address in typed stores (inodes, directory entries, file systems); the heap
  itself is the state of \<^verbatim>\<open>mm.c\<close>, on which every \<^verbatim>\<open>valloc\<close> and \<^verbatim>\<open>vfree\<close> really runs, and the
  contents of files and device buffers are its bytes.  A name is kept with the address of its
  copy.  The chain of entries of a directory is the list of their addresses, so \<^verbatim>\<open>d->next\<close> is the
  successor in that list.  Releasing an object removes it from its store.

  The null pointer is address 0; an operation is \<open>None\<close> where the code would follow a null or
  dangling pointer, or copy a path component of more than 255 bytes into its buffer of 256.
  A \<^verbatim>\<open>path\<close> argument is a string and a \<^verbatim>\<open>buf\<close> argument the list of its bytes, so they are never
  null.  Where the code ends in a call of a device's function the result is \<open>Dev_call\<close> with the
  function's address and its context: the caller gets what that function returns.
\<close>

datatype memfs_node_type = MEMFS_TYPE_FILE | MEMFS_TYPE_DIR | MEMFS_TYPE_SYMLINK | MEMFS_TYPE_DEVICE
  | MEMFS_TYPE_FIFO | MEMFS_TYPE_SOCKET | MEMFS_TYPE_CHARDEV | MEMFS_TYPE_BLOCKDEV

definition MEMFS_DEV_READ :: u32 where "MEMFS_DEV_READ = 1"
definition MEMFS_DEV_WRITE :: u32 where "MEMFS_DEV_WRITE = 2"

record device =
  dv_buffer :: addr
  dv_size :: nat
  dv_flags :: u32
  dv_read :: addr
  dv_write :: addr
  dv_ioctl :: addr
  dv_ctx :: addr

text \<open>The union of an inode.\<close>

datatype ibody = File_body (f_size: nat) (f_data: addr)
  | Dir_body (dir_entries: "addr list") (dir_count: nat) (dir_parent: addr)
  | Symlink_body addr
  | Device_body (dev_of: device)

record inode =
  i_type :: memfs_node_type
  i_name :: "(addr \<times> string) option"
  i_mode :: u32
  i_uid :: u16
  i_gid :: u16
  i_links :: nat
  i_body :: ibody

record dentry =
  d_name :: "(addr \<times> string) option"
  d_inode :: addr
  d_mounted_fs :: addr

record memfs =
  m_root :: addr
  m_total_memory :: nat
  m_used_memory :: nat
  m_inode_count :: nat

record fstate =
  fs_mm :: mm_state
  inodes :: "addr \<Rightarrow> inode option"
  dentries :: "addr \<Rightarrow> dentry option"
  memfss :: "addr \<Rightarrow> memfs option"

datatype 'r io = Ret 'r | Dev_call addr addr

abbreviation (input) sizeof_dentry :: nat where "sizeof_dentry \<equiv> 16"
abbreviation (input) sizeof_inode :: nat where "sizeof_inode \<equiv> 56"
abbreviation (input) sizeof_memfs :: nat where "sizeof_memfs \<equiv> 16"

definition set_inode :: "addr \<Rightarrow> inode \<Rightarrow> fstate \<Rightarrow> fstate" where
  "set_inode a i s = s\<lparr>inodes := (inodes s)(a \<mapsto> i)\<rparr>"

definition set_dentry :: "addr \<Rightarrow> dentry \<Rightarrow> fstate \<Rightarrow> fstate" where
  "set_dentry a d s = s\<lparr>dentries := (dentries s)(a \<mapsto> d)\<rparr>"

definition set_memfs :: "addr \<Rightarrow> memfs \<Rightarrow> fstate \<Rightarrow> fstate" where
  "set_memfs a f s = s\<lparr>memfss := (memfss s)(a \<mapsto> f)\<rparr>"

subsection \<open>Names and entries\<close>

definition dup_name :: "string option \<Rightarrow> mm_state \<Rightarrow> ((addr \<times> string) option \<times> mm_state) option" where
  "dup_name nm h = do {
     (n, h1) \<leftarrow> valloc h 256;
     if n = 0 then Some (None, h1)
     else case nm of None \<Rightarrow> None | Some x \<Rightarrow> Some (Some (n, take 255 x), h1) }"

definition dentry_create :: "addr \<Rightarrow> string option \<Rightarrow> fstate \<Rightarrow> (addr \<times> fstate) option" where
  "dentry_create ino nm s = do {
     (d, h1) \<leftarrow> valloc (fs_mm s) sizeof_dentry;
     if d = 0 then Some (0, s\<lparr>fs_mm := h1\<rparr>)
     else do {
       (n, h2) \<leftarrow> dup_name nm h1;
       Some (d, set_dentry d \<lparr>d_name = n, d_inode = ino, d_mounted_fs = 0\<rparr> (s\<lparr>fs_mm := h2\<rparr>)) } }"

definition path_skip :: "string \<Rightarrow> string" where
  "path_skip p = dropWhile ((=) CHR ''/'') p"

definition path_comp_len :: "string \<Rightarrow> nat" where
  "path_comp_len p = length (takeWhile ((\<noteq>) CHR ''/'') p)"

definition add_entry :: "addr \<Rightarrow> addr \<Rightarrow> fstate \<Rightarrow> fstate option" where
  "add_entry dir d s = do {
     i \<leftarrow> inodes s dir;
     case i_body i of
       Dir_body es n p \<Rightarrow> Some (set_inode dir (i\<lparr>i_body := Dir_body (d # es) (add32 n 1) p\<rparr>) s)
     | _ \<Rightarrow> None }"

definition add_link :: "addr \<Rightarrow> fstate \<Rightarrow> fstate option" where
  "add_link a s = do { i \<leftarrow> inodes s a; Some (set_inode a (i\<lparr>i_links := add32 (i_links i) 1\<rparr>) s) }"

definition dir_add :: "addr \<Rightarrow> addr \<Rightarrow> fstate \<Rightarrow> (int \<times> fstate) option" where
  "dir_add dir child s =
     (if dir = 0 then Some (-1, s)
      else do {
        i \<leftarrow> inodes s dir;
        if i_type i \<noteq> MEMFS_TYPE_DIR \<or> child = 0 then Some (-1, s)
        else do {
          c \<leftarrow> inodes s child;
          (d, s1) \<leftarrow> dentry_create child (map_option snd (i_name c)) s;
          if d = 0 then Some (-1, s1)
          else do { s2 \<leftarrow> add_entry dir d s1; s3 \<leftarrow> add_link child s2; Some (0, s3) } } })"

text \<open>The scan of \<^verbatim>\<open>lookup_dentry\<close>; the result 0 is the null pointer.\<close>

fun scan_entries :: "fstate \<Rightarrow> addr list \<Rightarrow> string \<Rightarrow> addr option" where
  "scan_entries s [] nm = Some 0"
| "scan_entries s (d # ds) nm = do {
     e \<leftarrow> dentries s d;
     (_, x) \<leftarrow> d_name e;
     if x = nm then Some d else scan_entries s ds nm }"

fun dir_list :: "ibody \<Rightarrow> addr list option" where
  "dir_list (Dir_body es n p) = Some es"
| "dir_list _ = None"

definition lookup_dentry :: "fstate \<Rightarrow> addr \<Rightarrow> string \<Rightarrow> addr option" where
  "lookup_dentry s dir nm =
     (if dir = 0 then Some 0
      else do {
        i \<leftarrow> inodes s dir;
        if i_type i \<noteq> MEMFS_TYPE_DIR then Some 0
        else do { es \<leftarrow> dir_list (i_body i); scan_entries s es nm } })"

text \<open>The next component of a path, copied into \<^verbatim>\<open>char name[256]\<close>, and the rest of the path.\<close>

definition next_comp :: "string \<Rightarrow> (string \<times> string) option" where
  "next_comp p = (let len = path_comp_len p in
     if 255 < len then None else Some (take len p, path_skip (drop len p)))"

lemma path_skip_length: "length (path_skip p) \<le> length p"
  by (simp add: path_skip_def length_dropWhile_le)

lemma next_comp_shorter:
  assumes "next_comp p = Some (nm, r)" "p \<noteq> []"
  shows "length r < length p"
proof (cases p)
  case (Cons c q)
  have r: "r = path_skip (drop (path_comp_len p) p)"
    using assms(1) by (auto simp: next_comp_def Let_def split: if_splits)
  show ?thesis
  proof (cases "c = CHR ''/''")
    case True
    then have "r = path_skip q" using r Cons by (simp add: path_comp_len_def path_skip_def)
    then show ?thesis using path_skip_length [of q] Cons by simp
  next
    case False
    then have "0 < path_comp_len p" using Cons by (simp add: path_comp_len_def)
    then show ?thesis using r path_skip_length [of "drop (path_comp_len p) p"] Cons by simp
  qed
qed (use assms in simp)

subsection \<open>Walking a path\<close>

text \<open>Where an entry leads: the root of the file system mounted on it, or its inode; with the file
  system this is part of.\<close>

definition follow :: "fstate \<Rightarrow> addr \<Rightarrow> dentry \<Rightarrow> (addr \<times> addr) option" where
  "follow s cur_fs e =
     (if d_mounted_fs e \<noteq> 0 then do { f \<leftarrow> memfss s (d_mounted_fs e); Some (m_root f, d_mounted_fs e) }
      else Some (d_inode e, cur_fs))"

definition is_dir :: "fstate \<Rightarrow> addr \<Rightarrow> bool option" where
  "is_dir s a = (if a = 0 then Some False else map_option (\<lambda>i. i_type i = MEMFS_TYPE_DIR) (inodes s a))"

text \<open>The loops of \<^verbatim>\<open>lookup_path_dentry\<close> and \<^verbatim>\<open>lookup_path_ex\<close>.  The first returns the entry, the file
  system and the directory it was found in, the second the inode and its file system; null is 0.\<close>

function walk_dentry :: "fstate \<Rightarrow> addr \<Rightarrow> addr \<Rightarrow> string \<Rightarrow> (addr \<times> addr \<times> addr) option" where
  "walk_dentry s cur_fs cur path =
     (if path = [] then Some (0, 0, 0)
      else case is_dir s cur of
        None \<Rightarrow> None
      | Some False \<Rightarrow> Some (0, 0, 0)
      | Some True \<Rightarrow> (case next_comp path of
          None \<Rightarrow> None
        | Some (nm, rest) \<Rightarrow> (case lookup_dentry s cur nm of
            None \<Rightarrow> None
          | Some d \<Rightarrow>
              if d = 0 then Some (0, 0, 0)
              else if rest = [] then Some (d, cur_fs, cur)
              else (case dentries s d of None \<Rightarrow> None | Some e \<Rightarrow>
                (case follow s cur_fs e of None \<Rightarrow> None
                 | Some (nxt, nfs) \<Rightarrow> walk_dentry s nfs nxt rest)))))"
  by pat_completeness auto
termination by (relation "measure (\<lambda>(s, f, c, p). length p)") (auto dest: next_comp_shorter)

function walk_path :: "fstate \<Rightarrow> addr \<Rightarrow> addr \<Rightarrow> string \<Rightarrow> (addr \<times> addr) option" where
  "walk_path s cur_fs cur path =
     (if path = [] then Some (cur, cur_fs)
      else case is_dir s cur of
        None \<Rightarrow> None
      | Some False \<Rightarrow> Some (0, 0)
      | Some True \<Rightarrow> (case next_comp path of
          None \<Rightarrow> None
        | Some (nm, rest) \<Rightarrow> (case lookup_dentry s cur nm of
            None \<Rightarrow> None
          | Some d \<Rightarrow>
              if d = 0 then Some (0, 0)
              else (case dentries s d of None \<Rightarrow> None | Some e \<Rightarrow>
                (case follow s cur_fs e of None \<Rightarrow> None
                 | Some (nxt, nfs) \<Rightarrow> walk_path s nfs nxt rest)))))"
  by pat_completeness auto
termination by (relation "measure (\<lambda>(s, f, c, p). length p)") (auto dest: next_comp_shorter)

declare walk_dentry.simps [simp del] walk_path.simps [simp del]

definition absolute :: "string \<Rightarrow> bool" where
  "absolute p \<longleftrightarrow> p \<noteq> [] \<and> hd p = CHR ''/''"

definition lookup_path_dentry :: "fstate \<Rightarrow> addr \<Rightarrow> string \<Rightarrow> (addr \<times> addr \<times> addr) option" where
  "lookup_path_dentry s fs path =
     (if fs = 0 \<or> \<not> absolute path \<or> path = ''/'' then Some (0, 0, 0)
      else do { f \<leftarrow> memfss s fs; walk_dentry s fs (m_root f) (path_skip path) })"

definition lookup_path_ex :: "fstate \<Rightarrow> addr \<Rightarrow> string \<Rightarrow> (addr \<times> addr) option" where
  "lookup_path_ex s fs path =
     (if fs = 0 then Some (0, 0)
      else if path = ''/'' then do { f \<leftarrow> memfss s fs; Some (m_root f, fs) }
      else if \<not> absolute path then Some (0, 0)
      else do { f \<leftarrow> memfss s fs; walk_path s fs (m_root f) (path_skip path) })"

definition lookup_path :: "fstate \<Rightarrow> addr \<Rightarrow> string \<Rightarrow> addr option" where
  "lookup_path s fs path = map_option fst (lookup_path_ex s fs path)"

subsection \<open>Creating directories and files\<close>

definition count_inode :: "addr \<Rightarrow> fstate \<Rightarrow> fstate option" where
  "count_inode fs s = do { f \<leftarrow> memfss s fs; Some (set_memfs fs (f\<lparr>m_inode_count := add32 (m_inode_count f) 1\<rparr>) s) }"

definition new_inode :: "memfs_node_type \<Rightarrow> (addr \<times> string) option \<Rightarrow> ibody \<Rightarrow> inode" where
  "new_inode t nm b = \<lparr>i_type = t, i_name = nm, i_mode = 0, i_uid = 0, i_gid = 0, i_links = 0, i_body = b\<rparr>"

text \<open>One round of \<^verbatim>\<open>mkdir_p\<close>: the inode of the component (null when the function returns null), and the
  file system it belongs to.\<close>

definition mkdir_step :: "addr \<Rightarrow> addr \<Rightarrow> string \<Rightarrow> fstate \<Rightarrow> (addr \<times> addr \<times> fstate) option" where
  "mkdir_step cur_fs cur nm s = do {
     d \<leftarrow> lookup_dentry s cur nm;
     if d = 0 then do {
       (a, h1) \<leftarrow> valloc (fs_mm s) sizeof_inode;
       if a = 0 then Some (0, cur_fs, s\<lparr>fs_mm := h1\<rparr>)
       else do {
         (n, h2) \<leftarrow> dup_name (Some nm) h1;
         let s1 = set_inode a (new_inode MEMFS_TYPE_DIR n (Dir_body [] 0 cur)) (s\<lparr>fs_mm := h2\<rparr>);
         if n = None then Some (0, cur_fs, s\<lparr>fs_mm := h2\<rparr>)
         else do {
           (_, s2) \<leftarrow> dir_add cur a s1;
           s3 \<leftarrow> count_inode cur_fs s2;
           Some (a, cur_fs, s3) } } }
     else do {
       e \<leftarrow> dentries s d;
       (nxt, nfs) \<leftarrow> follow s cur_fs e;
       i \<leftarrow> inodes s nxt;
       Some (if i_type i = MEMFS_TYPE_DIR then nxt else 0, nfs, s) } }"

function mkdir_walk :: "addr \<Rightarrow> addr \<Rightarrow> string \<Rightarrow> fstate \<Rightarrow> (addr \<times> addr \<times> fstate) option" where
  "mkdir_walk cur_fs cur path s =
     (if path = [] then Some (cur, cur_fs, s)
      else case next_comp path of
        None \<Rightarrow> None
      | Some (nm, rest) \<Rightarrow> (case mkdir_step cur_fs cur nm s of
          None \<Rightarrow> None
        | Some (nxt, nfs, s1) \<Rightarrow> if nxt = 0 then Some (0, cur_fs, s1) else mkdir_walk nfs nxt rest s1))"
  by pat_completeness auto
termination by (relation "measure (\<lambda>(f, c, p, s). length p)") (auto dest: next_comp_shorter)

declare mkdir_walk.simps [simp del]

definition mkdir_p :: "addr \<Rightarrow> string \<Rightarrow> fstate \<Rightarrow> (addr \<times> addr \<times> fstate) option" where
  "mkdir_p fs path s = do { f \<leftarrow> memfss s fs; mkdir_walk fs (m_root f) (path_skip path) s }"

text \<open>The directory part and the last component of a path, at its last slash.\<close>

definition dir_part :: "string \<Rightarrow> string" where
  "dir_part p = rev (drop 1 (dropWhile ((\<noteq>) CHR ''/'') (rev p)))"

definition last_part :: "string \<Rightarrow> string" where
  "last_part p = rev (takeWhile ((\<noteq>) CHR ''/'') (rev p))"

definition split_parent :: "addr \<Rightarrow> string \<Rightarrow> fstate \<Rightarrow> (addr \<times> string \<times> addr \<times> fstate) option" where
  "split_parent fs path s =
     (if CHR ''/'' \<notin> set path then Some (0, [], fs, s)
      else if 255 < length (last_part path) \<or> 255 < length (dir_part path) then None
      else do {
        (p, owner, s1) \<leftarrow> mkdir_p fs (if dir_part path = [] then ''/'' else dir_part path) s;
        Some (p, last_part path, owner, s1) })"

text \<open>What \<^verbatim>\<open>memfs_create_dir\<close>, \<^verbatim>\<open>memfs_create_file\<close>, \<^verbatim>\<open>memfs_create_fifo\<close>, \<^verbatim>\<open>memfs_create_socket\<close> and the
  two device functions have in common: the type of the node and its part of the union.\<close>

definition create_node :: "memfs_node_type \<Rightarrow> (addr \<Rightarrow> ibody) \<Rightarrow> addr \<Rightarrow> string \<Rightarrow> fstate \<Rightarrow> (addr \<times> fstate) option" where
  "create_node t body fs path s =
     (if fs = 0 \<or> \<not> absolute path then Some (0, s)
      else do {
        (par, nm, owner, s1) \<leftarrow> split_parent fs path s;
        if par = 0 then Some (0, s1)
        else do {
          ex \<leftarrow> lookup_dentry s1 par nm;
          if ex \<noteq> 0 then do {
            e \<leftarrow> dentries s1 ex;
            if d_mounted_fs e \<noteq> 0
            then if t = MEMFS_TYPE_DIR
                 then do { f \<leftarrow> memfss s1 (d_mounted_fs e); Some (m_root f, s1) }
                 else Some (0, s1)
            else if d_inode e = 0 then Some (0, s1)
            else do { i \<leftarrow> inodes s1 (d_inode e); Some (if i_type i = t then d_inode e else 0, s1) } }
          else do {
            (a, h1) \<leftarrow> valloc (fs_mm s1) sizeof_inode;
            if a = 0 then Some (0, s1\<lparr>fs_mm := h1\<rparr>)
            else do {
              (n, h2) \<leftarrow> dup_name (Some nm) h1;
              (_, s2) \<leftarrow> dir_add par a (set_inode a (new_inode t n (body par)) (s1\<lparr>fs_mm := h2\<rparr>));
              s3 \<leftarrow> count_inode owner s2;
              Some (a, s3) } } } })"

definition memfs_create :: "nat \<Rightarrow> fstate \<Rightarrow> (addr \<times> fstate) option" where
  "memfs_create sz s = do {
     (fs, h1) \<leftarrow> valloc (fs_mm s) sizeof_memfs;
     if fs = 0 then Some (0, s\<lparr>fs_mm := h1\<rparr>)
     else do {
       (r, h2) \<leftarrow> valloc h1 sizeof_inode;
       if r = 0 then Some (0, s\<lparr>fs_mm := h2\<rparr>)
       else do {
         (n, h3) \<leftarrow> dup_name (Some ''/'') h2;
         if n = None then Some (0, s\<lparr>fs_mm := h3\<rparr>)
         else Some (fs, set_memfs fs \<lparr>m_root = r, m_total_memory = sz, m_used_memory = 0, m_inode_count = 1\<rparr>
                (set_inode r ((new_inode MEMFS_TYPE_DIR n (Dir_body [] 0 0))\<lparr>i_links := 1\<rparr>) (s\<lparr>fs_mm := h3\<rparr>))) } } }"

definition memfs_create_dir :: "addr \<Rightarrow> string \<Rightarrow> fstate \<Rightarrow> (addr \<times> fstate) option" where
  "memfs_create_dir = create_node MEMFS_TYPE_DIR (\<lambda>p. Dir_body [] 0 p)"

definition memfs_create_file :: "addr \<Rightarrow> string \<Rightarrow> fstate \<Rightarrow> (addr \<times> fstate) option" where
  "memfs_create_file = create_node MEMFS_TYPE_FILE (\<lambda>p. File_body 0 0)"

definition memfs_create_fifo :: "addr \<Rightarrow> string \<Rightarrow> fstate \<Rightarrow> (addr \<times> fstate) option" where
  "memfs_create_fifo = create_node MEMFS_TYPE_FIFO (\<lambda>p. File_body 0 0)"

definition memfs_create_socket :: "addr \<Rightarrow> string \<Rightarrow> fstate \<Rightarrow> (addr \<times> fstate) option" where
  "memfs_create_socket = create_node MEMFS_TYPE_SOCKET (\<lambda>p. File_body 0 0)"

definition memfs_create_device_buffer :: "addr \<Rightarrow> string \<Rightarrow> addr \<Rightarrow> nat \<Rightarrow> u32 \<Rightarrow> fstate \<Rightarrow> (addr \<times> fstate) option" where
  "memfs_create_device_buffer fs path buffer sz flags s =
     (if buffer = 0 \<or> sz = 0 then Some (0, s)
      else create_node MEMFS_TYPE_DEVICE (\<lambda>p. Device_body \<lparr>dv_buffer = buffer, dv_size = sz, dv_flags = flags,
             dv_read = 0, dv_write = 0, dv_ioctl = 0, dv_ctx = 0\<rparr>) fs path s)"

definition memfs_create_device_ops ::
    "addr \<Rightarrow> string \<Rightarrow> u32 \<Rightarrow> addr \<Rightarrow> addr \<Rightarrow> addr \<Rightarrow> addr \<Rightarrow> fstate \<Rightarrow> (addr \<times> fstate) option" where
  "memfs_create_device_ops fs path flags read_cb write_cb ioctl_cb ctx =
     create_node MEMFS_TYPE_DEVICE (\<lambda>p. Device_body \<lparr>dv_buffer = 0, dv_size = 0, dv_flags = flags,
       dv_read = read_cb, dv_write = write_cb, dv_ioctl = ioctl_cb, dv_ctx = ctx\<rparr>) fs path"

subsection \<open>Reading and writing\<close>

definition is_storage_node :: "memfs_node_type \<Rightarrow> bool" where
  "is_storage_node t \<longleftrightarrow> t = MEMFS_TYPE_FILE \<or> t = MEMFS_TYPE_FIFO \<or> t = MEMFS_TYPE_SOCKET"

definition is_stream_node :: "memfs_node_type \<Rightarrow> bool" where
  "is_stream_node t \<longleftrightarrow> t = MEMFS_TYPE_FIFO \<or> t = MEMFS_TYPE_SOCKET"

definition used_sub :: "addr \<Rightarrow> nat \<Rightarrow> fstate \<Rightarrow> fstate option" where
  "used_sub fs n s =
     (if fs = 0 then Some s
      else do { f \<leftarrow> memfss s fs; Some (set_memfs fs (f\<lparr>m_used_memory := m_used_memory f - n\<rparr>) s) })"

definition used_add :: "addr \<Rightarrow> nat \<Rightarrow> fstate \<Rightarrow> fstate option" where
  "used_add fs n s =
     (if fs = 0 then Some s
      else do { f \<leftarrow> memfss s fs; Some (set_memfs fs (f\<lparr>m_used_memory := add32 (m_used_memory f) n\<rparr>) s) })"

definition type_suffix :: "memfs_node_type \<Rightarrow> string" where
  "type_suffix t = (case t of MEMFS_TYPE_DIR \<Rightarrow> ''/'' | MEMFS_TYPE_SYMLINK \<Rightarrow> ''@'' | MEMFS_TYPE_DEVICE \<Rightarrow> ''*''
     | MEMFS_TYPE_FIFO \<Rightarrow> ''|'' | MEMFS_TYPE_SOCKET \<Rightarrow> ''='' | MEMFS_TYPE_CHARDEV \<Rightarrow> ''c''
     | MEMFS_TYPE_BLOCKDEV \<Rightarrow> ''b'' | _ \<Rightarrow> [])"

text \<open>The bytes of a block of memory, and writing them.\<close>

definition get_bytes :: "mem \<Rightarrow> addr \<Rightarrow> nat \<Rightarrow> byte list" where
  "get_bytes m a n = map (\<lambda>i. m (a + i)) [0..<n]"

definition fs_put :: "addr \<Rightarrow> byte list \<Rightarrow> fstate \<Rightarrow> fstate" where
  "fs_put a xs s = s\<lparr>fs_mm := (fs_mm s)\<lparr>mm_mem := put_bytes (mm_mem (fs_mm s)) a xs\<rparr>\<rparr>"

definition fs_get :: "fstate \<Rightarrow> addr \<Rightarrow> nat \<Rightarrow> byte list" where
  "fs_get s a n = get_bytes (mm_mem (fs_mm s)) a n"

definition fs_vfree :: "addr \<Rightarrow> fstate \<Rightarrow> fstate option" where
  "fs_vfree a s = do { h \<leftarrow> vfree (fs_mm s) a; Some (s\<lparr>fs_mm := h\<rparr>) }"

definition set_file :: "addr \<Rightarrow> nat \<Rightarrow> addr \<Rightarrow> fstate \<Rightarrow> fstate option" where
  "set_file node sz data s = do { i \<leftarrow> inodes s node; Some (set_inode node (i\<lparr>i_body := File_body sz data\<rparr>) s) }"

definition file_of :: "fstate \<Rightarrow> addr \<Rightarrow> (nat \<times> addr) option" where
  "file_of s node = do { i \<leftarrow> inodes s node; case i_body i of File_body n a \<Rightarrow> Some (n, a) | _ \<Rightarrow> None }"

definition device_of :: "inode \<Rightarrow> device option" where
  "device_of i = (case i_body i of Device_body dv \<Rightarrow> Some dv | _ \<Rightarrow> None)"

definition stream_write :: "addr \<Rightarrow> addr \<Rightarrow> byte list \<Rightarrow> fstate \<Rightarrow> (int \<times> fstate) option" where
  "stream_write owner node buf s =
     (if node = 0 then Some (-1, s)
      else if buf = [] then Some (0, s)
      else do {
        (n, data) \<leftarrow> file_of s node;
        (newbuf, h) \<leftarrow> valloc (fs_mm s) (add32 n (length buf));
        let s1 = s\<lparr>fs_mm := h\<rparr>;
        if newbuf = 0 then Some (-1, s1)
        else do {
          s2 \<leftarrow> (if data \<noteq> 0 \<and> n \<noteq> 0 then fs_vfree data (fs_put newbuf (fs_get s1 data n) s1) else Some s1);
          s3 \<leftarrow> set_file node (add32 n (length buf)) newbuf (fs_put (add32 newbuf n) buf s2);
          s4 \<leftarrow> used_add owner (length buf) s3;
          Some (int (length buf), s4) } })"

definition stream_read :: "addr \<Rightarrow> addr \<Rightarrow> nat \<Rightarrow> fstate \<Rightarrow> (int \<times> byte list \<times> fstate) option" where
  "stream_read owner node sz s =
     (if node = 0 then Some (-1, [], s)
      else if sz = 0 then Some (0, [], s)
      else do {
        (n, data) \<leftarrow> file_of s node;
        if data = 0 \<or> n = 0 then Some (0, [], s)
        else do {
          let to_copy = min sz n;
          let out = fs_get s data to_copy;
          let remain = n - to_copy;
          (newbuf, h) \<leftarrow> (if remain > 0 then valloc (fs_mm s) remain else Some (0, fs_mm s));
          let s1 = s\<lparr>fs_mm := h\<rparr>;
          if remain > 0 \<and> newbuf = 0 then Some (-1, out, s1)
          else do {
            let s2 = (if remain > 0 then fs_put newbuf (fs_get s1 (data + to_copy) remain) s1 else s1);
            s3 \<leftarrow> fs_vfree data s2;
            s4 \<leftarrow> set_file node remain newbuf s3;
            s5 \<leftarrow> used_sub owner to_copy s4;
            Some (int to_copy, out, s5) } } })"

definition memfs_write :: "addr \<Rightarrow> string \<Rightarrow> byte list \<Rightarrow> fstate \<Rightarrow> (int io \<times> fstate) option" where
  "memfs_write fs path buf s = do {
     (node, owner) \<leftarrow> lookup_path_ex s fs path;
     if node = 0 then Some (Ret (-1), s)
     else do {
       i \<leftarrow> inodes s node;
       if i_type i = MEMFS_TYPE_DEVICE then do {
         dv \<leftarrow> device_of i;
         if dv_flags dv AND MEMFS_DEV_WRITE = 0 then Some (Ret (-1), s)
         else if dv_write dv \<noteq> 0 then Some (Dev_call (dv_write dv) (dv_ctx dv), s)
         else if dv_buffer dv = 0 then Some (Ret (-1), s)
         else let to_copy = min (length buf) (dv_size dv) in
           Some (Ret (int to_copy), fs_put (dv_buffer dv) (take to_copy buf) s) }
       else if \<not> is_storage_node (i_type i) then Some (Ret (-1), s)
       else if is_stream_node (i_type i)
       then map_option (\<lambda>(r, s1). (Ret r, s1)) (stream_write owner node buf s)
       else do {
         (n, data) \<leftarrow> file_of s node;
         s1 \<leftarrow> (if data \<noteq> 0 then do {
                  s' \<leftarrow> fs_vfree data s;
                  s'' \<leftarrow> used_sub owner n s';
                  set_file node 0 0 s'' } else Some s);
         (a, h) \<leftarrow> valloc (fs_mm s1) (length buf);
         let s2 = s1\<lparr>fs_mm := h\<rparr>;
         (n1, _) \<leftarrow> file_of s2 node;
         if a = 0 then do { s3 \<leftarrow> set_file node n1 0 s2; Some (Ret (-1), s3) }
         else do {
           s3 \<leftarrow> set_file node (length buf) a (fs_put a buf s2);
           s4 \<leftarrow> used_add owner (length buf) s3;
           Some (Ret (int (length buf)), s4) } } } }"

definition memfs_read :: "addr \<Rightarrow> string \<Rightarrow> nat \<Rightarrow> fstate \<Rightarrow> ((int \<times> byte list) io \<times> fstate) option" where
  "memfs_read fs path sz s = do {
     (node, owner) \<leftarrow> lookup_path_ex s fs path;
     if node = 0 then Some (Ret (-1, []), s)
     else do {
       i \<leftarrow> inodes s node;
       if i_type i = MEMFS_TYPE_DEVICE then do {
         dv \<leftarrow> device_of i;
         if dv_flags dv AND MEMFS_DEV_READ = 0 then Some (Ret (-1, []), s)
         else if dv_read dv \<noteq> 0 then Some (Dev_call (dv_read dv) (dv_ctx dv), s)
         else if dv_buffer dv = 0 then Some (Ret (-1, []), s)
         else let to_copy = min sz (dv_size dv) in
           Some (Ret (int to_copy, fs_get s (dv_buffer dv) to_copy), s) }
       else if \<not> is_storage_node (i_type i) then Some (Ret (-1, []), s)
       else if is_stream_node (i_type i)
       then map_option (\<lambda>(r, out, s1). (Ret (r, out), s1)) (stream_read owner node sz s)
       else do {
         (n, data) \<leftarrow> file_of s node;
         let to_copy = min sz n;
         Some (Ret (int to_copy, fs_get s data to_copy), s) } } }"

definition memfs_append :: "addr \<Rightarrow> string \<Rightarrow> byte list \<Rightarrow> fstate \<Rightarrow> (int \<times> fstate) option" where
  "memfs_append fs path buf s = do {
     (node, owner) \<leftarrow> lookup_path_ex s fs path;
     if node = 0 then Some (-1, s)
     else do {
       i \<leftarrow> inodes s node;
       if \<not> is_storage_node (i_type i) then Some (-1, s)
       else if is_stream_node (i_type i) then stream_write owner node buf s
       else do {
         (n, data) \<leftarrow> file_of s node;
         (newbuf, h) \<leftarrow> valloc (fs_mm s) (add32 n (length buf));
         let s1 = s\<lparr>fs_mm := h\<rparr>;
         if newbuf = 0 then Some (-1, s1)
         else do {
           s2 \<leftarrow> (if data \<noteq> 0 then fs_vfree data (fs_put newbuf (fs_get s1 data n) s1) else Some s1);
           s3 \<leftarrow> used_add owner (length buf) (fs_put (add32 newbuf n) buf s2);
           s4 \<leftarrow> set_file node (add32 n (length buf)) newbuf s3;
           Some (int (length buf), s4) } } } }"

definition memfs_ioctl :: "addr \<Rightarrow> string \<Rightarrow> fstate \<Rightarrow> int io option" where
  "memfs_ioctl fs path s = do {
     node \<leftarrow> lookup_path s fs path;
     if node = 0 then Some (Ret (-1))
     else do {
       i \<leftarrow> inodes s node;
       if i_type i \<noteq> MEMFS_TYPE_DEVICE then Some (Ret (-1))
       else do {
         dv \<leftarrow> device_of i;
         Some (if dv_ioctl dv = 0 then Ret (-1) else Dev_call (dv_ioctl dv) (dv_ctx dv)) } } }"

subsection \<open>Removing, linking, searching\<close>

text \<open>Taking an entry out of its directory and dropping a link, as both delete functions do.\<close>

definition drop_entry :: "addr \<Rightarrow> addr \<Rightarrow> dentry \<Rightarrow> fstate \<Rightarrow> fstate option" where
  "drop_entry par d e s = do {
     p \<leftarrow> inodes s par;
     s1 \<leftarrow> (case i_body p of
              Dir_body es n q \<Rightarrow> Some (set_inode par (p\<lparr>i_body := Dir_body (remove1 d es) (n - 1) q\<rparr>) s)
            | _ \<Rightarrow> None);
     i \<leftarrow> inodes s1 (d_inode e);
     let s2 = set_inode (d_inode e) (i\<lparr>i_links := i_links i - 1\<rparr>) s1;
     s3 \<leftarrow> (case d_name e of None \<Rightarrow> Some s2 | Some (n, _) \<Rightarrow> fs_vfree n s2);
     s4 \<leftarrow> fs_vfree d s3;
     Some (s4\<lparr>dentries := (dentries s4)(d := None)\<rparr>) }"

text \<open>Releasing an inode without links.\<close>

definition drop_inode :: "addr \<Rightarrow> addr \<Rightarrow> fstate \<Rightarrow> fstate option" where
  "drop_inode owner node s = do {
     i \<leftarrow> inodes s node;
     s1 \<leftarrow> (case i_name i of None \<Rightarrow> Some s | Some (n, _) \<Rightarrow> fs_vfree n s);
     f \<leftarrow> memfss s1 owner;
     s2 \<leftarrow> fs_vfree node (set_memfs owner (f\<lparr>m_inode_count := m_inode_count f - 1\<rparr>) s1);
     Some (s2\<lparr>inodes := (inodes s2)(node := None)\<rparr>) }"

definition in_dir :: "fstate \<Rightarrow> addr \<Rightarrow> addr \<Rightarrow> bool option" where
  "in_dir s par d = do { p \<leftarrow> inodes s par; es \<leftarrow> dir_list (i_body p); Some (d \<in> set es) }"

definition memfs_delete_file :: "addr \<Rightarrow> string \<Rightarrow> fstate \<Rightarrow> (int \<times> fstate) option" where
  "memfs_delete_file fs path s =
     (if fs = 0 \<or> path = ''/'' then Some (-1, s)
      else do {
        (d, owner, par) \<leftarrow> lookup_path_dentry s fs path;
        if d = 0 \<or> par = 0 then Some (-1, s)
        else do {
          e \<leftarrow> dentries s d;
          if d_inode e = 0 \<or> d_mounted_fs e \<noteq> 0 then Some (-1, s)
          else do {
            i \<leftarrow> inodes s (d_inode e);
            if \<not> is_storage_node (i_type i) then Some (-1, s)
            else do {
              found \<leftarrow> in_dir s par d;
              if \<not> found then Some (-1, s)
              else do {
                s1 \<leftarrow> drop_entry par d e s;
                i1 \<leftarrow> inodes s1 (d_inode e);
                if i_links i1 \<noteq> 0 then Some (0, s1)
                else do {
                  (n, data) \<leftarrow> file_of s1 (d_inode e);
                  s2 \<leftarrow> (if data \<noteq> 0 then do {
                           s' \<leftarrow> fs_vfree data s1;
                           s'' \<leftarrow> used_sub owner n s';
                           set_file (d_inode e) 0 0 s'' } else Some s1);
                  s3 \<leftarrow> drop_inode owner (d_inode e) s2;
                  Some (0, s3) } } } } } })"

definition memfs_delete_dir :: "addr \<Rightarrow> string \<Rightarrow> fstate \<Rightarrow> (int \<times> fstate) option" where
  "memfs_delete_dir fs path s =
     (if fs = 0 \<or> path = ''/'' then Some (-1, s)
      else do {
        (d, owner, par) \<leftarrow> lookup_path_dentry s fs path;
        if d = 0 \<or> par = 0 then Some (-1, s)
        else do {
          e \<leftarrow> dentries s d;
          if d_inode e = 0 then Some (-1, s)
          else do {
            i \<leftarrow> inodes s (d_inode e);
            if i_type i \<noteq> MEMFS_TYPE_DIR \<or> d_mounted_fs e \<noteq> 0 then Some (-1, s)
            else do {
              f \<leftarrow> memfss s owner;
              if d_inode e = m_root f \<or> dir_count (i_body i) > 0 then Some (-1, s)
              else do {
                found \<leftarrow> in_dir s par d;
                if \<not> found then Some (-1, s)
                else do {
                  s1 \<leftarrow> drop_entry par d e s;
                  i1 \<leftarrow> inodes s1 (d_inode e);
                  if i_links i1 \<noteq> 0 then Some (0, s1)
                  else do { s2 \<leftarrow> drop_inode owner (d_inode e) s1; Some (0, s2) } } } } } } })"

definition memfs_open :: "addr \<Rightarrow> string \<Rightarrow> fstate \<Rightarrow> int option" where
  "memfs_open fs path s = do {
     node \<leftarrow> lookup_path s fs path;
     Some (if node = 0 then -1 else sint (word_of_nat node :: u32)) }"

definition memfs_close :: "int \<Rightarrow> int" where
  "memfs_close fd = 0"

definition memfs_get_info :: "addr \<Rightarrow> string \<Rightarrow> fstate \<Rightarrow> inode option option" where
  "memfs_get_info fs path s = do {
     node \<leftarrow> lookup_path s fs path;
     if node = 0 then Some None else do { i \<leftarrow> inodes s node; Some (Some i) } }"

text \<open>The stack of \<^verbatim>\<open>memfs_search\<close>, its top first; it has 128 places.\<close>

partial_function (option) search_loop :: "fstate \<Rightarrow> addr list \<Rightarrow> string \<Rightarrow> addr option" where
  "search_loop s st nm =
     (case st of
        [] \<Rightarrow> Some 0
      | cur # rest \<Rightarrow> (case inodes s cur of
          None \<Rightarrow> None
        | Some i \<Rightarrow> (case i_name i of
            None \<Rightarrow> None
          | Some (_, x) \<Rightarrow>
              if x = nm then Some cur
              else if i_type i = MEMFS_TYPE_DIR
              then (case dir_list (i_body i) of
                      None \<Rightarrow> None
                    | Some es \<Rightarrow>
                        if 128 < length es + length rest then None
                        else (case those (map (dentries s) es) of
                                None \<Rightarrow> None
                              | Some ds \<Rightarrow> search_loop s (rev (map d_inode ds) @ rest) nm))
              else search_loop s rest nm)))"

definition memfs_search :: "addr \<Rightarrow> string \<Rightarrow> fstate \<Rightarrow> addr option" where
  "memfs_search fs nm s =
     (if fs = 0 then Some 0 else do { f \<leftarrow> memfss s fs; search_loop s [m_root f] nm })"

definition memfs_link :: "addr \<Rightarrow> string \<Rightarrow> string \<Rightarrow> fstate \<Rightarrow> (int \<times> fstate) option" where
  "memfs_link fs oldpath newpath s = do {
     old \<leftarrow> lookup_path s fs oldpath;
     if old = 0 then Some (-1, s)
     else do {
       (par, nm, _, s1) \<leftarrow> split_parent fs newpath s;
       if par = 0 then Some (-1, s1)
       else do {
         ex \<leftarrow> lookup_dentry s1 par nm;
         if ex \<noteq> 0 then Some (-1, s1)
         else do {
           (d, s2) \<leftarrow> dentry_create old (Some nm) s1;
           if d = 0 then Some (-1, s2)
           else do { s3 \<leftarrow> add_entry par d s2; s4 \<leftarrow> add_link old s3; Some (0, s4) } } } } }"

subsection \<open>Listing and mounting\<close>

definition dir_of_path :: "addr \<Rightarrow> string \<Rightarrow> fstate \<Rightarrow> addr list option option" where
  "dir_of_path fs path s = do {
     dir \<leftarrow> lookup_path s fs path;
     if dir = 0 then Some None
     else do {
       i \<leftarrow> inodes s dir;
       if i_type i \<noteq> MEMFS_TYPE_DIR then Some None
       else do { es \<leftarrow> dir_list (i_body i); Some (Some es) } } }"

definition memfs_readdir :: "addr \<Rightarrow> string \<Rightarrow> nat \<Rightarrow> fstate \<Rightarrow> (addr \<times> string) option list option" where
  "memfs_readdir fs path max_entries s = do {
     r \<leftarrow> dir_of_path fs path s;
     case r of
       None \<Rightarrow> Some []
     | Some es \<Rightarrow> map_option (map d_name) (those (map (dentries s) (take max_entries es))) }"

text \<open>The name of an entry and the letter of its type.\<close>

definition ls_item :: "fstate \<Rightarrow> addr \<Rightarrow> (string \<times> string) option" where
  "ls_item s d = do {
     e \<leftarrow> dentries s d;
     (_, nm) \<leftarrow> d_name e;
     suffix \<leftarrow> (if d_inode e = 0 then Some [] else map_option (\<lambda>i. type_suffix (i_type i)) (inodes s (d_inode e)));
     Some (nm, suffix) }"

fun ls_loop :: "fstate \<Rightarrow> addr list \<Rightarrow> nat \<Rightarrow> nat \<Rightarrow> string \<Rightarrow> string option option" where
  "ls_loop s [] out_size count out = Some (Some out)"
| "ls_loop s (d # ds) out_size count out =
     (case ls_item s d of
        None \<Rightarrow> None
      | Some (nm, suffix) \<Rightarrow>
          if count > 4096 then Some None
          else if length nm + length suffix > out_size - 1 - length out then Some (Some out)
          else let out1 = out @ nm @ suffix in
            if ds = [] then Some (Some out1)
            else if length out1 \<ge> out_size - 1 then Some (Some out1)
            else ls_loop s ds out_size (count + 1) (out1 @ [CHR 0x0A]))"

definition memfs_ls_into :: "addr \<Rightarrow> string \<Rightarrow> nat \<Rightarrow> fstate \<Rightarrow> (int \<times> string) option" where
  "memfs_ls_into fs path out_size s = do {
     r \<leftarrow> dir_of_path fs path s;
     case r of
       None \<Rightarrow> Some (-1, [])
     | Some es \<Rightarrow>
         (if out_size = 0 then Some (-1, [])
          else map_option (\<lambda>x. case x of None \<Rightarrow> (-1, []) | Some out \<Rightarrow> (int (length out), out))
                 (ls_loop s es out_size 0 [])) }"

definition ls_text :: "(string \<times> string) list \<Rightarrow> string" where
  "ls_text items = concat (map (\<lambda>k. let (nm, suffix) = items ! k in
     nm @ suffix @ (if k + 1 < length items then [CHR 0x0A] else [])) [0..<length items])"

definition memfs_ls :: "addr \<Rightarrow> string \<Rightarrow> fstate \<Rightarrow> (addr \<times> fstate) option" where
  "memfs_ls fs path s = do {
     r \<leftarrow> dir_of_path fs path s;
     case r of
       None \<Rightarrow> Some (0, s)
     | Some es \<Rightarrow> do {
         items \<leftarrow> those (map (ls_item s) es);
         if length es > 4096 then Some (0, s)
         else do {
           (out, h) \<leftarrow> valloc (fs_mm s) (foldl add32 1 (map (\<lambda>(nm, _). add32 (length nm) 2) items));
           let s1 = s\<lparr>fs_mm := h\<rparr>;
           if out = 0 then Some (0, s1)
           else Some (out, fs_put out (ls_text items @ [NUL]) s1) } } }"

definition memfs_mount :: "addr \<Rightarrow> string \<Rightarrow> addr \<Rightarrow> fstate \<Rightarrow> (int \<times> fstate) option" where
  "memfs_mount target_fs mount_path mounted_fs s =
     (if target_fs = 0 \<or> mounted_fs = 0 \<or> \<not> absolute mount_path \<or> mount_path = ''/'' then Some (-1, s)
      else do {
        mf \<leftarrow> memfss s mounted_fs;
        rd \<leftarrow> is_dir s (m_root mf);
        if \<not> rd \<or> last_part mount_path = [] then Some (-1, s)
        else if 255 < length (dir_part mount_path) then None
        else do {
          par \<leftarrow> lookup_path s target_fs (if dir_part mount_path = [] then ''/'' else dir_part mount_path);
          pd \<leftarrow> is_dir s par;
          if \<not> pd then Some (-1, s)
          else do {
            d \<leftarrow> lookup_dentry s par (last_part mount_path);
            if d = 0 then Some (-1, s)
            else do {
              e \<leftarrow> dentries s d;
              dd \<leftarrow> is_dir s (d_inode e);
              if \<not> dd \<or> d_mounted_fs e \<noteq> 0 then Some (-1, s)
              else Some (0, set_dentry d (e\<lparr>d_mounted_fs := mounted_fs\<rparr>) s) } } } })"

definition memfs_umount :: "addr \<Rightarrow> string \<Rightarrow> fstate \<Rightarrow> (int \<times> fstate) option" where
  "memfs_umount target_fs mount_path s =
     (if target_fs = 0 \<or> \<not> absolute mount_path \<or> mount_path = ''/'' then Some (-1, s)
      else do {
        (d, _, _) \<leftarrow> lookup_path_dentry s target_fs mount_path;
        if d = 0 then Some (-1, s)
        else do {
          e \<leftarrow> dentries s d;
          if d_mounted_fs e = 0 then Some (-1, s)
          else Some (0, set_dentry d (e\<lparr>d_mounted_fs := 0\<rparr>) s) } })"

end
