(* ===== verification/Memfs_Ok.thy ===== *)
theory Memfs_Ok
  imports Memfs
begin

section \<open>The invariant of the in-memory file system\<close>

text \<open>
  \<open>memfs_ok\<close> says that the heap is in order and every object lies in a live block, that the graph
  of inodes and entries is sound (no dangling pointer, every entry in exactly one directory, link
  counts and entry counts exact), and that the contents of different files do not share memory.
  Every primitive update of the code keeps it; the theorems about whole operations are built from
  these lemmas.
\<close>

definition refs :: "fstate \<Rightarrow> addr \<Rightarrow> nat" where
  "refs s a = card {d. \<exists>e. dentries s d = Some e \<and> d_inode e = a} + card {f. \<exists>m. memfss s f = Some m \<and> m_root m = a}"

text \<open>The part of the union matches the type.\<close>

fun body_fits :: "memfs_node_type \<Rightarrow> ibody \<Rightarrow> bool" where
  "body_fits t (File_body n d) \<longleftrightarrow> is_storage_node t"
| "body_fits t (Dir_body es n p) \<longleftrightarrow> t = MEMFS_TYPE_DIR \<and> n = length es \<and> distinct es"
| "body_fits t (Symlink_body a) \<longleftrightarrow> t = MEMFS_TYPE_SYMLINK"
| "body_fits t (Device_body dv) \<longleftrightarrow> t = MEMFS_TYPE_DEVICE"

definition entries_at :: "fstate \<Rightarrow> addr \<Rightarrow> addr list" where
  "entries_at s a = (case inodes s a of None \<Rightarrow> [] | Some i \<Rightarrow> (case i_body i of Dir_body es n p \<Rightarrow> es | _ \<Rightarrow> []))"

definition objects :: "fstate \<Rightarrow> addr set" where
  "objects s = dom (inodes s) \<union> dom (dentries s) \<union> dom (memfss s)"

definition graph_ok :: "fstate \<Rightarrow> bool" where
  "graph_ok s \<longleftrightarrow>
     (\<forall>a i. inodes s a = Some i \<longrightarrow> body_fits (i_type i) (i_body i) \<and> i_links i = refs s a) \<and>
     (\<forall>a. set (entries_at s a) \<subseteq> dom (dentries s)) \<and>
     (\<forall>a b. a \<noteq> b \<longrightarrow> set (entries_at s a) \<inter> set (entries_at s b) = {}) \<and>
     (\<forall>d e. dentries s d = Some e \<longrightarrow> d_inode e \<in> dom (inodes s) \<and>
        (d_mounted_fs e = 0 \<or> d_mounted_fs e \<in> dom (memfss s))) \<and>
     (\<forall>f m. memfss s f = Some m \<longrightarrow> (\<exists>i. inodes s (m_root m) = Some i \<and> i_type i = MEMFS_TYPE_DIR))"

text \<open>The memory of a name or of the contents of a file.\<close>

definition name_ok :: "mm_state \<Rightarrow> (addr \<times> string) option \<Rightarrow> bool" where
  "name_ok h nm \<longleftrightarrow> (case nm of None \<Rightarrow> True | Some (a, x) \<Rightarrow> a \<in> fst ` live h)"

definition data_ok :: "mm_state \<Rightarrow> nat \<Rightarrow> addr \<Rightarrow> bool" where
  "data_ok h n a \<longleftrightarrow> (if a = 0 then n = 0 else \<exists>k. (a, k) \<in> live h \<and> n \<le> k)"

text \<open>Objects of different kinds lie in different blocks.\<close>

definition kinds_apart :: "fstate \<Rightarrow> bool" where
  "kinds_apart s \<longleftrightarrow> dom (inodes s) \<inter> dom (dentries s) = {} \<and> dom (inodes s) \<inter> dom (memfss s) = {} \<and>
     dom (dentries s) \<inter> dom (memfss s) = {}"

definition store_ok :: "fstate \<Rightarrow> bool" where
  "store_ok s \<longleftrightarrow> mem_ok (fs_mm s) \<and> objects s \<subseteq> fst ` live (fs_mm s) \<and>
     (\<forall>a i. inodes s a = Some i \<longrightarrow> name_ok (fs_mm s) (i_name i)) \<and>
     (\<forall>d e. dentries s d = Some e \<longrightarrow> name_ok (fs_mm s) (d_name e)) \<and>
     (\<forall>a n p. file_of s a = Some (n, p) \<longrightarrow> data_ok (fs_mm s) n p) \<and>
     (\<forall>a b n m p. file_of s a = Some (n, p) \<longrightarrow> file_of s b = Some (m, p) \<longrightarrow> p \<noteq> 0 \<longrightarrow> a = b) \<and>
     kinds_apart s"

definition memfs_ok :: "fstate \<Rightarrow> bool" where
  "memfs_ok s \<longleftrightarrow> graph_ok s \<and> store_ok s"

text \<open>The contents of a file.\<close>

definition contents :: "fstate \<Rightarrow> addr \<Rightarrow> byte list" where
  "contents s a = (case file_of s a of None \<Rightarrow> [] | Some (n, p) \<Rightarrow> fs_get s p n)"

lemma graph_okD:
  assumes "graph_ok s"
  shows "inodes s a = Some i \<Longrightarrow> body_fits (i_type i) (i_body i)" "inodes s a = Some i \<Longrightarrow> i_links i = refs s a"
    "set (entries_at s a) \<subseteq> dom (dentries s)" "a \<noteq> b \<Longrightarrow> set (entries_at s a) \<inter> set (entries_at s b) = {}"
    "dentries s d = Some e \<Longrightarrow> d_inode e \<in> dom (inodes s)"
    "dentries s d = Some e \<Longrightarrow> d_mounted_fs e = 0 \<or> d_mounted_fs e \<in> dom (memfss s)"
    "memfss s f = Some m \<Longrightarrow> \<exists>i. inodes s (m_root m) = Some i \<and> i_type i = MEMFS_TYPE_DIR"
  using assms unfolding graph_ok_def by blast+

lemma store_okD:
  assumes "store_ok s"
  shows "mem_ok (fs_mm s)" "a \<in> objects s \<Longrightarrow> a \<in> fst ` live (fs_mm s)"
    "inodes s a = Some i \<Longrightarrow> name_ok (fs_mm s) (i_name i)" "dentries s d = Some e \<Longrightarrow> name_ok (fs_mm s) (d_name e)"
    "file_of s a = Some (n, p) \<Longrightarrow> data_ok (fs_mm s) n p"
    "file_of s a = Some (n, p) \<Longrightarrow> file_of s b = Some (m, p) \<Longrightarrow> p \<noteq> 0 \<Longrightarrow> a = b"
    "kinds_apart s"
  using assms unfolding store_ok_def by blast+

lemma store_okI:
  assumes "mem_ok (fs_mm s)" "\<And>a. a \<in> objects s \<Longrightarrow> a \<in> fst ` live (fs_mm s)"
    "\<And>a i. inodes s a = Some i \<Longrightarrow> name_ok (fs_mm s) (i_name i)" "\<And>d e. dentries s d = Some e \<Longrightarrow> name_ok (fs_mm s) (d_name e)"
    "\<And>a n p. file_of s a = Some (n, p) \<Longrightarrow> data_ok (fs_mm s) n p"
    "\<And>a b n m p. file_of s a = Some (n, p) \<Longrightarrow> file_of s b = Some (m, p) \<Longrightarrow> p \<noteq> 0 \<Longrightarrow> a = b" "kinds_apart s"
  shows "store_ok s"
  using assms unfolding store_ok_def by blast

lemma file_of_eq: "file_of s a = Some (n, p) \<longleftrightarrow> (\<exists>i. inodes s a = Some i \<and> i_body i = File_body n p)"
  by (auto simp: file_of_def split: option.splits ibody.splits bind_splits)

lemma file_of_cong: "inodes s' a = inodes s a \<Longrightarrow> file_of s' a = file_of s a"
  by (simp add: file_of_def)

lemma set_simps [simp]:
  "fs_mm (set_inode a i s) = fs_mm s" "dentries (set_inode a i s) = dentries s"
  "memfss (set_inode a i s) = memfss s" "inodes (set_inode a i s) = (inodes s)(a \<mapsto> i)"
  "fs_mm (set_dentry a d s) = fs_mm s" "inodes (set_dentry a d s) = inodes s"
  "memfss (set_dentry a d s) = memfss s" "dentries (set_dentry a d s) = (dentries s)(a \<mapsto> d)"
  "fs_mm (set_memfs a f s) = fs_mm s" "dentries (set_memfs a f s) = dentries s"
  "inodes (set_memfs a f s) = inodes s" "memfss (set_memfs a f s) = (memfss s)(a \<mapsto> f)"
  by (simp_all add: set_inode_def set_dentry_def set_memfs_def)

lemma live_finite: "finite (live h)"
proof -
  have "live h \<subseteq> (\<lambda>(b, n, f). (b + 20, n)) ` set (layout h)" by (force simp: live_def)
  then show ?thesis by (rule finite_subset) simp
qed

lemma live_bound:
  assumes "mem_ok h" "(p, n) \<in> live h"
  shows "0 < p" "p + n < 2 ^ 32"
proof -
  have hok: "heap_ok h" by (rule mem_ok_heap [OF assms(1)])
  from assms(2) obtain c where c: "c \<in> set (blocks h)" "p = c + 20" "n = b_size (mm_mem h) c"
    using heap_ok_live [OF hok] by auto
  have "c + 20 + b_size (mm_mem h) c \<le> heap_end h" "heap_end h < 2 ^ 32"
    using hok c(1) tiles_mem [of "mm_mem h" "heap_start h" "heap_end h" "blocks h" c]
    by (auto simp: heap_ok_def heap_wf_def regions_def)
  with c show "0 < p" "p + n < 2 ^ 32" by simp_all
qed

lemma objects_bound: "store_ok s \<Longrightarrow> objects s \<subseteq> {1..<2 ^ 32}"
proof
  fix a assume s: "store_ok s" and "a \<in> objects s"
  then obtain n where "(a, n) \<in> live (fs_mm s)" by (auto simp: store_ok_def)
  with live_bound [of "fs_mm s" a n] s show "a \<in> {1..<2 ^ 32}" by (simp add: store_ok_def)
qed

lemma no_null: "store_ok s \<Longrightarrow> inodes s 0 = None \<and> dentries s 0 = None \<and> memfss s 0 = None"
  using objects_bound [of s] by (fastforce simp: objects_def)

lemma dentries_finite:
  assumes "store_ok s" shows "finite {d. \<exists>e. dentries s d = Some e \<and> d_inode e = a}"
proof (rule finite_subset)
  show "{d. \<exists>e. dentries s d = Some e \<and> d_inode e = a} \<subseteq> objects s" by (auto simp: objects_def)
  show "finite (objects s)" using objects_bound [OF assms] finite_subset by blast
qed

lemma entries_length:
  assumes "store_ok s" "set es \<subseteq> dom (dentries s)" "distinct es"
  shows "length es < 2 ^ 32"
proof -
  have "set es \<subseteq> {1..<2 ^ 32}" using assms(2) objects_bound [OF assms(1)] by (auto simp: objects_def)
  from card_mono [OF _ this] have "card (set es) \<le> 2 ^ 32 - 1" by simp
  then show ?thesis using distinct_card [OF assms(3)] by simp
qed

subsection \<open>Primitive updates\<close>

lemma refs_cong: "dentries s' = dentries s \<Longrightarrow> (\<And>f. map_option m_root (memfss s' f) = map_option m_root (memfss s f)) \<Longrightarrow>
    refs s' a = refs s a"
proof -
  assume d: "dentries s' = dentries s" and m: "\<And>f. map_option m_root (memfss s' f) = map_option m_root (memfss s f)"
  have "(\<exists>x. memfss s' f = Some x \<and> m_root x = a) \<longleftrightarrow> (\<exists>x. memfss s f = Some x \<and> m_root x = a)" for f
    using m [of f] by (cases "memfss s f"; cases "memfss s' f") auto
  then show ?thesis using d by (simp add: refs_def)
qed

text \<open>What the directory tree depends on: not the contents of files.\<close>

fun bare :: "ibody \<Rightarrow> ibody" where
  "bare (File_body n p) = File_body 0 0"
| "bare b = b"

definition shape :: "inode \<Rightarrow> memfs_node_type \<times> nat \<times> ibody" where
  "shape i = (i_type i, i_links i, bare (i_body i))"

definition same_tree :: "fstate \<Rightarrow> fstate \<Rightarrow> bool" where
  "same_tree s s' \<longleftrightarrow> dentries s' = dentries s \<and> (\<forall>f. map_option m_root (memfss s' f) = map_option m_root (memfss s f)) \<and>
     (\<forall>a. map_option shape (inodes s' a) = map_option shape (inodes s a))"

lemma same_tree_refl [simp]: "same_tree s s"
  by (simp add: same_tree_def)

lemma same_tree_trans: "same_tree s s' \<Longrightarrow> same_tree s' s'' \<Longrightarrow> same_tree s s''"
  by (simp add: same_tree_def)

lemma same_treeD:
  assumes "same_tree s s'"
  shows "dentries s' = dentries s" "map_option m_root (memfss s' f) = map_option m_root (memfss s f)"
    "map_option shape (inodes s' a) = map_option shape (inodes s a)"
  using assms unfolding same_tree_def by blast+

lemma same_tree_inode:
  assumes "same_tree s s'" "inodes s' a = Some j"
  obtains i where "inodes s a = Some i" "i_type i = i_type j" "i_links i = i_links j" "bare (i_body i) = bare (i_body j)"
  using same_treeD(3) [OF assms(1), of a] assms(2) by (cases "inodes s a") (auto simp: shape_def)

lemma bare_fits: "body_fits t (bare b) = body_fits t b"
  by (cases b) simp_all

lemma bare_dir_list: "dir_list (bare b) = dir_list b"
  by (cases b) simp_all

lemma shape_entries: "entries_at s a = (case map_option shape (inodes s a) of
    None \<Rightarrow> [] | Some (_, _, b) \<Rightarrow> (case b of Dir_body es n p \<Rightarrow> es | _ \<Rightarrow> []))"
  by (auto simp: entries_at_def shape_def split: option.splits ibody.splits elim: bare.elims)

lemma shape_dom: "a \<in> dom (inodes s) \<longleftrightarrow> map_option shape (inodes s a) \<noteq> None"
  by (auto simp: dom_def)

lemma same_tree_entries: "same_tree s s' \<Longrightarrow> entries_at s' a = entries_at s a"
  by (simp only: shape_entries same_treeD(3))

lemma same_tree_graph:
  assumes ok: "graph_ok s" and t: "same_tree s s'"
  shows "graph_ok s'"
proof -
  note T = same_treeD [OF t]
  have e: "entries_at s' a = entries_at s a" for a by (rule same_tree_entries [OF t])
  have r: "refs s' a = refs s a" for a by (rule refs_cong) (use T in auto)
  have di: "dom (inodes s') = dom (inodes s)" using T(3) by (intro set_eqI) (simp only: shape_dom)
  have dm: "dom (memfss s') = dom (memfss s)"
  proof -
    have "f \<in> dom (memfss s') \<longleftrightarrow> f \<in> dom (memfss s)" for f
      using T(2) [of f] by (cases "memfss s f"; cases "memfss s' f") auto
    then show ?thesis by blast
  qed
  have bf: "body_fits (i_type j) (i_body j) \<and> i_links j = refs s' a" if j: "inodes s' a = Some j" for a j
  proof -
    obtain i where i: "inodes s a = Some i" "i_type i = i_type j" "i_links i = i_links j" "bare (i_body i) = bare (i_body j)"
      by (rule same_tree_inode [OF t j])
    from graph_okD(1,2) [OF ok i(1)] show ?thesis
      using i r bare_fits [of "i_type i" "i_body i"] bare_fits [of "i_type i" "i_body j"] by simp
  qed
  have rt: "\<exists>j. inodes s' (m_root x) = Some j \<and> i_type j = MEMFS_TYPE_DIR" if x: "memfss s' f = Some x" for f x
  proof -
    obtain y where y: "memfss s f = Some y" "m_root y = m_root x" using T(2) [of f] x by (cases "memfss s f") auto
    then obtain k where k: "inodes s (m_root x) = Some k" "i_type k = MEMFS_TYPE_DIR"
      using ok unfolding graph_ok_def by metis
    then show ?thesis using T(3) [of "m_root x"] by (cases "inodes s' (m_root x)") (auto simp: shape_def)
  qed
  show ?thesis unfolding graph_ok_def e T(1) di dm
    by (intro conjI) (use ok bf rt in \<open>simp_all add: graph_ok_def\<close>)
qed

text \<open>Two states with the same directory tree give the same results for every path.\<close>

lemma scan_entries_cong: "dentries s' = dentries s \<Longrightarrow> scan_entries s' es nm = scan_entries s es nm"
proof (induction es)
  case (Cons d ds)
  then show ?case by (simp cong: if_cong)
qed simp

lemma is_dir_cong: "same_tree s s' \<Longrightarrow> is_dir s' a = is_dir s a"
proof -
  assume "same_tree s s'"
  from arg_cong [OF same_treeD(3) [OF this, of a], of "map_option (\<lambda>(t, _). t = MEMFS_TYPE_DIR)"]
  show ?thesis by (simp add: is_dir_def option.map_comp comp_def shape_def)
qed

lemma lookup_dentry_cong:
  assumes t: "same_tree s s'" shows "lookup_dentry s' a nm = lookup_dentry s a nm"
proof (cases "inodes s' a")
  case None
  then have "inodes s a = None" using same_treeD(3) [OF t, of a] by simp
  with None show ?thesis by (simp add: lookup_dentry_def)
next
  case (Some j)
  from same_tree_inode [OF t this] obtain i where i: "inodes s a = Some i" "i_type i = i_type j"
    "bare (i_body i) = bare (i_body j)" by blast
  then have "dir_list (i_body i) = dir_list (i_body j)" by (metis bare_dir_list)
  with i Some show ?thesis
    by (simp add: lookup_dentry_def scan_entries_cong [OF same_treeD(1) [OF t]])
qed

lemma root_cong:
  assumes "same_tree s s'"
  shows "Option.bind (memfss s' f) (\<lambda>m. g (m_root m)) = Option.bind (memfss s f) (\<lambda>m. g (m_root m))"
  using same_treeD(2) [OF assms, of f] by (cases "memfss s f"; cases "memfss s' f") auto

lemma follow_cong: "same_tree s s' \<Longrightarrow> follow s' c e = follow s c e"
  using root_cong [of s s' "d_mounted_fs e" "\<lambda>r. Some (r, d_mounted_fs e)"] by (simp add: follow_def)

lemma walk_path_cong:
  assumes t: "same_tree s s'" shows "walk_path s' f c p = walk_path s f c p"
proof (induction p arbitrary: f c rule: measure_induct_rule [of length])
  case (less p)
  note E = is_dir_cong [OF t] lookup_dentry_cong [OF t] follow_cong [OF t] same_treeD(1) [OF t]
  have IH: "walk_path s' f' c' r = walk_path s f' c' r" if "next_comp p = Some (nm, r)" "p \<noteq> []" for f' c' nm r
    by (rule less) (rule next_comp_shorter [OF that])
  show ?case unfolding walk_path.simps [of s' f c p] walk_path.simps [of s f c p] E
    using IH by (cases "next_comp p") (auto split: option.splits bool.splits)
qed

lemma lookup_path_ex_cong:
  assumes t: "same_tree s s'" shows "lookup_path_ex s' fs p = lookup_path_ex s fs p"
  using root_cong [OF t, of fs "\<lambda>r. Some (r, fs)"] root_cong [OF t, of fs "\<lambda>r. walk_path s fs r (path_skip p)"]
  by (simp add: lookup_path_ex_def walk_path_cong [OF t])


subsection \<open>Memory operations keep the invariant\<close>

lemma contents_eq: "file_of s a = Some (n, p) \<Longrightarrow> contents s a = get_bytes (mm_mem (fs_mm s)) p n"
  by (simp add: contents_def fs_get_def)

lemma contents_cong: "inodes s' = inodes s \<Longrightarrow> fs_mm s' = fs_mm s \<Longrightarrow> contents s' a = contents s a"
  by (simp add: contents_def fs_get_def file_of_def cong: option.case_cong)

lemma get_bytes_cong: "(\<And>i. i < n \<Longrightarrow> m' (a + i) = m (a + i)) \<Longrightarrow> get_bytes m' a n = get_bytes m a n"
  by (simp add: get_bytes_def)

lemma get_bytes_put: "length xs = n \<Longrightarrow> get_bytes (put_bytes m a xs) a n = xs"
  by (rule nth_equalityI) (auto simp: get_bytes_def put_bytes_def)

lemma get_bytes_length [simp]: "length (get_bytes m a n) = n"
  by (simp add: get_bytes_def)

lemma get_bytes_split: "get_bytes m a (n + k) = get_bytes m a n @ get_bytes m (a + n) k"
  by (rule nth_equalityI) (auto simp: get_bytes_def nth_append)

lemma get_bytes_take: "k \<le> n \<Longrightarrow> get_bytes m a k = take k (get_bytes m a n)"
  by (rule nth_equalityI) (auto simp: get_bytes_def)

lemma get_bytes_drop: "get_bytes m (a + k) (n - k) = drop k (get_bytes m a n)"
  by (rule nth_equalityI) (auto simp: get_bytes_def add.assoc)

lemma memfs_okD:
  assumes "memfs_ok s"
  shows "mem_ok (fs_mm s)" "graph_ok s" "store_ok s"
  using assms by (simp_all add: memfs_ok_def store_ok_def)

lemma file_data:
  assumes ok: "memfs_ok s" and f: "file_of s a = Some (n, p)"
  shows "data_ok (fs_mm s) n p" "p = 0 \<or> p \<in> fst ` live (fs_mm s)"
proof -
  show d: "data_ok (fs_mm s) n p" by (rule store_okD(5) [OF memfs_okD(3) [OF ok] f])
  then show "p = 0 \<or> p \<in> fst ` live (fs_mm s)" by (force simp: data_ok_def split: if_splits)
qed

lemma store_ok_grow:
  assumes ok: "store_ok s" and h: "mem_ok h" and sub: "live (fs_mm s) \<subseteq> live h"
  shows "store_ok (s\<lparr>fs_mm := h\<rparr>)"
proof -
  have f: "fst ` live (fs_mm s) \<subseteq> fst ` live h" using sub by blast
  have n: "name_ok h nm" if "name_ok (fs_mm s) nm" for nm
    using that f by (auto simp: name_ok_def split: option.splits)
  have d: "data_ok h k p" if "data_ok (fs_mm s) k p" for k p
    using that sub by (auto simp: data_ok_def split: if_splits)
  have fo: "file_of (s\<lparr>fs_mm := h\<rparr>) a = file_of s a" for a by (simp add: file_of_def)
  note S = store_okD [OF ok]
  show ?thesis
  proof (rule store_okI)
    fix a assume "a \<in> objects (s\<lparr>fs_mm := h\<rparr>)"
    then show "a \<in> fst ` live (fs_mm (s\<lparr>fs_mm := h\<rparr>))" using S(2) [of a] f by (auto simp: objects_def)
  next
    show "kinds_apart (s\<lparr>fs_mm := h\<rparr>)" using S(7) by (simp add: kinds_apart_def)
  qed (use S(3-6) n d h in \<open>auto simp: fo\<close>)
qed

lemma graph_ok_mm: "graph_ok (s\<lparr>fs_mm := h\<rparr>) = graph_ok s"
  by (simp add: graph_ok_def refs_def entries_at_def)

lemma same_tree_mm [simp]: "same_tree s (s\<lparr>fs_mm := h\<rparr>)"
  by (simp add: same_tree_def)

lemma fs_simps [simp]:
  "inodes (fs_put a xs s) = inodes s" "dentries (fs_put a xs s) = dentries s" "memfss (fs_put a xs s) = memfss s"
  by (simp_all add: fs_put_def)

lemma file_of_simps [simp]:
  "file_of (s\<lparr>fs_mm := h\<rparr>) a = file_of s a" "file_of (fs_put p xs s) a = file_of s a"
  "file_of (set_dentry d e s) a = file_of s a" "file_of (set_memfs f m s) a = file_of s a"
  by (simp_all add: file_of_def)

text \<open>Obtaining memory.\<close>

lemma got_ok:
  assumes ok: "memfs_ok s" and g: "valloc_got (fs_mm s) n p h"
  shows "memfs_ok (s\<lparr>fs_mm := h\<rparr>)" "contents (s\<lparr>fs_mm := h\<rparr>) a = contents s a"
    "p \<noteq> 0" "p \<notin> objects s" "\<And>b k. file_of s b \<noteq> Some (k, p)"
proof -
  note O = memfs_okD [OF ok]
  obtain k where k: "mem_ok h" "p \<noteq> 0" "p \<notin> fst ` live (fs_mm s)" "live h = insert (p, k) (live (fs_mm s))"
    "\<forall>(q, j) \<in> live (fs_mm s). \<forall>i < j. mm_mem h (q + i) = mm_mem (fs_mm s) (q + i)"
    using g by (auto simp: valloc_got_def)
  have "store_ok (s\<lparr>fs_mm := h\<rparr>)" by (rule store_ok_grow [OF O(3) k(1)]) (use k(4) in blast)
  then show "memfs_ok (s\<lparr>fs_mm := h\<rparr>)" using O(2) by (simp add: memfs_ok_def graph_ok_mm)
  show "p \<noteq> 0" by (rule k(2))
  show "p \<notin> objects s" using k(3) O(3) by (auto simp: store_ok_def)
  show "file_of s b \<noteq> Some (j, p)" for b j using file_data(2) [OF ok] k(2,3) by blast
  show "contents (s\<lparr>fs_mm := h\<rparr>) a = contents s a"
  proof (cases "file_of s a")
    case (Some x)
    obtain n q where f: "file_of s a = Some (n, q)" using Some by (cases x) auto
    have "get_bytes (mm_mem h) q n = get_bytes (mm_mem (fs_mm s)) q n"
    proof (rule get_bytes_cong)
      fix i assume "i < n"
      with file_data(1) [OF ok f] obtain j where "(q, j) \<in> live (fs_mm s)" "i < j"
        by (auto simp: data_ok_def split: if_splits)
      then show "mm_mem h (q + i) = mm_mem (fs_mm s) (q + i)" using k(5) by blast
    qed
    then show ?thesis using f contents_eq [of s a n q] contents_eq [of "s\<lparr>fs_mm := h\<rparr>" a n q] by simp
  qed (simp add: contents_def)
qed

text \<open>Writing into a block that holds no file: all contents stay.\<close>

lemma put_ok:
  assumes ok: "memfs_ok s" and p: "(p, k) \<in> live (fs_mm s)" "p \<le> q" "q + length xs \<le> p + k"
  shows "memfs_ok (fs_put q xs s)" "live (fs_mm (fs_put q xs s)) = live (fs_mm s)"
    "\<And>a. (\<And>n. file_of s a \<noteq> Some (n, p)) \<Longrightarrow> contents (fs_put q xs s) a = contents s a"
proof -
  note O = memfs_okD [OF ok]
  note M = mem_ok_put_bytes [OF O(1) p]
  show L: "live (fs_mm (fs_put q xs s)) = live (fs_mm s)" using M(2) by (simp add: fs_put_def)
  have "store_ok (fs_put q xs s)" unfolding fs_put_def
    by (rule store_ok_grow [OF O(3) M(1)]) (simp add: M(2))
  then show "memfs_ok (fs_put q xs s)" using O(2) by (simp add: memfs_ok_def fs_put_def graph_ok_mm)
  fix a assume no: "\<And>n. file_of s a \<noteq> Some (n, p)"
  show "contents (fs_put q xs s) a = contents s a"
  proof (cases "file_of s a")
    case (Some x)
    obtain n r where f: "file_of s a = Some (n, r)" using Some by (cases x) auto
    then have "r \<noteq> p" using no by blast
    have "get_bytes (mm_mem (fs_mm (fs_put q xs s))) r n = get_bytes (mm_mem (fs_mm s)) r n"
    proof (rule get_bytes_cong)
      fix i assume i: "i < n"
      with file_data(1) [OF ok f] obtain j where j: "(r, j) \<in> live (fs_mm s)" "i < j"
        by (auto simp: data_ok_def split: if_splits)
      have "r + j < p \<or> p + k < r"
        using kheap.live_apart [OF mem_ok_heap [OF O(1)] j(1) p(1)] \<open>r \<noteq> p\<close> by auto
      then show "mm_mem (fs_mm (fs_put q xs s)) (r + i) = mm_mem (fs_mm s) (r + i)"
        using j(2) p(2,3) by (auto simp: fs_put_def put_bytes_def)
    qed
    then show ?thesis using f contents_eq [of s a n r] contents_eq [of "fs_put q xs s" a n r] by simp
  qed (simp add: contents_def)
qed

lemma vfree_ok:
  assumes "memfs_ok s" "p = 0 \<or> p \<in> fst ` live (fs_mm s)"
  shows "fs_vfree p s = Some s"
  using vfree_quiet [OF memfs_okD(1) [OF assms(1)] assms(2)] by (simp add: fs_vfree_def)

text \<open>Giving a file other contents.\<close>

lemma set_file_ok:
  assumes ok: "memfs_ok s" and f: "file_of s a = Some (n0, p0)" and d: "data_ok (fs_mm s) n p"
    and own: "p = 0 \<or> (\<forall>b k. file_of s b = Some (k, p) \<longrightarrow> b = a)"
  shows "\<exists>s'. set_file a n p s = Some s' \<and> memfs_ok s' \<and> same_tree s s' \<and> fs_mm s' = fs_mm s \<and>
    file_of s' a = Some (n, p) \<and> (\<forall>b. b \<noteq> a \<longrightarrow> file_of s' b = file_of s b)"
proof -
  note O = memfs_okD [OF ok]
  obtain i where i: "inodes s a = Some i" "i_body i = File_body n0 p0" using f by (auto simp: file_of_eq)
  let ?s' = "set_inode a (i\<lparr>i_body := File_body n p\<rparr>) s"
  have t: "same_tree s ?s'" using i by (auto simp: same_tree_def shape_def)
  have fo: "file_of ?s' b = (if b = a then Some (n, p) else file_of s b)" for b
    by (simp add: file_of_def)
  have obj: "objects ?s' = objects s" using i(1) by (auto simp: objects_def)
  have nm: "name_ok (fs_mm s) (i_name i)" using O(3) i(1) by (auto simp: store_ok_def)
  have c1: "\<forall>b j. inodes ?s' b = Some j \<longrightarrow> name_ok (fs_mm s) (i_name j)"
    using O(3) nm by (auto simp: store_ok_def)
  have c2: "\<forall>b k q. file_of ?s' b = Some (k, q) \<longrightarrow> data_ok (fs_mm s) k q"
    using O(3) d unfolding fo by (auto simp: store_ok_def)
  have c3: "\<forall>b c k m q. file_of ?s' b = Some (k, q) \<longrightarrow> file_of ?s' c = Some (m, q) \<longrightarrow> q \<noteq> 0 \<longrightarrow> b = c"
  proof (intro allI impI)
    fix b c k m q assume h: "file_of ?s' b = Some (k, q)" "file_of ?s' c = Some (m, q)" "q \<noteq> 0"
    have u: "x = y" if "file_of s x = Some (k, q)" "file_of s y = Some (m, q)" for x y k m
      using O(3) that h(3) unfolding store_ok_def by blast
    show "b = c" using h own u unfolding fo by (auto split: if_splits)
  qed
  have "kinds_apart ?s'" using store_okD(7) [OF O(3)] i(1) by (auto simp: kinds_apart_def)
  then have "store_ok ?s'" using O(3) c1 c2 c3 unfolding store_ok_def obj by simp
  with same_tree_graph [OF O(2) t] have "memfs_ok ?s'" by (simp add: memfs_ok_def)
  moreover have "set_file a n p s = Some ?s'" using i(1) by (simp add: set_file_def)
  ultimately show ?thesis using t fo by (intro exI [of _ ?s']) simp
qed

text \<open>The counters of a file system.\<close>

lemma set_memfs_ok:
  assumes ok: "memfs_ok s" and f: "memfss s fs = Some m" and r: "m_root m' = m_root m"
  shows "memfs_ok (set_memfs fs m' s)" "same_tree s (set_memfs fs m' s)" "contents (set_memfs fs m' s) a = contents s a"
proof -
  note O = memfs_okD [OF ok]
  show t: "same_tree s (set_memfs fs m' s)" using f r by (auto simp: same_tree_def)
  have "objects (set_memfs fs m' s) = objects s" using f by (auto simp: objects_def)
  moreover have "kinds_apart (set_memfs fs m' s)" using store_okD(7) [OF O(3)] f by (auto simp: kinds_apart_def)
  ultimately have "store_ok (set_memfs fs m' s)" using O(3) by (simp add: store_ok_def)
  with same_tree_graph [OF O(2) t] show "memfs_ok (set_memfs fs m' s)" by (simp add: memfs_ok_def)
  show "contents (set_memfs fs m' s) a = contents s a" by (rule contents_cong) simp_all
qed

lemma used_ok:
  assumes ok: "memfs_ok s" and f: "owner \<in> dom (memfss s)"
  shows "\<exists>s'. used_add owner n s = Some s' \<and> memfs_ok s' \<and> same_tree s s' \<and> fs_mm s' = fs_mm s \<and> inodes s' = inodes s"
    "\<exists>s'. used_sub owner n s = Some s' \<and> memfs_ok s' \<and> same_tree s s' \<and> fs_mm s' = fs_mm s \<and> inodes s' = inodes s"
proof -
  obtain m where m: "memfss s owner = Some m" using f by auto
  have "owner \<noteq> 0" using no_null [OF memfs_okD(3) [OF ok]] m by (metis option.distinct(1))
  then show "\<exists>s'. used_add owner n s = Some s' \<and> memfs_ok s' \<and> same_tree s s' \<and> fs_mm s' = fs_mm s \<and> inodes s' = inodes s"
    "\<exists>s'. used_sub owner n s = Some s' \<and> memfs_ok s' \<and> same_tree s s' \<and> fs_mm s' = fs_mm s \<and> inodes s' = inodes s"
    using m set_memfs_ok [OF ok m] by (simp_all add: used_add_def used_sub_def)
qed



end
