(* ===== verification/Memfs_Rw.thy ===== *)
theory Memfs_Rw
  imports Memfs_Ok
begin

section \<open>Reading and writing files of the in-memory file system\<close>

text \<open>
  What \<^verbatim>\<open>memfs_write\<close>, \<^verbatim>\<open>memfs_append\<close>, \<^verbatim>\<open>memfs_read\<close> and the stream functions of \<^verbatim>\<open>memfs.c\<close> do to the
  contents of files: a regular file is replaced or extended, a fifo or socket is a queue of bytes,
  and no other file changes.
\<close>

lemma follow_owner:
  "follow s f e = Some (n, f') \<Longrightarrow> f \<in> dom (memfss s) \<Longrightarrow> f' \<in> dom (memfss s)"
  by (auto simp: follow_def split: if_splits bind_splits)

lemma walk_owner:
  "walk_path s f c p = Some (node, owner) \<Longrightarrow> node \<noteq> 0 \<Longrightarrow> f \<in> dom (memfss s) \<Longrightarrow> owner \<in> dom (memfss s)"
proof (induction s f c p rule: walk_path.induct)
  case (1 s f c p)
  show ?case
  proof (cases "p = []")
    case True
    then show ?thesis using "1.prems" by (simp add: walk_path.simps)
  next
    case False
    from False "1.prems"(1,2) obtain nm r d e n' f' where w: "is_dir s c = Some True" "next_comp p = Some (nm, r)"
      "lookup_dentry s c nm = Some d" "d \<noteq> 0" "dentries s d = Some e" "follow s f e = Some (n', f')"
      "walk_path s f' n' r = Some (node, owner)"
      by (subst (asm) walk_path.simps) (auto split: option.splits bool.splits if_splits)
    show ?thesis
      by (rule "1.IH" [OF False w(1) _ w(2) refl w(3,4,5,6) refl w(7) "1.prems"(2)])
        (use follow_owner [OF w(6) "1.prems"(3)] in auto)
  qed
qed

lemma lookup_owner:
  assumes "lookup_path_ex s fs path = Some (node, owner)" "node \<noteq> 0"
  shows "owner \<in> dom (memfss s)"
  using assms walk_owner [of s fs _ "path_skip path" node owner]
  by (auto simp: lookup_path_ex_def split: if_splits bind_splits)

text \<open>A file, fifo or socket has the file part of the union.\<close>

lemma storage_file:
  assumes ok: "memfs_ok s" and i: "inodes s a = Some i" "is_storage_node (i_type i)"
  obtains n p where "file_of s a = Some (n, p)"
proof -
  have "body_fits (i_type i) (i_body i)" by (rule graph_okD(1) [OF memfs_okD(2) [OF ok] i(1)])
  then obtain n p where "i_body i = File_body n p"
    using i(2) by (cases "i_body i") (auto simp: is_storage_node_def)
  then show ?thesis using i(1) that by (auto simp: file_of_eq)
qed

lemma file_nonnull:
  assumes "memfs_ok s" "file_of s a = Some x" shows "a \<noteq> 0"
proof
  assume "a = 0"
  with assms no_null [OF memfs_okD(3) [OF assms(1)]] show False by (simp add: file_of_def)
qed

text \<open>A fresh block filled with bytes becomes the contents of a file.\<close>

lemma fill_file:
  assumes ok: "memfs_ok s" and f: "file_of s a = Some (n0, p0)" and fs: "owner \<in> dom (memfss s)"
    and p: "(p, k) \<in> live (fs_mm s)" "length xs \<le> k" "get_bytes (mm_mem (fs_mm s)) p (length xs) = xs"
    and own: "\<And>b j. file_of s b \<noteq> Some (j, p)"
  shows "\<exists>s' s''. set_file a (length xs) p s = Some s' \<and> used_add owner m s' = Some s'' \<and>
      memfs_ok s'' \<and> same_tree s s'' \<and> contents s'' a = xs \<and> (\<forall>b. b \<noteq> a \<longrightarrow> contents s'' b = contents s b)"
proof -
  have d: "data_ok (fs_mm s) (length xs) p"
    using p(1,2) live_bound(1) [OF memfs_okD(1) [OF ok] p(1)] by (auto simp: data_ok_def)
  from set_file_ok [OF ok f d] own obtain s' where s': "set_file a (length xs) p s = Some s'" "memfs_ok s'"
    "same_tree s s'" "fs_mm s' = fs_mm s" "file_of s' a = Some (length xs, p)" "\<forall>b. b \<noteq> a \<longrightarrow> file_of s' b = file_of s b"
    by blast
  have "owner \<in> dom (memfss s')" using fs same_treeD(2) [OF s'(3), of owner] by (auto simp: dom_def)
  from used_ok(1) [OF s'(2) this, of m] obtain s'' where s'': "used_add owner m s' = Some s''" "memfs_ok s''"
    "same_tree s' s''" "fs_mm s'' = fs_mm s'" "inodes s'' = inodes s'" by blast
  have c: "contents s'' b = contents s' b" for b by (rule contents_cong [OF s''(5,4)])
  have "contents s'' a = xs" using contents_eq [OF s'(5)] s'(4) p(3) by (simp add: c)
  moreover have "contents s'' b = contents s b" if "b \<noteq> a" for b
    using s'(4,6) that unfolding c by (simp add: contents_def fs_get_def cong: option.case_cong)
  ultimately show ?thesis using s'(1) s''(1,2) same_tree_trans [OF s'(3) s''(3)] by blast
qed

text \<open>Emptying a file before it is written.\<close>

lemma empty_file:
  assumes ok: "memfs_ok s" and f: "file_of s a = Some (n, p)" and fs: "owner \<in> dom (memfss s)"
  shows "\<exists>s1. (if p \<noteq> 0 then do { s' \<leftarrow> fs_vfree p s; s'' \<leftarrow> used_sub owner n s'; set_file a 0 0 s'' } else Some s) = Some s1 \<and>
      memfs_ok s1 \<and> same_tree s s1 \<and> fs_mm s1 = fs_mm s \<and> file_of s1 a = Some (0, 0) \<and>
      (\<forall>b. b \<noteq> a \<longrightarrow> file_of s1 b = file_of s b)"
proof (cases "p = 0")
  case True
  then have "n = 0" using file_data(1) [OF ok f] by (simp add: data_ok_def)
  then show ?thesis using True ok f by (intro exI [of _ s]) simp
next
  case False
  have v: "fs_vfree p s = Some s" by (rule vfree_ok [OF ok file_data(2) [OF ok f]])
  from used_ok(2) [OF ok fs, of n] obtain s2 where s2: "used_sub owner n s = Some s2" "memfs_ok s2" "same_tree s s2"
    "fs_mm s2 = fs_mm s" "inodes s2 = inodes s" by blast
  have fo: "file_of s2 b = file_of s b" for b by (rule file_of_cong) (simp add: s2(5))
  have "file_of s2 a = Some (n, p)" using f fo by simp
  moreover have "data_ok (fs_mm s2) 0 0" by (simp add: data_ok_def)
  ultimately obtain s3 where s3: "set_file a 0 0 s2 = Some s3" "memfs_ok s3" "same_tree s2 s3" "fs_mm s3 = fs_mm s2"
    "file_of s3 a = Some (0, 0)" "\<forall>b. b \<noteq> a \<longrightarrow> file_of s3 b = file_of s2 b"
    using set_file_ok [OF s2(2)] by blast
  show ?thesis using False v s2(1,4) s3 same_tree_trans [OF s2(3) s3(3)] fo by (intro exI [of _ s3]) simp
qed

lemma write_file:
  assumes ok: "memfs_ok s" and look: "lookup_path_ex s fs path = Some (node, owner)"
    and i: "inodes s node = Some i" "i_type i = MEMFS_TYPE_FILE"
    and buf: "0 < length buf" "length buf \<le> 2 ^ 32 - 8" and rm: "room (fs_mm s) (align_size (length buf) + 36)"
  shows "\<exists>s'. memfs_write fs path buf s = Some (Ret (int (length buf)), s') \<and> memfs_ok s' \<and> same_tree s s' \<and>
      contents s' node = buf \<and> (\<forall>b. b \<noteq> node \<longrightarrow> contents s' b = contents s b)"
proof -
  have node0: "node \<noteq> 0" using i(1) no_null [OF memfs_okD(3) [OF ok]] by (metis option.distinct(1))
  have fs: "owner \<in> dom (memfss s)" by (rule lookup_owner [OF look node0])
  obtain n p where f: "file_of s node = Some (n, p)"
    by (rule storage_file [OF ok i(1)]) (simp add: i(2) is_storage_node_def)
  from empty_file [OF ok f fs] obtain s1 where s1:
    "(if p \<noteq> 0 then do { s' \<leftarrow> fs_vfree p s; s'' \<leftarrow> used_sub owner n s'; set_file node 0 0 s'' } else Some s) = Some s1"
    "memfs_ok s1" "same_tree s s1" "fs_mm s1 = fs_mm s" "file_of s1 node = Some (0, 0)"
    "\<forall>b. b \<noteq> node \<longrightarrow> file_of s1 b = file_of s b" by blast
  have "room (fs_mm s1) (align_size (length buf) + 36)" using rm s1(4) by simp
  from valloc_room [OF memfs_okD(1) [OF s1(2)] buf this order_refl] obtain a h where h:
    "valloc (fs_mm s1) (length buf) = Some (a, h)" "valloc_got (fs_mm s1) (length buf) a h" by blast
  note G = got_ok [OF s1(2) h(2)]
  let ?s2 = "s1\<lparr>fs_mm := h\<rparr>"
  obtain k where k: "(a, k) \<in> live (fs_mm ?s2)" "length buf \<le> k"
    using got_block [OF h(2) buf(2)] by auto
  have le: "a + length buf \<le> a + k" using k(2) by simp
  note P = put_ok [OF G(1) k(1) order_refl le]
  let ?s3 = "fs_put a buf ?s2"
  have f3: "file_of ?s3 node = Some (0, 0)" using s1(5) by simp
  have fs3: "owner \<in> dom (memfss ?s3)" using fs same_treeD(2) [OF s1(3), of owner] by (auto simp: dom_def)
  have k3: "(a, k) \<in> live (fs_mm ?s3)" using k(1) P(2) by simp
  have g3: "get_bytes (mm_mem (fs_mm ?s3)) a (length buf) = buf" by (simp add: fs_put_def get_bytes_put)
  have own: "file_of ?s3 b \<noteq> Some (j, a)" for b j using G(5) by simp
  from fill_file [OF P(1) f3 fs3 k3 k(2) g3 own] obtain s' s'' where F:
    "set_file node (length buf) a ?s3 = Some s'" "used_add owner (length buf) s' = Some s''" "memfs_ok s''"
    "same_tree ?s3 s''" "contents s'' node = buf" "\<forall>b. b \<noteq> node \<longrightarrow> contents s'' b = contents ?s3 b" by blast
  have "contents ?s3 b = contents s b" if "b \<noteq> node" for b
  proof -
    have "contents ?s3 b = contents ?s2 b" by (rule P(3)) (use G(5) in simp)
    also have "\<dots> = contents s1 b" by (rule G(2))
    also have "\<dots> = contents s b" using s1(4,6) that by (simp add: contents_def fs_get_def cong: option.case_cong)
    finally show ?thesis .
  qed
  moreover have "same_tree s s''"
    using s1(3) F(4) unfolding same_tree_def by simp
  moreover have "memfs_write fs path buf s = Some (Ret (int (length buf)), s'')"
    unfolding memfs_write_def look using node0 i f s1(1,5) h(1) G(3) F(1,2)
    by (simp add: is_storage_node_def is_stream_node_def Let_def)
  ultimately show ?thesis using F(3,5,6) by auto
qed

lemma read_file:
  assumes ok: "memfs_ok s" and look: "lookup_path_ex s fs path = Some (node, owner)"
    and i: "inodes s node = Some i" "i_type i = MEMFS_TYPE_FILE"
  shows "memfs_read fs path k s =
    Some (Ret (int (min k (length (contents s node))), take k (contents s node)), s)"
proof -
  have node0: "node \<noteq> 0" using i(1) no_null [OF memfs_okD(3) [OF ok]] by (metis option.distinct(1))
  obtain n p where f: "file_of s node = Some (n, p)"
    by (rule storage_file [OF ok i(1)]) (simp add: i(2) is_storage_node_def)
  have "fs_get s p (min k n) = take k (contents s node)"
    using get_bytes_take [of "min k n" n "mm_mem (fs_mm s)" p]
    by (simp add: contents_eq [OF f] fs_get_def min_def)
  then show ?thesis unfolding memfs_read_def look
    using node0 i f by (simp add: is_storage_node_def is_stream_node_def Let_def contents_eq [OF f])
qed

subsection \<open>Appending, and fifos and sockets\<close>

text \<open>The new block of an extended file: the old contents and the bytes written.\<close>

lemma extend_file:
  assumes ok: "memfs_ok s" and f: "file_of s a = Some (n, p)"
    and sz: "0 < n + length buf" "n + length buf \<le> 2 ^ 32 - 8"
    and rm: "room (fs_mm s) (align_size (n + length buf) + 36)"
  obtains q h k where "valloc (fs_mm s) (add32 n (length buf)) = Some (q, h)" "q \<noteq> 0" "add32 q n = q + n"
    "p = 0 \<longrightarrow> fs_put q (fs_get (s\<lparr>fs_mm := h\<rparr>) p n) (s\<lparr>fs_mm := h\<rparr>) = s\<lparr>fs_mm := h\<rparr>"
    "fs_vfree p (fs_put q (fs_get (s\<lparr>fs_mm := h\<rparr>) p n) (s\<lparr>fs_mm := h\<rparr>)) =
       Some (fs_put q (fs_get (s\<lparr>fs_mm := h\<rparr>) p n) (s\<lparr>fs_mm := h\<rparr>))"
    "memfs_ok (fs_put (q + n) buf (fs_put q (fs_get (s\<lparr>fs_mm := h\<rparr>) p n) (s\<lparr>fs_mm := h\<rparr>)))"
    "(q, k) \<in> live (fs_mm (fs_put (q + n) buf (fs_put q (fs_get (s\<lparr>fs_mm := h\<rparr>) p n) (s\<lparr>fs_mm := h\<rparr>))))"
    "length (contents s a @ buf) \<le> k"
    "get_bytes (mm_mem (fs_mm (fs_put (q + n) buf (fs_put q (fs_get (s\<lparr>fs_mm := h\<rparr>) p n) (s\<lparr>fs_mm := h\<rparr>))))) q
       (length (contents s a @ buf)) = contents s a @ buf"
    "\<And>b. contents (fs_put (q + n) buf (fs_put q (fs_get (s\<lparr>fs_mm := h\<rparr>) p n) (s\<lparr>fs_mm := h\<rparr>))) b = contents s b"
    "\<And>b j. file_of s b \<noteq> Some (j, q)"
proof -
  have lt: "n + length buf < 2 ^ 32" using sz by simp
  from valloc_room [OF memfs_okD(1) [OF ok] sz rm order_refl] obtain q h where h:
    "valloc (fs_mm s) (n + length buf) = Some (q, h)" "valloc_got (fs_mm s) (n + length buf) q h" by blast
  note G = got_ok [OF ok h(2)]
  let ?s1 = "s\<lparr>fs_mm := h\<rparr>"
  let ?c = "fs_get ?s1 p n"
  obtain k where k: "(q, k) \<in> live (fs_mm ?s1)" "n + length buf \<le> k" using got_block [OF h(2) sz(2)] by auto
  have q32: "q + k < 2 ^ 32" by (rule live_bound(2) [OF memfs_okD(1) [OF G(1)] k(1)])
  have c: "?c = contents s a"
    using G(2) [of a] contents_eq [of ?s1 a n p] f by (simp add: fs_get_def)
  have lc: "length ?c = n" by (simp add: fs_get_def)
  have le1: "q + length ?c \<le> q + k" using k(2) lc by simp
  note P1 = put_ok [OF G(1) k(1) order_refl le1]
  let ?s2 = "fs_put q ?c ?s1"
  have k2: "(q, k) \<in> live (fs_mm ?s2)" using k(1) P1(2) by simp
  have le2: "q \<le> q + n" "q + n + length buf \<le> q + k" using k(2) by simp_all
  note P2 = put_ok [OF P1(1) k2 le2]
  let ?s3 = "fs_put (q + n) buf ?s2"
  have m3: "mm_mem (fs_mm ?s3) = put_bytes (mm_mem h) q (?c @ buf)"
    by (simp add: fs_put_def put_bytes_append lc)
  have p0: "p = 0 \<longrightarrow> ?s2 = ?s1"
    using file_data(1) [OF ok f] by (auto simp: data_ok_def fs_get_def get_bytes_def fs_put_def)
  have v: "fs_vfree p ?s2 = Some ?s2"
  proof (rule vfree_ok [OF P1(1)])
    have "live (fs_mm s) \<subseteq> live h" using h(2) by (auto simp: valloc_got_def)
    then show "p = 0 \<or> p \<in> fst ` live (fs_mm ?s2)" using file_data(2) [OF ok f] P1(2) by auto
  qed
  have cont: "contents ?s3 b = contents s b" for b
  proof -
    have "contents ?s3 b = contents ?s2 b" by (rule P2(3)) (use G(5) in simp)
    also have "\<dots> = contents ?s1 b" by (rule P1(3)) (use G(5) in simp)
    finally show ?thesis by (simp add: G(2))
  qed
  show ?thesis
  proof (rule that [OF _ G(3) _ p0 v P2(1) _ _ _ cont G(5)])
    show "valloc (fs_mm s) (add32 n (length buf)) = Some (q, h)" using h(1) lt by (simp add: wrap_simps)
    show "add32 q n = q + n" using q32 k(2) by (simp add: wrap_simps)
    show "(q, k) \<in> live (fs_mm ?s3)" using k2 P2(2) by simp
    show "length (contents s a @ buf) \<le> k" using lc k(2) unfolding c by simp
    show "get_bytes (mm_mem (fs_mm ?s3)) q (length (contents s a @ buf)) = contents s a @ buf"
      unfolding m3 unfolding c by (rule get_bytes_put) simp
  qed
qed

lemma stream_write_file:
  assumes ok: "memfs_ok s" and f: "file_of s a = Some (n, p)" and fs: "owner \<in> dom (memfss s)" and buf: "buf \<noteq> []"
    and sz: "n + length buf \<le> 2 ^ 32 - 8" and rm: "room (fs_mm s) (align_size (n + length buf) + 36)"
  shows "\<exists>s'. stream_write owner a buf s = Some (int (length buf), s') \<and> memfs_ok s' \<and> same_tree s s' \<and>
      contents s' a = contents s a @ buf \<and> (\<forall>b. b \<noteq> a \<longrightarrow> contents s' b = contents s b)"
proof -
  have a0: "a \<noteq> 0" by (rule file_nonnull [OF ok f])
  have pos: "0 < n + length buf" using buf by simp
  obtain q h k where E: "valloc (fs_mm s) (add32 n (length buf)) = Some (q, h)" "q \<noteq> 0" "add32 q n = q + n"
    "p = 0 \<longrightarrow> fs_put q (fs_get (s\<lparr>fs_mm := h\<rparr>) p n) (s\<lparr>fs_mm := h\<rparr>) = s\<lparr>fs_mm := h\<rparr>"
    "fs_vfree p (fs_put q (fs_get (s\<lparr>fs_mm := h\<rparr>) p n) (s\<lparr>fs_mm := h\<rparr>)) =
       Some (fs_put q (fs_get (s\<lparr>fs_mm := h\<rparr>) p n) (s\<lparr>fs_mm := h\<rparr>))"
    "memfs_ok (fs_put (q + n) buf (fs_put q (fs_get (s\<lparr>fs_mm := h\<rparr>) p n) (s\<lparr>fs_mm := h\<rparr>)))"
    "(q, k) \<in> live (fs_mm (fs_put (q + n) buf (fs_put q (fs_get (s\<lparr>fs_mm := h\<rparr>) p n) (s\<lparr>fs_mm := h\<rparr>))))"
    "length (contents s a @ buf) \<le> k"
    "get_bytes (mm_mem (fs_mm (fs_put (q + n) buf (fs_put q (fs_get (s\<lparr>fs_mm := h\<rparr>) p n) (s\<lparr>fs_mm := h\<rparr>))))) q
       (length (contents s a @ buf)) = contents s a @ buf"
    "\<And>b. contents (fs_put (q + n) buf (fs_put q (fs_get (s\<lparr>fs_mm := h\<rparr>) p n) (s\<lparr>fs_mm := h\<rparr>))) b = contents s b"
    "\<And>b j. file_of s b \<noteq> Some (j, q)"
    using extend_file [OF ok f pos sz rm] by blast
  define s2 where "s2 = fs_put q (fs_get (s\<lparr>fs_mm := h\<rparr>) p n) (s\<lparr>fs_mm := h\<rparr>)"
  define s3 where "s3 = fs_put (q + n) buf s2"
  note E' = E(4-10) [folded s2_def, folded s3_def]
  have step: "(if p \<noteq> 0 \<and> n \<noteq> 0 then fs_vfree p (fs_put q (fs_get (s\<lparr>fs_mm := h\<rparr>) p n) (s\<lparr>fs_mm := h\<rparr>))
      else Some (s\<lparr>fs_mm := h\<rparr>)) = Some s2"
    using E'(1,2) by (auto simp: s2_def fs_get_def get_bytes_def fs_put_def)
  have f3: "file_of s3 a = Some (n, p)" using f by (simp add: s3_def s2_def)
  have own: "file_of s3 b \<noteq> Some (j, q)" for b j using E(11) by (simp add: s3_def s2_def)
  have fs3: "owner \<in> dom (memfss s3)" using fs by (simp add: s3_def s2_def)
  from fill_file [OF E'(3) f3 fs3 E'(4,5,6) own, of "length buf"] obtain s' s'' where F:
    "set_file a (length (contents s a @ buf)) q s3 = Some s'" "used_add owner (length buf) s' = Some s''"
    "memfs_ok s''" "same_tree s3 s''" "contents s'' a = contents s a @ buf"
    "\<forall>b. b \<noteq> a \<longrightarrow> contents s'' b = contents s3 b" by blast
  have len: "length (contents s a @ buf) = add32 n (length buf)"
    using sz contents_eq [OF f] by (simp add: wrap_simps)
  have "stream_write owner a buf s = Some (int (length buf), s'')"
    unfolding stream_write_def using a0 buf f E(1,2,3) step F(1,2) len
    by (simp add: Let_def s3_def cong: if_cong)
  moreover have "same_tree s s''" using F(4) unfolding same_tree_def by (simp add: s3_def s2_def)
  ultimately show ?thesis using F(3,5,6) E'(7) by auto
qed


text \<open>The block for what a read leaves over.\<close>

lemma rest_block:
  assumes ok: "memfs_ok s" and f: "file_of s a = Some (n, p)" and k: "k < n" "n - k \<le> 2 ^ 32 - 8"
    and rm: "room (fs_mm s) (align_size (n - k) + 36)"
  obtains q h where "valloc (fs_mm s) (n - k) = Some (q, h)" "q \<noteq> 0"
    "memfs_ok (fs_put q (fs_get (s\<lparr>fs_mm := h\<rparr>) (p + k) (n - k)) (s\<lparr>fs_mm := h\<rparr>))"
    "\<And>b. contents (fs_put q (fs_get (s\<lparr>fs_mm := h\<rparr>) (p + k) (n - k)) (s\<lparr>fs_mm := h\<rparr>)) b = contents s b"
    "data_ok (fs_mm (fs_put q (fs_get (s\<lparr>fs_mm := h\<rparr>) (p + k) (n - k)) (s\<lparr>fs_mm := h\<rparr>))) (n - k) q"
    "\<And>b j. file_of s b \<noteq> Some (j, q)"
    "get_bytes (mm_mem (fs_mm (fs_put q (fs_get (s\<lparr>fs_mm := h\<rparr>) (p + k) (n - k)) (s\<lparr>fs_mm := h\<rparr>)))) q (n - k) =
       drop k (contents s a)"
proof -
  have "0 < n - k" using k by simp
  from valloc_room [OF memfs_okD(1) [OF ok] this k(2) rm order_refl] obtain q h where h:
    "valloc (fs_mm s) (n - k) = Some (q, h)" "valloc_got (fs_mm s) (n - k) q h" by blast
  note G = got_ok [OF ok h(2)]
  define s1 where "s1 = s\<lparr>fs_mm := h\<rparr>"
  have ok1: "memfs_ok s1" and c1: "contents s1 b = contents s b" for b using G(1,2) by (simp_all add: s1_def)
  have "fs_get s1 p n = contents s a" using c1 [of a] contents_eq [of s1 a n p] f by (simp add: s1_def fs_get_def)
  then have tail: "fs_get s1 (p + k) (n - k) = drop k (contents s a)"
    using get_bytes_drop [of "mm_mem (fs_mm s1)" p k n] by (simp add: fs_get_def)
  obtain j where j: "(q, j) \<in> live (fs_mm s1)" "n - k \<le> j" using got_block [OF h(2) k(2)] by (auto simp: s1_def)
  have len: "length (drop k (contents s a)) = n - k" using contents_eq [OF f] by simp
  have le: "q + length (drop k (contents s a)) \<le> q + j" using j(2) len by simp
  note P = put_ok [OF ok1 j(1) order_refl le]
  have c2: "contents (fs_put q (drop k (contents s a)) s1) b = contents s b" for b
    using P(3) [of b] G(5) [of b] c1 by (simp add: s1_def)
  show ?thesis
  proof (rule that [OF h(1) G(3)], unfold s1_def [symmetric] tail)
    show "memfs_ok (fs_put q (drop k (contents s a)) s1)" by (rule P(1))
    show "contents (fs_put q (drop k (contents s a)) s1) b = contents s b" for b by (rule c2)
    show "data_ok (fs_mm (fs_put q (drop k (contents s a)) s1)) (n - k) q" using P(2) j G(3) by (auto simp: data_ok_def)
    show "file_of s b \<noteq> Some (i, q)" for b i by (rule G(5))
    show "get_bytes (mm_mem (fs_mm (fs_put q (drop k (contents s a)) s1))) q (n - k) = drop k (contents s a)"
      using get_bytes_put [OF len] by (simp add: fs_put_def)
  qed
qed

text \<open>The end of \<^verbatim>\<open>stream_read\<close>: the old block is released and the rest becomes the contents.\<close>

lemma keep_rest:
  assumes ok: "memfs_ok s2" and f: "file_of s2 a = Some (n, p)" and fs: "owner \<in> dom (memfss s2)"
    and d: "data_ok (fs_mm s2) r q" and own: "q = 0 \<or> (\<forall>b j. file_of s2 b \<noteq> Some (j, q))"
    and c: "get_bytes (mm_mem (fs_mm s2)) q r = xs"
  shows "\<exists>s3 s4. fs_vfree p s2 = Some s2 \<and> set_file a r q s2 = Some s3 \<and> used_sub owner m s3 = Some s4 \<and>
    memfs_ok s4 \<and> same_tree s2 s4 \<and> contents s4 a = xs \<and> (\<forall>b. b \<noteq> a \<longrightarrow> contents s4 b = contents s2 b)"
proof -
  have v: "fs_vfree p s2 = Some s2" by (rule vfree_ok [OF ok file_data(2) [OF ok f]])
  obtain s3 where s3: "set_file a r q s2 = Some s3" "memfs_ok s3" "same_tree s2 s3" "fs_mm s3 = fs_mm s2"
    "file_of s3 a = Some (r, q)" "\<forall>b. b \<noteq> a \<longrightarrow> file_of s3 b = file_of s2 b"
    using set_file_ok [OF ok f d] own by blast
  have "owner \<in> dom (memfss s3)" using fs same_treeD(2) [OF s3(3), of owner] by (auto simp: dom_def)
  from used_ok(2) [OF s3(2) this, of m] obtain s4 where s4: "used_sub owner m s3 = Some s4" "memfs_ok s4"
    "same_tree s3 s4" "fs_mm s4 = fs_mm s3" "inodes s4 = inodes s3" by blast
  have c4: "contents s4 b = contents s3 b" for b by (rule contents_cong [OF s4(5,4)])
  have "contents s4 a = xs" using contents_eq [OF s3(5)] s3(4) c c4 by simp
  moreover have "contents s4 b = contents s2 b" if "b \<noteq> a" for b
    using s3(4,6) that unfolding c4 by (simp add: contents_def fs_get_def cong: option.case_cong)
  ultimately show ?thesis using v s3(1) s4(1,2) same_tree_trans [OF s3(3) s4(3)] by blast
qed

text \<open>A read takes bytes from the front and leaves the rest.\<close>

lemma stream_read_file:
  assumes ok: "memfs_ok s" and f: "file_of s a = Some (n, p)" and fs: "owner \<in> dom (memfss s)" and k: "0 < k"
    and rm: "k < n \<longrightarrow> n - k \<le> 2 ^ 32 - 8 \<and> room (fs_mm s) (align_size (n - k) + 36)"
  shows "\<exists>s'. stream_read owner a k s = Some (int (min k n), take k (contents s a), s') \<and> memfs_ok s' \<and>
      same_tree s s' \<and> contents s' a = drop k (contents s a) \<and> (\<forall>b. b \<noteq> a \<longrightarrow> contents s' b = contents s b)"
proof -
  have a0: "a \<noteq> 0" by (rule file_nonnull [OF ok f])
  have lc: "length (contents s a) = n" by (simp add: contents_eq [OF f])
  have out: "fs_get s p (min k n) = take k (contents s a)"
    using get_bytes_take [of "min k n" n "mm_mem (fs_mm s)" p] by (simp add: contents_eq [OF f] fs_get_def min_def)
  consider "n = 0" | "0 < n" "k < n" | "0 < n" "n \<le> k" by linarith
  then show ?thesis
  proof cases
    case 1
    then show ?thesis using a0 f k lc ok by (simp add: stream_read_def)
  next
    case 2
    have p0: "p \<noteq> 0" using file_data(1) [OF ok f] 2 by (cases "p = 0") (auto simp: data_ok_def)
    have rm': "n - k \<le> 2 ^ 32 - 8" "room (fs_mm s) (align_size (n - k) + 36)" using rm 2 by auto
    obtain q h where h: "valloc (fs_mm s) (n - k) = Some (q, h)" "q \<noteq> 0"
      "memfs_ok (fs_put q (fs_get (s\<lparr>fs_mm := h\<rparr>) (p + k) (n - k)) (s\<lparr>fs_mm := h\<rparr>))"
      "\<And>b. contents (fs_put q (fs_get (s\<lparr>fs_mm := h\<rparr>) (p + k) (n - k)) (s\<lparr>fs_mm := h\<rparr>)) b = contents s b"
      "data_ok (fs_mm (fs_put q (fs_get (s\<lparr>fs_mm := h\<rparr>) (p + k) (n - k)) (s\<lparr>fs_mm := h\<rparr>))) (n - k) q"
      "\<And>b j. file_of s b \<noteq> Some (j, q)"
      "get_bytes (mm_mem (fs_mm (fs_put q (fs_get (s\<lparr>fs_mm := h\<rparr>) (p + k) (n - k)) (s\<lparr>fs_mm := h\<rparr>)))) q (n - k) =
         drop k (contents s a)"
      by (rule rest_block [OF ok f 2(2) rm']) blast
    define s2 where "s2 = fs_put q (fs_get (s\<lparr>fs_mm := h\<rparr>) (p + k) (n - k)) (s\<lparr>fs_mm := h\<rparr>)"
    note H = h(3,4,5,7) [folded s2_def]
    have f2: "file_of s2 a = Some (n, p)" and own: "q = 0 \<or> (\<forall>b j. file_of s2 b \<noteq> Some (j, q))"
      and fs2: "owner \<in> dom (memfss s2)" and t: "same_tree s s2"
      using f h(6) fs by (simp_all add: s2_def same_tree_def)
    from keep_rest [OF H(1) f2 fs2 H(3) own H(4), of "min k n"] obtain s3 s4 where K:
      "fs_vfree p s2 = Some s2" "set_file a (n - k) q s2 = Some s3" "used_sub owner (min k n) s3 = Some s4" "memfs_ok s4"
      "same_tree s2 s4" "contents s4 a = drop k (contents s a)" "\<forall>b. b \<noteq> a \<longrightarrow> contents s4 b = contents s2 b" by blast
    have "stream_read owner a k s = Some (int (min k n), take k (contents s a), s4)"
      unfolding stream_read_def using 2 a0 k f p0 h(1,2) out K(1-3) by (simp add: Let_def s2_def [symmetric] min_def)
    then show ?thesis using K(4,6,7) H(2) same_tree_trans [OF t K(5)] by auto
  next
    case 3
    have p0: "p \<noteq> 0" using file_data(1) [OF ok f] 3 by (cases "p = 0") (auto simp: data_ok_def)
    have "data_ok (fs_mm s) 0 0" "get_bytes (mm_mem (fs_mm s)) 0 0 = drop k (contents s a)"
      using 3 lc by (simp_all add: data_ok_def get_bytes_def)
    from keep_rest [OF ok f fs this(1) disjI1 [OF refl] this(2), of "min k n"] obtain s3 s4 where K:
      "fs_vfree p s = Some s" "set_file a 0 0 s = Some s3" "used_sub owner (min k n) s3 = Some s4" "memfs_ok s4"
      "same_tree s s4" "contents s4 a = drop k (contents s a)" "\<forall>b. b \<noteq> a \<longrightarrow> contents s4 b = contents s b" by blast
    have "stream_read owner a k s = Some (int (min k n), take k (contents s a), s4)"
      unfolding stream_read_def using 3 a0 k f p0 out K(1-3) by (simp add: Let_def min_def)
    then show ?thesis using K(4-7) by auto
  qed
qed

end
