(* ===== verification/Memfs_Tree.thy ===== *)
theory Memfs_Tree
  imports Memfs_Rw
begin

section \<open>The directory tree of the in-memory file system\<close>

text \<open>
  Creating and removing nodes of \<^verbatim>\<open>memfs.c\<close>.  \<open>named\<close> says that every entry has a name and that
  no directory has two entries with the same name; \<open>extends\<close> relates a state to a later one in
  which everything that could be found is still found.
\<close>

definition dname :: "fstate \<Rightarrow> addr \<Rightarrow> string" where
  "dname s d = (case dentries s d of Some e \<Rightarrow> (case d_name e of Some (_, x) \<Rightarrow> x | None \<Rightarrow> []) | None \<Rightarrow> [])"

definition named :: "fstate \<Rightarrow> bool" where
  "named s \<longleftrightarrow> (\<forall>d e. dentries s d = Some e \<longrightarrow> d_name e \<noteq> None) \<and>
     (\<forall>a. distinct (map (dname s) (entries_at s a)))"

lemma scan_entries_find:
  assumes "\<And>d e. dentries s d = Some e \<Longrightarrow> d_name e \<noteq> None" "set es \<subseteq> dom (dentries s)"
  shows "scan_entries s es nm = Some (case find (\<lambda>d. dname s d = nm) es of None \<Rightarrow> 0 | Some d \<Rightarrow> d)"
  using assms(2)
proof (induction es)
  case (Cons d es)
  then obtain e where e: "dentries s d = Some e" by auto
  then obtain a x where "d_name e = Some (a, x)" using assms(1) [of d e] by auto
  with e Cons show ?case by (simp add: dname_def)
qed simp

lemma lookup_dentry_named:
  assumes ok: "memfs_ok s" and nm: "named s"
  shows "is_dir s a = Some True \<Longrightarrow>
      lookup_dentry s a x = Some (case find (\<lambda>d. dname s d = x) (entries_at s a) of None \<Rightarrow> 0 | Some d \<Rightarrow> d)"
    "is_dir s a = Some False \<Longrightarrow> lookup_dentry s a x = Some 0"
proof -
  assume "is_dir s a = Some True"
  then obtain i where i: "inodes s a = Some i" "i_type i = MEMFS_TYPE_DIR" "a \<noteq> 0"
    by (auto simp: is_dir_def split: if_splits)
  then obtain es n p where b: "i_body i = Dir_body es n p"
    using graph_okD(1) [OF memfs_okD(2) [OF ok] i(1)] by (cases "i_body i") (auto simp: is_storage_node_def)
  then have es: "entries_at s a = es" using i by (simp add: entries_at_def)
  have sub: "set es \<subseteq> dom (dentries s)" using graph_okD(3) [OF memfs_okD(2) [OF ok], of a] es by simp
  have some: "d_name e \<noteq> None" if "dentries s d = Some e" for d e using nm that by (simp add: named_def)
  show "lookup_dentry s a x = Some (case find (\<lambda>d. dname s d = x) (entries_at s a) of None \<Rightarrow> 0 | Some d \<Rightarrow> d)"
    using i b es scan_entries_find [OF some sub, where nm = x] by (simp add: lookup_dentry_def)
next
  assume "is_dir s a = Some False"
  then show "lookup_dentry s a x = Some 0"
    by (auto simp: is_dir_def lookup_dentry_def split: if_splits)
qed

lemma find_Some_mem: "find P xs = Some x \<Longrightarrow> x \<in> set xs \<and> P x"
  by (induction xs) (auto split: if_splits)

lemma lookup_dentry_entry:
  assumes ok: "memfs_ok s" and nm: "named s" and l: "lookup_dentry s a x = Some d" "d \<noteq> 0"
  shows "d \<in> set (entries_at s a)" "dname s d = x" "d \<in> dom (dentries s)" "is_dir s a = Some True"
proof -
  have dir: "is_dir s a = Some True"
    using l by (auto simp: lookup_dentry_def is_dir_def split: if_splits bind_splits)
  with lookup_dentry_named(1) [OF ok nm, of a x] l have
    f: "find (\<lambda>d. dname s d = x) (entries_at s a) = Some d" by (auto split: option.splits)
  from find_Some_mem [OF f] show "d \<in> set (entries_at s a)" "dname s d = x" by auto
  then show "d \<in> dom (dentries s)" using graph_okD(3) [OF memfs_okD(2) [OF ok], of a] by auto
  show "is_dir s a = Some True" by (rule dir)
qed

subsection \<open>Later states\<close>

definition extends :: "fstate \<Rightarrow> fstate \<Rightarrow> bool" where
  "extends s s' \<longleftrightarrow>
     (\<forall>a nm d. lookup_dentry s a nm = Some d \<longrightarrow> d \<noteq> 0 \<longrightarrow> lookup_dentry s' a nm = Some d) \<and>
     (\<forall>d e. dentries s d = Some e \<longrightarrow> dentries s' d = Some e) \<and>
     (\<forall>a b. is_dir s a = Some b \<longrightarrow> is_dir s' a = Some b) \<and>
     (\<forall>f m. memfss s f = Some m \<longrightarrow> (\<exists>m'. memfss s' f = Some m' \<and> m_root m' = m_root m)) \<and>
     (\<forall>a. a \<in> dom (inodes s) \<longrightarrow> contents s' a = contents s a)"

lemma extends_refl [simp]: "extends s s"
  by (simp add: extends_def)

lemma extendsD:
  assumes "extends s s'"
  shows "lookup_dentry s a nm = Some d \<Longrightarrow> d \<noteq> 0 \<Longrightarrow> lookup_dentry s' a nm = Some d"
    "dentries s d = Some e \<Longrightarrow> dentries s' d = Some e" "is_dir s a = Some b \<Longrightarrow> is_dir s' a = Some b"
    "memfss s f = Some m \<Longrightarrow> \<exists>m'. memfss s' f = Some m' \<and> m_root m' = m_root m"
    "a \<in> dom (inodes s) \<Longrightarrow> contents s' a = contents s a"
  using assms unfolding extends_def by blast+

lemma is_dir_dom: "a \<noteq> 0 \<Longrightarrow> a \<in> dom (inodes s) \<longleftrightarrow> (\<exists>b. is_dir s a = Some b)"
  by (auto simp: is_dir_def)

lemma extends_trans:
  assumes e1: "extends s s'" and e2: "extends s' s''" and n: "inodes s 0 = None"
  shows "extends s s''"
proof -
  have "contents s'' a = contents s a" if "a \<in> dom (inodes s)" for a
  proof -
    have "a \<noteq> 0" using that n by (cases "a = 0") auto
    then have "a \<in> dom (inodes s')" using that extendsD(3) [OF e1, of a] is_dir_dom by blast
    then show ?thesis using extendsD(5) [OF e2] extendsD(5) [OF e1 that] by simp
  qed
  moreover have "\<exists>m'. memfss s'' f = Some m' \<and> m_root m' = m_root m" if "memfss s f = Some m" for f m
    using extendsD(4) [OF e1 that] extendsD(4) [OF e2] by fastforce
  ultimately show ?thesis unfolding extends_def
    using extendsD(1-3) [OF e1] extendsD(1-3) [OF e2] by simp
qed

lemma extends_follow: "extends s s' \<Longrightarrow> follow s f e = Some x \<Longrightarrow> follow s' f e = Some x"
  by (auto simp: follow_def split: if_splits bind_splits dest: extendsD(4))

lemma extends_walk:
  assumes e: "extends s s'"
  shows "walk_path s f c p = Some (x, g) \<Longrightarrow> x \<noteq> 0 \<Longrightarrow> walk_path s' f c p = Some (x, g)"
proof (induction p arbitrary: f c rule: measure_induct_rule [of length])
  case (less p)
  show ?case
  proof (cases "p = []")
    case True
    then show ?thesis using less.prems by (simp add: walk_path.simps)
  next
    case False
    from False less.prems obtain nm r d y n' f' where w: "is_dir s c = Some True" "next_comp p = Some (nm, r)"
      "lookup_dentry s c nm = Some d" "d \<noteq> 0" "dentries s d = Some y" "follow s f y = Some (n', f')"
      "walk_path s f' n' r = Some (x, g)"
      by (subst (asm) walk_path.simps) (auto split: option.splits bool.splits if_splits)
    have "walk_path s' f' n' r = Some (x, g)"
      by (rule less.IH [OF next_comp_shorter [OF w(2) False] w(7) less.prems(2)])
    then show ?thesis using False w extendsD(1-3) [OF e] extends_follow [OF e w(6)]
      by (subst walk_path.simps) simp
  qed
qed

lemma extends_lookup:
  assumes e: "extends s s'" and l: "lookup_path_ex s fs p = Some (x, g)" "x \<noteq> 0"
  shows "lookup_path_ex s' fs p = Some (x, g)"
  using l extendsD(4) [OF e, of fs] extends_walk [OF e]
  by (fastforce simp: lookup_path_ex_def split: if_splits bind_splits)

subsection \<open>A new inode and a new entry\<close>

lemma refs_bound:
  assumes "store_ok s" shows "refs s a < 2 ^ 32"
proof -
  let ?A = "{d. \<exists>e. dentries s d = Some e \<and> d_inode e = a}" and ?B = "{f. \<exists>m. memfss s f = Some m \<and> m_root m = a}"
  have sub: "?A \<union> ?B \<subseteq> objects s" by (auto simp: objects_def)
  have le: "?A \<union> ?B \<subseteq> {1..<2 ^ 32}" using sub objects_bound [OF assms] by blast
  have fin: "finite (?A \<union> ?B)" by (rule finite_subset [OF le]) simp
  have "?A \<inter> ?B = {}" using store_okD(7) [OF assms] by (auto simp: kinds_apart_def dom_def)
  then have "refs s a = card (?A \<union> ?B)" using fin by (simp add: refs_def card_Un_disjoint)
  also have "\<dots> \<le> card {1..<(2::nat) ^ 32}" by (rule card_mono [OF _ le]) simp
  finally show ?thesis by simp
qed

lemma refs_none:
  assumes "graph_ok s" "inodes s a = None" shows "refs s a = 0"
proof -
  have "{d. \<exists>e. dentries s d = Some e \<and> d_inode e = a} = {}" using graph_okD(5) [OF assms(1)] assms(2) by fastforce
  moreover have "{f. \<exists>m. memfss s f = Some m \<and> m_root m = a} = {}" using graph_okD(7) [OF assms(1)] assms(2) by fastforce
  ultimately show ?thesis by (simp only: refs_def card.empty)
qed

text \<open>The parts of the union a new node starts with.\<close>

fun new_body :: "ibody \<Rightarrow> bool" where
  "new_body (File_body n p) \<longleftrightarrow> n = 0 \<and> p = 0"
| "new_body (Dir_body es n p) \<longleftrightarrow> es = []"
| "new_body (Symlink_body a) \<longleftrightarrow> False"
| "new_body (Device_body dv) \<longleftrightarrow> True"

lemma new_inode_ok:
  assumes ok: "memfs_ok s" and a: "a \<in> fst ` live (fs_mm s)" "a \<notin> objects s" and nm: "name_ok (fs_mm s) n"
    and b: "new_body b" "body_fits t b"
  defines "s' \<equiv> set_inode a (new_inode t n b) s"
  shows "memfs_ok s'" "extends s s'" "named s \<Longrightarrow> named s'" "entries_at s' x = entries_at s x"
proof -
  note O = memfs_okD [OF ok]
  have none: "inodes s a = None" "dentries s a = None" "memfss s a = None" using a(2) by (auto simp: objects_def)
  have a0: "a \<noteq> 0" using a(1) live_bound(1) [OF O(1)] by force
  show ent: "entries_at s' x = entries_at s x" for x
    using none b(1) by (cases b) (auto simp: s'_def entries_at_def new_inode_def)
  have refs: "refs s' x = refs s x" for x by (simp add: refs_def s'_def)
  have fo: "file_of s' x = (if x = a then (case b of File_body n p \<Rightarrow> Some (0, 0) | _ \<Rightarrow> None) else file_of s x)" for x
    using b(1) by (cases b) (auto simp: file_of_def s'_def new_inode_def)
  have nofile: "file_of s a = None" using none by (simp add: file_of_def)
  have g: "graph_ok s'" unfolding graph_ok_def refs ent
  proof (intro conjI allI impI)
    fix x i assume "inodes s' x = Some i"
    then show "body_fits (i_type i) (i_body i)" "i_links i = refs s x"
      using graph_okD(1,2) [OF O(2), of x i] refs_none [OF O(2) none(1)] b(2)
      by (auto simp: s'_def new_inode_def split: if_splits)
  next
    fix f m assume "memfss s' f = Some m"
    then obtain i where "inodes s (m_root m) = Some i" "i_type i = MEMFS_TYPE_DIR"
      using graph_okD(7) [OF O(2), of f m] by (auto simp: s'_def)
    then show "\<exists>i. inodes s' (m_root m) = Some i \<and> i_type i = MEMFS_TYPE_DIR"
      using none(1) by (intro exI [of _ i]) (auto simp: s'_def)
  qed (use graph_okD(3-6) [OF O(2)] in \<open>auto simp: s'_def\<close>)
  have st: "store_ok s'"
  proof (rule store_okI)
    show "mem_ok (fs_mm s')" using O(1) by (simp add: s'_def)
    show "kinds_apart s'" using store_okD(7) [OF O(3)] none by (auto simp: kinds_apart_def s'_def)
    fix x assume "x \<in> objects s'"
    then show "x \<in> fst ` live (fs_mm s')" using store_okD(2) [OF O(3), of x] a(1) by (auto simp: s'_def objects_def split: if_splits)
  next
    fix x i assume "inodes s' x = Some i"
    then show "name_ok (fs_mm s') (i_name i)"
      using store_okD(3) [OF O(3), of x i] nm by (auto simp: s'_def new_inode_def split: if_splits)
  next
    fix d e assume "dentries s' d = Some e"
    then show "name_ok (fs_mm s') (d_name e)" using store_okD(4) [OF O(3), of d e] by (simp add: s'_def)
  next
    fix x n p assume "file_of s' x = Some (n, p)"
    then show "data_ok (fs_mm s') n p" using store_okD(5) [OF O(3), of x n p] unfolding fo
      by (auto simp: s'_def data_ok_def split: if_splits ibody.splits)
  next
    fix x y n m p assume "file_of s' x = Some (n, p)" "file_of s' y = Some (m, p)" "p \<noteq> 0"
    then show "x = y" using store_okD(6) [OF O(3), of x n p y m] unfolding fo by (auto split: if_splits ibody.splits)
  qed
  show "memfs_ok s'" using g st by (simp add: memfs_ok_def)
  show "named s'" if "named s"
  proof -
    have dn: "dname s' = dname s" by (rule ext) (simp add: dname_def s'_def)
    show ?thesis using that unfolding named_def ent dn by (simp add: s'_def)
  qed
  have sc: "scan_entries s' es y = scan_entries s es y" for es y by (rule scan_entries_cong) (simp add: s'_def)
  have "lookup_dentry s' x y = Some d" if "lookup_dentry s x y = Some d" "d \<noteq> 0" for x y d
  proof (cases "x = a")
    case True
    then show ?thesis using that none a0 by (simp add: lookup_dentry_def)
  next
    case False
    then have "lookup_dentry s' x y = lookup_dentry s x y" unfolding lookup_dentry_def sc by (simp add: s'_def)
    then show ?thesis using that by simp
  qed
  moreover have "is_dir s' x = Some c" if "is_dir s x = Some c" for x c
    using that none a0 by (auto simp: is_dir_def s'_def)
  moreover have "contents s' x = contents s x" if "x \<in> dom (inodes s)" for x
    using that none fo [of x] by (auto simp: contents_def fs_get_def s'_def cong: option.case_cong)
  ultimately show "extends s s'" by (simp add: extends_def s'_def)
qed


lemma card_insert_if: "finite A \<Longrightarrow> d \<notin> A \<Longrightarrow> card (if c then insert d A else A) = card A + (if c then 1 else 0)"
  by simp

lemma attach_ok:
  assumes ok: "memfs_ok s" and d: "d \<in> fst ` live (fs_mm s)" "d \<notin> objects s"
    and par: "inodes s par = Some i" "i_body i = Dir_body es n q" and ch: "child \<in> dom (inodes s)"
    and nm: "name_ok (fs_mm s) x"
  shows "\<exists>s2 s'. add_entry par d (set_dentry d \<lparr>d_name = x, d_inode = child, d_mounted_fs = 0\<rparr> s) = Some s2 \<and>
      add_link child s2 = Some s' \<and> memfs_ok s' \<and> fs_mm s' = fs_mm s \<and> memfss s' = memfss s \<and>
      dentries s' = (dentries s)(d \<mapsto> \<lparr>d_name = x, d_inode = child, d_mounted_fs = 0\<rparr>) \<and>
      (\<forall>a. entries_at s' a = (if a = par then d # es else entries_at s a)) \<and>
      (\<forall>a. map_option i_type (inodes s' a) = map_option i_type (inodes s a)) \<and> (\<forall>a. file_of s' a = file_of s a)"
proof -
  note O = memfs_okD [OF ok]
  let ?e = "\<lparr>d_name = x, d_inode = child, d_mounted_fs = 0\<rparr>"
  let ?i1 = "i\<lparr>i_body := Dir_body (d # es) (add32 n 1) q\<rparr>"
  let ?s2 = "set_inode par ?i1 (set_dentry d ?e s)"
  obtain c where c: "inodes ?s2 child = Some c" using ch by (cases "child = par") auto
  let ?s' = "set_inode child (c\<lparr>i_links := add32 (i_links c) 1\<rparr>) ?s2"
  have none: "inodes s d = None" "dentries s d = None" "memfss s d = None" using d(2) by (auto simp: objects_def)
  have ent: "entries_at ?s' a = (if a = par then d # es else entries_at s a)" for a
    using c by (auto simp: entries_at_def split: if_splits)
  have ty: "map_option i_type (inodes ?s' a) = map_option i_type (inodes s a)" for a
    using c par by (auto split: if_splits)
  have fo: "file_of ?s' a = file_of s a" for a
    using c par by (auto simp: file_of_def split: if_splits)
  have links: "map_option i_links (inodes ?s2 a) = map_option i_links (inodes s a)" for a using par by auto
  have dom: "dom (inodes ?s') = dom (inodes s)" using par ch by auto
  have st: "store_ok ?s'"
  proof (rule store_okI)
    show "mem_ok (fs_mm ?s')" using O(1) by simp
    show "kinds_apart ?s'" using store_okD(7) [OF O(3)] none dom unfolding kinds_apart_def by auto
    fix a assume "a \<in> objects ?s'"
    then have "a = d \<or> a \<in> objects s" using dom unfolding objects_def by auto
    then show "a \<in> fst ` live (fs_mm ?s')" using store_okD(2) [OF O(3), of a] d(1) by auto
  next
    fix a j assume "inodes ?s' a = Some j"
    then have "\<exists>k. inodes s a = Some k \<and> i_name j = i_name k" using c par by (auto split: if_splits)
    then show "name_ok (fs_mm ?s') (i_name j)" using store_okD(3) [OF O(3), of a] by auto
  next
    fix a e assume "dentries ?s' a = Some e"
    then show "name_ok (fs_mm ?s') (d_name e)" using store_okD(4) [OF O(3), of a e] nm by (auto split: if_splits)
  next
    fix a k p assume "file_of ?s' a = Some (k, p)"
    then show "data_ok (fs_mm ?s') k p" using store_okD(5) [OF O(3), of a k p] unfolding fo by simp
  next
    fix a b k m p assume "file_of ?s' a = Some (k, p)" "file_of ?s' b = Some (m, p)" "p \<noteq> 0"
    then show "a = b" using store_okD(6) [OF O(3)] unfolding fo by blast
  qed
  have refs: "refs ?s' a = refs s a + (if a = child then 1 else 0)" for a
  proof -
    have eq: "{y. \<exists>e. dentries ?s' y = Some e \<and> d_inode e = a} =
        (if a = child then insert d {y. \<exists>e. dentries s y = Some e \<and> d_inode e = a}
         else {y. \<exists>e. dentries s y = Some e \<and> d_inode e = a})"
      using none(2) by auto
    have "d \<notin> {y. \<exists>e. dentries s y = Some e \<and> d_inode e = a}" using none(2) by simp
    from card_insert_if [OF dentries_finite [OF O(3)] this] show ?thesis unfolding refs_def eq by simp
  qed
  have sub: "set es \<subseteq> dom (dentries s)" using graph_okD(3) [OF O(2), of par] par by (simp add: entries_at_def)
  then have es: "distinct (d # es)" "n = length es" "set es \<subseteq> dom (dentries s)"
    using graph_okD(1) [OF O(2) par(1)] par(2) none(2) by auto
  have "set (d # es) \<subseteq> dom (dentries ?s')" using es(3) by auto
  from entries_length [OF st this es(1)] have len: "add32 n 1 = length (d # es)"
    unfolding es(2) by (subst add32_eq) simp_all
  have g: "graph_ok ?s'" unfolding graph_ok_def
  proof (intro conjI allI impI)
    fix a j assume j: "inodes ?s' a = Some j"
    obtain k where k: "inodes s a = Some k" using dom j by (metis domD domI)
    note K = graph_okD(1,2) [OF O(2) k]
    show "body_fits (i_type j) (i_body j)"
      using j k K(1) par es len c by (auto split: if_splits)
    show "i_links j = refs ?s' a"
    proof (cases "a = child")
      case True
      then have "i_links c = refs s child" using c links [of child] K(2) k by (metis option.sel option.simps(9))
      moreover have "refs s child + 1 < 2 ^ 32" using refs_bound [OF st, of child] refs [of child] by simp
      moreover have "i_links j = add32 (i_links c) 1" using j True by auto
      ultimately show ?thesis unfolding refs True by (simp add: wrap_simps)
    next
      case False
      then show ?thesis unfolding refs using j k K(2) par by (auto split: if_splits)
    qed
  next
    fix a show "set (entries_at ?s' a) \<subseteq> dom (dentries ?s')"
      using graph_okD(3) [OF O(2), of a] es(3) unfolding ent by auto
  next
    fix a b :: addr assume "a \<noteq> b"
    moreover have "d \<notin> set (entries_at s y)" for y using graph_okD(3) [OF O(2), of y] none(2) by auto
    moreover have "entries_at s par = es" using par by (simp add: entries_at_def)
    ultimately show "set (entries_at ?s' a) \<inter> set (entries_at ?s' b) = {}"
      using graph_okD(4) [OF O(2), of a b] unfolding ent by auto
  next
    fix y e assume y: "dentries ?s' y = Some e"
    show "d_inode e \<in> dom (inodes ?s')" unfolding dom using y graph_okD(5) [OF O(2), of y e] ch by (auto split: if_splits)
    show "d_mounted_fs e = 0 \<or> d_mounted_fs e \<in> dom (memfss ?s')"
      using y graph_okD(6) [OF O(2), of y e] by (auto split: if_splits)
  next
    fix f m assume "memfss ?s' f = Some m"
    then obtain k where "inodes s (m_root m) = Some k" "i_type k = MEMFS_TYPE_DIR" using graph_okD(7) [OF O(2), of f m] by auto
    then show "\<exists>j. inodes ?s' (m_root m) = Some j \<and> i_type j = MEMFS_TYPE_DIR" using ty [of "m_root m"] by auto
  qed
  show ?thesis
  proof (intro exI conjI)
    show "add_entry par d (set_dentry d ?e s) = Some ?s2" using par by (simp add: add_entry_def)
    show "add_link child ?s2 = Some ?s'" using c by (simp add: add_link_def)
    show "memfs_ok ?s'" using g st by (simp add: memfs_ok_def)
  qed (use ent ty fo in simp_all)
qed


text \<open>An entry with a name that was not in the directory.\<close>

lemma find_cong: "(\<And>x. x \<in> set xs \<Longrightarrow> P x = Q x) \<Longrightarrow> find P xs = find Q xs"
  by (induction xs) auto

lemma attach_named:
  assumes ok: "memfs_ok s" "memfs_ok s'" and nm: "named s" and par: "is_dir s par = Some True"
    and d: "d \<notin> dom (dentries s)" "d \<noteq> 0"
    and s': "memfss s' = memfss s" "dentries s' = (dentries s)(d \<mapsto> e)"
      "\<And>a. entries_at s' a = (if a = par then d # entries_at s par else entries_at s a)"
      "\<And>a. map_option i_type (inodes s' a) = map_option i_type (inodes s a)" "\<And>a. contents s' a = contents s a"
    and e: "d_name e = Some (q, x)" and free: "lookup_dentry s par x = Some 0"
  shows "named s'" "extends s s'" "lookup_dentry s' par x = Some d"
proof -
  have sub: "set (entries_at s a) \<subseteq> dom (dentries s)" for a by (rule graph_okD(3) [OF memfs_okD(2) [OF ok(1)]])
  have dn: "dname s' y = (if y = d then x else dname s y)" for y using e by (simp add: dname_def s'(2))
  have old: "map (dname s') (entries_at s a) = map (dname s) (entries_at s a)" for a
    using sub [of a] d(1) by (auto simp: dn)
  have dir: "is_dir s' a = is_dir s a" for a
    using arg_cong [OF s'(4) [of a], of "map_option (\<lambda>t. t = MEMFS_TYPE_DIR)"] by (simp add: is_dir_def option.map_comp comp_def)
  have nofind: "find (\<lambda>y. dname s y = x) (entries_at s par) = None"
  proof (cases "find (\<lambda>y. dname s y = x) (entries_at s par)")
    case (Some y)
    then have "y = 0" using lookup_dentry_named(1) [OF ok(1) nm par, of x] free by simp
    moreover have "y \<in> dom (dentries s)" using find_Some_mem [OF Some] sub by auto
    ultimately show ?thesis using no_null [OF memfs_okD(3) [OF ok(1)]] by auto
  qed
  then have "x \<notin> dname s ` set (entries_at s par)" by (auto simp: find_None_iff)
  then have "distinct (map (dname s') (entries_at s' a))" for a
    using nm unfolding named_def s'(3) by (auto simp: old dn)
  moreover have "d_name y \<noteq> None" if "dentries s' z = Some y" for y z
    using nm that e unfolding named_def s'(2) by (auto split: if_splits)
  ultimately show nm': "named s'" unfolding named_def by blast
  have same: "find (\<lambda>y. dname s' y = z) (entries_at s a) = find (\<lambda>y. dname s y = z) (entries_at s a)" for a z
    by (rule find_cong) (use sub [of a] d(1) in \<open>auto simp: dn\<close>)
  show l: "lookup_dentry s' par x = Some d"
    using lookup_dentry_named(1) [OF ok(2) nm', of par x] par by (simp add: dir s'(3) dn)
  have "lookup_dentry s' a z = Some y" if y: "lookup_dentry s a z = Some y" "y \<noteq> 0" for a z y
  proof -
    note D = lookup_dentry_entry [OF ok(1) nm y]
    have f: "find (\<lambda>y. dname s y = z) (entries_at s a) = Some y"
      using lookup_dentry_named(1) [OF ok(1) nm D(4), of z] y by (auto split: option.splits)
    have dx: "dname s' d = x" by (simp add: dn)
    have "z \<noteq> x \<or> a \<noteq> par" using f nofind by auto
    then have "find (\<lambda>y. dname s' y = z) (entries_at s' a) = Some y"
      using f same [of z a] dx by (auto simp: s'(3))
    then show ?thesis using lookup_dentry_named(1) [OF ok(2) nm', of a z] D(4) dir by simp
  qed
  moreover have "dentries s' y = Some w" if "dentries s y = Some w" for y w using that d(1) by (auto simp: s'(2))
  ultimately show "extends s s'" using dir s'(1,5) by (simp add: extends_def)
qed

lemma mm_extends:
  assumes "\<And>a. contents (s\<lparr>fs_mm := h\<rparr>) a = contents s a"
  shows "extends s (s\<lparr>fs_mm := h\<rparr>)" "named (s\<lparr>fs_mm := h\<rparr>) = named s" "lookup_dentry (s\<lparr>fs_mm := h\<rparr>) a x = lookup_dentry s a x"
    "is_dir (s\<lparr>fs_mm := h\<rparr>) a = is_dir s a"
proof -
  show l: "lookup_dentry (s\<lparr>fs_mm := h\<rparr>) a x = lookup_dentry s a x" for a x by (rule lookup_dentry_cong) simp
  show d: "is_dir (s\<lparr>fs_mm := h\<rparr>) a = is_dir s a" for a by (rule is_dir_cong) simp
  show "named (s\<lparr>fs_mm := h\<rparr>) = named s"
    by (simp add: named_def entries_at_def dname_def [abs_def] cong: option.case_cong)
  show "extends s (s\<lparr>fs_mm := h\<rparr>)" using assms l d by (simp add: extends_def)
qed

lemma valloc_step:
  assumes ok: "memfs_ok s" and n: "0 < n" "n \<le> 2 ^ 32 - 8" "align_size n = n" and r: "room (fs_mm s) r" "n + 36 \<le> r"
  obtains p h where "valloc (fs_mm s) n = Some (p, h)" "p \<noteq> 0" "p \<notin> objects s" "p \<in> fst ` live h"
    "live (fs_mm s) \<subseteq> live h" "memfs_ok (s\<lparr>fs_mm := h\<rparr>)" "\<And>a. contents (s\<lparr>fs_mm := h\<rparr>) a = contents s a" "room h (r - n - 20)"
proof -
  from valloc_room [OF memfs_okD(1) [OF ok] n(1,2) r(1)] n(3) r(2) obtain p h where h:
    "valloc (fs_mm s) n = Some (p, h)" "valloc_got (fs_mm s) n p h" "room h (r - n - 20)" by auto
  note G = got_ok [OF ok h(2)]
  obtain k where "live h = insert (p, k) (live (fs_mm s))" using h(2) by (auto simp: valloc_got_def)
  then have "p \<in> fst ` live h" "live (fs_mm s) \<subseteq> live h" by force+
  then show ?thesis by (rule that [OF h(1) G(3,4) _ _ G(1,2) h(3)])
qed

lemma small_aligned: "align_size 56 = 56" "align_size 256 = 256" "align_size 16 = 16"
  by (simp_all add: align_size_eq)


lemma dup_name_ok:
  assumes ok: "memfs_ok s" and r: "room (fs_mm s) r" "292 \<le> r" and x: "length x \<le> 255"
  obtains n h where "dup_name (Some x) (fs_mm s) = Some (Some (n, x), h)" "n \<in> fst ` live h" "live (fs_mm s) \<subseteq> live h"
    "memfs_ok (s\<lparr>fs_mm := h\<rparr>)" "\<And>a. contents (s\<lparr>fs_mm := h\<rparr>) a = contents s a" "room h (r - 276)"
proof -
  obtain n h where h: "valloc (fs_mm s) 256 = Some (n, h)" "n \<noteq> 0" "n \<notin> objects s" "n \<in> fst ` live h"
    "live (fs_mm s) \<subseteq> live h" "memfs_ok (s\<lparr>fs_mm := h\<rparr>)" "\<And>a. contents (s\<lparr>fs_mm := h\<rparr>) a = contents s a" "room h (r - 256 - 20)"
    by (rule valloc_step [OF ok, of 256 r]) (use r small_aligned in auto)
  have "dup_name (Some x) (fs_mm s) = Some (Some (n, x), h)" using h(1,2) x by (simp add: dup_name_def)
  moreover have "room h (r - 276)" using h(8) by simp
  ultimately show ?thesis by (rule that [OF _ h(4,5,6,7)])
qed

lemma dentry_create_ok:
  assumes ok: "memfs_ok s" and r: "room (fs_mm s) r" "328 \<le> r" and x: "length x \<le> 255"
  obtains d n h where "dentry_create child (Some x) s =
      Some (d, set_dentry d \<lparr>d_name = Some (n, x), d_inode = child, d_mounted_fs = 0\<rparr> (s\<lparr>fs_mm := h\<rparr>))"
    "d \<noteq> 0" "d \<notin> objects s" "d \<in> fst ` live h" "n \<in> fst ` live h"
    "memfs_ok (s\<lparr>fs_mm := h\<rparr>)" "\<And>a. contents (s\<lparr>fs_mm := h\<rparr>) a = contents s a" "room h (r - 312)"
proof -
  obtain d h1 where h1: "valloc (fs_mm s) 16 = Some (d, h1)" "d \<noteq> 0" "d \<notin> objects s" "d \<in> fst ` live h1"
    "live (fs_mm s) \<subseteq> live h1" "memfs_ok (s\<lparr>fs_mm := h1\<rparr>)" "\<And>a. contents (s\<lparr>fs_mm := h1\<rparr>) a = contents s a" "room h1 (r - 16 - 20)"
    by (rule valloc_step [OF ok, of 16 r]) (use r small_aligned in auto)
  have r1: "room (fs_mm (s\<lparr>fs_mm := h1\<rparr>)) (r - 36)" "292 \<le> r - 36" using h1(8) r(2) by simp_all
  obtain n h where h: "dup_name (Some x) (fs_mm (s\<lparr>fs_mm := h1\<rparr>)) = Some (Some (n, x), h)" "n \<in> fst ` live h"
    "live (fs_mm (s\<lparr>fs_mm := h1\<rparr>)) \<subseteq> live h" "memfs_ok (s\<lparr>fs_mm := h1\<rparr>\<lparr>fs_mm := h\<rparr>)"
    "\<And>a. contents (s\<lparr>fs_mm := h1\<rparr>\<lparr>fs_mm := h\<rparr>) a = contents (s\<lparr>fs_mm := h1\<rparr>) a" "room h (r - 36 - 276)"
    by (rule dup_name_ok [OF h1(6) r1 x]) blast
  show ?thesis
  proof (rule that [of d n h])
    show "dentry_create child (Some x) s =
      Some (d, set_dentry d \<lparr>d_name = Some (n, x), d_inode = child, d_mounted_fs = 0\<rparr> (s\<lparr>fs_mm := h\<rparr>))"
      using h1(1,2) h(1) by (simp add: dentry_create_def)
    show "d \<in> fst ` live h" using h1(4) h(3) by auto
    show "memfs_ok (s\<lparr>fs_mm := h\<rparr>)" "contents (s\<lparr>fs_mm := h\<rparr>) a = contents s a" for a
      using h(4) h(5) [of a] h1(7) [of a] by simp_all
    show "room h (r - 312)" using h(6) by (rule room_mono) simp
  qed (use h1 h in simp_all)
qed

text \<open>A new node in a directory that has no entry of that name, as \<^verbatim>\<open>mkdir_p\<close> and the create
  functions make it.\<close>

lemma is_dirE:
  assumes ok: "memfs_ok s" and d: "is_dir s a = Some True"
  obtains i es n q where "inodes s a = Some i" "i_type i = MEMFS_TYPE_DIR" "i_body i = Dir_body es n q" "a \<noteq> 0" "entries_at s a = es"
proof -
  from d obtain i where i: "inodes s a = Some i" "i_type i = MEMFS_TYPE_DIR" "a \<noteq> 0"
    by (auto simp: is_dir_def split: if_splits)
  then obtain es n q where "i_body i = Dir_body es n q"
    using graph_okD(1) [OF memfs_okD(2) [OF ok] i(1)] by (cases "i_body i") (auto simp: is_storage_node_def)
  then show ?thesis using that [OF i(1,2) _ i(3)] i(1) by (simp add: entries_at_def)
qed

lemma dir_add_ok:
  assumes ok: "memfs_ok s" and nm: "named s" and par: "is_dir s par = Some True" and ch: "inodes s a = Some c" "a \<noteq> 0"
    and x: "i_name c = Some (q, x)" "length x \<le> 255" and free: "lookup_dentry s par x = Some 0"
    and r: "room (fs_mm s) r" "328 \<le> r"
  shows "\<exists>s' d e. dir_add par a s = Some (0, s') \<and> memfs_ok s' \<and> named s' \<and> extends s s' \<and> room (fs_mm s') (r - 312) \<and>
    memfss s' = memfss s \<and> lookup_dentry s' par x = Some d \<and> d \<noteq> 0 \<and> dentries s' d = Some e \<and> d_inode e = a \<and>
    d_mounted_fs e = 0 \<and> (\<forall>b. map_option i_type (inodes s' b) = map_option i_type (inodes s b))"
proof -
  obtain i es k p where i: "inodes s par = Some i" "i_type i = MEMFS_TYPE_DIR" "i_body i = Dir_body es k p" "par \<noteq> 0"
    "entries_at s par = es" by (rule is_dirE [OF ok par])
  obtain d n h where D: "dentry_create a (Some x) s =
      Some (d, set_dentry d \<lparr>d_name = Some (n, x), d_inode = a, d_mounted_fs = 0\<rparr> (s\<lparr>fs_mm := h\<rparr>))"
    "d \<noteq> 0" "d \<notin> objects s" "d \<in> fst ` live h" "n \<in> fst ` live h"
    "memfs_ok (s\<lparr>fs_mm := h\<rparr>)" "\<And>a. contents (s\<lparr>fs_mm := h\<rparr>) a = contents s a" "room h (r - 312)"
    by (rule dentry_create_ok [OF ok r x(2), of a]) blast
  define s1 where "s1 = s\<lparr>fs_mm := h\<rparr>"
  define e where "e = \<lparr>d_name = Some (n, x), d_inode = a, d_mounted_fs = 0\<rparr>"
  note X = mm_extends [OF D(7), folded s1_def]
  have pre: "d \<in> fst ` live (fs_mm s1)" "d \<notin> objects s1" "inodes s1 par = Some i" "a \<in> dom (inodes s1)"
    "name_ok (fs_mm s1) (Some (n, x))"
    using D(3-5) i(1) ch(1) by (auto simp: s1_def objects_def name_ok_def)
  from attach_ok [OF D(6) [folded s1_def] pre(1,2,3) i(3) pre(4,5), folded e_def] obtain s2 s' where A:
    "add_entry par d (set_dentry d e s1) = Some s2" "add_link a s2 = Some s'" "memfs_ok s'" "fs_mm s' = fs_mm s1"
    "memfss s' = memfss s1" "dentries s' = (dentries s1)(d \<mapsto> e)"
    "\<forall>b. entries_at s' b = (if b = par then d # es else entries_at s1 b)"
    "\<forall>b. map_option i_type (inodes s' b) = map_option i_type (inodes s1 b)" "\<forall>b. file_of s' b = file_of s1 b" by blast
  have cont: "contents s' b = contents s1 b" for b
    using A(4,9) by (simp add: contents_def fs_get_def cong: option.case_cong)
  have es1: "entries_at s1 par = es" using i(5) by (simp add: s1_def entries_at_def)
  have e': "entries_at s' b = (if b = par then d # entries_at s1 par else entries_at s1 b)" for b using A(7) es1 by simp
  have dn: "d \<notin> dom (dentries s1)" using pre(2) by (simp add: objects_def)
  have nm1: "named s1" and par1: "is_dir s1 par = Some True" and free1: "lookup_dentry s1 par x = Some 0"
    using nm par free by (simp_all add: X)
  have en: "d_name e = Some (n, x)" by (simp add: e_def)
  note N = attach_named [OF D(6) [folded s1_def] A(3) nm1 par1 dn D(2) A(5,6) e' spec [OF A(8)] cont en free1]
  have "dir_add par a s = Some (0, s')"
    using i ch x(1) D(1,2) A(1,2) by (simp add: dir_add_def s1_def e_def)
  moreover have "extends s s'"
    by (rule extends_trans [OF X(1) N(2)]) (use no_null [OF memfs_okD(3) [OF ok]] in simp)
  moreover have "room (fs_mm s') (r - 312)" using D(8) A(4) by (simp add: s1_def)
  moreover have "dentries s' d = Some e" "d_inode e = a" "d_mounted_fs e = 0" by (simp_all add: A(6) e_def)
  moreover have "memfss s' = memfss s" "\<forall>b. map_option i_type (inodes s' b) = map_option i_type (inodes s b)"
    using A(5,8) by (simp_all add: s1_def)
  ultimately show ?thesis using A(3) N(1,3) D(2) by blast
qed


lemma make_child:
  assumes ok: "memfs_ok s" and nm: "named s" and par: "is_dir s par = Some True"
    and x: "length x \<le> 255" and free: "lookup_dentry s par x = Some 0"
    and b: "new_body b" "body_fits t b" and r: "room (fs_mm s) (r + 700)"
  shows "\<exists>a h1 n h2 s'. valloc (fs_mm s) 56 = Some (a, h1) \<and> a \<noteq> 0 \<and> dup_name (Some x) h1 = Some (Some n, h2) \<and>
    dir_add par a (set_inode a (new_inode t (Some n) b) (s\<lparr>fs_mm := h2\<rparr>)) = Some (0, s') \<and>
    memfs_ok s' \<and> named s' \<and> extends s s' \<and> room (fs_mm s') r \<and> memfss s' = memfss s \<and>
    map_option i_type (inodes s' a) = Some t \<and> contents s' a = [] \<and> a \<notin> dom (inodes s) \<and>
    (\<exists>d e. lookup_dentry s' par x = Some d \<and> d \<noteq> 0 \<and> dentries s' d = Some e \<and> d_inode e = a \<and> d_mounted_fs e = 0)"
proof -
  have n0: "inodes s 0 = None" using no_null [OF memfs_okD(3) [OF ok]] by simp
  obtain a h1 where h1: "valloc (fs_mm s) 56 = Some (a, h1)" "a \<noteq> 0" "a \<notin> objects s" "a \<in> fst ` live h1"
    "live (fs_mm s) \<subseteq> live h1" "memfs_ok (s\<lparr>fs_mm := h1\<rparr>)" "\<And>b. contents (s\<lparr>fs_mm := h1\<rparr>) b = contents s b"
    "room h1 (r + 700 - 56 - 20)"
    by (rule valloc_step [OF ok, of 56 "r + 700"]) (use r small_aligned in auto)
  have r1: "room (fs_mm (s\<lparr>fs_mm := h1\<rparr>)) (r + 624)" "292 \<le> r + 624" using h1(8) by (simp_all add: add.commute)
  obtain n h2 where h2: "dup_name (Some x) (fs_mm (s\<lparr>fs_mm := h1\<rparr>)) = Some (Some (n, x), h2)" "n \<in> fst ` live h2"
    "live (fs_mm (s\<lparr>fs_mm := h1\<rparr>)) \<subseteq> live h2" "memfs_ok (s\<lparr>fs_mm := h1\<rparr>\<lparr>fs_mm := h2\<rparr>)"
    "\<And>b. contents (s\<lparr>fs_mm := h1\<rparr>\<lparr>fs_mm := h2\<rparr>) b = contents (s\<lparr>fs_mm := h1\<rparr>) b" "room h2 (r + 624 - 276)"
    by (rule dup_name_ok [OF h1(6) r1 x]) blast
  define s1 where "s1 = s\<lparr>fs_mm := h2\<rparr>"
  have ok1: "memfs_ok s1" and c1: "contents s1 b = contents s b" for b
    using h2(4) h2(5) [of b] h1(7) [of b] by (simp_all add: s1_def)
  note X = mm_extends [OF c1 [unfolded s1_def], folded s1_def]
  define s2 where "s2 = set_inode a (new_inode t (Some (n, x)) b) s1"
  have "a \<in> fst ` live (fs_mm s1)" "a \<notin> objects s1" "name_ok (fs_mm s1) (Some (n, x))"
    using h1(3,4) h2(2,3) by (auto simp: s1_def objects_def name_ok_def)
  note I = new_inode_ok [OF ok1 this b, folded s2_def]
  have nm2: "named s2" using I(3) nm X(2) by simp
  have par2: "is_dir s2 par = Some True" using extendsD(3) [OF I(2), of par] par X(4) by simp
  have ex2: "extends s s2" by (rule extends_trans [OF X(1) I(2) n0])
  have free2: "lookup_dentry s2 par x = Some 0"
  proof -
    have "find (\<lambda>d. dname s2 d = x) (entries_at s2 par) = find (\<lambda>d. dname s d = x) (entries_at s par)"
      unfolding I(4) by (simp add: s2_def s1_def dname_def entries_at_def)
    then show ?thesis using lookup_dentry_named(1) [OF I(1) nm2 par2, of x] lookup_dentry_named(1) [OF ok nm par, of x] free by simp
  qed
  have c: "inodes s2 a = Some (new_inode t (Some (n, x)) b)" "i_name (new_inode t (Some (n, x)) b) = Some (n, x)"
    by (simp_all add: s2_def new_inode_def)
  have r2: "room (fs_mm s2) (r + 348)" "328 \<le> r + 348" using h2(6) by (simp_all add: s2_def s1_def add.commute)
  from dir_add_ok [OF I(1) nm2 par2 c(1) h1(2) c(2) x free2 r2] obtain s' d e where D: "dir_add par a s2 = Some (0, s')"
    "memfs_ok s'" "named s'" "extends s2 s'" "room (fs_mm s') (r + 348 - 312)" "memfss s' = memfss s2"
    "lookup_dentry s' par x = Some d" "d \<noteq> 0" "dentries s' d = Some e" "d_inode e = a" "d_mounted_fs e = 0"
    "\<forall>b. map_option i_type (inodes s' b) = map_option i_type (inodes s2 b)" by blast
  have "room (fs_mm s') r" using D(5) by (rule room_mono) simp
  moreover have "extends s s'" by (rule extends_trans [OF ex2 D(4) n0])
  moreover have "map_option i_type (inodes s' a) = Some t" using D(12) c(1) by (simp add: new_inode_def)
  moreover have "contents s' a = []"
  proof -
    have "contents s2 a = []" using b(1) by (cases b) (simp_all add: contents_def file_of_def c(1) new_inode_def fs_get_def get_bytes_def)
    then show ?thesis using extendsD(5) [OF D(4), of a] c(1) by auto
  qed
  moreover have "a \<notin> dom (inodes s)" using h1(3) by (auto simp: objects_def)
  ultimately show ?thesis
    using h1(1,2) h2(1) D by (intro exI [of _ a] exI [of _ h1] exI [of _ "(n, x)"] exI [of _ h2] exI [of _ s'])
      (auto simp: s2_def s1_def)
qed

lemma count_inode_ok:
  assumes ok: "memfs_ok s" and nm: "named s" and f: "fs \<in> dom (memfss s)"
  shows "\<exists>s'. count_inode fs s = Some s' \<and> memfs_ok s' \<and> named s' \<and> extends s s' \<and> fs_mm s' = fs_mm s \<and>
    dentries s' = dentries s \<and> inodes s' = inodes s \<and> same_tree s s'"
proof -
  obtain m where m: "memfss s fs = Some m" using f by auto
  let ?s' = "set_memfs fs (m\<lparr>m_inode_count := add32 (m_inode_count m) 1\<rparr>) s"
  have M: "memfs_ok ?s'" "same_tree s ?s'" "contents ?s' a = contents s a" for a
    by (rule set_memfs_ok [OF ok m]; simp)+
  have "extends s ?s'"
    using lookup_dentry_cong [OF M(2)] is_dir_cong [OF M(2)] M(3) m by (auto simp: extends_def)
  moreover have "named ?s'" using nm by (simp add: named_def entries_at_def dname_def [abs_def] cong: option.case_cong)
  moreover have "count_inode fs s = Some ?s'" using m by (simp add: count_inode_def)
  ultimately show ?thesis using M(1,2) by (intro exI [of _ ?s']) simp
qed

end
