(* ===== verification/Memfs_Create.thy ===== *)
theory Memfs_Create
  imports Memfs_Tree
begin

section \<open>Creating and removing nodes by path\<close>

text \<open>
  The functions of \<^verbatim>\<open>memfs.c\<close> that take a path and change the tree.  Paths of at most 255 bytes are
  the ones the code can copy into its buffers.
\<close>

lemma next_comp_short:
  assumes "length p \<le> 255"
  obtains nm r where "next_comp p = Some (nm, r)" "length nm \<le> 255" "nm = take (path_comp_len p) p"
    "r = path_skip (drop (path_comp_len p) p)"
proof -
  have "path_comp_len p \<le> length p" by (simp add: path_comp_len_def length_takeWhile_le)
  then show ?thesis using assms that by (auto simp: next_comp_def Let_def)
qed

lemma split_last:
  assumes "CHR ''/'' \<in> set p"
  shows "p = dir_part p @ ''/'' @ last_part p" "CHR ''/'' \<notin> set (last_part p)"
proof -
  let ?q = "rev p" and ?t = "takeWhile ((\<noteq>) CHR ''/'') (rev p)" and ?d = "dropWhile ((\<noteq>) CHR ''/'') (rev p)"
  have "?d \<noteq> []" using assms by (auto simp: dropWhile_eq_Nil_conv)
  then have "hd ?d = CHR ''/''" using hd_dropWhile [of "(\<noteq>) CHR ''/''" ?q] by simp
  then have "?d = ''/'' @ drop 1 ?d" using \<open>?d \<noteq> []\<close> by (cases ?d) auto
  then have "?q = ?t @ ''/'' @ drop 1 ?d" using takeWhile_dropWhile_id [of "(\<noteq>) CHR ''/''" ?q] by simp
  from arg_cong [OF this, of rev] show "p = dir_part p @ ''/'' @ last_part p"
    by (simp add: dir_part_def last_part_def)
  show "CHR ''/'' \<notin> set (last_part p)"
    using set_takeWhileD [of "CHR ''/''" "(\<noteq>) CHR ''/''" ?q] by (auto simp: last_part_def)
qed

lemma path_skip_Cons [simp]: "path_skip (CHR ''/'' # p) = path_skip p" "path_skip [] = []"
  by (simp_all add: path_skip_def)

lemma path_skip_idem [simp]: "path_skip (path_skip p) = path_skip p"
  by (simp add: path_skip_def)

lemma comp_len_append: "path_comp_len (p @ CHR ''/'' # q) = path_comp_len p"
  unfolding path_comp_len_def by (subst takeWhile_tail) simp_all

lemma path_skip_append: "path_skip p \<noteq> [] \<Longrightarrow> path_skip (p @ q) = path_skip p @ q"
  by (auto simp: path_skip_def dropWhile_append dropWhile_eq_Nil_conv)

lemma path_skip_all: "path_skip p = [] \<Longrightarrow> path_skip (p @ CHR ''/'' # q) = path_skip q"
  by (simp add: path_skip_def dropWhile_append dropWhile_eq_Nil_conv)

text \<open>A walk along a path is a walk along its directory part and one step.\<close>

lemma walk_snoc:
  assumes nm: "CHR ''/'' \<notin> set nm" "nm \<noteq> []" and x: "x \<noteq> 0"
  shows "walk_path s f c (path_skip p) = Some (x, g) \<Longrightarrow>
    walk_path s f c (path_skip (p @ CHR ''/'' # nm)) = walk_path s g x nm"
proof (induction p arbitrary: f c rule: measure_induct_rule [of length])
  case (less p)
  show ?case
  proof (cases "path_skip p = []")
    case True
    have "path_skip nm = nm" using nm by (cases nm) (auto simp: path_skip_def)
    then have "path_skip (p @ CHR ''/'' # nm) = nm" using path_skip_all [OF True, of nm] by simp
    moreover have "x = c" "g = f" using less.prems True by (simp_all add: walk_path.simps)
    ultimately show ?thesis by simp
  next
    case False
    let ?p = "path_skip p"
    from False less.prems x obtain y r d e n' f' where w: "is_dir s c = Some True" "next_comp ?p = Some (y, r)"
      "lookup_dentry s c y = Some d" "d \<noteq> 0" "dentries s d = Some e" "follow s f e = Some (n', f')"
      "walk_path s f' n' r = Some (x, g)"
      by (subst (asm) walk_path.simps) (auto split: option.splits bool.splits if_splits)
    have y: "y = take (path_comp_len ?p) ?p" "r = path_skip (drop (path_comp_len ?p) ?p)" "path_comp_len ?p \<le> 255"
      using w(2) by (auto simp: next_comp_def Let_def split: if_splits)
    have le: "path_comp_len ?p \<le> length ?p" by (simp add: path_comp_len_def length_takeWhile_le)
    have pos: "0 < path_comp_len ?p"
    proof -
      have "hd ?p \<noteq> CHR ''/''" using False hd_dropWhile [of "(=) CHR ''/''" p] by (simp add: path_skip_def)
      then show ?thesis using False by (cases ?p) (auto simp: path_comp_len_def)
    qed
    have shorter: "length (drop (path_comp_len ?p) ?p) < length p"
      using pos False path_skip_length [of p] by (cases ?p) auto
    have IH: "walk_path s f' n' (path_skip (drop (path_comp_len ?p) ?p @ CHR ''/'' # nm)) = walk_path s g x nm"
      by (rule less.IH [OF shorter]) (use w(7) y(2) in simp)
    have "next_comp (?p @ CHR ''/'' # nm) = Some (y, path_skip (drop (path_comp_len ?p) ?p @ CHR ''/'' # nm))"
      using y(1,3) le by (simp add: next_comp_def Let_def comp_len_append)
    then show ?thesis unfolding path_skip_append [OF False] using w IH
      by (subst walk_path.simps) simp
  qed
qed

lemma walk_one:
  assumes "is_dir s x = Some True" "CHR ''/'' \<notin> set nm" "nm \<noteq> []" "length nm \<le> 255"
    "lookup_dentry s x nm = Some d" "d \<noteq> 0" "dentries s d = Some e" "follow s g e = Some (y, g')"
  shows "walk_path s g x nm = Some (y, g')"
proof -
  have "path_comp_len nm = length nm" using assms(2) by (induction nm) (auto simp: path_comp_len_def)
  then have "next_comp nm = Some (nm, [])" using assms(4) by (simp add: next_comp_def)
  then show ?thesis using assms by (subst walk_path.simps) (simp add: walk_path.simps)
qed

subsection \<open>Making the directories of a path\<close>

lemma follow_ok:
  assumes ok: "memfs_ok s" and e: "dentries s d = Some e" and f: "f \<in> dom (memfss s)"
  obtains n g i where "follow s f e = Some (n, g)" "inodes s n = Some i" "g \<in> dom (memfss s)" "n \<noteq> 0"
proof -
  note G = graph_okD [OF memfs_okD(2) [OF ok]] and N = no_null [OF memfs_okD(3) [OF ok]]
  show ?thesis
  proof (cases "d_mounted_fs e = 0")
    case True
    obtain i where i: "inodes s (d_inode e) = Some i" using G(5) [OF e] by auto
    then have "d_inode e \<noteq> 0" using N by (metis option.distinct(1))
    then show ?thesis using True i f by (intro that [of "d_inode e" f i]) (simp_all add: follow_def)
  next
    case False
    then obtain m where m: "memfss s (d_mounted_fs e) = Some m" using G(6) [OF e] by auto
    obtain i where i: "inodes s (m_root m) = Some i" using G(7) [OF m] by auto
    then have "m_root m \<noteq> 0" using N by (metis option.distinct(1))
    then show ?thesis using False m i by (intro that [of "m_root m" "d_mounted_fs e" i]) (auto simp: follow_def)
  qed
qed

lemma mkdir_step_ok:
  assumes ok: "memfs_ok s" "named s" and cur: "is_dir s cur = Some True" and f: "f \<in> dom (memfss s)"
    and x: "length x \<le> 255" and r: "room (fs_mm s) (r + 700)"
  shows "\<exists>n g s'. mkdir_step f cur x s = Some (n, g, s') \<and> memfs_ok s' \<and> named s' \<and> extends s s' \<and> room (fs_mm s') r \<and>
    (n \<noteq> 0 \<longrightarrow> is_dir s' n = Some True \<and> g \<in> dom (memfss s') \<and>
      (\<exists>d e. lookup_dentry s' cur x = Some d \<and> d \<noteq> 0 \<and> dentries s' d = Some e \<and> follow s' f e = Some (n, g)))"
proof -
  obtain d where d: "lookup_dentry s cur x = Some d" using lookup_dentry_named(1) [OF ok cur] by simp
  have n0: "inodes s 0 = None" using no_null [OF memfs_okD(3) [OF ok(1)]] by simp
  show ?thesis
  proof (cases "d = 0")
    case True
    have free: "lookup_dentry s cur x = Some 0" using d True by simp
    have b: "new_body (Dir_body [] 0 cur)" "body_fits MEMFS_TYPE_DIR (Dir_body [] 0 cur)" by simp_all
    obtain a h1 n h2 s1 where M: "valloc (fs_mm s) 56 = Some (a, h1)" "a \<noteq> 0" "dup_name (Some x) h1 = Some (Some n, h2)"
      "dir_add cur a (set_inode a (new_inode MEMFS_TYPE_DIR (Some n) (Dir_body [] 0 cur)) (s\<lparr>fs_mm := h2\<rparr>)) = Some (0, s1)"
      "memfs_ok s1" "named s1" "extends s s1" "room (fs_mm s1) r" "memfss s1 = memfss s"
      "map_option i_type (inodes s1 a) = Some MEMFS_TYPE_DIR"
      "\<exists>d e. lookup_dentry s1 cur x = Some d \<and> d \<noteq> 0 \<and> dentries s1 d = Some e \<and> d_inode e = a \<and> d_mounted_fs e = 0"
      using make_child [OF ok cur x free b r] by blast
    have "f \<in> dom (memfss s1)" using f M(9) by simp
    from count_inode_ok [OF M(5,6) this] obtain s2 where C: "count_inode f s1 = Some s2" "memfs_ok s2" "named s2"
      "extends s1 s2" "fs_mm s2 = fs_mm s1" "dentries s2 = dentries s1" "inodes s2 = inodes s1" "same_tree s1 s2" by blast
    have "mkdir_step f cur x s = Some (a, f, s2)"
      using d True M(1-4) C(1) by (simp add: mkdir_step_def Let_def)
    moreover have "extends s s2" by (rule extends_trans [OF M(7) C(4) n0])
    moreover have "is_dir s2 a = Some True" using M(2,10) C(7) by (auto simp: is_dir_def)
    moreover have "f \<in> dom (memfss s2)" using \<open>f \<in> dom (memfss s1)\<close> extendsD(4) [OF C(4), of f] by auto
    moreover obtain y e where "lookup_dentry s1 cur x = Some y" "y \<noteq> 0" "dentries s1 y = Some e" "d_inode e = a" "d_mounted_fs e = 0"
      using M(11) by blast
    moreover from this have "lookup_dentry s2 cur x = Some y" "dentries s2 y = Some e" "follow s2 f e = Some (a, f)"
      using extendsD(1) [OF C(4)] C(6) by (simp_all add: follow_def)
    ultimately show ?thesis using C(2,3,5) M(8) by auto
  next
    case False
    obtain e where e: "dentries s d = Some e" using lookup_dentry_entry(3) [OF ok d False] by auto
    obtain n g i where n: "follow s f e = Some (n, g)" "inodes s n = Some i" "g \<in> dom (memfss s)" "n \<noteq> 0"
      by (rule follow_ok [OF ok(1) e f])
    have "mkdir_step f cur x s = Some (if i_type i = MEMFS_TYPE_DIR then n else 0, g, s)"
      using d False e n by (simp add: mkdir_step_def)
    moreover have "i_type i = MEMFS_TYPE_DIR \<Longrightarrow> is_dir s n = Some True" using n by (simp add: is_dir_def)
    moreover have "room (fs_mm s) r" by (rule room_mono [OF r]) simp
    ultimately show ?thesis using ok d False e n by auto
  qed
qed

lemma mkdir_walk_ok:
  "memfs_ok s \<Longrightarrow> named s \<Longrightarrow> is_dir s cur = Some True \<Longrightarrow> f \<in> dom (memfss s) \<Longrightarrow> length p \<le> 255 \<Longrightarrow>
    room (fs_mm s) (r + 700 * length p) \<Longrightarrow>
    \<exists>x g s'. mkdir_walk f cur p s = Some (x, g, s') \<and> memfs_ok s' \<and> named s' \<and> extends s s' \<and> room (fs_mm s') r \<and>
      (x \<noteq> 0 \<longrightarrow> walk_path s' f cur p = Some (x, g) \<and> is_dir s' x = Some True \<and> g \<in> dom (memfss s'))"
proof (induction p arbitrary: f cur s rule: measure_induct_rule [of length])
  case (less p)
  show ?case
  proof (cases "p = []")
    case True
    then show ?thesis using less.prems by (subst mkdir_walk.simps) (auto simp: walk_path.simps)
  next
    case False
    obtain y q where y: "next_comp p = Some (y, q)" "length y \<le> 255" using next_comp_short [OF less.prems(5)] by metis
    have short: "length q < length p" by (rule next_comp_shorter [OF y(1) False])
    have "r + 700 * length q + 700 \<le> r + 700 * length p" using short by simp
    from mkdir_step_ok [OF less.prems(1-4) y(2) room_mono [OF less.prems(6) this]] obtain n g s1 where S:
      "mkdir_step f cur y s = Some (n, g, s1)" "memfs_ok s1" "named s1" "extends s s1" "room (fs_mm s1) (r + 700 * length q)"
      "n \<noteq> 0 \<longrightarrow> is_dir s1 n = Some True \<and> g \<in> dom (memfss s1) \<and>
        (\<exists>d e. lookup_dentry s1 cur y = Some d \<and> d \<noteq> 0 \<and> dentries s1 d = Some e \<and> follow s1 f e = Some (n, g))" by blast
    have n0: "inodes s 0 = None" using no_null [OF memfs_okD(3) [OF less.prems(1)]] by simp
    show ?thesis
    proof (cases "n = 0")
      case True
      then have "mkdir_walk f cur p s = Some (0, f, s1)" using False y S(1) by (subst mkdir_walk.simps) simp
      moreover have "room (fs_mm s1) r" by (rule room_mono [OF S(5)]) simp
      ultimately show ?thesis using S(2-4) by blast
    next
      case n: False
      have "length q \<le> 255" using short less.prems(5) by simp
      with less.IH [OF short S(2,3) _ _ _ S(5), of n g] n S(6) obtain x g' s' where W:
        "mkdir_walk g n q s1 = Some (x, g', s')" "memfs_ok s'" "named s'" "extends s1 s'" "room (fs_mm s') r"
        "x \<noteq> 0 \<longrightarrow> walk_path s' g n q = Some (x, g') \<and> is_dir s' x = Some True \<and> g' \<in> dom (memfss s')" by blast
      have "mkdir_walk f cur p s = Some (x, g', s')" using False y S(1) n W(1) by (subst mkdir_walk.simps) simp
      moreover have ext: "extends s s'" by (rule extends_trans [OF S(4) W(4) n0])
      moreover have "walk_path s' f cur p = Some (x, g')" if x0: "x \<noteq> 0"
      proof -
        obtain d e where d: "lookup_dentry s1 cur y = Some d" "d \<noteq> 0" "dentries s1 d = Some e" "follow s1 f e = Some (n, g)"
          using S(6) n by blast
        have "lookup_dentry s' cur y = Some d" "dentries s' d = Some e" "follow s' f e = Some (n, g)" "is_dir s' cur = Some True"
          using d extendsD(1,2) [OF W(4)] extends_follow [OF W(4) d(4)] extendsD(3) [OF ext less.prems(3)] by simp_all
        then show ?thesis using False y(1) d(2) W(6) x0 by (subst walk_path.simps) simp
      qed
      ultimately show ?thesis using W by blast
    qed
  qed
qed


subsection \<open>Creating a node\<close>

lemma walk_into:
  assumes "CHR ''/'' \<in> set path" "last_part path \<noteq> []" "length path \<le> 255"
    "walk_path s f c (path_skip (dir_part path)) = Some (x, g)" "x \<noteq> 0" "is_dir s x = Some True"
    "lookup_dentry s x (last_part path) = Some d" "d \<noteq> 0" "dentries s d = Some e" "follow s g e = Some (y, g')"
  shows "walk_path s f c (path_skip path) = Some (y, g')"
proof -
  note S = split_last [OF assms(1)]
  have "length (last_part path) \<le> 255" using S(1) assms(3) by (metis le_trans length_append le_add2 append.assoc)
  from walk_one [OF assms(6) S(2) assms(2) this assms(7-10)] walk_snoc [OF S(2) assms(2,5,4)] S(1)
  show ?thesis by simp
qed

lemma parts_length: "length (dir_part p) \<le> length p" "length (last_part p) \<le> length p"
proof -
  have "length (dropWhile ((\<noteq>) CHR ''/'') (rev p)) \<le> length p" using length_dropWhile_le [of _ "rev p"] by simp
  then show "length (dir_part p) \<le> length p" by (simp add: dir_part_def)
  show "length (last_part p) \<le> length p" using length_takeWhile_le [of _ "rev p"] by (simp add: last_part_def)
qed

lemma split_parent_ok:
  assumes ok: "memfs_ok s" "named s" and fs: "fs \<in> dom (memfss s)" and p: "absolute path" "length path \<le> 255"
    and r: "room (fs_mm s) (r + 700 * length path)"
  shows "\<exists>par owner s1. split_parent fs path s = Some (par, last_part path, owner, s1) \<and> memfs_ok s1 \<and> named s1 \<and>
    extends s s1 \<and> room (fs_mm s1) r \<and>
    (par \<noteq> 0 \<longrightarrow> is_dir s1 par = Some True \<and> owner \<in> dom (memfss s1) \<and>
      (\<exists>m. memfss s1 fs = Some m \<and> walk_path s1 fs (m_root m) (path_skip (dir_part path)) = Some (par, owner)))"
proof -
  have sl: "CHR ''/'' \<in> set path" using p(1) by (cases path) (auto simp: absolute_def)
  obtain m where m: "memfss s fs = Some m" using fs by auto
  obtain i where i: "inodes s (m_root m) = Some i" "i_type i = MEMFS_TYPE_DIR"
    using graph_okD(7) [OF memfs_okD(2) [OF ok(1)] m] by auto
  then have "m_root m \<noteq> 0" using no_null [OF memfs_okD(3) [OF ok(1)]] by (metis option.distinct(1))
  then have root: "is_dir s (m_root m) = Some True" using i by (simp add: is_dir_def)
  let ?d = "path_skip (dir_part path)"
  have len: "length ?d \<le> length path" using path_skip_length [of "dir_part path"] parts_length(1) [of path] by simp
  then have "length ?d \<le> 255" "room (fs_mm s) (r + 700 * length ?d)" using p(2) room_mono [OF r] by simp_all
  from mkdir_walk_ok [OF ok root fs this] obtain par owner s1 where W: "mkdir_walk fs (m_root m) ?d s = Some (par, owner, s1)"
    "memfs_ok s1" "named s1" "extends s s1" "room (fs_mm s1) r"
    "par \<noteq> 0 \<longrightarrow> walk_path s1 fs (m_root m) ?d = Some (par, owner) \<and> is_dir s1 par = Some True \<and> owner \<in> dom (memfss s1)"
    by blast
  have "mkdir_p fs (if dir_part path = [] then ''/'' else dir_part path) s = Some (par, owner, s1)"
    using m W(1) by (auto simp: mkdir_p_def)
  then have "split_parent fs path s = Some (par, last_part path, owner, s1)"
    using sl parts_length [of path] p(2) by (auto simp: split_parent_def)
  moreover obtain m' where "memfss s1 fs = Some m'" "m_root m' = m_root m" using extendsD(4) [OF W(4) m] by auto
  ultimately show ?thesis using W(2-6) by auto
qed

lemma is_dir_nonnull: "is_dir s x = Some True \<Longrightarrow> x \<noteq> 0"
  by (cases "x = 0") (auto simp: is_dir_def)

text \<open>Where all directories of the path exist nothing is made.\<close>

lemma mkdir_walk_existing:
  "walk_path s f c p = Some (x, g) \<Longrightarrow> is_dir s x = Some True \<Longrightarrow> mkdir_walk f c p s = Some (x, g, s)"
proof (induction p arbitrary: f c rule: measure_induct_rule [of length])
  case (less p)
  have x: "x \<noteq> 0" by (rule is_dir_nonnull [OF less.prems(2)])
  show ?case
  proof (cases "p = []")
    case True
    then show ?thesis using less.prems by (subst mkdir_walk.simps) (auto simp: walk_path.simps)
  next
    case False
    from False less.prems x obtain y r d e n g' where w: "next_comp p = Some (y, r)"
      "lookup_dentry s c y = Some d" "d \<noteq> 0" "dentries s d = Some e" "follow s f e = Some (n, g')"
      "walk_path s g' n r = Some (x, g)"
      by (subst (asm) walk_path.simps) (auto split: option.splits bool.splits if_splits)
    have IH: "mkdir_walk g' n r s = Some (x, g, s)" by (rule less.IH [OF next_comp_shorter [OF w(1) False] w(6) less.prems(2)])
    have n: "is_dir s n = Some True"
    proof (cases "r = []")
      case True
      then show ?thesis using w(6) less.prems(2) by (simp add: walk_path.simps)
    next
      case False
      then show ?thesis using w(6) x by (subst (asm) walk_path.simps) (auto split: option.splits bool.splits)
    qed
    then have "mkdir_step f c y s = Some (n, g', s)"
      using w by (auto simp: mkdir_step_def is_dir_def split: if_splits)
    moreover have "n \<noteq> 0" by (rule is_dir_nonnull [OF n])
    ultimately show ?thesis using False w(1) IH by (subst mkdir_walk.simps) simp
  qed
qed

text \<open>What the create functions do: the result is null or the node the path leads to then, of the
  type asked for; it is a new node where the directory exists and has no entry of that name.\<close>

lemma create_in:
  assumes ok: "memfs_ok s1" "named s1" and par: "is_dir s1 par = Some True" and f: "owner \<in> dom (memfss s1)"
    and x: "length x \<le> 255" and r: "room (fs_mm s1) (r + 700)" and b: "new_body b" "body_fits t b"
    and free: "lookup_dentry s1 par x = Some 0"
  obtains a h1 n h2 s2 s3 d e where "valloc (fs_mm s1) 56 = Some (a, h1)" "a \<noteq> 0" "dup_name (Some x) h1 = Some (n, h2)"
    "dir_add par a (set_inode a (new_inode t n b) (s1\<lparr>fs_mm := h2\<rparr>)) = Some (0, s2)" "count_inode owner s2 = Some s3"
    "memfs_ok s3" "named s3" "extends s1 s3" "room (fs_mm s3) r" "map_option i_type (inodes s3 a) = Some t"
    "a \<notin> dom (inodes s1)" "lookup_dentry s3 par x = Some d" "d \<noteq> 0" "dentries s3 d = Some e" "d_inode e = a" "d_mounted_fs e = 0"
    "contents s3 a = []"
proof -
  obtain a h1 n h2 s2 where M: "valloc (fs_mm s1) 56 = Some (a, h1)" "a \<noteq> 0" "dup_name (Some x) h1 = Some (Some n, h2)"
    "dir_add par a (set_inode a (new_inode t (Some n) b) (s1\<lparr>fs_mm := h2\<rparr>)) = Some (0, s2)"
    "memfs_ok s2" "named s2" "extends s1 s2" "room (fs_mm s2) r" "memfss s2 = memfss s1"
    "map_option i_type (inodes s2 a) = Some t" "a \<notin> dom (inodes s1)"
    "contents s2 a = []" "\<exists>d e. lookup_dentry s2 par x = Some d \<and> d \<noteq> 0 \<and> dentries s2 d = Some e \<and> d_inode e = a \<and> d_mounted_fs e = 0"
    using make_child [OF ok par x free b r] by blast
  have "owner \<in> dom (memfss s2)" using f M(9) by simp
  from count_inode_ok [OF M(5,6) this] obtain s3 where C: "count_inode owner s2 = Some s3" "memfs_ok s3" "named s3"
    "extends s2 s3" "fs_mm s3 = fs_mm s2" "dentries s3 = dentries s2" "inodes s3 = inodes s2" "same_tree s2 s3" by blast
  obtain d e where d: "lookup_dentry s2 par x = Some d" "d \<noteq> 0" "dentries s2 d = Some e" "d_inode e = a" "d_mounted_fs e = 0"
    using M(13) by blast
  have c3: "contents s3 a = []"
  proof -
    have "a \<in> dom (inodes s2)" using M(10) by auto
    then show ?thesis using extendsD(5) [OF C(4)] M(12) by simp
  qed
  have "lookup_dentry s3 par x = Some d" by (rule extendsD(1) [OF C(4) d(1,2)])
  moreover have "extends s1 s3"
    by (rule extends_trans [OF M(7) C(4)]) (use no_null [OF memfs_okD(3) [OF ok(1)]] in simp)
  moreover have "room (fs_mm s3) r" "map_option i_type (inodes s3 a) = Some t" "dentries s3 d = Some e"
    using M(8,10) C(5-7) d(3) by simp_all
  ultimately show ?thesis by (intro that [OF M(1-4) C(1-3)]) (use M(11) d c3 in simp_all)
qed

lemma create_node_ok:
  assumes ok: "memfs_ok s" "named s" and fs: "fs \<in> dom (memfss s)" and p: "absolute path" "length path \<le> 255" "last_part path \<noteq> []"
    and body: "\<And>q. new_body (body q)" "\<And>q. body_fits t (body q)" and r: "room (fs_mm s) (r + 700 * (length path + 1))"
  shows "\<exists>a s'. create_node t body fs path s = Some (a, s') \<and> memfs_ok s' \<and> named s' \<and> extends s s' \<and> room (fs_mm s') r \<and>
    (a \<noteq> 0 \<longrightarrow> lookup_path s' fs path = Some a \<and> map_option i_type (inodes s' a) = Some t) \<and>
    (\<forall>m par g. memfss s fs = Some m \<longrightarrow> walk_path s fs (m_root m) (path_skip (dir_part path)) = Some (par, g) \<longrightarrow>
       is_dir s par = Some True \<longrightarrow> lookup_dentry s par (last_part path) = Some 0 \<longrightarrow> a \<noteq> 0 \<and> a \<notin> dom (inodes s) \<and> contents s' a = [])"
proof -
  have sl: "CHR ''/'' \<in> set path" using p(1) by (cases path) (auto simp: absolute_def)
  have fs0: "fs \<noteq> 0" using fs no_null [OF memfs_okD(3) [OF ok(1)]] by (cases "fs = 0") auto
  have x: "length (last_part path) \<le> 255" using parts_length(2) [of path] p(2) by simp
  have look: "lookup_path s' fs path = map_option fst (walk_path s' fs (m_root m) (path_skip path))"
    if "memfss s' fs = Some m" for s' m
    using that fs0 p(1) by (auto simp: lookup_path_def lookup_path_ex_def walk_path.simps)
  have n0: "inodes s 0 = None" using no_null [OF memfs_okD(3) [OF ok(1)]] by simp
  have r': "room (fs_mm s) (r + 700 + 700 * length path)" by (rule room_mono [OF r]) simp
  from split_parent_ok [OF ok fs p(1,2) r'] obtain par owner s1 where S:
    "split_parent fs path s = Some (par, last_part path, owner, s1)" "memfs_ok s1" "named s1" "extends s s1" "room (fs_mm s1) (r + 700)"
    "par \<noteq> 0 \<longrightarrow> is_dir s1 par = Some True \<and> owner \<in> dom (memfss s1) \<and>
      (\<exists>m. memfss s1 fs = Some m \<and> walk_path s1 fs (m_root m) (path_skip (dir_part path)) = Some (par, owner))" by blast
  have r1: "room (fs_mm s1) r" by (rule room_mono [OF S(5)]) simp
  have existing: "par = par0 \<and> s1 = s"
    if "memfss s fs = Some m" "walk_path s fs (m_root m) (path_skip (dir_part path)) = Some (par0, g)"
      "is_dir s par0 = Some True" for m par0 g
  proof -
    have "mkdir_p fs (if dir_part path = [] then ''/'' else dir_part path) s = Some (par0, g, s)"
      using that(1) mkdir_walk_existing [OF that(2,3)] by (auto simp: mkdir_p_def)
    then show ?thesis using S(1) sl parts_length [of path] p(2) by (auto simp: split_parent_def)
  qed
  show ?thesis
  proof (cases "par = 0")
    case True
    then have "create_node t body fs path s = Some (0, s1)" using S(1) fs0 p(1) by (simp add: create_node_def)
    moreover have "is_dir s par0 \<noteq> Some True"
      if "memfss s fs = Some m0" "walk_path s fs (m_root m0) (path_skip (dir_part path)) = Some (par0, g0)" for m0 par0 g0
      using existing [OF that] is_dir_nonnull [of s par0] True by auto
    ultimately show ?thesis using S(2-4) r1 by blast
  next
    case False
    then obtain m where m: "is_dir s1 par = Some True" "owner \<in> dom (memfss s1)" "memfss s1 fs = Some m"
      "walk_path s1 fs (m_root m) (path_skip (dir_part path)) = Some (par, owner)" using S(6) by blast
    obtain ex where ex: "lookup_dentry s1 par (last_part path) = Some ex" using lookup_dentry_named(1) [OF S(2,3) m(1)] by simp
    show ?thesis
    proof (cases "ex = 0")
      case True
      obtain a h1 n h2 s2 s3 d e where C:
        "valloc (fs_mm s1) 56 = Some (a, h1)" "a \<noteq> 0" "dup_name (Some (last_part path)) h1 = Some (n, h2)"
        "dir_add par a (set_inode a (new_inode t n (body par)) (s1\<lparr>fs_mm := h2\<rparr>)) = Some (0, s2)" "count_inode owner s2 = Some s3"
        "memfs_ok s3" "named s3" "extends s1 s3" "room (fs_mm s3) r" "map_option i_type (inodes s3 a) = Some t"
        "a \<notin> dom (inodes s1)" "lookup_dentry s3 par (last_part path) = Some d" "d \<noteq> 0" "dentries s3 d = Some e" "d_inode e = a" "d_mounted_fs e = 0"
        "contents s3 a = []"
        by (rule create_in [OF S(2,3) m(1,2) x S(5) body ex [unfolded True]])
      have cr: "create_node t body fs path s = Some (a, s3)"
        using S(1) fs0 p(1) False ex True C(1-5) by (simp add: create_node_def)
      have ext: "extends s s3" by (rule extends_trans [OF S(4) C(8) n0])
      obtain m' where m': "memfss s3 fs = Some m'" "m_root m' = m_root m" using extendsD(4) [OF C(8) m(3)] by auto
      have "walk_path s3 fs (m_root m') (path_skip path) = Some (a, owner)"
        by (rule walk_into [OF sl p(3,2) _ False extendsD(3) [OF C(8) m(1)] C(12,13,14)])
          (use extends_walk [OF C(8) m(4) False] m'(2) C(15,16) in \<open>simp_all add: follow_def\<close>)
      then have "lookup_path s3 fs path = Some a" using look [OF m'(1)] by simp
      moreover have "a \<notin> dom (inodes s)"
        using C(2,11) is_dir_dom [of a s] is_dir_dom [of a s1] extendsD(3) [OF S(4), of a] by blast
      ultimately show ?thesis using cr C(2,6,7,9,10,17) ext by blast
    next
      case ex0: False
      obtain e where e: "dentries s1 ex = Some e" using lookup_dentry_entry(3) [OF S(2,3) ex ex0] by auto
      obtain n g i where n: "follow s1 owner e = Some (n, g)" "inodes s1 n = Some i" "g \<in> dom (memfss s1)" "n \<noteq> 0"
        by (rule follow_ok [OF S(2) e m(2)])
      have "walk_path s1 fs (m_root m) (path_skip path) = Some (n, g)"
        by (rule walk_into [OF sl p(3,2) m(4) False m(1) ex ex0 e n(1)])
      then have l: "lookup_path s1 fs path = Some n" using look [OF m(3)] by simp
      have "create_node t body fs path s = Some (if i_type i = t \<and> (t = MEMFS_TYPE_DIR \<or> d_mounted_fs e = 0) then n else 0, s1)"
      proof (cases "d_mounted_fs e = 0")
        case True
        then have "n = d_inode e" using n(1) by (simp add: follow_def)
        then show ?thesis using S(1) fs0 p(1) False ex ex0 e True n(2,4) by (auto simp: create_node_def)
      next
        case mnt: False
        then obtain mm where mm: "memfss s1 (d_mounted_fs e) = Some mm" "m_root mm = n"
          using n(1) by (auto simp: follow_def split: bind_splits)
        have "i_type i = MEMFS_TYPE_DIR" using graph_okD(7) [OF memfs_okD(2) [OF S(2)] mm(1)] mm(2) n(2) by auto
        then show ?thesis using S(1) fs0 p(1) False ex ex0 e mnt mm by (auto simp: create_node_def)
      qed
      moreover have "\<not> lookup_dentry s par0 (last_part path) = Some 0"
        if "memfss s fs = Some m0" "walk_path s fs (m_root m0) (path_skip (dir_part path)) = Some (par0, g0)"
          "is_dir s par0 = Some True" for m0 par0 g0
        using existing [OF that] ex ex0 by auto
      ultimately show ?thesis using S(2-4) r1 l n(2) by auto
    qed
  qed
qed

end
