(* ===== verification/Memfs_Delete.thy ===== *)
theory Memfs_Delete
  imports Memfs_Create
begin

section \<open>Removing files\<close>

text \<open>
  \<^verbatim>\<open>memfs_delete_file\<close> of \<^verbatim>\<open>memfs.c\<close>: the entry is taken out of its directory and the inode is
  released exactly when no entry refers to it any more.
\<close>

lemma vfree_mem: "mem_ok (fs_mm s) \<Longrightarrow> p = 0 \<or> p \<in> fst ` live (fs_mm s) \<Longrightarrow> fs_vfree p s = Some s"
  using vfree_quiet [of "fs_mm s" p] by (simp add: fs_vfree_def)

lemma vfree_name:
  assumes "mem_ok (fs_mm s)" "name_ok (fs_mm s) nm"
  shows "(case nm of None \<Rightarrow> Some s | Some (n, _) \<Rightarrow> fs_vfree n s) = Some s"
  using assms vfree_mem [of s] by (auto simp: name_ok_def split: option.splits)

lemma refs_drop:
  assumes st: "store_ok s" and d: "dentries s d = Some e"
    and s': "dentries s' = (dentries s)(d := None)" "memfss s' = memfss s"
  shows "refs s' a = refs s a - (if a = d_inode e then 1 else 0)" "0 < refs s (d_inode e)"
proof -
  let ?A = "{y. \<exists>e. dentries s y = Some e \<and> d_inode e = a}"
  have "{y. \<exists>e. dentries s' y = Some e \<and> d_inode e = a} = (if a = d_inode e then ?A - {d} else ?A)"
    using d by (auto simp: s')
  moreover have "a = d_inode e \<Longrightarrow> d \<in> ?A" using d by auto
  moreover have "0 < card ?A" if "a = d_inode e" using that calculation(2) dentries_finite [OF st, of a] card_gt_0_iff by blast
  ultimately show "refs s' a = refs s a - (if a = d_inode e then 1 else 0)"
    using dentries_finite [OF st, of a] by (auto simp: refs_def s'(2))
  have "d \<in> {y. \<exists>x. dentries s y = Some x \<and> d_inode x = d_inode e}" using d by auto
  then show "0 < refs s (d_inode e)"
    using dentries_finite [OF st, of "d_inode e"] card_gt_0_iff unfolding refs_def by fastforce
qed

lemma drop_entry_ok:
  assumes ok: "memfs_ok s" and d: "dentries s d = Some e" "d \<in> set es"
    and par: "inodes s par = Some p" "i_body p = Dir_body es n q" and ne: "par \<noteq> d_inode e"
  obtains s' where "drop_entry par d e s = Some s'" "memfs_ok s'" "fs_mm s' = fs_mm s" "memfss s' = memfss s"
    "dentries s' = (dentries s)(d := None)" "\<And>a. entries_at s' a = (if a = par then remove1 d es else entries_at s a)"
    "\<And>a. map_option i_type (inodes s' a) = map_option i_type (inodes s a)" "\<And>a. file_of s' a = file_of s a"
proof -
  note O = memfs_okD [OF ok]
  obtain i where i: "inodes s (d_inode e) = Some i" using graph_okD(5) [OF O(2) d(1)] by auto
  let ?p = "p\<lparr>i_body := Dir_body (remove1 d es) (n - 1) q\<rparr>" and ?i = "i\<lparr>i_links := i_links i - 1\<rparr>"
  define s1 where "s1 = set_inode (d_inode e) ?i (set_inode par ?p s)"
  define s' where "s' = s1\<lparr>dentries := (dentries s1)(d := None)\<rparr>"
  have mm: "mem_ok (fs_mm s1)" using O(1) by (simp add: s1_def)
  have "d \<in> objects s" using d(1) by (auto simp: objects_def)
  then have v2: "fs_vfree d s1 = Some s1" by (intro vfree_mem [OF mm]) (use store_okD(2) [OF O(3)] in \<open>simp add: s1_def\<close>)
  have "name_ok (fs_mm s1) (d_name e)" using store_okD(4) [OF O(3) d(1)] by (simp add: s1_def)
  note v1 = vfree_name [OF mm this]
  have run: "drop_entry par d e s = Some s'"
    using par i ne v1 [unfolded s1_def] v2 [unfolded s1_def] by (simp add: drop_entry_def Let_def s'_def s1_def del: One_nat_def)
  have ino: "inodes s' = (inodes s)(par \<mapsto> ?p, d_inode e \<mapsto> ?i)" by (simp add: s'_def s1_def)
  have den: "dentries s' = (dentries s)(d := None)" and mem: "memfss s' = memfss s" and fmm: "fs_mm s' = fs_mm s"
    by (simp_all add: s'_def s1_def)
  have ent: "entries_at s' a = (if a = par then remove1 d es else entries_at s a)" for a
    using i ne by (auto simp: entries_at_def ino)
  have ty: "map_option i_type (inodes s' a) = map_option i_type (inodes s a)" for a using i par ne by (simp add: ino)
  have fo: "file_of s' a = file_of s a" for a using i par ne by (auto simp: file_of_def ino)
  have dom: "dom (inodes s') = dom (inodes s)" using i par by (auto simp: ino)
  have es: "distinct es" "n = length es" "entries_at s par = es"
    using graph_okD(1) [OF O(2) par(1)] par by (simp_all add: entries_at_def)
  have st: "store_ok s'"
  proof (rule store_okI)
    show "mem_ok (fs_mm s')" using O(1) fmm by simp
    show "kinds_apart s'" using store_okD(7) [OF O(3)] unfolding kinds_apart_def dom den mem by auto
    fix a assume "a \<in> objects s'"
    then have "a \<in> objects s" unfolding objects_def dom den mem by (auto split: if_splits)
    then show "a \<in> fst ` live (fs_mm s')" using store_okD(2) [OF O(3)] fmm by simp
  next
    fix a j assume "inodes s' a = Some j"
    then have "\<exists>k. inodes s a = Some k \<and> i_name j = i_name k" using i par by (auto simp: ino split: if_splits)
    then show "name_ok (fs_mm s') (i_name j)" using store_okD(3) [OF O(3), of a] fmm by auto
  next
    fix a x assume "dentries s' a = Some x"
    then show "name_ok (fs_mm s') (d_name x)" using store_okD(4) [OF O(3), of a x] fmm by (auto simp: den split: if_splits)
  next
    fix a k x assume "file_of s' a = Some (k, x)"
    then show "data_ok (fs_mm s') k x" using store_okD(5) [OF O(3), of a k x] fmm unfolding fo by simp
  next
    fix a b k m x assume "file_of s' a = Some (k, x)" "file_of s' b = Some (m, x)" "x \<noteq> 0"
    then show "a = b" using store_okD(6) [OF O(3)] unfolding fo by blast
  qed
  note R = refs_drop [OF O(3) d(1) den mem]
  have g: "graph_ok s'" unfolding graph_ok_def
  proof (intro conjI allI impI)
    fix a j assume j: "inodes s' a = Some j"
    obtain k where k: "inodes s a = Some k" using dom j by (metis domD domI)
    note K = graph_okD(1,2) [OF O(2) k]
    show "body_fits (i_type j) (i_body j)"
      using j k K(1) par es d(2) i ne by (auto simp: ino length_remove1 split: if_splits)
    show "i_links j = refs s' a" unfolding R(1) using j k K(2) par i ne by (auto simp: ino split: if_splits)
  next
    fix a show "set (entries_at s' a) \<subseteq> dom (dentries s')"
    proof (cases "a = par")
      case True
      then show ?thesis using graph_okD(3) [OF O(2), of par] es unfolding ent den by (auto simp: set_remove1_eq)
    next
      case False
      then have "d \<notin> set (entries_at s a)" using graph_okD(4) [OF O(2), of a par] es(3) d(2) by auto
      then show ?thesis using graph_okD(3) [OF O(2), of a] False unfolding ent den by auto
    qed
  next
    fix a b :: addr assume "a \<noteq> b"
    then show "set (entries_at s' a) \<inter> set (entries_at s' b) = {}"
      using graph_okD(4) [OF O(2), of a b] es(1,3) unfolding ent by (auto simp: set_remove1_eq)
  next
    fix y x assume y: "dentries s' y = Some x"
    then have "dentries s y = Some x" by (auto simp: den split: if_splits)
    then show "d_inode x \<in> dom (inodes s')" "d_mounted_fs x = 0 \<or> d_mounted_fs x \<in> dom (memfss s')"
      unfolding dom mem using graph_okD(5,6) [OF O(2)] by blast+
  next
    fix f m assume "memfss s' f = Some m"
    then obtain k where "inodes s (m_root m) = Some k" "i_type k = MEMFS_TYPE_DIR" using graph_okD(7) [OF O(2), of f m] mem by auto
    then show "\<exists>j. inodes s' (m_root m) = Some j \<and> i_type j = MEMFS_TYPE_DIR" using ty [of "m_root m"] by auto
  qed
  show ?thesis by (rule that [OF run _ fmm mem den ent ty fo]) (simp add: memfs_ok_def g st)
qed


lemma drop_inode_ok:
  assumes ok: "memfs_ok s" and i: "inodes s node = Some i" "i_links i = 0" and e: "entries_at s node = []"
    and f: "owner \<in> dom (memfss s)"
  obtains s' where "drop_inode owner node s = Some s'" "memfs_ok s'" "fs_mm s' = fs_mm s" "dentries s' = dentries s"
    "inodes s' = (inodes s)(node := None)" "\<And>f. map_option m_root (memfss s' f) = map_option m_root (memfss s f)"
proof -
  note O = memfs_okD [OF ok]
  obtain m where m: "memfss s owner = Some m" using f by auto
  let ?m = "m\<lparr>m_inode_count := m_inode_count m - 1\<rparr>"
  define s1 where "s1 = set_memfs owner ?m s"
  define s' where "s' = s1\<lparr>inodes := (inodes s1)(node := None)\<rparr>"
  have v1: "(case i_name i of None \<Rightarrow> Some s | Some (n, _) \<Rightarrow> fs_vfree n s) = Some s"
    by (rule vfree_name [OF O(1) store_okD(3) [OF O(3) i(1)]])
  have "node \<in> fst ` live (fs_mm s)" by (rule store_okD(2) [OF O(3)]) (use i(1) in \<open>auto simp: objects_def\<close>)
  then have v2: "fs_vfree node s1 = Some s1" by (intro vfree_mem) (use O(1) in \<open>simp_all add: s1_def\<close>)
  have run: "drop_inode owner node s = Some s'" using i(1) v1 m v2 [unfolded s1_def] by (simp add: drop_inode_def s'_def s1_def)
  have ino: "inodes s' = (inodes s)(node := None)" and den: "dentries s' = dentries s" and fmm: "fs_mm s' = fs_mm s"
    and mem: "memfss s' = (memfss s)(owner \<mapsto> ?m)" by (simp_all add: s'_def s1_def)
  have root: "map_option m_root (memfss s' g) = map_option m_root (memfss s g)" for g using m by (simp add: mem)
  have refs: "refs s' a = refs s a" for a by (rule refs_cong [OF den root])
  have r0: "refs s node = 0" using graph_okD(2) [OF O(2) i(1)] i(2) by simp
  have nod: "d_inode x \<noteq> node" if "dentries s y = Some x" for y x
  proof
    assume "d_inode x = node"
    then have "0 < refs s node" using refs_drop(2) [OF O(3) that, of "s\<lparr>dentries := (dentries s)(y := None)\<rparr>"] by simp
    with r0 show False by simp
  qed
  have nor: "m_root x \<noteq> node" if "memfss s y = Some x" for y x
  proof
    assume x: "m_root x = node"
    have "{f. \<exists>m. memfss s f = Some m \<and> m_root m = node} \<subseteq> {1..<2 ^ 32}"
      using objects_bound [OF O(3)] by (auto simp: objects_def)
    then have "finite {f. \<exists>m. memfss s f = Some m \<and> m_root m = node}" by (rule finite_subset) simp
    moreover have "y \<in> {f. \<exists>m. memfss s f = Some m \<and> m_root m = node}" using that x by auto
    ultimately have "0 < card {f. \<exists>m. memfss s f = Some m \<and> m_root m = node}" using card_gt_0_iff by blast
    with r0 show False by (simp add: refs_def)
  qed
  have ent: "entries_at s' a = entries_at s a" for a using e by (auto simp: entries_at_def ino)
  have fo: "file_of s' a = (if a = node then None else file_of s a)" for a by (simp add: file_of_def ino)
  have dm: "dom (memfss s') = dom (memfss s)" using m by (auto simp: mem)
  have g: "graph_ok s'" unfolding graph_ok_def refs ent den dm
  proof (intro conjI allI impI)
    fix y x assume y: "dentries s y = Some x"
    show "d_inode x \<in> dom (inodes s')" using graph_okD(5) [OF O(2) y] nod [OF y] by (auto simp: ino)
  next
    fix f x assume "memfss s' f = Some x"
    then obtain x0 where x0: "memfss s f = Some x0" "m_root x0 = m_root x" using root [of f] by (cases "memfss s f") auto
    show "\<exists>j. inodes s' (m_root x) = Some j \<and> i_type j = MEMFS_TYPE_DIR"
      using graph_okD(7) [OF O(2) x0(1)] nor [OF x0(1)] x0(2) by (auto simp: ino)
  qed (use graph_okD(1-6) [OF O(2)] in \<open>auto simp: ino split: if_splits\<close>)
  have st: "store_ok s'"
  proof (rule store_okI)
    show "mem_ok (fs_mm s')" using O(1) fmm by simp
    show "kinds_apart s'" using store_okD(7) [OF O(3)] unfolding kinds_apart_def den dm by (auto simp: ino)
    fix a assume "a \<in> objects s'"
    then have "a \<in> objects s" unfolding objects_def den dm by (auto simp: ino split: if_splits)
    then show "a \<in> fst ` live (fs_mm s')" using store_okD(2) [OF O(3)] fmm by simp
  qed (use store_okD(3-6) [OF O(3)] in \<open>auto simp: fmm ino den fo split: if_splits\<close>)
  show ?thesis by (rule that [OF run _ fmm den ino root]) (simp add: memfs_ok_def g st)
qed

subsection \<open>Finding nothing after a removal\<close>

lemma walk_dentry_chain:
  assumes "walk_dentry s f c p = Some (d, owner, par)" "d \<noteq> 0" "f \<in> dom (memfss s)"
  shows "owner \<in> dom (memfss s) \<and> is_dir s par = Some True \<and> (\<exists>x. lookup_dentry s par x = Some d)"
  using assms
proof (induction s f c p rule: walk_dentry.induct)
  case (1 s f c p)
  from "1.prems"(1,2) obtain nm r d0 where w: "p \<noteq> []" "is_dir s c = Some True" "next_comp p = Some (nm, r)"
    "lookup_dentry s c nm = Some d0" "d0 \<noteq> 0"
    by (subst (asm) walk_dentry.simps) (auto split: option.splits bool.splits if_splits)
  show ?case
  proof (cases "r = []")
    case True
    then show ?thesis using w "1.prems" by (subst (asm) walk_dentry.simps) auto
  next
    case False
    then obtain e n g where e: "dentries s d0 = Some e" "follow s f e = Some (n, g)" "walk_dentry s g n r = Some (d, owner, par)"
      using w "1.prems"(1,2) by (subst (asm) walk_dentry.simps) (auto split: option.splits)
    have "g \<in> dom (memfss s)" by (rule follow_owner [OF e(2) "1.prems"(3)])
    with "1.IH" [OF w(1,2) _ w(3) refl w(4,5) False e(1,2) refl e(3) "1.prems"(2)] show ?thesis by blast
  qed
qed

lemma walk_dentry_removed:
  assumes d: "d \<noteq> 0" "dentries s d = Some e" "d_mounted_fs e = 0" "is_dir s (d_inode e) = Some False"
    and dir: "\<And>a. is_dir s a = Some True \<Longrightarrow> is_dir s' a = Some True"
    and keep: "\<And>a x y. is_dir s a = Some True \<Longrightarrow> lookup_dentry s a x = Some y \<Longrightarrow> y \<noteq> d \<Longrightarrow> lookup_dentry s' a x = Some y"
    and gone: "\<And>x. lookup_dentry s par x = Some d \<Longrightarrow> lookup_dentry s' par x = Some 0"
    and den: "\<And>y z. y \<noteq> d \<Longrightarrow> dentries s y = Some z \<Longrightarrow> dentries s' y = Some z"
    and root: "\<And>f. map_option m_root (memfss s' f) = map_option m_root (memfss s f)"
  shows "walk_dentry s f c p = Some (d, owner, par) \<Longrightarrow> walk_dentry s' f c p = Some (0, 0, 0)"
proof (induction p arbitrary: f c rule: measure_induct_rule [of length])
  case (less p)
  from less.prems d(1) obtain nm r d0 where w: "p \<noteq> []" "is_dir s c = Some True" "next_comp p = Some (nm, r)"
    "lookup_dentry s c nm = Some d0" "d0 \<noteq> 0"
    by (subst (asm) walk_dentry.simps) (auto split: option.splits bool.splits if_splits)
  show ?case
  proof (cases "r = []")
    case True
    then have "d0 = d" "c = par" using w less.prems by (subst (asm) walk_dentry.simps, auto)+
    then show ?thesis using w dir [OF w(2)] gone [of nm] by (subst walk_dentry.simps) simp
  next
    case False
    then obtain e0 n g where e0: "dentries s d0 = Some e0" "follow s f e0 = Some (n, g)" "walk_dentry s g n r = Some (d, owner, par)"
      using w less.prems by (subst (asm) walk_dentry.simps) (auto split: option.splits)
    have "d0 \<noteq> d"
    proof
      assume "d0 = d"
      then have "is_dir s n = Some False" using e0 d by (simp add: follow_def)
      then show False using e0(3) d(1) False by (subst (asm) walk_dentry.simps) simp
    qed
    moreover have "follow s' f e0 = Some (n, g)"
      using e0(2) root [of "d_mounted_fs e0"] by (auto simp: follow_def split: if_splits bind_splits)
    moreover have "walk_dentry s' g n r = Some (0, 0, 0)" by (rule less.IH [OF next_comp_shorter [OF w(3,1)] e0(3)])
    ultimately show ?thesis using w(1,3,5) dir [OF w(2)] keep [OF w(2,4)] den [OF _ e0(1)] False
      by (subst walk_dentry.simps) simp
  qed
qed


lemma find_filter_other: "find P xs = Some y \<Longrightarrow> y \<noteq> d \<Longrightarrow> find P (filter ((\<noteq>) d) xs) = Some y"
  by (induction xs) (auto split: if_splits)

lemma find_filter_none: "find P xs = None \<Longrightarrow> find P (filter Q xs) = None"
  by (auto simp: find_None_iff)

text \<open>Lookups after the entry is gone.\<close>

lemma removed_lookup:
  assumes ok: "memfs_ok s" "memfs_ok s1" and nm: "named s" and par: "is_dir s par = Some True" and d: "d \<in> set (entries_at s par)"
    and s1: "dentries s1 = (dentries s)(d := None)"
      "\<And>a. entries_at s1 a = (if a = par then remove1 d (entries_at s par) else entries_at s a)"
      "\<And>a. is_dir s1 a = is_dir s a"
  shows "named s1" "is_dir s a = Some True \<Longrightarrow> lookup_dentry s a x = Some y \<Longrightarrow> y \<noteq> d \<Longrightarrow> lookup_dentry s1 a x = Some y"
    "lookup_dentry s par x = Some d \<Longrightarrow> lookup_dentry s1 par x = Some 0"
proof -
  obtain i es n q where i: "inodes s par = Some i" "i_body i = Dir_body es n q" "par \<noteq> 0" "entries_at s par = es"
    by (rule is_dirE [OF ok(1) par])
  have dis: "distinct es" using graph_okD(1) [OF memfs_okD(2) [OF ok(1)] i(1)] i(2) by simp
  have rm: "remove1 d es = filter ((\<noteq>) d) es"
    using distinct_remove1_removeAll [OF dis, of d] by (simp add: removeAll_filter_not_eq)
  have other: "d \<notin> set (entries_at s a)" if "a \<noteq> par" for a
    using graph_okD(4) [OF memfs_okD(2) [OF ok(1)] that] d by auto
  have dn: "dname s1 z = dname s z" if "z \<noteq> d" for z using that by (simp add: dname_def s1(1))
  have ent: "entries_at s1 a = filter ((\<noteq>) d) (entries_at s a)" for a
    using other [of a] i(4) rm by (cases "a = par") (auto simp: s1(2) intro!: filter_True [symmetric])
  have dnm: "map (dname s1) (entries_at s1 a) = map (dname s) (filter ((\<noteq>) d) (entries_at s a))" for a
    using dn by (auto simp: ent)
  show nm1: "named s1" unfolding named_def dnm using nm by (auto simp: named_def s1(1) intro!: distinct_map_filter split: if_splits)
  have fnd: "find (\<lambda>z. dname s1 z = x) (entries_at s1 a) = find (\<lambda>z. dname s z = x) (filter ((\<noteq>) d) (entries_at s a))" for a x
    unfolding ent by (rule find_cong) (use dn in auto)
  note L = lookup_dentry_named(1) [OF ok(1) nm] and L1 = lookup_dentry_named(1) [OF ok(2) nm1]
  show "lookup_dentry s1 a x = Some y" if a: "is_dir s a = Some True" "lookup_dentry s a x = Some y" "y \<noteq> d"
  proof (cases "find (\<lambda>z. dname s z = x) (entries_at s a)")
    case None
    then show ?thesis using L [OF a(1), of x] L1 [of a x] a s1(3) find_filter_none [OF None] by (simp add: fnd)
  next
    case (Some z)
    then have "z = y" using L [OF a(1), of x] a(2) by simp
    then show ?thesis using L1 [of a x] a s1(3) find_filter_other [OF Some] by (simp add: fnd)
  qed
  assume x: "lookup_dentry s par x = Some d"
  have "d \<noteq> 0" using d graph_okD(3) [OF memfs_okD(2) [OF ok(1)], of par] no_null [OF memfs_okD(3) [OF ok(1)]]
    by (cases "d = 0") auto
  from lookup_dentry_entry(2) [OF ok(1) nm x this] have dx: "dname s d = x" .
  have "dname s z \<noteq> x" if "z \<in> set (entries_at s par)" "z \<noteq> d" for z
    using nm that d dx unfolding named_def distinct_map inj_on_def by blast
  then have "find (\<lambda>z. dname s z = x) (filter ((\<noteq>) d) (entries_at s par)) = None" by (auto simp: find_None_iff)
  then show "lookup_dentry s1 par x = Some 0" using L1 [of par x] par s1(3) by (simp add: fnd)
qed

lemma types_is_dir: "map_option i_type (inodes s' a) = map_option i_type (inodes s a) \<Longrightarrow> is_dir s' a = is_dir s a"
proof -
  assume "map_option i_type (inodes s' a) = map_option i_type (inodes s a)"
  from arg_cong [OF this, of "map_option (\<lambda>t. t = MEMFS_TYPE_DIR)"]
  show ?thesis by (simp add: is_dir_def option.map_comp comp_def)
qed

text \<open>The end of \<^verbatim>\<open>memfs_delete_file\<close>: an inode without links is emptied and released.\<close>

lemma release_file:
  assumes ok: "memfs_ok s1" and i: "inodes s1 node = Some i" "is_storage_node (i_type i)" "i_links i = 0"
    and f: "file_of s1 node = Some (n, p)" and fs: "owner \<in> dom (memfss s1)"
  obtains s2 s3 where "(if p \<noteq> 0 then do { s' \<leftarrow> fs_vfree p s1; s'' \<leftarrow> used_sub owner n s'; set_file node 0 0 s'' } else Some s1) = Some s2"
    "drop_inode owner node s2 = Some s3" "memfs_ok s3" "dentries s3 = dentries s1" "inodes s3 node = None"
    "\<And>f. map_option m_root (memfss s3 f) = map_option m_root (memfss s1 f)" "\<And>a. entries_at s3 a = entries_at s1 a"
    "\<And>a. is_dir s1 a = Some True \<Longrightarrow> is_dir s3 a = Some True" "\<And>b. b \<noteq> node \<Longrightarrow> contents s3 b = contents s1 b"
    "\<And>a x. a \<noteq> node \<Longrightarrow> lookup_dentry s3 a x = lookup_dentry s1 a x"
proof -
  from empty_file [OF ok f fs] obtain s2 where s2:
    "(if p \<noteq> 0 then do { s' \<leftarrow> fs_vfree p s1; s'' \<leftarrow> used_sub owner n s'; set_file node 0 0 s'' } else Some s1) = Some s2"
    "memfs_ok s2" "same_tree s1 s2" "fs_mm s2 = fs_mm s1" "file_of s2 node = Some (0, 0)"
    "\<forall>b. b \<noteq> node \<longrightarrow> file_of s2 b = file_of s1 b" by blast
  obtain j where j: "inodes s2 node = Some j" "i_body j = File_body 0 0" using s2(5) by (auto simp: file_of_eq)
  obtain i' where i': "inodes s1 node = Some i'" "i_type i' = i_type j" "i_links i' = i_links j"
    using same_tree_inode [OF s2(3) j(1)] by blast
  have l: "i_links j = 0" using i' i by simp
  have e2: "entries_at s2 node = []" using j by (simp add: entries_at_def)
  have fs2: "owner \<in> dom (memfss s2)" using fs same_treeD(2) [OF s2(3), of owner] by (auto simp: dom_def)
  obtain s3 where s3: "drop_inode owner node s2 = Some s3" "memfs_ok s3" "fs_mm s3 = fs_mm s2" "dentries s3 = dentries s2"
    "inodes s3 = (inodes s2)(node := None)" "\<And>f. map_option m_root (memfss s3 f) = map_option m_root (memfss s2 f)"
    by (rule drop_inode_ok [OF s2(2) j(1) l e2 fs2]) blast
  have e3: "entries_at s3 a = entries_at s1 a" for a
    using e2 same_tree_entries [OF s2(3), of a] by (auto simp: entries_at_def s3(5) split: option.splits)
  have nd: "is_dir s1 node \<noteq> Some True" using i by (auto simp: is_dir_def is_storage_node_def)
  have d3: "is_dir s3 a = Some True" if "is_dir s1 a = Some True" for a
  proof -
    have "a \<noteq> node" "a \<noteq> 0" using that nd is_dir_nonnull [OF that] by auto
    then have "is_dir s3 a = is_dir s2 a" by (simp add: is_dir_def s3(5))
    then show ?thesis using that is_dir_cong [OF s2(3), of a] by simp
  qed
  have c3: "contents s3 b = contents s1 b" if "b \<noteq> node" for b
  proof -
    have "file_of s3 b = file_of s1 b" using s2(6) that by (simp add: file_of_def s3(5))
    then show ?thesis using s2(4) s3(3) by (simp add: contents_def fs_get_def cong: option.case_cong)
  qed
  have l3: "lookup_dentry s3 a x = lookup_dentry s1 a x" if "a \<noteq> node" for a x
  proof -
    have "lookup_dentry s3 a x = lookup_dentry s2 a x"
      unfolding lookup_dentry_def scan_entries_cong [OF s3(4)] using that by (simp add: s3(5))
    then show ?thesis using lookup_dentry_cong [OF s2(3)] by simp
  qed
  show ?thesis
    by (rule that [OF s2(1) s3(1,2)]) (use s3(4-6) same_treeD(1,2) [OF s2(3)] e3 d3 c3 l3 in simp_all)
qed

lemma delete_file_ok:
  assumes ok: "memfs_ok s" "named s" and fs: "fs \<in> dom (memfss s)"
    and look: "lookup_path_dentry s fs path = Some (d, owner, par)" and d: "d \<noteq> 0" "dentries s d = Some e" "d_mounted_fs e = 0"
    and i: "inodes s (d_inode e) = Some i" "is_storage_node (i_type i)"
  shows "\<exists>s'. memfs_delete_file fs path s = Some (0, s') \<and> memfs_ok s' \<and> named s' \<and>
    lookup_path_dentry s' fs path = Some (0, 0, 0) \<and> (inodes s' (d_inode e) = None \<longleftrightarrow> refs s (d_inode e) = 1) \<and>
    (\<forall>b. b \<noteq> d_inode e \<or> refs s (d_inode e) \<noteq> 1 \<longrightarrow> contents s' b = contents s b)"
proof -
  let ?node = "d_inode e"
  note O = memfs_okD [OF ok(1)] and N = no_null [OF memfs_okD(3) [OF ok(1)]]
  have guard: "fs \<noteq> 0" "absolute path" "path \<noteq> ''/''" using look d(1) by (auto simp: lookup_path_dentry_def split: if_splits)
  obtain m where m: "memfss s fs = Some m" "walk_dentry s fs (m_root m) (path_skip path) = Some (d, owner, par)"
    using look guard fs by (auto simp: lookup_path_dentry_def split: if_splits)
  obtain x where W: "owner \<in> dom (memfss s)" "is_dir s par = Some True" "lookup_dentry s par x = Some d"
    using walk_dentry_chain [OF m(2) d(1) fs] by blast
  obtain pi es n q where P: "inodes s par = Some pi" "i_type pi = MEMFS_TYPE_DIR" "i_body pi = Dir_body es n q" "par \<noteq> 0" "entries_at s par = es"
    by (rule is_dirE [OF ok(1) W(2)])
  have des: "d \<in> set es" using lookup_dentry_entry(1) [OF ok W(3) d(1)] P(5) by simp
  have node0: "?node \<noteq> 0" using i(1) N by (cases "?node = 0") auto
  have nd: "is_dir s ?node = Some False" using i node0 by (auto simp: is_dir_def is_storage_node_def)
  have ne: "par \<noteq> ?node" using W(2) nd by auto
  obtain s1 where S: "drop_entry par d e s = Some s1" "memfs_ok s1" "fs_mm s1 = fs_mm s" "memfss s1 = memfss s"
    "dentries s1 = (dentries s)(d := None)" "\<And>a. entries_at s1 a = (if a = par then remove1 d es else entries_at s a)"
    "\<And>a. map_option i_type (inodes s1 a) = map_option i_type (inodes s a)" "\<And>a. file_of s1 a = file_of s a"
    by (rule drop_entry_ok [OF ok(1) d(2) des P(1,3) ne]) blast
  have dir1: "is_dir s1 a = is_dir s a" for a by (rule types_is_dir [OF S(7)])
  have ent1: "entries_at s1 a = (if a = par then remove1 d (entries_at s par) else entries_at s a)" for a using S(6) P(5) by simp
  have d': "d \<in> set (entries_at s par)" using des P(5) by simp
  note R = removed_lookup [OF ok(1) S(2) ok(2) W(2) d' S(5) ent1 dir1]
  have c1: "contents s1 b = contents s b" for b using S(3,8) by (simp add: contents_def fs_get_def cong: option.case_cong)
  obtain i1 where i1: "inodes s1 ?node = Some i1" "i_type i1 = i_type i" using S(7) [of ?node] i(1) by auto
  have links: "i_links i1 = refs s ?node - 1"
    using graph_okD(2) [OF memfs_okD(2) [OF S(2)] i1(1)] refs_drop(1) [OF O(3) d(2) S(5,4), of ?node] by simp
  have pos: "0 < refs s ?node" by (rule refs_drop(2) [OF O(3) d(2) S(5,4)])
  have run: "memfs_delete_file fs path s = (if i_links i1 \<noteq> 0 then Some (0, s1) else do {
      (n, data) \<leftarrow> file_of s1 ?node;
      s2 \<leftarrow> (if data \<noteq> 0 then do { s' \<leftarrow> fs_vfree data s1; s'' \<leftarrow> used_sub owner n s'; set_file ?node 0 0 s'' } else Some s1);
      s3 \<leftarrow> drop_inode owner ?node s2; Some (0, s3) })"
    using guard look d P node0 i S(1) i1(1) des by (simp add: memfs_delete_file_def in_dir_def)
  note gone = walk_dentry_removed [OF d(1,2,3) nd, of _ par]
  have lk: "lookup_path_dentry s' fs path = walk_dentry s' fs (m_root m) (path_skip path)"
    if "map_option m_root (memfss s' fs) = map_option m_root (memfss s fs)" for s'
    using that m(1) guard by (cases "memfss s' fs") (auto simp: lookup_path_dentry_def)
  show ?thesis
  proof (cases "i_links i1 = 0")
    case False
    have "walk_dentry s1 fs (m_root m) (path_skip path) = Some (0, 0, 0)"
      by (rule gone [OF _ _ _ _ _ m(2)]) (use dir1 R S(4,5) in auto)
    then show ?thesis using run False S(2,4) R(1) lk [of s1] i1(1) links c1 by auto
  next
    case True
    obtain k p where f: "file_of s1 ?node = Some (k, p)" by (rule storage_file [OF S(2) i1(1)]) (simp add: i1(2) i(2))
    have st1: "is_storage_node (i_type i1)" and fs1: "owner \<in> dom (memfss s1)" using i1(2) i(2) W(1) S(4) by simp_all
    obtain s2 s3 where T: "(if p \<noteq> 0 then do { s' \<leftarrow> fs_vfree p s1; s'' \<leftarrow> used_sub owner k s'; set_file ?node 0 0 s'' } else Some s1) = Some s2"
      "drop_inode owner ?node s2 = Some s3" "memfs_ok s3" "dentries s3 = dentries s1" "inodes s3 ?node = None"
      "\<And>f. map_option m_root (memfss s3 f) = map_option m_root (memfss s1 f)" "\<And>a. entries_at s3 a = entries_at s1 a"
      "\<And>a. is_dir s1 a = Some True \<Longrightarrow> is_dir s3 a = Some True" "\<And>b. b \<noteq> ?node \<Longrightarrow> contents s3 b = contents s1 b"
      "\<And>a x. a \<noteq> ?node \<Longrightarrow> lookup_dentry s3 a x = lookup_dentry s1 a x"
      by (rule release_file [OF S(2) i1(1) st1 True f fs1]) blast
    have notnode: "a \<noteq> ?node" if "is_dir s a = Some True" for a using that nd by auto
    have "walk_dentry s3 fs (m_root m) (path_skip path) = Some (0, 0, 0)"
      by (rule gone [OF _ _ _ _ _ m(2)]) (use dir1 R S(4,5) T(4,6,8,10) notnode ne in auto)
    moreover have "named s3" using R(1) by (simp add: named_def T(4,7) dname_def [abs_def] cong: option.case_cong)
    moreover have "memfs_delete_file fs path s = Some (0, s3)" using run True f T(1,2) by simp
    moreover have "refs s ?node = 1" using links True pos by simp
    ultimately show ?thesis using T(3,5,9) T(6) [of fs] S(4) lk [of s3] c1 by auto
  qed
qed

end
