(* ===== verification/Memfs_Props.thy ===== *)
theory Memfs_Props
  imports Memfs_Delete Heap_Props
begin

section \<open>The in-memory file system: what it guarantees\<close>

text \<open>
  The properties of \<^verbatim>\<open>memfs.c\<close>.  The examples run on the heap \<open>heap0\<close> of the boot: \<open>demo_root\<close> is
  the result of \<^verbatim>\<open>memfs_create\<close> there, and \<open>demo_node t\<close> has a node \<^verbatim>\<open>/a\<close> of type \<open>t\<close> in it.
\<close>

subsection \<open>Making a file system\<close>

lemma new_fs_ok:
  assumes ok: "memfs_ok s" "named s" and r: "r \<in> fst ` live (fs_mm s)" "r \<notin> objects s"
    and f: "fs \<in> fst ` live (fs_mm s)" "fs \<notin> objects s" "fs \<noteq> r" and n: "name_ok (fs_mm s) nm" and m: "m_root m = r"
  defines "s' \<equiv> set_memfs fs m (set_inode r ((new_inode MEMFS_TYPE_DIR nm (Dir_body [] 0 0))\<lparr>i_links := 1\<rparr>) s)"
  shows "memfs_ok s'" "named s'"
proof -
  note O = memfs_okD [OF ok(1)]
  have none: "inodes s r = None" "dentries s r = None" "memfss s r = None" "inodes s fs = None" "dentries s fs = None" "memfss s fs = None"
    using r(2) f(2) by (auto simp: objects_def)
  have ent: "entries_at s' a = entries_at s a" for a using none by (auto simp: s'_def entries_at_def new_inode_def)
  have fo: "file_of s' a = file_of s a" for a using none by (auto simp: s'_def file_of_def new_inode_def)
  have refs: "refs s' a = refs s a + (if a = r then 1 else 0)" for a
  proof -
    let ?B = "{f. \<exists>m. memfss s f = Some m \<and> m_root m = a}"
    have "{f. \<exists>m. memfss s' f = Some m \<and> m_root m = a} = (if a = r then insert fs ?B else ?B)"
      using none m by (auto simp: s'_def)
    moreover have "finite ?B"
      by (rule finite_subset [of _ "{1..<2 ^ 32}"]) (use objects_bound [OF O(3)] in \<open>auto simp: objects_def\<close>)
    moreover have "fs \<notin> ?B" using none by simp
    ultimately show ?thesis using card_insert_if [of ?B fs] by (simp add: refs_def s'_def)
  qed
  have g: "graph_ok s'" unfolding graph_ok_def refs ent
  proof (intro conjI allI impI)
    fix a i assume "inodes s' a = Some i"
    then show "body_fits (i_type i) (i_body i)" "i_links i = refs s a + (if a = r then 1 else 0)"
      using graph_okD(1,2) [OF O(2), of a i] refs_none [OF O(2) none(1)]
      by (auto simp: s'_def new_inode_def split: if_splits)
  next
    fix y x assume "memfss s' y = Some x"
    then show "\<exists>i. inodes s' (m_root x) = Some i \<and> i_type i = MEMFS_TYPE_DIR"
      using graph_okD(7) [OF O(2), of y x] none m by (auto simp: s'_def new_inode_def split: if_splits)
  next
    fix d e assume "dentries s' d = Some e"
    then have d: "dentries s d = Some e" by (simp add: s'_def)
    from graph_okD(5,6) [OF O(2) d] show "d_inode e \<in> dom (inodes s')" "d_mounted_fs e = 0 \<or> d_mounted_fs e \<in> dom (memfss s')"
      by (auto simp: s'_def)
  qed (use graph_okD(3,4) [OF O(2)] in \<open>auto simp: s'_def\<close>)
  have st: "store_ok s'"
  proof (rule store_okI)
    show "mem_ok (fs_mm s')" using O(1) by (simp add: s'_def)
    show "kinds_apart s'" using store_okD(7) [OF O(3)] none f(3) by (auto simp: kinds_apart_def s'_def)
    fix a assume "a \<in> objects s'"
    then show "a \<in> fst ` live (fs_mm s')"
      using store_okD(2) [OF O(3), of a] r(1) f(1) by (auto simp: s'_def objects_def split: if_splits)
  next
    fix a i assume "inodes s' a = Some i"
    then show "name_ok (fs_mm s') (i_name i)"
      using store_okD(3) [OF O(3), of a i] n by (auto simp: s'_def new_inode_def split: if_splits)
  next
    fix d e assume "dentries s' d = Some e"
    then show "name_ok (fs_mm s') (d_name e)" using store_okD(4) [OF O(3), of d e] by (simp add: s'_def)
  next
    fix a k p assume "file_of s' a = Some (k, p)"
    then show "data_ok (fs_mm s') k p" using store_okD(5) [OF O(3), of a k p] unfolding fo by (simp add: s'_def)
  next
    fix a b k j p assume "file_of s' a = Some (k, p)" "file_of s' b = Some (j, p)" "p \<noteq> 0"
    then show "a = b" using store_okD(6) [OF O(3)] unfolding fo by blast
  qed
  show "memfs_ok s'" using g st by (simp add: memfs_ok_def)
  have dn: "dname s' = dname s" by (rule ext) (simp add: dname_def s'_def)
  show "named s'" using ok(2) unfolding named_def ent dn by (simp add: s'_def)
qed

lemma memfs_create_ok:
  assumes ok: "memfs_ok s" "named s" and r: "room (fs_mm s) (r + 500)"
  obtains fs s' m where "memfs_create k s = Some (fs, s')" "memfs_ok s'" "named s'" "memfss s' fs = Some m"
    "is_dir s' (m_root m) = Some True" "entries_at s' (m_root m) = []" "room (fs_mm s') r"
proof -
  have al: "align_size 16 = 16" "align_size 56 = 56" by (simp_all add: small_aligned)
  obtain fs h1 where h1: "valloc (fs_mm s) 16 = Some (fs, h1)" "fs \<noteq> 0" "fs \<notin> objects s" "fs \<in> fst ` live h1"
    "live (fs_mm s) \<subseteq> live h1" "memfs_ok (s\<lparr>fs_mm := h1\<rparr>)" "\<And>a. contents (s\<lparr>fs_mm := h1\<rparr>) a = contents s a" "room h1 (r + 500 - 16 - 20)"
    by (rule valloc_step [OF ok(1) _ _ al(1) r]) auto
  have r1: "room (fs_mm (s\<lparr>fs_mm := h1\<rparr>)) (r + 464)" "56 + 36 \<le> r + 464" using h1(8) by (simp_all add: add.commute)
  obtain rt h2 where h2: "valloc (fs_mm (s\<lparr>fs_mm := h1\<rparr>)) 56 = Some (rt, h2)" "rt \<noteq> 0" "rt \<notin> objects (s\<lparr>fs_mm := h1\<rparr>)" "rt \<in> fst ` live h2"
    "live (fs_mm (s\<lparr>fs_mm := h1\<rparr>)) \<subseteq> live h2" "memfs_ok (s\<lparr>fs_mm := h1\<rparr>\<lparr>fs_mm := h2\<rparr>)"
    "\<And>a. contents (s\<lparr>fs_mm := h1\<rparr>\<lparr>fs_mm := h2\<rparr>) a = contents (s\<lparr>fs_mm := h1\<rparr>) a" "room h2 (r + 464 - 56 - 20)"
    by (rule valloc_step [OF h1(6) _ _ al(2) r1]) auto
  have ok2: "memfs_ok (s\<lparr>fs_mm := h2\<rparr>)" using h2(6) by simp
  have r2: "room (fs_mm (s\<lparr>fs_mm := h2\<rparr>)) (r + 388)" "292 \<le> r + 388" using h2(8) by (simp_all add: add.commute)
  obtain n h3 where h3: "dup_name (Some ''/'') (fs_mm (s\<lparr>fs_mm := h2\<rparr>)) = Some (Some (n, ''/''), h3)" "n \<in> fst ` live h3"
    "live (fs_mm (s\<lparr>fs_mm := h2\<rparr>)) \<subseteq> live h3" "memfs_ok (s\<lparr>fs_mm := h2\<rparr>\<lparr>fs_mm := h3\<rparr>)"
    "\<And>a. contents (s\<lparr>fs_mm := h2\<rparr>\<lparr>fs_mm := h3\<rparr>) a = contents (s\<lparr>fs_mm := h2\<rparr>) a" "room h3 (r + 388 - 276)"
    by (rule dup_name_ok [OF ok2 r2]) auto
  define s1 where "s1 = s\<lparr>fs_mm := h3\<rparr>"
  have ok3: "memfs_ok s1" using h3(4) by (simp add: s1_def)
  have nm3: "named s1" using ok(2) by (simp add: s1_def named_def entries_at_def dname_def [abs_def] cong: option.case_cong)
  have fr: "fs \<noteq> rt" using h1(4) valloc_fresh [OF memfs_okD(1) [OF h1(6)] h2(1,2)] by auto
  have pre: "rt \<in> fst ` live (fs_mm s1)" "rt \<notin> objects s1" "fs \<in> fst ` live (fs_mm s1)" "fs \<notin> objects s1"
    "name_ok (fs_mm s1) (Some (n, ''/''))"
  proof -
    have "live h1 \<subseteq> live h3" "live h2 \<subseteq> live h3" using h2(5) h3(3) by simp_all
    then have sub: "fst ` live h1 \<subseteq> fst ` live h3" "fst ` live h2 \<subseteq> fst ` live h3" by (simp_all only: image_mono)
    from subsetD [OF sub(2) h2(4)] subsetD [OF sub(1) h1(4)]
    show "rt \<in> fst ` live (fs_mm s1)" "fs \<in> fst ` live (fs_mm s1)" by (simp_all add: s1_def)
    show "rt \<notin> objects s1" "fs \<notin> objects s1" "name_ok (fs_mm s1) (Some (n, ''/''))"
      using h1(3) h2(3) h3(2) by (simp_all add: s1_def objects_def name_ok_def)
  qed
  let ?m = "\<lparr>m_root = rt, m_total_memory = k, m_used_memory = 0, m_inode_count = 1\<rparr>"
  let ?s = "set_memfs fs ?m (set_inode rt ((new_inode MEMFS_TYPE_DIR (Some (n, ''/'')) (Dir_body [] 0 0))\<lparr>i_links := 1\<rparr>) s1)"
  have rt: "m_root ?m = rt" by simp
  note F = new_fs_ok [OF ok3 nm3 pre(1-4) fr pre(5) rt]
  show ?thesis
  proof (rule that [of fs ?s ?m])
    show "memfs_create k s = Some (fs, ?s)"
      using h1(1,2) h2(1,2) h3(1) by (simp add: memfs_create_def s1_def)
    have "room h3 r" by (rule room_mono [OF h3(6)]) simp
    then show "room (fs_mm ?s) r" by (simp add: s1_def)
  qed (use F h2(2) in \<open>simp_all add: is_dir_def new_inode_def entries_at_def\<close>)
qed


subsection \<open>Examples\<close>

definition demo_root :: "addr \<times> fstate" where
  "demo_root = the (memfs_create 0 \<lparr>fs_mm = heap0, inodes = (\<lambda>_. None), dentries = (\<lambda>_. None), memfss = (\<lambda>_. None)\<rparr>)"

definition demo_node :: "memfs_node_type \<Rightarrow> addr \<times> fstate" where
  "demo_node t = the (create_node t (\<lambda>p. File_body 0 0) (fst demo_root) ''/a'' (snd demo_root))"

definition demo_fs :: addr where "demo_fs = fst demo_root"
definition demo_file :: "memfs_node_type \<Rightarrow> addr" where "demo_file t = fst (demo_node t)"
definition demo_state :: "memfs_node_type \<Rightarrow> fstate" where "demo_state t = snd (demo_node t)"

lemma heap0_mem_ok: "mem_ok heap0" "room heap0 0xFFFFEC"
  using heap0_facts by (auto simp: mem_ok_def quiet_def live_def room_def)

lemma demo_root_facts:
  obtains m where "memfs_ok (snd demo_root)" "named (snd demo_root)" "memfss (snd demo_root) demo_fs = Some m"
    "is_dir (snd demo_root) (m_root m) = Some True" "entries_at (snd demo_root) (m_root m) = []" "room (fs_mm (snd demo_root)) 0xFFFDF8"
proof -
  let ?s = "\<lparr>fs_mm = heap0, inodes = (\<lambda>_. None), dentries = (\<lambda>_. None), memfss = (\<lambda>_. None)\<rparr>"
  have "memfs_ok ?s" using heap0_mem_ok(1)
    by (simp add: memfs_ok_def graph_ok_def store_ok_def entries_at_def objects_def kinds_apart_def file_of_def)
  moreover have "named ?s" by (simp add: named_def entries_at_def)
  moreover have "room (fs_mm ?s) (0xFFFDF8 + 500)" using heap0_mem_ok(2) by simp
  ultimately obtain fs s' m where "memfs_create 0 ?s = Some (fs, s')" "memfs_ok s'" "named s'" "memfss s' fs = Some m"
    "is_dir s' (m_root m) = Some True" "entries_at s' (m_root m) = []" "room (fs_mm s') 0xFFFDF8"
    by (rule memfs_create_ok [of ?s _ 0]) blast
  then show ?thesis by (intro that) (simp_all add: demo_root_def demo_fs_def)
qed

lemma demo_path: "absolute ''/a''" "last_part ''/a'' = ''a''" "dir_part ''/a'' = []" "length ''/a'' \<le> 255"
  by (simp_all add: absolute_def last_part_def dir_part_def)

lemma demo_facts:
  assumes t: "is_storage_node t"
  obtains owner i where "memfs_ok (demo_state t)" "named (demo_state t)" "demo_fs \<in> dom (memfss (demo_state t))"
    "lookup_path_ex (demo_state t) demo_fs ''/a'' = Some (demo_file t, owner)"
    "inodes (demo_state t) (demo_file t) = Some i" "i_type i = t" "room (fs_mm (demo_state t)) 100000"
    "contents (demo_state t) (demo_file t) = []"
proof -
  obtain m where R: "memfs_ok (snd demo_root)" "named (snd demo_root)" "memfss (snd demo_root) demo_fs = Some m"
    "is_dir (snd demo_root) (m_root m) = Some True" "entries_at (snd demo_root) (m_root m) = []" "room (fs_mm (snd demo_root)) 0xFFFDF8"
    by (rule demo_root_facts)
  have fs: "demo_fs \<in> dom (memfss (snd demo_root))" using R(3) by auto
  have l: "last_part ''/a'' \<noteq> []" by (simp add: demo_path)
  have r: "room (fs_mm (snd demo_root)) (100000 + 700 * (length ''/a'' + 1))" by (rule room_mono [OF R(6)]) simp
  have b: "new_body (File_body 0 0)" "body_fits t (File_body 0 0)" using t by simp_all
  from create_node_ok [OF R(1,2) fs demo_path(1,4) l, of "\<lambda>p. File_body 0 0" t 100000, OF b r] obtain a s' where C:
    "create_node t (\<lambda>p. File_body 0 0) demo_fs ''/a'' (snd demo_root) = Some (a, s')" "memfs_ok s'" "named s'"
    "extends (snd demo_root) s'" "room (fs_mm s') 100000"
    "a \<noteq> 0 \<longrightarrow> lookup_path s' demo_fs ''/a'' = Some a \<and> map_option i_type (inodes s' a) = Some t"
    "\<forall>m par g. memfss (snd demo_root) demo_fs = Some m \<longrightarrow>
       walk_path (snd demo_root) demo_fs (m_root m) (path_skip (dir_part ''/a'')) = Some (par, g) \<longrightarrow>
       is_dir (snd demo_root) par = Some True \<longrightarrow> lookup_dentry (snd demo_root) par (last_part ''/a'') = Some 0 \<longrightarrow>
       a \<noteq> 0 \<and> a \<notin> dom (inodes (snd demo_root)) \<and> contents s' a = []" by blast
  have eq: "demo_node t = (a, s')" using C(1) by (simp add: demo_node_def demo_fs_def)
  have "lookup_dentry (snd demo_root) (m_root m) (last_part ''/a'') = Some 0"
    using lookup_dentry_named(1) [OF R(1,2,4)] R(5) by simp
  moreover have "walk_path (snd demo_root) demo_fs (m_root m) (path_skip (dir_part ''/a'')) = Some (m_root m, demo_fs)"
    by (simp add: demo_path walk_path.simps)
  ultimately have a: "a \<noteq> 0" "contents s' a = []" using C(7) R(3,4) by blast+
  then obtain owner i where "lookup_path_ex s' demo_fs ''/a'' = Some (a, owner)" "inodes s' a = Some i" "i_type i = t"
    using C(6) by (auto simp: lookup_path_def)
  moreover have "demo_fs \<in> dom (memfss s')" using extendsD(4) [OF C(4) R(3)] by auto
  ultimately show ?thesis using C(2,3,5) a(2) by (intro that) (simp_all add: demo_state_def demo_file_def eq)
qed

subsection \<open>Properties\<close>

text \<open>C7: writing a regular file and reading it back.  On a file system in order with room for the
  bytes, \<^verbatim>\<open>memfs_write\<close> of a nonempty buffer to the path of a regular file returns its length;
  afterwards the file system is in order, \<^verbatim>\<open>memfs_read\<close> of \<open>k\<close> bytes returns the first \<open>k\<close> bytes
  written, every path leads where it led before, and all other files have their old contents.\<close>

theorem memfs_write_read:
  assumes "memfs_ok s" "lookup_path_ex s fs path = Some (node, owner)" "inodes s node = Some i" "i_type i = MEMFS_TYPE_FILE"
    "0 < length buf" "length buf \<le> 2 ^ 32 - 8" "room (fs_mm s) (align_size (length buf) + 36)"
  shows "\<exists>s'. memfs_write fs path buf s = Some (Ret (int (length buf)), s') \<and> memfs_ok s' \<and>
    (\<forall>k. memfs_read fs path k s' = Some (Ret (int (min k (length buf)), take k buf), s')) \<and>
    (\<forall>fs' p. lookup_path_ex s' fs' p = lookup_path_ex s fs' p) \<and>
    (\<forall>b. b \<noteq> node \<longrightarrow> contents s' b = contents s b)"
proof -
  from write_file [OF assms] obtain s' where W: "memfs_write fs path buf s = Some (Ret (int (length buf)), s')" "memfs_ok s'"
    "same_tree s s'" "contents s' node = buf" "\<forall>b. b \<noteq> node \<longrightarrow> contents s' b = contents s b" by blast
  note L = lookup_path_ex_cong [OF W(3)]
  obtain j where j: "inodes s' node = Some j" "i_type j = MEMFS_TYPE_FILE"
    using same_treeD(3) [OF W(3), of node] assms(3,4) by (auto simp: shape_def)
  have "lookup_path_ex s' fs path = Some (node, owner)" using L assms(2) by simp
  from read_file [OF W(2) this j] W(4) show ?thesis using W L by auto
qed

theorem memfs_write_read_witness:
  "\<exists>s'. memfs_write demo_fs ''/a'' ''hello'' (demo_state MEMFS_TYPE_FILE) = Some (Ret 5, s') \<and>
    memfs_read demo_fs ''/a'' 3 s' = Some (Ret (3, ''hel''), s')"
proof -
  obtain owner i where D: "memfs_ok (demo_state MEMFS_TYPE_FILE)"
    "lookup_path_ex (demo_state MEMFS_TYPE_FILE) demo_fs ''/a'' = Some (demo_file MEMFS_TYPE_FILE, owner)"
    "inodes (demo_state MEMFS_TYPE_FILE) (demo_file MEMFS_TYPE_FILE) = Some i" "i_type i = MEMFS_TYPE_FILE"
    "room (fs_mm (demo_state MEMFS_TYPE_FILE)) 100000"
    by (rule demo_facts [of MEMFS_TYPE_FILE]) (auto simp: is_storage_node_def)
  have "align_size (length ''hello'') + 36 \<le> 100000" by (simp add: align_size_eq)
  from memfs_write_read [OF D(1-4) _ _ room_mono [OF D(5) this]] obtain s' where
    "memfs_write demo_fs ''/a'' ''hello'' (demo_state MEMFS_TYPE_FILE) = Some (Ret 5, s')"
    "memfs_read demo_fs ''/a'' 3 s' = Some (Ret (int (min 3 (length ''hello'')), take 3 ''hello''), s')" by auto
  then show ?thesis by auto
qed


text \<open>a fifo or a socket is a queue of bytes.  Writing a nonempty buffer appends it to what is
  stored; a read of \<open>k\<close> bytes then returns the first \<open>k\<close> stored bytes and removes exactly these;
  other files keep their contents.\<close>

theorem memfs_fifo_order:
  assumes ok: "memfs_ok s" and look: "lookup_path_ex s fs path = Some (node, owner)"
    and i: "inodes s node = Some i" "is_stream_node (i_type i)" and buf: "buf \<noteq> []"
    and sz: "length (contents s node) + length buf \<le> 2 ^ 32 - 8"
    and rm: "room (fs_mm s) (align_size (length (contents s node) + length buf) + 36)"
  shows "\<exists>s1. memfs_write fs path buf s = Some (Ret (int (length buf)), s1) \<and> memfs_ok s1 \<and>
    contents s1 node = contents s node @ buf \<and> (\<forall>b. b \<noteq> node \<longrightarrow> contents s1 b = contents s b) \<and>
    (\<forall>k. 0 < k \<longrightarrow> (k < length (contents s1 node) \<longrightarrow> room (fs_mm s1) (align_size (length (contents s1 node) - k) + 36)) \<longrightarrow>
       (\<exists>s2. memfs_read fs path k s1 = Some (Ret (int (min k (length (contents s1 node))), take k (contents s node @ buf)), s2) \<and>
          memfs_ok s2 \<and> contents s2 node = drop k (contents s node @ buf) \<and>
          (\<forall>b. b \<noteq> node \<longrightarrow> contents s2 b = contents s b)))"
proof -
  have st: "is_storage_node (i_type i)" "i_type i \<noteq> MEMFS_TYPE_DEVICE" using i(2) by (auto simp: is_storage_node_def is_stream_node_def)
  obtain n p where f: "file_of s node = Some (n, p)" by (rule storage_file [OF ok i(1) st(1)])
  have node0: "node \<noteq> 0" by (rule file_nonnull [OF ok f])
  have fs: "owner \<in> dom (memfss s)" by (rule lookup_owner [OF look node0])
  have n: "length (contents s node) = n" by (simp add: contents_eq [OF f])
  from stream_write_file [OF ok f fs buf] sz rm n obtain s1 where W: "stream_write owner node buf s = Some (int (length buf), s1)"
    "memfs_ok s1" "same_tree s s1" "contents s1 node = contents s node @ buf" "\<forall>b. b \<noteq> node \<longrightarrow> contents s1 b = contents s b" by auto
  have wr: "memfs_write fs path buf s = Some (Ret (int (length buf)), s1)"
    using look node0 i st W(1) by (simp add: memfs_write_def)
  obtain j where j: "inodes s1 node = Some j" "i_type j = i_type i" using same_treeD(3) [OF W(3), of node] i(1) by (auto simp: shape_def)
  obtain n1 p1 where f1: "file_of s1 node = Some (n1, p1)" by (rule storage_file [OF W(2) j(1)]) (simp add: j(2) st(1))
  have n1: "length (contents s1 node) = n1" by (simp add: contents_eq [OF f1])
  have le: "n1 \<le> 2 ^ 32 - 8" using sz W(4) n1 by simp
  have look1: "lookup_path_ex s1 fs path = Some (node, owner)" using lookup_path_ex_cong [OF W(3)] look by simp
  have rd: "\<exists>s2. memfs_read fs path k s1 = Some (Ret (int (min k (length (contents s1 node))), take k (contents s node @ buf)), s2) \<and>
      memfs_ok s2 \<and> contents s2 node = drop k (contents s node @ buf) \<and> (\<forall>b. b \<noteq> node \<longrightarrow> contents s2 b = contents s b)"
    if k: "0 < k" "k < length (contents s1 node) \<longrightarrow> room (fs_mm s1) (align_size (length (contents s1 node) - k) + 36)" for k
  proof -
    have "k < n1 \<longrightarrow> n1 - k \<le> 2 ^ 32 - 8 \<and> room (fs_mm s1) (align_size (n1 - k) + 36)" using k(2) n1 le by auto
    from stream_read_file [OF W(2) f1 lookup_owner [OF look1 node0] k(1) this] obtain s2 where
      "stream_read owner node k s1 = Some (int (min k n1), take k (contents s1 node), s2)" "memfs_ok s2"
      "contents s2 node = drop k (contents s1 node)" "\<forall>b. b \<noteq> node \<longrightarrow> contents s2 b = contents s1 b" by blast
    then show ?thesis using look1 node0 j i(2) st W(4,5) n1 by (simp add: memfs_read_def)
  qed
  show ?thesis using wr W(2,4,5) rd by blast
qed

theorem memfs_fifo_order_witness:
  "\<exists>s1. memfs_write demo_fs ''/a'' ''abc'' (demo_state MEMFS_TYPE_FIFO) = Some (Ret 3, s1) \<and>
    (\<exists>s2. memfs_read demo_fs ''/a'' 100 s1 = Some (Ret (3, ''abc''), s2))"
proof -
  let ?s = "demo_state MEMFS_TYPE_FIFO" and ?f = "demo_file MEMFS_TYPE_FIFO"
  obtain owner i where D: "memfs_ok ?s" "lookup_path_ex ?s demo_fs ''/a'' = Some (?f, owner)"
    "inodes ?s ?f = Some i" "i_type i = MEMFS_TYPE_FIFO" "room (fs_mm ?s) 100000" "contents ?s ?f = []"
    by (rule demo_facts [of MEMFS_TYPE_FIFO]) (auto simp: is_storage_node_def)
  note c = D(6)
  have st: "is_stream_node (i_type i)" using D(4) by (simp add: is_stream_node_def)
  have ne: "''abc'' \<noteq> []" and le: "length (contents ?s ?f) + length ''abc'' \<le> 2 ^ 32 - 8"
    and al: "align_size (length (contents ?s ?f) + length ''abc'') + 36 \<le> 100000" by (simp_all add: c align_size_eq)
  from memfs_fifo_order [OF D(1-3) st ne le room_mono [OF D(5) al]] obtain s1 where
    s1: "memfs_write demo_fs ''/a'' ''abc'' ?s = Some (Ret (int (length ''abc'')), s1)"
    and c1: "contents s1 ?f = contents ?s ?f @ ''abc''"
    and k: "\<forall>k. 0 < k \<longrightarrow> (k < length (contents s1 ?f) \<longrightarrow> room (fs_mm s1) (align_size (length (contents s1 ?f) - k) + 36)) \<longrightarrow>
       (\<exists>s2. memfs_read demo_fs ''/a'' k s1 = Some (Ret (int (min k (length (contents s1 ?f))), take k (contents ?s ?f @ ''abc'')), s2) \<and>
          memfs_ok s2 \<and> contents s2 ?f = drop k (contents ?s ?f @ ''abc'') \<and> (\<forall>b. b \<noteq> ?f \<longrightarrow> contents s2 b = contents ?s b))"
    by blast
  have "\<not> 100 < length (contents s1 ?f)" by (simp add: c1 c)
  then obtain s2 where "memfs_read demo_fs ''/a'' 100 s1 =
      Some (Ret (int (min 100 (length (contents s1 ?f))), take 100 (contents ?s ?f @ ''abc'')), s2)"
    using k [rule_format, of 100] by auto
  then show ?thesis using s1 by (auto simp: c1 c)
qed

text \<open>C26: creating a file.  On a file system in order and for an absolute path of at most 255 bytes
  with a last component, with room for the directories on the way, \<^verbatim>\<open>memfs_create_file\<close> returns, the
  file system is in order afterwards, whatever could be found is still found and has its contents,
  and a node it returns is the regular file the path leads to.  Where the directory exists and has
  no entry of that name the result is a new, empty file.\<close>

theorem memfs_create_file_found:
  assumes "memfs_ok s" "named s" "fs \<in> dom (memfss s)" "absolute path" "length path \<le> 255" "last_part path \<noteq> []"
    "room (fs_mm s) (r + 700 * (length path + 1))"
  shows "\<exists>a s'. memfs_create_file fs path s = Some (a, s') \<and> memfs_ok s' \<and> named s' \<and> room (fs_mm s') r \<and>
    (\<forall>p b g. lookup_path_ex s fs p = Some (b, g) \<and> b \<noteq> 0 \<longrightarrow> lookup_path_ex s' fs p = Some (b, g) \<and>
       (b \<in> dom (inodes s) \<longrightarrow> contents s' b = contents s b)) \<and>
    (a \<noteq> 0 \<longrightarrow> lookup_path s' fs path = Some a \<and> map_option i_type (inodes s' a) = Some MEMFS_TYPE_FILE) \<and>
    (\<forall>m par g. memfss s fs = Some m \<and> walk_path s fs (m_root m) (path_skip (dir_part path)) = Some (par, g) \<and>
       is_dir s par = Some True \<and> lookup_dentry s par (last_part path) = Some 0 \<longrightarrow>
       a \<noteq> 0 \<and> a \<notin> dom (inodes s) \<and> contents s' a = [])"
proof -
  have b: "new_body (File_body 0 0)" "body_fits MEMFS_TYPE_FILE (File_body 0 0)" by (simp_all add: is_storage_node_def)
  from create_node_ok [OF assms(1-6), of "\<lambda>p. File_body 0 0" MEMFS_TYPE_FILE r, OF b assms(7)] obtain a s' where C:
    "memfs_create_file fs path s = Some (a, s')" "memfs_ok s'" "named s'" "extends s s'" "room (fs_mm s') r"
    "a \<noteq> 0 \<longrightarrow> lookup_path s' fs path = Some a \<and> map_option i_type (inodes s' a) = Some MEMFS_TYPE_FILE"
    "\<forall>m par g. memfss s fs = Some m \<longrightarrow> walk_path s fs (m_root m) (path_skip (dir_part path)) = Some (par, g) \<longrightarrow>
       is_dir s par = Some True \<longrightarrow> lookup_dentry s par (last_part path) = Some 0 \<longrightarrow>
       a \<noteq> 0 \<and> a \<notin> dom (inodes s) \<and> contents s' a = []"
    unfolding memfs_create_file_def by blast
  have "\<forall>p b g. lookup_path_ex s fs p = Some (b, g) \<and> b \<noteq> 0 \<longrightarrow> lookup_path_ex s' fs p = Some (b, g) \<and>
       (b \<in> dom (inodes s) \<longrightarrow> contents s' b = contents s b)"
    using extends_lookup [OF C(4)] extendsD(5) [OF C(4)] by blast
  then show ?thesis using C(1-3,5-7) by (intro exI [of _ a] exI [of _ s'] conjI) blast+
qed

theorem memfs_create_file_found_witness:
  "\<exists>a s'. memfs_create_file demo_fs ''/b'' (demo_state MEMFS_TYPE_FILE) = Some (a, s') \<and> memfs_ok s' \<and>
    lookup_path s' demo_fs ''/a'' = Some (demo_file MEMFS_TYPE_FILE)"
proof -
  let ?s = "demo_state MEMFS_TYPE_FILE" and ?f = "demo_file MEMFS_TYPE_FILE"
  obtain owner i where D: "memfs_ok ?s" "named ?s" "demo_fs \<in> dom (memfss ?s)" "lookup_path_ex ?s demo_fs ''/a'' = Some (?f, owner)"
    "inodes ?s ?f = Some i" "room (fs_mm ?s) 100000"
    by (rule demo_facts [of MEMFS_TYPE_FILE]) (auto simp: is_storage_node_def)
  have p: "absolute ''/b''" "length ''/b'' \<le> 255" "last_part ''/b'' \<noteq> []" by (simp_all add: absolute_def last_part_def)
  have r: "room (fs_mm ?s) (0 + 700 * (length ''/b'' + 1))" by (rule room_mono [OF D(6)]) simp
  have f0: "?f \<noteq> 0" using D(5) no_null [OF memfs_okD(3) [OF D(1)]] by (cases "?f = 0") auto
  from memfs_create_file_found [OF D(1-3) p r] D(4) f0 show ?thesis unfolding lookup_path_def by fastforce
qed

text \<open>removing a file.  \<^verbatim>\<open>memfs_delete_file\<close> of a path to a file, fifo or socket succeeds; the path then leads
  to nothing, the file system is in order (all link counts are exact), the inode is released
  exactly when this was its last link, and every other file, and the file itself when it has
  other links, keeps its contents.\<close>

theorem memfs_delete_file_gone:
  assumes "memfs_ok s" "named s" "fs \<in> dom (memfss s)" "lookup_path_dentry s fs path = Some (d, owner, par)" "d \<noteq> 0"
    "dentries s d = Some e" "d_mounted_fs e = 0" "inodes s (d_inode e) = Some i" "is_storage_node (i_type i)"
  shows "\<exists>s'. memfs_delete_file fs path s = Some (0, s') \<and> memfs_ok s' \<and> named s' \<and>
    lookup_path_dentry s' fs path = Some (0, 0, 0) \<and> (inodes s' (d_inode e) = None \<longleftrightarrow> refs s (d_inode e) = 1) \<and>
    (\<forall>b. b \<noteq> d_inode e \<or> refs s (d_inode e) \<noteq> 1 \<longrightarrow> contents s' b = contents s b)"
  by (rule delete_file_ok [OF assms])

lemma walk_dentry_last:
  assumes "lookup_path_ex s fs path = Some (x, g)" "x \<noteq> 0" "path \<noteq> ''/''" "path_skip path \<noteq> []"
    "CHR ''/'' \<notin> set (path_skip path)"
  obtains d e o1 par where "lookup_path_dentry s fs path = Some (d, o1, par)" "d \<noteq> 0" "dentries s d = Some e"
    "follow s fs e = Some (x, g)"
proof -
  let ?p = "path_skip path"
  obtain m where m: "fs \<noteq> 0" "absolute path" "memfss s fs = Some m" "walk_path s fs (m_root m) ?p = Some (x, g)"
    using assms(1-3) by (auto simp: lookup_path_ex_def split: if_splits bind_splits)
  have "takeWhile ((\<noteq>) CHR ''/'') ?p = ?p" unfolding takeWhile_eq_all_conv using assms(5) by auto
  then have len: "path_comp_len ?p = length ?p" unfolding path_comp_len_def by (rule arg_cong)
  obtain nm r d e n' f' where w: "is_dir s (m_root m) = Some True" "next_comp ?p = Some (nm, r)" "lookup_dentry s (m_root m) nm = Some d"
    "d \<noteq> 0" "dentries s d = Some e" "follow s fs e = Some (n', f')" "walk_path s f' n' r = Some (x, g)"
    using m(4) assms(2,4) by (subst (asm) walk_path.simps) (auto split: option.splits bool.splits if_splits)
  have r: "r = []" using w(2) len by (auto simp: next_comp_def Let_def split: if_splits)
  have "walk_dentry s fs (m_root m) ?p = Some (d, fs, m_root m)"
    using assms(4) w r by (subst walk_dentry.simps) simp
  then have "lookup_path_dentry s fs path = Some (d, fs, m_root m)"
    using m assms(3) by (simp add: lookup_path_dentry_def)
  moreover have "follow s fs e = Some (x, g)" using w(6,7) r by (simp add: walk_path.simps)
  ultimately show ?thesis using that w(4,5) by blast
qed

theorem memfs_delete_file_gone_witness:
  "\<exists>s'. memfs_delete_file demo_fs ''/a'' (demo_state MEMFS_TYPE_FILE) = Some (0, s') \<and> memfs_ok s' \<and>
    lookup_path_dentry s' demo_fs ''/a'' = Some (0, 0, 0)"
proof -
  let ?s = "demo_state MEMFS_TYPE_FILE" and ?f = "demo_file MEMFS_TYPE_FILE"
  obtain owner i where D: "memfs_ok ?s" "named ?s" "demo_fs \<in> dom (memfss ?s)" "lookup_path_ex ?s demo_fs ''/a'' = Some (?f, owner)"
    "inodes ?s ?f = Some i" "i_type i = MEMFS_TYPE_FILE"
    by (rule demo_facts [of MEMFS_TYPE_FILE]) (auto simp: is_storage_node_def)
  have f0: "?f \<noteq> 0" using D(5) no_null [OF memfs_okD(3) [OF D(1)]] by (cases "?f = 0") auto
  obtain d e o1 par where L: "lookup_path_dentry ?s demo_fs ''/a'' = Some (d, o1, par)" "d \<noteq> 0" "dentries ?s d = Some e"
    "follow ?s demo_fs e = Some (?f, owner)"
    by (rule walk_dentry_last [OF D(4) f0]) (simp_all add: path_skip_def)
  have "d_mounted_fs e = 0"
  proof (rule ccontr)
    assume "d_mounted_fs e \<noteq> 0"
    then obtain m where "memfss ?s (d_mounted_fs e) = Some m" "m_root m = ?f"
      using L(4) by (auto simp: follow_def split: bind_splits)
    with graph_okD(7) [OF memfs_okD(2) [OF D(1)]] D(5,6) show False by force
  qed
  moreover from this have "d_inode e = ?f" using L(4) by (simp add: follow_def)
  moreover have "is_storage_node (i_type i)" using D(6) by (simp add: is_storage_node_def)
  ultimately show ?thesis using memfs_delete_file_gone [OF D(1-3) L(1-3)] D(5) by auto
qed


text \<open>writing nothing.  A write of zero bytes to a regular file is reported as an error (\<open>-1\<close>)
  but the contents of the file are gone: they are released before the allocation of zero bytes, which
  never succeeds, is tried.\<close>

theorem memfs_write_empty_loses:
  assumes ok: "memfs_ok s" and look: "lookup_path_ex s fs path = Some (node, owner)"
    and i: "inodes s node = Some i" "i_type i = MEMFS_TYPE_FILE"
  shows "\<exists>s'. memfs_write fs path [] s = Some (Ret (-1), s') \<and> memfs_ok s' \<and> contents s' node = [] \<and>
    (\<forall>b. b \<noteq> node \<longrightarrow> contents s' b = contents s b)"
proof -
  obtain n p where f: "file_of s node = Some (n, p)"
    by (rule storage_file [OF ok i(1)]) (simp add: i(2) is_storage_node_def)
  have node0: "node \<noteq> 0" by (rule file_nonnull [OF ok f])
  from empty_file [OF ok f lookup_owner [OF look node0]] obtain s1 where s1:
    "(if p \<noteq> 0 then do { s' \<leftarrow> fs_vfree p s; s'' \<leftarrow> used_sub owner n s'; set_file node 0 0 s'' } else Some s) = Some s1"
    "memfs_ok s1" "same_tree s s1" "fs_mm s1 = fs_mm s" "file_of s1 node = Some (0, 0)"
    "\<forall>b. b \<noteq> node \<longrightarrow> file_of s1 b = file_of s b" by blast
  have "data_ok (fs_mm s1) 0 0" by (simp add: data_ok_def)
  from set_file_ok [OF s1(2,5) this] obtain s2 where s2: "set_file node 0 0 s1 = Some s2" "memfs_ok s2" "same_tree s1 s2"
    "fs_mm s2 = fs_mm s1" "file_of s2 node = Some (0, 0)" "\<forall>b. b \<noteq> node \<longrightarrow> file_of s2 b = file_of s1 b" by blast
  have "memfs_write fs path [] s = Some (Ret (-1), s2)"
    unfolding memfs_write_def look using node0 i f s1(1,5) s2(1)
    by (simp add: is_storage_node_def is_stream_node_def Let_def valloc_zero)
  moreover have "contents s2 node = []" using contents_eq [OF s2(5)] by (simp add: get_bytes_def)
  moreover have "contents s2 b = contents s b" if "b \<noteq> node" for b
    using that s1(4,6) s2(4,6) by (simp add: contents_def fs_get_def cong: option.case_cong)
  ultimately show ?thesis using s2(2) by blast
qed

theorem memfs_write_empty_loses_witness:
  "\<exists>s'. memfs_write demo_fs ''/a'' [] (demo_state MEMFS_TYPE_FILE) = Some (Ret (-1), s') \<and>
    contents s' (demo_file MEMFS_TYPE_FILE) = []"
proof -
  let ?s = "demo_state MEMFS_TYPE_FILE" and ?f = "demo_file MEMFS_TYPE_FILE"
  obtain owner i where D: "memfs_ok ?s" "lookup_path_ex ?s demo_fs ''/a'' = Some (?f, owner)"
    "inodes ?s ?f = Some i" "i_type i = MEMFS_TYPE_FILE"
    by (rule demo_facts [of MEMFS_TYPE_FILE]) (auto simp: is_storage_node_def)
  from memfs_write_empty_loses [OF D] show ?thesis by blast
qed

end
