(* ===== verification/Vfs.thy ===== *)
theory Vfs
  imports Memfs
begin

section \<open>The virtual file system: the model\<close>

text \<open>
  Model of \<^verbatim>\<open>src/kernel/drivers/filesystem/vfs.c\<close>.  A table of operations (\<^verbatim>\<open>vfs_ops_t\<close>) is a record of
  functions over the state \<open>'w\<close> of the file systems, \<open>None\<close> for a null pointer; the code compares and
  stores tables by address, so a mount keeps the address and \<open>tab\<close> gives the table there.  The
  arrays with their counters are lists.  Paths and names are strings; \<^verbatim>\<open>vfs\<close> and the output
  pointers are never null.  What a file system reads into a buffer or writes into \<^verbatim>\<open>out\<close> is part of the result.
\<close>

datatype vfs_node_type = VFS_NODE_FILE | VFS_NODE_DIR | VFS_NODE_SYMLINK | VFS_NODE_DEVICE
  | VFS_NODE_FIFO | VFS_NODE_SOCKET | VFS_NODE_CHARDEV | VFS_NODE_BLOCKDEV

record vfs_info =
  vi_type :: vfs_node_type
  vi_mode :: nat
  vi_uid :: nat
  vi_gid :: nat
  vi_size :: nat

record 'w vfs_ops =
  op_open :: "(addr \<Rightarrow> string \<Rightarrow> 'w \<Rightarrow> (int \<times> 'w) option) option"
  op_close :: "(addr \<Rightarrow> int \<Rightarrow> 'w \<Rightarrow> (int \<times> 'w) option) option"
  op_read :: "(addr \<Rightarrow> string \<Rightarrow> nat \<Rightarrow> 'w \<Rightarrow> ((int \<times> byte list) io \<times> 'w) option) option"
  op_write :: "(addr \<Rightarrow> string \<Rightarrow> byte list \<Rightarrow> 'w \<Rightarrow> (int io \<times> 'w) option) option"
  op_append :: "(addr \<Rightarrow> string \<Rightarrow> byte list \<Rightarrow> 'w \<Rightarrow> (int io \<times> 'w) option) option"
  op_ioctl :: "(addr \<Rightarrow> string \<Rightarrow> nat \<Rightarrow> addr \<Rightarrow> 'w \<Rightarrow> (int io \<times> 'w) option) option"
  op_mkdir :: "(addr \<Rightarrow> string \<Rightarrow> 'w \<Rightarrow> (int \<times> 'w) option) option"
  op_create_file :: "(addr \<Rightarrow> string \<Rightarrow> 'w \<Rightarrow> (int \<times> 'w) option) option"
  op_link :: "(addr \<Rightarrow> string \<Rightarrow> string \<Rightarrow> 'w \<Rightarrow> (int \<times> 'w) option) option"
  op_unlink :: "(addr \<Rightarrow> string \<Rightarrow> 'w \<Rightarrow> (int \<times> 'w) option) option"
  op_rmdir :: "(addr \<Rightarrow> string \<Rightarrow> 'w \<Rightarrow> (int \<times> 'w) option) option"
  op_mkfifo :: "(addr \<Rightarrow> string \<Rightarrow> 'w \<Rightarrow> (int \<times> 'w) option) option"
  op_mksock :: "(addr \<Rightarrow> string \<Rightarrow> 'w \<Rightarrow> (int \<times> 'w) option) option"
  op_list :: "(addr \<Rightarrow> string \<Rightarrow> nat \<Rightarrow> 'w \<Rightarrow> ((int \<times> string) \<times> 'w) option) option"
  op_get_info :: "(addr \<Rightarrow> string \<Rightarrow> 'w \<Rightarrow> (vfs_info option \<times> 'w) option) option"

definition VFS_FS_NAME_MAX :: nat where "VFS_FS_NAME_MAX = 16"
definition VFS_MAX_FS_DRIVERS :: nat where "VFS_MAX_FS_DRIVERS = 8"
definition VFS_MAX_MOUNTS :: nat where "VFS_MAX_MOUNTS = 8"

record vfs_fs_driver =
  fd_name :: string
  fd_ops :: addr

record vfs_mount_rec =
  mt_path :: string
  mt_source :: string
  mt_fs_ctx :: addr
  mt_ops :: addr

record vfs =
  root_fs :: addr
  root_ops :: addr
  root_source :: string
  fs_drivers :: "vfs_fs_driver list"
  mounts :: "vfs_mount_rec list"

record vfs_resolved =
  r_fs_ctx :: addr
  r_ops :: addr
  r_local_path :: string

subsection \<open>Paths\<close>

definition is_valid_abs_path :: "string \<Rightarrow> bool" where
  "is_valid_abs_path p \<longleftrightarrow> p \<noteq> [] \<and> hd p = CHR ''/''"

definition is_root_path :: "string \<Rightarrow> bool" where
  "is_root_path p \<longleftrightarrow> p = ''/''"

text \<open>All buffers for normalized paths have 256 bytes.\<close>

definition normalize_mount_path :: "string \<Rightarrow> string option" where
  "normalize_mount_path p =
     (if \<not> is_valid_abs_path p \<or> 256 \<le> length p then None
      else if 1 < length p \<and> last p = CHR ''/'' then Some (butlast p) else Some p)"

definition path_starts_with_mount :: "string \<Rightarrow> string \<Rightarrow> bool" where
  "path_starts_with_mount path mount =
     (if mount = [] then False
      else if mount = ''/'' then is_valid_abs_path path
      else take (length mount) path = mount \<and>
           (length path = length mount \<or> path ! length mount = CHR ''/''))"

definition make_local_path :: "string \<Rightarrow> string \<Rightarrow> string" where
  "make_local_path path mount =
     (if mount = ''/'' then take 255 path
      else let suffix = drop (length mount) path in
        if suffix = [] then ''/'' else take 255 suffix)"

definition is_exact_mount_path :: "vfs \<Rightarrow> string \<Rightarrow> bool" where
  "is_exact_mount_path v path =
     (case normalize_mount_path path of
        None \<Rightarrow> False
      | Some norm \<Rightarrow> \<exists>m \<in> set (mounts v). mt_path m = norm)"

text \<open>Is there a line of the list that starts with the name, followed by a type letter or the end?\<close>

function has_entry :: "string \<Rightarrow> string \<Rightarrow> bool" where
  "has_entry l name =
     (if l = [] then False
      else if take (length name) l = name \<and>
           (drop (length name) l = [] \<or> hd (drop (length name) l) \<in> {CHR ''/'', CHR ''*'', CHR 0x0A}) then True
      else has_entry (drop 1 (dropWhile ((\<noteq>) CHR 0x0A) l)) name)"
  by pat_completeness auto
termination
proof (relation "measure (\<lambda>(l, _). length l)", goal_cases)
  case (2 l name)
  have "length (dropWhile ((\<noteq>) CHR 0x0A) l) \<le> length l" by (rule length_dropWhile_le)
  then show ?case using 2 by (cases l) auto
qed simp

declare has_entry.simps [simp del]

definition list_has_entry_name :: "string \<Rightarrow> string \<Rightarrow> bool" where
  "list_has_entry_name l name = (name \<noteq> [] \<and> has_entry l name)"

definition mount_direct_child_name :: "string \<Rightarrow> string \<Rightarrow> string option" where
  "mount_direct_child_name dir_path mount_path = do {
     rest \<leftarrow> (if dir_path = ''/''
              then if is_valid_abs_path mount_path \<and> 1 < length mount_path then Some (tl mount_path) else None
              else let dlen = length dir_path in
                if take dlen mount_path = dir_path \<and> dlen + 1 < length mount_path \<and> mount_path ! dlen = CHR ''/''
                then Some (drop (dlen + 1) mount_path) else None);
     if length rest \<ge> 256 \<or> rest = [] \<or> CHR ''/'' \<in> set rest then None else Some rest }"

subsection \<open>Drivers and mounts\<close>

definition find_fs_ops :: "vfs \<Rightarrow> string \<Rightarrow> addr" where
  "find_fs_ops v fs_name =
     (if fs_name = [] then 0
      else case find (\<lambda>d. fd_name d = fs_name) (fs_drivers v) of None \<Rightarrow> 0 | Some d \<Rightarrow> fd_ops d)"

definition vfs_init :: vfs where
  "vfs_init = \<lparr>root_fs = 0, root_ops = 0, root_source = [], fs_drivers = [], mounts = []\<rparr>"

definition vfs_register_fs :: "string \<Rightarrow> addr \<Rightarrow> vfs \<Rightarrow> int \<times> vfs" where
  "vfs_register_fs fs_name ops v =
     (if ops = 0 \<or> fs_name = [] \<or> VFS_FS_NAME_MAX \<le> length fs_name \<or>
         (\<exists>d \<in> set (fs_drivers v). fd_name d = fs_name) \<or> VFS_MAX_FS_DRIVERS \<le> length (fs_drivers v)
      then (-1, v)
      else (0, v\<lparr>fs_drivers := fs_drivers v @ [\<lparr>fd_name = fs_name, fd_ops = ops\<rparr>]\<rparr>))"

definition vfs_set_root :: "string \<Rightarrow> addr \<Rightarrow> vfs \<Rightarrow> int \<times> vfs" where
  "vfs_set_root fs_name fs_ctx v =
     (let ops = find_fs_ops v fs_name in
      if fs_ctx = 0 \<or> ops = 0 then (-1, v)
      else (0, v\<lparr>root_fs := fs_ctx, root_ops := ops, root_source := take 255 fs_name\<rparr>))"

definition vfs_set_root_source :: "string \<Rightarrow> vfs \<Rightarrow> int \<times> vfs" where
  "vfs_set_root_source source v = (if source = [] then (-1, v) else (0, v\<lparr>root_source := take 255 source\<rparr>))"

text \<open>The loop of \<^verbatim>\<open>vfs_resolve\<close> over the mounts: the first of the longest mount paths that match.\<close>

fun best_mount :: "string \<Rightarrow> vfs_mount_rec list \<Rightarrow> vfs_mount_rec option \<Rightarrow> nat \<Rightarrow> vfs_mount_rec option" where
  "best_mount path [] best best_len = best"
| "best_mount path (m # ms) best best_len =
     (let mlen = length (mt_path m) in
      if path_starts_with_mount path (mt_path m) \<and> mlen > best_len
      then best_mount path ms (Some m) mlen
      else best_mount path ms best best_len)"

definition vfs_resolve :: "vfs \<Rightarrow> string \<Rightarrow> vfs_resolved option" where
  "vfs_resolve v path =
     (if \<not> is_valid_abs_path path \<or> root_fs v = 0 \<or> root_ops v = 0 then None
      else case best_mount path (mounts v) None 0 of
        Some m \<Rightarrow> Some \<lparr>r_fs_ctx = mt_fs_ctx m, r_ops = mt_ops m, r_local_path = make_local_path path (mt_path m)\<rparr>
      | None \<Rightarrow> Some \<lparr>r_fs_ctx = root_fs v, r_ops = root_ops v, r_local_path = take 255 path\<rparr>)"

text \<open>Every operation resolves its path and fails where the file system has no such function.\<close>

definition vfs_op :: "(addr \<Rightarrow> 'w vfs_ops) \<Rightarrow> vfs \<Rightarrow> ('w vfs_ops \<Rightarrow> 'f option) \<Rightarrow> string \<Rightarrow> 'r \<Rightarrow> ('f \<Rightarrow> vfs_resolved \<Rightarrow> 'r) \<Rightarrow> 'r" where
  "vfs_op tab v sel path failed run =
     (case vfs_resolve v path of
        None \<Rightarrow> failed
      | Some r \<Rightarrow> if r_ops r = 0 then failed
          else (case sel (tab (r_ops r)) of None \<Rightarrow> failed | Some f \<Rightarrow> run f r))"

definition vfs_mount :: "(addr \<Rightarrow> 'w vfs_ops) \<Rightarrow> string \<Rightarrow> string \<Rightarrow> addr \<Rightarrow> vfs \<Rightarrow> 'w \<Rightarrow> (int \<times> vfs \<times> 'w) option" where
  "vfs_mount tab mount_path fs_name fs_ctx v w =
     (if fs_ctx = 0 \<or> VFS_MAX_MOUNTS \<le> length (mounts v) \<or> find_fs_ops v fs_name = 0 then Some (-1, v, w)
      else case normalize_mount_path mount_path of
        None \<Rightarrow> Some (-1, v, w)
      | Some norm \<Rightarrow>
          if \<exists>m \<in> set (mounts v). mt_path m = norm then Some (-1, v, w)
          else vfs_op tab v op_get_info norm (Some (-1, v, w)) (\<lambda>f r.
            case f (r_fs_ctx r) (r_local_path r) w of
              None \<Rightarrow> None
            | Some (None, w1) \<Rightarrow> Some (-1, v, w1)
            | Some (Some info, w1) \<Rightarrow>
                if vi_type info \<noteq> VFS_NODE_DIR then Some (-1, v, w1)
                else Some (0, v\<lparr>mounts := mounts v @ [\<lparr>mt_path = take 255 norm, mt_source = take 255 fs_name,
                       mt_fs_ctx = fs_ctx, mt_ops = find_fs_ops v fs_name\<rparr>]\<rparr>, w1)))"

definition vfs_set_mount_source :: "string \<Rightarrow> string \<Rightarrow> vfs \<Rightarrow> int \<times> vfs" where
  "vfs_set_mount_source mount_path source v =
     (if source = [] then (-1, v)
      else case normalize_mount_path mount_path of
        None \<Rightarrow> (-1, v)
      | Some norm \<Rightarrow> (case find (\<lambda>i. mt_path (mounts v ! i) = norm) [0..<length (mounts v)] of
          None \<Rightarrow> (-1, v)
        | Some i \<Rightarrow> (0, v\<lparr>mounts := (mounts v)[i := (mounts v ! i)\<lparr>mt_source := take 255 source\<rparr>]\<rparr>)))"

text \<open>Is something mounted below the path?\<close>

definition mounted_below :: "string \<Rightarrow> string \<Rightarrow> bool" where
  "mounted_below norm p \<longleftrightarrow> take (length norm) p = norm \<and> length norm < length p \<and> p ! length norm = CHR ''/''"

definition vfs_umount :: "string \<Rightarrow> vfs \<Rightarrow> int \<times> vfs" where
  "vfs_umount mount_path v =
     (case normalize_mount_path mount_path of
        None \<Rightarrow> (-1, v)
      | Some norm \<Rightarrow>
          if norm = ''/'' then (-1, v)
          else (case find (\<lambda>i. mt_path (mounts v ! i) = norm) [0..<length (mounts v)] of
             None \<Rightarrow> (-1, v)
           | Some idx \<Rightarrow>
               if \<exists>i \<in> set [0..<length (mounts v)]. i \<noteq> idx \<and> mounted_below norm (mt_path (mounts v ! i))
               then (-1, v)
               else (0, v\<lparr>mounts := take idx (mounts v) @ drop (idx + 1) (mounts v)\<rparr>)))"

subsection \<open>Operations on files\<close>

definition vfs_open :: "(addr \<Rightarrow> 'w vfs_ops) \<Rightarrow> vfs \<Rightarrow> string \<Rightarrow> 'w \<Rightarrow> (int \<times> 'w) option" where
  "vfs_open tab v path w = vfs_op tab v op_open path (Some (-1, w)) (\<lambda>f r. f (r_fs_ctx r) (r_local_path r) w)"

definition vfs_close :: "(addr \<Rightarrow> 'w vfs_ops) \<Rightarrow> vfs \<Rightarrow> int \<Rightarrow> 'w \<Rightarrow> (int \<times> 'w) option" where
  "vfs_close tab v fd w =
     (if root_ops v = 0 then Some (-1, w)
      else case op_close (tab (root_ops v)) of None \<Rightarrow> Some (-1, w) | Some f \<Rightarrow> f (root_fs v) fd w)"

definition vfs_read :: "(addr \<Rightarrow> 'w vfs_ops) \<Rightarrow> vfs \<Rightarrow> string \<Rightarrow> nat \<Rightarrow> 'w \<Rightarrow> ((int \<times> byte list) io \<times> 'w) option" where
  "vfs_read tab v path sz w =
     vfs_op tab v op_read path (Some (Ret (-1, []), w)) (\<lambda>f r. f (r_fs_ctx r) (r_local_path r) sz w)"

definition vfs_write :: "(addr \<Rightarrow> 'w vfs_ops) \<Rightarrow> vfs \<Rightarrow> string \<Rightarrow> byte list \<Rightarrow> 'w \<Rightarrow> (int io \<times> 'w) option" where
  "vfs_write tab v path buf w =
     vfs_op tab v op_write path (Some (Ret (-1), w)) (\<lambda>f r. f (r_fs_ctx r) (r_local_path r) buf w)"

definition vfs_append :: "(addr \<Rightarrow> 'w vfs_ops) \<Rightarrow> vfs \<Rightarrow> string \<Rightarrow> byte list \<Rightarrow> 'w \<Rightarrow> (int io \<times> 'w) option" where
  "vfs_append tab v path buf w =
     vfs_op tab v op_append path (Some (Ret (-1), w)) (\<lambda>f r. f (r_fs_ctx r) (r_local_path r) buf w)"

definition vfs_ioctl :: "(addr \<Rightarrow> 'w vfs_ops) \<Rightarrow> vfs \<Rightarrow> string \<Rightarrow> nat \<Rightarrow> addr \<Rightarrow> 'w \<Rightarrow> (int io \<times> 'w) option" where
  "vfs_ioctl tab v path request arg w =
     vfs_op tab v op_ioctl path (Some (Ret (-1), w)) (\<lambda>f r. f (r_fs_ctx r) (r_local_path r) request arg w)"

definition vfs_mkdir :: "(addr \<Rightarrow> 'w vfs_ops) \<Rightarrow> vfs \<Rightarrow> string \<Rightarrow> 'w \<Rightarrow> (int \<times> 'w) option" where
  "vfs_mkdir tab v path w =
     (if is_exact_mount_path v path then Some (-1, w)
      else vfs_op tab v op_mkdir path (Some (-1, w)) (\<lambda>f r. f (r_fs_ctx r) (r_local_path r) w))"

definition vfs_create_file :: "(addr \<Rightarrow> 'w vfs_ops) \<Rightarrow> vfs \<Rightarrow> string \<Rightarrow> 'w \<Rightarrow> (int \<times> 'w) option" where
  "vfs_create_file tab v path w =
     (if is_exact_mount_path v path then Some (-1, w)
      else vfs_op tab v op_create_file path (Some (-1, w)) (\<lambda>f r. f (r_fs_ctx r) (r_local_path r) w))"

definition vfs_link :: "(addr \<Rightarrow> 'w vfs_ops) \<Rightarrow> vfs \<Rightarrow> string \<Rightarrow> string \<Rightarrow> 'w \<Rightarrow> (int \<times> 'w) option" where
  "vfs_link tab v oldpath newpath w =
     (if is_exact_mount_path v oldpath \<or> is_exact_mount_path v newpath then Some (-1, w)
      else vfs_op tab v op_link oldpath (Some (-1, w)) (\<lambda>f ro.
        vfs_op tab v op_link newpath (Some (-1, w)) (\<lambda>_ rn.
          if r_ops ro \<noteq> r_ops rn \<or> r_fs_ctx ro \<noteq> r_fs_ctx rn then Some (-1, w)
          else f (r_fs_ctx ro) (r_local_path ro) (r_local_path rn) w)))"

text \<open>The type of a node decides whether it may be removed.\<close>

definition checked_remove :: "(addr \<Rightarrow> 'w vfs_ops) \<Rightarrow> (vfs_node_type \<Rightarrow> bool) \<Rightarrow>
    (addr \<Rightarrow> string \<Rightarrow> 'w \<Rightarrow> (int \<times> 'w) option) \<Rightarrow> vfs_resolved \<Rightarrow> 'w \<Rightarrow> (int \<times> 'w) option" where
  "checked_remove tab allowed f r w =
     (case op_get_info (tab (r_ops r)) of
        None \<Rightarrow> Some (-1, w)
      | Some g \<Rightarrow> (case g (r_fs_ctx r) (r_local_path r) w of
          None \<Rightarrow> None
        | Some (None, w1) \<Rightarrow> Some (-1, w1)
        | Some (Some info, w1) \<Rightarrow>
            if allowed (vi_type info) then f (r_fs_ctx r) (r_local_path r) w1 else Some (-1, w1)))"

definition vfs_unlink :: "(addr \<Rightarrow> 'w vfs_ops) \<Rightarrow> vfs \<Rightarrow> string \<Rightarrow> 'w \<Rightarrow> (int \<times> 'w) option" where
  "vfs_unlink tab v path w =
     (if is_exact_mount_path v path \<or> is_root_path path then Some (-1, w)
      else vfs_op tab v op_unlink path (Some (-1, w)) (\<lambda>f r. checked_remove tab (\<lambda>t. t \<noteq> VFS_NODE_DIR) f r w))"

definition vfs_rmdir :: "(addr \<Rightarrow> 'w vfs_ops) \<Rightarrow> vfs \<Rightarrow> string \<Rightarrow> 'w \<Rightarrow> (int \<times> 'w) option" where
  "vfs_rmdir tab v path w =
     (if is_exact_mount_path v path \<or> is_root_path path then Some (-1, w)
      else case normalize_mount_path path of
        None \<Rightarrow> Some (-1, w)
      | Some norm \<Rightarrow>
          if \<exists>m \<in> set (mounts v). mounted_below norm (mt_path m) then Some (-1, w)
          else vfs_op tab v op_rmdir path (Some (-1, w)) (\<lambda>f r. checked_remove tab (\<lambda>t. t = VFS_NODE_DIR) f r w))"

definition vfs_mkfifo :: "(addr \<Rightarrow> 'w vfs_ops) \<Rightarrow> vfs \<Rightarrow> string \<Rightarrow> 'w \<Rightarrow> (int \<times> 'w) option" where
  "vfs_mkfifo tab v path w =
     (if is_exact_mount_path v path then Some (-1, w)
      else vfs_op tab v op_mkfifo path (Some (-1, w)) (\<lambda>f r. f (r_fs_ctx r) (r_local_path r) w))"

definition vfs_mksock :: "(addr \<Rightarrow> 'w vfs_ops) \<Rightarrow> vfs \<Rightarrow> string \<Rightarrow> 'w \<Rightarrow> (int \<times> 'w) option" where
  "vfs_mksock tab v path w =
     (if is_exact_mount_path v path then Some (-1, w)
      else vfs_op tab v op_mksock path (Some (-1, w)) (\<lambda>f r. f (r_fs_ctx r) (r_local_path r) w))"

text \<open>The mount points directly below the directory are added to its listing.\<close>

fun list_mount_children :: "string \<Rightarrow> nat \<Rightarrow> vfs_mount_rec list \<Rightarrow> string \<Rightarrow> string" where
  "list_mount_children norm out_size [] out = out"
| "list_mount_children norm out_size (m # ms) out =
     (case mount_direct_child_name norm (mt_path m) of
        None \<Rightarrow> list_mount_children norm out_size ms out
      | Some child \<Rightarrow>
          if list_has_entry_name out child then list_mount_children norm out_size ms out
          else if length out + length child + 2 \<ge> out_size then out
          else list_mount_children norm out_size ms (out @ child @ [CHR ''/'', CHR 0x0A]))"

definition vfs_list :: "(addr \<Rightarrow> 'w vfs_ops) \<Rightarrow> vfs \<Rightarrow> string \<Rightarrow> nat \<Rightarrow> 'w \<Rightarrow> ((int \<times> string) \<times> 'w) option" where
  "vfs_list tab v path out_size w =
     vfs_op tab v op_list path (Some ((-1, []), w)) (\<lambda>f r.
       case f (r_fs_ctx r) (r_local_path r) out_size w of
         None \<Rightarrow> None
       | Some ((n, out), w1) \<Rightarrow>
           if n < 0 then Some ((-1, []), w1)
           else case normalize_mount_path path of
             None \<Rightarrow> Some ((n, out), w1)
           | Some norm \<Rightarrow> let out1 = list_mount_children norm out_size (mounts v) out in
               Some ((int (length out1), out1), w1))"

definition driver_name :: "vfs \<Rightarrow> addr \<Rightarrow> string" where
  "driver_name v ops = (case find (\<lambda>d. fd_ops d = ops) (fs_drivers v) of None \<Rightarrow> ''unknown'' | Some d \<Rightarrow> fd_name d)"

definition mount_line :: "string \<Rightarrow> string \<Rightarrow> string \<Rightarrow> string" where
  "mount_line name source path = name @ '' '' @ (if source = [] then name else source) @ '' '' @ path @ [CHR 0x0A]"

text \<open>One line for each mount while the buffer has room for it and the terminating null.\<close>

fun list_mounts_loop :: "vfs \<Rightarrow> nat \<Rightarrow> vfs_mount_rec list \<Rightarrow> string \<Rightarrow> string option" where
  "list_mounts_loop v out_size [] out = Some out"
| "list_mounts_loop v out_size (m # ms) out =
     (let line = mount_line (driver_name v (mt_ops m)) (mt_source m) (mt_path m) in
      if length out + length line + 1 > out_size then None
      else list_mounts_loop v out_size ms (out @ line))"

definition vfs_list_mounts :: "vfs \<Rightarrow> nat \<Rightarrow> int \<times> string" where
  "vfs_list_mounts v out_size =
     (let line = mount_line (driver_name v (root_ops v)) (root_source v) ''/'' in
      if out_size = 0 \<or> length line + 1 > out_size then (-1, [])
      else case list_mounts_loop v out_size (mounts v) line of
        None \<Rightarrow> (-1, [])
      | Some out \<Rightarrow> (int (length out), out))"

definition vfs_get_info :: "(addr \<Rightarrow> 'w vfs_ops) \<Rightarrow> vfs \<Rightarrow> string \<Rightarrow> 'w \<Rightarrow> (vfs_info option \<times> 'w) option" where
  "vfs_get_info tab v path w = vfs_op tab v op_get_info path (Some (None, w)) (\<lambda>f r. f (r_fs_ctx r) (r_local_path r) w)"

end
