(* ===== verification/Vfs_Props.thy ===== *)
theory Vfs_Props
  imports Vfs "HOL-Library.Sublist"
begin

section \<open>The virtual file system: the mount table and path resolution\<close>

text \<open>
  The mount table stays well formed under every operation that changes it, a path resolves to the
  mount with the longest path that covers it, a mount takes over exactly its subtree and unmounting
  undoes it, and the listings stay within their buffer.
\<close>

subsection \<open>Paths\<close>

text \<open>A directory covers itself and what is below it.\<close>

definition covers :: "string \<Rightarrow> string \<Rightarrow> bool" where
  "covers m p \<longleftrightarrow> p = m \<or> (m = ''/'' \<and> is_valid_abs_path p) \<or> (\<exists>r. p = m @ CHR ''/'' # r)"

lemma path_starts_with_mount_covers:
  assumes "m \<noteq> []"
  shows "path_starts_with_mount p m \<longleftrightarrow> covers m p"
proof (cases "m = ''/''")
  case True
  then show ?thesis by (auto simp: path_starts_with_mount_def covers_def is_valid_abs_path_def)
next
  case False
  show ?thesis
  proof (cases "prefix m p")
    case True
    then obtain r where r: "p = m @ r" by (auto simp: prefix_def)
    show ?thesis using False assms by (cases r) (auto simp: path_starts_with_mount_def covers_def r)
  next
    case np: False
    then have "take (length m) p \<noteq> m" using take_is_prefix by metis
    moreover have "\<not> covers m p" using np False by (auto simp: covers_def)
    ultimately show ?thesis using False assms by (simp add: path_starts_with_mount_def)
  qed
qed

lemma covers_prefix: "covers m p \<Longrightarrow> m \<noteq> [] \<Longrightarrow> prefix m p"
  by (auto simp: covers_def is_valid_abs_path_def) (metis Cons_prefix_Cons Nil_prefix list.collapse)

text \<open>Two mount paths of the same length that cover a path are equal.\<close>

lemma covers_same_length:
  assumes "covers a p" "covers b p" "length a = length b" "a \<noteq> []"
  shows "a = b"
proof -
  have "b \<noteq> []" using assms(3,4) by auto
  from covers_prefix [OF assms(1,4)] covers_prefix [OF assms(2) this] show ?thesis
    using assms(3) by (metis prefix_length_prefix prefix_order.antisym order_refl)
qed

lemma mounted_below_iff: "mounted_below norm p \<longleftrightarrow> (\<exists>r. p = norm @ CHR ''/'' # r)"
proof
  assume A: "mounted_below norm p"
  then have "p = norm @ drop (length norm) p" "drop (length norm) p \<noteq> []" "hd (drop (length norm) p) = CHR ''/''"
    by (auto simp: mounted_below_def hd_drop_conv_nth) (metis append_take_drop_id)
  then show "\<exists>r. p = norm @ CHR ''/'' # r" by (metis list.collapse)
qed (auto simp: mounted_below_def)

lemma local_path:
  assumes "covers m p" "m \<noteq> ''/''" "length p < 256"
  shows "(p = m \<and> make_local_path p m = ''/'') \<or> (p \<noteq> m \<and> p = m @ make_local_path p m)"
  using assms by (auto simp: covers_def make_local_path_def Let_def)

subsection \<open>Resolution\<close>

text \<open>The loop keeps the longest covering mount seen so far.\<close>

definition longest :: "string \<Rightarrow> vfs_mount_rec list \<Rightarrow> vfs_mount_rec \<Rightarrow> bool" where
  "longest p ms m \<longleftrightarrow> m \<in> set ms \<and> covers (mt_path m) p \<and>
     (\<forall>m' \<in> set ms. covers (mt_path m') p \<longrightarrow> length (mt_path m') \<le> length (mt_path m))"

lemma best_mount_cases:
  assumes "\<forall>m \<in> set ms. mt_path m \<noteq> []"
    "case best of None \<Rightarrow> n = 0 | Some b \<Rightarrow> n = length (mt_path b)"
  shows "(\<forall>m \<in> set ms. covers (mt_path m) p \<longrightarrow> length (mt_path m) \<le> n) \<and> best_mount p ms best n = best \<or>
    (\<exists>m. longest p ms m \<and> n < length (mt_path m) \<and> best_mount p ms best n = Some m)"
  using assms
proof (induction ms arbitrary: best n)
  case (Cons a ms)
  have ne: "mt_path a \<noteq> []" using Cons.prems(1) by simp
  note P = path_starts_with_mount_covers [OF ne, of p]
  show ?case
  proof (cases "covers (mt_path a) p \<and> n < length (mt_path a)")
    case True
    then have b: "best_mount p (a # ms) best n = best_mount p ms (Some a) (length (mt_path a))" by (simp add: Let_def P)
    have "(\<forall>m \<in> set ms. covers (mt_path m) p \<longrightarrow> length (mt_path m) \<le> length (mt_path a)) \<and>
        best_mount p (a # ms) best n = Some a \<or>
      (\<exists>m. longest p ms m \<and> length (mt_path a) < length (mt_path m) \<and> best_mount p (a # ms) best n = Some m)"
      unfolding b by (rule Cons.IH) (use Cons.prems in auto)
    then show ?thesis
    proof
      assume "(\<forall>m \<in> set ms. covers (mt_path m) p \<longrightarrow> length (mt_path m) \<le> length (mt_path a)) \<and>
        best_mount p (a # ms) best n = Some a"
      then show ?thesis using True by (intro disjI2 exI [of _ a]) (simp add: longest_def)
    next
      assume "\<exists>m. longest p ms m \<and> length (mt_path a) < length (mt_path m) \<and> best_mount p (a # ms) best n = Some m"
      then obtain m where m: "longest p ms m" "length (mt_path a) < length (mt_path m)" "best_mount p (a # ms) best n = Some m" by blast
      then show ?thesis using True by (intro disjI2 exI [of _ m]) (auto simp: longest_def)
    qed
  next
    case False
    then have b: "best_mount p (a # ms) best n = best_mount p ms best n" by (auto simp: Let_def P)
    have "(\<forall>m \<in> set ms. covers (mt_path m) p \<longrightarrow> length (mt_path m) \<le> n) \<and> best_mount p (a # ms) best n = best \<or>
      (\<exists>m. longest p ms m \<and> n < length (mt_path m) \<and> best_mount p (a # ms) best n = Some m)"
      unfolding b by (rule Cons.IH) (use Cons.prems in auto)
    then show ?thesis
    proof
      assume A: "(\<forall>m \<in> set ms. covers (mt_path m) p \<longrightarrow> length (mt_path m) \<le> n) \<and> best_mount p (a # ms) best n = best"
      then show ?thesis using False by (intro disjI1) auto
    next
      assume "\<exists>m. longest p ms m \<and> n < length (mt_path m) \<and> best_mount p (a # ms) best n = Some m"
      then obtain m where m: "longest p ms m" "n < length (mt_path m)" "best_mount p (a # ms) best n = Some m" by blast
      then show ?thesis using False by (intro disjI2 exI [of _ m]) (auto simp: longest_def)
    qed
  qed
qed simp

lemma best_mount_none:
  assumes "\<forall>m \<in> set ms. mt_path m \<noteq> []"
  shows "best_mount p ms None 0 = None \<longleftrightarrow> (\<forall>m \<in> set ms. \<not> covers (mt_path m) p)"
  using best_mount_cases [OF assms, where best = None and n = 0 and p = p] assms by (auto simp: longest_def)

lemma best_mount_some:
  assumes "\<forall>m \<in> set ms. mt_path m \<noteq> []" "best_mount p ms None 0 = Some m"
  shows "longest p ms m"
  using best_mount_cases [OF assms(1), where best = None and n = 0 and p = p] assms(2) by auto

lemma longest_unique:
  assumes "longest p ms m" "longest p ms m'" "distinct (map mt_path ms)" "\<forall>m \<in> set ms. mt_path m \<noteq> []"
  shows "m = m'"
proof -
  have "mt_path m = mt_path m'"
    using assms(1,2,4) by (intro covers_same_length [of _ p]) (auto simp: longest_def intro: le_antisym)
  then show ?thesis using assms(1-3) by (auto simp: longest_def distinct_map dest: inj_onD)
qed

lemma best_mount_iff:
  assumes "\<forall>m \<in> set ms. mt_path m \<noteq> []" "distinct (map mt_path ms)"
  shows "best_mount p ms None 0 = Some m \<longleftrightarrow> longest p ms m"
proof
  assume L: "longest p ms m"
  then have "best_mount p ms None 0 \<noteq> None" using best_mount_none [OF assms(1)] by (auto simp: longest_def)
  then obtain m' where m': "best_mount p ms None 0 = Some m'" by auto
  with longest_unique [OF L best_mount_some [OF assms(1) m'] assms(2,1)] show "best_mount p ms None 0 = Some m" by simp
qed (rule best_mount_some [OF assms(1)])

subsection \<open>The tables stay well formed\<close>

definition vfs_ok :: "vfs \<Rightarrow> bool" where
  "vfs_ok v \<longleftrightarrow>
     length (fs_drivers v) \<le> VFS_MAX_FS_DRIVERS \<and> distinct (map fd_name (fs_drivers v)) \<and>
     (\<forall>d \<in> set (fs_drivers v). fd_name d \<noteq> [] \<and> length (fd_name d) < VFS_FS_NAME_MAX \<and> fd_ops d \<noteq> 0) \<and>
     (root_fs v = 0 \<longleftrightarrow> root_ops v = 0) \<and> (root_ops v \<noteq> 0 \<longrightarrow> root_ops v \<in> fd_ops ` set (fs_drivers v)) \<and>
     length (root_source v) < 256 \<and>
     length (mounts v) \<le> VFS_MAX_MOUNTS \<and> distinct (map mt_path (mounts v)) \<and> (mounts v \<noteq> [] \<longrightarrow> root_fs v \<noteq> 0) \<and>
     (\<forall>m \<in> set (mounts v). is_valid_abs_path (mt_path m) \<and> length (mt_path m) < 256 \<and> length (mt_source m) < 256 \<and>
        mt_fs_ctx m \<noteq> 0 \<and> mt_ops m \<in> fd_ops ` set (fs_drivers v))"

lemma vfs_okD:
  assumes "vfs_ok v"
  shows "distinct (map mt_path (mounts v))" "\<forall>m \<in> set (mounts v). mt_path m \<noteq> []"
    "root_fs v = 0 \<longleftrightarrow> root_ops v = 0"
  using assms by (auto simp: vfs_ok_def is_valid_abs_path_def)

lemma find_fs_ops_driver:
  assumes "find_fs_ops v n \<noteq> 0"
  shows "\<exists>d \<in> set (fs_drivers v). fd_name d = n \<and> fd_ops d = find_fs_ops v n"
proof -
  obtain d where d: "find (\<lambda>d. fd_name d = n) (fs_drivers v) = Some d"
    using assms by (auto simp: find_fs_ops_def split: if_splits option.splits)
  then have "d \<in> set (fs_drivers v)" "fd_name d = n" by (auto simp: find_Some_iff)
  moreover have "fd_ops d = find_fs_ops v n" using assms d by (auto simp: find_fs_ops_def)
  ultimately show ?thesis by blast
qed

lemma vfs_register_fs_ok: "vfs_ok v \<Longrightarrow> vfs_ok (snd (vfs_register_fs n ops v))"
  by (auto simp: vfs_register_fs_def vfs_ok_def)

lemma vfs_set_root_ok:
  assumes "vfs_ok v"
  shows "vfs_ok (snd (vfs_set_root n c v))"
proof (cases "c = 0 \<or> find_fs_ops v n = 0")
  case False
  then obtain d where d: "d \<in> set (fs_drivers v)" "fd_ops d = find_fs_ops v n" using find_fs_ops_driver by blast
  then have "find_fs_ops v n \<in> fd_ops ` set (fs_drivers v)" by (metis imageI)
  then show ?thesis using assms False by (simp add: vfs_set_root_def vfs_ok_def Let_def)
qed (use assms in \<open>auto simp: vfs_set_root_def Let_def\<close>)

lemma vfs_set_root_source_ok: "vfs_ok v \<Longrightarrow> vfs_ok (snd (vfs_set_root_source src v))"
  by (auto simp: vfs_set_root_source_def vfs_ok_def min_def)

lemma normalize_mount_path_ok:
  assumes "normalize_mount_path p = Some norm"
  shows "is_valid_abs_path norm" "length norm < 256"
proof -
  have "hd (butlast p) = hd p \<and> butlast p \<noteq> []" if "1 < length p"
    using that by (cases p rule: list.exhaust) (auto simp: neq_Nil_conv split: if_splits)
  then show "is_valid_abs_path norm" "length norm < 256"
    using assms by (auto simp: normalize_mount_path_def is_valid_abs_path_def split: if_splits)
qed

lemma find_index:
  assumes "find (\<lambda>i. P (xs ! i)) [0..<length xs] = Some i"
  shows "i < length xs" "P (xs ! i)"
  using assms by (auto simp: find_Some_iff)

lemma vfs_set_mount_source_ok:
  assumes "vfs_ok v"
  shows "vfs_ok (snd (vfs_set_mount_source p src v))"
proof (cases "vfs_set_mount_source p src v = (-1, v)")
  case False
  then obtain norm i where i: "find (\<lambda>i. mt_path (mounts v ! i) = norm) [0..<length (mounts v)] = Some i"
    and s: "vfs_set_mount_source p src v = (0, v\<lparr>mounts := (mounts v)[i := (mounts v ! i)\<lparr>mt_source := take 255 src\<rparr>]\<rparr>)"
    by (auto simp: vfs_set_mount_source_def split: if_splits option.splits)
  let ?ms = "(mounts v)[i := (mounts v ! i)\<lparr>mt_source := take 255 src\<rparr>]"
  note il = find_index(1) [OF i]
  have p: "map mt_path ?ms = map mt_path (mounts v)" using il by (simp add: map_update list_update_same_conv)
  have "\<forall>m \<in> set ?ms. \<exists>m0 \<in> set (mounts v). mt_path m = mt_path m0 \<and> mt_fs_ctx m = mt_fs_ctx m0 \<and> mt_ops m = mt_ops m0 \<and>
      (mt_source m = mt_source m0 \<or> length (mt_source m) < 256)"
    using il by (fastforce dest!: set_update_subset_insert [THEN subsetD])
  then have "\<forall>m \<in> set ?ms. is_valid_abs_path (mt_path m) \<and> length (mt_path m) < 256 \<and> length (mt_source m) < 256 \<and>
        mt_fs_ctx m \<noteq> 0 \<and> mt_ops m \<in> fd_ops ` set (fs_drivers v)"
    using assms unfolding vfs_ok_def by metis
  moreover have "?ms \<noteq> [] \<longleftrightarrow> mounts v \<noteq> []" by simp
  ultimately show ?thesis using assms p unfolding s vfs_ok_def by auto
qed (use assms in simp)

lemma vfs_ok_fewer:
  assumes "vfs_ok v" "distinct (map mt_path ms)" "set ms \<subseteq> set (mounts v)" "length ms \<le> length (mounts v)"
  shows "vfs_ok (v\<lparr>mounts := ms\<rparr>)"
proof -
  have "ms \<noteq> [] \<longrightarrow> mounts v \<noteq> []" using assms(4) by auto
  moreover have "length ms \<le> VFS_MAX_MOUNTS" using assms(1,4) unfolding vfs_ok_def by linarith
  ultimately show ?thesis using assms(1-3) unfolding vfs_ok_def by (auto dest: subsetD)
qed

lemma vfs_umount_ok:
  assumes "vfs_ok v"
  shows "vfs_ok (snd (vfs_umount p v))"
proof (cases "vfs_umount p v = (-1, v)")
  case False
  then obtain idx where s: "vfs_umount p v = (0, v\<lparr>mounts := take idx (mounts v) @ drop (idx + 1) (mounts v)\<rparr>)"
    by (auto simp: vfs_umount_def split: if_splits option.splits)
  let ?ms = "take idx (mounts v) @ drop (idx + 1) (mounts v)"
  have "distinct (map mt_path ?ms)"
    using vfs_okD(1) [OF assms] set_take_disj_set_drop_if_distinct [of "map mt_path (mounts v)" idx "idx + 1"]
    by (simp add: take_map [symmetric] drop_map [symmetric] del: set_map)
  moreover have "set ?ms \<subseteq> set (mounts v)" by (auto dest: in_set_takeD in_set_dropD)
  moreover have "length ?ms \<le> length (mounts v)" by simp
  ultimately show ?thesis unfolding s snd_conv by (intro vfs_ok_fewer [OF assms])
qed (use assms in simp)

lemma vfs_mount_cases:
  assumes "vfs_mount tab p n c v w = Some (r, v', w')"
  obtains "v' = v" "r = -1"
  | norm where "r = 0" "normalize_mount_path p = Some norm" "norm \<notin> mt_path ` set (mounts v)" "c \<noteq> 0"
    "find_fs_ops v n \<noteq> 0" "length (mounts v) < VFS_MAX_MOUNTS" "root_fs v \<noteq> 0"
    "v' = v\<lparr>mounts := mounts v @ [\<lparr>mt_path = norm, mt_source = take 255 n, mt_fs_ctx = c, mt_ops = find_fs_ops v n\<rparr>]\<rparr>"
proof -
  have "take 255 norm = norm" if "normalize_mount_path p = Some norm" for norm
    using normalize_mount_path_ok(2) [OF that] by simp
  moreover have "root_fs v \<noteq> 0" if "vfs_resolve v q = Some x" for q x using that by (auto simp: vfs_resolve_def split: if_splits)
  ultimately show ?thesis using assms that
    by (fastforce simp: vfs_mount_def vfs_op_def split: if_splits option.splits)
qed

lemma vfs_mount_ok:
  assumes "vfs_ok v" "vfs_mount tab p n c v w = Some (r, v', w')"
  shows "vfs_ok v'"
  using assms(2)
proof (cases rule: vfs_mount_cases)
  case (2 norm)
  obtain d where "d \<in> set (fs_drivers v)" "fd_ops d = find_fs_ops v n" using find_fs_ops_driver [OF 2(5)] by blast
  then have "find_fs_ops v n \<in> fd_ops ` set (fs_drivers v)" by (metis imageI)
  then show ?thesis using assms(1) 2 normalize_mount_path_ok [OF 2(2)] by (auto simp: vfs_ok_def)
qed (use assms(1) in simp)

subsection \<open>Reachable tables\<close>

text \<open>The tables a sequence of calls makes out of the initial ones.\<close>

inductive vfs_reach :: "(addr \<Rightarrow> 'w vfs_ops) \<Rightarrow> vfs \<Rightarrow> bool" for tab where
  Init: "vfs_reach tab vfs_init"
| Register: "vfs_reach tab v \<Longrightarrow> vfs_reach tab (snd (vfs_register_fs n ops v))"
| Root: "vfs_reach tab v \<Longrightarrow> vfs_reach tab (snd (vfs_set_root n c v))"
| Root_source: "vfs_reach tab v \<Longrightarrow> vfs_reach tab (snd (vfs_set_root_source src v))"
| Mount: "vfs_reach tab v \<Longrightarrow> vfs_mount tab p n c v w = Some (r, v', w') \<Longrightarrow> vfs_reach tab v'"
| Mount_source: "vfs_reach tab v \<Longrightarrow> vfs_reach tab (snd (vfs_set_mount_source p src v))"
| Umount: "vfs_reach tab v \<Longrightarrow> vfs_reach tab (snd (vfs_umount p v))"

lemmas vfs_keeps_ok = vfs_register_fs_ok vfs_set_root_ok vfs_set_root_source_ok vfs_mount_ok vfs_set_mount_source_ok vfs_umount_ok

lemma vfs_init_ok: "vfs_ok vfs_init"
  by (simp add: vfs_init_def vfs_ok_def VFS_MAX_FS_DRIVERS_def VFS_MAX_MOUNTS_def)

lemma vfs_reach_ok: "vfs_reach tab v \<Longrightarrow> vfs_ok v"
  by (induction rule: vfs_reach.induct) (auto intro: vfs_keeps_ok vfs_init_ok)

lemma vfs_resolve_mount:
  assumes "vfs_ok v" "root_fs v \<noteq> 0" "is_valid_abs_path p" "longest p (mounts v) m"
  shows "vfs_resolve v p = Some \<lparr>r_fs_ctx = mt_fs_ctx m, r_ops = mt_ops m, r_local_path = make_local_path p (mt_path m)\<rparr>"
proof -
  have "best_mount p (mounts v) None 0 = Some m" using best_mount_iff [OF vfs_okD(2,1) [OF assms(1)]] assms(4) by blast
  then show ?thesis using assms(2,3) vfs_okD(3) [OF assms(1)] by (simp add: vfs_resolve_def)
qed

lemma vfs_resolve_root:
  assumes "vfs_ok v" "root_fs v \<noteq> 0" "is_valid_abs_path p" "\<forall>m \<in> set (mounts v). \<not> covers (mt_path m) p"
  shows "vfs_resolve v p = Some \<lparr>r_fs_ctx = root_fs v, r_ops = root_ops v, r_local_path = take 255 p\<rparr>"
proof -
  have "best_mount p (mounts v) None 0 = None" using best_mount_none [OF vfs_okD(2) [OF assms(1)]] assms(4) by blast
  then show ?thesis using assms(2,3) vfs_okD(3) [OF assms(1)] by (simp add: vfs_resolve_def)
qed

lemma longest_exists:
  assumes "vfs_ok v" "\<exists>m \<in> set (mounts v). covers (mt_path m) p"
  obtains m where "longest p (mounts v) m"
proof -
  have "best_mount p (mounts v) None 0 \<noteq> None" using best_mount_none [OF vfs_okD(2) [OF assms(1)]] assms(2) by blast
  then show ?thesis using that best_mount_some [OF vfs_okD(2) [OF assms(1)]] by blast
qed

lemma make_local_path_ok:
  assumes "covers m p" "is_valid_abs_path p"
  shows "is_valid_abs_path (make_local_path p m)" "length (make_local_path p m) < 256"
  using assms by (auto simp: covers_def make_local_path_def is_valid_abs_path_def Let_def min_def take_Cons')


text \<open>A table of operations of which only the one for information is there, and a root with one driver.\<close>

definition demo_ops :: "unit vfs_ops" where
  "demo_ops = \<lparr>op_open = None, op_close = None, op_read = None, op_write = None, op_append = None, op_ioctl = None,
     op_mkdir = None, op_create_file = None, op_link = None, op_unlink = None, op_rmdir = None, op_mkfifo = None,
     op_mksock = None, op_list = None,
     op_get_info = Some (\<lambda>c p w. Some (Some \<lparr>vi_type = VFS_NODE_DIR, vi_mode = 0, vi_uid = 0, vi_gid = 0, vi_size = 0\<rparr>, w))\<rparr>"

definition demo_vfs :: vfs where
  "demo_vfs = snd (vfs_set_root ''memfs'' 4096 (snd (vfs_register_fs ''memfs'' 8192 vfs_init)))"

definition demo_mounted :: vfs where
  "demo_mounted = demo_vfs\<lparr>mounts := [\<lparr>mt_path = ''/dev'', mt_source = ''memfs'', mt_fs_ctx = 5000, mt_ops = 8192\<rparr>]\<rparr>"

lemma demo_vfs_eq: "demo_vfs = \<lparr>root_fs = 4096, root_ops = 8192, root_source = ''memfs'',
    fs_drivers = [\<lparr>fd_name = ''memfs'', fd_ops = 8192\<rparr>], mounts = []\<rparr>"
  by (simp add: demo_vfs_def vfs_register_fs_def vfs_set_root_def vfs_init_def find_fs_ops_def Let_def
      VFS_MAX_FS_DRIVERS_def VFS_FS_NAME_MAX_def)

lemma demo_vfs_mount: "vfs_mount (\<lambda>_. demo_ops) ''/dev/'' ''memfs'' 5000 demo_vfs () = Some (0, demo_mounted, ())"
  by (simp add: demo_vfs_eq demo_mounted_def vfs_mount_def VFS_MAX_MOUNTS_def find_fs_ops_def normalize_mount_path_def
      is_valid_abs_path_def vfs_op_def vfs_resolve_def demo_ops_def)

lemma demo_vfs_reach: "vfs_reach (\<lambda>_. demo_ops) demo_vfs"
  unfolding demo_vfs_def by (intro vfs_reach.intros)

lemma demo_mounted_reach: "vfs_reach (\<lambda>_. demo_ops) demo_mounted"
  by (rule vfs_reach.Mount [OF demo_vfs_reach demo_vfs_mount])


subsection \<open>The longest mount wins\<close>

text \<open>C8: a path resolves to the mount with the longest path among those that cover it, which is unique, with
  the rest of the path as the path local to that file system, \<^verbatim>\<open>/\<close> for the mount point itself; a
  path that no mount covers belongs to the root file system and is passed on unchanged.\<close>

theorem vfs_resolve_longest_mount:
  assumes "vfs_ok v" "root_fs v \<noteq> 0" "is_valid_abs_path p" "length p < 256"
  shows "((\<exists>m \<in> set (mounts v). covers (mt_path m) p) \<longrightarrow> (\<exists>!m. longest p (mounts v) m)) \<and>
    (\<forall>m. longest p (mounts v) m \<longrightarrow>
       (\<exists>r. vfs_resolve v p = Some r \<and> r_fs_ctx r = mt_fs_ctx m \<and> r_ops r = mt_ops m \<and>
          (if mt_path m = ''/'' then r_local_path r = p
           else if p = mt_path m then r_local_path r = ''/'' else p = mt_path m @ r_local_path r))) \<and>
    ((\<forall>m \<in> set (mounts v). \<not> covers (mt_path m) p) \<longrightarrow>
       vfs_resolve v p = Some \<lparr>r_fs_ctx = root_fs v, r_ops = root_ops v, r_local_path = p\<rparr>)"
proof (intro conjI impI allI)
  assume "\<exists>m \<in> set (mounts v). covers (mt_path m) p"
  then show "\<exists>!m. longest p (mounts v) m"
    by (metis longest_exists [OF assms(1)] longest_unique [OF _ _ vfs_okD(1,2) [OF assms(1)]])
next
  fix m assume m: "longest p (mounts v) m"
  then have c: "covers (mt_path m) p" by (simp add: longest_def)
  have "make_local_path p ''/'' = p" using assms(4) by (simp add: make_local_path_def)
  then show "\<exists>r. vfs_resolve v p = Some r \<and> r_fs_ctx r = mt_fs_ctx m \<and> r_ops r = mt_ops m \<and>
          (if mt_path m = ''/'' then r_local_path r = p
           else if p = mt_path m then r_local_path r = ''/'' else p = mt_path m @ r_local_path r)"
    using vfs_resolve_mount [OF assms(1-3) m] local_path [OF c _ assms(4)] by (cases "mt_path m = ''/''") auto
next
  assume "\<forall>m \<in> set (mounts v). \<not> covers (mt_path m) p"
  from vfs_resolve_root [OF assms(1-3) this] assms(4)
  show "vfs_resolve v p = Some \<lparr>r_fs_ctx = root_fs v, r_ops = root_ops v, r_local_path = p\<rparr>" by simp
qed

theorem vfs_resolve_longest_mount_witness:
  "\<exists>r. vfs_resolve demo_mounted ''/dev/tty'' = Some r \<and> r_fs_ctx r = 5000 \<and> ''/dev/tty'' = ''/dev'' @ r_local_path r"
proof -
  have h: "vfs_ok demo_mounted" "root_fs demo_mounted \<noteq> 0" "is_valid_abs_path ''/dev/tty''" "length ''/dev/tty'' < 256"
    using vfs_reach_ok [OF demo_mounted_reach] by (simp_all add: demo_mounted_def demo_vfs_eq is_valid_abs_path_def)
  let ?m = "\<lparr>mt_path = ''/dev'', mt_source = ''memfs'', mt_fs_ctx = 5000, mt_ops = 8192\<rparr>"
  have "longest ''/dev/tty'' (mounts demo_mounted) ?m" by (simp add: longest_def demo_mounted_def covers_def)
  with vfs_resolve_longest_mount [OF h] have "\<exists>r. vfs_resolve demo_mounted ''/dev/tty'' = Some r \<and> r_fs_ctx r = mt_fs_ctx ?m \<and>
    r_ops r = mt_ops ?m \<and> (if mt_path ?m = ''/'' then r_local_path r = ''/dev/tty''
      else if ''/dev/tty'' = mt_path ?m then r_local_path r = ''/'' else ''/dev/tty'' = mt_path ?m @ r_local_path r)" by blast
  then show ?thesis by auto
qed

subsection \<open>Mounting and unmounting\<close>

lemma longest_snoc:
  assumes "covers (mt_path m) p" "\<forall>m' \<in> set ms. covers (mt_path m') p \<longrightarrow> length (mt_path m') < length (mt_path m)"
  shows "longest p (ms @ [m]) m"
  using assms by (auto simp: longest_def intro: less_imp_le)

lemma longest_snoc_old:
  assumes "longest p ms b" "\<not> covers (mt_path m) p \<or> length (mt_path m) \<le> length (mt_path b)"
  shows "longest p (ms @ [m]) b"
  using assms by (auto simp: longest_def)

lemma find_last:
  assumes "P x" "\<forall>y \<in> set xs. \<not> P y"
  shows "find (\<lambda>i. P ((xs @ [x]) ! i)) [0..<length (xs @ [x])] = Some (length xs)"
  unfolding find_Some_iff using assms by (intro exI [of _ "length xs"]) (auto simp: nth_append)

lemma vfs_resolve_new_mount:
  assumes "vfs_ok v" "vfs_ok v'" "v' = v\<lparr>mounts := mounts v @ [m]\<rparr>" "root_fs v \<noteq> 0" "is_valid_abs_path p"
  shows "vfs_resolve v' p =
    (if covers (mt_path m) p \<and> (\<forall>m' \<in> set (mounts v). covers (mt_path m') p \<longrightarrow> length (mt_path m') < length (mt_path m))
     then Some \<lparr>r_fs_ctx = mt_fs_ctx m, r_ops = mt_ops m, r_local_path = make_local_path p (mt_path m)\<rparr>
     else vfs_resolve v p)"
proof (cases "covers (mt_path m) p \<and> (\<forall>m' \<in> set (mounts v). covers (mt_path m') p \<longrightarrow> length (mt_path m') < length (mt_path m))")
  case True
  then have "longest p (mounts v') m" using longest_snoc [of m p "mounts v"] assms(3) by simp
  then show ?thesis using True vfs_resolve_mount [OF assms(2) _ assms(5)] assms(3,4) by simp
next
  case False
  show ?thesis
  proof (cases "\<exists>m' \<in> set (mounts v). covers (mt_path m') p")
    case True
    then obtain b where b: "longest p (mounts v) b" by (rule longest_exists [OF assms(1)])
    have "\<not> covers (mt_path m) p \<or> length (mt_path m) \<le> length (mt_path b)"
      using False b by (auto simp: longest_def not_less intro: order_trans)
    from longest_snoc_old [OF b this] have "longest p (mounts v') b" using assms(3) by simp
    from vfs_resolve_mount [OF assms(2) _ assms(5) this] vfs_resolve_mount [OF assms(1,4,5) b] assms(3,4)
    show ?thesis by (auto simp only: if_not_P [OF False]) simp
  next
    case none: False
    then have "\<forall>m' \<in> set (mounts v'). \<not> covers (mt_path m') p" using False assms(3) by auto
    from vfs_resolve_root [OF assms(2) _ assms(5) this] vfs_resolve_root [OF assms(1,4,5)] none assms(3,4)
    show ?thesis unfolding if_not_P [OF False] by simp
  qed
qed

text \<open>a successful mount takes over exactly the paths it covers that no longer mount covers, all other
  paths resolve as before; and unmounting the same path, when nothing is mounted below it, gives
  the old tables back.\<close>

theorem vfs_mount_umount:
  assumes "vfs_ok v" "vfs_mount tab mp n c v w = Some (0, v', w')" "normalize_mount_path mp = Some norm"
  shows "vfs_ok v' \<and>
    (\<forall>p. is_valid_abs_path p \<longrightarrow> vfs_resolve v' p =
      (if covers norm p \<and> (\<forall>m \<in> set (mounts v). covers (mt_path m) p \<longrightarrow> length (mt_path m) < length norm)
       then Some \<lparr>r_fs_ctx = c, r_ops = find_fs_ops v n, r_local_path = make_local_path p norm\<rparr>
       else vfs_resolve v p)) \<and>
    (norm \<noteq> ''/'' \<and> (\<forall>m \<in> set (mounts v). \<not> mounted_below norm (mt_path m)) \<longrightarrow> vfs_umount mp v' = (0, v))"
  using assms(2)
proof (cases rule: vfs_mount_cases)
  case (2 norm')
  define m where "m = \<lparr>mt_path = norm, mt_source = take 255 n, mt_fs_ctx = c, mt_ops = find_fs_ops v n\<rparr>"
  have v': "v' = v\<lparr>mounts := mounts v @ [m]\<rparr>" using 2 assms(3) by (simp add: m_def)
  have ok: "vfs_ok v'" by (rule vfs_mount_ok [OF assms(1,2)])
  have fnd: "find (\<lambda>i. mt_path ((mounts v @ [m]) ! i) = norm) [0..<length (mounts v @ [m])] = Some (length (mounts v))"
    by (rule find_last) (use 2(2,3) assms(3) in \<open>auto simp: m_def\<close>)
  have un: "vfs_umount mp v' = (0, v)" if A: "norm \<noteq> ''/''" "\<forall>m \<in> set (mounts v). \<not> mounted_below norm (mt_path m)"
  proof -
    have "\<not> (\<exists>i \<in> set [0..<length (mounts v @ [m])]. i \<noteq> length (mounts v) \<and> mounted_below norm (mt_path ((mounts v @ [m]) ! i)))"
      using A(2) by (auto simp: nth_append)
    then show ?thesis using A(1) fnd assms(3) unfolding vfs_umount_def v' by simp
  qed
  have m: "mt_path m = norm" "mt_fs_ctx m = c" "mt_ops m = find_fs_ops v n" by (simp_all add: m_def)
  show ?thesis using ok un vfs_resolve_new_mount [OF assms(1) ok v' 2(7), unfolded m] by blast
qed simp

theorem vfs_mount_umount_witness:
  "vfs_umount ''/dev/'' demo_mounted = (0, demo_vfs) \<and>
   vfs_resolve demo_mounted ''/dev'' = Some \<lparr>r_fs_ctx = 5000, r_ops = 8192, r_local_path = ''/''\<rparr>"
proof -
  have n: "normalize_mount_path ''/dev/'' = Some ''/dev''" by (simp add: normalize_mount_path_def is_valid_abs_path_def)
  have p: "is_valid_abs_path ''/dev''" "covers ''/dev'' ''/dev''" by (simp_all add: is_valid_abs_path_def covers_def)
  have l: "make_local_path ''/dev'' ''/dev'' = ''/''" "find_fs_ops demo_vfs ''memfs'' = 8192" "mounts demo_vfs = []"
    by (simp_all add: make_local_path_def find_fs_ops_def demo_vfs_eq)
  show ?thesis using vfs_mount_umount [OF vfs_reach_ok [OF demo_vfs_reach] demo_vfs_mount n] p l by simp
qed

subsection \<open>Listings stay within their buffer\<close>

definition mount_lines :: "vfs \<Rightarrow> vfs_mount_rec list \<Rightarrow> string" where
  "mount_lines v ms = concat (map (\<lambda>m. mount_line (driver_name v (mt_ops m)) (mt_source m) (mt_path m)) ms)"

lemma list_mounts_loop_eq:
  "length out < n \<Longrightarrow> list_mounts_loop v n ms out =
     (if length (out @ mount_lines v ms) < n then Some (out @ mount_lines v ms) else None)"
  by (induction ms arbitrary: out) (auto simp: mount_lines_def Let_def)

text \<open>\<^verbatim>\<open>vfs_list_mounts\<close> writes one line for the root and one for every mount, in the order of the
  table, when all of them and the terminating null fit into the buffer, and otherwise fails; it
  never leaves a partial list behind a success.\<close>

theorem vfs_list_mounts_all_or_nothing:
  "vfs_list_mounts v n =
    (let text = mount_line (driver_name v (root_ops v)) (root_source v) ''/'' @ mount_lines v (mounts v) in
     if length text < n then (int (length text), text) else (-1, []))"
proof -
  let ?l = "mount_line (driver_name v (root_ops v)) (root_source v) ''/''"
  show ?thesis
  proof (cases "length ?l < n")
    case True
    then show ?thesis using list_mounts_loop_eq [OF True, of v "mounts v"] by (auto simp: vfs_list_mounts_def Let_def)
  qed (auto simp: vfs_list_mounts_def Let_def)
qed

lemma list_mount_children_bounds:
  "length out < n \<Longrightarrow> length (list_mount_children norm n ms out) < n \<and> prefix out (list_mount_children norm n ms out)"
proof (induction ms arbitrary: out)
  case (Cons m ms)
  show ?case
  proof (cases "mount_direct_child_name norm (mt_path m)")
    case (Some child)
    let ?o = "out @ child @ [CHR ''/'', CHR 0x0A]"
    have "length ?o < n \<Longrightarrow> prefix out (list_mount_children norm n ms ?o)"
      using Cons.IH [of ?o] by (meson prefixI prefix_order.trans)
    then show ?thesis using Some Cons.IH [of ?o] Cons.IH [of out] Cons.prems by auto
  qed (use Cons in auto)
qed simp

text \<open>A name of a mount is a single component.\<close>

lemma mount_direct_child_name_iff:
  assumes "is_valid_abs_path m" "length m < 256"
  shows "mount_direct_child_name d m = Some c \<longleftrightarrow>
    c \<noteq> [] \<and> CHR ''/'' \<notin> set c \<and> m = (if d = ''/'' then [] else d) @ CHR ''/'' # c"
proof (cases "d = ''/''")
  case True
  then show ?thesis using assms by (cases m) (auto simp: mount_direct_child_name_def is_valid_abs_path_def split: if_splits)
next
  case False
  have "take (length d) m = d \<and> length d + 1 < length m \<and> m ! length d = CHR ''/'' \<longleftrightarrow> (\<exists>c. c \<noteq> [] \<and> m = d @ CHR ''/'' # c)"
  proof
    assume A: "take (length d) m = d \<and> length d + 1 < length m \<and> m ! length d = CHR ''/''"
    then have "m = d @ CHR ''/'' # drop (length d + 1) m" using id_take_nth_drop [of "length d" m] by simp
    then show "\<exists>c. c \<noteq> [] \<and> m = d @ CHR ''/'' # c" using A by (metis drop_eq_Nil not_le)
  qed auto
  then show ?thesis using False assms by (auto simp: mount_direct_child_name_def Let_def split: if_splits)
qed

text \<open>\<^verbatim>\<open>vfs_list\<close> over a file system that keeps to its buffer keeps to it as well: what the file system
  listed stays in place, and what is added behind it fits together with the terminating null.\<close>

theorem vfs_list_bounded:
  assumes "vfs_resolve v p = Some r" "r_ops r \<noteq> 0" "op_list (tab (r_ops r)) = Some f"
    "f (r_fs_ctx r) (r_local_path r) n w = Some ((k, out), w')" "0 \<le> k" "k = int (length out)" "length out < n"
  shows "\<exists>out'. vfs_list tab v p n w = Some ((int (length out'), out'), w') \<and> length out' < n \<and> prefix out out'"
  using assms list_mount_children_bounds [OF assms(7)] by (auto simp: vfs_list_def vfs_op_def Let_def split: option.splits)

definition demo_list :: "addr \<Rightarrow> string \<Rightarrow> nat \<Rightarrow> unit \<Rightarrow> ((int \<times> string) \<times> unit) option" where
  "demo_list c p n w = Some ((3, ''a/'' @ [CHR 0x0A]), w)"

theorem vfs_list_bounded_witness:
  "\<exists>out'. vfs_list (\<lambda>_. demo_ops\<lparr>op_list := Some demo_list\<rparr>) demo_mounted ''/'' 64 () = Some ((int (length out'), out'), ()) \<and>
     length out' < 64 \<and> prefix (''a/'' @ [CHR 0x0A]) out'"
proof -
  let ?r = "\<lparr>r_fs_ctx = 4096, r_ops = 8192, r_local_path = ''/''\<rparr>" and ?tab = "\<lambda>_ :: addr. demo_ops\<lparr>op_list := Some demo_list\<rparr>"
  have r: "vfs_resolve demo_mounted ''/'' = Some ?r"
    by (simp add: vfs_resolve_def demo_mounted_def demo_vfs_eq is_valid_abs_path_def path_starts_with_mount_def Let_def)
  have o: "r_ops ?r \<noteq> 0" and t: "op_list (?tab (r_ops ?r)) = Some demo_list" by simp_all
  have f: "demo_list (r_fs_ctx ?r) (r_local_path ?r) 64 () = Some ((3, ''a/'' @ [CHR 0x0A]), ())" by (rule demo_list_def)
  show ?thesis by (rule vfs_list_bounded [of _ _ _ ?tab, OF r o t f]) simp_all
qed

end
