(* ===== verification/Memfs_Vfs.thy ===== *)
theory Memfs_Vfs
  imports Memfs_Props Vfs_Props
begin

section \<open>The in-memory file system behind the VFS\<close>

text \<open>
  The end of \<^verbatim>\<open>memfs.c\<close>: the functions of \<^verbatim>\<open>g_memfs_vfs_ops\<close>.  The locale \<open>byte_files\<close> states what a
  client of the VFS relies on when it creates, writes and reads a regular file; its lemmas follow
  the calls through path resolution and dispatch, and its interpretation shows that \<^verbatim>\<open>memfs\<close> keeps
  the contract.
\<close>

definition memfs_open_op :: "addr \<Rightarrow> string \<Rightarrow> fstate \<Rightarrow> (int \<times> fstate) option" where
  "memfs_open_op fs_ctx path s = map_option (\<lambda>r. (r, s)) (memfs_open fs_ctx path s)"

definition memfs_close_op :: "addr \<Rightarrow> int \<Rightarrow> fstate \<Rightarrow> (int \<times> fstate) option" where
  "memfs_close_op fs_ctx fd s = Some (memfs_close fd, s)"

definition memfs_read_op :: "addr \<Rightarrow> string \<Rightarrow> nat \<Rightarrow> fstate \<Rightarrow> ((int \<times> byte list) io \<times> fstate) option" where
  "memfs_read_op fs_ctx path sz s = memfs_read fs_ctx path sz s"

definition memfs_write_op :: "addr \<Rightarrow> string \<Rightarrow> byte list \<Rightarrow> fstate \<Rightarrow> (int io \<times> fstate) option" where
  "memfs_write_op fs_ctx path buf s = memfs_write fs_ctx path buf s"

definition memfs_append_op :: "addr \<Rightarrow> string \<Rightarrow> byte list \<Rightarrow> fstate \<Rightarrow> (int io \<times> fstate) option" where
  "memfs_append_op fs_ctx path buf s = map_option (\<lambda>(r, s1). (Ret r, s1)) (memfs_append fs_ctx path buf s)"

definition memfs_ioctl_op :: "addr \<Rightarrow> string \<Rightarrow> nat \<Rightarrow> addr \<Rightarrow> fstate \<Rightarrow> (int io \<times> fstate) option" where
  "memfs_ioctl_op fs_ctx path request arg s = map_option (\<lambda>r. (r, s)) (memfs_ioctl fs_ctx path s)"

definition made :: "(addr \<times> fstate) option \<Rightarrow> (int \<times> fstate) option" where
  "made r = map_option (\<lambda>(a, s). (if a \<noteq> 0 then 0 else -1, s)) r"

definition memfs_mkdir_op :: "addr \<Rightarrow> string \<Rightarrow> fstate \<Rightarrow> (int \<times> fstate) option" where
  "memfs_mkdir_op fs_ctx path s = made (memfs_create_dir fs_ctx path s)"

definition memfs_create_file_op :: "addr \<Rightarrow> string \<Rightarrow> fstate \<Rightarrow> (int \<times> fstate) option" where
  "memfs_create_file_op fs_ctx path s = made (memfs_create_file fs_ctx path s)"

definition memfs_link_op :: "addr \<Rightarrow> string \<Rightarrow> string \<Rightarrow> fstate \<Rightarrow> (int \<times> fstate) option" where
  "memfs_link_op fs_ctx oldpath newpath s = memfs_link fs_ctx oldpath newpath s"

definition memfs_unlink_op :: "addr \<Rightarrow> string \<Rightarrow> fstate \<Rightarrow> (int \<times> fstate) option" where
  "memfs_unlink_op fs_ctx path s = memfs_delete_file fs_ctx path s"

definition memfs_rmdir_op :: "addr \<Rightarrow> string \<Rightarrow> fstate \<Rightarrow> (int \<times> fstate) option" where
  "memfs_rmdir_op fs_ctx path s = memfs_delete_dir fs_ctx path s"

definition memfs_mkfifo_op :: "addr \<Rightarrow> string \<Rightarrow> fstate \<Rightarrow> (int \<times> fstate) option" where
  "memfs_mkfifo_op fs_ctx path s = made (memfs_create_fifo fs_ctx path s)"

definition memfs_mksock_op :: "addr \<Rightarrow> string \<Rightarrow> fstate \<Rightarrow> (int \<times> fstate) option" where
  "memfs_mksock_op fs_ctx path s = made (memfs_create_socket fs_ctx path s)"

definition memfs_list_op :: "addr \<Rightarrow> string \<Rightarrow> nat \<Rightarrow> fstate \<Rightarrow> ((int \<times> string) \<times> fstate) option" where
  "memfs_list_op fs_ctx path out_size s = map_option (\<lambda>r. (r, s)) (memfs_ls_into fs_ctx path out_size s)"

text \<open>The cast of a node type, and the first word of the union of an inode, which \<^verbatim>\<open>in.file.size\<close> reads
  whatever the type of the node.\<close>

definition vfs_type :: "memfs_node_type \<Rightarrow> vfs_node_type" where
  "vfs_type t = (case t of MEMFS_TYPE_FILE \<Rightarrow> VFS_NODE_FILE | MEMFS_TYPE_DIR \<Rightarrow> VFS_NODE_DIR
     | MEMFS_TYPE_SYMLINK \<Rightarrow> VFS_NODE_SYMLINK | MEMFS_TYPE_DEVICE \<Rightarrow> VFS_NODE_DEVICE | MEMFS_TYPE_FIFO \<Rightarrow> VFS_NODE_FIFO
     | MEMFS_TYPE_SOCKET \<Rightarrow> VFS_NODE_SOCKET | MEMFS_TYPE_CHARDEV \<Rightarrow> VFS_NODE_CHARDEV
     | MEMFS_TYPE_BLOCKDEV \<Rightarrow> VFS_NODE_BLOCKDEV)"

fun first_word :: "ibody \<Rightarrow> nat" where
  "first_word (File_body n a) = n"
| "first_word (Dir_body es n p) = (case es of [] \<Rightarrow> 0 | d # _ \<Rightarrow> d)"
| "first_word (Symlink_body a) = a"
| "first_word (Device_body dv) = dv_buffer dv"

definition memfs_get_info_op :: "addr \<Rightarrow> string \<Rightarrow> fstate \<Rightarrow> (vfs_info option \<times> fstate) option" where
  "memfs_get_info_op fs_ctx path s = map_option (\<lambda>r. (map_option (\<lambda>i. \<lparr>vi_type = vfs_type (i_type i), vi_mode = unat (i_mode i),
       vi_uid = unat (i_uid i), vi_gid = unat (i_gid i), vi_size = first_word (i_body i)\<rparr>) r, s)) (memfs_get_info fs_ctx path s)"

definition g_memfs_vfs_ops :: "fstate vfs_ops" where
  "g_memfs_vfs_ops = \<lparr>op_open = Some memfs_open_op, op_close = Some memfs_close_op, op_read = Some memfs_read_op,
     op_write = Some memfs_write_op, op_append = Some memfs_append_op, op_ioctl = Some memfs_ioctl_op,
     op_mkdir = Some memfs_mkdir_op, op_create_file = Some memfs_create_file_op, op_link = Some memfs_link_op,
     op_unlink = Some memfs_unlink_op, op_rmdir = Some memfs_rmdir_op, op_mkfifo = Some memfs_mkfifo_op,
     op_mksock = Some memfs_mksock_op, op_list = Some memfs_list_op, op_get_info = Some memfs_get_info_op\<rparr>"

subsection \<open>The contract of a file system with regular files\<close>

locale byte_files =
  fixes ops :: "'w vfs_ops" and ok :: "'w \<Rightarrow> bool" and a_file :: "'w \<Rightarrow> addr \<Rightarrow> string \<Rightarrow> bool"
    and fresh :: "'w \<Rightarrow> addr \<Rightarrow> string \<Rightarrow> bool" and space :: "'w \<Rightarrow> nat \<Rightarrow> bool"
    and create_cost :: "string \<Rightarrow> nat" and write_cost :: "nat \<Rightarrow> nat"
  assumes create_law: "ok w \<Longrightarrow> fresh w c p \<Longrightarrow> space w (r + create_cost p) \<Longrightarrow>
      \<exists>f w'. op_create_file ops = Some f \<and> f c p w = Some (0, w') \<and> ok w' \<and> a_file w' c p \<and> space w' r"
    and write_law: "ok w \<Longrightarrow> a_file w c p \<Longrightarrow> buf \<noteq> [] \<Longrightarrow> length buf \<le> 2 ^ 32 - 8 \<Longrightarrow> space w (write_cost (length buf)) \<Longrightarrow>
      \<exists>f w'. op_write ops = Some f \<and> f c p buf w = Some (Ret (int (length buf)), w') \<and> ok w' \<and>
        (\<forall>k. \<exists>g. op_read ops = Some g \<and> g c p k w' = Some (Ret (int (min k (length buf)), take k buf), w')) \<and>
        (\<forall>c' p'. a_file w' c' p' \<longleftrightarrow> a_file w c' p')"
begin

lemma write_read_through:
  assumes "vfs_resolve v path = Some r" "r_ops r \<noteq> 0" "tab (r_ops r) = ops" "ok w" "a_file w (r_fs_ctx r) (r_local_path r)"
    "buf \<noteq> []" "length buf \<le> 2 ^ 32 - 8" "space w (write_cost (length buf))"
  shows "\<exists>w'. vfs_write tab v path buf w = Some (Ret (int (length buf)), w') \<and> ok w' \<and> a_file w' (r_fs_ctx r) (r_local_path r) \<and>
    (\<forall>k. vfs_read tab v path k w' = Some (Ret (int (min k (length buf)), take k buf), w'))"
proof -
  from write_law [OF assms(4-8)] obtain f w' where W: "op_write ops = Some f" "f (r_fs_ctx r) (r_local_path r) buf w = Some (Ret (int (length buf)), w')"
    "ok w'" "\<forall>k. \<exists>g. op_read ops = Some g \<and> g (r_fs_ctx r) (r_local_path r) k w' = Some (Ret (int (min k (length buf)), take k buf), w')"
    "\<forall>c' p'. a_file w' c' p' \<longleftrightarrow> a_file w c' p'" by blast
  have "vfs_write tab v path buf w = Some (Ret (int (length buf)), w')"
    using assms(1-3) W(1,2) by (simp add: vfs_write_def vfs_op_def)
  moreover have "vfs_read tab v path k w' = Some (Ret (int (min k (length buf)), take k buf), w')" for k
    using assms(1-3) W(4) [rule_format, of k] by (auto simp: vfs_read_def vfs_op_def)
  ultimately show ?thesis using W(3,5) assms(5) by blast
qed

lemma create_write_read_through:
  assumes "vfs_resolve v path = Some r" "r_ops r \<noteq> 0" "tab (r_ops r) = ops" "\<not> is_exact_mount_path v path" "ok w"
    "fresh w (r_fs_ctx r) (r_local_path r)" "buf \<noteq> []" "length buf \<le> 2 ^ 32 - 8"
    "space w (write_cost (length buf) + create_cost (r_local_path r))"
  shows "\<exists>w1 w2. vfs_create_file tab v path w = Some (0, w1) \<and> vfs_write tab v path buf w1 = Some (Ret (int (length buf)), w2) \<and>
    ok w2 \<and> (\<forall>k. vfs_read tab v path k w2 = Some (Ret (int (min k (length buf)), take k buf), w2))"
proof -
  from create_law [OF assms(5,6,9)] obtain f w1 where C: "op_create_file ops = Some f" "f (r_fs_ctx r) (r_local_path r) w = Some (0, w1)"
    "ok w1" "a_file w1 (r_fs_ctx r) (r_local_path r)" "space w1 (write_cost (length buf))" by blast
  have "vfs_create_file tab v path w = Some (0, w1)" using assms(1-4) C(1,2) by (simp add: vfs_create_file_def vfs_op_def)
  with write_read_through [where tab = tab, OF assms(1-3) C(3,4) assms(7,8) C(5)] show ?thesis by blast
qed

end

subsection \<open>The in-memory file system keeps it\<close>

definition mem_file :: "fstate \<Rightarrow> addr \<Rightarrow> string \<Rightarrow> bool" where
  "mem_file s fs p \<longleftrightarrow> (\<exists>node owner i. lookup_path_ex s fs p = Some (node, owner) \<and> inodes s node = Some i \<and> i_type i = MEMFS_TYPE_FILE)"

text \<open>The directory of the path exists and has no entry of that name.\<close>

definition mem_fresh :: "fstate \<Rightarrow> addr \<Rightarrow> string \<Rightarrow> bool" where
  "mem_fresh s fs p \<longleftrightarrow> absolute p \<and> length p \<le> 255 \<and> last_part p \<noteq> [] \<and>
     (\<exists>m par g. memfss s fs = Some m \<and> walk_path s fs (m_root m) (path_skip (dir_part p)) = Some (par, g) \<and>
        is_dir s par = Some True \<and> lookup_dentry s par (last_part p) = Some 0)"

lemma named_same_tree:
  assumes "same_tree s s'" "named s"
  shows "named s'"
proof -
  have d: "dentries s' = dentries s" using assms(1) by (simp add: same_tree_def)
  have "entries_at s' a = entries_at s a" for a by (rule same_tree_entries [OF assms(1)])
  then show ?thesis using assms(2) by (simp add: named_def dname_def [abs_def] d)
qed

lemma mem_file_same_tree:
  assumes "same_tree s s'"
  shows "mem_file s' c p \<longleftrightarrow> mem_file s c p"
proof -
  have "map_option i_type (inodes s' a) = map_option i_type (inodes s a)" for a
    using arg_cong [OF same_treeD(3) [OF assms, of a], of "map_option fst"] by (simp add: option.map_comp comp_def shape_def)
  then have "(\<exists>i. inodes s' a = Some i \<and> i_type i = MEMFS_TYPE_FILE) \<longleftrightarrow> (\<exists>i. inodes s a = Some i \<and> i_type i = MEMFS_TYPE_FILE)" for a
    using map_option_eq_Some [of i_type "inodes s' a" MEMFS_TYPE_FILE] map_option_eq_Some [of i_type "inodes s a" MEMFS_TYPE_FILE] by metis
  then show ?thesis unfolding mem_file_def using lookup_path_ex_cong [OF assms] by metis
qed

interpretation mem_files: byte_files g_memfs_vfs_ops "\<lambda>s. memfs_ok s \<and> named s" mem_file mem_fresh
  "\<lambda>s n. room (fs_mm s) n" "\<lambda>p. 700 * (length p + 1)" "\<lambda>n. align_size n + 36"
proof (unfold_locales, goal_cases)
  case (1 w c p r)
  from 1(2) obtain m par g where F: "absolute p" "length p \<le> 255" "last_part p \<noteq> []" "memfss w c = Some m"
    "walk_path w c (m_root m) (path_skip (dir_part p)) = Some (par, g)" "is_dir w par = Some True" "lookup_dentry w par (last_part p) = Some 0"
    by (auto simp: mem_fresh_def)
  have fs: "c \<in> dom (memfss w)" using F(4) by auto
  have b: "new_body (File_body 0 0)" "body_fits MEMFS_TYPE_FILE (File_body 0 0)" by (simp_all add: is_storage_node_def)
  from create_node_ok [OF conjunct1 [OF 1(1)] conjunct2 [OF 1(1)] fs F(1-3), of "\<lambda>p. File_body 0 0" MEMFS_TYPE_FILE r, OF b 1(3)]
  obtain a s' where C: "memfs_create_file c p w = Some (a, s')" "memfs_ok s'" "named s'" "room (fs_mm s') r"
    "a \<noteq> 0 \<longrightarrow> lookup_path s' c p = Some a \<and> map_option i_type (inodes s' a) = Some MEMFS_TYPE_FILE" "a \<noteq> 0"
    using F(4-7) unfolding memfs_create_file_def by blast
  have "mem_file s' c p" using C(5,6) by (auto simp: mem_file_def lookup_path_def)
  then show ?case using C by (simp add: g_memfs_vfs_ops_def memfs_create_file_op_def made_def)
next
  case (2 w c p buf)
  from 2(2) obtain node owner i where L: "lookup_path_ex w c p = Some (node, owner)" "inodes w node = Some i" "i_type i = MEMFS_TYPE_FILE"
    by (auto simp: mem_file_def)
  have ne: "0 < length buf" using 2(3) by simp
  from write_file [OF conjunct1 [OF 2(1)] L ne 2(4,5)] obtain s' where W: "memfs_write c p buf w = Some (Ret (int (length buf)), s')" "memfs_ok s'"
    "same_tree w s'" "contents s' node = buf" by blast
  obtain j where j: "inodes s' node = Some j" "i_type j = MEMFS_TYPE_FILE"
    using same_treeD(3) [OF W(3), of node] L(2,3) by (auto simp: shape_def)
  have "lookup_path_ex s' c p = Some (node, owner)" using lookup_path_ex_cong [OF W(3)] L(1) by simp
  from read_file [OF W(2) this j] W(4) have "memfs_read c p k s' = Some (Ret (int (min k (length buf)), take k buf), s')" for k by auto
  then show ?case using W(1,2) named_same_tree [OF W(3)] 2(1) mem_file_same_tree [OF W(3)]
    by (auto simp: g_memfs_vfs_ops_def memfs_write_op_def memfs_read_op_def)
qed

subsection \<open>A file through the VFS\<close>

text \<open>C19: over a path that resolves to an in-memory file system in order, where the directory exists and the name is
  new, \<^verbatim>\<open>vfs_create_file\<close> and then \<^verbatim>\<open>vfs_write\<close> succeed and \<^verbatim>\<open>vfs_read\<close> returns the bytes
  written, through path resolution, the table of operations, the directory tree and the heap.\<close>

theorem vfs_memfs_create_write_read:
  assumes "vfs_resolve v path = Some r" "r_ops r \<noteq> 0" "tab (r_ops r) = g_memfs_vfs_ops" "\<not> is_exact_mount_path v path"
    "memfs_ok s" "named s" "mem_fresh s (r_fs_ctx r) (r_local_path r)" "buf \<noteq> []" "length buf \<le> 2 ^ 32 - 8"
    "room (fs_mm s) (align_size (length buf) + 36 + 700 * (length (r_local_path r) + 1))"
  shows "\<exists>s1 s2. vfs_create_file tab v path s = Some (0, s1) \<and> vfs_write tab v path buf s1 = Some (Ret (int (length buf)), s2) \<and>
    memfs_ok s2 \<and> named s2 \<and> (\<forall>k. vfs_read tab v path k s2 = Some (Ret (int (min k (length buf)), take k buf), s2))"
  using mem_files.create_write_read_through [where tab = tab, OF assms(1-4) _ assms(7-10)] assms(5,6) by blast

definition root_vfs :: vfs where
  "root_vfs = \<lparr>root_fs = demo_fs, root_ops = 8192, root_source = ''memfs'', fs_drivers = [\<lparr>fd_name = ''memfs'', fd_ops = 8192\<rparr>], mounts = []\<rparr>"

theorem vfs_memfs_create_write_read_witness:
  "\<exists>s1 s2. vfs_create_file (\<lambda>_. g_memfs_vfs_ops) root_vfs ''/a'' (snd demo_root) = Some (0, s1) \<and>
    vfs_write (\<lambda>_. g_memfs_vfs_ops) root_vfs ''/a'' ''hello'' s1 = Some (Ret 5, s2) \<and>
    vfs_read (\<lambda>_. g_memfs_vfs_ops) root_vfs ''/a'' 4 s2 = Some (Ret (4, ''hell''), s2)"
proof -
  let ?r = "\<lparr>r_fs_ctx = demo_fs, r_ops = 8192, r_local_path = ''/a''\<rparr>" and ?tab = "\<lambda>_ :: addr. g_memfs_vfs_ops"
  obtain m where R: "memfs_ok (snd demo_root)" "named (snd demo_root)" "memfss (snd demo_root) demo_fs = Some m"
    "is_dir (snd demo_root) (m_root m) = Some True" "entries_at (snd demo_root) (m_root m) = []" "room (fs_mm (snd demo_root)) 0xFFFDF8"
    by (rule demo_root_facts)
  have "demo_fs \<noteq> 0" using R(3) no_null [OF memfs_okD(3) [OF R(1)]] by (cases "demo_fs = 0") auto
  then have r: "vfs_resolve root_vfs ''/a'' = Some ?r" by (simp add: vfs_resolve_def root_vfs_def is_valid_abs_path_def)
  have o: "r_ops ?r \<noteq> 0" "?tab (r_ops ?r) = g_memfs_vfs_ops" by simp_all
  have m: "\<not> is_exact_mount_path root_vfs ''/a''"
    by (simp add: is_exact_mount_path_def root_vfs_def normalize_mount_path_def is_valid_abs_path_def)
  have "lookup_dentry (snd demo_root) (m_root m) (last_part ''/a'') = Some 0"
    using lookup_dentry_named(1) [OF R(1,2,4)] R(5) by simp
  then have f: "mem_fresh (snd demo_root) (r_fs_ctx ?r) (r_local_path ?r)"
    using R(3,4) by (auto simp: mem_fresh_def demo_path walk_path.simps)
  have b: "''hello'' \<noteq> []" "length ''hello'' \<le> 2 ^ 32 - 8" by simp_all
  have sp: "room (fs_mm (snd demo_root)) (align_size (length ''hello'') + 36 + 700 * (length (r_local_path ?r) + 1))"
    by (rule room_mono [OF R(6)]) (simp add: align_size_eq)
  from vfs_memfs_create_write_read [where tab = ?tab, OF r o m R(1,2) f b sp] obtain s1 s2 where
    "vfs_create_file ?tab root_vfs ''/a'' (snd demo_root) = Some (0, s1)"
    "vfs_write ?tab root_vfs ''/a'' ''hello'' s1 = Some (Ret (int (length ''hello'')), s2)"
    "vfs_read ?tab root_vfs ''/a'' 4 s2 = Some (Ret (int (min 4 (length ''hello'')), take 4 ''hello''), s2)" by blast
  then show ?thesis by auto
qed

end
