(* ===== verification/Devfs.thy ===== *)
theory Devfs
  imports Memfs_Vfs
begin

section \<open>The device file system\<close>

text \<open>
  Model of \<^verbatim>\<open>src/kernel/drivers/filesystem/devfs.c\<close>: a \<^verbatim>\<open>devfs_t\<close> holds the address of a \<^verbatim>\<open>memfs\<close>, and
  every operation passes its path on to it.  The state is that of the in-memory file systems with
  the \<^verbatim>\<open>devfs_t\<close> objects by their address.  The last part shows that a registered device is what the
  VFS reaches, and that \<open>devfs\<close> keeps the contract of regular files because \<open>memfs\<close> does.
\<close>

record dstate =
  ds_files :: fstate
  devfss :: "addr \<Rightarrow> addr option"

text \<open>The checks \<^verbatim>\<open>!d\<close> and \<^verbatim>\<open>!d->fs\<close> at the start of every operation.\<close>

definition on_devfs :: "addr \<Rightarrow> 'r \<Rightarrow> (addr \<Rightarrow> fstate \<Rightarrow> ('r \<times> fstate) option) \<Rightarrow> dstate \<Rightarrow> ('r \<times> dstate) option" where
  "on_devfs d failed f w =
     (if d = 0 then Some (failed, w)
      else do {
        fs \<leftarrow> devfss w d;
        if fs = 0 then Some (failed, w)
        else do { (r, s) \<leftarrow> f fs (ds_files w); Some (r, w\<lparr>ds_files := s\<rparr>) } })"

definition devfs_init :: "addr \<Rightarrow> nat \<Rightarrow> dstate \<Rightarrow> (int \<times> dstate) option" where
  "devfs_init d mem_size w =
     (if d = 0 then Some (-1, w)
      else do {
        (fs, s) \<leftarrow> memfs_create mem_size (ds_files w);
        Some (if fs \<noteq> 0 then 0 else -1, w\<lparr>ds_files := s, devfss := (devfss w)(d \<mapsto> fs)\<rparr>) })"

definition devfs_create_dir :: "addr \<Rightarrow> string \<Rightarrow> dstate \<Rightarrow> (int \<times> dstate) option" where
  "devfs_create_dir d path = on_devfs d (-1) (\<lambda>fs s. if \<not> absolute path then Some (-1, s) else made (memfs_create_dir fs path s))"

definition devfs_create_device_ops ::
    "addr \<Rightarrow> string \<Rightarrow> u32 \<Rightarrow> addr \<Rightarrow> addr \<Rightarrow> addr \<Rightarrow> addr \<Rightarrow> dstate \<Rightarrow> (int \<times> dstate) option" where
  "devfs_create_device_ops d path flags read_cb write_cb ioctl_cb ctx =
     on_devfs d (-1) (\<lambda>fs s. if \<not> absolute path then Some (-1, s)
       else made (memfs_create_device_ops fs path flags read_cb write_cb ioctl_cb ctx s))"

definition devfs_open_op :: "addr \<Rightarrow> string \<Rightarrow> dstate \<Rightarrow> (int \<times> dstate) option" where
  "devfs_open_op d path = on_devfs d (-1) (\<lambda>fs s. map_option (\<lambda>r. (r, s)) (memfs_open fs path s))"

definition devfs_close_op :: "addr \<Rightarrow> int \<Rightarrow> dstate \<Rightarrow> (int \<times> dstate) option" where
  "devfs_close_op d fd w = Some (memfs_close fd, w)"

definition devfs_read_op :: "addr \<Rightarrow> string \<Rightarrow> nat \<Rightarrow> dstate \<Rightarrow> ((int \<times> byte list) io \<times> dstate) option" where
  "devfs_read_op d path sz = on_devfs d (Ret (-1, [])) (\<lambda>fs. memfs_read fs path sz)"

definition devfs_write_op :: "addr \<Rightarrow> string \<Rightarrow> byte list \<Rightarrow> dstate \<Rightarrow> (int io \<times> dstate) option" where
  "devfs_write_op d path buf = on_devfs d (Ret (-1)) (\<lambda>fs. memfs_write fs path buf)"

definition devfs_append_op :: "addr \<Rightarrow> string \<Rightarrow> byte list \<Rightarrow> dstate \<Rightarrow> (int io \<times> dstate) option" where
  "devfs_append_op d path buf = on_devfs d (Ret (-1)) (\<lambda>fs s. map_option (\<lambda>(r, s1). (Ret r, s1)) (memfs_append fs path buf s))"

definition devfs_ioctl_op :: "addr \<Rightarrow> string \<Rightarrow> nat \<Rightarrow> addr \<Rightarrow> dstate \<Rightarrow> (int io \<times> dstate) option" where
  "devfs_ioctl_op d path request arg = on_devfs d (Ret (-1)) (\<lambda>fs s. map_option (\<lambda>r. (r, s)) (memfs_ioctl fs path s))"

definition devfs_mkdir_op :: "addr \<Rightarrow> string \<Rightarrow> dstate \<Rightarrow> (int \<times> dstate) option" where
  "devfs_mkdir_op d path = on_devfs d (-1) (\<lambda>fs s. made (memfs_create_dir fs path s))"

definition devfs_create_file_op :: "addr \<Rightarrow> string \<Rightarrow> dstate \<Rightarrow> (int \<times> dstate) option" where
  "devfs_create_file_op d path = on_devfs d (-1) (\<lambda>fs s. made (memfs_create_file fs path s))"

definition devfs_link_op :: "addr \<Rightarrow> string \<Rightarrow> string \<Rightarrow> dstate \<Rightarrow> (int \<times> dstate) option" where
  "devfs_link_op d oldpath newpath = on_devfs d (-1) (\<lambda>fs. memfs_link fs oldpath newpath)"

definition devfs_unlink_op :: "addr \<Rightarrow> string \<Rightarrow> dstate \<Rightarrow> (int \<times> dstate) option" where
  "devfs_unlink_op d path = on_devfs d (-1) (\<lambda>fs. memfs_delete_file fs path)"

definition devfs_rmdir_op :: "addr \<Rightarrow> string \<Rightarrow> dstate \<Rightarrow> (int \<times> dstate) option" where
  "devfs_rmdir_op d path = on_devfs d (-1) (\<lambda>fs. memfs_delete_dir fs path)"

definition devfs_mkfifo_op :: "addr \<Rightarrow> string \<Rightarrow> dstate \<Rightarrow> (int \<times> dstate) option" where
  "devfs_mkfifo_op d path = on_devfs d (-1) (\<lambda>fs s. made (memfs_create_fifo fs path s))"

definition devfs_mksock_op :: "addr \<Rightarrow> string \<Rightarrow> dstate \<Rightarrow> (int \<times> dstate) option" where
  "devfs_mksock_op d path = on_devfs d (-1) (\<lambda>fs s. made (memfs_create_socket fs path s))"

definition devfs_list_op :: "addr \<Rightarrow> string \<Rightarrow> nat \<Rightarrow> dstate \<Rightarrow> ((int \<times> string) \<times> dstate) option" where
  "devfs_list_op d path out_size = on_devfs d (-1, []) (\<lambda>fs s. map_option (\<lambda>r. (r, s)) (memfs_ls_into fs path out_size s))"

definition devfs_get_info_op :: "addr \<Rightarrow> string \<Rightarrow> dstate \<Rightarrow> (vfs_info option \<times> dstate) option" where
  "devfs_get_info_op d path = on_devfs d None (\<lambda>fs s. map_option (\<lambda>r. (map_option (\<lambda>i. \<lparr>vi_type = vfs_type (i_type i),
     vi_mode = unat (i_mode i), vi_uid = unat (i_uid i), vi_gid = unat (i_gid i), vi_size = first_word (i_body i)\<rparr>) r, s))
     (memfs_get_info fs path s))"

definition g_devfs_vfs_ops :: "dstate vfs_ops" where
  "g_devfs_vfs_ops = \<lparr>op_open = Some devfs_open_op, op_close = Some devfs_close_op, op_read = Some devfs_read_op,
     op_write = Some devfs_write_op, op_append = Some devfs_append_op, op_ioctl = Some devfs_ioctl_op,
     op_mkdir = Some devfs_mkdir_op, op_create_file = Some devfs_create_file_op, op_link = Some devfs_link_op,
     op_unlink = Some devfs_unlink_op, op_rmdir = Some devfs_rmdir_op, op_mkfifo = Some devfs_mkfifo_op,
     op_mksock = Some devfs_mksock_op, op_list = Some devfs_list_op, op_get_info = Some devfs_get_info_op\<rparr>"

subsection \<open>Regular files on devfs\<close>

text \<open>Where the object is there, its operations are those of the file system it points to.\<close>

definition devfs_at :: "dstate \<Rightarrow> addr \<Rightarrow> addr \<Rightarrow> bool" where
  "devfs_at w d fs \<longleftrightarrow> d \<noteq> 0 \<and> devfss w d = Some fs \<and> fs \<noteq> 0"

lemma on_devfs_at:
  "devfs_at w d fs \<Longrightarrow> on_devfs d failed f w = map_option (\<lambda>(r, s). (r, w\<lparr>ds_files := s\<rparr>)) (f fs (ds_files w))"
  by (cases "f fs (ds_files w)") (auto simp: on_devfs_def devfs_at_def)

lemma devfs_at_files [simp]: "devfs_at (w\<lparr>ds_files := s\<rparr>) d fs = devfs_at w d fs"
  by (simp add: devfs_at_def)

definition dev_ok :: "dstate \<Rightarrow> bool" where
  "dev_ok w \<longleftrightarrow> memfs_ok (ds_files w) \<and> named (ds_files w)"

definition dev_file :: "dstate \<Rightarrow> addr \<Rightarrow> string \<Rightarrow> bool" where
  "dev_file w d p \<longleftrightarrow> (\<exists>fs. devfs_at w d fs \<and> mem_file (ds_files w) fs p)"

definition dev_fresh :: "dstate \<Rightarrow> addr \<Rightarrow> string \<Rightarrow> bool" where
  "dev_fresh w d p \<longleftrightarrow> (\<exists>fs. devfs_at w d fs \<and> mem_fresh (ds_files w) fs p)"

interpretation dev_files: byte_files g_devfs_vfs_ops dev_ok dev_file dev_fresh
  "\<lambda>w n. room (fs_mm (ds_files w)) n" "\<lambda>p. 700 * (length p + 1)" "\<lambda>n. align_size n + 36"
proof (unfold_locales, goal_cases)
  case (1 w d p r)
  from 1(2) obtain fs where fs: "devfs_at w d fs" "mem_fresh (ds_files w) fs p" by (auto simp: dev_fresh_def)
  have ok: "memfs_ok (ds_files w) \<and> named (ds_files w)" using 1(1) by (simp add: dev_ok_def)
  from mem_files.create_law [OF ok fs(2) 1(3)] obtain s' where "made (memfs_create_file fs p (ds_files w)) = Some (0, s')"
    "memfs_ok s' \<and> named s'" "mem_file s' fs p" "room (fs_mm s') r"
    by (auto simp: g_memfs_vfs_ops_def memfs_create_file_op_def)
  then show ?case using fs(1)
    by (auto simp: g_devfs_vfs_ops_def devfs_create_file_op_def on_devfs_at [OF fs(1)] dev_ok_def dev_file_def)
next
  case (2 w d p buf)
  from 2(2) obtain fs where fs: "devfs_at w d fs" "mem_file (ds_files w) fs p" by (auto simp: dev_file_def)
  have ok: "memfs_ok (ds_files w) \<and> named (ds_files w)" using 2(1) by (simp add: dev_ok_def)
  from mem_files.write_law [OF ok fs(2) 2(3-5)] obtain s' where W: "memfs_write fs p buf (ds_files w) = Some (Ret (int (length buf)), s')"
    "memfs_ok s' \<and> named s'" "\<forall>k. memfs_read fs p k s' = Some (Ret (int (min k (length buf)), take k buf), s')"
    "\<forall>c' p'. mem_file s' c' p' \<longleftrightarrow> mem_file (ds_files w) c' p'"
    by (auto simp: g_memfs_vfs_ops_def memfs_write_op_def memfs_read_op_def)
  have at': "devfs_at (w\<lparr>ds_files := s'\<rparr>) d fs" using fs(1) by simp
  have "devfs_read_op d p k (w\<lparr>ds_files := s'\<rparr>) = Some (Ret (int (min k (length buf)), take k buf), w\<lparr>ds_files := s'\<rparr>)" for k
    using W(3) by (simp add: devfs_read_op_def on_devfs_at [OF at'])
  then show ?case using W(1,2,4)
    by (intro exI [of _ devfs_write_op] exI [of _ "w\<lparr>ds_files := s'\<rparr>"])
      (simp add: g_devfs_vfs_ops_def devfs_write_op_def on_devfs_at [OF fs(1)] dev_ok_def dev_file_def)
qed

subsection \<open>A registered device is reached through the VFS\<close>

text \<open>A new device node has the callbacks it was made with.\<close>

lemma create_device_new:
  assumes ok: "memfs_ok s" "named s" and fresh: "mem_fresh s fs path" and r: "room (fs_mm s) (r + 700 * (length path + 1))"
  obtains a i s' owner where "create_node MEMFS_TYPE_DEVICE (\<lambda>_. Device_body dv) fs path s = Some (a, s')" "a \<noteq> 0"
    "memfs_ok s'" "named s'" "extends s s'" "room (fs_mm s') r" "lookup_path_ex s' fs path = Some (a, owner)"
    "inodes s' a = Some i" "i_type i = MEMFS_TYPE_DEVICE" "i_body i = Device_body dv"
proof -
  from fresh obtain m par g where F: "absolute path" "length path \<le> 255" "last_part path \<noteq> []" "memfss s fs = Some m"
    "walk_path s fs (m_root m) (path_skip (dir_part path)) = Some (par, g)" "is_dir s par = Some True"
    "lookup_dentry s par (last_part path) = Some 0" by (auto simp: mem_fresh_def)
  have fs: "fs \<in> dom (memfss s)" using F(4) by auto
  have fs0: "fs \<noteq> 0" using F(4) no_null [OF memfs_okD(3) [OF ok(1)]] by (cases "fs = 0") auto
  have b: "new_body (Device_body dv)" "body_fits MEMFS_TYPE_DEVICE (Device_body dv)" by simp_all
  from create_node_ok [OF ok fs F(1-3), of "\<lambda>_. Device_body dv" MEMFS_TYPE_DEVICE r, OF b r] obtain a s' where
    C: "create_node MEMFS_TYPE_DEVICE (\<lambda>_. Device_body dv) fs path s = Some (a, s')" "memfs_ok s'" "named s'" "extends s s'"
      "room (fs_mm s') r" "a \<noteq> 0 \<longrightarrow> lookup_path s' fs path = Some a \<and> map_option i_type (inodes s' a) = Some MEMFS_TYPE_DEVICE"
    and a0: "a \<noteq> 0" using F(4-7) by blast
  have sl: "CHR ''/'' \<in> set path" using F(1) by (cases path) (auto simp: absolute_def)
  have "mkdir_p fs (if dir_part path = [] then ''/'' else dir_part path) s = Some (par, g, s)"
    using F(4) mkdir_walk_existing [OF F(5,6)] by (auto simp: mkdir_p_def)
  then have sp: "split_parent fs path s = Some (par, last_part path, g, s)"
    using sl parts_length [of path] F(2) by (auto simp: split_parent_def)
  have par0: "par \<noteq> 0" by (rule is_dir_nonnull [OF F(6)])
  obtain h1 n h2 s2 q where D: "valloc (fs_mm s) 56 = Some (a, h1)"
    "dir_add par a (set_inode a (new_inode MEMFS_TYPE_DEVICE n (Device_body dv)) (s\<lparr>fs_mm := h2\<rparr>)) = Some (q, s2)" "count_inode g s2 = Some s'"
    using C(1) sp F(1,7) fs0 par0 a0 by (auto simp: create_node_def split: bind_splits if_splits)
  have dev: "\<exists>i. inodes s2 a = Some i \<and> i_body i = Device_body dv"
    using D(2) by (auto simp: dir_add_def dentry_create_def add_entry_def add_link_def set_inode_def set_dentry_def new_inode_def
        split: bind_splits if_splits ibody.splits)
  have "inodes s' = inodes s2" using D(3) by (auto simp: count_inode_def set_memfs_def split: bind_splits)
  then obtain i where i: "inodes s' a = Some i" "i_body i = Device_body dv" using dev by auto
  moreover obtain owner where "lookup_path_ex s' fs path = Some (a, owner)" using C(6) a0 by (auto simp: lookup_path_def)
  ultimately show ?thesis using C a0 by (intro that [of a s' owner i]) auto
qed

lemma memfs_device_calls:
  assumes "lookup_path_ex s fs path = Some (a, owner)" "a \<noteq> 0" "inodes s a = Some i" "i_type i = MEMFS_TYPE_DEVICE" "i_body i = Device_body dv"
  shows "memfs_read fs path n s = Some (if dv_flags dv AND MEMFS_DEV_READ = 0 then Ret (-1, [])
      else if dv_read dv \<noteq> 0 then Dev_call (dv_read dv) (dv_ctx dv)
      else if dv_buffer dv = 0 then Ret (-1, [])
      else Ret (int (min n (dv_size dv)), fs_get s (dv_buffer dv) (min n (dv_size dv))), s)"
    "memfs_ioctl fs path s = Some (if dv_ioctl dv = 0 then Ret (-1) else Dev_call (dv_ioctl dv) (dv_ctx dv))"
    "dv_flags dv AND MEMFS_DEV_WRITE = 0 \<Longrightarrow> memfs_write fs path buf s = Some (Ret (-1), s)"
    "dv_flags dv AND MEMFS_DEV_WRITE \<noteq> 0 \<Longrightarrow> dv_write dv \<noteq> 0 \<Longrightarrow>
       memfs_write fs path buf s = Some (Dev_call (dv_write dv) (dv_ctx dv), s)"
  using assms by (simp_all add: memfs_read_def memfs_ioctl_def memfs_write_def lookup_path_def device_of_def Let_def)

text \<open>after \<^verbatim>\<open>devfs_create_device_ops\<close> under a new name, reading the path through the VFS calls the device's own read
  function with its context, an ioctl its ioctl function and a write its write function; where the
  flags or a null pointer do not allow it the VFS reports -1 and changes nothing; files in the
  same file system stay where they are.\<close>

theorem devfs_device_reached:
  assumes "dev_ok w" "devfs_at w d fs" "mem_fresh (ds_files w) fs p"
    "room (fs_mm (ds_files w)) (r + 700 * (length p + 1))"
    "vfs_resolve v path = Some \<lparr>r_fs_ctx = d, r_ops = t, r_local_path = p\<rparr>" "t \<noteq> 0" "tab t = g_devfs_vfs_ops"
  shows "\<exists>w'. devfs_create_device_ops d p flags rd wr io ctx w = Some (0, w') \<and> dev_ok w' \<and> room (fs_mm (ds_files w')) r \<and>
    vfs_read tab v path n w' = Some (if flags AND MEMFS_DEV_READ = 0 \<or> rd = 0 then Ret (-1, []) else Dev_call rd ctx, w') \<and>
    vfs_write tab v path buf w' = Some (if flags AND MEMFS_DEV_WRITE = 0 \<or> wr = 0 then Ret (-1) else Dev_call wr ctx, w') \<and>
    vfs_ioctl tab v path req arg w' = Some (if io = 0 then Ret (-1) else Dev_call io ctx, w') \<and>
    (\<forall>q b g. lookup_path_ex (ds_files w) fs q = Some (b, g) \<and> b \<noteq> 0 \<longrightarrow> lookup_path_ex (ds_files w') fs q = Some (b, g))"
proof -
  define dv where "dv = \<lparr>dv_buffer = 0, dv_size = 0, dv_flags = flags, dv_read = rd, dv_write = wr, dv_ioctl = io, dv_ctx = ctx\<rparr>"
  have ok: "memfs_ok (ds_files w)" "named (ds_files w)" using assms(1) by (simp_all add: dev_ok_def)
  obtain a i s' owner where C: "create_node MEMFS_TYPE_DEVICE (\<lambda>_. Device_body dv) fs p (ds_files w) = Some (a, s')" "a \<noteq> 0"
    "memfs_ok s'" "named s'" "extends (ds_files w) s'" "room (fs_mm s') r" "lookup_path_ex s' fs p = Some (a, owner)"
    "inodes s' a = Some i" "i_type i = MEMFS_TYPE_DEVICE" "i_body i = Device_body dv"
    by (rule create_device_new [OF ok assms(3,4)])
  let ?w = "w\<lparr>ds_files := s'\<rparr>"
  have at': "devfs_at ?w d fs" using assms(2) by simp
  note M = memfs_device_calls [OF C(7,2,8-10)]
  have abs: "absolute p" using assms(3) by (simp add: mem_fresh_def)
  have cr: "devfs_create_device_ops d p flags rd wr io ctx w = Some (0, ?w)"
    using C(1,2) abs by (simp add: devfs_create_device_ops_def on_devfs_at [OF assms(2)] memfs_create_device_ops_def dv_def made_def)
  have rdw: "vfs_read tab v path n ?w = Some (if flags AND MEMFS_DEV_READ = 0 \<or> rd = 0 then Ret (-1, []) else Dev_call rd ctx, ?w)"
    using assms(5-7) M(1) by (auto simp: vfs_read_def vfs_op_def g_devfs_vfs_ops_def devfs_read_op_def on_devfs_at [OF at'] dv_def)
  have "memfs_write fs p buf s' = Some (if flags AND MEMFS_DEV_WRITE = 0 \<or> wr = 0 then Ret (-1) else Dev_call wr ctx, s')"
    using C(2,7-10) by (auto simp: memfs_write_def device_of_def dv_def)
  then have wrw: "vfs_write tab v path buf ?w = Some (if flags AND MEMFS_DEV_WRITE = 0 \<or> wr = 0 then Ret (-1) else Dev_call wr ctx, ?w)"
    using assms(5-7) by (simp add: vfs_write_def vfs_op_def g_devfs_vfs_ops_def devfs_write_op_def on_devfs_at [OF at'])
  have iow: "vfs_ioctl tab v path req arg ?w = Some (if io = 0 then Ret (-1) else Dev_call io ctx, ?w)"
    using assms(5-7) M(2) by (simp add: vfs_ioctl_def vfs_op_def g_devfs_vfs_ops_def devfs_ioctl_op_def on_devfs_at [OF at'] dv_def)
  have "lookup_path_ex s' fs q = Some (b, g)" if "lookup_path_ex (ds_files w) fs q = Some (b, g)" "b \<noteq> 0" for q b g
    by (rule extends_lookup [OF C(5) that])
  then show ?thesis using cr rdw wrw iow C(3,4,6) by (intro exI [of _ ?w]) (simp add: dev_ok_def)
qed

definition demo_dev :: dstate where
  "demo_dev = \<lparr>ds_files = snd demo_root, devfss = (\<lambda>_. None)(2048 \<mapsto> demo_fs)\<rparr>"

lemma demo_dev_facts:
  shows "dev_ok demo_dev" "devfs_at demo_dev 2048 demo_fs" "mem_fresh (ds_files demo_dev) demo_fs ''/a''"
    "room (fs_mm (ds_files demo_dev)) 100000"
proof -
  obtain m where R: "memfs_ok (snd demo_root)" "named (snd demo_root)" "memfss (snd demo_root) demo_fs = Some m"
    "is_dir (snd demo_root) (m_root m) = Some True" "entries_at (snd demo_root) (m_root m) = []" "room (fs_mm (snd demo_root)) 0xFFFDF8"
    by (rule demo_root_facts)
  have fs0: "demo_fs \<noteq> 0" using R(3) no_null [OF memfs_okD(3) [OF R(1)]] by (cases "demo_fs = 0") auto
  have "lookup_dentry (snd demo_root) (m_root m) (last_part ''/a'') = Some 0"
    using lookup_dentry_named(1) [OF R(1,2,4)] R(5) by simp
  then show "mem_fresh (ds_files demo_dev) demo_fs ''/a''"
    using R(3,4) by (auto simp: demo_dev_def mem_fresh_def demo_path walk_path.simps)
  show "dev_ok demo_dev" "devfs_at demo_dev 2048 demo_fs" using R(1,2) fs0 by (simp_all add: demo_dev_def dev_ok_def devfs_at_def)
  show "room (fs_mm (ds_files demo_dev)) 100000" using room_mono [OF R(6), of 100000] by (simp add: demo_dev_def)
qed

theorem devfs_device_reached_witness:
  "\<exists>w'. devfs_create_device_ops 2048 ''/a'' MEMFS_DEV_READ 100 0 300 7 demo_dev = Some (0, w') \<and>
    vfs_read (\<lambda>_. g_devfs_vfs_ops) \<lparr>root_fs = 2048, root_ops = 16, root_source = [], fs_drivers = [], mounts = []\<rparr> ''/a'' 8 w' = Some (Dev_call 100 7, w')"
proof -
  let ?v = "\<lparr>root_fs = 2048, root_ops = 16, root_source = [], fs_drivers = [], mounts = []\<rparr>"
  have r: "vfs_resolve ?v ''/a'' = Some \<lparr>r_fs_ctx = 2048, r_ops = 16, r_local_path = ''/a''\<rparr>"
    by (simp add: vfs_resolve_def is_valid_abs_path_def)
  have rm: "room (fs_mm (ds_files demo_dev)) (0 + 700 * (length ''/a'' + 1))" by (rule room_mono [OF demo_dev_facts(4)]) simp
  have t: "(16::addr) \<noteq> 0" by simp
  from devfs_device_reached [where tab = "\<lambda>_. g_devfs_vfs_ops" and flags = MEMFS_DEV_READ and rd = 100 and wr = 0 and io = 300 and ctx = 7
      and n = 8 and buf = "[]" and req = 0 and arg = 0, OF demo_dev_facts(1-3) rm r t refl] obtain w' where
    "devfs_create_device_ops 2048 ''/a'' MEMFS_DEV_READ 100 0 300 7 demo_dev = Some (0, w')"
    "vfs_read (\<lambda>_. g_devfs_vfs_ops) ?v ''/a'' 8 w' =
      Some (if MEMFS_DEV_READ AND MEMFS_DEV_READ = 0 \<or> (100::addr) = 0 then Ret (-1, []) else Dev_call 100 7, w')" by blast
  moreover have "MEMFS_DEV_READ AND MEMFS_DEV_READ \<noteq> 0" by (simp add: MEMFS_DEV_READ_def)
  ultimately show ?thesis by auto
qed

end
