(* ===== verification/Inputdev.thy ===== *)
theory Inputdev
  imports Mouse Keyboard Serial Pty Devfs
begin

unbundle bit_operations_syntax

section \<open>The devices of the input drivers\<close>

text \<open>
  Model of \<^verbatim>\<open>src/kernel/drivers/inputdev.c\<close>, the devices of keyboard, mouse and power switch, and of \<^verbatim>\<open>pty_init\<close> in \<^verbatim>\<open>pty.c\<close>.  A
  null pointer is \<open>None\<close> or \<open>False\<close>, what is stored through the argument is part of the result, as the bytes or the fields of the
  structure.  The addresses of functions and contexts that are registered are arguments.
\<close>

definition DEV_IOCTL_KBD_GET_INFO :: nat where "DEV_IOCTL_KBD_GET_INFO = 0x1200"
definition DEV_IOCTL_KBD_GET_EVENT :: nat where "DEV_IOCTL_KBD_GET_EVENT = 0x1201"
definition DEV_IOCTL_KBD_SET_LAYOUT :: nat where "DEV_IOCTL_KBD_SET_LAYOUT = 0x1202"
definition DEV_IOCTL_MOUSE_GET_INFO :: nat where "DEV_IOCTL_MOUSE_GET_INFO = 0x1300"
definition DEV_IOCTL_POWER_REBOOT :: nat where "DEV_IOCTL_POWER_REBOOT = 0x1400"
definition DEV_IOCTL_POWER_POWEROFF :: nat where "DEV_IOCTL_POWER_POWEROFF = 0x1401"
definition DEV_IOCTL_POWER_GET_CAD_MODE :: nat where "DEV_IOCTL_POWER_GET_CAD_MODE = 0x1402"
definition DEV_IOCTL_POWER_SET_CAD_MODE :: nat where "DEV_IOCTL_POWER_SET_CAD_MODE = 0x1403"

abbreviation (input) sizeof_key_event :: nat where "sizeof_key_event \<equiv> 7"
abbreviation (input) sizeof_mouse_packet :: nat where "sizeof_mouse_packet \<equiv> 10"

subsection \<open>The keyboard\<close>

definition bool_byte :: "bool \<Rightarrow> byte" where
  "bool_byte b = (if b then CHR 0x01 else NUL)"

text \<open>The bytes of \<^verbatim>\<open>struct key_event\<close>.\<close>

definition event_bytes :: "key_event \<Rightarrow> byte list" where
  "event_bytes ev = [char_of (unat (ev_scancode ev)), ev_ascii ev, bool_byte (ev_pressed ev), bool_byte (ev_shift ev), bool_byte (ev_ctrl ev),
     bool_byte (ev_alt ev), bool_byte (ev_caps ev)]"

text \<open>Trying again after each interrupt; interrupts are off afterwards.\<close>

fun kbd_dev_wait :: "(kbd \<Rightarrow> kbd) list \<Rightarrow> kbd \<Rightarrow> (key_event \<times> kbd) option" where
  "kbd_dev_wait envs s =
     (case keyboard_try_get_event s of
        Some r \<Rightarrow> Some r
      | None \<Rightarrow> (case envs of [] \<Rightarrow> None | f # fs \<Rightarrow> kbd_dev_wait fs ((f (s\<lparr>k_if := True\<rparr>))\<lparr>k_if := False\<rparr>)))"

declare kbd_dev_wait.simps [simp del]

definition keyboard_dev_read :: "(kbd \<Rightarrow> kbd) list \<Rightarrow> bool \<Rightarrow> nat \<Rightarrow> kbd \<Rightarrow> ((int \<times> byte list) \<times> kbd) option" where
  "keyboard_dev_read envs buf sz s =
     (if \<not> buf \<or> sz < sizeof_key_event then Some ((-1, []), s)
      else map_option (\<lambda>(ev, s1). ((int sizeof_key_event, event_bytes ev), s1)) (kbd_dev_wait envs s))"

definition bool_word :: "bool \<Rightarrow> nat" where
  "bool_word b = (if b then 1 else 0)"

text \<open>The control call; what is stored are the words of \<^verbatim>\<open>dev_keyboard_info_t\<close> or the bytes of \<^verbatim>\<open>dev_keyboard_event_t\<close>, which
  has one byte more than the event.\<close>

definition keyboard_dev_ioctl :: "nat \<Rightarrow> nat option \<Rightarrow> kbd \<Rightarrow> int \<times> (nat list + byte list) \<times> kbd" where
  "keyboard_dev_ioctl request arg s =
     (if request = DEV_IOCTL_KBD_GET_INFO then
        if arg = None then (-1, Inl [], s)
        else (0, Inl [keyboard_get_layout s, bool_word (keyboard_caps_lock s), bool_word (keyboard_num_lock s), bool_word (keyboard_scroll_lock s)], s)
      else if request = DEV_IOCTL_KBD_GET_EVENT then
        if arg = None then (-1, Inl [], s)
        else (case keyboard_try_get_event s of
            None \<Rightarrow> (-1, Inl [], s)
          | Some (ev, s1) \<Rightarrow> (0, Inr (event_bytes ev @ [NUL]), s1))
      else if request = DEV_IOCTL_KBD_SET_LAYOUT then
        (case arg of None \<Rightarrow> (-1, Inl [], s) | Some idx \<Rightarrow> (0, Inl [], keyboard_set_layout idx s))
      else (-1, Inl [], s))"

subsection \<open>The mouse\<close>

text \<open>The packet as it is stored, the fields of \<^verbatim>\<open>mouse_packet_t\<close> with a hole after the buttons.\<close>

definition mouse_dev_read :: "(mouse_state \<Rightarrow> mouse_state) list \<Rightarrow> bool \<Rightarrow> nat \<Rightarrow> mouse_state \<Rightarrow> ((int \<times> mouse_packet option) \<times> mouse_state) option" where
  "mouse_dev_read envs buf sz s =
     (if \<not> buf \<or> sz < sizeof_mouse_packet then Some ((-1, None), s)
      else map_option (\<lambda>(p, s1). ((int sizeof_mouse_packet, Some p), s1)) (mouse_get_packet envs s))"

definition mouse_dev_ioctl :: "nat \<Rightarrow> bool \<Rightarrow> mouse_state \<Rightarrow> int \<times> (int \<times> int \<times> nat) option" where
  "mouse_dev_ioctl request arg s =
     (if request = DEV_IOCTL_MOUSE_GET_INFO then
        if \<not> arg then (-1, None) else (0, Some (sint (mouse_get_x s), sint (mouse_get_y s), unat (mouse_get_buttons s)))
      else (-1, None))"

subsection \<open>The power switch\<close>

definition power_dev_ioctl :: "nat \<Rightarrow> nat option \<Rightarrow> power_state \<Rightarrow> int \<times> nat option \<times> power_state" where
  "power_dev_ioctl request arg s =
     (if request = DEV_IOCTL_POWER_REBOOT then (0, None, power_reboot s)
      else if request = DEV_IOCTL_POWER_POWEROFF then (0, None, power_poweroff s)
      else if request = DEV_IOCTL_POWER_GET_CAD_MODE then
        if arg = None then (-1, None, s) else (0, Some (power_get_ctrl_alt_del_mode s), s)
      else if request = DEV_IOCTL_POWER_SET_CAD_MODE then
        (case arg of None \<Rightarrow> (-1, None, s) | Some m \<Rightarrow> (0, None, power_set_ctrl_alt_del_mode m s))
      else (-1, None, s))"

subsection \<open>Registration\<close>

record input_addrs =
  ia_keyboard_read :: addr
  ia_keyboard_ioctl :: addr
  ia_mouse_read :: addr
  ia_mouse_ioctl :: addr
  ia_power_ioctl :: addr

text \<open>A device created whatever the call answers.\<close>

definition device_made :: "addr \<Rightarrow> string \<Rightarrow> u32 \<Rightarrow> addr \<Rightarrow> addr \<Rightarrow> addr \<Rightarrow> addr \<Rightarrow> dstate \<Rightarrow> dstate option" where
  "device_made d path flags rd wr io ctx w = map_option snd (devfs_create_device_ops d path flags rd wr io ctx w)"

definition inputdev_init :: "input_addrs \<Rightarrow> addr \<Rightarrow> dstate \<Rightarrow> dstate option" where
  "inputdev_init A d w =
     (if d = 0 then Some w
      else do {
        w1 \<leftarrow> device_made d ''/keyboard'' MEMFS_DEV_READ (ia_keyboard_read A) 0 (ia_keyboard_ioctl A) 0 w;
        w2 \<leftarrow> device_made d ''/mouse'' MEMFS_DEV_READ (ia_mouse_read A) 0 (ia_mouse_ioctl A) 0 w1;
        device_made d ''/power'' 0 0 0 (ia_power_ioctl A) 0 w2 })"

record pty_addrs =
  pa_read :: addr
  pa_write :: addr
  pa_ioctl :: addr
  pa_ptmx_ioctl :: addr
  pa_master :: "nat \<Rightarrow> addr"
  pa_slave :: "nat \<Rightarrow> addr"

definition zero_ring :: pty_ring where
  "zero_ring = \<lparr>r_data = replicate PTY_RING_SIZE NUL, r_head = 0, r_tail = 0, r_count = 0\<rparr>"

definition zero_pair :: pty_pair where
  "zero_pair = \<lparr>allocated = False, master_to_slave = zero_ring, slave_to_master = zero_ring\<rparr>"

definition pty_init_pair :: "pty_addrs \<Rightarrow> addr \<Rightarrow> nat \<Rightarrow> pty_state \<times> dstate \<Rightarrow> (pty_state \<times> dstate) option" where
  "pty_init_pair A d i sw = (case sw of (s, w) \<Rightarrow> do {
     let s1 = s\<lparr>g_pairs := (g_pairs s)[i := zero_pair],
            g_master_ctx := (g_master_ctx s)[i := \<lparr>c_pair = i, c_is_master = True, c_index = i\<rparr>],
            g_slave_ctx := (g_slave_ctx s)[i := \<lparr>c_pair = i, c_is_master = False, c_index = i\<rparr>]\<rparr>;
     w1 \<leftarrow> device_made d (''/pty/'' @ [char_of (48 + i mod 10)]) (MEMFS_DEV_READ OR MEMFS_DEV_WRITE) (pa_read A) (pa_write A) (pa_ioctl A) (pa_master A i) w;
     w2 \<leftarrow> device_made d (''/pts/'' @ [char_of (48 + i mod 10)]) (MEMFS_DEV_READ OR MEMFS_DEV_WRITE) (pa_read A) (pa_write A) (pa_ioctl A) (pa_slave A i) w1;
     Some (s1, w2) })"

definition pty_init :: "pty_addrs \<Rightarrow> addr \<Rightarrow> pty_state \<Rightarrow> dstate \<Rightarrow> (pty_state \<times> dstate) option" where
  "pty_init A d s w =
     (if d = 0 then Some (s, w)
      else do {
        (r1, w1) \<leftarrow> devfs_create_dir d ''/pty'' w;
        (r2, w2) \<leftarrow> devfs_create_dir d ''/pts'' w1;
        (s3, w3) \<leftarrow> fold (\<lambda>i sw. Option.bind sw (pty_init_pair A d i)) [0..<PTY_PAIR_COUNT] (Some (s, w2));
        w4 \<leftarrow> device_made d ''/ptmx'' 0 0 0 (pa_ptmx_ioctl A) 0 w3;
        Some (s3, w4) })"

subsection \<open>Properties\<close>

text \<open>An event is read as the seven bytes that stand for it: different events give different bytes.\<close>

lemma event_bytes_inj: "event_bytes e = event_bytes e' \<Longrightarrow> e = e'"
proof -
  assume eq: "event_bytes e = event_bytes e'"
  have b: "bool_byte b = bool_byte b' \<longleftrightarrow> b = b'" for b b' by (simp add: bool_byte_def)
  have "(of_char (char_of (unat (ev_scancode e))) :: nat) = of_char (char_of (unat (ev_scancode e')))"
    using eq by (simp add: event_bytes_def)
  moreover have "unat x mod 256 = unat x" for x :: u8 using unsigned_less [where w = x and ?'a = nat] by simp
  ultimately have "ev_scancode e = ev_scancode e'" by (simp add: word_unat_eq_iff)
  then show "e = e'" using eq by (simp add: event_bytes_def b)
qed

text \<open>At the start every pair is free and its rings are in order.\<close>

lemma zero_ring_ok: "pring_ok zero_ring"
  by (simp add: pring_ok_def ring_ok_def zero_ring_def PTY_RING_SIZE_def)

lemma pty_init_ok:
  assumes "pty_init A d s w = Some (s', w')" "d \<noteq> 0" "length (g_pairs s) = PTY_PAIR_COUNT"
  shows "pty_ok s' \<and> (\<forall>p \<in> set (g_pairs s'). \<not> allocated p)"
proof -
  have step: "g_pairs s1 = (g_pairs s)[i := zero_pair]" if "pty_init_pair A d i (s, w) = Some (s1, w1)" for i s w s1 w1
    using that by (auto simp: pty_init_pair_def Let_def split: Option.bind_splits)
  have none: "fold (\<lambda>i sw. Option.bind sw (pty_init_pair A d i)) xs None = None" for xs by (induction xs) auto
  have all: "fold (\<lambda>i sw. Option.bind sw (pty_init_pair A d i)) xs (Some (s, w)) = Some (s1, w1) \<Longrightarrow>
      g_pairs s1 = fold (\<lambda>i ps. ps[i := zero_pair]) xs (g_pairs s)" for xs s w s1 w1
  proof (induction xs arbitrary: s w)
    case (Cons i xs)
    then obtain s2 w2 where p: "pty_init_pair A d i (s, w) = Some (s2, w2)" using none by (cases "pty_init_pair A d i (s, w)") auto
    show ?case using Cons.IH [of s2 w2] Cons.prems step [OF p] by (simp add: p)
  qed simp
  have "g_pairs s' = fold (\<lambda>i ps. ps[i := zero_pair]) [0..<PTY_PAIR_COUNT] (g_pairs s)"
    using assms(1,2) by (auto simp: pty_init_def split: Option.bind_splits dest!: all)
  moreover obtain a b c e where "g_pairs s = [a, b, c, e]"
    using assms(3) by (auto simp: PTY_PAIR_COUNT_def numeral_eq_Suc length_Suc_conv)
  ultimately have "g_pairs s' = [zero_pair, zero_pair, zero_pair, zero_pair]" by (simp add: PTY_PAIR_COUNT_def upt_rec)
  then show ?thesis using zero_ring_ok by (simp add: pty_ok_def PTY_PAIR_COUNT_def zero_pair_def)
qed

end
