(* ===== verification/Initramfs.thy ===== *)
theory Initramfs
  imports Memfs
begin

unbundle bit_operations_syntax

section \<open>The initial file system archive: the model\<close>

text \<open>
  Model of \<^verbatim>\<open>src/kernel/drivers/filesystem/initramfs.c\<close>: finding the cpio archive in memory, parsing
  its headers, and creating its files in an in-memory file system.  The archive is read from the
  memory of the state while the files are made.  Of the loop in \<^verbatim>\<open>initramfs_init\<close> the part that
  only reads is \<open>parse_entry\<close> and the part that creates is \<open>import_entry\<close>.  The text for the serial
  line is a result; sending it is not modelled.
\<close>

definition BOOTCFG_ADDR :: addr where "BOOTCFG_ADDR = 0x600"
definition BOOTCFG_MAGIC :: nat where "BOOTCFG_MAGIC = 0x47464348"
definition INITRAMFS_ADDR :: addr where "INITRAMFS_ADDR = 0x80000"

text \<open>The octal constants of the mode field.\<close>

definition CPIO_S_IFMT :: u32 where "CPIO_S_IFMT = 0xF000"
definition CPIO_S_ISDIR :: "u32 \<Rightarrow> bool" where "CPIO_S_ISDIR mode \<longleftrightarrow> mode AND CPIO_S_IFMT = 0x4000"
definition CPIO_S_ISREG :: "u32 \<Rightarrow> bool" where "CPIO_S_ISREG mode \<longleftrightarrow> mode AND CPIO_S_IFMT = 0x8000"
definition CPIO_S_ISLNK :: "u32 \<Rightarrow> bool" where "CPIO_S_ISLNK mode \<longleftrightarrow> mode AND CPIO_S_IFMT = 0xA000"
definition CPIO_S_ISFIFO :: "u32 \<Rightarrow> bool" where "CPIO_S_ISFIFO mode \<longleftrightarrow> mode AND CPIO_S_IFMT = 0x1000"
definition CPIO_S_ISSOCK :: "u32 \<Rightarrow> bool" where "CPIO_S_ISSOCK mode \<longleftrightarrow> mode AND CPIO_S_IFMT = 0xC000"

text \<open>The offsets of the fields in \<^verbatim>\<open>struct cpio_header\<close>.\<close>

definition off_mode :: nat where "off_mode = 14"
definition off_filesize :: nat where "off_filesize = 54"
definition off_namesize :: nat where "off_namesize = 94"
definition sizeof_cpio_header :: nat where "sizeof_cpio_header = 110"

subsection \<open>Numbers and names\<close>

definition hex_digit :: "byte \<Rightarrow> u32 option" where
  "hex_digit c = (let n = of_char c :: nat in
     if 48 \<le> n \<and> n \<le> 57 then Some (word_of_nat (n - 48))
     else if 97 \<le> n \<and> n \<le> 102 then Some (word_of_nat (n - 97 + 10))
     else if 65 \<le> n \<and> n \<le> 70 then Some (word_of_nat (n - 65 + 10))
     else None)"

definition hex_step :: "byte \<Rightarrow> u32 \<Rightarrow> u32" where
  "hex_step c r = (let r1 = push_bit 4 r in case hex_digit c of Some d \<Rightarrow> r1 OR d | None \<Rightarrow> r1)"

definition hex_str_to_uint32 :: "mem \<Rightarrow> addr \<Rightarrow> u32" where
  "hex_str_to_uint32 m a = fold hex_step (get_bytes m a 8) 0"

definition cpio_magic_ok :: "mem \<Rightarrow> addr \<Rightarrow> bool" where
  "cpio_magic_ok m a \<longleftrightarrow> a \<noteq> 0 \<and> (get_bytes m a 6 = ''070701'' \<or> get_bytes m a 6 = ''070702'')"

definition initramfs_log_hex_u32 :: "u32 \<Rightarrow> string" where
  "initramfs_log_hex_u32 v = ''0x'' @ map (\<lambda>i. ''0123456789ABCDEF'' ! unat (drop_bit (28 - i * 4) v AND 0xF)) [0..<8]"

fun dec_digits :: "nat \<Rightarrow> nat \<Rightarrow> string" where
  "dec_digits 0 v = []"
| "dec_digits (Suc k) v = (if v = 0 then [] else char_of (48 + v mod 10) # dec_digits k (v div 10))"

definition initramfs_log_dec_u32 :: "nat \<Rightarrow> string" where
  "initramfs_log_dec_u32 v = (if v = 0 then ''0'' else rev (dec_digits 11 v))"

text \<open>With \<^verbatim>\<open>max_len\<close> 256.\<close>

definition make_absolute_path :: "string \<Rightarrow> string" where
  "make_absolute_path src = (if src \<noteq> [] \<and> hd src = CHR ''/'' then take 255 src else CHR ''/'' # take 254 src)"

text \<open>The loop of \<^verbatim>\<open>clean_path\<close>: \<open>prev\<close> tells whether \<^verbatim>\<open>r\<close> is at the start of a component.  The path is
  rewritten in place behind the position that is read, so the characters read are the original ones.\<close>

fun clean_loop :: "bool \<Rightarrow> bool \<Rightarrow> string \<Rightarrow> string" where
  "clean_loop prev last_was_slash [] = []"
| "clean_loop prev last_was_slash (c # cs) =
     (if c = CHR ''/'' then if last_was_slash then clean_loop True True cs else c # clean_loop True True cs
      else if c = CHR ''.'' \<and> prev \<and> (cs = [] \<or> hd cs = CHR ''/'') then clean_loop False last_was_slash cs
      else c # clean_loop False False cs)"

definition clean_path :: "string \<Rightarrow> string" where
  "clean_path path =
     (if path = [] then []
      else let p = clean_loop True False path in
        if p = [] then ''/''
        else let p1 = (if length p > 1 \<and> last p = CHR ''/'' then butlast p else p) in
          if hd p1 \<noteq> CHR ''/'' then CHR ''/'' # p1 else p1)"

subsection \<open>Finding the archive\<close>

definition archive_candidates :: "addr list" where
  "archive_candidates = [INITRAMFS_ADDR, 0x82000, 0x50000, 0x60000, 0x70000, 0x40000, 0x80000]"

text \<open>The fields \<^verbatim>\<open>magic\<close> and \<^verbatim>\<open>initramfs_addr\<close> of the boot configuration are at offsets 0 and 28.\<close>

definition initramfs_get_archive_addr :: "mem \<Rightarrow> addr" where
  "initramfs_get_archive_addr m =
     (let from_cfg = load32 m (BOOTCFG_ADDR + 28) in
      if load32 m BOOTCFG_ADDR = BOOTCFG_MAGIC \<and> from_cfg \<noteq> 0 \<and> cpio_magic_ok m from_cfg then from_cfg
      else case find (cpio_magic_ok m) archive_candidates of Some a \<Rightarrow> a | None \<Rightarrow> INITRAMFS_ADDR)"

subsection \<open>One entry\<close>

datatype parsed = Stop | Skip addr | Entry string u32 nat addr addr

definition padding :: "nat \<Rightarrow> nat" where
  "padding n = (4 - n mod 4) mod 4"

definition parse_entry :: "mem \<Rightarrow> addr \<Rightarrow> parsed" where
  "parse_entry m cur =
     (if get_bytes m cur 6 \<noteq> ''070701'' \<and> get_bytes m cur 6 \<noteq> ''070702'' then Stop
      else let filesize = unat (hex_str_to_uint32 m (add32 cur off_filesize));
               mode = hex_str_to_uint32 m (add32 cur off_mode);
               namesize = unat (hex_str_to_uint32 m (add32 cur off_namesize)) in
        if namesize = 0 \<or> namesize > 4096 then Stop
        else let name = add32 cur sizeof_cpio_header;
                 name_buf = takeWhile ((\<noteq>) NUL) (get_bytes m name (min namesize 255)) in
          if name_buf = ''TRAILER!!!'' then Stop
          else let filedata = add32 (add32 name namesize) (padding (sizeof_cpio_header + namesize));
                   abs_path = clean_path (make_absolute_path name_buf);
                   nxt = add32 (add32 filedata filesize) (padding filesize) in
            if abs_path = ''/.'' \<or> abs_path = ''/..'' \<or> abs_path = ''/'' then Skip nxt
            else Entry abs_path mode filesize filedata nxt)"

text \<open>The number of files imported and the state; what the calls return is ignored.\<close>

definition import_entry :: "addr \<Rightarrow> string \<Rightarrow> u32 \<Rightarrow> nat \<Rightarrow> addr \<Rightarrow> fstate \<Rightarrow> (nat \<times> fstate) option" where
  "import_entry fs path mode filesize filedata s =
     (if CPIO_S_ISDIR mode then do { (_, s1) \<leftarrow> memfs_create_dir fs path s; Some (1, s1) }
      else if CPIO_S_ISFIFO mode then do { (_, s1) \<leftarrow> memfs_create_fifo fs path s; Some (1, s1) }
      else if CPIO_S_ISSOCK mode then do { (_, s1) \<leftarrow> memfs_create_socket fs path s; Some (1, s1) }
      else if CPIO_S_ISREG mode then do {
        (_, s1) \<leftarrow> memfs_create_file fs path s;
        if filesize > 0 then do { (_, s2) \<leftarrow> memfs_write fs path (fs_get s1 filedata filesize) s1; Some (1, s2) }
        else Some (1, s1) }
      else if CPIO_S_ISLNK mode then
        if filesize < 255 then do {
          let link_target = takeWhile ((\<noteq>) NUL) (fs_get s filedata filesize);
          (_, s1) \<leftarrow> memfs_create_file fs path s;
          (_, s2) \<leftarrow> memfs_write fs path link_target s1;
          Some (1, s2) }
        else Some (0, s)
      else Some (0, s))"

partial_function (option) import_loop :: "addr \<Rightarrow> addr \<Rightarrow> nat \<Rightarrow> fstate \<Rightarrow> (nat \<times> fstate) option" where
  "import_loop fs cur imported s =
     (case parse_entry (mm_mem (fs_mm s)) cur of
        Stop \<Rightarrow> Some (imported, s)
      | Skip nxt \<Rightarrow> import_loop fs nxt imported s
      | Entry path mode filesize filedata nxt \<Rightarrow>
          (case import_entry fs path mode filesize filedata s of
             None \<Rightarrow> None
           | Some (k, s1) \<Rightarrow> import_loop fs nxt (add32 imported k) s1))"

definition initramfs_init :: "addr \<Rightarrow> fstate \<Rightarrow> (string \<times> fstate) option" where
  "initramfs_init fs s =
     (let archive = initramfs_get_archive_addr (mm_mem (fs_mm s));
          text1 = ''initramfs: addr='' @ initramfs_log_hex_u32 (word_of_nat archive) @ '' magic='' @ fs_get s archive 6 @ [CHR 0x0A] in
      case import_loop fs archive 0 s of
        None \<Rightarrow> None
      | Some (imported, s1) \<Rightarrow> Some (text1 @ ''initramfs: imported='' @ initramfs_log_dec_u32 imported @ [CHR 0x0A], s1))"

end
