(* ===== verification/Byte_Lists.thy ===== *)
theory Byte_Lists
  imports Memfs_Ok
begin

section \<open>Lists of bytes in memory\<close>

text \<open>
  A list of bytes that lies at an address, its pieces, and numbers stored with their lowest byte
  first: what the readers of archives and programs share.
\<close>

definition bytes_at :: "mem \<Rightarrow> addr \<Rightarrow> byte list \<Rightarrow> bool" where
  "bytes_at m a xs \<longleftrightarrow> get_bytes m a (length xs) = xs"

lemma bytes_at_append: "bytes_at m a (xs @ ys) \<longleftrightarrow> bytes_at m a xs \<and> bytes_at m (a + length xs) ys"
  by (simp add: bytes_at_def get_bytes_split)

lemma bytes_atD: "bytes_at m a xs \<Longrightarrow> length xs = n \<Longrightarrow> get_bytes m a n = xs"
  by (simp add: bytes_at_def)

subsection \<open>Little-endian numbers\<close>

definition le16 :: "nat \<Rightarrow> byte list" where
  "le16 v = [char_of v, char_of (v div 256)]"

definition le32 :: "nat \<Rightarrow> byte list" where
  "le32 v = [char_of v, char_of (v div 256), char_of (v div 65536), char_of (v div 16777216)]"

lemma le_length [simp]: "length (le16 v) = 2" "length (le32 v) = 4"
  by (simp_all add: le16_def le32_def)

lemma bytes_at_nth: "bytes_at m a xs \<longleftrightarrow> (\<forall>i < length xs. m (a + i) = xs ! i)"
proof -
  have "bytes_at m a xs \<longleftrightarrow> (\<forall>i < length xs. map (\<lambda>k. m (a + k)) [0..<length xs] ! i = xs ! i)"
    unfolding bytes_at_def get_bytes_def by (subst list_eq_iff_nth_eq) simp
  then show ?thesis by simp
qed

lemma load32_le32:
  assumes "bytes_at m a (le32 v)" "v < 2 ^ 32"
  shows "load32 m a = v"
proof -
  have nth: "m (a + i) = le32 v ! i" if "i < 4" for i
    using assms(1) that by (simp add: bytes_at_nth)
  have "m (a + i) = store32 m a v (a + i)" if "i < 4" for i
  proof -
    have "i = 0 \<or> i = 1 \<or> i = 2 \<or> i = 3" using that by linarith
    then show ?thesis using nth [OF that] by (auto simp: store32_def le32_def)
  qed
  then have "load32 m a = load32 (store32 m a v) a" by (intro load32_cong) simp
  then show ?thesis using assms(2) by (simp add: mem_simps)
qed

end
