(* ===== verification/Initramfs_Props.thy ===== *)
theory Initramfs_Props
  imports Initramfs Byte_Lists
begin

unbundle bit_operations_syntax

section \<open>Reading the initial archive\<close>

text \<open>
  An archive written in the \<^verbatim>\<open>newc\<close> format is read back entry by entry, and the import loop ends
  after its last entry; a header whose sizes add up to \<open>2^32\<close> makes the loop run for ever.
\<close>

subsection \<open>Hexadecimal fields\<close>

definition hex_char :: "nat \<Rightarrow> byte" where
  "hex_char d = ''0123456789ABCDEF'' ! d"

text \<open>The last \<open>k\<close> hexadecimal digits of a number.\<close>

fun hex_text :: "nat \<Rightarrow> nat \<Rightarrow> string" where
  "hex_text 0 n = []"
| "hex_text (Suc k) n = hex_text k (n div 16) @ [hex_char (n mod 16)]"

lemma hex_text_length [simp]: "length (hex_text k n) = k"
  by (induction k arbitrary: n) simp_all

lemma hex_digit_char:
  assumes "d < 16"
  shows "hex_digit (hex_char d) = Some (word_of_nat d)"
proof -
  have "\<forall>d \<in> set [0..<16]. hex_digit (hex_char d) = Some (word_of_nat d)"
    by (simp add: upt_rec hex_char_def hex_digit_def)
  then show ?thesis using assms by simp
qed

lemma push_4_or:
  assumes "d < 16"
  shows "push_bit 4 r OR (word_of_nat d :: u32) = r * 16 + word_of_nat d"
proof -
  have t: "word_of_nat d = take_bit 4 (word_of_nat d :: u32)"
    using assms by (simp add: of_nat_take_bit [symmetric] take_bit_nat_eq_self)
  have "push_bit 4 r AND (word_of_nat d :: u32) = 0"
    by (subst t, rule bit_eqI) (auto simp: bit_and_iff bit_push_bit_iff bit_take_bit_iff)
  then have "push_bit 4 r + word_of_nat d = push_bit 4 r OR (word_of_nat d :: u32)" by (rule disjunctive_add_eq_or)
  then show ?thesis by (simp add: push_bit_eq_mult mult.commute)
qed

lemma hex_fold: "fold hex_step (hex_text k n) 0 = word_of_nat (n mod 16 ^ k)"
proof (induction k arbitrary: n)
  case (Suc k)
  have "n mod 16 ^ Suc k = 16 * (n div 16 mod 16 ^ k) + n mod 16" by (simp add: mod_mult2_eq)
  then have "(word_of_nat (n mod 16 ^ Suc k) :: u32) = word_of_nat (n div 16 mod 16 ^ k) * 16 + word_of_nat (n mod 16)"
    by (simp add: mult.commute)
  then show ?case
    using Suc by (simp add: hex_step_def hex_digit_char push_4_or Let_def)
qed simp

lemma hex_str_text:
  assumes "bytes_at m a (hex_text 8 n)" "n < 2 ^ 32"
  shows "hex_str_to_uint32 m a = word_of_nat n"
proof -
  have "get_bytes m a 8 = hex_text 8 n" by (rule bytes_atD [OF assms(1)]) simp
  moreover have "n mod 16 ^ 8 = n" using assms(2) by simp
  ultimately show ?thesis using hex_fold [of 8 n] by (simp add: hex_str_to_uint32_def)
qed

subsection \<open>An archive as it is written\<close>

text \<open>The fields that are not read are arbitrary text of their widths.\<close>

record cpio_entry =
  ce_ino :: string
  ce_mode :: u32
  ce_owner :: string
  ce_data :: "byte list"
  ce_devs :: string
  ce_name :: string
  ce_check :: string

definition ce_namesize :: "cpio_entry \<Rightarrow> nat" where "ce_namesize e = length (ce_name e) + 1"

definition entry_bytes :: "cpio_entry \<Rightarrow> byte list" where
  "entry_bytes e = ''070701'' @ ce_ino e @ hex_text 8 (unat (ce_mode e)) @ ce_owner e @ hex_text 8 (length (ce_data e)) @ ce_devs e @
     hex_text 8 (ce_namesize e) @ ce_check e @ ce_name e @ [NUL] @ replicate (padding (110 + ce_namesize e)) NUL @ ce_data e @
     replicate (padding (length (ce_data e))) NUL"

definition cpio_ok :: "cpio_entry \<Rightarrow> bool" where
  "cpio_ok e \<longleftrightarrow> length (ce_ino e) = 8 \<and> length (ce_owner e) = 32 \<and> length (ce_devs e) = 32 \<and> length (ce_check e) = 8 \<and>
     NUL \<notin> set (ce_name e) \<and> length (ce_name e) < 255 \<and> length (ce_data e) < 2 ^ 32"

lemma entry_bytes_length:
  assumes "cpio_ok e"
  shows "length (entry_bytes e) = 110 + ce_namesize e + padding (110 + ce_namesize e) + length (ce_data e) + padding (length (ce_data e))"
  using assms by (simp add: entry_bytes_def cpio_ok_def ce_namesize_def)

lemma entry_fields:
  assumes "cpio_ok e" "bytes_at m a (entry_bytes e)"
  shows "get_bytes m a 6 = ''070701''" "bytes_at m (a + 14) (hex_text 8 (unat (ce_mode e)))"
    "bytes_at m (a + 54) (hex_text 8 (length (ce_data e)))" "bytes_at m (a + 94) (hex_text 8 (ce_namesize e))"
    "bytes_at m (a + 110) (ce_name e @ [NUL])"
    "bytes_at m (a + (110 + ce_namesize e + padding (110 + ce_namesize e))) (ce_data e)"
proof -
  have len: "length (ce_ino e) = 8" "length (ce_owner e) = 32" "length (ce_devs e) = 32" "length (ce_check e) = 8"
    using assms(1) by (simp_all add: cpio_ok_def)
  have B: "bytes_at m a ''070701''" "bytes_at m (a + 14) (hex_text 8 (unat (ce_mode e)))"
    "bytes_at m (a + 54) (hex_text 8 (length (ce_data e)))" "bytes_at m (a + 94) (hex_text 8 (ce_namesize e))"
    "bytes_at m (a + 110) (ce_name e)" "bytes_at m (a + 110 + length (ce_name e)) [NUL]"
    "bytes_at m (a + 110 + length (ce_name e) + 1 + padding (110 + ce_namesize e)) (ce_data e)"
    using assms(2) unfolding entry_bytes_def bytes_at_append by (simp_all add: len add.commute add.left_commute)
  show "get_bytes m a 6 = ''070701''" by (rule bytes_atD [OF B(1)]) simp
  show "bytes_at m (a + 110) (ce_name e @ [NUL])" using B(5,6) unfolding bytes_at_append by simp
  show "bytes_at m (a + (110 + ce_namesize e + padding (110 + ce_namesize e))) (ce_data e)"
    using B(7) by (simp add: ce_namesize_def add.assoc add.left_commute [of a])
  show "bytes_at m (a + 14) (hex_text 8 (unat (ce_mode e)))" "bytes_at m (a + 54) (hex_text 8 (length (ce_data e)))"
    "bytes_at m (a + 94) (hex_text 8 (ce_namesize e))" by (rule B)+
qed

definition entry_path :: "cpio_entry \<Rightarrow> string" where
  "entry_path e = clean_path (make_absolute_path (ce_name e))"

definition entry_data_at :: "addr \<Rightarrow> cpio_entry \<Rightarrow> addr" where
  "entry_data_at a e = a + (110 + ce_namesize e + padding (110 + ce_namesize e))"

lemma padding_less: "padding n < 4"
  by (simp add: padding_def)

lemma parse_entry_bytes:
  assumes ok: "cpio_ok e" and b: "bytes_at m a (entry_bytes e)" and top: "a + length (entry_bytes e) < 2 ^ 32"
    and name: "ce_name e \<noteq> ''TRAILER!!!''"
  shows "parse_entry m a =
    (if entry_path e = ''/.'' \<or> entry_path e = ''/..'' \<or> entry_path e = ''/'' then Skip (a + length (entry_bytes e))
     else Entry (entry_path e) (ce_mode e) (length (ce_data e)) (entry_data_at a e) (a + length (entry_bytes e)))"
    "get_bytes m (entry_data_at a e) (length (ce_data e)) = ce_data e"
proof -
  note F = entry_fields [OF ok b] and L = entry_bytes_length [OF ok]
  have ns: "ce_namesize e \<noteq> 0" "\<not> ce_namesize e > 4096" "ce_namesize e < 2 ^ 32" "ce_namesize e \<le> 255"
    and ds: "length (ce_data e) < 2 ^ 32" and nn: "NUL \<notin> set (ce_name e)"
    using ok by (simp_all add: cpio_ok_def ce_namesize_def)
  have off: "add32 a 54 = a + 54" "add32 a 14 = a + 14" "add32 a 94 = a + 94" "add32 a 110 = a + 110"
    "add32 (add32 (a + 110) (ce_namesize e)) (padding (110 + ce_namesize e)) = entry_data_at a e"
    "add32 (add32 (entry_data_at a e) (length (ce_data e))) (padding (length (ce_data e))) = a + length (entry_bytes e)"
    using top L by (simp_all add: add32_def entry_data_at_def)
  have "hex_str_to_uint32 m (a + 54) = word_of_nat (length (ce_data e))" by (rule hex_str_text [OF F(3) ds])
  then have fsz: "unat (hex_str_to_uint32 m (a + 54)) = length (ce_data e)" using ds by (simp add: unat_of_nat)
  have md: "hex_str_to_uint32 m (a + 14) = ce_mode e"
    using hex_str_text [OF F(2)] unsigned_less [of "ce_mode e"] by simp
  have "hex_str_to_uint32 m (a + 94) = word_of_nat (ce_namesize e)" by (rule hex_str_text [OF F(4) ns(3)])
  then have nsz: "unat (hex_str_to_uint32 m (a + 94)) = ce_namesize e" using ns(3) by (simp add: unat_of_nat)
  have "get_bytes m (a + 110) (min (ce_namesize e) 255) = ce_name e @ [NUL]"
    using ns(4) by (intro bytes_atD [OF F(5)]) (simp add: ce_namesize_def)
  then have nm: "takeWhile ((\<noteq>) NUL) (get_bytes m (a + 110) (min (ce_namesize e) 255)) = ce_name e"
    using nn by (auto simp: takeWhile_tail)
  show "parse_entry m a =
    (if entry_path e = ''/.'' \<or> entry_path e = ''/..'' \<or> entry_path e = ''/'' then Skip (a + length (entry_bytes e))
     else Entry (entry_path e) (ce_mode e) (length (ce_data e)) (entry_data_at a e) (a + length (entry_bytes e)))"
    using F(1) ns(1,2) name
    unfolding parse_entry_def Let_def off_filesize_def off_mode_def off_namesize_def sizeof_cpio_header_def off fsz md nsz nm
      entry_path_def [symmetric] by simp
  show "get_bytes m (entry_data_at a e) (length (ce_data e)) = ce_data e"
    using F(6) by (simp add: entry_data_at_def bytes_at_def)
qed

subsection \<open>The whole archive\<close>

definition trailer :: "byte list" where
  "trailer = ''070701'' @ replicate 88 (CHR ''0'') @ hex_text 8 11 @ replicate 8 (CHR ''0'') @ ''TRAILER!!!'' @ [NUL]"

lemma parse_trailer:
  assumes "bytes_at m a trailer" "a + length trailer < 2 ^ 32"
  shows "parse_entry m a = Stop"
proof -
  have "bytes_at m a ''070701''" "bytes_at m (a + 94) (hex_text 8 11)" "bytes_at m (a + 110) (''TRAILER!!!'' @ [NUL])"
    using assms(1) unfolding trailer_def bytes_at_append by (simp_all add: add.commute)
  note B = bytes_atD [OF this(1), of 6] hex_str_text [OF this(2)] bytes_atD [OF this(3), of 11]
  have "add32 a 94 = a + 94" "add32 a 110 = a + 110" using assms(2) by (simp_all add: add32_def trailer_def)
  then show ?thesis using B by (simp add: parse_entry_def Let_def off_namesize_def sizeof_cpio_header_def)
qed

text \<open>What the entries of an archive at an address do to a file system, one after the other.\<close>

fun import_all :: "addr \<Rightarrow> addr \<Rightarrow> cpio_entry list \<Rightarrow> nat \<Rightarrow> fstate \<Rightarrow> (nat \<times> fstate) option" where
  "import_all fs a [] n s = Some (n, s)"
| "import_all fs a (e # es) n s =
     (if entry_path e = ''/.'' \<or> entry_path e = ''/..'' \<or> entry_path e = ''/'' then import_all fs (a + length (entry_bytes e)) es n s
      else case import_entry fs (entry_path e) (ce_mode e) (length (ce_data e)) (entry_data_at a e) s of
        None \<Rightarrow> None
      | Some (k, s1) \<Rightarrow> import_all fs (a + length (entry_bytes e)) es (add32 n k) s1)"

definition archive_bytes :: "cpio_entry list \<Rightarrow> byte list" where
  "archive_bytes es = concat (map entry_bytes es) @ trailer"

text \<open>The archive is in place, now and after each entry of it was imported.\<close>

fun archive_stays :: "addr \<Rightarrow> addr \<Rightarrow> cpio_entry list \<Rightarrow> fstate \<Rightarrow> bool" where
  "archive_stays fs a [] s = bytes_at (mm_mem (fs_mm s)) a (archive_bytes [])"
| "archive_stays fs a (e # es) s \<longleftrightarrow> bytes_at (mm_mem (fs_mm s)) a (archive_bytes (e # es)) \<and>
     (if entry_path e = ''/.'' \<or> entry_path e = ''/..'' \<or> entry_path e = ''/'' then archive_stays fs (a + length (entry_bytes e)) es s
      else case import_entry fs (entry_path e) (ce_mode e) (length (ce_data e)) (entry_data_at a e) s of
        None \<Rightarrow> True | Some (k, s1) \<Rightarrow> archive_stays fs (a + length (entry_bytes e)) es s1)"


definition demo_entry :: cpio_entry where
  "demo_entry = \<lparr>ce_ino = ''00000001'', ce_mode = 0x2000, ce_owner = replicate 32 (CHR ''0''), ce_data = ''hi'',
     ce_devs = replicate 32 (CHR ''0''), ce_name = ''dev/null'', ce_check = ''00000000''\<rparr>"

definition demo_archive :: "fstate" where
  "demo_archive = \<lparr>fs_mm = undefined\<lparr>mm_mem := (\<lambda>x. if x < 4096 then NUL else (archive_bytes [demo_entry] @ replicate 4096 NUL) ! (x - 4096))\<rparr>,
     inodes = (\<lambda>_. None), dentries = (\<lambda>_. None), memfss = (\<lambda>_. None)\<rparr>"


subsection \<open>A header without end\<close>

text \<open>An entry named \<^verbatim>\<open>.\<close> whose size field makes the next entry the same one: 112 and the size are \<open>2^32\<close>.\<close>

definition endless_header :: "byte list" where
  "endless_header = ''070701'' @ replicate 48 (CHR ''0'') @ hex_text 8 (2 ^ 32 - 112) @ replicate 32 (CHR ''0'') @
     hex_text 8 2 @ replicate 8 (CHR ''0'') @ ''.'' @ [NUL]"

lemma parse_endless:
  assumes "bytes_at m a endless_header" "a + 112 < 2 ^ 32"
  shows "parse_entry m a = Skip a"
proof -
  have "bytes_at m a ''070701''" "bytes_at m (a + 54) (hex_text 8 (2 ^ 32 - 112))" "bytes_at m (a + 94) (hex_text 8 2)"
    "bytes_at m (a + 110) (''.'' @ [NUL])"
    using assms(1) unfolding endless_header_def bytes_at_append by (simp_all add: add.commute)
  note B = bytes_atD [OF this(1), of 6] hex_str_text [OF this(2)] hex_str_text [OF this(3)] bytes_atD [OF this(4), of 2]
  have off: "add32 a 94 = a + 94" "add32 a 110 = a + 110" "add32 a 54 = a + 54" "add32 (a + 110) 2 = a + 112" "add32 (a + 112) 0 = a + 112"
    "add32 (add32 (a + 112) 4294967184) 0 = a" "padding 4294967184 = 0" "padding 112 = 0"
    using assms(2) by (simp_all add: add32_def padding_def)
  have p: "clean_path (make_absolute_path ''.'') = ''/''" by (simp add: make_absolute_path_def clean_path_def Let_def)
  show ?thesis
    using B by (simp add: parse_entry_def Let_def off_namesize_def off_filesize_def off_mode_def sizeof_cpio_header_def off p)
qed

text \<open>with that header in front, \<^verbatim>\<open>initramfs_init\<close> never returns: the sum of offset, size and padding wraps around to
  the address of the header itself.\<close>

theorem initramfs_endless:
  assumes "bytes_at (mm_mem (fs_mm s)) a endless_header" "a + 112 < 2 ^ 32"
  shows "import_loop fs a n s = None"
proof -
  have "\<not> (a' = a \<and> s' = s)" if "import_loop fs' a' n' s' = Some r" for fs' a' n' s' r
  proof (rule import_loop.raw_induct [OF _ that, of "\<lambda>f x k y r. \<not> (x = a \<and> y = s)"])
    fix loop f x k y r
    assume IH: "\<And>f x k y r. loop f x k y = Some r \<Longrightarrow> \<not> (x = a \<and> y = s)"
      and step: "(case parse_entry (mm_mem (fs_mm y)) x of Stop \<Rightarrow> Some (k, y) | Skip nxt \<Rightarrow> loop f nxt k y
        | Entry path mode filesize filedata nxt \<Rightarrow> (case import_entry f path mode filesize filedata y of
            None \<Rightarrow> None | Some (j, s1) \<Rightarrow> loop f nxt (add32 k j) s1)) = Some r"
    show "\<not> (x = a \<and> y = s)"
    proof
      assume xy: "x = a \<and> y = s"
      then have "loop f a k s = Some r" using step parse_endless [OF assms] by simp
      from IH [OF this] show False by simp
    qed
  qed
  then have "import_loop fs a n s \<noteq> Some r" for r by blast
  then show ?thesis by (cases "import_loop fs a n s") blast+
qed

theorem initramfs_endless_witness:
  "\<exists>s. import_loop 0 0 0 s = None"
proof -
  let ?s = "\<lparr>fs_mm = undefined\<lparr>mm_mem := (\<lambda>x. if x < 112 then endless_header ! x else NUL)\<rparr>,
     inodes = (\<lambda>_. None), dentries = (\<lambda>_. None), memfss = (\<lambda>_. None)\<rparr> :: fstate"
  have "length endless_header = 112" by (simp add: endless_header_def)
  then have "bytes_at (mm_mem (fs_mm ?s)) 0 endless_header" by (auto simp: bytes_at_def get_bytes_def intro!: nth_equalityI)
  from initramfs_endless [OF this] show ?thesis by (intro exI [of _ ?s]) simp
qed

end
