(* ===== verification/Elf.thy ===== *)
theory Elf
  imports Vfs
begin

section \<open>Loading programs: the model\<close>

text \<open>
  Model of \<^verbatim>\<open>src/kernel/drivers/elf_loader.c\<close>.  The file is read through the VFS into a buffer from
  \<^verbatim>\<open>kmalloc\<close>; its headers are read from memory at that buffer while the segments are copied to their
  addresses.  The state \<open>'w\<close> of the file systems contains the kernel heap and the memory: \<open>get\<close> and
  \<open>put\<close> read and replace that part.  \<^verbatim>\<open>g_elf_last_error\<close> is part of the result.  A regular file that
  ends in a call of a device's read function is outside the model (\<open>None\<close>).
\<close>

definition ELF_MAGIC :: nat where "ELF_MAGIC = 0x464C457F"
definition ELFCLASS32 :: nat where "ELFCLASS32 = 1"
definition ELFDATA2LSB :: nat where "ELFDATA2LSB = 1"
definition ET_EXEC :: nat where "ET_EXEC = 2"
definition EM_386 :: nat where "EM_386 = 3"
definition PT_LOAD :: nat where "PT_LOAD = 1"
definition PT_INTERP :: nat where "PT_INTERP = 3"
definition USER_ELF_MIN_VADDR :: nat where "USER_ELF_MIN_VADDR = USER_VADDR_BASE"
definition USER_ELF_MAX_VADDR :: nat where "USER_ELF_MAX_VADDR = USER_VADDR_BASE + USER_VADDR_SIZE"

definition load8 :: "mem \<Rightarrow> addr \<Rightarrow> nat" where "load8 m a = of_char (m a)"
definition load16 :: "mem \<Rightarrow> addr \<Rightarrow> nat" where "load16 m a = of_char (m a) + 256 * of_char (m (a + 1))"

text \<open>The fields of \<^verbatim>\<open>elf32_ehdr_t\<close> and \<^verbatim>\<open>elf32_phdr_t\<close> that are read, at their offsets.\<close>

abbreviation (input) sizeof_ehdr :: nat where "sizeof_ehdr \<equiv> 52"
abbreviation (input) sizeof_phdr :: nat where "sizeof_phdr \<equiv> 32"

definition e_type :: "mem \<Rightarrow> addr \<Rightarrow> nat" where "e_type m eh = load16 m (eh + 16)"
definition e_machine :: "mem \<Rightarrow> addr \<Rightarrow> nat" where "e_machine m eh = load16 m (eh + 18)"
definition e_entry :: "mem \<Rightarrow> addr \<Rightarrow> nat" where "e_entry m eh = load32 m (eh + 24)"
definition e_phoff :: "mem \<Rightarrow> addr \<Rightarrow> nat" where "e_phoff m eh = load32 m (eh + 28)"
definition e_phentsize :: "mem \<Rightarrow> addr \<Rightarrow> nat" where "e_phentsize m eh = load16 m (eh + 42)"
definition e_phnum :: "mem \<Rightarrow> addr \<Rightarrow> nat" where "e_phnum m eh = load16 m (eh + 44)"

definition p_type :: "mem \<Rightarrow> addr \<Rightarrow> nat" where "p_type m ph = load32 m ph"
definition p_offset :: "mem \<Rightarrow> addr \<Rightarrow> nat" where "p_offset m ph = load32 m (ph + 4)"
definition p_vaddr :: "mem \<Rightarrow> addr \<Rightarrow> nat" where "p_vaddr m ph = load32 m (ph + 8)"
definition p_filesz :: "mem \<Rightarrow> addr \<Rightarrow> nat" where "p_filesz m ph = load32 m (ph + 16)"
definition p_memsz :: "mem \<Rightarrow> addr \<Rightarrow> nat" where "p_memsz m ph = load32 m (ph + 20)"

definition phdr :: "addr \<Rightarrow> nat \<Rightarrow> addr" where
  "phdr ph0 i = add32 ph0 (i * sizeof_phdr)"

definition range_ok :: "nat \<Rightarrow> nat \<Rightarrow> bool" where
  "range_ok vaddr sz \<longleftrightarrow>
     \<not> vaddr < USER_ELF_MIN_VADDR \<and> \<not> sz > USER_ELF_MAX_VADDR - USER_ELF_MIN_VADDR \<and> \<not> vaddr > USER_ELF_MAX_VADDR - sz"

definition header_ok :: "mem \<Rightarrow> addr \<Rightarrow> bool" where
  "header_ok m file \<longleftrightarrow> load32 m file = ELF_MAGIC \<and> load8 m (file + 4) = ELFCLASS32 \<and> load8 m (file + 5) = ELFDATA2LSB \<and>
     e_type m file = ET_EXEC \<and> e_machine m file = EM_386 \<and> e_phentsize m file = sizeof_phdr"

text \<open>The first loop, over the program headers from number \<open>i\<close> on: the path of the interpreter (the bytes up to
  the null that ends it), or the error code.  \<open>cap\<close> is \<^verbatim>\<open>interp_cap\<close>, \<open>None\<close> for a null \<^verbatim>\<open>interp_out\<close>.\<close>

fun interp_loop :: "mem \<Rightarrow> addr \<Rightarrow> nat \<Rightarrow> addr \<Rightarrow> nat option \<Rightarrow> nat list \<Rightarrow> string \<Rightarrow> nat + string" where
  "interp_loop m file sz ph0 cap [] interp = Inr interp"
| "interp_loop m file sz ph0 cap (i # is) interp =
     (let ph = phdr ph0 i in
      if p_type m ph \<noteq> PT_INTERP then interp_loop m file sz ph0 cap is interp
      else case cap of
        None \<Rightarrow> Inl 12
      | Some c \<Rightarrow>
          if c < 2 then Inl 12
          else if add32 (p_offset m ph) (p_filesz m ph) > sz \<or> p_filesz m ph < 2 then Inl 13
          else let n = min (p_filesz m ph) (c - 1);
                   out = takeWhile ((\<noteq>) NUL) (get_bytes m (add32 file (p_offset m ph)) n) in
            if out = [] \<or> hd out \<noteq> CHR ''/'' then Inl 14 else interp_loop m file sz ph0 cap is out)"

lemma load16_less: "load16 m a < 65536"
proof -
  have "(of_char (m a) :: nat) < 256" "(of_char (m (a + 1)) :: nat) < 256" by simp_all
  then show ?thesis unfolding load16_def by linarith
qed

text \<open>The second loop, from header \<open>i\<close> on: the error code, 0 when all segments were copied, and the memory.
  The number of headers is read again for every round.\<close>

function load_loop :: "addr \<Rightarrow> nat \<Rightarrow> addr \<Rightarrow> nat \<Rightarrow> mem \<Rightarrow> nat \<times> mem" where
  "load_loop file sz ph0 i m =
     (if i \<ge> e_phnum m file then (0, m)
      else let ph = phdr ph0 i in
        if p_type m ph \<noteq> PT_LOAD then load_loop file sz ph0 (i + 1) m
        else if p_memsz m ph < p_filesz m ph then (8, m)
        else if add32 (p_offset m ph) (p_filesz m ph) > sz then (9, m)
        else if \<not> range_ok (p_vaddr m ph) (p_memsz m ph) then (10, m)
        else let m1 = put_bytes m (p_vaddr m ph) (get_bytes m (add32 file (p_offset m ph)) (p_filesz m ph));
                 m2 = (if p_memsz m1 ph > p_filesz m1 ph
                       then put_bytes m1 (p_vaddr m1 ph + p_filesz m1 ph) (replicate (p_memsz m1 ph - p_filesz m1 ph) NUL) else m1) in
          load_loop file sz ph0 (i + 1) m2)"
  by pat_completeness auto

termination
proof (relation "measure (\<lambda>(file, sz, ph0, i, m). 65536 - i)", goal_cases)
  case 1
  show ?case by simp
qed (auto simp: e_phnum_def not_le dest!: less_trans [OF _ load16_less])

declare load_loop.simps [simp del]

record elf_result =
  er_code :: int
  er_last_error :: nat
  er_entry :: nat
  er_interp :: string

definition elf_failed :: "nat \<Rightarrow> elf_result" where
  "elf_failed e = \<lparr>er_code = -1, er_last_error = e, er_entry = 0, er_interp = []\<rparr>"

text \<open>What is done with the file once it is in the buffer: the result and the memory.\<close>

definition elf_check_load :: "addr \<Rightarrow> nat \<Rightarrow> nat option \<Rightarrow> mem \<Rightarrow> elf_result \<times> mem" where
  "elf_check_load file sz cap m =
     (if \<not> header_ok m file then (elf_failed 6, m)
      else if add32 (e_phoff m file) (mul32 (e_phnum m file) sizeof_phdr) > sz then (elf_failed 7, m)
      else case interp_loop m file sz (add32 file (e_phoff m file)) cap [0..<e_phnum m file] [] of
        Inl e \<Rightarrow> (elf_failed e, m)
      | Inr interp \<Rightarrow>
          (case load_loop file sz (add32 file (e_phoff m file)) 0 m of (e, m1) \<Rightarrow>
             if e \<noteq> 0 then (elf_failed e, m1)
             else if \<not> range_ok (e_entry m1 file) 1 then (elf_failed 11, m1)
             else (\<lparr>er_code = 0, er_last_error = 0, er_entry = e_entry m1 file, er_interp = interp\<rparr>, m1)))"

definition elf_load_from_vfs_ex :: "('w \<Rightarrow> mm_state) \<Rightarrow> (mm_state \<Rightarrow> 'w \<Rightarrow> 'w) \<Rightarrow> (addr \<Rightarrow> 'w vfs_ops) \<Rightarrow> vfs \<Rightarrow> string \<Rightarrow>
    nat option \<Rightarrow> 'w \<Rightarrow> (elf_result \<times> 'w) option" where
  "elf_load_from_vfs_ex get put tab v path cap w =
     (case vfs_get_info tab v path w of
        None \<Rightarrow> None
      | Some (None, w1) \<Rightarrow> Some (elf_failed 2, w1)
      | Some (Some info, w1) \<Rightarrow>
          if vi_type info \<noteq> VFS_NODE_FILE \<or> vi_size info < sizeof_ehdr then Some (elf_failed 3, w1)
          else (case kmalloc (get w1) (vi_size info) of
            None \<Rightarrow> None
          | Some (file, h) \<Rightarrow>
              let w2 = put h w1 in
              if file = 0 then Some (elf_failed 4, w2)
              else (case vfs_read tab v path (vi_size info) w2 of
                None \<Rightarrow> None
              | Some (Dev_call f c, w3) \<Rightarrow> None
              | Some (Ret (n, bs), w3) \<Rightarrow>
                  let m = put_bytes (mm_mem (get w3)) file bs;
                      (r, m1) = (if n \<noteq> sint (word_of_nat (vi_size info) :: u32) then (elf_failed 5, m)
                                 else elf_check_load file (vi_size info) cap m)
                  in (case kfree ((get w3)\<lparr>mm_mem := m1\<rparr>) file of
                        None \<Rightarrow> None | Some h1 \<Rightarrow> Some (r, put h1 w3)))))"

definition elf_load_from_vfs :: "('w \<Rightarrow> mm_state) \<Rightarrow> (mm_state \<Rightarrow> 'w \<Rightarrow> 'w) \<Rightarrow> (addr \<Rightarrow> 'w vfs_ops) \<Rightarrow> vfs \<Rightarrow> string \<Rightarrow>
    'w \<Rightarrow> (elf_result \<times> 'w) option" where
  "elf_load_from_vfs get put tab v path w = elf_load_from_vfs_ex get put tab v path None w"

definition elf_get_last_error :: "elf_result \<Rightarrow> nat" where
  "elf_get_last_error r = er_last_error r"

end
