(* ===== verification/Elf_Props.thy ===== *)
theory Elf_Props
  imports Elf Byte_Lists
begin

section \<open>Loading programs: where the loader writes and what it copies\<close>

text \<open>
  Whatever the file contains, the loader writes to user memory only; a file that is accepted has its
  segments at their addresses.  The checks of the offsets wrap around, and a file can make the
  loader copy kernel memory that lies before the buffer.
\<close>

definition outside :: "addr \<Rightarrow> bool" where
  "outside a \<longleftrightarrow> a < USER_ELF_MIN_VADDR \<or> USER_ELF_MAX_VADDR \<le> a"

definition same_outside :: "mem \<Rightarrow> mem \<Rightarrow> bool" where
  "same_outside m m' \<longleftrightarrow> (\<forall>a. outside a \<longrightarrow> m' a = m a)"

lemma same_outside_refl [simp]: "same_outside m m"
  by (simp add: same_outside_def)

lemma same_outside_trans: "same_outside m m1 \<Longrightarrow> same_outside m1 m2 \<Longrightarrow> same_outside m m2"
  by (simp add: same_outside_def)

text \<open>A stretch of memory that lies outside user memory.\<close>

definition kernel_range :: "addr \<Rightarrow> nat \<Rightarrow> bool" where
  "kernel_range a n \<longleftrightarrow> (\<forall>k < n. outside (a + k))"

lemma load32_same: "same_outside m m' \<Longrightarrow> kernel_range a n \<Longrightarrow> i + 4 \<le> n \<Longrightarrow> load32 m' (a + i) = load32 m (a + i)"
  by (rule load32_cong) (auto simp: same_outside_def kernel_range_def add.assoc)

lemma load16_same: "same_outside m m' \<Longrightarrow> kernel_range a n \<Longrightarrow> i + 2 \<le> n \<Longrightarrow> load16 m' (a + i) = load16 m (a + i)"
proof -
  assume A: "same_outside m m'" "kernel_range a n" "i + 2 \<le> n"
  have "outside (a + i)" "outside (a + (i + 1))"
    using A(2) [unfolded kernel_range_def, rule_format, of i] A(2) [unfolded kernel_range_def, rule_format, of "i + 1"] A(3) by simp_all
  then have "m' (a + i) = m (a + i)" "m' (a + i + 1) = m (a + i + 1)" using A(1) by (simp_all add: same_outside_def add.assoc)
  then show ?thesis by (simp add: load16_def)
qed

lemma phdr_same:
  assumes "same_outside m m'" "kernel_range ph 32"
  shows "p_type m' ph = p_type m ph" "p_offset m' ph = p_offset m ph" "p_vaddr m' ph = p_vaddr m ph"
    "p_filesz m' ph = p_filesz m ph" "p_memsz m' ph = p_memsz m ph"
  using load32_same [OF assms, of 0] load32_same [OF assms, of 4] load32_same [OF assms, of 8] load32_same [OF assms, of 16]
    load32_same [OF assms, of 20]
  by (simp_all add: p_type_def p_offset_def p_vaddr_def p_filesz_def p_memsz_def)

lemma ehdr_same:
  assumes "same_outside m m'" "kernel_range base 52"
  shows "e_phnum m' base = e_phnum m base" "e_entry m' base = e_entry m base"
  using load16_same [OF assms, of 44] load32_same [OF assms, of 24] by (simp_all add: e_phnum_def e_entry_def)

lemma range_okD:
  assumes "range_ok a n"
  shows "USER_ELF_MIN_VADDR \<le> a" "a + n \<le> USER_ELF_MAX_VADDR"
proof -
  have le: "USER_ELF_MIN_VADDR \<le> USER_ELF_MAX_VADDR" by (simp add: USER_ELF_MIN_VADDR_def USER_ELF_MAX_VADDR_def)
  show "USER_ELF_MIN_VADDR \<le> a" "a + n \<le> USER_ELF_MAX_VADDR" using assms le unfolding range_ok_def by linarith+
qed

text \<open>One segment: the bytes of the file and zeroes behind them.\<close>

definition segment :: "mem \<Rightarrow> addr \<Rightarrow> addr \<Rightarrow> byte list" where
  "segment m base ph = get_bytes m (add32 base (p_offset m ph)) (p_filesz m ph) @ replicate (p_memsz m ph - p_filesz m ph) NUL"

lemma segment_length: "p_filesz m ph \<le> p_memsz m ph \<Longrightarrow> length (segment m base ph) = p_memsz m ph"
  by (simp add: segment_def)

lemma put_user_same_outside:
  assumes "range_ok a n" "length xs \<le> n"
  shows "same_outside m (put_bytes m a xs)"
  using range_okD [OF assms(1)] assms(2) by (auto simp: same_outside_def outside_def put_bytes_def)

lemma load_step:
  fixes base :: addr
  assumes ph: "kernel_range ph 32" and r: "range_ok (p_vaddr m ph) (p_memsz m ph)" and le: "p_filesz m ph \<le> p_memsz m ph"
  defines "m1 \<equiv> put_bytes m (p_vaddr m ph) (get_bytes m (add32 base (p_offset m ph)) (p_filesz m ph))"
  shows "(if p_memsz m1 ph > p_filesz m1 ph
      then put_bytes m1 (p_vaddr m1 ph + p_filesz m1 ph) (replicate (p_memsz m1 ph - p_filesz m1 ph) NUL) else m1)
    = put_bytes m (p_vaddr m ph) (segment m base ph)"
proof -
  have "same_outside m m1" unfolding m1_def by (rule put_user_same_outside [OF r]) (simp add: le)
  note P = phdr_same [OF this ph]
  show ?thesis unfolding P segment_def put_bytes_append using le by (simp add: m1_def)
qed

text \<open>The headers of a file: the buffer holds the file header, and the table where the loader reads it, all
  outside user memory.\<close>

definition headers_in_kernel :: "mem \<Rightarrow> addr \<Rightarrow> addr \<Rightarrow> bool" where
  "headers_in_kernel m base ph0 \<longleftrightarrow> kernel_range base 52 \<and> (\<forall>i < e_phnum m base. kernel_range (phdr ph0 i) 32)"

lemma headers_same: "same_outside m m' \<Longrightarrow> headers_in_kernel m base ph0 \<Longrightarrow> headers_in_kernel m' base ph0"
  using ehdr_same(1) [of m m' base] by (simp add: headers_in_kernel_def)

lemma load_loop_unfold:
  assumes h: "headers_in_kernel m base ph0"
  shows "load_loop base sz ph0 i m =
     (if i \<ge> e_phnum m base then (0, m)
      else let ph = phdr ph0 i in
        if p_type m ph \<noteq> PT_LOAD then load_loop base sz ph0 (i + 1) m
        else if p_memsz m ph < p_filesz m ph then (8, m)
        else if add32 (p_offset m ph) (p_filesz m ph) > sz then (9, m)
        else if \<not> range_ok (p_vaddr m ph) (p_memsz m ph) then (10, m)
        else load_loop base sz ph0 (i + 1) (put_bytes m (p_vaddr m ph) (segment m base ph)))"
proof (cases "i < e_phnum m base")
  case True
  then have k: "kernel_range (phdr ph0 i) 32" using h by (simp add: headers_in_kernel_def)
  show ?thesis using load_step [OF k, of m base] by (subst load_loop.simps) (simp add: Let_def)
next
  case False
  then show ?thesis by (subst load_loop.simps) simp
qed

lemma segment_put_same_outside:
  "range_ok (p_vaddr m ph) (p_memsz m ph) \<Longrightarrow> p_filesz m ph \<le> p_memsz m ph \<Longrightarrow>
   same_outside m (put_bytes m (p_vaddr m ph) (segment m base ph))"
  by (rule put_user_same_outside [where n = "p_memsz m ph"]) (simp_all add: segment_length)

lemma load_loop_outside:
  "headers_in_kernel m base ph0 \<Longrightarrow> load_loop base sz ph0 i m = (e, m') \<Longrightarrow> same_outside m m'"
proof (induction base sz ph0 i m rule: load_loop.induct)
  case (1 base sz ph0 i m)
  let ?ph = "phdr ph0 i"
  show ?case
  proof (cases "i \<ge> e_phnum m base \<or> (p_type m ?ph = PT_LOAD \<and> (p_memsz m ?ph < p_filesz m ?ph \<or>
      add32 (p_offset m ?ph) (p_filesz m ?ph) > sz \<or> \<not> range_ok (p_vaddr m ?ph) (p_memsz m ?ph)))")
    case True
    then have "m' = m" using "1.prems"(2) by (auto simp: load_loop_unfold [OF "1.prems"(1)] Let_def split: if_splits)
    then show ?thesis by simp
  next
    case False
    then have i: "\<not> i \<ge> e_phnum m base" by simp
    show ?thesis
    proof (cases "p_type m ?ph = PT_LOAD")
      case False
      then have "load_loop base sz ph0 (i + 1) m = (e, m')" using "1.prems"(2) i by (simp add: load_loop_unfold [OF "1.prems"(1)] Let_def)
      from "1.IH"(1) [OF i refl False "1.prems"(1) this] show ?thesis .
    next
      case True
      let ?m2 = "put_bytes m (p_vaddr m ?ph) (segment m base ?ph)"
      have ok: "\<not> p_memsz m ?ph < p_filesz m ?ph" "\<not> add32 (p_offset m ?ph) (p_filesz m ?ph) > sz" "range_ok (p_vaddr m ?ph) (p_memsz m ?ph)"
        using False True by simp_all
      have k: "kernel_range ?ph 32" using "1.prems"(1) i by (simp add: headers_in_kernel_def)
      have l: "load_loop base sz ph0 (i + 1) ?m2 = (e, m')"
        using "1.prems"(2) i True ok by (simp add: load_loop_unfold [OF "1.prems"(1)] Let_def)
      have so: "same_outside m ?m2" using ok by (intro segment_put_same_outside) simp_all
      have "same_outside ?m2 m'"
        by (rule "1.IH"(2) [OF i refl _ ok(1,2) _ refl _ headers_same [OF so "1.prems"(1)] l])
          (use True ok load_step [OF k ok(3), of base] in simp_all)
      then show ?thesis by (rule same_outside_trans [OF so])
    qed
  qed
qed

subsection \<open>The segments are where they belong\<close>

definition loads :: "mem \<Rightarrow> addr \<Rightarrow> bool" where
  "loads m ph \<longleftrightarrow> p_type m ph = PT_LOAD"

text \<open>An address of a segment.\<close>

definition in_segment :: "mem \<Rightarrow> addr \<Rightarrow> addr \<Rightarrow> bool" where
  "in_segment m ph a \<longleftrightarrow> p_vaddr m ph \<le> a \<and> a < p_vaddr m ph + p_memsz m ph"

lemma loads_same: "same_outside m m' \<Longrightarrow> kernel_range ph 32 \<Longrightarrow> loads m' ph = loads m ph \<and> in_segment m' ph a = in_segment m ph a"
  by (simp add: loads_def in_segment_def phdr_same)

text \<open>The bytes of the file come from kernel memory, and no two segments overlap.\<close>

definition segments_apart :: "mem \<Rightarrow> addr \<Rightarrow> addr \<Rightarrow> bool" where
  "segments_apart m base ph0 \<longleftrightarrow>
     (\<forall>i < e_phnum m base. loads m (phdr ph0 i) \<longrightarrow> kernel_range (add32 base (p_offset m (phdr ph0 i))) (p_filesz m (phdr ph0 i))) \<and>
     (\<forall>j < e_phnum m base. \<forall>i < j. loads m (phdr ph0 i) \<and> loads m (phdr ph0 j) \<longrightarrow>
        (\<forall>a. \<not> (in_segment m (phdr ph0 i) a \<and> in_segment m (phdr ph0 j) a)))"

lemma segment_same:
  assumes so: "same_outside m m'" and k: "kernel_range ph 32" "kernel_range (add32 base (p_offset m ph)) (p_filesz m ph)"
  shows "segment m' base ph = segment m base ph"
proof -
  have "get_bytes m' (add32 base (p_offset m ph)) (p_filesz m ph) = get_bytes m (add32 base (p_offset m ph)) (p_filesz m ph)"
    using so k(2) by (auto simp: get_bytes_def same_outside_def kernel_range_def)
  then show ?thesis by (simp add: segment_def phdr_same [OF so k(1)])
qed

lemma segments_apart_same:
  assumes so: "same_outside m m'" and h: "headers_in_kernel m base ph0" and s: "segments_apart m base ph0"
  shows "segments_apart m' base ph0"
proof -
  have n: "e_phnum m' base = e_phnum m base" using ehdr_same(1) [OF so] h by (simp add: headers_in_kernel_def)
  have k: "kernel_range (phdr ph0 i) 32" if "i < e_phnum m base" for i using h that by (simp add: headers_in_kernel_def)
  note P = loads_same [OF so k] phdr_same [OF so k]
  show ?thesis unfolding segments_apart_def n
  proof (intro conjI allI impI)
    fix i assume i: "i < e_phnum m base" "loads m' (phdr ph0 i)"
    then show "kernel_range (add32 base (p_offset m' (phdr ph0 i))) (p_filesz m' (phdr ph0 i))"
      using s P [OF i(1)] by (simp add: segments_apart_def)
  next
    fix j i a assume ij: "j < e_phnum m base" "i < j" "loads m' (phdr ph0 i) \<and> loads m' (phdr ph0 j)"
    then have "i < e_phnum m base" by simp
    with ij show "\<not> (in_segment m' (phdr ph0 i) a \<and> in_segment m' (phdr ph0 j) a)"
      using s loads_same [OF so k, of i] loads_same [OF so k, of j] unfolding segments_apart_def by blast
  qed
qed

definition placed :: "mem \<Rightarrow> addr \<Rightarrow> nat \<Rightarrow> mem \<Rightarrow> addr \<Rightarrow> bool" where
  "placed m base sz m' ph \<longleftrightarrow> range_ok (p_vaddr m ph) (p_memsz m ph) \<and> p_filesz m ph \<le> p_memsz m ph \<and>
     add32 (p_offset m ph) (p_filesz m ph) \<le> sz \<and> (\<forall>k < p_memsz m ph. m' (p_vaddr m ph + k) = segment m base ph ! k)"

lemma load_loop_segments:
  "headers_in_kernel m base ph0 \<Longrightarrow> segments_apart m base ph0 \<Longrightarrow> load_loop base sz ph0 i m = (0, m') \<Longrightarrow>
     (\<forall>j. i \<le> j \<and> j < e_phnum m base \<and> loads m (phdr ph0 j) \<longrightarrow> placed m base sz m' (phdr ph0 j)) \<and>
     (\<forall>a. (\<forall>j. i \<le> j \<and> j < e_phnum m base \<and> loads m (phdr ph0 j) \<longrightarrow> \<not> in_segment m (phdr ph0 j) a) \<longrightarrow> m' a = m a)"
proof (induction "e_phnum m base - i" arbitrary: i m)
  case 0
  then show ?case by (auto simp: load_loop_unfold [OF "0.prems"(1)])
next
  case (Suc d)
  let ?ph = "phdr ph0 i" and ?n = "e_phnum m base"
  have i: "i < ?n" using Suc.hyps(2) by simp
  have k: "kernel_range (phdr ph0 j) 32" if "j < ?n" for j using Suc.prems(1) that by (simp add: headers_in_kernel_def)
  have split: "P i \<and> (\<forall>j. i + 1 \<le> j \<and> j < ?n \<longrightarrow> P j) \<Longrightarrow> (\<forall>j. i \<le> j \<and> j < ?n \<longrightarrow> P j)" for P
    by (metis Suc_eq_plus1 Suc_leI le_neq_implies_less)
  show ?case
  proof (cases "loads m ?ph")
    case False
    then have l: "load_loop base sz ph0 (i + 1) m = (0, m')"
      using Suc.prems(3) i by (simp add: load_loop_unfold [OF Suc.prems(1)] Let_def loads_def)
    have "d = ?n - (i + 1)" using Suc.hyps(2) by simp
    note IH = Suc.hyps(1) [OF this Suc.prems(1,2) l]
    have "i \<le> j \<and> j < ?n \<and> loads m (phdr ph0 j) \<longleftrightarrow> i + 1 \<le> j \<and> j < ?n \<and> loads m (phdr ph0 j)" for j
      using False by (cases "j = i") auto
    then show ?thesis using IH by simp
  next
    case True
    let ?m2 = "put_bytes m (p_vaddr m ?ph) (segment m base ?ph)"
    have ok: "\<not> p_memsz m ?ph < p_filesz m ?ph" "\<not> add32 (p_offset m ?ph) (p_filesz m ?ph) > sz" "range_ok (p_vaddr m ?ph) (p_memsz m ?ph)"
      and l: "load_loop base sz ph0 (i + 1) ?m2 = (0, m')"
      using Suc.prems(3) i True by (auto simp: load_loop_unfold [OF Suc.prems(1)] Let_def loads_def split: if_splits)
    have len: "length (segment m base ?ph) = p_memsz m ?ph" using ok(1) by (simp add: segment_length)
    have so: "same_outside m ?m2" using ok by (intro segment_put_same_outside) simp_all
    have n: "e_phnum ?m2 base = ?n" using ehdr_same(1) [OF so] Suc.prems(1) by (simp add: headers_in_kernel_def)
    have d: "d = e_phnum ?m2 base - (i + 1)" using Suc.hyps(2) n by simp
    note IH = Suc.hyps(1) [OF d headers_same [OF so Suc.prems(1)] segments_apart_same [OF so Suc.prems(1,2)] l, unfolded n]
    have rest: "placed m base sz m' (phdr ph0 j)" if j: "i + 1 \<le> j" "j < ?n" "loads m (phdr ph0 j)" for j
    proof -
      have "placed ?m2 base sz m' (phdr ph0 j)" using IH j loads_same [OF so k [OF j(2)]] by blast
      moreover have "kernel_range (add32 base (p_offset m (phdr ph0 j))) (p_filesz m (phdr ph0 j))"
        using Suc.prems(2) j by (simp add: segments_apart_def)
      ultimately show ?thesis
        using segment_same [OF so k [OF j(2)]] by (simp add: placed_def phdr_same [OF so k [OF j(2)]])
    qed
    have keep: "m' a = ?m2 a" if "\<forall>j. i + 1 \<le> j \<and> j < ?n \<and> loads m (phdr ph0 j) \<longrightarrow> \<not> in_segment m (phdr ph0 j) a" for a
      using IH that loads_same [OF so k] by blast
    have here: "m' (p_vaddr m ?ph + x) = segment m base ?ph ! x" if x: "x < p_memsz m ?ph" for x
    proof -
      have "in_segment m ?ph (p_vaddr m ?ph + x)" using x by (simp add: in_segment_def)
      then have "\<forall>j. i + 1 \<le> j \<and> j < ?n \<and> loads m (phdr ph0 j) \<longrightarrow> \<not> in_segment m (phdr ph0 j) (p_vaddr m ?ph + x)"
        using Suc.prems(2) True unfolding segments_apart_def by (metis Suc_eq_plus1 Suc_le_lessD)
      from keep [OF this] show ?thesis using x len by (simp add: mem_simps)
    qed
    then have "placed m base sz m' ?ph" using ok by (simp add: placed_def)
    moreover have "m' a = m a" if "\<forall>j. i \<le> j \<and> j < ?n \<and> loads m (phdr ph0 j) \<longrightarrow> \<not> in_segment m (phdr ph0 j) a" for a
    proof -
      have "\<not> in_segment m ?ph a" using that i True by blast
      then have "?m2 a = m a" using len by (auto simp: in_segment_def put_bytes_def)
      moreover have "\<forall>j. i + 1 \<le> j \<and> j < ?n \<and> loads m (phdr ph0 j) \<longrightarrow> \<not> in_segment m (phdr ph0 j) a" using that by simp
      ultimately show ?thesis using keep by simp
    qed
    ultimately show ?thesis using rest split [of "\<lambda>j. loads m (phdr ph0 j) \<longrightarrow> placed m base sz m' (phdr ph0 j)"] by blast
  qed
qed

subsection \<open>What the loader guarantees\<close>

lemma elf_check_load_cases:
  assumes "elf_check_load base sz cap m = (r, m')" "er_code r = 0"
  shows "header_ok m base" "load_loop base sz (add32 base (e_phoff m base)) 0 m = (0, m')" "range_ok (e_entry m' base) 1"
    "er_entry r = e_entry m' base"
proof -
  have "header_ok m base \<and> load_loop base sz (add32 base (e_phoff m base)) 0 m = (0, m') \<and> range_ok (e_entry m' base) 1 \<and>
      er_entry r = e_entry m' base"
    using assms by (auto simp: elf_check_load_def elf_failed_def split: if_splits sum.splits prod.splits)
  then show "header_ok m base" "load_loop base sz (add32 base (e_phoff m base)) 0 m = (0, m')" "range_ok (e_entry m' base) 1"
    "er_entry r = e_entry m' base" by simp_all
qed

lemma elf_check_load_outside:
  assumes "headers_in_kernel m base (add32 base (e_phoff m base))" "elf_check_load base sz cap m = (r, m')"
  shows "same_outside m m'"
  using assms(2) load_loop_outside [OF assms(1), of sz 0]
  by (auto simp: elf_check_load_def split: if_splits sum.splits prod.splits)




subsection \<open>A file with one segment\<close>

definition elf_header :: "nat \<Rightarrow> nat \<Rightarrow> nat \<Rightarrow> byte list" where
  "elf_header entry phoff phnum =
     le32 ELF_MAGIC @ [char_of (1 :: nat), char_of (1 :: nat)] @ replicate 10 NUL @ le16 2 @ le16 3 @ le32 1 @
     le32 entry @ le32 phoff @ replicate 10 NUL @ le16 32 @ le16 phnum @ replicate 6 NUL"

definition program_header :: "nat \<Rightarrow> nat \<Rightarrow> nat \<Rightarrow> nat \<Rightarrow> nat \<Rightarrow> byte list" where
  "program_header t off va fs ms = le32 t @ le32 off @ le32 va @ le32 va @ le32 fs @ le32 ms @ le32 5 @ le32 0"

lemma header_lengths: "length (elf_header entry phoff phnum) = 52" "length (program_header t off va fs ms) = 32"
  by (simp_all add: elf_header_def program_header_def)

lemma load16_le16: "bytes_at m a (le16 v) \<Longrightarrow> v < 65536 \<Longrightarrow> load16 m a = v"
  by (auto simp: bytes_at_nth le16_def load16_def less_Suc_eq numeral_2_eq_2)

lemma elf_header_fields:
  assumes "bytes_at m base (elf_header entry phoff phnum)" "entry < 2 ^ 32" "phoff < 2 ^ 32" "phnum < 65536"
  shows "header_ok m base" "e_entry m base = entry" "e_phoff m base = phoff" "e_phnum m base = phnum"
proof -
  note parts = assms(1) [unfolded elf_header_def bytes_at_append, simplified]
  have "bytes_at m (base + 4) [char_of (1 :: nat), char_of (1 :: nat)]" using parts by (simp add: ac_simps)
  then have "m (base + 4) = char_of (1 :: nat)" "m (base + 5) = char_of (1 :: nat)"
    by (simp_all add: bytes_at_def get_bytes_def numeral_2_eq_2 add.assoc)
  then have "load8 m (base + 4) = 1" "load8 m (base + 5) = 1" by (simp_all add: load8_def)
  moreover have "load32 m base = ELF_MAGIC" using parts load32_le32 [of m base ELF_MAGIC] by (simp add: ELF_MAGIC_def)
  moreover have "e_type m base = 2" "e_machine m base = 3" "e_phentsize m base = 32" "e_phnum m base = phnum"
    using parts load16_le16 [of m "base + 16" 2] load16_le16 [of m "base + 18" 3] load16_le16 [of m "base + 42" 32]
      load16_le16 [of m "base + 44" phnum] assms(4)
    by (simp_all add: e_type_def e_machine_def e_phentsize_def e_phnum_def ac_simps)
  moreover have "e_entry m base = entry" "e_phoff m base = phoff"
    using parts load32_le32 [of m "base + 24" entry] load32_le32 [of m "base + 28" phoff] assms(2,3)
    by (simp_all add: e_entry_def e_phoff_def ac_simps)
  ultimately show "header_ok m base" "e_entry m base = entry" "e_phoff m base = phoff" "e_phnum m base = phnum"
    by (simp_all add: header_ok_def ELFCLASS32_def ELFDATA2LSB_def ET_EXEC_def EM_386_def)
qed

lemma program_header_fields:
  assumes "bytes_at m ph (program_header t off va fs ms)" "t < 2 ^ 32" "off < 2 ^ 32" "va < 2 ^ 32" "fs < 2 ^ 32" "ms < 2 ^ 32"
  shows "p_type m ph = t" "p_offset m ph = off" "p_vaddr m ph = va" "p_filesz m ph = fs" "p_memsz m ph = ms"
  using assms(1) [unfolded program_header_def bytes_at_append, simplified] load32_le32 [OF _ assms(2)] load32_le32 [OF _ assms(3)]
    load32_le32 [OF _ assms(4)] load32_le32 [OF _ assms(5)] load32_le32 [OF _ assms(6)]
  by (simp_all add: p_type_def p_offset_def p_vaddr_def p_filesz_def p_memsz_def ac_simps)

text \<open>The file at \<open>base\<close>: its header and one program header behind it.\<close>

definition one_segment :: "mem \<Rightarrow> addr \<Rightarrow> nat \<Rightarrow> nat \<Rightarrow> nat \<Rightarrow> nat \<Rightarrow> nat \<Rightarrow> bool" where
  "one_segment m base entry off va fs ms \<longleftrightarrow>
     bytes_at m base (elf_header entry 52 1 @ program_header PT_LOAD off va fs ms) \<and>
     kernel_range base 84 \<and> base + 84 < 2 ^ 32 \<and> entry < 2 ^ 32 \<and> off < 2 ^ 32 \<and> va < 2 ^ 32 \<and> fs \<le> ms \<and> ms < 2 ^ 32"

lemma one_segment_fields:
  assumes "one_segment m base entry off va fs ms"
  shows "header_ok m base" "e_entry m base = entry" "e_phnum m base = 1" "e_phoff m base = 52"
    "add32 base (e_phoff m base) = base + 52" "phdr (base + 52) 0 = base + 52"
    "headers_in_kernel m base (base + 52)"
    "p_type m (base + 52) = PT_LOAD" "p_offset m (base + 52) = off" "p_vaddr m (base + 52) = va"
    "p_filesz m (base + 52) = fs" "p_memsz m (base + 52) = ms"
proof -
  have parts: "bytes_at m base (elf_header entry 52 1)" "bytes_at m (base + 52) (program_header PT_LOAD off va fs ms)"
    using assms by (simp_all add: one_segment_def bytes_at_append header_lengths)
  show F: "header_ok m base" "e_entry m base = entry" "e_phnum m base = 1" "e_phoff m base = 52"
    using elf_header_fields [OF parts(1)] assms by (simp_all add: one_segment_def)
  show "p_type m (base + 52) = PT_LOAD" "p_offset m (base + 52) = off" "p_vaddr m (base + 52) = va"
    "p_filesz m (base + 52) = fs" "p_memsz m (base + 52) = ms"
    using program_header_fields [OF parts(2)] assms by (simp_all add: one_segment_def PT_LOAD_def)
  show A: "add32 base (e_phoff m base) = base + 52" "phdr (base + 52) 0 = base + 52"
    using assms F by (simp_all add: one_segment_def add32_def phdr_def)
  have "outside (base + 52 + k)" if "k < 32" for k
    using assms that by (simp add: one_segment_def kernel_range_def add.assoc)
  moreover have "kernel_range base 52" using assms by (simp add: one_segment_def kernel_range_def)
  ultimately show "headers_in_kernel m base (base + 52)" using F A by (simp add: headers_in_kernel_def kernel_range_def)
qed

lemma one_segment_loaded:
  assumes "one_segment m base entry off va fs ms" "84 \<le> sz" "add32 off fs \<le> sz" "range_ok va ms" "range_ok entry 1"
  shows "elf_check_load base sz cap m =
    (\<lparr>er_code = 0, er_last_error = 0, er_entry = entry, er_interp = []\<rparr>, put_bytes m va (segment m base (base + 52)))"
proof -
  note F = one_segment_fields [OF assms(1)]
  let ?m = "put_bytes m va (segment m base (base + 52))"
  have same: "same_outside m ?m"
    using segment_put_same_outside [of m "base + 52" base] F assms(1,4) by (simp add: one_segment_def)
  have k: "kernel_range base 52" using F(7) by (simp add: headers_in_kernel_def)
  have "load_loop base sz (base + 52) 1 ?m = (0, ?m)"
    using load_loop_unfold [OF headers_same [OF same F(7)], of sz 1] ehdr_same [OF same k] F(3) by simp
  then have "load_loop base sz (base + 52) 0 m = (0, ?m)"
    using load_loop_unfold [OF F(7), of sz 0] F(3,6,8-) assms by (simp add: one_segment_def Let_def)
  then show ?thesis
    using F assms ehdr_same [OF same k] by (simp add: elf_check_load_def PT_INTERP_def PT_LOAD_def mul32_def add32_def)
qed


text \<open>the sum of a segment's offset and its size is compared with the size of the file modulo 2^32: a file
  whose segment has the offset \<open>2^32 - d\<close> and the size \<open>d\<close> is accepted, and the \<open>d\<close> bytes of kernel memory
  that lie before the buffer are copied to user memory.\<close>

theorem elf_offset_wrap_leaks:
  assumes "one_segment m base entry (2 ^ 32 - d) va d d" "0 < d" "d \<le> base" "84 \<le> sz" "range_ok va d" "range_ok entry 1"
  shows "er_code (fst (elf_check_load base sz cap m)) = 0 \<and>
    get_bytes (snd (elf_check_load base sz cap m)) va d = get_bytes m (base - d) d"
proof -
  have d: "d < 2 ^ 32" and b: "base < 2 ^ 32" using assms(1) by (simp_all add: one_segment_def)
  have "add32 (2 ^ 32 - d) d \<le> sz" using d by (simp add: add32_def)
  note L = one_segment_loaded [OF assms(1,4) this assms(5,6), of cap]
  have "base + (2 ^ 32 - d) = (base - d) + 2 ^ 32" using d assms(3) by simp
  then have "add32 base (2 ^ 32 - d) = (base - d) mod 2 ^ 32" unfolding add32_def by (simp only: mod_add_self2)
  then have "segment m base (base + 52) = get_bytes m (base - d) d"
    using one_segment_fields [OF assms(1)] b by (simp add: segment_def)
  then show ?thesis using L by (simp add: get_bytes_put)
qed

subsection \<open>Examples\<close>

text \<open>A file of 86 bytes whose segment has two bytes in the file and four in memory; and one whose segment is the
  16 bytes before the buffer.\<close>

definition example_program :: mem where
  "example_program = put_bytes (\<lambda>a. CHR ''K'') 0x1000000
     ((elf_header 0x400000 52 1 @ program_header PT_LOAD 84 0x400000 2 4) @ ''Hi'')"

definition leaking_program :: mem where
  "leaking_program = put_bytes (\<lambda>a. CHR ''K'') 0x1000000
     (elf_header 0x400000 52 1 @ program_header PT_LOAD (2 ^ 32 - 16) 0x400000 16 16)"

lemma bytes_at_put: "bytes_at (put_bytes m a xs) a xs"
  by (simp add: bytes_at_def get_bytes_put)

lemma example_segments:
  "one_segment example_program 0x1000000 0x400000 84 0x400000 2 4"
  "one_segment leaking_program 0x1000000 0x400000 (2 ^ 32 - 16) 0x400000 16 16"
  using bytes_at_put [of "\<lambda>a. CHR ''K''" "0x1000000" "(elf_header 0x400000 52 1 @ program_header PT_LOAD 84 0x400000 2 4) @ ''Hi''"]
    bytes_at_put [of "\<lambda>a. CHR ''K''" "0x1000000" "elf_header 0x400000 52 1 @ program_header PT_LOAD (2 ^ 32 - 16) 0x400000 16 16"]
  unfolding one_segment_def example_program_def leaking_program_def
  by (simp_all add: bytes_at_append kernel_range_def outside_def USER_ELF_MIN_VADDR_def USER_ELF_MAX_VADDR_def
      USER_VADDR_BASE_def USER_VADDR_SIZE_def)

lemma example_ranges: "range_ok 0x400000 1" "range_ok 0x400000 4" "range_ok 0x400000 16"
  by (simp_all add: range_ok_def USER_ELF_MIN_VADDR_def USER_ELF_MAX_VADDR_def USER_VADDR_BASE_def USER_VADDR_SIZE_def)

lemma example_accepted:
  "elf_check_load 0x1000000 86 None example_program =
    (\<lparr>er_code = 0, er_last_error = 0, er_entry = 0x400000, er_interp = []\<rparr>,
     put_bytes example_program 0x400000 (segment example_program 0x1000000 (0x1000000 + 52)))"
  by (rule one_segment_loaded [OF example_segments(1) _ _ example_ranges(2,1)]) (simp_all add: add32_def)

theorem elf_offset_wrap_leaks_witness:
  "get_bytes (snd (elf_check_load 0x1000000 84 None leaking_program)) 0x400000 16 = replicate 16 (CHR ''K'')"
proof -
  have "get_bytes leaking_program (0x1000000 - 16) 16 = replicate 16 (CHR ''K'')"
    by (rule nth_equalityI) (simp_all add: get_bytes_def leaking_program_def put_bytes_def)
  then show ?thesis
    using elf_offset_wrap_leaks [OF example_segments(2) _ _ _ example_ranges(3,1), of 84 None] by simp
qed



end
