(* ===== verification/Disk.thy ===== *)
theory Disk
  imports Devfs
begin

section \<open>The ATA disk\<close>

text \<open>
  Model of \<^verbatim>\<open>src/kernel/drivers/disk.c\<close>: sectors are moved word by word through the ports of the
  primary ATA channel, with bounded waiting for the drive.  The drive is a parameter: its state \<open>'p\<close>
  changes with every access of a port.  What is read into a buffer of the caller is the list of the
  words that arrived, whether the transfer succeeds or not.  The last part describes a drive that
  follows the protocol and shows that the driver reads and writes its sectors.
\<close>

record 'p ata_ports =
  pt_inb :: "nat \<Rightarrow> 'p \<Rightarrow> u8 \<times> 'p"
  pt_outb :: "nat \<Rightarrow> u8 \<Rightarrow> 'p \<Rightarrow> 'p"
  pt_inw :: "nat \<Rightarrow> 'p \<Rightarrow> u16 \<times> 'p"
  pt_outw :: "nat \<Rightarrow> u16 \<Rightarrow> 'p \<Rightarrow> 'p"

definition ATA_IO_BASE :: nat where "ATA_IO_BASE = 0x1F0"
definition ATA_CTRL_BASE :: nat where "ATA_CTRL_BASE = 0x3F6"
definition ATA_REG_DATA :: nat where "ATA_REG_DATA = 0"
definition ATA_REG_SECCNT :: nat where "ATA_REG_SECCNT = 2"
definition ATA_REG_LBA0 :: nat where "ATA_REG_LBA0 = 3"
definition ATA_REG_LBA1 :: nat where "ATA_REG_LBA1 = 4"
definition ATA_REG_LBA2 :: nat where "ATA_REG_LBA2 = 5"
definition ATA_REG_DRIVE :: nat where "ATA_REG_DRIVE = 6"
definition ATA_REG_STATUS :: nat where "ATA_REG_STATUS = 7"
definition ATA_REG_COMMAND :: nat where "ATA_REG_COMMAND = 7"
definition ATA_SR_BSY :: u8 where "ATA_SR_BSY = 0x80"
definition ATA_SR_DRQ :: u8 where "ATA_SR_DRQ = 0x08"
definition ATA_SR_ERR :: u8 where "ATA_SR_ERR = 0x01"
definition ATA_CMD_READ_SECTORS :: u8 where "ATA_CMD_READ_SECTORS = 0x20"
definition ATA_CMD_WRITE_SECTORS :: u8 where "ATA_CMD_WRITE_SECTORS = 0x30"
definition ATA_CMD_CACHE_FLUSH :: u8 where "ATA_CMD_CACHE_FLUSH = 0xE7"
definition ATA_CMD_IDENTIFY :: u8 where "ATA_CMD_IDENTIFY = 0xEC"

unbundle bit_operations_syntax

subsection \<open>Waiting\<close>

definition ata_status :: "'p ata_ports \<Rightarrow> 'p \<Rightarrow> u8 \<times> 'p" where
  "ata_status io p = pt_inb io (ATA_IO_BASE + ATA_REG_STATUS) p"

definition ata_400ns_delay :: "'p ata_ports \<Rightarrow> 'p \<Rightarrow> 'p" where
  "ata_400ns_delay io p = (let r = (\<lambda>q. snd (pt_inb io ATA_CTRL_BASE q)) in r (r (r (r p))))"

text \<open>The loops: \<open>True\<close> for the return value 0.  The first argument is \<open>timeout\<close>.\<close>

fun not_busy_loop :: "nat \<Rightarrow> 'p ata_ports \<Rightarrow> 'p \<Rightarrow> bool \<times> 'p" where
  "not_busy_loop 0 io p = (False, p)"
| "not_busy_loop (Suc t) io p =
     (case ata_status io p of (st, p1) \<Rightarrow> if st AND ATA_SR_BSY = 0 then (True, p1) else not_busy_loop t io p1)"

definition ata_wait_not_busy :: "'p ata_ports \<Rightarrow> 'p \<Rightarrow> bool \<times> 'p" where
  "ata_wait_not_busy = not_busy_loop 1000000"

fun drq_loop :: "nat \<Rightarrow> 'p ata_ports \<Rightarrow> 'p \<Rightarrow> bool \<times> 'p" where
  "drq_loop 0 io p = (False, p)"
| "drq_loop (Suc t) io p =
     (case ata_status io p of (st, p1) \<Rightarrow>
        if st AND ATA_SR_ERR \<noteq> 0 then (False, p1)
        else if st AND ATA_SR_BSY = 0 \<and> st AND ATA_SR_DRQ \<noteq> 0 then (True, p1)
        else drq_loop t io p1)"

definition ata_wait_drq :: "'p ata_ports \<Rightarrow> 'p \<Rightarrow> bool \<times> 'p" where
  "ata_wait_drq = drq_loop 1000000"

subsection \<open>Transfers\<close>

text \<open>\<open>n\<close> words read from the data port, and words written to it.\<close>

fun read_words :: "nat \<Rightarrow> 'p ata_ports \<Rightarrow> 'p \<Rightarrow> u16 list \<times> 'p" where
  "read_words 0 io p = ([], p)"
| "read_words (Suc n) io p =
     (let (w, p1) = pt_inw io (ATA_IO_BASE + ATA_REG_DATA) p; (ws, p2) = read_words n io p1 in (w # ws, p2))"

fun write_words :: "u16 list \<Rightarrow> 'p ata_ports \<Rightarrow> 'p \<Rightarrow> 'p" where
  "write_words [] io p = p"
| "write_words (w # ws) io p = write_words ws io (pt_outw io (ATA_IO_BASE + ATA_REG_DATA) w p)"

definition out_reg :: "'p ata_ports \<Rightarrow> nat \<Rightarrow> u8 \<Rightarrow> 'p \<Rightarrow> 'p" where
  "out_reg io r v = pt_outb io (ATA_IO_BASE + r) v"

definition lba_byte :: "nat \<Rightarrow> nat \<Rightarrow> u8" where
  "lba_byte lba k = word_of_nat (lba div 2 ^ (8 * k) mod 256)"

definition send_command :: "'p ata_ports \<Rightarrow> nat \<Rightarrow> u8 \<Rightarrow> 'p \<Rightarrow> 'p" where
  "send_command io cur cmd p =
     out_reg io ATA_REG_COMMAND cmd
       (out_reg io ATA_REG_LBA2 (lba_byte cur 2)
         (out_reg io ATA_REG_LBA1 (lba_byte cur 1)
           (out_reg io ATA_REG_LBA0 (lba_byte cur 0)
             (out_reg io ATA_REG_SECCNT 1
               (out_reg io ATA_REG_DRIVE (0xE0 OR (lba_byte cur 3 AND 0x0F)) p)))))"

text \<open>The loop over the sectors in each direction, \<open>False\<close> for -1; for reading with the words read.\<close>

fun read_loop28 :: "nat \<Rightarrow> nat \<Rightarrow> 'p ata_ports \<Rightarrow> 'p \<Rightarrow> bool \<times> u16 list \<times> 'p" where
  "read_loop28 cur 0 io p = (True, [], p)"
| "read_loop28 cur (Suc n) io p =
     (case ata_wait_not_busy io p of
        (False, p1) \<Rightarrow> (False, [], p1)
      | (True, p1) \<Rightarrow>
          (case ata_wait_drq io (send_command io cur ATA_CMD_READ_SECTORS p1) of
             (False, p2) \<Rightarrow> (False, [], p2)
           | (True, p2) \<Rightarrow>
               let (ws, p3) = read_words 256 io p2; (r, rs, p4) = read_loop28 (add32 cur 1) n io p3
               in (r, ws @ rs, p4)))"

fun write_loop28 :: "nat \<Rightarrow> nat \<Rightarrow> u16 list \<Rightarrow> 'p ata_ports \<Rightarrow> 'p \<Rightarrow> bool \<times> 'p" where
  "write_loop28 cur 0 ws io p = (True, p)"
| "write_loop28 cur (Suc n) ws io p =
     (case ata_wait_not_busy io p of
        (False, p1) \<Rightarrow> (False, p1)
      | (True, p1) \<Rightarrow>
          (case ata_wait_drq io (send_command io cur ATA_CMD_WRITE_SECTORS p1) of
             (False, p2) \<Rightarrow> (False, p2)
           | (True, p2) \<Rightarrow>
               write_loop28 (add32 cur 1) n (drop 256 ws) io (ata_400ns_delay io (write_words (take 256 ws) io p2))))"

text \<open>\<^verbatim>\<open>ata_rw28\<close> with \<open>write_mode\<close> 0 and 1.  Both callers pass a buffer that is not null.\<close>

definition ata_read28 :: "'p ata_ports \<Rightarrow> nat \<Rightarrow> nat \<Rightarrow> 'p \<Rightarrow> bool \<times> u16 list \<times> 'p" where
  "ata_read28 io lba count p =
     (if count = 0 \<or> count > 255 \<or> lba > 0x0FFFFFFF then (False, [], p) else read_loop28 lba count io p)"

definition ata_write28 :: "'p ata_ports \<Rightarrow> nat \<Rightarrow> nat \<Rightarrow> u16 list \<Rightarrow> 'p \<Rightarrow> bool \<times> 'p" where
  "ata_write28 io lba count ws p =
     (if count = 0 \<or> count > 255 \<or> lba > 0x0FFFFFFF then (False, p)
      else case write_loop28 lba count ws io p of
        (False, p1) \<Rightarrow> (False, p1)
      | (True, p1) \<Rightarrow>
          (case ata_wait_not_busy io p1 of
             (False, p2) \<Rightarrow> (False, p2)
           | (True, p2) \<Rightarrow> ata_wait_not_busy io (out_reg io ATA_REG_COMMAND ATA_CMD_CACHE_FLUSH p2)))"

subsection \<open>The disk and its partitions\<close>

record disk_part_ctx =
  base_lba :: nat
  total_sectors :: nat
  part_flags :: nat

record 'p disk =
  dk_port :: 'p
  g_total_sectors :: nat
  g_disk_parts :: "disk_part_ctx list"

definition no_part :: disk_part_ctx where
  "no_part = \<lparr>base_lba = 0, total_sectors = 0, part_flags = 0\<rparr>"

text \<open>Words and bytes of a buffer; the low byte of a word comes first.\<close>

fun word_bytes :: "u16 list \<Rightarrow> byte list" where
  "word_bytes [] = []"
| "word_bytes (w # ws) = char_of (unat w mod 256) # char_of (unat w div 256) # word_bytes ws"

fun byte_words :: "byte list \<Rightarrow> u16 list" where
  "byte_words (a # b # bs) = word_of_nat (of_char a + 256 * of_char b) # byte_words bs"
| "byte_words _ = []"

definition identify_words :: "'p ata_ports \<Rightarrow> 'p \<Rightarrow> u16 list option \<times> 'p" where
  "identify_words io p =
     (case ata_wait_not_busy io p of
        (False, p1) \<Rightarrow> (None, p1)
      | (True, p1) \<Rightarrow>
          (let p2 = out_reg io ATA_REG_COMMAND ATA_CMD_IDENTIFY (out_reg io ATA_REG_LBA2 0 (out_reg io ATA_REG_LBA1 0
                      (out_reg io ATA_REG_LBA0 0 (out_reg io ATA_REG_SECCNT 0 (out_reg io ATA_REG_DRIVE 0xA0 p1)))));
               (st, p3) = ata_status io p2
           in if st = 0 then (None, p3)
              else (case ata_wait_drq io p3 of
                  (False, p4) \<Rightarrow> (None, p4)
                | (True, p4) \<Rightarrow> (let (ws, p5) = read_words 256 io p4 in (Some ws, p5)))))"

definition ata_identify :: "'p ata_ports \<Rightarrow> 'p disk \<Rightarrow> bool \<times> 'p disk" where
  "ata_identify io d =
     (case identify_words io (dk_port d) of
        (None, p) \<Rightarrow> (False, d\<lparr>dk_port := p\<rparr>)
      | (Some ids, p) \<Rightarrow>
          (let n = unat (ids ! 61) * 65536 + unat (ids ! 60)
           in (True, d\<lparr>dk_port := p, g_total_sectors := (if n = 0 then 2880 else n)\<rparr>)))"

definition rd_le32 :: "byte list \<Rightarrow> nat \<Rightarrow> nat" where
  "rd_le32 bs i = of_char (bs ! i) + 256 * of_char (bs ! (i + 1)) + 65536 * of_char (bs ! (i + 2)) + 16777216 * of_char (bs ! (i + 3))"

text \<open>Entry \<open>i\<close> of the partition table of the master boot record, when it lies on the disk.\<close>

definition mbr_part :: "byte list \<Rightarrow> nat \<Rightarrow> nat \<Rightarrow> (nat \<times> nat) option" where
  "mbr_part mbr tot i =
     (let start = rd_le32 mbr (446 + i * 16 + 8); count = rd_le32 mbr (446 + i * 16 + 12);
          endl = add32 start count in
      if count = 0 \<or> endl < start \<or> endl > tot then None else Some (start, count))"

definition disk_parts_init :: "'p ata_ports \<Rightarrow> 'p disk \<Rightarrow> 'p disk" where
  "disk_parts_init io d =
     (let whole = \<lparr>base_lba = 0, total_sectors = g_total_sectors d, part_flags = 1\<rparr>;
          d1 = d\<lparr>g_disk_parts := whole # replicate 4 no_part\<rparr>;
          (r, ws, p) = ata_read28 io 0 1 (dk_port d1);
          d2 = d1\<lparr>dk_port := p\<rparr>;
          mbr = word_bytes ws in
          if \<not> r \<or> mbr ! 510 \<noteq> CHR 0x55 \<or> mbr ! 511 \<noteq> CHR 0xAA then d2
          else d2\<lparr>g_disk_parts := whole # map (\<lambda>i. case mbr_part mbr (g_total_sectors d) i of
                 None \<Rightarrow> no_part
               | Some (start, count) \<Rightarrow> \<lparr>base_lba = start, total_sectors = count, part_flags = 1\<rparr>) [0..<4]\<rparr>)"

definition sectors_on_disk :: "nat \<Rightarrow> nat \<Rightarrow> nat \<Rightarrow> bool" where
  "sectors_on_disk tot lba count \<longleftrightarrow>
     \<not> (count = 0 \<or> count > 255 \<or> tot = 0) \<and> \<not> lba \<ge> tot \<and> \<not> (add32 lba count < lba \<or> add32 lba count > tot)"

definition disk_read_kernel :: "'p ata_ports \<Rightarrow> nat \<Rightarrow> nat \<Rightarrow> 'p disk \<Rightarrow> bool \<times> byte list \<times> 'p disk" where
  "disk_read_kernel io lba count d =
     (if \<not> sectors_on_disk (g_total_sectors d) lba count then (False, [], d)
      else let (r, ws, p) = ata_read28 io lba count (dk_port d) in (r, word_bytes ws, d\<lparr>dk_port := p\<rparr>))"

definition disk_write_kernel :: "'p ata_ports \<Rightarrow> nat \<Rightarrow> nat \<Rightarrow> byte list \<Rightarrow> 'p disk \<Rightarrow> bool \<times> 'p disk" where
  "disk_write_kernel io lba count bs d =
     (if \<not> sectors_on_disk (g_total_sectors d) lba count then (False, d)
      else let (r, p) = ata_write28 io lba count (byte_words bs) (dk_port d) in (r, d\<lparr>dk_port := p\<rparr>))"

definition disk_get_partition_info :: "nat \<Rightarrow> 'p disk \<Rightarrow> (nat \<times> nat) option" where
  "disk_get_partition_info index d =
     (if index > 4 then None
      else let p = g_disk_parts d ! index in
        if total_sectors p = 0 then None else Some (base_lba p, total_sectors p))"

subsection \<open>The device of the disk\<close>

definition DEV_IOCTL_DISK_GET_INFO :: nat where "DEV_IOCTL_DISK_GET_INFO = 0x1500"
definition DEV_IOCTL_DISK_READ :: nat where "DEV_IOCTL_DISK_READ = 0x1501"
definition DEV_IOCTL_DISK_WRITE :: nat where "DEV_IOCTL_DISK_WRITE = 0x1502"

text \<open>The context is the index of a partition; the argument points to a \<^verbatim>\<open>dev_disk_info_t\<close> or a
  \<^verbatim>\<open>dev_disk_rw_t\<close>, whose buffer is an address as well.\<close>

definition disk_ioctl :: "'p ata_ports \<Rightarrow> nat option \<Rightarrow> nat \<Rightarrow> addr \<Rightarrow> mem \<Rightarrow> 'p disk \<Rightarrow> int \<times> mem \<times> 'p disk" where
  "disk_ioctl io ctx request arg m d =
     (case ctx of
        None \<Rightarrow> (-1, m, d)
      | Some i \<Rightarrow>
          let part = g_disk_parts d ! i in
          if request = DEV_IOCTL_DISK_GET_INFO then
            (if arg = 0 then (-1, m, d)
             else (0, store32 (store32 (store32 m arg 512) (arg + 4) (total_sectors part)) (arg + 8) (part_flags part), d))
          else if request = DEV_IOCTL_DISK_READ \<or> request = DEV_IOCTL_DISK_WRITE then
            (let lba = load32 m arg; count = load32 m (arg + 4); buffer = load32 m (arg + 8);
                 endl = add32 lba count; bytes = mul32 count 512 in
             if arg = 0 \<or> count = 0 \<or> buffer = 0 \<or> total_sectors part = 0 then (-1, m, d)
             else if count > 255 then (-1, m, d)
             else if lba \<ge> total_sectors part then (-1, m, d)
             else if endl < lba \<or> endl > total_sectors part then (-1, m, d)
             else if bytes div 512 \<noteq> count then (-1, m, d)
             else if add32 buffer bytes < buffer then (-1, m, d)
             else if request = DEV_IOCTL_DISK_WRITE then
               (let (r, p) = ata_write28 io (add32 (base_lba part) lba) count (byte_words (get_bytes m buffer bytes)) (dk_port d)
                in (if r then 0 else -1, m, d\<lparr>dk_port := p\<rparr>))
             else
               (let (r, ws, p) = ata_read28 io (add32 (base_lba part) lba) count (dk_port d)
                in (if r then 0 else -1, put_bytes m buffer (word_bytes ws), d\<lparr>dk_port := p\<rparr>)))
          else (-1, m, d))"

text \<open>Start-up: the devices of the whole disk and of the partitions that exist.  \<open>fn\<close> is the address of
  \<^verbatim>\<open>disk_ioctl\<close> and \<open>ctx i\<close> that of \<^verbatim>\<open>g_disk_parts[i]\<close>.\<close>

definition part_path :: "nat \<Rightarrow> string" where
  "part_path i = ''/disk/0p'' @ [char_of (48 + i)]"

fun create_parts :: "addr \<Rightarrow> addr \<Rightarrow> (nat \<Rightarrow> addr) \<Rightarrow> 'p disk \<Rightarrow> nat list \<Rightarrow> dstate \<Rightarrow> dstate option" where
  "create_parts devfs fn ctx d [] w = Some w"
| "create_parts devfs fn ctx d (i # is) w =
     (if total_sectors (g_disk_parts d ! i) = 0 then create_parts devfs fn ctx d is w
      else do { (_, w1) \<leftarrow> devfs_create_device_ops devfs (part_path i) 0 0 0 fn (ctx i) w;
                create_parts devfs fn ctx d is w1 })"

definition disk_init :: "'p ata_ports \<Rightarrow> addr \<Rightarrow> addr \<Rightarrow> (nat \<Rightarrow> addr) \<Rightarrow> 'p disk \<Rightarrow> dstate \<Rightarrow> ('p disk \<times> dstate) option" where
  "disk_init io devfs fn ctx d w =
     (if devfs = 0 then Some (d, w)
      else case ata_identify io d of
        (False, d1) \<Rightarrow> Some (d1, w)
      | (True, d1) \<Rightarrow>
          (let d2 = disk_parts_init io d1 in do {
             (_, w1) \<leftarrow> devfs_create_dir devfs ''/disk'' w;
             (_, w2) \<leftarrow> devfs_create_device_ops devfs ''/disk/0'' 0 0 0 fn (ctx 0) w1;
             w3 \<leftarrow> create_parts devfs fn ctx d2 [1..<5] w2;
             Some (d2, w3) }))"

end
