(* ===== verification/Fat32.thy ===== *)
theory Fat32
  imports Disk Byte_Lists
begin

section \<open>The FAT32 file system: clusters, directories and paths\<close>

text \<open>
  Model of the first part of \<^verbatim>\<open>src/kernel/drivers/filesystem/fat32.c\<close>: access to the partition, the file
  allocation table, directory entries, short and long names, and the resolution of paths.  Every
  function works on the disk of the driver; it returns \<open>None\<close> where the code returns -1 and the
  disk that it leaves.  Loops that follow a chain of clusters without a bound are partial functions:
  their outer \<open>None\<close> means that the loop does not end.  A directory entry is its 32 bytes.
\<close>

unbundle bit_operations_syntax

definition FAT32_ATTR_VOLUME_ID :: u8 where "FAT32_ATTR_VOLUME_ID = 0x08"
definition FAT32_ATTR_DIR :: u8 where "FAT32_ATTR_DIR = 0x10"
definition FAT32_ATTR_ARCHIVE :: u8 where "FAT32_ATTR_ARCHIVE = 0x20"
definition FAT32_ATTR_LFN :: u8 where "FAT32_ATTR_LFN = 0x0F"
definition FAT32_EOC :: nat where "FAT32_EOC = 0x0FFFFFFF"
definition FAT32_DISK_ATA :: nat where "FAT32_DISK_ATA = 0"

record fat32_fs =
  disk_kind :: nat
  disk_index :: nat
  part_start_lba :: nat
  part_total_sectors :: nat
  bytes_per_sector :: nat
  sectors_per_cluster :: nat
  reserved_sectors :: nat
  num_fats :: nat
  fat_size_sectors :: nat
  root_cluster :: nat
  fat_start_lba :: nat
  data_start_lba :: nat

text \<open>\<^verbatim>\<open>if (f(...) != 0) return -1;\<close> and going on with what \<open>f\<close> stored.\<close>

definition and_then :: "('d \<Rightarrow> 'a option \<times> 'd) \<Rightarrow> ('a \<Rightarrow> 'd \<Rightarrow> 'b option \<times> 'd) \<Rightarrow> 'd \<Rightarrow> 'b option \<times> 'd" where
  "and_then f g d = (case f d of (None, e) \<Rightarrow> (None, e) | (Some a, e) \<Rightarrow> g a e)"

subsection \<open>The partition and the table\<close>

definition sectors_in_part :: "fat32_fs \<Rightarrow> nat \<Rightarrow> nat \<Rightarrow> bool" where
  "sectors_in_part fs rel_lba count \<longleftrightarrow> count \<noteq> 0 \<and> \<not> rel_lba \<ge> part_total_sectors fs \<and>
     \<not> (add32 rel_lba count < rel_lba \<or> add32 rel_lba count > part_total_sectors fs) \<and> disk_kind fs = FAT32_DISK_ATA"

definition fat32_read_sectors :: "'p ata_ports \<Rightarrow> fat32_fs \<Rightarrow> nat \<Rightarrow> nat \<Rightarrow> 'p disk \<Rightarrow> byte list option \<times> 'p disk" where
  "fat32_read_sectors io fs rel_lba count d =
     (if \<not> sectors_in_part fs rel_lba count then (None, d)
      else case disk_read_kernel io (add32 (part_start_lba fs) rel_lba) count d of
        (r, bs, e) \<Rightarrow> (if r then Some bs else None, e))"

definition fat32_write_sectors :: "'p ata_ports \<Rightarrow> fat32_fs \<Rightarrow> nat \<Rightarrow> nat \<Rightarrow> byte list \<Rightarrow> 'p disk \<Rightarrow> unit option \<times> 'p disk" where
  "fat32_write_sectors io fs rel_lba count bs d =
     (if \<not> sectors_in_part fs rel_lba count then (None, d)
      else case disk_write_kernel io (add32 (part_start_lba fs) rel_lba) count bs d of
        (r, e) \<Rightarrow> (if r then Some () else None, e))"

definition fat32_cluster_to_rel_lba :: "fat32_fs \<Rightarrow> nat \<Rightarrow> nat" where
  "fat32_cluster_to_rel_lba fs cluster = add32 (data_start_lba fs) (mul32 (sub32 cluster 2) (sectors_per_cluster fs))"

definition fat32_cluster_size :: "fat32_fs \<Rightarrow> nat" where
  "fat32_cluster_size fs = mul32 (sectors_per_cluster fs) (bytes_per_sector fs)"

definition fat32_max_cluster :: "fat32_fs \<Rightarrow> nat" where
  "fat32_max_cluster fs =
     (if part_total_sectors fs \<le> data_start_lba fs \<or> sectors_per_cluster fs = 0 then 1
      else add32 ((part_total_sectors fs - data_start_lba fs) div sectors_per_cluster fs) 1)"

definition fat32_is_eoc :: "nat \<Rightarrow> bool" where
  "fat32_is_eoc cluster \<longleftrightarrow> cluster \<ge> 0x0FFFFFF8"

text \<open>\<^verbatim>\<open>memcpy(&bs[off], xs, ...)\<close>\<close>

definition patch :: "byte list \<Rightarrow> nat \<Rightarrow> byte list \<Rightarrow> byte list" where
  "patch bs off xs = take off bs @ xs @ drop (off + length xs) bs"

definition fat32_fat_get :: "'p ata_ports \<Rightarrow> fat32_fs \<Rightarrow> nat \<Rightarrow> 'p disk \<Rightarrow> nat option \<times> 'p disk" where
  "fat32_fat_get io fs cluster d =
     (if cluster < 2 then (None, d)
      else let fat_off = mul32 cluster 4; rel_sec = add32 (fat_start_lba fs) (fat_off div 512) in
        and_then (fat32_read_sectors io fs rel_sec 1) (\<lambda>sec e. (Some (rd_le32 sec (fat_off mod 512) mod 2 ^ 28), e)) d)"

text \<open>The entry in each copy of the table from number \<open>fat_i\<close> on; its four highest bits are kept.\<close>

primrec fat_set_loop :: "'p ata_ports \<Rightarrow> fat32_fs \<Rightarrow> nat \<Rightarrow> nat \<Rightarrow> nat \<Rightarrow> nat list \<Rightarrow> 'p disk \<Rightarrow> unit option \<times> 'p disk" where
  "fat_set_loop io fs rel_sec_in_fat off newv [] d = (Some (), d)"
| "fat_set_loop io fs rel_sec_in_fat off newv (fat_i # is) d =
     (let rel_sec = add32 (add32 (fat_start_lba fs) (mul32 fat_i (fat_size_sectors fs))) rel_sec_in_fat in
      and_then (fat32_read_sectors io fs rel_sec 1) (\<lambda>sec.
        let cur = rd_le32 sec off; cur1 = cur div 2 ^ 28 * 2 ^ 28 + newv in
        and_then (fat32_write_sectors io fs rel_sec 1 (patch sec off (le32 cur1))) (\<lambda>_.
          fat_set_loop io fs rel_sec_in_fat off newv is)) d)"

definition fat32_fat_set :: "'p ata_ports \<Rightarrow> fat32_fs \<Rightarrow> nat \<Rightarrow> nat \<Rightarrow> 'p disk \<Rightarrow> unit option \<times> 'p disk" where
  "fat32_fat_set io fs cluster v d =
     (if cluster < 2 then (None, d)
      else let fat_off = mul32 cluster 4 in
        fat_set_loop io fs (fat_off div 512) (fat_off mod 512) (v mod 2 ^ 28) [0..<num_fats fs] d)"

primrec zero_loop :: "'p ata_ports \<Rightarrow> fat32_fs \<Rightarrow> nat \<Rightarrow> nat list \<Rightarrow> 'p disk \<Rightarrow> unit option \<times> 'p disk" where
  "zero_loop io fs rel [] d = (Some (), d)"
| "zero_loop io fs rel (s # ss) d =
     and_then (fat32_write_sectors io fs (add32 rel s) 1 (replicate 512 NUL)) (\<lambda>_. zero_loop io fs rel ss) d"

definition fat32_zero_cluster :: "'p ata_ports \<Rightarrow> fat32_fs \<Rightarrow> nat \<Rightarrow> 'p disk \<Rightarrow> unit option \<times> 'p disk" where
  "fat32_zero_cluster io fs cluster d =
     (if cluster < 2 then (None, d)
      else zero_loop io fs (fat32_cluster_to_rel_lba fs cluster) [0..<sectors_per_cluster fs] d)"

primrec alloc_loop :: "'p ata_ports \<Rightarrow> fat32_fs \<Rightarrow> nat list \<Rightarrow> 'p disk \<Rightarrow> nat option \<times> 'p disk" where
  "alloc_loop io fs [] d = (None, d)"
| "alloc_loop io fs (c # cs) d =
     and_then (fat32_fat_get io fs c) (\<lambda>v.
       if v = 0 then
         and_then (fat32_fat_set io fs c FAT32_EOC) (\<lambda>_.
           and_then (fat32_zero_cluster io fs c) (\<lambda>_ e. (Some c, e)))
       else alloc_loop io fs cs) d"

definition fat32_alloc_cluster :: "'p ata_ports \<Rightarrow> fat32_fs \<Rightarrow> 'p disk \<Rightarrow> nat option \<times> 'p disk" where
  "fat32_alloc_cluster io fs = alloc_loop io fs [2..<fat32_max_cluster fs + 1]"

text \<open>The first argument counts the rounds that are left.\<close>

primrec free_loop :: "nat \<Rightarrow> 'p ata_ports \<Rightarrow> fat32_fs \<Rightarrow> nat \<Rightarrow> 'p disk \<Rightarrow> unit option \<times> 'p disk" where
  "free_loop 0 io fs c d = (Some (), d)"
| "free_loop (Suc n) io fs c d =
     (if c < 2 then (Some (), d)
      else and_then (fat32_fat_get io fs c) (\<lambda>nxt.
        and_then (fat32_fat_set io fs c 0) (\<lambda>_.
          if fat32_is_eoc nxt \<or> nxt < 2 then (\<lambda>e. (Some (), e)) else free_loop n io fs nxt)) d)"

definition fat32_free_chain :: "'p ata_ports \<Rightarrow> fat32_fs \<Rightarrow> nat \<Rightarrow> 'p disk \<Rightarrow> unit option \<times> 'p disk" where
  "fat32_free_chain io fs first_cluster d =
     (if first_cluster < 2 then (Some (), d)
      else free_loop (add32 (fat32_max_cluster fs) 8) io fs first_cluster d)"

fun chain_last_loop :: "nat \<Rightarrow> 'p ata_ports \<Rightarrow> fat32_fs \<Rightarrow> nat \<Rightarrow> nat \<Rightarrow> 'p disk \<Rightarrow> (nat \<times> nat) option \<times> 'p disk" where
  "chain_last_loop n io fs c len d =
     and_then (fat32_fat_get io fs c) (\<lambda>nxt.
       if fat32_is_eoc nxt \<or> nxt < 2 then (\<lambda>e. (Some (c, len + 1), e))
       else (case n of 0 \<Rightarrow> (\<lambda>e. (None, e)) | Suc m \<Rightarrow> chain_last_loop m io fs nxt (len + 1))) d"

definition fat32_chain_last :: "'p ata_ports \<Rightarrow> fat32_fs \<Rightarrow> nat \<Rightarrow> 'p disk \<Rightarrow> (nat \<times> nat) option \<times> 'p disk" where
  "fat32_chain_last io fs first_cluster d =
     (if first_cluster < 2 then (None, d)
      else chain_last_loop (add32 (fat32_max_cluster fs) 8) io fs first_cluster 0 d)"

subsection \<open>Names\<close>

text \<open>The second functions of these names in the sources; they work on \<^verbatim>\<open>int\<close> values of \<^verbatim>\<open>char\<close>.\<close>

definition ascii_tolower :: "byte \<Rightarrow> byte" where
  "ascii_tolower c = (if 65 \<le> (of_char c :: nat) \<and> (of_char c :: nat) \<le> 90 then char_of (of_char c + 32 :: nat) else c)"

definition ascii_toupper :: "byte \<Rightarrow> byte" where
  "ascii_toupper c = (if 97 \<le> (of_char c :: nat) \<and> (of_char c :: nat) \<le> 122 then char_of (of_char c - 32 :: nat) else c)"

fun name_eq_ci :: "string \<Rightarrow> string \<Rightarrow> bool" where
  "name_eq_ci (a # as) (b # bs) \<longleftrightarrow> ascii_tolower a = ascii_tolower b \<and> name_eq_ci as bs"
| "name_eq_ci as bs \<longleftrightarrow> as = [] \<and> bs = []"

abbreviation (input) cstring :: "byte list \<Rightarrow> string" where
  "cstring \<equiv> takeWhile ((\<noteq>) NUL)"

text \<open>The buffers are longer than any short name, so its bounds checks never cut it.\<close>

definition decode_short_name :: "byte list \<Rightarrow> string" where
  "decode_short_name e =
     cstring (map ascii_tolower (takeWhile ((\<noteq>) CHR '' '') (take 8 e)) @
       (if e ! 8 \<noteq> CHR '' '' then CHR ''.'' # map ascii_tolower (takeWhile ((\<noteq>) CHR '' '') (take 3 (drop 8 e))) else []))"

text \<open>\<open>n\<close> characters of two bytes at offset \<open>i\<close> of an entry, up to one that is 0 or 0xFFFF; their low bytes.\<close>

fun ucs_units :: "byte list \<Rightarrow> nat \<Rightarrow> nat \<Rightarrow> nat list" where
  "ucs_units e i 0 = []"
| "ucs_units e i (Suc n) = (of_char (e ! i) + 256 * of_char (e ! (i + 1))) # ucs_units e (i + 2) n"

definition ucs_bytes :: "byte list \<Rightarrow> nat \<Rightarrow> nat \<Rightarrow> byte list" where
  "ucs_bytes e i n = map char_of (takeWhile (\<lambda>u. u \<noteq> 0 \<and> u \<noteq> 0xFFFF) (ucs_units e i n))"

definition lfn_extract_piece :: "byte list \<Rightarrow> string" where
  "lfn_extract_piece e = cstring (ucs_bytes e 1 5 @ ucs_bytes e 14 6 @ ucs_bytes e 28 2)"

text \<open>The 20 pieces of a long name: \<open>None\<close> for those not seen.\<close>

type_synonym lfn_state = "string option list"

definition no_lfn :: lfn_state where "no_lfn = replicate 20 None"

definition e_attr :: "byte list \<Rightarrow> u8" where "e_attr e = word_of_nat (of_char (e ! 11))"
definition e_first_cluster :: "byte list \<Rightarrow> nat" where
  "e_first_cluster e = 65536 * (of_char (e ! 20) + 256 * of_char (e ! 21)) + (of_char (e ! 26) + 256 * of_char (e ! 27))"
definition e_file_size :: "byte list \<Rightarrow> nat" where "e_file_size e = rd_le32 e 28"

definition add_piece :: "byte list \<Rightarrow> lfn_state \<Rightarrow> lfn_state" where
  "add_piece e lfn =
     (let idx = (of_char (e ! 0) :: nat) mod 32 in
      if idx > 0 \<and> idx \<le> 20 then lfn[idx - 1 := Some (lfn_extract_piece e)] else lfn)"

definition entry_name :: "byte list \<Rightarrow> lfn_state \<Rightarrow> string" where
  "entry_name e lfn =
     (if lfn ! 0 \<noteq> None then take 255 (concat (map the (takeWhile (\<lambda>p. p \<noteq> None) lfn)))
      else decode_short_name e)"

text \<open>What the scans of a directory make of an entry: the end, nothing but a new state of the long name, or a name.\<close>

datatype dir_item = Dir_end | Dir_skip lfn_state | Dir_entry string

definition classify :: "byte list \<Rightarrow> lfn_state \<Rightarrow> dir_item" where
  "classify e lfn =
     (if e ! 0 = CHR 0x00 then Dir_end
      else if e ! 0 = CHR 0xE5 then Dir_skip no_lfn
      else if e_attr e = FAT32_ATTR_LFN then Dir_skip (add_piece e lfn)
      else if e_attr e AND FAT32_ATTR_VOLUME_ID \<noteq> 0 then Dir_skip no_lfn
      else Dir_entry (entry_name e lfn))"

definition entry_at :: "byte list \<Rightarrow> nat \<Rightarrow> byte list" where
  "entry_at sec off = take 32 (drop off sec)"

definition entry_offsets :: "nat list" where
  "entry_offsets = map (\<lambda>i. 32 * i) [0..<16]"

subsection \<open>Directories\<close>

record fat32_found =
  n_attr :: u8
  n_first_cluster :: nat
  n_size :: nat
  n_name :: string
  owner_dir_cluster :: nat
  entry_rel_sector :: nat
  entry_offset :: nat

definition found_at :: "byte list \<Rightarrow> string \<Rightarrow> nat \<Rightarrow> nat \<Rightarrow> nat \<Rightarrow> fat32_found" where
  "found_at e name dir rel off = \<lparr>n_attr = e_attr e, n_first_cluster = e_first_cluster e, n_size = e_file_size e, n_name = name,
     owner_dir_cluster = dir, entry_rel_sector = rel, entry_offset = off\<rparr>"

text \<open>The entries of a sector: \<open>Inl\<close> what \<^verbatim>\<open>fat32_dir_find\<close> returns, or \<open>Inr\<close> the state to go on with.\<close>

primrec find_in_sector :: "nat \<Rightarrow> string \<Rightarrow> byte list \<Rightarrow> nat \<Rightarrow> nat list \<Rightarrow> lfn_state \<Rightarrow> fat32_found option + lfn_state" where
  "find_in_sector dir name sec rel [] lfn = Inr lfn"
| "find_in_sector dir name sec rel (off # offs) lfn =
     (case classify (entry_at sec off) lfn of
        Dir_end \<Rightarrow> Inl None
      | Dir_skip lfn1 \<Rightarrow> find_in_sector dir name sec rel offs lfn1
      | Dir_entry decoded \<Rightarrow>
          if name_eq_ci decoded name then Inl (Some (found_at (entry_at sec off) decoded dir rel off))
          else find_in_sector dir name sec rel offs no_lfn)"

primrec find_in_cluster :: "'p ata_ports \<Rightarrow> fat32_fs \<Rightarrow> nat \<Rightarrow> string \<Rightarrow> nat \<Rightarrow> nat list \<Rightarrow> lfn_state \<Rightarrow> 'p disk \<Rightarrow>
    (fat32_found option + lfn_state) \<times> 'p disk" where
  "find_in_cluster io fs dir name rel [] lfn d = (Inr lfn, d)"
| "find_in_cluster io fs dir name rel (s # ss) lfn d =
     (case fat32_read_sectors io fs (add32 rel s) 1 d of
        (None, e) \<Rightarrow> (Inl None, e)
      | (Some sec, e) \<Rightarrow>
          (case find_in_sector dir name sec (add32 rel s) entry_offsets lfn of
             Inl r \<Rightarrow> (Inl r, e)
           | Inr lfn1 \<Rightarrow> find_in_cluster io fs dir name rel ss lfn1 e))"

partial_function (option) find_loop :: "'p ata_ports \<Rightarrow> fat32_fs \<Rightarrow> nat \<Rightarrow> string \<Rightarrow> nat \<Rightarrow> lfn_state \<Rightarrow> 'p disk \<Rightarrow>
    (fat32_found option \<times> 'p disk) option" where
  "find_loop io fs dir name c lfn d =
     (if c < 2 \<or> fat32_is_eoc c then Some (None, d)
      else case find_in_cluster io fs dir name (fat32_cluster_to_rel_lba fs c) [0..<sectors_per_cluster fs] lfn d of
        (Inl r, e) \<Rightarrow> Some (r, e)
      | (Inr lfn1, e) \<Rightarrow>
          (case fat32_fat_get io fs c e of
             (None, e1) \<Rightarrow> Some (None, e1)
           | (Some nxt, e1) \<Rightarrow> find_loop io fs dir name nxt lfn1 e1))"

definition fat32_dir_find :: "'p ata_ports \<Rightarrow> fat32_fs \<Rightarrow> nat \<Rightarrow> string \<Rightarrow> 'p disk \<Rightarrow> (fat32_found option \<times> 'p disk) option" where
  "fat32_dir_find io fs dir name d = find_loop io fs dir name dir no_lfn d"

subsection \<open>Paths\<close>

definition root_found :: "fat32_fs \<Rightarrow> fat32_found" where
  "root_found fs = \<lparr>n_attr = FAT32_ATTR_DIR, n_first_cluster = root_cluster fs, n_size = 0, n_name = ''/'',
     owner_dir_cluster = 0, entry_rel_sector = 0, entry_offset = 0\<rparr>"

definition dir_cluster_of :: "fat32_fs \<Rightarrow> fat32_found \<Rightarrow> nat" where
  "dir_cluster_of fs f = (if n_first_cluster f \<noteq> 0 then n_first_cluster f else root_cluster fs)"

text \<open>\<open>seg\<close> is the component read so far and \<open>found\<close> the entry found last, \<open>None\<close> while the variable is not set;
  a path without a component would copy it then, which is outside the model.\<close>

primrec resolve_loop :: "'p ata_ports \<Rightarrow> fat32_fs \<Rightarrow> string \<Rightarrow> string \<Rightarrow> nat \<Rightarrow> fat32_found option \<Rightarrow> 'p disk \<Rightarrow>
    (fat32_found option \<times> 'p disk) option" where
  "resolve_loop io fs [] seg cur found d =
     (if seg = [] then map_option (\<lambda>f. (Some f, d)) found
      else fat32_dir_find io fs cur seg d)"
| "resolve_loop io fs (ch # path) seg cur found d =
     (if ch = CHR ''/'' then
        if seg = [] then resolve_loop io fs path [] cur found d
        else (case fat32_dir_find io fs cur seg d of
            None \<Rightarrow> None
          | Some (None, e) \<Rightarrow> Some (None, e)
          | Some (Some f, e) \<Rightarrow> resolve_loop io fs path [] (dir_cluster_of fs f) (Some f) e)
      else if length seg + 1 \<ge> 256 then Some (None, d)
      else resolve_loop io fs path (seg @ [ch]) cur found d)"

definition fat32_resolve :: "'p ata_ports \<Rightarrow> fat32_fs \<Rightarrow> string \<Rightarrow> 'p disk \<Rightarrow> (fat32_found option \<times> 'p disk) option" where
  "fat32_resolve io fs path d =
     (if path = [] \<or> hd path \<noteq> CHR ''/'' then Some (None, d)
      else if path = ''/'' then Some (Some (root_found fs), d)
      else resolve_loop io fs path [] (root_cluster fs) None d)"

text \<open>Trailing slashes are left out, as long as something remains.\<close>

definition strip_slashes :: "string \<Rightarrow> string" where
  "strip_slashes path = rev (dropWhile ((=) CHR ''/'') (rev path))"

definition base_name :: "string \<Rightarrow> string" where
  "base_name path = rev (takeWhile ((\<noteq>) CHR ''/'') (rev path))"

text \<open>The cluster of the parent directory and the name.  A parent path of 256 bytes or more would not fit its
  buffer.\<close>

definition fat32_resolve_parent :: "'p ata_ports \<Rightarrow> fat32_fs \<Rightarrow> string \<Rightarrow> 'p disk \<Rightarrow> ((nat \<times> string) option \<times> 'p disk) option" where
  "fat32_resolve_parent io fs path d =
     (if path = [] \<or> hd path \<noteq> CHR ''/'' \<or> strip_slashes path = [] then Some (None, d)
      else let name = base_name (strip_slashes path);
               i = length (strip_slashes path) - length name - 1 in
        if length name \<ge> 256 then Some (None, d)
        else if i = 0 then Some (Some (root_cluster fs, name), d)
        else if i \<ge> 256 then None
        else case fat32_resolve io fs (take i path) d of
          None \<Rightarrow> None
        | Some (None, e) \<Rightarrow> Some (None, e)
        | Some (Some parent, e) \<Rightarrow>
            if n_attr parent AND FAT32_ATTR_DIR = 0 then Some (None, e)
            else Some (Some (dir_cluster_of fs parent, name), e))"

subsection \<open>Entries\<close>

definition fat32_read_dirent_at :: "'p ata_ports \<Rightarrow> fat32_fs \<Rightarrow> nat \<Rightarrow> nat \<Rightarrow> 'p disk \<Rightarrow> byte list option \<times> 'p disk" where
  "fat32_read_dirent_at io fs rel off d =
     (if off > 480 \<or> off mod 32 \<noteq> 0 then (None, d)
      else and_then (fat32_read_sectors io fs rel 1) (\<lambda>sec e. (Some (entry_at sec off), e)) d)"

definition fat32_write_dirent_at :: "'p ata_ports \<Rightarrow> fat32_fs \<Rightarrow> nat \<Rightarrow> nat \<Rightarrow> byte list \<Rightarrow> 'p disk \<Rightarrow> unit option \<times> 'p disk" where
  "fat32_write_dirent_at io fs rel off ent d =
     (if off > 480 \<or> off mod 32 \<noteq> 0 then (None, d)
      else and_then (fat32_read_sectors io fs rel 1) (\<lambda>sec. fat32_write_sectors io fs rel 1 (patch sec off ent)) d)"

definition fat32_mark_deleted_at :: "'p ata_ports \<Rightarrow> fat32_fs \<Rightarrow> nat \<Rightarrow> nat \<Rightarrow> 'p disk \<Rightarrow> unit option \<times> 'p disk" where
  "fat32_mark_deleted_at io fs rel off d =
     (if off > 511 then (None, d)
      else and_then (fat32_read_sectors io fs rel 1) (\<lambda>sec. fat32_write_sectors io fs rel 1 (sec[off := CHR 0xE5])) d)"

primrec free_slot_in_cluster :: "'p ata_ports \<Rightarrow> fat32_fs \<Rightarrow> nat \<Rightarrow> nat list \<Rightarrow> 'p disk \<Rightarrow> (nat \<times> nat) option option \<times> 'p disk" where
  "free_slot_in_cluster io fs rel [] d = (Some None, d)"
| "free_slot_in_cluster io fs rel (s # ss) d =
     and_then (fat32_read_sectors io fs (add32 rel s) 1) (\<lambda>sec.
       case find (\<lambda>off. sec ! off = CHR 0x00 \<or> sec ! off = CHR 0xE5) entry_offsets of
         Some off \<Rightarrow> (\<lambda>e. (Some (Some (add32 rel s, off)), e))
       | None \<Rightarrow> free_slot_in_cluster io fs rel ss) d"

text \<open>A new cluster at the end of a directory.\<close>

definition extend_dir :: "'p ata_ports \<Rightarrow> fat32_fs \<Rightarrow> nat \<Rightarrow> 'p disk \<Rightarrow> (nat \<times> nat) option \<times> 'p disk" where
  "extend_dir io fs c =
     and_then (fat32_alloc_cluster io fs) (\<lambda>newc e.
       case fat32_fat_set io fs c newc e of
         (None, e1) \<Rightarrow> (None, snd (fat32_free_chain io fs newc e1))
       | (Some _, e1) \<Rightarrow>
           (case fat32_fat_set io fs newc FAT32_EOC e1 of
              (None, e2) \<Rightarrow> (None, snd (fat32_free_chain io fs newc e2))
            | (Some _, e2) \<Rightarrow> (Some (fat32_cluster_to_rel_lba fs newc, 0), e2)))"

partial_function (option) free_slot_loop :: "'p ata_ports \<Rightarrow> fat32_fs \<Rightarrow> nat \<Rightarrow> 'p disk \<Rightarrow> ((nat \<times> nat) option \<times> 'p disk) option" where
  "free_slot_loop io fs c d =
     (if c < 2 \<or> fat32_is_eoc c then Some (None, d)
      else case free_slot_in_cluster io fs (fat32_cluster_to_rel_lba fs c) [0..<sectors_per_cluster fs] d of
        (None, e) \<Rightarrow> Some (None, e)
      | (Some (Some slot), e) \<Rightarrow> Some (Some slot, e)
      | (Some None, e) \<Rightarrow>
          (case fat32_fat_get io fs c e of
             (None, e1) \<Rightarrow> Some (None, e1)
           | (Some nxt, e1) \<Rightarrow>
               if fat32_is_eoc nxt \<or> nxt < 2 then Some (extend_dir io fs c e1)
               else free_slot_loop io fs nxt e1))"

definition fat32_dir_find_free_slot :: "'p ata_ports \<Rightarrow> fat32_fs \<Rightarrow> nat \<Rightarrow> 'p disk \<Rightarrow> ((nat \<times> nat) option \<times> 'p disk) option" where
  "fat32_dir_find_free_slot io fs dir d = free_slot_loop io fs dir d"

definition fat32_is_name_char :: "byte \<Rightarrow> bool" where
  "fat32_is_name_char c \<longleftrightarrow> (let n = of_char c :: nat in
     97 \<le> n \<and> n \<le> 122 \<or> 65 \<le> n \<and> n \<le> 90 \<or> 48 \<le> n \<and> n \<le> 57 \<or> c \<in> {CHR ''_'', CHR ''-'', CHR ''$'', CHR ''~''})"

primrec short_name_loop :: "string \<Rightarrow> bool \<Rightarrow> string \<Rightarrow> string \<Rightarrow> (string \<times> string) option" where
  "short_name_loop [] have_dot base ext = Some (base, ext)"
| "short_name_loop (c # cs) have_dot base ext =
     (if c = CHR ''.'' then (if have_dot then None else short_name_loop cs True base ext)
      else if \<not> fat32_is_name_char c then None
      else if \<not> have_dot then (if length base \<ge> 8 then None else short_name_loop cs have_dot (base @ [ascii_toupper c]) ext)
      else (if length ext \<ge> 3 then None else short_name_loop cs have_dot base (ext @ [ascii_toupper c])))"

definition pad_name :: "nat \<Rightarrow> string \<Rightarrow> string" where
  "pad_name n s = s @ replicate (n - length s) (CHR '' '')"

definition fat32_make_short_name :: "string \<Rightarrow> byte list option" where
  "fat32_make_short_name name =
     (if name = [] \<or> name = ''.'' \<or> name = ''..'' then None
      else case short_name_loop name False [] [] of
        None \<Rightarrow> None
      | Some (base, ext) \<Rightarrow> if base = [] then None else Some (pad_name 8 base @ pad_name 3 ext))"

definition byte_of :: "u8 \<Rightarrow> byte" where "byte_of w = char_of (unat w)"

definition fat32_fill_dirent :: "byte list \<Rightarrow> u8 \<Rightarrow> nat \<Rightarrow> nat \<Rightarrow> byte list" where
  "fat32_fill_dirent short_name attr first_cluster file_size =
     short_name @ [byte_of attr] @ replicate 8 NUL @ le16 (first_cluster div 65536) @ replicate 4 NUL @
     le16 (first_cluster mod 65536) @ le32 file_size"

text \<open>The scan of \<^verbatim>\<open>fat32_dir_is_empty\<close>: \<open>Inl\<close> its result, \<open>Inr ()\<close> to go on.\<close>

definition is_dot_entry :: "byte list \<Rightarrow> bool" where
  "is_dot_entry e \<longleftrightarrow> e ! 0 = CHR ''.'' \<and> e ! 1 = CHR '' '' \<or> e ! 0 = CHR ''.'' \<and> e ! 1 = CHR ''.'' \<and> e ! 2 = CHR '' ''"

primrec empty_in_sector :: "byte list \<Rightarrow> nat list \<Rightarrow> bool option" where
  "empty_in_sector sec [] = None"
| "empty_in_sector sec (off # offs) =
     (let e = entry_at sec off in
      if e ! 0 = CHR 0x00 then Some True
      else if e ! 0 = CHR 0xE5 \<or> e_attr e = FAT32_ATTR_LFN \<or> e_attr e AND FAT32_ATTR_VOLUME_ID \<noteq> 0 \<or> is_dot_entry e
      then empty_in_sector sec offs
      else Some False)"

primrec empty_in_cluster :: "'p ata_ports \<Rightarrow> fat32_fs \<Rightarrow> nat \<Rightarrow> nat list \<Rightarrow> 'p disk \<Rightarrow> bool option \<times> 'p disk" where
  "empty_in_cluster io fs rel [] d = (None, d)"
| "empty_in_cluster io fs rel (s # ss) d =
     (case fat32_read_sectors io fs (add32 rel s) 1 d of
        (None, e) \<Rightarrow> (Some False, e)
      | (Some sec, e) \<Rightarrow>
          (case empty_in_sector sec entry_offsets of
             Some r \<Rightarrow> (Some r, e)
           | None \<Rightarrow> empty_in_cluster io fs rel ss e))"

partial_function (option) fat32_dir_is_empty :: "'p ata_ports \<Rightarrow> fat32_fs \<Rightarrow> nat \<Rightarrow> 'p disk \<Rightarrow> (bool \<times> 'p disk) option" where
  "fat32_dir_is_empty io fs c d =
     (if c < 2 \<or> fat32_is_eoc c then Some (True, d)
      else case empty_in_cluster io fs (fat32_cluster_to_rel_lba fs c) [0..<sectors_per_cluster fs] d of
        (Some r, e) \<Rightarrow> Some (r, e)
      | (None, e) \<Rightarrow>
          (case fat32_fat_get io fs c e of
             (None, e1) \<Rightarrow> Some (False, e1)
           | (Some nxt, e1) \<Rightarrow> fat32_dir_is_empty io fs nxt e1))"

end
