(* ===== verification/Fat32_Ops.thy ===== *)
theory Fat32_Ops
  imports Fat32
begin

section \<open>The FAT32 file system: mounting and the operations of the VFS\<close>

text \<open>
  Model of the second part of \<^verbatim>\<open>src/kernel/drivers/filesystem/fat32.c\<close>: the partition and the boot sector,
  and the functions of \<^verbatim>\<open>g_fat32_vfs_ops\<close>.  A \<^verbatim>\<open>fat32_fs_t\<close> that could not be set up is not used by
  the callers, so the functions that fill it return \<open>None\<close> then.  What is read into a buffer is the
  list of the bytes; it is kept when the reading fails half way, unlike the text of a listing.
\<close>

unbundle bit_operations_syntax

subsection \<open>The partition\<close>

definition disk_name_parse :: "string \<Rightarrow> (nat \<times> nat) option" where
  "disk_name_parse name = (if name = ''0'' \<or> name = ''disk0'' then Some (FAT32_DISK_ATA, 0) else None)"

definition disk_read_abs :: "'p ata_ports \<Rightarrow> nat \<Rightarrow> nat \<Rightarrow> nat \<Rightarrow> nat \<Rightarrow> 'p disk \<Rightarrow> byte list option \<times> 'p disk" where
  "disk_read_abs io kind index lba count d =
     (if kind = FAT32_DISK_ATA \<and> index = 0
      then (case disk_read_kernel io lba count d of (r, bs, e) \<Rightarrow> (if r then Some bs else None, e))
      else (None, d))"

definition disk_get_total :: "nat \<Rightarrow> nat \<Rightarrow> 'p disk \<Rightarrow> (nat \<times> nat) option" where
  "disk_get_total kind index d =
     (if kind = FAT32_DISK_ATA \<and> index = 0
      then map_option (\<lambda>(start, count). (count, 512)) (disk_get_partition_info 0 d)
      else None)"

definition disk_partition_bounds :: "'p ata_ports \<Rightarrow> nat \<Rightarrow> nat \<Rightarrow> nat \<Rightarrow> 'p disk \<Rightarrow> (nat \<times> nat) option \<times> 'p disk" where
  "disk_partition_bounds io kind index partition_index d =
     (case disk_get_total kind index d of
        None \<Rightarrow> (None, d)
      | Some (tot, sector_size) \<Rightarrow>
          if sector_size \<noteq> 512 \<or> tot = 0 then (None, d)
          else if partition_index = 0 then (Some (0, tot), d)
          else if partition_index > 4 then (None, d)
          else and_then (disk_read_abs io kind index 0 1) (\<lambda>mbr e.
            if mbr ! 510 \<noteq> CHR 0x55 \<or> mbr ! 511 \<noteq> CHR 0xAA then (None, e)
            else (let i = 446 + (partition_index - 1) * 16;
                      start = rd_le32 mbr (i + 8); count = rd_le32 mbr (i + 12); endl = add32 start count in
              if count = 0 then (None, e)
              else if endl < start \<or> endl > tot then (None, e)
              else (Some (start, count), e))) d)"

definition boot16 :: "byte list \<Rightarrow> nat \<Rightarrow> nat" where
  "boot16 bs i = of_char (bs ! i) + 256 * of_char (bs ! (i + 1))"

text \<open>The record that the boot sector describes, and whether it is accepted.\<close>

definition fs_of_boot :: "nat \<Rightarrow> nat \<Rightarrow> nat \<Rightarrow> nat \<Rightarrow> byte list \<Rightarrow> fat32_fs" where
  "fs_of_boot kind index start count bs =
     (let reserved = boot16 bs 14; nfats = of_char (bs ! 16); fat_sz = rd_le32 bs 36 in
      \<lparr>disk_kind = kind, disk_index = index, part_start_lba = start, part_total_sectors = count,
        bytes_per_sector = boot16 bs 11, sectors_per_cluster = of_char (bs ! 13), reserved_sectors = reserved,
        num_fats = nfats, fat_size_sectors = fat_sz, root_cluster = rd_le32 bs 44,
        fat_start_lba = reserved, data_start_lba = add32 reserved (mul32 nfats fat_sz)\<rparr>)"

definition fs_accepted :: "fat32_fs \<Rightarrow> bool" where
  "fs_accepted fs \<longleftrightarrow> \<not> (bytes_per_sector fs \<noteq> 512 \<or> sectors_per_cluster fs = 0 \<or> num_fats fs = 0 \<or> fat_size_sectors fs = 0) \<and>
     \<not> data_start_lba fs \<ge> part_total_sectors fs \<and> \<not> root_cluster fs < 2"

definition fat32_init_named :: "'p ata_ports \<Rightarrow> string \<Rightarrow> nat \<Rightarrow> 'p disk \<Rightarrow> fat32_fs option \<times> 'p disk" where
  "fat32_init_named io disk_name partition_index d =
     (case disk_name_parse disk_name of
        None \<Rightarrow> (None, d)
      | Some (kind, index) \<Rightarrow>
          and_then (disk_partition_bounds io kind index partition_index) (\<lambda>(start, count).
            if count = 0 then (\<lambda>e. (None, e))
            else and_then (disk_read_abs io kind index start 1) (\<lambda>bs e.
              let fs = fs_of_boot kind index start count bs in
              (if fs_accepted fs then Some fs else None, e))) d)"

definition fat32_init :: "'p ata_ports \<Rightarrow> nat \<Rightarrow> 'p disk \<Rightarrow> fat32_fs option \<times> 'p disk" where
  "fat32_init io partition_index d = fat32_init_named io ''disk0'' partition_index d"

text \<open>The digits behind the \<^verbatim>\<open>p\<close>: \<open>None\<close> when something else is there.\<close>

primrec part_number :: "string \<Rightarrow> nat \<Rightarrow> nat option" where
  "part_number [] part = Some part"
| "part_number (c # cs) part =
     (if \<not> (48 \<le> (of_char c :: nat) \<and> (of_char c :: nat) \<le> 57) then None
      else part_number cs (add32 (mul32 part 10) (of_char c - 48)))"

definition fat32_init_devpath :: "'p ata_ports \<Rightarrow> string \<Rightarrow> 'p disk \<Rightarrow> fat32_fs option \<times> 'p disk" where
  "fat32_init_devpath io dev_path d =
     (let pfx = ''/dev/disk/''; name = drop (length pfx) dev_path;
          disk_name = take 15 (takeWhile ((\<noteq>) CHR ''p'') name);
          digits = drop 1 (dropWhile ((\<noteq>) CHR ''p'') name) in
      if take (length pfx) dev_path \<noteq> pfx \<or> name = [] \<or> disk_name = [] then (None, d)
      else case part_number digits 0 of
        None \<Rightarrow> (None, d)
      | Some part \<Rightarrow> fat32_init_named io disk_name part d)"

subsection \<open>Reading\<close>

text \<open>The sectors of one cluster, with the bytes copied so far.\<close>

primrec read_cluster :: "'p ata_ports \<Rightarrow> fat32_fs \<Rightarrow> nat \<Rightarrow> nat list \<Rightarrow> nat \<Rightarrow> nat \<Rightarrow> byte list \<Rightarrow> 'p disk \<Rightarrow> bool \<times> byte list \<times> 'p disk" where
  "read_cluster io fs rel [] sz fsize copied d = (True, copied, d)"
| "read_cluster io fs rel (s # ss) sz fsize copied d =
     (if length copied \<ge> sz \<or> length copied \<ge> fsize then (True, copied, d)
      else case fat32_read_sectors io fs (add32 rel s) 1 d of
        (None, e) \<Rightarrow> (False, copied, e)
      | (Some sec, e) \<Rightarrow>
          (let n = min (min (fsize - length copied) (sz - length copied)) 512 in
           read_cluster io fs rel ss sz fsize (copied @ take n sec) e))"

partial_function (option) fat_read_loop :: "'p ata_ports \<Rightarrow> fat32_fs \<Rightarrow> nat \<Rightarrow> nat \<Rightarrow> nat \<Rightarrow> byte list \<Rightarrow> 'p disk \<Rightarrow>
    (bool \<times> byte list \<times> 'p disk) option" where
  "fat_read_loop io fs c sz fsize copied d =
     (if c < 2 \<or> fat32_is_eoc c \<or> length copied \<ge> sz \<or> length copied \<ge> fsize then Some (True, copied, d)
      else case read_cluster io fs (fat32_cluster_to_rel_lba fs c) [0..<sectors_per_cluster fs] sz fsize copied d of
        (ok, bs, e) \<Rightarrow>
          if \<not> ok then Some (False, bs, e)
          else (case fat32_fat_get io fs c e of
             (None, e1) \<Rightarrow> Some (False, bs, e1)
           | (Some nxt, e1) \<Rightarrow> fat_read_loop io fs nxt sz fsize bs e1))"

definition int32 :: "nat \<Rightarrow> int" where
  "int32 n = sint (word_of_nat n :: u32)"

definition fat32_read :: "'p ata_ports \<Rightarrow> fat32_fs \<Rightarrow> string \<Rightarrow> nat \<Rightarrow> 'p disk \<Rightarrow> ((int \<times> byte list) \<times> 'p disk) option" where
  "fat32_read io fs path sz d =
     (case fat32_resolve io fs path d of
        None \<Rightarrow> None
      | Some (None, e) \<Rightarrow> Some ((-1, []), e)
      | Some (Some n, e) \<Rightarrow>
          if n_attr n AND FAT32_ATTR_DIR \<noteq> 0 then Some ((-1, []), e)
          else if n_first_cluster n < 2 \<and> n_size n = 0 then Some ((0, []), e)
          else (case fat_read_loop io fs (n_first_cluster n) sz (n_size n) [] e of
            None \<Rightarrow> None
          | Some (ok, bs, e1) \<Rightarrow> Some ((if ok then int32 (length bs) else -1, bs), e1)))"

subsection \<open>Writing\<close>

text \<open>\<open>n\<close> new clusters, each linked behind the one before: the first, or \<open>None\<close> after what was allocated is
  free again.\<close>

primrec alloc_chain :: "nat \<Rightarrow> 'p ata_ports \<Rightarrow> fat32_fs \<Rightarrow> nat \<Rightarrow> nat \<Rightarrow> 'p disk \<Rightarrow> nat option \<times> 'p disk" where
  "alloc_chain 0 io fs new_first prev d = (Some new_first, d)"
| "alloc_chain (Suc n) io fs new_first prev d =
     (case fat32_alloc_cluster io fs d of
        (None, e) \<Rightarrow> (None, if new_first \<ge> 2 then snd (fat32_free_chain io fs new_first e) else e)
      | (Some nc, e) \<Rightarrow>
          (case (if prev \<ge> 2 then fat32_fat_set io fs prev nc e else (Some (), e)) of
             (None, e1) \<Rightarrow> (None, snd (fat32_free_chain io fs new_first e1))
           | (Some _, e1) \<Rightarrow> alloc_chain n io fs (if new_first < 2 then nc else new_first) nc e1))"

definition sector_of :: "byte list \<Rightarrow> byte list" where
  "sector_of bs = take 512 bs @ replicate (512 - length (take 512 bs)) NUL"

text \<open>The data that is left goes into the sectors of a cluster, zeroes into those behind it.\<close>

primrec write_cluster :: "'p ata_ports \<Rightarrow> fat32_fs \<Rightarrow> nat \<Rightarrow> nat list \<Rightarrow> byte list \<Rightarrow> 'p disk \<Rightarrow> byte list option \<times> 'p disk" where
  "write_cluster io fs rel [] bs d = (Some bs, d)"
| "write_cluster io fs rel (s # ss) bs d =
     and_then (fat32_write_sectors io fs (add32 rel s) 1 (sector_of bs)) (\<lambda>_. write_cluster io fs rel ss (drop 512 bs)) d"

partial_function (option) fat_write_loop :: "'p ata_ports \<Rightarrow> fat32_fs \<Rightarrow> nat \<Rightarrow> byte list \<Rightarrow> 'p disk \<Rightarrow> (bool \<times> 'p disk) option" where
  "fat_write_loop io fs c bs d =
     (if bs = [] \<or> c < 2 \<or> fat32_is_eoc c then Some (True, d)
      else case write_cluster io fs (fat32_cluster_to_rel_lba fs c) [0..<sectors_per_cluster fs] bs d of
        (None, e) \<Rightarrow> Some (False, e)
      | (Some bs1, e) \<Rightarrow>
          if bs1 = [] then Some (True, e)
          else (case fat32_fat_get io fs c e of
            (None, e1) \<Rightarrow> Some (False, e1)
          | (Some nxt, e1) \<Rightarrow> fat_write_loop io fs nxt bs1 e1))"

definition set_entry_start :: "nat \<Rightarrow> byte list \<Rightarrow> byte list" where
  "set_entry_start c e = patch (patch e 20 (le16 (c div 65536))) 26 (le16 (c mod 65536))"

definition set_entry_size :: "nat \<Rightarrow> byte list \<Rightarrow> byte list" where
  "set_entry_size n e = patch e 28 (le32 n)"

text \<open>An entry read, changed and written back.\<close>

definition update_entry :: "'p ata_ports \<Rightarrow> fat32_fs \<Rightarrow> fat32_found \<Rightarrow> (byte list \<Rightarrow> byte list) \<Rightarrow> 'p disk \<Rightarrow> unit option \<times> 'p disk" where
  "update_entry io fs n f =
     and_then (fat32_read_dirent_at io fs (entry_rel_sector n) (entry_offset n)) (\<lambda>e.
       fat32_write_dirent_at io fs (entry_rel_sector n) (entry_offset n) (f e))"

definition fat32_write :: "'p ata_ports \<Rightarrow> fat32_fs \<Rightarrow> string \<Rightarrow> byte list \<Rightarrow> 'p disk \<Rightarrow> (int \<times> 'p disk) option" where
  "fat32_write io fs path buf d =
     (case fat32_resolve io fs path d of
        None \<Rightarrow> None
      | Some (None, e) \<Rightarrow> Some (-1, e)
      | Some (Some n, e) \<Rightarrow>
          if n_attr n AND FAT32_ATTR_DIR \<noteq> 0 then Some (-1, e)
          else
            (let csz = fat32_cluster_size fs;
                 need = (if length buf = 0 then 0 else sub32 (add32 (length buf) csz) 1 div csz) in
             case alloc_chain need io fs 0 0 e of
               (None, e1) \<Rightarrow> Some (-1, e1)
             | (Some new_first, e1) \<Rightarrow>
                 (case fat_write_loop io fs new_first buf e1 of
                    None \<Rightarrow> None
                  | Some (False, e2) \<Rightarrow> Some (-1, if new_first \<ge> 2 then snd (fat32_free_chain io fs new_first e2) else e2)
                  | Some (True, e2) \<Rightarrow>
                      (case update_entry io fs n (\<lambda>x. set_entry_size (length buf) (set_entry_start new_first x)) e2 of
                         (None, e3) \<Rightarrow> Some (-1, e3)
                       | (Some _, e3) \<Rightarrow>
                           Some (int32 (length buf),
                             if n_first_cluster n \<ge> 2 then snd (fat32_free_chain io fs (n_first_cluster n) e3) else e3)))))"

subsection \<open>Appending\<close>

text \<open>The rest of the sector the file ends in, then the sectors behind it in the last cluster: what is left of
  the data.\<close>

primrec append_sectors :: "'p ata_ports \<Rightarrow> fat32_fs \<Rightarrow> nat \<Rightarrow> nat list \<Rightarrow> byte list \<Rightarrow> 'p disk \<Rightarrow> byte list option \<times> 'p disk" where
  "append_sectors io fs rel [] bs d = (Some bs, d)"
| "append_sectors io fs rel (s # ss) bs d =
     (if bs = [] then (Some bs, d)
      else and_then (fat32_write_sectors io fs (add32 rel s) 1 (sector_of bs)) (\<lambda>_. append_sectors io fs rel ss (drop 512 bs)) d)"

definition fill_last_cluster :: "'p ata_ports \<Rightarrow> fat32_fs \<Rightarrow> nat \<Rightarrow> nat \<Rightarrow> byte list \<Rightarrow> 'p disk \<Rightarrow> byte list option \<times> 'p disk" where
  "fill_last_cluster io fs endc used bs =
     (let rel = fat32_cluster_to_rel_lba fs endc; sec_idx = used div 512; sec_off = used mod 512; n = min (length bs) (512 - sec_off) in
      and_then (fat32_read_sectors io fs (add32 rel sec_idx) 1) (\<lambda>sec.
        and_then (fat32_write_sectors io fs (add32 rel sec_idx) 1 (patch sec sec_off (take n bs))) (\<lambda>_.
          append_sectors io fs rel [sec_idx + 1..<sectors_per_cluster fs] (drop n bs))))"

text \<open>A new cluster with the data that is left; a sector that cannot be written ends only the loop over the
  sectors.\<close>

primrec append_cluster :: "'p ata_ports \<Rightarrow> fat32_fs \<Rightarrow> nat \<Rightarrow> nat list \<Rightarrow> byte list \<Rightarrow> 'p disk \<Rightarrow> byte list \<times> 'p disk" where
  "append_cluster io fs rel [] bs d = (bs, d)"
| "append_cluster io fs rel (s # ss) bs d =
     (case fat32_write_sectors io fs (add32 rel s) 1 (sector_of bs) d of
        (None, e) \<Rightarrow> (bs, e)
      | (Some _, e) \<Rightarrow> append_cluster io fs rel ss (drop 512 bs) e)"

text \<open>The loop over the new clusters, until no more can be had: the data that could not be written.\<close>

partial_function (option) append_loop :: "'p ata_ports \<Rightarrow> fat32_fs \<Rightarrow> nat \<Rightarrow> byte list \<Rightarrow> 'p disk \<Rightarrow> (byte list \<times> 'p disk) option" where
  "append_loop io fs endc bs d =
     (if bs = [] then Some (bs, d)
      else case fat32_alloc_cluster io fs d of
        (None, e) \<Rightarrow> Some (bs, e)
      | (Some nc, e) \<Rightarrow>
          (case fat32_fat_set io fs endc nc e of
             (None, e1) \<Rightarrow> Some (bs, snd (fat32_free_chain io fs nc e1))
           | (Some _, e1) \<Rightarrow>
               (case fat32_fat_set io fs nc FAT32_EOC e1 of
                  (None, e2) \<Rightarrow> Some (bs, snd (fat32_free_chain io fs nc e2))
                | (Some _, e2) \<Rightarrow>
                    (case append_cluster io fs (fat32_cluster_to_rel_lba fs nc) [0..<sectors_per_cluster fs] bs e2 of
                       (bs1, e3) \<Rightarrow> append_loop io fs nc bs1 e3))))"

definition fat32_append :: "'p ata_ports \<Rightarrow> fat32_fs \<Rightarrow> string \<Rightarrow> byte list \<Rightarrow> 'p disk \<Rightarrow> (int \<times> 'p disk) option" where
  "fat32_append io fs path buf d =
     (if buf = [] then Some (0, d)
      else case fat32_resolve io fs path d of
        None \<Rightarrow> None
      | Some (None, e) \<Rightarrow> Some (-1, e)
      | Some (Some n, e) \<Rightarrow>
          if n_attr n AND FAT32_ATTR_DIR \<noteq> 0 then Some (-1, e)
          else if n_first_cluster n < 2 \<or> n_size n = 0 then fat32_write io fs path buf e
          else (case fat32_chain_last io fs (n_first_cluster n) e of
            (None, e1) \<Rightarrow> Some (-1, e1)
          | (Some (endc, chain_len), e1) \<Rightarrow>
              (let used = n_size n mod fat32_cluster_size fs in
               case (if used \<noteq> 0 then fill_last_cluster io fs endc used buf e1 else (Some buf, e1)) of
                 (None, e2) \<Rightarrow> Some (-1, e2)
               | (Some bs, e2) \<Rightarrow>
                   (case append_loop io fs endc bs e2 of
                      None \<Rightarrow> None
                    | Some (rest, e3) \<Rightarrow>
                        (let written = length buf - length rest in
                         if written > 0
                         then (case update_entry io fs n (set_entry_size (add32 (n_size n) written)) e3 of
                             (None, e4) \<Rightarrow> Some (-1, e4)
                           | (Some _, e4) \<Rightarrow> Some (int32 written, e4))
                         else Some (int32 written, e3))))))"

subsection \<open>Creating and removing\<close>

text \<open>The parent directory, the short name and whether the name exists, as \<^verbatim>\<open>mkdir\<close> and \<^verbatim>\<open>create_file\<close> begin.\<close>

definition new_name :: "'p ata_ports \<Rightarrow> fat32_fs \<Rightarrow> string \<Rightarrow> 'p disk \<Rightarrow> ((nat \<times> byte list \<times> bool) option \<times> 'p disk) option" where
  "new_name io fs path d =
     (case fat32_resolve_parent io fs path d of
        None \<Rightarrow> None
      | Some (None, e) \<Rightarrow> Some (None, e)
      | Some (Some (parent, name), e) \<Rightarrow>
          (case fat32_make_short_name name of
             None \<Rightarrow> Some (None, e)
           | Some short_name \<Rightarrow>
               (case fat32_dir_find io fs parent name e of
                  None \<Rightarrow> None
                | Some (r, e1) \<Rightarrow> Some (Some (parent, short_name, r \<noteq> None), e1))))"

definition dot_entries :: "nat \<Rightarrow> nat \<Rightarrow> byte list" where
  "dot_entries new_dir_cluster parent_cluster =
     fat32_fill_dirent (pad_name 11 ''.'') FAT32_ATTR_DIR new_dir_cluster 0 @
     fat32_fill_dirent (pad_name 11 ''..'') FAT32_ATTR_DIR parent_cluster 0 @ replicate 448 NUL"

definition fat32_mkdir :: "'p ata_ports \<Rightarrow> fat32_fs \<Rightarrow> string \<Rightarrow> 'p disk \<Rightarrow> (int \<times> 'p disk) option" where
  "fat32_mkdir io fs path d =
     (case new_name io fs path d of
        None \<Rightarrow> None
      | Some (None, e) \<Rightarrow> Some (-1, e)
      | Some (Some (parent, short_name, exists), e) \<Rightarrow>
          if exists then Some (-1, e)
          else (case fat32_dir_find_free_slot io fs parent e of
            None \<Rightarrow> None
          | Some (None, e1) \<Rightarrow> Some (-1, e1)
          | Some (Some (rel_sec, off), e1) \<Rightarrow>
              (case fat32_alloc_cluster io fs e1 of
                 (None, e2) \<Rightarrow> Some (-1, e2)
               | (Some c, e2) \<Rightarrow>
                   (case fat32_write_sectors io fs (fat32_cluster_to_rel_lba fs c) 1 (dot_entries c parent) e2 of
                      (None, e3) \<Rightarrow> Some (-1, snd (fat32_free_chain io fs c e3))
                    | (Some _, e3) \<Rightarrow>
                        (case fat32_write_dirent_at io fs rel_sec off (fat32_fill_dirent short_name FAT32_ATTR_DIR c 0) e3 of
                           (None, e4) \<Rightarrow> Some (-1, snd (fat32_free_chain io fs c e4))
                         | (Some _, e4) \<Rightarrow> Some (0, e4))))))"

definition fat32_create_file :: "'p ata_ports \<Rightarrow> fat32_fs \<Rightarrow> string \<Rightarrow> 'p disk \<Rightarrow> (int \<times> 'p disk) option" where
  "fat32_create_file io fs path d =
     (case new_name io fs path d of
        None \<Rightarrow> None
      | Some (None, e) \<Rightarrow> Some (-1, e)
      | Some (Some (parent, short_name, exists), e) \<Rightarrow>
          if exists then Some (0, e)
          else (case fat32_dir_find_free_slot io fs parent e of
            None \<Rightarrow> None
          | Some (None, e1) \<Rightarrow> Some (-1, e1)
          | Some (Some (rel_sec, off), e1) \<Rightarrow>
              (case fat32_write_dirent_at io fs rel_sec off (fat32_fill_dirent short_name FAT32_ATTR_ARCHIVE 0 0) e1 of
                 (None, e2) \<Rightarrow> Some (-1, e2)
               | (Some _, e2) \<Rightarrow> Some (0, e2))))"

definition fat32_unlink :: "'p ata_ports \<Rightarrow> fat32_fs \<Rightarrow> string \<Rightarrow> 'p disk \<Rightarrow> (int \<times> 'p disk) option" where
  "fat32_unlink io fs path d =
     (case fat32_resolve io fs path d of
        None \<Rightarrow> None
      | Some (None, e) \<Rightarrow> Some (-1, e)
      | Some (Some n, e) \<Rightarrow>
          if n_attr n AND FAT32_ATTR_DIR \<noteq> 0 then Some (-1, e)
          else (case fat32_mark_deleted_at io fs (entry_rel_sector n) (entry_offset n) e of
            (None, e1) \<Rightarrow> Some (-1, e1)
          | (Some _, e1) \<Rightarrow>
              if n_first_cluster n \<ge> 2
              then (case fat32_free_chain io fs (n_first_cluster n) e1 of (r, e2) \<Rightarrow> Some (if r = None then -1 else 0, e2))
              else Some (0, e1)))"

definition fat32_rmdir :: "'p ata_ports \<Rightarrow> fat32_fs \<Rightarrow> string \<Rightarrow> 'p disk \<Rightarrow> (int \<times> 'p disk) option" where
  "fat32_rmdir io fs path d =
     (if path = ''/'' then Some (-1, d)
      else case fat32_resolve io fs path d of
        None \<Rightarrow> None
      | Some (None, e) \<Rightarrow> Some (-1, e)
      | Some (Some n, e) \<Rightarrow>
          if n_attr n AND FAT32_ATTR_DIR = 0 then Some (-1, e)
          else (case fat32_dir_is_empty io fs (dir_cluster_of fs n) e of
            None \<Rightarrow> None
          | Some (is_empty, e1) \<Rightarrow>
              if \<not> is_empty then Some (-1, e1)
              else (case fat32_mark_deleted_at io fs (entry_rel_sector n) (entry_offset n) e1 of
                (None, e2) \<Rightarrow> Some (-1, e2)
              | (Some _, e2) \<Rightarrow>
                  if dir_cluster_of fs n \<ge> 2 \<and> dir_cluster_of fs n \<noteq> root_cluster fs
                  then (case fat32_free_chain io fs (dir_cluster_of fs n) e2 of (r, e3) \<Rightarrow> Some (if r = None then -1 else 0, e3))
                  else Some (0, e2))))"

subsection \<open>Listing\<close>

text \<open>The entries of a sector: the text so far and the state of the long name; \<open>True\<close> when the listing is
  complete, at the end of the directory or when the next name does not fit.\<close>

primrec list_sector :: "byte list \<Rightarrow> nat \<Rightarrow> nat list \<Rightarrow> lfn_state \<Rightarrow> string \<Rightarrow> bool \<times> lfn_state \<times> string" where
  "list_sector sec out_size [] lfn out = (False, lfn, out)"
| "list_sector sec out_size (off # offs) lfn out =
     (case classify (entry_at sec off) lfn of
        Dir_end \<Rightarrow> (True, lfn, out)
      | Dir_skip lfn1 \<Rightarrow> list_sector sec out_size offs lfn1 out
      | Dir_entry name \<Rightarrow>
          if name_eq_ci name ''.'' \<or> name_eq_ci name ''..'' then list_sector sec out_size offs no_lfn out
          else if length out + length name + 2 \<ge> out_size then (True, no_lfn, out)
          else list_sector sec out_size offs no_lfn
                 (out @ name @ (if e_attr (entry_at sec off) AND FAT32_ATTR_DIR \<noteq> 0 then ''/'' else []) @ [CHR 0x0A]))"

primrec list_cluster :: "'p ata_ports \<Rightarrow> fat32_fs \<Rightarrow> nat \<Rightarrow> nat \<Rightarrow> nat list \<Rightarrow> lfn_state \<Rightarrow> string \<Rightarrow> 'p disk \<Rightarrow>
    (bool \<times> lfn_state \<times> string) option \<times> 'p disk" where
  "list_cluster io fs rel out_size [] lfn out d = (Some (False, lfn, out), d)"
| "list_cluster io fs rel out_size (s # ss) lfn out d =
     and_then (fat32_read_sectors io fs (add32 rel s) 1) (\<lambda>sec.
       case list_sector sec out_size entry_offsets lfn out of (finished, lfn1, out1) \<Rightarrow>
         if finished then (\<lambda>e. (Some (True, lfn1, out1), e)) else list_cluster io fs rel out_size ss lfn1 out1) d"

partial_function (option) list_loop :: "'p ata_ports \<Rightarrow> fat32_fs \<Rightarrow> nat \<Rightarrow> nat \<Rightarrow> lfn_state \<Rightarrow> string \<Rightarrow> 'p disk \<Rightarrow>
    (string option \<times> 'p disk) option" where
  "list_loop io fs c out_size lfn out d =
     (if c < 2 \<or> fat32_is_eoc c then Some (Some out, d)
      else case list_cluster io fs (fat32_cluster_to_rel_lba fs c) out_size [0..<sectors_per_cluster fs] lfn out d of
        (None, e) \<Rightarrow> Some (None, e)
      | (Some (finished, lfn1, out1), e) \<Rightarrow>
          if finished then Some (Some out1, e)
          else (case fat32_fat_get io fs c e of
             (None, e1) \<Rightarrow> Some (None, e1)
           | (Some nxt, e1) \<Rightarrow> list_loop io fs nxt out_size lfn1 out1 e1))"

definition fat32_list :: "'p ata_ports \<Rightarrow> fat32_fs \<Rightarrow> string \<Rightarrow> nat \<Rightarrow> 'p disk \<Rightarrow> ((int \<times> string) \<times> 'p disk) option" where
  "fat32_list io fs path out_size d =
     (if out_size = 0 then Some ((-1, []), d)
      else case fat32_resolve io fs path d of
        None \<Rightarrow> None
      | Some (None, e) \<Rightarrow> Some ((-1, []), e)
      | Some (Some dir, e) \<Rightarrow>
          if n_attr dir AND FAT32_ATTR_DIR = 0 then Some ((-1, []), e)
          else (case list_loop io fs (dir_cluster_of fs dir) out_size no_lfn [] e of
            None \<Rightarrow> None
          | Some (None, e1) \<Rightarrow> Some ((-1, []), e1)
          | Some (Some out, e1) \<Rightarrow> Some ((int32 (length out), out), e1)))"

subsection \<open>The table of operations\<close>

text \<open>The state of the file systems: the disk, and the \<^verbatim>\<open>fat32_fs_t\<close> objects by their address.\<close>

record 'p fat_world =
  fw_disk :: "'p disk"
  fat_fss :: "addr \<Rightarrow> fat32_fs option"

text \<open>The check \<^verbatim>\<open>!fs\<close> of an operation, and the file system its context points to.\<close>

definition on_fat :: "addr \<Rightarrow> 'r \<Rightarrow> (fat32_fs \<Rightarrow> 'p disk \<Rightarrow> ('r \<times> 'p disk) option) \<Rightarrow> 'p fat_world \<Rightarrow> ('r \<times> 'p fat_world) option" where
  "on_fat fs_ctx failed f w =
     (if fs_ctx = 0 then Some (failed, w)
      else do { fs \<leftarrow> fat_fss w fs_ctx; (r, d) \<leftarrow> f fs (fw_disk w); Some (r, w\<lparr>fw_disk := d\<rparr>) })"

definition fat32_open_op :: "'p ata_ports \<Rightarrow> addr \<Rightarrow> string \<Rightarrow> 'p fat_world \<Rightarrow> (int \<times> 'p fat_world) option" where
  "fat32_open_op io fs_ctx path = on_fat fs_ctx (-1) (\<lambda>fs d.
     map_option (\<lambda>(r, e). (if r = None then -1 else 0, e)) (fat32_resolve io fs path d))"

definition fat32_close_op :: "addr \<Rightarrow> int \<Rightarrow> 'p fat_world \<Rightarrow> (int \<times> 'p fat_world) option" where
  "fat32_close_op fs_ctx fd w = Some (0, w)"

definition fat32_read_op :: "'p ata_ports \<Rightarrow> addr \<Rightarrow> string \<Rightarrow> nat \<Rightarrow> 'p fat_world \<Rightarrow> ((int \<times> byte list) io \<times> 'p fat_world) option" where
  "fat32_read_op io fs_ctx path sz = on_fat fs_ctx (Ret (-1, [])) (\<lambda>fs d. map_option (\<lambda>(r, e). (Ret r, e)) (fat32_read io fs path sz d))"

definition fat32_write_op :: "'p ata_ports \<Rightarrow> addr \<Rightarrow> string \<Rightarrow> byte list \<Rightarrow> 'p fat_world \<Rightarrow> (int io \<times> 'p fat_world) option" where
  "fat32_write_op io fs_ctx path buf = on_fat fs_ctx (Ret (-1)) (\<lambda>fs d. map_option (\<lambda>(r, e). (Ret r, e)) (fat32_write io fs path buf d))"

definition fat32_append_op :: "'p ata_ports \<Rightarrow> addr \<Rightarrow> string \<Rightarrow> byte list \<Rightarrow> 'p fat_world \<Rightarrow> (int io \<times> 'p fat_world) option" where
  "fat32_append_op io fs_ctx path buf = on_fat fs_ctx (Ret (-1)) (\<lambda>fs d. map_option (\<lambda>(r, e). (Ret r, e)) (fat32_append io fs path buf d))"

definition fat32_ioctl_op :: "addr \<Rightarrow> string \<Rightarrow> nat \<Rightarrow> addr \<Rightarrow> 'p fat_world \<Rightarrow> (int io \<times> 'p fat_world) option" where
  "fat32_ioctl_op fs_ctx path request arg w = Some (Ret (-1), w)"

definition fat32_mkdir_op :: "'p ata_ports \<Rightarrow> addr \<Rightarrow> string \<Rightarrow> 'p fat_world \<Rightarrow> (int \<times> 'p fat_world) option" where
  "fat32_mkdir_op io fs_ctx path = on_fat fs_ctx (-1) (\<lambda>fs. fat32_mkdir io fs path)"

definition fat32_create_file_op :: "'p ata_ports \<Rightarrow> addr \<Rightarrow> string \<Rightarrow> 'p fat_world \<Rightarrow> (int \<times> 'p fat_world) option" where
  "fat32_create_file_op io fs_ctx path = on_fat fs_ctx (-1) (\<lambda>fs. fat32_create_file io fs path)"

definition fat32_link_op :: "addr \<Rightarrow> string \<Rightarrow> string \<Rightarrow> 'p fat_world \<Rightarrow> (int \<times> 'p fat_world) option" where
  "fat32_link_op fs_ctx oldpath newpath w = Some (-1, w)"

definition fat32_unlink_op :: "'p ata_ports \<Rightarrow> addr \<Rightarrow> string \<Rightarrow> 'p fat_world \<Rightarrow> (int \<times> 'p fat_world) option" where
  "fat32_unlink_op io fs_ctx path = on_fat fs_ctx (-1) (\<lambda>fs. fat32_unlink io fs path)"

definition fat32_rmdir_op :: "'p ata_ports \<Rightarrow> addr \<Rightarrow> string \<Rightarrow> 'p fat_world \<Rightarrow> (int \<times> 'p fat_world) option" where
  "fat32_rmdir_op io fs_ctx path = on_fat fs_ctx (-1) (\<lambda>fs. fat32_rmdir io fs path)"

definition fat32_mkfifo_op :: "addr \<Rightarrow> string \<Rightarrow> 'p fat_world \<Rightarrow> (int \<times> 'p fat_world) option" where
  "fat32_mkfifo_op fs_ctx path w = Some (-1, w)"

definition fat32_mksock_op :: "addr \<Rightarrow> string \<Rightarrow> 'p fat_world \<Rightarrow> (int \<times> 'p fat_world) option" where
  "fat32_mksock_op fs_ctx path w = Some (-1, w)"

definition fat32_list_op :: "'p ata_ports \<Rightarrow> addr \<Rightarrow> string \<Rightarrow> nat \<Rightarrow> 'p fat_world \<Rightarrow> ((int \<times> string) \<times> 'p fat_world) option" where
  "fat32_list_op io fs_ctx path out_size = on_fat fs_ctx (-1, []) (\<lambda>fs. fat32_list io fs path out_size)"

definition fat32_get_info_op :: "'p ata_ports \<Rightarrow> addr \<Rightarrow> string \<Rightarrow> 'p fat_world \<Rightarrow> (vfs_info option \<times> 'p fat_world) option" where
  "fat32_get_info_op io fs_ctx path = on_fat fs_ctx None (\<lambda>fs d.
     map_option (\<lambda>(r, e). (map_option (\<lambda>n. \<lparr>vi_type = (if n_attr n AND FAT32_ATTR_DIR \<noteq> 0 then VFS_NODE_DIR else VFS_NODE_FILE),
       vi_mode = 0, vi_uid = 0, vi_gid = 0, vi_size = n_size n\<rparr>) r, e)) (fat32_resolve io fs path d))"

definition g_fat32_vfs_ops :: "'p ata_ports \<Rightarrow> 'p fat_world vfs_ops" where
  "g_fat32_vfs_ops io = \<lparr>op_open = Some (fat32_open_op io), op_close = Some fat32_close_op, op_read = Some (fat32_read_op io),
     op_write = Some (fat32_write_op io), op_append = Some (fat32_append_op io), op_ioctl = Some fat32_ioctl_op,
     op_mkdir = Some (fat32_mkdir_op io), op_create_file = Some (fat32_create_file_op io), op_link = Some fat32_link_op,
     op_unlink = Some (fat32_unlink_op io), op_rmdir = Some (fat32_rmdir_op io), op_mkfifo = Some fat32_mkfifo_op,
     op_mksock = Some fat32_mksock_op, op_list = Some (fat32_list_op io), op_get_info = Some (fat32_get_info_op io)\<rparr>"

end
