(* ===== verification/Ata_Drive.thy ===== *)
theory Ata_Drive
  imports Disk
begin

section \<open>A drive behind the ports, and the driver on it\<close>

text \<open>
  A drive that follows the protocol of the PIO commands: it is busy for a while after a command and
  after a sector was written, then it offers or takes 256 words, and an address beyond its end is an
  error.  On such a drive the functions of \<^verbatim>\<open>disk.c\<close> read and write exactly the sectors asked for;
  \<open>sector_disk\<close> is the contract the file systems rely on.
\<close>

datatype ata_phase = Drive_ready | Drive_sends "u16 list" | Drive_takes nat "u16 list" | Drive_error

record ata_drive =
  dr_store :: "nat \<Rightarrow> u16 list"
  dr_sectors :: nat
  dr_latency :: nat
  dr_busy :: nat
  dr_phase :: ata_phase
  dr_count :: u8
  dr_lba0 :: u8
  dr_lba1 :: u8
  dr_lba2 :: u8
  dr_select :: u8

definition drive_lba :: "ata_drive \<Rightarrow> nat" where
  "drive_lba p = unat (dr_lba0 p) + 256 * unat (dr_lba1 p) + 65536 * unat (dr_lba2 p) + 16777216 * unat (dr_select p AND 0x0F)"

definition phase_status :: "ata_phase \<Rightarrow> u8" where
  "phase_status ph = (case ph of Drive_ready \<Rightarrow> 0x50 | Drive_sends ws \<Rightarrow> 0x58 | Drive_takes a ws \<Rightarrow> 0x58 | Drive_error \<Rightarrow> 0x51)"

definition drive_inb :: "nat \<Rightarrow> ata_drive \<Rightarrow> u8 \<times> ata_drive" where
  "drive_inb port p =
     (if port \<noteq> 0x1F7 then (0, p)
      else if dr_busy p > 0 then (0x80, p\<lparr>dr_busy := dr_busy p - 1\<rparr>)
      else (phase_status (dr_phase p), p))"

definition identify_data :: "nat \<Rightarrow> u16 list" where
  "identify_data n = (replicate 256 0)[60 := word_of_nat n, 61 := word_of_nat (n div 65536)]"

definition drive_command :: "u8 \<Rightarrow> ata_drive \<Rightarrow> ata_drive" where
  "drive_command c p =
     (let lba = drive_lba p; here = dr_count p = 1 \<and> lba < dr_sectors p in
      p\<lparr>dr_busy := dr_latency p,
        dr_phase := (if c = 0x20 then (if here then Drive_sends (dr_store p lba) else Drive_error)
          else if c = 0x30 then (if here then Drive_takes lba [] else Drive_error)
          else if c = 0xEC then Drive_sends (identify_data (dr_sectors p))
          else if c = 0xE7 then Drive_ready
          else Drive_error)\<rparr>)"

definition drive_outb :: "nat \<Rightarrow> u8 \<Rightarrow> ata_drive \<Rightarrow> ata_drive" where
  "drive_outb port v p =
     (if port = 0x1F2 then p\<lparr>dr_count := v\<rparr>
      else if port = 0x1F3 then p\<lparr>dr_lba0 := v\<rparr>
      else if port = 0x1F4 then p\<lparr>dr_lba1 := v\<rparr>
      else if port = 0x1F5 then p\<lparr>dr_lba2 := v\<rparr>
      else if port = 0x1F6 then p\<lparr>dr_select := v\<rparr>
      else if port = 0x1F7 then drive_command v p
      else p)"

definition drive_inw :: "nat \<Rightarrow> ata_drive \<Rightarrow> u16 \<times> ata_drive" where
  "drive_inw port p =
     (case dr_phase p of
        Drive_sends (w # ws) \<Rightarrow> (w, p\<lparr>dr_phase := (if ws = [] then Drive_ready else Drive_sends ws)\<rparr>)
      | _ \<Rightarrow> (0, p))"

definition drive_outw :: "nat \<Rightarrow> u16 \<Rightarrow> ata_drive \<Rightarrow> ata_drive" where
  "drive_outw port w p =
     (case dr_phase p of
        Drive_takes a ws \<Rightarrow>
          (if length ws = 255 then p\<lparr>dr_store := (dr_store p)(a := ws @ [w]), dr_phase := Drive_ready, dr_busy := dr_latency p\<rparr>
           else p\<lparr>dr_phase := Drive_takes a (ws @ [w])\<rparr>)
      | _ \<Rightarrow> p)"

definition drive_ports :: "ata_drive ata_ports" where
  "drive_ports = \<lparr>pt_inb = drive_inb, pt_outb = drive_outb, pt_inw = drive_inw, pt_outw = drive_outw\<rparr>"

lemma drive_ports_simps [simp]:
  "pt_inb drive_ports = drive_inb" "pt_outb drive_ports = drive_outb" "pt_inw drive_ports = drive_inw"
  "pt_outw drive_ports = drive_outw"
  by (simp_all add: drive_ports_def)

definition drive_ok :: "ata_drive \<Rightarrow> bool" where
  "drive_ok p \<longleftrightarrow> dr_latency p < 1000000 \<and> dr_busy p < 1000000 \<and> dr_phase p = Drive_ready \<and> dr_sectors p \<le> 2 ^ 28 \<and>
     (\<forall>a. length (dr_store p a) = 256)"

subsection \<open>Waiting ends\<close>

lemma still: "dr_busy p = 0 \<Longrightarrow> p\<lparr>dr_busy := 0\<rparr> = p"
  by (cases p) simp

lemma not_busy_reached: "dr_busy p < t \<Longrightarrow> not_busy_loop t drive_ports p = (True, p\<lparr>dr_busy := 0\<rparr>)"
proof (induction t arbitrary: p)
  case (Suc t)
  show ?case
  proof (cases "dr_busy p")
    case 0
    then show ?thesis
      by (cases "dr_phase p")
        (simp_all add: ata_status_def drive_inb_def ATA_IO_BASE_def ATA_REG_STATUS_def ATA_SR_BSY_def phase_status_def still)
  next
    case (Suc b)
    then show ?thesis using Suc.IH [of "p\<lparr>dr_busy := b\<rparr>"] Suc.prems
      by (simp add: ata_status_def drive_inb_def ATA_IO_BASE_def ATA_REG_STATUS_def ATA_SR_BSY_def)
  qed
qed simp

definition offers :: "ata_phase \<Rightarrow> bool" where
  "offers ph \<longleftrightarrow> (case ph of Drive_sends ws \<Rightarrow> True | Drive_takes a ws \<Rightarrow> True | _ \<Rightarrow> False)"

lemma drq_reached: "dr_busy p < t \<Longrightarrow> drq_loop t drive_ports p = (offers (dr_phase p), p\<lparr>dr_busy := 0\<rparr>)"
  if "dr_phase p \<noteq> Drive_ready"
  using that
proof (induction t arbitrary: p)
  case (Suc t)
  show ?case
  proof (cases "dr_busy p")
    case 0
    then show ?thesis using Suc.prems
      by (cases "dr_phase p")
        (simp_all add: ata_status_def drive_inb_def ATA_IO_BASE_def ATA_REG_STATUS_def ATA_SR_BSY_def ATA_SR_ERR_def ATA_SR_DRQ_def
          phase_status_def still offers_def)
  next
    case (Suc b)
    then show ?thesis using Suc.IH [of "p\<lparr>dr_busy := b\<rparr>"] Suc.prems
      by (simp add: ata_status_def drive_inb_def ATA_IO_BASE_def ATA_REG_STATUS_def ATA_SR_BSY_def ATA_SR_ERR_def)
  qed
qed simp

lemma wait_reached:
  assumes "dr_busy p < 1000000"
  shows "ata_wait_not_busy drive_ports p = (True, p\<lparr>dr_busy := 0\<rparr>)"
    "dr_phase p \<noteq> Drive_ready \<Longrightarrow> ata_wait_drq drive_ports p = (offers (dr_phase p), p\<lparr>dr_busy := 0\<rparr>)"
  using not_busy_reached [OF assms] drq_reached [of p 1000000] assms by (simp_all add: ata_wait_not_busy_def ata_wait_drq_def)

subsection \<open>Commands\<close>

text \<open>The registers after the address was written; nothing else of the drive depends on them.\<close>

definition addressed :: "nat \<Rightarrow> ata_drive \<Rightarrow> ata_drive" where
  "addressed lba p = p\<lparr>dr_select := 0xE0 OR (lba_byte lba 3 AND 0x0F), dr_count := 1, dr_lba0 := lba_byte lba 0,
     dr_lba1 := lba_byte lba 1, dr_lba2 := lba_byte lba 2\<rparr>"

lemma unat_lba_byte: "unat (lba_byte lba k) = lba div 2 ^ (8 * k) mod 256"
  by (simp add: lba_byte_def unat_of_nat)

lemma select_low: "(0xE0 OR (b AND 0x0F)) AND 0x0F = (b AND 0x0F :: u8)"
  by (simp add: bit.conj_disj_distrib2 and.assoc)

lemma unat_low: "unat (b AND 0x0F :: u8) = unat b mod 16"
proof -
  have "(0x0F :: u8) = mask 4" by (simp add: mask_eq_exp_minus_1)
  then have "b AND 0x0F = take_bit 4 b" by (simp add: take_bit_eq_mask)
  then show ?thesis by (simp only: unsigned_take_bit_eq) (simp add: take_bit_eq_mod)
qed

lemma drive_lba_addressed:
  assumes "lba < 2 ^ 28"
  shows "drive_lba (addressed lba p) = lba"
proof -
  have E: "drive_lba (addressed lba p) = unat (lba_byte lba 0) + 256 * unat (lba_byte lba 1) + 65536 * unat (lba_byte lba 2) +
      16777216 * unat (lba_byte lba 3 AND 0x0F)"
    by (simp add: drive_lba_def addressed_def select_low)
  let ?a = "lba div 256" let ?b = "lba div 65536" let ?c = "lba div 16777216"
  have "unat (lba_byte lba 3 AND 0x0F) = ?c"
  proof -
    have "?c < 16" using assms by (simp add: less_mult_imp_div_less)
    then show ?thesis by (simp add: unat_low unat_lba_byte)
  qed
  moreover have "unat (lba_byte lba 0) = lba mod 256" "unat (lba_byte lba 1) = ?a mod 256" "unat (lba_byte lba 2) = ?b mod 256"
    by (simp_all add: unat_lba_byte)
  moreover have "?b = ?a div 256" "?c = ?b div 256" by (simp_all add: div_mult2_eq [symmetric])
  moreover have "lba = 256 * ?a + lba mod 256" "?a = 256 * (?a div 256) + ?a mod 256" "?b = 256 * (?b div 256) + ?b mod 256"
    by simp_all
  ultimately show ?thesis unfolding E by linarith
qed

lemma send_command_drive: "send_command drive_ports lba c p = drive_command c (addressed lba p)"
  by (simp add: send_command_def out_reg_def drive_outb_def addressed_def ATA_IO_BASE_def ATA_REG_COMMAND_def ATA_REG_LBA0_def
      ATA_REG_LBA1_def ATA_REG_LBA2_def ATA_REG_SECCNT_def ATA_REG_DRIVE_def)

lemma read_words_drive:
  "dr_phase p = Drive_sends ws \<Longrightarrow> ws \<noteq> [] \<Longrightarrow>
   read_words (length ws) drive_ports p = (ws, p\<lparr>dr_phase := Drive_ready\<rparr>)"
proof (induction ws arbitrary: p)
  case (Cons w ws)
  show ?case
  proof (cases "ws = []")
    case True
    then show ?thesis using Cons.prems by (simp add: drive_inw_def)
  next
    case False
    then show ?thesis using Cons.prems Cons.IH [of "p\<lparr>dr_phase := Drive_sends ws\<rparr>"] by (simp add: drive_inw_def)
  qed
qed simp

lemma write_words_drive:
  "dr_phase p = Drive_takes a ws \<Longrightarrow> length ws + length vs = 256 \<Longrightarrow> vs \<noteq> [] \<Longrightarrow>
   write_words vs drive_ports p = p\<lparr>dr_store := (dr_store p)(a := ws @ vs), dr_phase := Drive_ready, dr_busy := dr_latency p\<rparr>"
proof (induction vs arbitrary: p ws)
  case (Cons v vs)
  show ?case
  proof (cases "vs = []")
    case True
    then show ?thesis using Cons.prems by (simp add: drive_outw_def fun_upd_def)
  next
    case False
    then have "length ws \<noteq> 255" using Cons.prems by (cases vs) auto
    with False show ?thesis
      using Cons.prems Cons.IH [of "p\<lparr>dr_phase := Drive_takes a (ws @ [v])\<rparr>" "ws @ [v]"] by (simp add: drive_outw_def)
  qed
qed simp

subsection \<open>Sectors\<close>

text \<open>The same drive with other contents: what an access leaves.\<close>

definition same_drive :: "ata_drive \<Rightarrow> ata_drive \<Rightarrow> bool" where
  "same_drive p q \<longleftrightarrow> drive_ok q \<and> dr_store q = dr_store p \<and> dr_sectors q = dr_sectors p"

lemma same_drive_trans: "same_drive p q \<Longrightarrow> same_drive q r \<Longrightarrow> same_drive p r"
  by (simp add: same_drive_def)

lemma read_one:
  assumes "drive_ok p" "lba < dr_sectors p"
  shows "\<exists>p1 p2 p3. ata_wait_not_busy drive_ports p = (True, p1) \<and>
    ata_wait_drq drive_ports (send_command drive_ports lba ATA_CMD_READ_SECTORS p1) = (True, p2) \<and>
    read_words 256 drive_ports p2 = (dr_store p lba, p3) \<and> same_drive p p3"
proof -
  let ?p1 = "p\<lparr>dr_busy := 0\<rparr>"
  let ?c = "drive_command ATA_CMD_READ_SECTORS (addressed lba ?p1)"
  have lba: "lba < 2 ^ 28" using assms by (simp add: drive_ok_def)
  have c: "?c = (addressed lba ?p1)\<lparr>dr_busy := dr_latency p, dr_phase := Drive_sends (dr_store p lba)\<rparr>"
    using assms(2) drive_lba_addressed [OF lba, of ?p1]
    by (simp add: drive_command_def ATA_CMD_READ_SECTORS_def Let_def) (simp add: addressed_def)
  have w1: "ata_wait_not_busy drive_ports p = (True, ?p1)" using assms(1) by (intro wait_reached) (simp add: drive_ok_def)
  have w2: "ata_wait_drq drive_ports ?c = (True, ?c\<lparr>dr_busy := 0\<rparr>)"
    using assms(1) wait_reached(2) [of ?c] by (simp add: c offers_def drive_ok_def)
  have len: "length (dr_store p lba) = 256" using assms(1) by (simp add: drive_ok_def)
  then have r: "read_words 256 drive_ports (?c\<lparr>dr_busy := 0\<rparr>) = (dr_store p lba, ?c\<lparr>dr_busy := 0, dr_phase := Drive_ready\<rparr>)"
    using read_words_drive [of "?c\<lparr>dr_busy := 0\<rparr>" "dr_store p lba"] by (cases "dr_store p lba = []") (simp_all add: c)
  have "same_drive p (?c\<lparr>dr_busy := 0, dr_phase := Drive_ready\<rparr>)"
    unfolding c using assms(1) by (simp add: same_drive_def drive_ok_def addressed_def)
  then show ?thesis using w1 w2 r by (simp add: send_command_drive)
qed

lemma write_one:
  assumes "drive_ok p" "lba < dr_sectors p" "length ws = 256"
  shows "\<exists>p1 p2 p3. ata_wait_not_busy drive_ports p = (True, p1) \<and>
    ata_wait_drq drive_ports (send_command drive_ports lba ATA_CMD_WRITE_SECTORS p1) = (True, p2) \<and>
    ata_400ns_delay drive_ports (write_words ws drive_ports p2) = p3 \<and>
    drive_ok p3 \<and> dr_store p3 = (dr_store p)(lba := ws) \<and> dr_sectors p3 = dr_sectors p"
proof -
  let ?p1 = "p\<lparr>dr_busy := 0\<rparr>"
  let ?c = "drive_command ATA_CMD_WRITE_SECTORS (addressed lba ?p1)"
  let ?w = "?c\<lparr>dr_store := (dr_store p)(lba := ws), dr_phase := Drive_ready, dr_busy := dr_latency p\<rparr>"
  have lba: "lba < 2 ^ 28" using assms by (simp add: drive_ok_def)
  have c: "?c = (addressed lba ?p1)\<lparr>dr_busy := dr_latency p, dr_phase := Drive_takes lba []\<rparr>"
    using assms(2) drive_lba_addressed [OF lba, of ?p1]
    by (simp add: drive_command_def ATA_CMD_WRITE_SECTORS_def Let_def) (simp add: addressed_def)
  have w1: "ata_wait_not_busy drive_ports p = (True, ?p1)" using assms(1) by (intro wait_reached) (simp add: drive_ok_def)
  have w2: "ata_wait_drq drive_ports ?c = (True, ?c\<lparr>dr_busy := 0\<rparr>)"
    using assms(1) wait_reached(2) [of ?c] by (simp add: c offers_def drive_ok_def)
  have "ws \<noteq> []" using assms(3) by auto
  then have "write_words ws drive_ports (?c\<lparr>dr_busy := 0\<rparr>) = ?w"
    using write_words_drive [of "?c\<lparr>dr_busy := 0\<rparr>" lba "[]" ws] assms(3) unfolding c by (simp add: addressed_def)
  moreover have "ata_400ns_delay drive_ports q = q" for q
    by (simp add: ata_400ns_delay_def drive_inb_def ATA_CTRL_BASE_def)
  moreover have "drive_ok ?w \<and> dr_store ?w = (dr_store p)(lba := ws) \<and> dr_sectors ?w = dr_sectors p"
    unfolding c using assms(1,3) by (simp add: drive_ok_def addressed_def)
  ultimately show ?thesis using w1 w2 by (simp add: send_command_drive)
qed

lemma read_loop28_reads:
  "drive_ok p \<Longrightarrow> lba + n \<le> dr_sectors p \<Longrightarrow>
   \<exists>q. read_loop28 lba n drive_ports p = (True, concat (map (dr_store p) [lba..<lba + n]), q) \<and> same_drive p q"
proof (induction n arbitrary: lba p)
  case 0
  then show ?case by (simp add: same_drive_def)
next
  case (Suc n)
  then obtain p1 p2 p3 where one: "ata_wait_not_busy drive_ports p = (True, p1)"
      "ata_wait_drq drive_ports (send_command drive_ports lba ATA_CMD_READ_SECTORS p1) = (True, p2)"
      "read_words 256 drive_ports p2 = (dr_store p lba, p3)" and s: "same_drive p p3"
    using read_one [of p lba] by (auto simp del: One_nat_def)
  have n: "add32 lba 1 = lba + 1" using Suc.prems by (simp add: drive_ok_def add32_def)
  have "drive_ok p3" "lba + 1 + n \<le> dr_sectors p3" using s Suc.prems by (simp_all add: same_drive_def)
  from Suc.IH [OF this] obtain q where q: "read_loop28 (lba + 1) n drive_ports p3 =
      (True, concat (map (dr_store p3) [lba + 1..<lba + 1 + n]), q)" and sq: "same_drive p3 q" by blast
  have "[lba..<lba + Suc n] = lba # [lba + 1..<lba + 1 + n]" by (simp add: upt_conv_Cons)
  then show ?case using one q n s same_drive_trans [OF s sq] by (simp add: same_drive_def)
qed

lemma write_loop28_writes:
  "drive_ok p \<Longrightarrow> lba + n \<le> dr_sectors p \<Longrightarrow> length ws = 256 * n \<Longrightarrow>
   \<exists>q. write_loop28 lba n ws drive_ports p = (True, q) \<and> drive_ok q \<and> dr_sectors q = dr_sectors p \<and>
     dr_store q = (\<lambda>a. if lba \<le> a \<and> a < lba + n then take 256 (drop (256 * (a - lba)) ws) else dr_store p a)"
proof (induction n arbitrary: lba p ws)
  case 0
  then show ?case by (auto simp: fun_eq_iff)
next
  case (Suc n)
  have len: "length (take 256 ws) = 256" using Suc.prems by simp
  have lba: "lba < dr_sectors p" using Suc.prems by simp
  obtain p1 p2 p3 where one: "ata_wait_not_busy drive_ports p = (True, p1)"
      "ata_wait_drq drive_ports (send_command drive_ports lba ATA_CMD_WRITE_SECTORS p1) = (True, p2)"
      "ata_400ns_delay drive_ports (write_words (take 256 ws) drive_ports p2) = p3"
    and s: "drive_ok p3" "dr_store p3 = (dr_store p)(lba := take 256 ws)" "dr_sectors p3 = dr_sectors p"
    using write_one [OF Suc.prems(1) lba len] by blast
  have n: "add32 lba 1 = lba + 1" using Suc.prems by (simp add: drive_ok_def add32_def)
  have "lba + 1 + n \<le> dr_sectors p3" "length (drop 256 ws) = 256 * n" using s Suc.prems by simp_all
  from Suc.IH [OF s(1) this] obtain q where q: "write_loop28 (lba + 1) n (drop 256 ws) drive_ports p3 = (True, q)"
      "drive_ok q" "dr_sectors q = dr_sectors p3"
      "dr_store q = (\<lambda>a. if lba + 1 \<le> a \<and> a < lba + 1 + n then take 256 (drop (256 * (a - (lba + 1))) (drop 256 ws)) else dr_store p3 a)"
    by blast
  have "dr_store q = (\<lambda>a. if lba \<le> a \<and> a < lba + Suc n then take 256 (drop (256 * (a - lba)) ws) else dr_store p a)"
  proof
    fix a
    show "dr_store q a = (if lba \<le> a \<and> a < lba + Suc n then take 256 (drop (256 * (a - lba)) ws) else dr_store p a)"
    proof (cases "a = lba")
      case False
      moreover have "256 * (a - Suc lba) + 256 = 256 * (a - lba)" if "lba < a" using that by simp
      ultimately show ?thesis using q s by auto
    qed (use q s in simp)
  qed
  then show ?case using one q n s by simp
qed

subsection \<open>The bytes of a buffer\<close>

lemma byte_words_length: "length (byte_words bs) = length bs div 2"
  by (induction bs rule: byte_words.induct) simp_all

lemma word_bytes_length: "length (word_bytes ws) = 2 * length ws"
  by (induction ws) simp_all

lemma word_bytes_append: "word_bytes (ws @ vs) = word_bytes ws @ word_bytes vs"
  by (induction ws) simp_all

lemma word_bytes_byte_words: "even (length bs) \<Longrightarrow> word_bytes (byte_words bs) = bs"
proof (induction bs rule: byte_words.induct)
  case (1 a b bs)
  have "(of_char a + 256 * of_char b :: nat) < 65536" using of_char_less_256 [of a] of_char_less_256 [of b] by linarith
  then have "unat (word_of_nat (of_char a + 256 * of_char b) :: u16) = of_char a + 256 * of_char b" by (simp only: unat_of_nat) simp
  then show ?case using 1 by (simp del: of_nat_add of_nat_mult)
qed simp_all

lemma byte_words_take: "byte_words (take (2 * n) bs) = take n (byte_words bs)"
proof (induction bs arbitrary: n rule: byte_words.induct)
  case (1 a b bs)
  then show ?case by (cases n) simp_all
qed (auto simp: take_Cons' split: nat.splits)

lemma byte_words_drop: "byte_words (drop (2 * n) bs) = drop n (byte_words bs)"
proof (induction bs arbitrary: n rule: byte_words.induct)
  case (1 a b bs)
  then show ?case by (cases n) simp_all
qed (auto simp: drop_Cons' split: nat.splits)

lemma word_bytes_concat: "word_bytes (concat wss) = concat (map word_bytes wss)"
  by (induction wss) (simp_all add: word_bytes_append)

subsection \<open>The disk\<close>

definition disk_sector :: "ata_drive disk \<Rightarrow> nat \<Rightarrow> byte list" where
  "disk_sector d a = word_bytes (dr_store (dk_port d) a)"

text \<open>The drive is in order, and the driver found out its size.\<close>

definition disk_ok :: "ata_drive disk \<Rightarrow> bool" where
  "disk_ok d \<longleftrightarrow> drive_ok (dk_port d) \<and> g_total_sectors d \<le> dr_sectors (dk_port d)"

definition same_tables :: "'p disk \<Rightarrow> 'p disk \<Rightarrow> bool" where
  "same_tables d e \<longleftrightarrow> g_total_sectors e = g_total_sectors d \<and> g_disk_parts e = g_disk_parts d"

lemma disk_sector_length: "disk_ok d \<Longrightarrow> length (disk_sector d a) = 512"
  by (simp add: disk_sector_def word_bytes_length disk_ok_def drive_ok_def)

lemma sectors_on_disk_bounds:
  assumes "disk_ok d" "sectors_on_disk (g_total_sectors d) lba count"
  shows "lba + count \<le> dr_sectors (dk_port d)" "\<not> (count = 0 \<or> count > 255 \<or> lba > 0x0FFFFFFF)"
proof -
  have "g_total_sectors d \<le> 2 ^ 28" using assms(1) by (simp add: disk_ok_def drive_ok_def)
  then have "add32 lba count = lba + count" using assms(2) by (simp add: sectors_on_disk_def add32_def)
  then show "lba + count \<le> dr_sectors (dk_port d)" "\<not> (count = 0 \<or> count > 255 \<or> lba > 0x0FFFFFFF)"
    using assms by (simp_all add: sectors_on_disk_def disk_ok_def drive_ok_def)
qed

lemma disk_reads:
  assumes "disk_ok d" "sectors_on_disk (g_total_sectors d) lba count"
  shows "\<exists>e. disk_read_kernel drive_ports lba count d = (True, concat (map (disk_sector d) [lba..<lba + count]), e) \<and>
    disk_ok e \<and> disk_sector e = disk_sector d \<and> same_tables d e"
proof -
  note B = sectors_on_disk_bounds [OF assms]
  have "drive_ok (dk_port d)" using assms(1) by (simp add: disk_ok_def)
  from read_loop28_reads [OF this B(1)] obtain q where q: "read_loop28 lba count drive_ports (dk_port d) =
      (True, concat (map (dr_store (dk_port d)) [lba..<lba + count]), q)" "same_drive (dk_port d) q" by blast
  have sec: "disk_sector d = (\<lambda>a. word_bytes (dr_store (dk_port d) a))" by (rule ext) (simp add: disk_sector_def)
  have "disk_read_kernel drive_ports lba count d = (True, concat (map (disk_sector d) [lba..<lba + count]), d\<lparr>dk_port := q\<rparr>)"
    using assms(2) B(2) q(1) by (simp add: disk_read_kernel_def ata_read28_def word_bytes_concat sec comp_def)
  moreover have "disk_ok (d\<lparr>dk_port := q\<rparr>) \<and> disk_sector (d\<lparr>dk_port := q\<rparr>) = disk_sector d"
    using q(2) assms(1) by (auto simp: disk_ok_def same_drive_def disk_sector_def)
  ultimately show ?thesis by (auto simp: same_tables_def)
qed

lemma disk_writes:
  assumes "disk_ok d" "sectors_on_disk (g_total_sectors d) lba count" "length bs = 512 * count"
  shows "\<exists>e. disk_write_kernel drive_ports lba count bs d = (True, e) \<and> disk_ok e \<and> same_tables d e \<and>
    disk_sector e = (\<lambda>a. if lba \<le> a \<and> a < lba + count then take 512 (drop (512 * (a - lba)) bs) else disk_sector d a)"
proof -
  note B = sectors_on_disk_bounds [OF assms(1,2)]
  have ok: "drive_ok (dk_port d)" using assms(1) by (simp add: disk_ok_def)
  have len: "length (byte_words bs) = 256 * count" using assms(3) by (simp add: byte_words_length)
  from write_loop28_writes [OF ok B(1) len] obtain q where q: "write_loop28 lba count (byte_words bs) drive_ports (dk_port d) = (True, q)"
      "drive_ok q" "dr_sectors q = dr_sectors (dk_port d)"
      "dr_store q = (\<lambda>a. if lba \<le> a \<and> a < lba + count then take 256 (drop (256 * (a - lba)) (byte_words bs)) else dr_store (dk_port d) a)"
    by blast
  let ?q1 = "q\<lparr>dr_busy := 0\<rparr>"
  let ?c = "drive_command ATA_CMD_CACHE_FLUSH ?q1"
  let ?q2 = "?c\<lparr>dr_busy := 0\<rparr>"
  have c: "?c = ?q1\<lparr>dr_busy := dr_latency q, dr_phase := Drive_ready\<rparr>"
    by (simp add: drive_command_def ATA_CMD_CACHE_FLUSH_def Let_def)
  have "ata_wait_not_busy drive_ports q = (True, ?q1)" using q(2) by (intro wait_reached) (simp add: drive_ok_def)
  moreover have "ata_wait_not_busy drive_ports ?c = (True, ?q2)" using q(2) by (intro wait_reached) (simp add: c drive_ok_def)
  moreover have "out_reg drive_ports ATA_REG_COMMAND ATA_CMD_CACHE_FLUSH ?q1 = ?c"
    by (simp add: out_reg_def drive_outb_def ATA_IO_BASE_def ATA_REG_COMMAND_def)
  ultimately have "disk_write_kernel drive_ports lba count bs d = (True, d\<lparr>dk_port := ?q2\<rparr>)"
    using assms(2) B(2) q(1) by (simp add: disk_write_kernel_def ata_write28_def)
  moreover have "disk_ok (d\<lparr>dk_port := ?q2\<rparr>)" using q(2,3) assms(1) by (simp add: c disk_ok_def drive_ok_def)
  moreover have "word_bytes (take 256 (drop (256 * k) (byte_words bs))) = take 512 (drop (512 * k) bs)" for k
  proof -
    have "take 256 (drop (256 * k) (byte_words bs)) = byte_words (take (2 * 256) (drop (2 * (256 * k)) bs))"
      by (simp only: byte_words_take byte_words_drop)
    moreover have "even (length (take 512 (drop (512 * k) bs)))" using assms(3) by (simp add: min_def)
    ultimately show ?thesis by (simp add: word_bytes_byte_words)
  qed
  then have "disk_sector (d\<lparr>dk_port := ?q2\<rparr>) =
      (\<lambda>a. if lba \<le> a \<and> a < lba + count then take 512 (drop (512 * (a - lba)) bs) else disk_sector d a)"
    by (auto simp: disk_sector_def c q(4))
  ultimately show ?thesis by (auto simp: same_tables_def)
qed

subsection \<open>What a file system relies on\<close>

text \<open>A disk whose driver reads and writes single sectors: \<open>sec d\<close> are the contents and \<open>ok\<close> the states in
  which the drive answers.\<close>

locale sector_disk =
  fixes io :: "'p ata_ports" and ok :: "'p disk \<Rightarrow> bool" and sec :: "'p disk \<Rightarrow> nat \<Rightarrow> byte list"
  assumes sec_length: "ok d \<Longrightarrow> length (sec d a) = 512"
    and read_law: "ok d \<Longrightarrow> a < g_total_sectors d \<Longrightarrow>
      \<exists>e. disk_read_kernel io a 1 d = (True, sec d a, e) \<and> ok e \<and> sec e = sec d \<and> same_tables d e"
    and write_law: "ok d \<Longrightarrow> a < g_total_sectors d \<Longrightarrow> length bs = 512 \<Longrightarrow>
      \<exists>e. disk_write_kernel io a 1 bs d = (True, e) \<and> ok e \<and> sec e = (sec d)(a := bs) \<and> same_tables d e"
    and total_bound: "ok d \<Longrightarrow> g_total_sectors d < 2 ^ 32"

lemma one_sector: "disk_ok d \<Longrightarrow> a < g_total_sectors d \<Longrightarrow> sectors_on_disk (g_total_sectors d) a 1"
  by (simp add: disk_ok_def drive_ok_def sectors_on_disk_def add32_def)

interpretation ata: sector_disk drive_ports disk_ok disk_sector
proof (unfold_locales, goal_cases)
  case (1 d a)
  then show ?case by (rule disk_sector_length)
next
  case (2 d a)
  then show ?case using disk_reads [OF 2(1) one_sector [OF 2]] by simp
next
  case (3 d a bs)
  have "(\<lambda>b. if a \<le> b \<and> b < a + 1 then take 512 (drop (512 * (b - a)) bs) else disk_sector d b) = (disk_sector d)(a := bs)"
    using 3(3) by (auto simp: fun_eq_iff)
  then show ?case using disk_writes [OF 3(1) one_sector [OF 3(1,2)], of bs] 3(3) by auto
next
  case (4 d)
  then show ?case by (simp add: disk_ok_def drive_ok_def)
qed


definition demo_disk :: "ata_drive disk" where
  "demo_disk = \<lparr>dk_port = \<lparr>dr_store = (\<lambda>a. replicate 256 0), dr_sectors = 1000, dr_latency = 7, dr_busy = 3,
     dr_phase = Drive_ready, dr_count = 0, dr_lba0 = 0, dr_lba1 = 0, dr_lba2 = 0, dr_select = 0\<rparr>,
     g_total_sectors = 1000, g_disk_parts = []\<rparr>"


end
