(* ===== verification/Fat32_Volume.thy ===== *)
theory Fat32_Volume
  imports Fat32_Ops Ata_Drive
begin

section \<open>A FAT32 volume as a table and clusters\<close>

text \<open>
  What the functions of \<^verbatim>\<open>fat32.c\<close> below the directories do to a volume whose geometry is in order: the
  entries of the table (all its copies) and the contents of the clusters are the abstract state, and
  the lemmas on any \<open>sector_disk\<close> say how each function changes it.
\<close>

subsection \<open>Geometry\<close>

definition vol_ok :: "fat32_fs \<Rightarrow> nat \<Rightarrow> bool" where
  "vol_ok fs tot \<longleftrightarrow> disk_kind fs = FAT32_DISK_ATA \<and> part_start_lba fs + part_total_sectors fs \<le> tot \<and> tot < 2 ^ 32 \<and>
     bytes_per_sector fs = 512 \<and> 0 < sectors_per_cluster fs \<and> sectors_per_cluster fs < 256 \<and> 0 < num_fats fs \<and>
     fat_start_lba fs + num_fats fs * fat_size_sectors fs \<le> data_start_lba fs \<and>
     data_start_lba fs < part_total_sectors fs \<and> fat32_max_cluster fs < 128 * fat_size_sectors fs \<and>
     fat32_max_cluster fs < 0x0FFFFFF0"

definition cluster_ok :: "fat32_fs \<Rightarrow> nat \<Rightarrow> bool" where
  "cluster_ok fs c \<longleftrightarrow> 2 \<le> c \<and> c \<le> fat32_max_cluster fs"

definition cluster_lba :: "fat32_fs \<Rightarrow> nat \<Rightarrow> nat" where
  "cluster_lba fs c = data_start_lba fs + (c - 2) * sectors_per_cluster fs"

definition fat_lba :: "fat32_fs \<Rightarrow> nat \<Rightarrow> nat \<Rightarrow> nat" where
  "fat_lba fs i c = fat_start_lba fs + i * fat_size_sectors fs + c div 128"

lemma vol_bounds:
  assumes "vol_ok fs tot"
  shows "part_start_lba fs + part_total_sectors fs < 2 ^ 32" "part_total_sectors fs \<le> tot" "0 < fat_size_sectors fs"
    "1 \<le> data_start_lba fs" "data_start_lba fs < part_total_sectors fs"
proof -
  show "part_start_lba fs + part_total_sectors fs < 2 ^ 32" "part_total_sectors fs \<le> tot" "0 < fat_size_sectors fs"
    "data_start_lba fs < part_total_sectors fs"
    using assms by (auto simp: vol_ok_def intro: ccontr)
  have "1 * 1 \<le> num_fats fs * fat_size_sectors fs" using assms by (intro mult_le_mono) (auto simp: vol_ok_def intro: ccontr)
  then show "1 \<le> data_start_lba fs" using assms unfolding vol_ok_def by linarith
qed

lemma max_cluster_eq:
  assumes "vol_ok fs tot"
  shows "fat32_max_cluster fs = (part_total_sectors fs - data_start_lba fs) div sectors_per_cluster fs + 1"
proof -
  let ?q = "(part_total_sectors fs - data_start_lba fs) div sectors_per_cluster fs"
  have "?q \<le> part_total_sectors fs - data_start_lba fs" by (rule div_le_dividend)
  then have "?q + 1 < 2 ^ 32" using vol_bounds [OF assms] by linarith
  then show ?thesis using assms by (simp add: fat32_max_cluster_def vol_ok_def add32_def)
qed

lemma cluster_bounds:
  assumes v: "vol_ok fs tot" and c: "cluster_ok fs c" and s: "s < sectors_per_cluster fs"
  shows "fat32_cluster_to_rel_lba fs c = cluster_lba fs c" "add32 (cluster_lba fs c) s = cluster_lba fs c + s"
    "data_start_lba fs \<le> cluster_lba fs c" "cluster_lba fs c + s < part_total_sectors fs"
proof -
  let ?n = "sectors_per_cluster fs" let ?D = "part_total_sectors fs - data_start_lba fs"
  have "c - 1 \<le> ?D div ?n" using c max_cluster_eq [OF v] unfolding cluster_ok_def by linarith
  then have "(c - 1) * ?n \<le> ?D div ?n * ?n" by (rule mult_le_mono1)
  also have "\<dots> \<le> ?D" by (rule div_times_less_eq_dividend)
  finally have le: "(c - 1) * ?n \<le> ?D" .
  have "c - 1 = Suc (c - 2)" using c unfolding cluster_ok_def by arith
  then have m: "(c - 1) * ?n = (c - 2) * ?n + ?n" by simp
  show lt: "cluster_lba fs c + s < part_total_sectors fs" and "data_start_lba fs \<le> cluster_lba fs c"
    using le m s vol_bounds [OF v] by (simp_all add: cluster_lba_def)
  then have small: "cluster_lba fs c + s < 2 ^ 32" using vol_bounds [OF v] by linarith
  then show "add32 (cluster_lba fs c) s = cluster_lba fs c + s" by (simp add: add32_def)
  have "(c - 2) * ?n < 2 ^ 32" "cluster_lba fs c < 2 ^ 32" using small by (simp_all add: cluster_lba_def)
  moreover have "c < 2 ^ 32" using v c by (simp add: vol_ok_def cluster_ok_def)
  ultimately show "fat32_cluster_to_rel_lba fs c = cluster_lba fs c"
    using c by (simp add: fat32_cluster_to_rel_lba_def cluster_lba_def add32_def mul32_def sub32_eq cluster_ok_def)
qed

lemma fat_bounds:
  assumes v: "vol_ok fs tot" and c: "cluster_ok fs c" and i: "i < num_fats fs"
  shows "c div 128 < fat_size_sectors fs" "fat_lba fs i c < data_start_lba fs"
    "mul32 c 4 div 512 = c div 128" "mul32 c 4 mod 512 = 4 * (c mod 128)"
    "add32 (add32 (fat_start_lba fs) (mul32 i (fat_size_sectors fs))) (c div 128) = fat_lba fs i c"
    "add32 (fat_start_lba fs) (c div 128) = fat_lba fs 0 c"
proof -
  show d: "c div 128 < fat_size_sectors fs" using v c by (simp add: vol_ok_def cluster_ok_def less_mult_imp_div_less)
  have "Suc i * fat_size_sectors fs \<le> num_fats fs * fat_size_sectors fs" using i by (intro mult_le_mono1) simp
  then have "i * fat_size_sectors fs + fat_size_sectors fs \<le> num_fats fs * fat_size_sectors fs" by simp
  then show lt: "fat_lba fs i c < data_start_lba fs" using v d unfolding vol_ok_def fat_lba_def by linarith
  have c4: "c * 4 < 2 ^ 32" using v c by (simp add: vol_ok_def cluster_ok_def)
  have "c * 4 div (128 * 4) = c div 128" by (rule div_mult_mult2) simp
  moreover have "c * 4 mod (128 * 4) = c mod 128 * 4" by (rule mod_mult_mult2)
  ultimately show "mul32 c 4 div 512 = c div 128" "mul32 c 4 mod 512 = 4 * (c mod 128)" using c4 by (simp_all add: mul32_def)
  have small: "data_start_lba fs < 2 ^ 32" using vol_bounds [OF v] by linarith
  have "i * fat_size_sectors fs < 2 ^ 32" "fat_start_lba fs + i * fat_size_sectors fs < 2 ^ 32" "fat_lba fs i c < 2 ^ 32"
    "fat_start_lba fs + c div 128 < 2 ^ 32"
    using lt small unfolding fat_lba_def by linarith+
  then show "add32 (add32 (fat_start_lba fs) (mul32 i (fat_size_sectors fs))) (c div 128) = fat_lba fs i c"
    "add32 (fat_start_lba fs) (c div 128) = fat_lba fs 0 c"
    by (simp_all add: add32_def mul32_def fat_lba_def)
qed

text \<open>Different copies and different sectors of a copy lie at different places.\<close>

lemma fat_lba_inject:
  assumes "c div 128 < fat_size_sectors fs" "c' div 128 < fat_size_sectors fs"
  shows "fat_lba fs i c = fat_lba fs j c' \<longleftrightarrow> i = j \<and> c div 128 = c' div 128"
proof
  let ?n = "fat_size_sectors fs"
  assume "fat_lba fs i c = fat_lba fs j c'"
  then have e: "i * ?n + c div 128 = j * ?n + c' div 128" by (simp add: fat_lba_def)
  have "(i * ?n + c div 128) div ?n = i" "(j * ?n + c' div 128) div ?n = j" using assms by simp_all
  then have "i = j" using e by simp
  then show "i = j \<and> c div 128 = c' div 128" using e by simp
qed (simp add: fat_lba_def)

lemma cluster_lba_inject:
  assumes "cluster_ok fs c" "cluster_ok fs c'" "s < sectors_per_cluster fs" "s' < sectors_per_cluster fs"
  shows "cluster_lba fs c + s = cluster_lba fs c' + s' \<longleftrightarrow> c = c' \<and> s = s'"
proof
  let ?n = "sectors_per_cluster fs"
  assume "cluster_lba fs c + s = cluster_lba fs c' + s'"
  then have e: "(c - 2) * ?n + s = (c' - 2) * ?n + s'" by (simp add: cluster_lba_def)
  have "((c - 2) * ?n + s) div ?n = c - 2" "((c' - 2) * ?n + s') div ?n = c' - 2" using assms(3,4) by simp_all
  then have "c - 2 = c' - 2" using e by simp
  then show "c = c' \<and> s = s'" using e assms(1,2) unfolding cluster_ok_def by auto
qed simp

subsection \<open>The abstract state\<close>

text \<open>The sectors of the partition, an entry of a copy of the table, and the sectors of a cluster.\<close>

definition part_sec :: "fat32_fs \<Rightarrow> (nat \<Rightarrow> byte list) \<Rightarrow> nat \<Rightarrow> byte list" where
  "part_sec fs img a = img (part_start_lba fs + a)"

definition fat_entry :: "fat32_fs \<Rightarrow> (nat \<Rightarrow> byte list) \<Rightarrow> nat \<Rightarrow> nat \<Rightarrow> nat" where
  "fat_entry fs img i c = rd_le32 (part_sec fs img (fat_lba fs i c)) (4 * (c mod 128))"

definition fat_tab :: "fat32_fs \<Rightarrow> (nat \<Rightarrow> byte list) \<Rightarrow> nat \<Rightarrow> nat" where
  "fat_tab fs img c = fat_entry fs img 0 c mod 2 ^ 28"

definition cluster_sec :: "fat32_fs \<Rightarrow> (nat \<Rightarrow> byte list) \<Rightarrow> nat \<Rightarrow> nat \<Rightarrow> byte list" where
  "cluster_sec fs img c s = part_sec fs img (cluster_lba fs c + s)"

lemma part_sec_upd: "part_sec fs (img(part_start_lba fs + a := bs)) = (part_sec fs img)(a := bs)"
  by (auto simp: part_sec_def fun_eq_iff)

lemma patch_length: "off + length xs \<le> length bs \<Longrightarrow> length (patch bs off xs) = length bs"
  by (simp add: patch_def)

lemma patch_nth:
  "off + length xs \<le> length bs \<Longrightarrow> i < length bs \<Longrightarrow>
   patch bs off xs ! i = (if off \<le> i \<and> i < off + length xs then xs ! (i - off) else bs ! i)"
  by (auto simp: patch_def nth_append)

lemma rd_le32_eq_load32: "rd_le32 bs i = load32 (\<lambda>a. bs ! a) i"
  by (simp add: rd_le32_def load32_def)

lemma rd_le32_patch:
  assumes "off + 4 \<le> length bs" "i + 4 \<le> length bs" "v < 2 ^ 32"
  shows "i = off \<Longrightarrow> rd_le32 (patch bs off (le32 v)) i = v"
    "i + 4 \<le> off \<or> off + 4 \<le> i \<Longrightarrow> rd_le32 (patch bs off (le32 v)) i = rd_le32 bs i"
proof -
  assume i: "i = off"
  have "bytes_at (\<lambda>a. patch bs off (le32 v) ! a) off (le32 v)" using assms by (auto simp: bytes_at_nth patch_nth)
  then show "rd_le32 (patch bs off (le32 v)) i = v" using load32_le32 assms(3) i by (simp add: rd_le32_eq_load32)
next
  assume "i + 4 \<le> off \<or> off + 4 \<le> i"
  then show "rd_le32 (patch bs off (le32 v)) i = rd_le32 bs i"
    using assms unfolding rd_le32_eq_load32 by (intro load32_cong) (auto simp: patch_nth)
qed

subsection \<open>Single sectors\<close>

text \<open>The disk \<open>e\<close> that a function leaves when it started at \<open>d\<close>: its sectors are \<open>img\<close>.\<close>

definition leaves :: "('p disk \<Rightarrow> bool) \<Rightarrow> ('p disk \<Rightarrow> nat \<Rightarrow> byte list) \<Rightarrow> 'p disk \<Rightarrow> (nat \<Rightarrow> byte list) \<Rightarrow> 'p disk \<Rightarrow> bool" where
  "leaves ok sec d img e \<longleftrightarrow> ok e \<and> sec e = img \<and> same_tables d e"

lemma leaves_trans: "leaves ok sec d img e \<Longrightarrow> leaves ok sec e img' e' \<Longrightarrow> leaves ok sec d img' e'"
  by (simp add: leaves_def same_tables_def)

lemma leavesD:
  "leaves ok sec d img e \<Longrightarrow> ok e" "leaves ok sec d img e \<Longrightarrow> sec e = img"
  "leaves ok sec d img e \<Longrightarrow> g_total_sectors e = g_total_sectors d"
  by (simp_all add: leaves_def same_tables_def)

text \<open>The image after an entry was set in the copies \<open>is\<close> of the table, and in all of them.\<close>

definition fat_set_copies :: "fat32_fs \<Rightarrow> nat set \<Rightarrow> nat \<Rightarrow> nat \<Rightarrow> (nat \<Rightarrow> byte list) \<Rightarrow> nat \<Rightarrow> byte list" where
  "fat_set_copies fs is c v img = (\<lambda>a. if a \<in> (\<lambda>i. part_start_lba fs + fat_lba fs i c) ` is
     then patch (img a) (4 * (c mod 128)) (le32 (rd_le32 (img a) (4 * (c mod 128)) div 2 ^ 28 * 2 ^ 28 + v)) else img a)"

definition fat_set_img :: "fat32_fs \<Rightarrow> nat \<Rightarrow> nat \<Rightarrow> (nat \<Rightarrow> byte list) \<Rightarrow> nat \<Rightarrow> byte list" where
  "fat_set_img fs c v = fat_set_copies fs {0..<num_fats fs} c (v mod 2 ^ 28)"

definition zero_img :: "fat32_fs \<Rightarrow> nat \<Rightarrow> (nat \<Rightarrow> byte list) \<Rightarrow> nat \<Rightarrow> byte list" where
  "zero_img fs c img = (\<lambda>a. if part_start_lba fs + cluster_lba fs c \<le> a \<and> a < part_start_lba fs + cluster_lba fs c + sectors_per_cluster fs
     then replicate 512 NUL else img a)"

context sector_disk
begin

lemma read_sector:
  assumes "ok d" "vol_ok fs (g_total_sectors d)" "a < part_total_sectors fs"
  shows "\<exists>e. fat32_read_sectors io fs a 1 d = (Some (part_sec fs (sec d) a), e) \<and> leaves ok sec d (sec d) e"
proof -
  have "sectors_in_part fs a 1" "add32 (part_start_lba fs) a = part_start_lba fs + a" "part_start_lba fs + a < g_total_sectors d"
    using assms(2,3) vol_bounds [OF assms(2)] by (simp_all add: sectors_in_part_def add32_def vol_ok_def)
  then show ?thesis using read_law [OF assms(1), of "part_start_lba fs + a"]
    by (auto simp: fat32_read_sectors_def leaves_def part_sec_def)
qed

lemma write_sector:
  assumes "ok d" "vol_ok fs (g_total_sectors d)" "a < part_total_sectors fs" "length bs = 512"
  shows "\<exists>e. fat32_write_sectors io fs a 1 bs d = (Some (), e) \<and> leaves ok sec d ((sec d)(part_start_lba fs + a := bs)) e"
proof -
  have "sectors_in_part fs a 1" "add32 (part_start_lba fs) a = part_start_lba fs + a" "part_start_lba fs + a < g_total_sectors d"
    using assms(2,3) vol_bounds [OF assms(2)] by (simp_all add: sectors_in_part_def add32_def vol_ok_def)
  then show ?thesis using write_law [OF assms(1), of "part_start_lba fs + a" bs] assms(4)
    by (auto simp: fat32_write_sectors_def leaves_def)
qed

lemma fat_get:
  assumes "ok d" "vol_ok fs (g_total_sectors d)" "cluster_ok fs c"
  shows "\<exists>e. fat32_fat_get io fs c d = (Some (fat_tab fs (sec d) c), e) \<and> leaves ok sec d (sec d) e"
proof -
  have n: "0 < num_fats fs" using assms(2) by (simp add: vol_ok_def)
  note B = fat_bounds [OF assms(2,3) n]
  have "fat_lba fs 0 c < part_total_sectors fs" using B(2) vol_bounds [OF assms(2)] by linarith
  from read_sector [OF assms(1,2) this] show ?thesis
    using B assms(3) by (auto simp: fat32_fat_get_def and_then_def Let_def fat_tab_def fat_entry_def cluster_ok_def)
qed

lemma fat_set_loop:
  assumes "vol_ok fs (g_total_sectors d)" "cluster_ok fs c" "v < 2 ^ 28"
  shows "ok d \<Longrightarrow> distinct is \<Longrightarrow> set is \<subseteq> {0..<num_fats fs} \<Longrightarrow>
    \<exists>e. fat_set_loop io fs (c div 128) (4 * (c mod 128)) v is d = (Some (), e) \<and>
      leaves ok sec d (fat_set_copies fs (set is) c v (sec d)) e"
  using assms
proof (induction "is" arbitrary: d)
  case Nil
  then show ?case by (simp add: leaves_def fat_set_copies_def same_tables_def)
next
  case (Cons i "is")
  have i: "i < num_fats fs" using Cons.prems by simp
  note B = fat_bounds [OF Cons.prems(4,5) i]
  have a: "fat_lba fs i c < part_total_sectors fs" using B(2) vol_bounds [OF Cons.prems(4)] by linarith
  let ?off = "4 * (c mod 128)"
  let ?b = "part_sec fs (sec d) (fat_lba fs i c)"
  let ?b1 = "patch ?b ?off (le32 (rd_le32 ?b ?off div 2 ^ 28 * 2 ^ 28 + v))"
  obtain e1 where r: "fat32_read_sectors io fs (fat_lba fs i c) 1 d = (Some ?b, e1)" "leaves ok sec d (sec d) e1"
    using read_sector [OF Cons.prems(1,4) a] by blast
  have tot1: "vol_ok fs (g_total_sectors e1)" using Cons.prems(4) leavesD(3) [OF r(2)] by simp
  have len: "length ?b1 = 512"
    using sec_length [OF Cons.prems(1)] by (subst patch_length) (simp_all add: part_sec_def)
  obtain e2 where w: "fat32_write_sectors io fs (fat_lba fs i c) 1 ?b1 e1 = (Some (), e2)"
    "leaves ok sec e1 ((sec e1)(part_start_lba fs + fat_lba fs i c := ?b1)) e2"
    using write_sector [OF leavesD(1) [OF r(2)] tot1 a len] by blast
  have L: "leaves ok sec d ((sec d)(part_start_lba fs + fat_lba fs i c := ?b1)) e2"
    using leaves_trans [OF r(2) w(2)] leavesD(2) [OF r(2)] by simp
  have "vol_ok fs (g_total_sectors e2)" using Cons.prems(4) leavesD(3) [OF L] by simp
  with Cons.IH [OF leavesD(1) [OF L]] Cons.prems obtain e where
    l: "fat_set_loop io fs (c div 128) ?off v is e2 = (Some (), e)" "leaves ok sec e2 (fat_set_copies fs (set is) c v (sec e2)) e"
    by auto
  have "fat_set_copies fs (set is) c v (sec e2) = fat_set_copies fs (set (i # is)) c v (sec d)"
  proof
    fix b
    have "fat_lba fs i c \<noteq> fat_lba fs j c" if "j \<in> set is" for j
      using that Cons.prems(2) B(1) by (auto simp: fat_lba_inject)
    then show "fat_set_copies fs (set is) c v (sec e2) b = fat_set_copies fs (set (i # is)) c v (sec d) b"
      using leavesD(2) [OF L] by (auto simp: fat_set_copies_def part_sec_def)
  qed
  then have "leaves ok sec d (fat_set_copies fs (set (i # is)) c v (sec d)) e" using leaves_trans [OF L l(2)] by simp
  then show ?case using r(1) w(1) l(1) B(5) by (simp add: and_then_def Let_def)
qed

lemma fat_set:
  assumes "ok d" "vol_ok fs (g_total_sectors d)" "cluster_ok fs c"
  shows "\<exists>e. fat32_fat_set io fs c v d = (Some (), e) \<and> leaves ok sec d (fat_set_img fs c v (sec d)) e"
proof -
  have n: "0 < num_fats fs" using assms(2) by (simp add: vol_ok_def)
  note B = fat_bounds [OF assms(2,3) n]
  have "v mod 2 ^ 28 < 2 ^ 28" by simp
  from fat_set_loop [OF assms(2,3) this assms(1), of "[0..<num_fats fs]"] show ?thesis
    using B assms(3) by (simp add: fat32_fat_set_def fat_set_img_def cluster_ok_def)
qed

end

subsection \<open>What the updates do to the table and the clusters\<close>

lemma fat_set_img_other:
  assumes "\<And>i. i < num_fats fs \<Longrightarrow> fat_lba fs i c \<noteq> a"
  shows "part_sec fs (fat_set_img fs c v img) a = part_sec fs img a"
proof -
  have "part_start_lba fs + a \<notin> (\<lambda>i. part_start_lba fs + fat_lba fs i c) ` {0..<num_fats fs}"
    using assms by fastforce
  then show ?thesis unfolding part_sec_def fat_set_img_def fat_set_copies_def by (rule if_not_P)
qed

lemma fat_set_img_elsewhere:
  assumes "vol_ok fs tot" "cluster_ok fs c" "a \<ge> data_start_lba fs"
  shows "part_sec fs (fat_set_img fs c v img) a = part_sec fs img a"
proof (rule fat_set_img_other)
  fix i assume "i < num_fats fs"
  from fat_bounds(2) [OF assms(1,2) this] show "fat_lba fs i c \<noteq> a" using assms(3) by simp
qed

lemma fat_entry_set:
  assumes v: "vol_ok fs tot" and c: "cluster_ok fs c" "cluster_ok fs c'" and i: "i < num_fats fs" and len: "\<forall>a. length (img a) = 512"
  shows "fat_entry fs (fat_set_img fs c w img) i c' =
    (if c' = c then fat_entry fs img i c div 2 ^ 28 * 2 ^ 28 + w mod 2 ^ 28 else fat_entry fs img i c')"
proof -
  note B = fat_bounds [OF v c(1)] fat_bounds [OF v c(2)]
  let ?off = "4 * (c mod 128)" let ?b = "part_sec fs img (fat_lba fs i c')"
  have L: "length ?b = 512" using len by (simp add: part_sec_def)
  let ?w = "rd_le32 ?b ?off div 2 ^ 28 * 2 ^ 28 + w mod 2 ^ 28"
  have "rd_le32 ?b ?off < 2 ^ 32" unfolding rd_le32_eq_load32 by (rule load32_lt)
  then have "rd_le32 ?b ?off div 2 ^ 28 < 16" by (simp add: less_mult_imp_div_less)
  moreover have "w mod 2 ^ 28 < 2 ^ 28" by simp
  moreover have "q < 16 \<Longrightarrow> r < 2 ^ 28 \<Longrightarrow> q * 2 ^ 28 + r < (2 ^ 32 :: nat)" for q r by simp
  ultimately have w: "?w < 2 ^ 32" by blast
  have c16: "c div 128 = c' div 128 \<and> c mod 128 = c' mod 128 \<longleftrightarrow> c' = c" using div_mult_mod_eq [of c 128] div_mult_mod_eq [of c' 128] by metis
  show ?thesis
  proof (cases "c div 128 = c' div 128")
    case True
    then have "fat_lba fs i c = fat_lba fs i c'" by (simp add: fat_lba_def)
    moreover have "part_start_lba fs + fat_lba fs i c' \<in> (\<lambda>j. part_start_lba fs + fat_lba fs j c) ` {0..<num_fats fs}"
      using i calculation by (intro image_eqI [where x = i]) simp_all
    ultimately have "part_sec fs (fat_set_img fs c w img) (fat_lba fs i c') = patch ?b ?off (le32 ?w)"
      by (simp add: part_sec_def fat_set_img_def fat_set_copies_def)
    moreover have "4 * (c' mod 128) + 4 \<le> ?off \<or> ?off + 4 \<le> 4 * (c' mod 128) \<or> c mod 128 = c' mod 128" by linarith
    moreover have o: "?off + 4 \<le> length ?b" "4 * (c' mod 128) + 4 \<le> length ?b" unfolding L by (simp_all add: less_Suc_eq_le [symmetric])
    ultimately show ?thesis
      using rd_le32_patch [OF o w] c16 True by (auto simp: fat_entry_def)
  next
    case False
    then have "fat_lba fs j c \<noteq> fat_lba fs i c'" if "j < num_fats fs" for j
      using fat_lba_inject [OF B(1) [OF i] B(7) [OF i]] by simp
    then have "part_sec fs (fat_set_img fs c w img) (fat_lba fs i c') = ?b" by (rule fat_set_img_other)
    then show ?thesis using False by (auto simp: fat_entry_def)
  qed
qed

lemma fat_tab_set:
  assumes "vol_ok fs tot" "cluster_ok fs c" "cluster_ok fs c'" "\<forall>a. length (img a) = 512"
  shows "fat_tab fs (fat_set_img fs c w img) c' = (if c' = c then w mod 2 ^ 28 else fat_tab fs img c')"
proof -
  have "0 < num_fats fs" using assms(1) by (simp add: vol_ok_def)
  from fat_entry_set [OF assms(1-3) this assms(4)] show ?thesis by (simp add: fat_tab_def)
qed

lemma cluster_sec_fat_set:
  assumes "vol_ok fs tot" "cluster_ok fs c" "cluster_ok fs c'" "s < sectors_per_cluster fs"
  shows "cluster_sec fs (fat_set_img fs c w img) c' s = cluster_sec fs img c' s"
  using fat_set_img_elsewhere [OF assms(1,2)] cluster_bounds(3) [OF assms(1,3,4)] by (simp add: cluster_sec_def)

lemma fat_entry_elsewhere:
  assumes "vol_ok fs tot" "cluster_ok fs c" "i < num_fats fs" "\<forall>a < data_start_lba fs. part_sec fs img' a = part_sec fs img a"
  shows "fat_entry fs img' i c = fat_entry fs img i c"
  using fat_bounds(2) [OF assms(1-3)] assms(4) by (simp add: fat_entry_def)

lemma fat_tab_elsewhere:
  assumes "vol_ok fs tot" "cluster_ok fs c" "\<forall>a < data_start_lba fs. part_sec fs img' a = part_sec fs img a"
  shows "fat_tab fs img' c = fat_tab fs img c"
  using fat_entry_elsewhere [OF assms(1,2) _ assms(3), of 0] assms(1) by (simp add: fat_tab_def vol_ok_def)

lemma set_img_length:
  assumes "\<forall>a. length (img a) = 512"
  shows "length (fat_set_img fs c v img a) = 512"
proof -
  have "4 * (c mod 128) + 4 \<le> 512" by (simp add: less_Suc_eq_le [symmetric])
  then show ?thesis using assms by (simp add: fat_set_img_def fat_set_copies_def patch_length)
qed

lemma zero_img_sec:
  "part_sec fs (zero_img fs c img) a = (if cluster_lba fs c \<le> a \<and> a < cluster_lba fs c + sectors_per_cluster fs then replicate 512 NUL else part_sec fs img a)"
  by (simp add: part_sec_def zero_img_def)

lemma zero_img_views:
  assumes "vol_ok fs tot" "cluster_ok fs c" "cluster_ok fs c'" "s < sectors_per_cluster fs"
  shows "cluster_sec fs (zero_img fs c img) c' s = (if c' = c then replicate 512 NUL else cluster_sec fs img c' s)"
    "fat_tab fs (zero_img fs c img) c' = fat_tab fs img c'"
proof -
  have "\<not> (cluster_lba fs c \<le> cluster_lba fs c' + s \<and> cluster_lba fs c' + s < cluster_lba fs c + sectors_per_cluster fs)" if "c' \<noteq> c"
  proof
    assume A: "cluster_lba fs c \<le> cluster_lba fs c' + s \<and> cluster_lba fs c' + s < cluster_lba fs c + sectors_per_cluster fs"
    let ?t = "cluster_lba fs c' + s - cluster_lba fs c"
    have "cluster_lba fs c' + s = cluster_lba fs c + ?t" "?t < sectors_per_cluster fs" using A by linarith+
    then show False using cluster_lba_inject [OF assms(3,2,4)] that by metis
  qed
  then show "cluster_sec fs (zero_img fs c img) c' s = (if c' = c then replicate 512 NUL else cluster_sec fs img c' s)"
    using assms(4) by (auto simp: cluster_sec_def zero_img_sec)
  have "part_sec fs (zero_img fs c img) a = part_sec fs img a" if "a < data_start_lba fs" for a
    using cluster_bounds(3) [OF assms(1,2,4)] that by (simp add: zero_img_sec)
  then show "fat_tab fs (zero_img fs c img) c' = fat_tab fs img c'"
    using fat_tab_elsewhere [OF assms(1,3)] by simp
qed

end
