(* ===== verification/Fat32_Chain.thy ===== *)
theory Fat32_Chain
  imports Fat32_Volume
begin

section \<open>Allocating, linking and releasing clusters\<close>

text \<open>
  The chains of a table, and what the functions of \<^verbatim>\<open>fat32.c\<close> do to them: the lowest free cluster is
  taken and zeroed, a chain is released cluster by cluster, and new clusters are linked in order.
\<close>

subsection \<open>Chains\<close>

fun fat_chain :: "fat32_fs \<Rightarrow> (nat \<Rightarrow> nat) \<Rightarrow> nat list \<Rightarrow> bool" where
  "fat_chain fs T [] \<longleftrightarrow> False"
| "fat_chain fs T [c] \<longleftrightarrow> cluster_ok fs c \<and> fat32_is_eoc (T c)"
| "fat_chain fs T (c # c' # cs) \<longleftrightarrow> cluster_ok fs c \<and> T c = c' \<and> fat_chain fs T (c' # cs)"

lemma chain_cluster_ok: "fat_chain fs T cs \<Longrightarrow> c \<in> set cs \<Longrightarrow> cluster_ok fs c"
  by (induction fs T cs rule: fat_chain.induct) auto

lemma chain_cong: "(\<And>c. c \<in> set cs \<Longrightarrow> T' c = T c) \<Longrightarrow> fat_chain fs T' cs = fat_chain fs T cs"
  by (induction fs T cs rule: fat_chain.induct) auto

lemma chain_nonzero: "fat_chain fs T cs \<Longrightarrow> c \<in> set cs \<Longrightarrow> T c \<noteq> 0"
proof (induction fs T cs rule: fat_chain.induct)
  case (3 fs T c c' cs)
  then show ?case using chain_cluster_ok [of fs T "c' # cs" c'] by (auto simp: cluster_ok_def)
qed (auto simp: fat32_is_eoc_def)

lemma cluster_not_end: "vol_ok fs tot \<Longrightarrow> cluster_ok fs c \<Longrightarrow> \<not> c < 2 \<and> \<not> fat32_is_eoc c"
  by (simp add: vol_ok_def cluster_ok_def fat32_is_eoc_def)

text \<open>The clusters of a chain come one after the other because each names the next, so none comes twice.\<close>

lemma chain_tail: "fat_chain fs T (c # cs) \<Longrightarrow> cs \<noteq> [] \<Longrightarrow> fat_chain fs T cs \<and> T c = hd cs"
  by (cases cs) auto

lemma chain_suffix: "fat_chain fs T (xs @ ys) \<Longrightarrow> ys \<noteq> [] \<Longrightarrow> fat_chain fs T ys"
proof (induction xs)
  case (Cons x xs)
  then show ?case using chain_tail [of fs T x "xs @ ys"] by simp
qed simp

lemma chain_unique:
  "vol_ok fs tot \<Longrightarrow> fat_chain fs T cs \<Longrightarrow> fat_chain fs T cs' \<Longrightarrow> hd cs = hd cs' \<Longrightarrow> cs = cs'"
proof (induction fs T cs arbitrary: cs' rule: fat_chain.induct)
  case (2 fs T c)
  then obtain zs where z: "cs' = c # zs" by (cases cs') auto
  show ?case
  proof (cases zs)
    case (Cons y ys)
    then have "T c = y" "cluster_ok fs y" using 2(3) z chain_cluster_ok [of fs T cs' y] by auto
    then show ?thesis using 2(2) cluster_not_end [OF 2(1)] by auto
  qed (simp add: z)
next
  case (3 fs T c c' cs)
  then obtain zs where z: "cs' = c # zs" by (cases cs') auto
  show ?case
  proof (cases zs)
    case Nil
    then have "fat32_is_eoc c'" "cluster_ok fs c'" using 3(3,4) z chain_cluster_ok [of fs T "c # c' # cs" c'] by auto
    then show ?thesis using cluster_not_end [OF 3(2)] by blast
  next
    case (Cons y ys)
    then show ?thesis using 3(1) [OF 3(2), of zs] 3(3,4) z by auto
  qed
qed simp

lemma chain_distinct:
  assumes v: "vol_ok fs tot" and c: "fat_chain fs T cs"
  shows "distinct cs"
proof (rule ccontr)
  assume "\<not> distinct cs"
  then obtain xs ys zs y where cs: "cs = xs @ [y] @ ys @ [y] @ zs" using not_distinct_decomp by blast
  have "fat_chain fs T (y # ys @ y # zs)" using chain_suffix [of fs T xs "y # ys @ y # zs"] c cs by simp
  moreover have "fat_chain fs T (y # zs)" using chain_suffix [of fs T "xs @ y # ys" "y # zs"] c cs by simp
  ultimately have "y # ys @ y # zs = y # zs" by (intro chain_unique [OF v]) simp_all
  then have "length (ys @ y # zs) = length zs" by simp
  then show False by simp
qed

lemma chain_length:
  assumes v: "vol_ok fs tot" and c: "fat_chain fs T cs"
  shows "length cs < fat32_max_cluster fs"
proof -
  have "set cs \<subseteq> {2..fat32_max_cluster fs}" using chain_cluster_ok [OF c] by (auto simp: cluster_ok_def)
  then have "card (set cs) \<le> card {2..fat32_max_cluster fs}" by (intro card_mono) auto
  then have "length cs \<le> fat32_max_cluster fs - 1" using chain_distinct [OF assms] by (simp add: distinct_card)
  moreover have "0 < length cs" using c by (cases cs) auto
  ultimately show ?thesis by linarith
qed

subsection \<open>Images\<close>

definition free_clusters :: "fat32_fs \<Rightarrow> (nat \<Rightarrow> byte list) \<Rightarrow> nat set" where
  "free_clusters fs img = {c. cluster_ok fs c \<and> fat_tab fs img c = 0}"

definition lowest_free :: "fat32_fs \<Rightarrow> (nat \<Rightarrow> byte list) \<Rightarrow> nat option" where
  "lowest_free fs img = find (\<lambda>c. fat_tab fs img c = 0) [2..<fat32_max_cluster fs + 1]"

definition alloc_img :: "fat32_fs \<Rightarrow> nat \<Rightarrow> (nat \<Rightarrow> byte list) \<Rightarrow> nat \<Rightarrow> byte list" where
  "alloc_img fs c img = zero_img fs c (fat_set_img fs c FAT32_EOC img)"

definition free_img :: "fat32_fs \<Rightarrow> nat list \<Rightarrow> (nat \<Rightarrow> byte list) \<Rightarrow> nat \<Rightarrow> byte list" where
  "free_img fs cs img = fold (\<lambda>c. fat_set_img fs c 0) cs img"

definition zero_secs :: "fat32_fs \<Rightarrow> nat \<Rightarrow> nat set \<Rightarrow> (nat \<Rightarrow> byte list) \<Rightarrow> nat \<Rightarrow> byte list" where
  "zero_secs fs c ss img = (\<lambda>a. if a \<in> (\<lambda>s. part_start_lba fs + cluster_lba fs c + s) ` ss then replicate 512 NUL else img a)"

lemma zero_secs_all: "zero_secs fs c {0..<sectors_per_cluster fs} = zero_img fs c"
proof (intro ext)
  fix img a
  have "a \<in> (\<lambda>s. part_start_lba fs + cluster_lba fs c + s) ` {0..<sectors_per_cluster fs} \<longleftrightarrow>
      part_start_lba fs + cluster_lba fs c \<le> a \<and> a < part_start_lba fs + cluster_lba fs c + sectors_per_cluster fs"
    by (simp add: image_add_atLeastLessThan ac_simps)
  then show "zero_secs fs c {0..<sectors_per_cluster fs} img a = zero_img fs c img a" by (simp add: zero_secs_def zero_img_def)
qed

context sector_disk
begin

lemma zero_loop:
  assumes "vol_ok fs (g_total_sectors d)" "cluster_ok fs c"
  shows "ok d \<Longrightarrow> set ss \<subseteq> {0..<sectors_per_cluster fs} \<Longrightarrow>
    \<exists>e. zero_loop io fs (cluster_lba fs c) ss d = (Some (), e) \<and> leaves ok sec d (zero_secs fs c (set ss) (sec d)) e"
  using assms
proof (induction ss arbitrary: d)
  case Nil
  then show ?case by (simp add: leaves_def zero_secs_def same_tables_def)
next
  case (Cons s ss)
  have s: "s < sectors_per_cluster fs" using Cons.prems by simp
  note B = cluster_bounds [OF Cons.prems(3,4) s]
  obtain e1 where w: "fat32_write_sectors io fs (cluster_lba fs c + s) 1 (replicate 512 NUL) d = (Some (), e1)"
    "leaves ok sec d ((sec d)(part_start_lba fs + (cluster_lba fs c + s) := replicate 512 NUL)) e1"
    using write_sector [OF Cons.prems(1,3) B(4), of "replicate 512 NUL"] by auto
  have "vol_ok fs (g_total_sectors e1)" using Cons.prems(3) leavesD(3) [OF w(2)] by simp
  with Cons.IH [OF leavesD(1) [OF w(2)]] Cons.prems obtain e where
    l: "zero_loop io fs (cluster_lba fs c) ss e1 = (Some (), e)" "leaves ok sec e1 (zero_secs fs c (set ss) (sec e1)) e" by auto
  have "zero_secs fs c (set ss) (sec e1) = zero_secs fs c (set (s # ss)) (sec d)"
    using leavesD(2) [OF w(2)] by (auto simp: zero_secs_def fun_eq_iff add.assoc)
  then have "leaves ok sec d (zero_secs fs c (set (s # ss)) (sec d)) e" using leaves_trans [OF w(2) l(2)] by simp
  then show ?case using w(1) l(1) B(2) by (simp add: and_then_def)
qed

lemma zero_cluster:
  assumes "ok d" "vol_ok fs (g_total_sectors d)" "cluster_ok fs c"
  shows "\<exists>e. fat32_zero_cluster io fs c d = (Some (), e) \<and> leaves ok sec d (zero_img fs c (sec d)) e"
proof -
  have "0 < sectors_per_cluster fs" using assms(2) by (simp add: vol_ok_def)
  note B = cluster_bounds(1) [OF assms(2,3) this]
  show ?thesis
    using zero_loop [OF assms(2,3,1), of "[0..<sectors_per_cluster fs]"] assms(3) B
    by (simp add: fat32_zero_cluster_def zero_secs_all cluster_ok_def)
qed

lemma alloc_loop:
  "ok d \<Longrightarrow> vol_ok fs (g_total_sectors d) \<Longrightarrow> \<forall>c \<in> set cs. cluster_ok fs c \<Longrightarrow>
   \<exists>e. alloc_loop io fs cs d = (find (\<lambda>c. fat_tab fs (sec d) c = 0) cs, e) \<and>
     leaves ok sec d (case find (\<lambda>c. fat_tab fs (sec d) c = 0) cs of None \<Rightarrow> sec d | Some c \<Rightarrow> alloc_img fs c (sec d)) e"
proof (induction cs arbitrary: d)
  case Nil
  then show ?case by (simp add: leaves_def same_tables_def)
next
  case (Cons c cs)
  have c: "cluster_ok fs c" using Cons.prems by simp
  obtain e1 where g: "fat32_fat_get io fs c d = (Some (fat_tab fs (sec d) c), e1)" "leaves ok sec d (sec d) e1"
    using fat_get [OF Cons.prems(1,2) c] by blast
  have v1: "vol_ok fs (g_total_sectors e1)" and s1: "sec e1 = sec d" using Cons.prems(2) leavesD [OF g(2)] by simp_all
  show ?case
  proof (cases "fat_tab fs (sec d) c = 0")
    case True
    obtain e2 where s: "fat32_fat_set io fs c FAT32_EOC e1 = (Some (), e2)" "leaves ok sec e1 (fat_set_img fs c FAT32_EOC (sec e1)) e2"
      using fat_set [OF leavesD(1) [OF g(2)] v1 c] by blast
    have "vol_ok fs (g_total_sectors e2)" using v1 leavesD(3) [OF s(2)] by simp
    from zero_cluster [OF leavesD(1) [OF s(2)] this c] obtain e3 where
      z: "fat32_zero_cluster io fs c e2 = (Some (), e3)" "leaves ok sec e2 (zero_img fs c (sec e2)) e3" by blast
    have "leaves ok sec d (alloc_img fs c (sec d)) e3"
      using leaves_trans [OF leaves_trans [OF g(2) s(2)] z(2)] leavesD(2) [OF s(2)] s1 by (simp add: alloc_img_def)
    then show ?thesis using g(1) s(1) z(1) True by (simp add: and_then_def)
  next
    case False
    from Cons.IH [OF leavesD(1) [OF g(2)] v1] Cons.prems(3) obtain e where
      l: "alloc_loop io fs cs e1 = (find (\<lambda>c. fat_tab fs (sec e1) c = 0) cs, e)"
      "leaves ok sec e1 (case find (\<lambda>c. fat_tab fs (sec e1) c = 0) cs of None \<Rightarrow> sec e1 | Some c \<Rightarrow> alloc_img fs c (sec e1)) e"
      by auto
    have "leaves ok sec d (case find (\<lambda>c. fat_tab fs (sec d) c = 0) cs of None \<Rightarrow> sec d | Some c \<Rightarrow> alloc_img fs c (sec d)) e"
      using leaves_trans [OF g(2) l(2)] unfolding s1 .
    then show ?thesis using g(1) False s1 l(1) by (simp add: and_then_def)
  qed
qed

lemma alloc_cluster:
  assumes "ok d" "vol_ok fs (g_total_sectors d)"
  shows "\<exists>e. fat32_alloc_cluster io fs d = (lowest_free fs (sec d), e) \<and>
    leaves ok sec d (case lowest_free fs (sec d) of None \<Rightarrow> sec d | Some c \<Rightarrow> alloc_img fs c (sec d)) e"
proof -
  have "\<forall>c \<in> set [2..<fat32_max_cluster fs + 1]. cluster_ok fs c" by (simp only: set_upt cluster_ok_def) auto
  from alloc_loop [OF assms this] show ?thesis unfolding fat32_alloc_cluster_def lowest_free_def .
qed

lemma free_loop:
  "ok d \<Longrightarrow> vol_ok fs (g_total_sectors d) \<Longrightarrow> fat_chain fs (fat_tab fs (sec d)) cs \<Longrightarrow> length cs \<le> n \<Longrightarrow>
   \<exists>e. free_loop n io fs (hd cs) d = (Some (), e) \<and> leaves ok sec d (free_img fs cs (sec d)) e"
proof (induction cs arbitrary: d n)
  case (Cons c cs)
  have c: "cluster_ok fs c" using chain_cluster_ok [OF Cons.prems(3)] by simp
  obtain n' where n: "n = Suc n'" using Cons.prems(4) by (cases n) auto
  obtain e1 where g: "fat32_fat_get io fs c d = (Some (fat_tab fs (sec d) c), e1)" "leaves ok sec d (sec d) e1"
    using fat_get [OF Cons.prems(1,2) c] by blast
  have v1: "vol_ok fs (g_total_sectors e1)" and s1: "sec e1 = sec d" using Cons.prems(2) leavesD [OF g(2)] by simp_all
  obtain e2 where s: "fat32_fat_set io fs c 0 e1 = (Some (), e2)" "leaves ok sec e1 (fat_set_img fs c 0 (sec e1)) e2"
    using fat_set [OF leavesD(1) [OF g(2)] v1 c] by blast
  have v2: "vol_ok fs (g_total_sectors e2)" and s2: "sec e2 = fat_set_img fs c 0 (sec d)"
    using v1 leavesD [OF s(2)] s1 by simp_all
  have L: "leaves ok sec d (fat_set_img fs c 0 (sec d)) e2" using leaves_trans [OF g(2) s(2)] s1 by simp
  show ?case
  proof (cases "cs = []")
    case True
    then show ?thesis using g(1) s(1) L Cons.prems(3) n c by (simp add: and_then_def free_img_def cluster_ok_def)
  next
    case False
    then have t: "fat_chain fs (fat_tab fs (sec d)) cs" "fat_tab fs (sec d) c = hd cs" using chain_tail [OF Cons.prems(3)] by simp_all
    have "hd cs \<in> set cs" using False by simp
    then have h: "\<not> hd cs < 2" "\<not> fat32_is_eoc (hd cs)"
      using cluster_not_end [OF Cons.prems(2) chain_cluster_ok [OF t(1)]] by simp_all
    have "fat_tab fs (sec e2) x = fat_tab fs (sec d) x" if "x \<in> set cs" for x
      using fat_tab_set [OF Cons.prems(2) c chain_cluster_ok [OF t(1) that], of "sec d" 0] sec_length [OF Cons.prems(1)]
        chain_distinct [OF Cons.prems(2,3)] that s2 by auto
    then have "fat_chain fs (fat_tab fs (sec e2)) cs" using t(1) chain_cong by metis
    moreover have "length cs \<le> n'" using Cons.prems(4) n by simp
    ultimately obtain e where l: "free_loop n' io fs (hd cs) e2 = (Some (), e)" "leaves ok sec e2 (free_img fs cs (sec e2)) e"
      using Cons.IH [OF leavesD(1) [OF s(2)] v2] by blast
    have "leaves ok sec d (free_img fs (c # cs) (sec d)) e" using leaves_trans [OF L l(2)] s2 by (simp add: free_img_def)
    then show ?thesis using g(1) s(1) l(1) h t(2) n c by (simp add: and_then_def cluster_ok_def)
  qed
qed simp

lemma free_chain:
  assumes "ok d" "vol_ok fs (g_total_sectors d)" "fat_chain fs (fat_tab fs (sec d)) cs"
  shows "\<exists>e. fat32_free_chain io fs (hd cs) d = (Some (), e) \<and> leaves ok sec d (free_img fs cs (sec d)) e"
proof -
  have "length cs \<le> add32 (fat32_max_cluster fs) 8"
    using chain_length [OF assms(2,3)] assms(2) by (simp add: add32_def vol_ok_def)
  moreover have "2 \<le> hd cs" using chain_cluster_ok [OF assms(3), of "hd cs"] assms(3) by (cases cs) (auto simp: cluster_ok_def)
  ultimately show ?thesis using free_loop [OF assms] by (simp add: fat32_free_chain_def)
qed

end

subsection \<open>The views after allocating and releasing\<close>

definition sectors_ok :: "(nat \<Rightarrow> byte list) \<Rightarrow> bool" where
  "sectors_ok img \<longleftrightarrow> (\<forall>a. length (img a) = 512)"

lemma sectors_ok_images:
  "sectors_ok img \<Longrightarrow> sectors_ok (fat_set_img fs c v img)" "sectors_ok img \<Longrightarrow> sectors_ok (zero_img fs c img)"
  "sectors_ok img \<Longrightarrow> sectors_ok (alloc_img fs c img)" "sectors_ok img \<Longrightarrow> sectors_ok (free_img fs cs img)"
proof -
  have set: "sectors_ok img \<Longrightarrow> sectors_ok (fat_set_img fs c v img)" for img c v
    using set_img_length [of img fs c v] by (simp add: sectors_ok_def)
  moreover have zero: "sectors_ok img \<Longrightarrow> sectors_ok (zero_img fs c img)" for img by (simp add: sectors_ok_def zero_img_def)
  moreover have "sectors_ok img \<Longrightarrow> sectors_ok (free_img fs cs img)" for img
    by (induction cs arbitrary: img) (simp_all add: free_img_def set)
  ultimately show "sectors_ok img \<Longrightarrow> sectors_ok (fat_set_img fs c v img)" "sectors_ok img \<Longrightarrow> sectors_ok (zero_img fs c img)"
    "sectors_ok img \<Longrightarrow> sectors_ok (alloc_img fs c img)" "sectors_ok img \<Longrightarrow> sectors_ok (free_img fs cs img)"
    by (simp_all add: alloc_img_def)
qed

lemma alloc_img_views:
  assumes "vol_ok fs tot" "cluster_ok fs c" "cluster_ok fs c'" "s < sectors_per_cluster fs" "sectors_ok img"
  shows "fat_tab fs (alloc_img fs c img) c' = (if c' = c then FAT32_EOC else fat_tab fs img c')"
    "cluster_sec fs (alloc_img fs c img) c' s = (if c' = c then replicate 512 NUL else cluster_sec fs img c' s)"
  using zero_img_views [OF assms(1-4)] fat_tab_set [OF assms(1-3), of img FAT32_EOC] cluster_sec_fat_set [OF assms(1-4)] assms(5)
  by (simp_all add: alloc_img_def sectors_ok_def FAT32_EOC_def)

lemma free_img_views:
  assumes "vol_ok fs tot" "cluster_ok fs c'" "s < sectors_per_cluster fs"
  shows "sectors_ok img \<Longrightarrow> \<forall>c \<in> set cs. cluster_ok fs c \<Longrightarrow>
      fat_tab fs (free_img fs cs img) c' = (if c' \<in> set cs then 0 else fat_tab fs img c')"
    "\<forall>c \<in> set cs. cluster_ok fs c \<Longrightarrow> cluster_sec fs (free_img fs cs img) c' s = cluster_sec fs img c' s"
proof (induction cs arbitrary: img)
  case (Cons c cs)
  {
    case 1
    then have "fat_tab fs (free_img fs cs (fat_set_img fs c 0 img)) c' = (if c' \<in> set cs then 0 else fat_tab fs (fat_set_img fs c 0 img) c')"
      using Cons.IH(1) sectors_ok_images(1) by simp
    then show ?case using fat_tab_set [OF assms(1) _ assms(2), of c img 0] 1
      by (cases "c' = c") (simp_all add: free_img_def sectors_ok_def)
  next
    case 2
    then have "cluster_sec fs (free_img fs cs (fat_set_img fs c 0 img)) c' s = cluster_sec fs (fat_set_img fs c 0 img) c' s"
      using Cons.IH(2) by simp
    then show ?case using cluster_sec_fat_set [OF assms(1) _ assms(2,3)] 2 by (simp add: free_img_def)
  }
qed (simp_all add: free_img_def)

lemma lowest_free_Some:
  assumes "lowest_free fs img = Some c"
  shows "c \<in> free_clusters fs img" "\<forall>c' \<in> free_clusters fs img. c \<le> c'"
proof -
  obtain i where i: "i < length [2..<fat32_max_cluster fs + 1]" "fat_tab fs img ([2..<fat32_max_cluster fs + 1] ! i) = 0"
    "c = [2..<fat32_max_cluster fs + 1] ! i" "\<forall>j < i. fat_tab fs img ([2..<fat32_max_cluster fs + 1] ! j) \<noteq> 0"
    using assms unfolding lowest_free_def find_Some_iff by blast
  have c: "c = 2 + i" "c < fat32_max_cluster fs + 1" using i(1,3) by (simp_all del: upt_Suc)
  then show "c \<in> free_clusters fs img" using i(2,3) by (simp add: free_clusters_def cluster_ok_def del: upt_Suc)
  show "\<forall>c' \<in> free_clusters fs img. c \<le> c'"
  proof (rule ballI, rule ccontr)
    fix c' assume A: "c' \<in> free_clusters fs img" "\<not> c \<le> c'"
    then have "c' - 2 < i" "2 \<le> c'" using c by (auto simp: free_clusters_def cluster_ok_def)
    then have "fat_tab fs img ([2..<fat32_max_cluster fs + 1] ! (c' - 2)) \<noteq> 0" using i(4) by blast
    moreover have "[2..<fat32_max_cluster fs + 1] ! (c' - 2) = c'"
      using \<open>c' - 2 < i\<close> \<open>2 \<le> c'\<close> i(1) by (simp del: upt_Suc)
    ultimately show False using A by (simp add: free_clusters_def)
  qed
qed

lemma lowest_free_None: "lowest_free fs img = None \<longleftrightarrow> free_clusters fs img = {}"
  unfolding lowest_free_def find_None_iff free_clusters_def cluster_ok_def by (auto simp del: upt_Suc simp: less_Suc_eq_le)

lemma chain_snoc:
  "fat_chain fs T cs \<Longrightarrow> cluster_ok fs c \<Longrightarrow> fat32_is_eoc (T' c) \<Longrightarrow> T' (last cs) = c \<Longrightarrow> distinct cs \<Longrightarrow>
   (\<And>x. x \<in> set cs \<Longrightarrow> x \<noteq> last cs \<Longrightarrow> T' x = T x) \<Longrightarrow> fat_chain fs T' (cs @ [c])"
proof (induction fs T cs rule: fat_chain.induct)
  case (3 fs T a b cs)
  have "a \<noteq> last (a # b # cs)" using "3.prems"(5) by (auto simp: last_in_set)
  then have "T' a = b" using "3.prems"(1) "3.prems"(6) [of a] by simp
  moreover have "fat_chain fs T' ((b # cs) @ [c])" using "3.prems" by (intro "3.IH") auto
  ultimately show ?case using "3.prems"(1) by simp
qed auto

subsection \<open>Linking new clusters\<close>

text \<open>What allocating the clusters \<open>new\<close> changes: their contents, and the table at them and at those of \<open>cs\<close>.\<close>

definition grown :: "fat32_fs \<Rightarrow> nat list \<Rightarrow> nat list \<Rightarrow> (nat \<Rightarrow> byte list) \<Rightarrow> (nat \<Rightarrow> byte list) \<Rightarrow> bool" where
  "grown fs cs new img img' \<longleftrightarrow> set new \<subseteq> free_clusters fs img \<and> distinct new \<and>
     (cs @ new \<noteq> [] \<longrightarrow> fat_chain fs (fat_tab fs img') (cs @ new)) \<and>
     (\<forall>c. cluster_ok fs c \<and> c \<notin> set cs \<union> set new \<longrightarrow> fat_tab fs img' c = fat_tab fs img c) \<and>
     (\<forall>c s. cluster_ok fs c \<and> c \<notin> set new \<and> s < sectors_per_cluster fs \<longrightarrow> cluster_sec fs img' c s = cluster_sec fs img c s)"

context sector_disk
begin

lemma sectors_ok_sec: "ok d \<Longrightarrow> sectors_ok (sec d)"
  by (simp add: sectors_ok_def sec_length)

text \<open>One cluster taken and linked behind the last one.\<close>

lemma link_cluster:
  assumes "ok d" "vol_ok fs (g_total_sectors d)" "free_clusters fs (sec d) \<noteq> {}"
    and pre: "cs = [] \<and> prev = 0 \<or> fat_chain fs (fat_tab fs (sec d)) cs \<and> last cs = prev"
  shows "\<exists>e e1 nc. fat32_alloc_cluster io fs d = (Some nc, e) \<and>
    (if prev \<ge> 2 then fat32_fat_set io fs prev nc e else (Some (), e)) = (Some (), e1) \<and>
    leaves ok sec d (sec e1) e1 \<and> grown fs cs [nc] (sec d) (sec e1)"
proof -
  let ?T = "fat_tab fs (sec d)"
  obtain nc where nc: "lowest_free fs (sec d) = Some nc" using assms(3) lowest_free_None [of fs "sec d"] by auto
  then have f: "nc \<in> free_clusters fs (sec d)" by (rule lowest_free_Some)
  then have ncok: "cluster_ok fs nc" by (simp add: free_clusters_def)
  obtain e where a: "fat32_alloc_cluster io fs d = (Some nc, e)" "leaves ok sec d (alloc_img fs nc (sec d)) e"
    using alloc_cluster [OF assms(1,2)] nc by auto
  have ve: "vol_ok fs (g_total_sectors e)" and se: "sec e = alloc_img fs nc (sec d)" using assms(2) leavesD [OF a(2)] by simp_all
  have spc: "0 < sectors_per_cluster fs" using assms(2) by (simp add: vol_ok_def)
  note AV = alloc_img_views [OF assms(2) ncok _ _ sectors_ok_sec [OF assms(1)]]
  have notin: "nc \<notin> set cs" using pre f chain_nonzero [of fs ?T cs nc] by (auto simp: free_clusters_def)
  show ?thesis
  proof (cases "prev \<ge> 2")
    case True
    then have C: "fat_chain fs ?T cs" "last cs = prev" using pre by auto
    then have cne: "cs \<noteq> []" by auto
    have p: "cluster_ok fs prev" using chain_cluster_ok [OF C(1), of prev] C(2) cne by auto
    obtain e1 where l: "fat32_fat_set io fs prev nc e = (Some (), e1)" "leaves ok sec e (fat_set_img fs prev nc (sec e)) e1"
      using fat_set [OF leavesD(1) [OF a(2)] ve p] by blast
    have s1: "sec e1 = fat_set_img fs prev nc (sec e)" using leavesD(2) [OF l(2)] .
    have small: "nc mod 2 ^ 28 = nc" using ncok assms(2) by (simp add: cluster_ok_def vol_ok_def)
    have T1: "fat_tab fs (sec e1) x = (if x = prev then nc else if x = nc then FAT32_EOC else ?T x)" if "cluster_ok fs x" for x
      using fat_tab_set [OF assms(2) p that, of "sec e" nc] sectors_ok_sec [OF leavesD(1) [OF a(2)]] AV(1) [OF that spc] small
      by (simp add: s1 se sectors_ok_def)
    have S1: "cluster_sec fs (sec e1) x s = cluster_sec fs (sec d) x s" if "cluster_ok fs x" "x \<noteq> nc" "s < sectors_per_cluster fs" for x s
      using cluster_sec_fat_set [OF assms(2) p that(1,3)] AV(2) [OF that(1,3)] that(2) by (simp add: s1 se)
    have "prev \<in> set cs" using C(2) cne by auto
    then have pn: "prev \<noteq> nc" using notin by auto
    have "fat_chain fs (fat_tab fs (sec e1)) (cs @ [nc])"
    proof (rule chain_snoc [OF C(1) ncok _ _ chain_distinct [OF assms(2) C(1)]])
      show "fat32_is_eoc (fat_tab fs (sec e1) nc)" using T1 [OF ncok] pn by (simp add: fat32_is_eoc_def FAT32_EOC_def)
      show "fat_tab fs (sec e1) (last cs) = nc" using T1 [OF p] C(2) by simp
      show "fat_tab fs (sec e1) x = ?T x" if "x \<in> set cs" "x \<noteq> last cs" for x
        using T1 [OF chain_cluster_ok [OF C(1) that(1)]] that C(2) notin by auto
    qed
    moreover have "leaves ok sec d (sec e1) e1" using leaves_trans [OF a(2) l(2)] s1 by simp
    ultimately show ?thesis using a(1) l(1) True f T1 S1 \<open>prev \<in> set cs\<close> by (auto simp: grown_def)
  next
    case False
    then have cs: "cs = []" using pre chain_cluster_ok [of fs ?T cs prev] by (cases "cs = []") (auto simp: cluster_ok_def)
    have "leaves ok sec d (sec e) e" using a(2) se by simp
    moreover have "fat_chain fs (fat_tab fs (sec e)) [nc]"
      using AV(1) [OF ncok spc] ncok by (simp add: se fat32_is_eoc_def FAT32_EOC_def)
    ultimately show ?thesis using a(1) False cs f AV spc by (auto simp: grown_def se)
  qed
qed

lemma free_clusters_finite: "finite (free_clusters fs img)"
  by (rule finite_subset [of _ "{..fat32_max_cluster fs}"]) (auto simp: free_clusters_def cluster_ok_def)

lemma grown_trans:
  assumes v: "vol_ok fs tot" and g: "grown fs cs xs img img1" "grown fs (cs @ xs) ys img1 img2" "cs @ xs \<noteq> []"
  shows "grown fs cs (xs @ ys) img img2"
proof -
  have nz: "fat_tab fs img1 c \<noteq> 0" if "c \<in> set (cs @ xs)" for c
    using chain_nonzero [of fs "fat_tab fs img1" "cs @ xs" c] g(1,3) that unfolding grown_def by blast
  then have d: "c \<notin> set (cs @ xs)" if "c \<in> set ys" for c 
  proof -
    have "fat_tab fs img1 c = 0" using that g(2) unfolding grown_def free_clusters_def by auto
    then show ?thesis using nz [of c] by auto
  qed
  have f: "c \<in> free_clusters fs img" if "c \<in> set ys" for c
  proof -
    have "cluster_ok fs c" "fat_tab fs img1 c = 0" using that g(2) unfolding grown_def free_clusters_def by auto
    moreover have "fat_tab fs img1 c = fat_tab fs img c" using g(1) d [OF that] calculation(1) unfolding grown_def by auto
    ultimately show ?thesis by (simp add: free_clusters_def)
  qed
  show ?thesis using g d f unfolding grown_def by (auto simp: subset_iff)
qed

lemma alloc_chain:
  "ok d \<Longrightarrow> vol_ok fs (g_total_sectors d) \<Longrightarrow> n \<le> card (free_clusters fs (sec d)) \<Longrightarrow>
   cs = [] \<and> nf = 0 \<and> prev = 0 \<or> fat_chain fs (fat_tab fs (sec d)) cs \<and> hd cs = nf \<and> last cs = prev \<Longrightarrow>
   \<exists>e new. alloc_chain n io fs nf prev d = (Some (if cs @ new = [] then 0 else hd (cs @ new)), e) \<and>
     length new = n \<and> grown fs cs new (sec d) (sec e) \<and> leaves ok sec d (sec e) e"
proof (induction n arbitrary: d cs nf prev)
  case 0
  have "grown fs cs [] (sec d) (sec d)" using 0 by (auto simp: grown_def)
  then show ?case using 0 by (intro exI [of _ d] exI [of _ "[]"]) (auto simp: leaves_def same_tables_def)
next
  case (Suc n)
  have "free_clusters fs (sec d) \<noteq> {}" using Suc.prems(3) by auto
  moreover have "cs = [] \<and> prev = 0 \<or> fat_chain fs (fat_tab fs (sec d)) cs \<and> last cs = prev" using Suc.prems(4) by blast
  ultimately obtain e e1 nc where l: "fat32_alloc_cluster io fs d = (Some nc, e)"
      "(if prev \<ge> 2 then fat32_fat_set io fs prev nc e else (Some (), e)) = (Some (), e1)"
      "leaves ok sec d (sec e1) e1" "grown fs cs [nc] (sec d) (sec e1)"
    using link_cluster [OF Suc.prems(1,2)] by blast
  let ?nf = "if nf < 2 then nc else nf"
  have C: "fat_chain fs (fat_tab fs (sec e1)) (cs @ [nc])" using l(4) by (simp add: grown_def)
  have nf: "?nf = hd (cs @ [nc])"
    using Suc.prems(4) chain_cluster_ok [of fs "fat_tab fs (sec d)" cs nf] by (cases cs) (auto simp: cluster_ok_def)
  have v1: "vol_ok fs (g_total_sectors e1)" using Suc.prems(2) leavesD(3) [OF l(3)] by simp
  have "free_clusters fs (sec d) - {nc} \<subseteq> free_clusters fs (sec e1)"
  proof
    fix c assume c: "c \<in> free_clusters fs (sec d) - {nc}"
    have "c \<notin> set cs"
      using c Suc.prems(4) chain_nonzero [of fs "fat_tab fs (sec d)" cs c] by (auto simp: free_clusters_def)
    then show "c \<in> free_clusters fs (sec e1)" using c l(4) by (auto simp: grown_def free_clusters_def)
  qed
  then have "card (free_clusters fs (sec d) - {nc}) \<le> card (free_clusters fs (sec e1))"
    by (intro card_mono free_clusters_finite)
  then have "n \<le> card (free_clusters fs (sec e1))" using Suc.prems(3) l(4) by (simp add: grown_def free_clusters_finite)
  moreover have "cs @ [nc] = [] \<and> ?nf = 0 \<and> nc = 0 \<or> fat_chain fs (fat_tab fs (sec e1)) (cs @ [nc]) \<and> hd (cs @ [nc]) = ?nf \<and> last (cs @ [nc]) = nc"
    using C nf by simp
  ultimately obtain e2 new where r: "alloc_chain n io fs ?nf nc e1 = (Some (if (cs @ [nc]) @ new = [] then 0 else hd ((cs @ [nc]) @ new)), e2)"
      "length new = n" "grown fs (cs @ [nc]) new (sec e1) (sec e2)" "leaves ok sec e1 (sec e2) e2"
    using Suc.IH [OF leavesD(1) [OF l(3)] v1] by blast
  have "grown fs cs ([nc] @ new) (sec d) (sec e2)" using grown_trans [OF Suc.prems(2) l(4) r(3)] by simp
  then show ?case using l(1,2) r(1,2) leaves_trans [OF l(3) r(4)]
    by (intro exI [of _ e2] exI [of _ "nc # new"]) simp
qed

end

end
