(* ===== verification/Fat32_Data.thy ===== *)
theory Fat32_Data
  imports Fat32_Chain
begin

section \<open>The bytes of a chain\<close>

text \<open>
  Reading and writing the clusters of a chain: the loops of \<^verbatim>\<open>fat32_read_op\<close> and \<^verbatim>\<open>fat32_write_op\<close>
  read and write the bytes of the chain from its start.
\<close>

definition cluster_bytes :: "fat32_fs \<Rightarrow> (nat \<Rightarrow> byte list) \<Rightarrow> nat \<Rightarrow> byte list" where
  "cluster_bytes fs img c = concat (map (cluster_sec fs img c) [0..<sectors_per_cluster fs])"

definition chain_bytes :: "fat32_fs \<Rightarrow> (nat \<Rightarrow> byte list) \<Rightarrow> nat list \<Rightarrow> byte list" where
  "chain_bytes fs img cs = concat (map (cluster_bytes fs img) cs)"

lemma secs_length:
  assumes "sectors_ok img"
  shows "length (concat (map (cluster_sec fs img c) [k..<k + n])) = 512 * n"
  using assms by (induction n) (simp_all add: cluster_sec_def part_sec_def sectors_ok_def)

lemma cluster_bytes_length: "sectors_ok img \<Longrightarrow> length (cluster_bytes fs img c) = 512 * sectors_per_cluster fs"
  using secs_length [of img fs c 0 "sectors_per_cluster fs"] by (simp add: cluster_bytes_def)

lemma chain_bytes_length: "sectors_ok img \<Longrightarrow> length (chain_bytes fs img cs) = 512 * sectors_per_cluster fs * length cs"
  by (induction cs) (simp_all add: chain_bytes_def cluster_bytes_length)

subsection \<open>Sectors of a cluster replaced by data\<close>

text \<open>The sectors of cluster \<open>c\<close> from number \<open>k\<close> on.\<close>

definition put_cluster :: "fat32_fs \<Rightarrow> nat \<Rightarrow> nat \<Rightarrow> byte list \<Rightarrow> (nat \<Rightarrow> byte list) \<Rightarrow> nat \<Rightarrow> byte list" where
  "put_cluster fs c k bs img = (\<lambda>a. let b = part_start_lba fs + cluster_lba fs c + k in
     if b \<le> a \<and> a < part_start_lba fs + cluster_lba fs c + sectors_per_cluster fs then sector_of (drop (512 * (a - b)) bs) else img a)"

lemma sector_of_length [simp]: "length (sector_of bs) = 512"
  by (simp add: sector_of_def min_def)

lemma put_cluster_sec:
  assumes "vol_ok fs tot" "cluster_ok fs c" "cluster_ok fs c'" "s < sectors_per_cluster fs"
  shows "cluster_sec fs (put_cluster fs c k bs img) c' s =
    (if c' = c \<and> k \<le> s then sector_of (drop (512 * (s - k)) bs) else cluster_sec fs img c' s)"
proof (cases "c' = c")
  case True
  then show ?thesis using assms(4) by (auto simp: cluster_sec_def part_sec_def put_cluster_def Let_def)
next
  case False
  have "\<not> (cluster_lba fs c + k \<le> cluster_lba fs c' + s \<and> cluster_lba fs c' + s < cluster_lba fs c + sectors_per_cluster fs)"
  proof
    assume A: "cluster_lba fs c + k \<le> cluster_lba fs c' + s \<and> cluster_lba fs c' + s < cluster_lba fs c + sectors_per_cluster fs"
    let ?t = "cluster_lba fs c' + s - cluster_lba fs c"
    have "cluster_lba fs c' + s = cluster_lba fs c + ?t" "?t < sectors_per_cluster fs" using A by linarith+
    then show False using cluster_lba_inject [OF assms(3,2,4)] False by metis
  qed
  then show ?thesis using False by (auto simp: cluster_sec_def part_sec_def put_cluster_def Let_def)
qed

lemma put_cluster_tab:
  assumes "vol_ok fs tot" "cluster_ok fs c" "cluster_ok fs c'"
  shows "fat_tab fs (put_cluster fs c k bs img) c' = fat_tab fs img c'"
proof -
  have "0 < sectors_per_cluster fs" using assms(1) by (simp add: vol_ok_def)
  from cluster_bounds(3) [OF assms(1,2) this]
  have "\<forall>a < data_start_lba fs. part_sec fs (put_cluster fs c k bs img) a = part_sec fs img a"
    by (auto simp: part_sec_def put_cluster_def Let_def)
  then show ?thesis by (rule fat_tab_elsewhere [OF assms(1,3)])
qed

lemma put_cluster_ok: "sectors_ok img \<Longrightarrow> sectors_ok (put_cluster fs c k bs img)"
  by (simp add: sectors_ok_def put_cluster_def Let_def)

text \<open>The whole chain.\<close>

fun put_chain :: "fat32_fs \<Rightarrow> nat list \<Rightarrow> byte list \<Rightarrow> (nat \<Rightarrow> byte list) \<Rightarrow> nat \<Rightarrow> byte list" where
  "put_chain fs [] bs img = img"
| "put_chain fs (c # cs) bs img =
     (if bs = [] then img else put_chain fs cs (drop (512 * sectors_per_cluster fs) bs) (put_cluster fs c 0 bs img))"

lemma put_chain_ok: "sectors_ok img \<Longrightarrow> sectors_ok (put_chain fs cs bs img)"
  by (induction fs cs bs img rule: put_chain.induct) (simp_all add: put_cluster_ok)

lemma put_chain_tab:
  "vol_ok fs tot \<Longrightarrow> \<forall>c \<in> set cs. cluster_ok fs c \<Longrightarrow> cluster_ok fs c' \<Longrightarrow> fat_tab fs (put_chain fs cs bs img) c' = fat_tab fs img c'"
  by (induction fs cs bs img rule: put_chain.induct) (simp_all add: put_cluster_tab)

lemma put_chain_other:
  "vol_ok fs tot \<Longrightarrow> \<forall>c \<in> set cs. cluster_ok fs c \<Longrightarrow> cluster_ok fs c' \<Longrightarrow> s < sectors_per_cluster fs \<Longrightarrow> c' \<notin> set cs \<Longrightarrow>
   cluster_sec fs (put_chain fs cs bs img) c' s = cluster_sec fs img c' s"
  by (induction fs cs bs img rule: put_chain.induct) (simp_all add: put_cluster_sec)

text \<open>Cutting data into sectors keeps it.\<close>

lemma sectors_of_data:
  "concat (map (\<lambda>s. sector_of (drop (512 * s) bs)) [0..<n]) = take (512 * n) bs @ replicate (512 * n - length bs) NUL"
proof (induction n)
  case (Suc n)
  have "take (512 * n + 512) bs = take (512 * n) bs @ take 512 (drop (512 * n) bs)" by (rule take_add)
  then have t: "take (512 * Suc n) bs = take (512 * n) bs @ take 512 (drop (512 * n) bs)" by (simp add: add.commute)
  show ?case
  proof (cases "512 * n < length bs")
    case True
    then show ?thesis using Suc t by (simp add: sector_of_def min_def)
  next
    case False
    then have "replicate (512 * n - length bs) NUL @ replicate 512 NUL = replicate (512 * Suc n - length bs) NUL"
      by (simp add: replicate_add [symmetric])
    then show ?thesis using Suc t False by (simp add: sector_of_def)
  qed
qed simp

lemma cluster_bytes_put:
  assumes "vol_ok fs tot" "cluster_ok fs c"
  shows "cluster_bytes fs (put_cluster fs c 0 bs img) c =
    take (512 * sectors_per_cluster fs) bs @ replicate (512 * sectors_per_cluster fs - length bs) NUL"
proof -
  have "map (cluster_sec fs (put_cluster fs c 0 bs img) c) [0..<sectors_per_cluster fs] =
      map (\<lambda>s. sector_of (drop (512 * s) bs)) [0..<sectors_per_cluster fs]"
    using put_cluster_sec [OF assms assms(2)] by (intro map_cong) simp_all
  then show ?thesis by (simp only: cluster_bytes_def sectors_of_data)
qed

lemma cluster_bytes_cong:
  "(\<And>s. s < sectors_per_cluster fs \<Longrightarrow> cluster_sec fs img' c s = cluster_sec fs img c s) \<Longrightarrow> cluster_bytes fs img' c = cluster_bytes fs img c"
  unfolding cluster_bytes_def by (rule arg_cong [of _ _ concat]) simp

lemma chain_bytes_cong:
  "(\<And>c s. c \<in> set cs \<Longrightarrow> s < sectors_per_cluster fs \<Longrightarrow> cluster_sec fs img' c s = cluster_sec fs img c s) \<Longrightarrow>
   chain_bytes fs img' cs = chain_bytes fs img cs"
  unfolding chain_bytes_def by (intro arg_cong [of _ _ concat] map_cong refl cluster_bytes_cong) simp

lemma put_chain_bytes:
  "vol_ok fs tot \<Longrightarrow> \<forall>c \<in> set cs. cluster_ok fs c \<Longrightarrow> distinct cs \<Longrightarrow> length bs \<le> 512 * sectors_per_cluster fs * length cs \<Longrightarrow>
   take (length bs) (chain_bytes fs (put_chain fs cs bs img) cs) = bs"
proof (induction fs cs bs img rule: put_chain.induct)
  case (2 fs c cs bs img)
  let ?B = "512 * sectors_per_cluster fs"
  let ?img = "put_chain fs cs (drop ?B bs) (put_cluster fs c 0 bs img)"
  show ?case
  proof (cases "bs = []")
    case False
    have "cluster_bytes fs ?img c = cluster_bytes fs (put_cluster fs c 0 bs img) c"
      using put_chain_other [OF "2.prems"(1)] "2.prems"(2,3) by (intro cluster_bytes_cong) simp
    then have c: "cluster_bytes fs ?img c = take ?B bs @ replicate (?B - length bs) NUL"
      using cluster_bytes_put [OF "2.prems"(1)] "2.prems"(2) by simp
    have IH: "take (length (drop ?B bs)) (chain_bytes fs ?img cs) = drop ?B bs" using "2.IH" [OF False] "2.prems" by simp
    have e: "chain_bytes fs ?img (c # cs) = take ?B bs @ replicate (?B - length bs) NUL @ chain_bytes fs ?img cs"
      using c by (simp add: chain_bytes_def)
    show ?thesis
    proof (cases "length bs \<le> ?B")
      case True
      then show ?thesis using e False by simp
    next
      case len: False
      then have "take (length bs) (chain_bytes fs ?img (c # cs)) = take ?B bs @ take (length (drop ?B bs)) (chain_bytes fs ?img cs)"
        unfolding e by (simp add: min_def)
      then show ?thesis using IH False by (simp del: length_drop)
    qed
  qed simp
qed simp

context sector_disk
begin

lemma write_cluster:
  assumes "vol_ok fs (g_total_sectors d)" "cluster_ok fs c"
  shows "ok d \<Longrightarrow> k + n = sectors_per_cluster fs \<Longrightarrow>
    \<exists>e. write_cluster io fs (cluster_lba fs c) [k..<sectors_per_cluster fs] bs d = (Some (drop (512 * n) bs), e) \<and>
      leaves ok sec d (put_cluster fs c k bs (sec d)) e"
  using assms
proof (induction n arbitrary: d k bs)
  case 0
  then show ?case by (auto simp: leaves_def same_tables_def put_cluster_def fun_eq_iff Let_def)
next
  case (Suc n)
  have k: "k < sectors_per_cluster fs" using Suc.prems by simp
  note B = cluster_bounds [OF Suc.prems(3,4) k]
  obtain e1 where w: "fat32_write_sectors io fs (cluster_lba fs c + k) 1 (sector_of bs) d = (Some (), e1)"
    "leaves ok sec d ((sec d)(part_start_lba fs + (cluster_lba fs c + k) := sector_of bs)) e1"
    using write_sector [OF Suc.prems(1,3) B(4), of "sector_of bs"] by auto
  have "vol_ok fs (g_total_sectors e1)" using Suc.prems(3) leavesD(3) [OF w(2)] by simp
  with Suc.IH [OF leavesD(1) [OF w(2)], of "k + 1" "drop 512 bs"] Suc.prems obtain e where
    l: "write_cluster io fs (cluster_lba fs c) [k + 1..<sectors_per_cluster fs] (drop 512 bs) e1 = (Some (drop (512 * n) (drop 512 bs)), e)"
      "leaves ok sec e1 (put_cluster fs c (k + 1) (drop 512 bs) (sec e1)) e"
    by auto
  have "put_cluster fs c (k + 1) (drop 512 bs) (sec e1) = put_cluster fs c k bs (sec d)"
  proof
    fix a
    let ?b = "part_start_lba fs + cluster_lba fs c + k"
    have "512 * (a - (?b + 1)) + 512 = 512 * (a - ?b)" if "?b < a" using that by simp
    then have "drop (512 * (a - (?b + 1))) (drop 512 bs) = drop (512 * (a - ?b)) bs" if "?b < a" using that by simp
    then show "put_cluster fs c (k + 1) (drop 512 bs) (sec e1) a = put_cluster fs c k bs (sec d) a"
      using leavesD(2) [OF w(2)] k by (cases "a = ?b") (auto simp: put_cluster_def Let_def add.assoc)
  qed
  then have "leaves ok sec d (put_cluster fs c k bs (sec d)) e" using leaves_trans [OF w(2) l(2)] by simp
  moreover have "[k..<sectors_per_cluster fs] = k # [k + 1..<sectors_per_cluster fs]" using k by (simp add: upt_conv_Cons)
  ultimately show ?case using w(1) l(1) B(2) by (simp add: and_then_def add.commute [of 512])
qed

lemma write_loop:
  "ok d \<Longrightarrow> vol_ok fs (g_total_sectors d) \<Longrightarrow> fat_chain fs (fat_tab fs (sec d)) cs \<Longrightarrow>
   length bs \<le> 512 * sectors_per_cluster fs * length cs \<Longrightarrow>
   \<exists>e. fat_write_loop io fs (hd cs) bs d = Some (True, e) \<and> leaves ok sec d (put_chain fs cs bs (sec d)) e"
proof (induction cs arbitrary: d bs)
  case (Cons c cs)
  have c: "cluster_ok fs c" using chain_cluster_ok [OF Cons.prems(3)] by simp
  have spc: "0 < sectors_per_cluster fs" using Cons.prems(2) by (simp add: vol_ok_def)
  let ?B = "512 * sectors_per_cluster fs"
  note ne = cluster_not_end [OF Cons.prems(2) c]
  show ?case
  proof (cases "bs = []")
    case True
    then show ?thesis by (simp add: fat_write_loop.simps leaves_def same_tables_def Cons.prems(1))
  next
    case False
    obtain e1 where w: "write_cluster io fs (cluster_lba fs c) [0..<sectors_per_cluster fs] bs d = (Some (drop ?B bs), e1)"
      "leaves ok sec d (put_cluster fs c 0 bs (sec d)) e1"
      using write_cluster [OF Cons.prems(2) c Cons.prems(1), of 0 "sectors_per_cluster fs" bs] by auto
    have v1: "vol_ok fs (g_total_sectors e1)" using Cons.prems(2) leavesD(3) [OF w(2)] by simp
    show ?thesis
    proof (cases "drop ?B bs = []")
      case d: True
      have "put_chain fs cs [] img = img" for img by (cases cs) simp_all
      then show ?thesis using w d False ne cluster_bounds(1) [OF Cons.prems(2) c spc] by (simp add: fat_write_loop.simps)
    next
      case d: False
      have cs: "cs \<noteq> []" using d Cons.prems(4) by auto
      then have t: "fat_chain fs (fat_tab fs (sec d)) cs" "fat_tab fs (sec d) c = hd cs" using chain_tail [OF Cons.prems(3)] by simp_all
      have tab: "fat_tab fs (sec e1) x = fat_tab fs (sec d) x" if "cluster_ok fs x" for x
        using put_cluster_tab [OF Cons.prems(2) c that] leavesD(2) [OF w(2)] by simp
      obtain e2 where g: "fat32_fat_get io fs c e1 = (Some (hd cs), e2)" "leaves ok sec e1 (sec e1) e2"
        using fat_get [OF leavesD(1) [OF w(2)] v1 c] tab [OF c] t(2) by auto
      have v2: "vol_ok fs (g_total_sectors e2)" and s2: "sec e2 = sec e1" using v1 leavesD [OF g(2)] by simp_all
      have "fat_chain fs (fat_tab fs (sec e2)) cs"
        using t(1) tab chain_cluster_ok [OF t(1)] by (subst chain_cong [where T = "fat_tab fs (sec d)"]) (simp_all add: s2)
      moreover have "length (drop ?B bs) \<le> ?B * length cs" using Cons.prems(4) by simp
      ultimately obtain e where l: "fat_write_loop io fs (hd cs) (drop ?B bs) e2 = Some (True, e)"
          "leaves ok sec e2 (put_chain fs cs (drop ?B bs) (sec e2)) e"
        using Cons.IH [OF leavesD(1) [OF g(2)] v2] by blast
      have "leaves ok sec d (put_chain fs (c # cs) bs (sec d)) e"
        using leaves_trans [OF leaves_trans [OF w(2) g(2)] l(2)] s2 leavesD(2) [OF w(2)] False by simp
      then show ?thesis using w(1) g(1) l(1) False d ne cluster_bounds(1) [OF Cons.prems(2) c spc] by (simp add: fat_write_loop.simps)
    qed
  qed
qed simp

lemma read_cluster:
  assumes "vol_ok fs (g_total_sectors d)" "cluster_ok fs c"
  shows "ok d \<Longrightarrow> k + n = sectors_per_cluster fs \<Longrightarrow> length copied \<le> min sz fsize \<Longrightarrow>
    \<exists>e. read_cluster io fs (cluster_lba fs c) [k..<sectors_per_cluster fs] sz fsize copied d =
      (True, copied @ take (min sz fsize - length copied) (concat (map (cluster_sec fs (sec d) c) [k..<sectors_per_cluster fs])), e) \<and>
      leaves ok sec d (sec d) e"
  using assms
proof (induction n arbitrary: d k copied)
  case 0
  then show ?case by (simp add: leaves_def same_tables_def)
next
  case (Suc n)
  have k: "k < sectors_per_cluster fs" using Suc.prems by simp
  have u: "[k..<sectors_per_cluster fs] = k # [k + 1..<sectors_per_cluster fs]" using k by (simp add: upt_conv_Cons)
  let ?N = "min sz fsize"
  show ?case
  proof (cases "length copied = ?N")
    case True
    then have "length copied \<ge> sz \<or> length copied \<ge> fsize" by (simp add: min_def split: if_splits)
    then show ?thesis using u True Suc.prems(1) by (simp add: leaves_def same_tables_def)
  next
    case False
    then have lt: "\<not> (length copied \<ge> sz \<or> length copied \<ge> fsize)" using Suc.prems(3) by (simp add: min_def split: if_splits)
    note B = cluster_bounds [OF Suc.prems(4,5) k]
    let ?s = "cluster_sec fs (sec d) c k" let ?m = "min (min (fsize - length copied) (sz - length copied)) 512"
    have len: "length ?s = 512" using sec_length [OF Suc.prems(1)] by (simp add: cluster_sec_def part_sec_def)
    obtain e1 where r: "fat32_read_sectors io fs (cluster_lba fs c + k) 1 d = (Some ?s, e1)" "leaves ok sec d (sec d) e1"
      using read_sector [OF Suc.prems(1,4) B(4)] by (auto simp: cluster_sec_def)
    have v1: "vol_ok fs (g_total_sectors e1)" and s1: "sec e1 = sec d" using Suc.prems(4) leavesD [OF r(2)] by simp_all
    have m: "?m = min (?N - length copied) 512" by arith
    have "length (copied @ take ?m ?s) = length copied + ?m" using len by simp
    then have le: "length (copied @ take ?m ?s) \<le> ?N" using lt by arith
    from Suc.IH [OF leavesD(1) [OF r(2)] _ le v1 Suc.prems(5), of "k + 1"] Suc.prems(2) obtain e where
      l: "read_cluster io fs (cluster_lba fs c) [k + 1..<sectors_per_cluster fs] sz fsize (copied @ take ?m ?s) e1 =
        (True, (copied @ take ?m ?s) @ take (?N - length (copied @ take ?m ?s))
          (concat (map (cluster_sec fs (sec d) c) [k + 1..<sectors_per_cluster fs])), e)" "leaves ok sec e1 (sec d) e"
      using s1 by auto
    have tm: "take ?m ?s = take (?N - length copied) ?s" unfolding m using len by (simp add: min_def)
    then have "?N - length (copied @ take ?m ?s) = ?N - length copied - 512" using len by simp
    then have tk: "take (?N - length copied) (?s @ rest) = take ?m ?s @ take (?N - length (copied @ take ?m ?s)) rest" for rest
      using len by (simp only: tm take_append)
    let ?rest = "concat (map (cluster_sec fs (sec d) c) [k + 1..<sectors_per_cluster fs])"
    have "read_cluster io fs (cluster_lba fs c) [k..<sectors_per_cluster fs] sz fsize copied d =
        (True, (copied @ take ?m ?s) @ take (?N - length (copied @ take ?m ?s)) ?rest, e)"
      unfolding u using r(1) lt B(2) l(1) by (simp only: read_cluster.simps Let_def option.case prod.case if_False)
    moreover have "(copied @ take ?m ?s) @ take (?N - length (copied @ take ?m ?s)) ?rest =
        copied @ take (?N - length copied) (concat (map (cluster_sec fs (sec d) c) [k..<sectors_per_cluster fs]))"
      unfolding u using tk [of ?rest] by (simp only: append_assoc list.map concat.simps)
    ultimately show ?thesis using leaves_trans [OF r(2) l(2)] by metis
  qed
qed

lemma fat_read_loop:
  "ok d \<Longrightarrow> vol_ok fs (g_total_sectors d) \<Longrightarrow> fat_chain fs (fat_tab fs (sec d)) cs \<Longrightarrow>
   length copied \<le> min sz fsize \<Longrightarrow> min sz fsize \<le> length copied + 512 * sectors_per_cluster fs * length cs \<Longrightarrow>
   \<exists>e. fat_read_loop io fs (hd cs) sz fsize copied d =
       Some (True, copied @ take (min sz fsize - length copied) (chain_bytes fs (sec d) cs), e) \<and> leaves ok sec d (sec d) e"
proof (induction cs arbitrary: d copied)
  case (Cons c cs)
  have c: "cluster_ok fs c" using chain_cluster_ok [OF Cons.prems(3)] by simp
  have spc: "0 < sectors_per_cluster fs" using Cons.prems(2) by (simp add: vol_ok_def)
  let ?N = "min sz fsize" let ?B = "512 * sectors_per_cluster fs"
  note ne = cluster_not_end [OF Cons.prems(2) c]
  show ?case
  proof (cases "length copied = ?N")
    case True
    then have "length copied \<ge> sz \<or> length copied \<ge> fsize" by (simp add: min_def split: if_splits)
    then show ?thesis using True Cons.prems(1) by (simp add: fat_read_loop.simps leaves_def same_tables_def)
  next
    case False
    then have lt: "\<not> (length copied \<ge> sz \<or> length copied \<ge> fsize)" using Cons.prems(4) by (simp add: min_def split: if_splits)
    let ?copied = "copied @ take (?N - length copied) (cluster_bytes fs (sec d) c)"
    obtain e1 where r: "read_cluster io fs (cluster_lba fs c) [0..<sectors_per_cluster fs] sz fsize copied d = (True, ?copied, e1)"
      "leaves ok sec d (sec d) e1"
      using read_cluster [OF Cons.prems(2) c Cons.prems(1), of 0 "sectors_per_cluster fs" copied sz fsize] Cons.prems(4)
      by (auto simp: cluster_bytes_def)
    have v1: "vol_ok fs (g_total_sectors e1)" and s1: "sec e1 = sec d" using Cons.prems(2) leavesD [OF r(2)] by simp_all
    obtain e2 where g: "fat32_fat_get io fs c e1 = (Some (fat_tab fs (sec d) c), e2)" "leaves ok sec e1 (sec d) e2"
      using fat_get [OF leavesD(1) [OF r(2)] v1 c] s1 by auto
    have v2: "vol_ok fs (g_total_sectors e2)" and s2: "sec e2 = sec d" using v1 leavesD [OF g(2)] by simp_all
    have cl: "length (cluster_bytes fs (sec d) c) = ?B" by (rule cluster_bytes_length [OF sectors_ok_sec [OF Cons.prems(1)]])
    have step: "fat_read_loop io fs c sz fsize copied d = fat_read_loop io fs (fat_tab fs (sec d) c) sz fsize ?copied e2"
      using r(1) g(1) lt ne cluster_bounds(1) [OF Cons.prems(2) c spc] by (subst fat_read_loop.simps) simp
    have L: "leaves ok sec d (sec d) e2" using leaves_trans [OF r(2) g(2)] .
    show ?thesis
    proof (cases "cs = []")
      case True
      then have "fat32_is_eoc (fat_tab fs (sec d) c)" using Cons.prems(3) by simp
      then show ?thesis using step L True by (simp add: fat_read_loop.simps [of io fs "fat_tab fs (sec d) c"] chain_bytes_def)
    next
      case False
      then have t: "fat_chain fs (fat_tab fs (sec e2)) cs" "fat_tab fs (sec d) c = hd cs" using chain_tail [OF Cons.prems(3)] s2 by simp_all
      have "length ?copied = length copied + min (?N - length copied) ?B" using cl by simp
      moreover have "?N \<le> length copied + (?B + ?B * length cs)" using Cons.prems(5) by simp
      ultimately have "length ?copied \<le> ?N" "?N \<le> length ?copied + ?B * length cs" using Cons.prems(4) by arith+
      from Cons.IH [OF leavesD(1) [OF g(2)] v2 t(1) this] obtain e where
        l: "fat_read_loop io fs (hd cs) sz fsize ?copied e2 = Some (True, ?copied @ take (?N - length ?copied) (chain_bytes fs (sec d) cs), e)"
          "leaves ok sec e2 (sec d) e" using s2 by auto
      have "take (?N - length copied) (cluster_bytes fs (sec d) c @ rest) =
          take (?N - length copied) (cluster_bytes fs (sec d) c) @ take (?N - length ?copied) rest" for rest
        using cl by (auto simp: min_def)
      then show ?thesis using step l t(2) leaves_trans [OF L l(2)] by (simp add: chain_bytes_def)
    qed
  qed
qed simp

end

end
