(* ===== verification/Fat32_Dir.thy ===== *)
theory Fat32_Dir
  imports Fat32_Data
begin

section \<open>Directories and files of a FAT32 volume\<close>

text \<open>
  The entries of a directory are those of the sectors of its chain, in order.  \<open>find_slots\<close> looks
  through them without a disk; \<^verbatim>\<open>fat32_dir_find\<close> computes it on any disk.
\<close>

subsection \<open>The slots of a directory\<close>

definition cluster_slots :: "fat32_fs \<Rightarrow> nat \<Rightarrow> nat \<Rightarrow> (nat \<times> nat) list" where
  "cluster_slots fs c k = concat (map (\<lambda>s. map (Pair (cluster_lba fs c + s)) entry_offsets) [k..<sectors_per_cluster fs])"

definition slots :: "fat32_fs \<Rightarrow> nat list \<Rightarrow> (nat \<times> nat) list" where
  "slots fs cs = concat (map (\<lambda>c. cluster_slots fs c 0) cs)"

definition slot_entry :: "fat32_fs \<Rightarrow> (nat \<Rightarrow> byte list) \<Rightarrow> nat \<times> nat \<Rightarrow> byte list" where
  "slot_entry fs img p = entry_at (part_sec fs img (fst p)) (snd p)"

fun find_slots :: "(nat \<times> nat \<Rightarrow> byte list) \<Rightarrow> nat \<Rightarrow> string \<Rightarrow> (nat \<times> nat) list \<Rightarrow> lfn_state \<Rightarrow> fat32_found option + lfn_state" where
  "find_slots E dir name [] lfn = Inr lfn"
| "find_slots E dir name (p # ps) lfn =
     (case classify (E p) lfn of
        Dir_end \<Rightarrow> Inl None
      | Dir_skip lfn1 \<Rightarrow> find_slots E dir name ps lfn1
      | Dir_entry decoded \<Rightarrow>
          if name_eq_ci decoded name then Inl (Some (found_at (E p) decoded dir (fst p) (snd p)))
          else find_slots E dir name ps no_lfn)"

lemma find_slots_append:
  "find_slots E dir name (ps @ qs) lfn =
    (case find_slots E dir name ps lfn of Inl r \<Rightarrow> Inl r | Inr lfn1 \<Rightarrow> find_slots E dir name qs lfn1)"
  by (induction ps arbitrary: lfn) (simp_all split: dir_item.split)

lemma find_in_sector_slots:
  "find_in_sector dir name (part_sec fs img rel) rel offs lfn = find_slots (slot_entry fs img) dir name (map (Pair rel) offs) lfn"
  by (induction offs arbitrary: lfn) (simp_all add: slot_entry_def split: dir_item.split)

context sector_disk
begin

lemma find_in_cluster:
  assumes "vol_ok fs (g_total_sectors d)" "cluster_ok fs c"
  shows "ok d \<Longrightarrow> k + n = sectors_per_cluster fs \<Longrightarrow>
    \<exists>e. find_in_cluster io fs dir name (cluster_lba fs c) [k..<sectors_per_cluster fs] lfn d =
        (find_slots (slot_entry fs (sec d)) dir name (cluster_slots fs c k) lfn, e) \<and> leaves ok sec d (sec d) e"
  using assms
proof (induction n arbitrary: d k lfn)
  case 0
  then show ?case by (simp add: cluster_slots_def leaves_def same_tables_def)
next
  case (Suc n)
  have k: "k < sectors_per_cluster fs" using Suc.prems by simp
  have u: "[k..<sectors_per_cluster fs] = k # [k + 1..<sectors_per_cluster fs]" using k by (simp add: upt_conv_Cons)
  note B = cluster_bounds [OF Suc.prems(3,4) k]
  let ?a = "cluster_lba fs c + k"
  obtain e1 where r: "fat32_read_sectors io fs ?a 1 d = (Some (part_sec fs (sec d) ?a), e1)" "leaves ok sec d (sec d) e1"
    using read_sector [OF Suc.prems(1,3) B(4)] by blast
  have v1: "vol_ok fs (g_total_sectors e1)" and s1: "sec e1 = sec d" using Suc.prems(3) leavesD [OF r(2)] by simp_all
  have cs: "cluster_slots fs c k = map (Pair ?a) entry_offsets @ cluster_slots fs c (k + 1)"
    unfolding cluster_slots_def u by simp
  show ?case
  proof (cases "find_slots (slot_entry fs (sec d)) dir name (map (Pair ?a) entry_offsets) lfn")
    case (Inl x)
    then show ?thesis using r B(2) unfolding u cs by (auto simp: find_slots_append find_in_sector_slots)
  next
    case (Inr lfn1)
    have kn: "k + 1 + n = sectors_per_cluster fs" using Suc.prems(2) by simp
    from Suc.IH [OF leavesD(1) [OF r(2)] kn v1 Suc.prems(4), of lfn1] obtain e where
      l: "find_in_cluster io fs dir name (cluster_lba fs c) [k + 1..<sectors_per_cluster fs] lfn1 e1 =
        (find_slots (slot_entry fs (sec d)) dir name (cluster_slots fs c (k + 1)) lfn1, e)" "leaves ok sec e1 (sec d) e"
      using s1 by auto
    have "find_in_cluster io fs dir name (cluster_lba fs c) [k..<sectors_per_cluster fs] lfn d =
        (find_slots (slot_entry fs (sec d)) dir name (cluster_slots fs c k) lfn, e)"
      unfolding u cs using r(1) B(2) Inr l(1) by (simp add: find_slots_append find_in_sector_slots)
    then show ?thesis using leaves_trans [OF r(2) l(2)] by blast
  qed
qed

lemma find_loop:
  "ok d \<Longrightarrow> vol_ok fs (g_total_sectors d) \<Longrightarrow> fat_chain fs (fat_tab fs (sec d)) cs \<Longrightarrow>
   \<exists>e. find_loop io fs dir name (hd cs) lfn d =
       Some (case find_slots (slot_entry fs (sec d)) dir name (slots fs cs) lfn of Inl r \<Rightarrow> r | Inr _ \<Rightarrow> None, e) \<and>
     leaves ok sec d (sec d) e"
proof (induction cs arbitrary: d lfn)
  case (Cons c cs)
  have c: "cluster_ok fs c" using chain_cluster_ok [OF Cons.prems(3)] by simp
  have spc: "0 < sectors_per_cluster fs" using Cons.prems(2) by (simp add: vol_ok_def)
  note ne = cluster_not_end [OF Cons.prems(2) c]
  let ?E = "slot_entry fs (sec d)"
  have sl: "slots fs (c # cs) = cluster_slots fs c 0 @ slots fs cs" by (simp add: slots_def)
  obtain e1 where f: "find_in_cluster io fs dir name (cluster_lba fs c) [0..<sectors_per_cluster fs] lfn d =
        (find_slots ?E dir name (cluster_slots fs c 0) lfn, e1)" "leaves ok sec d (sec d) e1"
    using find_in_cluster [OF Cons.prems(2) c Cons.prems(1), of 0 "sectors_per_cluster fs" dir name lfn] by auto
  have v1: "vol_ok fs (g_total_sectors e1)" and s1: "sec e1 = sec d" using Cons.prems(2) leavesD [OF f(2)] by simp_all
  show ?case
  proof (cases "find_slots ?E dir name (cluster_slots fs c 0) lfn")
    case (Inl r)
    then show ?thesis using f ne cluster_bounds(1) [OF Cons.prems(2) c spc]
      by (auto simp: find_loop.simps [of io fs dir name c] sl find_slots_append)
  next
    case (Inr lfn1)
    obtain e2 where g: "fat32_fat_get io fs c e1 = (Some (fat_tab fs (sec d) c), e2)" "leaves ok sec e1 (sec d) e2"
      using fat_get [OF leavesD(1) [OF f(2)] v1 c] s1 by auto
    have v2: "vol_ok fs (g_total_sectors e2)" and s2: "sec e2 = sec d" using v1 leavesD [OF g(2)] by simp_all
    have L: "leaves ok sec d (sec d) e2" using leaves_trans [OF f(2) g(2)] .
    have step: "find_loop io fs dir name c lfn d = find_loop io fs dir name (fat_tab fs (sec d) c) lfn1 e2"
      using f(1) g(1) Inr ne cluster_bounds(1) [OF Cons.prems(2) c spc] by (subst find_loop.simps) simp
    show ?thesis
    proof (cases "cs = []")
      case True
      then have "fat32_is_eoc (fat_tab fs (sec d) c)" using Cons.prems(3) by simp
      then have "find_loop io fs dir name (fat_tab fs (sec d) c) lfn1 e2 = Some (None, e2)" by (subst find_loop.simps) simp
      then show ?thesis using step L True Inr by (simp add: slots_def find_slots_append)
    next
      case False
      then have t: "fat_chain fs (fat_tab fs (sec e2)) cs" "fat_tab fs (sec d) c = hd cs" using chain_tail [OF Cons.prems(3)] s2 by simp_all
      from Cons.IH [OF leavesD(1) [OF g(2)] v2 t(1), of lfn1] obtain e where
        l: "find_loop io fs dir name (hd cs) lfn1 e2 =
          Some (case find_slots ?E dir name (slots fs cs) lfn1 of Inl r \<Rightarrow> r | Inr _ \<Rightarrow> None, e)" "leaves ok sec e2 (sec d) e"
        using s2 by auto
      show ?thesis using step t(2) l leaves_trans [OF L l(2)] Inr unfolding sl find_slots_append by auto
    qed
  qed
qed simp

lemma dir_find:
  assumes "ok d" "vol_ok fs (g_total_sectors d)" "fat_chain fs (fat_tab fs (sec d)) cs"
  shows "\<exists>e. fat32_dir_find io fs (hd cs) name d =
       Some (case find_slots (slot_entry fs (sec d)) (hd cs) name (slots fs cs) no_lfn of Inl r \<Rightarrow> r | Inr _ \<Rightarrow> None, e) \<and>
     leaves ok sec d (sec d) e"
  using find_loop [OF assms] unfolding fat32_dir_find_def .

end

text \<open>A path of one component is a name in the root directory.\<close>

lemma resolve_loop_name:
  "CHR ''/'' \<notin> set name \<Longrightarrow> length seg + length name \<le> 255 \<Longrightarrow> seg @ name \<noteq> [] \<Longrightarrow>
   resolve_loop io fs name seg cur found d = fat32_dir_find io fs cur (seg @ name) d"
  by (induction name arbitrary: seg) auto

lemma resolve_root_name:
  assumes "CHR ''/'' \<notin> set name" "length name \<le> 255" "name \<noteq> []"
  shows "fat32_resolve io fs (CHR ''/'' # name) d = fat32_dir_find io fs (root_cluster fs) name d"
  using resolve_loop_name [of name "[]"] assms by (simp add: fat32_resolve_def)

end
