(* ===== verification/Fat32_File.thy ===== *)
theory Fat32_File
  imports Fat32_Dir
begin

section \<open>Writing and reading a file\<close>

text \<open>
  How an entry of a directory changes when a file is written, and what \<^verbatim>\<open>fat32_write_op\<close> and
  \<^verbatim>\<open>fat32_read_op\<close> do to a volume in order: the composition of the lemmas on chains, data and entries.
\<close>

unbundle bit_operations_syntax

subsection \<open>The slots of a directory and its sectors\<close>

lemma in_slots:
  "(rel, off) \<in> set (slots fs cs) \<longleftrightarrow>
    (\<exists>c \<in> set cs. \<exists>s < sectors_per_cluster fs. rel = cluster_lba fs c + s) \<and> off \<in> set entry_offsets"
proof -
  have "(rel, off) \<in> set (slots fs cs) \<longleftrightarrow>
      (\<exists>c \<in> set cs. \<exists>s \<in> {0..<sectors_per_cluster fs}. rel = cluster_lba fs c + s \<and> off \<in> set entry_offsets)"
    by (auto simp: slots_def cluster_slots_def image_iff simp del: atLeastLessThan_iff)
  moreover have "\<dots> \<longleftrightarrow> (\<exists>c \<in> set cs. \<exists>s < sectors_per_cluster fs. rel = cluster_lba fs c + s) \<and> off \<in> set entry_offsets"
    using atLeastLessThan_iff [of _ 0 "sectors_per_cluster fs"] by fast
  ultimately show ?thesis by (rule trans)
qed

lemma offset_bounds: "off \<in> set entry_offsets \<Longrightarrow> off \<le> 480 \<and> off mod 32 = 0"
  by (auto simp: entry_offsets_def)

lemma entry_at_patch:
  assumes "length bs = 512" "length e = 32" "off \<le> 480" "off' \<le> 480" "off mod 32 = 0" "off' mod 32 = 0"
  shows "entry_at (patch bs off e) off' = (if off' = off then e else entry_at bs off')"
proof (cases "off' = off")
  case True
  then show ?thesis using assms by (simp add: entry_at_def patch_def min_def)
next
  case False
  have far: "off' + 32 \<le> off \<or> off + 32 \<le> off'"
  proof -
    obtain i j where "off = 32 * i" "off' = 32 * j" using assms(5,6) by (metis mod_0_imp_dvd dvd_def)
    then show ?thesis using False by arith
  qed
  have "entry_at (patch bs off e) off' = entry_at bs off'"
  proof (rule nth_equalityI)
    show "length (entry_at (patch bs off e) off') = length (entry_at bs off')" using assms by (simp add: entry_at_def patch_length)
    fix i assume "i < length (entry_at (patch bs off e) off')"
    then have "i < 32" "off' + i < 512" using assms by (simp_all add: entry_at_def patch_length)
    then show "entry_at (patch bs off e) off' ! i = entry_at bs off' ! i"
      using far assms by (auto simp: entry_at_def patch_nth patch_length)
  qed
  then show ?thesis using False by simp
qed

lemma entry_at_length: "length bs = 512 \<Longrightarrow> off \<le> 480 \<Longrightarrow> length (entry_at bs off) = 32"
  by (simp add: entry_at_def)

text \<open>What was found lies in a slot.\<close>

lemma find_slots_found:
  "find_slots E dir name ps lfn = Inl (Some f) \<Longrightarrow>
   (entry_rel_sector f, entry_offset f) \<in> set ps \<and>
   f = found_at (E (entry_rel_sector f, entry_offset f)) (n_name f) dir (entry_rel_sector f) (entry_offset f) \<and>
   e_attr (E (entry_rel_sector f, entry_offset f)) \<noteq> FAT32_ATTR_LFN"
proof (induction ps arbitrary: lfn)
  case (Cons p ps)
  show ?case
  proof (cases "classify (E p) lfn")
    case (Dir_entry decoded)
    then have "e_attr (E p) \<noteq> FAT32_ATTR_LFN" by (auto simp: classify_def split: if_splits)
    then show ?thesis using Cons Dir_entry by (cases "name_eq_ci decoded name") (auto simp: found_at_def)
  qed (use Cons in auto)
qed simp

text \<open>The name of an entry and its attributes are its first twelve bytes.\<close>

lemma take_12_nth: "take 12 e' = take 12 e \<Longrightarrow> i < 12 \<Longrightarrow> e' ! i = e ! i"
  by (metis nth_take)

lemma decode_short_name_take:
  assumes "take 12 e' = take 12 e"
  shows "decode_short_name e' = decode_short_name e"
proof -
  have "take 8 (take 12 e') = take 8 (take 12 e)" "take 3 (drop 8 (take 12 e')) = take 3 (drop 8 (take 12 e))" using assms by simp_all
  then have "take 8 e' = take 8 e" "take 3 (drop 8 e') = take 3 (drop 8 e)" by (simp_all add: drop_take min_def)
  then show ?thesis using take_12_nth [OF assms, of 8] by (simp add: decode_short_name_def)
qed

lemma classify_take:
  assumes "take 12 e' = take 12 e" "e_attr e \<noteq> FAT32_ATTR_LFN"
  shows "classify e' lfn = classify e lfn"
  using assms(2) take_12_nth [OF assms(1), of 0] take_12_nth [OF assms(1), of 11] decode_short_name_take [OF assms(1)]
  by (simp add: classify_def e_attr_def entry_name_def)

lemma find_slots_changed:
  assumes "\<forall>p \<in> set ps. p \<noteq> q \<longrightarrow> E' p = E p" "take 12 (E' q) = take 12 (E q)" "e_attr (E q) \<noteq> FAT32_ATTR_LFN"
  shows "find_slots E' dir name ps lfn =
    (case find_slots E dir name ps lfn of
       Inl (Some f) \<Rightarrow> Inl (Some (found_at (E' (entry_rel_sector f, entry_offset f)) (n_name f) dir (entry_rel_sector f) (entry_offset f)))
     | r \<Rightarrow> r)"
  using assms(1)
proof (induction ps arbitrary: lfn)
  case (Cons p ps)
  have c: "classify (E' p) lfn = classify (E p) lfn"
    using Cons.prems classify_take [OF assms(2,3)] by (cases "p = q") auto
  show ?case using Cons by (cases "classify (E p) lfn") (auto simp: c found_at_def)
qed simp

subsection \<open>The fields of an entry\<close>

lemma patch_parts:
  assumes "off + length xs \<le> length bs"
  shows "length (patch bs off xs) = length bs" "n \<le> off \<Longrightarrow> take n (patch bs off xs) = take n bs"
  using assms by (simp_all add: patch_def)

lemma set_entry_length: "length e = 32 \<Longrightarrow> length (set_entry_start c e) = 32" "length e = 32 \<Longrightarrow> length (set_entry_size n e) = 32"
  by (simp_all add: set_entry_start_def set_entry_size_def patch_parts)

lemma set_entry_take:
  "length e = 32 \<Longrightarrow> take 12 (set_entry_start c e) = take 12 e" "length e = 32 \<Longrightarrow> take 12 (set_entry_size n e) = take 12 e"
  by (simp_all add: set_entry_start_def set_entry_size_def patch_parts)

lemma set_entry_fields:
  assumes "length e = 32"
  shows "c < 2 ^ 32 \<Longrightarrow> e_first_cluster (set_entry_size n (set_entry_start c e)) = c"
    "n < 2 ^ 32 \<Longrightarrow> e_file_size (set_entry_size n e) = n" "e_first_cluster (set_entry_size n e) = e_first_cluster e"
proof -
  have b: "of_char (char_of (k :: nat) :: char) = k mod 256" for k by simp
  have s: "length (set_entry_start c e) = 32" using assms by (rule set_entry_length)
  have nth: "set_entry_start c e ! 20 = char_of (c div 65536)" "set_entry_start c e ! 21 = char_of (c div 65536 div 256)"
    "set_entry_start c e ! 26 = char_of (c mod 65536)" "set_entry_start c e ! 27 = char_of (c mod 65536 div 256)"
    using assms by (simp_all add: set_entry_start_def patch_nth patch_parts le16_def)
  have size_nth: "set_entry_size n x ! i = x ! i" if "length x = 32" "i < 28" for x i
    using that by (simp add: set_entry_size_def patch_nth)
  show "e_first_cluster (set_entry_size n e) = e_first_cluster e" using assms by (simp add: e_first_cluster_def size_nth)
  show "e_file_size (set_entry_size n e) = n" if "n < 2 ^ 32"
    using rd_le32_patch(1) [of 28 e 28 n] assms that by (simp add: e_file_size_def set_entry_size_def)
  assume c: "c < 2 ^ 32"
  then have "c div 65536 < 65536" by (simp add: less_mult_imp_div_less)
  then have h: "c div 65536 mod 256 + 256 * (c div 65536 div 256 mod 256) = c div 65536"
    using div_mult_mod_eq [of "c div 65536" 256] by (simp add: less_mult_imp_div_less)
  have "c mod 65536 < 65536" by simp
  then have l: "c mod 65536 mod 256 + 256 * (c mod 65536 div 256 mod 256) = c mod 65536"
    using div_mult_mod_eq [of "c mod 65536" 256] by (simp add: less_mult_imp_div_less)
  have "e_first_cluster (set_entry_size n (set_entry_start c e)) =
      65536 * (c div 65536 mod 256 + 256 * (c div 65536 div 256 mod 256)) + (c mod 65536 mod 256 + 256 * (c mod 65536 div 256 mod 256))"
    unfolding e_first_cluster_def using s by (simp only: size_nth nth b)
  then show "e_first_cluster (set_entry_size n (set_entry_start c e)) = c" unfolding h l by simp
qed

subsection \<open>An entry changed on the disk\<close>

text \<open>The sectors after the entry in slot \<open>(rel, off)\<close> was replaced by \<open>e\<close>.\<close>

definition put_entry :: "fat32_fs \<Rightarrow> nat \<Rightarrow> nat \<Rightarrow> byte list \<Rightarrow> (nat \<Rightarrow> byte list) \<Rightarrow> nat \<Rightarrow> byte list" where
  "put_entry fs rel off e img = img(part_start_lba fs + rel := patch (part_sec fs img rel) off e)"

lemma put_entry_sec:
  "part_sec fs (put_entry fs rel off e img) a = (if a = rel then patch (part_sec fs img rel) off e else part_sec fs img a)"
  by (simp add: put_entry_def part_sec_upd)

lemma put_entry_slot:
  assumes "sectors_ok img" "length e = 32" "off \<in> set entry_offsets" "snd p \<in> set entry_offsets"
  shows "slot_entry fs (put_entry fs rel off e img) p = (if p = (rel, off) then e else slot_entry fs img p)"
proof -
  have "length (part_sec fs img rel) = 512" using assms(1) by (simp add: sectors_ok_def part_sec_def)
  then show ?thesis using assms offset_bounds [OF assms(3)] offset_bounds [OF assms(4)]
    by (cases p) (simp add: slot_entry_def put_entry_sec entry_at_patch)
qed

lemma put_entry_ok: "sectors_ok img \<Longrightarrow> length e = 32 \<Longrightarrow> off \<le> 480 \<Longrightarrow> sectors_ok (put_entry fs rel off e img)"
  by (simp add: sectors_ok_def put_entry_def patch_length part_sec_def)

lemma put_entry_views:
  assumes "vol_ok fs tot" "cluster_ok fs c" "s < sectors_per_cluster fs" "cluster_ok fs x"
  shows "fat_tab fs (put_entry fs (cluster_lba fs c + s) off e img) x = fat_tab fs img x"
    "x \<noteq> c \<Longrightarrow> t < sectors_per_cluster fs \<Longrightarrow>
      cluster_sec fs (put_entry fs (cluster_lba fs c + s) off e img) x t = cluster_sec fs img x t"
proof -
  show "fat_tab fs (put_entry fs (cluster_lba fs c + s) off e img) x = fat_tab fs img x"
    using cluster_bounds(3) [OF assms(1-3)] by (intro fat_tab_elsewhere [OF assms(1,4)]) (auto simp: put_entry_sec)
  show "cluster_sec fs (put_entry fs (cluster_lba fs c + s) off e img) x t = cluster_sec fs img x t"
    if "x \<noteq> c" "t < sectors_per_cluster fs"
    using that cluster_lba_inject [OF assms(4,2) that(2) assms(3)] by (auto simp: cluster_sec_def put_entry_sec)
qed

text \<open>The entries of a directory depend only on the sectors of its clusters.\<close>

lemma slot_entry_cong:
  assumes "\<And>c s. c \<in> set cs \<Longrightarrow> s < sectors_per_cluster fs \<Longrightarrow> cluster_sec fs img' c s = cluster_sec fs img c s"
    "p \<in> set (slots fs cs)"
  shows "slot_entry fs img' p = slot_entry fs img p"
proof -
  obtain c s where "c \<in> set cs" "s < sectors_per_cluster fs" "fst p = cluster_lba fs c + s"
    using assms(2) in_slots [of "fst p" "snd p" fs cs] by auto
  then show ?thesis using assms(1) by (simp add: slot_entry_def cluster_sec_def)
qed

lemma find_slots_cong:
  "(\<And>p. p \<in> set ps \<Longrightarrow> E' p = E p) \<Longrightarrow> find_slots E' dir name ps lfn = find_slots E dir name ps lfn"
  by (induction ps arbitrary: lfn) (simp_all split: dir_item.split)

context sector_disk
begin

lemma update_entry:
  assumes "ok d" "vol_ok fs (g_total_sectors d)" "cluster_ok fs c" "s < sectors_per_cluster fs"
    "entry_rel_sector f = cluster_lba fs c + s" "entry_offset f \<in> set entry_offsets"
    "\<And>e. length e = 32 \<Longrightarrow> length (g e) = 32"
  shows "\<exists>e. update_entry io fs f g d = (Some (), e) \<and>
    leaves ok sec d (put_entry fs (entry_rel_sector f) (entry_offset f)
      (g (slot_entry fs (sec d) (entry_rel_sector f, entry_offset f))) (sec d)) e"
proof -
  let ?rel = "entry_rel_sector f" let ?off = "entry_offset f"
  let ?sec = "part_sec fs (sec d) ?rel"
  let ?e = "g (entry_at ?sec ?off)"
  have rel: "?rel < part_total_sectors fs" using cluster_bounds(4) [OF assms(2-4)] assms(5) by simp
  have off: "\<not> (?off > 480 \<or> ?off mod 32 \<noteq> 0)" using offset_bounds [OF assms(6)] by simp
  have len: "length ?sec = 512" using sec_length [OF assms(1)] by (simp add: part_sec_def)
  obtain e1 where r1: "fat32_read_sectors io fs ?rel 1 d = (Some ?sec, e1)" "leaves ok sec d (sec d) e1"
    using read_sector [OF assms(1,2) rel] by blast
  have v1: "vol_ok fs (g_total_sectors e1)" and s1: "sec e1 = sec d" using assms(2) leavesD [OF r1(2)] by simp_all
  obtain e2 where r2: "fat32_read_sectors io fs ?rel 1 e1 = (Some ?sec, e2)" "leaves ok sec e1 (sec d) e2"
    using read_sector [OF leavesD(1) [OF r1(2)] v1 rel] s1 by auto
  have v2: "vol_ok fs (g_total_sectors e2)" and s2: "sec e2 = sec d" using v1 leavesD [OF r2(2)] by simp_all
  have "length ?e = 32" using assms(7) entry_at_length [OF len] off by simp
  then have pl: "length (patch ?sec ?off ?e) = 512" using len off by (simp add: patch_length)
  obtain e3 where w: "fat32_write_sectors io fs ?rel 1 (patch ?sec ?off ?e) e2 = (Some (), e3)"
    "leaves ok sec e2 ((sec d)(part_start_lba fs + ?rel := patch ?sec ?off ?e)) e3"
    using write_sector [OF leavesD(1) [OF r2(2)] v2 rel pl] s2 by auto
  have "leaves ok sec d (put_entry fs ?rel ?off ?e (sec d)) e3"
    using leaves_trans [OF leaves_trans [OF r1(2) r2(2)] w(2)] by (simp add: put_entry_def)
  then show ?thesis using r1(1) r2(1) w(1) off
    by (simp add: update_entry_def fat32_read_dirent_at_def fat32_write_dirent_at_def and_then_def slot_entry_def)
qed

end

subsection \<open>The data of a file replaced\<close>

text \<open>How many clusters hold \<open>n\<close> bytes.\<close>

definition clusters_for :: "fat32_fs \<Rightarrow> nat \<Rightarrow> nat" where
  "clusters_for fs n = (n + 512 * sectors_per_cluster fs - 1) div (512 * sectors_per_cluster fs)"

lemma clusters_for_enough:
  assumes "0 < sectors_per_cluster fs"
  shows "n \<le> 512 * sectors_per_cluster fs * clusters_for fs n" "n = 0 \<Longrightarrow> clusters_for fs n = 0"
    "n > 0 \<Longrightarrow> clusters_for fs n > 0"
proof -
  let ?B = "512 * sectors_per_cluster fs"
  have B: "0 < ?B" using assms by simp
  have "(n + ?B - 1) mod ?B < ?B" using B by (rule mod_less_divisor)
  moreover have "?B * ((n + ?B - 1) div ?B) + (n + ?B - 1) mod ?B = n + ?B - 1" by (rule mult_div_mod_eq)
  ultimately show "n \<le> ?B * clusters_for fs n" unfolding clusters_for_def using B by linarith
  then show "n > 0 \<Longrightarrow> clusters_for fs n > 0" by (cases "clusters_for fs n") simp_all
  show "n = 0 \<Longrightarrow> clusters_for fs n = 0" using B by (simp add: clusters_for_def)
qed

text \<open>The clusters \<open>new\<close> were free and hold \<open>buf\<close> now, the clusters \<open>old\<close> are free, and the directory of the
  clusters \<open>dir\<close> is the only other place that changed.\<close>

definition replaced :: "fat32_fs \<Rightarrow> nat list \<Rightarrow> nat list \<Rightarrow> nat list \<Rightarrow> byte list \<Rightarrow> (nat \<Rightarrow> byte list) \<Rightarrow> (nat \<Rightarrow> byte list) \<Rightarrow> bool" where
  "replaced fs dir old new buf img img' \<longleftrightarrow>
     set new \<subseteq> free_clusters fs img \<and> length new = clusters_for fs (length buf) \<and>
     (new \<noteq> [] \<longrightarrow> fat_chain fs (fat_tab fs img') new) \<and> take (length buf) (chain_bytes fs img' new) = buf \<and>
     (\<forall>c. cluster_ok fs c \<longrightarrow> c \<notin> set new \<longrightarrow> fat_tab fs img' c = (if c \<in> set old then 0 else fat_tab fs img c)) \<and>
     (\<forall>c s. cluster_ok fs c \<longrightarrow> s < sectors_per_cluster fs \<longrightarrow> c \<notin> set dir \<union> set new \<longrightarrow>
       cluster_sec fs img' c s = cluster_sec fs img c s)"

lemma fat32_cluster_size_eq: "vol_ok fs tot \<Longrightarrow> fat32_cluster_size fs = 512 * sectors_per_cluster fs"
  by (simp add: fat32_cluster_size_def vol_ok_def mul32_def)

lemma need_eq:
  assumes "vol_ok fs tot" "length buf < 2 ^ 31"
  shows "(if length buf = 0 then 0 else sub32 (add32 (length buf) (fat32_cluster_size fs)) 1 div fat32_cluster_size fs) =
    clusters_for fs (length buf)"
proof -
  have "0 < sectors_per_cluster fs" "sectors_per_cluster fs < 256" using assms(1) by (simp_all add: vol_ok_def)
  then show ?thesis using assms(2) clusters_for_enough(2) [of fs 0]
    by (auto simp: fat32_cluster_size_eq [OF assms(1)] add32_def sub32_eq clusters_for_def)
qed

context sector_disk
begin

text \<open>New clusters filled with data: the first part of a write.\<close>

lemma new_data:
  assumes "ok d" "vol_ok fs (g_total_sectors d)" "length buf < 2 ^ 31" "clusters_for fs (length buf) \<le> card (free_clusters fs (sec d))"
  shows "\<exists>e1 e2 new. alloc_chain (clusters_for fs (length buf)) io fs 0 0 d = (Some (if new = [] then 0 else hd new), e1) \<and>
    fat_write_loop io fs (if new = [] then 0 else hd new) buf e1 = Some (True, e2) \<and>
    leaves ok sec d (sec e2) e2 \<and> replaced fs [] [] new buf (sec d) (sec e2)"
proof -
  have spc: "0 < sectors_per_cluster fs" using assms(2) by (simp add: vol_ok_def)
  obtain e1 new where a: "alloc_chain (clusters_for fs (length buf)) io fs 0 0 d = (Some (if new = [] then 0 else hd new), e1)"
      "length new = clusters_for fs (length buf)" "grown fs [] new (sec d) (sec e1)" "leaves ok sec d (sec e1) e1"
    using alloc_chain [OF assms(1,2,4), of "[]" 0 0] unfolding append_Nil by blast
  have v1: "vol_ok fs (g_total_sectors e1)" using assms(2) leavesD(3) [OF a(4)] by simp
  show ?thesis
  proof (cases "new = []")
    case True
    then have "buf = []" using a(2) clusters_for_enough(3) [OF spc, of "length buf"] by auto
    moreover have "replaced fs [] [] [] [] (sec d) (sec e1)"
      using a(3) True clusters_for_enough(2) [OF spc, of 0] by (simp add: replaced_def grown_def chain_bytes_def)
    ultimately show ?thesis using True a(1,4) by (auto simp: fat_write_loop.simps)
  next
    case False
    then have C: "fat_chain fs (fat_tab fs (sec e1)) new" using a(3) by (simp add: grown_def)
    have ck: "\<forall>c \<in> set new. cluster_ok fs c" using chain_cluster_ok [OF C] by blast
    have len: "length buf \<le> 512 * sectors_per_cluster fs * length new" using a(2) clusters_for_enough(1) [OF spc] by simp
    obtain e2 where w: "fat_write_loop io fs (hd new) buf e1 = Some (True, e2)" "leaves ok sec e1 (put_chain fs new buf (sec e1)) e2"
      using write_loop [OF leavesD(1) [OF a(4)] v1 C len] by blast
    have s2: "sec e2 = put_chain fs new buf (sec e1)" using leavesD(2) [OF w(2)] .
    have tab: "fat_tab fs (sec e2) c = fat_tab fs (sec e1) c" if "cluster_ok fs c" for c
      using put_chain_tab [OF v1 ck that] by (simp add: s2)
    have "fat_chain fs (fat_tab fs (sec e2)) new" using C tab ck by (subst chain_cong) auto
    moreover have "take (length buf) (chain_bytes fs (sec e2) new) = buf"
      unfolding s2 by (rule put_chain_bytes [OF v1 ck chain_distinct [OF v1 C] len])
    moreover have "cluster_sec fs (sec e2) c s = cluster_sec fs (sec d) c s"
      if "cluster_ok fs c" "s < sectors_per_cluster fs" "c \<notin> set new" for c s
      using put_chain_other [OF v1 ck that] a(3) that by (simp add: s2 grown_def)
    ultimately have "replaced fs [] [] new buf (sec d) (sec e2)" using a(2,3) tab by (simp add: replaced_def grown_def)
    moreover have "leaves ok sec d (sec e2) e2" using leaves_trans [OF a(4) w(2)] s2 by simp
    ultimately show ?thesis using a(1) w(1) False by auto
  qed
qed

end

context sector_disk
begin

text \<open>The clusters of the old contents, if the entry has any.\<close>

lemma release_old:
  assumes "ok d" "vol_ok fs (g_total_sectors d)"
    "first < 2 \<and> old = [] \<or> fat_chain fs (fat_tab fs (sec d)) old \<and> hd old = first"
  shows "\<exists>e. (if first \<ge> 2 then snd (fat32_free_chain io fs first d) else d) = e \<and> leaves ok sec d (free_img fs old (sec d)) e"
proof (cases "first < 2")
  case True
  then have "old = []" using assms(3) chain_cluster_ok [of fs "fat_tab fs (sec d)" old "hd old"] by (cases old) (auto simp: cluster_ok_def)
  then show ?thesis using True assms(1) by (auto simp: free_img_def leaves_def same_tables_def)
next
  case False
  then show ?thesis using free_chain [OF assms(1,2), of old] assms(3) by auto
qed

lemma write_named:
  assumes d: "ok d" "vol_ok fs (g_total_sectors d)" and buf: "length buf < 2 ^ 31"
    and space: "clusters_for fs (length buf) \<le> card (free_clusters fs (sec d))"
    and dir: "fat_chain fs (fat_tab fs (sec d)) dir"
    and found: "find_slots (slot_entry fs (sec d)) (hd dir) name (slots fs dir) no_lfn = Inl (Some f)"
    and old: "n_first_cluster f < 2 \<and> old = [] \<or> fat_chain fs (fat_tab fs (sec d)) old \<and> hd old = n_first_cluster f"
      "set old \<inter> set dir = {}"
    and attr: "n_attr f AND FAT32_ATTR_DIR = 0"
    and path: "\<exists>e. fat32_resolve io fs path d = Some (Some f, e) \<and> leaves ok sec d (sec d) e"
  shows "\<exists>e new. fat32_write io fs path buf d = Some (int32 (length buf), e) \<and> leaves ok sec d (sec e) e \<and>
    replaced fs dir old new buf (sec d) (sec e) \<and> fat_chain fs (fat_tab fs (sec e)) dir \<and>
    find_slots (slot_entry fs (sec e)) (hd dir) name (slots fs dir) no_lfn =
      Inl (Some (f\<lparr>n_first_cluster := (if new = [] then 0 else hd new), n_size := length buf\<rparr>))"
proof -
  let ?q = "(entry_rel_sector f, entry_offset f)"
  obtain d0 where p0: "fat32_resolve io fs path d = Some (Some f, d0)" and L0: "leaves ok sec d (sec d) d0" using path by blast
  have v0: "vol_ok fs (g_total_sectors d0)" and s0: "sec d0 = sec d" using d(2) leavesD [OF L0] by simp_all
  obtain e1 e2 new where n: "alloc_chain (clusters_for fs (length buf)) io fs 0 0 d0 = (Some (if new = [] then 0 else hd new), e1)"
      "fat_write_loop io fs (if new = [] then 0 else hd new) buf e1 = Some (True, e2)"
      "leaves ok sec d0 (sec e2) e2" "replaced fs [] [] new buf (sec d) (sec e2)"
    using new_data [OF leavesD(1) [OF L0] v0 buf] space s0 by auto
  let ?first = "if new = [] then 0 else hd new"
  have v2: "vol_ok fs (g_total_sectors e2)" using v0 leavesD(3) [OF n(3)] by simp
  have newfree: "set new \<subseteq> free_clusters fs (sec d)" using n(4) by (simp add: replaced_def)
  have nn: "c \<notin> set new" if "fat_chain fs (fat_tab fs (sec d)) cs" "c \<in> set cs" for c cs
    using newfree chain_nonzero [OF that] by (auto simp: free_clusters_def)
  have tab2: "fat_tab fs (sec e2) c = fat_tab fs (sec d) c" if "cluster_ok fs c" "c \<notin> set new" for c
    using n(4) that by (simp add: replaced_def)
  have sec2: "cluster_sec fs (sec e2) c s = cluster_sec fs (sec d) c s"
    if "cluster_ok fs c" "s < sectors_per_cluster fs" "c \<notin> set new" for c s
    using n(4) that by (simp add: replaced_def)
  have slot2: "slot_entry fs (sec e2) p = slot_entry fs (sec d) p" if "p \<in> set (slots fs dir)" for p
    using sec2 nn [OF dir] chain_cluster_ok [OF dir] that by (intro slot_entry_cong [of dir]) auto
  note F = find_slots_found [OF found]
  then have q: "?q \<in> set (slots fs dir)" by blast
  then obtain c s where cs: "c \<in> set dir" "s < sectors_per_cluster fs" "entry_rel_sector f = cluster_lba fs c + s"
    and off: "entry_offset f \<in> set entry_offsets" by (auto simp: in_slots)
  have cok: "cluster_ok fs c" using chain_cluster_ok [OF dir cs(1)] .
  let ?g = "\<lambda>x. set_entry_size (length buf) (set_entry_start ?first x)"
  let ?e = "?g (slot_entry fs (sec d) ?q)"
  have el: "length (slot_entry fs (sec d) ?q) = 32"
    using entry_at_length offset_bounds [OF off] sec_length [OF d(1)] by (simp add: slot_entry_def part_sec_def)
  obtain e3 where u: "update_entry io fs f ?g e2 = (Some (), e3)"
    "leaves ok sec e2 (put_entry fs (entry_rel_sector f) (entry_offset f) ?e (sec e2)) e3"
    using update_entry [OF leavesD(1) [OF n(3)] v2 cok cs(2,3) off, of ?g] slot2 [OF q] by (auto simp: set_entry_length)
  let ?img3 = "put_entry fs (entry_rel_sector f) (entry_offset f) ?e (sec e2)"
  have s3: "sec e3 = ?img3" using leavesD(2) [OF u(2)] .
  have v3: "vol_ok fs (g_total_sectors e3)" using v2 leavesD(3) [OF u(2)] by simp
  note PV = put_entry_views [OF d(2) cok cs(2), folded cs(3), where off = "entry_offset f" and e = ?e and img = "sec e2"]
  have oldok: "cluster_ok fs x" "x \<notin> set new" if "x \<in> set old" for x
    using that old(1) chain_cluster_ok [of fs "fat_tab fs (sec d)" old x] nn by auto
  have "fat_chain fs (fat_tab fs (sec e3)) old" if "fat_chain fs (fat_tab fs (sec d)) old"
    using that PV(1) tab2 oldok by (subst chain_cong [where T = "fat_tab fs (sec d)"]) (auto simp: s3)
  then have "n_first_cluster f < 2 \<and> old = [] \<or> fat_chain fs (fat_tab fs (sec e3)) old \<and> hd old = n_first_cluster f"
    using old(1) by blast
  from release_old [OF leavesD(1) [OF u(2)] v3 this] obtain e4 where
    r: "(if n_first_cluster f \<ge> 2 then snd (fat32_free_chain io fs (n_first_cluster f) e3) else e3) = e4"
      "leaves ok sec e3 (free_img fs old (sec e3)) e4" by blast
  have s4: "sec e4 = free_img fs old ?img3" using leavesD(2) [OF r(2)] s3 by simp
  have spc: "0 < sectors_per_cluster fs" using d(2) by (simp add: vol_ok_def)
  have ok3: "sectors_ok ?img3" using sectors_ok_sec [OF leavesD(1) [OF u(2)]] s3 by simp
  note FV = free_img_views [OF d(2), where cs = old and img = ?img3]
  have tab4: "fat_tab fs (sec e4) x = (if x \<in> set old then 0 else fat_tab fs (sec e2) x)" if "cluster_ok fs x" for x
    using FV(1) [OF that spc] ok3 oldok PV(1) [OF that] by (auto simp: s4)
  have sec4: "cluster_sec fs (sec e4) x t = cluster_sec fs ?img3 x t" if "cluster_ok fs x" "t < sectors_per_cluster fs" for x t
    using FV(2) [OF that] oldok by (auto simp: s4)
  have W: "fat32_write io fs path buf d = Some (int32 (length buf), e4)"
    using p0 attr n(1,2) u(1) r(1) need_eq [OF d(2) buf] by (simp add: fat32_write_def Let_def)
  have L: "leaves ok sec d (sec e4) e4"
    using leaves_trans [OF leaves_trans [OF leaves_trans [OF L0 n(3)] u(2)] r(2)] s4 s3 by simp
  have dirtab: "fat_tab fs (sec e4) x = fat_tab fs (sec d) x" if "x \<in> set dir" for x
    using tab4 [OF chain_cluster_ok [OF dir that]] tab2 [OF chain_cluster_ok [OF dir that] nn [OF dir that]] old(2) that by auto
  have C4: "fat_chain fs (fat_tab fs (sec e4)) dir" using dir dirtab by (subst chain_cong) auto
  have newbytes: "chain_bytes fs (sec e4) new = chain_bytes fs (sec e2) new"
  proof (rule chain_bytes_cong)
    fix x t assume x: "x \<in> set new" "t < sectors_per_cluster fs"
    then have xok: "cluster_ok fs x" using newfree by (auto simp: free_clusters_def)
    have "x \<noteq> c" using nn [OF dir cs(1)] x(1) by auto
    then show "cluster_sec fs (sec e4) x t = cluster_sec fs (sec e2) x t" using sec4 [OF xok x(2)] PV(2) [OF xok _ x(2)] by simp
  qed
  have newchain: "fat_chain fs (fat_tab fs (sec e4)) new" if "new \<noteq> []"
  proof -
    have "fat_chain fs (fat_tab fs (sec e2)) new" using n(4) that by (simp add: replaced_def)
    moreover have "fat_tab fs (sec e4) x = fat_tab fs (sec e2) x" if "x \<in> set new" for x
      using tab4 [of x] chain_cluster_ok [OF calculation that] oldok(2) that by auto
    ultimately show ?thesis by (subst chain_cong) auto
  qed
  have "cluster_sec fs (sec e4) x t = cluster_sec fs (sec d) x t"
    if "cluster_ok fs x" "t < sectors_per_cluster fs" "x \<notin> set dir \<union> set new" for x t
  proof -
    have "x \<noteq> c" using cs(1) that(3) by auto
    then show ?thesis using sec4 [OF that(1,2)] PV(2) [OF that(1) _ that(2)] sec2 [OF that(1,2)] that(3) by auto
  qed
  then have R: "replaced fs dir old new buf (sec d) (sec e4)"
    using n(4) newbytes newchain tab4 tab2 by (simp add: replaced_def)
  have slot4: "slot_entry fs (sec e4) p = (if p = ?q then ?e else slot_entry fs (sec d) p)" if "p \<in> set (slots fs dir)" for p
  proof -
    have "slot_entry fs (sec e4) p = slot_entry fs ?img3 p"
      using sec4 chain_cluster_ok [OF dir] that by (intro slot_entry_cong [of dir]) auto
    moreover have "snd p \<in> set entry_offsets" using that in_slots [of "fst p" "snd p" fs dir] by simp
    ultimately show ?thesis
      using put_entry_slot [OF sectors_ok_sec [OF leavesD(1) [OF n(3)]], of ?e "entry_offset f" p fs "entry_rel_sector f"] off el slot2 [OF that]
      by (simp add: set_entry_length)
  qed
  have "\<forall>p \<in> set (slots fs dir). p \<noteq> ?q \<longrightarrow> slot_entry fs (sec e4) p = slot_entry fs (sec d) p" using slot4 by simp
  moreover have eq: "slot_entry fs (sec e4) ?q = ?e" using slot4 [OF q] by simp
  moreover have t12: "take 12 ?e = take 12 (slot_entry fs (sec d) ?q)" using el by (simp add: set_entry_take set_entry_length)
  ultimately have find4: "find_slots (slot_entry fs (sec e4)) (hd dir) name (slots fs dir) no_lfn =
      Inl (Some (found_at ?e (n_name f) (hd dir) (entry_rel_sector f) (entry_offset f)))"
    using find_slots_changed [of "slots fs dir" ?q "slot_entry fs (sec e4)" "slot_entry fs (sec d)" "hd dir" name no_lfn] F found by simp
  have "?first < 2 ^ 32"
    using newchain chain_cluster_ok [of fs "fat_tab fs (sec e4)" new "hd new"] d(2) by (auto simp: cluster_ok_def vol_ok_def)
  then have "e_first_cluster ?e = ?first" "e_file_size ?e = length buf"
    using set_entry_fields [OF el] set_entry_fields(2) [OF set_entry_length(1) [OF el]] buf by simp_all
  moreover have "e_attr ?e = e_attr (slot_entry fs (sec d) ?q)" using take_12_nth [OF t12, of 11] by (simp add: e_attr_def)
  ultimately have "found_at ?e (n_name f) (hd dir) (entry_rel_sector f) (entry_offset f) =
      f\<lparr>n_first_cluster := ?first, n_size := length buf\<rparr>"
    using F by (cases f) (simp add: found_at_def)
  then show ?thesis using W L R C4 find4 by metis
qed

end

context sector_disk
begin

text \<open>A name in the root directory.\<close>

lemma resolve_name:
  assumes "ok d" "vol_ok fs (g_total_sectors d)" "fat_chain fs (fat_tab fs (sec d)) dir" "hd dir = root_cluster fs"
    "CHR ''/'' \<notin> set name" "length name \<le> 255" "name \<noteq> []"
  shows "\<exists>e. fat32_resolve io fs (CHR ''/'' # name) d =
      Some (case find_slots (slot_entry fs (sec d)) (hd dir) name (slots fs dir) no_lfn of Inl r \<Rightarrow> r | Inr _ \<Rightarrow> None, e) \<and>
    leaves ok sec d (sec d) e"
  using dir_find [OF assms(1-3), of name] resolve_root_name [OF assms(5-7)] assms(4) by metis

lemma read_named:
  assumes d: "ok d" "vol_ok fs (g_total_sectors d)"
    and path: "\<exists>e. fat32_resolve io fs path d = Some (Some f, e) \<and> leaves ok sec d (sec d) e"
    and f: "n_attr f AND FAT32_ATTR_DIR = 0"
      "cs = [] \<and> n_first_cluster f < 2 \<and> n_size f = 0 \<or> fat_chain fs (fat_tab fs (sec d)) cs \<and> hd cs = n_first_cluster f"
      "n_size f \<le> 512 * sectors_per_cluster fs * length cs"
  shows "\<exists>e. fat32_read io fs path sz d =
      Some ((int32 (min sz (n_size f)), take (min sz (n_size f)) (chain_bytes fs (sec d) cs)), e) \<and> leaves ok sec d (sec d) e"
proof -
  obtain d0 where p0: "fat32_resolve io fs path d = Some (Some f, d0)" and L0: "leaves ok sec d (sec d) d0" using path by blast
  have v0: "vol_ok fs (g_total_sectors d0)" and s0: "sec d0 = sec d" using d(2) leavesD [OF L0] by simp_all
  show ?thesis
  proof (cases "cs = []")
    case True
    then show ?thesis using p0 L0 f by (auto simp: fat32_read_def int32_def)
  next
    case False
    then have C: "fat_chain fs (fat_tab fs (sec d0)) cs" "hd cs = n_first_cluster f" using f(2) s0 by auto
    have "\<not> n_first_cluster f < 2" using C(2) chain_cluster_ok [OF C(1) hd_in_set [OF False]] by (simp add: cluster_ok_def)
    moreover obtain e where l: "fat_read_loop io fs (hd cs) sz (n_size f) [] d0 =
        Some (True, take (min sz (n_size f)) (chain_bytes fs (sec d) cs), e)" "leaves ok sec d0 (sec d) e"
      using fat_read_loop [OF leavesD(1) [OF L0] v0 C(1), of "[]" sz "n_size f"] min.coboundedI2 [OF f(3), of sz] s0 by auto
    moreover have "length (take (min sz (n_size f)) (chain_bytes fs (sec d) cs)) = min sz (n_size f)"
      using chain_bytes_length [OF sectors_ok_sec [OF d(1)], of fs cs] f(3) by simp
    ultimately show ?thesis using p0 f(1) C(2) leaves_trans [OF L0 l(2)] by (simp add: fat32_read_def)
  qed
qed

text \<open>A chain that leads back to itself: the scan of a directory without an end mark and without the name
  never returns.\<close>

lemma find_endless:
  assumes "vol_ok fs tot" "cluster_ok fs c" "fat_tab fs img c = c"
    "\<And>lfn. \<exists>lfn1. find_slots (slot_entry fs img) dir name (cluster_slots fs c 0) lfn = Inr lfn1"
    and d: "ok d" "g_total_sectors d = tot" "sec d = img"
  shows "find_loop io fs dir name c lfn d = None"
proof -
  have "\<not> (i' = io \<and> f' = fs \<and> dir' = dir \<and> n' = name \<and> c' = c \<and> ok d' \<and> g_total_sectors d' = tot \<and> sec d' = img)"
    if "find_loop i' f' dir' n' c' l' d' = Some r" for i' f' dir' n' c' l' d' r
  proof (rule find_loop.raw_induct [OF _ that, of
        "\<lambda>i' f' dir' n' c' l' d' r. \<not> (i' = io \<and> f' = fs \<and> dir' = dir \<and> n' = name \<and> c' = c \<and> ok d' \<and> g_total_sectors d' = tot \<and> sec d' = img)"])
    fix loop i' f' dir' n' c' l' d' r
    assume IH: "\<And>i' f' dir' n' c' l' d' r. loop i' f' dir' n' c' l' d' = Some r \<Longrightarrow>
        \<not> (i' = io \<and> f' = fs \<and> dir' = dir \<and> n' = name \<and> c' = c \<and> ok d' \<and> g_total_sectors d' = tot \<and> sec d' = img)"
      and step: "(if c' < 2 \<or> fat32_is_eoc c' then Some (None, d')
          else case find_in_cluster i' f' dir' n' (fat32_cluster_to_rel_lba f' c') [0..<sectors_per_cluster f'] l' d' of
            (Inl r, e) \<Rightarrow> Some (r, e)
          | (Inr lfn1, e) \<Rightarrow> (case fat32_fat_get i' f' c' e of
               (None, e1) \<Rightarrow> Some (None, e1) | (Some nxt, e1) \<Rightarrow> loop i' f' dir' n' nxt lfn1 e1)) = Some r"
    show "\<not> (i' = io \<and> f' = fs \<and> dir' = dir \<and> n' = name \<and> c' = c \<and> ok d' \<and> g_total_sectors d' = tot \<and> sec d' = img)"
    proof
      assume A: "i' = io \<and> f' = fs \<and> dir' = dir \<and> n' = name \<and> c' = c \<and> ok d' \<and> g_total_sectors d' = tot \<and> sec d' = img"
      then have v: "vol_ok fs (g_total_sectors d')" and ok': "ok d'" using assms(1) by simp_all
      have spc: "0 < sectors_per_cluster fs" using v by (simp add: vol_ok_def)
      obtain lfn1 where "find_slots (slot_entry fs img) dir name (cluster_slots fs c 0) l' = Inr lfn1" using assms(4) by blast
      then obtain e where f: "find_in_cluster io fs dir name (cluster_lba fs c) [0..<sectors_per_cluster fs] l' d' = (Inr lfn1, e)"
          "leaves ok sec d' img e"
        using find_in_cluster [OF v assms(2) ok', of 0 "sectors_per_cluster fs" dir name l'] A by auto
      have v1: "vol_ok fs (g_total_sectors e)" using v leavesD(3) [OF f(2)] by simp
      obtain e1 where g: "fat32_fat_get io fs c e = (Some c, e1)" "leaves ok sec e img e1"
        using fat_get [OF leavesD(1) [OF f(2)] v1 assms(2)] leavesD(2) [OF f(2)] assms(3) by auto
      have "loop io fs dir name c lfn1 e1 = Some r"
        using step A f(1) g(1) cluster_not_end [OF v assms(2)] cluster_bounds(1) [OF v assms(2) spc] by simp
      from IH [OF this] show False using leaves_trans [OF f(2) g(2)] A by (simp add: leaves_def same_tables_def)
    qed
  qed
  then have "find_loop io fs dir name c lfn d \<noteq> Some r" for r using d by blast
  then show ?thesis by (cases "find_loop io fs dir name c lfn d") blast+
qed

end

end
