(* ===== verification/Fat32_Props.thy ===== *)
theory Fat32_Props
  imports Fat32_File
begin

section \<open>The FAT32 file system: properties\<close>

text \<open>
  The properties hold on every \<open>sector_disk\<close>; their witnesses use the drive of \<open>Ata_Drive\<close> with a small
  volume: one reserved sector, two tables of one sector, clusters of one sector, the root directory in
  cluster 2 with the file \<^verbatim>\<open>a.txt\<close>.
\<close>

unbundle bit_operations_syntax

subsection \<open>A small volume\<close>

definition fat_demo_fs :: fat32_fs where
  "fat_demo_fs = \<lparr>disk_kind = 0, disk_index = 0, part_start_lba = 0, part_total_sectors = 10, bytes_per_sector = 512,
     sectors_per_cluster = 1, reserved_sectors = 1, num_fats = 2, fat_size_sectors = 1, root_cluster = 2,
     fat_start_lba = 1, data_start_lba = 3\<rparr>"

text \<open>Both tables name cluster \<open>v\<close> behind the root directory, whose sector is \<open>root\<close>.\<close>

definition fat_demo_img :: "nat \<Rightarrow> byte list \<Rightarrow> nat \<Rightarrow> byte list" where
  "fat_demo_img v root a = (if a = 1 \<or> a = 2 then patch (replicate 512 NUL) 8 (le32 v) else if a = 3 then root else replicate 512 NUL)"

definition fat_demo_volume :: "(nat \<Rightarrow> byte list) \<Rightarrow> ata_drive disk" where
  "fat_demo_volume img = \<lparr>dk_port = \<lparr>dr_store = (\<lambda>a. byte_words (img a)), dr_sectors = 10, dr_latency = 7, dr_busy = 3,
     dr_phase = Drive_ready, dr_count = 0, dr_lba0 = 0, dr_lba1 = 0, dr_lba2 = 0, dr_select = 0\<rparr>,
     g_total_sectors = 10, g_disk_parts = []\<rparr>"

lemma fat_demo_volume:
  assumes "sectors_ok img"
  shows "disk_ok (fat_demo_volume img)" "disk_sector (fat_demo_volume img) = img" "g_total_sectors (fat_demo_volume img) = 10"
proof -
  show "disk_ok (fat_demo_volume img)" "g_total_sectors (fat_demo_volume img) = 10"
    using assms by (simp_all add: fat_demo_volume_def disk_ok_def drive_ok_def byte_words_length sectors_ok_def)
  show "disk_sector (fat_demo_volume img) = img"
    using assms by (auto simp: fat_demo_volume_def disk_sector_def word_bytes_byte_words sectors_ok_def fun_eq_iff)
qed

lemma fat_demo_fs_simps [simp]:
  "disk_kind fat_demo_fs = 0" "part_start_lba fat_demo_fs = 0" "part_total_sectors fat_demo_fs = 10" "bytes_per_sector fat_demo_fs = 512"
  "sectors_per_cluster fat_demo_fs = 1" "num_fats fat_demo_fs = 2" "fat_size_sectors fat_demo_fs = 1" "root_cluster fat_demo_fs = 2"
  "fat_start_lba fat_demo_fs = 1" "data_start_lba fat_demo_fs = 3"
  by (simp_all add: fat_demo_fs_def)

lemma fat_demo_max_cluster [simp]: "fat32_max_cluster fat_demo_fs = 8"
  by (simp add: fat32_max_cluster_def add32_def)

lemma fat_demo_vol_ok: "vol_ok fat_demo_fs 10"
  by (simp add: vol_ok_def FAT32_DISK_ATA_def)

lemma fat_demo_img_ok: "length root = 512 \<Longrightarrow> sectors_ok (fat_demo_img v root)"
  by (simp add: sectors_ok_def fat_demo_img_def patch_length)

lemma fat_demo_tab:
  assumes "v < 2 ^ 32" "cluster_ok fat_demo_fs c"
  shows "fat_tab fat_demo_fs (fat_demo_img v root) c = (if c = 2 then v mod 2 ^ 28 else 0)"
proof -
  have c: "2 \<le> c" "c \<le> 8" using assms(2) by (simp_all add: cluster_ok_def)
  then have T: "part_sec fat_demo_fs (fat_demo_img v root) (fat_lba fat_demo_fs 0 c) = patch (replicate 512 NUL) 8 (le32 v)"
    by (simp add: part_sec_def fat_lba_def fat_demo_img_def)
  have "rd_le32 (patch (replicate 512 NUL) 8 (le32 v)) (4 * c) = (if c = 2 then v else rd_le32 (replicate 512 NUL) (4 * c))"
  proof (cases "c = 2")
    case True
    then show ?thesis using rd_le32_patch(1) [of 8 "replicate 512 NUL" 8 v] assms(1) by simp
  next
    case False
    then show ?thesis using c rd_le32_patch(2) [of 8 "replicate 512 NUL" "4 * c" v] assms(1) by simp
  qed
  moreover have "rd_le32 (replicate 512 NUL) (4 * c) = 0" using c by (simp add: rd_le32_def)
  ultimately show ?thesis using c by (simp add: fat_tab_def fat_entry_def T)
qed

lemma fat_demo_chain: "fat_chain fat_demo_fs (fat_tab fat_demo_fs (fat_demo_img FAT32_EOC root)) [2]"
  using fat_demo_tab [of FAT32_EOC 2] by (simp add: cluster_ok_def FAT32_EOC_def fat32_is_eoc_def)

lemma fat_demo_free: "v < 2 ^ 28 \<Longrightarrow> v \<noteq> 0 \<Longrightarrow> free_clusters fat_demo_fs (fat_demo_img v root) = {3..8}"
  using fat_demo_tab [of v] by (auto simp: free_clusters_def cluster_ok_def split: if_splits)

text \<open>The root directory with one entry, \<^verbatim>\<open>a.txt\<close>.\<close>

definition fat_demo_root :: "byte list" where
  "fat_demo_root = fat32_fill_dirent ''A       TXT'' FAT32_ATTR_ARCHIVE 0 0 @ replicate 480 NUL"

lemma fat_demo_root_length: "length fat_demo_root = 512"
  by (simp add: fat_demo_root_def fat32_fill_dirent_def)

lemma fat_demo_first_slot: "slots fat_demo_fs [2] = (3, 0) # map (\<lambda>i. (3, 32 * i)) [1..<16]"
  by (simp add: slots_def cluster_slots_def cluster_lba_def entry_offsets_def upt_rec)

definition fat_demo_file :: fat32_found where
  "fat_demo_file = \<lparr>n_attr = 0x20, n_first_cluster = 0, n_size = 0, n_name = ''a.txt'', owner_dir_cluster = 2,
     entry_rel_sector = 3, entry_offset = 0\<rparr>"

lemma fat_demo_find: "find_slots (slot_entry fat_demo_fs (fat_demo_img v fat_demo_root)) 2 ''a.txt'' (slots fat_demo_fs [2]) no_lfn = Inl (Some fat_demo_file)"
proof -
  have e: "slot_entry fat_demo_fs (fat_demo_img v fat_demo_root) (3, 0) = fat32_fill_dirent ''A       TXT'' FAT32_ATTR_ARCHIVE 0 0"
    by (simp add: slot_entry_def part_sec_def fat_demo_img_def fat_demo_root_def entry_at_def fat32_fill_dirent_def)
  have "classify (fat32_fill_dirent ''A       TXT'' FAT32_ATTR_ARCHIVE 0 0) no_lfn = Dir_entry ''a.txt''"
    by (simp add: classify_def fat32_fill_dirent_def e_attr_def byte_of_def FAT32_ATTR_ARCHIVE_def FAT32_ATTR_LFN_def
        FAT32_ATTR_VOLUME_ID_def entry_name_def no_lfn_def decode_short_name_def ascii_tolower_def char_of_def bit_0)
  moreover have "found_at (fat32_fill_dirent ''A       TXT'' FAT32_ATTR_ARCHIVE 0 0) ''a.txt'' 2 3 0 = fat_demo_file"
    by (simp add: fat_demo_file_def found_at_def fat32_fill_dirent_def e_attr_def byte_of_def FAT32_ATTR_ARCHIVE_def e_first_cluster_def
        e_file_size_def rd_le32_def le16_def le32_def char_of_def bit_0 nth_append)
  ultimately show ?thesis by (simp add: fat_demo_first_slot e)
qed

subsection \<open>Files\<close>

lemma int32_nat: "n < 2 ^ 31 \<Longrightarrow> int32 n = int n"
  by (simp add: int32_def sint_uint unsigned_of_nat take_bit_nat_eq_self signed_take_bit_int_eq_self)

text \<open>A chain outside the directory and the old contents.\<close>

lemma replaced_frame:
  assumes "replaced fs dir old new buf img img'" "fat_chain fs (fat_tab fs img) cs" "set cs \<inter> (set dir \<union> set old) = {}"
  shows "fat_chain fs (fat_tab fs img') cs \<and> chain_bytes fs img' cs = chain_bytes fs img cs"
proof
  have notnew: "c \<notin> set new" if "c \<in> set cs" for c
    using assms(1) chain_nonzero [OF assms(2) that] by (auto simp: replaced_def free_clusters_def)
  then have "\<forall>c \<in> set cs. fat_tab fs img' c = fat_tab fs img c"
    using assms(1,3) chain_cluster_ok [OF assms(2)] by (auto simp: replaced_def)
  then show "fat_chain fs (fat_tab fs img') cs" using assms(2) by (subst chain_cong) auto
  show "chain_bytes fs img' cs = chain_bytes fs img cs"
  proof (rule chain_bytes_cong)
    fix c s assume c: "c \<in> set cs" "s < sectors_per_cluster fs"
    then have "c \<notin> set dir \<union> set new" using assms(3) notnew by auto
    then show "cluster_sec fs img' c s = cluster_sec fs img c s"
      using assms(1) chain_cluster_ok [OF assms(2) c(1)] c(2) unfolding replaced_def by blast
  qed
qed



subsection \<open>Clusters\<close>



text \<open>C21: \<^verbatim>\<open>fat32_free_chain\<close> frees exactly the clusters of the chain that starts at its argument; every other entry and the
  contents of all clusters stay.\<close>

theorem fat32_free_chain_frees:
  assumes "sector_disk io ok sec" "ok d" "vol_ok fs (g_total_sectors d)" "fat_chain fs (fat_tab fs (sec d)) cs"
  shows "\<exists>e. fat32_free_chain io fs (hd cs) d = (Some (), e) \<and> ok e \<and>
    free_clusters fs (sec e) = free_clusters fs (sec d) \<union> set cs \<and>
    (\<forall>c. cluster_ok fs c \<longrightarrow> cluster_bytes fs (sec e) c = cluster_bytes fs (sec d) c \<and>
       (c \<notin> set cs \<longrightarrow> fat_tab fs (sec e) c = fat_tab fs (sec d) c))"
proof -
  obtain e where e: "fat32_free_chain io fs (hd cs) d = (Some (), e)" "leaves ok sec d (free_img fs cs (sec d)) e"
    using sector_disk.free_chain [OF assms] by blast
  have spc: "0 < sectors_per_cluster fs" using assms(3) by (simp add: vol_ok_def)
  have ck: "\<forall>c \<in> set cs. cluster_ok fs c" using chain_cluster_ok [OF assms(4)] by blast
  have T: "fat_tab fs (free_img fs cs (sec d)) c = (if c \<in> set cs then 0 else fat_tab fs (sec d) c)" if "cluster_ok fs c" for c
    using free_img_views(1) [OF assms(3) that spc sector_disk.sectors_ok_sec [OF assms(1,2)] ck] .
  have "cluster_bytes fs (free_img fs cs (sec d)) c = cluster_bytes fs (sec d) c" if "cluster_ok fs c" for c
    using free_img_views(2) [OF assms(3) that _ ck] by (intro cluster_bytes_cong) simp
  moreover have "free_clusters fs (free_img fs cs (sec d)) = free_clusters fs (sec d) \<union> set cs"
    using T ck by (auto simp: free_clusters_def)
  ultimately show ?thesis using e(1) leavesD(1,2) [OF e(2)] T by auto
qed

theorem fat32_free_chain_frees_witness:
  "\<exists>e. fat32_free_chain drive_ports fat_demo_fs 2 (fat_demo_volume (fat_demo_img FAT32_EOC fat_demo_root)) = (Some (), e) \<and>
     2 \<in> free_clusters fat_demo_fs (disk_sector e)"
proof -
  note D = fat_demo_volume [OF fat_demo_img_ok [OF fat_demo_root_length, of FAT32_EOC]]
  show ?thesis
    using fat32_free_chain_frees [OF ata.sector_disk_axioms D(1), of fat_demo_fs "[2]"] fat_demo_vol_ok fat_demo_chain D by auto
qed

subsection \<open>Looking up names\<close>

text \<open>C14: on a directory whose clusters form a chain, \<^verbatim>\<open>fat32_dir_find\<close> returns, whatever the sectors contain, and computes
  what \<open>find_slots\<close> finds in the sequence of its entries; the disk keeps its contents.\<close>

theorem fat32_dir_find_refines:
  assumes "sector_disk io ok sec" "ok d" "vol_ok fs (g_total_sectors d)" "fat_chain fs (fat_tab fs (sec d)) cs"
  shows "\<exists>e. fat32_dir_find io fs (hd cs) name d =
      Some (case find_slots (slot_entry fs (sec d)) (hd cs) name (slots fs cs) no_lfn of Inl r \<Rightarrow> r | Inr _ \<Rightarrow> None, e) \<and>
    ok e \<and> sec e = sec d"
  using sector_disk.dir_find [OF assms] by (auto simp: leaves_def)

theorem fat32_dir_find_refines_witness:
  "\<exists>e. fat32_dir_find drive_ports fat_demo_fs 2 ''a.txt'' (fat_demo_volume (fat_demo_img FAT32_EOC fat_demo_root)) = Some (Some fat_demo_file, e)"
proof -
  note D = fat_demo_volume [OF fat_demo_img_ok [OF fat_demo_root_length, of FAT32_EOC]]
  show ?thesis
    using fat32_dir_find_refines [OF ata.sector_disk_axioms D(1), of fat_demo_fs "[2]" "''a.txt''"] fat_demo_vol_ok fat_demo_chain fat_demo_find D by auto
qed

text \<open>when the entry of a directory's cluster in the table names the same cluster and no sector of it holds an end
  mark or the name, \<^verbatim>\<open>fat32_dir_find\<close> never returns: the loop has no bound.\<close>

theorem fat32_dir_find_endless:
  assumes "sector_disk io ok sec" "ok d" "vol_ok fs (g_total_sectors d)" "cluster_ok fs c" "fat_tab fs (sec d) c = c"
    "\<And>lfn. \<exists>lfn1. find_slots (slot_entry fs (sec d)) c name (cluster_slots fs c 0) lfn = Inr lfn1"
  shows "fat32_dir_find io fs c name d = None"
  unfolding fat32_dir_find_def by (rule sector_disk.find_endless [OF assms(1,3-6,2) refl refl])

text \<open>Sixteen deleted entries.\<close>

theorem fat32_dir_find_endless_witness:
  "fat32_dir_find drive_ports fat_demo_fs 2 ''a.txt'' (fat_demo_volume (fat_demo_img 2 (replicate 512 (CHR 0xE5)))) = None"
proof -
  let ?img = "fat_demo_img 2 (replicate 512 (CHR 0xE5))"
  note D = fat_demo_volume [OF fat_demo_img_ok [of "replicate 512 (CHR 0xE5)" 2]]
  have "classify (slot_entry fat_demo_fs ?img p) lfn = Dir_skip no_lfn" if "p \<in> set (cluster_slots fat_demo_fs 2 0)" for p lfn
  proof -
    have p: "fst p = 3" "snd p \<in> set entry_offsets" using that by (auto simp: cluster_slots_def cluster_lba_def)
    have "32 \<le> 512 - snd p" using offset_bounds [OF p(2)] by arith
    then have "slot_entry fat_demo_fs ?img p = replicate 32 (CHR 0xE5)" using p(1)
      by (simp add: slot_entry_def part_sec_def fat_demo_img_def entry_at_def min_def)
    then show ?thesis by (simp add: classify_def)
  qed
  then have "\<exists>lfn1. find_slots (slot_entry fat_demo_fs ?img) 2 ''a.txt'' ps lfn = Inr lfn1"
    if "set ps \<subseteq> set (cluster_slots fat_demo_fs 2 0)" for ps lfn
    using that by (induction ps arbitrary: lfn) auto
  then show ?thesis
    using fat32_dir_find_endless [OF ata.sector_disk_axioms D(1), of fat_demo_fs 2 "''a.txt''"] fat_demo_vol_ok fat_demo_tab [of 2 2] D
    by (simp add: cluster_ok_def)
qed

subsection \<open>Short names\<close>

lemma name_char_cases:
  assumes "fat32_is_name_char c"
  shows "c \<noteq> CHR '' ''" "c \<noteq> NUL" "c \<noteq> CHR ''.''" "ascii_toupper c \<noteq> CHR '' ''" "ascii_tolower (ascii_toupper c) = ascii_tolower c"
    "ascii_tolower c \<noteq> NUL"
proof -
  let ?n = "of_char c :: nat"
  have of_c: "char_of ?n = c" by simp
  have N: "97 \<le> ?n \<and> ?n \<le> 122 \<or> 65 \<le> ?n \<and> ?n \<le> 90 \<or> 48 \<le> ?n \<and> ?n \<le> 57 \<or> ?n \<in> {95, 45, 36, 126}"
    using assms by (auto simp: fat32_is_name_char_def Let_def)
  have ne: "c \<noteq> d" if "?n \<noteq> of_char d" for d using that by auto
  show "c \<noteq> CHR '' ''" "c \<noteq> NUL" "c \<noteq> CHR ''.''" using N by (auto intro!: ne)
  have "(?n - 32) mod 256 = ?n - 32" using N by auto
  then have up: "of_char (ascii_toupper c) = (if 97 \<le> ?n \<and> ?n \<le> 122 then ?n - 32 else ?n)"
    by (simp add: ascii_toupper_def)
  have lo: "of_char (ascii_tolower d) = (if 65 \<le> (of_char d :: nat) \<and> (of_char d :: nat) \<le> 90 then of_char d + 32 else (of_char d :: nat))" for d
    by (simp add: ascii_tolower_def)
  have "of_char (ascii_toupper c) \<noteq> (32 :: nat)" using N unfolding up by auto
  then show "ascii_toupper c \<noteq> CHR '' ''" by auto
  have "(of_char (ascii_tolower (ascii_toupper c)) :: nat) = of_char (ascii_tolower c)" unfolding lo up using N by auto
  then show "ascii_tolower (ascii_toupper c) = ascii_tolower c" by simp
  have "of_char (ascii_tolower c) \<noteq> (0 :: nat)" unfolding lo using N by auto
  then show "ascii_tolower c \<noteq> NUL" by auto
qed

text \<open>A name without a dot, or one with one dot: what the loop collects.\<close>

lemma short_name_ext:
  "short_name_loop cs True base ext = Some (b, e) \<Longrightarrow>
   b = base \<and> e = ext @ map ascii_toupper cs \<and> (\<forall>c \<in> set cs. fat32_is_name_char c) \<and> (length ext \<le> 3 \<longrightarrow> length e \<le> 3)"
proof (induction cs arbitrary: ext)
  case (Cons c cs)
  then have "fat32_is_name_char c" "\<not> length ext \<ge> 3" "short_name_loop cs True base (ext @ [ascii_toupper c]) = Some (b, e)"
    by (simp_all split: if_splits)
  then show ?case using Cons.IH [of "ext @ [ascii_toupper c]"] by auto
qed simp

lemma short_name_parts:
  "short_name_loop cs False base [] = Some (b, e) \<Longrightarrow> length base \<le> 8 \<Longrightarrow>
   \<exists>xs ys. (cs = xs \<and> ys = [] \<or> cs = xs @ CHR ''.'' # ys) \<and> b = base @ map ascii_toupper xs \<and> e = map ascii_toupper ys \<and>
     (\<forall>c \<in> set xs \<union> set ys. fat32_is_name_char c) \<and> length b \<le> 8 \<and> length e \<le> 3"
proof (induction cs arbitrary: base)
  case (Cons c cs)
  show ?case
  proof (cases "c = CHR ''.''")
    case True
    then have "b = base \<and> e = map ascii_toupper cs \<and> (\<forall>c \<in> set cs. fat32_is_name_char c) \<and> length e \<le> 3"
      using short_name_ext [of cs base "[]" b e] Cons.prems(1) by (auto simp del: length_map)
    then show ?thesis using Cons.prems(2) True by - (rule exI [of _ "[]"], rule exI [of _ cs], auto)
  next
    case False
    then have c: "fat32_is_name_char c" "\<not> length base \<ge> 8" "short_name_loop cs False (base @ [ascii_toupper c]) [] = Some (b, e)"
      using Cons.prems(1) by (simp_all split: if_splits)
    then obtain xs ys where "cs = xs \<and> ys = [] \<or> cs = xs @ CHR ''.'' # ys" "b = (base @ [ascii_toupper c]) @ map ascii_toupper xs"
        "e = map ascii_toupper ys" "\<forall>c \<in> set xs \<union> set ys. fat32_is_name_char c" "length b \<le> 8" "length e \<le> 3"
      using Cons.IH [OF c(3)] c(2) by (metis length_append_singleton not_less_eq_eq)
    then show ?thesis using c(1) by - (rule exI [of _ "c # xs"], rule exI [of _ ys], auto)
  qed
qed simp

lemma name_eq_ci_lower: "name_eq_ci xs ys \<longleftrightarrow> map ascii_tolower xs = map ascii_tolower ys"
  by (induction xs ys rule: name_eq_ci.induct) auto

lemma padded:
  assumes "\<forall>c \<in> set xs. fat32_is_name_char c" "length xs \<le> n"
  shows "takeWhile ((\<noteq>) CHR '' '') (pad_name n (map ascii_toupper xs)) = map ascii_toupper xs"
    "map ascii_tolower (map ascii_toupper xs) = map ascii_tolower xs" "NUL \<notin> set (map ascii_tolower xs)"
proof -
  have "takeWhile ((\<noteq>) CHR '' '') (replicate k (CHR '' '')) = []" for k by (cases k) simp_all
  moreover have "\<forall>c \<in> set (map ascii_toupper xs). CHR '' '' \<noteq> c" using assms(1) name_char_cases(4) by fastforce
  ultimately show "takeWhile ((\<noteq>) CHR '' '') (pad_name n (map ascii_toupper xs)) = map ascii_toupper xs"
    unfolding pad_name_def by (subst takeWhile_append2) auto
  show "map ascii_tolower (map ascii_toupper xs) = map ascii_tolower xs" using assms(1) name_char_cases(5) by simp
  show "NUL \<notin> set (map ascii_tolower xs)" using assms(1) name_char_cases(6) by fastforce
qed

text \<open>the name under which an entry made from a short name is found again is the name it was created with, apart
  from the case of letters \<open>-\<close> and from a dot at the end, which is lost.\<close>

theorem fat32_short_name_roundtrip:
  assumes "fat32_make_short_name name = Some short_name"
  shows "length short_name = 11 \<and>
    name_eq_ci (decode_short_name (fat32_fill_dirent short_name attr c n)) (if last name = CHR ''.'' then butlast name else name)"
proof -
  obtain b e where l: "short_name_loop name False [] [] = Some (b, e)" "b \<noteq> []" and s: "short_name = pad_name 8 b @ pad_name 3 e"
    using assms by (auto simp: fat32_make_short_name_def split: if_splits option.splits prod.splits)
  obtain xs ys where p: "name = xs \<and> ys = [] \<or> name = xs @ CHR ''.'' # ys" "b = map ascii_toupper xs" "e = map ascii_toupper ys"
      "\<forall>c \<in> set xs \<union> set ys. fat32_is_name_char c" "length b \<le> 8" "length e \<le> 3"
    using short_name_parts [OF l(1)] unfolding append_Nil list.size(3) by blast
  have len: "length (pad_name 8 b) = 8" "length (pad_name 3 e) = 3" using p(5,6) by (simp_all add: pad_name_def)
  let ?d = "fat32_fill_dirent short_name attr c n"
  have d: "take 8 ?d = pad_name 8 b" "take 3 (drop 8 ?d) = pad_name 3 e" "?d ! 8 = pad_name 3 e ! 0"
    using len by (simp_all add: fat32_fill_dirent_def s nth_append)
  have xs: "takeWhile ((\<noteq>) CHR '' '') (pad_name 8 b) = b" "map ascii_tolower b = map ascii_tolower xs" "NUL \<notin> set (map ascii_tolower xs)"
    using padded [of xs 8] p by auto
  have ys: "takeWhile ((\<noteq>) CHR '' '') (pad_name 3 e) = e" "map ascii_tolower e = map ascii_tolower ys" "NUL \<notin> set (map ascii_tolower ys)"
    using padded [of ys 3] p by auto
  have first: "pad_name 3 e ! 0 \<noteq> CHR '' '' \<longleftrightarrow> ys \<noteq> []"
    using p(3,4) name_char_cases(4) by (cases ys) (auto simp: pad_name_def)
  have cs: "cstring zs = zs" if "NUL \<notin> set zs" for zs using that by (intro takeWhile_eq_all_conv [THEN iffD2]) auto
  have D: "decode_short_name ?d = map ascii_tolower xs @ (if ys \<noteq> [] then CHR ''.'' # map ascii_tolower ys else [])"
    unfolding decode_short_name_def d xs ys first using xs(3) ys(3) by (subst cs) auto
  have low: "map ascii_tolower (map ascii_tolower zs) = map ascii_tolower zs" if "set zs \<subseteq> set xs \<union> set ys" for zs
    by (auto simp: ascii_tolower_def)
  have dot: "ascii_tolower (CHR ''.'') = CHR ''.''" by (simp add: ascii_tolower_def)
  have "xs \<noteq> []" using l(2) p(2) by auto
  have lx: "last xs \<noteq> CHR ''.''" if "xs \<noteq> []" using p(4) that name_char_cases(3) [of "last xs"] by auto
  have ly: "last ys \<noteq> CHR ''.''" if "ys \<noteq> []" using p(4) that name_char_cases(3) [of "last ys"] by auto
  have "length short_name = 11" using s len by simp
  moreover have "name_eq_ci (decode_short_name ?d) (if last name = CHR ''.'' then butlast name else name)"
    using p(1) low [of xs] low [of ys] dot \<open>xs \<noteq> []\<close> lx ly unfolding D name_eq_ci_lower
    by (cases "ys = []") (auto simp: butlast_append)
  ultimately show ?thesis by blast
qed

theorem fat32_short_name_roundtrip_witness:
  "name_eq_ci (decode_short_name (fat32_fill_dirent ''README  TXT'' FAT32_ATTR_ARCHIVE 0 0)) ''ReadMe.txt'' \<and>
   name_eq_ci (decode_short_name (fat32_fill_dirent ''README     '' FAT32_ATTR_ARCHIVE 0 0)) ''readme''"
proof -
  have "replicate 2 (CHR '' '') = ''  ''" "replicate 3 (CHR '' '') = ''   ''" by (simp_all add: numeral_eq_Suc)
  then have "fat32_make_short_name ''ReadMe.txt'' = Some ''README  TXT''" "fat32_make_short_name ''readme.'' = Some ''README     ''"
    by (simp_all add: fat32_make_short_name_def pad_name_def ascii_toupper_def fat32_is_name_char_def char_of_def bit_0)
  from this [THEN fat32_short_name_roundtrip] show ?thesis by simp
qed

end
