(* ===== verification/User_Mem.thy ===== *)
theory User_Mem
  imports Byte_Lists
begin

section \<open>Memory as a task sees it\<close>

text \<open>
  The kernel reads and writes user memory through the pointers of the running task.  With paging on,
  an address is translated by the entry of the page directory that the processor has loaded (pages
  of 4 MB, which is all \<^verbatim>\<open>mm.c\<close> creates): the kernel's directory maps every page to itself, that of a
  task maps the user page to its slot.
\<close>

definition virt :: "mm_state \<Rightarrow> addr \<Rightarrow> addr" where
  "virt h v = (if \<not> paging_enabled h then v
     else load32 (mm_mem h) (cr3 h + 4 * (v div 2 ^ 22)) div 2 ^ 22 * 2 ^ 22 + v mod 2 ^ 22)"

definition seen :: "mm_state \<Rightarrow> mem" where
  "seen h = (\<lambda>v. mm_mem h (virt h v))"

definition uget :: "mm_state \<Rightarrow> addr \<Rightarrow> nat \<Rightarrow> byte list" where
  "uget h a n = get_bytes (seen h) a n"

definition uload16 :: "mm_state \<Rightarrow> addr \<Rightarrow> nat" where
  "uload16 h a = of_char (seen h a) + 256 * of_char (seen h (a + 1))"

definition uload32 :: "mm_state \<Rightarrow> addr \<Rightarrow> nat" where
  "uload32 h a = load32 (seen h) a"

definition uput :: "addr \<Rightarrow> byte list \<Rightarrow> mm_state \<Rightarrow> mm_state" where
  "uput a bs h = h\<lparr>mm_mem := fold (\<lambda>i m. m(virt h (a + i) := bs ! i)) [0..<length bs] (mm_mem h)\<rparr>"

definition ustore32 :: "addr \<Rightarrow> nat \<Rightarrow> mm_state \<Rightarrow> mm_state" where
  "ustore32 a v h = uput a (le32 v) h"

subsection \<open>The user page\<close>

text \<open>The user page lies at \<open>phys\<close>, away from the page directory.\<close>

definition user_at :: "mm_state \<Rightarrow> addr \<Rightarrow> bool" where
  "user_at h phys \<longleftrightarrow> paging_enabled h \<and> load32 (mm_mem h) (cr3 h + 4) div 2 ^ 22 * 2 ^ 22 = phys \<and>
     (cr3 h + 4096 \<le> phys \<or> phys + USER_VADDR_SIZE \<le> cr3 h)"

definition in_user :: "addr \<Rightarrow> nat \<Rightarrow> bool" where
  "in_user a n \<longleftrightarrow> USER_VADDR_BASE \<le> a \<and> a + n \<le> USER_VADDR_BASE + USER_VADDR_SIZE"

lemma virt_user:
  assumes "user_at h phys" "in_user a (Suc n)"
  shows "virt h a = phys + (a - USER_VADDR_BASE)"
proof -
  obtain k where a: "a = 2 ^ 22 + k" "k < 2 ^ 22"
    using assms(2) by (intro that [of "a - 2 ^ 22"]) (auto simp: in_user_def USER_VADDR_BASE_def USER_VADDR_SIZE_def)
  have "a div 2 ^ 22 = 1" "a mod 2 ^ 22 = k" unfolding a(1) using a(2) by simp_all
  then show ?thesis using assms(1) a(1) by (simp add: virt_def user_at_def USER_VADDR_BASE_def)
qed

lemma fold_upd_below:
  "n \<le> length bs \<Longrightarrow> (\<And>i. i < n \<Longrightarrow> f i = p + i) \<Longrightarrow> fold (\<lambda>i m. m(f i := bs ! i)) [0..<n] m = put_bytes m p (take n bs)"
proof (induction n)
  case (Suc n)
  then have "fold (\<lambda>i m. m(f i := bs ! i)) [0..<n] m = put_bytes m p (take n bs)" by (intro Suc.IH) auto
  then have "fold (\<lambda>i m. m(f i := bs ! i)) [0..<Suc n] m = (put_bytes m p (take n bs))(f n := bs ! n)"
    by (simp only: upt_Suc_append fold_append comp_def fold.simps id_apply)
  also have "\<dots> = put_bytes m p (take (Suc n) bs)" using Suc.prems by (simp add: put_bytes_snoc take_Suc_conv_app_nth)
  finally show ?case .
qed simp

lemma uput_user:
  assumes "user_at h phys" "in_user a (length bs)"
  shows "uput a bs h = h\<lparr>mm_mem := put_bytes (mm_mem h) (phys + (a - USER_VADDR_BASE)) bs\<rparr>"
proof -
  have "virt h (a + i) = phys + (a - USER_VADDR_BASE) + i" if "i < length bs" for i
    using virt_user [OF assms(1), of "a + i" 0] assms(2) that by (simp add: in_user_def)
  from fold_upd_below [of "length bs" bs, OF _ this] show ?thesis by (simp add: uput_def)
qed

lemma user_at_uput:
  assumes "user_at h phys" "in_user a (length bs)"
  shows "user_at (uput a bs h) phys"
proof -
  have "load32 (put_bytes (mm_mem h) (phys + (a - USER_VADDR_BASE)) bs) (cr3 h + 4) = load32 (mm_mem h) (cr3 h + 4)"
  proof (rule load32_cong)
    fix i :: nat assume "i < 4"
    then show "put_bytes (mm_mem h) (phys + (a - USER_VADDR_BASE)) bs (cr3 h + 4 + i) = mm_mem h (cr3 h + 4 + i)"
      using assms by (intro put_bytes_outside) (auto simp: user_at_def in_user_def)
  qed
  then show ?thesis using assms by (simp add: uput_user [OF assms] user_at_def)
qed

lemma seen_uput:
  assumes "user_at h phys" "in_user a (length bs)" "in_user x 1"
  shows "seen (uput a bs h) x = (if a \<le> x \<and> x < a + length bs then bs ! (x - a) else seen h x)"
proof -
  have v: "virt (uput a bs h) x = phys + (x - USER_VADDR_BASE)" "virt h x = phys + (x - USER_VADDR_BASE)"
    using virt_user [OF user_at_uput [OF assms(1,2)], of x 0] virt_user [OF assms(1), of x 0] assms(3) by simp_all
  obtain k l where k: "a = USER_VADDR_BASE + k" "x = USER_VADDR_BASE + l"
    using assms(2,3) by (auto simp: in_user_def le_iff_add)
  have "seen (uput a bs h) x = put_bytes (mm_mem h) (phys + k) bs (phys + l)" "seen h x = mm_mem h (phys + l)"
    unfolding seen_def v by (simp_all only: uput_user [OF assms(1,2)]) (simp_all add: k)
  then show ?thesis by (simp add: put_bytes_def k)
qed

lemma uget_uput:
  assumes "user_at h phys" "in_user a (length bs)" "in_user b n"
  shows "b = a \<Longrightarrow> n = length bs \<Longrightarrow> uget (uput a bs h) b n = bs"
    "b + n \<le> a \<or> a + length bs \<le> b \<Longrightarrow> uget (uput a bs h) b n = uget h b n"
proof -
  have u: "in_user (b + i) 1" if "i < n" for i using assms(3) that by (simp add: in_user_def)
  note S = seen_uput [OF assms(1,2) u]
  show "uget (uput a bs h) b n = bs" if e: "b = a" "n = length bs"
  proof (rule nth_equalityI)
    fix i assume "i < length (uget (uput a bs h) b n)"
    then have "i < n" by (simp add: uget_def)
    then show "uget (uput a bs h) b n ! i = bs ! i" using S [of i] e by (simp add: uget_def get_bytes_def)
  qed (simp add: uget_def e)
  show "uget (uput a bs h) b n = uget h b n" if "b + n \<le> a \<or> a + length bs \<le> b"
    unfolding uget_def using that by (intro get_bytes_cong) (subst S; auto)
qed

text \<open>Words read back from the bytes that were stored.\<close>

lemma uload16_bytes:
  assumes "seen h a = char_of v" "seen h (a + 1) = char_of (v div 256)" "v < 65536"
  shows "uload16 h a = v"
proof -
  have "v div 256 < 256" using assms(3) by (simp add: less_mult_imp_div_less)
  then show ?thesis using assms(1,2) by (simp add: uload16_def)
qed

lemma uload32_bytes:
  assumes "\<And>i. i < 4 \<Longrightarrow> seen h (a + i) = le32 v ! i" "v < 2 ^ 32"
  shows "uload32 h a = v"
  unfolding uload32_def using assms by (intro load32_le32) (simp_all add: bytes_at_nth)

lemma uload32_cong:
  assumes "\<And>i. i < 4 \<Longrightarrow> seen h (a + i) = seen h' (a + i)"
  shows "uload32 h a = uload32 h' a"
  unfolding uload32_def using assms by (intro load32_cong) simp

end
