(* ===== verification/Udp.thy ===== *)
theory Udp
  imports User_Mem Ring
begin

section \<open>UDP sockets\<close>

text \<open>
  Model of the datagram sockets of \<^verbatim>\<open>src/kernel/drivers/syscall.c\<close>: the table of eight sockets, each with a
  ring of eight datagrams, and the operations behind \<^verbatim>\<open>socket\<close>, \<^verbatim>\<open>bind\<close>, \<^verbatim>\<open>sendto\<close> and \<^verbatim>\<open>recvfrom\<close>.  The structures
  that a task passes lie in its memory at the address it gives.
\<close>

subsection \<open>Constants\<close>

definition AF_INET :: nat where "AF_INET = 2"
definition SOCK_DGRAM :: nat where "SOCK_DGRAM = 2"
definition IPPROTO_UDP :: nat where "IPPROTO_UDP = 17"
definition SOL_SOCKET :: nat where "SOL_SOCKET = 1"
definition SO_RCVTIMEO :: nat where "SO_RCVTIMEO = 20"
definition SO_SNDTIMEO :: nat where "SO_SNDTIMEO = 21"
definition MSG_DONTWAIT :: nat where "MSG_DONTWAIT = 0x40"
definition INADDR_ANY :: nat where "INADDR_ANY = 0"
definition INADDR_LOOPBACK :: nat where "INADDR_LOOPBACK = 0x7F000001"
definition UDP_MAX_SOCKETS :: nat where "UDP_MAX_SOCKETS = 8"
definition UDP_QUEUE_MAX :: nat where "UDP_QUEUE_MAX = 8"
definition UDP_PAYLOAD_MAX :: nat where "UDP_PAYLOAD_MAX = 512"
definition UDP_EPHEMERAL_START :: nat where "UDP_EPHEMERAL_START = 49152"
definition UDP_EPHEMERAL_END :: nat where "UDP_EPHEMERAL_END = 65535"

definition K_ENOENT :: int where "K_ENOENT = 2"
definition K_EIO :: int where "K_EIO = 5"
definition K_EAGAIN :: int where "K_EAGAIN = 11"
definition K_EBUSY :: int where "K_EBUSY = 16"
definition K_EINVAL :: int where "K_EINVAL = 22"
definition K_ETIMEDOUT :: int where "K_ETIMEDOUT = 110"

abbreviation (input) sizeof_sockaddr_in :: nat where "sizeof_sockaddr_in \<equiv> 16"

subsection \<open>The table\<close>

record udp_datagram =
  dg_used :: bool
  dg_src_addr :: nat
  dg_src_port :: nat
  dg_len :: nat
  dg_payload :: "byte list"

record udp_socket =
  us_used :: bool
  us_bound :: bool
  us_bind_addr :: nat
  us_bind_port :: nat
  us_rcv_timeout_ms :: nat
  us_q :: "udp_datagram list"
  us_q_head :: nat
  us_q_tail :: nat
  us_q_len :: nat

record udp_state =
  g_udp_sockets :: "udp_socket list"
  g_udp_next_ephemeral :: nat

definition no_datagram :: udp_datagram where
  "no_datagram = \<lparr>dg_used = False, dg_src_addr = 0, dg_src_port = 0, dg_len = 0, dg_payload = replicate UDP_PAYLOAD_MAX NUL\<rparr>"

definition no_socket :: udp_socket where
  "no_socket = \<lparr>us_used = False, us_bound = False, us_bind_addr = 0, us_bind_port = 0, us_rcv_timeout_ms = 0,
     us_q = replicate UDP_QUEUE_MAX no_datagram, us_q_head = 0, us_q_tail = 0, us_q_len = 0\<rparr>"

definition upd_socket :: "nat \<Rightarrow> (udp_socket \<Rightarrow> udp_socket) \<Rightarrow> udp_state \<Rightarrow> udp_state" where
  "upd_socket sid f u = u\<lparr>g_udp_sockets := (g_udp_sockets u)[sid := f (g_udp_sockets u ! sid)]\<rparr>"

definition be16_to_cpu :: "nat \<Rightarrow> nat" where
  "be16_to_cpu x = x mod 256 * 256 + x div 256 mod 256"

definition be32_to_cpu :: "nat \<Rightarrow> nat" where
  "be32_to_cpu x = x mod 256 * 16777216 + x div 256 mod 256 * 65536 + x div 65536 mod 256 * 256 + x div 16777216 mod 256"

definition cpu_to_be16 :: "nat \<Rightarrow> nat" where "cpu_to_be16 x = be16_to_cpu x"
definition cpu_to_be32 :: "nat \<Rightarrow> nat" where "cpu_to_be32 x = be32_to_cpu x"

definition udp_find_bound :: "nat \<Rightarrow> nat \<Rightarrow> udp_state \<Rightarrow> nat option" where
  "udp_find_bound adr port u =
     find (\<lambda>i. let s = g_udp_sockets u ! i in us_used s \<and> us_bound s \<and> us_bind_port s = port \<and>
             (us_bind_addr s = adr \<or> us_bind_addr s = INADDR_ANY \<or> adr = INADDR_ANY)) [0..<UDP_MAX_SOCKETS]"

definition udp_port_in_use :: "nat \<Rightarrow> nat \<Rightarrow> nat \<Rightarrow> udp_state \<Rightarrow> bool" where
  "udp_port_in_use adr port exclude_sid u \<longleftrightarrow>
     (\<exists>i \<in> set [0..<UDP_MAX_SOCKETS]. let s = g_udp_sockets u ! i in i \<noteq> exclude_sid \<and> us_used s \<and> us_bound s \<and>
        us_bind_port s = port \<and> (us_bind_addr s = INADDR_ANY \<or> adr = INADDR_ANY \<or> us_bind_addr s = adr))"

text \<open>The port counter is a 16-bit number that wraps around to the first ephemeral port.\<close>

definition next_port :: "nat \<Rightarrow> nat" where
  "next_port p = (let n = (p + 1) mod 65536 in if n < UDP_EPHEMERAL_START then UDP_EPHEMERAL_START else n)"

primrec autobind_loop :: "nat \<Rightarrow> nat \<Rightarrow> udp_state \<Rightarrow> bool \<times> udp_state" where
  "autobind_loop 0 sid u = (False, u)"
| "autobind_loop (Suc n) sid u =
     (let p = g_udp_next_ephemeral u; u1 = u\<lparr>g_udp_next_ephemeral := next_port p\<rparr> in
      if \<not> udp_port_in_use INADDR_ANY p sid u1
      then (True, upd_socket sid (\<lambda>s. s\<lparr>us_bound := True, us_bind_addr := INADDR_ANY, us_bind_port := p\<rparr>) u1)
      else autobind_loop n sid u1)"

definition udp_autobind :: "nat \<Rightarrow> udp_state \<Rightarrow> bool \<times> udp_state" where
  "udp_autobind sid u =
     (if sid \<ge> UDP_MAX_SOCKETS then (False, u)
      else autobind_loop (UDP_EPHEMERAL_END - UDP_EPHEMERAL_START + 1) sid u)"

definition udp_socket_alloc :: "udp_state \<Rightarrow> nat option \<times> udp_state" where
  "udp_socket_alloc u =
     (case find (\<lambda>i. \<not> us_used (g_udp_sockets u ! i)) [0..<UDP_MAX_SOCKETS] of
        None \<Rightarrow> (None, u)
      | Some i \<Rightarrow> (Some i, upd_socket i (\<lambda>_. no_socket\<lparr>us_used := True\<rparr>) u))"

definition udp_socket_free :: "nat \<Rightarrow> udp_state \<Rightarrow> udp_state" where
  "udp_socket_free sid u = (if sid \<ge> UDP_MAX_SOCKETS then u else upd_socket sid (\<lambda>_. no_socket) u)"

subsection \<open>Binding, sending and receiving\<close>

text \<open>The fields of a \<^verbatim>\<open>syscall_sockaddr_in_t\<close> at an address of the task.\<close>

definition sin_family :: "mm_state \<Rightarrow> addr \<Rightarrow> nat" where "sin_family h ua = uload16 h ua"
definition sin_port :: "mm_state \<Rightarrow> addr \<Rightarrow> nat" where "sin_port h ua = uload16 h (ua + 2)"
definition sin_addr :: "mm_state \<Rightarrow> addr \<Rightarrow> nat" where "sin_addr h ua = uload32 h (ua + 4)"

definition udp_bind_socket :: "nat \<Rightarrow> addr \<Rightarrow> nat \<Rightarrow> mm_state \<Rightarrow> udp_state \<Rightarrow> int \<times> udp_state" where
  "udp_bind_socket sid ua addrlen h u =
     (if sid \<ge> UDP_MAX_SOCKETS \<or> ua = 0 then (- K_EINVAL, u)
      else if addrlen < sizeof_sockaddr_in then (- K_EINVAL, u)
      else if sin_family h ua \<noteq> AF_INET then (- K_EINVAL, u)
      else let port = be16_to_cpu (sin_port h ua); adr = be32_to_cpu (sin_addr h ua) in
        if port = 0 then (- K_EINVAL, u)
        else if adr \<noteq> INADDR_ANY \<and> adr \<noteq> INADDR_LOOPBACK then (- K_EINVAL, u)
        else if udp_port_in_use adr port sid u then (- K_EBUSY, u)
        else (0, upd_socket sid (\<lambda>s. s\<lparr>us_bound := True, us_bind_addr := adr, us_bind_port := port\<rparr>) u))"

record udp_send_req =
  sr_buf :: addr
  sr_len :: nat
  sr_flags :: nat
  sr_addr :: addr
  sr_addrlen :: nat

record udp_recv_req =
  rr_buf :: addr
  rr_len :: nat
  rr_flags :: nat
  rr_addr :: addr
  rr_addrlen :: addr

text \<open>The request structures as they are copied from the memory of the task.\<close>

definition load_send_req :: "mm_state \<Rightarrow> addr \<Rightarrow> udp_send_req" where
  "load_send_req h a = \<lparr>sr_buf = uload32 h a, sr_len = uload32 h (a + 4), sr_flags = uload32 h (a + 8),
     sr_addr = uload32 h (a + 12), sr_addrlen = uload32 h (a + 16)\<rparr>"

definition load_recv_req :: "mm_state \<Rightarrow> addr \<Rightarrow> udp_recv_req" where
  "load_recv_req h a = \<lparr>rr_buf = uload32 h a, rr_len = uload32 h (a + 4), rr_flags = uload32 h (a + 8),
     rr_addr = uload32 h (a + 12), rr_addrlen = uload32 h (a + 16)\<rparr>"

text \<open>A datagram put into the ring of a socket, and the first one taken out.\<close>

definition enqueue :: "udp_datagram \<Rightarrow> udp_socket \<Rightarrow> udp_socket" where
  "enqueue pkt s = s\<lparr>us_q := (us_q s)[us_q_tail s := pkt], us_q_tail := (us_q_tail s + 1) mod UDP_QUEUE_MAX, us_q_len := us_q_len s + 1\<rparr>"

definition dequeue :: "udp_socket \<Rightarrow> udp_socket" where
  "dequeue s = s\<lparr>us_q := (us_q s)[us_q_head s := no_datagram], us_q_head := (us_q_head s + 1) mod UDP_QUEUE_MAX, us_q_len := us_q_len s - 1\<rparr>"

definition datagram :: "udp_socket \<Rightarrow> byte list \<Rightarrow> udp_datagram" where
  "datagram src bs = \<lparr>dg_used = True, dg_src_addr = (if us_bind_addr src = INADDR_ANY then INADDR_LOOPBACK else us_bind_addr src),
     dg_src_port = us_bind_port src, dg_len = length bs, dg_payload = bs @ replicate (UDP_PAYLOAD_MAX - length bs) NUL\<rparr>"

definition udp_sendto_socket :: "nat \<Rightarrow> udp_send_req \<Rightarrow> mm_state \<Rightarrow> udp_state \<Rightarrow> int \<times> udp_state" where
  "udp_sendto_socket sid req h u =
     (if sid \<ge> UDP_MAX_SOCKETS \<or> sr_buf req = 0 \<or> sr_addr req = 0 then (- K_EINVAL, u)
      else if sr_addrlen req < sizeof_sockaddr_in then (- K_EINVAL, u)
      else if sr_len req > UDP_PAYLOAD_MAX then (- K_EINVAL, u)
      else if sin_family h (sr_addr req) \<noteq> AF_INET then (- K_EINVAL, u)
      else let dst_addr = be32_to_cpu (sin_addr h (sr_addr req)); dst_port = be16_to_cpu (sin_port h (sr_addr req)) in
        if dst_port = 0 then (- K_EINVAL, u)
        else if dst_addr \<noteq> INADDR_LOOPBACK \<and> dst_addr \<noteq> INADDR_ANY then (- K_EINVAL, u)
        else let (bound, u1) = (if us_bound (g_udp_sockets u ! sid) then (True, u) else udp_autobind sid u) in
          if \<not> bound then (- K_EAGAIN, u1)
          else (case udp_find_bound (if dst_addr = INADDR_ANY then INADDR_LOOPBACK else dst_addr) dst_port u1 of
              None \<Rightarrow> (- K_ENOENT, u1)
            | Some dst_sid \<Rightarrow>
                if us_q_len (g_udp_sockets u1 ! dst_sid) \<ge> UDP_QUEUE_MAX then (- K_EAGAIN, u1)
                else (int (sr_len req),
                  upd_socket dst_sid (enqueue (datagram (g_udp_sockets u1 ! sid) (uget h (sr_buf req) (sr_len req)))) u1)))"

text \<open>One look at the queue by \<^verbatim>\<open>udp_recvfrom_socket\<close> after having waited: fail, sleep or take the first datagram.\<close>

datatype recv_next = Recv_fail int | Recv_sleep | Recv_take

definition udp_recv_next :: "nat \<Rightarrow> udp_recv_req \<Rightarrow> nat \<Rightarrow> udp_state \<Rightarrow> recv_next" where
  "udp_recv_next sid req waited u =
     (let s = g_udp_sockets u ! sid in
      if us_q_len s = 0 then
        if odd (rr_flags req div MSG_DONTWAIT) then Recv_fail (- K_EAGAIN)
        else if us_rcv_timeout_ms s > 0 \<and> waited \<ge> us_rcv_timeout_ms s then Recv_fail (- K_ETIMEDOUT)
        else Recv_sleep
      else Recv_take)"

text \<open>The source address is stored when the task gave room for it.\<close>

definition store_source :: "udp_recv_req \<Rightarrow> udp_datagram \<Rightarrow> mm_state \<Rightarrow> mm_state" where
  "store_source req pkt h =
     (if rr_addr req \<noteq> 0 \<and> rr_addrlen req \<noteq> 0 \<and> uload32 h (rr_addrlen req) \<ge> sizeof_sockaddr_in
      then ustore32 (rr_addrlen req) sizeof_sockaddr_in
        (uput (rr_addr req) (le16 AF_INET @ le16 (cpu_to_be16 (dg_src_port pkt)) @ le32 (cpu_to_be32 (dg_src_addr pkt)) @ replicate 8 NUL) h)
      else h)"

definition udp_recv_take :: "nat \<Rightarrow> udp_recv_req \<Rightarrow> mm_state \<Rightarrow> udp_state \<Rightarrow> int \<times> mm_state \<times> udp_state" where
  "udp_recv_take sid req h u =
     (let s = g_udp_sockets u ! sid; pkt = us_q s ! us_q_head s in
      if \<not> dg_used pkt then (- K_EIO, h, u)
      else let to_copy = min (rr_len req) (dg_len pkt);
               h1 = uput (rr_buf req) (take to_copy (dg_payload pkt)) h in
        (int to_copy, store_source req pkt h1, upd_socket sid dequeue u))"

end
