(* ===== verification/Fds.thy ===== *)
theory Fds
  imports Udp Tasks
begin

section \<open>File descriptors\<close>

text \<open>
  Model of the descriptor tables of \<^verbatim>\<open>src/kernel/drivers/syscall.c\<close>: one of 32 entries for each slot of the task
  array, and one for the time before the first task.  A table is a list of entries; a \<^verbatim>\<open>fd_entry_t*\<close>
  is a number in it.  The functions that take the table of the running task from \<^verbatim>\<open>fd_current\<close> get it
  as an argument and return it changed.
\<close>

definition FD_MAX :: nat where "FD_MAX = 32"
definition FD_CLOEXEC :: nat where "FD_CLOEXEC = 1"

definition K_EBADF :: int where "K_EBADF = 9"
definition K_ENFILE :: int where "K_ENFILE = 23"
definition K_ENOTSUP :: int where "K_ENOTSUP = 95"

datatype fd_kind = FD_KIND_VFS | FD_KIND_UDP

record fd_entry =
  fe_used :: bool
  fe_kind :: fd_kind
  fe_pipe_auto_unlink :: bool
  fe_sock_id :: int
  fe_fd_flags :: nat
  fe_open_flags :: nat
  fe_offset :: nat
  fe_path :: string

record fd_state =
  g_fds :: "fd_entry list"
  g_fd_init_done :: bool
  g_task_fds :: "fd_entry list list"
  g_task_fd_init :: "bool list"

text \<open>An entry after \<^verbatim>\<open>memset\<close>, one that was closed, and one that was just opened.\<close>

definition zero_fd :: fd_entry where
  "zero_fd = \<lparr>fe_used = False, fe_kind = FD_KIND_VFS, fe_pipe_auto_unlink = False, fe_sock_id = 0, fe_fd_flags = 0,
     fe_open_flags = 0, fe_offset = 0, fe_path = []\<rparr>"

definition closed_fd :: fd_entry where
  "closed_fd = \<lparr>fe_used = False, fe_kind = FD_KIND_VFS, fe_pipe_auto_unlink = False, fe_sock_id = -1, fe_fd_flags = 0,
     fe_open_flags = 0, fe_offset = 0, fe_path = []\<rparr>"

definition opened_fd :: "string \<Rightarrow> nat \<Rightarrow> fd_entry" where
  "opened_fd path open_flags = \<lparr>fe_used = True, fe_kind = FD_KIND_VFS, fe_pipe_auto_unlink = False, fe_sock_id = -1, fe_fd_flags = 0,
     fe_open_flags = open_flags, fe_offset = 0, fe_path = take 255 path\<rparr>"

definition udp_fd :: "nat \<Rightarrow> fd_entry" where
  "udp_fd sid = \<lparr>fe_used = True, fe_kind = FD_KIND_UDP, fe_pipe_auto_unlink = False, fe_sock_id = int sid, fe_fd_flags = 0,
     fe_open_flags = 0, fe_offset = 0, fe_path = []\<rparr>"

subsection \<open>The table of the running task\<close>

definition current_task_slot :: "kstate \<Rightarrow> nat option" where
  "current_task_slot k = (case current_task k of None \<Rightarrow> None | Some c \<Rightarrow> if c \<ge> MAX_TASKS then None else Some c)"

definition fd_table_init :: "string \<Rightarrow> bool \<Rightarrow> fd_entry list \<Rightarrow> fd_entry list" where
  "fd_table_init tty_path initialized fds =
     (if initialized then fds else replicate 3 (opened_fd tty_path 0) @ replicate (FD_MAX - 3) zero_fd)"

definition fd_table :: "nat option \<Rightarrow> fd_state \<Rightarrow> fd_entry list" where
  "fd_table slot F = (case slot of None \<Rightarrow> g_fds F | Some i \<Rightarrow> g_task_fds F ! i)"

definition set_fd_table :: "nat option \<Rightarrow> fd_entry list \<Rightarrow> fd_state \<Rightarrow> fd_state" where
  "set_fd_table slot fds F =
     (case slot of None \<Rightarrow> F\<lparr>g_fds := fds\<rparr> | Some i \<Rightarrow> F\<lparr>g_task_fds := (g_task_fds F)[i := fds]\<rparr>)"

text \<open>\<^verbatim>\<open>fd_current\<close> sets up the table when it is used for the first time.\<close>

definition fd_current :: "nat option \<Rightarrow> fd_state \<Rightarrow> fd_state" where
  "fd_current slot F =
     (case slot of
        None \<Rightarrow> F\<lparr>g_fds := fd_table_init ''/dev/tty/1'' (g_fd_init_done F) (g_fds F), g_fd_init_done := True\<rparr>
      | Some i \<Rightarrow> F\<lparr>g_task_fds := (g_task_fds F)[i := fd_table_init ''/dev/tty/1'' (g_task_fd_init F ! i) (g_task_fds F ! i)],
                   g_task_fd_init := (g_task_fd_init F)[i := True]\<rparr>)"

definition syscall_bind_stdio :: "string \<Rightarrow> fd_entry list \<Rightarrow> fd_entry list" where
  "syscall_bind_stdio path fds = (if path = [] then fds else fds[0 := opened_fd path 0, 1 := opened_fd path 0, 2 := opened_fd path 0])"

definition syscall_task_fd_max :: nat where "syscall_task_fd_max = FD_MAX"

definition syscall_task_fd_path :: "nat \<Rightarrow> nat \<Rightarrow> nat \<Rightarrow> kstate \<Rightarrow> fd_state \<Rightarrow> string option" where
  "syscall_task_fd_path pid fd cap k F =
     (if cap < 2 then None
      else case task_find_by_pid pid k of
        None \<Rightarrow> None
      | Some slot \<Rightarrow>
          if slot \<ge> MAX_TASKS \<or> fd \<ge> FD_MAX then None
          else let e = g_task_fds F ! slot ! fd in
            if \<not> g_task_fd_init F ! slot \<or> \<not> fe_used e then None
            else (case fe_kind e of
                FD_KIND_VFS \<Rightarrow> if fe_path e = [] then None else Some (take (cap - 1) (fe_path e))
              | FD_KIND_UDP \<Rightarrow> Some (take (cap - 1) ''udp:'')))"

subsection \<open>Entries\<close>

definition free_fd :: "nat \<Rightarrow> fd_entry list \<Rightarrow> nat option" where
  "free_fd lo fds = find (\<lambda>i. \<not> fe_used (fds ! i)) [lo..<FD_MAX]"

definition fd_alloc :: "string \<Rightarrow> nat \<Rightarrow> fd_entry list \<Rightarrow> nat option \<times> fd_entry list" where
  "fd_alloc path open_flags fds =
     (case free_fd 3 fds of None \<Rightarrow> (None, fds) | Some i \<Rightarrow> (Some i, fds[i := opened_fd path open_flags]))"

definition fd_alloc_udp :: "nat \<Rightarrow> fd_entry list \<Rightarrow> nat option \<times> fd_entry list" where
  "fd_alloc_udp sid fds = (case free_fd 3 fds of None \<Rightarrow> (None, fds) | Some i \<Rightarrow> (Some i, fds[i := udp_fd sid]))"

definition fd_path :: "nat \<Rightarrow> fd_entry list \<Rightarrow> string option" where
  "fd_path fd fds = (if fd \<ge> FD_MAX \<or> \<not> fe_used (fds ! fd) \<or> fe_kind (fds ! fd) \<noteq> FD_KIND_VFS then None else Some (fe_path (fds ! fd)))"

definition fd_udp_sid :: "nat \<Rightarrow> fd_entry list \<Rightarrow> nat option" where
  "fd_udp_sid fd fds =
     (if fd \<ge> FD_MAX \<or> \<not> fe_used (fds ! fd) \<or> fe_kind (fds ! fd) \<noteq> FD_KIND_UDP then None
      else if fe_sock_id (fds ! fd) < 0 then None else Some (nat (fe_sock_id (fds ! fd))))"

definition fd_has_path_ref :: "string \<Rightarrow> nat \<Rightarrow> fd_entry list \<Rightarrow> bool" where
  "fd_has_path_ref path exclude_fd fds \<longleftrightarrow> path \<noteq> [] \<and>
     (\<exists>i \<in> set [0..<FD_MAX]. i \<noteq> exclude_fd \<and> fe_used (fds ! i) \<and> fe_kind (fds ! i) = FD_KIND_VFS \<and> fe_path (fds ! i) = path)"

text \<open>The socket of an entry that is given up.\<close>

definition release_socket :: "fd_entry \<Rightarrow> udp_state \<Rightarrow> udp_state" where
  "release_socket e u = (if fe_kind e = FD_KIND_UDP \<and> fe_sock_id e \<ge> 0 then udp_socket_free (nat (fe_sock_id e)) u else u)"

definition dup_of :: "fd_entry \<Rightarrow> fd_entry" where
  "dup_of e = e\<lparr>fe_used := True, fe_fd_flags := 0, fe_path := take 255 (fe_path e)\<rparr>"

text \<open>\<^verbatim>\<open>dup\<close> looks for the first free entry from 0 on, \<^verbatim>\<open>dup2\<close> closes the target; no pipe is removed there.\<close>

definition fd_dup_from_to :: "nat \<Rightarrow> nat \<Rightarrow> bool \<Rightarrow> fd_entry list \<Rightarrow> udp_state \<Rightarrow> int \<times> fd_entry list \<times> udp_state" where
  "fd_dup_from_to oldfd newfd fixed_target fds u =
     (if oldfd \<ge> FD_MAX \<or> \<not> fe_used (fds ! oldfd) then (- K_EBADF, fds, u)
      else if fe_kind (fds ! oldfd) = FD_KIND_UDP then (- K_ENOTSUP, fds, u)
      else if \<not> fixed_target then
        (case free_fd 0 fds of
           None \<Rightarrow> (- K_ENFILE, fds, u)
         | Some dst \<Rightarrow> (int dst, fds[dst := dup_of (fds ! oldfd)], u))
      else if newfd \<ge> FD_MAX then (- K_EBADF, fds, u)
      else if newfd = oldfd then (int newfd, fds, u)
      else (int newfd, fds[newfd := dup_of (fds ! oldfd)],
            if fe_used (fds ! newfd) then release_socket (fds ! newfd) u else u))"

text \<open>The changes of \<^verbatim>\<open>fcntl\<close>; the flags are masks of one bit.\<close>

definition O_CREAT :: nat where "O_CREAT = 0x0040"
definition O_APPEND :: nat where "O_APPEND = 0x0400"
definition O_NONBLOCK :: nat where "O_NONBLOCK = 0x0800"

definition has_flag :: "nat \<Rightarrow> nat \<Rightarrow> bool" where
  "has_flag flags m \<longleftrightarrow> odd (flags div m)"

definition settable_flags :: "nat \<Rightarrow> nat" where
  "settable_flags v = (if has_flag v O_APPEND then O_APPEND else 0) + (if has_flag v O_NONBLOCK then O_NONBLOCK else 0)"

definition set_open_flags :: "nat \<Rightarrow> nat \<Rightarrow> nat" where
  "set_open_flags old v = old - settable_flags old + settable_flags v"

definition F_DUPFD :: nat where "F_DUPFD = 0"
definition F_GETFD :: nat where "F_GETFD = 1"
definition F_SETFD :: nat where "F_SETFD = 2"
definition F_GETFL :: nat where "F_GETFL = 3"
definition F_SETFL :: nat where "F_SETFL = 4"

definition sys_fcntl :: "nat \<Rightarrow> nat \<Rightarrow> nat \<Rightarrow> fd_entry list \<Rightarrow> udp_state \<Rightarrow> int \<times> fd_entry list \<times> udp_state" where
  "sys_fcntl fd cmd arg fds u =
     (if fd \<ge> FD_MAX \<or> \<not> fe_used (fds ! fd) then (- K_EBADF, fds, u)
      else let e = fds ! fd in
        if cmd = F_GETFL then (int (fe_open_flags e), fds, u)
        else if cmd = F_SETFL then (0, fds[fd := e\<lparr>fe_open_flags := set_open_flags (fe_open_flags e) arg\<rparr>], u)
        else if cmd = F_GETFD then ((if has_flag (fe_fd_flags e) FD_CLOEXEC then int FD_CLOEXEC else 0), fds, u)
        else if cmd = F_SETFD then (0, fds[fd := e\<lparr>fe_fd_flags := (if has_flag arg FD_CLOEXEC then FD_CLOEXEC else 0)\<rparr>], u)
        else if cmd = F_DUPFD then
          (case free_fd (if arg < 3 then 3 else arg) fds of
             None \<Rightarrow> (- K_ENFILE, fds, u)
           | Some i \<Rightarrow> fd_dup_from_to fd i True fds u)
        else (- K_EINVAL, fds, u))"

end
