(* ===== verification/Exec.thy ===== *)
theory Exec
  imports Fds Elf
begin

section \<open>Command lines and the stack of a new program\<close>

text \<open>
  Model of the part of \<^verbatim>\<open>src/kernel/drivers/syscall.c\<close> that prepares a program: the arguments cut out of a command
  line, the stack with \<^verbatim>\<open>argc\<close> and \<^verbatim>\<open>argv\<close>, the command line for an interpreter, and the user page of
  the task.  A string in a buffer of the kernel is the list of its characters.
\<close>

definition USER_ARG_MAX :: nat where "USER_ARG_MAX = 32"
definition USER_ARG_TOKEN :: nat where "USER_ARG_TOKEN = 128"
definition USER_STACK_TOP :: nat where "USER_STACK_TOP = USER_VADDR_BASE + USER_VADDR_SIZE - 16"

definition is_space :: "byte \<Rightarrow> bool" where
  "is_space c \<longleftrightarrow> c = CHR '' '' \<or> c = CHR 0x09 \<or> c = CHR 0x0A \<or> c = CHR 0x0D"

subsection \<open>Arguments\<close>

text \<open>The rest of a token: whether it is complete and fits, what was collected, and what follows.\<close>

fun token_loop :: "string \<Rightarrow> bool \<Rightarrow> bool \<Rightarrow> string \<Rightarrow> bool \<times> string \<times> string" where
  "token_loop [] in_sq in_dq tok = (\<not> in_sq \<and> \<not> in_dq, tok, [])"
| "token_loop (c # cs) in_sq in_dq tok =
     (if \<not> in_sq \<and> \<not> in_dq \<and> is_space c then (True, tok, c # cs)
      else if c = CHR 0x5C \<and> cs \<noteq> [] then
        (if length tok + 1 \<ge> USER_ARG_TOKEN then (False, tok, cs) else token_loop (tl cs) in_sq in_dq (tok @ [hd cs]))
      else if c = CHR 0x27 \<and> \<not> in_dq then token_loop cs (\<not> in_sq) in_dq tok
      else if c = CHR 0x22 \<and> \<not> in_sq then token_loop cs in_sq (\<not> in_dq) tok
      else if length tok + 1 \<ge> USER_ARG_TOKEN then (False, tok, cs)
      else token_loop cs in_sq in_dq (tok @ [c]))"

lemma token_loop_rest: "token_loop cs sq dq tok = (r, t, rest) \<Longrightarrow> length rest \<le> length cs"
  by (induction cs sq dq tok rule: token_loop.induct) (auto split: if_splits)

lemma token_loop_rest_Cons: "token_loop (c # cs) False False tok = (r, t, rest) \<Longrightarrow> \<not> is_space c \<Longrightarrow> length rest < length (c # cs)"
  by (auto split: if_splits dest: token_loop_rest)

text \<open>All the arguments: whether there were no errors, and those found.\<close>

function args_loop :: "string list \<Rightarrow> string \<Rightarrow> bool \<times> string list" where
  "args_loop args cs =
     (case dropWhile is_space cs of
        [] \<Rightarrow> (True, args)
      | c # rest \<Rightarrow>
          if length args \<ge> USER_ARG_MAX then (False, args)
          else case token_loop (c # rest) False False [] of
            (r, tok, rest1) \<Rightarrow> if r then args_loop (args @ [tok]) rest1 else (False, args @ [tok]))"
  by pat_completeness auto
termination
proof (relation "measure (\<lambda>(args, cs). length cs)", goal_cases)
  case (2 args cs c rest r p tok rest1)
  then have "length rest1 < length (c # rest)" using token_loop_rest_Cons [of c rest "[]" r tok rest1] by (metis hd_dropWhile list.discI list.sel(1))
  also have "\<dots> \<le> length cs" using 2(1) length_dropWhile_le [of is_space cs] by simp
  finally show ?case by simp
qed simp

declare args_loop.simps [simp del]

subsection \<open>The stack\<close>

text \<open>The strings from the last to the first, below each other: their addresses, \<open>None\<close> when the stack would get too
  near to the start of the user page.\<close>

primrec push_strings :: "string list \<Rightarrow> addr \<Rightarrow> addr list \<Rightarrow> mm_state \<Rightarrow> (addr \<times> addr list) option \<times> mm_state" where
  "push_strings [] sp ptrs h = (Some (sp, ptrs), h)"
| "push_strings (arg # args) sp ptrs h =
     (let len = length arg + 1 in
      if sp < USER_VADDR_BASE + len + 256 then (None, h)
      else push_strings args (sp - len) ((sp - len) # ptrs) (uput (sp - len) (arg @ [NUL]) h))"

text \<open>Words pushed one after the other.\<close>

definition push_words :: "nat list \<Rightarrow> addr \<Rightarrow> mm_state \<Rightarrow> addr \<times> mm_state" where
  "push_words vs sp h = fold (\<lambda>v (s, h). (s - 4, ustore32 (s - 4) v h)) vs (sp, h)"

definition args_buffer :: "string list \<Rightarrow> byte list" where
  "args_buffer args = concat (map (\<lambda>a. a @ replicate (USER_ARG_TOKEN - length a) NUL) args) @
     replicate ((USER_ARG_MAX - length args) * USER_ARG_TOKEN) NUL"

definition build_user_stack_from_cmdline :: "string \<Rightarrow> mm_state \<Rightarrow> (addr option \<times> mm_state) option" where
  "build_user_stack_from_cmdline cmdline h = do {
     (args, h1) \<leftarrow> kmalloc h (USER_ARG_MAX * USER_ARG_TOKEN);
     if args = 0 then Some (None, h1)
     else let (ok, argv) = args_loop [] cmdline; h2 = uput args (args_buffer argv) h1 in
       if \<not> ok then do { h3 \<leftarrow> kfree h2 args; Some (None, h3) }
       else case push_strings (rev argv) (USER_STACK_TOP div 4 * 4) [] h2 of
         (None, h3) \<Rightarrow> do { h4 \<leftarrow> kfree h3 args; Some (None, h4) }
       | (Some (sp, ptrs), h3) \<Rightarrow>
           let (sp1, h4) = push_words (0 # rev ptrs @ [length argv]) (sp div 4 * 4) h3 in
           do { h5 \<leftarrow> kfree h4 args; Some (Some sp1, h5) } }"

subsection \<open>Text in buffers\<close>

primrec append_text_safe :: "nat \<Rightarrow> string \<Rightarrow> string \<Rightarrow> string option" where
  "append_text_safe cap dst [] = Some dst"
| "append_text_safe cap dst (c # cs) = (if length dst + 1 \<ge> cap then None else append_text_safe cap (dst @ [c]) cs)"

definition append_char_safe :: "nat \<Rightarrow> string \<Rightarrow> byte \<Rightarrow> string option" where
  "append_char_safe cap dst c = (if length dst + 1 \<ge> cap then None else Some (dst @ [c]))"

definition path_basename_local :: "string \<Rightarrow> string" where
  "path_basename_local path = rev (takeWhile ((\<noteq>) CHR ''/'') (rev path))"

definition skip_first_token :: "string \<Rightarrow> string" where
  "skip_first_token s = dropWhile is_space (dropWhile (\<lambda>c. \<not> is_space c) (dropWhile is_space s))"

text \<open>Does the text start with the word, followed by a space or the end?\<close>

definition starts_with_word :: "string \<Rightarrow> string \<Rightarrow> bool" where
  "starts_with_word s w \<longleftrightarrow> take (length w) s = w \<and> (drop (length w) s = [] \<or> is_space (hd (drop (length w) s)))"

definition drop_program :: "string \<Rightarrow> string \<Rightarrow> string" where
  "drop_program target_path tail =
     (let t = dropWhile is_space tail; base = path_basename_local target_path in
      if starts_with_word t target_path then skip_first_token t
      else if base \<noteq> [] \<and> starts_with_word t base then skip_first_token t
      else t)"

definition build_interp_cmdline :: "string \<Rightarrow> string \<Rightarrow> string option \<Rightarrow> nat \<Rightarrow> string option" where
  "build_interp_cmdline interp_path target_path orig_cmdline out_cap =
     (if out_cap < 4 then None
      else do {
        out1 \<leftarrow> append_text_safe out_cap [] interp_path;
        out2 \<leftarrow> append_char_safe out_cap out1 (CHR '' '');
        out3 \<leftarrow> append_text_safe out_cap out2 target_path;
        let tail = (case orig_cmdline of None \<Rightarrow> [] | Some t \<Rightarrow> if t = [] then [] else drop_program target_path t);
        if tail = [] then Some out3
        else do {
          out4 \<leftarrow> append_char_safe out_cap out3 (CHR '' '');
          append_text_safe out_cap out4 tail } })"

subsection \<open>User memory of a task\<close>

definition ensure_current_task_user_space :: "kstate \<Rightarrow> (bool \<times> kstate) option" where
  "ensure_current_task_user_space k =
     (case current_task k of
        None \<Rightarrow> Some (False, k)
      | Some c \<Rightarrow>
          let t = tasks k ! c in
          if t_user_slot t \<noteq> NO_SLOT \<and> t_cr3 t \<noteq> 0 then Some (True, k\<lparr>mm := mm_switch_cr3 (mm k) (t_cr3 t)\<rparr>)
          else (case mm_user_slot_alloc (mm k) of
              (None, h) \<Rightarrow> Some (False, k\<lparr>mm := h\<rparr>)
            | (Some (slot_idx, slot_phys), h) \<Rightarrow>
                (case mm_user_cr3_create h slot_phys of
                   None \<Rightarrow> None
                 | Some (user_cr3, h1) \<Rightarrow>
                     if user_cr3 = 0 then Some (False, k\<lparr>mm := mm_user_slot_free h1 slot_idx\<rparr>)
                     else Some (True, upd_task c (\<lambda>t. t\<lparr>t_user_slot := slot_idx, t_user_phys_base := slot_phys, t_cr3 := user_cr3\<rparr>)
                            (k\<lparr>mm := mm_switch_cr3 h1 user_cr3\<rparr>)))))"

text \<open>A string of a task copied into a buffer of \<open>cap\<close> bytes; \<open>i\<close> counts up to the bytes that are left.\<close>

fun copy_chars :: "mm_state \<Rightarrow> addr \<Rightarrow> nat \<Rightarrow> string option" where
  "copy_chars h a 0 = None"
| "copy_chars h a (Suc n) = (if seen h a = NUL then Some [] else map_option ((#) (seen h a)) (copy_chars h (a + 1) n))"

definition copy_user_string :: "mm_state \<Rightarrow> addr \<Rightarrow> nat \<Rightarrow> string option" where
  "copy_user_string h user cap = (if user = 0 \<or> cap < 2 then None else copy_chars h user cap)"

definition copy_user_path :: "mm_state \<Rightarrow> addr \<Rightarrow> nat \<Rightarrow> string option" where
  "copy_user_path h user cap =
     (if user = 0 \<or> cap < 2 then None
      else case copy_chars h user cap of
        None \<Rightarrow> None
      | Some s \<Rightarrow> if s \<noteq> [] \<and> hd s = CHR ''/'' then Some s else None)"

definition normalize_mount_path_local :: "string \<Rightarrow> nat \<Rightarrow> string option" where
  "normalize_mount_path_local p cap =
     (if cap < 2 \<or> p = [] \<or> hd p \<noteq> CHR ''/'' \<or> length p \<ge> cap then None
      else if length p > 1 \<and> last p = CHR ''/'' then Some (butlast p) else Some p)"

subsection \<open>Loading a program\<close>

text \<open>The loader works on the memory that the task sees: what it changed there is put back to where it lies.\<close>

definition seen_view :: "mm_state \<Rightarrow> mm_state" where
  "seen_view h = h\<lparr>mm_mem := seen h\<rparr>"

text \<open>The address at which the physical address \<open>p\<close> is seen.\<close>

definition seen_as :: "mm_state \<Rightarrow> addr \<Rightarrow> addr option" where
  "seen_as h p =
     (if \<not> paging_enabled h then Some p
      else if p div 2 ^ 22 = load32 (mm_mem h) (cr3 h + 4) div 2 ^ 22 then Some (USER_VADDR_BASE + p mod 2 ^ 22)
      else if p div 2 ^ 22 = 1 then None else Some p)"

definition put_back :: "mm_state \<Rightarrow> mm_state \<Rightarrow> mm_state" where
  "put_back h0 h = h\<lparr>mm_mem := (\<lambda>p. case seen_as h0 p of None \<Rightarrow> mm_mem h0 p | Some v \<Rightarrow> mm_mem h v)\<rparr>"

definition load_elf :: "('w \<Rightarrow> mm_state) \<Rightarrow> (mm_state \<Rightarrow> 'w \<Rightarrow> 'w) \<Rightarrow> (addr \<Rightarrow> 'w vfs_ops) \<Rightarrow> vfs \<Rightarrow> string \<Rightarrow> nat option \<Rightarrow> 'w \<Rightarrow>
    (elf_result \<times> 'w) option" where
  "load_elf get put tab v path cap w =
     elf_load_from_vfs_ex (\<lambda>w. seen_view (get w)) (\<lambda>h w. put (put_back (get w) h) w) tab v path cap w"

text \<open>The entry point and the command line for the stack, \<open>None\<close> for -1.\<close>

definition resolve_exec_entry :: "('w \<Rightarrow> mm_state) \<Rightarrow> (mm_state \<Rightarrow> 'w \<Rightarrow> 'w) \<Rightarrow> (addr \<Rightarrow> 'w vfs_ops) \<Rightarrow> vfs \<Rightarrow> string \<Rightarrow> string option \<Rightarrow> nat \<Rightarrow> 'w \<Rightarrow>
    ((nat \<times> string) option \<times> 'w) option" where
  "resolve_exec_entry get put tab v prog_path orig_cmdline cap w =
     (if cap < 2 then Some (None, w)
      else case load_elf get put tab v prog_path (Some 256) w of
        None \<Rightarrow> None
      | Some (r, w1) \<Rightarrow>
          if er_code r \<noteq> 0 then Some (None, w1)
          else if er_interp r \<noteq> [] then
            (case load_elf get put tab v (er_interp r) None w1 of
               None \<Rightarrow> None
             | Some (r2, w2) \<Rightarrow>
                 if er_code r2 \<noteq> 0 then Some (None, w2)
                 else (case build_interp_cmdline (er_interp r) prog_path orig_cmdline cap of
                     None \<Rightarrow> Some (None, w2)
                   | Some cmdline \<Rightarrow> Some (Some (er_entry r2, cmdline), w2)))
          else Some (Some (er_entry r, case orig_cmdline of None \<Rightarrow> [] | Some t \<Rightarrow> take (cap - 1) t), w1))"

end
