(* ===== verification/Exec_Props.thy ===== *)
theory Exec_Props
  imports Exec Heap_Props
begin

section \<open>Program start: arguments and stack\<close>

text \<open>
  The arguments that the kernel cuts out of a command line are those that were written into it, and the stack of a
  new program holds \<^verbatim>\<open>argc\<close>, \<^verbatim>\<open>argv\<close> and the strings, inside the user page, whatever the heap does around it.
\<close>

subsection \<open>Quoting\<close>

text \<open>A command line that gives the arguments: each between double quotes, with a backslash before quotes and backslashes.\<close>

definition quoted_char :: "byte \<Rightarrow> string" where
  "quoted_char c = (if c = CHR 0x22 \<or> c = CHR 0x5C then [CHR 0x5C, c] else [c])"

definition quoted :: "string \<Rightarrow> string" where
  "quoted a = [CHR 0x22] @ concat (map quoted_char a) @ [CHR 0x22]"

definition command_line :: "string list \<Rightarrow> string" where
  "command_line args = concat (map (\<lambda>a. CHR '' '' # quoted a) args)"

lemma token_in_quotes:
  "length tok + length a < USER_ARG_TOKEN \<Longrightarrow>
     token_loop (concat (map quoted_char a) @ CHR 0x22 # rest) False True tok = token_loop rest False False (tok @ a)"
proof (induction a arbitrary: tok)
  case (Cons c a)
  then have len: "\<not> USER_ARG_TOKEN \<le> length tok + 1" "length (tok @ [c]) + length a < USER_ARG_TOKEN" by simp_all
  show ?case using Cons.IH [OF len(2)] len(1) by (auto simp: quoted_char_def)
qed simp

lemma token_quoted:
  assumes "length a < USER_ARG_TOKEN" "rest = [] \<or> is_space (hd rest)"
  shows "token_loop (quoted a @ rest) False False [] = (True, a, rest)"
proof -
  have e: "quoted a @ rest = CHR 0x22 # (concat (map quoted_char a) @ CHR 0x22 # rest)" by (simp add: quoted_def)
  have "token_loop (quoted a @ rest) False False [] = token_loop (concat (map quoted_char a) @ CHR 0x22 # rest) False True []"
    unfolding e by (simp add: is_space_def)
  also have "\<dots> = token_loop rest False False a" using token_in_quotes [of "[]" a] assms(1) by simp
  also have "\<dots> = (True, a, rest)" using assms(2) by (cases rest) simp_all
  finally show ?thesis .
qed

lemma args_of_command_line:
  "length acc + length args \<le> USER_ARG_MAX \<Longrightarrow> (\<And>a. a \<in> set args \<Longrightarrow> length a < USER_ARG_TOKEN) \<Longrightarrow>
     args_loop acc (command_line args) = (True, acc @ args)"
proof (induction args arbitrary: acc)
  case Nil
  then show ?case by (simp add: command_line_def args_loop.simps)
next
  case (Cons a args)
  let ?rest = "command_line args"
  have d: "dropWhile is_space (command_line (a # args)) = quoted a @ ?rest"
    by (simp add: command_line_def quoted_def is_space_def)
  obtain c cs where q: "quoted a @ ?rest = c # cs" by (simp add: quoted_def)
  have t: "token_loop (c # cs) False False [] = (True, a, ?rest)" unfolding q [symmetric]
  proof (rule token_quoted)
    show "?rest = [] \<or> is_space (hd ?rest)" by (cases args) (simp_all add: command_line_def is_space_def)
  qed (simp add: Cons.prems)
  have "args_loop acc (command_line (a # args)) = args_loop (acc @ [a]) ?rest"
    unfolding args_loop.simps [of acc "command_line (a # args)"] d q using Cons.prems(1) t by simp
  also have "\<dots> = (True, (acc @ [a]) @ args)" using Cons.prems by (intro Cons.IH) auto
  finally show ?case by simp
qed

text \<open>C18: Arguments put into a command line come out again: any list of at most 32 arguments of less than 128 characters,
  whatever characters they hold, is cut out of its quoted command line exactly.\<close>

theorem command_line_roundtrip:
  assumes "length args \<le> USER_ARG_MAX" "\<forall>a \<in> set args. length a < USER_ARG_TOKEN"
  shows "args_loop [] (command_line args) = (True, args)"
  using args_of_command_line [of "[]" args] assms by simp

theorem command_line_roundtrip_witness:
  "command_line [''a b'', [], ''\"''] = '' \"a b\" \"\" \"'' @ [CHR 0x5C] @ ''\"\"'' \<and>
   args_loop [] (command_line [''a b'', [], ''\"'']) = (True, [''a b'', [], ''\"''])"
  using command_line_roundtrip [of "[''a b'', [], ''\"'']"]
  by (simp add: USER_ARG_MAX_def USER_ARG_TOKEN_def command_line_def quoted_def quoted_char_def)

text \<open>Whatever the command line, no more and no longer arguments than there is room for are found.\<close>

lemma token_loop_length:
  "token_loop cs sq dq tok = (r, t, rest) \<Longrightarrow> length tok < USER_ARG_TOKEN \<Longrightarrow> length t < USER_ARG_TOKEN"
  by (induction cs sq dq tok rule: token_loop.induct) (auto split: if_splits)

lemma args_loop_bounds:
  "args_loop acc cs = (r, args) \<Longrightarrow> length acc \<le> USER_ARG_MAX \<Longrightarrow> \<forall>a \<in> set acc. length a < USER_ARG_TOKEN \<Longrightarrow>
     length args \<le> USER_ARG_MAX \<and> (\<forall>a \<in> set args. length a < USER_ARG_TOKEN)"
proof (induction acc cs rule: args_loop.induct)
  case (1 acc cs)
  show ?case
  proof (cases "dropWhile is_space cs")
    case Nil
    have "args_loop acc cs = (True, acc)" unfolding args_loop.simps [of acc cs] Nil by simp
    then show ?thesis using "1.prems" by simp
  next
    case (Cons c rest)
    obtain r1 tok rest1 where t: "token_loop (c # rest) False False [] = (r1, tok, rest1)" by (metis prod_cases3)
    have l: "length tok < USER_ARG_TOKEN" using token_loop_length [OF t] by (simp add: USER_ARG_TOKEN_def)
    show ?thesis
    proof (cases "USER_ARG_MAX \<le> length acc")
      case True
      then show ?thesis using "1.prems" Cons by (simp add: args_loop.simps [of acc cs])
    next
      case False
      then show ?thesis using "1.prems" "1.IH" [OF Cons False t [symmetric]] Cons t l
        by (cases r1) (auto simp: args_loop.simps [of acc cs])
    qed
  qed
qed

subsection \<open>Strings and words on the stack\<close>

lemma in_user_sub: "in_user a n \<Longrightarrow> a \<le> b \<Longrightarrow> b + k \<le> a + n \<Longrightarrow> in_user b k"
  by (simp add: in_user_def)

lemma uget_cong: "(\<And>i. i < n \<Longrightarrow> seen h (a + i) = seen h' (a + i)) \<Longrightarrow> uget h a n = uget h' a n"
  unfolding uget_def by (intro get_bytes_cong) auto

text \<open>\<open>below h h' lo hi\<close>: only what the task sees between \<open>lo\<close> and \<open>hi\<close> in its page has changed, and nothing outside the page.\<close>

definition changed_in :: "addr \<Rightarrow> mm_state \<Rightarrow> mm_state \<Rightarrow> addr \<Rightarrow> addr \<Rightarrow> bool" where
  "changed_in phys h h' lo hi \<longleftrightarrow> user_at h' phys \<and> h' = h\<lparr>mm_mem := mm_mem h'\<rparr> \<and>
     (\<forall>x. in_user x 1 \<longrightarrow> \<not> (lo \<le> x \<and> x < hi) \<longrightarrow> seen h' x = seen h x) \<and>
     (\<forall>a. \<not> (phys \<le> a \<and> a < phys + USER_VADDR_SIZE) \<longrightarrow> mm_mem h' a = mm_mem h a)"

lemma changed_in_uput:
  assumes "user_at h phys" "in_user a (length bs)"
  shows "changed_in phys h (uput a bs h) a (a + length bs)"
  unfolding changed_in_def
proof (intro conjI allI impI)
  show "user_at (uput a bs h) phys" by (rule user_at_uput [OF assms])
  show "uput a bs h = h\<lparr>mm_mem := mm_mem (uput a bs h)\<rparr>" by (simp add: uput_def)
  show "seen (uput a bs h) x = seen h x" if "in_user x 1" "\<not> (a \<le> x \<and> x < a + length bs)" for x
    using seen_uput [OF assms that(1)] that(2) by simp
  show "mm_mem (uput a bs h) x = mm_mem h x" if "\<not> (phys \<le> x \<and> x < phys + USER_VADDR_SIZE)" for x
    unfolding uput_user [OF assms] using assms(2) that
    by (cases "phys + (a - USER_VADDR_BASE) \<le> x \<and> x < phys + (a - USER_VADDR_BASE) + length bs") (auto simp: put_bytes_def in_user_def)
qed

lemma changed_in_trans:
  assumes "changed_in phys h h1 lo1 hi1" "changed_in phys h1 h2 lo2 hi2" "lo \<le> lo1" "lo \<le> lo2" "hi1 \<le> hi" "hi2 \<le> hi"
  shows "changed_in phys h h2 lo hi"
proof -
  have "h2 = h1\<lparr>mm_mem := mm_mem h2\<rparr>" "h1 = h\<lparr>mm_mem := mm_mem h1\<rparr>" using assms(1,2) by (simp_all add: changed_in_def)
  then have "h2 = h\<lparr>mm_mem := mm_mem h2\<rparr>" by (metis mm_state.update_convs(1) mm_state.surjective)
  moreover have "seen h2 x = seen h x" if "in_user x 1" "\<not> (lo \<le> x \<and> x < hi)" for x
  proof -
    have "\<not> (lo1 \<le> x \<and> x < hi1)" "\<not> (lo2 \<le> x \<and> x < hi2)" using that(2) assms(3-6) by auto
    then show ?thesis using assms(1,2) that(1) by (simp add: changed_in_def)
  qed
  ultimately show ?thesis using assms(1,2) by (simp add: changed_in_def)
qed

lemma changed_in_refl: "user_at h phys \<Longrightarrow> changed_in phys h h lo hi"
  by (simp add: changed_in_def)

lemma changed_in_uget:
  assumes "changed_in phys h h' lo hi" "in_user a n" "a + n \<le> lo \<or> hi \<le> a"
  shows "uget h' a n = uget h a n"
proof (rule uget_cong)
  fix i assume i: "i < n"
  then have "in_user (a + i) 1" "\<not> (lo \<le> a + i \<and> a + i < hi)" using assms(2,3) by (auto simp: in_user_def)
  then show "seen h' (a + i) = seen h (a + i)" using assms(1) by (simp add: changed_in_def)
qed

text \<open>The strings at their addresses.\<close>

definition strings_at :: "mm_state \<Rightarrow> addr list \<Rightarrow> string list \<Rightarrow> bool" where
  "strings_at h ptrs args \<longleftrightarrow> length ptrs = length args \<and>
     (\<forall>i < length args. uget h (ptrs ! i) (length (args ! i) + 1) = args ! i @ [NUL])"

definition text_size :: "string list \<Rightarrow> nat" where
  "text_size args = sum_list (map (\<lambda>a. length a + 1) args)"

lemma push_strings_ok:
  assumes "user_at h phys" "USER_VADDR_BASE + 256 + text_size args \<le> sp" "sp \<le> USER_VADDR_BASE + USER_VADDR_SIZE"
  shows "\<exists>ps h'. push_strings args sp ptrs h = (Some (sp - text_size args, rev ps @ ptrs), h') \<and> strings_at h' ps args \<and>
    changed_in phys h h' (sp - text_size args) sp \<and>
    (\<forall>i < length args. sp - text_size args \<le> ps ! i \<and> ps ! i + length (args ! i) + 1 \<le> sp)"
  using assms
proof (induction args arbitrary: sp ptrs h)
  case Nil
  then show ?case by (intro exI [of _ "[]"] exI [of _ h]) (simp add: strings_at_def text_size_def changed_in_refl)
next
  case (Cons arg args)
  let ?sp = "sp - (length arg + 1)"
  let ?h = "uput ?sp (arg @ [NUL]) h"
  have ts: "text_size (arg # args) = length arg + 1 + text_size args" by (simp add: text_size_def)
  have room: "\<not> sp < USER_VADDR_BASE + (length arg + 1) + 256" "length arg + 1 \<le> sp" using Cons.prems(2) ts by simp_all
  have iu: "in_user ?sp (length (arg @ [NUL]))" using Cons.prems(2,3) ts by (simp add: in_user_def)
  have c1: "changed_in phys h ?h ?sp sp" using changed_in_uput [OF Cons.prems(1) iu] room(2) by simp
  have "USER_VADDR_BASE + 256 + text_size args \<le> ?sp" "?sp \<le> USER_VADDR_BASE + USER_VADDR_SIZE" using Cons.prems(2,3) ts by simp_all
  from Cons.IH [OF user_at_uput [OF Cons.prems(1) iu] this, of "?sp # ptrs"] obtain ps h' where
    I: "push_strings args ?sp (?sp # ptrs) ?h = (Some (?sp - text_size args, rev ps @ ?sp # ptrs), h')" "strings_at h' ps args"
      "changed_in phys ?h h' (?sp - text_size args) ?sp" "\<forall>i < length args. ?sp - text_size args \<le> ps ! i \<and> ps ! i + length (args ! i) + 1 \<le> ?sp" by blast
  have e: "?sp - text_size args = sp - text_size (arg # args)" using ts by simp
  have "push_strings (arg # args) sp ptrs h = (Some (sp - text_size (arg # args), rev (?sp # ps) @ ptrs), h')"
    using I(1) room(1) e by (simp add: Let_def)
  moreover have "uget h' ?sp (length arg + 1) = arg @ [NUL]"
    using changed_in_uget [OF I(3) iu] uget_uput(1) [OF Cons.prems(1) iu iu refl refl] by simp
  then have "strings_at h' (?sp # ps) (arg # args)" using I(2) by (auto simp: strings_at_def nth_Cons split: nat.split)
  moreover have "changed_in phys h h' (sp - text_size (arg # args)) sp"
    by (rule changed_in_trans [OF c1 I(3)]) (use e ts in simp_all)
  moreover have "\<forall>i < length (arg # args). sp - text_size (arg # args) \<le> (?sp # ps) ! i \<and> (?sp # ps) ! i + length ((arg # args) ! i) + 1 \<le> sp"
    using I(4) e room(2) ts by (auto simp: nth_Cons split: nat.split)
  ultimately show ?case by blast
qed

lemma uload32_changed:
  assumes "changed_in phys h h' lo hi" "in_user a 4" "a + 4 \<le> lo \<or> hi \<le> a"
  shows "uload32 h' a = uload32 h a"
proof (rule uload32_cong)
  fix i :: nat assume i: "i < 4"
  then have "in_user (a + i) 1" "\<not> (lo \<le> a + i \<and> a + i < hi)" using assms(2,3) by (auto simp: in_user_def)
  then show "seen h' (a + i) = seen h (a + i)" using assms(1) by (simp add: changed_in_def)
qed

lemma ustore32_load:
  assumes "user_at h phys" "in_user a 4" "v < 2 ^ 32"
  shows "uload32 (ustore32 a v h) a = v"
proof (rule uload32_bytes [OF _ assms(3)])
  fix i :: nat assume i: "i < 4"
  have b: "in_user a (length (le32 v))" "in_user (a + i) 1" using assms(2) i by (simp_all add: in_user_def)
  show "seen (ustore32 a v h) (a + i) = le32 v ! i" unfolding ustore32_def using seen_uput [OF assms(1) b] i by simp
qed

lemma push_words_ok:
  assumes "user_at h phys" "USER_VADDR_BASE + 4 * length vs \<le> sp" "sp \<le> USER_VADDR_BASE + USER_VADDR_SIZE" "\<forall>v \<in> set vs. v < 2 ^ 32"
  shows "\<exists>h'. push_words vs sp h = (sp - 4 * length vs, h') \<and> changed_in phys h h' (sp - 4 * length vs) sp \<and>
    (\<forall>i < length vs. uload32 h' (sp - 4 * Suc i) = vs ! i)"
  using assms
proof (induction vs arbitrary: sp h)
  case Nil
  then show ?case by (simp add: push_words_def changed_in_refl)
next
  case (Cons v vs)
  let ?h = "ustore32 (sp - 4) v h"
  have l: "4 \<le> sp" "in_user (sp - 4) 4" "in_user (sp - 4) (length (le32 v))" using Cons.prems(2,3) by (simp_all add: in_user_def)
  have c: "changed_in phys h ?h (sp - 4) sp" using changed_in_uput [OF Cons.prems(1) l(3)] l(1) by (simp add: ustore32_def)
  then have u: "user_at ?h phys" by (simp add: changed_in_def)
  have "USER_VADDR_BASE + 4 * length vs \<le> sp - 4" "sp - 4 \<le> USER_VADDR_BASE + USER_VADDR_SIZE" "\<forall>v \<in> set vs. v < 2 ^ 32"
    using Cons.prems(2-4) by simp_all
  from Cons.IH [OF u this] obtain h' where I: "push_words vs (sp - 4) ?h = (sp - 4 - 4 * length vs, h')"
    "changed_in phys ?h h' (sp - 4 - 4 * length vs) (sp - 4)" "\<forall>i < length vs. uload32 h' (sp - 4 - 4 * Suc i) = vs ! i" by blast
  have "push_words (v # vs) sp h = (sp - 4 * length (v # vs), h')" using I(1) by (simp add: push_words_def)
  moreover have "changed_in phys h h' (sp - 4 * length (v # vs)) sp" by (rule changed_in_trans [OF c I(2)]) simp_all
  moreover have "uload32 h' (sp - 4 * Suc i) = (v # vs) ! i" if "i < length (v # vs)" for i
  proof (cases i)
    case 0
    have "uload32 h' (sp - 4) = uload32 ?h (sp - 4)" by (rule uload32_changed [OF I(2) l(2)]) simp
    also have "\<dots> = v" using Cons.prems(4) by (intro ustore32_load [OF Cons.prems(1) l(2)]) simp
    finally show ?thesis by (simp add: 0)
  next
    case (Suc k)
    then have "sp - 4 * Suc i = sp - 4 - 4 * Suc k" by simp
    then show ?thesis using I(3) that Suc by simp
  qed
  ultimately show ?case by blast
qed

text \<open>The picture of a stack: the number of arguments, their addresses in order, a null; each address in the page above and its string there.\<close>

definition stack_holds :: "mm_state \<Rightarrow> addr \<Rightarrow> string list \<Rightarrow> bool" where
  "stack_holds h sp argv \<longleftrightarrow> sp mod 4 = 0 \<and> USER_VADDR_BASE \<le> sp \<and> sp + 8 + 4 * length argv \<le> USER_STACK_TOP \<and> uload32 h sp = length argv \<and>
     uload32 h (sp + 4 + 4 * length argv) = 0 \<and>
     (\<forall>i < length argv. let p = uload32 h (sp + 4 + 4 * i) in
        sp + 8 + 4 * length argv \<le> p \<and> p + length (argv ! i) + 1 \<le> USER_STACK_TOP \<and> uget h p (length (argv ! i) + 1) = argv ! i @ [NUL])"

lemma text_size_le: "\<forall>a \<in> set args. length a < USER_ARG_TOKEN \<Longrightarrow> text_size args \<le> length args * 128"
  by (induction args) (auto simp: text_size_def USER_ARG_TOKEN_def)

lemma text_size_rev: "text_size (rev args) = text_size args"
  by (simp add: text_size_def rev_map [symmetric])

lemma stack_built:
  assumes u: "user_at h phys" and a: "length argv \<le> USER_ARG_MAX" "\<forall>a \<in> set argv. length a < USER_ARG_TOKEN"
  shows "\<exists>sp ptrs h1 sp1 h2. push_strings (rev argv) (USER_STACK_TOP div 4 * 4) [] h = (Some (sp, ptrs), h1) \<and>
    push_words (0 # rev ptrs @ [length argv]) (sp div 4 * 4) h1 = (sp1, h2) \<and> stack_holds h2 sp1 argv \<and> changed_in phys h h2 USER_VADDR_BASE USER_STACK_TOP"
proof -
  let ?top = "USER_STACK_TOP div 4 * 4" and ?n = "length argv"
  have t: "?top = USER_STACK_TOP" "USER_STACK_TOP = 0x7FFFF0" by (simp_all add: USER_STACK_TOP_def USER_VADDR_BASE_def USER_VADDR_SIZE_def)
  have "text_size argv \<le> 32 * 128" using text_size_le [OF a(2)] a(1) by (simp add: USER_ARG_MAX_def)
  then have s: "text_size (rev argv) \<le> 4096" by (simp add: text_size_rev)
  have b: "USER_VADDR_BASE + 256 + text_size (rev argv) \<le> ?top" "?top \<le> USER_VADDR_BASE + USER_VADDR_SIZE"
    using s unfolding t by (simp_all add: USER_VADDR_BASE_def USER_VADDR_SIZE_def)
  define sp where "sp = ?top - text_size (rev argv)"
  from push_strings_ok [OF u b, of "[]"] obtain ps h1 where P: "push_strings (rev argv) ?top [] h = (Some (sp, rev ps), h1)"
    "strings_at h1 ps (rev argv)" "changed_in phys h h1 sp ?top" "\<forall>i < ?n. sp \<le> ps ! i \<and> ps ! i + length (rev argv ! i) + 1 \<le> ?top"
    unfolding sp_def by auto
  have lp: "length ps = ?n" using P(2) by (simp add: strings_at_def)
  have sp: "0x7FE000 \<le> sp" "sp \<le> 0x7FFFF0" using s unfolding sp_def t by simp_all
  let ?sp = "sp div 4 * 4" and ?vs = "0 # rev (rev ps) @ [?n]"
  have q: "?sp \<le> sp" "0x7FE000 \<le> ?sp" using sp by simp_all
  have n: "?n \<le> 32" using a(1) by (simp add: USER_ARG_MAX_def)
  have "p < 2 ^ 32" if mem: "p \<in> set ps" for p
  proof -
    obtain i where "i < ?n" "p = ps ! i" using mem lp unfolding in_set_conv_nth by auto
    then show ?thesis using P(4) unfolding t by fastforce
  qed
  then have v: "\<forall>v \<in> set ?vs. v < 2 ^ 32" using n by auto
  have lv: "length ?vs = ?n + 2" using lp by simp
  have "USER_VADDR_BASE + 4 * length ?vs \<le> ?sp" "?sp \<le> USER_VADDR_BASE + USER_VADDR_SIZE"
    using q sp n unfolding lv by (simp_all add: USER_VADDR_BASE_def USER_VADDR_SIZE_def)
  moreover have "user_at h1 phys" using P(3) by (simp add: changed_in_def)
  ultimately obtain h2 where W: "push_words ?vs ?sp h1 = (?sp - 4 * (?n + 2), h2)" "changed_in phys h1 h2 (?sp - 4 * (?n + 2)) ?sp"
    "\<forall>i < ?n + 2. uload32 h2 (?sp - 4 * Suc i) = ?vs ! i" using push_words_ok [OF _ _ _ v] unfolding lv by blast
  define sp1 where "sp1 = ?sp - 4 * (?n + 2)"
  have low: "4 * (?n + 2) \<le> ?sp" using q n by simp
  have word: "uload32 h2 (sp1 + 4 * j) = ?vs ! (?n + 1 - j)" if "j < ?n + 2" for j
  proof -
    have "sp1 + 4 * j = ?sp - 4 * Suc (?n + 1 - j)" using that low by (simp add: sp1_def)
    then show ?thesis using W(3) that by simp
  qed
  have arg: "uload32 h2 (sp1 + 4 + 4 * i) = ps ! (?n - 1 - i)" if "i < ?n" for i
  proof -
    have "?n + 1 - Suc i = Suc (?n - 1 - i)" "?n - 1 - i < length ps" using that lp by simp_all
    then have "?vs ! (?n + 1 - Suc i) = ps ! (?n - 1 - i)" by (simp only: nth_Cons_Suc rev_rev_ident nth_append) simp
    then show ?thesis using word [of "Suc i"] that by (simp add: add.assoc)
  qed
  have str: "sp \<le> ps ! (?n - 1 - i) \<and> ps ! (?n - 1 - i) + length (argv ! i) + 1 \<le> USER_STACK_TOP \<and>
      uget h2 (ps ! (?n - 1 - i)) (length (argv ! i) + 1) = argv ! i @ [NUL]" if i: "i < ?n" for i
  proof -
    have r: "rev argv ! (?n - 1 - i) = argv ! i" using i by (simp add: rev_nth)
    have p: "sp \<le> ps ! (?n - 1 - i)" "ps ! (?n - 1 - i) + length (argv ! i) + 1 \<le> USER_STACK_TOP" using P(4) [rule_format, of "?n - 1 - i"] i r t(1) by auto
    moreover have "in_user (ps ! (?n - 1 - i)) (length (argv ! i) + 1)"
      using p sp(1) by (simp add: in_user_def USER_STACK_TOP_def USER_VADDR_BASE_def USER_VADDR_SIZE_def)
    then have "uget h2 (ps ! (?n - 1 - i)) (length (argv ! i) + 1) = uget h1 (ps ! (?n - 1 - i)) (length (argv ! i) + 1)"
      using p(1) q(1) by (intro changed_in_uget [OF W(2)]) auto
    moreover have "uget h1 (ps ! (?n - 1 - i)) (length (rev argv ! (?n - 1 - i)) + 1) = rev argv ! (?n - 1 - i) @ [NUL]"
      using P(2) i unfolding strings_at_def by simp
    ultimately show ?thesis using r by simp
  qed
  have "stack_holds h2 sp1 argv" unfolding stack_holds_def Let_def
  proof (intro conjI allI impI)
    have "sp1 = (sp div 4 - (?n + 2)) * 4" by (simp add: sp1_def diff_mult_distrib)
    then show "sp1 mod 4 = 0" by simp
    show "USER_VADDR_BASE \<le> sp1" using q n by (simp add: sp1_def USER_VADDR_BASE_def)
    have "sp1 + 8 + 4 * ?n = ?sp" using low by (simp add: sp1_def)
    then show "sp1 + 8 + 4 * ?n \<le> USER_STACK_TOP" using q(1) sp(2) unfolding t(2) by linarith
    show "uload32 h2 sp1 = ?n" using word [of 0] lp by (simp add: nth_append)
    show "uload32 h2 (sp1 + 4 + 4 * ?n) = 0" using word [of "?n + 1"] by (simp add: add.assoc)
    fix i assume i: "i < ?n"
    have e: "sp1 + 8 + 4 * ?n = ?sp" using low by (simp add: sp1_def)
    have "?sp \<le> ps ! (?n - 1 - i)" using str [OF i] q(1) by linarith
    then show "sp1 + 8 + 4 * ?n \<le> uload32 h2 (sp1 + 4 + 4 * i)" unfolding arg [OF i] e .
    show "uload32 h2 (sp1 + 4 + 4 * i) + length (argv ! i) + 1 \<le> USER_STACK_TOP"
      "uget h2 (uload32 h2 (sp1 + 4 + 4 * i)) (length (argv ! i) + 1) = argv ! i @ [NUL]" unfolding arg [OF i] using str [OF i] by blast+
  qed
  moreover have "changed_in phys h h2 USER_VADDR_BASE USER_STACK_TOP"
    by (rule changed_in_trans [OF P(3) W(2)]) (use sp q n in \<open>simp_all add: USER_VADDR_BASE_def t\<close>)
  ultimately show ?thesis using P(1) W(1) unfolding sp1_def by blast
qed

subsection \<open>The whole routine\<close>

text \<open>Allocation and release change nothing outside the heap.\<close>

lemma header_inside:
  assumes "heap_wf s bs" "a < heap_start s \<or> heap_end s \<le> a"
  shows "off_headers bs a" "b \<in> set bs \<Longrightarrow> a < b + 20 \<or> b + 20 + b_size (mm_mem s) b \<le> a"
proof -
  have t: "tiles (mm_mem s) (heap_start s) (heap_end s) bs" using assms(1) by (simp add: heap_wf_def regions_def)
  have "heap_start s \<le> x \<and> x + 20 + b_size (mm_mem s) x \<le> heap_end s" if "x \<in> set bs" for x using tiles_mem [OF t that] by simp
  then show "off_headers bs a" "b \<in> set bs \<Longrightarrow> a < b + 20 \<or> b + 20 + b_size (mm_mem s) b \<le> a"
    using assms(2) by (fastforce simp: off_headers_def)+
qed

lemma kfree_outside:
  assumes "heap_ok s" "(p, n) \<in> live s" "kfree s p = Some s'" "a < heap_start s \<or> heap_end s \<le> a"
  shows "mm_mem s' a = mm_mem s a"
proof -
  obtain b where b: "b \<in> set (blocks s)" "\<not> b_is_free (mm_mem s) b" "p = b + 20" using assms(2) heap_ok_live [OF assms(1)] by auto
  then obtain us vs where bs: "blocks s = us @ b # vs" by (meson split_list)
  have wf: "heap_wf s (us @ b # vs)" using assms(1) bs by (simp add: heap_ok_def)
  from kfree_wf [OF wf b(2)] show ?thesis using header_inside(1) [OF wf assms(4)] assms(3) b(3) by (metis option.inject)
qed

lemma heap_ok_elsewhere:
  assumes "heap_ok s" "\<And>a. heap_start s \<le> a \<Longrightarrow> a < heap_end s \<Longrightarrow> m' a = mm_mem s a"
  shows "heap_ok (s\<lparr>mm_mem := m'\<rparr>)" "live (s\<lparr>mm_mem := m'\<rparr>) = live s"
proof -
  have wf: "heap_wf s (blocks s)" using assms(1) by (simp add: heap_ok_def)
  have "m' a = mm_mem s a" if "\<not> off_headers (blocks s) a" for a
    using header_inside(1) [OF wf, of a] that assms(2) [of a] by (meson linorder_not_less)
  note W = heap_wf_write [OF wf this]
  show "heap_ok (s\<lparr>mm_mem := m'\<rparr>)" by (rule heap_wf_ok [OF W(1)])
  have "layout (s\<lparr>mm_mem := m'\<rparr>) = layout s" using W heap_wf_layout [OF W(1)] heap_wf_layout [OF wf] by simp
  then show "live (s\<lparr>mm_mem := m'\<rparr>) = live s" by (simp add: live_def)
qed

text \<open>The memory of a running task: its page lies outside the heap, its page directory in a live block of the heap, and
  the heap is seen where it is.\<close>

definition task_space :: "mm_state \<Rightarrow> addr \<Rightarrow> bool" where
  "task_space h phys \<longleftrightarrow> user_at h phys \<and> (phys + USER_VADDR_SIZE \<le> heap_start h \<or> heap_end h \<le> phys) \<and>
     (\<exists>(q, n) \<in> live h. q \<le> cr3 h \<and> cr3 h + 4096 \<le> q + n) \<and> (\<forall>v. heap_start h \<le> v \<longrightarrow> v < heap_end h \<longrightarrow> virt h v = v)"

definition same_space :: "mm_state \<Rightarrow> mm_state \<Rightarrow> bool" where
  "same_space h h' \<longleftrightarrow> paging_enabled h' = paging_enabled h \<and> cr3 h' = cr3 h \<and> heap_start h' = heap_start h \<and> heap_end h' = heap_end h \<and>
     (\<forall>i < 4096. mm_mem h' (cr3 h + i) = mm_mem h (cr3 h + i))"

lemma same_space_virt:
  assumes "same_space h h'" "v < 2 ^ 32"
  shows "virt h' v = virt h v"
proof -
  have "v div 2 ^ 22 < 1024" using assms(2) by (simp add: less_mult_imp_div_less)
  then have "load32 (mm_mem h') (cr3 h + 4 * (v div 2 ^ 22)) = load32 (mm_mem h) (cr3 h + 4 * (v div 2 ^ 22))"
    using assms(1) by (intro load32_cong) (simp add: same_space_def add.assoc)
  then show ?thesis using assms(1) by (simp add: virt_def same_space_def)
qed

lemma same_space_user_at:
  assumes "same_space h h'" "user_at h phys"
  shows "user_at h' phys"
proof -
  have "load32 (mm_mem h') (cr3 h + 4) = load32 (mm_mem h) (cr3 h + 4)"
    using assms(1) by (intro load32_cong) (simp add: same_space_def add.assoc)
  then show ?thesis using assms by (simp add: user_at_def same_space_def)
qed

lemma same_space_trans: "same_space h h1 \<Longrightarrow> same_space h1 h2 \<Longrightarrow> same_space h h2"
  by (simp add: same_space_def)

text \<open>Where the live blocks keep their contents, so does the page directory.\<close>

lemma same_space_live:
  assumes "(q, n) \<in> live h" "q \<le> cr3 h" "cr3 h + 4096 \<le> q + n" "\<forall>i < n. mm_mem h' (q + i) = mm_mem h (q + i)"
    "h' = h\<lparr>mm_mem := mm_mem h', free_list := fl, used_heap_size := us\<rparr>"
  shows "same_space h h'"
proof -
  have "mm_mem h' (cr3 h + i) = mm_mem h (cr3 h + i)" if "i < 4096" for i
  proof -
    have "cr3 h - q + i < n" "q + (cr3 h - q + i) = cr3 h + i" using assms(2,3) that by simp_all
    then show ?thesis using assms(4) by metis
  qed
  moreover have "paging_enabled h' = paging_enabled h" "cr3 h' = cr3 h" "heap_start h' = heap_start h" "heap_end h' = heap_end h"
    by (subst assms(5); simp)+
  ultimately show ?thesis by (simp add: same_space_def)
qed

lemma uput_heap:
  assumes "\<And>i. i < length bs \<Longrightarrow> virt h (a + i) = a + i"
  shows "uput a bs h = h\<lparr>mm_mem := put_bytes (mm_mem h) a bs\<rparr>"
  using fold_upd_below [of "length bs" bs "\<lambda>i. virt h (a + i)" a "mm_mem h"] assms by (simp add: uput_def)

lemma stack_holds_cong:
  assumes "stack_holds h sp argv" "\<And>x. in_user x 1 \<Longrightarrow> seen h' x = seen h x"
  shows "stack_holds h' sp argv"
proof -
  note S = assms(1) [unfolded stack_holds_def Let_def]
  have w: "uload32 h' (sp + k) = uload32 h (sp + k)" if "k \<le> 4 + 4 * length argv" for k
    using S that by (intro uload32_cong assms(2)) (auto simp: in_user_def USER_STACK_TOP_def USER_VADDR_BASE_def USER_VADDR_SIZE_def)
  have s: "uget h' p k = uget h p k" if "USER_VADDR_BASE \<le> p" "p + k \<le> USER_STACK_TOP" for p k
    using that by (intro uget_cong assms(2)) (auto simp: in_user_def USER_STACK_TOP_def USER_VADDR_BASE_def USER_VADDR_SIZE_def)
  have v: "uload32 h' (sp + 4 + 4 * i) = uload32 h (sp + 4 + 4 * i)" if "i \<le> length argv" for i
    using w [of "4 + 4 * i"] that by (simp add: add.assoc)
  have g: "uget h' (uload32 h (sp + 4 + 4 * i)) (length (argv ! i) + 1) = argv ! i @ [NUL]" if "i < length argv" for i
    using S that s [of "uload32 h (sp + 4 + 4 * i)" "length (argv ! i) + 1"] by force
  show ?thesis unfolding stack_holds_def Let_def
    using S w [of 0] v g by simp
qed

lemma args_buffer_length:
  assumes "length argv \<le> USER_ARG_MAX" "\<forall>a \<in> set argv. length a < USER_ARG_TOKEN"
  shows "length (args_buffer argv) = USER_ARG_MAX * USER_ARG_TOKEN"
proof -
  have "length (concat (map (\<lambda>a. a @ replicate (USER_ARG_TOKEN - length a) NUL) xs)) = length xs * USER_ARG_TOKEN"
    if "\<forall>a \<in> set xs. length a < USER_ARG_TOKEN" for xs using that by (induction xs) auto
  then show ?thesis using assms by (simp add: args_buffer_def add_mult_distrib [symmetric])
qed

lemma live_bounds:
  assumes "heap_ok h" "(p, n) \<in> live h"
  shows "heap_start h \<le> p" "p + n \<le> heap_end h" "heap_end h < 2 ^ 32"
proof -
  have wf: "heap_wf h (blocks h)" using assms(1) by (simp add: heap_ok_def)
  obtain c where c: "c \<in> set (blocks h)" "p = c + 20" "n = b_size (mm_mem h) c" using assms heap_ok_live by auto
  have "tiles (mm_mem h) (heap_start h) (heap_end h) (blocks h)" "heap_end h < 2 ^ 32" using wf by (simp_all add: heap_wf_def regions_def)
  then show "heap_start h \<le> p" "p + n \<le> heap_end h" "heap_end h < 2 ^ 32" using tiles_mem [of _ _ _ _ c] c by fastforce+
qed

text \<open>The steps between the allocation of the buffer and its release.\<close>

lemma stack_in_block:
  assumes "heap_ok h" "task_space h phys" "kmalloc h 4096 = Some (args, h1)" "heap_ok h1" "live h1 = insert (args, k) (live h)"
    "(args, k) \<notin> live h" "4096 \<le> k" "\<forall>(q, j) \<in> live h. \<forall>i < j. mm_mem h1 (q + i) = mm_mem h (q + i)"
    "length argv \<le> USER_ARG_MAX" "\<forall>a \<in> set argv. length a < USER_ARG_TOKEN"
  shows "\<exists>sp ptrs h3 sp1 h4 h5. args \<noteq> 0 \<and>
    push_strings (rev argv) (USER_STACK_TOP div 4 * 4) [] (uput args (args_buffer argv) h1) = (Some (sp, ptrs), h3) \<and>
    push_words (0 # rev ptrs @ [length argv]) (sp div 4 * 4) h3 = (sp1, h4) \<and> kfree h4 args = Some h5 \<and>
    stack_holds h5 sp1 argv \<and> heap_ok h5 \<and> live h5 = live h \<and> user_at h5 phys"
proof -
  note T = assms(2) [unfolded task_space_def]
  obtain q j where D: "(q, j) \<in> live h" "q \<le> cr3 h" "cr3 h + 4096 \<le> q + j" using T by blast
  have args0: "args \<noteq> 0" using kheap.live_nonnull [OF assms(4), of args k] assms(5) by simp
  have h1: "h1 = h\<lparr>mm_mem := mm_mem h1, free_list := free_list h1, used_heap_size := used_heap_size h1\<rparr>"
    using kmalloc_outcome [OF assms(1), of 4096] assms(3) args0 by (auto split: option.splits)
  have s1: "same_space h h1" by (rule same_space_live [OF D _ h1]) (use assms(8) D(1) in blast)
  have len: "length (args_buffer argv) = 4096" using args_buffer_length [OF assms(9,10)] by (simp add: USER_ARG_MAX_def USER_ARG_TOKEN_def)
  have in1: "(args, k) \<in> live h1" "(q, j) \<in> live h1" using assms(5) D(1) by simp_all
  have bnd: "heap_start h \<le> args" "args + k \<le> heap_end h" "heap_end h < 2 ^ 32" using live_bounds [OF assms(4) in1(1)] s1 by (simp_all add: same_space_def)
  let ?h2 = "h1\<lparr>mm_mem := put_bytes (mm_mem h1) args (args_buffer argv)\<rparr>"
  have "virt h1 (args + i) = args + i" if "i < length (args_buffer argv)" for i
    using same_space_virt [OF s1, of "args + i"] T bnd that len assms(7) by simp
  then have u2: "uput args (args_buffer argv) h1 = ?h2" by (rule uput_heap)
  have ok2: "heap_ok ?h2" "live ?h2 = live h1" using put_bytes_write [OF assms(4) in1(1)] len assms(7) by simp_all
  have apart: "args + k < q \<or> q + j < args" using kheap.live_apart [OF assms(4) in1] assms(6) D(1) by auto
  have "\<forall>i < j. mm_mem ?h2 (q + i) = mm_mem h1 (q + i)" using apart len assms(7) by (auto simp: put_bytes_def)
  then have s2: "same_space h1 ?h2" using same_space_live [OF in1(2), where h' = ?h2 and fl = "free_list h1" and us = "used_heap_size h1"] D(2,3) s1 by (simp add: same_space_def)
  have s02: "same_space h ?h2" by (rule same_space_trans [OF s1 s2])
  have "user_at ?h2 phys" by (rule same_space_user_at [OF s02]) (use T in blast)
  from stack_built [OF this assms(9,10)] obtain sp ptrs h3 sp1 h4 where B: "push_strings (rev argv) (USER_STACK_TOP div 4 * 4) [] ?h2 = (Some (sp, ptrs), h3)"
    "push_words (0 # rev ptrs @ [length argv]) (sp div 4 * 4) h3 = (sp1, h4)" "stack_holds h4 sp1 argv" "changed_in phys ?h2 h4 USER_VADDR_BASE USER_STACK_TOP" by blast
  have h4: "h4 = ?h2\<lparr>mm_mem := mm_mem h4\<rparr>" "user_at h4 phys" using B(4) by (simp_all add: changed_in_def)
  have hp: "heap_start ?h2 = heap_start h" "heap_end ?h2 = heap_end h" using s02 by (simp_all add: same_space_def)
  have "mm_mem h4 a = mm_mem ?h2 a" if "heap_start ?h2 \<le> a" "a < heap_end ?h2" for a
    using B(4) T that unfolding hp by (auto simp: changed_in_def)
  from heap_ok_elsewhere [OF ok2(1) this] have ok4: "heap_ok h4" "live h4 = live h1" using h4(1) ok2(2) by simp_all
  then have in4: "(args, k) \<in> live h4" "(q, j) \<in> live h4" using in1 by simp_all
  obtain h5 where F: "kfree h4 args = Some h5" "heap_ok h5" "layout h5 = lfree (args - 20) (layout h4)"
    "h5 = h4\<lparr>mm_mem := mm_mem h5, free_list := free_list h5, used_heap_size := used_heap_size h5\<rparr>"
    "\<forall>(q, k) \<in> live h4. \<forall>i < k. mm_mem h5 (q + i) = mm_mem h4 (q + i)" by (rule kfree_outcome [OF ok4(1) in4(1)])
  have c4: "cr3 h4 = cr3 h" "heap_start h4 = heap_start h" "heap_end h4 = heap_end h" using s02 by (subst h4(1), simp add: same_space_def)+
  have s5: "same_space h4 h5" by (rule same_space_live [OF in4(2) _ _ _ F(4)]) (use D(2,3) c4(1) F(5) in4(2) in auto)
  have u5: "user_at h5 phys" by (rule same_space_user_at [OF s5 h4(2)])
  have "seen h5 x = seen h4 x" if "in_user x 1" for x
  proof -
    have x: "in_user x (Suc 0)" using that by simp
    have "phys \<le> phys + (x - USER_VADDR_BASE)" "phys + (x - USER_VADDR_BASE) < phys + USER_VADDR_SIZE" using that by (auto simp: in_user_def)
    then have "mm_mem h5 (phys + (x - USER_VADDR_BASE)) = mm_mem h4 (phys + (x - USER_VADDR_BASE))"
      using T c4 by (intro kfree_outside [OF ok4(1) in4(1) F(1)]) linarith
    then show ?thesis unfolding seen_def virt_user [OF u5 x] virt_user [OF h4(2) x] .
  qed
  then have "stack_holds h5 sp1 argv" by (rule stack_holds_cong [OF B(3)])
  moreover have "live h5 = live h" using kfree_live [OF ok4(1) in4(1) F(3)] ok4(2) assms(5,6) by auto
  ultimately show ?thesis using args0 B(1,2) F(1,2) u5 unfolding u2 by blast
qed

text \<open>C10: The stack of a new program: for every command line that is cut into arguments the routine builds, in the user page,
  \<^verbatim>\<open>argc\<close>, the array of addresses with its final null, and the strings, each complete and below the top of the stack;
  the heap is as before, and only a lack of memory can make it fail.\<close>

theorem program_stack_built:
  assumes "heap_ok h" "task_space h phys" "args_loop [] cmdline = (True, argv)"
  shows "build_user_stack_from_cmdline cmdline h = Some (None, h) \<and> kmalloc h (USER_ARG_MAX * USER_ARG_TOKEN) = Some (0, h) \<or>
    (\<exists>sp h'. build_user_stack_from_cmdline cmdline h = Some (Some sp, h') \<and> stack_holds h' sp argv \<and> heap_ok h' \<and> live h' = live h \<and> user_at h' phys)"
proof -
  have b: "length argv \<le> USER_ARG_MAX" "\<forall>a \<in> set argv. length a < USER_ARG_TOKEN" using args_loop_bounds [OF assms(3)] by simp_all
  have n: "USER_ARG_MAX * USER_ARG_TOKEN = 4096" by (simp add: USER_ARG_MAX_def USER_ARG_TOKEN_def)
  from kmalloc_cases [OF assms(1), of 4096] consider "kmalloc h 4096 = Some (0, h)"
    | args k h1 where "kmalloc h 4096 = Some (args, h1)" "heap_ok h1" "live h1 = insert (args, k) (live h)" "(args, k) \<notin> live h" "4096 \<le> k"
      "\<forall>(q, j) \<in> live h. \<forall>i < j. mm_mem h1 (q + i) = mm_mem h (q + i)" by auto
  then show ?thesis
  proof cases
    case 1
    then show ?thesis by (simp add: build_user_stack_from_cmdline_def n)
  next
    case (2 args k h1)
    from stack_in_block [OF assms(1,2) 2 b] obtain sp ptrs h3 sp1 h4 h5 where
      "args \<noteq> 0" "push_strings (rev argv) (USER_STACK_TOP div 4 * 4) [] (uput args (args_buffer argv) h1) = (Some (sp, ptrs), h3)"
      "push_words (0 # rev ptrs @ [length argv]) (sp div 4 * 4) h3 = (sp1, h4)" "kfree h4 args = Some h5"
      "stack_holds h5 sp1 argv" "heap_ok h5" "live h5 = live h" "user_at h5 phys" by blast
    then show ?thesis using 2(1) assms(3) by (simp add: build_user_stack_from_cmdline_def n)
  qed
qed

text \<open>A task with its page directory in a block of the heap: every page is itself, but the user page lies at 32 MB.\<close>

definition task_block :: mm_state where
  "task_block = snd (the (kmalloc heap0 4096))"

definition dir_entry :: "nat \<Rightarrow> nat" where
  "dir_entry k = (if k = 1 then 0x2000000 else k * 2 ^ 22)"

definition task_mem :: mem where
  "task_mem = (\<lambda>a. if 0x900014 \<le> a \<and> a < 0x900014 + 4096 then le32 (dir_entry ((a - 0x900014) div 4)) ! ((a - 0x900014) mod 4)
     else mm_mem task_block a)"

definition task_mm :: mm_state where
  "task_mm = task_block\<lparr>mm_mem := task_mem, cr3 := 0x900014, paging_enabled := True\<rparr>"

lemma task_block_facts: "heap_ok task_block" "live task_block = {(0x900014, 4096)}"
    "layout task_block = [(0x900000, 4096, False), (0x901014, 0xFFEFD8, True)]" "heap_start task_block = 0x900000" "heap_end task_block = 0x1900000"
proof -
  have "lalloc (align_size 4096) (layout heap0) = Some (0x900000, [(0x900000, 4096, False), (0x901014, 0xFFEFD8, True)])"
    by (simp add: heap0_facts(2) align_size_eq)
  with kmalloc_outcome [OF heap0_facts(1), of 4096] obtain s' where s': "kmalloc heap0 4096 = Some (0x900014, s')" "heap_ok s'"
    "layout s' = [(0x900000, 4096, False), (0x901014, 0xFFEFD8, True)]"
    "s' = heap0\<lparr>mm_mem := mm_mem s', free_list := free_list s', used_heap_size := used_heap_size s'\<rparr>" by auto
  moreover have e: "task_block = s'" by (simp add: task_block_def s'(1))
  ultimately show "heap_ok task_block" "live task_block = {(0x900014, 4096)}"
    "layout task_block = [(0x900000, 4096, False), (0x901014, 0xFFEFD8, True)]" by (auto simp: live_def)
  have fit: "entry_base e + 0x1000000 < 2 ^ 32" if "e \<in> set (global_mmap boot_state)" for e
    using that by (auto simp: boot_state_def entry_base_def)
  have holds: "\<exists>e \<in> set (global_mmap boot_state). region_holds 0x900000 0x1000000 e"
    by (simp add: boot_state_def region_holds_def entry_base_def entry_length_def)
  have "heap_start heap0 = 0x900000 \<and> heap_end heap0 = 0x900000 + 0x1000000"
    unfolding heap0_def using kmalloc_init_wf [of boot_state] fit holds by metis
  then show "heap_start task_block = 0x900000" "heap_end task_block = 0x1900000" unfolding e by (subst s'(4), simp)+
qed

lemma task_mm_heap: "heap_ok task_mm" "live task_mm = {(0x900014, 4096)}"
    "layout task_mm = [(0x900000, 4096, False), (0x901014, 0xFFEFD8, True)]" "heap_start task_mm = 0x900000" "heap_end task_mm = 0x1900000"
proof -
  have only: "\<exists>p n. (p, n) \<in> live task_block \<and> p \<le> a \<and> a < p + n" if "task_mem a \<noteq> mm_mem task_block a" for a
    using that by (auto simp: task_mem_def task_block_facts(2) split: if_splits)
  have W: "heap_ok (task_block\<lparr>mm_mem := task_mem\<rparr>)" "layout (task_block\<lparr>mm_mem := task_mem\<rparr>) = layout task_block"
    "live (task_block\<lparr>mm_mem := task_mem\<rparr>) = live task_block"
    by (rule heap_ok_write [OF task_block_facts(1)], rule only, assumption)+
  have e: "heap_ok (s\<lparr>cr3 := c, paging_enabled := True\<rparr>) = heap_ok s" "live (s\<lparr>cr3 := c, paging_enabled := True\<rparr>) = live s"
    "layout (s\<lparr>cr3 := c, paging_enabled := True\<rparr>) = layout s" for s c
    by (simp_all add: heap_ok_def heap_wf_def regions_def blocks_def live_def layout_def)
  show "heap_ok task_mm" "live task_mm = {(0x900014, 4096)}" "layout task_mm = [(0x900000, 4096, False), (0x901014, 0xFFEFD8, True)]"
    using W task_block_facts unfolding task_mm_def by (simp_all only: e)
  show "heap_start task_mm = 0x900000" "heap_end task_mm = 0x1900000" using task_block_facts by (simp_all add: task_mm_def)
qed

lemma task_mm_entry:
  assumes "k < 1024"
  shows "load32 (mm_mem task_mm) (0x900014 + 4 * k) = dir_entry k"
proof (rule load32_le32)
  have "mm_mem task_mm (0x900014 + 4 * k + i) = le32 (dir_entry k) ! i" if "i < 4" for i
    using that assms by (simp add: task_mm_def task_mem_def)
  then show "bytes_at (mm_mem task_mm) (0x900014 + 4 * k) (le32 (dir_entry k))" by (simp add: bytes_at_nth)
  show "dir_entry k < 2 ^ 32" using assms by (simp add: dir_entry_def)
qed

lemma task_mm_space: "task_space task_mm 0x2000000"
proof -
  have c: "cr3 task_mm = 0x900014" "paging_enabled task_mm" by (simp_all add: task_mm_def)
  have "load32 (mm_mem task_mm) (0x900014 + 4) = 0x2000000" using task_mm_entry [of 1] by (simp add: dir_entry_def)
  then have "user_at task_mm 0x2000000" by (simp add: user_at_def c USER_VADDR_SIZE_def)
  moreover have "virt task_mm v = v" if v: "0x900000 \<le> v" "v < 0x1900000" for v
  proof -
    have k: "v div 2 ^ 22 < 1024" "v div 2 ^ 22 \<noteq> 1" using v div_le_mono [of "0x900000" v "2 ^ 22"] by (simp_all add: less_mult_imp_div_less)
    have "load32 (mm_mem task_mm) (0x900014 + 4 * (v div 2 ^ 22)) = v div 2 ^ 22 * 2 ^ 22" using task_mm_entry [OF k(1)] k(2) by (simp add: dir_entry_def)
    then show ?thesis by (simp add: virt_def c)
  qed
  ultimately show ?thesis using task_mm_heap c by (simp add: task_space_def USER_VADDR_SIZE_def)
qed

theorem program_stack_built_witness:
  "\<exists>sp h'. build_user_stack_from_cmdline (command_line [''ls'', ''-l'']) task_mm = Some (Some sp, h') \<and> stack_holds h' sp [''ls'', ''-l'']"
proof -
  have a: "args_loop [] (command_line [''ls'', ''-l'']) = (True, [''ls'', ''-l''])"
    using args_of_command_line [of "[]" "[''ls'', ''-l'']"] by (fastforce simp: USER_ARG_MAX_def USER_ARG_TOKEN_def)
  have "lalloc (align_size 4096) (layout task_mm) \<noteq> None" by (simp add: task_mm_heap(3) align_size_eq)
  then have "kmalloc task_mm 4096 \<noteq> Some (0, task_mm)" using kmalloc_outcome [OF task_mm_heap(1), of 4096] by (auto split: option.splits)
  then show ?thesis using program_stack_built [OF task_mm_heap(1) task_mm_space a] by (simp add: USER_ARG_MAX_def USER_ARG_TOKEN_def) blast
qed

end
