(* ===== verification/Sys_State.thy ===== *)
theory Sys_State
  imports Exec Fat32_Ops CString
begin

section \<open>The state of the system calls\<close>

text \<open>
  The state that \<^verbatim>\<open>src/kernel/drivers/syscall.c\<close> works on: its own static variables, and the world \<open>'w\<close> with the
  kernel state and the file systems.  The environment says where the kernel state lies in the world and
  what is reached through pointers: the tables of operations, the functions of devices by their address,
  the disk.  Every function returns \<open>None\<close> when it does not come back.  Where a call waits, it takes the list of its waits:
  the interrupts while no task is ready, and what happens until this task runs again.
\<close>

definition K_ECHILD :: int where "K_ECHILD = 10"
definition K_ENOMEM :: int where "K_ENOMEM = 12"
definition K_EACCES :: int where "K_EACCES = 13"
definition K_ENODEV :: int where "K_ENODEV = 19"
definition K_ENOSYS :: int where "K_ENOSYS = 38"

text \<open>The interrupt frame, which lies at \<open>fr_at\<close> on the stack, and the saved registers.\<close>

record iframe =
  fr_at :: addr
  fr_ip :: nat
  fr_cs :: nat
  fr_flags :: nat
  fr_sp :: nat

record saved_regs =
  rg_ebx :: nat
  rg_ecx :: nat
  rg_edx :: nat
  rg_esi :: nat
  rg_edi :: nat
  rg_ebp :: nat

record 'w sys =
  sy_w :: 'w
  g_root_fs :: "vfs option"
  sy_fds :: fd_state
  sy_udp :: udp_state
  g_pipe_seq :: nat
  g_devfs_ctx :: addr
  g_mount_fat_used :: "bool list"
  g_mount_fat_path :: "string list"
  sy_frame :: "iframe option"

type_synonym 'w wait = "(kstate \<Rightarrow> kstate) list \<times> ('w sys \<Rightarrow> 'w sys)"

record ('w, 'p) sys_env =
  en_k :: "'w \<Rightarrow> kstate"
  en_set_k :: "kstate \<Rightarrow> 'w \<Rightarrow> 'w"
  en_tab :: "addr \<Rightarrow> 'w vfs_ops"
  en_dev_read :: "addr \<Rightarrow> addr \<Rightarrow> addr \<Rightarrow> nat \<Rightarrow> 'w sys \<Rightarrow> (int \<times> 'w sys) option"
  en_dev_write :: "addr \<Rightarrow> addr \<Rightarrow> addr \<Rightarrow> nat \<Rightarrow> 'w sys \<Rightarrow> (int \<times> 'w sys) option"
  en_dev_ioctl :: "addr \<Rightarrow> addr \<Rightarrow> nat \<Rightarrow> addr \<Rightarrow> 'w sys \<Rightarrow> (int \<times> 'w sys) option"
  en_ports :: "'p ata_ports"
  en_disk :: "'w \<Rightarrow> 'p disk"
  en_set_disk :: "'p disk \<Rightarrow> 'w \<Rightarrow> 'w"
  en_fat_ctx :: "nat \<Rightarrow> addr"
  en_set_fat :: "addr \<Rightarrow> fat32_fs option \<Rightarrow> 'w \<Rightarrow> 'w"
  en_spawned_user_task :: addr
  en_spawned_fork_child :: addr

text \<open>An \<^verbatim>\<open>int\<close> returned as \<^verbatim>\<open>uint32_t\<close>.\<close>

definition u32 :: "int \<Rightarrow> nat" where
  "u32 r = nat (r mod 2 ^ 32)"

definition ret :: "int \<Rightarrow> 'w sys \<Rightarrow> (nat \<times> 'w sys) option" where
  "ret r s = Some (u32 r, s)"

subsection \<open>Parts of the state\<close>

abbreviation the_k :: "('w, 'p) sys_env \<Rightarrow> 'w sys \<Rightarrow> kstate" where
  "the_k E s \<equiv> en_k E (sy_w s)"

abbreviation the_mm :: "('w, 'p) sys_env \<Rightarrow> 'w sys \<Rightarrow> mm_state" where
  "the_mm E s \<equiv> mm (en_k E (sy_w s))"

definition set_k :: "('w, 'p) sys_env \<Rightarrow> kstate \<Rightarrow> 'w sys \<Rightarrow> 'w sys" where
  "set_k E k s = s\<lparr>sy_w := en_set_k E k (sy_w s)\<rparr>"

definition get_mm :: "('w, 'p) sys_env \<Rightarrow> 'w \<Rightarrow> mm_state" where
  "get_mm E w = mm (en_k E w)"

definition put_mm :: "('w, 'p) sys_env \<Rightarrow> mm_state \<Rightarrow> 'w \<Rightarrow> 'w" where
  "put_mm E h w = en_set_k E ((en_k E w)\<lparr>mm := h\<rparr>) w"

definition on_mm :: "('w, 'p) sys_env \<Rightarrow> (mm_state \<Rightarrow> mm_state) \<Rightarrow> 'w sys \<Rightarrow> 'w sys" where
  "on_mm E f s = s\<lparr>sy_w := put_mm E (f (get_mm E (sy_w s))) (sy_w s)\<rparr>"

definition on_w :: "('w \<Rightarrow> ('r \<times> 'w) option) \<Rightarrow> 'w sys \<Rightarrow> ('r \<times> 'w sys) option" where
  "on_w f s = (case f (sy_w s) of None \<Rightarrow> None | Some (r, w) \<Rightarrow> Some (r, s\<lparr>sy_w := w\<rparr>))"

definition on_k :: "('w, 'p) sys_env \<Rightarrow> (kstate \<Rightarrow> ('r \<times> kstate) option) \<Rightarrow> 'w sys \<Rightarrow> ('r \<times> 'w sys) option" where
  "on_k E f s = (case f (the_k E s) of None \<Rightarrow> None | Some (r, k) \<Rightarrow> Some (r, set_k E k s))"

definition k_malloc :: "('w, 'p) sys_env \<Rightarrow> nat \<Rightarrow> 'w sys \<Rightarrow> (addr \<times> 'w sys) option" where
  "k_malloc E n s = (case kmalloc (the_mm E s) n of None \<Rightarrow> None | Some (a, h) \<Rightarrow> Some (a, on_mm E (\<lambda>_. h) s))"

definition k_free :: "('w, 'p) sys_env \<Rightarrow> addr \<Rightarrow> 'w sys \<Rightarrow> 'w sys option" where
  "k_free E a s = (case kfree (the_mm E s) a of None \<Rightarrow> None | Some h \<Rightarrow> Some (on_mm E (\<lambda>_. h) s))"

text \<open>Leaving the processor to others until this task runs again.\<close>

definition pause :: "('w, 'p) sys_env \<Rightarrow> ((kstate \<Rightarrow> kstate) list \<Rightarrow> kstate \<Rightarrow> kstate option) \<Rightarrow> 'w wait \<Rightarrow> 'w sys \<Rightarrow> 'w sys option" where
  "pause E go wt s = (case go (fst wt) (the_k E s) of None \<Rightarrow> None | Some k \<Rightarrow> Some (snd wt (set_k E k s)))"

text \<open>The table that \<^verbatim>\<open>fd_current\<close> returns; one entry of it changed.\<close>

definition this_slot :: "('w, 'p) sys_env \<Rightarrow> 'w sys \<Rightarrow> nat option" where
  "this_slot E s = current_task_slot (the_k E s)"

definition cur_fds :: "('w, 'p) sys_env \<Rightarrow> 'w sys \<Rightarrow> fd_entry list" where
  "cur_fds E s = fd_table (this_slot E s) (sy_fds s)"

definition set_fds :: "nat option \<Rightarrow> fd_entry list \<Rightarrow> 'w sys \<Rightarrow> 'w sys" where
  "set_fds slot fds s = s\<lparr>sy_fds := set_fd_table slot fds (sy_fds s)\<rparr>"

definition upd_fd :: "nat option \<Rightarrow> nat \<Rightarrow> (fd_entry \<Rightarrow> fd_entry) \<Rightarrow> 'w sys \<Rightarrow> 'w sys" where
  "upd_fd slot fd f s = (let fds = fd_table slot (sy_fds s) in set_fds slot (fds[fd := f (fds ! fd)]) s)"

text \<open>The check of \<^verbatim>\<open>g_root_fs_for_syscalls\<close>, and the copied path of a call.\<close>

definition with_root :: "'w sys \<Rightarrow> (vfs \<Rightarrow> (nat \<times> 'w sys) option) \<Rightarrow> (nat \<times> 'w sys) option" where
  "with_root s f = (case g_root_fs s of None \<Rightarrow> ret (- K_ENODEV) s | Some v \<Rightarrow> f v)"

definition with_path :: "('w, 'p) sys_env \<Rightarrow> addr \<Rightarrow> 'w sys \<Rightarrow> (string \<Rightarrow> (nat \<times> 'w sys) option) \<Rightarrow> (nat \<times> 'w sys) option" where
  "with_path E user s f = (case copy_user_path (the_mm E s) user 256 of None \<Rightarrow> ret (- K_EINVAL) s | Some p \<Rightarrow> f p)"

text \<open>A read through the VFS into the buffer at \<open>buf\<close>, a write of the \<open>n\<close> bytes there, and device control.\<close>

definition read_into :: "('w, 'p) sys_env \<Rightarrow> vfs \<Rightarrow> string \<Rightarrow> addr \<Rightarrow> nat \<Rightarrow> 'w sys \<Rightarrow> (int \<times> 'w sys) option" where
  "read_into E v path buf n s =
     (case vfs_read (en_tab E) v path n (sy_w s) of
        None \<Rightarrow> None
      | Some (Ret (r, bs), w) \<Rightarrow> Some (r, on_mm E (uput buf bs) (s\<lparr>sy_w := w\<rparr>))
      | Some (Dev_call f c, w) \<Rightarrow> en_dev_read E f c buf n (s\<lparr>sy_w := w\<rparr>))"

definition write_from :: "('w, 'p) sys_env \<Rightarrow> vfs \<Rightarrow> string \<Rightarrow> addr \<Rightarrow> nat \<Rightarrow> 'w sys \<Rightarrow> (int \<times> 'w sys) option" where
  "write_from E v path buf n s =
     (case vfs_write (en_tab E) v path (uget (the_mm E s) buf n) (sy_w s) of
        None \<Rightarrow> None
      | Some (Ret r, w) \<Rightarrow> Some (r, s\<lparr>sy_w := w\<rparr>)
      | Some (Dev_call f c, w) \<Rightarrow> en_dev_write E f c buf n (s\<lparr>sy_w := w\<rparr>))"

definition append_from :: "('w, 'p) sys_env \<Rightarrow> vfs \<Rightarrow> string \<Rightarrow> addr \<Rightarrow> nat \<Rightarrow> 'w sys \<Rightarrow> (int \<times> 'w sys) option" where
  "append_from E v path buf n s =
     (case vfs_append (en_tab E) v path (uget (the_mm E s) buf n) (sy_w s) of
        None \<Rightarrow> None
      | Some (Ret r, w) \<Rightarrow> Some (r, s\<lparr>sy_w := w\<rparr>)
      | Some (Dev_call f c, w) \<Rightarrow> en_dev_write E f c buf n (s\<lparr>sy_w := w\<rparr>))"

definition control :: "('w, 'p) sys_env \<Rightarrow> vfs \<Rightarrow> string \<Rightarrow> nat \<Rightarrow> addr \<Rightarrow> 'w sys \<Rightarrow> (int \<times> 'w sys) option" where
  "control E v path req arg s =
     (case vfs_ioctl (en_tab E) v path req arg (sy_w s) of
        None \<Rightarrow> None
      | Some (Ret r, w) \<Rightarrow> Some (r, s\<lparr>sy_w := w\<rparr>)
      | Some (Dev_call f c, w) \<Rightarrow> en_dev_ioctl E f c req arg (s\<lparr>sy_w := w\<rparr>))"

text \<open>\<^verbatim>\<open>memcpy\<close> between two places that the task sees.\<close>

definition u_copy :: "('w, 'p) sys_env \<Rightarrow> addr \<Rightarrow> addr \<Rightarrow> nat \<Rightarrow> 'w sys \<Rightarrow> 'w sys" where
  "u_copy E dst src n s = on_mm E (\<lambda>h. uput dst (uget h src n) h) s"

end
