(* ===== verification/Sys_Files.thy ===== *)
theory Sys_Files
  imports Sys_State
begin

section \<open>System calls on files and descriptors\<close>

text \<open>
  The cases of \<^verbatim>\<open>do_syscall_impl\<close> in \<^verbatim>\<open>src/kernel/drivers/syscall.c\<close> that work on files and descriptors, one
  function for each, with the registers as arguments.
\<close>

definition S_IFIFO :: nat where "S_IFIFO = 4096"
definition S_IFCHR :: nat where "S_IFCHR = 8192"
definition S_IFDIR :: nat where "S_IFDIR = 16384"
definition S_IFREG :: nat where "S_IFREG = 32768"
definition S_IFSOCK :: nat where "S_IFSOCK = 49152"
definition S_IRUSR :: nat where "S_IRUSR = 256"
definition S_IWUSR :: nat where "S_IWUSR = 128"
definition S_IXUSR :: nat where "S_IXUSR = 64"

definition SEEK_SET :: nat where "SEEK_SET = 0"
definition SEEK_CUR :: nat where "SEEK_CUR = 1"
definition SEEK_END :: nat where "SEEK_END = 2"

text \<open>The flags are different bits, so that \<^verbatim>\<open>|\<close> is their sum.\<close>

definition vfs_mode_from_info :: "vfs_info \<Rightarrow> nat" where
  "vfs_mode_from_info info =
     (case vi_type info of
        VFS_NODE_DIR \<Rightarrow> S_IFDIR + S_IRUSR + S_IWUSR + S_IXUSR
      | VFS_NODE_FIFO \<Rightarrow> S_IFIFO + S_IRUSR + S_IWUSR
      | VFS_NODE_SOCKET \<Rightarrow> S_IFSOCK + S_IRUSR + S_IWUSR
      | VFS_NODE_DEVICE \<Rightarrow> S_IFCHR + S_IRUSR + S_IWUSR
      | VFS_NODE_CHARDEV \<Rightarrow> S_IFCHR + S_IRUSR + S_IWUSR
      | VFS_NODE_BLOCKDEV \<Rightarrow> S_IFCHR + S_IRUSR + S_IWUSR
      | _ \<Rightarrow> S_IFREG + S_IRUSR + S_IWUSR)"

subsection \<open>Reading and writing\<close>

text \<open>A regular file is read as a whole into memory of the kernel; the part at the offset goes to the task.\<close>

definition read_file_at :: "('w, 'p) sys_env \<Rightarrow> vfs \<Rightarrow> nat option \<Rightarrow> string \<Rightarrow> vfs_info \<Rightarrow> nat \<Rightarrow> addr \<Rightarrow> nat \<Rightarrow> 'w sys \<Rightarrow> (nat \<times> 'w sys) option" where
  "read_file_at E v slot path info ebx ecx edx s =
     (let off = fe_offset (fd_table slot (sy_fds s) ! ebx) in
      if off \<ge> vi_size info then ret 0 s
      else let to_copy = (if edx < vi_size info - off then edx else vi_size info - off) in do {
        (tmp, s1) \<leftarrow> k_malloc E (if vi_size info \<noteq> 0 then vi_size info else 1) s;
        if tmp = 0 then ret (- K_ENOMEM) s1
        else do {
          (n, s2) \<leftarrow> read_into E v path tmp (vi_size info) s1;
          if n < 0 then do { s3 \<leftarrow> k_free E tmp s2; ret (- K_EIO) s3 }
          else do {
            s3 \<leftarrow> k_free E tmp (u_copy E ecx (add32 tmp off) to_copy s2);
            ret (int to_copy) (upd_fd slot ebx (\<lambda>e. e\<lparr>fe_offset := add32 off to_copy\<rparr>) s3) } } })"

definition is_stream :: "vfs_node_type \<Rightarrow> bool" where
  "is_stream t \<longleftrightarrow> t = VFS_NODE_FIFO \<or> t = VFS_NODE_SOCKET"

text \<open>Anything else is read directly; an empty pipe or socket that may not block is an error.\<close>

definition read_stream_to :: "('w, 'p) sys_env \<Rightarrow> vfs \<Rightarrow> nat option \<Rightarrow> string \<Rightarrow> nat \<Rightarrow> addr \<Rightarrow> nat \<Rightarrow> 'w sys \<Rightarrow> (nat \<times> 'w sys) option" where
  "read_stream_to E v slot path ebx ecx edx s = do {
     (n, s1) \<leftarrow> read_into E v path ecx edx s;
     if n = 0 \<and> has_flag (fe_open_flags (fd_table slot (sy_fds s1) ! ebx)) O_NONBLOCK
     then do {
       (info, s2) \<leftarrow> on_w (vfs_get_info (en_tab E) v path) s1;
       (case info of
          None \<Rightarrow> ret n s2
        | Some i \<Rightarrow> if is_stream (vi_type i) then ret (- K_EAGAIN) s2 else ret n s2) }
     else if n < 0 then ret (- K_EIO) s1 else ret n s1 }"

definition sys_read :: "('w, 'p) sys_env \<Rightarrow> nat \<Rightarrow> addr \<Rightarrow> nat \<Rightarrow> 'w sys \<Rightarrow> (nat \<times> 'w sys) option" where
  "sys_read E ebx ecx edx s = with_root s (\<lambda>v.
     if ecx = 0 \<or> edx = 0 then ret 0 s
     else case fd_path ebx (cur_fds E s) of
       None \<Rightarrow> ret (- K_EBADF) s
     | Some path \<Rightarrow> do {
         (info, s1) \<leftarrow> on_w (vfs_get_info (en_tab E) v path) s;
         (case info of
            None \<Rightarrow> read_stream_to E v (this_slot E s) path ebx ecx edx s1
          | Some i \<Rightarrow>
              if vi_type i = VFS_NODE_FILE then read_file_at E v (this_slot E s) path i ebx ecx edx s1
              else read_stream_to E v (this_slot E s) path ebx ecx edx s1) })"

text \<open>A regular file is written as a whole: its old contents with the new bytes laid over them.  The sum of
  offset and size is one of 32 bits.\<close>

definition write_file_at :: "('w, 'p) sys_env \<Rightarrow> vfs \<Rightarrow> nat option \<Rightarrow> string \<Rightarrow> vfs_info \<Rightarrow> nat \<Rightarrow> addr \<Rightarrow> nat \<Rightarrow> 'w sys \<Rightarrow> (nat \<times> 'w sys) option" where
  "write_file_at E v slot path info ebx ecx in_size s =
     (let e = fd_table slot (sy_fds s) ! ebx;
          off = (if has_flag (fe_open_flags e) O_APPEND then vi_size info else fe_offset e);
          dst_size = (if add32 off in_size > vi_size info then add32 off in_size else vi_size info) in do {
        (buf, s1) \<leftarrow> k_malloc E (if dst_size \<noteq> 0 then dst_size else 1) s;
        if buf = 0 then ret (- K_ENOMEM) s1
        else let s2 = on_mm E (uput buf (replicate dst_size NUL)) s1 in do {
          (rn, s3) \<leftarrow> (if vi_size info > 0 then read_into E v path buf (vi_size info) s2 else Some (0, s2));
          if rn < 0 then do { s4 \<leftarrow> k_free E buf s3; ret (- K_EIO) s4 }
          else do {
            (wn, s4) \<leftarrow> write_from E v path buf dst_size (u_copy E (add32 buf off) ecx in_size s3);
            s5 \<leftarrow> k_free E buf s4;
            if wn < 0 then ret (- K_EIO) s5
            else ret (int in_size) (upd_fd slot ebx (\<lambda>e. e\<lparr>fe_offset := add32 off in_size\<rparr>) s5) } } })"

definition sys_write :: "('w, 'p) sys_env \<Rightarrow> nat \<Rightarrow> addr \<Rightarrow> nat \<Rightarrow> 'w sys \<Rightarrow> (nat \<times> 'w sys) option" where
  "sys_write E ebx ecx edx s = with_root s (\<lambda>v.
     if ecx = 0 \<or> edx = 0 then ret 0 s
     else case fd_path ebx (cur_fds E s) of
       None \<Rightarrow> ret (- K_EBADF) s
     | Some path \<Rightarrow> do {
         (info, s1) \<leftarrow> on_w (vfs_get_info (en_tab E) v path) s;
         let stream = (do { (n, s2) \<leftarrow> write_from E v path ecx edx s1; ret (if n < 0 then - K_EIO else n) s2 });
         (case info of
            None \<Rightarrow> stream
          | Some i \<Rightarrow>
              if vi_type i = VFS_NODE_FILE then write_file_at E v (this_slot E s) path i ebx ecx edx s1 else stream) })"

definition sys_append :: "('w, 'p) sys_env \<Rightarrow> nat \<Rightarrow> addr \<Rightarrow> nat \<Rightarrow> 'w sys \<Rightarrow> (nat \<times> 'w sys) option" where
  "sys_append E ebx ecx edx s = with_root s (\<lambda>v.
     if ecx = 0 \<or> edx = 0 then ret 0 s
     else case fd_path ebx (cur_fds E s) of
       None \<Rightarrow> ret (- K_EBADF) s
     | Some path \<Rightarrow> do {
         (n, s1) \<leftarrow> append_from E v path ecx edx s;
         if n < 0 then ret (- K_EIO) s1
         else if n > 0 then do {
           (info, s2) \<leftarrow> on_w (vfs_get_info (en_tab E) v path) s1;
           ret n (case info of None \<Rightarrow> s2 | Some i \<Rightarrow> upd_fd (this_slot E s) ebx (\<lambda>e. e\<lparr>fe_offset := vi_size i\<rparr>) s2) }
         else ret n s1 })"

definition sys_ioctl :: "('w, 'p) sys_env \<Rightarrow> nat \<Rightarrow> nat \<Rightarrow> addr \<Rightarrow> 'w sys \<Rightarrow> (nat \<times> 'w sys) option" where
  "sys_ioctl E ebx ecx edx s = with_root s (\<lambda>v.
     case fd_path ebx (cur_fds E s) of
       None \<Rightarrow> ret (- K_EBADF) s
     | Some path \<Rightarrow> do { (r, s1) \<leftarrow> control E v path ecx edx s; ret r s1 })"

subsection \<open>Opening and closing\<close>

definition alloc_fd :: "('w, 'p) sys_env \<Rightarrow> string \<Rightarrow> nat \<Rightarrow> 'w sys \<Rightarrow> nat option \<times> 'w sys" where
  "alloc_fd E path flags s =
     (case fd_alloc path flags (cur_fds E s) of (r, fds) \<Rightarrow> (r, set_fds (this_slot E s) fds s))"

definition sys_open :: "('w, 'p) sys_env \<Rightarrow> addr \<Rightarrow> nat \<Rightarrow> 'w sys \<Rightarrow> (nat \<times> 'w sys) option" where
  "sys_open E ebx ecx s = with_root s (\<lambda>v. with_path E ebx s (\<lambda>path. do {
     let opened = (\<lambda>s. case alloc_fd E path ecx s of (None, s') \<Rightarrow> ret (- K_ENFILE) s' | (Some fd, s') \<Rightarrow> ret (int fd) s');
     (inode_fd, s1) \<leftarrow> on_w (vfs_open (en_tab E) v path) s;
     if inode_fd \<ge> 0 then opened s1
     else if has_flag ecx O_CREAT \<or> odd ecx then do {
       (r, s2) \<leftarrow> on_w (vfs_create_file (en_tab E) v path) s1;
       if r \<noteq> 0 then ret (- K_EACCES) s2
       else do {
         (inode_fd2, s3) \<leftarrow> on_w (vfs_open (en_tab E) v path) s2;
         if inode_fd2 < 0 then ret (- K_ENOENT) s3 else opened s3 } }
     else ret (- K_ENOENT) s1 }))"

text \<open>The last descriptor of a pipe removes it; the result of the removal is not looked at.\<close>

definition drop_pipe :: "('w, 'p) sys_env \<Rightarrow> nat \<Rightarrow> 'w sys \<Rightarrow> 'w sys option" where
  "drop_pipe E fd s =
     (let fds = cur_fds E s; e = fds ! fd in
      if fe_kind e = FD_KIND_VFS \<and> fe_pipe_auto_unlink e \<and> \<not> fd_has_path_ref (fe_path e) fd fds
      then (case g_root_fs s of
          None \<Rightarrow> Some s
        | Some v \<Rightarrow> map_option snd (on_w (vfs_unlink (en_tab E) v (fe_path e)) s))
      else Some s)"

definition close_entry :: "('w, 'p) sys_env \<Rightarrow> nat option \<Rightarrow> nat \<Rightarrow> 'w sys \<Rightarrow> 'w sys option" where
  "close_entry E slot fd s = do {
     let e = fd_table slot (sy_fds s) ! fd;
     s1 \<leftarrow> drop_pipe E fd (s\<lparr>sy_udp := release_socket e (sy_udp s)\<rparr>);
     Some (upd_fd slot fd (\<lambda>_. closed_fd) s1) }"

definition sys_close :: "('w, 'p) sys_env \<Rightarrow> nat \<Rightarrow> 'w sys \<Rightarrow> (nat \<times> 'w sys) option" where
  "sys_close E ebx s =
     (if ebx \<ge> FD_MAX \<or> \<not> fe_used (cur_fds E s ! ebx) then ret (- K_EBADF) s
      else do { s1 \<leftarrow> close_entry E (this_slot E s) ebx s; ret 0 s1 })"

text \<open>The descriptors from \<open>n\<close> on that are to be closed when a program starts.\<close>

primrec close_cloexec_loop :: "('w, 'p) sys_env \<Rightarrow> nat option \<Rightarrow> nat list \<Rightarrow> 'w sys \<Rightarrow> 'w sys option" where
  "close_cloexec_loop E slot [] s = Some s"
| "close_cloexec_loop E slot (i # is) s =
     (let e = fd_table slot (sy_fds s) ! i in
      if \<not> fe_used e \<or> \<not> has_flag (fe_fd_flags e) FD_CLOEXEC then close_cloexec_loop E slot is s
      else do { s1 \<leftarrow> close_entry E slot i s; close_cloexec_loop E slot is s1 })"

definition close_cloexec_fds :: "('w, 'p) sys_env \<Rightarrow> 'w sys \<Rightarrow> 'w sys option" where
  "close_cloexec_fds E s = close_cloexec_loop E (this_slot E s) [3..<FD_MAX] s"

subsection \<open>Directories and names\<close>

text \<open>The calls that only pass a path on; the first group answers 0 or -1.\<close>

definition path_call :: "('w, 'p) sys_env \<Rightarrow> (vfs \<Rightarrow> string \<Rightarrow> 'w \<Rightarrow> (int \<times> 'w) option) \<Rightarrow> (int \<Rightarrow> int) \<Rightarrow> addr \<Rightarrow> 'w sys \<Rightarrow> (nat \<times> 'w sys) option" where
  "path_call E f g ebx s = with_root s (\<lambda>v. with_path E ebx s (\<lambda>path. do { (r, s1) \<leftarrow> on_w (f v path) s; ret (g r) s1 }))"

definition zero_or_minus_one :: "int \<Rightarrow> int" where "zero_or_minus_one r = (if r = 0 then 0 else -1)"

definition sys_mkdir :: "('w, 'p) sys_env \<Rightarrow> addr \<Rightarrow> 'w sys \<Rightarrow> (nat \<times> 'w sys) option" where
  "sys_mkdir E = path_call E (vfs_mkdir (en_tab E)) zero_or_minus_one"
definition sys_mkfifo :: "('w, 'p) sys_env \<Rightarrow> addr \<Rightarrow> 'w sys \<Rightarrow> (nat \<times> 'w sys) option" where
  "sys_mkfifo E = path_call E (vfs_mkfifo (en_tab E)) zero_or_minus_one"
definition sys_mksock :: "('w, 'p) sys_env \<Rightarrow> addr \<Rightarrow> 'w sys \<Rightarrow> (nat \<times> 'w sys) option" where
  "sys_mksock E = path_call E (vfs_mksock (en_tab E)) zero_or_minus_one"
definition sys_unlink :: "('w, 'p) sys_env \<Rightarrow> addr \<Rightarrow> 'w sys \<Rightarrow> (nat \<times> 'w sys) option" where
  "sys_unlink E = path_call E (vfs_unlink (en_tab E)) (\<lambda>r. r)"
definition sys_rmdir :: "('w, 'p) sys_env \<Rightarrow> addr \<Rightarrow> 'w sys \<Rightarrow> (nat \<times> 'w sys) option" where
  "sys_rmdir E = path_call E (vfs_rmdir (en_tab E)) (\<lambda>r. r)"

definition sys_link :: "('w, 'p) sys_env \<Rightarrow> addr \<Rightarrow> addr \<Rightarrow> 'w sys \<Rightarrow> (nat \<times> 'w sys) option" where
  "sys_link E ebx ecx s = with_root s (\<lambda>v. with_path E ebx s (\<lambda>oldpath. with_path E ecx s (\<lambda>newpath. do {
     (r, s1) \<leftarrow> on_w (vfs_link (en_tab E) v oldpath newpath) s;
     ret (if r = 0 then 0 else - K_EIO) s1 })))"

text \<open>A listing is stored with its terminating null.\<close>

definition sys_list :: "('w, 'p) sys_env \<Rightarrow> addr \<Rightarrow> addr \<Rightarrow> nat \<Rightarrow> 'w sys \<Rightarrow> (nat \<times> 'w sys) option" where
  "sys_list E ebx ecx edx s = with_root s (\<lambda>v.
     if ecx = 0 \<or> edx = 0 then ret (- K_EINVAL) s
     else with_path E ebx s (\<lambda>path. do {
       ((n, out), s1) \<leftarrow> on_w (vfs_list (en_tab E) v path edx) s;
       if n < 0 then ret (- K_EIO) s1 else ret n (on_mm E (uput ecx (out @ [NUL])) s1) }))"

definition sys_list_mounts :: "('w, 'p) sys_env \<Rightarrow> addr \<Rightarrow> nat \<Rightarrow> 'w sys \<Rightarrow> (nat \<times> 'w sys) option" where
  "sys_list_mounts E ebx ecx s = with_root s (\<lambda>v.
     if ebx = 0 \<or> ecx = 0 then ret (- K_EINVAL) s
     else (case vfs_list_mounts v ecx of
         (n, out) \<Rightarrow> if n < 0 then ret (- K_EIO) s else ret n (on_mm E (uput ebx (out @ [NUL])) s)))"

subsection \<open>Information, offsets, copies of descriptors\<close>

definition stat_bytes :: "vfs_info \<Rightarrow> byte list" where
  "stat_bytes i = le32 (vfs_mode_from_info i) @ le32 (vi_size i)"

definition sys_stat :: "('w, 'p) sys_env \<Rightarrow> addr \<Rightarrow> addr \<Rightarrow> 'w sys \<Rightarrow> (nat \<times> 'w sys) option" where
  "sys_stat E ebx ecx s = with_root s (\<lambda>v.
     if ecx = 0 then ret (- K_EINVAL) s
     else with_path E ebx s (\<lambda>path. do {
       (info, s1) \<leftarrow> on_w (vfs_get_info (en_tab E) v path) s;
       (case info of None \<Rightarrow> ret (- K_ENOENT) s1 | Some i \<Rightarrow> ret 0 (on_mm E (uput ecx (stat_bytes i)) s1)) }))"

definition sys_fstat :: "('w, 'p) sys_env \<Rightarrow> nat \<Rightarrow> addr \<Rightarrow> 'w sys \<Rightarrow> (nat \<times> 'w sys) option" where
  "sys_fstat E ebx ecx s = with_root s (\<lambda>v.
     if ecx = 0 then ret (- K_EINVAL) s
     else case fd_path ebx (cur_fds E s) of
       None \<Rightarrow> ret (- K_EBADF) s
     | Some path \<Rightarrow> do {
         (info, s1) \<leftarrow> on_w (vfs_get_info (en_tab E) v path) s;
         (case info of None \<Rightarrow> ret (- K_EIO) s1 | Some i \<Rightarrow> ret 0 (on_mm E (uput ecx (stat_bytes i)) s1)) })"

text \<open>The sums of \<^verbatim>\<open>lseek\<close> are ones of \<^verbatim>\<open>int32_t\<close>.\<close>

definition wrap_int32 :: "int \<Rightarrow> int" where "wrap_int32 x = to_int32 (u32 x)"

definition lseek_target :: "nat \<Rightarrow> int \<Rightarrow> nat \<Rightarrow> nat \<Rightarrow> int option" where
  "lseek_target whence off cur end_pos =
     (if whence = SEEK_SET then Some off
      else if whence = SEEK_CUR then Some (wrap_int32 (to_int32 cur + off))
      else if whence = SEEK_END then Some (wrap_int32 (to_int32 end_pos + off))
      else None)"

definition sys_lseek :: "('w, 'p) sys_env \<Rightarrow> nat \<Rightarrow> nat \<Rightarrow> nat \<Rightarrow> 'w sys \<Rightarrow> (nat \<times> 'w sys) option" where
  "sys_lseek E ebx ecx edx s =
     (case fd_path ebx (cur_fds E s) of
        None \<Rightarrow> ret (- K_EBADF) s
      | Some path \<Rightarrow> do {
          (info, s1) \<leftarrow> (case g_root_fs s of None \<Rightarrow> Some (None, s) | Some v \<Rightarrow> on_w (vfs_get_info (en_tab E) v path) s);
          (case info of
             None \<Rightarrow> ret (- K_EIO) s1
           | Some i \<Rightarrow>
               if vi_type i \<noteq> VFS_NODE_FILE then ret (- K_ENOTSUP) s1
               else (case lseek_target edx (to_int32 ecx) (fe_offset (fd_table (this_slot E s) (sy_fds s1) ! ebx)) (vi_size i) of
                   None \<Rightarrow> ret (- K_EINVAL) s1
                 | Some np \<Rightarrow>
                     if np < 0 then ret (- K_EINVAL) s1
                     else ret np (upd_fd (this_slot E s) ebx (\<lambda>e. e\<lparr>fe_offset := nat np\<rparr>) s1))) })"

text \<open>A call on the table of the running task and the sockets.\<close>

definition on_fds :: "('w, 'p) sys_env \<Rightarrow> (fd_entry list \<Rightarrow> udp_state \<Rightarrow> int \<times> fd_entry list \<times> udp_state) \<Rightarrow> 'w sys \<Rightarrow> (nat \<times> 'w sys) option" where
  "on_fds E f s = (case f (cur_fds E s) (sy_udp s) of (r, fds, u) \<Rightarrow> ret r (set_fds (this_slot E s) fds (s\<lparr>sy_udp := u\<rparr>)))"

definition sys_dup :: "('w, 'p) sys_env \<Rightarrow> nat \<Rightarrow> 'w sys \<Rightarrow> (nat \<times> 'w sys) option" where
  "sys_dup E ebx = on_fds E (fd_dup_from_to ebx 0 False)"
definition sys_dup2 :: "('w, 'p) sys_env \<Rightarrow> nat \<Rightarrow> nat \<Rightarrow> 'w sys \<Rightarrow> (nat \<times> 'w sys) option" where
  "sys_dup2 E ebx ecx = on_fds E (fd_dup_from_to ebx ecx True)"
definition do_fcntl :: "('w, 'p) sys_env \<Rightarrow> nat \<Rightarrow> nat \<Rightarrow> nat \<Rightarrow> 'w sys \<Rightarrow> (nat \<times> 'w sys) option" where
  "do_fcntl E ebx ecx edx = on_fds E (sys_fcntl ebx ecx edx)"

subsection \<open>Pipes\<close>

definition pipe_path :: "nat \<Rightarrow> nat \<Rightarrow> string" where
  "pipe_path pid seq = ''/tmp/.pipe_'' @ rev (rdigits 10 pid) @ ''_'' @ rev (rdigits 10 seq)"

text \<open>The number of the next pipe, never 0.\<close>

definition take_seq :: "'w sys \<Rightarrow> nat \<times> 'w sys" where
  "take_seq s =
     (let q = g_pipe_seq s; n = add32 q 1 in
      if q = 0 then (n, s\<lparr>g_pipe_seq := add32 n 1\<rparr>) else (q, s\<lparr>g_pipe_seq := n\<rparr>))"

text \<open>The descriptors of a pipe that was just created.\<close>

definition pipe_fds :: "('w, 'p) sys_env \<Rightarrow> vfs \<Rightarrow> nat option \<Rightarrow> addr \<Rightarrow> string \<Rightarrow> 'w sys \<Rightarrow> (nat \<times> 'w sys) option" where
  "pipe_fds E v slot ebx path s =
     (case alloc_fd E path 0 s of
        (None, s1) \<Rightarrow> do { (_, s2) \<leftarrow> on_w (vfs_unlink (en_tab E) v path) s1; ret (- K_ENFILE) s2 }
      | (Some fdr, s1) \<Rightarrow>
          (case alloc_fd E path 0 s1 of
             (None, s2) \<Rightarrow> do {
               (_, s3) \<leftarrow> on_w (vfs_unlink (en_tab E) v path) (upd_fd (this_slot E s2) fdr (\<lambda>_. closed_fd) s2);
               ret (- K_ENFILE) s3 }
           | (Some fdw, s2) \<Rightarrow>
               let s3 = upd_fd slot fdw (\<lambda>e. e\<lparr>fe_pipe_auto_unlink := True\<rparr>) (upd_fd slot fdr (\<lambda>e. e\<lparr>fe_pipe_auto_unlink := True\<rparr>) s2)
               in ret 0 (on_mm E (ustore32 (add32 ebx 4) fdw) (on_mm E (ustore32 ebx fdr) s3))))"

primrec pipe_loop :: "('w, 'p) sys_env \<Rightarrow> vfs \<Rightarrow> nat option \<Rightarrow> addr \<Rightarrow> nat \<Rightarrow> 'w sys \<Rightarrow> (nat \<times> 'w sys) option" where
  "pipe_loop E v slot ebx 0 s = ret (- K_EBUSY) s"
| "pipe_loop E v slot ebx (Suc tries) s =
     (let pid = (case current_task (the_k E s) of None \<Rightarrow> 0 | Some c \<Rightarrow> t_pid (tasks (the_k E s) ! c));
          (seq, s1) = take_seq s; path = pipe_path pid seq in do {
        (r, s2) \<leftarrow> on_w (vfs_mkfifo (en_tab E) v path) s1;
        if r = 0 then pipe_fds E v slot ebx path s2 else pipe_loop E v slot ebx tries s2 })"

definition sys_pipe :: "('w, 'p) sys_env \<Rightarrow> addr \<Rightarrow> 'w sys \<Rightarrow> (nat \<times> 'w sys) option" where
  "sys_pipe E ebx s = with_root s (\<lambda>v.
     if ebx = 0 then ret (- K_EINVAL) s else pipe_loop E v (this_slot E s) ebx 32 s)"

end
