(* ===== verification/Sys_Tasks.thy ===== *)
theory Sys_Tasks
  imports Sys_Files
begin

section \<open>System calls on tasks and programs\<close>

text \<open>
  The cases of \<^verbatim>\<open>do_syscall_impl\<close> that start, stop and wait for tasks, and the functions that the new tasks run first.
  A call returns, enters user mode, or its task is gone.
\<close>

datatype outcome = Returns nat | Jumps nat nat nat "saved_regs option" | Gone

definition returning :: "(nat \<times> 'w sys) option \<Rightarrow> (outcome \<times> 'w sys) option" where
  "returning x = map_option (\<lambda>(r, s). (Returns r, s)) x"

text \<open>\<^verbatim>\<open>task_exit\<close>: another task runs, this one does not again.\<close>

definition leave :: "('w, 'p) sys_env \<Rightarrow> (kstate \<Rightarrow> kstate) list \<Rightarrow> 'w sys \<Rightarrow> (outcome \<times> 'w sys) option" where
  "leave E irqs s = (case task_exit irqs (the_k E s) of None \<Rightarrow> None | Some k \<Rightarrow> Some (Gone, set_k E k s))"

definition upd_current :: "('w, 'p) sys_env \<Rightarrow> (task \<Rightarrow> task) \<Rightarrow> 'w sys \<Rightarrow> 'w sys" where
  "upd_current E f s = (case current_task (the_k E s) of None \<Rightarrow> s | Some c \<Rightarrow> set_k E (upd_task c f (the_k E s)) s)"

subsection \<open>Time and the running task\<close>

definition sys_yield :: "('w, 'p) sys_env \<Rightarrow> 'w wait list \<Rightarrow> 'w sys \<Rightarrow> (nat \<times> 'w sys) option" where
  "sys_yield E waits s = (case waits of [] \<Rightarrow> None | wt # _ \<Rightarrow> do { s1 \<leftarrow> pause E task_yield wt s; ret 0 s1 })"

definition sys_sleep :: "('w, 'p) sys_env \<Rightarrow> 'w wait list \<Rightarrow> nat \<Rightarrow> 'w sys \<Rightarrow> (nat \<times> 'w sys) option" where
  "sys_sleep E waits ebx s =
     (if ebx = 0 then ret 0 s
      else case waits of [] \<Rightarrow> None | wt # _ \<Rightarrow> do { s1 \<leftarrow> pause E (\<lambda>irqs. sleep irqs ebx) wt s; ret 0 s1 })"

definition sys_get_ticks :: "('w, 'p) sys_env \<Rightarrow> 'w sys \<Rightarrow> (nat \<times> 'w sys) option" where
  "sys_get_ticks E s = Some (timer_get_ticks (the_k E s), s)"

definition sys_exit :: "('w, 'p) sys_env \<Rightarrow> (kstate \<Rightarrow> kstate) list \<Rightarrow> nat \<Rightarrow> 'w sys \<Rightarrow> (outcome \<times> 'w sys) option" where
  "sys_exit E irqs ebx s = leave E irqs (upd_current E (\<lambda>t. t\<lparr>t_exit_status := to_int32 ebx, t_term_signal := 0\<rparr>) s)"

definition sys_getpid :: "('w, 'p) sys_env \<Rightarrow> 'w sys \<Rightarrow> (nat \<times> 'w sys) option" where
  "sys_getpid E s = Some (case current_task (the_k E s) of None \<Rightarrow> 0 | Some c \<Rightarrow> t_pid (tasks (the_k E s) ! c), s)"

definition sys_getppid :: "('w, 'p) sys_env \<Rightarrow> 'w sys \<Rightarrow> (nat \<times> 'w sys) option" where
  "sys_getppid E s = Some (case current_task (the_k E s) of None \<Rightarrow> 0 | Some c \<Rightarrow> t_ppid (tasks (the_k E s) ! c), s)"

primrec state_code :: "task_state \<Rightarrow> int" where
  "state_code TASK_READY = 0"
| "state_code TASK_RUNNING = 1"
| "state_code TASK_BLOCKED = 2"
| "state_code TASK_TERMINATED = 3"

definition sys_task_state :: "('w, 'p) sys_env \<Rightarrow> nat \<Rightarrow> 'w sys \<Rightarrow> (nat \<times> 'w sys) option" where
  "sys_task_state E ebx s = ret (case task_state_by_pid ebx (the_k E s) of None \<Rightarrow> -1 | Some st \<Rightarrow> state_code st) s"

text \<open>Killing the running task does not come back.\<close>

definition kills_itself :: "kstate \<Rightarrow> nat \<Rightarrow> bool" where
  "kills_itself k pid =
     (case task_find_by_pid pid k of
        None \<Rightarrow> False
      | Some i \<Rightarrow> Some i = current_task k \<and> Some i \<noteq> idle_ptr k \<and> t_state (tasks k ! i) \<noteq> TASK_TERMINATED)"

definition sys_task_kill :: "('w, 'p) sys_env \<Rightarrow> (kstate \<Rightarrow> kstate) list \<Rightarrow> nat \<Rightarrow> nat \<Rightarrow> 'w sys \<Rightarrow> (outcome \<times> 'w sys) option" where
  "sys_task_kill E irqs ebx ecx s =
     (let sig = (if ecx = 0 then 15 else ecx) in
      if sig \<noteq> 2 \<and> sig \<noteq> 9 \<and> sig \<noteq> 15 then returning (ret (- K_EINVAL) s)
      else do {
        (r, s1) \<leftarrow> on_k E (task_terminate_by_pid irqs ebx (int (128 + sig)) sig) s;
        if kills_itself (the_k E s) ebx then Some (Gone, s1)
        else returning (ret (zero_or_minus_one r) s1) })"

text \<open>There is a child, none of them has ended, and the caller wants to wait.\<close>

definition has_to_wait :: "int \<Rightarrow> nat \<Rightarrow> kstate \<Rightarrow> bool" where
  "has_to_wait pid options k =
     (case current_task k of
        None \<Rightarrow> False
      | Some cur \<Rightarrow>
          find (\<lambda>i. is_child k cur pid i \<and> t_state (tasks k ! i) = TASK_TERMINATED) [0..<task_count k] = None \<and>
          (\<exists>i \<in> set [0..<task_count k]. is_child k cur pid i) \<and> \<not> odd options)"

primrec waitpid_loop :: "('w, 'p) sys_env \<Rightarrow> int \<Rightarrow> nat \<Rightarrow> 'w wait list \<Rightarrow> 'w sys \<Rightarrow> ((int \<times> int option) \<times> 'w sys) option" where
  "waitpid_loop E pid options [] s = on_k E (\<lambda>k. map_option (\<lambda>(r, st, k'). ((r, st), k')) (task_waitpid [] pid options k)) s"
| "waitpid_loop E pid options (wt # ws) s =
     (if has_to_wait pid options (the_k E s)
      then do { s1 \<leftarrow> pause E task_yield wt s; waitpid_loop E pid options ws s1 }
      else on_k E (\<lambda>k. map_option (\<lambda>(r, st, k'). ((r, st), k')) (task_waitpid [] pid options k)) s)"

definition sys_waitpid :: "('w, 'p) sys_env \<Rightarrow> 'w wait list \<Rightarrow> nat \<Rightarrow> addr \<Rightarrow> nat \<Rightarrow> 'w sys \<Rightarrow> (nat \<times> 'w sys) option" where
  "sys_waitpid E waits ebx ecx edx s = do {
     ((r, st), s1) \<leftarrow> waitpid_loop E (to_int32 ebx) edx waits s;
     if r < 0 then ret (- K_ECHILD) s1
     else ret r (if ecx \<noteq> 0 then on_mm E (ustore32 ecx (u32 (case st of None \<Rightarrow> 0 | Some x \<Rightarrow> x))) s1 else s1) }"

subsection \<open>Running a program\<close>

definition make_stack :: "('w, 'p) sys_env \<Rightarrow> string \<Rightarrow> 'w sys \<Rightarrow> (addr option \<times> 'w sys) option" where
  "make_stack E cmdline s =
     (case build_user_stack_from_cmdline cmdline (the_mm E s) of
        None \<Rightarrow> None
      | Some (r, h) \<Rightarrow> Some (r, on_mm E (\<lambda>_. h) s))"

text \<open>The end of \<^verbatim>\<open>exec\<close>: a caller in the kernel is left at once, a caller in user mode returns into the program.\<close>

definition enter_program :: "('w, 'p) sys_env \<Rightarrow> nat \<Rightarrow> addr \<Rightarrow> 'w sys \<Rightarrow> (outcome \<times> 'w sys) option" where
  "enter_program E entry user_esp s =
     (case sy_frame s of
        None \<Rightarrow> returning (ret (- K_EINVAL) s)
      | Some f \<Rightarrow> do {
          s1 \<leftarrow> close_cloexec_fds E s;
          if fr_cs f mod 4 = 0 then Some (Jumps entry user_esp 0x202 None, s1)
          else returning (ret 0 (s1\<lparr>sy_frame := Some (f\<lparr>fr_ip := entry, fr_sp := user_esp\<rparr>)\<rparr>)) })"

text \<open>The common part of \<^verbatim>\<open>exec\<close> and \<^verbatim>\<open>execv\<close>.\<close>

definition exec_program :: "('w, 'p) sys_env \<Rightarrow> vfs \<Rightarrow> string \<Rightarrow> string option \<Rightarrow> 'w sys \<Rightarrow> (outcome \<times> 'w sys) option" where
  "exec_program E v path cmdline s = do {
     (ok, s1) \<leftarrow> on_k E ensure_current_task_user_space s;
     if \<not> ok then returning (ret (- K_ENOMEM) s1)
     else do {
       (r, s2) \<leftarrow> on_w (resolve_exec_entry (get_mm E) (put_mm E) (en_tab E) v path cmdline 512) s1;
       (case r of
          None \<Rightarrow> returning (ret (- K_ENOENT) s2)
        | Some (entry, stack_cmdline) \<Rightarrow> do {
            (esp, s3) \<leftarrow> make_stack E stack_cmdline s2;
            (case esp of
               None \<Rightarrow> returning (ret (- K_EINVAL) s3)
             | Some user_esp \<Rightarrow>
                 enter_program E entry user_esp
                   (upd_current E (\<lambda>t. t\<lparr>t_prog_path := take 255 path,
                      t_cmdline := (case cmdline of None \<Rightarrow> [] | Some _ \<Rightarrow> take 511 stack_cmdline)\<rparr>) s3)) }) } }"

definition sys_exec :: "('w, 'p) sys_env \<Rightarrow> addr \<Rightarrow> 'w sys \<Rightarrow> (outcome \<times> 'w sys) option" where
  "sys_exec E ebx s =
     (case g_root_fs s of
        None \<Rightarrow> returning (ret (- K_ENODEV) s)
      | Some v \<Rightarrow> (case copy_user_path (the_mm E s) ebx 256 of
          None \<Rightarrow> returning (ret (- K_EINVAL) s)
        | Some path \<Rightarrow> exec_program E v path None s))"

definition sys_execv :: "('w, 'p) sys_env \<Rightarrow> addr \<Rightarrow> addr \<Rightarrow> 'w sys \<Rightarrow> (outcome \<times> 'w sys) option" where
  "sys_execv E ebx ecx s =
     (case g_root_fs s of
        None \<Rightarrow> returning (ret (- K_ENODEV) s)
      | Some v \<Rightarrow> (case copy_user_path (the_mm E s) ebx 256 of
          None \<Rightarrow> returning (ret (- K_EINVAL) s)
        | Some path \<Rightarrow> (case copy_user_string (the_mm E s) ecx 512 of
            None \<Rightarrow> returning (ret (- K_EINVAL) s)
          | Some cmdline \<Rightarrow> exec_program E v path (Some cmdline) s)))"

subsection \<open>New tasks\<close>

text \<open>\<^verbatim>\<open>strncpy\<close> into an array of \<open>n\<close> bytes that ends with a null, and a string read from memory.\<close>

definition padded :: "nat \<Rightarrow> string \<Rightarrow> byte list" where
  "padded n t = take (n - 1) t @ replicate (n - length (take (n - 1) t)) NUL"

definition ustr :: "mm_state \<Rightarrow> addr \<Rightarrow> nat \<Rightarrow> string" where
  "ustr h a n = takeWhile ((\<noteq>) NUL) (uget h a n)"

text \<open>The three fields of \<^verbatim>\<open>spawn_req_t\<close> have 256, 256 and 512 bytes.\<close>

definition spawn_user_program_ex :: "('w, 'p) sys_env \<Rightarrow> string \<Rightarrow> string \<Rightarrow> string option \<Rightarrow> 'w sys \<Rightarrow> (int \<times> 'w sys) option" where
  "spawn_user_program_ex E path tty cmdline s =
     (if tty = [] \<or> hd tty \<noteq> CHR ''/'' then Some (-1, s)
      else do {
        (req, s1) \<leftarrow> k_malloc E 1024 s;
        if req = 0 then Some (-1, s1)
        else do {
          let s2 = on_mm E (uput req (padded 256 path @ padded 256 tty @ (case cmdline of None \<Rightarrow> [NUL] | Some c \<Rightarrow> padded 512 c))) s1;
          (pid, s3) \<leftarrow> on_k E (task_create (en_spawned_user_task E) req) s2;
          if pid < 0 then do { s4 \<leftarrow> k_free E req s3; Some (-1, s4) }
          else Some (pid, s3) } })"

definition spawn_user_program :: "('w, 'p) sys_env \<Rightarrow> string \<Rightarrow> string \<Rightarrow> 'w sys \<Rightarrow> (int \<times> 'w sys) option" where
  "spawn_user_program E path tty s = spawn_user_program_ex E path tty None s"

definition sys_spawn :: "('w, 'p) sys_env \<Rightarrow> addr \<Rightarrow> addr \<Rightarrow> 'w sys \<Rightarrow> (nat \<times> 'w sys) option" where
  "sys_spawn E ebx ecx s = with_root s (\<lambda>v. with_path E ebx s (\<lambda>path.
     case copy_user_string (the_mm E s) ecx 256 of
       None \<Rightarrow> ret (- K_EINVAL) s
     | Some tty \<Rightarrow>
         if tty = [] \<or> hd tty \<noteq> CHR ''/'' then ret (- K_EINVAL) s
         else do { (pid, s1) \<leftarrow> spawn_user_program E path tty s; ret (if pid < 0 then - K_EIO else pid) s1 }))"

definition sys_spawnv :: "('w, 'p) sys_env \<Rightarrow> addr \<Rightarrow> addr \<Rightarrow> addr \<Rightarrow> 'w sys \<Rightarrow> (nat \<times> 'w sys) option" where
  "sys_spawnv E ebx ecx edx s = with_root s (\<lambda>v. with_path E ebx s (\<lambda>path.
     case copy_user_string (the_mm E s) ecx 256 of
       None \<Rightarrow> ret (- K_EINVAL) s
     | Some tty \<Rightarrow> (case copy_user_string (the_mm E s) edx 512 of
           None \<Rightarrow> ret (- K_EINVAL) s
         | Some cmdline \<Rightarrow>
             if tty = [] \<or> hd tty \<noteq> CHR ''/'' then ret (- K_EINVAL) s
             else do { (pid, s1) \<leftarrow> spawn_user_program_ex E path tty (Some cmdline) s; ret (if pid < 0 then - K_EIO else pid) s1 })))"

text \<open>\<^verbatim>\<open>syscall_bind_stdio\<close> on the table of the running task, which it sets up if need be.\<close>

definition bind_stdio :: "('w, 'p) sys_env \<Rightarrow> string \<Rightarrow> 'w sys \<Rightarrow> 'w sys" where
  "bind_stdio E path s =
     (if path = [] then s
      else let slot = this_slot E s; F = fd_current slot (sy_fds s) in
        s\<lparr>sy_fds := set_fd_table slot (syscall_bind_stdio path (fd_table slot F)) F\<rparr>)"

text \<open>The request is given back on every way out.\<close>

definition free_and_leave :: "('w, 'p) sys_env \<Rightarrow> (kstate \<Rightarrow> kstate) list \<Rightarrow> addr \<Rightarrow> 'w sys \<Rightarrow> (outcome \<times> 'w sys) option" where
  "free_and_leave E irqs req s = do { s1 \<leftarrow> k_free E req s; leave E irqs s1 }"

definition spawned_user_task :: "('w, 'p) sys_env \<Rightarrow> (kstate \<Rightarrow> kstate) list \<Rightarrow> addr \<Rightarrow> 'w sys \<Rightarrow> (outcome \<times> 'w sys) option" where
  "spawned_user_task E irqs req s =
     (if req = 0 then leave E irqs s
      else let path = ustr (the_mm E s) req 256; tty = ustr (the_mm E s) (req + 256) 256; cmdline = ustr (the_mm E s) (req + 512) 512;
               s1 = upd_current E (\<lambda>t. t\<lparr>t_tty_path := take 63 tty, t_prog_path := take 255 path, t_cmdline := take 511 cmdline\<rparr>)
                      (bind_stdio E tty s) in do {
        (ok, s2) \<leftarrow> on_k E ensure_current_task_user_space s1;
        if \<not> ok then free_and_leave E irqs req s2
        else (case g_root_fs s2 of
            None \<Rightarrow> free_and_leave E irqs req s2
          | Some v \<Rightarrow> do {
              (r, s3) \<leftarrow> on_w (resolve_exec_entry (get_mm E) (put_mm E) (en_tab E) v path (if cmdline \<noteq> [] then Some cmdline else None) 512) s2;
              (case r of
                 None \<Rightarrow> free_and_leave E irqs req s3
               | Some (entry, stack_cmdline) \<Rightarrow> do {
                   (esp, s4) \<leftarrow> make_stack E stack_cmdline s3;
                   (case esp of
                      None \<Rightarrow> free_and_leave E irqs req s4
                    | Some user_esp \<Rightarrow> do { s5 \<leftarrow> k_free E req s4; Some (Jumps entry user_esp 0x202 None, s5) }) }) }) })"

definition g_shell_ttys :: "string list" where
  "g_shell_ttys = [''/dev/tty/3'', ''/dev/tty/4'', ''/dev/tty/5'', ''/dev/tty/6'', ''/dev/tty/7'', ''/dev/tty/8'', ''/dev/tty/S0'']"

primrec shells_loop :: "('w, 'p) sys_env \<Rightarrow> (kstate \<Rightarrow> kstate) list \<Rightarrow> string list \<Rightarrow> 'w wait list \<Rightarrow> 'w sys \<Rightarrow> (outcome \<times> 'w sys) option" where
  "shells_loop E irqs [] waits s = leave E irqs s"
| "shells_loop E irqs (t # ts) waits s = do {
     (pid, s1) \<leftarrow> spawn_user_program E ''/bin/sh'' t s;
     if pid \<ge> 0
     then (case waits of [] \<Rightarrow> None | wt # ws \<Rightarrow> do { s2 \<leftarrow> pause E (\<lambda>irqs. sleep irqs 10) wt s1; shells_loop E irqs ts ws s2 })
     else shells_loop E irqs ts waits s1 }"

definition sys_init_spawn_shells :: "('w, 'p) sys_env \<Rightarrow> (kstate \<Rightarrow> kstate) list \<Rightarrow> 'w wait list \<Rightarrow> 'w sys \<Rightarrow> (outcome \<times> 'w sys) option" where
  "sys_init_spawn_shells E irqs waits s = shells_loop E irqs g_shell_ttys waits s"

subsection \<open>Fork\<close>

text \<open>The words of \<^verbatim>\<open>fork_child_ctx_t\<close>, then its three strings.\<close>

definition fork_ctx :: "iframe \<Rightarrow> saved_regs \<Rightarrow> nat \<Rightarrow> nat \<Rightarrow> nat \<Rightarrow> task \<Rightarrow> byte list" where
  "fork_ctx f regs child_cr3 child_slot child_phys parent =
     concat (map le32 [fr_ip f, (if fr_cs f mod 4 = 0 then add32 (fr_at f) 12 else fr_sp f), fr_flags f, child_cr3, child_slot, child_phys,
       rg_ebx regs, rg_ecx regs, rg_edx regs, rg_esi regs, rg_edi regs, rg_ebp regs]) @
     padded 64 (t_tty_path parent) @ padded 256 (t_prog_path parent) @ padded 512 (t_cmdline parent)"

abbreviation (input) sizeof_fork_ctx :: nat where "sizeof_fork_ctx \<equiv> 880"

text \<open>The descriptors of the child: those of the parent, as they are.\<close>

definition fork_fds :: "nat option \<Rightarrow> nat \<Rightarrow> fd_state \<Rightarrow> fd_state" where
  "fork_fds pslot cslot F =
     (if cslot \<ge> MAX_TASKS then F
      else let with_table = (\<lambda>fds. F\<lparr>g_task_fds := (g_task_fds F)[cslot := fds], g_task_fd_init := (g_task_fd_init F)[cslot := True]\<rparr>) in
        case pslot of
          Some p \<Rightarrow>
            if g_task_fd_init F ! p then with_table (g_task_fds F ! p)
            else if g_fd_init_done F then with_table (g_fds F)
            else F\<lparr>g_task_fd_init := (g_task_fd_init F)[cslot := False]\<rparr>
        | None \<Rightarrow>
            if g_fd_init_done F then with_table (g_fds F)
            else F\<lparr>g_task_fd_init := (g_task_fd_init F)[cslot := False]\<rparr>)"

text \<open>The user page of the child: its slot, filled with a copy, and its page directory.\<close>

definition fork_space :: "('w, 'p) sys_env \<Rightarrow> nat \<Rightarrow> 'w sys \<Rightarrow> ((nat \<times> nat \<times> nat) option \<times> 'w sys) option" where
  "fork_space E parent_phys s =
     (case mm_user_slot_alloc (the_mm E s) of
        (None, h) \<Rightarrow> Some (None, on_mm E (\<lambda>_. h) s)
      | (Some (child_slot, child_phys), h) \<Rightarrow>
          (case mm_user_cr3_create (uput child_phys (uget h parent_phys USER_SLOT_SIZE_PHYS) h) child_phys of
             None \<Rightarrow> None
           | Some (child_cr3, h1) \<Rightarrow>
               if child_cr3 = 0 then Some (None, on_mm E (\<lambda>_. mm_user_slot_free h1 child_slot) s)
               else Some (Some (child_slot, child_phys, child_cr3), on_mm E (\<lambda>_. h1) s)))"

text \<open>Undoing it: the page directory, then the slot.\<close>

definition drop_space :: "('w, 'p) sys_env \<Rightarrow> nat \<Rightarrow> nat \<Rightarrow> 'w sys \<Rightarrow> 'w sys option" where
  "drop_space E child_cr3 child_slot s =
     (case mm_user_cr3_destroy (the_mm E s) child_cr3 of
        None \<Rightarrow> None
      | Some h \<Rightarrow> Some (on_mm E (\<lambda>_. mm_user_slot_free h child_slot) s))"

definition fork_task :: "('w, 'p) sys_env \<Rightarrow> nat \<Rightarrow> iframe \<Rightarrow> saved_regs \<Rightarrow> nat \<times> nat \<times> nat \<Rightarrow> 'w sys \<Rightarrow> (nat \<times> 'w sys) option" where
  "fork_task E cur f regs sp s = (case sp of (child_slot, child_phys, child_cr3) \<Rightarrow> do {
     (ctx, s1) \<leftarrow> k_malloc E sizeof_fork_ctx s;
     if ctx = 0 then do { s2 \<leftarrow> drop_space E child_cr3 child_slot s1; ret (- K_ENOMEM) s2 }
     else do {
       let parent = tasks (the_k E s1) ! cur;
       let s2 = on_mm E (uput ctx (fork_ctx f regs child_cr3 child_slot child_phys parent)) s1;
       (pid, s3) \<leftarrow> on_k E (task_create (en_spawned_fork_child E) ctx) s2;
       if pid < 0 then do {
         s4 \<leftarrow> k_free E ctx s3; s5 \<leftarrow> drop_space E child_cr3 child_slot s4; ret (- K_ENFILE) s5 }
       else (case task_find_by_pid (u32 pid) (the_k E s3) of
           None \<Rightarrow> ret (- K_EIO) s3
         | Some i \<Rightarrow>
             let me = tasks (the_k E s3) ! cur;
                 s4 = set_k E (upd_task i (\<lambda>t. t\<lparr>t_cr3 := child_cr3, t_user_slot := child_slot, t_user_phys_base := child_phys,
                   t_tty_path := take 63 (t_tty_path me), t_prog_path := take 255 (t_prog_path me),
                   t_cmdline := take 511 (t_cmdline me)\<rparr>) (the_k E s3)) s3
             in ret pid (s4\<lparr>sy_fds := fork_fds (this_slot E s4) i (sy_fds s4)\<rparr>)) } })"

definition sys_fork :: "('w, 'p) sys_env \<Rightarrow> saved_regs option \<Rightarrow> 'w sys \<Rightarrow> (nat \<times> 'w sys) option" where
  "sys_fork E regs s =
     (case (current_task (the_k E s), sy_frame s, regs) of
        (Some cur, Some f, Some rg) \<Rightarrow>
          let t = tasks (the_k E s) ! cur in
          if t_user_slot t = NO_SLOT \<or> t_user_phys_base t = 0 then ret (- K_ENOSYS) s
          else do {
            (sp, s1) \<leftarrow> fork_space E (t_user_phys_base t) s;
            (case sp of None \<Rightarrow> ret (- K_ENOMEM) s1 | Some x \<Rightarrow> fork_task E cur f rg x s1) }
      | _ \<Rightarrow> ret (- K_EINVAL) s)"

text \<open>The first steps of the child.\<close>

definition spawned_fork_child :: "('w, 'p) sys_env \<Rightarrow> (kstate \<Rightarrow> kstate) list \<Rightarrow> addr \<Rightarrow> 'w sys \<Rightarrow> (outcome \<times> 'w sys) option" where
  "spawned_fork_child E irqs ctx s =
     (if ctx = 0 \<or> current_task (the_k E s) = None then leave E irqs s
      else let h = the_mm E s; word = (\<lambda>i. uload32 h (ctx + 4 * i)) in do {
        s1 \<leftarrow> k_free E ctx s;
        let s2 = upd_current E (\<lambda>t. t\<lparr>t_cr3 := word 3, t_user_slot := word 4, t_user_phys_base := word 5,
              t_tty_path := take 63 (ustr h (ctx + 48) 64), t_prog_path := take 255 (ustr h (ctx + 112) 256),
              t_cmdline := take 511 (ustr h (ctx + 368) 512)\<rparr>) s1;
        Some (Jumps (word 0) (word 1) (word 2) (Some \<lparr>rg_ebx = word 6, rg_ecx = word 7, rg_edx = word 8, rg_esi = word 9,
            rg_edi = word 10, rg_ebp = word 11\<rparr>), on_mm E (\<lambda>h. mm_switch_cr3 h (word 3)) s2) })"

end
