(* ===== verification/Sys_Io.thy ===== *)
theory Sys_Io
  imports Sys_Files
begin

section \<open>System calls that wait for input, on mounts and on sockets\<close>

text \<open>
  The cases \<^verbatim>\<open>poll\<close>, \<^verbatim>\<open>select\<close>, \<^verbatim>\<open>mount\<close>, \<^verbatim>\<open>umount\<close> and those on UDP sockets of \<^verbatim>\<open>do_syscall_impl\<close>.  A set of poll events is
  a number of which single bits are looked at.
\<close>

definition POLLIN :: nat where "POLLIN = 0x0001"
definition POLLOUT :: nat where "POLLOUT = 0x0004"
definition POLLERR :: nat where "POLLERR = 0x0008"
definition POLLHUP :: nat where "POLLHUP = 0x0010"
definition POLLNVAL :: nat where "POLLNVAL = 0x0020"

subsection \<open>Readiness\<close>

definition ready_bits :: "bool \<Rightarrow> bool \<Rightarrow> nat" where
  "ready_bits inp outp = (if inp then POLLIN else 0) + (if outp then POLLOUT else 0)"

definition fd_poll_revents :: "('w, 'p) sys_env \<Rightarrow> int \<Rightarrow> nat \<Rightarrow> 'w sys \<Rightarrow> (nat \<times> 'w sys) option" where
  "fd_poll_revents E fd events s =
     (if fd < 0 \<or> nat fd \<ge> FD_MAX then Some (POLLNVAL, s)
      else case fd_path (nat fd) (cur_fds E s) of
        None \<Rightarrow> (case fd_udp_sid (nat fd) (cur_fds E s) of
            None \<Rightarrow> Some (POLLNVAL, s)
          | Some sid \<Rightarrow> Some (ready_bits (has_flag events POLLIN \<and> us_q_len (g_udp_sockets (sy_udp s) ! sid) > 0) (has_flag events POLLOUT), s))
      | Some path \<Rightarrow> do {
          (info, s1) \<leftarrow> (case g_root_fs s of None \<Rightarrow> Some (None, s) | Some v \<Rightarrow> on_w (vfs_get_info (en_tab E) v path) s);
          Some (case info of
              None \<Rightarrow> POLLNVAL
            | Some i \<Rightarrow> ready_bits (has_flag events POLLIN \<and> (is_stream (vi_type i) \<longrightarrow> vi_size i > 0)) (has_flag events POLLOUT), s1) })"

text \<open>One pass over the structures of \<^verbatim>\<open>poll\<close>: the number of those with an event.\<close>

primrec poll_pass :: "('w, 'p) sys_env \<Rightarrow> addr \<Rightarrow> nat list \<Rightarrow> nat \<Rightarrow> 'w sys \<Rightarrow> (nat \<times> 'w sys) option" where
  "poll_pass E pfds [] ready s = Some (ready, s)"
| "poll_pass E pfds (i # is) ready s =
     (let p = add32 pfds (mul32 8 i) in do {
        (rev, s1) \<leftarrow> fd_poll_revents E (to_int32 (uload32 (the_mm E s) p)) (uload16 (the_mm E s) (add32 p 4)) s;
        poll_pass E pfds is (if rev \<noteq> 0 then ready + 1 else ready) (on_mm E (uput (add32 p 6) (le16 rev)) s1) })"

text \<open>When no pass finds an event: is the time over?\<close>

definition time_over :: "int \<Rightarrow> nat \<Rightarrow> bool" where
  "time_over timeout_ms waited \<longleftrightarrow> timeout_ms = 0 \<or> timeout_ms > 0 \<and> to_int32 waited \<ge> timeout_ms"

primrec poll_loop :: "('w, 'p) sys_env \<Rightarrow> addr \<Rightarrow> nat \<Rightarrow> int \<Rightarrow> 'w wait list \<Rightarrow> nat \<Rightarrow> 'w sys \<Rightarrow> (nat \<times> 'w sys) option" where
  "poll_loop E pfds nfds timeout_ms [] waited s = do {
     (ready, s1) \<leftarrow> poll_pass E pfds [0..<nfds] 0 s;
     if ready > 0 then ret (int ready) s1 else if time_over timeout_ms waited then ret 0 s1 else None }"
| "poll_loop E pfds nfds timeout_ms (wt # ws) waited s = do {
     (ready, s1) \<leftarrow> poll_pass E pfds [0..<nfds] 0 s;
     if ready > 0 then ret (int ready) s1 else if time_over timeout_ms waited then ret 0 s1
     else do { s2 \<leftarrow> pause E (\<lambda>irqs. sleep irqs 10) wt s1; poll_loop E pfds nfds timeout_ms ws (add32 waited 10) s2 } }"

definition sys_poll :: "('w, 'p) sys_env \<Rightarrow> 'w wait list \<Rightarrow> addr \<Rightarrow> nat \<Rightarrow> nat \<Rightarrow> 'w sys \<Rightarrow> (nat \<times> 'w sys) option" where
  "sys_poll E waits ebx ecx edx s =
     (if ebx = 0 \<and> ecx > 0 then ret (- K_EINVAL) s else poll_loop E ebx ecx (to_int32 edx) waits 0 s)"

subsection \<open>Select\<close>

text \<open>The three sets lie at the addresses \<open>r\<close>, \<open>w\<close> and \<open>e\<close>, 0 for none.\<close>

definition wanted :: "mm_state \<Rightarrow> addr \<Rightarrow> nat \<Rightarrow> bool" where
  "wanted h a fd \<longleftrightarrow> a \<noteq> 0 \<and> odd (uload32 h a div 2 ^ fd)"

definition select_events :: "mm_state \<Rightarrow> addr \<Rightarrow> addr \<Rightarrow> addr \<Rightarrow> nat \<Rightarrow> nat" where
  "select_events h r w e fd =
     (if wanted h r fd then POLLIN else 0) + (if wanted h w fd then POLLOUT else 0) + (if wanted h e fd then POLLERR else 0)"

text \<open>One pass: the bits found for the three sets and the number of descriptors that are ready.\<close>

primrec select_pass :: "('w, 'p) sys_env \<Rightarrow> addr \<Rightarrow> addr \<Rightarrow> addr \<Rightarrow> nat list \<Rightarrow> nat \<times> nat \<times> nat \<times> nat \<Rightarrow> 'w sys \<Rightarrow>
    ((nat \<times> nat \<times> nat \<times> nat) \<times> 'w sys) option" where
  "select_pass E r w e [] acc s = Some (acc, s)"
| "select_pass E r w e (fd # fds) acc s =
     (let events = select_events (the_mm E s) r w e fd; (rmask, wmask, emask, ready) = acc in
      if events = 0 then select_pass E r w e fds acc s
      else do {
        (rev, s1) \<leftarrow> fd_poll_revents E (int fd) events s;
        let inr = (has_flag rev POLLIN \<and> r \<noteq> 0);
        let inw = (has_flag rev POLLOUT \<and> w \<noteq> 0);
        let ine = ((has_flag rev POLLERR \<or> has_flag rev POLLHUP \<or> has_flag rev POLLNVAL) \<and> e \<noteq> 0);
        let b = (\<lambda>x. if x then 2 ^ fd else 0);
        let acc1 = (rmask + b inr, wmask + b inw, emask + b ine, if inr \<or> inw \<or> ine then ready + 1 else ready);
        select_pass E r w e fds acc1 s1 })"

definition store_mask :: "('w, 'p) sys_env \<Rightarrow> addr \<Rightarrow> nat \<Rightarrow> 'w sys \<Rightarrow> 'w sys" where
  "store_mask E a m s = (if a \<noteq> 0 then on_mm E (ustore32 a m) s else s)"

definition select_once :: "('w, 'p) sys_env \<Rightarrow> addr \<Rightarrow> addr \<Rightarrow> addr \<Rightarrow> nat \<Rightarrow> 'w sys \<Rightarrow> (nat \<times> 'w sys) option" where
  "select_once E r w e nfds s = do {
     ((rmask, wmask, emask, ready), s1) \<leftarrow> select_pass E r w e [0..<nfds] (0, 0, 0, 0) s;
     Some (ready, store_mask E e emask (store_mask E w wmask (store_mask E r rmask s1))) }"

primrec select_loop :: "('w, 'p) sys_env \<Rightarrow> addr \<Rightarrow> addr \<Rightarrow> addr \<Rightarrow> nat \<Rightarrow> int \<Rightarrow> 'w wait list \<Rightarrow> nat \<Rightarrow> 'w sys \<Rightarrow> (nat \<times> 'w sys) option" where
  "select_loop E r w e nfds timeout_ms [] waited s = do {
     (ready, s1) \<leftarrow> select_once E r w e nfds s;
     if ready > 0 then ret (int ready) s1 else if time_over timeout_ms waited then ret 0 s1 else None }"
| "select_loop E r w e nfds timeout_ms (wt # ws) waited s = do {
     (ready, s1) \<leftarrow> select_once E r w e nfds s;
     if ready > 0 then ret (int ready) s1 else if time_over timeout_ms waited then ret 0 s1
     else do { s2 \<leftarrow> pause E (\<lambda>irqs. sleep irqs 10) wt s1; select_loop E r w e nfds timeout_ms ws (add32 waited 10) s2 } }"

definition sys_select :: "('w, 'p) sys_env \<Rightarrow> 'w wait list \<Rightarrow> addr \<Rightarrow> 'w sys \<Rightarrow> (nat \<times> 'w sys) option" where
  "sys_select E waits ebx s =
     (if ebx = 0 then ret (- K_EINVAL) s
      else let word = (\<lambda>i. uload32 (the_mm E s) (add32 ebx (4 * i))); nfds = to_int32 (word 0) in
        if nfds < 0 \<or> nfds > int FD_MAX then ret (- K_EINVAL) s
        else select_loop E (word 1) (word 2) (word 3) (nat nfds) (to_int32 (word 4)) waits 0 s)"

subsection \<open>Mounts\<close>

definition disk_prefix :: string where "disk_prefix = ''/dev/disk/''"

definition names_disk :: "string \<Rightarrow> bool" where
  "names_disk fs_name \<longleftrightarrow> take (length disk_prefix) fs_name = disk_prefix"

text \<open>The context to mount: that of devfs, or a new one for a FAT32 partition in the first free slot.  \<open>Inl\<close> is an error.\<close>

definition mount_ctx :: "('w, 'p) sys_env \<Rightarrow> string \<Rightarrow> string \<Rightarrow> 'w sys \<Rightarrow> (int + addr \<times> string) \<times> 'w sys" where
  "mount_ctx E fs_name mount_path s =
     (if fs_name = ''devfs'' then (Inr (g_devfs_ctx s, fs_name), s)
      else if names_disk fs_name then
        (case normalize_mount_path_local mount_path 256 of
           None \<Rightarrow> (Inl (- K_EINVAL), s)
         | Some norm \<Rightarrow>
             (case find (\<lambda>i. \<not> g_mount_fat_used s ! i) [0..<VFS_MAX_MOUNTS] of
                None \<Rightarrow> (Inl (- K_ENFILE), s)
              | Some slot \<Rightarrow>
                  (case fat32_init_devpath (en_ports E) fs_name (en_disk E (sy_w s)) of
                     (None, d) \<Rightarrow> (Inl (- K_ENODEV), s\<lparr>sy_w := en_set_disk E d (sy_w s)\<rparr>)
                   | (Some fs, d) \<Rightarrow>
                       (Inr (en_fat_ctx E slot, ''fat32''),
                        s\<lparr>sy_w := en_set_fat E (en_fat_ctx E slot) (Some fs) (en_set_disk E d (sy_w s)),
                          g_mount_fat_used := (g_mount_fat_used s)[slot := True],
                          g_mount_fat_path := (g_mount_fat_path s)[slot := take 255 norm]\<rparr>))))
      else (Inr (0, fs_name), s))"

definition clear_fat :: "nat option \<Rightarrow> 'w sys \<Rightarrow> 'w sys" where
  "clear_fat slot s =
     (case slot of
        None \<Rightarrow> s
      | Some i \<Rightarrow> s\<lparr>g_mount_fat_used := (g_mount_fat_used s)[i := False], g_mount_fat_path := (g_mount_fat_path s)[i := []]\<rparr>)"

definition sys_mount :: "('w, 'p) sys_env \<Rightarrow> addr \<Rightarrow> addr \<Rightarrow> 'w sys \<Rightarrow> (nat \<times> 'w sys) option" where
  "sys_mount E ebx ecx s = with_root s (\<lambda>v.
     case copy_user_string (the_mm E s) ebx 32 of
       None \<Rightarrow> ret (- K_EINVAL) s
     | Some fs_name \<Rightarrow> with_path E ecx s (\<lambda>mount_path.
         case mount_ctx E fs_name mount_path s of
           (Inl err, s1) \<Rightarrow> ret err s1
         | (Inr (ctx, fs_drv), s1) \<Rightarrow>
             if ctx = 0 then ret (- K_ENODEV) s1
             else (case vfs_mount (en_tab E) mount_path fs_drv ctx v (sy_w s1) of
                 None \<Rightarrow> None
               | Some (r, v1, w1) \<Rightarrow>
                   let s2 = s1\<lparr>sy_w := w1, g_root_fs := Some v1\<rparr> in
                   if r \<noteq> 0 then ret (- K_EBUSY) (clear_fat (find (\<lambda>i. en_fat_ctx E i = ctx) [0..<VFS_MAX_MOUNTS]) s2)
                   else if names_disk fs_name then ret 0 (s2\<lparr>g_root_fs := Some (snd (vfs_set_mount_source mount_path fs_name v1))\<rparr>)
                   else ret 0 s2)))"

definition sys_umount :: "('w, 'p) sys_env \<Rightarrow> addr \<Rightarrow> 'w sys \<Rightarrow> (nat \<times> 'w sys) option" where
  "sys_umount E ebx s = with_root s (\<lambda>v. with_path E ebx s (\<lambda>mount_path.
     case normalize_mount_path_local mount_path 256 of
       None \<Rightarrow> ret (- K_EINVAL) s
     | Some norm \<Rightarrow>
         (case vfs_umount mount_path v of
            (r, v1) \<Rightarrow>
              let s1 = s\<lparr>g_root_fs := Some v1\<rparr> in
              if r \<noteq> 0 then ret (- K_EBUSY) s1
              else (case find (\<lambda>i. g_mount_fat_used s1 ! i \<and> g_mount_fat_path s1 ! i = norm) [0..<VFS_MAX_MOUNTS] of
                  None \<Rightarrow> ret 0 s1
                | Some i \<Rightarrow> ret 0 (clear_fat (Some i) (s1\<lparr>sy_w := en_set_fat E (en_fat_ctx E i) None (sy_w s1)\<rparr>))))))"

subsection \<open>Sockets\<close>

definition sys_socket :: "('w, 'p) sys_env \<Rightarrow> nat \<Rightarrow> nat \<Rightarrow> nat \<Rightarrow> 'w sys \<Rightarrow> (nat \<times> 'w sys) option" where
  "sys_socket E ebx ecx edx s =
     (if ebx \<noteq> AF_INET \<or> ecx \<noteq> SOCK_DGRAM \<or> (edx \<noteq> 0 \<and> edx \<noteq> IPPROTO_UDP) then ret (- K_EINVAL) s
      else case udp_socket_alloc (sy_udp s) of
        (None, u) \<Rightarrow> ret (- K_ENFILE) (s\<lparr>sy_udp := u\<rparr>)
      | (Some sid, u) \<Rightarrow>
          (case fd_alloc_udp sid (cur_fds E s) of
             (None, _) \<Rightarrow> ret (- K_ENFILE) (s\<lparr>sy_udp := udp_socket_free sid u\<rparr>)
           | (Some fd, fds) \<Rightarrow> ret (int fd) (set_fds (this_slot E s) fds (s\<lparr>sy_udp := u\<rparr>))))"

definition with_socket :: "('w, 'p) sys_env \<Rightarrow> nat \<Rightarrow> 'w sys \<Rightarrow> (nat \<Rightarrow> (nat \<times> 'w sys) option) \<Rightarrow> (nat \<times> 'w sys) option" where
  "with_socket E fd s f = (case fd_udp_sid fd (cur_fds E s) of None \<Rightarrow> ret (- K_EBADF) s | Some sid \<Rightarrow> f sid)"

definition sys_bind :: "('w, 'p) sys_env \<Rightarrow> nat \<Rightarrow> addr \<Rightarrow> nat \<Rightarrow> 'w sys \<Rightarrow> (nat \<times> 'w sys) option" where
  "sys_bind E ebx ecx edx s = with_socket E ebx s (\<lambda>sid.
     case udp_bind_socket sid ecx edx (the_mm E s) (sy_udp s) of (r, u) \<Rightarrow> ret r (s\<lparr>sy_udp := u\<rparr>))"

definition sys_sendto :: "('w, 'p) sys_env \<Rightarrow> nat \<Rightarrow> addr \<Rightarrow> 'w sys \<Rightarrow> (nat \<times> 'w sys) option" where
  "sys_sendto E ebx ecx s = with_socket E ebx s (\<lambda>sid.
     if ecx = 0 then ret (- K_EINVAL) s
     else case udp_sendto_socket sid (load_send_req (the_mm E s) ecx) (the_mm E s) (sy_udp s) of (r, u) \<Rightarrow> ret r (s\<lparr>sy_udp := u\<rparr>))"

text \<open>The loop of \<^verbatim>\<open>udp_recvfrom_socket\<close>; each wait adds ten milliseconds.\<close>

definition recv_taken :: "('w, 'p) sys_env \<Rightarrow> nat \<Rightarrow> udp_recv_req \<Rightarrow> 'w sys \<Rightarrow> (nat \<times> 'w sys) option" where
  "recv_taken E sid req s =
     (case udp_recv_take sid req (the_mm E s) (sy_udp s) of (r, h, u) \<Rightarrow> ret r (on_mm E (\<lambda>_. h) (s\<lparr>sy_udp := u\<rparr>)))"

primrec recv_loop :: "('w, 'p) sys_env \<Rightarrow> nat \<Rightarrow> udp_recv_req \<Rightarrow> 'w wait list \<Rightarrow> nat \<Rightarrow> 'w sys \<Rightarrow> (nat \<times> 'w sys) option" where
  "recv_loop E sid req [] waited s =
     (case udp_recv_next sid req waited (sy_udp s) of Recv_fail e \<Rightarrow> ret e s | Recv_take \<Rightarrow> recv_taken E sid req s | Recv_sleep \<Rightarrow> None)"
| "recv_loop E sid req (wt # ws) waited s =
     (case udp_recv_next sid req waited (sy_udp s) of
        Recv_fail e \<Rightarrow> ret e s
      | Recv_take \<Rightarrow> recv_taken E sid req s
      | Recv_sleep \<Rightarrow> do { s1 \<leftarrow> pause E (\<lambda>irqs. sleep irqs 10) wt s; recv_loop E sid req ws (add32 waited 10) s1 })"

definition udp_recvfrom_socket :: "('w, 'p) sys_env \<Rightarrow> nat \<Rightarrow> udp_recv_req \<Rightarrow> 'w wait list \<Rightarrow> 'w sys \<Rightarrow> (nat \<times> 'w sys) option" where
  "udp_recvfrom_socket E sid req waits s =
     (if sid \<ge> UDP_MAX_SOCKETS \<or> rr_buf req = 0 then ret (- K_EINVAL) s else recv_loop E sid req waits 0 s)"

definition sys_recvfrom :: "('w, 'p) sys_env \<Rightarrow> 'w wait list \<Rightarrow> nat \<Rightarrow> addr \<Rightarrow> 'w sys \<Rightarrow> (nat \<times> 'w sys) option" where
  "sys_recvfrom E waits ebx ecx s = with_socket E ebx s (\<lambda>sid.
     if ecx = 0 then ret (- K_EINVAL) s
     else udp_recvfrom_socket E sid (load_recv_req (the_mm E s) ecx) waits s)"

text \<open>The words of the request are the level, the option, the address and the length of its value.\<close>

definition sys_setsockopt :: "('w, 'p) sys_env \<Rightarrow> nat \<Rightarrow> addr \<Rightarrow> 'w sys \<Rightarrow> (nat \<times> 'w sys) option" where
  "sys_setsockopt E ebx ecx s = with_socket E ebx s (\<lambda>sid.
     if ecx = 0 then ret (- K_EINVAL) s
     else let h = the_mm E s; word = (\<lambda>i. uload32 h (add32 ecx (4 * i))) in
       if word 0 \<noteq> SOL_SOCKET then ret (- K_EINVAL) s
       else if word 1 = SO_RCVTIMEO then
         if word 2 = 0 \<or> word 3 < 4 then ret (- K_EINVAL) s
         else ret 0 (s\<lparr>sy_udp := upd_socket sid (\<lambda>k. k\<lparr>us_rcv_timeout_ms := min (min (uload32 h (word 2)) 600000) 65535\<rparr>) (sy_udp s)\<rparr>)
       else if word 1 = SO_SNDTIMEO then ret 0 s
       else ret (- K_ENOTSUP) s)"

end
