(* ===== verification/Syscall.thy ===== *)
theory Syscall
  imports Sys_Tasks Sys_Io
begin

section \<open>The system call handler\<close>

text \<open>
  \<^verbatim>\<open>do_syscall_impl\<close> of \<^verbatim>\<open>src/kernel/drivers/syscall.c\<close>: the table of the running task is set up, then the number in
  \<^verbatim>\<open>eax\<close> chooses the case.
\<close>

definition first_use :: "('w, 'p) sys_env \<Rightarrow> 'w sys \<Rightarrow> 'w sys" where
  "first_use E s = s\<lparr>sy_fds := fd_current (this_slot E s) (sy_fds s)\<rparr>"

definition do_syscall_impl :: "('w, 'p) sys_env \<Rightarrow> (kstate \<Rightarrow> kstate) list \<Rightarrow> 'w wait list \<Rightarrow> saved_regs option \<Rightarrow>
    nat \<Rightarrow> nat \<Rightarrow> nat \<Rightarrow> nat \<Rightarrow> 'w sys \<Rightarrow> (outcome \<times> 'w sys) option" where
  "do_syscall_impl E irqs waits regs eax ebx ecx edx s0 = (let s = first_use E s0 in
     if eax = 0 then returning (sys_yield E waits s)
     else if eax = 1 then returning (sys_sleep E waits ebx s)
     else if eax = 2 then returning (sys_get_ticks E s)
     else if eax = 3 then sys_exit E irqs ebx s
     else if eax = 4 then returning (sys_read E ebx ecx edx s)
     else if eax = 5 then returning (sys_write E ebx ecx edx s)
     else if eax = 6 then sys_exec E ebx s
     else if eax = 7 then returning (sys_ioctl E ebx ecx edx s)
     else if eax = 8 then returning (sys_open E ebx ecx s)
     else if eax = 9 then returning (sys_close E ebx s)
     else if eax = 10 then returning (sys_mkdir E ebx s)
     else if eax = 11 then returning (sys_unlink E ebx s)
     else if eax = 12 then returning (sys_rmdir E ebx s)
     else if eax = 13 then returning (sys_list E ebx ecx edx s)
     else if eax = 14 then returning (sys_append E ebx ecx edx s)
     else if eax = 15 then returning (sys_spawn E ebx ecx s)
     else if eax = 16 then returning (sys_task_state E ebx s)
     else if eax = 17 then sys_init_spawn_shells E irqs waits s
     else if eax = 18 then returning (sys_mkfifo E ebx s)
     else if eax = 19 then returning (sys_mksock E ebx s)
     else if eax = 20 then sys_execv E ebx ecx s
     else if eax = 21 then returning (sys_spawnv E ebx ecx edx s)
     else if eax = 22 then returning (sys_mount E ebx ecx s)
     else if eax = 23 then returning (sys_list_mounts E ebx ecx s)
     else if eax = 24 then returning (sys_link E ebx ecx s)
     else if eax = 25 then returning (sys_umount E ebx s)
     else if eax = 26 then returning (sys_socket E ebx ecx edx s)
     else if eax = 27 then returning (sys_bind E ebx ecx edx s)
     else if eax = 28 then returning (sys_sendto E ebx ecx s)
     else if eax = 29 then returning (sys_recvfrom E waits ebx ecx s)
     else if eax = 30 then returning (sys_setsockopt E ebx ecx s)
     else if eax = 31 then sys_task_kill E irqs ebx ecx s
     else if eax = 32 then returning (sys_waitpid E waits ebx ecx edx s)
     else if eax = 33 then returning (sys_dup E ebx s)
     else if eax = 34 then returning (sys_dup2 E ebx ecx s)
     else if eax = 35 then returning (sys_getpid E s)
     else if eax = 36 then returning (sys_getppid E s)
     else if eax = 37 then returning (sys_stat E ebx ecx s)
     else if eax = 38 then returning (sys_fstat E ebx ecx s)
     else if eax = 39 then returning (sys_lseek E ebx ecx edx s)
     else if eax = 40 then returning (sys_pipe E ebx s)
     else if eax = 41 then returning (do_fcntl E ebx ecx edx s)
     else if eax = 42 then returning (sys_fork E regs s)
     else if eax = 43 then returning (sys_poll E waits ebx ecx edx s)
     else if eax = 44 then returning (sys_select E waits ebx s)
     else returning (ret (- K_ENOSYS) s))"

end
