(* ===== verification/Udp_Props.thy ===== *)
theory Udp_Props
  imports Udp
begin

section \<open>UDP sockets: the table stays in order\<close>

text \<open>
  The queue of a socket is a queue in the sense of the contract \<open>dropping_queue\<close>.  The invariant \<open>udp_ok\<close> of the table:
  eight sockets, every queue in order, the ports of the bound sockets different wherever they could meet, and
  the port counter in its range.  All operations keep it, over any sequence of them.
\<close>

definition pending :: "udp_socket \<Rightarrow> udp_datagram list" where
  "pending s = ring_list (us_q s) (us_q_head s) (us_q_len s)"

definition queue_ok :: "udp_socket \<Rightarrow> bool" where
  "queue_ok s \<longleftrightarrow> ring_ok UDP_QUEUE_MAX (us_q s) (us_q_head s) (us_q_tail s) (us_q_len s)"

definition put_datagram :: "udp_datagram \<Rightarrow> udp_socket \<Rightarrow> udp_socket" where
  "put_datagram pkt s = (if us_q_len s \<ge> UDP_QUEUE_MAX then s else enqueue pkt s)"

definition get_datagram :: "udp_socket \<Rightarrow> (udp_datagram \<times> udp_socket) option" where
  "get_datagram s = (if us_q_len s = 0 then None else Some (us_q s ! us_q_head s, dequeue s))"

lemma enqueue_ok:
  assumes "queue_ok s" "us_q_len s < UDP_QUEUE_MAX"
  shows "queue_ok (enqueue pkt s)" "pending (enqueue pkt s) = pending s @ [pkt]"
  using ring_put [of "us_q_len s" UDP_QUEUE_MAX "us_q s" "us_q_head s" "us_q_tail s" pkt] assms
  by (simp_all add: queue_ok_def pending_def enqueue_def)

lemma dequeue_ok:
  assumes "queue_ok s" "0 < us_q_len s"
  shows "queue_ok (dequeue s)" "pending s = us_q s ! us_q_head s # pending (dequeue s)"
proof -
  have r: "ring_ok UDP_QUEUE_MAX (us_q s) (us_q_head s) (us_q_tail s) (us_q_len s)" using assms(1) by (simp add: queue_ok_def)
  then have b: "length (us_q s) = UDP_QUEUE_MAX" "us_q_head s < UDP_QUEUE_MAX" "us_q_len s \<le> UDP_QUEUE_MAX" by (auto simp: ring_ok_def)
  show "queue_ok (dequeue s)" using ring_take(2) [OF assms(2) r] by (simp add: queue_ok_def dequeue_def ring_ok_def)
  have ne: "((us_q_head s + 1) mod UDP_QUEUE_MAX + i) mod UDP_QUEUE_MAX \<noteq> us_q_head s" if "i < us_q_len s - 1" for i
    using that b by (cases "us_q_head s + 1 = UDP_QUEUE_MAX"; cases "us_q_head s + 1 + i < UDP_QUEUE_MAX") (auto simp: mod_if)
  have "pending (dequeue s) = ring_list (us_q s) ((us_q_head s + 1) mod UDP_QUEUE_MAX) (us_q_len s - 1)"
    unfolding pending_def dequeue_def ring_list_def using b
    by (simp del: One_nat_def) (auto simp del: One_nat_def dest!: ne)
  then show "pending s = us_q s ! us_q_head s # pending (dequeue s)" using ring_take(1) [OF assms(2) r] by (simp add: pending_def)
qed

interpretation udp_queue: dropping_queue queue_ok pending UDP_QUEUE_MAX get_datagram put_datagram
proof (unfold_locales, goal_cases)
  case (1 s) then show ?case by (simp add: queue_ok_def pending_def ring_ok_def)
next
  case (2 s) then show ?case by (simp add: pending_def get_datagram_def ring_list_def)
next
  case (3 s x xs)
  then have "0 < us_q_len s" by (auto simp: pending_def intro: gr0I)
  with dequeue_ok [OF 3(1) this] 3 show ?case by (simp add: get_datagram_def)
next
  case (4 s x) then show ?case by (auto simp: put_datagram_def enqueue_ok)
next
  case (5 s x)
  then have "length (pending s) = us_q_len s" "us_q_len s \<le> UDP_QUEUE_MAX" by (auto simp: pending_def queue_ok_def ring_ok_def)
  with 5 show ?case by (auto simp: put_datagram_def enqueue_ok)
qed

subsection \<open>The invariant\<close>

definition proper_datagram :: "udp_datagram \<Rightarrow> bool" where
  "proper_datagram d \<longleftrightarrow> dg_used d \<and> length (dg_payload d) = UDP_PAYLOAD_MAX \<and> dg_len d \<le> UDP_PAYLOAD_MAX"

definition socket_ok :: "udp_socket \<Rightarrow> bool" where
  "socket_ok s \<longleftrightarrow> queue_ok s \<and> (\<forall>d \<in> set (pending s). proper_datagram d) \<and> us_rcv_timeout_ms s < 65536 \<and>
     us_bind_port s < 65536 \<and> us_bind_addr s < 2 ^ 32"

definition meet :: "udp_socket \<Rightarrow> udp_socket \<Rightarrow> bool" where
  "meet a b \<longleftrightarrow> us_used a \<and> us_bound a \<and> us_used b \<and> us_bound b \<and> us_bind_port a = us_bind_port b \<and>
     (us_bind_addr a = INADDR_ANY \<or> us_bind_addr b = INADDR_ANY \<or> us_bind_addr a = us_bind_addr b)"

definition sockets_ok :: "udp_socket list \<Rightarrow> bool" where
  "sockets_ok ss \<longleftrightarrow> length ss = UDP_MAX_SOCKETS \<and> (\<forall>i < UDP_MAX_SOCKETS. socket_ok (ss ! i)) \<and>
     (\<forall>i < UDP_MAX_SOCKETS. \<forall>j < UDP_MAX_SOCKETS. i \<noteq> j \<longrightarrow> \<not> meet (ss ! i) (ss ! j))"

definition udp_ok :: "udp_state \<Rightarrow> bool" where
  "udp_ok u \<longleftrightarrow> sockets_ok (g_udp_sockets u) \<and> UDP_EPHEMERAL_START \<le> g_udp_next_ephemeral u \<and> g_udp_next_ephemeral u \<le> UDP_EPHEMERAL_END"

lemma meet_sym: "meet a b \<Longrightarrow> meet b a"
  by (auto simp: meet_def)

lemma sockets_okD:
  assumes "sockets_ok ss" "i < UDP_MAX_SOCKETS"
  shows "length ss = UDP_MAX_SOCKETS" "socket_ok (ss ! i)" "j < UDP_MAX_SOCKETS \<Longrightarrow> i \<noteq> j \<Longrightarrow> \<not> meet (ss ! i) (ss ! j)"
  using assms by (auto simp: sockets_ok_def)

text \<open>One socket is replaced by one that is in order and meets no other.\<close>

lemma sockets_ok_upd:
  assumes "sockets_ok ss" "i < UDP_MAX_SOCKETS" "socket_ok s" "\<And>j. j < UDP_MAX_SOCKETS \<Longrightarrow> j \<noteq> i \<Longrightarrow> \<not> meet s (ss ! j)"
  shows "sockets_ok (ss[i := s])"
  unfolding sockets_ok_def
proof (intro conjI allI impI)
  have l: "length ss = UDP_MAX_SOCKETS" by (rule sockets_okD(1) [OF assms(1,2)])
  then show "length (ss[i := s]) = UDP_MAX_SOCKETS" by simp
  fix j k assume j: "j < UDP_MAX_SOCKETS"
  then show "socket_ok (ss[i := s] ! j)" using sockets_okD(2) [OF assms(1) j] assms(2,3) l by (simp add: nth_list_update)
  assume k: "k < UDP_MAX_SOCKETS" "j \<noteq> k"
  show "\<not> meet (ss[i := s] ! j) (ss[i := s] ! k)"
  proof (cases "j = i")
    case True
    then show ?thesis using assms(4) [OF k(1)] k(2) l j by simp
  next
    case False
    then show ?thesis using assms(4) [OF j False] sockets_okD(3) [OF assms(1) j k(1) k(2)] meet_sym l k by (cases "k = i") auto
  qed
qed

text \<open>The same for a socket whose binding is as before.\<close>

lemma sockets_ok_same:
  assumes "sockets_ok ss" "i < UDP_MAX_SOCKETS" "socket_ok s" "us_used s = us_used (ss ! i)" "us_bound s = us_bound (ss ! i)"
    "us_bind_port s = us_bind_port (ss ! i)" "us_bind_addr s = us_bind_addr (ss ! i)"
  shows "sockets_ok (ss[i := s])"
proof (rule sockets_ok_upd [OF assms(1-3)])
  fix j assume "j < UDP_MAX_SOCKETS" "j \<noteq> i"
  then have "\<not> meet (ss ! i) (ss ! j)" using sockets_okD(3) [OF assms(1,2)] by simp
  then show "\<not> meet s (ss ! j)" using assms(4-7) by (simp add: meet_def)
qed

lemma socket_ok_no_socket: "socket_ok no_socket" "socket_ok (no_socket\<lparr>us_used := True\<rparr>)"
  by (simp_all add: socket_ok_def queue_ok_def no_socket_def pending_def ring_ok_def UDP_QUEUE_MAX_def)

lemma udp_okD: "udp_ok u \<Longrightarrow> sockets_ok (g_udp_sockets u)"
  by (simp add: udp_ok_def)

lemma udp_ok_upd:
  "udp_ok u \<Longrightarrow> sockets_ok ((g_udp_sockets u)[i := f (g_udp_sockets u ! i)]) \<Longrightarrow> udp_ok (upd_socket i f u)"
  by (simp add: udp_ok_def upd_socket_def)

lemma alloc_ok: "udp_ok u \<Longrightarrow> udp_ok (snd (udp_socket_alloc u))"
proof -
  assume u: "udp_ok u"
  show ?thesis
  proof (cases "find (\<lambda>i. \<not> us_used (g_udp_sockets u ! i)) [0..<UDP_MAX_SOCKETS]")
    case (Some i)
    then have i: "i < UDP_MAX_SOCKETS" by (auto simp: find_Some_iff)
    have "sockets_ok ((g_udp_sockets u)[i := no_socket\<lparr>us_used := True\<rparr>])"
      by (rule sockets_ok_upd [OF udp_okD [OF u] i socket_ok_no_socket(2)]) (simp add: meet_def no_socket_def)
    then show ?thesis using udp_ok_upd [OF u] Some by (simp add: udp_socket_alloc_def)
  qed (use u in \<open>simp add: udp_socket_alloc_def\<close>)
qed

lemma free_ok: "udp_ok u \<Longrightarrow> udp_ok (udp_socket_free sid u)"
proof -
  assume u: "udp_ok u"
  have "sockets_ok ((g_udp_sockets u)[sid := no_socket])" if "sid < UDP_MAX_SOCKETS"
    by (rule sockets_ok_upd [OF udp_okD [OF u] that socket_ok_no_socket(1)]) (simp add: meet_def no_socket_def)
  then show ?thesis using u udp_ok_upd [OF u] by (simp add: udp_socket_free_def)
qed

lemma be_bounds: "be16_to_cpu x < 65536" "be32_to_cpu y < 2 ^ 32"
proof -
  have b: "n mod 256 \<le> 255" for n :: nat by simp
  have "x mod 256 * 256 + x div 256 mod 256 \<le> 255 * 256 + 255" using b [of x] b [of "x div 256"] by linarith
  then show "be16_to_cpu x < 65536" by (simp add: be16_to_cpu_def)
  have "y mod 256 * 16777216 + y div 256 mod 256 * 65536 + y div 65536 mod 256 * 256 + y div 16777216 mod 256
      \<le> 255 * 16777216 + 255 * 65536 + 255 * 256 + 255"
    using b [of y] b [of "y div 256"] b [of "y div 65536"] b [of "y div 16777216"] by linarith
  then show "be32_to_cpu y < 2 ^ 32" by (simp add: be32_to_cpu_def)
qed

lemma bind_free_ok:
  assumes u: "udp_ok u" and i: "sid < UDP_MAX_SOCKETS" and f: "\<not> udp_port_in_use adr port sid u" "port < 65536" "adr < 2 ^ 32"
  shows "udp_ok (upd_socket sid (\<lambda>s. s\<lparr>us_bound := True, us_bind_addr := adr, us_bind_port := port\<rparr>) u)"
proof (rule udp_ok_upd [OF u], rule sockets_ok_upd [OF udp_okD [OF u] i])
  show "socket_ok ((g_udp_sockets u ! sid)\<lparr>us_bound := True, us_bind_addr := adr, us_bind_port := port\<rparr>)"
    using sockets_okD(2) [OF udp_okD [OF u] i] f(2,3) by (simp add: socket_ok_def queue_ok_def pending_def)
  fix j assume "j < UDP_MAX_SOCKETS" "j \<noteq> sid"
  then show "\<not> meet ((g_udp_sockets u ! sid)\<lparr>us_bound := True, us_bind_addr := adr, us_bind_port := port\<rparr>) (g_udp_sockets u ! j)"
    using f(1) by (auto simp: udp_port_in_use_def meet_def Let_def)
qed

lemma bind_ok: "udp_ok u \<Longrightarrow> udp_ok (snd (udp_bind_socket sid ua len h u))"
  by (auto simp: udp_bind_socket_def Let_def INADDR_ANY_def INADDR_LOOPBACK_def intro!: bind_free_ok be_bounds)

subsection \<open>Automatic ports\<close>

lemma next_port_range: "UDP_EPHEMERAL_START \<le> p \<Longrightarrow> p \<le> UDP_EPHEMERAL_END \<Longrightarrow>
    UDP_EPHEMERAL_START \<le> next_port p \<and> next_port p \<le> UDP_EPHEMERAL_END"
  by (auto simp: next_port_def Let_def UDP_EPHEMERAL_START_def UDP_EPHEMERAL_END_def)

lemma counter_ok: "udp_ok u \<Longrightarrow> udp_ok (u\<lparr>g_udp_next_ephemeral := next_port (g_udp_next_ephemeral u)\<rparr>)"
  using next_port_range by (auto simp: udp_ok_def)

lemma autobind_loop_ok: "udp_ok u \<Longrightarrow> sid < UDP_MAX_SOCKETS \<Longrightarrow> udp_ok (snd (autobind_loop n sid u))"
proof (induction n arbitrary: u)
  case (Suc n)
  note ok = counter_ok [OF Suc.prems(1)]
  have "g_udp_next_ephemeral u < 65536" "INADDR_ANY < 2 ^ 32"
    using Suc.prems(1) by (simp_all add: udp_ok_def UDP_EPHEMERAL_END_def INADDR_ANY_def)
  then show ?case using Suc.IH [OF ok Suc.prems(2)] bind_free_ok [OF ok Suc.prems(2)] by (simp add: Let_def)
qed simp

lemma autobind_ok: "udp_ok u \<Longrightarrow> udp_ok (snd (udp_autobind sid u))"
  using autobind_loop_ok [of u sid "UDP_EPHEMERAL_END - UDP_EPHEMERAL_START + 1"]
  by (simp add: udp_autobind_def del: autobind_loop.simps)

subsection \<open>Sending and receiving\<close>

lemma proper_datagram_datagram: "length bs \<le> UDP_PAYLOAD_MAX \<Longrightarrow> proper_datagram (datagram src bs)"
  by (simp add: proper_datagram_def datagram_def)

lemma enqueue_socket_ok:
  assumes "udp_ok u" "i < UDP_MAX_SOCKETS" "us_q_len (g_udp_sockets u ! i) < UDP_QUEUE_MAX" "proper_datagram d"
  shows "udp_ok (upd_socket i (enqueue d) u)"
proof (rule udp_ok_upd [OF assms(1)], rule sockets_ok_same [OF udp_okD [OF assms(1)] assms(2)])
  have "socket_ok (g_udp_sockets u ! i)" using sockets_okD(2) [OF udp_okD [OF assms(1)] assms(2)] .
  then show "socket_ok (enqueue d (g_udp_sockets u ! i))" using assms(3,4) enqueue_ok
    by (auto simp: socket_ok_def enqueue_ok) (simp_all add: enqueue_def)
qed (simp_all add: enqueue_def)

lemma dequeue_socket_ok:
  assumes "udp_ok u" "i < UDP_MAX_SOCKETS" "0 < us_q_len (g_udp_sockets u ! i)"
  shows "udp_ok (upd_socket i dequeue u)"
proof (rule udp_ok_upd [OF assms(1)], rule sockets_ok_same [OF udp_okD [OF assms(1)] assms(2)])
  have s: "socket_ok (g_udp_sockets u ! i)" using sockets_okD(2) [OF udp_okD [OF assms(1)] assms(2)] .
  then have q: "queue_ok (g_udp_sockets u ! i)" by (simp add: socket_ok_def)
  show "socket_ok (dequeue (g_udp_sockets u ! i))" using s dequeue_ok [OF q assms(3)]
    by (simp add: socket_ok_def) (simp add: dequeue_def)
qed (simp_all add: dequeue_def)

lemma find_bound_less: "udp_find_bound adr port u = Some i \<Longrightarrow> i < UDP_MAX_SOCKETS"
  by (auto simp: udp_find_bound_def find_Some_iff)

lemma sendto_ok: "udp_ok u \<Longrightarrow> udp_ok (snd (udp_sendto_socket sid req h u))"
  using autobind_ok [of u sid] enqueue_socket_ok find_bound_less proper_datagram_datagram
  by (auto simp: udp_sendto_socket_def Let_def uget_def split: prod.splits option.splits if_splits)

lemma recv_take_ok: "udp_ok u \<Longrightarrow> sid < UDP_MAX_SOCKETS \<Longrightarrow> 0 < us_q_len (g_udp_sockets u ! sid) \<Longrightarrow> udp_ok (snd (snd (udp_recv_take sid req h u)))"
  using dequeue_socket_ok by (auto simp: udp_recv_take_def Let_def)

lemma timeout_ok:
  assumes "udp_ok u" "sid < UDP_MAX_SOCKETS" "ms < 65536"
  shows "udp_ok (upd_socket sid (\<lambda>k. k\<lparr>us_rcv_timeout_ms := ms\<rparr>) u)"
proof (rule udp_ok_upd [OF assms(1)], rule sockets_ok_same [OF udp_okD [OF assms(1)] assms(2)])
  show "socket_ok ((g_udp_sockets u ! sid)\<lparr>us_rcv_timeout_ms := ms\<rparr>)"
    using sockets_okD(2) [OF udp_okD [OF assms(1)] assms(2)] assms(3) by (simp add: socket_ok_def queue_ok_def pending_def)
qed simp_all

lemmas udp_keeps = alloc_ok free_ok bind_ok autobind_ok sendto_ok recv_take_ok timeout_ok

subsection \<open>All runs of the socket table\<close>

inductive udp_run :: "udp_state \<Rightarrow> bool" where
  boot: "udp_run \<lparr>g_udp_sockets = replicate UDP_MAX_SOCKETS no_socket, g_udp_next_ephemeral = UDP_EPHEMERAL_START\<rparr>"
| alloc: "udp_run u \<Longrightarrow> udp_run (snd (udp_socket_alloc u))"
| free: "udp_run u \<Longrightarrow> udp_run (udp_socket_free sid u)"
| bind: "udp_run u \<Longrightarrow> udp_run (snd (udp_bind_socket sid ua len h u))"
| send: "udp_run u \<Longrightarrow> udp_run (snd (udp_sendto_socket sid req h u))"
| recv: "udp_run u \<Longrightarrow> sid < UDP_MAX_SOCKETS \<Longrightarrow> udp_recv_next sid rq waited u = Recv_take \<Longrightarrow>
    udp_run (snd (snd (udp_recv_take sid rq h u)))"
| timeout: "udp_run u \<Longrightarrow> sid < UDP_MAX_SOCKETS \<Longrightarrow> ms < 65536 \<Longrightarrow> udp_run (upd_socket sid (\<lambda>k. k\<lparr>us_rcv_timeout_ms := ms\<rparr>) u)"

lemma udp_run_ok: "udp_run u \<Longrightarrow> udp_ok u"
proof (induction rule: udp_run.induct)
  case boot
  have "i < 8 \<Longrightarrow> replicate 8 no_socket ! i = no_socket" for i :: nat by (rule nth_replicate)
  then show ?case using socket_ok_no_socket(1)
    by (simp add: udp_ok_def sockets_ok_def UDP_MAX_SOCKETS_def UDP_EPHEMERAL_START_def UDP_EPHEMERAL_END_def)
      (simp add: meet_def no_socket_def)
next
  case (recv u sid rq waited h)
  then have "0 < us_q_len (g_udp_sockets u ! sid)" by (auto simp: udp_recv_next_def Let_def split: if_splits)
  with recv show ?case by (simp add: recv_take_ok)
qed (simp_all add: udp_keeps)

text \<open>C17: In every state that a sequence of socket calls can reach there are eight sockets, no two of them receive for the
  same port at addresses that overlap, and every queue holds at most eight datagrams, all of them complete and of at most 512 bytes.\<close>

theorem udp_ports_never_collide:
  assumes "udp_run u" "i < UDP_MAX_SOCKETS" "j < UDP_MAX_SOCKETS" "i \<noteq> j"
  shows "\<not> meet (g_udp_sockets u ! i) (g_udp_sockets u ! j) \<and> length (g_udp_sockets u) = UDP_MAX_SOCKETS \<and>
    length (pending (g_udp_sockets u ! i)) \<le> UDP_QUEUE_MAX \<and> (\<forall>d \<in> set (pending (g_udp_sockets u ! i)). proper_datagram d)"
proof -
  have ok: "sockets_ok (g_udp_sockets u)" using udp_run_ok [OF assms(1)] by (rule udp_okD)
  have "socket_ok (g_udp_sockets u ! i)" by (rule sockets_okD(2) [OF ok assms(2)])
  then have "queue_ok (g_udp_sockets u ! i)" "\<forall>d \<in> set (pending (g_udp_sockets u ! i)). proper_datagram d" by (simp_all add: socket_ok_def)
  then show ?thesis using sockets_okD(1,3) [OF ok assms(2)] assms(3,4) udp_queue.bounded by blast
qed

theorem udp_ports_never_collide_witness:
  "length (pending (g_udp_sockets (snd (udp_socket_alloc \<lparr>g_udp_sockets = replicate UDP_MAX_SOCKETS no_socket,
      g_udp_next_ephemeral = UDP_EPHEMERAL_START\<rparr>)) ! 0)) \<le> UDP_QUEUE_MAX"
  using udp_ports_never_collide [OF udp_run.alloc [OF udp_run.boot], of 0 1] by (simp add: UDP_MAX_SOCKETS_def)

subsection \<open>An automatic port is always found\<close>

lemma port_in_use_counter [simp]: "udp_port_in_use adr p sid (u\<lparr>g_udp_next_ephemeral := q\<rparr>) = udp_port_in_use adr p sid u"
  by (simp add: udp_port_in_use_def)

lemma autobind_loop_cases:
  "(\<exists>k < n. autobind_loop n sid u =
      (True, upd_socket sid (\<lambda>s. s\<lparr>us_bound := True, us_bind_addr := INADDR_ANY, us_bind_port := (next_port ^^ k) (g_udp_next_ephemeral u)\<rparr>)
        (u\<lparr>g_udp_next_ephemeral := (next_port ^^ Suc k) (g_udp_next_ephemeral u)\<rparr>)) \<and>
      \<not> udp_port_in_use INADDR_ANY ((next_port ^^ k) (g_udp_next_ephemeral u)) sid u) \<or>
   (\<forall>k < n. udp_port_in_use INADDR_ANY ((next_port ^^ k) (g_udp_next_ephemeral u)) sid u)"
proof (induction n arbitrary: u)
  case (Suc n)
  let ?p = "g_udp_next_ephemeral u" and ?u = "u\<lparr>g_udp_next_ephemeral := next_port (g_udp_next_ephemeral u)\<rparr>"
  show ?case
  proof (cases "udp_port_in_use INADDR_ANY ?p sid u")
    case False
    then show ?thesis by (intro disjI1 exI [of _ 0]) (simp add: Let_def)
  next
    case True
    then have e: "autobind_loop (Suc n) sid u = autobind_loop n sid ?u" by (simp add: Let_def)
    have f: "(next_port ^^ k) (next_port ?p) = (next_port ^^ Suc k) ?p" for k by (simp add: funpow_swap1)
    from Suc.IH [of ?u] show ?thesis
    proof (elim disjE exE conjE)
      fix k assume k: "k < n" "autobind_loop n sid ?u = (True, upd_socket sid (\<lambda>s. s\<lparr>us_bound := True, us_bind_addr := INADDR_ANY,
          us_bind_port := (next_port ^^ k) (g_udp_next_ephemeral ?u)\<rparr>) (?u\<lparr>g_udp_next_ephemeral := (next_port ^^ Suc k) (g_udp_next_ephemeral ?u)\<rparr>))"
        "\<not> udp_port_in_use INADDR_ANY ((next_port ^^ k) (g_udp_next_ephemeral ?u)) sid ?u"
      then show ?thesis unfolding e using f [of k] f [of "Suc k"]
        by (intro disjI1 exI [of _ "Suc k"]) (simp add: upd_socket_def del: funpow.simps)
    next
      assume a: "\<forall>k < n. udp_port_in_use INADDR_ANY ((next_port ^^ k) (g_udp_next_ephemeral ?u)) sid ?u"
      have "udp_port_in_use INADDR_ANY ((next_port ^^ k) ?p) sid u" if "k < Suc n" for k
        using that a True f by (cases k) (auto simp del: funpow.simps(2))
      then show ?thesis by blast
    qed
  qed
qed simp

text \<open>The counter runs through the range without repeating a port too early.\<close>

lemma next_port_steps:
  assumes "UDP_EPHEMERAL_START \<le> p" "p \<le> UDP_EPHEMERAL_END"
  shows "(next_port ^^ k) p = UDP_EPHEMERAL_START + (p - UDP_EPHEMERAL_START + k) mod 16384"
proof (induction k)
  case 0
  then show ?case using assms by (simp add: UDP_EPHEMERAL_START_def UDP_EPHEMERAL_END_def)
next
  case (Suc k)
  define m where "m = (p - UDP_EPHEMERAL_START + k) mod 16384"
  have m: "m < 16384" by (simp add: m_def)
  have s: "(p - UDP_EPHEMERAL_START + Suc k) mod 16384 = (if m = 16383 then 0 else Suc m)"
    unfolding m_def add_Suc_right mod_Suc by simp
  have "next_port (UDP_EPHEMERAL_START + m) = UDP_EPHEMERAL_START + (if m = 16383 then 0 else Suc m)"
    using m by (auto simp: next_port_def Let_def UDP_EPHEMERAL_START_def)
  then show ?case using Suc s by (simp add: m_def)
qed

lemma add_mod_inj:
  fixes a :: nat
  assumes "(a + x) mod n = (a + y) mod n" "x < n" "y < n"
  shows "x = y"
proof -
  have "u = v" if "(a + u) mod n = (a + v) mod n" "u \<le> v" "v < n" for u v
  proof -
    have "n dvd (a + v) - (a + u)" using that by (metis add_le_cancel_left mod_eq_dvd_iff_nat)
    then have "n dvd v - u" by simp
    then show ?thesis using that by (metis diff_is_0_eq dvd_imp_le le_antisym less_imp_diff_less linorder_not_less zero_less_iff_neq_zero)
  qed
  then show ?thesis using assms by (metis nle_le)
qed

lemma next_port_inj:
  assumes "UDP_EPHEMERAL_START \<le> p" "p \<le> UDP_EPHEMERAL_END"
  shows "inj_on (\<lambda>k. (next_port ^^ k) p) {..<16384}"
proof (rule inj_onI)
  fix x y :: nat assume *: "x \<in> {..<16384}" "y \<in> {..<16384}" "(next_port ^^ x) p = (next_port ^^ y) p"
  then have "(p - UDP_EPHEMERAL_START + x) mod 16384 = (p - UDP_EPHEMERAL_START + y) mod 16384"
    by (simp add: next_port_steps [OF assms])
  with *(1,2) show "x = y" by (auto intro: add_mod_inj)
qed

text \<open>An automatic port: \<^verbatim>\<open>udp_autobind\<close> always finds one, because at most eight of the 16384 are taken; it lies in the
  ephemeral range, no other socket receives for it, and nothing but the binding of the socket and the counter changes.\<close>

theorem udp_autobind_succeeds:
  assumes "udp_ok u" "sid < UDP_MAX_SOCKETS"
  shows "\<exists>p q. UDP_EPHEMERAL_START \<le> p \<and> p \<le> UDP_EPHEMERAL_END \<and> \<not> udp_port_in_use INADDR_ANY p sid u \<and>
    udp_autobind sid u = (True, upd_socket sid (\<lambda>s. s\<lparr>us_bound := True, us_bind_addr := INADDR_ANY, us_bind_port := p\<rparr>)
      (u\<lparr>g_udp_next_ephemeral := q\<rparr>))"
proof -
  let ?p = "g_udp_next_ephemeral u"
  let ?N = "UDP_EPHEMERAL_END - UDP_EPHEMERAL_START + 1" and ?port = "\<lambda>k. (next_port ^^ k) ?p"
  let ?ports = "(\<lambda>i. us_bind_port (g_udp_sockets u ! i)) ` {..<UDP_MAX_SOCKETS}"
  have p: "UDP_EPHEMERAL_START \<le> ?p" "?p \<le> UDP_EPHEMERAL_END" using assms(1) by (simp_all add: udp_ok_def)
  have N: "?N = 16384" by (simp add: UDP_EPHEMERAL_START_def UDP_EPHEMERAL_END_def)
  have "\<not> (\<forall>k < ?N. udp_port_in_use INADDR_ANY (?port k) sid u)"
  proof
    assume *: "\<forall>k < ?N. udp_port_in_use INADDR_ANY (?port k) sid u"
    have "?port k \<in> ?ports" if "k < 16384" for k
    proof -
      have "udp_port_in_use INADDR_ANY (?port k) sid u" using * that unfolding N by blast
      then obtain i where "i < UDP_MAX_SOCKETS" "us_bind_port (g_udp_sockets u ! i) = ?port k"
        by (auto simp: udp_port_in_use_def Let_def)
      then show ?thesis by (metis image_eqI lessThan_iff)
    qed
    then have "?port ` {..<16384} \<subseteq> ?ports" by blast
    then have "card (?port ` {..<16384}) \<le> card ?ports" by (intro card_mono) auto
    also have "\<dots> \<le> UDP_MAX_SOCKETS" using card_image_le [of "{..<UDP_MAX_SOCKETS}"] by simp
    finally show False using card_image [OF next_port_inj [OF p]] by (simp add: UDP_MAX_SOCKETS_def)
  qed
  with autobind_loop_cases [of ?N sid u] obtain k where "\<not> udp_port_in_use INADDR_ANY (?port k) sid u"
    "autobind_loop ?N sid u = (True, upd_socket sid (\<lambda>s. s\<lparr>us_bound := True, us_bind_addr := INADDR_ANY, us_bind_port := ?port k\<rparr>)
      (u\<lparr>g_udp_next_ephemeral := (next_port ^^ Suc k) ?p\<rparr>))" by blast
  moreover have "UDP_EPHEMERAL_START \<le> ?port k \<and> ?port k \<le> UDP_EPHEMERAL_END"
  proof -
    have "(?p - UDP_EPHEMERAL_START + k) mod 16384 < 16384" by simp
    then show ?thesis unfolding next_port_steps [OF p] UDP_EPHEMERAL_START_def UDP_EPHEMERAL_END_def by linarith
  qed
  ultimately show ?thesis using assms(2) unfolding udp_autobind_def by (metis linorder_not_le)
qed

theorem udp_autobind_succeeds_witness:
  "fst (udp_autobind 3 \<lparr>g_udp_sockets = replicate UDP_MAX_SOCKETS no_socket, g_udp_next_ephemeral = UDP_EPHEMERAL_START\<rparr>)"
  using udp_autobind_succeeds [OF udp_run_ok [OF udp_run.boot], of 3] by (auto simp: UDP_MAX_SOCKETS_def)

subsection \<open>From the sender to the receiver\<close>

definition source_addr :: "udp_socket \<Rightarrow> nat" where
  "source_addr s = (if us_bind_addr s = INADDR_ANY then INADDR_LOOPBACK else us_bind_addr s)"

text \<open>A send that succeeds appends one datagram to the queue of one socket.\<close>

lemma sendto_appends:
  assumes "udp_ok u" "sid < UDP_MAX_SOCKETS" "udp_sendto_socket sid req h u = (r, u1)" "0 \<le> r" "us_bound (g_udp_sockets u ! sid)"
  shows "\<exists>j < UDP_MAX_SOCKETS. r = int (sr_len req) \<and> sr_len req \<le> UDP_PAYLOAD_MAX \<and>
    us_bound (g_udp_sockets u ! j) \<and> us_bind_port (g_udp_sockets u ! j) = be16_to_cpu (sin_port h (sr_addr req)) \<and>
    u1 = upd_socket j (enqueue (datagram (g_udp_sockets u ! sid) (uget h (sr_buf req) (sr_len req)))) u \<and>
    us_q_len (g_udp_sockets u ! j) < UDP_QUEUE_MAX"
proof -
  have neg: "\<not> 0 \<le> - K_EINVAL" "\<not> 0 \<le> - K_ENOENT" "\<not> 0 \<le> - K_EAGAIN" by (simp_all add: K_EINVAL_def K_ENOENT_def K_EAGAIN_def)
  have "\<exists>j adr. udp_find_bound adr (be16_to_cpu (sin_port h (sr_addr req))) u = Some j \<and> r = int (sr_len req) \<and> sr_len req \<le> UDP_PAYLOAD_MAX \<and>
      u1 = upd_socket j (enqueue (datagram (g_udp_sockets u ! sid) (uget h (sr_buf req) (sr_len req)))) u \<and> us_q_len (g_udp_sockets u ! j) < UDP_QUEUE_MAX"
    using assms(3-5) neg unfolding udp_sendto_socket_def Let_def
    by (simp split: if_splits option.splits prod.splits) (metis linorder_not_le)+
  then obtain j adr where j: "udp_find_bound adr (be16_to_cpu (sin_port h (sr_addr req))) u = Some j" "r = int (sr_len req)" "sr_len req \<le> UDP_PAYLOAD_MAX"
      "u1 = upd_socket j (enqueue (datagram (g_udp_sockets u ! sid) (uget h (sr_buf req) (sr_len req)))) u" "us_q_len (g_udp_sockets u ! j) < UDP_QUEUE_MAX"
    by blast
  then have "j < UDP_MAX_SOCKETS" "us_bound (g_udp_sockets u ! j)" "us_bind_port (g_udp_sockets u ! j) = be16_to_cpu (sin_port h (sr_addr req))"
    by (auto simp: udp_find_bound_def Let_def find_Some_iff)
  with j show ?thesis by blast
qed

lemma be16_involution: "x < 65536 \<Longrightarrow> be16_to_cpu (cpu_to_be16 x) = x"
  by (simp add: be16_to_cpu_def cpu_to_be16_def)

text \<open>A 32-bit number is made of four bytes.\<close>

lemma four_bytes:
  fixes x :: nat
  assumes "x < 2 ^ 32"
  obtains a b c d where "x = a + 256 * b + 65536 * c + 16777216 * d" "a < 256" "b < 256" "c < 256" "d < 256"
proof
  let ?a = "x mod 256" and ?b = "x div 256 mod 256" and ?c = "x div 256 div 256 mod 256" and ?d = "x div 256 div 256 div 256"
  have "x = 256 * (x div 256) + ?a" "x div 256 = 256 * (x div 256 div 256) + ?b" "x div 256 div 256 = 256 * ?d + ?c" by simp_all
  then show "x = ?a + 256 * ?b + 65536 * ?c + 16777216 * ?d" by linarith
  show "?d < 256" using assms by (simp add: less_mult_imp_div_less)
qed simp_all

lemma low_byte: "a < 256 \<Longrightarrow> (a + 256 * y) mod 256 = a" "a < 256 \<Longrightarrow> (a + 256 * y) div 256 = y" for a y :: nat
  by simp_all

lemma bytes_of:
  fixes a :: nat
  assumes "a < 256" "b < 256" "c < 256" "d < 256" "x = a + 256 * b + 65536 * c + 16777216 * d"
  shows "x mod 256 = a" "x div 256 mod 256 = b" "x div 65536 mod 256 = c" "x div 16777216 mod 256 = d"
proof -
  have x: "x = a + 256 * (b + 256 * (c + 256 * d))" using assms(5) by simp
  have q1: "x div 256 = b + 256 * (c + 256 * d)" unfolding x by (rule low_byte(2) [OF assms(1)])
  have q2: "x div 256 div 256 = c + 256 * d" unfolding q1 by (rule low_byte(2) [OF assms(2)])
  have q3: "x div 256 div 256 div 256 = d" unfolding q2 by (rule low_byte(2) [OF assms(3)])
  have r: "x div 65536 = x div 256 div 256" "x div 16777216 = x div 256 div 256 div 256" by (simp_all add: div_mult2_eq [symmetric])
  show "x mod 256 = a" unfolding x by (rule low_byte(1) [OF assms(1)])
  show "x div 256 mod 256 = b" unfolding q1 by (rule low_byte(1) [OF assms(2)])
  show "x div 65536 mod 256 = c" unfolding r(1) q2 by (rule low_byte(1) [OF assms(3)])
  show "x div 16777216 mod 256 = d" unfolding r(2) q3 using assms(4) by simp
qed

lemma be32_involution:
  assumes "x < 2 ^ 32"
  shows "be32_to_cpu (cpu_to_be32 x) = x"
proof -
  obtain a b c d where x: "x = a + 256 * b + 65536 * c + 16777216 * d" "a < 256" "b < 256" "c < 256" "d < 256"
    using four_bytes [OF assms] .
  have "cpu_to_be32 x = d + 256 * c + 65536 * b + 16777216 * a"
    using bytes_of [OF x(2-5) x(1)] by (simp add: cpu_to_be32_def be32_to_cpu_def)
  from bytes_of [OF x(5,4,3,2) this] show ?thesis by (simp add: be32_to_cpu_def x(1))
qed

lemma be16_bound: "cpu_to_be16 x < 65536" and be32_bound: "cpu_to_be32 y < 2 ^ 32"
  using be_bounds by (simp_all add: cpu_to_be16_def cpu_to_be32_def)

text \<open>Two writes to the user page, away from each other.\<close>

lemma sockaddr_stored:
  assumes "user_at h phys" "in_user ra 16" "in_user rl 4" "ra + 16 \<le> rl \<or> rl + 4 \<le> ra" "p < 65536" "adr < 2 ^ 32"
    "h' = ustore32 rl n (uput ra (le16 AF_INET @ le16 (cpu_to_be16 p) @ le32 (cpu_to_be32 adr) @ replicate 8 NUL) h)"
  shows "sin_family h' ra = AF_INET" "be16_to_cpu (sin_port h' ra) = p" "be32_to_cpu (sin_addr h' ra) = adr"
proof -
  let ?bs = "le16 AF_INET @ le16 (cpu_to_be16 p) @ le32 (cpu_to_be32 adr) @ replicate 8 NUL"
  have b: "in_user ra (length ?bs)" "in_user rl (length (le32 n))" using assms(2,3) by simp_all
  have s: "seen h' (ra + i) = ?bs ! i" if "i < 16" for i
  proof -
    have "in_user (ra + i) 1" using assms(2) that by (simp add: in_user_def)
    then show ?thesis unfolding assms(7) ustore32_def
      using seen_uput [OF user_at_uput [OF assms(1) b(1)] b(2)] seen_uput [OF assms(1) b(1)] that assms(4) by auto
  qed
  have "uload16 h' ra = AF_INET"
  proof (rule uload16_bytes)
    show "seen h' ra = char_of AF_INET" "seen h' (ra + 1) = char_of (AF_INET div 256)" using s [of 0] s [of 1] by (simp_all add: le16_def)
  qed (simp add: AF_INET_def)
  then show "sin_family h' ra = AF_INET" by (simp add: sin_family_def)
  have "uload16 h' (ra + 2) = cpu_to_be16 p"
  proof (rule uload16_bytes [OF _ _ be16_bound])
    show "seen h' (ra + 2) = char_of (cpu_to_be16 p)" using s [of 2] by (simp add: le16_def)
    have "ra + 2 + 1 = ra + 3" by simp
    then show "seen h' (ra + 2 + 1) = char_of (cpu_to_be16 p div 256)" using s [of 3] by (simp only:) (simp add: le16_def)
  qed
  then show "be16_to_cpu (sin_port h' ra) = p" using be16_involution [OF assms(5)] by (simp add: sin_port_def)
  have "uload32 h' (ra + 4) = cpu_to_be32 adr"
  proof (rule uload32_bytes [OF _ be32_bound])
    fix i :: nat assume "i < 4"
    then show "seen h' (ra + 4 + i) = le32 (cpu_to_be32 adr) ! i" using s [of "4 + i"] by (simp add: nth_append le16_def add.assoc)
  qed
  then show "be32_to_cpu (sin_addr h' ra) = adr" using be32_involution [OF assms(6)] by (simp add: sin_addr_def)
qed

text \<open>What the code relies on where it sends and receives: the sender sends to a socket with an empty queue; the
  receiver's buffers lie in its page, apart from each other.\<close>

definition recv_fits :: "mm_state \<Rightarrow> addr \<Rightarrow> udp_recv_req \<Rightarrow> nat \<Rightarrow> bool" where
  "recv_fits h phys rq n \<longleftrightarrow> user_at h phys \<and> n \<le> rr_len rq \<and> in_user (rr_buf rq) n \<and>
     in_user (rr_addr rq) 16 \<and> in_user (rr_addrlen rq) 4 \<and> 16 \<le> uload32 h (rr_addrlen rq) \<and>
     (rr_addr rq + 16 \<le> rr_addrlen rq \<or> rr_addrlen rq + 4 \<le> rr_addr rq) \<and>
     (rr_buf rq + n \<le> rr_addrlen rq \<or> rr_addrlen rq + 4 \<le> rr_buf rq) \<and>
     (rr_buf rq + n \<le> rr_addr rq \<or> rr_addr rq + 16 \<le> rr_buf rq)"

lemma recv_stored:
  assumes "recv_fits h phys rq (length bs)" "us_bind_port src < 65536" "us_bind_addr src < 2 ^ 32" "length bs \<le> UDP_PAYLOAD_MAX"
    "h' = store_source rq (datagram src bs) (uput (rr_buf rq) bs h)"
  shows "uget h' (rr_buf rq) (length bs) = bs" "be16_to_cpu (sin_port h' (rr_addr rq)) = us_bind_port src"
    "be32_to_cpu (sin_addr h' (rr_addr rq)) = source_addr src"
proof -
  define h1 where "h1 = uput (rr_buf rq) bs h"
  note f = assms(1) [unfolded recv_fits_def]
  have u: "user_at h phys" "user_at h1 phys" using f user_at_uput unfolding h1_def by blast+
  have "uload32 h1 (rr_addrlen rq) = uload32 h (rr_addrlen rq)"
  proof (rule uload32_cong)
    fix i :: nat assume "i < 4"
    then have "in_user (rr_addrlen rq + i) 1" using f by (simp add: in_user_def)
    then show "seen h1 (rr_addrlen rq + i) = seen h (rr_addrlen rq + i)" unfolding h1_def
      using seen_uput [OF u(1), of "rr_buf rq" bs] f \<open>i < 4\<close> by auto
  qed
  moreover have "rr_addr rq \<noteq> 0" "rr_addrlen rq \<noteq> 0" using f by (auto simp: in_user_def USER_VADDR_BASE_def)
  ultimately have e: "h' = ustore32 (rr_addrlen rq) 16 (uput (rr_addr rq)
      (le16 AF_INET @ le16 (cpu_to_be16 (us_bind_port src)) @ le32 (cpu_to_be32 (source_addr src)) @ replicate 8 NUL) h1)"
    using f unfolding assms(5) h1_def [symmetric] store_source_def by (simp add: datagram_def source_addr_def)
  have a: "source_addr src < 2 ^ 32" using assms(3) by (simp add: source_addr_def INADDR_LOOPBACK_def)
  note S = sockaddr_stored [OF u(2) _ _ _ assms(2) a e]
  show "be16_to_cpu (sin_port h' (rr_addr rq)) = us_bind_port src" "be32_to_cpu (sin_addr h' (rr_addr rq)) = source_addr src"
    using S(2,3) f by blast+
  let ?sa = "le16 AF_INET @ le16 (cpu_to_be16 (us_bind_port src)) @ le32 (cpu_to_be32 (source_addr src)) @ replicate 8 NUL"
  have b: "in_user (rr_buf rq) (length bs)" "in_user (rr_addr rq) (length ?sa)" "in_user (rr_addrlen rq) (length (le32 16))" using f by simp_all
  have d: "rr_buf rq + length bs \<le> rr_addr rq \<or> rr_addr rq + length ?sa \<le> rr_buf rq"
    "rr_buf rq + length bs \<le> rr_addrlen rq \<or> rr_addrlen rq + length (le32 16) \<le> rr_buf rq" using f by simp_all
  have "uget h' (rr_buf rq) (length bs) = uget (uput (rr_addr rq) ?sa h1) (rr_buf rq) (length bs)"
    unfolding e ustore32_def by (rule uget_uput(2) [OF user_at_uput [OF u(2) b(2)] b(3,1) d(2)])
  also have "\<dots> = uget h1 (rr_buf rq) (length bs)" by (rule uget_uput(2) [OF u(2) b(2,1) d(1)])
  also have "\<dots> = bs" unfolding h1_def by (rule uget_uput(1) [OF u(1) b(1,1) refl refl])
  finally show "uget h' (rr_buf rq) (length bs) = bs" .
qed

text \<open>C13: A datagram from the sender to the receiver: after a send that succeeds to a socket with an empty queue, the
  receive on that socket takes exactly the bytes sent, gives the port and the address of the sender, and leaves the queue empty.\<close>

theorem udp_send_receive:
  assumes "udp_ok u" "sid < UDP_MAX_SOCKETS" "us_bound (g_udp_sockets u ! sid)" "udp_sendto_socket sid req h u = (r, u1)" "0 \<le> r"
    "recv_fits h1 phys rq (sr_len req)"
  shows "\<exists>j < UDP_MAX_SOCKETS. us_bind_port (g_udp_sockets u ! j) = be16_to_cpu (sin_port h (sr_addr req)) \<and>
    (pending (g_udp_sockets u ! j) \<noteq> [] \<or> (\<exists>h2 u2. udp_recv_take j rq h1 u1 = (r, h2, u2) \<and> pending (g_udp_sockets u2 ! j) = [] \<and>
      uget h2 (rr_buf rq) (sr_len req) = uget h (sr_buf req) (sr_len req) \<and>
      be16_to_cpu (sin_port h2 (rr_addr rq)) = us_bind_port (g_udp_sockets u ! sid) \<and>
      be32_to_cpu (sin_addr h2 (rr_addr rq)) = source_addr (g_udp_sockets u ! sid)))"
proof -
  let ?src = "g_udp_sockets u ! sid" and ?bs = "uget h (sr_buf req) (sr_len req)"
  let ?d = "datagram ?src ?bs"
  obtain j where j: "j < UDP_MAX_SOCKETS" "r = int (sr_len req)" "sr_len req \<le> UDP_PAYLOAD_MAX"
    "us_bind_port (g_udp_sockets u ! j) = be16_to_cpu (sin_port h (sr_addr req))" "u1 = upd_socket j (enqueue ?d) u" "us_q_len (g_udp_sockets u ! j) < UDP_QUEUE_MAX"
    using sendto_appends [OF assms(1,2,4,5,3)] by blast
  have ok: "socket_ok (g_udp_sockets u ! j)" "socket_ok ?src" using sockets_okD(2) [OF udp_okD [OF assms(1)]] j(1) assms(2) by blast+
  have len: "length ?bs = sr_len req" by (simp add: uget_def)
  have s1: "g_udp_sockets u1 ! j = enqueue ?d (g_udp_sockets u ! j)"
    using j(1,5) sockets_okD(1) [OF udp_okD [OF assms(1)] j(1)] by (simp add: upd_socket_def)
  have q1: "queue_ok (enqueue ?d (g_udp_sockets u ! j))" "pending (enqueue ?d (g_udp_sockets u ! j)) = pending (g_udp_sockets u ! j) @ [?d]"
    using enqueue_ok [OF _ j(6)] ok(1) by (simp_all add: socket_ok_def)
  have "0 < us_q_len (g_udp_sockets u1 ! j)" by (simp add: s1 enqueue_def)
  from dequeue_ok(2) [OF _ this] q1 s1
  have take: "us_q (g_udp_sockets u1 ! j) ! us_q_head (g_udp_sockets u1 ! j) = ?d" "pending (dequeue (g_udp_sockets u1 ! j)) = []"
    if "pending (g_udp_sockets u ! j) = []" using that by auto
  have l1: "length (g_udp_sockets u1) = UDP_MAX_SOCKETS" using j(5) sockets_okD(1) [OF udp_okD [OF assms(1)] j(1)] by (simp add: upd_socket_def)
  have n: "sr_len req \<le> rr_len rq" using assms(6) by (simp add: recv_fits_def)
  have fl: "dg_used ?d" "dg_len ?d = sr_len req" "take (sr_len req) (dg_payload ?d) = ?bs" using len by (simp_all add: datagram_def)
  let ?h2 = "store_source rq ?d (uput (rr_buf rq) ?bs h1)"
  have "udp_recv_take j rq h1 u1 = (r, ?h2, upd_socket j dequeue u1)" "pending (g_udp_sockets (upd_socket j dequeue u1) ! j) = []"
    if "pending (g_udp_sockets u ! j) = []"
    using take [OF that] n fl j(1,2) l1 by (simp_all add: udp_recv_take_def min_absorb2 upd_socket_def Let_def)
  moreover have "us_bind_port ?src < 65536" "us_bind_addr ?src < 2 ^ 32" using ok(2) by (simp_all add: socket_ok_def)
  note R = recv_stored [OF _ this _ refl, of h1 phys rq ?bs]
  ultimately show ?thesis using R j(1,3,4) assms(6) unfolding len by blast
qed

text \<open>A task whose user page lies at 32 MB, with an address, a payload and room for a reply in it, and two bound sockets.\<close>

definition udp_demo_mem :: mem where
  "udp_demo_mem = (\<lambda>a. if a = 0x1007 then CHR 0x02 else if a = 0x2000100 then CHR 0x02 else if a = 0x2000102 then CHR 0x07
     else if a = 0x2000103 then CHR 0xD0 else if a = 0x2000104 then CHR 0x7F else if a = 0x2000107 then CHR 0x01
     else if a = 0x2000200 then CHR ''h'' else if a = 0x2000201 then CHR ''i'' else if a = 0x2000500 then CHR 0x10 else NUL)"

definition udp_demo_mm :: mm_state where
  "udp_demo_mm = \<lparr>mm_mem = udp_demo_mem, heap_start = 0, heap_end = 0, free_list = 0, total_heap_size = 0, used_heap_size = 0,
     kernel_page_directory = 0x1000, paging_enabled = True, user_slot_used = [], global_mmap = [], cr0 = 0, cr3 = 0x1000, cr4 = 0\<rparr>"

definition udp_demo_bound :: "nat \<Rightarrow> udp_socket" where
  "udp_demo_bound p = no_socket\<lparr>us_used := True, us_bound := True, us_bind_port := p\<rparr>"

definition udp_demo_udp :: udp_state where
  "udp_demo_udp = \<lparr>g_udp_sockets = udp_demo_bound 1000 # udp_demo_bound 2000 # replicate 6 no_socket, g_udp_next_ephemeral = UDP_EPHEMERAL_START\<rparr>"

definition udp_demo_send :: udp_send_req where
  "udp_demo_send = \<lparr>sr_buf = 0x400200, sr_len = 2, sr_flags = 0, sr_addr = 0x400100, sr_addrlen = 16\<rparr>"

definition udp_demo_recv :: udp_recv_req where
  "udp_demo_recv = \<lparr>rr_buf = 0x400300, rr_len = 100, rr_flags = 0, rr_addr = 0x400400, rr_addrlen = 0x400500\<rparr>"

lemma udp_demo_user_at: "user_at udp_demo_mm 0x2000000"
  by (simp add: user_at_def udp_demo_mm_def udp_demo_mem_def load32_def USER_VADDR_SIZE_def)

lemma udp_demo_seen: "a < 0x400000 \<Longrightarrow> seen udp_demo_mm (0x400000 + a) = udp_demo_mem (0x2000000 + a)"
  using virt_user [OF udp_demo_user_at, of "0x400000 + a" 0]
  by (simp add: in_user_def USER_VADDR_BASE_def USER_VADDR_SIZE_def seen_def) (simp add: udp_demo_mm_def)

lemma udp_demo_ok: "udp_ok udp_demo_udp"
proof -
  have s: "socket_ok (udp_demo_bound p)" if "p < 65536" for p
    using that by (simp add: socket_ok_def udp_demo_bound_def queue_ok_def no_socket_def pending_def ring_ok_def UDP_QUEUE_MAX_def)
  have r: "sockets_ok (replicate 8 no_socket)" using udp_run_ok [OF udp_run.boot] by (simp add: udp_ok_def UDP_MAX_SOCKETS_def)
  have "\<not> meet (udp_demo_bound 1000) (replicate 8 no_socket ! j)" if "j < 8" for j using that by (simp add: meet_def no_socket_def)
  then have 1: "sockets_ok ((replicate 8 no_socket)[0 := udp_demo_bound 1000])"
    by (intro sockets_ok_upd [OF r]) (simp_all add: s UDP_MAX_SOCKETS_def)
  have "\<not> meet (udp_demo_bound 2000) ((replicate 8 no_socket)[0 := udp_demo_bound 1000] ! j)" if "j < 8" for j
    using that by (cases "j = 0") (simp_all add: meet_def no_socket_def udp_demo_bound_def)
  then have "sockets_ok ((replicate 8 no_socket)[0 := udp_demo_bound 1000, 1 := udp_demo_bound 2000])"
    by (intro sockets_ok_upd [OF 1]) (simp_all add: s UDP_MAX_SOCKETS_def)
  moreover have "(replicate 8 no_socket)[0 := udp_demo_bound 1000, 1 := udp_demo_bound 2000] = g_udp_sockets udp_demo_udp"
    by (simp add: udp_demo_udp_def numeral_eq_Suc)
  ultimately show ?thesis by (simp add: udp_ok_def udp_demo_udp_def UDP_EPHEMERAL_START_def UDP_EPHEMERAL_END_def)
qed

lemma udp_demo_sends: "\<exists>u1. udp_sendto_socket 0 udp_demo_send udp_demo_mm udp_demo_udp = (2, u1)"
proof -
  have f: "sin_family udp_demo_mm 0x400100 = AF_INET" "sin_port udp_demo_mm 0x400100 = 0xD007" "sin_addr udp_demo_mm 0x400100 = 0x100007F"
    using udp_demo_seen [of "0x100"] udp_demo_seen [of "0x101"] udp_demo_seen [of "0x102"] udp_demo_seen [of "0x103"] udp_demo_seen [of "0x104"] udp_demo_seen [of "0x105"]
      udp_demo_seen [of "0x106"] udp_demo_seen [of "0x107"]
    by (simp_all add: sin_family_def sin_port_def sin_addr_def uload16_def uload32_def load32_def udp_demo_mem_def AF_INET_def)
  have b: "udp_find_bound 0x7F000001 2000 udp_demo_udp = Some 1"
    by (simp add: udp_find_bound_def udp_demo_udp_def udp_demo_bound_def UDP_MAX_SOCKETS_def no_socket_def INADDR_ANY_def upt_rec [of 0] upt_rec [of "Suc 0"] Let_def)
  show ?thesis
    by (simp add: udp_sendto_socket_def udp_demo_send_def f be16_to_cpu_def be32_to_cpu_def INADDR_LOOPBACK_def INADDR_ANY_def UDP_PAYLOAD_MAX_def
        UDP_MAX_SOCKETS_def b) (simp add: udp_demo_udp_def udp_demo_bound_def no_socket_def UDP_QUEUE_MAX_def)
qed

lemma udp_demo_fits: "recv_fits udp_demo_mm 0x2000000 udp_demo_recv 2"
proof -
  have "uload32 udp_demo_mm 0x400500 = 16"
    using udp_demo_seen [of "0x500"] udp_demo_seen [of "0x501"] udp_demo_seen [of "0x502"] udp_demo_seen [of "0x503"] by (simp add: uload32_def load32_def udp_demo_mem_def)
  then show ?thesis by (simp add: recv_fits_def udp_demo_user_at udp_demo_recv_def in_user_def USER_VADDR_BASE_def USER_VADDR_SIZE_def)
qed

theorem udp_send_receive_witness:
  "\<exists>u1 j h2 u2. udp_sendto_socket 0 udp_demo_send udp_demo_mm udp_demo_udp = (2, u1) \<and> udp_recv_take j udp_demo_recv udp_demo_mm u1 = (2, h2, u2) \<and>
     be16_to_cpu (sin_port h2 0x400400) = 1000"
proof -
  obtain u1 where s: "udp_sendto_socket 0 udp_demo_send udp_demo_mm udp_demo_udp = (2, u1)" using udp_demo_sends by blast
  have b: "us_bound (g_udp_sockets udp_demo_udp ! 0)" "us_bind_port (g_udp_sockets udp_demo_udp ! 0) = 1000" by (simp_all add: udp_demo_udp_def udp_demo_bound_def)
  have f: "recv_fits udp_demo_mm 0x2000000 udp_demo_recv (sr_len udp_demo_send)" using udp_demo_fits by (simp add: udp_demo_send_def)
  have e: "pending (g_udp_sockets udp_demo_udp ! j) = []" if "j < 8" for j
    using that by (auto simp: udp_demo_udp_def udp_demo_bound_def no_socket_def pending_def nth_Cons split: nat.split)
  have "rr_addr udp_demo_recv = 0x400400" by (simp add: udp_demo_recv_def)
  then show ?thesis using udp_send_receive [OF udp_demo_ok _ b(1) s _ f] e b(2) s by (fastforce simp: UDP_MAX_SOCKETS_def)
qed

end
