(* ===== verification/Sys_Props.thy ===== *)
theory Sys_Props
  imports Syscall Udp_Props
begin

section \<open>What every system call keeps\<close>

text \<open>
  The invariant \<open>sys_ok\<close> of the static variables of \<^verbatim>\<open>syscall.c\<close>, and a small calculus for it: \<open>keeps x\<close> says that the
  state a computation ends in is in order.  There is one rule for each way to put computations together and one for each
  operation; a system call is then a matter of applying them.
\<close>

subsection \<open>The invariant\<close>

definition entry_ok :: "fd_entry \<Rightarrow> bool" where
  "entry_ok e \<longleftrightarrow> length (fe_path e) \<le> 255 \<and> -1 \<le> fe_sock_id e \<and> fe_sock_id e < int UDP_MAX_SOCKETS \<and> fe_fd_flags e \<le> FD_CLOEXEC"

definition table_ok :: "fd_entry list \<Rightarrow> bool" where
  "table_ok fds \<longleftrightarrow> length fds = FD_MAX \<and> (\<forall>e \<in> set fds. entry_ok e)"

definition fd_state_ok :: "fd_state \<Rightarrow> bool" where
  "fd_state_ok F \<longleftrightarrow> table_ok (g_fds F) \<and> length (g_task_fds F) = MAX_TASKS \<and> length (g_task_fd_init F) = MAX_TASKS \<and>
     (\<forall>t \<in> set (g_task_fds F). table_ok t)"

definition sys_ok :: "'w sys \<Rightarrow> bool" where
  "sys_ok s \<longleftrightarrow> fd_state_ok (sy_fds s) \<and> udp_ok (sy_udp s) \<and> length (g_mount_fat_used s) = VFS_MAX_MOUNTS \<and>
     length (g_mount_fat_path s) = VFS_MAX_MOUNTS \<and> (\<forall>p \<in> set (g_mount_fat_path s). length p \<le> 255)"

definition keeps_ok :: "('r \<times> 'w sys) option \<Rightarrow> bool" where
  "keeps_ok x \<longleftrightarrow> (\<forall>r s'. x = Some (r, s') \<longrightarrow> sys_ok s')"

definition stays_ok :: "'w sys option \<Rightarrow> bool" where
  "stays_ok x \<longleftrightarrow> (\<forall>s'. x = Some s' \<longrightarrow> sys_ok s')"

text \<open>The functions of devices, and whatever happens while a call waits, leave the state in order.\<close>

definition calm :: "('w, 'p) sys_env \<Rightarrow> bool" where
  "calm E \<longleftrightarrow> (\<forall>f c a n s. sys_ok s \<longrightarrow> keeps_ok (en_dev_read E f c a n s) \<and> keeps_ok (en_dev_write E f c a n s) \<and>
     keeps_ok (en_dev_ioctl E f c n a s))"

definition calm_wait :: "'w wait \<Rightarrow> bool" where
  "calm_wait wt \<longleftrightarrow> (\<forall>s. sys_ok s \<longrightarrow> sys_ok (snd wt s))"

definition calm_waits :: "'w wait list \<Rightarrow> bool" where
  "calm_waits ws \<longleftrightarrow> (\<forall>wt \<in> set ws. calm_wait wt)"

named_theorems keeping \<open>rules of the calculus\<close>

subsection \<open>Rules for the ways to compose\<close>

lemma keeps_None [keeping]: "keeps_ok None" "stays_ok None"
  by (simp_all add: keeps_ok_def stays_ok_def)

lemma keeps_Some [keeping]: "sys_ok s \<Longrightarrow> keeps_ok (Some (r, s))" "sys_ok s \<Longrightarrow> stays_ok (Some s)"
  by (simp_all add: keeps_ok_def stays_ok_def)

lemma keeps_ret [keeping]: "sys_ok s \<Longrightarrow> keeps_ok (ret r s)"
  by (simp add: keeps_ok_def ret_def)

lemma keeps_bind [keeping]:
  "keeps_ok x \<Longrightarrow> (\<And>r s. sys_ok s \<Longrightarrow> keeps_ok (f r s)) \<Longrightarrow> keeps_ok (Option.bind x (case_prod f))"
  by (cases x) (auto simp: keeps_ok_def)

lemma keeps_bind_state [keeping]:
  "stays_ok y \<Longrightarrow> (\<And>s. sys_ok s \<Longrightarrow> keeps_ok (g s)) \<Longrightarrow> keeps_ok (Option.bind y g)"
  by (cases y) (auto simp: keeps_ok_def stays_ok_def)

lemma stays_bind [keeping]:
  "stays_ok y \<Longrightarrow> (\<And>s. sys_ok s \<Longrightarrow> stays_ok (g s)) \<Longrightarrow> stays_ok (Option.bind y g)"
  by (cases y) (auto simp: stays_ok_def)

lemma keeps_if [keeping]:
  "(b \<Longrightarrow> keeps_ok x) \<Longrightarrow> (\<not> b \<Longrightarrow> keeps_ok y) \<Longrightarrow> keeps_ok (if b then x else y)"
  "(b \<Longrightarrow> stays_ok u) \<Longrightarrow> (\<not> b \<Longrightarrow> stays_ok v) \<Longrightarrow> stays_ok (if b then u else v)"
  by simp_all

lemma keeps_case_option [keeping]:
  "(q = None \<Longrightarrow> keeps_ok x) \<Longrightarrow> (\<And>v. q = Some v \<Longrightarrow> keeps_ok (f v)) \<Longrightarrow> keeps_ok (case q of None \<Rightarrow> x | Some v \<Rightarrow> f v)"
  "(q = None \<Longrightarrow> stays_ok y) \<Longrightarrow> (\<And>v. q = Some v \<Longrightarrow> stays_ok (g v)) \<Longrightarrow> stays_ok (case q of None \<Rightarrow> y | Some v \<Rightarrow> g v)"
  by (simp_all split: option.split)

lemma keeps_case_prod [keeping]:
  "(\<And>a b. p = (a, b) \<Longrightarrow> keeps_ok (f a b)) \<Longrightarrow> keeps_ok (case_prod f p)"
  "(\<And>a b. p = (a, b) \<Longrightarrow> keeps_ok (g a b s)) \<Longrightarrow> keeps_ok (case_prod g p s)"
  by (simp_all split: prod.split)

lemma keeps_case_list [keeping]:
  "(q = [] \<Longrightarrow> keeps_ok x) \<Longrightarrow> (\<And>v vs. q = v # vs \<Longrightarrow> keeps_ok (f v vs)) \<Longrightarrow> keeps_ok (case q of [] \<Rightarrow> x | v # vs \<Rightarrow> f v vs)"
  by (simp split: list.split)

lemma keeps_Let [keeping]: "keeps_ok (f t) \<Longrightarrow> keeps_ok (Let t f)" "stays_ok (g t) \<Longrightarrow> stays_ok (Let t g)"
  by (simp_all add: Let_def)

lemma sys_ok_cases [keeping]:
  "(q = None \<Longrightarrow> sys_ok a) \<Longrightarrow> (\<And>v. q = Some v \<Longrightarrow> sys_ok (f v)) \<Longrightarrow> sys_ok (case q of None \<Rightarrow> a | Some v \<Rightarrow> f v)"
  "(b \<Longrightarrow> sys_ok a) \<Longrightarrow> (\<not> b \<Longrightarrow> sys_ok c) \<Longrightarrow> sys_ok (if b then a else c)"
  by (simp_all split: option.split)

lemma keeps_map_snd [keeping]: "keeps_ok x \<Longrightarrow> stays_ok (map_option snd x)"
  by (auto simp: keeps_ok_def stays_ok_def)

lemma keeps_returning [keeping]: "keeps_ok x \<Longrightarrow> keeps_ok (returning x)"
  by (auto simp: keeps_ok_def returning_def)

subsection \<open>Rules for the parts of the state\<close>

lemma sys_ok_w [keeping]: "sys_ok s \<Longrightarrow> sys_ok (s\<lparr>sy_w := w\<rparr>)"
  by (simp add: sys_ok_def)

lemma sys_ok_same [keeping]:
  "sys_ok s \<Longrightarrow> sys_ok (set_k E k s)" "sys_ok s \<Longrightarrow> sys_ok (on_mm E h s)" "sys_ok s \<Longrightarrow> sys_ok (s\<lparr>g_root_fs := v\<rparr>)"
  "sys_ok s \<Longrightarrow> sys_ok (s\<lparr>sy_frame := fr\<rparr>)" "sys_ok s \<Longrightarrow> sys_ok (s\<lparr>g_pipe_seq := q\<rparr>)" "sys_ok s \<Longrightarrow> sys_ok (u_copy E a b n s)"
  "sys_ok s \<Longrightarrow> sys_ok (upd_current E g s)"
  by (auto simp: sys_ok_def set_k_def on_mm_def u_copy_def upd_current_def split: option.split)

lemma keeps_on_w [keeping]: "sys_ok s \<Longrightarrow> keeps_ok (on_w f s)"
  unfolding on_w_def by (cases "f (sy_w s)") (auto simp: keeps_ok_def sys_ok_w)

lemma keeps_on_k [keeping]: "sys_ok s \<Longrightarrow> keeps_ok (on_k E g s)"
  unfolding on_k_def by (cases "g (the_k E s)") (auto simp: keeps_ok_def sys_ok_same)

lemma keeps_malloc [keeping]: "sys_ok s \<Longrightarrow> keeps_ok (k_malloc E n s)"
  unfolding k_malloc_def by (cases "kmalloc (the_mm E s) n") (auto simp: keeps_ok_def sys_ok_same)

lemma stays_free [keeping]: "sys_ok s \<Longrightarrow> stays_ok (k_free E a s)"
  unfolding k_free_def by (cases "kfree (the_mm E s) a") (auto simp: stays_ok_def sys_ok_same)

lemma stays_pause [keeping]: "calm_wait wt \<Longrightarrow> sys_ok s \<Longrightarrow> stays_ok (pause E go wt s)"
  unfolding pause_def by (cases "go (fst wt) (the_k E s)") (simp_all add: stays_ok_def calm_wait_def sys_ok_same)

lemma calm_waits_Cons: "calm_waits (wt # ws) \<Longrightarrow> calm_wait wt" "calm_waits (wt # ws) \<Longrightarrow> calm_waits ws"
  by (simp_all add: calm_waits_def)

lemma calmD:
  assumes "calm E" "sys_ok s"
  shows "keeps_ok (en_dev_read E f c a n s)" "keeps_ok (en_dev_write E f c a n s)" "keeps_ok (en_dev_ioctl E f c q a s)"
  using assms by (simp_all add: calm_def)

lemma keeps_read [keeping]: "calm E \<Longrightarrow> sys_ok s \<Longrightarrow> keeps_ok (read_into E v path buf n s)"
  unfolding read_into_def
  by (auto simp: calmD sys_ok_w sys_ok_same keeps_None keeps_Some split: option.split io.split prod.split)

lemma keeps_write [keeping]: "calm E \<Longrightarrow> sys_ok s \<Longrightarrow> keeps_ok (write_from E v path buf n s)"
  unfolding write_from_def
  by (auto simp: calmD sys_ok_w sys_ok_same keeps_None keeps_Some split: option.split io.split prod.split)

lemma keeps_append [keeping]: "calm E \<Longrightarrow> sys_ok s \<Longrightarrow> keeps_ok (append_from E v path buf n s)"
  unfolding append_from_def
  by (auto simp: calmD sys_ok_w sys_ok_same keeps_None keeps_Some split: option.split io.split prod.split)

lemma keeps_control [keeping]: "calm E \<Longrightarrow> sys_ok s \<Longrightarrow> keeps_ok (control E v path q arg s)"
  unfolding control_def
  by (auto simp: calmD sys_ok_w sys_ok_same keeps_None keeps_Some split: option.split io.split prod.split)

lemma keeps_leave [keeping]: "sys_ok s \<Longrightarrow> keeps_ok (leave E irqs s)"
  by (auto simp: keeps_ok_def leave_def split: option.splits intro: sys_ok_same)

subsection \<open>Rules for the tables\<close>

lemma slot_bound: "this_slot E s = Some i \<Longrightarrow> i < MAX_TASKS"
  by (auto simp: this_slot_def current_task_slot_def split: option.splits if_splits)

definition slot_ok :: "nat option \<Rightarrow> bool" where
  "slot_ok slot \<longleftrightarrow> (\<forall>i. slot = Some i \<longrightarrow> i < MAX_TASKS)"

lemma slot_ok_this [keeping]: "slot_ok (this_slot E s)"
  by (simp add: slot_ok_def slot_bound)

lemma fd_state_ok_table: "fd_state_ok F \<Longrightarrow> slot_ok slot \<Longrightarrow> table_ok (fd_table slot F)"
  by (cases slot) (auto simp: fd_state_ok_def fd_table_def slot_ok_def)

lemma fd_state_ok_set: "fd_state_ok F \<Longrightarrow> table_ok fds \<Longrightarrow> fd_state_ok (set_fd_table slot fds F)"
  by (cases slot) (auto simp: fd_state_ok_def set_fd_table_def dest!: set_update_subset_insert [THEN subsetD])

lemma sys_ok_table: "sys_ok s \<Longrightarrow> slot_ok slot \<Longrightarrow> table_ok (fd_table slot (sy_fds s))" "sys_ok s \<Longrightarrow> table_ok (cur_fds E s)"
  by (simp_all add: sys_ok_def fd_state_ok_table cur_fds_def slot_ok_this)

lemma sys_ok_set_fds [keeping]: "sys_ok s \<Longrightarrow> table_ok fds \<Longrightarrow> sys_ok (set_fds slot fds s)"
  by (simp add: sys_ok_def set_fds_def fd_state_ok_set)

lemma table_ok_upd: "table_ok fds \<Longrightarrow> entry_ok e \<Longrightarrow> table_ok (fds[i := e])"
  by (auto simp: table_ok_def dest!: set_update_subset_insert [THEN subsetD])

lemma table_ok_nth: "table_ok fds \<Longrightarrow> i < FD_MAX \<Longrightarrow> entry_ok (fds ! i)"
  by (simp add: table_ok_def)

text \<open>An index past the end changes nothing.\<close>

lemma sys_ok_upd_fd [keeping]:
  assumes "sys_ok s" "slot_ok slot" "\<And>e. entry_ok e \<Longrightarrow> entry_ok (f e)"
  shows "sys_ok (upd_fd slot fd f s)"
proof -
  have t: "table_ok (fd_table slot (sy_fds s))" by (rule sys_ok_table(1) [OF assms(1,2)])
  have "table_ok ((fd_table slot (sy_fds s))[fd := f (fd_table slot (sy_fds s) ! fd)])"
  proof (cases "fd < FD_MAX")
    case True
    then show ?thesis using table_ok_upd [OF t assms(3)] table_ok_nth [OF t] by blast
  next
    case False
    then have "length (fd_table slot (sy_fds s)) \<le> fd" using t by (simp add: table_ok_def)
    then show ?thesis using t by (simp add: list_update_beyond)
  qed
  then show ?thesis unfolding upd_fd_def Let_def by (rule sys_ok_set_fds [OF assms(1)])
qed

lemma entries_ok [keeping]: "entry_ok zero_fd" "entry_ok closed_fd" "entry_ok (opened_fd path flags)" "sid < UDP_MAX_SOCKETS \<Longrightarrow> entry_ok (udp_fd sid)"
  "entry_ok e \<Longrightarrow> entry_ok (dup_of e)" "entry_ok e \<Longrightarrow> entry_ok (e\<lparr>fe_offset := n\<rparr>)" "entry_ok e \<Longrightarrow> entry_ok (e\<lparr>fe_open_flags := n\<rparr>)"
  "entry_ok e \<Longrightarrow> entry_ok (e\<lparr>fe_pipe_auto_unlink := b\<rparr>)" "k \<le> FD_CLOEXEC \<Longrightarrow> entry_ok e \<Longrightarrow> entry_ok (e\<lparr>fe_fd_flags := k\<rparr>)"
  by (auto simp: entry_ok_def zero_fd_def closed_fd_def opened_fd_def udp_fd_def dup_of_def UDP_MAX_SOCKETS_def)

lemma sys_ok_udp [keeping]: "sys_ok s \<Longrightarrow> udp_ok u \<Longrightarrow> sys_ok (s\<lparr>sy_udp := u\<rparr>)"
  by (simp add: sys_ok_def)

lemma sys_ok_udpD: "sys_ok s \<Longrightarrow> udp_ok (sy_udp s)"
  by (simp add: sys_ok_def)

lemma release_ok [keeping]: "udp_ok u \<Longrightarrow> udp_ok (release_socket e u)"
  by (simp add: release_socket_def free_ok)

subsection \<open>Files and descriptors\<close>

lemma keeps_with_root [keeping]: "sys_ok s \<Longrightarrow> (\<And>v. keeps_ok (f v)) \<Longrightarrow> keeps_ok (with_root s f)"
  unfolding with_root_def by (intro keeping)

lemma keeps_with_path [keeping]: "sys_ok s \<Longrightarrow> (\<And>p. keeps_ok (f p)) \<Longrightarrow> keeps_ok (with_path E a s f)"
  unfolding with_path_def by (intro keeping)

lemma keeps_read_file_at [keeping]: "calm E \<Longrightarrow> slot_ok slot \<Longrightarrow> sys_ok s \<Longrightarrow> keeps_ok (read_file_at E v slot path info ebx ecx edx s)"
  unfolding read_file_at_def by (intro keeping)

lemma keeps_read_stream_to [keeping]: "calm E \<Longrightarrow> slot_ok slot \<Longrightarrow> sys_ok s \<Longrightarrow> keeps_ok (read_stream_to E v slot path ebx ecx edx s)"
  unfolding read_stream_to_def by (intro keeping)

lemma keeps_sys_read [keeping]: "calm E \<Longrightarrow> sys_ok s \<Longrightarrow> keeps_ok (sys_read E ebx ecx edx s)"
  unfolding sys_read_def by (intro keeping)

lemma keeps_write_file_at [keeping]: "calm E \<Longrightarrow> slot_ok slot \<Longrightarrow> sys_ok s \<Longrightarrow> keeps_ok (write_file_at E v slot path info ebx ecx n s)"
  unfolding write_file_at_def by (intro keeping)

lemma keeps_sys_write [keeping]: "calm E \<Longrightarrow> sys_ok s \<Longrightarrow> keeps_ok (sys_write E ebx ecx edx s)"
  unfolding sys_write_def by (intro keeping)

lemma keeps_sys_append [keeping]: "calm E \<Longrightarrow> sys_ok s \<Longrightarrow> keeps_ok (sys_append E ebx ecx edx s)"
  unfolding sys_append_def by (intro keeping)

lemma keeps_sys_ioctl [keeping]: "calm E \<Longrightarrow> sys_ok s \<Longrightarrow> keeps_ok (sys_ioctl E ebx ecx edx s)"
  unfolding sys_ioctl_def by (intro keeping)

lemma free_fd_bound: "free_fd lo fds = Some i \<Longrightarrow> i < FD_MAX"
  by (auto simp: free_fd_def find_Some_iff FD_MAX_def)

lemma table_ok_alloc: "table_ok fds \<Longrightarrow> table_ok (snd (fd_alloc path flags fds))"
  by (auto simp: fd_alloc_def split: option.split intro: table_ok_upd entries_ok)

lemma sys_ok_alloc: "sys_ok s \<Longrightarrow> sys_ok (snd (alloc_fd E path flags s))"
  using table_ok_alloc [OF sys_ok_table(2), of s path flags E]
  by (auto simp: alloc_fd_def sys_ok_set_fds split: prod.split)

lemma alloc_fd_ok: "alloc_fd E path flags s = (r, s') \<Longrightarrow> sys_ok s \<Longrightarrow> sys_ok s'"
  using sys_ok_alloc [of s E path flags] by simp

lemma keeps_case_alloc [keeping]:
  assumes "sys_ok s" "\<And>s'. sys_ok s' \<Longrightarrow> keeps_ok (none s')" "\<And>fd s'. sys_ok s' \<Longrightarrow> keeps_ok (some fd s')"
  shows "keeps_ok (case alloc_fd E path flags s of (None, s') \<Rightarrow> none s' | (Some fd, s') \<Rightarrow> some fd s')"
proof (cases "alloc_fd E path flags s")
  case (Pair r s')
  have "sys_ok s'" by (rule alloc_fd_ok [OF Pair assms(1)])
  then show ?thesis using assms(2,3) by (cases r) (simp_all add: Pair)
qed

lemma keeps_sys_open [keeping]: "sys_ok s \<Longrightarrow> keeps_ok (sys_open E ebx ecx s)"
  unfolding sys_open_def by (intro keeping)

lemma stays_drop_pipe [keeping]: "sys_ok s \<Longrightarrow> stays_ok (drop_pipe E fd s)"
  unfolding drop_pipe_def by (intro keeping)

lemma stays_close_entry [keeping]: "slot_ok slot \<Longrightarrow> sys_ok s \<Longrightarrow> stays_ok (close_entry E slot fd s)"
  unfolding close_entry_def by (intro keeping sys_ok_udpD)

lemma keeps_sys_close [keeping]: "sys_ok s \<Longrightarrow> keeps_ok (sys_close E ebx s)"
  unfolding sys_close_def by (intro keeping)

lemma stays_cloexec_loop: "slot_ok slot \<Longrightarrow> sys_ok s \<Longrightarrow> stays_ok (close_cloexec_loop E slot is s)"
proof (induction "is" arbitrary: s)
  case Nil
  then show ?case by (simp add: keeping)
next
  case (Cons i "is")
  show ?case unfolding close_cloexec_loop.simps by (intro keeping Cons)
qed

lemma stays_cloexec [keeping]: "sys_ok s \<Longrightarrow> stays_ok (close_cloexec_fds E s)"
  unfolding close_cloexec_fds_def by (intro stays_cloexec_loop keeping)

lemma keeps_path_call: "sys_ok s \<Longrightarrow> keeps_ok (path_call E f g ebx s)"
  unfolding path_call_def by (intro keeping)

lemma keeps_names [keeping]: assumes "sys_ok s"
  shows "keeps_ok (sys_mkdir E ebx s)" "keeps_ok (sys_mkfifo E ebx s)" "keeps_ok (sys_mksock E ebx s)" "keeps_ok (sys_unlink E ebx s)" "keeps_ok (sys_rmdir E ebx s)"
  unfolding sys_mkdir_def sys_mkfifo_def sys_mksock_def sys_unlink_def sys_rmdir_def by (intro keeps_path_call assms)+

lemma keeps_sys_link [keeping]: "sys_ok s \<Longrightarrow> keeps_ok (sys_link E ebx ecx s)"
  unfolding sys_link_def by (intro keeping)

lemma keeps_sys_list [keeping]: "sys_ok s \<Longrightarrow> keeps_ok (sys_list E ebx ecx edx s)"
  unfolding sys_list_def by (intro keeping)

lemma keeps_list_mounts [keeping]: "sys_ok s \<Longrightarrow> keeps_ok (sys_list_mounts E ebx ecx s)"
  unfolding sys_list_mounts_def by (intro keeping)

lemma keeps_sys_stat [keeping]: "sys_ok s \<Longrightarrow> keeps_ok (sys_stat E ebx ecx s)"
  unfolding sys_stat_def by (intro keeping)

lemma keeps_sys_fstat [keeping]: "sys_ok s \<Longrightarrow> keeps_ok (sys_fstat E ebx ecx s)"
  unfolding sys_fstat_def by (intro keeping)

lemma keeps_sys_lseek [keeping]: "sys_ok s \<Longrightarrow> keeps_ok (sys_lseek E ebx ecx edx s)"
  unfolding sys_lseek_def by (intro keeping)

text \<open>Copies of descriptors: the new table and the sockets are in order.\<close>

lemma keeps_on_fds:
  assumes "sys_ok s" "\<And>fds u. table_ok fds \<Longrightarrow> udp_ok u \<Longrightarrow> table_ok (fst (snd (f fds u))) \<and> udp_ok (snd (snd (f fds u)))"
  shows "keeps_ok (on_fds E f s)"
proof -
  obtain r fds u where f: "f (cur_fds E s) (sy_udp s) = (r, fds, u)" by (cases "f (cur_fds E s) (sy_udp s)")
  have "table_ok fds \<and> udp_ok u" using assms(2) [OF sys_ok_table(2) [OF assms(1)] sys_ok_udpD [OF assms(1)], of E] by (simp add: f)
  then show ?thesis unfolding on_fds_def f by (simp add: keeps_ret sys_ok_set_fds sys_ok_udp assms(1))
qed

lemma dup_ok: "table_ok fds \<Longrightarrow> udp_ok u \<Longrightarrow>
    table_ok (fst (snd (fd_dup_from_to a b fixed fds u))) \<and> udp_ok (snd (snd (fd_dup_from_to a b fixed fds u)))"
  unfolding fd_dup_from_to_def
  by (auto simp: table_ok_upd entries_ok table_ok_nth release_ok split: option.split)

lemma fcntl_ok: "table_ok fds \<Longrightarrow> udp_ok u \<Longrightarrow>
    table_ok (fst (snd (sys_fcntl fd cmd arg fds u))) \<and> udp_ok (snd (snd (sys_fcntl fd cmd arg fds u)))"
  unfolding sys_fcntl_def Let_def
  using table_ok_nth [of fds fd]
  by (auto simp: table_ok_upd entries_ok dup_ok split: option.split)

lemma keeps_dups [keeping]: assumes "sys_ok s"
  shows "keeps_ok (sys_dup E ebx s)" "keeps_ok (sys_dup2 E ebx ecx s)" "keeps_ok (do_fcntl E ebx ecx edx s)"
  unfolding sys_dup_def sys_dup2_def do_fcntl_def
  by (rule keeps_on_fds [OF assms]; simp add: dup_ok fcntl_ok)+

lemma keeps_pipe_fds [keeping]: "slot_ok slot \<Longrightarrow> sys_ok s \<Longrightarrow> keeps_ok (pipe_fds E v slot ebx path s)"
  unfolding pipe_fds_def by (intro keeping)

lemma keeps_pipe_loop: "slot_ok slot \<Longrightarrow> sys_ok s \<Longrightarrow> keeps_ok (pipe_loop E v slot ebx n s)"
proof (induction n arbitrary: s)
  case 0
  then show ?case by (simp add: keeping)
next
  case (Suc n)
  obtain q s1 where seq: "take_seq s = (q, s1)" by (cases "take_seq s")
  then have "sys_ok s1" using Suc.prems by (auto simp: take_seq_def Let_def sys_ok_same split: if_splits)
  then show ?case unfolding pipe_loop.simps seq by (intro keeping Suc) simp_all
qed

lemma keeps_sys_pipe [keeping]: "sys_ok s \<Longrightarrow> keeps_ok (sys_pipe E ebx s)"
  unfolding sys_pipe_def by (intro keeping keeps_pipe_loop)

subsection \<open>Waiting for input\<close>

lemma keeps_poll_revents [keeping]: "sys_ok s \<Longrightarrow> keeps_ok (fd_poll_revents E fd events s)"
  unfolding fd_poll_revents_def by (intro keeping)

lemma keeps_poll_pass [keeping]: "sys_ok s \<Longrightarrow> keeps_ok (poll_pass E pfds is ready s)"
proof (induction "is" arbitrary: ready s)
  case Nil
  then show ?case by (simp add: keeping)
next
  case (Cons i "is")
  show ?case unfolding poll_pass.simps by (intro keeping Cons)
qed

lemma keeps_poll_loop [keeping]: "calm_waits ws \<Longrightarrow> sys_ok s \<Longrightarrow> keeps_ok (poll_loop E pfds nfds timeout_ms ws waited s)"
proof (induction ws arbitrary: waited s)
  case Nil
  show ?case unfolding poll_loop.simps by (intro keeping Nil)
next
  case (Cons wt ws)
  show ?case unfolding poll_loop.simps by (intro keeping Cons.IH Cons.prems calm_waits_Cons [OF Cons.prems(1)])
qed

lemma keeps_sys_poll [keeping]: "calm_waits ws \<Longrightarrow> sys_ok s \<Longrightarrow> keeps_ok (sys_poll E ws ebx ecx edx s)"
  unfolding sys_poll_def by (intro keeping)

lemma keeps_select_pass [keeping]: "sys_ok s \<Longrightarrow> keeps_ok (select_pass E r w e fds acc s)"
proof (induction fds arbitrary: acc s)
  case Nil
  then show ?case by (simp add: keeping)
next
  case (Cons fd fds)
  show ?case unfolding select_pass.simps by (intro keeping Cons)
qed

lemma sys_ok_store_mask [keeping]: "sys_ok s \<Longrightarrow> sys_ok (store_mask E a m s)"
  unfolding store_mask_def by (intro keeping)

lemma keeps_select_once [keeping]: "sys_ok s \<Longrightarrow> keeps_ok (select_once E r w e nfds s)"
  unfolding select_once_def by (intro keeping)

lemma keeps_select_loop [keeping]: "calm_waits ws \<Longrightarrow> sys_ok s \<Longrightarrow> keeps_ok (select_loop E r w e nfds timeout_ms ws waited s)"
proof (induction ws arbitrary: waited s)
  case Nil
  show ?case unfolding select_loop.simps by (intro keeping Nil)
next
  case (Cons wt ws)
  show ?case unfolding select_loop.simps by (intro keeping Cons.IH Cons.prems calm_waits_Cons [OF Cons.prems(1)])
qed

lemma keeps_sys_select [keeping]: "calm_waits ws \<Longrightarrow> sys_ok s \<Longrightarrow> keeps_ok (sys_select E ws ebx s)"
  unfolding sys_select_def by (intro keeping)

subsection \<open>Mounts\<close>

lemma sys_ok_fat:
  assumes "sys_ok s" "length p \<le> 255"
  shows "sys_ok (s\<lparr>sy_w := w, g_mount_fat_used := (g_mount_fat_used s)[i := b], g_mount_fat_path := (g_mount_fat_path s)[i := p]\<rparr>)"
    "sys_ok (s\<lparr>g_mount_fat_used := (g_mount_fat_used s)[i := b], g_mount_fat_path := (g_mount_fat_path s)[i := p]\<rparr>)"
  using assms by (auto simp: sys_ok_def dest!: set_update_subset_insert [THEN subsetD])

lemma sys_ok_clear_fat [keeping]: "sys_ok s \<Longrightarrow> sys_ok (clear_fat slot s)"
  unfolding clear_fat_def by (cases slot) (simp_all add: sys_ok_fat)

lemma sys_ok_mount_ctx: "sys_ok s \<Longrightarrow> sys_ok (snd (mount_ctx E fs_name mount_path s))"
  unfolding mount_ctx_def by (auto simp: sys_ok_fat sys_ok_w split: option.split prod.split)

lemma keeps_case_mount [keeping]:
  assumes "sys_ok s" "\<And>err s'. sys_ok s' \<Longrightarrow> keeps_ok (bad err s')" "\<And>ctx drv s'. sys_ok s' \<Longrightarrow> keeps_ok (good ctx drv s')"
  shows "keeps_ok (case mount_ctx E fs_name mount_path s of (Inl err, s') \<Rightarrow> bad err s' | (Inr (ctx, drv), s') \<Rightarrow> good ctx drv s')"
proof (cases "mount_ctx E fs_name mount_path s")
  case (Pair r s')
  then have ok: "sys_ok s'" using sys_ok_mount_ctx [OF assms(1), of E fs_name mount_path] by simp
  show ?thesis
  proof (cases r)
    case (Inl err)
    then show ?thesis using assms(2) [OF ok] by (simp add: Pair)
  next
    case (Inr p)
    then show ?thesis using assms(3) [OF ok] by (cases p) (simp add: Pair)
  qed
qed

lemma keeps_sys_mount [keeping]: "sys_ok s \<Longrightarrow> keeps_ok (sys_mount E ebx ecx s)"
  unfolding sys_mount_def by (intro keeping)

lemma keeps_sys_umount [keeping]: "sys_ok s \<Longrightarrow> keeps_ok (sys_umount E ebx s)"
  unfolding sys_umount_def by (intro keeping)

subsection \<open>Sockets\<close>

lemma fd_udp_sid_bound: "table_ok fds \<Longrightarrow> fd_udp_sid fd fds = Some sid \<Longrightarrow> sid < UDP_MAX_SOCKETS"
  using table_ok_nth [of fds fd] by (auto simp: fd_udp_sid_def entry_ok_def split: if_splits)

lemma keeps_with_socket [keeping]:
  "sys_ok s \<Longrightarrow> (\<And>sid. sid < UDP_MAX_SOCKETS \<Longrightarrow> keeps_ok (f sid)) \<Longrightarrow> keeps_ok (with_socket E fd s f)"
  unfolding with_socket_def using fd_udp_sid_bound [OF sys_ok_table(2) [of s E], of fd]
  by (auto simp: keeps_ret split: option.split)

lemma alloc_udp_ok: "table_ok fds \<Longrightarrow> sid < UDP_MAX_SOCKETS \<Longrightarrow> table_ok (snd (fd_alloc_udp sid fds))"
  by (auto simp: fd_alloc_udp_def split: option.split intro: table_ok_upd entries_ok)

lemma socket_alloc_bound: "udp_socket_alloc u = (Some sid, u') \<Longrightarrow> sid < UDP_MAX_SOCKETS"
  by (auto simp: udp_socket_alloc_def find_Some_iff split: option.splits)

lemma keeps_sys_socket [keeping]:
  assumes "sys_ok s"
  shows "keeps_ok (sys_socket E ebx ecx edx s)"
proof (cases "udp_socket_alloc (sy_udp s)")
  case (Pair r u)
  have u: "udp_ok u" using alloc_ok [OF sys_ok_udpD [OF assms]] by (simp add: Pair)
  show ?thesis
  proof (cases r)
    case None
    then show ?thesis using u by (auto simp: sys_socket_def Pair keeping assms)
  next
    case (Some sid)
    have sid: "sid < UDP_MAX_SOCKETS" by (rule socket_alloc_bound) (use Pair Some in simp)
    obtain q fds where f: "fd_alloc_udp sid (cur_fds E s) = (q, fds)" by (cases "fd_alloc_udp sid (cur_fds E s)")
    have "table_ok fds" using alloc_udp_ok [OF sys_ok_table(2) [OF assms] sid, of E] by (simp add: f)
    then show ?thesis using u free_ok [OF u] by (cases q) (auto simp: sys_socket_def Pair Some f keeping assms)
  qed
qed

lemma keeps_case_udp [keeping]: "sys_ok s \<Longrightarrow> udp_ok (snd x) \<Longrightarrow> keeps_ok (case x of (r, u) \<Rightarrow> ret r (s\<lparr>sy_udp := u\<rparr>))"
  by (auto simp: keeping split: prod.split)

lemma keeps_sys_bind [keeping]: "sys_ok s \<Longrightarrow> keeps_ok (sys_bind E ebx ecx edx s)"
  unfolding sys_bind_def by (intro keeping bind_ok sys_ok_udpD)

lemma keeps_sys_sendto [keeping]: "sys_ok s \<Longrightarrow> keeps_ok (sys_sendto E ebx ecx s)"
  unfolding sys_sendto_def by (intro keeping sendto_ok sys_ok_udpD)

lemma keeps_recv_taken:
  assumes "sys_ok s" "sid < UDP_MAX_SOCKETS" "udp_recv_next sid req waited (sy_udp s) = Recv_take"
  shows "keeps_ok (recv_taken E sid req s)"
proof -
  have "0 < us_q_len (g_udp_sockets (sy_udp s) ! sid)" using assms(3) by (auto simp: udp_recv_next_def Let_def split: if_splits)
  then have "udp_ok (snd (snd (udp_recv_take sid req (the_mm E s) (sy_udp s))))" by (rule recv_take_ok [OF sys_ok_udpD [OF assms(1)] assms(2)])
  then show ?thesis unfolding recv_taken_def by (auto simp: keeping assms(1) split: prod.split)
qed

lemma keeps_recv_loop [keeping]:
  "calm_waits ws \<Longrightarrow> sid < UDP_MAX_SOCKETS \<Longrightarrow> sys_ok s \<Longrightarrow> keeps_ok (recv_loop E sid req ws waited s)"
proof (induction ws arbitrary: waited s)
  case Nil
  then show ?case by (auto simp: keeping keeps_recv_taken split: recv_next.split)
next
  case (Cons wt ws)
  have "keeps_ok (pause E (\<lambda>irqs. sleep irqs 10) wt s \<bind> recv_loop E sid req ws (add32 waited 10))"
    by (intro keeping Cons.IH Cons.prems calm_waits_Cons [OF Cons.prems(1)])
  then show ?case using Cons.prems by (auto simp: keeping keeps_recv_taken split: recv_next.split)
qed

lemma keeps_recvfrom [keeping]: "calm_waits ws \<Longrightarrow> sys_ok s \<Longrightarrow> keeps_ok (sys_recvfrom E ws ebx ecx s)"
  unfolding sys_recvfrom_def udp_recvfrom_socket_def by (intro keeping)

lemma keeps_setsockopt [keeping]: "sys_ok s \<Longrightarrow> keeps_ok (sys_setsockopt E ebx ecx s)"
  unfolding sys_setsockopt_def by (intro keeping timeout_ok sys_ok_udpD) simp_all

subsection \<open>Tasks and programs\<close>

lemma keeps_yield [keeping]: "calm_waits ws \<Longrightarrow> sys_ok s \<Longrightarrow> keeps_ok (sys_yield E ws s)"
  unfolding sys_yield_def by (cases ws) (auto intro!: keeping dest: calm_waits_Cons)

lemma keeps_sleep [keeping]: "calm_waits ws \<Longrightarrow> sys_ok s \<Longrightarrow> keeps_ok (sys_sleep E ws ebx s)"
  unfolding sys_sleep_def by (cases ws) (auto intro!: keeping dest: calm_waits_Cons)

lemma keeps_reports [keeping]: assumes "sys_ok s"
  shows "keeps_ok (sys_get_ticks E s)" "keeps_ok (sys_getpid E s)" "keeps_ok (sys_getppid E s)" "keeps_ok (sys_task_state E ebx s)"
  unfolding sys_get_ticks_def sys_getpid_def sys_getppid_def sys_task_state_def by (intro keeping assms)+

lemma keeps_exit [keeping]: "sys_ok s \<Longrightarrow> keeps_ok (sys_exit E irqs ebx s)"
  unfolding sys_exit_def by (intro keeping)

lemma keeps_kill [keeping]: "sys_ok s \<Longrightarrow> keeps_ok (sys_task_kill E irqs ebx ecx s)"
  unfolding sys_task_kill_def by (intro keeping)

lemma keeps_waitpid_loop [keeping]: "calm_waits ws \<Longrightarrow> sys_ok s \<Longrightarrow> keeps_ok (waitpid_loop E pid options ws s)"
proof (induction ws arbitrary: s)
  case Nil
  then show ?case by (simp add: keeping)
next
  case (Cons wt ws)
  show ?case unfolding waitpid_loop.simps by (intro keeping Cons.IH Cons.prems calm_waits_Cons [OF Cons.prems(1)])
qed

lemma keeps_waitpid [keeping]: "calm_waits ws \<Longrightarrow> sys_ok s \<Longrightarrow> keeps_ok (sys_waitpid E ws ebx ecx edx s)"
  unfolding sys_waitpid_def by (intro keeping)

lemma keeps_make_stack [keeping]: "sys_ok s \<Longrightarrow> keeps_ok (make_stack E c s)"
  unfolding make_stack_def by (intro keeping)

lemma keeps_enter [keeping]: "sys_ok s \<Longrightarrow> keeps_ok (enter_program E entry esp s)"
  unfolding enter_program_def by (intro keeping)

lemma keeps_exec_program [keeping]: "sys_ok s \<Longrightarrow> keeps_ok (exec_program E v path c s)"
  unfolding exec_program_def by (intro keeping)

lemma keeps_exec [keeping]: assumes "sys_ok s"
  shows "keeps_ok (sys_exec E ebx s)" "keeps_ok (sys_execv E ebx ecx s)"
  unfolding sys_exec_def sys_execv_def by (intro keeping assms)+

lemma keeps_spawn_program_ex [keeping]: "sys_ok s \<Longrightarrow> keeps_ok (spawn_user_program_ex E path tty c s)"
  unfolding spawn_user_program_ex_def by (intro keeping)

lemma keeps_spawn_program [keeping]: "sys_ok s \<Longrightarrow> keeps_ok (spawn_user_program E path tty s)"
  unfolding spawn_user_program_def by (intro keeping)

lemma keeps_spawn [keeping]: "sys_ok s \<Longrightarrow> keeps_ok (sys_spawn E ebx ecx s)"
  unfolding sys_spawn_def by (intro keeping)

lemma keeps_spawnv [keeping]: "sys_ok s \<Longrightarrow> keeps_ok (sys_spawnv E ebx ecx edx s)"
  unfolding sys_spawnv_def by (intro keeping)

lemma keeps_shells_loop [keeping]: "calm_waits ws \<Longrightarrow> sys_ok s \<Longrightarrow> keeps_ok (shells_loop E irqs ttys ws s)"
proof (induction ttys arbitrary: ws s)
  case Nil
  then show ?case by (simp add: keeping)
next
  case (Cons t ts)
  have wait: "keeps_ok (case ws of [] \<Rightarrow> None | wt # ws \<Rightarrow> pause E (\<lambda>irqs. sleep irqs 10) wt s1 \<bind> shells_loop E irqs ts ws)"
    if "sys_ok s1" for s1
    using Cons.prems(1) by (cases ws) (auto intro!: keeping Cons.IH that dest: calm_waits_Cons)
  show ?case unfolding shells_loop.simps
    by (rule keeps_bind [OF keeps_spawn_program [OF Cons.prems(2)]], rule keeps_if) (simp_all add: wait Cons)
qed

lemma keeps_init_shells [keeping]: "calm_waits ws \<Longrightarrow> sys_ok s \<Longrightarrow> keeps_ok (sys_init_spawn_shells E irqs ws s)"
  unfolding sys_init_spawn_shells_def by (intro keeping)

text \<open>A new task gets the table of its parent, or an empty one.\<close>

lemma fork_fds_ok: "fd_state_ok F \<Longrightarrow> slot_ok slot \<Longrightarrow> fd_state_ok (fork_fds slot c F)"
  unfolding fork_fds_def Let_def
  by (cases slot) (auto simp: fd_state_ok_def slot_ok_def dest!: set_update_subset_insert [THEN subsetD])

lemma sys_ok_fork_fds [keeping]: "sys_ok s \<Longrightarrow> sys_ok (s\<lparr>sy_fds := fork_fds (this_slot E t) c (sy_fds s)\<rparr>)"
  by (simp add: sys_ok_def fork_fds_ok slot_ok_this)

lemma stays_drop_space [keeping]: "sys_ok s \<Longrightarrow> stays_ok (drop_space E c n s)"
  unfolding drop_space_def by (intro keeping)

lemma keeps_fork_space [keeping]: "sys_ok s \<Longrightarrow> keeps_ok (fork_space E p s)"
  unfolding fork_space_def by (auto simp: keeping split: prod.split option.split)

lemma keeps_fork_task [keeping]: "sys_ok s \<Longrightarrow> keeps_ok (fork_task E cur f regs sp s)"
  unfolding fork_task_def by (intro keeping)

lemma keeps_fork [keeping]: "sys_ok s \<Longrightarrow> keeps_ok (sys_fork E regs s)"
  unfolding sys_fork_def by (intro keeping)

subsection \<open>The handler\<close>

lemma table_ok_init: "table_ok fds \<Longrightarrow> length tty \<le> 255 \<Longrightarrow> table_ok (fd_table_init tty done fds)"
  by (auto simp: fd_table_init_def table_ok_def entries_ok FD_MAX_def)

lemma fd_current_ok:
  assumes "fd_state_ok F" "slot_ok slot"
  shows "fd_state_ok (fd_current slot F)"
  using table_ok_init [OF fd_state_ok_table [OF assms], of "''/dev/tty/1''"] assms
  by (cases slot) (auto simp: fd_current_def fd_table_def fd_state_ok_def dest!: set_update_subset_insert [THEN subsetD])

lemma sys_ok_first_use: "sys_ok s \<Longrightarrow> sys_ok (first_use E s)"
  by (simp add: first_use_def sys_ok_def fd_current_ok slot_ok_this)

text \<open>The new tasks as well.\<close>

lemma sys_ok_bind_stdio [keeping]: "sys_ok s \<Longrightarrow> sys_ok (bind_stdio E path s)"
proof -
  assume ok: "sys_ok s"
  let ?F = "fd_current (this_slot E s) (sy_fds s)"
  have F: "fd_state_ok ?F" using ok by (simp add: sys_ok_def fd_current_ok slot_ok_this)
  have "table_ok (fd_table (this_slot E s) ?F)" by (rule fd_state_ok_table [OF F slot_ok_this])
  then have "table_ok (syscall_bind_stdio path (fd_table (this_slot E s) ?F))"
    by (simp add: syscall_bind_stdio_def table_ok_upd entries_ok)
  then show ?thesis using ok F by (simp add: bind_stdio_def Let_def sys_ok_def fd_state_ok_set)
qed

lemma keeps_free_and_leave [keeping]: "sys_ok s \<Longrightarrow> keeps_ok (free_and_leave E irqs req s)"
  unfolding free_and_leave_def by (intro keeping)

lemma keeps_spawned_user_task: "sys_ok s \<Longrightarrow> keeps_ok (spawned_user_task E irqs req s)"
  unfolding spawned_user_task_def by (intro keeping)

lemma keeps_spawned_fork_child: "sys_ok s \<Longrightarrow> keeps_ok (spawned_fork_child E irqs ctx s)"
  unfolding spawned_fork_child_def by (intro keeping)

theorem do_syscall_keeps_ok:
  assumes "calm E" "calm_waits waits" "sys_ok s"
  shows "keeps_ok (do_syscall_impl E irqs waits regs eax ebx ecx edx s)"
proof -
  have "sys_ok (first_use E s)" by (rule sys_ok_first_use [OF assms(3)])
  then show ?thesis unfolding do_syscall_impl_def by (intro keeping assms(1,2))
qed

end
