(* ===== verification/Sys_Runs.thy ===== *)
theory Sys_Runs
  imports Sys_Props Task_Props
begin

section \<open>Runs of system calls\<close>

text \<open>
  The states that sequences of system calls reach, and what calls that wait or share descriptors do: the invariant
  of the tables, the time that a receiving task waits at most, a \<^verbatim>\<open>select\<close> that watches nothing, and sockets of a parent that its child closes.
\<close>

subsection \<open>Reachable states\<close>

text \<open>The static variables at boot; the world is whatever the rest of the kernel has set up.\<close>

definition sys_boot :: "'w \<Rightarrow> 'w sys" where
  "sys_boot w = \<lparr>sy_w = w, g_root_fs = None,
     sy_fds = \<lparr>g_fds = replicate FD_MAX zero_fd, g_fd_init_done = False,
       g_task_fds = replicate MAX_TASKS (replicate FD_MAX zero_fd), g_task_fd_init = replicate MAX_TASKS False\<rparr>,
     sy_udp = \<lparr>g_udp_sockets = replicate UDP_MAX_SOCKETS no_socket, g_udp_next_ephemeral = UDP_EPHEMERAL_START\<rparr>,
     g_pipe_seq = 1, g_devfs_ctx = 0, g_mount_fat_used = replicate VFS_MAX_MOUNTS False,
     g_mount_fat_path = replicate VFS_MAX_MOUNTS [], sy_frame = None\<rparr>"

inductive sys_run :: "('w, 'p) sys_env \<Rightarrow> 'w sys \<Rightarrow> bool" for E where
  boot: "sys_run E (sys_boot w)"
| call: "sys_run E s \<Longrightarrow> calm_waits waits \<Longrightarrow> do_syscall_impl E irqs waits regs eax ebx ecx edx s = Some (r, s') \<Longrightarrow> sys_run E s'"
| program: "sys_run E s \<Longrightarrow> spawned_user_task E irqs req s = Some (r, s') \<Longrightarrow> sys_run E s'"
| child: "sys_run E s \<Longrightarrow> spawned_fork_child E irqs ctx s = Some (r, s') \<Longrightarrow> sys_run E s'"
| outside: "sys_run E s \<Longrightarrow> sys_run E (s\<lparr>sy_w := w, g_root_fs := v, g_devfs_ctx := c, sy_frame := f\<rparr>)"

lemma sys_ok_boot: "sys_ok (sys_boot w)"
proof -
  have t: "table_ok (replicate FD_MAX zero_fd)" by (simp add: table_ok_def entries_ok)
  have "udp_ok (sy_udp (sys_boot w))" using udp_run_ok [OF udp_run.boot] by (simp add: sys_boot_def)
  then show ?thesis by (simp add: sys_ok_def fd_state_ok_def sys_boot_def t)
qed

lemma sys_run_ok: "sys_run E s \<Longrightarrow> calm E \<Longrightarrow> sys_ok s"
proof (induction rule: sys_run.induct)
  case (boot w)
  show ?case by (rule sys_ok_boot)
next
  case (call s waits irqs regs eax ebx ecx edx r s')
  then show ?case using do_syscall_keeps_ok [of E waits s irqs regs eax ebx ecx edx] by (simp add: keeps_ok_def)
next
  case (program s irqs req r s')
  then show ?case using keeps_spawned_user_task [of s E irqs req] by (simp add: keeps_ok_def)
next
  case (child s irqs ctx r s')
  then show ?case using keeps_spawned_fork_child [of s E irqs ctx] by (simp add: keeps_ok_def)
next
  case (outside s w v c f)
  then show ?case by (simp add: sys_ok_def)
qed

text \<open>C5: In every state that sequences of system calls and new tasks reach, whatever their arguments, the table of every task
  has 32 entries, a path in it has at most 255 characters, a descriptor that names a socket names one of the eight, and no
  two sockets receive for the same port at addresses that overlap.\<close>

theorem syscalls_keep_tables:
  assumes "calm E" "sys_run E s"
  shows "length (cur_fds E s) = FD_MAX \<and>
    (\<forall>fd path. fd_path fd (cur_fds E s) = Some path \<longrightarrow> length path \<le> 255) \<and>
    (\<forall>fd sid. fd_udp_sid fd (cur_fds E s) = Some sid \<longrightarrow> sid < UDP_MAX_SOCKETS) \<and>
    (\<forall>i < UDP_MAX_SOCKETS. \<forall>j < UDP_MAX_SOCKETS. i \<noteq> j \<longrightarrow> \<not> meet (g_udp_sockets (sy_udp s) ! i) (g_udp_sockets (sy_udp s) ! j))"
proof -
  have ok: "sys_ok s" by (rule sys_run_ok [OF assms(2,1)])
  have t: "table_ok (cur_fds E s)" by (rule sys_ok_table(2) [OF ok])
  have "length path \<le> 255" if "fd_path fd (cur_fds E s) = Some path" for fd path
    using that table_ok_nth [OF t, of fd] by (auto simp: fd_path_def entry_ok_def split: if_splits)
  moreover have "\<not> meet (g_udp_sockets (sy_udp s) ! i) (g_udp_sockets (sy_udp s) ! j)"
    if "i < UDP_MAX_SOCKETS" "j < UDP_MAX_SOCKETS" "i \<noteq> j" for i j
    using that sockets_okD(3) [OF udp_okD [OF sys_ok_udpD [OF ok]]] by blast
  moreover have "length (cur_fds E s) = FD_MAX" using t by (simp add: table_ok_def)
  ultimately show ?thesis using fd_udp_sid_bound [OF t] by blast
qed

text \<open>A system whose world is the kernel state, with no file system, no devices and no disk, and a task that runs.\<close>

definition no_ops :: "'w vfs_ops" where
  "no_ops = \<lparr>op_open = None, op_close = None, op_read = None, op_write = None, op_append = None, op_ioctl = None,
     op_mkdir = None, op_create_file = None, op_link = None, op_unlink = None, op_rmdir = None, op_mkfifo = None, op_mksock = None,
     op_list = None, op_get_info = None\<rparr>"

definition demo_env :: "(kstate, unit) sys_env" where
  "demo_env = \<lparr>en_k = (\<lambda>w. w), en_set_k = (\<lambda>k _. k), en_tab = (\<lambda>_. no_ops), en_dev_read = (\<lambda>_ _ _ _ s. Some (-1, s)),
     en_dev_write = (\<lambda>_ _ _ _ s. Some (-1, s)), en_dev_ioctl = (\<lambda>_ _ _ _ s. Some (-1, s)),
     en_ports = \<lparr>pt_inb = (\<lambda>_ p. (0, p)), pt_outb = (\<lambda>_ _ p. p), pt_inw = (\<lambda>_ p. (0, p)), pt_outw = (\<lambda>_ _ p. p)\<rparr>,
     en_disk = (\<lambda>_. \<lparr>dk_port = (), g_total_sectors = 0, g_disk_parts = []\<rparr>),
     en_set_disk = (\<lambda>_ w. w), en_fat_ctx = (\<lambda>i. 0x110000 + 64 * i), en_set_fat = (\<lambda>_ _ w. w),
     en_spawned_user_task = 0x105000, en_spawned_fork_child = 0x106000\<rparr>"

lemma demo_env_k [simp]: "en_k demo_env w = w" "en_set_k demo_env k w = k"
  by (simp_all add: demo_env_def)

lemma demo_env_calm: "calm demo_env"
  by (simp add: calm_def demo_env_def keeps_Some)

lemma demo_slot: "this_slot demo_env (sys_boot demo_kernel) = Some 1"
  by (simp add: this_slot_def current_task_slot_def sys_boot_def demo_kernel_def MAX_TASKS_def)

lemma demo_first_use: "cur_fds demo_env (first_use demo_env (sys_boot demo_kernel)) = replicate 3 (opened_fd ''/dev/tty/1'' 0) @ replicate 29 zero_fd"
proof -
  let ?F = "sy_fds (sys_boot demo_kernel)"
  have "this_slot demo_env (first_use demo_env (sys_boot demo_kernel)) = Some 1" using demo_slot by (simp add: first_use_def this_slot_def)
  then have "cur_fds demo_env (first_use demo_env (sys_boot demo_kernel)) = fd_table (Some 1) (fd_current (Some 1) ?F)"
    by (simp add: cur_fds_def first_use_def demo_slot)
  also have "\<dots> = fd_table_init ''/dev/tty/1'' False (replicate 32 zero_fd)"
    by (simp add: fd_current_def fd_table_def sys_boot_def MAX_TASKS_def FD_MAX_def)
  finally show ?thesis by (simp add: fd_table_init_def FD_MAX_def)
qed

lemma demo_dup: "\<exists>s'. do_syscall_impl demo_env [] [] None 33 0 0 0 (sys_boot demo_kernel) = Some (Returns 3, s')"
proof -
  let ?s = "first_use demo_env (sys_boot demo_kernel)"
  note t = demo_first_use
  have "free_fd 0 (cur_fds demo_env ?s) = Some 3"
    by (simp add: t free_fd_def FD_MAX_def upt_rec [of 0] upt_rec [of "Suc 0"] upt_rec [of "Suc (Suc 0)"] upt_rec [of "Suc (Suc (Suc 0))"] nth_append opened_fd_def zero_fd_def)
  then have "fst (fd_dup_from_to 0 0 False (cur_fds demo_env ?s) (sy_udp ?s)) = 3"
    by (simp add: fd_dup_from_to_def t FD_MAX_def opened_fd_def nth_append)
  then obtain fds u where "fd_dup_from_to 0 0 False (cur_fds demo_env ?s) (sy_udp ?s) = (3, fds, u)"
    by (cases "fd_dup_from_to 0 0 False (cur_fds demo_env ?s) (sy_udp ?s)") auto
  then show ?thesis by (simp add: do_syscall_impl_def sys_dup_def on_fds_def ret_def returning_def u32_def Let_def)
qed

theorem syscalls_keep_tables_witness:
  "\<exists>s'. do_syscall_impl demo_env [] [] None 33 0 0 0 (sys_boot demo_kernel) = Some (Returns 3, s') \<and> length (cur_fds demo_env s') = 32"
proof -
  obtain s' where c: "do_syscall_impl demo_env [] [] None 33 0 0 0 (sys_boot demo_kernel) = Some (Returns 3, s')" using demo_dup by blast
  have "calm_waits []" by (simp add: calm_waits_def)
  from syscalls_keep_tables [OF demo_env_calm sys_run.call [OF sys_run.boot this c]] show ?thesis using c by (simp add: FD_MAX_def)
qed

subsection \<open>The time a receiver waits\<close>

lemma recv_next_in_time:
  assumes "0 < us_rcv_timeout_ms (g_udp_sockets u ! sid)" "us_rcv_timeout_ms (g_udp_sockets u ! sid) \<le> waited"
  shows "udp_recv_next sid req waited u \<noteq> Recv_sleep"
  using assms by (simp add: udp_recv_next_def Let_def)

lemma recv_loop_returns:
  assumes "\<And>x. I x \<Longrightarrow> us_rcv_timeout_ms (g_udp_sockets (sy_udp x) ! sid) = t" "0 < t" "t < 65536"
    "\<And>wt x. wt \<in> set waits \<Longrightarrow> I x \<Longrightarrow> \<exists>x'. pause E (\<lambda>irqs. sleep irqs 10) wt x = Some x' \<and> I x'"
    "I s" "t \<le> waited + 10 * length waits" "waited < 100000"
  shows "\<exists>r s'. recv_loop E sid req waits waited s = Some (r, s') \<and>
    (\<not> odd (rr_flags req div MSG_DONTWAIT) \<longrightarrow> (\<forall>x. I x \<longrightarrow> us_q_len (g_udp_sockets (sy_udp x) ! sid) = 0) \<longrightarrow> r = u32 (- K_ETIMEDOUT))"
  using assms(4-)
proof (induction waits arbitrary: waited s)
  case Nil
  then have "udp_recv_next sid req waited (sy_udp s) \<noteq> Recv_sleep" using assms(1,2) by (intro recv_next_in_time) simp_all
  then show ?case using Nil.prems(2)
    by (auto simp: recv_taken_def ret_def udp_recv_next_def Let_def split: recv_next.split prod.split if_splits)
next
  case (Cons wt ws)
  show ?case
  proof (cases "udp_recv_next sid req waited (sy_udp s)")
    case Recv_sleep
    then have w: "waited < t" using recv_next_in_time [of "sy_udp s" sid waited req] assms(1) [OF Cons.prems(2)] assms(2) by force
    obtain x' where x: "pause E (\<lambda>irqs. sleep irqs 10) wt s = Some x'" "I x'" using Cons.prems(1) [of wt s] Cons.prems(2) by auto
    have a: "add32 waited 10 = waited + 10" using w assms(3) by (simp add: add32_def)
    have "\<exists>r s'. recv_loop E sid req ws (waited + 10) x' = Some (r, s') \<and>
       (\<not> odd (rr_flags req div MSG_DONTWAIT) \<longrightarrow> (\<forall>x. I x \<longrightarrow> us_q_len (g_udp_sockets (sy_udp x) ! sid) = 0) \<longrightarrow> r = u32 (- K_ETIMEDOUT))"
      by (rule Cons.IH) (use Cons.prems x(2) w assms(3) in auto)
    then show ?thesis by (simp add: Recv_sleep x(1) a)
  next
    case (Recv_fail e)
    then show ?thesis using Cons.prems(2) by (auto simp: ret_def udp_recv_next_def Let_def split: if_splits)
  next
    case Recv_take
    then show ?thesis using Cons.prems(2) by (auto simp: recv_taken_def ret_def udp_recv_next_def Let_def split: prod.split if_splits)
  qed
qed

text \<open>C29: A receiver with a timeout comes back after at most a tenth of it, counted in sleeps of ten milliseconds, whatever else
  happens while it sleeps; when nothing arrives in that time it answers that the time is over.\<close>

theorem recvfrom_returns_in_time:
  assumes "I s" "sid < UDP_MAX_SOCKETS" "rr_buf req \<noteq> 0"
    "\<And>x. I x \<Longrightarrow> us_rcv_timeout_ms (g_udp_sockets (sy_udp x) ! sid) = t" "0 < t" "t < 65536"
    "\<And>wt x. wt \<in> set waits \<Longrightarrow> I x \<Longrightarrow> \<exists>x'. pause E (\<lambda>irqs. sleep irqs 10) wt x = Some x' \<and> I x'"
    "t \<le> 10 * length waits"
  shows "\<exists>r s'. udp_recvfrom_socket E sid req waits s = Some (r, s') \<and>
    (\<not> odd (rr_flags req div MSG_DONTWAIT) \<longrightarrow> (\<forall>x. I x \<longrightarrow> us_q_len (g_udp_sockets (sy_udp x) ! sid) = 0) \<longrightarrow> r = u32 (- K_ETIMEDOUT))"
  unfolding udp_recvfrom_socket_def
  using recv_loop_returns [where I = I and waits = waits and waited = 0 and s = s and E = E and req = req, OF assms(4-7,1)] assms(2,3,8) by simp

lemma demo_sleep: "\<exists>k. sleep [] 10 demo_kernel = Some k"
proof -
  obtain k where k: "k = upd_task (Suc 0) (\<lambda>t. t\<lparr>t_state := TASK_BLOCKED, t_wake_tick := 1\<rparr>) demo_kernel" by simp
  have ts: "t_next (tasks k ! Suc 0) = 2" "t_state (tasks k ! 2) = TASK_TERMINATED" "t_next (tasks k ! 2) = 3"
    "t_state (tasks k ! 3) = TASK_READY" "idle_ptr k = Some 0" "current_task k = Some (Suc 0)"
    unfolding k by (simp_all add: upd_task_def demo_kernel_def demo_task_def)
  have "schedule_loop (tasks k) (Suc 0) (Some 0) 2 None = Some (3, None, True)" by (subst schedule_loop.simps) (simp add: ts)
  then have "schedule_loop (tasks k) (Suc 0) (Some 0) (Suc 0) None = Some (3, None, True)" by (subst schedule_loop.simps) (simp add: ts)
  then have "schedule_pick k (Suc 0) = Some (Some 3)" by (simp add: schedule_pick_def ts)
  then have "\<exists>k'. schedule [] k = Some k'" by (simp add: schedule.simps ts)
  moreover have "sleep [] 10 demo_kernel = schedule [] k" unfolding k by (simp add: sleep_def mul32_def add32_def demo_kernel_def)
  ultimately show ?thesis by simp
qed

text \<open>A bound socket with a timeout of 25 milliseconds, and a wait after which the task runs again.\<close>

definition demo_waiting :: "kstate sys" where
  "demo_waiting = (sys_boot demo_kernel)\<lparr>sy_udp := \<lparr>g_udp_sockets =
     no_socket\<lparr>us_used := True, us_bound := True, us_bind_port := 2000, us_rcv_timeout_ms := 25\<rparr> # replicate 7 no_socket,
     g_udp_next_ephemeral = UDP_EPHEMERAL_START\<rparr>\<rparr>"

definition demo_wait :: "kstate wait" where
  "demo_wait = ([], (\<lambda>s. s\<lparr>sy_w := demo_kernel\<rparr>))"

lemma demo_pause: "sy_w x = demo_kernel \<Longrightarrow> pause demo_env (\<lambda>irqs. sleep irqs 10) demo_wait x = Some x"
  using demo_sleep by (auto simp: pause_def demo_wait_def set_k_def)

theorem recvfrom_returns_in_time_witness:
  "\<exists>s'. udp_recvfrom_socket demo_env 0 udp_demo_recv (replicate 3 demo_wait) demo_waiting = Some (u32 (- K_ETIMEDOUT), s')"
proof -
  let ?I = "\<lambda>x. x = demo_waiting"
  have w: "sy_w demo_waiting = demo_kernel" by (simp add: demo_waiting_def sys_boot_def)
  have t: "us_rcv_timeout_ms (g_udp_sockets (sy_udp demo_waiting) ! 0) = 25" "us_q_len (g_udp_sockets (sy_udp demo_waiting) ! 0) = 0"
    by (simp_all add: demo_waiting_def no_socket_def)
  have f: "rr_buf udp_demo_recv \<noteq> 0" "\<not> odd (rr_flags udp_demo_recv div MSG_DONTWAIT)" by (simp_all add: udp_demo_recv_def)
  have p: "\<exists>x'. pause demo_env (\<lambda>irqs. sleep irqs 10) wt x = Some x' \<and> ?I x'" if "wt \<in> set (replicate 3 demo_wait)" "?I x" for wt x
    using that demo_pause [OF w] by (simp split: if_splits)
  have to: "us_rcv_timeout_ms (g_udp_sockets (sy_udp x) ! 0) = 25" if "?I x" for x using that t(1) by simp
  have n: "(0 :: nat) < UDP_MAX_SOCKETS" "(0 :: nat) < 25" "(25 :: nat) < 65536" "25 \<le> 10 * length (replicate 3 demo_wait)"
    by (simp_all add: UDP_MAX_SOCKETS_def)
  have "\<exists>r s'. udp_recvfrom_socket demo_env 0 udp_demo_recv (replicate 3 demo_wait) demo_waiting = Some (r, s') \<and>
      (\<not> odd (rr_flags udp_demo_recv div MSG_DONTWAIT) \<longrightarrow> (\<forall>x. ?I x \<longrightarrow> us_q_len (g_udp_sockets (sy_udp x) ! 0) = 0) \<longrightarrow> r = u32 (- K_ETIMEDOUT))"
    by (rule recvfrom_returns_in_time [where I = ?I and t = 25]) (fact refl n f(1) to p)+
  then obtain r s' where r: "udp_recvfrom_socket demo_env 0 udp_demo_recv (replicate 3 demo_wait) demo_waiting = Some (r, s')"
    "\<not> odd (rr_flags udp_demo_recv div MSG_DONTWAIT) \<longrightarrow> (\<forall>x. ?I x \<longrightarrow> us_q_len (g_udp_sockets (sy_udp x) ! 0) = 0) \<longrightarrow> r = u32 (- K_ETIMEDOUT)"
    by (elim exE conjE)
  have "r = u32 (- K_ETIMEDOUT)" using r(2) f(2) t(2) by simp
  then show ?thesis using r(1) by blast
qed

subsection \<open>Descriptors after a fork\<close>

text \<open>C40: A descriptor of a socket is copied by \<^verbatim>\<open>fork\<close>, but the socket is not counted: the child that closes its copy frees the socket
  while the descriptor of the parent still names it.\<close>

theorem child_close_frees_parents_socket:
  assumes "this_slot E s = Some c" "p \<noteq> c" "p < MAX_TASKS"
    "length (g_task_fds F) = MAX_TASKS" "g_task_fd_init F ! p" "length (g_task_fds F ! p) = FD_MAX"
    "fd_udp_sid fd (g_task_fds F ! p) = Some sid" "sid < length (g_udp_sockets (sy_udp s))" "sid < UDP_MAX_SOCKETS"
    "sy_fds s = fork_fds (Some p) c F"
  shows "\<exists>s'. sys_close E fd s = Some (0, s') \<and> fd_udp_sid fd (fd_table (Some p) (sy_fds s')) = Some sid \<and>
    g_udp_sockets (sy_udp s') ! sid = no_socket"
proof -
  have c: "c < MAX_TASKS" by (rule slot_bound [OF assms(1)])
  have F: "sy_fds s = F\<lparr>g_task_fds := (g_task_fds F)[c := g_task_fds F ! p], g_task_fd_init := (g_task_fd_init F)[c := True]\<rparr>"
    using c assms(5,10) by (simp add: fork_fds_def Let_def)
  let ?e = "g_task_fds F ! p ! fd"
  have t: "cur_fds E s = g_task_fds F ! p" by (simp add: cur_fds_def assms(1) fd_table_def F c assms(4))
  have e: "fd < FD_MAX" "fe_used ?e" "fe_kind ?e = FD_KIND_UDP" "fe_sock_id ?e = int sid"
    using assms(7) by (auto simp: fd_udp_sid_def split: if_splits)
  let ?u = "release_socket ?e (sy_udp s)"
  have u: "g_udp_sockets ?u ! sid = no_socket"
    using assms(8,9) by (simp add: release_socket_def e udp_socket_free_def upd_socket_def)
  have slot: "fd_table (Some c) (sy_fds s) = g_task_fds F ! p" using t by (simp add: cur_fds_def assms(1))
  have same: "cur_fds E (s\<lparr>sy_udp := ?u\<rparr>) = g_task_fds F ! p" using t by (simp add: cur_fds_def this_slot_def)
  have "drop_pipe E fd (s\<lparr>sy_udp := ?u\<rparr>) = Some (s\<lparr>sy_udp := ?u\<rparr>)" by (simp add: drop_pipe_def same e(3) Let_def)
  then have cl: "close_entry E (Some c) fd s = Some (upd_fd (Some c) fd (\<lambda>_. closed_fd) (s\<lparr>sy_udp := ?u\<rparr>))"
    by (simp add: close_entry_def slot Let_def)
  have "fd_table (Some p) (sy_fds (upd_fd (Some c) fd (\<lambda>_. closed_fd) (s\<lparr>sy_udp := ?u\<rparr>))) = g_task_fds F ! p"
    using assms(2) by (simp add: upd_fd_def set_fds_def set_fd_table_def fd_table_def F Let_def)
  moreover have "sy_udp (upd_fd (Some c) fd (\<lambda>_. closed_fd) (s\<lparr>sy_udp := ?u\<rparr>)) = ?u" by (simp add: upd_fd_def set_fds_def Let_def)
  ultimately show ?thesis using e(1,2) u assms(7) by (simp add: sys_close_def t assms(1) cl ret_def u32_def)
qed

text \<open>The parent in slot 2 has a socket as its descriptor 3; the child in slot 1 closes it.\<close>

definition demo_parent_fds :: fd_state where
  "demo_parent_fds = \<lparr>g_fds = replicate FD_MAX zero_fd, g_fd_init_done = False,
     g_task_fds = (replicate MAX_TASKS (replicate FD_MAX zero_fd))[2 := (replicate FD_MAX zero_fd)[3 := udp_fd 0]],
     g_task_fd_init = (replicate MAX_TASKS False)[2 := True]\<rparr>"

theorem child_close_frees_parents_socket_witness:
  "\<exists>s'. sys_close demo_env 3 (demo_waiting\<lparr>sy_fds := fork_fds (Some 2) 1 demo_parent_fds\<rparr>) = Some (0, s') \<and>
     fd_udp_sid 3 (fd_table (Some 2) (sy_fds s')) = Some 0 \<and> us_used (g_udp_sockets (sy_udp s') ! 0) = False"
proof -
  let ?s = "demo_waiting\<lparr>sy_fds := fork_fds (Some 2) 1 demo_parent_fds\<rparr>"
  have sl: "this_slot demo_env ?s = Some 1" using demo_slot by (simp add: this_slot_def demo_waiting_def)
  have p: "g_task_fds demo_parent_fds ! 2 = (replicate FD_MAX zero_fd)[3 := udp_fd 0]" "g_task_fd_init demo_parent_fds ! 2"
    "length (g_task_fds demo_parent_fds) = MAX_TASKS"
    by (simp_all add: demo_parent_fds_def MAX_TASKS_def)
  have "fd_udp_sid 3 ((replicate FD_MAX zero_fd)[3 := udp_fd 0]) = Some 0" by (simp add: fd_udp_sid_def FD_MAX_def udp_fd_def)
  moreover have "length (g_udp_sockets (sy_udp ?s)) = 8" by (simp add: demo_waiting_def)
  ultimately show ?thesis
    using child_close_frees_parents_socket [where s = ?s and p = 2 and F = demo_parent_fds and fd = 3 and sid = 0 and c = 1, OF sl] p
    by (auto simp: MAX_TASKS_def UDP_MAX_SOCKETS_def no_socket_def)
qed

subsection \<open>A select that finds nothing at first\<close>

definition zero_at :: "mm_state \<Rightarrow> addr \<Rightarrow> bool" where
  "zero_at h a \<longleftrightarrow> (\<forall>i < 4. seen h (a + i) = NUL)"

definition masks_clear :: "mm_state \<Rightarrow> nat \<Rightarrow> addr set \<Rightarrow> bool" where
  "masks_clear h phys M \<longleftrightarrow> user_at h phys \<and> (\<forall>a \<in> M. a \<noteq> 0 \<longrightarrow> in_user a 4 \<and> zero_at h a)"

lemma le32_0: "le32 0 = replicate 4 NUL"
proof -
  have "char_of (0 :: nat) = NUL" by (simp add: char_of_def)
  moreover have "replicate 4 x = [x, x, x, x]" for x :: byte by (simp add: numeral_eq_Suc)
  ultimately show ?thesis by (simp add: le32_def)
qed

lemma zero_at_load: "zero_at h a \<Longrightarrow> uload32 h a = 0"
  by (rule uload32_bytes) (auto simp: zero_at_def le32_0)

lemma seen_store_0:
  assumes "user_at h phys" "in_user a 4" "in_user x 1"
  shows "seen (ustore32 a 0 h) x = (if a \<le> x \<and> x < a + 4 then NUL else seen h x)"
  using seen_uput [OF assms(1) _ assms(3), of a "le32 0"] assms(2) by (auto simp: ustore32_def le32_0)

lemma masks_clear_store:
  assumes "user_at h phys" "in_user a 4" "\<forall>b \<in> M. b \<noteq> 0 \<longrightarrow> in_user b 4" "\<forall>b \<in> M. b \<noteq> 0 \<longrightarrow> b = a \<or> zero_at h b"
  shows "masks_clear (ustore32 a 0 h) phys M"
proof -
  have "user_at (ustore32 a 0 h) phys" unfolding ustore32_def by (rule user_at_uput [OF assms(1)]) (simp add: assms(2) le32_0)
  moreover have "zero_at (ustore32 a 0 h) b" if "b \<in> M" "b \<noteq> 0" for b
    unfolding zero_at_def
  proof (intro allI impI)
    fix i :: nat assume i: "i < 4"
    then have "in_user (b + i) 1" using assms(3) that by (force simp: in_user_def)
    from seen_store_0 [OF assms(1,2) this] show "seen (ustore32 a 0 h) (b + i) = NUL"
      using assms(4) that i by (auto simp: zero_at_def)
  qed
  ultimately show ?thesis using assms(3) by (simp add: masks_clear_def)
qed

lemma select_pass_clear:
  assumes "\<forall>a \<in> {r, w, e}. a \<noteq> 0 \<longrightarrow> uload32 (the_mm E s) a = 0"
  shows "select_pass E r w e fds acc s = Some (acc, s)"
proof -
  have "select_events (the_mm E s) r w e fd = 0" for fd using assms by (auto simp: select_events_def wanted_def)
  then show ?thesis by (induction fds) (simp_all split: prod.split)
qed

lemma select_pass_counts:
  "select_pass E r w e fds (rm, wm, em, n) s = Some ((rm', wm', em', n'), s') \<Longrightarrow>
    n \<le> n' \<and> (n' = n \<longrightarrow> rm' = rm \<and> wm' = wm \<and> em' = em)"
proof (induction fds arbitrary: rm wm em n s)
  case (Cons fd fds)
  let ?ev = "select_events (the_mm E s) r w e fd"
  show ?case
  proof (cases "?ev = 0")
    case True
    then show ?thesis using Cons.prems Cons.IH [of rm wm em n s] by simp
  next
    case False
    then obtain rev s1 where p: "fd_poll_revents E (int fd) ?ev s = Some (rev, s1)"
      using Cons.prems by (cases "fd_poll_revents E (int fd) ?ev s") auto
    let ?i = "has_flag rev POLLIN \<and> r \<noteq> 0" and ?o = "has_flag rev POLLOUT \<and> w \<noteq> 0"
      and ?x = "(has_flag rev POLLERR \<or> has_flag rev POLLHUP \<or> has_flag rev POLLNVAL) \<and> e \<noteq> 0"
    have "select_pass E r w e fds (rm + (if ?i then 2 ^ fd else 0), wm + (if ?o then 2 ^ fd else 0), em + (if ?x then 2 ^ fd else 0),
        if ?i \<or> ?o \<or> ?x then n + 1 else n) s1 = Some ((rm', wm', em', n'), s')"
      using Cons.prems False p by (simp add: Let_def)
    from Cons.IH [OF this] show ?thesis by (cases "?i \<or> ?o \<or> ?x") (auto split: if_splits)
  qed
qed simp

lemma masks_stored:
  assumes get_put: "\<And>k w. en_k E (en_set_k E k w) = k"
    and "user_at (the_mm E s) phys" "\<forall>a \<in> {r, w, e}. a \<noteq> 0 \<longrightarrow> in_user a 4"
  shows "masks_clear (the_mm E (store_mask E e 0 (store_mask E w 0 (store_mask E r 0 s)))) phys {r, w, e}"
proof -
  have mm: "the_mm E (store_mask E a 0 x) = (if a = 0 then the_mm E x else ustore32 a 0 (the_mm E x))" for a x
    by (simp add: store_mask_def on_mm_def put_mm_def get_mm_def get_put)
  have step: "masks_clear (the_mm E (store_mask E a 0 x)) phys (insert a M)"
    if "masks_clear (the_mm E x) phys M" "a \<noteq> 0 \<longrightarrow> in_user a 4" for a x M
    using that masks_clear_store [of "the_mm E x" phys a "insert a M"] by (auto simp: mm masks_clear_def)
  have "masks_clear (the_mm E s) phys {}" using assms(2) by (simp add: masks_clear_def)
  from step [OF this, of r] have "masks_clear (the_mm E (store_mask E r 0 s)) phys {r}" using assms(3) by simp
  from step [OF this, of w] have "masks_clear (the_mm E (store_mask E w 0 (store_mask E r 0 s))) phys {w, r}" using assms(3) by simp
  from step [OF this, of e] show ?thesis using assms(3) by (simp add: insert_commute)
qed

lemma select_blind:
  assumes get_put: "\<And>k w. en_k E (en_set_k E k w) = k" and clear: "masks_clear (the_mm E s) phys {r, w, e}"
  shows "\<exists>s'. select_once E r w e nfds s = Some (0, s') \<and> masks_clear (the_mm E s') phys {r, w, e}"
proof -
  have "select_pass E r w e [0..<nfds] (0, 0, 0, 0) s = Some ((0, 0, 0, 0), s)"
    using clear by (intro select_pass_clear) (auto simp: masks_clear_def zero_at_load)
  then show ?thesis using masks_stored [OF get_put, of s phys r w e] clear by (simp add: select_once_def masks_clear_def)
qed

lemma select_loop_blind:
  assumes get_put: "\<And>k w. en_k E (en_set_k E k w) = k" and "masks_clear (the_mm E s) phys {r, w, e}"
    and "\<And>wt x x'. wt \<in> set waits \<Longrightarrow> masks_clear (the_mm E x) phys {r, w, e} \<Longrightarrow>
      pause E (\<lambda>irqs. sleep irqs 10) wt x = Some x' \<Longrightarrow> masks_clear (the_mm E x') phys {r, w, e}"
  shows "case select_loop E r w e nfds timeout_ms waits waited s of None \<Rightarrow> True | Some (n, s') \<Rightarrow> n = 0 \<and> 0 \<le> timeout_ms"
  using assms(2,3)
proof (induction waits arbitrary: waited s)
  case Nil
  then show ?case using select_blind [OF get_put Nil.prems(1), of nfds] by (auto simp: ret_def u32_def time_over_def)
next
  case (Cons wt ws)
  obtain s1 where s1: "select_once E r w e nfds s = Some (0, s1)" "masks_clear (the_mm E s1) phys {r, w, e}"
    using select_blind [OF get_put Cons.prems(1)] by blast
  show ?case
  proof (cases "pause E (\<lambda>irqs. sleep irqs 10) wt s1")
    case None
    then show ?thesis using s1 by (auto simp: ret_def u32_def time_over_def)
  next
    case (Some s2)
    have "masks_clear (the_mm E s2) phys {r, w, e}" by (rule Cons.prems(2) [OF _ s1(2) Some]) simp
    then have "case select_loop E r w e nfds timeout_ms ws (add32 waited 10) s2 of None \<Rightarrow> True | Some (n, s') \<Rightarrow> n = 0 \<and> 0 \<le> timeout_ms"
    proof (rule Cons.IH)
      fix wt' x x' assume "wt' \<in> set ws" "masks_clear (the_mm E x) phys {r, w, e}" "pause E (\<lambda>irqs. sleep irqs 10) wt' x = Some x'"
      then show "masks_clear (the_mm E x') phys {r, w, e}" by (intro Cons.prems(2) [of wt' x x']) simp_all
    qed
    then show ?thesis using s1 Some by (auto simp: ret_def u32_def time_over_def)
  qed
qed

text \<open>C30: A \<^verbatim>\<open>select\<close> that finds no descriptor ready at first stores empty sets and looks only at these from then on: it never answers
  that a descriptor is ready, whatever arrives while it sleeps, and without a timeout it does not come back at all.\<close>

theorem select_never_wakes:
  assumes "\<And>k w. en_k E (en_set_k E k w) = k"
    "select_pass E r w e [0..<nfds] (0, 0, 0, 0) s = Some ((rmask, wmask, emask, 0), s0)"
    "user_at (the_mm E s0) phys" "\<forall>a \<in> {r, w, e}. a \<noteq> 0 \<longrightarrow> in_user a 4"
    "\<And>wt x x'. wt \<in> set waits \<Longrightarrow> masks_clear (the_mm E x) phys {r, w, e} \<Longrightarrow>
      pause E (\<lambda>irqs. sleep irqs 10) wt x = Some x' \<Longrightarrow> masks_clear (the_mm E x') phys {r, w, e}"
  shows "case select_loop E r w e nfds timeout_ms waits 0 s of None \<Rightarrow> True | Some (n, s') \<Rightarrow> n = 0 \<and> 0 \<le> timeout_ms"
proof -
  obtain s1 where s1: "select_once E r w e nfds s = Some (0, s1)" "masks_clear (the_mm E s1) phys {r, w, e}"
    using select_pass_counts [OF assms(2)] masks_stored [OF assms(1,3,4)] assms(2) by (simp add: select_once_def)
  show ?thesis
  proof (cases waits)
    case Nil
    then show ?thesis using s1 by (auto simp: ret_def u32_def time_over_def)
  next
    case (Cons wt ws)
    have "case select_loop E r w e nfds timeout_ms ws 10 s2 of None \<Rightarrow> True | Some (n, s') \<Rightarrow> n = 0 \<and> 0 \<le> timeout_ms"
      if "pause E (\<lambda>irqs. sleep irqs 10) wt s1 = Some s2" for s2
    proof (rule select_loop_blind [OF assms(1)])
      show "masks_clear (the_mm E s2) phys {r, w, e}" by (rule assms(5) [OF _ s1(2) that]) (simp add: Cons)
    next
      fix wt' x x' assume "wt' \<in> set ws" "masks_clear (the_mm E x) phys {r, w, e}" "pause E (\<lambda>irqs. sleep irqs 10) wt' x = Some x'"
      then show "masks_clear (the_mm E x') phys {r, w, e}" by (intro assms(5) [of wt' x x']) (simp_all add: Cons)
    qed
    then show ?thesis using s1
      by (cases "pause E (\<lambda>irqs. sleep irqs 10) wt s1") (auto simp: Cons ret_def u32_def time_over_def add32_def)
  qed
qed

text \<open>A task that waits for a socket to become readable: while it sleeps a datagram arrives.\<close>

definition demo_user_kernel :: kstate where
  "demo_user_kernel = demo_kernel\<lparr>mm := udp_demo_mm\<lparr>mm_mem := (udp_demo_mem (0x2000600 := CHR 0x08))\<rparr>\<rparr>"

definition demo_select :: "kstate sys" where
  "demo_select = demo_waiting\<lparr>sy_w := demo_user_kernel,
     sy_fds := set_fd_table (Some 1) ((replicate FD_MAX zero_fd)[3 := udp_fd 0]) (sy_fds demo_waiting)\<rparr>"

definition arrival :: "kstate wait" where
  "arrival = ([], (\<lambda>s. s\<lparr>sy_w := demo_user_kernel\<lparr>mm := udp_demo_mm\<rparr>,
     sy_udp := upd_socket 0 (enqueue (datagram (udp_demo_bound 1000) ''hi'')) (sy_udp s)\<rparr>))"

lemma demo_select_user: "user_at (the_mm demo_env demo_select) 0x2000000"
  by (simp add: user_at_def demo_select_def demo_user_kernel_def udp_demo_mm_def udp_demo_mem_def load32_def USER_VADDR_SIZE_def)

lemma demo_select_mask: "uload32 (the_mm demo_env demo_select) 0x400600 = 8"
proof -
  have "seen (the_mm demo_env demo_select) (0x400000 + a) = (udp_demo_mem (0x2000600 := CHR 0x08)) (0x2000000 + a)" if "a < 0x400000" for a
    using virt_user [OF demo_select_user, of "0x400000 + a" 0] that
    by (simp add: in_user_def USER_VADDR_BASE_def USER_VADDR_SIZE_def seen_def) (simp add: demo_select_def demo_user_kernel_def udp_demo_mm_def)
  from this [of "0x600"] this [of "0x601"] this [of "0x602"] this [of "0x603"] show ?thesis
    by (simp add: uload32_def load32_def udp_demo_mem_def)
qed

lemma demo_select_pass: "select_pass demo_env 0x400600 0 0 [0..<4] (0, 0, 0, 0) demo_select = Some ((0, 0, 0, 0), demo_select)"
proof -
  have sl: "this_slot demo_env demo_select = Some 1"
    by (simp add: this_slot_def demo_select_def demo_user_kernel_def demo_kernel_def current_task_slot_def MAX_TASKS_def)
  have "cur_fds demo_env demo_select = (replicate FD_MAX zero_fd)[3 := udp_fd 0]"
    by (simp add: cur_fds_def sl) (simp add: fd_table_def set_fd_table_def demo_select_def demo_waiting_def sys_boot_def MAX_TASKS_def)
  then have "fd_poll_revents demo_env 3 POLLIN demo_select = Some (0, demo_select)"
    by (simp add: fd_poll_revents_def fd_path_def fd_udp_sid_def FD_MAX_def udp_fd_def ready_bits_def has_flag_def POLLIN_def POLLOUT_def)
      (simp add: demo_select_def demo_waiting_def no_socket_def)
  moreover have "select_events (the_mm demo_env demo_select) 0x400600 0 0 fd = (if odd (8 div 2 ^ fd :: nat) then POLLIN else 0)" for fd
    using demo_select_mask by (simp add: select_events_def wanted_def)
  ultimately show ?thesis by (simp add: upt_rec [of _ 4] POLLIN_def has_flag_def POLLOUT_def)
qed

lemma demo_masks_clear: "masks_clear udp_demo_mm 0x2000000 {0x400600, 0, 0}"
proof -
  have "seen udp_demo_mm (0x400600 + i) = NUL" if "i < 4" for i :: nat
  proof -
    have "seen udp_demo_mm (0x400000 + (0x600 + i)) = udp_demo_mem (0x2000000 + (0x600 + i))" by (rule udp_demo_seen) (use that in simp)
    then show ?thesis using that by (simp add: udp_demo_mem_def)
  qed
  then show ?thesis by (simp add: masks_clear_def zero_at_def udp_demo_user_at in_user_def USER_VADDR_BASE_def USER_VADDR_SIZE_def)
qed

theorem select_never_wakes_witness: "select_loop demo_env 0x400600 0 0 4 (-1) [arrival] 0 demo_select = None"
proof -
  have "masks_clear (the_mm demo_env x') 0x2000000 {0x400600, 0, 0}"
    if "wt \<in> set [arrival]" "pause demo_env (\<lambda>irqs. sleep irqs 10) wt x = Some x'" for wt x x'
    using that demo_masks_clear by (auto simp: pause_def arrival_def split: option.splits)
  moreover have "\<forall>a \<in> {0x400600, 0, 0}. a \<noteq> 0 \<longrightarrow> in_user a 4" by (simp add: in_user_def USER_VADDR_BASE_def USER_VADDR_SIZE_def)
  ultimately have "case select_loop demo_env 0x400600 0 0 4 (-1) [arrival] 0 demo_select of None \<Rightarrow> True | Some (n, s') \<Rightarrow> n = 0 \<and> (0 :: int) \<le> -1"
    by (intro select_never_wakes [OF _ demo_select_pass demo_select_user]) simp_all
  then show ?thesis by (simp split: option.splits prod.splits)
qed

end
