(* ===== verification/Vga.thy ===== *)
theory Vga
  imports Port_Io
begin

section \<open>Text mode\<close>

text \<open>
  Model of \<^verbatim>\<open>src/kernel/drivers/vga.c\<close>: the text buffer of 80 by 25 words at \<^verbatim>\<open>0xB8000\<close>, each a character and its color,
  the cursor and the color.  \<open>vg_buf\<close> gives the word at an index; what lies behind the buffer are the words with larger
  indices.  Sizes are numbers of 32 bits.
\<close>

definition VGA_WIDTH :: nat where "VGA_WIDTH = 80"
definition VGA_HEIGHT :: nat where "VGA_HEIGHT = 25"

definition VGA_COLOR_BLACK :: nat where "VGA_COLOR_BLACK = 0"
definition VGA_COLOR_WHITE :: nat where "VGA_COLOR_WHITE = 15"

record vga_state =
  vg_cursor_enabled :: bool
  vg_cursor_x :: nat
  vg_cursor_y :: nat
  vg_color :: nat
  vg_buf :: "nat \<Rightarrow> nat"
  vg_io :: port_io

subsection \<open>Loops over the buffer\<close>

text \<open>Words stored one after the other; a word copied from \<open>k\<close> places further on, for \<open>n\<close> places.\<close>

definition fill_words :: "nat \<Rightarrow> nat \<Rightarrow> nat \<Rightarrow> (nat \<Rightarrow> nat) \<Rightarrow> nat \<Rightarrow> nat" where
  "fill_words a n e b = fold (\<lambda>i b. b(a + i := e)) [0..<n] b"

definition copy_down :: "nat \<Rightarrow> nat \<Rightarrow> (nat \<Rightarrow> nat) \<Rightarrow> nat \<Rightarrow> nat" where
  "copy_down k n b = fold (\<lambda>i b. b(i := b (i + k))) [0..<n] b"

lemma fill_words: "fill_words a n e b i = (if a \<le> i \<and> i < a + n then e else b i)"
  unfolding fill_words_def by (induction n) (auto simp: less_Suc_eq)

lemma copy_down: "0 < k \<Longrightarrow> copy_down k n b i = (if i < n then b (i + k) else b i)"
proof -
  assume k: "0 < k"
  have "fold (\<lambda>i b. b(i := b (i + k))) [0..<n] b = (\<lambda>i. if i < n then b (i + k) else b i)"
  proof (induction n)
    case (Suc n)
    then show ?case using k by (auto simp: fun_eq_iff less_Suc_eq)
  qed simp
  then show ?thesis by (simp add: copy_down_def)
qed

subsection \<open>The cursor\<close>

definition v_outb :: "nat \<Rightarrow> u8 \<Rightarrow> vga_state \<Rightarrow> vga_state" where
  "v_outb p v s = s\<lparr>vg_io := outb p v (vg_io s)\<rparr>"

definition v_inb :: "nat \<Rightarrow> vga_state \<Rightarrow> u8 \<times> vga_state" where
  "v_inb p s = (let (v, io) = inb p (vg_io s) in (v, s\<lparr>vg_io := io\<rparr>))"

unbundle bit_operations_syntax

definition vga_cursor_update :: "vga_state \<Rightarrow> vga_state" where
  "vga_cursor_update s =
     (let pos = (vg_cursor_y s * VGA_WIDTH + vg_cursor_x s) mod 65536 in
      v_outb 0x3D5 (word_of_nat (pos div 256)) (v_outb 0x3D4 0x0E (v_outb 0x3D5 (word_of_nat (pos mod 256)) (v_outb 0x3D4 0x0F s))))"

definition vga_cursor_enable :: "u8 \<Rightarrow> u8 \<Rightarrow> vga_state \<Rightarrow> vga_state" where
  "vga_cursor_enable cursor_start cursor_end s =
     (let (v, s1) = v_inb 0x3D5 (v_outb 0x3D4 0x0A s);
          (w, s2) = v_inb 0x3D5 (v_outb 0x3D4 0x0B (v_outb 0x3D5 ((v AND 0xC0) OR cursor_start) s1)) in
      (v_outb 0x3D5 ((w AND 0xE0) OR cursor_end) s2)\<lparr>vg_cursor_enabled := True\<rparr>)"

definition vga_cursor_disable :: "vga_state \<Rightarrow> vga_state" where
  "vga_cursor_disable s = (v_outb 0x3D5 0x20 (v_outb 0x3D4 0x0A s))\<lparr>vg_cursor_enabled := False\<rparr>"

definition vga_cursor_set :: "nat \<Rightarrow> nat \<Rightarrow> vga_state \<Rightarrow> vga_state" where
  "vga_cursor_set x y s =
     vga_cursor_update (s\<lparr>vg_cursor_x := (if x < VGA_WIDTH then x else VGA_WIDTH - 1),
       vg_cursor_y := (if y < VGA_HEIGHT then y else VGA_HEIGHT - 1)\<rparr>)"

definition vga_cursor_set_x :: "nat \<Rightarrow> vga_state \<Rightarrow> vga_state" where
  "vga_cursor_set_x x s = vga_cursor_update (s\<lparr>vg_cursor_x := (if x < VGA_WIDTH then x else VGA_WIDTH - 1)\<rparr>)"

definition vga_cursor_set_y :: "nat \<Rightarrow> vga_state \<Rightarrow> vga_state" where
  "vga_cursor_set_y y s = vga_cursor_update (s\<lparr>vg_cursor_y := (if y < VGA_HEIGHT then y else VGA_HEIGHT - 1)\<rparr>)"

definition vga_cursor_get_x :: "vga_state \<Rightarrow> nat" where "vga_cursor_get_x s = vg_cursor_x s"
definition vga_cursor_get_y :: "vga_state \<Rightarrow> nat" where "vga_cursor_get_y s = vg_cursor_y s"
definition vga_cursor_is_enabled :: "vga_state \<Rightarrow> bool" where "vga_cursor_is_enabled s = vg_cursor_enabled s"

subsection \<open>Colors\<close>

definition vga_color_make :: "nat \<Rightarrow> nat \<Rightarrow> nat" where
  "vga_color_make bg fg = (push_bit 4 bg OR fg) mod 256"

definition vga_color_get :: "vga_state \<Rightarrow> nat" where "vga_color_get s = vg_color s"
definition vga_color_set :: "nat \<Rightarrow> vga_state \<Rightarrow> vga_state" where "vga_color_set c s = s\<lparr>vg_color := c\<rparr>"

text \<open>A word of the buffer; in \<^verbatim>\<open>vga_put_char\<close> the character is extended with its sign before the color is laid over it.\<close>

definition vga_entry :: "nat \<Rightarrow> byte \<Rightarrow> nat" where
  "vga_entry color c = color * 256 + of_char c"

definition vga_entry_signed :: "nat \<Rightarrow> byte \<Rightarrow> nat" where
  "vga_entry_signed color c = (if (of_char c :: nat) < 128 then vga_entry color c else 0xFF00 + of_char c)"

subsection \<open>Output\<close>

definition vga_fill :: "byte \<Rightarrow> vga_state \<Rightarrow> vga_state" where
  "vga_fill c s = s\<lparr>vg_buf := fill_words 0 (VGA_WIDTH * VGA_HEIGHT) (vga_entry (vg_color s) c) (vg_buf s)\<rparr>"

definition vga_clear :: "vga_state \<Rightarrow> vga_state" where
  "vga_clear s = vga_cursor_update (vga_fill CHR '' '' (s\<lparr>vg_cursor_x := 0, vg_cursor_y := 0\<rparr>))"

definition vga_init :: "vga_state \<Rightarrow> vga_state" where
  "vga_init s = vga_cursor_enable 14 15 (vga_clear (s\<lparr>vg_cursor_x := 0, vg_cursor_y := 0, vg_color := vga_color_make VGA_COLOR_BLACK VGA_COLOR_WHITE\<rparr>))"

definition vga_scroll :: "vga_state \<Rightarrow> vga_state" where
  "vga_scroll s =
     s\<lparr>vg_buf := fill_words ((VGA_HEIGHT - 1) * VGA_WIDTH) VGA_WIDTH (vga_entry (vg_color s) CHR '' '')
         (copy_down VGA_WIDTH ((VGA_HEIGHT - 1) * VGA_WIDTH) (vg_buf s)),
       vg_cursor_y := VGA_HEIGHT - 1\<rparr>"

definition vga_newline :: "vga_state \<Rightarrow> vga_state" where
  "vga_newline s =
     (let s1 = s\<lparr>vg_cursor_x := 0, vg_cursor_y := add32 (vg_cursor_y s) 1\<rparr> in
      if vg_cursor_y s1 \<ge> VGA_HEIGHT then vga_scroll s1 else s1)"

definition vga_tab :: "vga_state \<Rightarrow> vga_state" where
  "vga_tab s =
     (let s1 = s\<lparr>vg_cursor_x := add32 (vg_cursor_x s) 8 div 8 * 8\<rparr> in
      if vg_cursor_x s1 \<ge> VGA_WIDTH then vga_newline s1 else s1)"

definition vga_backspace :: "vga_state \<Rightarrow> vga_state" where
  "vga_backspace s =
     (let s1 = (if vg_cursor_x s > 0 then s\<lparr>vg_cursor_x := vg_cursor_x s - 1\<rparr>
                else if vg_cursor_y s > 0 then s\<lparr>vg_cursor_y := vg_cursor_y s - 1, vg_cursor_x := VGA_WIDTH - 1\<rparr>
                else s) in
      s1\<lparr>vg_buf := (vg_buf s1)(vg_cursor_y s1 * VGA_WIDTH + vg_cursor_x s1 := vga_entry (vg_color s1) CHR '' '')\<rparr>)"

definition vga_put_char :: "byte \<Rightarrow> vga_state \<Rightarrow> vga_state" where
  "vga_put_char c s = vga_cursor_update
     (if c = CHR 10 then vga_newline s
      else if c = CHR 13 then vga_cursor_update (s\<lparr>vg_cursor_x := 0\<rparr>)
      else if c = CHR 9 then vga_tab s
      else if c = CHR 8 then vga_backspace s
      else let s1 = s\<lparr>vg_buf := (vg_buf s)(vg_cursor_y s * VGA_WIDTH + vg_cursor_x s := vga_entry_signed (vg_color s) c),
                      vg_cursor_x := add32 (vg_cursor_x s) 1\<rparr> in
        if vg_cursor_x s1 \<ge> VGA_WIDTH then vga_newline s1 else s1)"

definition vga_print :: "string \<Rightarrow> vga_state \<Rightarrow> vga_state" where
  "vga_print str s = fold vga_put_char (takeWhile ((\<noteq>) NUL) str) s"

subsection \<open>The cursor stays on the screen\<close>

definition vga_ok :: "vga_state \<Rightarrow> bool" where
  "vga_ok s \<longleftrightarrow> vg_cursor_x s < VGA_WIDTH \<and> vg_cursor_y s < VGA_HEIGHT"

text \<open>What lies behind the text buffer is not written.\<close>

definition same_behind :: "vga_state \<Rightarrow> vga_state \<Rightarrow> bool" where
  "same_behind s s' \<longleftrightarrow> (\<forall>i. VGA_WIDTH * VGA_HEIGHT \<le> i \<longrightarrow> vg_buf s' i = vg_buf s i)"

lemma cursor_update_fields [simp]:
  "vg_cursor_x (vga_cursor_update s) = vg_cursor_x s" "vg_cursor_y (vga_cursor_update s) = vg_cursor_y s"
  "vg_buf (vga_cursor_update s) = vg_buf s" "vg_color (vga_cursor_update s) = vg_color s"
  "vg_cursor_enabled (vga_cursor_update s) = vg_cursor_enabled s"
  by (simp_all add: vga_cursor_update_def v_outb_def Let_def)

lemma cursor_update_ok [simp]: "vga_ok (vga_cursor_update s) = vga_ok s" "same_behind s0 (vga_cursor_update s) = same_behind s0 s"
  by (simp_all add: vga_ok_def same_behind_def)

lemma newline_ok:
  assumes "vg_cursor_y s < VGA_HEIGHT"
  shows "vga_ok (vga_newline s)" "same_behind s (vga_newline s)"
  using assms by (auto simp: vga_newline_def vga_scroll_def vga_ok_def same_behind_def fill_words copy_down add32_def VGA_WIDTH_def VGA_HEIGHT_def Let_def)

lemma put_char_ok:
  assumes "vga_ok s"
  shows "vga_ok (vga_put_char c s) \<and> same_behind s (vga_put_char c s)"
proof -
  have y: "vg_cursor_y s < VGA_HEIGHT" and x: "vg_cursor_x s < VGA_WIDTH" using assms by (simp_all add: vga_ok_def)
  have in_buf: "vg_cursor_y s * VGA_WIDTH + vg_cursor_x s < VGA_WIDTH * VGA_HEIGHT"
    using x y by (simp add: VGA_WIDTH_def VGA_HEIGHT_def)
  have tab: "vga_ok (vga_tab s) \<and> same_behind s (vga_tab s)"
    using x y newline_ok [of "s\<lparr>vg_cursor_x := add32 (vg_cursor_x s) 8 div 8 * 8\<rparr>"] by (auto simp: vga_tab_def vga_ok_def same_behind_def Let_def)
  have bs: "vga_ok (vga_backspace s) \<and> same_behind s (vga_backspace s)"
    using x y by (auto simp: vga_backspace_def vga_ok_def same_behind_def VGA_WIDTH_def VGA_HEIGHT_def Let_def)
  let ?s1 = "s\<lparr>vg_buf := (vg_buf s)(vg_cursor_y s * VGA_WIDTH + vg_cursor_x s := vga_entry_signed (vg_color s) c),
                      vg_cursor_x := add32 (vg_cursor_x s) 1\<rparr>"
  have "same_behind s ?s1" using in_buf by (auto simp: same_behind_def)
  moreover have "vga_ok (vga_newline ?s1)" "same_behind ?s1 (vga_newline ?s1)" using newline_ok [of ?s1] y by simp_all
  ultimately have dflt: "vga_ok (if vg_cursor_x ?s1 \<ge> VGA_WIDTH then vga_newline ?s1 else ?s1) \<and>
      same_behind s (if vg_cursor_x ?s1 \<ge> VGA_WIDTH then vga_newline ?s1 else ?s1)"
    using x y by (auto simp: vga_ok_def same_behind_def)
  show ?thesis unfolding vga_put_char_def Let_def cursor_update_ok
    using newline_ok [OF y] tab bs dflt x y by (auto simp: vga_ok_def same_behind_def VGA_WIDTH_def)
qed

text \<open>Whatever is printed, the cursor stays on the screen and only the 2000 words of the text buffer are written.\<close>

theorem vga_print_stays_on_screen:
  assumes "vga_ok s"
  shows "vga_ok (vga_print str s) \<and> same_behind s (vga_print str s)"
proof -
  have "vga_ok (fold vga_put_char cs s) \<and> same_behind s (fold vga_put_char cs s)" for cs
    using assms
  proof (induction cs arbitrary: s)
    case (Cons c cs)
    then show ?case using put_char_ok [OF Cons.prems, of c] Cons.IH [of "vga_put_char c s"] by (auto simp: same_behind_def)
  qed (simp add: same_behind_def)
  then show ?thesis by (simp add: vga_print_def)
qed

text \<open>The last cell of the screen is filled and the text goes on below: the screen has been scrolled.\<close>

definition demo_vga :: vga_state where
  "demo_vga = \<lparr>vg_cursor_enabled = True, vg_cursor_x = 79, vg_cursor_y = 24, vg_color = 15, vg_buf = (\<lambda>i. 0),
     vg_io = \<lparr>port_in = (\<lambda>t p. 0), port_time = 0, port_out = []\<rparr>\<rparr>"

theorem vga_print_stays_on_screen_witness:
  "vga_ok (vga_print ''ab'' demo_vga) \<and> same_behind demo_vga (vga_print ''ab'' demo_vga) \<and>
   vg_cursor_x (vga_print ''ab'' demo_vga) = 1 \<and> vg_buf (vga_print ''ab'' demo_vga) 1920 = 15 * 256 + 98"
proof -
  have "vga_ok demo_vga" by (simp add: demo_vga_def vga_ok_def VGA_WIDTH_def VGA_HEIGHT_def)
  from vga_print_stays_on_screen [OF this, of "''ab''"] show ?thesis
    by (simp add: vga_print_def demo_vga_def vga_put_char_def vga_newline_def vga_scroll_def vga_entry_signed_def vga_entry_def
        add32_def VGA_WIDTH_def VGA_HEIGHT_def Let_def)
qed

end
