(* ===== verification/Vesa.thy ===== *)
theory Vesa
  imports Byte_Lists
begin

unbundle bit_operations_syntax

section \<open>The frame buffer\<close>

text \<open>
  Model of \<^verbatim>\<open>src/kernel/drivers/vesa.c\<close>: the mode information left by the boot loader, the static variables, and
  the memory with the frame buffer in it.  Colors and coordinates are 32-bit numbers, an \<^verbatim>\<open>int\<close> is kept in
  the range of \<^verbatim>\<open>int32_t\<close> with \<open>sgn32\<close>.  A function that may run forever or divide by zero is \<open>None\<close> then.
  The macro \<^verbatim>\<open>CONFIG_VESA_ROTATION\<close> is an argument of \<open>vesa_set_rotation\<close>.
\<close>

record vesa_mode =
  mi_attributes :: nat
  mi_pitch :: nat
  mi_width :: nat
  mi_height :: nat
  mi_bpp :: nat
  mi_memory_model :: nat
  mi_red_mask :: nat
  mi_red_position :: nat
  mi_green_mask :: nat
  mi_green_position :: nat
  mi_blue_mask :: nat
  mi_blue_position :: nat
  mi_reserved_mask :: nat
  mi_reserved_position :: nat
  mi_framebuffer :: addr

record vesa_state =
  vi_signature :: string
  mode_info :: vesa_mode
  framebuffer :: addr
  vesa_initialized :: bool
  bytes_per_pixel :: nat
  rotation_deg :: nat
  vs_mem :: mem

subsection \<open>Colors\<close>

definition scale_component_to_mask :: "nat \<Rightarrow> nat \<Rightarrow> nat" where
  "scale_component_to_mask v mask_bits =
     (if mask_bits = 0 then 0 else if mask_bits \<ge> 8 then v
      else (v * (2 ^ mask_bits - 1) + 127) div 255)"

definition scale_component_from_mask :: "nat \<Rightarrow> nat \<Rightarrow> nat" where
  "scale_component_from_mask v mask_bits =
     (if mask_bits = 0 then 0 else if mask_bits \<ge> 8 then v mod 256
      else (v * 255 + (2 ^ mask_bits - 1) div 2) div (2 ^ mask_bits - 1) mod 256)"

definition pack_field :: "nat \<Rightarrow> nat \<Rightarrow> nat \<Rightarrow> nat" where
  "pack_field v mask_bits position = push_bit position (scale_component_to_mask v mask_bits mod 2 ^ mask_bits) mod 2 ^ 32"

definition vesa_pack_color :: "vesa_mode \<Rightarrow> nat \<Rightarrow> nat \<Rightarrow> nat \<Rightarrow> nat \<Rightarrow> nat" where
  "vesa_pack_color mi r g b a =
     pack_field r (mi_red_mask mi) (mi_red_position mi) OR pack_field g (mi_green_mask mi) (mi_green_position mi) OR
     pack_field b (mi_blue_mask mi) (mi_blue_position mi) OR
     (if mi_reserved_mask mi \<noteq> 0 then pack_field a (mi_reserved_mask mi) (mi_reserved_position mi) else 0)"

definition unpack_field :: "nat \<Rightarrow> nat \<Rightarrow> nat \<Rightarrow> nat" where
  "unpack_field packed mask_bits position = scale_component_from_mask (drop_bit position packed mod 2 ^ mask_bits) mask_bits"

definition vesa_unpack_color :: "vesa_mode \<Rightarrow> nat \<Rightarrow> nat \<times> nat \<times> nat \<times> nat" where
  "vesa_unpack_color mi packed =
     (unpack_field packed (mi_red_mask mi) (mi_red_position mi), unpack_field packed (mi_green_mask mi) (mi_green_position mi),
      unpack_field packed (mi_blue_mask mi) (mi_blue_position mi), unpack_field packed (mi_reserved_mask mi) (mi_reserved_position mi))"

definition vesa_rgb :: "nat \<Rightarrow> nat \<Rightarrow> nat \<Rightarrow> nat" where
  "vesa_rgb r g b = push_bit 16 r OR push_bit 8 g OR b"

definition vesa_argb :: "nat \<Rightarrow> nat \<Rightarrow> nat \<Rightarrow> nat \<Rightarrow> nat" where
  "vesa_argb a r g b = push_bit 24 a OR push_bit 16 r OR push_bit 8 g OR b"

text \<open>The components of a color: red, green, blue and alpha.\<close>

definition vesa_extract_color :: "nat \<Rightarrow> nat \<times> nat \<times> nat \<times> nat" where
  "vesa_extract_color color = (color div 65536 mod 256, color div 256 mod 256, color mod 256, color div 16777216 mod 256)"

definition packed_color :: "vesa_state \<Rightarrow> nat \<Rightarrow> nat" where
  "packed_color s color = (case vesa_extract_color color of (r, g, b, a) \<Rightarrow> vesa_pack_color (mode_info s) r g b a)"

subsection \<open>The mode\<close>

definition vesa_init :: "vesa_state \<Rightarrow> bool \<times> vesa_state" where
  "vesa_init s =
     (let mi = mode_info s in
      if take 4 (vi_signature s) \<noteq> ''VESA'' then (False, s)
      else if even (mi_attributes mi) then (False, s)
      else if even (mi_attributes mi div 0x10) then (False, s)
      else if even (mi_attributes mi div 0x80) then (False, s)
      else if mi_width mi = 0 \<or> mi_height mi = 0 then (False, s)
      else if mi_bpp mi < 8 \<or> mi_bpp mi > 32 then (False, s)
      else if mi_memory_model mi \<noteq> 4 \<and> mi_memory_model mi \<noteq> 6 then (False, s)
      else if mi_framebuffer mi < 0x00100000 then (False, s)
      else let s1 = s\<lparr>bytes_per_pixel := mi_bpp mi div 8\<rparr> in
        if bytes_per_pixel s1 = 0 \<or> bytes_per_pixel s1 > 4 then (False, s1)
        else if mi_pitch mi < mul32 (mi_width mi) (bytes_per_pixel s1) then (False, s1)
        else (True, s1\<lparr>framebuffer := mi_framebuffer mi, vesa_initialized := True\<rparr>))"

definition vesa_is_initialized :: "vesa_state \<Rightarrow> bool" where
  "vesa_is_initialized s \<longleftrightarrow> vesa_initialized s \<and> framebuffer s \<noteq> 0"

definition vesa_phys_width :: "vesa_state \<Rightarrow> nat" where "vesa_phys_width s = mi_width (mode_info s)"
definition vesa_phys_height :: "vesa_state \<Rightarrow> nat" where "vesa_phys_height s = mi_height (mode_info s)"

definition vesa_logical_width :: "vesa_state \<Rightarrow> nat" where
  "vesa_logical_width s =
     (if \<not> vesa_initialized s then 0
      else if rotation_deg s = 90 \<or> rotation_deg s = 270 then vesa_phys_height s else vesa_phys_width s)"

definition vesa_logical_height :: "vesa_state \<Rightarrow> nat" where
  "vesa_logical_height s =
     (if \<not> vesa_initialized s then 0
      else if rotation_deg s = 90 \<or> rotation_deg s = 270 then vesa_phys_width s else vesa_phys_height s)"

definition vesa_map_xy :: "vesa_state \<Rightarrow> nat \<Rightarrow> nat \<Rightarrow> nat \<times> nat" where
  "vesa_map_xy s x y =
     (let w = vesa_phys_width s; h = vesa_phys_height s in
      if rotation_deg s = 90 then (y, sub32 (sub32 h 1) x)
      else if rotation_deg s = 180 then (sub32 (sub32 w 1) x, sub32 (sub32 h 1) y)
      else if rotation_deg s = 270 then (sub32 (sub32 w 1) y, x)
      else (x, y))"

definition vesa_set_rotation :: "bool \<Rightarrow> nat \<Rightarrow> vesa_state \<Rightarrow> bool \<times> vesa_state" where
  "vesa_set_rotation config degrees s =
     (if config then
        (if degrees = 0 \<or> degrees = 90 \<or> degrees = 180 \<or> degrees = 270 then (True, s\<lparr>rotation_deg := degrees\<rparr>) else (False, s))
      else (degrees = 0, s))"

definition vesa_get_rotation :: "vesa_state \<Rightarrow> nat" where "vesa_get_rotation s = rotation_deg s"
definition vesa_get_width :: "vesa_state \<Rightarrow> nat" where "vesa_get_width s = vesa_logical_width s"
definition vesa_get_height :: "vesa_state \<Rightarrow> nat" where "vesa_get_height s = vesa_logical_height s"
definition vesa_get_pitch :: "vesa_state \<Rightarrow> nat" where "vesa_get_pitch s = (if vesa_initialized s then mi_pitch (mode_info s) else 0)"
definition vesa_get_bpp :: "vesa_state \<Rightarrow> nat" where "vesa_get_bpp s = (if vesa_initialized s then mi_bpp (mode_info s) else 0)"
definition vesa_get_framebuffer :: "vesa_state \<Rightarrow> nat" where "vesa_get_framebuffer s = framebuffer s"

subsection \<open>Pixels\<close>

definition vesa_calculate_pixel_offset :: "vesa_state \<Rightarrow> nat \<Rightarrow> nat \<Rightarrow> nat" where
  "vesa_calculate_pixel_offset s x y =
     (case vesa_map_xy s x y of (px, py) \<Rightarrow> add32 (mul32 py (mi_pitch (mode_info s))) (mul32 px (bytes_per_pixel s)))"

text \<open>A number stored with its low byte first, as many bytes as a pixel has; none when that is not 1 to 4.\<close>

definition store_pixel :: "vesa_state \<Rightarrow> addr \<Rightarrow> nat \<Rightarrow> vesa_state" where
  "store_pixel s a packed =
     (if bytes_per_pixel s \<le> 4 then s\<lparr>vs_mem := put_bytes (vs_mem s) a (take (bytes_per_pixel s) (le32 packed))\<rparr> else s)"

definition load_pixel :: "vesa_state \<Rightarrow> addr \<Rightarrow> nat" where
  "load_pixel s a = load32 (\<lambda>i. if i < a + bytes_per_pixel s then vs_mem s i else NUL) a"

definition vesa_put_pixel :: "nat \<Rightarrow> nat \<Rightarrow> nat \<Rightarrow> vesa_state \<Rightarrow> vesa_state" where
  "vesa_put_pixel x y color s =
     (if \<not> vesa_is_initialized s \<or> x \<ge> vesa_logical_width s \<or> y \<ge> vesa_logical_height s then s
      else store_pixel s (framebuffer s + vesa_calculate_pixel_offset s x y) (packed_color s color))"

definition vesa_get_pixel :: "nat \<Rightarrow> nat \<Rightarrow> vesa_state \<Rightarrow> nat" where
  "vesa_get_pixel x y s =
     (if \<not> vesa_is_initialized s \<or> x \<ge> vesa_logical_width s \<or> y \<ge> vesa_logical_height s then 0
      else if bytes_per_pixel s = 0 \<or> bytes_per_pixel s > 4 then 0
      else case vesa_unpack_color (mode_info s) (load_pixel s (framebuffer s + vesa_calculate_pixel_offset s x y)) of
        (r, g, b, a) \<Rightarrow> vesa_argb a r g b)"

subsection \<open>Areas\<close>

text \<open>The pixels of a rectangle, row by row; \<open>n\<close> words of 32 bits from an address on.\<close>

definition put_pixels :: "nat list \<Rightarrow> nat list \<Rightarrow> (nat \<Rightarrow> nat \<Rightarrow> vesa_state \<Rightarrow> vesa_state) \<Rightarrow> vesa_state \<Rightarrow> vesa_state" where
  "put_pixels ys xs f s = fold (\<lambda>y. fold (\<lambda>x. f x y) xs) ys s"

definition store_words :: "addr \<Rightarrow> nat \<Rightarrow> nat \<Rightarrow> vesa_state \<Rightarrow> vesa_state" where
  "store_words a n v s = fold (\<lambda>i s. s\<lparr>vs_mem := store32 (vs_mem s) (a + 4 * i) v\<rparr>) [0..<n] s"

definition vesa_clear :: "nat \<Rightarrow> vesa_state \<Rightarrow> vesa_state" where
  "vesa_clear color s =
     (if \<not> vesa_is_initialized s then s
      else if rotation_deg s = 0 \<and> bytes_per_pixel s = 4
      then store_words (framebuffer s) (mul32 (mi_pitch (mode_info s)) (mi_height (mode_info s)) div 4) (packed_color s color) s
      else put_pixels [0..<vesa_logical_height s] [0..<vesa_logical_width s] (\<lambda>x y. vesa_put_pixel x y color) s)"

definition vesa_fill_rect :: "nat \<Rightarrow> nat \<Rightarrow> nat \<Rightarrow> nat \<Rightarrow> nat \<Rightarrow> vesa_state \<Rightarrow> vesa_state" where
  "vesa_fill_rect x y w h color s =
     (if \<not> vesa_is_initialized s then s
      else let lw = vesa_logical_width s; lh = vesa_logical_height s;
               x_end = min (add32 x w) lw; y_end = min (add32 y h) lh in
        if x \<ge> lw \<or> y \<ge> lh then s
        else if rotation_deg s = 0 \<and> bytes_per_pixel s = 4
        then fold (\<lambda>cy s. store_words (framebuffer s + vesa_calculate_pixel_offset s x cy) (sub32 x_end x) (packed_color s color) s) [y..<y_end] s
        else put_pixels [y..<y_end] [x..<x_end] (\<lambda>cx cy. vesa_put_pixel cx cy color) s)"

definition vesa_draw_rect :: "nat \<Rightarrow> nat \<Rightarrow> nat \<Rightarrow> nat \<Rightarrow> nat \<Rightarrow> nat \<Rightarrow> vesa_state \<Rightarrow> vesa_state" where
  "vesa_draw_rect x y w h color thickness s =
     (if \<not> vesa_is_initialized s \<or> thickness = 0 then s
      else vesa_fill_rect (sub32 (add32 x w) thickness) y thickness h color
        (vesa_fill_rect x y thickness h color
          (vesa_fill_rect x (sub32 (add32 y h) thickness) w thickness color
            (vesa_fill_rect x y w thickness color s))))"

text \<open>The bytes of each row are copied with \<^verbatim>\<open>memcpy\<close>.\<close>

definition copy_row :: "addr \<Rightarrow> addr \<Rightarrow> nat \<Rightarrow> vesa_state \<Rightarrow> vesa_state" where
  "copy_row dst src n s = s\<lparr>vs_mem := memcpy (vs_mem s) dst src n\<rparr>"

definition vesa_copy_rect :: "nat \<Rightarrow> nat \<Rightarrow> nat \<Rightarrow> nat \<Rightarrow> nat \<Rightarrow> nat \<Rightarrow> vesa_state \<Rightarrow> vesa_state" where
  "vesa_copy_rect src_x src_y dst_x dst_y w h s =
     (if \<not> vesa_is_initialized s then s
      else let lw = vesa_logical_width s; lh = vesa_logical_height s in
        if src_x \<ge> lw \<or> src_y \<ge> lh \<or> dst_x \<ge> lw \<or> dst_y \<ge> lh then s
        else let copy_w = min w (lw - max src_x dst_x); copy_h = min h (lh - max src_y dst_y) in
          if copy_w = 0 \<or> copy_h = 0 then s
          else if rotation_deg s = 0
          then fold (\<lambda>y s. copy_row (framebuffer s + vesa_calculate_pixel_offset s dst_x (dst_y + y))
                 (framebuffer s + vesa_calculate_pixel_offset s src_x (src_y + y)) (mul32 copy_w (bytes_per_pixel s)) s) [0..<copy_h] s
          else put_pixels [0..<copy_h] [0..<copy_w]
                 (\<lambda>x y s. vesa_put_pixel (dst_x + x) (dst_y + y) (vesa_get_pixel (src_x + x) (src_y + y) s) s) s)"

text \<open>The row at \<open>y\<close> becomes the one at \<open>from y\<close>.\<close>

definition move_rows :: "nat list \<Rightarrow> (nat \<Rightarrow> nat) \<Rightarrow> vesa_state \<Rightarrow> vesa_state" where
  "move_rows ys from s =
     (if rotation_deg s = 0
      then fold (\<lambda>y s. copy_row (framebuffer s + vesa_calculate_pixel_offset s 0 y) (framebuffer s + vesa_calculate_pixel_offset s 0 (from y))
             (mul32 (vesa_logical_width s) (bytes_per_pixel s)) s) ys s
      else put_pixels ys [0..<vesa_logical_width s] (\<lambda>x y s. vesa_put_pixel x y (vesa_get_pixel x (from y) s) s) s)"

definition vesa_scroll :: "int \<Rightarrow> int \<Rightarrow> nat \<Rightarrow> vesa_state \<Rightarrow> vesa_state" where
  "vesa_scroll dx dy fill_color s =
     (if \<not> vesa_is_initialized s \<or> (dx = 0 \<and> dy = 0) then s
      else let lw = vesa_logical_width s; lh = vesa_logical_height s in
        if dx = 0 then
          let abs_dy = nat \<bar>dy\<bar> in
          if abs_dy \<ge> lh then vesa_clear fill_color s
          else if dy > 0
          then vesa_fill_rect 0 0 lw (nat dy) fill_color (move_rows (rev [nat dy..<lh]) (\<lambda>y. y - nat dy) s)
          else vesa_fill_rect 0 (lh - abs_dy) lw abs_dy fill_color (move_rows [0..<lh - abs_dy] (\<lambda>y. y + abs_dy) s)
        else s)"

subsection \<open>Lines and figures\<close>

definition sgn32 :: "int \<Rightarrow> int" where
  "sgn32 x = (x + 2 ^ 31) mod 2 ^ 32 - 2 ^ 31"

definition uns32 :: "int \<Rightarrow> nat" where
  "uns32 x = nat (x mod 2 ^ 32)"

text \<open>The loop of \<^verbatim>\<open>vesa_draw_line\<close> ends at the second point.\<close>

partial_function (option) line_loop :: "nat \<Rightarrow> nat \<Rightarrow> nat \<Rightarrow> int \<Rightarrow> int \<Rightarrow> int \<Rightarrow> int \<Rightarrow> int \<Rightarrow> nat \<Rightarrow> nat \<Rightarrow> vesa_state \<Rightarrow> vesa_state option" where
  "line_loop x2 y2 color dx dy sx sy err x1 y1 s =
     (let s1 = vesa_put_pixel x1 y1 color s in
      if x1 = x2 \<and> y1 = y2 then Some s1
      else let e2 = sgn32 (err * 2);
               (err1, xn) = (if e2 > - dy then (sgn32 (err - dy), uns32 (int x1 + sx)) else (err, x1));
               (err2, yn) = (if e2 < dx then (sgn32 (err1 + dx), uns32 (int y1 + sy)) else (err1, y1)) in
        line_loop x2 y2 color dx dy sx sy err2 xn yn s1)"

definition vesa_draw_line :: "nat \<Rightarrow> nat \<Rightarrow> nat \<Rightarrow> nat \<Rightarrow> nat \<Rightarrow> vesa_state \<Rightarrow> vesa_state option" where
  "vesa_draw_line x1 y1 x2 y2 color s =
     (if \<not> vesa_is_initialized s then Some s
      else let dx = sgn32 \<bar>sgn32 (sgn32 (int x2) - sgn32 (int x1))\<bar>; dy = sgn32 \<bar>sgn32 (sgn32 (int y2) - sgn32 (int y1))\<bar> in
        line_loop x2 y2 color dx dy (if x1 < x2 then 1 else -1) (if y1 < y2 then 1 else -1) (sgn32 (dx - dy)) x1 y1 s)"

definition circle_points :: "nat \<Rightarrow> nat \<Rightarrow> int \<Rightarrow> int \<Rightarrow> nat \<Rightarrow> vesa_state \<Rightarrow> vesa_state" where
  "circle_points cx cy x y color s =
     fold (\<lambda>(i, j). vesa_put_pixel (uns32 (int cx + i)) (uns32 (int cy + j)) color)
       [(x, y), (y, x), (- y, x), (- x, y), (- x, - y), (- y, - x), (y, - x), (x, - y)] s"

definition circle_lines :: "nat \<Rightarrow> nat \<Rightarrow> int \<Rightarrow> int \<Rightarrow> nat \<Rightarrow> vesa_state \<Rightarrow> vesa_state option" where
  "circle_lines cx cy x y color s = do {
     s1 \<leftarrow> vesa_draw_line (uns32 (int cx - x)) (uns32 (int cy + y)) (uns32 (int cx + x)) (uns32 (int cy + y)) color s;
     s2 \<leftarrow> vesa_draw_line (uns32 (int cx - x)) (uns32 (int cy - y)) (uns32 (int cx + x)) (uns32 (int cy - y)) color s1;
     s3 \<leftarrow> vesa_draw_line (uns32 (int cx - y)) (uns32 (int cy + x)) (uns32 (int cx + y)) (uns32 (int cy + x)) color s2;
     vesa_draw_line (uns32 (int cx - y)) (uns32 (int cy - x)) (uns32 (int cx + y)) (uns32 (int cy - x)) color s3 }"

partial_function (option) circle_loop :: "nat \<Rightarrow> nat \<Rightarrow> nat \<Rightarrow> bool \<Rightarrow> int \<Rightarrow> int \<Rightarrow> int \<Rightarrow> vesa_state \<Rightarrow> vesa_state option" where
  "circle_loop cx cy color filled x y err s =
     (if x \<ge> y then do {
        s1 \<leftarrow> (if filled then circle_lines cx cy x y color s else Some (circle_points cx cy x y color s));
        let (y1, err1) = (if err \<le> 0 then (sgn32 (y + 1), sgn32 (err + (2 * (y + 1) + 1))) else (y, err));
        let (x1, err2) = (if err1 > 0 then (sgn32 (x - 1), sgn32 (err1 - (2 * (x - 1) + 1))) else (x, err1));
        circle_loop cx cy color filled x1 y1 err2 s1 }
      else Some s)"

definition vesa_draw_circle :: "nat \<Rightarrow> nat \<Rightarrow> nat \<Rightarrow> nat \<Rightarrow> bool \<Rightarrow> vesa_state \<Rightarrow> vesa_state option" where
  "vesa_draw_circle cx cy radius color filled s =
     (if \<not> vesa_is_initialized s \<or> radius = 0 then Some s else circle_loop cx cy color filled (sgn32 (int radius)) 0 0 s)"

text \<open>The three corners by their rows.\<close>

definition corner_swap :: "nat \<times> nat \<Rightarrow> nat \<times> nat \<Rightarrow> (nat \<times> nat) \<times> (nat \<times> nat)" where
  "corner_swap p q = (if snd p > snd q then (q, p) else (p, q))"

definition sort_corners :: "nat \<times> nat \<Rightarrow> nat \<times> nat \<Rightarrow> nat \<times> nat \<Rightarrow> (nat \<times> nat) \<times> (nat \<times> nat) \<times> (nat \<times> nat)" where
  "sort_corners p q r =
     (let (p1, q1) = corner_swap p q; (p2, r1) = corner_swap p1 r; (q2, r2) = corner_swap q1 r1 in (p2, q2, r2))"

text \<open>\<open>xa + (xb - xa) * (y - ya) / (yb - ya)\<close> in 32 bits; a division by zero stops the machine.\<close>

definition edge_at :: "nat \<times> nat \<Rightarrow> nat \<times> nat \<Rightarrow> nat \<Rightarrow> nat option" where
  "edge_at p q y =
     (case (p, q) of ((xa, ya), (xb, yb)) \<Rightarrow>
        if sub32 yb ya = 0 then None else Some (add32 xa (mul32 (sub32 xb xa) (sub32 y ya) div sub32 yb ya)))"

definition triangle_row :: "nat \<times> nat \<Rightarrow> nat \<times> nat \<Rightarrow> nat \<times> nat \<Rightarrow> nat \<Rightarrow> nat \<Rightarrow> vesa_state \<Rightarrow> vesa_state option" where
  "triangle_row p q r color y s = do {
     xa \<leftarrow> (if y < snd q then edge_at p q y else if snd q = snd r then Some (fst q) else edge_at q r y);
     xb \<leftarrow> edge_at p r y;
     let (a, b) = (if sgn32 (int xa) > sgn32 (int xb) then (xb, xa) else (xa, xb));
     vesa_draw_line a y b y color s }"

text \<open>With a corner in the row \<open>2 ^ 32 - 1\<close> the loop over the rows never ends.\<close>

definition vesa_draw_triangle :: "nat \<Rightarrow> nat \<Rightarrow> nat \<Rightarrow> nat \<Rightarrow> nat \<Rightarrow> nat \<Rightarrow> nat \<Rightarrow> bool \<Rightarrow> vesa_state \<Rightarrow> vesa_state option" where
  "vesa_draw_triangle x1 y1 x2 y2 x3 y3 color filled s =
     (if \<not> vesa_is_initialized s then Some s
      else if filled then
        (case sort_corners (x1, y1) (x2, y2) (x3, y3) of
           (p, q, r) \<Rightarrow>
             if snd r + 1 \<ge> 2 ^ 32 then None
             else fold (\<lambda>y st. Option.bind st (triangle_row p q r color y)) [snd p..<snd r + 1] (Some s))
      else do {
        s1 \<leftarrow> vesa_draw_line x1 y1 x2 y2 color s;
        s2 \<leftarrow> vesa_draw_line x2 y2 x3 y3 color s1;
        vesa_draw_line x3 y3 x1 y1 color s2 })"

end
