(* ===== verification/Vesa_Props.thy ===== *)
theory Vesa_Props
  imports Vesa
begin

section \<open>Properties of the frame buffer\<close>

text \<open>
  A mode in order; every drawing operation then writes inside the frame buffer only, a pixel that was written is read back
  and no other changes, and the fast way to fill a rectangle does what setting its pixels does.
\<close>

unbundle bit_operations_syntax

definition vesa_ok :: "vesa_state \<Rightarrow> bool" where
  "vesa_ok s \<longleftrightarrow> vesa_initialized s \<and> framebuffer s \<noteq> 0 \<and> 1 \<le> bytes_per_pixel s \<and> bytes_per_pixel s \<le> 4 \<and>
     rotation_deg s \<in> {0, 90, 180, 270} \<and> mi_width (mode_info s) < 2 ^ 16 \<and> mi_height (mode_info s) < 2 ^ 16 \<and> mi_pitch (mode_info s) < 2 ^ 16 \<and>
     mi_width (mode_info s) * bytes_per_pixel s \<le> mi_pitch (mode_info s)"

text \<open>The fields of the mode have 16 bits.\<close>

lemma vesa_init_ok:
  assumes "vesa_init s = (True, s')" "mi_width (mode_info s) < 2 ^ 16" "mi_height (mode_info s) < 2 ^ 16" "mi_pitch (mode_info s) < 2 ^ 16"
    "rotation_deg s \<in> {0, 90, 180, 270}"
  shows "vesa_ok s'"
proof -
  let ?b = "mi_bpp (mode_info s) div 8"
  have s': "s' = s\<lparr>bytes_per_pixel := ?b, framebuffer := mi_framebuffer (mode_info s), vesa_initialized := True\<rparr>"
    "?b \<noteq> 0" "?b \<le> 4" "mi_framebuffer (mode_info s) \<noteq> 0" "mul32 (mi_width (mode_info s)) ?b \<le> mi_pitch (mode_info s)"
    using assms(1) by (auto simp: vesa_init_def Let_def split: if_splits)
  have "mi_width (mode_info s) * ?b \<le> 2 ^ 16 * 4" using assms(2) s'(3) by (intro mult_le_mono) simp_all
  then have "mul32 (mi_width (mode_info s)) ?b = mi_width (mode_info s) * ?b" by (simp add: mul32_eq)
  then show ?thesis using s' assms(2-5) by (simp add: vesa_ok_def)
qed

text \<open>Only the memory differs, and only in the frame buffer.\<close>

definition frame_size :: "vesa_state \<Rightarrow> nat" where
  "frame_size s = mi_pitch (mode_info s) * mi_height (mode_info s)"

definition drawn :: "vesa_state \<Rightarrow> vesa_state \<Rightarrow> bool" where
  "drawn s s' \<longleftrightarrow> (\<exists>m. s' = s\<lparr>vs_mem := m\<rparr> \<and> (\<forall>a. a < framebuffer s \<or> framebuffer s + frame_size s \<le> a \<longrightarrow> m a = vs_mem s a))"

lemma drawn_refl: "drawn s s"
  by (auto simp: drawn_def intro: exI [of _ "vs_mem s"])

lemma drawn_fields:
  assumes "drawn s s'"
  shows "mode_info s' = mode_info s" "framebuffer s' = framebuffer s" "bytes_per_pixel s' = bytes_per_pixel s" "rotation_deg s' = rotation_deg s"
    "vesa_initialized s' = vesa_initialized s" "frame_size s' = frame_size s" "vesa_ok s' = vesa_ok s"
    "vesa_logical_width s' = vesa_logical_width s" "vesa_logical_height s' = vesa_logical_height s" "vesa_is_initialized s' = vesa_is_initialized s"
    "vesa_map_xy s' = vesa_map_xy s" "vesa_calculate_pixel_offset s' = vesa_calculate_pixel_offset s" "packed_color s' = packed_color s"
  using assms
  by (auto simp: drawn_def frame_size_def vesa_ok_def vesa_logical_width_def vesa_logical_height_def vesa_phys_width_def vesa_phys_height_def
    vesa_is_initialized_def vesa_map_xy_def vesa_calculate_pixel_offset_def packed_color_def fun_eq_iff Let_def cong: if_cong)

lemma drawn_trans: "drawn s s1 \<Longrightarrow> drawn s1 s2 \<Longrightarrow> drawn s s2"
  unfolding drawn_def frame_size_def by fastforce

lemma drawn_mem:
  assumes "\<And>a. a < framebuffer s \<or> framebuffer s + frame_size s \<le> a \<Longrightarrow> m a = vs_mem s a"
  shows "drawn s (s\<lparr>vs_mem := m\<rparr>)"
  using assms by (auto simp: drawn_def)

lemma drawn_fold:
  assumes "\<And>x t. x \<in> set xs \<Longrightarrow> drawn s t \<Longrightarrow> drawn t (f x t)"
  shows "drawn s (fold f xs s)"
proof -
  have "drawn s t \<Longrightarrow> drawn s (fold f xs t)" for t
    using assms
  proof (induction xs arbitrary: t)
    case (Cons x xs)
    then have "drawn s (f x t)" using drawn_trans by (meson list.set_intros(1))
    then show ?case using Cons by simp
  qed simp
  then show ?thesis by (simp add: drawn_refl)
qed

subsection \<open>Where pixels lie\<close>

definition on_screen :: "vesa_state \<Rightarrow> nat \<Rightarrow> nat \<Rightarrow> bool" where
  "on_screen s x y \<longleftrightarrow> x < vesa_logical_width s \<and> y < vesa_logical_height s"

lemma sub32_down: "x < h \<Longrightarrow> h < 65536 \<Longrightarrow> sub32 (sub32 h (Suc 0)) x = h - Suc x"
  by (simp add: sub32_eq)

lemma map_xy_in:
  assumes "vesa_ok s" "on_screen s x y" "vesa_map_xy s x y = (px, py)"
  shows "px < mi_width (mode_info s)" "py < mi_height (mode_info s)"
  using assms
  by (auto simp: vesa_ok_def on_screen_def vesa_map_xy_def vesa_logical_width_def vesa_logical_height_def vesa_phys_width_def vesa_phys_height_def
      sub32_down Let_def split: if_splits)

lemma map_xy_inj:
  assumes "vesa_ok s" "on_screen s x y" "on_screen s x' y'" "vesa_map_xy s x y = vesa_map_xy s x' y'"
  shows "x = x' \<and> y = y'"
  using assms
  by (auto simp: vesa_ok_def on_screen_def vesa_map_xy_def vesa_logical_width_def vesa_logical_height_def vesa_phys_width_def vesa_phys_height_def
      sub32_down Let_def split: if_splits)

text \<open>The offset of a physical pixel: no wrap-around, inside its row, inside the frame buffer.\<close>

lemma offset_at:
  assumes "vesa_ok s" "on_screen s x y" "vesa_map_xy s x y = (px, py)"
  shows "vesa_calculate_pixel_offset s x y = py * mi_pitch (mode_info s) + px * bytes_per_pixel s"
    "px * bytes_per_pixel s + bytes_per_pixel s \<le> mi_pitch (mode_info s)"
    "vesa_calculate_pixel_offset s x y + bytes_per_pixel s \<le> frame_size s"
proof -
  let ?p = "mi_pitch (mode_info s)" and ?b = "bytes_per_pixel s"
  note xy = map_xy_in [OF assms]
  have "(px + 1) * ?b \<le> mi_width (mode_info s) * ?b" using xy(1) by (intro mult_le_mono1) simp
  also have "\<dots> \<le> ?p" using assms(1) by (simp add: vesa_ok_def)
  finally show row: "px * ?b + ?b \<le> ?p" by simp
  have "(py + 1) * ?p \<le> mi_height (mode_info s) * ?p" using xy(2) by (intro mult_le_mono1) simp
  then have fits: "py * ?p + ?p \<le> frame_size s" by (simp add: frame_size_def mult.commute)
  have "frame_size s < 2 ^ 32"
  proof -
    have "?p \<le> 65535" "mi_height (mode_info s) \<le> 65535" using assms(1) by (simp_all add: vesa_ok_def)
    then have "frame_size s \<le> 65535 * 65535" unfolding frame_size_def by (rule mult_le_mono)
    then show ?thesis by simp
  qed
  then show "vesa_calculate_pixel_offset s x y = py * ?p + px * ?b"
    using row fits by (simp add: vesa_calculate_pixel_offset_def assms(3) mul32_eq add32_eq)
  then show "vesa_calculate_pixel_offset s x y + ?b \<le> frame_size s" using row fits by simp
qed

lemma offset_apart:
  assumes "vesa_ok s" "on_screen s x y" "on_screen s x' y'" "(x, y) \<noteq> (x', y')"
  shows "vesa_calculate_pixel_offset s x y + bytes_per_pixel s \<le> vesa_calculate_pixel_offset s x' y' \<or>
    vesa_calculate_pixel_offset s x' y' + bytes_per_pixel s \<le> vesa_calculate_pixel_offset s x y"
proof -
  let ?p = "mi_pitch (mode_info s)" and ?b = "bytes_per_pixel s"
  obtain px py where m: "vesa_map_xy s x y = (px, py)" by (cases "vesa_map_xy s x y")
  obtain qx qy where n: "vesa_map_xy s x' y' = (qx, qy)" by (cases "vesa_map_xy s x' y'")
  note A = offset_at [OF assms(1,2) m] and B = offset_at [OF assms(1,3) n]
  have ne: "(px, py) \<noteq> (qx, qy)" using map_xy_inj [OF assms(1-3)] assms(4) m n by auto
  have row: "a * ?p + ?p \<le> c * ?p" if "a < c" for a c :: nat
  proof -
    have "(a + 1) * ?p \<le> c * ?p" using that by (intro mult_le_mono1) simp
    then show ?thesis by simp
  qed
  have col: "a * ?b + ?b \<le> c * ?b" if "a < c" for a c :: nat
  proof -
    have "(a + 1) * ?b \<le> c * ?b" using that by (intro mult_le_mono1) simp
    then show ?thesis by simp
  qed
  consider "py < qy" | "qy < py" | "py = qy" "px < qx" | "py = qy" "qx < px" using ne by fastforce
  then show ?thesis
  proof cases
    case 1
    then show ?thesis using A(1,2) B(1) row [of py qy] by linarith
  next
    case 2
    then show ?thesis using A(1) B(1,2) row [of qy py] by linarith
  next
    case 3
    then show ?thesis using A(1) B(1) col [of px qx] by simp
  next
    case 4
    then show ?thesis using A(1) B(1) col [of qx px] by simp
  qed
qed

subsection \<open>Drawing stays in the frame buffer\<close>

lemma vesa_ok_init: "vesa_ok s \<Longrightarrow> vesa_is_initialized s"
  by (simp add: vesa_ok_def vesa_is_initialized_def)

lemma put_pixel_drawn:
  assumes "vesa_ok s"
  shows "drawn s (vesa_put_pixel x y color s)"
proof (cases "on_screen s x y")
  case True
  obtain px py where m: "vesa_map_xy s x y = (px, py)" by (cases "vesa_map_xy s x y")
  note off = offset_at(3) [OF assms True m]
  have "vesa_put_pixel x y color s = s\<lparr>vs_mem := put_bytes (vs_mem s) (framebuffer s + vesa_calculate_pixel_offset s x y)
      (take (bytes_per_pixel s) (le32 (packed_color s color)))\<rparr>"
    using True vesa_ok_init [OF assms] assms by (simp add: vesa_put_pixel_def on_screen_def store_pixel_def vesa_ok_def)
  then show ?thesis using off assms by (auto simp: vesa_ok_def intro!: drawn_mem put_bytes_outside)
next
  case False
  then show ?thesis using drawn_refl by (auto simp: vesa_put_pixel_def on_screen_def)
qed

lemma put_pixels_drawn:
  assumes "vesa_ok s" "\<And>x y t. vesa_ok t \<Longrightarrow> drawn t (f x y t)"
  shows "drawn s (put_pixels ys xs f s)"
  unfolding put_pixels_def
proof (rule drawn_fold)
  fix y t assume d: "drawn s t"
  show "drawn t (fold (\<lambda>x. f x y) xs t)"
  proof (rule drawn_fold)
    fix x u assume "drawn t u"
    then have "vesa_ok u" using assms(1) drawn_fields(7) [OF d] drawn_fields(7) [of t u] by simp
    then show "drawn u (f x y u)" by (rule assms(2))
  qed
qed

lemma store_words_drawn:
  assumes "framebuffer s \<le> a" "a + 4 * n \<le> framebuffer s + frame_size s"
  shows "drawn s (store_words a n v s)"
  unfolding store_words_def
proof (rule drawn_fold)
  fix i t assume "i \<in> set [0..<n]" "drawn s t"
  then have "i < n" "framebuffer t = framebuffer s" "frame_size t = frame_size s" using drawn_fields by simp_all
  then show "drawn t (t\<lparr>vs_mem := store32 (vs_mem t) (a + 4 * i) v\<rparr>)" using assms by (intro drawn_mem store32_other) linarith
qed

lemma memcpy_outside: "x < d \<or> d + n \<le> x \<Longrightarrow> memcpy m d s n x = m x"
  by (induction m d s n rule: memcpy.induct) auto

lemma copy_row_drawn:
  assumes "framebuffer s \<le> d" "d + n \<le> framebuffer s + frame_size s"
  shows "drawn s (copy_row d a n s)"
  unfolding copy_row_def using assms by (intro drawn_mem memcpy_outside) linarith

text \<open>Several pixels of one row.\<close>

lemma row_fits:
  assumes "vesa_ok s" "rotation_deg s = 0" "y < vesa_logical_height s" "x < vesa_logical_width s" "x + n \<le> vesa_logical_width s"
  shows "vesa_calculate_pixel_offset s x y = y * mi_pitch (mode_info s) + x * bytes_per_pixel s"
    "vesa_calculate_pixel_offset s x y + n * bytes_per_pixel s \<le> frame_size s" "n * bytes_per_pixel s < 2 ^ 32"
proof -
  let ?p = "mi_pitch (mode_info s)" and ?b = "bytes_per_pixel s"
  have m: "vesa_map_xy s x y = (x, y)" using assms(2) by (simp add: vesa_map_xy_def Let_def)
  have on: "on_screen s x y" using assms(3,4) by (simp add: on_screen_def)
  show o: "vesa_calculate_pixel_offset s x y = y * ?p + x * ?b" by (rule offset_at(1) [OF assms(1) on m])
  have w: "vesa_logical_width s = mi_width (mode_info s)" "vesa_logical_height s = mi_height (mode_info s)" "mi_width (mode_info s) * ?b \<le> ?p" "?p < 2 ^ 16"
    using assms(1,2) by (simp_all add: vesa_ok_def vesa_logical_width_def vesa_logical_height_def vesa_phys_width_def vesa_phys_height_def)
  have "(x + n) * ?b \<le> mi_width (mode_info s) * ?b" using assms(5) w(1) by (intro mult_le_mono1) simp
  then have row: "x * ?b + n * ?b \<le> ?p" using w(3) by (simp add: distrib_right)
  have "(y + 1) * ?p \<le> mi_height (mode_info s) * ?p" using assms(3) w(2) by (intro mult_le_mono1) simp
  then have "y * ?p + ?p \<le> frame_size s" by (simp add: frame_size_def mult.commute)
  then show "vesa_calculate_pixel_offset s x y + n * ?b \<le> frame_size s" using row o by simp
  show "n * ?b < 2 ^ 32" using row w(4) by simp
qed

lemma clear_drawn: "vesa_ok s \<Longrightarrow> drawn s (vesa_clear color s)"
proof -
  assume ok: "vesa_ok s"
  have "mi_pitch (mode_info s) \<le> 65535" "mi_height (mode_info s) \<le> 65535" using ok by (simp_all add: vesa_ok_def)
  then have "frame_size s \<le> 65535 * 65535" unfolding frame_size_def by (rule mult_le_mono)
  then have "mul32 (mi_pitch (mode_info s)) (mi_height (mode_info s)) = frame_size s" unfolding frame_size_def by (intro mul32_eq) simp
  then show ?thesis unfolding vesa_clear_def
    using ok by (auto simp: drawn_refl intro!: store_words_drawn put_pixels_drawn put_pixel_drawn)
qed

lemma fill_rect_drawn:
  assumes ok: "vesa_ok s" and w: "x + w < 2 ^ 32"
  shows "drawn s (vesa_fill_rect x y w h color s)"
proof (cases "x < vesa_logical_width s \<and> y < vesa_logical_height s")
  case False
  then show ?thesis using drawn_refl by (auto simp: vesa_fill_rect_def Let_def)
next
  case True
  let ?e = "min (add32 x w) (vesa_logical_width s)" and ?f = "min (add32 y h) (vesa_logical_height s)"
  have lw: "vesa_logical_width s < 2 ^ 32" using ok by (auto simp: vesa_ok_def vesa_logical_width_def vesa_phys_width_def vesa_phys_height_def)
  have e: "x \<le> ?e" "sub32 ?e x = ?e - x" using True w lw by (simp_all add: add32_eq sub32_eq)
  show ?thesis
  proof (cases "rotation_deg s = 0 \<and> bytes_per_pixel s = 4")
    case fast: True
    have "drawn s (fold (\<lambda>cy s. store_words (framebuffer s + vesa_calculate_pixel_offset s x cy) (sub32 ?e x) (packed_color s color) s) [y..<?f] s)"
    proof (rule drawn_fold)
      fix cy t assume "cy \<in> set [y..<?f]" and d: "drawn s t"
      then have cy: "cy < vesa_logical_height s" by simp
      note F = drawn_fields [OF d]
      have "vesa_calculate_pixel_offset s x cy + (?e - x) * bytes_per_pixel s \<le> frame_size s"
        using row_fits(2) [OF ok _ cy, of x "?e - x"] fast True e(1) by simp
      then show "drawn t (store_words (framebuffer t + vesa_calculate_pixel_offset t x cy) (sub32 ?e x) (packed_color t color) t)"
        using fast e(2) by (intro store_words_drawn) (simp_all add: F)
    qed
    then show ?thesis using True fast vesa_ok_init [OF ok] by (simp add: vesa_fill_rect_def Let_def)
  next
    case False
    have "drawn s (put_pixels [y..<?f] [x..<?e] (\<lambda>cx cy. vesa_put_pixel cx cy color) s)" by (rule put_pixels_drawn [OF ok put_pixel_drawn])
    then show ?thesis using True False vesa_ok_init [OF ok] by (auto simp: vesa_fill_rect_def Let_def)
  qed
qed

lemma copy_pixel_drawn: "vesa_ok t \<Longrightarrow> drawn t (vesa_put_pixel x y (vesa_get_pixel x' y' t) t)"
  by (rule put_pixel_drawn)

lemma copy_rect_drawn:
  assumes ok: "vesa_ok s"
  shows "drawn s (vesa_copy_rect src_x src_y dst_x dst_y w h s)"
proof -
  let ?lw = "vesa_logical_width s" and ?lh = "vesa_logical_height s"
  let ?w = "min w (?lw - max src_x dst_x)" and ?h = "min h (?lh - max src_y dst_y)"
  have "drawn s (fold (\<lambda>y s. copy_row (framebuffer s + vesa_calculate_pixel_offset s dst_x (dst_y + y))
      (framebuffer s + vesa_calculate_pixel_offset s src_x (src_y + y)) (mul32 ?w (bytes_per_pixel s)) s) [0..<?h] s)"
    if "rotation_deg s = 0" "dst_x < ?lw" "dst_y < ?lh"
  proof (rule drawn_fold)
    fix y t assume y: "y \<in> set [0..<?h]" and d: "drawn s t"
    note F = drawn_fields [OF d]
    have "dst_y + y < ?lh" "dst_x + ?w \<le> ?lw" using y that by auto
    note R = row_fits [OF ok that(1) this(1) that(2) this(2)]
    show "drawn t (copy_row (framebuffer t + vesa_calculate_pixel_offset t dst_x (dst_y + y))
      (framebuffer t + vesa_calculate_pixel_offset t src_x (src_y + y)) (mul32 ?w (bytes_per_pixel t)) t)"
      using R(2,3) by (intro copy_row_drawn) (simp_all add: F mul32_eq)
  qed
  moreover have "drawn s (put_pixels [0..<?h] [0..<?w] (\<lambda>x y s. vesa_put_pixel (dst_x + x) (dst_y + y) (vesa_get_pixel (src_x + x) (src_y + y) s) s) s)"
    by (rule put_pixels_drawn [OF ok copy_pixel_drawn])
  ultimately show ?thesis unfolding vesa_copy_rect_def Let_def using drawn_refl by auto
qed

lemma move_rows_drawn:
  assumes ok: "vesa_ok s" and ys: "\<forall>y \<in> set ys. y < vesa_logical_height s"
  shows "drawn s (move_rows ys from s)"
proof -
  have "drawn s (fold (\<lambda>y s. copy_row (framebuffer s + vesa_calculate_pixel_offset s 0 y) (framebuffer s + vesa_calculate_pixel_offset s 0 (from y))
             (mul32 (vesa_logical_width s) (bytes_per_pixel s)) s) ys s)" if "rotation_deg s = 0"
  proof (rule drawn_fold)
    fix y t assume y: "y \<in> set ys" and d: "drawn s t"
    note F = drawn_fields [OF d]
    show "drawn t (copy_row (framebuffer t + vesa_calculate_pixel_offset t 0 y) (framebuffer t + vesa_calculate_pixel_offset t 0 (from y))
             (mul32 (vesa_logical_width t) (bytes_per_pixel t)) t)"
    proof (cases "vesa_logical_width s = 0")
      case True
      then show ?thesis by (simp add: F mul32_def copy_row_def drawn_refl)
    next
      case False
      then show ?thesis using row_fits(2,3) [OF ok that, of y 0 "vesa_logical_width s"] ys y
        by (intro copy_row_drawn) (simp_all add: F mul32_eq)
    qed
  qed
  moreover have "drawn s (put_pixels ys [0..<vesa_logical_width s] (\<lambda>x y s. vesa_put_pixel x y (vesa_get_pixel x (from y) s) s) s)"
    by (rule put_pixels_drawn [OF ok copy_pixel_drawn])
  ultimately show ?thesis by (simp add: move_rows_def)
qed

lemma scroll_drawn:
  assumes ok: "vesa_ok s"
  shows "drawn s (vesa_scroll dx dy color s)"
proof -
  have lw: "0 + vesa_logical_width s < 2 ^ 32" using ok by (auto simp: vesa_ok_def vesa_logical_width_def vesa_phys_width_def vesa_phys_height_def)
  have "drawn s (vesa_fill_rect 0 y (vesa_logical_width s) h color (move_rows ys from s))" if "\<forall>y \<in> set ys. y < vesa_logical_height s" for y h ys "from"
  proof -
    note d = move_rows_drawn [OF ok that, of "from"]
    then have "vesa_ok (move_rows ys from s)" using ok drawn_fields(7) by simp
    from fill_rect_drawn [OF this lw] show ?thesis by (rule drawn_trans [OF d])
  qed
  note rows = this
  have "\<forall>y \<in> set [0..<vesa_logical_height s - k]. y < vesa_logical_height s" "\<forall>y \<in> set (rev [k..<vesa_logical_height s]). y < vesa_logical_height s" for k
    by auto
  then show ?thesis unfolding vesa_scroll_def Let_def using drawn_refl clear_drawn [OF ok] rows by (simp add: rows)
qed


subsection \<open>The fast way to fill a rectangle\<close>

lemma store_word_pixel:
  assumes "bytes_per_pixel s = 4"
  shows "store_pixel s a v = s\<lparr>vs_mem := store32 (vs_mem s) a v\<rparr>"
  using assms by (simp add: store_pixel_def le32_def store32_def put_bytes_Cons numeral_3_eq_3 add.assoc)

lemma row_of_pixels:
  assumes "vesa_ok s" "rotation_deg s = 0" "bytes_per_pixel s = 4" "y < vesa_logical_height s" "x + n \<le> vesa_logical_width s"
  shows "store_words (framebuffer s + vesa_calculate_pixel_offset s x y) n (packed_color s color) s = fold (\<lambda>cx. vesa_put_pixel cx y color) [x..<x + n] s"
  using assms(5)
proof (induction n)
  case (Suc n)
  let ?t = "fold (\<lambda>cx. vesa_put_pixel cx y color) [x..<x + n] s"
  let ?a = "framebuffer s + vesa_calculate_pixel_offset s x y"
  have IH: "store_words ?a n (packed_color s color) s = ?t" using Suc by simp
  have d: "drawn s ?t"
  proof (rule drawn_fold)
    fix cx t assume "drawn s t"
    then show "drawn t (vesa_put_pixel cx y color t)" using assms(1) drawn_fields(7) put_pixel_drawn by simp
  qed
  note F = drawn_fields [OF d]
  have o: "vesa_calculate_pixel_offset s (x + n) y = vesa_calculate_pixel_offset s x y + 4 * n"
    using row_fits(1) [OF assms(1,2,4), of x 1] row_fits(1) [OF assms(1,2,4), of "x + n" 1] Suc.prems assms(3) by simp
  have "vesa_put_pixel (x + n) y color ?t = ?t\<lparr>vs_mem := store32 (vs_mem ?t) (?a + 4 * n) (packed_color s color)\<rparr>"
    using Suc.prems assms vesa_ok_init [OF assms(1)] by (simp add: vesa_put_pixel_def F store_word_pixel o add.assoc)
  moreover have "store_words ?a (Suc n) (packed_color s color) s =
      (store_words ?a n (packed_color s color) s)\<lparr>vs_mem := store32 (vs_mem (store_words ?a n (packed_color s color) s)) (?a + 4 * n) (packed_color s color)\<rparr>"
    by (simp add: store_words_def)
  ultimately show ?case using IH by simp
qed (simp add: store_words_def)


subsection \<open>Pixels are read back\<close>

definition quantized :: "nat \<Rightarrow> nat \<Rightarrow> nat" where
  "quantized v mask_bits = scale_component_from_mask (scale_component_to_mask v mask_bits) mask_bits"

text \<open>The color that a pixel set to \<open>color\<close> shows.\<close>

definition shown :: "vesa_mode \<Rightarrow> nat \<Rightarrow> nat" where
  "shown mi color = (case vesa_extract_color color of (r, g, b, a) \<Rightarrow>
     vesa_argb (quantized a (mi_reserved_mask mi)) (quantized r (mi_red_mask mi)) (quantized g (mi_green_mask mi)) (quantized b (mi_blue_mask mi)))"

text \<open>The fields of a pixel have at most eight bits, lie in the pixel and apart from each other.\<close>

definition apart :: "nat \<Rightarrow> nat \<Rightarrow> nat \<Rightarrow> nat \<Rightarrow> bool" where
  "apart p m q n \<longleftrightarrow> p + m \<le> q \<or> q + n \<le> p"

definition fields_ok :: "vesa_mode \<Rightarrow> nat \<Rightarrow> bool" where
  "fields_ok mi b \<longleftrightarrow> mi_red_mask mi \<le> 8 \<and> mi_green_mask mi \<le> 8 \<and> mi_blue_mask mi \<le> 8 \<and> mi_reserved_mask mi \<le> 8 \<and>
     mi_red_position mi + mi_red_mask mi \<le> 8 * b \<and> mi_green_position mi + mi_green_mask mi \<le> 8 * b \<and>
     mi_blue_position mi + mi_blue_mask mi \<le> 8 * b \<and> mi_reserved_position mi + mi_reserved_mask mi \<le> 8 * b \<and>
     apart (mi_red_position mi) (mi_red_mask mi) (mi_green_position mi) (mi_green_mask mi) \<and>
     apart (mi_red_position mi) (mi_red_mask mi) (mi_blue_position mi) (mi_blue_mask mi) \<and>
     apart (mi_red_position mi) (mi_red_mask mi) (mi_reserved_position mi) (mi_reserved_mask mi) \<and>
     apart (mi_green_position mi) (mi_green_mask mi) (mi_blue_position mi) (mi_blue_mask mi) \<and>
     apart (mi_green_position mi) (mi_green_mask mi) (mi_reserved_position mi) (mi_reserved_mask mi) \<and>
     apart (mi_blue_position mi) (mi_blue_mask mi) (mi_reserved_position mi) (mi_reserved_mask mi)"

lemma to_mask_less:
  assumes "v < 256" "m \<le> 8"
  shows "scale_component_to_mask v m < 2 ^ m"
proof (cases "m = 0 \<or> m = 8")
  case True
  then show ?thesis using assms(1) by (auto simp: scale_component_to_mask_def)
next
  case False
  then have "v * (2 ^ m - 1) + 127 \<le> 255 * (2 ^ m - 1) + 127" using assms(1) by (intro add_mono mult_le_mono) simp_all
  then have "(v * (2 ^ m - 1) + 127) div 255 \<le> (255 * (2 ^ m - 1) + 127) div 255" by (rule div_le_mono)
  also have "\<dots> = 2 ^ m - 1" by simp
  also have "\<dots> < 2 ^ m" by simp
  finally show ?thesis using False assms(2) by (simp add: scale_component_to_mask_def)
qed

lemma bit_less: "k < 2 ^ m \<Longrightarrow> bit k i \<Longrightarrow> i < m" for k :: nat
  by (metis bit_take_bit_iff take_bit_nat_eq_self)

lemma bits_pack_field:
  assumes "v < 256" "m \<le> 8" "p + m \<le> 32"
  shows "bit (pack_field v m p) i \<longleftrightarrow> p \<le> i \<and> i < p + m \<and> bit (scale_component_to_mask v m) (i - p)"
proof -
  let ?k = "scale_component_to_mask v m"
  have k: "?k < 2 ^ m" by (rule to_mask_less [OF assms(1,2)])
  have "pack_field v m p = take_bit 32 (push_bit p ?k)" using k by (simp add: pack_field_def take_bit_eq_mod)
  then have "bit (pack_field v m p) i \<longleftrightarrow> i < 32 \<and> p \<le> i \<and> bit ?k (i - p)"
    by (auto simp: bit_take_bit_iff bit_push_bit_iff_nat)
  then show ?thesis using bit_less [OF k, of "i - p"] assms(3) by auto
qed

lemma unpack_packed:
  assumes "v < 256" "m \<le> 8" "p + m \<le> 32" "\<And>i. p \<le> i \<Longrightarrow> i < p + m \<Longrightarrow> bit z i \<longleftrightarrow> bit (pack_field v m p) i"
  shows "unpack_field z m p = quantized v m"
proof -
  have "drop_bit p z mod 2 ^ m = scale_component_to_mask v m"
  proof (rule bit_eqI)
    fix i
    have "bit (drop_bit p z mod 2 ^ m) i \<longleftrightarrow> i < m \<and> bit z (p + i)" by (simp add: take_bit_eq_mod [symmetric] bit_take_bit_iff bit_drop_bit_eq)
    also have "\<dots> \<longleftrightarrow> i < m \<and> bit (scale_component_to_mask v m) i" using assms(4) [of "p + i"] bits_pack_field [OF assms(1-3), of "p + i"] by auto
    finally show "bit (drop_bit p z mod 2 ^ m) i \<longleftrightarrow> bit (scale_component_to_mask v m) i" using bit_less [OF to_mask_less [OF assms(1,2)]] by blast
  qed
  then show ?thesis by (simp add: unpack_field_def quantized_def)
qed

lemma extract_less:
  assumes "vesa_extract_color color = (r, g, b, a)"
  shows "r < 256" "g < 256" "b < 256" "a < 256"
  using assms by (auto simp: vesa_extract_color_def)

lemma pack_unpack:
  assumes f: "fields_ok mi n" "n \<le> 4" and v: "r < 256" "g < 256" "b < 256" "a < 256"
  shows "vesa_unpack_color mi (vesa_pack_color mi r g b a) =
      (quantized r (mi_red_mask mi), quantized g (mi_green_mask mi), quantized b (mi_blue_mask mi), quantized a (mi_reserved_mask mi))"
    "vesa_pack_color mi r g b a < 2 ^ (8 * n)"
proof -
  note F = f(1) [unfolded fields_ok_def]
  have rg: "apart (mi_red_position mi) (mi_red_mask mi) (mi_green_position mi) (mi_green_mask mi)"
    and rb: "apart (mi_red_position mi) (mi_red_mask mi) (mi_blue_position mi) (mi_blue_mask mi)"
    and ra: "apart (mi_red_position mi) (mi_red_mask mi) (mi_reserved_position mi) (mi_reserved_mask mi)"
    and gb: "apart (mi_green_position mi) (mi_green_mask mi) (mi_blue_position mi) (mi_blue_mask mi)"
    and ga: "apart (mi_green_position mi) (mi_green_mask mi) (mi_reserved_position mi) (mi_reserved_mask mi)"
    and ba: "apart (mi_blue_position mi) (mi_blue_mask mi) (mi_reserved_position mi) (mi_reserved_mask mi)" using F by blast+
  have n: "8 * n \<le> 32" using f(2) by simp
  have le: "mi_red_position mi + mi_red_mask mi \<le> 32" "mi_green_position mi + mi_green_mask mi \<le> 32"
    "mi_blue_position mi + mi_blue_mask mi \<le> 32" "mi_reserved_position mi + mi_reserved_mask mi \<le> 32" using F n by linarith+
  have m: "mi_red_mask mi \<le> 8" "mi_green_mask mi \<le> 8" "mi_blue_mask mi \<le> 8" "mi_reserved_mask mi \<le> 8" using F by blast+
  note R = bits_pack_field [OF v(1) m(1) le(1)] and G = bits_pack_field [OF v(2) m(2) le(2)] and B = bits_pack_field [OF v(3) m(3) le(3)]
    and A = bits_pack_field [OF v(4) m(4) le(4)]
  have z: "(if mi_reserved_mask mi \<noteq> 0 then pack_field a (mi_reserved_mask mi) (mi_reserved_position mi) else 0) =
      pack_field a (mi_reserved_mask mi) (mi_reserved_position mi)"
    by (simp add: pack_field_def)
  have bits: "bit (vesa_pack_color mi r g b a) i \<longleftrightarrow> bit (pack_field r (mi_red_mask mi) (mi_red_position mi)) i \<or>
     bit (pack_field g (mi_green_mask mi) (mi_green_position mi)) i \<or> bit (pack_field b (mi_blue_mask mi) (mi_blue_position mi)) i \<or>
     bit (pack_field a (mi_reserved_mask mi) (mi_reserved_position mi)) i" for i
    unfolding vesa_pack_color_def z by (simp add: bit_or_iff)
  have "unpack_field (vesa_pack_color mi r g b a) (mi_red_mask mi) (mi_red_position mi) = quantized r (mi_red_mask mi)"
    by (rule unpack_packed [OF v(1) m(1) le(1)]) (use rg rb ra in \<open>auto simp: bits R G B A apart_def\<close>)
  moreover have "unpack_field (vesa_pack_color mi r g b a) (mi_green_mask mi) (mi_green_position mi) = quantized g (mi_green_mask mi)"
    by (rule unpack_packed [OF v(2) m(2) le(2)]) (use rg gb ga in \<open>auto simp: bits R G B A apart_def\<close>)
  moreover have "unpack_field (vesa_pack_color mi r g b a) (mi_blue_mask mi) (mi_blue_position mi) = quantized b (mi_blue_mask mi)"
    by (rule unpack_packed [OF v(3) m(3) le(3)]) (use rb gb ba in \<open>auto simp: bits R G B A apart_def\<close>)
  moreover have "unpack_field (vesa_pack_color mi r g b a) (mi_reserved_mask mi) (mi_reserved_position mi) = quantized a (mi_reserved_mask mi)"
    by (rule unpack_packed [OF v(4) m(4) le(4)]) (use ra ga ba in \<open>auto simp: bits R G B A apart_def\<close>)
  ultimately show "vesa_unpack_color mi (vesa_pack_color mi r g b a) =
      (quantized r (mi_red_mask mi), quantized g (mi_green_mask mi), quantized b (mi_blue_mask mi), quantized a (mi_reserved_mask mi))"
    by (simp add: vesa_unpack_color_def)
  have "take_bit (8 * n) (vesa_pack_color mi r g b a) = vesa_pack_color mi r g b a"
    by (rule bit_eqI) (use F in \<open>auto simp: bit_take_bit_iff bits R G B A\<close>)
  then show "vesa_pack_color mi r g b a < 2 ^ (8 * n)" by (simp add: take_bit_nat_eq_self_iff)
qed

lemma pixel_stored:
  assumes "1 \<le> bytes_per_pixel s" "bytes_per_pixel s \<le> 4" "v < 2 ^ (8 * bytes_per_pixel s)"
  shows "load_pixel (store_pixel s a v) a = v"
proof -
  let ?b = "bytes_per_pixel s"
  let ?m = "\<lambda>i. if i < a + ?b then put_bytes (vs_mem s) a (take ?b (le32 v)) i else NUL"
  have zero: "char_of (0 :: nat) = NUL" by (simp add: char_of_def)
  have "?m (a + i) = le32 v ! i" if "i < 4" for i
  proof (cases "i < ?b")
    case True
    then show ?thesis using assms(2) by (simp add: put_bytes_inside)
  next
    case False
    have "?b = 1 \<or> ?b = 2 \<or> ?b = 3" "i = 1 \<or> i = 2 \<or> i = 3" using assms(1) False that by linarith+
    then show ?thesis using False assms(3) by (auto simp: le32_def zero)
  qed
  then have "bytes_at ?m a (le32 v)" by (simp add: bytes_at_nth)
  moreover have "v < 2 ^ 32"
  proof -
    have "(2 :: nat) ^ (8 * ?b) \<le> 2 ^ 32" using assms(2) by (intro power_increasing) simp_all
    then show ?thesis using assms(3) by simp
  qed
  ultimately have "load32 ?m a = v" by (rule load32_le32)
  then show ?thesis using assms(2) by (simp add: load_pixel_def store_pixel_def cong: if_cong)
qed

lemma pixel_kept:
  assumes "c + bytes_per_pixel s \<le> a \<or> a + bytes_per_pixel s \<le> c"
  shows "load_pixel (store_pixel s a v) c = load_pixel s c"
proof (cases "bytes_per_pixel s \<le> 4")
  case True
  have "put_bytes (vs_mem s) a (take (bytes_per_pixel s) (le32 v)) i = vs_mem s i" if "c \<le> i" "i < c + bytes_per_pixel s" for i
    using assms that True by (intro put_bytes_outside) auto
  then show ?thesis using True by (auto simp: load_pixel_def store_pixel_def intro!: load32_cong)
qed (simp add: store_pixel_def)

text \<open>C28: A pixel shows the color that it was set to, as far as the mode can represent it, and no other pixel changes.\<close>

theorem pixel_read_back:
  assumes "vesa_ok s" "fields_ok (mode_info s) (bytes_per_pixel s)" "on_screen s x y"
  shows "vesa_get_pixel x y (vesa_put_pixel x y color s) = shown (mode_info s) color \<and>
    (\<forall>x' y'. on_screen s x' y' \<longrightarrow> (x', y') \<noteq> (x, y) \<longrightarrow> vesa_get_pixel x' y' (vesa_put_pixel x y color s) = vesa_get_pixel x' y' s)"
proof (intro conjI allI impI)
  let ?s' = "vesa_put_pixel x y color s" and ?a = "\<lambda>x y. framebuffer s + vesa_calculate_pixel_offset s x y"
  have b: "1 \<le> bytes_per_pixel s" "bytes_per_pixel s \<le> 4" using assms(1) by (simp_all add: vesa_ok_def)
  note F = drawn_fields [OF put_pixel_drawn [OF assms(1), of x y color]]
  have s': "?s' = store_pixel s (?a x y) (packed_color s color)"
    using assms(3) vesa_ok_init [OF assms(1)] by (simp add: vesa_put_pixel_def on_screen_def)
  obtain r g bl al where e: "vesa_extract_color color = (r, g, bl, al)" by (cases "vesa_extract_color color")
  note P = pack_unpack [OF assms(2) b(2) extract_less [OF e]]
  have pk: "packed_color s color = vesa_pack_color (mode_info s) r g bl al" by (simp add: packed_color_def e)
  have get: "vesa_get_pixel u w t = (case vesa_unpack_color (mode_info s) (load_pixel t (?a u w)) of (r, g, b, a) \<Rightarrow> vesa_argb a r g b)"
    if "on_screen s u w" "t = s \<or> t = ?s'" for u w t
    using that vesa_ok_init [OF assms(1)] b F by (auto simp: vesa_get_pixel_def on_screen_def)
  show "vesa_get_pixel x y ?s' = shown (mode_info s) color"
    using get [OF assms(3), of ?s'] P(1) pixel_stored [OF b P(2)] by (simp add: s' pk shown_def e)
  fix x' y' assume o: "on_screen s x' y'" and ne: "(x', y') \<noteq> (x, y)"
  have "load_pixel ?s' (?a x' y') = load_pixel s (?a x' y')"
    unfolding s' using offset_apart [OF assms(1) o assms(3) ne] by (intro pixel_kept) auto
  then show "vesa_get_pixel x' y' ?s' = vesa_get_pixel x' y' s" using get [OF o, of ?s'] get [OF o, of s] by simp
qed

text \<open>With eight bits for each component every color is shown as it is.\<close>

lemma shown_true_color:
  assumes "mi_red_mask mi = 8" "mi_green_mask mi = 8" "mi_blue_mask mi = 8" "mi_reserved_mask mi = 8" "color < 2 ^ 32"
  shows "shown mi color = color"
proof -
  have q: "quantized v 8 = v" if "v < 256" for v using that by (simp add: quantized_def scale_component_from_mask_def scale_component_to_mask_def)
  have parts: "color div 65536 mod 256 = take_bit 8 (drop_bit 16 color)" "color div 256 mod 256 = take_bit 8 (drop_bit 8 color)"
    "color mod 256 = take_bit 8 color" "color div 16777216 mod 256 = take_bit 8 (drop_bit 24 color)"
    by (simp_all add: take_bit_eq_mod drop_bit_eq_div)
  have "shown mi color = vesa_argb (take_bit 8 (drop_bit 24 color)) (take_bit 8 (drop_bit 16 color)) (take_bit 8 (drop_bit 8 color)) (take_bit 8 color)"
    using assms(1-4) q by (simp add: shown_def vesa_extract_color_def parts [symmetric])
  also have "\<dots> = color"
  proof (rule bit_eqI)
    fix i
    have "bit color i \<Longrightarrow> i < 32" by (rule bit_less [OF assms(5)])
    then show "bit (vesa_argb (take_bit 8 (drop_bit 24 color)) (take_bit 8 (drop_bit 16 color)) (take_bit 8 (drop_bit 8 color)) (take_bit 8 color)) i \<longleftrightarrow> bit color i"
      by (cases "i < 8"; cases "i < 16"; cases "i < 24") (auto simp: vesa_argb_def bit_or_iff bit_push_bit_iff_nat bit_take_bit_iff bit_drop_bit_eq)
  qed
  finally show ?thesis .
qed

subsection \<open>Instances\<close>

text \<open>A screen of 4 by 3 pixels with 32 bits each.\<close>

definition demo_mode :: vesa_mode where
  "demo_mode = \<lparr>mi_attributes = 0x91, mi_pitch = 20, mi_width = 4, mi_height = 3, mi_bpp = 32, mi_memory_model = 6, mi_red_mask = 8, mi_red_position = 16,
     mi_green_mask = 8, mi_green_position = 8, mi_blue_mask = 8, mi_blue_position = 0, mi_reserved_mask = 8, mi_reserved_position = 24,
     mi_framebuffer = 0xE0000000\<rparr>"

definition demo_screen :: vesa_state where
  "demo_screen = \<lparr>vi_signature = ''VESA'', mode_info = demo_mode, framebuffer = 0xE0000000, vesa_initialized = True, bytes_per_pixel = 4,
     rotation_deg = 0, vs_mem = (\<lambda>_. NUL)\<rparr>"

lemma demo_screen_ok: "vesa_ok demo_screen"
  by (simp add: vesa_ok_def demo_screen_def demo_mode_def)



theorem pixel_read_back_witness: "vesa_get_pixel 2 1 (vesa_put_pixel 2 1 0x00FF8040 demo_screen) = 0x00FF8040"
proof -
  have "fields_ok (mode_info demo_screen) (bytes_per_pixel demo_screen)" by (simp add: fields_ok_def apart_def demo_screen_def demo_mode_def)
  moreover have "on_screen demo_screen 2 1"
    by (simp add: on_screen_def vesa_logical_width_def vesa_logical_height_def vesa_phys_width_def vesa_phys_height_def demo_screen_def demo_mode_def)
  moreover have "shown (mode_info demo_screen) 0x00FF8040 = 0x00FF8040" by (rule shown_true_color) (simp_all add: demo_screen_def demo_mode_def)
  ultimately show ?thesis using pixel_read_back [OF demo_screen_ok, of 2 1 "0x00FF8040"] by simp
qed

end
