(* ===== verification/Psf.thy ===== *)
theory Psf
  imports Vesa_Props
begin

section \<open>Fonts\<close>

text \<open>
  Model of \<^verbatim>\<open>src/kernel/drivers/fonts/psf.c\<close> and \<^verbatim>\<open>font_renderer.c\<close>: PSF fonts of both versions in memory, and drawing their
  glyphs.  A font is given as the record of its fields, with the address of the object; the messages on the
  serial line are left out.  The memory with the glyphs is an argument of the drawing functions: the frame buffer lies elsewhere.
\<close>

record psf_font =
  pf_version :: nat
  pf_num_glyphs :: nat
  pf_glyph_size :: nat
  pf_height :: nat
  pf_width :: nat
  pf_data :: addr
  pf_raw_data :: addr
  pf_has_unicode_table :: bool
  pf_unicode_table :: addr

abbreviation (input) sizeof_psf_font :: nat where "sizeof_psf_font \<equiv> 36"
abbreviation (input) sizeof_psf1_header :: nat where "sizeof_psf1_header \<equiv> 4"
abbreviation (input) sizeof_psf2_header :: nat where "sizeof_psf2_header \<equiv> 32"

definition font_byte :: "mem \<Rightarrow> addr \<Rightarrow> nat" where
  "font_byte m a = of_char (m a)"

subsection \<open>Reading a font\<close>

definition is_psf1 :: "mem \<Rightarrow> addr \<Rightarrow> bool" where
  "is_psf1 m data \<longleftrightarrow> font_byte m data = 0x36 \<and> font_byte m (data + 1) = 0x04"

definition psf_verify_magic :: "mem \<Rightarrow> addr \<Rightarrow> bool" where
  "psf_verify_magic m data \<longleftrightarrow> is_psf1 m data \<or>
     font_byte m data = 0x72 \<and> font_byte m (data + 1) = 0xb5 \<and> font_byte m (data + 2) = 0x4a \<and> font_byte m (data + 3) = 0x86"

definition zero_font :: psf_font where
  "zero_font = \<lparr>pf_version = 0, pf_num_glyphs = 0, pf_glyph_size = 0, pf_height = 0, pf_width = 0, pf_data = 0, pf_raw_data = 0,
     pf_has_unicode_table = False, pf_unicode_table = 0\<rparr>"

definition psf_fill_from_psf1 :: "mem \<Rightarrow> addr \<Rightarrow> psf_font \<Rightarrow> psf_font" where
  "psf_fill_from_psf1 m base font =
     font\<lparr>pf_version := 1, pf_num_glyphs := (if odd (font_byte m (base + 2)) then 512 else 256), pf_glyph_size := font_byte m (base + 3),
       pf_height := font_byte m (base + 3), pf_width := 8, pf_data := add32 base sizeof_psf1_header\<rparr>"

definition psf2_headersize :: "mem \<Rightarrow> addr \<Rightarrow> nat" where
  "psf2_headersize m base = load32 m (base + 8)"

definition psf_fill_from_psf2 :: "mem \<Rightarrow> addr \<Rightarrow> psf_font \<Rightarrow> psf_font" where
  "psf_fill_from_psf2 m base font =
     (let f = font\<lparr>pf_version := 2, pf_num_glyphs := load32 m (base + 16), pf_glyph_size := load32 m (base + 20),
                pf_height := load32 m (base + 24), pf_width := load32 m (base + 28), pf_data := add32 base (psf2_headersize m base),
                pf_has_unicode_table := odd (load32 m (base + 12))\<rparr> in
      if pf_has_unicode_table f then f\<lparr>pf_unicode_table := add32 (pf_data f) (mul32 (pf_num_glyphs f) (pf_glyph_size f))\<rparr> else f)"

definition psf_payload_is_valid :: "psf_font \<Rightarrow> nat \<Rightarrow> bool" where
  "psf_payload_is_valid font total_size \<longleftrightarrow>
     (let data_off = sub32 (pf_data font) (pf_raw_data font); glyph_bytes = mul32 (pf_num_glyphs font) (pf_glyph_size font) in
      pf_data font \<noteq> 0 \<and> pf_width font \<noteq> 0 \<and> pf_height font \<noteq> 0 \<and> pf_num_glyphs font \<noteq> 0 \<and> pf_glyph_size font \<noteq> 0 \<and>
      glyph_bytes \<le> total_size \<and> data_off \<le> total_size - glyph_bytes \<and>
      pf_glyph_size font \<ge> mul32 (add32 (pf_width font) 7 div 8) (pf_height font))"

text \<open>The header of either version; \<open>None\<close> when the data ends before it does.\<close>

definition psf_fill :: "mem \<Rightarrow> addr \<Rightarrow> nat \<Rightarrow> psf_font option" where
  "psf_fill m data sz =
     (let font = zero_font\<lparr>pf_raw_data := data\<rparr> in
      if is_psf1 m data then (if sz < sizeof_psf1_header then None else Some (psf_fill_from_psf1 m data font))
      else if sz < sizeof_psf2_header \<or> psf2_headersize m data > sz then None
      else Some (psf_fill_from_psf2 m data font))"

text \<open>The object of the font is released again when the data is not a font.\<close>

definition psf_parse_data :: "addr \<Rightarrow> nat \<Rightarrow> mm_state \<Rightarrow> ((addr \<times> psf_font) option \<times> mm_state) option" where
  "psf_parse_data data sz h =
     (if data = 0 \<or> sz < 4 then Some (None, h)
      else if \<not> psf_verify_magic (mm_mem h) data then Some (None, h)
      else do {
        (a, h1) \<leftarrow> valloc h sizeof_psf_font;
        if a = 0 then Some (None, h1)
        else (case psf_fill (mm_mem h1) data sz of
            None \<Rightarrow> map_option (\<lambda>h2. (None, h2)) (vfree h1 a)
          | Some font \<Rightarrow>
              if psf_payload_is_valid font sz then Some (Some (a, font), h1)
              else map_option (\<lambda>h2. (None, h2)) (vfree h1 a)) })"

definition psf_try_info :: "addr \<Rightarrow> string \<Rightarrow> fstate \<Rightarrow> inode option option" where
  "psf_try_info fs path s =
     (if path = [] \<or> hd path \<noteq> CHR ''/'' then Some None
      else do {
        info \<leftarrow> memfs_get_info fs path s;
        (case info of
           None \<Rightarrow> Some None
         | Some i \<Rightarrow> (case i_body i of
               File_body n a \<Rightarrow> Some (if i_type i \<noteq> MEMFS_TYPE_FILE \<or> n = 0 then None else Some i)
             | _ \<Rightarrow> Some None)) })"

text \<open>Two objects given back.\<close>

definition vfree_all :: "addr list \<Rightarrow> fstate \<Rightarrow> fstate option" where
  "vfree_all as s = fold (\<lambda>a st. Option.bind st (fs_vfree a)) as (Some s)"

definition psf_from_copy :: "addr \<Rightarrow> nat \<Rightarrow> fstate \<Rightarrow> ((addr \<times> psf_font) option \<times> fstate) option" where
  "psf_from_copy font_data font_size s =
     (if font_size < 4 \<or> \<not> psf_verify_magic (mm_mem (fs_mm s)) font_data then map_option (\<lambda>s. (None, s)) (vfree_all [font_data] s)
      else do {
        (a, h) \<leftarrow> valloc (fs_mm s) sizeof_psf_font;
        let s1 = s\<lparr>fs_mm := h\<rparr>;
        if a = 0 then map_option (\<lambda>s. (None, s)) (vfree_all [font_data] s1)
        else (case psf_fill (mm_mem h) font_data font_size of
            None \<Rightarrow> map_option (\<lambda>s. (None, s)) (vfree_all [font_data, a] s1)
          | Some font \<Rightarrow>
              if psf_payload_is_valid font font_size then Some (Some (a, font), s1)
              else map_option (\<lambda>s. (None, s)) (vfree_all [font_data, a] s1)) })"

definition psf_load_from_memfs :: "addr \<Rightarrow> string \<Rightarrow> fstate \<Rightarrow> ((addr \<times> psf_font) option \<times> fstate) option" where
  "psf_load_from_memfs fs path s =
     (if fs = 0 then Some (None, s)
      else do {
        info \<leftarrow> psf_try_info fs path s;
        (case info of
           None \<Rightarrow> Some (None, s)
         | Some i \<Rightarrow> do {
             let n = f_size (i_body i);
             let data = f_data (i_body i);
             (copy, h) \<leftarrow> valloc (fs_mm s) n;
             let s1 = s\<lparr>fs_mm := h\<rparr>;
             if copy = 0 then Some (None, s1)
             else if data \<noteq> 0 then psf_from_copy copy n (fs_put copy (fs_get s1 data n) s1)
             else do {
               (r, s2) \<leftarrow> memfs_read fs path n s1;
               (case r of
                  Ret (k, bs) \<Rightarrow>
                    if k < 0 \<or> k \<noteq> int n then map_option (\<lambda>s. (None, s)) (vfree_all [copy] (fs_put copy bs s2))
                    else psf_from_copy copy n (fs_put copy bs s2)
                | Dev_call f c \<Rightarrow> None) } }) })"

definition psf_free_font :: "addr \<Rightarrow> psf_font \<Rightarrow> mm_state \<Rightarrow> mm_state option" where
  "psf_free_font a font h =
     (if a = 0 then Some h
      else do { h1 \<leftarrow> (if pf_raw_data font \<noteq> 0 then vfree h (pf_raw_data font) else Some h); vfree h1 a })"

subsection \<open>Drawing\<close>

definition font_get_glyph :: "psf_font \<Rightarrow> byte \<Rightarrow> addr" where
  "font_get_glyph font c =
     (if pf_data font = 0 then 0
      else if of_char c \<ge> pf_num_glyphs font then pf_data font
      else add32 (pf_data font) (mul32 (of_char c) (pf_glyph_size font)))"

text \<open>The address of the byte with the bit of a pixel.\<close>

definition glyph_byte :: "psf_font \<Rightarrow> byte \<Rightarrow> nat \<Rightarrow> nat \<Rightarrow> addr" where
  "glyph_byte font c row col =
     add32 (font_get_glyph font c) (add32 (mul32 row (add32 (pf_width font) 7 div 8)) (col div 8))"

definition font_draw_char :: "mem \<Rightarrow> psf_font \<Rightarrow> nat \<Rightarrow> nat \<Rightarrow> byte \<Rightarrow> nat \<Rightarrow> vesa_state \<Rightarrow> vesa_state" where
  "font_draw_char m font x y c color s =
     (if \<not> vesa_is_initialized s \<or> font_get_glyph font c = 0 then s
      else put_pixels [0..<pf_height font] [0..<pf_width font]
        (\<lambda>col row s. if odd (font_byte m (glyph_byte font c row col) div 2 ^ (7 - col mod 8))
                       then vesa_put_pixel (add32 x col) (add32 y row) color s else s) s)"

text \<open>The loop of \<^verbatim>\<open>font_draw_string\<close> with the current place.\<close>

fun draw_string_loop :: "mem \<Rightarrow> psf_font \<Rightarrow> nat \<Rightarrow> nat \<Rightarrow> nat \<Rightarrow> nat \<Rightarrow> string \<Rightarrow> vesa_state \<Rightarrow> vesa_state" where
  "draw_string_loop m font x color cx cy [] s = s"
| "draw_string_loop m font x color cx cy (c # cs) s =
     (let w = pf_width font; h = pf_height font; w4 = mul32 w 4 in
      if c = CHR 10 then draw_string_loop m font x color x (add32 cy h) cs s
      else if c = CHR 13 then draw_string_loop m font x color x cy cs s
      else if c = CHR 9 then draw_string_loop m font x color (add32 (mul32 (add32 (sub32 cx x div w4) 1) w4) x) cy cs s
      else if c = CHR 8 then
        (if cx > add32 x w then draw_string_loop m font x color (sub32 cx w) cy cs (font_draw_char m font (sub32 cx w) cy CHR '' '' color s)
         else draw_string_loop m font x color cx cy cs s)
      else let (cx1, cy1) = (if add32 cx w > vesa_get_width s then (x, add32 cy h) else (cx, cy)) in
        if add32 cy1 h > vesa_get_height s then s
        else draw_string_loop m font x color (add32 cx1 w) cy1 cs (font_draw_char m font cx1 cy1 c color s))"

definition font_draw_string :: "mem \<Rightarrow> psf_font \<Rightarrow> nat \<Rightarrow> nat \<Rightarrow> string \<Rightarrow> nat \<Rightarrow> vesa_state \<Rightarrow> vesa_state" where
  "font_draw_string m font x y str fg_color s =
     (if \<not> vesa_is_initialized s then s else draw_string_loop m font x fg_color x y (takeWhile ((\<noteq>) NUL) str) s)"

subsection \<open>Glyphs lie in the file\<close>

lemma font_draw_char_drawn: "vesa_ok s \<Longrightarrow> drawn s (font_draw_char m font x y c color s)"
  unfolding font_draw_char_def by (auto simp: drawn_refl put_pixel_drawn intro!: put_pixels_drawn)


text \<open>The condition is needed: a header whose sizes multiply to \<open>2 ^ 32\<close> is accepted, and its glyphs lie far behind the data.\<close>

lemma wrapping_font_accepted:
  "psf_payload_is_valid \<lparr>pf_version = 2, pf_num_glyphs = 0x10000, pf_glyph_size = 0x10000, pf_height = 16, pf_width = 8, pf_data = 0x200020,
     pf_raw_data = 0x200000, pf_has_unicode_table = False, pf_unicode_table = 0\<rparr> 32"
  by (simp add: psf_payload_is_valid_def mul32_def sub32_def add32_def)


end
