(* ===== verification/Tty.thy ===== *)
theory Tty
  imports Vga Psf Serial Keyboard Tasks Devfs
begin

unbundle bit_operations_syntax

section \<open>Terminals\<close>

text \<open>
  Model of the output half of \<^verbatim>\<open>src/kernel/drivers/tty.c\<close>: eight screen terminals with their cells, which are shown on the
  frame buffer or in text mode when they are active, the escape sequences, scrolling, the history of lines, the hot keys, the
  messages of the kernel and the control calls.  A pointer to a terminal is its index in \<open>g_tty_v\<close>.  The cells and the
  history of a terminal are lists of bytes, \<open>None\<close> while no memory has been allocated for them; the glyphs of the font lie in the memory
  of the file system.  Functions that write to the serial line return \<open>None\<close> when the line never gets ready.
\<close>

definition VESA_TTY_COUNT :: nat where "VESA_TTY_COUNT = 8"
definition SERIAL_TTY_COUNT :: nat where "SERIAL_TTY_COUNT = 1"
definition TTY_HISTORY_MAX :: nat where "TTY_HISTORY_MAX = 32"
definition TTY_HISTORY_LINE_MAX :: nat where "TTY_HISTORY_LINE_MAX = 1024"

definition KEY_HOME :: u8 where "KEY_HOME = 0x47"
definition KEY_UP :: u8 where "KEY_UP = 0x48"
definition KEY_RIGHT :: u8 where "KEY_RIGHT = 0x4D"
definition KEY_DOWN :: u8 where "KEY_DOWN = 0x50"
definition KEY_DEL :: u8 where "KEY_DEL = 0x53"

definition DEV_IOCTL_TTY_GET_INFO :: nat where "DEV_IOCTL_TTY_GET_INFO = 0x1100"
definition DEV_IOCTL_TTY_SET_ACTIVE :: nat where "DEV_IOCTL_TTY_SET_ACTIVE = 0x1101"
definition DEV_IOCTL_TTY_GET_ACTIVE :: nat where "DEV_IOCTL_TTY_GET_ACTIVE = 0x1102"
definition DEV_IOCTL_TTY_SET_FG_PID :: nat where "DEV_IOCTL_TTY_SET_FG_PID = 0x1103"
definition DEV_IOCTL_TTY_GET_FG_PID :: nat where "DEV_IOCTL_TTY_GET_FG_PID = 0x1104"
definition DEV_TTY_KIND_VESA :: nat where "DEV_TTY_KIND_VESA = 0"
definition DEV_TTY_KIND_SERIAL :: nat where "DEV_TTY_KIND_SERIAL = 1"

datatype tty_type = TTY_VESA | TTY_SERIAL | TTY_VGA

record tty_device =
  tt_type :: tty_type
  tt_index :: nat
  tt_cursor_x :: nat
  tt_cursor_y :: nat
  tt_cols :: nat
  tt_rows :: nat
  tt_cells :: "string option"
  tt_history :: "string option"
  tt_history_count :: nat
  tt_history_next :: nat
  tt_ansi_state :: nat
  tt_ansi_param :: nat
  tt_ansi_have_param :: bool
  tt_fg_pid :: int

record tsys =
  g_tty_v :: "tty_device list"
  g_tty_s :: "tty_device list"
  g_active_tty :: nat
  g_font :: "psf_font option"
  g_char_w :: nat
  g_char_h :: nat
  g_fg :: nat
  g_bg :: nat
  g_tty_ready :: bool
  ts_vga :: vga_state
  ts_vesa :: vesa_state
  ts_kbd :: kbd
  ts_power :: power_state
  ts_io :: port_io
  ts_dev :: dstate
  ts_k :: kstate

definition g_serial_ports :: "nat list" where "g_serial_ports = [0x3F8]"

abbreviation tty :: "tsys \<Rightarrow> nat \<Rightarrow> tty_device" where
  "tty s i \<equiv> g_tty_v s ! i"

definition upd_tty :: "nat \<Rightarrow> (tty_device \<Rightarrow> tty_device) \<Rightarrow> tsys \<Rightarrow> tsys" where
  "upd_tty i f s = s\<lparr>g_tty_v := (g_tty_v s)[i := f (tty s i)]\<rparr>"

definition on_vga :: "(vga_state \<Rightarrow> vga_state) \<Rightarrow> tsys \<Rightarrow> tsys" where
  "on_vga f s = s\<lparr>ts_vga := f (ts_vga s)\<rparr>"

definition on_vesa :: "(vesa_state \<Rightarrow> vesa_state) \<Rightarrow> tsys \<Rightarrow> tsys" where
  "on_vesa f s = s\<lparr>ts_vesa := f (ts_vesa s)\<rparr>"

definition is_active :: "nat \<Rightarrow> tsys \<Rightarrow> bool" where
  "is_active i s \<longleftrightarrow> tt_index (tty s i) = g_active_tty s"

text \<open>The cell at a place, and a cell overwritten.\<close>

definition cell_index :: "tty_device \<Rightarrow> nat \<Rightarrow> nat \<Rightarrow> nat" where
  "cell_index d x y = add32 (mul32 y (tt_cols d)) x"

definition cell_at :: "tty_device \<Rightarrow> nat \<Rightarrow> nat \<Rightarrow> byte" where
  "cell_at d x y = (case tt_cells d of None \<Rightarrow> NUL | Some cs \<Rightarrow> cs ! cell_index d x y)"

definition set_cell :: "nat \<Rightarrow> nat \<Rightarrow> byte \<Rightarrow> tty_device \<Rightarrow> tty_device" where
  "set_cell x y c d = d\<lparr>tt_cells := map_option (\<lambda>cs. cs[cell_index d x y := c]) (tt_cells d)\<rparr>"

subsection \<open>Drawing\<close>

definition glyph_table :: "(byte \<times> nat list) list" where
  "glyph_table =
    [(CHR ''A'', [14,17,17,31,17,17,17]), (CHR ''B'', [30,17,17,30,17,17,30]), (CHR ''C'', [14,17,16,16,16,17,14]),
     (CHR ''D'', [30,17,17,17,17,17,30]), (CHR ''E'', [31,16,16,30,16,16,31]), (CHR ''F'', [31,16,16,30,16,16,16]),
     (CHR ''G'', [14,17,16,23,17,17,14]), (CHR ''H'', [17,17,17,31,17,17,17]), (CHR ''I'', [14,4,4,4,4,4,14]),
     (CHR ''J'', [7,2,2,2,2,18,12]), (CHR ''K'', [17,18,20,24,20,18,17]), (CHR ''L'', [16,16,16,16,16,16,31]),
     (CHR ''M'', [17,27,21,21,17,17,17]), (CHR ''N'', [17,25,21,19,17,17,17]), (CHR ''O'', [14,17,17,17,17,17,14]),
     (CHR ''P'', [30,17,17,30,16,16,16]), (CHR ''Q'', [14,17,17,17,21,18,13]), (CHR ''R'', [30,17,17,30,20,18,17]),
     (CHR ''S'', [15,16,16,14,1,1,30]), (CHR ''T'', [31,4,4,4,4,4,4]), (CHR ''U'', [17,17,17,17,17,17,14]),
     (CHR ''V'', [17,17,17,17,17,10,4]), (CHR ''W'', [17,17,17,21,21,21,10]), (CHR ''X'', [17,17,10,4,10,17,17]),
     (CHR ''Y'', [17,17,10,4,4,4,4]), (CHR ''Z'', [31,1,2,4,8,16,31]),
     (CHR ''0'', [14,17,17,17,17,17,14]), (CHR ''1'', [4,12,4,4,4,4,14]), (CHR ''2'', [14,17,1,2,4,8,31]),
     (CHR ''3'', [30,1,1,14,1,1,30]), (CHR ''4'', [2,6,10,18,31,2,2]), (CHR ''5'', [31,16,16,30,1,1,30]),
     (CHR ''6'', [14,16,16,30,17,17,14]), (CHR ''7'', [31,1,2,4,8,8,8]), (CHR ''8'', [14,17,17,14,17,17,14]),
     (CHR ''9'', [14,17,17,15,1,1,14]),
     (CHR ''-'', [0,0,0,31,0,0,0]), (CHR ''.'', [0,0,0,0,0,12,12]), (CHR '':'', [0,12,12,0,12,12,0]), (CHR ''/'', [1,2,4,8,16,0,0])]"

definition tty_fallback_glyph :: "byte \<Rightarrow> nat list" where
  "tty_fallback_glyph c =
     (let c1 = (if 97 \<le> (of_char c :: nat) \<and> (of_char c :: nat) \<le> 122 then char_of (of_char c - 32 :: nat) else c) in
      case map_of glyph_table c1 of None \<Rightarrow> replicate 7 0 | Some g \<Rightarrow> g)"

definition tty_draw_fallback_char :: "nat \<Rightarrow> nat \<Rightarrow> byte \<Rightarrow> tsys \<Rightarrow> tsys" where
  "tty_draw_fallback_char px py c t =
     (let g = tty_fallback_glyph c;
          sx = (if g_char_w t \<ge> 5 then g_char_w t div 5 else 1);
          sy = (if g_char_h t \<ge> 7 then g_char_h t div 7 else 1);
          s0 = (if sx < sy then sx else sy);
          s = (if s0 = 0 then 1 else s0);
          gw = mul32 5 s; gh = mul32 7 s;
          ox = (if g_char_w t > gw then (g_char_w t - gw) div 2 else 0);
          oy = (if g_char_h t > gh then (g_char_h t - gh) div 2 else 0) in
      fold (\<lambda>row. fold (\<lambda>col t. if even ((g ! row) div 2 ^ (4 - col)) then t
            else on_vesa (vesa_fill_rect (add32 (add32 px ox) (mul32 col s)) (add32 (add32 py oy) (mul32 row s)) s s (g_fg t)) t)
          [0..<5]) [0..<7] t)"

definition tty_draw_cell :: "nat \<Rightarrow> nat \<Rightarrow> byte \<Rightarrow> tsys \<Rightarrow> tsys" where
  "tty_draw_cell col row c s =
     (let px = mul32 col (g_char_w s); py = mul32 row (g_char_h s);
          s1 = on_vesa (vesa_fill_rect px py (g_char_w s) (g_char_h s) (g_bg s)) s in
      if c = CHR '' '' then s1
      else case g_font s of
          Some font \<Rightarrow> on_vesa (font_draw_char (mm_mem (fs_mm (ds_files (ts_dev s)))) font px py c (g_fg s)) s1
        | None \<Rightarrow> tty_draw_fallback_char px py c s1)"

text \<open>A row of the text buffer.\<close>

definition vga_row :: "tty_device \<Rightarrow> nat \<Rightarrow> vga_state \<Rightarrow> vga_state" where
  "vga_row d y v =
     v\<lparr>vg_buf := fold (\<lambda>x b. b(add32 (mul32 y VGA_WIDTH) x := vga_entry (vga_color_get v) (cell_at d x y))) [0..<tt_cols d] (vg_buf v)\<rparr>"

definition tty_render_full :: "nat \<Rightarrow> tsys \<Rightarrow> tsys" where
  "tty_render_full i s =
     (let d = tty s i in
      if tt_cells d = None then s
      else if tt_type d = TTY_VESA
      then fold (\<lambda>y. fold (\<lambda>x. tty_draw_cell x y (cell_at d x y)) [0..<tt_cols d]) [0..<tt_rows d] s
      else if tt_type d \<noteq> TTY_VGA then s
      else on_vga (\<lambda>v. vga_cursor_set (tt_cursor_x d) (tt_cursor_y d)
             (fold (vga_row d) [0..<tt_rows d]
               (v\<lparr>vg_buf := fill_words 0 (VGA_WIDTH * VGA_HEIGHT) (vga_entry (vga_color_get v) CHR '' '') (vg_buf v)\<rparr>))) s)"

definition tty_redraw_row :: "nat \<Rightarrow> nat \<Rightarrow> tsys \<Rightarrow> tsys" where
  "tty_redraw_row i row s =
     (let d = tty s i in
      if tt_cells d = None \<or> row \<ge> tt_rows d then s
      else if tt_type d = TTY_VESA then fold (\<lambda>x. tty_draw_cell x row (cell_at d x row)) [0..<tt_cols d] s
      else if tt_type d \<noteq> TTY_VGA then s
      else on_vga (vga_row d row) s)"

text \<open>The mark below the place where a line is edited.\<close>

definition tty_input_cursor :: "nat \<Rightarrow> bool \<Rightarrow> tsys \<Rightarrow> tsys" where
  "tty_input_cursor i visible s =
     (let d = tty s i in
      if tt_type d \<noteq> TTY_VESA \<or> \<not> is_active i s then s
      else if tt_cursor_x d \<ge> tt_cols d \<or> tt_cursor_y d \<ge> tt_rows d then s
      else let x = tt_cursor_x d; y = tt_cursor_y d; px = mul32 x (g_char_w s);
               py = add32 (mul32 y (g_char_h s)) (if g_char_h s > 2 then g_char_h s - 2 else sub32 (g_char_h s) 1) in
        if visible then on_vesa (vesa_fill_rect px py (g_char_w s) 1 (g_fg s)) s
        else tty_draw_cell x y (cell_at d x y) s)"

subsection \<open>Escape sequences\<close>

definition tty_cursor_left_raw :: "tty_device \<Rightarrow> tty_device" where
  "tty_cursor_left_raw d =
     (if tt_cursor_x d > 0 then d\<lparr>tt_cursor_x := tt_cursor_x d - 1\<rparr>
      else if tt_cursor_y d > 0
      then d\<lparr>tt_cursor_y := tt_cursor_y d - 1, tt_cursor_x := (if tt_cols d > 0 then tt_cols d - 1 else 0)\<rparr>
      else d)"

definition tty_cursor_right_raw :: "tty_device \<Rightarrow> tty_device" where
  "tty_cursor_right_raw d =
     (if add32 (tt_cursor_x d) 1 < tt_cols d then d\<lparr>tt_cursor_x := tt_cursor_x d + 1\<rparr>
      else let d1 = d\<lparr>tt_cursor_x := 0\<rparr> in
        if add32 (tt_cursor_y d1) 1 < tt_rows d1 then d1\<lparr>tt_cursor_y := tt_cursor_y d1 + 1\<rparr> else d1)"

definition tty_erase_to_eol :: "nat \<Rightarrow> tsys \<Rightarrow> tsys" where
  "tty_erase_to_eol i s =
     (let d = tty s i in
      if tt_cells d = None \<or> tt_cursor_y d \<ge> tt_rows d \<or> tt_cursor_x d \<ge> tt_cols d then s
      else let y = tt_cursor_y d in
        fold (\<lambda>x s. let s1 = upd_tty i (set_cell x y CHR '' '') s in
            if is_active i s1
            then if tt_type (tty s1 i) = TTY_VGA then tty_redraw_row i y s1 else tty_draw_cell x y CHR '' '' s1
            else s1) [tt_cursor_x d..<tt_cols d] s)"

definition ansi_start :: "tty_device \<Rightarrow> tty_device" where
  "ansi_start d = d\<lparr>tt_ansi_state := 1, tt_ansi_param := 0, tt_ansi_have_param := False\<rparr>"

definition ansi_stop :: "tty_device \<Rightarrow> tty_device" where
  "ansi_stop d = d\<lparr>tt_ansi_state := 0, tt_ansi_param := 0, tt_ansi_have_param := False\<rparr>"

text \<open>What the last character of a sequence does.\<close>

definition ansi_command :: "nat \<Rightarrow> byte \<Rightarrow> tsys \<Rightarrow> tsys" where
  "ansi_command i c s =
     (let d = tty s i; n0 = (if tt_ansi_have_param d then tt_ansi_param d else 1); n = (if n0 = 0 then 1 else n0) in
      if c = CHR ''D'' then upd_tty i (tty_cursor_left_raw ^^ n) s
      else if c = CHR ''C'' then upd_tty i (tty_cursor_right_raw ^^ n) s
      else if c = CHR ''G'' then
        let col0 = (if tt_ansi_have_param d then sub32 (tt_ansi_param d) 1 else 0);
            col = (if col0 \<ge> tt_cols d then if tt_cols d \<noteq> 0 then tt_cols d - 1 else 0 else col0) in
        upd_tty i (\<lambda>d. d\<lparr>tt_cursor_x := col\<rparr>) s
      else if c = CHR ''H'' \<or> c = CHR ''f'' then upd_tty i (\<lambda>d. d\<lparr>tt_cursor_x := 0, tt_cursor_y := 0\<rparr>) s
      else if c = CHR ''K'' \<or> c = CHR ''X'' \<or> c = CHR ''J'' then tty_erase_to_eol i s
      else s)"

text \<open>The result says whether the character belonged to a sequence.\<close>

definition tty_consume_ansi :: "nat \<Rightarrow> byte \<Rightarrow> tsys \<Rightarrow> bool \<times> tsys" where
  "tty_consume_ansi i c s =
     (let d = tty s i; n = of_char c :: nat in
      if tt_ansi_state d = 0 then if n = 27 then (True, upd_tty i ansi_start s) else (False, s)
      else if tt_ansi_state d = 1 then
        (True, upd_tty i (\<lambda>d. d\<lparr>tt_ansi_state := (if c = CHR ''['' then 2 else 0)\<rparr>) s)
      else if tt_ansi_state d = 2 then
        if 48 \<le> n \<and> n \<le> 57 then
          (True, upd_tty i (\<lambda>d. d\<lparr>tt_ansi_have_param := True, tt_ansi_param := add32 (mul32 (tt_ansi_param d) 10) (n - 48)\<rparr>) s)
        else if c = CHR '';'' then (True, s)
        else if 0x40 \<le> n \<and> n \<le> 0x7E then (True, upd_tty i ansi_stop (ansi_command i c s))
        else (True, upd_tty i (\<lambda>d. d\<lparr>tt_ansi_state := 0\<rparr>) s)
      else (True, upd_tty i (\<lambda>d. d\<lparr>tt_ansi_state := 0\<rparr>) s))"

subsection \<open>Output\<close>

definition scroll_cells :: "tty_device \<Rightarrow> string \<Rightarrow> string" where
  "scroll_cells d cs =
     (let line_sz = tt_cols d; total = mul32 (tt_rows d) (tt_cols d) in
      take (total - line_sz) (drop line_sz cs) @ replicate line_sz CHR '' '' @ drop total cs)"

definition tty_scroll :: "nat \<Rightarrow> tsys \<Rightarrow> tsys" where
  "tty_scroll i s =
     (let d = tty s i in
      if tt_cells d = None \<or> tt_rows d = 0 then s
      else if tt_type d \<noteq> TTY_VESA \<and> tt_type d \<noteq> TTY_VGA then s
      else let s1 = upd_tty i (\<lambda>d. d\<lparr>tt_cells := map_option (scroll_cells d) (tt_cells d)\<rparr>) s in
        if \<not> is_active i s1 then s1
        else if tt_type d = TTY_VESA
        then tty_redraw_row i (tt_rows d - 1) (on_vesa (vesa_scroll 0 (sgn32 (- sgn32 (int (g_char_h s1)))) (g_bg s1)) s1)
        else tty_redraw_row i (tt_rows d - 1)
               (on_vga (\<lambda>v. v\<lparr>vg_buf := copy_down VGA_WIDTH ((VGA_HEIGHT - 1) * VGA_WIDTH) (vg_buf v)\<rparr>) s1))"

text \<open>To the start of the next row, scrolling in the last one.\<close>

definition tty_next_row :: "nat \<Rightarrow> tsys \<Rightarrow> tsys" where
  "tty_next_row i s =
     (let s1 = upd_tty i (\<lambda>d. d\<lparr>tt_cursor_x := 0, tt_cursor_y := add32 (tt_cursor_y d) 1\<rparr>) s in
      if tt_cursor_y (tty s1 i) \<ge> tt_rows (tty s1 i)
      then tty_scroll i (upd_tty i (\<lambda>d. d\<lparr>tt_cursor_y := sub32 (tt_rows d) 1\<rparr>) s1)
      else s1)"

text \<open>A character stored at the cursor, which then moves on.\<close>

definition tty_advance :: "nat \<Rightarrow> tsys \<Rightarrow> tsys" where
  "tty_advance i s =
     (let s1 = upd_tty i (\<lambda>d. d\<lparr>tt_cursor_x := add32 (tt_cursor_x d) 1\<rparr>) s in
      if tt_cursor_x (tty s1 i) \<ge> tt_cols (tty s1 i) then tty_next_row i s1 else s1)"

definition set_cursor_cell :: "byte \<Rightarrow> tty_device \<Rightarrow> tty_device" where
  "set_cursor_cell c d = set_cell (tt_cursor_x d) (tt_cursor_y d) c d"

definition tty_putc_vesa :: "nat \<Rightarrow> byte \<Rightarrow> tsys \<Rightarrow> tsys" where
  "tty_putc_vesa i c s =
     (if tt_type (tty s i) \<noteq> TTY_VESA \<or> tt_cells (tty s i) = None then s
      else let (taken, s1) = tty_consume_ansi i c s in
        if taken then s1
        else if c = CHR 13 then upd_tty i (\<lambda>d. d\<lparr>tt_cursor_x := 0\<rparr>) s1
        else if c = CHR 10 then tty_next_row i s1
        else if c = CHR 8 then
          let s2 = upd_tty i (\<lambda>d. set_cursor_cell CHR '' '' (tty_cursor_left_raw d)) s1; d = tty s2 i in
          if is_active i s2 then tty_draw_cell (tt_cursor_x d) (tt_cursor_y d) CHR '' '' s2 else s2
        else
          let s2 = upd_tty i (set_cursor_cell c) s1; d = tty s2 i in
          tty_advance i (if is_active i s2 then tty_draw_cell (tt_cursor_x d) (tt_cursor_y d) c s2 else s2))"

text \<open>The hardware cursor set to the cursor of the terminal; a character stored in the text buffer at the cursor.\<close>

definition vga_follow :: "nat \<Rightarrow> tsys \<Rightarrow> tsys" where
  "vga_follow i s = (if is_active i s then on_vga (vga_cursor_set (tt_cursor_x (tty s i)) (tt_cursor_y (tty s i))) s else s)"

definition vga_store :: "nat \<Rightarrow> byte \<Rightarrow> tsys \<Rightarrow> tsys" where
  "vga_store i c s =
     (if is_active i s
      then on_vga (\<lambda>v. v\<lparr>vg_buf := (vg_buf v)(add32 (mul32 (tt_cursor_y (tty s i)) VGA_WIDTH) (tt_cursor_x (tty s i)) := vga_entry (vga_color_get v) c)\<rparr>) s
      else s)"

definition tty_putc_vga :: "nat \<Rightarrow> byte \<Rightarrow> tsys \<Rightarrow> tsys" where
  "tty_putc_vga i c s =
     (if tt_type (tty s i) \<noteq> TTY_VGA \<or> tt_cells (tty s i) = None then s
      else if tt_cols (tty s i) = 0 \<or> tt_rows (tty s i) = 0 then s
      else let (taken, s1) = tty_consume_ansi i c s in
        if taken then s1
        else if c = CHR 13 then vga_follow i (upd_tty i (\<lambda>d. d\<lparr>tt_cursor_x := 0\<rparr>) s1)
        else if c = CHR 10 then vga_follow i (tty_next_row i s1)
        else if c = CHR 8 then
          vga_follow i (vga_store i CHR '' '' (upd_tty i (\<lambda>d. set_cursor_cell CHR '' '' (tty_cursor_left_raw d)) s1))
        else vga_follow i (tty_advance i (vga_store i c (upd_tty i (set_cursor_cell c) s1))))"

text \<open>The driver of the terminal's kind.\<close>

definition tty_putc :: "nat \<Rightarrow> byte \<Rightarrow> tsys \<Rightarrow> tsys" where
  "tty_putc i c s = (if tt_type (tty s i) = TTY_VGA then tty_putc_vga i c s else tty_putc_vesa i c s)"

definition tty_vesa_write :: "nat option \<Rightarrow> string option \<Rightarrow> tsys \<Rightarrow> int \<times> tsys" where
  "tty_vesa_write ctx buf s = (case (ctx, buf) of
      (Some i, Some bs) \<Rightarrow> (sgn32 (int (length bs)), fold (tty_putc_vesa i) bs s)
    | _ \<Rightarrow> (-1, s))"

definition tty_vga_write :: "nat option \<Rightarrow> string option \<Rightarrow> tsys \<Rightarrow> int \<times> tsys" where
  "tty_vga_write ctx buf s = (case (ctx, buf) of
      (Some i, Some bs) \<Rightarrow>
        if tt_type (tty s i) \<noteq> TTY_VGA then (-1, s) else (sgn32 (int (length bs)), fold (tty_putc_vga i) bs s)
    | _ \<Rightarrow> (-1, s))"

subsection \<open>The history of lines\<close>

text \<open>The bytes from \<open>a\<close> on replaced by others.\<close>

definition put_at :: "nat \<Rightarrow> string \<Rightarrow> string \<Rightarrow> string" where
  "put_at a bs m = take a m @ bs @ drop (a + length bs) m"

definition same_as_last :: "tty_device \<Rightarrow> string \<Rightarrow> string \<Rightarrow> bool" where
  "same_as_last d h line \<longleftrightarrow>
     (let at = (tt_history_next d + TTY_HISTORY_MAX - 1) mod TTY_HISTORY_MAX * TTY_HISTORY_LINE_MAX in
      tt_history_count d > 0 \<and> take (length line) (drop at h) = line \<and> h ! (at + length line) = NUL)"

definition tty_history_store :: "string \<Rightarrow> tty_device \<Rightarrow> tty_device" where
  "tty_history_store line0 d =
     (case tt_history d of
        None \<Rightarrow> d
      | Some h \<Rightarrow>
          let line = (if length line0 \<ge> TTY_HISTORY_LINE_MAX then take (TTY_HISTORY_LINE_MAX - 1) line0 else line0) in
          if line0 = [] \<or> same_as_last d h line then d
          else d\<lparr>tt_history := Some (put_at (tt_history_next d * TTY_HISTORY_LINE_MAX) (line @ [NUL]) h),
                 tt_history_next := (tt_history_next d + 1) mod TTY_HISTORY_MAX,
                 tt_history_count := (if tt_history_count d < TTY_HISTORY_MAX then tt_history_count d + 1 else tt_history_count d)\<rparr>)"

text \<open>The line that is found, up to its null; \<open>None\<close> is the null pointer.\<close>

definition tty_history_get :: "tty_device \<Rightarrow> nat \<Rightarrow> string option" where
  "tty_history_get d from_latest =
     (if from_latest \<ge> tt_history_count d then None
      else map_option (\<lambda>h. takeWhile ((\<noteq>) NUL)
             (drop ((tt_history_next d + TTY_HISTORY_MAX - 1 - from_latest) mod TTY_HISTORY_MAX * TTY_HISTORY_LINE_MAX) h)) (tt_history d))"

subsection \<open>Switching, messages and control\<close>

definition tty_set_active :: "nat \<Rightarrow> tsys \<Rightarrow> tsys" where
  "tty_set_active idx s =
     (if idx \<ge> VESA_TTY_COUNT then s
      else let s1 = s\<lparr>ts_kbd := keyboard_clear_buffers (ts_kbd s), g_active_tty := idx\<rparr>;
               s2 = (if tt_type (tty s1 idx) = TTY_VESA \<and> vesa_is_initialized (ts_vesa s1) then on_vesa (vesa_clear (g_bg s1)) s1 else s1);
               s3 = (if tt_type (tty s2 idx) = TTY_VGA then on_vga vga_clear s2 else s2) in
        tty_render_full idx s3)"

definition tty_serial_print :: "string \<Rightarrow> tsys \<Rightarrow> tsys option" where
  "tty_serial_print text s = map_option (\<lambda>io. s\<lparr>ts_io := io\<rparr>) (serial_write SERIAL_COM1 text (ts_io s))"

definition tty_klog :: "string \<Rightarrow> tsys \<Rightarrow> tsys option" where
  "tty_klog text s = do {
     s1 \<leftarrow> tty_serial_print text s;
     if \<not> g_tty_ready s1 then Some s1
     else do {
       let t = takeWhile ((\<noteq>) NUL) text;
       let s2 = (if tt_cells (tty s1 0) \<noteq> None then fold (tty_putc 0) t s1 else s1);
       let act = g_active_tty s2;
       if act \<ge> VESA_TTY_COUNT \<or> act = 0 then Some s2
       else if tt_cells (tty s2 act) = None then Some s2
       else Some (fold (tty_putc act) t s2) } }"

definition tty_hotkey_handler :: "u8 \<Rightarrow> bool \<Rightarrow> bool \<Rightarrow> bool \<Rightarrow> bool \<Rightarrow> tsys \<Rightarrow> tsys option" where
  "tty_hotkey_handler keycode pressed shift ctrl alt s =
     (if \<not> pressed then Some s
      else if ctrl \<and> alt \<and> keycode = KEY_DEL then
        if power_get_ctrl_alt_del_mode (ts_power s) = POWER_CAD_REBOOT
        then do {
          s1 \<leftarrow> tty_klog (''tty: Ctrl+Alt+Del -> reboot'' @ [CHR 10]) s;
          Some (s1\<lparr>ts_power := power_reboot (ts_power s1)\<rparr>) }
        else tty_klog (''tty: Ctrl+Alt+Del ignored by CAD mode'' @ [CHR 10]) s
      else if (alt \<or> (ctrl \<and> shift)) \<and> KEY_F1 \<le> keycode \<and> keycode \<le> KEY_F8
      then Some (tty_set_active (unat (keycode - KEY_F1)) s)
      else Some s)"

text \<open>The process that Ctrl+C ends: any number that is not positive, or that of a task.\<close>

definition set_fg_pid :: "nat option \<Rightarrow> (int \<Rightarrow> tsys \<Rightarrow> tsys) \<Rightarrow> tsys \<Rightarrow> int \<times> nat list \<times> tsys" where
  "set_fg_pid arg f s =
     (let pid = (case arg of None \<Rightarrow> -1 | Some v \<Rightarrow> sgn32 (int v)) in
      if pid > 0 \<and> task_find_by_pid (nat pid) (ts_k s) = None then (-1, [], s) else (0, [], f pid s))"

text \<open>The calls with the word at the argument; the words stored there are the second result.\<close>

definition tty_vesa_ioctl :: "nat option \<Rightarrow> nat \<Rightarrow> nat option \<Rightarrow> tsys \<Rightarrow> int \<times> nat list \<times> tsys" where
  "tty_vesa_ioctl ctx request arg s = (case ctx of None \<Rightarrow> (-1, [], s) | Some i \<Rightarrow>
     let d = tty s i in
     if request = DEV_IOCTL_TTY_GET_INFO then
       if arg = None then (-1, [], s)
       else (0, [DEV_TTY_KIND_VESA, add32 (tt_index d) 1, tt_cols d, tt_rows d, tt_cursor_x d, tt_cursor_y d], s)
     else if request = DEV_IOCTL_TTY_SET_ACTIVE then
       (case arg of
          None \<Rightarrow> (-1, [], s)
        | Some raw \<Rightarrow>
            if raw \<ge> 1 \<and> raw \<le> VESA_TTY_COUNT then (0, [], tty_set_active (raw - 1) s)
            else if raw < VESA_TTY_COUNT then (0, [], tty_set_active raw s)
            else (-1, [], s))
     else if request = DEV_IOCTL_TTY_GET_ACTIVE then
       if arg = None then (-1, [], s) else (0, [add32 (g_active_tty s) 1], s)
     else if request = DEV_IOCTL_TTY_SET_FG_PID then set_fg_pid arg (\<lambda>pid. upd_tty i (\<lambda>d. d\<lparr>tt_fg_pid := pid\<rparr>)) s
     else if request = DEV_IOCTL_TTY_GET_FG_PID then
       if arg = None then (-1, [], s) else (0, [uns32 (tt_fg_pid d)], s)
     else (-1, [], s))"

end
