(* ===== verification/Tty_Props.thy ===== *)
theory Tty_Props
  imports Tty Task_Props Keyboard_Props
begin

unbundle bit_operations_syntax

section \<open>What the terminals show\<close>

text \<open>
  The specification of a terminal is a function on its cells and cursor, which knows nothing of screens.  Both drivers are shown
  to compute it, whether the terminal is visible or not; it keeps the cursor inside and the number of cells,
  and touches no other terminal.
\<close>

subsection \<open>The emulation of a terminal\<close>

definition spec_scroll :: "tty_device \<Rightarrow> tty_device" where
  "spec_scroll d = (if tt_cells d = None \<or> tt_rows d = 0 then d else d\<lparr>tt_cells := map_option (scroll_cells d) (tt_cells d)\<rparr>)"

definition spec_next_row :: "tty_device \<Rightarrow> tty_device" where
  "spec_next_row d =
     (let d1 = d\<lparr>tt_cursor_x := 0, tt_cursor_y := add32 (tt_cursor_y d) 1\<rparr> in
      if tt_cursor_y d1 \<ge> tt_rows d1 then spec_scroll (d1\<lparr>tt_cursor_y := sub32 (tt_rows d1) 1\<rparr>) else d1)"

definition spec_erase_to_eol :: "tty_device \<Rightarrow> tty_device" where
  "spec_erase_to_eol d =
     (if tt_cursor_y d \<ge> tt_rows d \<or> tt_cursor_x d \<ge> tt_cols d then d
      else fold (\<lambda>x. set_cell x (tt_cursor_y d) CHR '' '') [tt_cursor_x d..<tt_cols d] d)"

definition spec_command :: "byte \<Rightarrow> tty_device \<Rightarrow> tty_device" where
  "spec_command c d =
     (let n0 = (if tt_ansi_have_param d then tt_ansi_param d else 1); n = (if n0 = 0 then 1 else n0) in
      if c = CHR ''D'' then (tty_cursor_left_raw ^^ n) d
      else if c = CHR ''C'' then (tty_cursor_right_raw ^^ n) d
      else if c = CHR ''G'' then
        let col0 = (if tt_ansi_have_param d then sub32 (tt_ansi_param d) 1 else 0) in
        d\<lparr>tt_cursor_x := (if col0 \<ge> tt_cols d then if tt_cols d \<noteq> 0 then tt_cols d - 1 else 0 else col0)\<rparr>
      else if c = CHR ''H'' \<or> c = CHR ''f'' then d\<lparr>tt_cursor_x := 0, tt_cursor_y := 0\<rparr>
      else if c = CHR ''K'' \<or> c = CHR ''X'' \<or> c = CHR ''J'' then spec_erase_to_eol d
      else d)"

definition spec_escape :: "byte \<Rightarrow> tty_device \<Rightarrow> (bool \<times> tty_device)" where
  "spec_escape c d =
     (let n = of_char c :: nat in
      if tt_ansi_state d = 0 then if n = 27 then (True, ansi_start d) else (False, d)
      else if tt_ansi_state d = 1 then (True, d\<lparr>tt_ansi_state := (if c = CHR ''['' then 2 else 0)\<rparr>)
      else if tt_ansi_state d = 2 then
        if 48 \<le> n \<and> n \<le> 57
        then (True, d\<lparr>tt_ansi_have_param := True, tt_ansi_param := add32 (mul32 (tt_ansi_param d) 10) (n - 48)\<rparr>)
        else if c = CHR '';'' then (True, d)
        else if 0x40 \<le> n \<and> n \<le> 0x7E then (True, ansi_stop (spec_command c d))
        else (True, d\<lparr>tt_ansi_state := 0\<rparr>)
      else (True, d\<lparr>tt_ansi_state := 0\<rparr>))"

definition spec_advance :: "tty_device \<Rightarrow> tty_device" where
  "spec_advance d =
     (let d1 = d\<lparr>tt_cursor_x := add32 (tt_cursor_x d) 1\<rparr> in if tt_cursor_x d1 \<ge> tt_cols d1 then spec_next_row d1 else d1)"

definition spec_plain :: "byte \<Rightarrow> tty_device \<Rightarrow> tty_device" where
  "spec_plain c d =
     (if c = CHR 13 then d\<lparr>tt_cursor_x := 0\<rparr>
      else if c = CHR 10 then spec_next_row d
      else if c = CHR 8 then set_cursor_cell CHR '' '' (tty_cursor_left_raw d)
      else spec_advance (set_cursor_cell c d))"

definition spec_putc :: "byte \<Rightarrow> tty_device \<Rightarrow> tty_device" where
  "spec_putc c d = (case spec_escape c d of (taken, d1) \<Rightarrow> if taken then d1 else spec_plain c d1)"

subsection \<open>Both drivers compute it\<close>

text \<open>Drawing leaves the terminals alone.\<close>

lemma upd_tty_same [simp]: "i < length (g_tty_v s) \<Longrightarrow> tty (upd_tty i f s) i = f (tty s i)"
  by (simp add: upd_tty_def)

lemma upd_tty_v: "g_tty_v (upd_tty i f s) = (g_tty_v s)[i := f (tty s i)]"
  by (simp add: upd_tty_def)

lemma on_frame [simp]:
  "g_tty_v (on_vga f s) = g_tty_v s" "g_tty_v (on_vesa h s) = g_tty_v s" "g_active_tty (on_vga f s) = g_active_tty s"
  "g_active_tty (on_vesa h s) = g_active_tty s" "g_active_tty (upd_tty i g s) = g_active_tty s"
  "ts_vga (on_vesa h s) = ts_vga s" "ts_vga (upd_tty i g s) = ts_vga s" "ts_vga (on_vga f s) = f (ts_vga s)"
  by (simp_all add: on_vga_def on_vesa_def upd_tty_def)

lemma fold_frame:
  assumes "\<And>x t. P (f x t) = P t"
  shows "P (fold f xs t) = P t"
  by (induction xs arbitrary: t) (simp_all add: assms)

lemma draw_cell_frame [simp]:
  "g_tty_v (tty_draw_cell x y c s) = g_tty_v s" "g_active_tty (tty_draw_cell x y c s) = g_active_tty s"
  "ts_vga (tty_draw_cell x y c s) = ts_vga s"
proof -
  have fb: "P (tty_draw_fallback_char px py c t) = P t" if "\<And>f t. P (on_vesa f t) = P t" for P :: "tsys \<Rightarrow> 'a" and px py t
    unfolding tty_draw_fallback_char_def Let_def by (intro fold_frame) (simp add: that)
  show "g_tty_v (tty_draw_cell x y c s) = g_tty_v s" "g_active_tty (tty_draw_cell x y c s) = g_active_tty s"
    "ts_vga (tty_draw_cell x y c s) = ts_vga s"
    by (simp_all add: tty_draw_cell_def Let_def fb split: option.splits)
qed

lemma redraw_row_frame [simp]:
  "g_tty_v (tty_redraw_row i y s) = g_tty_v s" "g_active_tty (tty_redraw_row i y s) = g_active_tty s"
  by (simp_all add: tty_redraw_row_def Let_def fold_frame)

lemma render_full_frame [simp]:
  "g_tty_v (tty_render_full i s) = g_tty_v s" "g_active_tty (tty_render_full i s) = g_active_tty s"
  by (simp_all add: tty_render_full_def Let_def fold_frame)

lemma vga_out_frame [simp]:
  "g_tty_v (vga_follow i s) = g_tty_v s" "g_tty_v (vga_store i c s) = g_tty_v s"
  "g_active_tty (vga_follow i s) = g_active_tty s" "g_active_tty (vga_store i c s) = g_active_tty s"
  by (simp_all add: vga_follow_def vga_store_def)

text \<open>Terminal \<open>i\<close> has become \<open>d\<close>, and the others are as they were.\<close>

definition becomes :: "nat \<Rightarrow> tty_device \<Rightarrow> tsys \<Rightarrow> tsys \<Rightarrow> bool" where
  "becomes i d s s' \<longleftrightarrow> g_tty_v s' = (g_tty_v s)[i := d] \<and> g_active_tty s' = g_active_tty s"

lemma becomes_upd: "becomes i (f (tty s i)) s (upd_tty i f s)"
  by (simp add: becomes_def upd_tty_v)

lemma becomes_updI: "f (tty s i) = d \<Longrightarrow> becomes i d s (upd_tty i f s)"
  using becomes_upd by blast

lemma becomes_refl: "becomes i (tty s i) s s"
  by (simp add: becomes_def)

lemma becomes_same: "becomes i d s s'' \<Longrightarrow> g_tty_v s' = g_tty_v s'' \<Longrightarrow> g_active_tty s' = g_active_tty s'' \<Longrightarrow> becomes i d s s'"
  by (simp add: becomes_def)

lemma becomes_trans: "becomes i d1 s s1 \<Longrightarrow> becomes i d2 s1 s2 \<Longrightarrow> becomes i d2 s s2"
  by (simp add: becomes_def)

lemma becomes_tty: "becomes i d s s' \<Longrightarrow> i < length (g_tty_v s) \<Longrightarrow> tty s' i = d"
  by (simp add: becomes_def)

lemma becomes_length: "becomes i d s s' \<Longrightarrow> length (g_tty_v s') = length (g_tty_v s)"
  by (simp add: becomes_def)

lemma becomes_drawn [simp]:
  "becomes i d s (tty_draw_cell x y c t) = becomes i d s t" "becomes i d s (tty_redraw_row j y t) = becomes i d s t"
  "becomes i d s (vga_follow j t) = becomes i d s t" "becomes i d s (vga_store j c t) = becomes i d s t"
  "becomes i d s (on_vga f t) = becomes i d s t" "becomes i d s (on_vesa h t) = becomes i d s t"
  by (simp_all add: becomes_def)

lemma becomes_other: "becomes i d s s' \<Longrightarrow> j \<noteq> i \<Longrightarrow> tty s' j = tty s j"
  by (simp add: becomes_def)

lemma becomes_active: "becomes i d s s' \<Longrightarrow> g_active_tty s' = g_active_tty s"
  by (simp add: becomes_def)

abbreviation in_view :: "tty_device \<Rightarrow> bool" where
  "in_view d \<equiv> tt_type d = TTY_VESA \<or> tt_type d = TTY_VGA"

lemma spec_type [simp]: "tt_type (spec_scroll d) = tt_type d" "tt_type (spec_next_row d) = tt_type d"
  by (simp_all add: spec_scroll_def spec_next_row_def Let_def)

lemma scroll_becomes:
  assumes "i < length (g_tty_v s)" "in_view (tty s i)"
  shows "becomes i (spec_scroll (tty s i)) s (tty_scroll i s)"
  unfolding becomes_def tty_scroll_def spec_scroll_def Let_def using assms
  by (cases "tt_cells (tty s i)") (auto simp: upd_tty_v)

lemma next_row_becomes:
  assumes "i < length (g_tty_v s)" "in_view (tty s i)"
  shows "becomes i (spec_next_row (tty s i)) s (tty_next_row i s)"
proof -
  let ?d = "(tty s i)\<lparr>tt_cursor_x := 0, tt_cursor_y := add32 (tt_cursor_y (tty s i)) 1\<rparr>"
  let ?s1 = "upd_tty i (\<lambda>d. d\<lparr>tt_cursor_x := 0, tt_cursor_y := add32 (tt_cursor_y d) 1\<rparr>) s"
  let ?s2 = "upd_tty i (\<lambda>d. d\<lparr>tt_cursor_y := sub32 (tt_rows d) 1\<rparr>) ?s1"
  have b1: "becomes i ?d s ?s1" by (rule becomes_upd)
  have s1: "tty ?s1 i = ?d" by (rule becomes_tty [OF b1 assms(1)])
  have l: "i < length (g_tty_v ?s1)" using assms(1) by (simp add: upd_tty_v)
  have b2: "becomes i (?d\<lparr>tt_cursor_y := sub32 (tt_rows ?d) 1\<rparr>) s ?s2"
    using becomes_trans [OF b1 becomes_upd [of i _ ?s1]] by (simp only: s1)
  have s2: "tty ?s2 i = ?d\<lparr>tt_cursor_y := sub32 (tt_rows ?d) 1\<rparr>" by (rule becomes_tty [OF b2 assms(1)])
  have "becomes i (spec_scroll (tty ?s2 i)) ?s2 (tty_scroll i ?s2)"
    by (rule scroll_becomes) (use assms in \<open>simp_all add: upd_tty_v\<close>)
  with b2 have "becomes i (spec_scroll (tty ?s2 i)) s (tty_scroll i ?s2)" by (rule becomes_trans)
  then show ?thesis using b1 unfolding tty_next_row_def Let_def spec_next_row_def s1 s2 by simp
qed

lemma advance_becomes:
  assumes "i < length (g_tty_v s)" "in_view (tty s i)"
  shows "becomes i (spec_advance (tty s i)) s (tty_advance i s)"
proof -
  let ?d = "(tty s i)\<lparr>tt_cursor_x := add32 (tt_cursor_x (tty s i)) 1\<rparr>"
  let ?s1 = "upd_tty i (\<lambda>d. d\<lparr>tt_cursor_x := add32 (tt_cursor_x d) 1\<rparr>) s"
  have b1: "becomes i ?d s ?s1" by (rule becomes_upd)
  have s1: "tty ?s1 i = ?d" by (rule becomes_tty [OF b1 assms(1)])
  have "becomes i (spec_next_row (tty ?s1 i)) ?s1 (tty_next_row i ?s1)"
    by (rule next_row_becomes) (use assms in \<open>simp_all add: upd_tty_v\<close>)
  with b1 have "becomes i (spec_next_row (tty ?s1 i)) s (tty_next_row i ?s1)" by (rule becomes_trans)
  then show ?thesis using b1 unfolding tty_advance_def Let_def spec_advance_def s1 by simp
qed

lemma fold_becomes:
  assumes "\<And>x (t :: tsys). i < length (g_tty_v t) \<Longrightarrow> becomes i (f x (tty t i)) t (F x t)" "i < length (g_tty_v s)"
  shows "becomes i (fold f xs (tty s i)) s (fold F xs s)"
  using assms(2)
proof (induction xs arbitrary: s)
  case Nil
  then show ?case by (simp add: becomes_refl)
next
  case (Cons x xs)
  have b: "becomes i (f x (tty s i)) s (F x s)" by (rule assms(1) [OF Cons.prems])
  have "becomes i (fold f xs (tty (F x s) i)) (F x s) (fold F xs (F x s))"
    by (rule Cons.IH) (use becomes_length [OF b] Cons.prems in simp)
  from becomes_trans [OF b this] show ?case by (simp add: becomes_tty [OF b Cons.prems])
qed

lemma fold_set_cell_none: "tt_cells d = None \<Longrightarrow> fold (\<lambda>x. set_cell x y c) xs d = d"
proof (induction xs)
  case (Cons x xs)
  moreover have "set_cell x y c d = d" using Cons.prems by (cases d) (simp add: set_cell_def)
  ultimately show ?case by simp
qed simp

lemma erase_becomes:
  assumes "i < length (g_tty_v s)"
  shows "becomes i (spec_erase_to_eol (tty s i)) s (tty_erase_to_eol i s)"
proof -
  let ?y = "tt_cursor_y (tty s i)" and ?xs = "[tt_cursor_x (tty s i)..<tt_cols (tty s i)]"
  let ?F = "\<lambda>x s. let s1 = upd_tty i (set_cell x ?y CHR '' '') s in
            if is_active i s1 then if tt_type (tty s1 i) = TTY_VGA then tty_redraw_row i ?y s1 else tty_draw_cell x ?y CHR '' '' s1 else s1"
  have f: "becomes i (fold (\<lambda>x. set_cell x ?y CHR '' '') ?xs (tty s i)) s (fold ?F ?xs s)"
  proof (rule fold_becomes [OF _ assms])
    fix x and t :: tsys assume "i < length (g_tty_v t)"
    show "becomes i (set_cell x ?y CHR '' '' (tty t i)) t (?F x t)" unfolding Let_def
      by (rule becomes_same [OF becomes_upd]) simp_all
  qed
  show ?thesis
  proof (cases "tt_cells (tty s i) = None \<or> tt_cursor_y (tty s i) \<ge> tt_rows (tty s i) \<or> tt_cursor_x (tty s i) \<ge> tt_cols (tty s i)")
    case True
    then have "spec_erase_to_eol (tty s i) = tty s i" by (auto simp: spec_erase_to_eol_def fold_set_cell_none)
    then show ?thesis using True becomes_refl [of i s] by (simp add: tty_erase_to_eol_def Let_def)
  next
    case False
    then show ?thesis using f by (auto simp: tty_erase_to_eol_def spec_erase_to_eol_def Let_def)
  qed
qed

lemma command_becomes:
  assumes "i < length (g_tty_v s)"
  shows "becomes i (spec_command c (tty s i)) s (ansi_command i c s)"
  unfolding ansi_command_def spec_command_def Let_def
  by (simp add: becomes_updI erase_becomes [OF assms] becomes_refl)

lemma escape_becomes:
  assumes "i < length (g_tty_v s)" "spec_escape c (tty s i) = (taken, d)"
  shows "\<exists>s'. tty_consume_ansi i c s = (taken, s') \<and> becomes i d s s'"
proof -
  have "becomes i (ansi_stop (tty (ansi_command i c s) i)) s (upd_tty i ansi_stop (ansi_command i c s))"
    by (rule becomes_trans [OF command_becomes [OF assms(1)] becomes_upd])
  then have stop: "becomes i (ansi_stop (spec_command c (tty s i))) s (upd_tty i ansi_stop (ansi_command i c s))"
    by (simp add: becomes_tty [OF command_becomes assms(1)] assms(1))
  show ?thesis
  proof (cases "tt_ansi_state (tty s i) = 2")
    case True
    then show ?thesis using assms(2) stop becomes_refl [of i s] becomes_upd [of i _ s]
      by (auto simp: tty_consume_ansi_def spec_escape_def Let_def split: if_splits)
  next
    case False
    then show ?thesis using assms(2) becomes_refl [of i s] becomes_upd [of i _ s]
      by (auto simp: tty_consume_ansi_def spec_escape_def Let_def split: if_splits)
  qed
qed

lemma left_raw_fields [simp]:
  "tt_type (tty_cursor_left_raw d) = tt_type d" "tt_cols (tty_cursor_left_raw d) = tt_cols d" "tt_rows (tty_cursor_left_raw d) = tt_rows d"
  "tt_cells (tty_cursor_left_raw d) = tt_cells d"
  by (simp_all add: tty_cursor_left_raw_def)

lemma right_raw_fields [simp]:
  "tt_type (tty_cursor_right_raw d) = tt_type d" "tt_cols (tty_cursor_right_raw d) = tt_cols d" "tt_rows (tty_cursor_right_raw d) = tt_rows d"
  "tt_cells (tty_cursor_right_raw d) = tt_cells d"
  by (simp_all add: tty_cursor_right_raw_def Let_def)

lemma set_cell_fields [simp]:
  "tt_type (set_cell x y c d) = tt_type d" "tt_cols (set_cell x y c d) = tt_cols d" "tt_rows (set_cell x y c d) = tt_rows d"
  "tt_cursor_x (set_cell x y c d) = tt_cursor_x d" "tt_cursor_y (set_cell x y c d) = tt_cursor_y d"
  by (simp_all add: set_cell_def)

lemma repeat_field: "(\<And>d. P (f d) = P d) \<Longrightarrow> P ((f ^^ n) d) = P d"
  by (induction n) simp_all

lemma erase_fields [simp]:
  "tt_type (spec_erase_to_eol d) = tt_type d" "tt_cols (spec_erase_to_eol d) = tt_cols d" "tt_rows (spec_erase_to_eol d) = tt_rows d"
  "tt_cursor_x (spec_erase_to_eol d) = tt_cursor_x d" "tt_cursor_y (spec_erase_to_eol d) = tt_cursor_y d"
  by (simp_all add: spec_erase_to_eol_def fold_frame)

lemma escape_fields:
  "tt_type (snd (spec_escape c d)) = tt_type d" "tt_cols (snd (spec_escape c d)) = tt_cols d" "tt_rows (snd (spec_escape c d)) = tt_rows d"
proof -
  have "tt_type (spec_command c d) = tt_type d \<and> tt_cols (spec_command c d) = tt_cols d \<and> tt_rows (spec_command c d) = tt_rows d"
    by (simp add: spec_command_def Let_def repeat_field)
  then show "tt_type (snd (spec_escape c d)) = tt_type d" "tt_cols (snd (spec_escape c d)) = tt_cols d" "tt_rows (snd (spec_escape c d)) = tt_rows d"
    by (simp_all add: spec_escape_def Let_def ansi_start_def ansi_stop_def)
qed

lemma set_cursor_cell_type [simp]: "tt_type (set_cursor_cell c d) = tt_type d"
  by (simp add: set_cursor_cell_def)

lemma stored_becomes:
  assumes "i < length (g_tty_v s)" "in_view (tty s i)" "g_tty_v t = g_tty_v (upd_tty i (set_cursor_cell c) s)" "g_active_tty t = g_active_tty s"
  shows "becomes i (spec_advance (set_cursor_cell c (tty s i))) s (tty_advance i t)"
proof -
  have b: "becomes i (set_cursor_cell c (tty s i)) s t" by (rule becomes_same [OF becomes_upd [of i "set_cursor_cell c"]]) (simp_all add: assms)
  have l: "i < length (g_tty_v t)" using becomes_length [OF b] assms(1) by simp
  have "becomes i (spec_advance (tty t i)) t (tty_advance i t)"
    by (rule advance_becomes [OF l]) (use becomes_tty [OF b assms(1)] assms(2) in simp)
  from becomes_trans [OF b this] show ?thesis by (simp add: becomes_tty [OF b assms(1)])
qed

lemma putc_vesa_becomes:
  assumes "i < length (g_tty_v s)" "tt_type (tty s i) = TTY_VESA" "tt_cells (tty s i) \<noteq> None"
  shows "becomes i (spec_putc c (tty s i)) s (tty_putc_vesa i c s)"
proof -
  obtain taken d where E: "spec_escape c (tty s i) = (taken, d)" by fastforce
  obtain s1 where S: "tty_consume_ansi i c s = (taken, s1)" "becomes i d s s1" using escape_becomes [OF assms(1) E] by blast
  have ty: "tt_type d = TTY_VESA" using escape_fields(1) [of c "tty s i"] assms(2) by (simp add: E)
  have d: "tty s1 i = d" "i < length (g_tty_v s1)" using becomes_tty [OF S(2) assms(1)] becomes_length [OF S(2)] assms(1) by simp_all
  have n: "becomes i (spec_next_row d) s (tty_next_row i s1)" using becomes_trans [OF S(2) next_row_becomes [OF d(2)]] d(1) ty by simp
  let ?s2 = "upd_tty i (set_cursor_cell c) s1"
  have a: "becomes i (spec_advance (set_cursor_cell c d)) s (tty_advance i t)"
    if "g_tty_v t = g_tty_v ?s2" "g_active_tty t = g_active_tty s1" for t
    using becomes_trans [OF S(2) stored_becomes [OF d(2) _ that]] d(1) ty by simp
  have u: "f d = e \<Longrightarrow> becomes i e s (upd_tty i f s1)" for f e using becomes_trans [OF S(2) becomes_upd [of i f s1]] d(1) by blast
  show ?thesis unfolding tty_putc_vesa_def spec_putc_def spec_plain_def E S(1) Let_def prod.case
    using assms(2,3) S(2) n by (auto intro!: a u)
qed

lemma putc_vga_becomes:
  assumes "i < length (g_tty_v s)" "tt_type (tty s i) = TTY_VGA" "tt_cells (tty s i) \<noteq> None" "tt_cols (tty s i) \<noteq> 0" "tt_rows (tty s i) \<noteq> 0"
  shows "becomes i (spec_putc c (tty s i)) s (tty_putc_vga i c s)"
proof -
  obtain taken d where E: "spec_escape c (tty s i) = (taken, d)" by fastforce
  obtain s1 where S: "tty_consume_ansi i c s = (taken, s1)" "becomes i d s s1" using escape_becomes [OF assms(1) E] by blast
  have ty: "tt_type d = TTY_VGA" using escape_fields(1) [of c "tty s i"] assms(2) by (simp add: E)
  have d: "tty s1 i = d" "i < length (g_tty_v s1)" using becomes_tty [OF S(2) assms(1)] becomes_length [OF S(2)] assms(1) by simp_all
  have n: "becomes i (spec_next_row d) s (tty_next_row i s1)" using becomes_trans [OF S(2) next_row_becomes [OF d(2)]] d(1) ty by simp
  have a: "becomes i (spec_advance (set_cursor_cell c d)) s (tty_advance i (vga_store i c (upd_tty i (set_cursor_cell c) s1)))"
    using becomes_trans [OF S(2) stored_becomes [OF d(2)]] d(1) ty by simp
  have u: "f d = e \<Longrightarrow> becomes i e s (upd_tty i f s1)" for f e using becomes_trans [OF S(2) becomes_upd [of i f s1]] d(1) by blast
  show ?thesis unfolding tty_putc_vga_def spec_putc_def spec_plain_def E S(1) Let_def prod.case
    using assms(2-5) S(2) n a by (auto intro!: u)
qed

subsection \<open>The cursor stays inside\<close>

definition tty_dev_ok :: "tty_device \<Rightarrow> bool" where
  "tty_dev_ok d \<longleftrightarrow> 0 < tt_cols d \<and> 0 < tt_rows d \<and> tt_cols d * tt_rows d < 2 ^ 32 \<and> tt_cursor_x d < tt_cols d \<and> tt_cursor_y d < tt_rows d \<and>
     (\<forall>cs. tt_cells d = Some cs \<longrightarrow> length cs = tt_cols d * tt_rows d)"

lemma dev_ok_small:
  assumes "tty_dev_ok d"
  shows "tt_cols d < 2 ^ 32" "tt_rows d < 2 ^ 32"
proof -
  have p: "tt_cols d * tt_rows d < 2 ^ 32" using assms by (simp add: tty_dev_ok_def)
  have "tt_cols d \<le> tt_cols d * tt_rows d" "tt_rows d \<le> tt_cols d * tt_rows d" using assms by (simp_all add: tty_dev_ok_def)
  from this [THEN le_less_trans, OF p] show "tt_cols d < 2 ^ 32" "tt_rows d < 2 ^ 32" .
qed

lemma cell_index_in:
  assumes "0 < tt_cols d" "tt_cols d * tt_rows d < 2 ^ 32" "x < tt_cols d" "y < tt_rows d"
  shows "cell_index d x y = y * tt_cols d + x" "y * tt_cols d + x < tt_cols d * tt_rows d"
proof -
  have "(y + 1) * tt_cols d \<le> tt_rows d * tt_cols d" using assms(4) by (intro mult_le_mono1) simp
  then show in_cells: "y * tt_cols d + x < tt_cols d * tt_rows d" using assms(3) by (simp add: mult.commute)
  then show "cell_index d x y = y * tt_cols d + x" using assms(2) by (simp add: cell_index_def wrap_simps)
qed

lemma set_cell_ok [simp]: "tty_dev_ok (set_cell x y c d) = tty_dev_ok d"
  by (auto simp: tty_dev_ok_def set_cell_def split: option.splits)

lemma erase_ok: "tty_dev_ok d \<Longrightarrow> tty_dev_ok (spec_erase_to_eol d)"
  by (simp add: spec_erase_to_eol_def fold_frame)

lemma scroll_ok:
  assumes "tty_dev_ok d"
  shows "tty_dev_ok (spec_scroll d)"
proof -
  have "tt_cols d \<le> tt_cols d * tt_rows d" using assms by (simp add: tty_dev_ok_def)
  then show ?thesis using assms
    by (auto simp: tty_dev_ok_def spec_scroll_def scroll_cells_def Let_def wrap_simps mult.commute split: option.splits)
qed

lemma next_row_ok:
  assumes "tty_dev_ok (d\<lparr>tt_cursor_x := 0\<rparr>)"
  shows "tty_dev_ok (spec_next_row d)"
proof -
  have r: "tt_rows d < 2 ^ 32" using dev_ok_small(2) [OF assms] by simp
  have y: "add32 (tt_cursor_y d) (Suc 0) = Suc (tt_cursor_y d)" "tt_cursor_y d + 1 \<le> tt_rows d" using assms r by (auto simp: tty_dev_ok_def wrap_simps)
  have last: "sub32 (tt_rows d) (Suc 0) = tt_rows d - 1" using assms r by (simp add: tty_dev_ok_def wrap_simps)
  show ?thesis
  proof (cases "tt_cursor_y d + 1 < tt_rows d")
    case True
    then have "spec_next_row d = d\<lparr>tt_cursor_x := 0, tt_cursor_y := Suc (tt_cursor_y d)\<rparr>" by (simp add: spec_next_row_def Let_def y(1))
    then show ?thesis using assms True by (simp add: tty_dev_ok_def)
  next
    case False
    have "tty_dev_ok (d\<lparr>tt_cursor_x := 0, tt_cursor_y := tt_rows d - 1\<rparr>)" using assms by (simp add: tty_dev_ok_def)
    from scroll_ok [OF this] False show ?thesis by (simp add: spec_next_row_def Let_def y(1) last)
  qed
qed

lemma advance_ok:
  assumes "tty_dev_ok d"
  shows "tty_dev_ok (spec_advance d)"
proof -
  have x: "add32 (tt_cursor_x d) (Suc 0) = Suc (tt_cursor_x d)" using assms dev_ok_small(1) [OF assms] by (auto simp: tty_dev_ok_def wrap_simps)
  have "tty_dev_ok (d\<lparr>tt_cursor_x := 0\<rparr>)" using assms by (simp add: tty_dev_ok_def)
  then have n: "tty_dev_ok (spec_next_row (d\<lparr>tt_cursor_x := Suc (tt_cursor_x d)\<rparr>))" by (intro next_row_ok) simp
  have "tty_dev_ok (d\<lparr>tt_cursor_x := Suc (tt_cursor_x d)\<rparr>)" if "Suc (tt_cursor_x d) < tt_cols d" using assms that by (simp add: tty_dev_ok_def)
  then show ?thesis using n by (simp add: spec_advance_def x Let_def)
qed

lemma left_ok: "tty_dev_ok d \<Longrightarrow> tty_dev_ok (tty_cursor_left_raw d)"
  by (auto simp: tty_dev_ok_def tty_cursor_left_raw_def)

lemma right_ok:
  assumes "tty_dev_ok d"
  shows "tty_dev_ok (tty_cursor_right_raw d)"
proof -
  have "add32 (tt_cursor_x d) (Suc 0) = Suc (tt_cursor_x d)" "add32 (tt_cursor_y d) (Suc 0) = Suc (tt_cursor_y d)"
    using assms dev_ok_small [OF assms] by (auto simp: tty_dev_ok_def wrap_simps)
  then show ?thesis using assms by (simp add: tty_cursor_right_raw_def Let_def tty_dev_ok_def)
qed

lemma repeat_ok: "tty_dev_ok d \<Longrightarrow> (\<And>d. tty_dev_ok d \<Longrightarrow> tty_dev_ok (f d)) \<Longrightarrow> tty_dev_ok ((f ^^ n) d)"
  by (induction n) simp_all

lemma command_ok: "tty_dev_ok d \<Longrightarrow> tty_dev_ok (spec_command c d)"
  by (simp add: spec_command_def Let_def repeat_ok left_ok right_ok erase_ok) (auto simp: tty_dev_ok_def)

lemma ansi_fields_ok [simp]:
  "tty_dev_ok (d\<lparr>tt_ansi_state := n\<rparr>) = tty_dev_ok d" "tty_dev_ok (d\<lparr>tt_ansi_param := p\<rparr>) = tty_dev_ok d"
  "tty_dev_ok (d\<lparr>tt_ansi_have_param := h\<rparr>) = tty_dev_ok d"
  by (simp_all add: tty_dev_ok_def)

lemma escape_ok: "tty_dev_ok d \<Longrightarrow> tty_dev_ok (snd (spec_escape c d))"
  by (simp add: spec_escape_def Let_def ansi_start_def ansi_stop_def command_ok)

lemma putc_ok:
  assumes "tty_dev_ok d"
  shows "tty_dev_ok (spec_putc c d)"
proof -
  obtain taken d1 where E: "spec_escape c d = (taken, d1)" by fastforce
  have ok: "tty_dev_ok d1" using escape_ok [OF assms, of c] by (simp add: E)
  then have "tty_dev_ok (d1\<lparr>tt_cursor_x := 0\<rparr>)" by (simp add: tty_dev_ok_def)
  then show ?thesis using ok by (simp add: spec_putc_def spec_plain_def E next_row_ok advance_ok left_ok set_cursor_cell_def)
qed

lemma putc_fields [simp]:
  "tt_type (spec_putc c d) = tt_type d" "tt_cols (spec_putc c d) = tt_cols d" "tt_rows (spec_putc c d) = tt_rows d"
proof -
  obtain taken d1 where E: "spec_escape c d = (taken, d1)" by fastforce
  have sc: "tt_cols (spec_scroll e) = tt_cols e" "tt_rows (spec_scroll e) = tt_rows e" for e by (simp_all add: spec_scroll_def)
  have nr: "tt_cols (spec_next_row e) = tt_cols e" "tt_rows (spec_next_row e) = tt_rows e" for e by (simp_all add: spec_next_row_def Let_def sc)
  show "tt_type (spec_putc c d) = tt_type d" "tt_cols (spec_putc c d) = tt_cols d" "tt_rows (spec_putc c d) = tt_rows d"
    using escape_fields [of c d]
    by (simp_all add: spec_putc_def spec_plain_def E spec_advance_def Let_def nr set_cursor_cell_def)
qed

lemma putc_cells:
  assumes "tt_cells d \<noteq> None"
  shows "tt_cells (spec_putc c d) \<noteq> None"
proof -
  obtain taken d1 where E: "spec_escape c d = (taken, d1)" by fastforce
  have cell: "(tt_cells (set_cell x y b e) = None) = (tt_cells e = None)" for x y b e by (simp add: set_cell_def)
  have erase: "(tt_cells (spec_erase_to_eol e) = None) = (tt_cells e = None)" for e by (simp add: spec_erase_to_eol_def fold_frame [where P = "\<lambda>e. tt_cells e = None"] cell)
  have "(tt_cells (spec_command c d) = None) = (tt_cells d = None)" by (simp add: spec_command_def Let_def repeat_field [where P = "\<lambda>e. tt_cells e = None"] erase)
  then have "(tt_cells (snd (spec_escape c d)) = None) = (tt_cells d = None)"
    by (simp add: spec_escape_def Let_def ansi_start_def ansi_stop_def)
  then have d1: "tt_cells d1 \<noteq> None" using assms by (simp add: E)
  have "(tt_cells (spec_scroll e) = None) = (tt_cells e = None)" for e by (simp add: spec_scroll_def)
  then have nr: "(tt_cells (spec_next_row e) = None) = (tt_cells e = None)" for e by (simp add: spec_next_row_def Let_def)
  then have "(tt_cells (spec_advance e) = None) = (tt_cells e = None)" for e by (simp add: spec_advance_def Let_def)
  then show ?thesis using d1 by (simp add: spec_putc_def spec_plain_def E nr cell set_cursor_cell_def del: not_None_eq)
qed

text \<open>C11: The specification of both \<^verbatim>\<open>write\<close> functions: whether the terminal is shown or not, its cells and cursor become what the
  emulation makes of the bytes, no other terminal changes, and the cursor stays inside.\<close>

theorem tty_write_emulates:
  assumes "i < length (g_tty_v s)" "tt_cells (tty s i) \<noteq> None" "tty_dev_ok (tty s i)"
    "s' = (if tt_type (tty s i) = TTY_VGA then snd (tty_vga_write (Some i) (Some bs) s) else snd (tty_vesa_write (Some i) (Some bs) s))"
    "tt_type (tty s i) \<noteq> TTY_SERIAL"
  shows "g_tty_v s' = (g_tty_v s)[i := fold spec_putc bs (tty s i)] \<and> tty_dev_ok (fold spec_putc bs (tty s i))"
proof -
  have ok: "tty_dev_ok (fold spec_putc bs d)" if "tty_dev_ok d" for d using that by (induction bs arbitrary: d) (simp_all add: putc_ok)
  have "becomes i (fold spec_putc bs (tty s i)) s (fold (if tt_type (tty s i) = TTY_VGA then tty_putc_vga i else tty_putc_vesa i) bs s)"
    using assms(1-3,5)
  proof (induction bs arbitrary: s)
    case Nil
    then show ?case by (simp add: becomes_refl)
  next
    case (Cons b bs)
    let ?f = "if tt_type (tty s i) = TTY_VGA then tty_putc_vga i else tty_putc_vesa i"
    have b: "becomes i (spec_putc b (tty s i)) s (?f b s)"
      using putc_vga_becomes [OF Cons.prems(1) _ Cons.prems(2), of b] putc_vesa_becomes [OF Cons.prems(1) _ Cons.prems(2), of b] Cons.prems(3,4)
      by (cases "tt_type (tty s i)") (auto simp: tty_dev_ok_def)
    note s1 = becomes_tty [OF b Cons.prems(1)]
    have ty: "tt_type (tty (?f b s) i) = tt_type (tty s i)" by (simp only: s1 putc_fields)
    have "becomes i (fold spec_putc bs (tty (?f b s) i)) (?f b s) (fold (if tt_type (tty (?f b s) i) = TTY_VGA then tty_putc_vga i else tty_putc_vesa i) bs (?f b s))"
    proof (rule Cons.IH)
      show "i < length (g_tty_v (?f b s))" using becomes_length [OF b] Cons.prems(1) by simp
      show "tt_cells (tty (?f b s) i) \<noteq> None" unfolding s1 by (rule putc_cells [OF Cons.prems(2)])
      show "tty_dev_ok (tty (?f b s) i)" unfolding s1 by (rule putc_ok [OF Cons.prems(3)])
      show "tt_type (tty (?f b s) i) \<noteq> TTY_SERIAL" unfolding ty by (rule Cons.prems(4))
    qed
    from becomes_trans [OF b this] show ?case unfolding s1 putc_fields by simp
  qed
  then show ?thesis using assms(4) ok [OF assms(3)] by (auto simp: becomes_def tty_vga_write_def tty_vesa_write_def)
qed

text \<open>Eight terminals in text mode with empty cells, the first one shown.\<close>

definition demo_tty :: "nat \<Rightarrow> tty_device" where
  "demo_tty i = \<lparr>tt_type = TTY_VGA, tt_index = i, tt_cursor_x = 0, tt_cursor_y = 0, tt_cols = 80, tt_rows = 25, tt_cells = Some (replicate 2000 CHR '' ''),
     tt_history = None, tt_history_count = 0, tt_history_next = 0, tt_ansi_state = 0, tt_ansi_param = 0, tt_ansi_have_param = False, tt_fg_pid = -1\<rparr>"

definition demo_tsys :: tsys where
  "demo_tsys = \<lparr>g_tty_v = map demo_tty [0..<8], g_tty_s = [], g_active_tty = 0, g_font = None, g_char_w = 8, g_char_h = 16, g_fg = 0xD0D0D0, g_bg = 0,
     g_tty_ready = True, ts_vga = demo_vga\<lparr>vg_buf := (\<lambda>i. 15 * 256 + 32)\<rparr>, ts_vesa = demo_screen, ts_kbd = demo_kbd,
     ts_power = \<lparr>g_cad_mode = 1, pw_out = [], pw_halted = False\<rparr>, ts_io = \<lparr>port_in = (\<lambda>t p. 0x20), port_time = 0, port_out = []\<rparr>,
     ts_dev = demo_dev, ts_k = demo_kernel\<rparr>"

lemma demo_ttys: "i < 8 \<Longrightarrow> tty demo_tsys i = demo_tty i" "length (g_tty_v demo_tsys) = 8"
  by (simp_all add: demo_tsys_def)

lemma demo_tty_ok: "tty_dev_ok (demo_tty i)"
  by (simp add: tty_dev_ok_def demo_tty_def)

text \<open>A printing character with room behind it.\<close>

lemma spec_putc_plain:
  assumes "tty_dev_ok d" "tt_ansi_state d = 0" "32 \<le> (of_char c :: nat)" "Suc (tt_cursor_x d) < tt_cols d"
  shows "spec_putc c d = (set_cursor_cell c d)\<lparr>tt_cursor_x := Suc (tt_cursor_x d)\<rparr>"
proof -
  have n: "c \<noteq> CHR 13" "c \<noteq> CHR 10" "c \<noteq> CHR 8" "(of_char c :: nat) \<noteq> 27" using assms(3) by auto
  have "add32 (tt_cursor_x d) (Suc 0) = Suc (tt_cursor_x d)" using assms(4) dev_ok_small(1) [OF assms(1)] by (simp add: wrap_simps)
  then show ?thesis using assms(2,4) n
    by (simp add: spec_putc_def spec_escape_def spec_plain_def spec_advance_def Let_def set_cursor_cell_def)
qed

theorem tty_write_emulates_witness:
  "tt_cursor_x (tty (snd (tty_vga_write (Some 3) (Some ''ab'') demo_tsys)) 3) = 2 \<and>
   hd (the (tt_cells (tty (snd (tty_vga_write (Some 3) (Some ''ab'') demo_tsys)) 3))) = CHR ''a''"
proof -
  let ?s' = "snd (tty_vga_write (Some 3) (Some ''ab'') demo_tsys)"
  have d: "tty demo_tsys 3 = demo_tty 3" by (simp add: demo_ttys)
  have "g_tty_v ?s' = (g_tty_v demo_tsys)[3 := fold spec_putc ''ab'' (tty demo_tsys 3)] \<and> tty_dev_ok (fold spec_putc ''ab'' (tty demo_tsys 3))"
    by (rule tty_write_emulates) (simp_all only: d demo_ttys demo_tty_ok, simp_all add: demo_tty_def)
  then have s': "tty ?s' 3 = fold spec_putc ''ab'' (demo_tty 3)" by (simp add: d demo_ttys)
  obtain cs where cs: "cs = replicate 2000 CHR '' ''" by simp
  let ?d1 = "(demo_tty 3)\<lparr>tt_cells := Some (cs[0 := CHR ''a'']), tt_cursor_x := Suc 0\<rparr>"
  have p1: "spec_putc CHR ''a'' (demo_tty 3) = ?d1"
    by (subst spec_putc_plain [OF demo_tty_ok]) (simp_all add: demo_tty_def set_cursor_cell_def set_cell_def cell_index_def add32_def mul32_def cs [symmetric])
  have p2: "spec_putc CHR ''b'' ?d1 = ?d1\<lparr>tt_cells := Some (cs[0 := CHR ''a'', Suc 0 := CHR ''b'']), tt_cursor_x := 2\<rparr>"
  proof (subst spec_putc_plain)
    show "tty_dev_ok ?d1" using putc_ok [OF demo_tty_ok, of "CHR ''a''" 3] by (simp only: p1)
  qed (simp_all add: demo_tty_def set_cursor_cell_def set_cell_def cell_index_def add32_def mul32_def)
  have "hd (cs[0 := a, Suc 0 := b]) = a" for a b by (simp add: hd_conv_nth list_update_nonempty cs)
  then show ?thesis unfolding s' by (simp add: p1 p2)
qed

end
