(* ===== verification/Tty_Input.thy ===== *)
theory Tty_Input
  imports Tty
begin

unbundle bit_operations_syntax

section \<open>Reading from a screen terminal\<close>

text \<open>
  Model of the input half of \<^verbatim>\<open>src/kernel/drivers/tty.c\<close> for the terminals on the screen: the character a key stands for,
  Ctrl+C and Ctrl+D, reading of one character and the editing of a line with the cursor keys and the history.  Where a reader
  waits it takes the list of what happens between its wake-ups; \<open>None\<close> when nothing happens any more.  The
  line is the part of the caller's buffer before \<^verbatim>\<open>n\<close>; after a read that returns 0 or -1 the buffer holds what was typed, which
  the model leaves out.  A read that ends with its own task, which Ctrl+C
  can end, does not return.
\<close>

type_synonym wakes = "(tsys \<Rightarrow> tsys) list"

subsection \<open>Keys\<close>

definition tty_is_alpha_scancode :: "u8 \<Rightarrow> bool" where
  "tty_is_alpha_scancode c \<longleftrightarrow> (0x10 \<le> c \<and> c \<le> 0x19) \<or> (0x1E \<le> c \<and> c \<le> 0x26) \<or> (0x2C \<le> c \<and> c \<le> 0x32)"

definition tty_event_ascii :: "key_event \<Rightarrow> kbd \<Rightarrow> byte" where
  "tty_event_ascii ev k =
     (if ev_ascii ev \<noteq> NUL then ev_ascii ev
      else if ev_scancode ev = KEY_ENTER then CHR 10
      else if ev_scancode ev = KEY_BACKSPACE \<or> ev_scancode ev = KEY_DEL then CHR 8
      else if ev_scancode ev = KEY_TAB then CHR 9
      else if ev_ctrl ev \<or> ev_alt ev then NUL
      else if unat (ev_scancode ev) \<ge> 255 then NUL
      else let l = keyboard_get_layout k; layout = (if l \<ge> LAYOUT_COUNT then 0 else l) in
        keyboard_map layout (ev_shift ev \<noteq> (ev_caps ev \<and> tty_is_alpha_scancode (ev_scancode ev))) (unat (ev_scancode ev)))"

text \<open>The next character and the next event of the keyboard, which are there when they are asked for.\<close>

definition get_char :: "tsys \<Rightarrow> (byte \<times> tsys) option" where
  "get_char s = map_option (\<lambda>(c, k). (c, s\<lparr>ts_kbd := k\<rparr>)) (keyboard_getchar [] (ts_kbd s))"

definition get_event :: "tsys \<Rightarrow> (key_event \<times> tsys) option" where
  "get_event s = map_option (\<lambda>(e, k). (e, s\<lparr>ts_kbd := k\<rparr>)) (keyboard_get_event [] (ts_kbd s))"

definition no_return :: "byte \<Rightarrow> byte" where
  "no_return c = (if c = CHR 13 then CHR 10 else c)"

definition tty_take_input_char :: "key_event \<Rightarrow> tsys \<Rightarrow> (byte \<times> tsys) option" where
  "tty_take_input_char ev s =
     (if keyboard_available (ts_kbd s)
      then map_option (\<lambda>(c, s1). (no_return (if c = CHR 0x7F then CHR 8 else c), s1)) (get_char s)
      else let c = tty_event_ascii ev (ts_kbd s);
               c1 = (if ev_scancode ev = KEY_ENTER then CHR 10
                     else if ev_scancode ev = KEY_BACKSPACE \<or> ev_scancode ev = KEY_DEL then CHR 8 else c) in
        Some (no_return c1, s))"

text \<open>Halting until an interrupt, which gets its way whether interrupts were enabled or not.\<close>

definition tty_spin_wait :: "(tsys \<Rightarrow> tsys) \<Rightarrow> tsys \<Rightarrow> tsys" where
  "tty_spin_wait f s =
     (let s1 = f (s\<lparr>ts_kbd := (ts_kbd s)\<lparr>k_if := True\<rparr>\<rparr>) in
      if k_if (ts_kbd s) then s1 else s1\<lparr>ts_kbd := (ts_kbd s1)\<lparr>k_if := False\<rparr>\<rparr>)"

fun wait_while :: "(tsys \<Rightarrow> bool) \<Rightarrow> wakes \<Rightarrow> tsys \<Rightarrow> (wakes \<times> tsys) option" where
  "wait_while p envs s =
     (if \<not> p s then Some (envs, s) else case envs of [] \<Rightarrow> None | f # fs \<Rightarrow> wait_while p fs (tty_spin_wait f s))"

declare wait_while.simps [simp del]

definition key_waits :: "tsys \<Rightarrow> bool" where
  "key_waits s \<longleftrightarrow> keyboard_event_available (ts_kbd s) \<or> keyboard_available (ts_kbd s)"

text \<open>Until the terminal is shown, and then until a key has been pressed.\<close>

definition wait_key :: "wakes \<Rightarrow> nat \<Rightarrow> tsys \<Rightarrow> (wakes \<times> tsys) option" where
  "wait_key envs i s = do {
     (envs1, s1) \<leftarrow> wait_while (\<lambda>s. \<not> is_active i s) envs s;
     wait_while (\<lambda>s. \<not> key_waits s) envs1 s1 }"

subsection \<open>Ctrl+C and Ctrl+D\<close>

text \<open>Ending the foreground process; the result says whether this task goes on.\<close>

definition tty_kill_fg :: "(kstate \<Rightarrow> kstate) list \<Rightarrow> nat \<Rightarrow> tsys \<Rightarrow> (bool \<times> tsys) option" where
  "tty_kill_fg irqs i s =
     (let pid = tt_fg_pid (tty s i) in
      if pid > 0 then do {
        (r, k) \<leftarrow> task_terminate_by_pid irqs (nat pid) (-1) 2 (ts_k s);
        Some (\<not> (r = 0 \<and> task_find_by_pid (nat pid) (ts_k s) = current_task (ts_k s)), s\<lparr>ts_k := k\<rparr>) }
      else Some (True, s))"

definition echo_interrupt :: "(byte \<Rightarrow> tsys \<Rightarrow> tsys) \<Rightarrow> tsys \<Rightarrow> tsys" where
  "echo_interrupt put s = fold put [CHR ''^'', CHR ''C'', CHR 10] s"

text \<open>The result of a read: it goes on, returns a value with the bytes stored, or ends with its task.\<close>

datatype 'e progress = Again 'e tsys | Ends int string tsys | Gone tsys

type_synonym read_outcome = "((int \<times> string) option \<times> tsys) option"

text \<open>The control characters while a line is edited; \<open>None\<close> for any other character.\<close>

definition tty_handle_ctrl_char :: "(kstate \<Rightarrow> kstate) list \<Rightarrow> nat \<Rightarrow> byte \<Rightarrow> tsys \<Rightarrow> 'e progress option option" where
  "tty_handle_ctrl_char irqs i c s =
     (if c = CHR 4 then Some (Some (Ends 0 [] (tty_input_cursor i False s)))
      else if c = CHR 3 then
        Some (map_option (\<lambda>(alive, s1). if alive then Ends (-1) [] (echo_interrupt (tty_putc i) (tty_input_cursor i False s1)) else Gone s1)
          (tty_kill_fg irqs i s))
      else None)"

subsection \<open>Reading one character\<close>

text \<open>The driver whose read function it is: \<open>v\<close> for the frame buffer.\<close>

definition put_echo :: "bool \<Rightarrow> nat \<Rightarrow> byte \<Rightarrow> tsys \<Rightarrow> tsys" where
  "put_echo v = (if v then tty_putc_vesa else tty_putc_vga)"

definition echo_char :: "bool \<Rightarrow> nat \<Rightarrow> bool \<Rightarrow> byte \<Rightarrow> tsys \<Rightarrow> tsys" where
  "echo_char v i rubout c s =
     (if c = CHR 8 \<or> (rubout \<and> c = CHR 0x7F) then put_echo v i CHR 8 s
      else if c = CHR 10 \<or> ((of_char c :: nat) \<ge> 32 \<and> c \<noteq> CHR 0x7F) then put_echo v i c s
      else s)"

definition one_char :: "bool \<Rightarrow> (kstate \<Rightarrow> kstate) list \<Rightarrow> nat \<Rightarrow> bool \<Rightarrow> byte \<Rightarrow> tsys \<Rightarrow> unit progress option" where
  "one_char v irqs i rubout c s =
     (if c = CHR 4 then Some (Ends 0 [] s)
      else if c = CHR 3 then
        map_option (\<lambda>(alive, s1). if alive then Again () (echo_interrupt (put_echo v i) s1) else Gone s1) (tty_kill_fg irqs i s)
      else Some (Ends 1 [c] (echo_char v i rubout c s)))"

text \<open>A key event; on the frame buffer the character queued with it is dropped first.\<close>

definition one_event :: "bool \<Rightarrow> (kstate \<Rightarrow> kstate) list \<Rightarrow> nat \<Rightarrow> key_event \<Rightarrow> tsys \<Rightarrow> unit progress option" where
  "one_event v irqs i ev s =
     (if \<not> ev_pressed ev then Some (Again () s)
      else do {
        s1 \<leftarrow> (if v \<and> ev_ascii ev \<noteq> NUL \<and> keyboard_available (ts_kbd s) then map_option snd (get_char s) else Some s);
        (c, s2) \<leftarrow> tty_take_input_char ev s1;
        if c = NUL then Some (Again () s2) else one_char v irqs i False c s2 })"

definition one_key :: "bool \<Rightarrow> (kstate \<Rightarrow> kstate) list \<Rightarrow> nat \<Rightarrow> tsys \<Rightarrow> unit progress option" where
  "one_key v irqs i s =
     (if \<not> keyboard_event_available (ts_kbd s) \<and> keyboard_available (ts_kbd s)
      then do { (c, s1) \<leftarrow> get_char s; one_char v irqs i True (no_return c) s1 }
      else do { (ev, s1) \<leftarrow> get_event s; one_event v irqs i ev s1 })"

partial_function (option) read_one :: "bool \<Rightarrow> (kstate \<Rightarrow> kstate) list \<Rightarrow> wakes \<Rightarrow> nat \<Rightarrow> tsys \<Rightarrow> read_outcome" where
  "read_one v irqs envs i s = do {
     (envs1, s1) \<leftarrow> wait_key envs i s;
     if \<not> is_active i s1 then read_one v irqs envs1 i s1
     else do {
       r \<leftarrow> one_key v irqs i s1;
       (case r of Again _ s2 \<Rightarrow> read_one v irqs envs1 i s2
                | Ends v bs s2 \<Rightarrow> Some (Some (v, bs), s2)
                | Gone s2 \<Rightarrow> Some (None, s2)) } }"

subsection \<open>Editing a line\<close>

record editor =
  ed_line :: string
  ed_cursor :: nat
  ed_pos :: int
  ed_saved :: string
  ed_saved_cursor :: nat

definition new_editor :: editor where
  "new_editor = \<lparr>ed_line = [], ed_cursor = 0, ed_pos = -1, ed_saved = [], ed_saved_cursor = 0\<rparr>"

text \<open>The line changed before the cursor.\<close>

definition line_erase :: "editor \<Rightarrow> editor" where
  "line_erase e = e\<lparr>ed_line := take (ed_cursor e - 1) (ed_line e) @ drop (ed_cursor e) (ed_line e), ed_cursor := ed_cursor e - 1\<rparr>"

definition line_insert :: "byte \<Rightarrow> editor \<Rightarrow> editor" where
  "line_insert c e = e\<lparr>ed_line := take (ed_cursor e) (ed_line e) @ c # drop (ed_cursor e) (ed_line e), ed_cursor := ed_cursor e + 1\<rparr>"

definition puts_vesa :: "nat \<Rightarrow> string \<Rightarrow> tsys \<Rightarrow> tsys" where
  "puts_vesa i bs s = fold (tty_putc_vesa i) bs s"

definition moves_left :: "nat \<Rightarrow> nat \<Rightarrow> tsys \<Rightarrow> tsys" where
  "moves_left i n s = upd_tty i (tty_cursor_left_raw ^^ n) s"

definition moves_right :: "nat \<Rightarrow> nat \<Rightarrow> tsys \<Rightarrow> tsys" where
  "moves_right i n s = upd_tty i (tty_cursor_right_raw ^^ n) s"

definition tty_input_clear_line :: "nat \<Rightarrow> string \<Rightarrow> nat \<Rightarrow> tsys \<Rightarrow> tsys" where
  "tty_input_clear_line i line cursor s =
     moves_left i (length line) (puts_vesa i (replicate (length line) CHR '' '')
       (moves_left i (length line) (puts_vesa i (drop cursor line) s)))"

definition tty_input_draw_line :: "nat \<Rightarrow> string \<Rightarrow> nat \<Rightarrow> tsys \<Rightarrow> tsys" where
  "tty_input_draw_line i line cursor s = moves_left i (length line - cursor) (puts_vesa i line s)"

definition vesa_erase :: "nat \<Rightarrow> editor \<Rightarrow> tsys \<Rightarrow> editor progress" where
  "vesa_erase i e s =
     (if ed_cursor e > 0 then
        let e1 = line_erase e; rest = drop (ed_cursor e1) (ed_line e1) in
        Again e1 (tty_input_cursor i True (moves_left i (length rest + 1) (tty_putc_vesa i CHR '' '' (puts_vesa i rest
          (tty_putc_vesa i CHR 8 (tty_input_cursor i False s))))))
      else Again e s)"

definition vesa_insert :: "nat \<Rightarrow> byte \<Rightarrow> editor \<Rightarrow> tsys \<Rightarrow> editor progress" where
  "vesa_insert i c e s =
     (let e1 = line_insert c e in
      Again e1 (tty_input_cursor i True (moves_left i (length (ed_line e1) - ed_cursor e1)
        (puts_vesa i (drop (ed_cursor e) (ed_line e1)) (tty_input_cursor i False s)))))"

definition vesa_finish :: "nat \<Rightarrow> editor \<Rightarrow> tsys \<Rightarrow> editor progress" where
  "vesa_finish i e s =
     (let s1 = tty_input_cursor i False s;
          s2 = (if ed_line e \<noteq> [] then upd_tty i (tty_history_store (ed_line e)) s1 else s1) in
      Ends (int (length (ed_line e)) + 1) (ed_line e @ [CHR 10, NUL]) (tty_putc_vesa i CHR 10 s2))"

text \<open>A character that came without an event.\<close>

definition vesa_char :: "(kstate \<Rightarrow> kstate) list \<Rightarrow> nat \<Rightarrow> byte \<Rightarrow> editor \<Rightarrow> tsys \<Rightarrow> editor progress option" where
  "vesa_char irqs i c e s =
     (case tty_handle_ctrl_char irqs i c s of
        Some r \<Rightarrow> r
      | None \<Rightarrow> Some
         (if c = CHR 10 then vesa_finish i e s
          else if c = CHR 8 \<or> c = CHR 0x7F then vesa_erase i e s
          else if (of_char c :: nat) \<ge> 32 then vesa_insert i c e s
          else Again e s))"

text \<open>The cursor keys and the history; the line and the screen change between hiding and showing the mark.\<close>

definition vesa_left :: "nat \<Rightarrow> editor \<Rightarrow> nat \<Rightarrow> tsys \<Rightarrow> editor progress" where
  "vesa_left i e n s =
     (if ed_cursor e > 0
      then Again (e\<lparr>ed_cursor := ed_cursor e - n\<rparr>) (tty_input_cursor i True (moves_left i n (tty_input_cursor i False s)))
      else Again e s)"

definition vesa_right :: "nat \<Rightarrow> editor \<Rightarrow> nat \<Rightarrow> tsys \<Rightarrow> editor progress" where
  "vesa_right i e n s =
     (if ed_cursor e < length (ed_line e)
      then Again (e\<lparr>ed_cursor := ed_cursor e + n\<rparr>) (tty_input_cursor i True (moves_right i n (tty_input_cursor i False s)))
      else Again e s)"

text \<open>Another line shown in place of the present one.\<close>

definition vesa_replace :: "nat \<Rightarrow> nat \<Rightarrow> string \<Rightarrow> nat \<Rightarrow> editor \<Rightarrow> tsys \<Rightarrow> editor \<times> tsys" where
  "vesa_replace i sz line cursor e s =
     (let l = (if length line \<ge> sz then take (sz - 1) line else line); c = (if cursor \<le> length l then cursor else length l) in
      (e\<lparr>ed_line := l, ed_cursor := c\<rparr>, tty_input_draw_line i l c s))"

definition vesa_up :: "nat \<Rightarrow> nat \<Rightarrow> editor \<Rightarrow> tsys \<Rightarrow> editor progress" where
  "vesa_up i sz e s =
     (let d = tty s i in
      if tt_history_count d = 0 then Again e s
      else let e1 = (if ed_pos e < int (tt_history_count d) - 1
                then let e0 = (if ed_pos e < 0 then e\<lparr>ed_saved := ed_line e, ed_saved_cursor := ed_cursor e\<rparr> else e) in e0\<lparr>ed_pos := ed_pos e + 1\<rparr>
                else e) in
        (case tty_history_get d (nat (ed_pos e1)) of
           None \<Rightarrow> Again e1 s
         | Some hline \<Rightarrow>
             let s1 = tty_input_clear_line i (ed_line e1) (ed_cursor e1) (tty_input_cursor i False s);
                 (e2, s2) = vesa_replace i sz hline (length hline) e1 s1 in
             Again e2 (tty_input_cursor i True s2)))"

definition vesa_down :: "nat \<Rightarrow> nat \<Rightarrow> editor \<Rightarrow> tsys \<Rightarrow> editor progress" where
  "vesa_down i sz e s =
     (if ed_pos e < 0 then Again e s
      else let s1 = tty_input_clear_line i (ed_line e) (ed_cursor e) (tty_input_cursor i False s) in
        if ed_pos e > 0 then
          let e1 = e\<lparr>ed_pos := ed_pos e - 1\<rparr> in
          (case tty_history_get (tty s1 i) (nat (ed_pos e1)) of
             None \<Rightarrow> Again e1 (tty_input_cursor i True s1)
           | Some hline \<Rightarrow>
               let (e2, s2) = vesa_replace i sz hline (length hline) e1 s1 in Again e2 (tty_input_cursor i True s2))
        else
          let (e2, s2) = vesa_replace i sz (ed_saved e) (ed_saved_cursor e) (e\<lparr>ed_pos := -1\<rparr>) s1 in
          Again e2 (tty_input_cursor i True s2))"

text \<open>A key event.\<close>

definition vesa_event :: "(kstate \<Rightarrow> kstate) list \<Rightarrow> nat \<Rightarrow> nat \<Rightarrow> key_event \<Rightarrow> editor \<Rightarrow> tsys \<Rightarrow> editor progress option" where
  "vesa_event irqs i sz ev e s =
     (if \<not> ev_pressed ev then Some (Again e s)
      else if ev_scancode ev = KEY_LEFT then Some (vesa_left i e 1 s)
      else if ev_scancode ev = KEY_RIGHT then Some (vesa_right i e 1 s)
      else if ev_scancode ev = KEY_HOME then Some (vesa_left i e (ed_cursor e) s)
      else if ev_scancode ev = KEY_END then Some (vesa_right i e (length (ed_line e) - ed_cursor e) s)
      else if ev_scancode ev = KEY_UP then Some (vesa_up i sz e s)
      else if ev_scancode ev = KEY_DOWN then Some (vesa_down i sz e s)
      else do {
        (c, s1) \<leftarrow> tty_take_input_char ev s;
        (case tty_handle_ctrl_char irqs i c s1 of
           Some r \<Rightarrow> r
         | None \<Rightarrow> Some
            (if c = CHR 10 \<or> ev_scancode ev = KEY_ENTER then vesa_finish i e s1
             else if c = CHR 8 \<or> ev_scancode ev = KEY_BACKSPACE \<or> ev_scancode ev = KEY_DEL then vesa_erase i e s1
             else if (of_char c :: nat) < 32 \<or> (of_char c :: nat) \<ge> 127 then Again e s1
             else if length (ed_line e) < sz - 1 then vesa_insert i c e s1
             else Again e s1)) })"

definition vesa_key :: "(kstate \<Rightarrow> kstate) list \<Rightarrow> nat \<Rightarrow> nat \<Rightarrow> editor \<Rightarrow> tsys \<Rightarrow> editor progress option" where
  "vesa_key irqs i sz e s =
     (if \<not> keyboard_event_available (ts_kbd s) \<and> keyboard_available (ts_kbd s)
      then do { (c, s1) \<leftarrow> get_char s; vesa_char irqs i (no_return c) e s1 }
      else do { (ev, s1) \<leftarrow> get_event s; vesa_event irqs i sz ev e s1 })"

partial_function (option) vesa_line :: "(kstate \<Rightarrow> kstate) list \<Rightarrow> wakes \<Rightarrow> nat \<Rightarrow> nat \<Rightarrow> editor \<Rightarrow> tsys \<Rightarrow> read_outcome" where
  "vesa_line irqs envs i sz e s =
     (if \<not> length (ed_line e) < sz - 1 then Some (Some (int (length (ed_line e)), ed_line e @ [NUL]), tty_input_cursor i False s)
      else do {
        (envs1, s1) \<leftarrow> wait_key envs i s;
        if \<not> is_active i s1 then vesa_line irqs envs1 i sz e s1
        else do {
          r \<leftarrow> vesa_key irqs i sz e s1;
          (case r of Again e2 s2 \<Rightarrow> vesa_line irqs envs1 i sz e2 s2
                   | Ends v bs s2 \<Rightarrow> Some (Some (v, bs), s2)
                   | Gone s2 \<Rightarrow> Some (None, s2)) } })"

definition tty_vesa_read :: "(kstate \<Rightarrow> kstate) list \<Rightarrow> wakes \<Rightarrow> nat option \<Rightarrow> bool \<Rightarrow> nat \<Rightarrow> tsys \<Rightarrow> read_outcome" where
  "tty_vesa_read irqs envs ctx buf sz0 s =
     (case ctx of None \<Rightarrow> Some (Some (-1, []), s) | Some i \<Rightarrow>
        if \<not> buf then Some (Some (-1, []), s)
        else if sz0 = 0 then Some (Some (0, []), s)
        else let sz = (if sz0 > TTY_HISTORY_LINE_MAX then TTY_HISTORY_LINE_MAX else sz0) in
          if sz = 1 then read_one True irqs envs i s
          else vesa_line irqs envs i sz new_editor (tty_input_cursor i True s))"

subsection \<open>A line in text mode\<close>

text \<open>Only the end of the line can be changed; the editor is the line.\<close>

definition vga_ctrl :: "(kstate \<Rightarrow> kstate) list \<Rightarrow> nat \<Rightarrow> byte \<Rightarrow> tsys \<Rightarrow> string progress option option" where
  "vga_ctrl irqs i c s =
     (if c = CHR 4 then Some (Some (Ends 0 [] s))
      else if c = CHR 3 then
        Some (map_option (\<lambda>(alive, s1). if alive then Ends (-1) [] (echo_interrupt (tty_putc_vga i) s1) else Gone s1) (tty_kill_fg irqs i s))
      else None)"

definition vga_finish :: "nat \<Rightarrow> string \<Rightarrow> tsys \<Rightarrow> string progress" where
  "vga_finish i line s = Ends (int (length line) + 1) (line @ [CHR 10, NUL]) (tty_putc_vga i CHR 10 s)"

definition vga_erase :: "nat \<Rightarrow> string \<Rightarrow> tsys \<Rightarrow> string progress" where
  "vga_erase i line s = (if line \<noteq> [] then Again (butlast line) (tty_putc_vga i CHR 8 s) else Again line s)"

definition vga_char :: "(kstate \<Rightarrow> kstate) list \<Rightarrow> nat \<Rightarrow> byte \<Rightarrow> string \<Rightarrow> tsys \<Rightarrow> string progress option" where
  "vga_char irqs i c line s =
     (case vga_ctrl irqs i c s of
        Some r \<Rightarrow> r
      | None \<Rightarrow> Some
         (if c = CHR 10 then vga_finish i line s
          else if c = CHR 8 \<or> c = CHR 0x7F then vga_erase i line s
          else if (of_char c :: nat) < 32 then Again line s
          else Again (line @ [c]) (tty_putc_vga i c s)))"

definition vga_event :: "(kstate \<Rightarrow> kstate) list \<Rightarrow> nat \<Rightarrow> key_event \<Rightarrow> string \<Rightarrow> tsys \<Rightarrow> string progress option" where
  "vga_event irqs i ev line s =
     (if \<not> ev_pressed ev then Some (Again line s)
      else do {
        (c, s1) \<leftarrow> tty_take_input_char ev s;
        (case vga_ctrl irqs i c s1 of
           Some r \<Rightarrow> r
         | None \<Rightarrow> Some
            (if ev_scancode ev = KEY_ENTER then vga_finish i line s1
             else if ev_scancode ev = KEY_BACKSPACE \<or> ev_scancode ev = KEY_DEL then vga_erase i line s1
             else if c = CHR 13 then vga_finish i line s1
             else if (of_char c :: nat) < 32 \<or> c = CHR 0x7F then Again line s1
             else Again (line @ [c]) (tty_putc_vga i c s1))) })"

definition vga_key :: "(kstate \<Rightarrow> kstate) list \<Rightarrow> nat \<Rightarrow> string \<Rightarrow> tsys \<Rightarrow> string progress option" where
  "vga_key irqs i line s =
     (if \<not> keyboard_event_available (ts_kbd s) \<and> keyboard_available (ts_kbd s)
      then do { (c, s1) \<leftarrow> get_char s; vga_char irqs i (no_return c) line s1 }
      else do { (ev, s1) \<leftarrow> get_event s; vga_event irqs i ev line s1 })"

partial_function (option) vga_line :: "(kstate \<Rightarrow> kstate) list \<Rightarrow> wakes \<Rightarrow> nat \<Rightarrow> nat \<Rightarrow> string \<Rightarrow> tsys \<Rightarrow> read_outcome" where
  "vga_line irqs envs i sz line s =
     (if \<not> length line < sz - 1 then Some (Some (int (length line), line @ [NUL]), s)
      else do {
        (envs1, s1) \<leftarrow> wait_key envs i s;
        if \<not> is_active i s1 then vga_line irqs envs1 i sz line s1
        else do {
          r \<leftarrow> vga_key irqs i line s1;
          (case r of Again line2 s2 \<Rightarrow> vga_line irqs envs1 i sz line2 s2
                   | Ends v bs s2 \<Rightarrow> Some (Some (v, bs), s2)
                   | Gone s2 \<Rightarrow> Some (None, s2)) } })"

definition tty_vga_read :: "(kstate \<Rightarrow> kstate) list \<Rightarrow> wakes \<Rightarrow> nat option \<Rightarrow> bool \<Rightarrow> nat \<Rightarrow> tsys \<Rightarrow> read_outcome" where
  "tty_vga_read irqs envs ctx buf sz s =
     (case ctx of None \<Rightarrow> Some (Some (-1, []), s) | Some i \<Rightarrow>
        if \<not> buf \<or> tt_type (tty s i) \<noteq> TTY_VGA then Some (Some (-1, []), s)
        else if sz = 0 then Some (Some (0, []), s)
        else if sz = 1 then read_one False irqs envs i s
        else vga_line irqs envs i sz [] s)"

end
