(* ===== verification/Tty_Screen.thy ===== *)
theory Tty_Screen
  imports Tty_Props Tty_Input
begin

section \<open>The text screen shows the active terminal\<close>

text \<open>
  In text mode every operation on a terminal that is shown also changes the words of the text buffer.  Here that is proved to be
  the same as drawing the terminal anew: whatever is written to which of the eight terminals and however the user
  switches between them, the buffer holds the cells of the active terminal in the present color.
\<close>

definition text_screen :: "tty_device \<Rightarrow> bool" where
  "text_screen d \<longleftrightarrow> tt_type d = TTY_VGA \<and> tt_cols d = VGA_WIDTH \<and> tt_rows d = VGA_HEIGHT \<and>
     (\<exists>cs. tt_cells d = Some cs \<and> length cs = VGA_WIDTH * VGA_HEIGHT)"

definition vga_shows :: "tty_device \<Rightarrow> vga_state \<Rightarrow> bool" where
  "vga_shows d v \<longleftrightarrow> (\<forall>k < VGA_WIDTH * VGA_HEIGHT. vg_buf v k = vga_entry (vg_color v) (the (tt_cells d) ! k))"

definition tty_shown :: "nat \<Rightarrow> tsys \<Rightarrow> bool" where
  "tty_shown i s \<longleftrightarrow> i < length (g_tty_v s) \<and> text_screen (tty s i) \<and> is_active i s \<and> vga_shows (tty s i) (ts_vga s)"

lemmas vga_size = VGA_WIDTH_def VGA_HEIGHT_def

lemma cursor_set_fields [simp]:
  "vg_buf (vga_cursor_set x y v) = vg_buf v" "vg_color (vga_cursor_set x y v) = vg_color v"
  by (simp_all add: vga_cursor_set_def)

lemma fold_store_words:
  "fold (\<lambda>x b. b(a + x := f x)) [0..<n] b k = (if a \<le> k \<and> k < a + n then f (k - a) else b k)" for a :: nat
  by (induction n) (auto simp: less_Suc_eq)

lemma upd_length: "length (g_tty_v (upd_tty i f s)) = length (g_tty_v s)"
  by (simp add: upd_tty_v)

subsection \<open>Drawing a row\<close>

lemma row_words:
  assumes "text_screen d" "y < VGA_HEIGHT"
  shows "vg_buf (vga_row d y v) k =
      (if y * VGA_WIDTH \<le> k \<and> k < y * VGA_WIDTH + VGA_WIDTH then vga_entry (vg_color v) (the (tt_cells d) ! k) else vg_buf v k)"
    "vg_color (vga_row d y v) = vg_color v"
proof -
  obtain cs where cs: "tt_cells d = Some cs" "tt_cols d = VGA_WIDTH" "tt_rows d = VGA_HEIGHT" using assms(1) by (auto simp: text_screen_def)
  have ix: "add32 (mul32 y VGA_WIDTH) x = y * VGA_WIDTH + x" if "x < VGA_WIDTH" for x
    using assms(2) that by (simp add: vga_size wrap_simps)
  have "fold (\<lambda>x b. b(add32 (mul32 y VGA_WIDTH) x := vga_entry (vga_color_get v) (cell_at d x y))) [0..<VGA_WIDTH] (vg_buf v) =
      fold (\<lambda>x b. b(y * VGA_WIDTH + x := vga_entry (vg_color v) (cs ! (y * VGA_WIDTH + x)))) [0..<VGA_WIDTH] (vg_buf v)"
    by (rule fold_cong) (simp_all add: ix cell_at_def cell_index_def cs vga_color_get_def)
  then show "vg_buf (vga_row d y v) k =
      (if y * VGA_WIDTH \<le> k \<and> k < y * VGA_WIDTH + VGA_WIDTH then vga_entry (vg_color v) (the (tt_cells d) ! k) else vg_buf v k)"
    by (simp add: vga_row_def cs fold_store_words)
qed (simp add: vga_row_def)

lemma redraw_shows:
  assumes "text_screen d" "y < VGA_HEIGHT"
    "\<And>k. k < VGA_WIDTH * VGA_HEIGHT \<Longrightarrow> k < y * VGA_WIDTH \<or> y * VGA_WIDTH + VGA_WIDTH \<le> k \<Longrightarrow> vg_buf v k = vga_entry (vg_color v) (the (tt_cells d) ! k)"
  shows "vga_shows d (vga_row d y v)"
  using assms(3) by (auto simp: vga_shows_def row_words [OF assms(1,2)] not_less not_le)

lemma redraw_row_vga:
  assumes "text_screen (tty s i)" "y < VGA_HEIGHT"
  shows "tty_redraw_row i y s = on_vga (vga_row (tty s i) y) s"
  using assms by (auto simp: tty_redraw_row_def Let_def text_screen_def)

lemma fold_rows:
  assumes "text_screen d" "n \<le> VGA_HEIGHT"
  shows "(\<forall>k < n * VGA_WIDTH. vg_buf (fold (vga_row d) [0..<n] v) k = vga_entry (vg_color v) (the (tt_cells d) ! k)) \<and>
    vg_color (fold (vga_row d) [0..<n] v) = vg_color v"
  using assms(2)
proof (induction n)
  case (Suc n)
  then have n: "n < VGA_HEIGHT" by simp
  show ?case using Suc.IH n row_words [OF assms(1) n] by (auto simp: less_Suc_eq)
qed simp

lemma render_shows:
  assumes "text_screen (tty s i)"
  shows "vga_shows (tty s i) (ts_vga (tty_render_full i s))"
proof -
  obtain cs where d: "tt_cells (tty s i) = Some cs" "tt_type (tty s i) = TTY_VGA" "tt_rows (tty s i) = VGA_HEIGHT"
    using assms by (auto simp: text_screen_def)
  let ?v = "(ts_vga s)\<lparr>vg_buf := fill_words 0 (VGA_WIDTH * VGA_HEIGHT) (vga_entry (vga_color_get (ts_vga s)) CHR '' '') (vg_buf (ts_vga s))\<rparr>"
  have "\<forall>k < VGA_HEIGHT * VGA_WIDTH. vg_buf (fold (vga_row (tty s i)) [0..<VGA_HEIGHT] ?v) k = vga_entry (vg_color ?v) (the (tt_cells (tty s i)) ! k)"
    "vg_color (fold (vga_row (tty s i)) [0..<VGA_HEIGHT] ?v) = vg_color ?v"
    using fold_rows [OF assms order_refl, of ?v] by blast+
  then show ?thesis using d by (simp add: tty_render_full_def Let_def vga_shows_def mult.commute)
qed

subsection \<open>Operations on the terminal shown\<close>

lemma shown_upd:
  assumes "tty_shown i s" "tt_type (f (tty s i)) = TTY_VGA" "tt_cols (f (tty s i)) = tt_cols (tty s i)" "tt_rows (f (tty s i)) = tt_rows (tty s i)"
    "tt_cells (f (tty s i)) = tt_cells (tty s i)" "tt_index (f (tty s i)) = tt_index (tty s i)"
  shows "tty_shown i (upd_tty i f s)"
  using assms by (simp add: tty_shown_def text_screen_def is_active_def vga_shows_def upd_tty_v)

lemma shown_follow: "tty_shown i s \<Longrightarrow> tty_shown i (vga_follow i s)"
  by (simp add: tty_shown_def vga_follow_def vga_shows_def is_active_def)

text \<open>A cell changed, and then its row or its word.\<close>

lemma shown_cell_row:
  assumes "tty_shown i s" "x < VGA_WIDTH" "y < VGA_HEIGHT"
  shows "tty_shown i (tty_redraw_row i y (upd_tty i (set_cell x y c) s))"
proof -
  let ?d = "tty s i" and ?d' = "set_cell x y c (tty s i)"
  obtain cs where d: "tt_cells ?d = Some cs" "length cs = VGA_WIDTH * VGA_HEIGHT" "tt_cols ?d = VGA_WIDTH" "tt_rows ?d = VGA_HEIGHT"
    and i: "i < length (g_tty_v s)" "is_active i s" "vga_shows ?d (ts_vga s)" and sc: "text_screen ?d"
    using assms(1) by (auto simp: tty_shown_def text_screen_def)
  have ix: "cell_index ?d x y = y * VGA_WIDTH + x" using assms(2,3) d by (simp add: cell_index_def vga_size wrap_simps)
  have sc': "text_screen ?d'" using sc by (auto simp: text_screen_def set_cell_def)
  have "vga_shows ?d' (vga_row ?d' y (ts_vga s))"
  proof (rule redraw_shows [OF sc' assms(3)])
    fix k assume "k < VGA_WIDTH * VGA_HEIGHT" "k < y * VGA_WIDTH \<or> y * VGA_WIDTH + VGA_WIDTH \<le> k"
    then show "vg_buf (ts_vga s) k = vga_entry (vg_color (ts_vga s)) (the (tt_cells ?d') ! k)"
      using i(3) assms(2) by (auto simp: vga_shows_def set_cell_def d ix)
  qed
  moreover have "tt_index ?d' = tt_index ?d" by (simp add: set_cell_def)
  ultimately show ?thesis using i sc' assms(3)
    by (simp add: redraw_row_vga tty_shown_def is_active_def upd_tty_v)
qed

lemma shown_cell_word:
  assumes "tty_shown i s" "tt_cursor_x (tty s i) < VGA_WIDTH" "tt_cursor_y (tty s i) < VGA_HEIGHT"
  shows "tty_shown i (vga_store i c (upd_tty i (set_cursor_cell c) s))"
proof -
  let ?d = "tty s i" and ?d' = "set_cursor_cell c (tty s i)"
  obtain cs where d: "tt_cells ?d = Some cs" "length cs = VGA_WIDTH * VGA_HEIGHT" "tt_cols ?d = VGA_WIDTH" "tt_rows ?d = VGA_HEIGHT"
    and i: "i < length (g_tty_v s)" "is_active i s" "vga_shows ?d (ts_vga s)" and sc: "text_screen ?d"
    using assms(1) by (auto simp: tty_shown_def text_screen_def)
  let ?k = "tt_cursor_y ?d * VGA_WIDTH + tt_cursor_x ?d"
  have ix: "cell_index ?d (tt_cursor_x ?d) (tt_cursor_y ?d) = ?k" "add32 (mul32 (tt_cursor_y ?d) VGA_WIDTH) (tt_cursor_x ?d) = ?k"
    using assms(2,3) d by (simp_all add: cell_index_def vga_size wrap_simps)
  have sc': "text_screen ?d'" using sc by (auto simp: text_screen_def set_cursor_cell_def set_cell_def)
  have k: "?k < length cs" using assms(2,3) d(2) by (simp add: vga_size)
  have f: "tt_index ?d' = tt_index ?d" "tt_cursor_x ?d' = tt_cursor_x ?d" "tt_cursor_y ?d' = tt_cursor_y ?d" "tt_cells ?d' = Some (cs[?k := c])"
    by (simp_all add: set_cursor_cell_def set_cell_def d ix)
  have "vga_shows ?d' ((ts_vga s)\<lparr>vg_buf := (vg_buf (ts_vga s))(?k := vga_entry (vg_color (ts_vga s)) c)\<rparr>)"
    using i(3) k d by (auto simp: vga_shows_def f nth_list_update)
  moreover have "ts_vga (vga_store i c (upd_tty i (set_cursor_cell c) s)) =
      (ts_vga s)\<lparr>vg_buf := (vg_buf (ts_vga s))(?k := vga_entry (vg_color (ts_vga s)) c)\<rparr>"
    using i(1,2) by (simp add: vga_store_def is_active_def f ix(2) vga_color_get_def)
  ultimately show ?thesis using i sc' f by (simp add: tty_shown_def is_active_def upd_length)
qed

lemma shown_scroll:
  assumes "tty_shown i s"
  shows "tty_shown i (tty_scroll i s)"
proof -
  let ?d = "tty s i" and ?v = "ts_vga s" and ?n = "VGA_WIDTH * VGA_HEIGHT"
  obtain cs where d: "tt_cells ?d = Some cs" "length cs = ?n" "tt_cols ?d = VGA_WIDTH" "tt_rows ?d = VGA_HEIGHT" "tt_type ?d = TTY_VGA"
    and i: "i < length (g_tty_v s)" "is_active i s" "vga_shows ?d ?v"
    using assms by (auto simp: tty_shown_def text_screen_def)
  let ?cs = "drop VGA_WIDTH cs @ replicate VGA_WIDTH CHR '' ''"
  let ?d' = "?d\<lparr>tt_cells := Some ?cs\<rparr>"
  have cells: "scroll_cells ?d cs = ?cs" using d by (simp add: scroll_cells_def Let_def vga_size mul32_def)
  have sc': "text_screen ?d'" using d by (simp add: text_screen_def vga_size)
  let ?w = "?v\<lparr>vg_buf := copy_down VGA_WIDTH ((VGA_HEIGHT - 1) * VGA_WIDTH) (vg_buf ?v)\<rparr>"
  have "vga_shows ?d' (vga_row ?d' (VGA_HEIGHT - 1) ?w)"
  proof (rule redraw_shows [OF sc'])
    fix k assume "k < ?n" "k < (VGA_HEIGHT - 1) * VGA_WIDTH \<or> (VGA_HEIGHT - 1) * VGA_WIDTH + VGA_WIDTH \<le> k"
    then have k: "k < (VGA_HEIGHT - 1) * VGA_WIDTH" by (auto simp: vga_size)
    then have "k + VGA_WIDTH < ?n" "k < length (drop VGA_WIDTH cs)" using d(2) by (simp_all add: vga_size)
    then show "vg_buf ?w k = vga_entry (vg_color ?w) (the (tt_cells ?d') ! k)"
      using k i(3) d(1,2) by (simp add: copy_down vga_shows_def nth_append add.commute vga_size)
  qed (simp add: vga_size)
  moreover have "tty_scroll i s = tty_redraw_row i (VGA_HEIGHT - 1)
      (on_vga (\<lambda>v. v\<lparr>vg_buf := copy_down VGA_WIDTH ((VGA_HEIGHT - 1) * VGA_WIDTH) (vg_buf v)\<rparr>) (upd_tty i (\<lambda>d. d\<lparr>tt_cells := map_option (scroll_cells d) (tt_cells d)\<rparr>) s))"
    using d i by (simp add: tty_scroll_def Let_def is_active_def vga_size)
  ultimately show ?thesis using i sc' d(1)
    by (simp add: redraw_row_vga cells tty_shown_def is_active_def upd_tty_v vga_size)
qed

lemma shown_next_row:
  assumes "tty_shown i s"
  shows "tty_shown i (tty_next_row i s)"
proof -
  have "tty_shown i (upd_tty i (\<lambda>d. d\<lparr>tt_cursor_x := 0, tt_cursor_y := add32 (tt_cursor_y d) 1\<rparr>) s)"
    by (rule shown_upd [OF assms]) (use assms in \<open>auto simp: tty_shown_def text_screen_def\<close>)
  moreover from this have "tty_shown i (upd_tty i (\<lambda>d. d\<lparr>tt_cursor_y := sub32 (tt_rows d) 1\<rparr>) (upd_tty i (\<lambda>d. d\<lparr>tt_cursor_x := 0, tt_cursor_y := add32 (tt_cursor_y d) 1\<rparr>) s))"
    by (rule shown_upd) (use assms in \<open>auto simp: tty_shown_def text_screen_def upd_length\<close>)
  ultimately show ?thesis by (simp add: tty_next_row_def Let_def shown_scroll)
qed

lemma shown_advance:
  assumes "tty_shown i s"
  shows "tty_shown i (tty_advance i s)"
proof -
  have "tty_shown i (upd_tty i (\<lambda>d. d\<lparr>tt_cursor_x := add32 (tt_cursor_x d) 1\<rparr>) s)"
    by (rule shown_upd [OF assms]) (use assms in \<open>auto simp: tty_shown_def text_screen_def\<close>)
  then show ?thesis by (simp add: tty_advance_def Let_def shown_next_row)
qed

lemma shown_erase:
  assumes "tty_shown i s"
  shows "tty_shown i (tty_erase_to_eol i s)"
proof -
  let ?y = "tt_cursor_y (tty s i)"
  let ?F = "\<lambda>x s. let s1 = upd_tty i (set_cell x ?y CHR '' '') s in
            if is_active i s1 then if tt_type (tty s1 i) = TTY_VGA then tty_redraw_row i ?y s1 else tty_draw_cell x ?y CHR '' '' s1 else s1"
  have step: "tty_shown i (?F x t)" if "tty_shown i t" "x < VGA_WIDTH" "?y < VGA_HEIGHT" for x t
  proof -
    have "is_active i (upd_tty i (set_cell x ?y CHR '' '') t)" "tt_type (tty (upd_tty i (set_cell x ?y CHR '' '') t) i) = TTY_VGA"
      using that(1) by (auto simp: tty_shown_def is_active_def text_screen_def set_cell_def)
    then show ?thesis using shown_cell_row [OF that] by (simp add: Let_def)
  qed
  have F: "tty_shown i (fold ?F xs t)" if "tty_shown i t" "\<And>x. x \<in> set xs \<Longrightarrow> x < VGA_WIDTH" "?y < VGA_HEIGHT" for xs t
    using that by (induction xs arbitrary: t) (auto intro: step)
  have w: "tt_cols (tty s i) = VGA_WIDTH" "tt_rows (tty s i) = VGA_HEIGHT" using assms by (auto simp: tty_shown_def text_screen_def)
  have "tty_shown i (fold ?F [tt_cursor_x (tty s i)..<tt_cols (tty s i)] s)" if "?y < VGA_HEIGHT"
    by (rule F [OF assms _ that]) (simp add: w)
  then show ?thesis using assms w unfolding tty_erase_to_eol_def Let_def by auto
qed

lemma repeat_fields:
  "tt_index ((tty_cursor_left_raw ^^ n) d) = tt_index d" "tt_index ((tty_cursor_right_raw ^^ n) d) = tt_index d"
  by (auto intro!: repeat_field simp: tty_cursor_left_raw_def tty_cursor_right_raw_def Let_def)

lemma shown_command:
  assumes "tty_shown i s"
  shows "tty_shown i (ansi_command i c s)"
proof -
  have ty: "tt_type (tty s i) = TTY_VGA" using assms by (simp add: tty_shown_def text_screen_def)
  note U = shown_upd [OF assms]
  have "tty_shown i (upd_tty i (tty_cursor_left_raw ^^ n) s)" "tty_shown i (upd_tty i (tty_cursor_right_raw ^^ n) s)" for n
    by (rule U; simp add: ty repeat_field repeat_fields)+
  moreover have "tty_shown i (upd_tty i (\<lambda>d. d\<lparr>tt_cursor_x := x\<rparr>) s)" "tty_shown i (upd_tty i (\<lambda>d. d\<lparr>tt_cursor_x := 0, tt_cursor_y := 0\<rparr>) s)" for x
    by (rule U; simp add: ty)+
  ultimately show ?thesis using assms shown_erase [OF assms] by (simp add: ansi_command_def Let_def)
qed

lemma shown_escape:
  assumes "tty_shown i s"
  shows "tty_shown i (snd (tty_consume_ansi i c s))"
proof -
  have ty: "tt_type (tty t i) = TTY_VGA" if "tty_shown i t" for t using that by (simp add: tty_shown_def text_screen_def)
  note U = shown_upd [OF assms]
  have "tty_shown i (upd_tty i ansi_start s)" "tty_shown i (upd_tty i (\<lambda>d. d\<lparr>tt_ansi_state := n\<rparr>) s)"
    "tty_shown i (upd_tty i (\<lambda>d. d\<lparr>tt_ansi_have_param := True, tt_ansi_param := p d\<rparr>) s)" for n p
    by (rule U; simp add: ty [OF assms] ansi_start_def)+
  moreover have "tty_shown i (upd_tty i ansi_stop (ansi_command i c s))"
    by (rule shown_upd [OF shown_command [OF assms]]) (simp_all add: ty [OF shown_command [OF assms]] ansi_stop_def)
  ultimately show ?thesis using assms by (simp add: tty_consume_ansi_def Let_def)
qed

lemma shown_putc:
  assumes "tty_shown i s" "tty_dev_ok (tty s i)"
  shows "tty_shown i (tty_putc_vga i c s)"
proof -
  obtain taken d where E: "spec_escape c (tty s i) = (taken, d)" by fastforce
  have i: "i < length (g_tty_v s)" using assms(1) by (simp add: tty_shown_def)
  obtain s1 where S: "tty_consume_ansi i c s = (taken, s1)" "becomes i d s s1" using escape_becomes [OF i E] by blast
  have sh: "tty_shown i s1" using shown_escape [OF assms(1), of c] by (simp add: S)
  have d: "tty s1 i = d" using becomes_tty [OF S(2) i] .
  have "tty_dev_ok d" using escape_ok [OF assms(2), of c] by (simp add: E)
  moreover have "tt_cols d = VGA_WIDTH" "tt_rows d = VGA_HEIGHT" using sh by (simp_all add: tty_shown_def text_screen_def d)
  ultimately have at: "tt_cursor_x d < VGA_WIDTH" "tt_cursor_y d < VGA_HEIGHT"
    "tt_cursor_x (tty_cursor_left_raw d) < VGA_WIDTH" "tt_cursor_y (tty_cursor_left_raw d) < VGA_HEIGHT"
    using left_ok [of d] by (simp_all add: tty_dev_ok_def)
  have cr: "tty_shown i (upd_tty i (\<lambda>d. d\<lparr>tt_cursor_x := 0\<rparr>) s1)"
    by (rule shown_upd [OF sh]) (use sh in \<open>simp_all add: tty_shown_def text_screen_def\<close>)
  have lf: "tty_shown i (upd_tty i tty_cursor_left_raw s1)"
    by (rule shown_upd [OF sh]) (use sh in \<open>simp_all add: tty_shown_def text_screen_def tty_cursor_left_raw_def\<close>)
  have i1: "i < length (g_tty_v s1)" using sh by (simp add: tty_shown_def)
  have "tty_shown i (vga_store i CHR '' '' (upd_tty i (set_cursor_cell CHR '' '') (upd_tty i tty_cursor_left_raw s1)))"
    by (rule shown_cell_word [OF lf]) (use at i1 in \<open>simp_all add: d\<close>)
  moreover have "upd_tty i (set_cursor_cell CHR '' '') (upd_tty i tty_cursor_left_raw s1) =
      upd_tty i (\<lambda>d. set_cursor_cell CHR '' '' (tty_cursor_left_raw d)) s1"
    using i1 by (simp add: upd_tty_def)
  ultimately have bs: "tty_shown i (vga_store i CHR '' '' (upd_tty i (\<lambda>d. set_cursor_cell CHR '' '' (tty_cursor_left_raw d)) s1))" by simp
  have "tty_shown i (vga_store i c (upd_tty i (set_cursor_cell c) s1))" by (rule shown_cell_word [OF sh]) (use at in \<open>simp_all add: d\<close>)
  then show ?thesis using assms(1) sh cr bs
    by (simp add: tty_putc_vga_def S Let_def shown_follow shown_next_row shown_advance)
qed

subsection \<open>Terminals that are not shown\<close>

lemma is_active_upd:
  assumes "\<And>d. tt_index (f d) = tt_index d"
  shows "is_active j (upd_tty i f s) = is_active j s"
proof (cases "i < length (g_tty_v s)")
  case True
  then show ?thesis using assms by (simp add: is_active_def upd_tty_def nth_list_update)
next
  case False
  then show ?thesis by (simp add: is_active_def upd_tty_def list_update_beyond)
qed

definition hidden :: "nat \<Rightarrow> tsys \<Rightarrow> tsys \<Rightarrow> bool" where
  "hidden i s s' \<longleftrightarrow> ts_vga s' = ts_vga s \<and> \<not> is_active i s'"

lemma hidden_refl: "\<not> is_active i s \<Longrightarrow> hidden i s s"
  by (simp add: hidden_def)

lemma hidden_trans: "hidden i s s1 \<Longrightarrow> hidden i s1 s2 \<Longrightarrow> hidden i s s2"
  by (simp add: hidden_def)

lemma hidden_upd: "\<not> is_active i s \<Longrightarrow> (\<And>d. tt_index (f d) = tt_index d) \<Longrightarrow> hidden i s (upd_tty i f s)"
  by (simp add: hidden_def is_active_upd)

lemma index_left_right [simp]:
  "tt_index (tty_cursor_left_raw d) = tt_index d" "tt_index (tty_cursor_right_raw d) = tt_index d"
  "tt_index (set_cell x y c d) = tt_index d" "tt_index (set_cursor_cell c d) = tt_index d"
  by (simp_all add: tty_cursor_left_raw_def tty_cursor_right_raw_def set_cell_def set_cursor_cell_def Let_def)

lemma hidden_scroll:
  assumes "\<not> is_active i s"
  shows "hidden i s (tty_scroll i s)"
proof -
  have "hidden i s (upd_tty i (\<lambda>d. d\<lparr>tt_cells := map_option (scroll_cells d) (tt_cells d)\<rparr>) s)" by (rule hidden_upd [OF assms]) simp
  then show ?thesis using assms by (auto simp: tty_scroll_def Let_def hidden_def)
qed

lemma hidden_next_row:
  assumes "\<not> is_active i s"
  shows "hidden i s (tty_next_row i s)"
proof -
  let ?s1 = "upd_tty i (\<lambda>d. d\<lparr>tt_cursor_x := 0, tt_cursor_y := add32 (tt_cursor_y d) 1\<rparr>) s"
  have h1: "hidden i s ?s1" by (rule hidden_upd [OF assms]) simp
  then have h2: "hidden i ?s1 (upd_tty i (\<lambda>d. d\<lparr>tt_cursor_y := sub32 (tt_rows d) 1\<rparr>) ?s1)" by (intro hidden_upd) (simp_all add: hidden_def)
  have "hidden i s (tty_scroll i (upd_tty i (\<lambda>d. d\<lparr>tt_cursor_y := sub32 (tt_rows d) 1\<rparr>) ?s1))"
    by (rule hidden_trans [OF hidden_trans [OF h1 h2] hidden_scroll]) (use h2 in \<open>simp add: hidden_def\<close>)
  then show ?thesis using h1 by (simp add: tty_next_row_def Let_def)
qed

lemma hidden_advance:
  assumes "\<not> is_active i s"
  shows "hidden i s (tty_advance i s)"
proof -
  let ?s1 = "upd_tty i (\<lambda>d. d\<lparr>tt_cursor_x := add32 (tt_cursor_x d) 1\<rparr>) s"
  have h1: "hidden i s ?s1" by (rule hidden_upd [OF assms]) simp
  have "hidden i s (tty_next_row i ?s1)" by (rule hidden_trans [OF h1 hidden_next_row]) (use h1 in \<open>simp add: hidden_def\<close>)
  then show ?thesis using h1 by (simp add: tty_advance_def Let_def)
qed

lemma hidden_erase:
  assumes "\<not> is_active i s"
  shows "hidden i s (tty_erase_to_eol i s)"
proof -
  have step: "hidden i t (upd_tty i (set_cell x y c) t)" if "\<not> is_active i t" for x y c t by (rule hidden_upd [OF that]) simp
  have "hidden i t (fold (\<lambda>x s. let s1 = upd_tty i (set_cell x y CHR '' '') s in
            if is_active i s1 then if tt_type (tty s1 i) = TTY_VGA then tty_redraw_row i y s1 else tty_draw_cell x y CHR '' '' s1 else s1) xs t)"
    if "\<not> is_active i t" for xs y t
    using that
  proof (induction xs arbitrary: t)
    case (Cons x xs)
    have h: "hidden i t (upd_tty i (set_cell x y CHR '' '') t)" by (rule step [OF Cons.prems])
    then have "\<not> is_active i (upd_tty i (set_cell x y CHR '' '') t)" by (simp add: hidden_def)
    then show ?case using hidden_trans [OF h Cons.IH] by (simp add: Let_def)
  qed (simp add: hidden_def)
  then show ?thesis using assms hidden_refl [OF assms] unfolding tty_erase_to_eol_def Let_def by simp
qed

lemma hidden_escape:
  assumes "\<not> is_active i s"
  shows "hidden i s (snd (tty_consume_ansi i c s))"
proof -
  note U = hidden_upd [OF assms]
  have cmd: "hidden i s (ansi_command i c s)"
  proof -
    have "hidden i s (upd_tty i (tty_cursor_left_raw ^^ n) s)" "hidden i s (upd_tty i (tty_cursor_right_raw ^^ n) s)" for n
      by (rule U; rule repeat_fields)+
    moreover have "hidden i s (upd_tty i (\<lambda>d. d\<lparr>tt_cursor_x := x\<rparr>) s)" "hidden i s (upd_tty i (\<lambda>d. d\<lparr>tt_cursor_x := 0, tt_cursor_y := 0\<rparr>) s)" for x
      by (rule U; simp)+
    ultimately show ?thesis using hidden_refl [OF assms] hidden_erase [OF assms] by (simp add: ansi_command_def Let_def)
  qed
  then have "hidden i s (upd_tty i ansi_stop (ansi_command i c s))"
    by (rule hidden_trans) (rule hidden_upd, use cmd in \<open>simp_all add: hidden_def ansi_stop_def\<close>)
  moreover have "hidden i s (upd_tty i ansi_start s)" "hidden i s (upd_tty i (\<lambda>d. d\<lparr>tt_ansi_state := n\<rparr>) s)"
    "hidden i s (upd_tty i (\<lambda>d. d\<lparr>tt_ansi_have_param := True, tt_ansi_param := p d\<rparr>) s)" for n p
    by (rule U; simp add: ansi_start_def)+
  ultimately show ?thesis using hidden_refl [OF assms] by (simp add: tty_consume_ansi_def Let_def)
qed

lemma hidden_putc:
  assumes "\<not> is_active i s"
  shows "hidden i s (tty_putc_vga i c s)"
proof -
  obtain taken s1 where S: "tty_consume_ansi i c s = (taken, s1)" by fastforce
  have h: "hidden i s s1" using hidden_escape [OF assms, of c] by (simp add: S)
  then have na: "\<not> is_active i s1" by (simp add: hidden_def)
  note U = hidden_trans [OF h hidden_upd [OF na]]
  have fo: "hidden i s t \<Longrightarrow> hidden i s (vga_follow i t)" "hidden i s t \<Longrightarrow> hidden i s (vga_store i c t)" for c t
    by (simp_all add: hidden_def vga_follow_def vga_store_def)
  have st: "hidden i s (vga_store i c (upd_tty i (set_cursor_cell c) s1))" by (rule fo, rule U) simp
  then have "hidden i s (tty_advance i (vga_store i c (upd_tty i (set_cursor_cell c) s1)))"
    by (rule hidden_trans [OF _ hidden_advance]) (use st in \<open>simp add: hidden_def\<close>)
  moreover have "hidden i s (upd_tty i (\<lambda>d. d\<lparr>tt_cursor_x := 0\<rparr>) s1)"
    "hidden i s (vga_store i CHR '' '' (upd_tty i (\<lambda>d. set_cursor_cell CHR '' '' (tty_cursor_left_raw d)) s1))"
    by (rule U, simp) (rule fo, rule U, simp)
  ultimately show ?thesis using hidden_refl [OF assms] h fo hidden_trans [OF h hidden_next_row [OF na]]
    by (simp add: tty_putc_vga_def S Let_def)
qed

subsection \<open>Whatever is written and switched\<close>

definition screens_ok :: "tsys \<Rightarrow> bool" where
  "screens_ok s \<longleftrightarrow> length (g_tty_v s) = VESA_TTY_COUNT \<and> g_active_tty s < VESA_TTY_COUNT \<and>
     (\<forall>i < VESA_TTY_COUNT. text_screen (tty s i) \<and> tty_dev_ok (tty s i) \<and> tt_index (tty s i) = i) \<and>
     vga_shows (tty s (g_active_tty s)) (ts_vga s)"

lemma screens_shown: "screens_ok s \<Longrightarrow> tty_shown (g_active_tty s) s"
  by (simp add: screens_ok_def tty_shown_def is_active_def)

lemma putc_index: "tt_index (spec_putc c d) = tt_index d"
proof -
  have "tt_index (spec_erase_to_eol e) = tt_index e" for e by (simp add: spec_erase_to_eol_def fold_frame)
  then have "tt_index (spec_command c d) = tt_index d" by (simp add: spec_command_def Let_def repeat_fields)
  then have es: "tt_index (snd (spec_escape c d)) = tt_index d" by (simp add: spec_escape_def Let_def ansi_start_def ansi_stop_def)
  have "tt_index (spec_next_row e) = tt_index e" for e by (simp add: spec_next_row_def Let_def spec_scroll_def)
  then have "tt_index (spec_plain c e) = tt_index e" for e by (simp add: spec_plain_def spec_advance_def Let_def)
  then show ?thesis using es by (cases "spec_escape c d") (simp add: spec_putc_def)
qed

lemma putc_screen:
  assumes "text_screen d" "tty_dev_ok d"
  shows "text_screen (spec_putc c d)" "tty_dev_ok (spec_putc c d)"
proof -
  show ok: "tty_dev_ok (spec_putc c d)" by (rule putc_ok [OF assms(2)])
  have "tt_cells d \<noteq> None" using assms(1) by (auto simp: text_screen_def)
  then obtain cs where "tt_cells (spec_putc c d) = Some cs" using putc_cells [of d c] by blast
  then show "text_screen (spec_putc c d)" using assms(1) ok by (auto simp: text_screen_def tty_dev_ok_def)
qed

lemma putc_keeps:
  assumes "screens_ok s" "i < VESA_TTY_COUNT"
  shows "screens_ok (tty_putc_vga i c s)"
proof -
  let ?s' = "tty_putc_vga i c s"
  have l: "i < length (g_tty_v s)" "length (g_tty_v s) = VESA_TTY_COUNT" and d: "text_screen (tty s i)" "tty_dev_ok (tty s i)" "tt_index (tty s i) = i"
    using assms by (auto simp: screens_ok_def)
  have b: "becomes i (spec_putc c (tty s i)) s ?s'"
    by (rule putc_vga_becomes [OF l(1)]) (use d(1) in \<open>auto simp: text_screen_def vga_size\<close>)
  have other: "\<And>j. j \<noteq> i \<Longrightarrow> tty ?s' j = tty s j" and self: "tty ?s' i = spec_putc c (tty s i)"
    using becomes_other [OF b] becomes_tty [OF b l(1)] by simp_all
  have dev: "text_screen (tty ?s' j) \<and> tty_dev_ok (tty ?s' j) \<and> tt_index (tty ?s' j) = j" if "j < VESA_TTY_COUNT" for j
    using assms(1) that other [of j] self putc_screen [OF d(1,2), of c] putc_index [of c "tty s i"] d(3)
    by (cases "j = i") (simp_all add: screens_ok_def)
  have act: "g_active_tty ?s' = g_active_tty s" by (rule becomes_active [OF b])
  have "vga_shows (tty ?s' (g_active_tty s)) (ts_vga ?s')"
  proof (cases "i = g_active_tty s")
    case True
    then have "tty_shown i s" using screens_shown [OF assms(1)] by simp
    from shown_putc [OF this d(2), of c] show ?thesis by (simp add: tty_shown_def True)
  next
    case False
    then have "\<not> is_active i s" using d(3) by (simp add: is_active_def)
    from hidden_putc [OF this, of c] have "ts_vga ?s' = ts_vga s" by (simp add: hidden_def)
    then show ?thesis using assms(1) other [of "g_active_tty s"] False by (simp add: screens_ok_def)
  qed
  then show ?thesis using dev act assms(1) becomes_length [OF b] by (simp add: screens_ok_def)
qed

lemma puts_keeps: "screens_ok s \<Longrightarrow> i < VESA_TTY_COUNT \<Longrightarrow> screens_ok (fold (tty_putc_vga i) bs s)"
  by (induction bs arbitrary: s) (simp_all add: putc_keeps)

lemma screens_type: "screens_ok s \<Longrightarrow> i < VESA_TTY_COUNT \<Longrightarrow> tt_type (tty s i) = TTY_VGA"
  by (auto simp: screens_ok_def text_screen_def)

lemma putc_either: "screens_ok s \<Longrightarrow> i < VESA_TTY_COUNT \<Longrightarrow> tty_putc i c s = tty_putc_vga i c s"
  by (simp add: tty_putc_def screens_type)

lemma puts_either: "screens_ok s \<Longrightarrow> i < VESA_TTY_COUNT \<Longrightarrow> screens_ok (fold (tty_putc i) bs s)"
  by (induction bs arbitrary: s) (simp_all add: putc_either putc_keeps)

text \<open>What the screen does not depend on.\<close>

lemma screens_frame [simp]:
  "screens_ok (s\<lparr>ts_kbd := k\<rparr>) = screens_ok s" "screens_ok (s\<lparr>ts_io := io\<rparr>) = screens_ok s" "screens_ok (s\<lparr>ts_power := p\<rparr>) = screens_ok s"
  "screens_ok (s\<lparr>ts_k := k'\<rparr>) = screens_ok s"
  by (simp_all add: screens_ok_def)

lemma set_active_keeps:
  assumes "screens_ok s"
  shows "screens_ok (tty_set_active idx s)"
proof (cases "idx < VESA_TTY_COUNT")
  case True
  let ?s1 = "s\<lparr>ts_kbd := keyboard_clear_buffers (ts_kbd s), g_active_tty := idx\<rparr>"
  have ty: "tt_type (tty s idx) = TTY_VGA" by (rule screens_type [OF assms True])
  then have eq: "tty_set_active idx s = tty_render_full idx (on_vga vga_clear ?s1)" using True by (simp add: tty_set_active_def Let_def)
  have "text_screen (tty s idx)" using assms True by (simp add: screens_ok_def)
  then have "vga_shows (tty s idx) (ts_vga (tty_render_full idx (on_vga vga_clear ?s1)))"
    using render_shows [of "on_vga vga_clear ?s1" idx] by simp
  then show ?thesis using assms True unfolding eq by (simp add: screens_ok_def)
next
  case False
  then show ?thesis using assms by (simp add: tty_set_active_def)
qed

lemma klog_keeps:
  assumes "tty_klog text s = Some s'" "screens_ok s"
  shows "screens_ok s'"
proof -
  obtain io where io: "serial_write SERIAL_COM1 text (ts_io s) = Some io"
    using assms(1) by (cases "serial_write SERIAL_COM1 text (ts_io s)") (simp_all add: tty_klog_def tty_serial_print_def)
  let ?s1 = "s\<lparr>ts_io := io\<rparr>" and ?t = "takeWhile ((\<noteq>) NUL) text"
  have ok1: "screens_ok ?s1" using assms(2) by simp
  obtain s2 where s2: "s2 = (if tt_cells (tty ?s1 0) \<noteq> None then fold (tty_putc 0) ?t ?s1 else ?s1)" by simp
  have ok2: "screens_ok s2" unfolding s2 using ok1 puts_either [OF ok1, of 0] by (simp add: VESA_TTY_COUNT_def)
  have "tty_klog text s =
      (if \<not> g_tty_ready ?s1 then Some ?s1
       else if g_active_tty s2 \<ge> VESA_TTY_COUNT \<or> g_active_tty s2 = 0 then Some s2
       else if tt_cells (tty s2 (g_active_tty s2)) = None then Some s2
       else Some (fold (tty_putc (g_active_tty s2)) ?t s2))"
    by (simp add: tty_klog_def tty_serial_print_def io Let_def s2 cong: if_cong)
  then show ?thesis using assms(1) ok1 ok2 puts_either [OF ok2, of "g_active_tty s2" ?t] by (auto split: if_splits)
qed

lemma hotkey_keeps:
  assumes "tty_hotkey_handler k p sh c a s = Some s'" "screens_ok s"
  shows "screens_ok s'"
  using assms set_active_keeps [OF assms(2)] klog_keeps [OF _ assms(2)]
  by (auto simp: tty_hotkey_handler_def split: if_splits Option.bind_splits)

lemma fg_pid_keeps:
  assumes "screens_ok s"
  shows "screens_ok (upd_tty i (\<lambda>d. d\<lparr>tt_fg_pid := p\<rparr>) s)"
proof -
  let ?s' = "upd_tty i (\<lambda>d. d\<lparr>tt_fg_pid := p\<rparr>) s"
  have at: "tty ?s' j = (tty s j)\<lparr>tt_fg_pid := p\<rparr> \<or> tty ?s' j = tty s j" for j
    by (cases "j = i"; cases "i < length (g_tty_v s)") (simp_all add: upd_tty_def list_update_beyond not_less)
  have f: "text_screen (d\<lparr>tt_fg_pid := p\<rparr>) = text_screen d" "tty_dev_ok (d\<lparr>tt_fg_pid := p\<rparr>) = tty_dev_ok d"
    "vga_shows (d\<lparr>tt_fg_pid := p\<rparr>) v = vga_shows d v" for d v by (simp_all add: text_screen_def tty_dev_ok_def vga_shows_def)
  have "text_screen (tty ?s' j) = text_screen (tty s j)" "tty_dev_ok (tty ?s' j) = tty_dev_ok (tty s j)"
    "vga_shows (tty ?s' j) v = vga_shows (tty s j) v" "tt_index (tty ?s' j) = tt_index (tty s j)" for j v
    by (rule disjE [OF at [of j]]; simp add: f)+
  then show ?thesis using assms by (simp add: screens_ok_def upd_length)
qed

lemma if_keeps: "screens_ok (snd (snd x)) \<Longrightarrow> screens_ok (snd (snd y)) \<Longrightarrow> screens_ok (snd (snd (if b then x else y)))"
  by simp

lemma ioctl_keeps:
  assumes "screens_ok s"
  shows "screens_ok (snd (snd (tty_vesa_ioctl (Some i) request arg s)))"
proof -
  have "screens_ok (snd (snd (set_fg_pid arg (\<lambda>pid. upd_tty i (\<lambda>d. d\<lparr>tt_fg_pid := pid\<rparr>)) s)))"
    using assms by (simp add: set_fg_pid_def Let_def fg_pid_keeps)
  moreover have "screens_ok (snd (snd (case arg of None \<Rightarrow> (- 1, [], s)
        | Some raw \<Rightarrow> if raw \<ge> 1 \<and> raw \<le> VESA_TTY_COUNT then (0, [], tty_set_active (raw - 1) s)
            else if raw < VESA_TTY_COUNT then (0, [], tty_set_active raw s) else (- 1, [], s))))"
    using assms by (simp split: option.split add: set_active_keeps)
  ultimately show ?thesis unfolding tty_vesa_ioctl_def option.case Let_def by (intro if_keeps) (simp_all add: assms)
qed

text \<open>A key typed into a line that is read.\<close>

primrec state_of :: "'e progress \<Rightarrow> tsys" where
  "state_of (Again e s) = s"
| "state_of (Ends v bs s) = s"
| "state_of (Gone s) = s"

lemma take_char_keeps:
  "get_char s = Some (c, s1) \<Longrightarrow> screens_ok s1 = screens_ok s"
  "get_event s = Some (ev, s1) \<Longrightarrow> screens_ok s1 = screens_ok s"
  "tty_take_input_char ev s = Some (c, s1) \<Longrightarrow> screens_ok s1 = screens_ok s"
  by (auto simp: get_char_def get_event_def tty_take_input_char_def Let_def split: if_splits)

lemma kill_keeps: "tty_kill_fg irqs i s = Some (b, s1) \<Longrightarrow> screens_ok s1 = screens_ok s"
  by (auto simp: tty_kill_fg_def Let_def split: if_splits Option.bind_splits)

lemma ctrl_keeps:
  assumes "vga_ctrl irqs i c s = Some (Some r)" "screens_ok s" "i < VESA_TTY_COUNT"
  shows "screens_ok (state_of r)"
proof (cases "c = CHR 4")
  case True
  then show ?thesis using assms by (auto simp: vga_ctrl_def)
next
  case False
  then obtain b s1 where k: "tty_kill_fg irqs i s = Some (b, s1)" "r = (if b then Ends (-1) [] (echo_interrupt (tty_putc_vga i) s1) else Gone s1)"
    using assms(1) by (auto simp: vga_ctrl_def split: if_splits)
  then have "screens_ok s1" using kill_keeps assms(2) by blast
  then show ?thesis using k(2) puts_keeps [OF _ assms(3), of s1 "[CHR ''^'', CHR ''C'', CHR 10]"] by (auto simp: echo_interrupt_def)
qed

lemma line_keeps:
  assumes "screens_ok s" "i < VESA_TTY_COUNT"
  shows "screens_ok (state_of (vga_finish i line s))" "screens_ok (state_of (vga_erase i line s))"
    "screens_ok (state_of (Again l (tty_putc_vga i c s)))"
  using putc_keeps [OF assms] assms(1) by (simp_all add: vga_finish_def vga_erase_def)

lemma vga_char_keeps:
  assumes "vga_char irqs i c line s = Some r" "screens_ok s" "i < VESA_TTY_COUNT"
  shows "screens_ok (state_of r)"
proof (cases "vga_ctrl irqs i c s")
  case None
  then show ?thesis using assms(1,2) line_keeps [OF assms(2,3)] by (auto simp: vga_char_def split: if_splits)
next
  case (Some a)
  then show ?thesis using assms ctrl_keeps by (auto simp: vga_char_def)
qed

lemma vga_event_keeps:
  assumes "vga_event irqs i ev line s = Some r" "screens_ok s" "i < VESA_TTY_COUNT"
  shows "screens_ok (state_of r)"
proof (cases "ev_pressed ev")
  case True
  then obtain c s1 where c: "tty_take_input_char ev s = Some (c, s1)" using assms(1) by (auto simp: vga_event_def split: Option.bind_splits)
  have ok: "screens_ok s1" using take_char_keeps(3) [OF c] assms(2) by simp
  show ?thesis
  proof (cases "vga_ctrl irqs i c s1")
    case None
    then show ?thesis using assms(1) True line_keeps [OF ok assms(3)] ok by (auto simp: vga_event_def c split: if_splits)
  next
    case (Some a)
    then show ?thesis using assms(1) True ctrl_keeps [OF _ ok assms(3)] by (auto simp: vga_event_def c)
  qed
next
  case False
  then show ?thesis using assms(1,2) by (auto simp: vga_event_def)
qed

lemma vga_key_keeps:
  assumes "vga_key irqs i line s = Some r" "screens_ok s" "i < VESA_TTY_COUNT"
  shows "screens_ok (state_of r)"
  using assms by (auto simp: vga_key_def split: if_splits Option.bind_splits dest: take_char_keeps intro: vga_char_keeps vga_event_keeps)

text \<open>What happens to the terminals: a program writes, reads a key of its line or makes a control call, the kernel prints a message, the user
  presses a hot key, interrupts change the keyboard and other tasks the process table.\<close>

inductive tty_step :: "tsys \<Rightarrow> tsys \<Rightarrow> bool" where
  step_tty_write: "i < VESA_TTY_COUNT \<Longrightarrow> tty_step s (snd (tty_vga_write (Some i) (Some bs) s))"
| step_tty_key: "i < VESA_TTY_COUNT \<Longrightarrow> vga_key irqs i line s = Some r \<Longrightarrow> tty_step s (state_of r)"
| step_tty_ioctl: "tty_step s (snd (snd (tty_vesa_ioctl (Some i) request arg s)))"
| step_tty_klog: "tty_klog text s = Some s' \<Longrightarrow> tty_step s s'"
| step_tty_hotkey: "tty_hotkey_handler k p sh c a s = Some s' \<Longrightarrow> tty_step s s'"
| step_tty_keyboard: "tty_step s (s\<lparr>ts_kbd := kb\<rparr>)"
| step_tty_tasks: "tty_step s (s\<lparr>ts_k := kst\<rparr>)"

text \<open>C12: The text buffer always holds the cells of the active terminal: whatever is written to the eight terminals, whichever of them the user
  switches to.\<close>

theorem text_screen_shows_active:
  assumes "tty_step\<^sup>*\<^sup>* s s'" "screens_ok s"
  shows "screens_ok s'"
  using assms
proof (induction rule: rtranclp_induct)
  case (step s1 s2)
  from step.hyps(2) step.IH [OF step.prems] show ?case
  proof cases
    case (step_tty_write i bs)
    then show ?thesis using puts_keeps [of s1 i bs] step.IH [OF step.prems] screens_type [of s1 i] by (simp add: tty_vga_write_def)
  qed (auto intro: vga_key_keeps ioctl_keeps klog_keeps hotkey_keeps)
qed

lemma demo_screens_ok: "screens_ok demo_tsys"
proof -
  have "text_screen (demo_tty i)" for i by (simp add: text_screen_def demo_tty_def vga_size)
  moreover have "vga_shows (demo_tty 0) (ts_vga demo_tsys)"
    by (simp add: vga_shows_def demo_tty_def demo_tsys_def demo_vga_def vga_entry_def vga_size)
  moreover have "tt_index (demo_tty i) = i" for i by (simp add: demo_tty_def)
  moreover have "g_active_tty demo_tsys = 0" by (simp add: demo_tsys_def)
  ultimately show ?thesis by (simp add: screens_ok_def demo_ttys demo_tty_ok VESA_TTY_COUNT_def)
qed

text \<open>A program writes to the second terminal while the first one is shown; then the user switches with Alt+F2.\<close>

theorem text_screen_shows_active_witness:
  "screens_ok (tty_set_active 1 (snd (tty_vga_write (Some 1) (Some ''hi'') demo_tsys)))"
proof -
  let ?s1 = "snd (tty_vga_write (Some 1) (Some ''hi'') demo_tsys)"
  have w: "tty_step demo_tsys ?s1" by (rule step_tty_write) (simp add: VESA_TTY_COUNT_def)
  have "tty_hotkey_handler 0x3C True False False True ?s1 = Some (tty_set_active 1 ?s1)"
    by (simp add: tty_hotkey_handler_def KEY_F1_def KEY_F8_def)
  then have h: "tty_step ?s1 (tty_set_active 1 ?s1)" by (rule step_tty_hotkey)
  have "tty_step\<^sup>*\<^sup>* demo_tsys (tty_set_active 1 ?s1)" using w h by (metis converse_rtranclp_into_rtranclp rtranclp.rtrancl_refl)
  then show ?thesis by (rule text_screen_shows_active [OF _ demo_screens_ok])
qed

end
