(* ===== verification/Tty_Serial.thy ===== *)
theory Tty_Serial
  imports Tty_Input
begin

section \<open>The serial terminal and the start of the terminals\<close>

text \<open>
  Model of the rest of \<^verbatim>\<open>src/kernel/drivers/tty.c\<close>: editing a line on the serial line, where the remote terminal is driven with
  escape sequences, and \<^verbatim>\<open>tty_init\<close>, which creates the terminals and their devices.  What one byte does to the line is
  a function that also gives the bytes to send; the loop sends them one by one.  The addresses of
  functions and device contexts, which \<^verbatim>\<open>tty_init\<close> hands to the device file system, are a record.
\<close>

subsection \<open>Editing over the line\<close>

record sline =
  sl_ed :: editor
  sl_esc :: nat
  sl_param :: byte

definition new_sline :: sline where
  "new_sline = \<lparr>sl_ed = new_editor, sl_esc = 0, sl_param = NUL\<rparr>"

definition csi :: "nat \<Rightarrow> byte \<Rightarrow> string" where
  "csi n c = concat (replicate n [CHR 27, CHR ''['', c])"

text \<open>Editing steps give the bytes to send and the line.\<close>

definition serial_left :: "nat \<Rightarrow> editor \<Rightarrow> string \<times> editor" where
  "serial_left n e = (csi n CHR ''D'', e\<lparr>ed_cursor := ed_cursor e - n\<rparr>)"

definition serial_right :: "nat \<Rightarrow> editor \<Rightarrow> string \<times> editor" where
  "serial_right n e = (csi n CHR ''C'', e\<lparr>ed_cursor := ed_cursor e + n\<rparr>)"

definition serial_home :: "editor \<Rightarrow> string \<times> editor" where
  "serial_home e = serial_left (ed_cursor e) e"

definition serial_end :: "editor \<Rightarrow> string \<times> editor" where
  "serial_end e = serial_right (length (ed_line e) - ed_cursor e) e"

text \<open>The line wiped out and another one written, which is cut to the buffer.\<close>

definition serial_replace :: "nat \<Rightarrow> string \<Rightarrow> editor \<Rightarrow> string \<times> editor" where
  "serial_replace sz line e =
     (let n = length (ed_line e); l = (if length line \<ge> sz then take (sz - 1) line else line) in
      (csi (ed_cursor e) CHR ''D'' @ replicate n CHR '' '' @ csi n CHR ''D'' @ l, e\<lparr>ed_line := l, ed_cursor := length l\<rparr>))"

definition serial_up :: "nat \<Rightarrow> tty_device \<Rightarrow> editor \<Rightarrow> string \<times> editor" where
  "serial_up sz d e =
     (if tt_history d = None \<or> tt_history_count d = 0 then ([], e)
      else let e1 = (if ed_pos e < 0 then e\<lparr>ed_saved := ed_line e\<rparr> else e);
               e2 = (if ed_pos e1 < int (tt_history_count d) - 1 then e1\<lparr>ed_pos := ed_pos e1 + 1\<rparr> else e1) in
        (case tty_history_get d (nat (ed_pos e2)) of
           None \<Rightarrow> ([], e2)
         | Some hline \<Rightarrow> serial_replace sz hline e2))"

definition serial_down :: "nat \<Rightarrow> tty_device \<Rightarrow> editor \<Rightarrow> string \<times> editor" where
  "serial_down sz d e =
     (if ed_pos e < 0 then ([], e)
      else if ed_pos e > 0 then
        let e1 = e\<lparr>ed_pos := ed_pos e - 1\<rparr> in
        (case tty_history_get d (nat (ed_pos e1)) of
           None \<Rightarrow> serial_replace sz [] e1
         | Some hline \<Rightarrow> serial_replace sz hline e1)
      else serial_replace sz (ed_saved e) (e\<lparr>ed_pos := -1\<rparr>))"

text \<open>A byte that belongs to no escape sequence, except the end of the line.\<close>

definition serial_plain :: "nat \<Rightarrow> byte \<Rightarrow> editor \<Rightarrow> string \<times> editor" where
  "serial_plain sz c e =
     (if c = CHR 8 \<or> c = CHR 0x7F then
        if ed_cursor e > 0 then
          let e1 = line_erase e; rest = drop (ed_cursor e1) (ed_line e1) in
          (CHR 8 # rest @ CHR '' '' # csi (length rest + 1) CHR ''D'', e1)
        else ([], e)
      else if (of_char c :: nat) < 32 then ([], e)
      else if length (ed_line e) \<ge> sz - 1 then ([], e)
      else let e1 = line_insert c e in
        (drop (ed_cursor e) (ed_line e1) @ csi (length (ed_line e1) - ed_cursor e1) CHR ''D'', e1))"

text \<open>The last byte of a sequence that starts with \<^verbatim>\<open>ESC [\<close>.\<close>

definition serial_csi :: "nat \<Rightarrow> tty_device \<Rightarrow> byte \<Rightarrow> editor \<Rightarrow> string \<times> editor" where
  "serial_csi sz d c e =
     (if c = CHR ''H'' then serial_home e
      else if c = CHR ''F'' then serial_end e
      else if c = CHR ''D'' then (if ed_cursor e > 0 then serial_left 1 e else ([], e))
      else if c = CHR ''C'' then (if ed_cursor e < length (ed_line e) then serial_right 1 e else ([], e))
      else if c = CHR ''A'' then serial_up sz d e
      else if c = CHR ''B'' then serial_down sz d e
      else ([], e))"

definition serial_tilde :: "byte \<Rightarrow> editor \<Rightarrow> string \<times> editor" where
  "serial_tilde p e =
     (if p = CHR ''1'' \<or> p = CHR ''7'' then serial_home e
      else if p = CHR ''4'' \<or> p = CHR ''8'' then serial_end e
      else ([], e))"

definition upd_ed :: "sline \<Rightarrow> string \<times> editor \<Rightarrow> string \<times> sline" where
  "upd_ed l r = (fst r, l\<lparr>sl_ed := snd r\<rparr>)"

text \<open>Whether a byte ends the line, and what any other byte does.\<close>

definition serial_newline :: "byte \<Rightarrow> sline \<Rightarrow> bool" where
  "serial_newline c l \<longleftrightarrow> (c = CHR 10 \<or> c = CHR 13) \<and> sl_esc l \<noteq> 2"

definition serial_key :: "nat \<Rightarrow> tty_device \<Rightarrow> byte \<Rightarrow> sline \<Rightarrow> string \<times> sline" where
  "serial_key sz d c l =
     (let l0 = l\<lparr>sl_esc := 0\<rparr> in
      if sl_esc l = 0 \<and> c = CHR 27 then ([], l\<lparr>sl_esc := 1\<rparr>)
      else if sl_esc l = 1 \<and> c = CHR ''['' then ([], l\<lparr>sl_esc := 2\<rparr>)
      else if sl_esc l = 3 \<and> c = CHR ''~'' then upd_ed l0 (serial_tilde (sl_param l) (sl_ed l))
      else if sl_esc l = 2 then
        if c = CHR ''1'' \<or> c = CHR ''4'' \<or> c = CHR ''7'' \<or> c = CHR ''8'' then ([], l\<lparr>sl_param := c, sl_esc := 3\<rparr>)
        else upd_ed l0 (serial_csi sz d c (sl_ed l))
      else upd_ed l0 (serial_plain sz c (sl_ed l)))"

definition upd_serial :: "nat \<Rightarrow> (tty_device \<Rightarrow> tty_device) \<Rightarrow> tsys \<Rightarrow> tsys" where
  "upd_serial i f s = s\<lparr>g_tty_s := (g_tty_s s)[i := f (g_tty_s s ! i)]\<rparr>"

definition serial_send :: "nat \<Rightarrow> string \<Rightarrow> tsys \<Rightarrow> tsys option" where
  "serial_send port bs s = map_option (\<lambda>io. s\<lparr>ts_io := io\<rparr>) (serial_puts port bs (ts_io s))"

text \<open>Waiting for a byte.\<close>

fun serial_wait :: "nat \<Rightarrow> wakes \<Rightarrow> tsys \<Rightarrow> (wakes \<times> tsys) option" where
  "serial_wait port envs s =
     (let (ok, io) = serial_received port (ts_io s); s1 = s\<lparr>ts_io := io\<rparr> in
      if ok then Some (envs, s1)
      else case envs of [] \<Rightarrow> None | f # fs \<Rightarrow> serial_wait port fs (tty_spin_wait f s1))"

declare serial_wait.simps [simp del]

definition serial_take :: "nat \<Rightarrow> wakes \<Rightarrow> tsys \<Rightarrow> (byte \<times> wakes \<times> tsys) option" where
  "serial_take port envs s = do {
     (envs1, s1) \<leftarrow> serial_wait port envs s;
     (c, io) \<leftarrow> serial_read_char port (ts_io s1);
     Some (c, envs1, s1\<lparr>ts_io := io\<rparr>) }"

partial_function (option) serial_line :: "wakes \<Rightarrow> nat \<Rightarrow> nat \<Rightarrow> nat \<Rightarrow> sline \<Rightarrow> tsys \<Rightarrow> ((int \<times> string) \<times> tsys) option" where
  "serial_line envs i port sz l s =
     (let line = ed_line (sl_ed l) in
      if \<not> length line < sz then Some ((int (length line), line), s)
      else do {
        (c, envs1, s1) \<leftarrow> serial_take port envs s;
        if serial_newline c l then do {
          let s2 = (if line \<noteq> [] then upd_serial i (tty_history_store line) s1 else s1);
          s3 \<leftarrow> serial_send port [CHR 10] s2;
          Some ((int (length line) + 1, line @ [CHR 10]), s3) }
        else do {
          let (out, l1) = serial_key sz (g_tty_s s1 ! i) c l;
          s2 \<leftarrow> serial_send port out s1;
          serial_line envs1 i port sz l1 s2 } })"

definition tty_serial_read :: "wakes \<Rightarrow> nat option \<Rightarrow> bool \<Rightarrow> nat \<Rightarrow> tsys \<Rightarrow> ((int \<times> string) \<times> tsys) option" where
  "tty_serial_read envs ctx buf sz0 s =
     (case ctx of None \<Rightarrow> Some ((-1, []), s) | Some i \<Rightarrow>
        if \<not> buf \<or> sz0 = 0 \<or> tt_index (g_tty_s s ! i) \<ge> SERIAL_TTY_COUNT then Some ((-1, []), s)
        else let sz = (if sz0 > TTY_HISTORY_LINE_MAX then TTY_HISTORY_LINE_MAX else sz0) in
          serial_line envs i (g_serial_ports ! tt_index (g_tty_s s ! i)) sz new_sline s)"

definition tty_serial_write :: "nat option \<Rightarrow> string option \<Rightarrow> tsys \<Rightarrow> (int \<times> tsys) option" where
  "tty_serial_write ctx buf s = (case (ctx, buf) of
      (Some i, Some bs) \<Rightarrow>
        if tt_index (g_tty_s s ! i) \<ge> SERIAL_TTY_COUNT then Some (-1, s)
        else map_option (\<lambda>s1. (sgn32 (int (length bs)), s1)) (serial_send (g_serial_ports ! tt_index (g_tty_s s ! i)) bs s)
    | _ \<Rightarrow> Some (-1, s))"

definition tty_serial_ioctl :: "nat option \<Rightarrow> nat \<Rightarrow> nat option \<Rightarrow> tsys \<Rightarrow> int \<times> nat list \<times> tsys" where
  "tty_serial_ioctl ctx request arg s = (case ctx of None \<Rightarrow> (-1, [], s) | Some i \<Rightarrow>
     let d = g_tty_s s ! i in
     if request = DEV_IOCTL_TTY_GET_INFO then
       if arg = None then (-1, [], s) else (0, [DEV_TTY_KIND_SERIAL, tt_index d, 0, 0, 0, 0], s)
     else if request = DEV_IOCTL_TTY_GET_ACTIVE then
       if arg = None then (-1, [], s) else (0, [add32 (g_active_tty s) 1], s)
     else if request = DEV_IOCTL_TTY_SET_FG_PID then set_fg_pid arg (\<lambda>pid. upd_serial i (\<lambda>d. d\<lparr>tt_fg_pid := pid\<rparr>)) s
     else if request = DEV_IOCTL_TTY_GET_FG_PID then
       if arg = None then (-1, [], s) else (0, [uns32 (tt_fg_pid d)], s)
     else (-1, [], s))"

subsection \<open>The start\<close>

record tty_addrs =
  ta_serial_read :: addr
  ta_serial_write :: addr
  ta_serial_ioctl :: addr
  ta_vesa_read :: addr
  ta_vesa_write :: addr
  ta_vesa_ioctl :: addr
  ta_vga_read :: addr
  ta_vga_write :: addr
  ta_hotkey :: addr
  ta_serial_ctx :: "nat \<Rightarrow> addr"
  ta_ctx :: "nat \<Rightarrow> addr"

definition upd_files :: "(fstate \<Rightarrow> ('r \<times> fstate) option) \<Rightarrow> tsys \<Rightarrow> ('r \<times> tsys) option" where
  "upd_files f s = map_option (\<lambda>(r, fs). (r, s\<lparr>ts_dev := (ts_dev s)\<lparr>ds_files := fs\<rparr>\<rparr>)) (f (ds_files (ts_dev s)))"

text \<open>A device under a name; the result of the call is not looked at.\<close>

definition tty_device_at :: "addr \<Rightarrow> string \<Rightarrow> addr \<Rightarrow> addr \<Rightarrow> addr \<Rightarrow> addr \<Rightarrow> tsys \<Rightarrow> tsys option" where
  "tty_device_at devfs path rd wr io ctx s =
     map_option (\<lambda>(r, w). s\<lparr>ts_dev := w\<rparr>)
       (devfs_create_device_ops devfs path (MEMFS_DEV_READ OR MEMFS_DEV_WRITE) rd wr io ctx (ts_dev s))"

text \<open>Memory of \<open>n\<close> bytes, filled; \<open>None\<close> without memory.\<close>

definition filled :: "(mm_state \<Rightarrow> nat \<Rightarrow> (addr \<times> mm_state) option) \<Rightarrow> nat \<Rightarrow> byte \<Rightarrow> tsys \<Rightarrow> (string option \<times> tsys) option" where
  "filled alloc n c s = upd_files (\<lambda>fs. do { (a, h) \<leftarrow> alloc (fs_mm fs) n;
     Some (if a = 0 then None else Some (replicate n c), fs\<lparr>fs_mm := h\<rparr>) }) s"

definition tty_init_serial :: "tty_addrs \<Rightarrow> addr \<Rightarrow> nat \<Rightarrow> tsys \<Rightarrow> tsys option" where
  "tty_init_serial A devfs i s = do {
     (h, s1) \<leftarrow> filled kmalloc (TTY_HISTORY_MAX * TTY_HISTORY_LINE_MAX) NUL s;
     let s2 = upd_serial i (\<lambda>d. d\<lparr>tt_type := TTY_SERIAL, tt_index := i, tt_history := h, tt_history_count := 0, tt_history_next := 0, tt_fg_pid := -1\<rparr>) s1;
     let s3 = s2\<lparr>ts_io := serial_init (g_serial_ports ! i) (ts_io s2)\<rparr>;
     tty_device_at devfs (''/tty/S'' @ [char_of (48 + i)]) (ta_serial_read A) (ta_serial_write A) (ta_serial_ioctl A) (ta_serial_ctx A i) s3 }"

definition tty_init_font :: "addr \<Rightarrow> tsys \<Rightarrow> tsys option" where
  "tty_init_font root s = do {
     (f, s1) \<leftarrow> upd_files (psf_load_from_memfs root ''/system/fonts/default8x16.psf'') s;
     let s2 = s1\<lparr>g_font := map_option snd f\<rparr>;
     (case g_font s2 of
        Some font \<Rightarrow>
          if pf_width font > 0 \<and> pf_height font > 0
          then tty_klog (''tty: font renderer=psf'' @ [CHR 10]) (s2\<lparr>g_char_w := pf_width font, g_char_h := pf_height font\<rparr>)
          else tty_klog (''tty: font renderer=builtin'' @ [CHR 10]) s2
      | None \<Rightarrow> tty_klog (''tty: font renderer=builtin'' @ [CHR 10]) s2) }"

text \<open>A terminal on the screen, with its cells and, on the frame buffer, its history; the first one also gets the name \<^verbatim>\<open>0\<close>.\<close>

definition tty_init_screen :: "tty_addrs \<Rightarrow> addr \<Rightarrow> tty_type \<Rightarrow> nat \<Rightarrow> nat \<Rightarrow> nat \<Rightarrow> tsys \<Rightarrow> tsys option" where
  "tty_init_screen A devfs type cols rows i s = do {
     (cs, s1) \<leftarrow> filled valloc (mul32 cols rows) CHR '' '' s;
     (h, s2) \<leftarrow> (if type = TTY_VESA then filled kmalloc (TTY_HISTORY_MAX * TTY_HISTORY_LINE_MAX) NUL s1 else Some (None, s1));
     let s3 = upd_tty i (\<lambda>d. d\<lparr>tt_type := type, tt_index := i, tt_cursor_x := 0, tt_cursor_y := 0, tt_cols := cols, tt_rows := rows, tt_cells := cs,
            tt_history := h, tt_history_count := 0, tt_history_next := 0, tt_fg_pid := -1\<rparr>) s2;
     let (rd, wr) = (if type = TTY_VESA then (ta_vesa_read A, ta_vesa_write A) else (ta_vga_read A, ta_vga_write A));
     s4 \<leftarrow> tty_device_at devfs (''/tty/'' @ [char_of (49 + i)]) rd wr (ta_vesa_ioctl A) (ta_ctx A i) s3;
     if i = 0 then tty_device_at devfs ''/tty/0'' rd wr (ta_vesa_ioctl A) (ta_ctx A i) s4 else Some s4 }"

text \<open>One after the other.\<close>

primrec each :: "('a \<Rightarrow> tsys \<Rightarrow> tsys option) \<Rightarrow> 'a list \<Rightarrow> tsys \<Rightarrow> tsys option" where
  "each f [] s = Some s"
| "each f (x # xs) s = do { s1 \<leftarrow> f x s; each f xs s1 }"

definition say :: "string \<Rightarrow> tsys \<Rightarrow> tsys option" where
  "say text s = tty_serial_print (''tty_init: '' @ text @ [CHR 10]) s"

text \<open>The terminals of the screen; \<open>False\<close> when the screen has no room for a character, where the function returns at once.\<close>

definition tty_init_screens :: "tty_addrs \<Rightarrow> addr \<Rightarrow> tsys \<Rightarrow> (bool \<times> tsys) option" where
  "tty_init_screens A devfs s =
     (if vesa_is_initialized (ts_vesa s) then do {
        s1 \<leftarrow> say ''vesa branch'' s;
        let cols = vesa_get_width (ts_vesa s1) div g_char_w s1;
        let rows = vesa_get_height (ts_vesa s1) div g_char_h s1;
        if cols = 0 \<or> rows = 0 then Some (False, s1)
        else do {
          s2 \<leftarrow> each (tty_init_screen A devfs TTY_VESA cols rows) [0..<VESA_TTY_COUNT] s1;
          s3 \<leftarrow> say ''vesa ttys ready'' s2;
          Some (True, s3) } }
      else do {
        s1 \<leftarrow> say ''vga branch'' s;
        s2 \<leftarrow> each (tty_init_screen A devfs TTY_VGA VGA_WIDTH VGA_HEIGHT) [0..<VESA_TTY_COUNT] (on_vga vga_init s1);
        Some (True, s2) })"

definition tty_init :: "tty_addrs \<Rightarrow> addr \<Rightarrow> addr \<Rightarrow> tsys \<Rightarrow> tsys option" where
  "tty_init A root devfs s =
     (if root = 0 \<or> devfs = 0 then Some s
      else do {
        s1 \<leftarrow> say ''enter'' s;
        (r, w) \<leftarrow> devfs_create_dir devfs ''/tty'' (ts_dev s1);
        s2 \<leftarrow> each (tty_init_serial A devfs) [0..<SERIAL_TTY_COUNT] (s1\<lparr>ts_dev := w\<rparr>);
        s3 \<leftarrow> say ''serial ready'' s2;
        s4 \<leftarrow> tty_init_font root s3;
        s5 \<leftarrow> say ''font selected'' s4;
        (ok, s6) \<leftarrow> tty_init_screens A devfs s5;
        if \<not> ok then Some s6
        else do {
          s7 \<leftarrow> say ''before first render'' (s6\<lparr>g_active_tty := 0\<rparr>);
          let s8 = (if vesa_is_initialized (ts_vesa s7) then on_vesa (vesa_clear (g_bg s7)) s7 else s7);
          s9 \<leftarrow> say ''after first render'' (tty_render_full 0 s8);
          s10 \<leftarrow> say ''hotkey set'' (s9\<lparr>ts_kbd := keyboard_set_hotkey_handler (ta_hotkey A) (ts_kbd s9)\<rparr>);
          say ''done'' (s10\<lparr>g_tty_ready := True\<rparr>) } })"

end
