(* ===== verification/Tty_Edit.thy ===== *)
theory Tty_Edit
  imports Tty_Screen Tty_Serial
begin

section \<open>The history and the remote terminal\<close>

text \<open>
  The ring of bytes that holds the history is shown to be the list of the last 32 lines.  The editor on the serial line is
  shown to keep the remote terminal in step: whatever bytes arrive, what it sends back, read by a terminal that knows
  the escape sequences, shows the line with the cursor at its place.  And a read of single characters on the frame buffer
  is shown to lose one that was typed ahead.
\<close>

subsection \<open>The history\<close>

definition hist_chunk :: "string \<Rightarrow> nat \<Rightarrow> string" where
  "hist_chunk h j = take TTY_HISTORY_LINE_MAX (drop (j * TTY_HISTORY_LINE_MAX) h)"

definition hist_ok :: "tty_device \<Rightarrow> bool" where
  "hist_ok d \<longleftrightarrow> (\<exists>h. tt_history d = Some h \<and> length h = TTY_HISTORY_MAX * TTY_HISTORY_LINE_MAX \<and>
       (\<forall>j < TTY_HISTORY_MAX. NUL \<in> set (hist_chunk h j))) \<and>
     tt_history_next d < TTY_HISTORY_MAX \<and> tt_history_count d \<le> TTY_HISTORY_MAX \<and>
     (tt_history_count d < TTY_HISTORY_MAX \<longrightarrow> tt_history_next d = tt_history_count d)"

text \<open>The lines, the latest first.\<close>

definition hist_slot :: "tty_device \<Rightarrow> nat \<Rightarrow> nat" where
  "hist_slot d k = (tt_history_next d + TTY_HISTORY_MAX - 1 - k) mod TTY_HISTORY_MAX"

definition hist_line :: "string \<Rightarrow> nat \<Rightarrow> string" where
  "hist_line h j = takeWhile ((\<noteq>) NUL) (hist_chunk h j)"

definition hist_list :: "tty_device \<Rightarrow> string list" where
  "hist_list d = map (\<lambda>k. hist_line (the (tt_history d)) (hist_slot d k)) [0..<tt_history_count d]"

lemmas hist_size = TTY_HISTORY_MAX_def TTY_HISTORY_LINE_MAX_def

lemma takeWhile_take:
  assumes "x \<in> set (take n xs)"
  shows "takeWhile ((\<noteq>) x) (take n xs) = takeWhile ((\<noteq>) x) xs"
  using assms
proof (induction xs arbitrary: n)
  case (Cons a xs)
  then show ?case by (cases n) auto
qed simp

lemma history_get:
  assumes "hist_ok d"
  shows "tty_history_get d k = (if k < length (hist_list d) then Some (hist_list d ! k) else None)"
proof -
  obtain h where h: "tt_history d = Some h" "\<forall>j < TTY_HISTORY_MAX. NUL \<in> set (hist_chunk h j)" using assms by (auto simp: hist_ok_def)
  have "takeWhile ((\<noteq>) NUL) (drop (j * TTY_HISTORY_LINE_MAX) h) = hist_line h j" if "j < TTY_HISTORY_MAX" for j
    using h(2) that takeWhile_take [of NUL TTY_HISTORY_LINE_MAX "drop (j * TTY_HISTORY_LINE_MAX) h"] by (auto simp: hist_line_def hist_chunk_def)
  moreover have "hist_slot d k < TTY_HISTORY_MAX" by (simp add: hist_slot_def hist_size)
  ultimately show ?thesis by (auto simp: tty_history_get_def hist_list_def hist_slot_def h(1))
qed

lemma chunk_nth:
  assumes "length h = TTY_HISTORY_MAX * TTY_HISTORY_LINE_MAX" "j < TTY_HISTORY_MAX"
  shows "length (hist_chunk h j) = TTY_HISTORY_LINE_MAX"
    "m < TTY_HISTORY_LINE_MAX \<Longrightarrow> hist_chunk h j ! m = h ! (j * TTY_HISTORY_LINE_MAX + m)"
  using assms by (simp_all add: hist_chunk_def hist_size)

lemma put_at_nth:
  assumes "a + length bs \<le> length h" "m < length h"
  shows "put_at a bs h ! m = (if a \<le> m \<and> m < a + length bs then bs ! (m - a) else h ! m)" "length (put_at a bs h) = length h"
  using assms by (auto simp: put_at_def nth_append)

text \<open>A line stored in a slot changes only that one.\<close>

lemma put_chunk:
  assumes "length h = TTY_HISTORY_MAX * TTY_HISTORY_LINE_MAX" "j < TTY_HISTORY_MAX" "n < TTY_HISTORY_MAX" "length bs \<le> TTY_HISTORY_LINE_MAX"
  shows "hist_chunk (put_at (n * TTY_HISTORY_LINE_MAX) bs h) j =
    (if j = n then bs @ drop (length bs) (hist_chunk h n) else hist_chunk h j)"
proof (rule nth_equalityI)
  let ?h = "put_at (n * TTY_HISTORY_LINE_MAX) bs h"
  have fits: "n * TTY_HISTORY_LINE_MAX + length bs \<le> length h" using assms by (simp add: hist_size)
  have lh: "length ?h = TTY_HISTORY_MAX * TTY_HISTORY_LINE_MAX" using fits assms(1) by (simp add: put_at_def)
  show len: "length (hist_chunk ?h j) = length (if j = n then bs @ drop (length bs) (hist_chunk h n) else hist_chunk h j)"
    using chunk_nth(1) [OF lh assms(2)] chunk_nth(1) [OF assms(1,2)] chunk_nth(1) [OF assms(1,3)] assms(4) by simp
  fix m assume "m < length (hist_chunk ?h j)"
  then have m: "m < TTY_HISTORY_LINE_MAX" using chunk_nth(1) [OF lh assms(2)] by simp
  have at: "j * TTY_HISTORY_LINE_MAX + m < length h" using m assms(1,2) by (simp add: hist_size)
  have "hist_chunk ?h j ! m = ?h ! (j * TTY_HISTORY_LINE_MAX + m)" by (rule chunk_nth(2) [OF lh assms(2) m])
  also have "\<dots> = (if n * TTY_HISTORY_LINE_MAX \<le> j * TTY_HISTORY_LINE_MAX + m \<and> j * TTY_HISTORY_LINE_MAX + m < n * TTY_HISTORY_LINE_MAX + length bs
      then bs ! (j * TTY_HISTORY_LINE_MAX + m - n * TTY_HISTORY_LINE_MAX) else h ! (j * TTY_HISTORY_LINE_MAX + m))"
    by (rule put_at_nth(1) [OF fits at])
  also have "\<dots> = (if j = n then bs @ drop (length bs) (hist_chunk h n) else hist_chunk h j) ! m"
  proof (cases "j = n")
    case True
    then show ?thesis using m assms(4) chunk_nth [OF assms(1,3)] by (auto simp: nth_append)
  next
    case False
    then have "j < n \<or> n < j" by arith
    then have "\<not> (n * TTY_HISTORY_LINE_MAX \<le> j * TTY_HISTORY_LINE_MAX + m \<and> j * TTY_HISTORY_LINE_MAX + m < n * TTY_HISTORY_LINE_MAX + length bs)"
      using m assms(4) by (auto simp: hist_size)
    then show ?thesis using False chunk_nth(2) [OF assms(1,2) m] by auto
  qed
  finally show "hist_chunk ?h j ! m = (if j = n then bs @ drop (length bs) (hist_chunk h n) else hist_chunk h j) ! m" .
qed

lemma takeWhile_none: "x \<notin> set l \<Longrightarrow> takeWhile ((\<noteq>) x) (l @ x # r) = l"
  by (induction l) auto

text \<open>The comparison with the line stored last.\<close>

lemma same_line:
  assumes "length h = TTY_HISTORY_MAX * TTY_HISTORY_LINE_MAX" "j < TTY_HISTORY_MAX" "NUL \<in> set (hist_chunk h j)"
    "NUL \<notin> set line" "length line < TTY_HISTORY_LINE_MAX"
  shows "take (length line) (drop (j * TTY_HISTORY_LINE_MAX) h) = line \<and> h ! (j * TTY_HISTORY_LINE_MAX + length line) = NUL
    \<longleftrightarrow> hist_line h j = line"
proof -
  let ?c = "hist_chunk h j"
  have l: "length ?c = TTY_HISTORY_LINE_MAX" by (rule chunk_nth(1) [OF assms(1,2)])
  have t: "take (length line) (drop (j * TTY_HISTORY_LINE_MAX) h) = take (length line) ?c" using assms(5) by (simp add: hist_chunk_def)
  have n: "h ! (j * TTY_HISTORY_LINE_MAX + length line) = ?c ! length line" using chunk_nth(2) [OF assms(1,2,5)] by simp
  show ?thesis unfolding t n hist_line_def
  proof
    assume a: "take (length line) ?c = line \<and> ?c ! length line = NUL"
    then have "?c = line @ NUL # drop (Suc (length line)) ?c" using id_take_nth_drop [of "length line" ?c] l assms(5) by simp
    then show "takeWhile ((\<noteq>) NUL) ?c = line" using takeWhile_none [OF assms(4)] by metis
  next
    assume a: "takeWhile ((\<noteq>) NUL) ?c = line"
    have "take (length line) ?c = line" using takeWhile_eq_take [of "(\<noteq>) NUL" ?c] a by simp
    moreover have "length line < length ?c" using assms(5) l by simp
    then have "?c ! length line = NUL" using nth_length_takeWhile [of "(\<noteq>) NUL" ?c] a by auto
    ultimately show "take (length line) ?c = line \<and> ?c ! length line = NUL" by blast
  qed
qed

text \<open>The places of the ring after a line has been stored.\<close>

lemma slot_shift:
  assumes "n < (32 :: nat)" "Suc k < 32"
  shows "((n + 1) mod 32 + 31 - Suc k) mod 32 = (n + 31 - k) mod 32"
proof (cases "n = 31")
  case True
  have "31 + 31 - k = (30 - k) + 32" using assms(2) by simp
  then have "(31 + 31 - k) mod 32 = (30 - k) mod 32" by (simp only: mod_add_self2)
  then show ?thesis unfolding True by simp
next
  case False
  then show ?thesis using assms(1) by (simp add: add.commute)
qed

lemma slot_other:
  assumes "n < (32 :: nat)" "Suc k < 32"
  shows "(n + 31 - k) mod 32 \<noteq> n"
proof (cases "n + 31 - k < 32")
  case True
  then show ?thesis using assms(2) by simp
next
  case False
  then have "n + 31 - k = (n - Suc k) + 32" by simp
  then have "(n + 31 - k) mod 32 = (n - Suc k) mod 32" by (simp only: mod_add_self2)
  also have "\<dots> = n - Suc k" using assms(1) by simp
  finally show ?thesis using False by simp
qed

text \<open>A line put into the next place.\<close>

definition hist_put :: "string \<Rightarrow> tty_device \<Rightarrow> tty_device" where
  "hist_put l d = d\<lparr>tt_history := map_option (put_at (tt_history_next d * TTY_HISTORY_LINE_MAX) (l @ [NUL])) (tt_history d),
     tt_history_next := (tt_history_next d + 1) mod TTY_HISTORY_MAX,
     tt_history_count := (if tt_history_count d < TTY_HISTORY_MAX then tt_history_count d + 1 else tt_history_count d)\<rparr>"

lemma hist_put_slots:
  assumes "hist_ok d"
  shows "hist_slot (hist_put l d) 0 = tt_history_next d"
    "Suc k < TTY_HISTORY_MAX \<Longrightarrow> hist_slot (hist_put l d) (Suc k) = hist_slot d k"
    "Suc k < TTY_HISTORY_MAX \<Longrightarrow> hist_slot d k \<noteq> tt_history_next d"
proof -
  have n: "tt_history_next d < 32" using assms by (simp add: hist_ok_def hist_size)
  show "hist_slot (hist_put l d) 0 = tt_history_next d"
    using n by (cases "tt_history_next d = 31") (auto simp: hist_slot_def hist_put_def hist_size)
  show "Suc k < TTY_HISTORY_MAX \<Longrightarrow> hist_slot (hist_put l d) (Suc k) = hist_slot d k"
    using slot_shift [OF n, of k] by (simp add: hist_slot_def hist_put_def hist_size add.commute)
  show "Suc k < TTY_HISTORY_MAX \<Longrightarrow> hist_slot d k \<noteq> tt_history_next d"
    using slot_other [OF n, of k] by (simp add: hist_slot_def hist_size add.commute)
qed

lemma hist_put_lines:
  assumes "hist_ok d" "NUL \<notin> set l" "length l < TTY_HISTORY_LINE_MAX" "j < TTY_HISTORY_MAX"
  shows "hist_line (the (tt_history (hist_put l d))) j = (if j = tt_history_next d then l else hist_line (the (tt_history d)) j)"
    "NUL \<in> set (hist_chunk (the (tt_history (hist_put l d))) j)"
proof -
  obtain h where h: "tt_history d = Some h" "length h = TTY_HISTORY_MAX * TTY_HISTORY_LINE_MAX" "\<forall>j < TTY_HISTORY_MAX. NUL \<in> set (hist_chunk h j)"
    and n: "tt_history_next d < TTY_HISTORY_MAX" using assms(1) by (auto simp: hist_ok_def)
  let ?n = "tt_history_next d"
  have "hist_chunk (put_at (?n * TTY_HISTORY_LINE_MAX) (l @ [NUL]) h) j =
      (if j = ?n then (l @ [NUL]) @ drop (length (l @ [NUL])) (hist_chunk h ?n) else hist_chunk h j)"
    by (rule put_chunk [OF h(2) assms(4) n]) (use assms(3) in simp)
  then have c: "hist_chunk (the (tt_history (hist_put l d))) j =
      (if j = ?n then (l @ [NUL]) @ drop (length (l @ [NUL])) (hist_chunk h ?n) else hist_chunk h j)" by (simp add: hist_put_def h(1))
  show "hist_line (the (tt_history (hist_put l d))) j = (if j = ?n then l else hist_line (the (tt_history d)) j)"
    using c takeWhile_none [OF assms(2)] by (simp add: hist_line_def h(1))
  show "NUL \<in> set (hist_chunk (the (tt_history (hist_put l d))) j)" using c h(3) assms(4) by simp
qed

lemma hist_put_ok:
  assumes "hist_ok d" "NUL \<notin> set l" "length l < TTY_HISTORY_LINE_MAX"
  shows "hist_ok (hist_put l d)"
proof -
  obtain h where h: "tt_history d = Some h" "length h = TTY_HISTORY_MAX * TTY_HISTORY_LINE_MAX"
    and n: "tt_history_next d < TTY_HISTORY_MAX" "tt_history_count d \<le> TTY_HISTORY_MAX"
      "tt_history_count d < TTY_HISTORY_MAX \<longrightarrow> tt_history_next d = tt_history_count d" using assms(1) by (auto simp: hist_ok_def)
  have "length (put_at (tt_history_next d * TTY_HISTORY_LINE_MAX) (l @ [NUL]) h) = length h"
    using h(2) n(1) assms(3) by (simp add: put_at_def hist_size)
  then show ?thesis using hist_put_lines(2) [OF assms] h n by (auto simp: hist_ok_def hist_put_def hist_size)
qed

lemma hist_put_list:
  assumes "hist_ok d" "NUL \<notin> set l" "length l < TTY_HISTORY_LINE_MAX"
  shows "hist_list (hist_put l d) = take 32 (l # hist_list d)"
proof (rule nth_equalityI)
  have c: "tt_history_count d \<le> TTY_HISTORY_MAX" "tt_history_next d < TTY_HISTORY_MAX" using assms(1) by (auto simp: hist_ok_def)
  have cp: "tt_history_count (hist_put l d) = (if tt_history_count d < TTY_HISTORY_MAX then tt_history_count d + 1 else tt_history_count d)"
    by (simp add: hist_put_def)
  show "length (hist_list (hist_put l d)) = length (take 32 (l # hist_list d))" using c(1) by (simp add: hist_list_def hist_size cp)
  fix k assume "k < length (hist_list (hist_put l d))"
  then have k: "k < tt_history_count (hist_put l d)" by (simp add: hist_list_def)
  note line = hist_put_lines(1) [OF assms]
  show "hist_list (hist_put l d) ! k = take 32 (l # hist_list d) ! k"
  proof (cases k)
    case 0
    then show ?thesis using k line [OF c(2)] by (simp add: hist_list_def hist_put_slots(1) [OF assms(1)])
  next
    case (Suc m)
    then have m: "m < tt_history_count d" "Suc m < TTY_HISTORY_MAX" using k c(1) by (auto simp: cp split: if_splits)
    have "hist_slot d m < TTY_HISTORY_MAX" by (simp add: hist_slot_def hist_size)
    from line [OF this] show ?thesis using k m Suc hist_put_slots(2,3) [OF assms(1) m(2)] by (simp add: hist_list_def hist_size)
  qed
qed

text \<open>C33: The history is a list: a line is put in front unless it is the one stored last, and the oldest of more than 32 is forgotten.  Lines are cut after
  1023 bytes.\<close>

theorem history_keeps_last_lines:
  assumes "hist_ok d" "line \<noteq> []" "NUL \<notin> set line"
  shows "hist_ok (tty_history_store line d) \<and>
    hist_list (tty_history_store line d) =
      (if hist_list d \<noteq> [] \<and> hd (hist_list d) = take 1023 line then hist_list d else take 32 (take 1023 line # hist_list d)) \<and>
    (\<forall>k. tty_history_get d k = (if k < length (hist_list d) then Some (hist_list d ! k) else None))"
proof -
  obtain h where h: "tt_history d = Some h" "length h = TTY_HISTORY_MAX * TTY_HISTORY_LINE_MAX" "\<forall>j < TTY_HISTORY_MAX. NUL \<in> set (hist_chunk h j)"
    using assms(1) by (auto simp: hist_ok_def)
  obtain l where l: "l = take 1023 line" by simp
  have cut: "(if length line \<ge> TTY_HISTORY_LINE_MAX then take (TTY_HISTORY_LINE_MAX - 1) line else line) = l" by (simp add: l hist_size)
  have nl: "NUL \<notin> set l" "length l < TTY_HISTORY_LINE_MAX" using assms(3) by (auto simp: l hist_size dest: in_set_takeD)
  have s0: "hist_slot d 0 < TTY_HISTORY_MAX" by (simp add: hist_slot_def hist_size)
  have "hist_list d \<noteq> [] \<Longrightarrow> hd (hist_list d) = hist_line h (hist_slot d 0)" by (simp add: hist_list_def h(1) hd_map)
  moreover have "hist_list d = [] \<longleftrightarrow> tt_history_count d = 0" by (simp add: hist_list_def)
  ultimately have same: "same_as_last d h l \<longleftrightarrow> hist_list d \<noteq> [] \<and> hd (hist_list d) = l"
    using same_line [OF h(2) s0 h(3) [rule_format, OF s0] nl] by (auto simp: same_as_last_def Let_def hist_slot_def)
  have "tty_history_store line d = (if same_as_last d h l then d else hist_put l d)"
    using assms(2) by (simp add: tty_history_store_def h(1) cut hist_put_def Let_def)
  then show ?thesis using same assms(1) hist_put_ok [OF assms(1) nl] hist_put_list [OF assms(1) nl] history_get [OF assms(1)]
    unfolding l [symmetric] by auto
qed

definition fresh_tty :: tty_device where
  "fresh_tty = (demo_tty 0)\<lparr>tt_history := Some (replicate (TTY_HISTORY_MAX * TTY_HISTORY_LINE_MAX) NUL)\<rparr>"

lemma fresh_tty_ok: "hist_ok fresh_tty" "hist_list fresh_tty = []"
proof -
  have "hist_chunk (replicate (TTY_HISTORY_MAX * TTY_HISTORY_LINE_MAX) NUL) j = replicate 1024 NUL" if "j < TTY_HISTORY_MAX" for j
    using that by (simp add: hist_chunk_def hist_size min_def)
  then have "NUL \<in> set (hist_chunk (replicate (TTY_HISTORY_MAX * TTY_HISTORY_LINE_MAX) NUL) j)" if "j < TTY_HISTORY_MAX" for j
    using that by simp
  then show "hist_ok fresh_tty" by (simp add: hist_ok_def fresh_tty_def demo_tty_def) (simp add: hist_size)
  show "hist_list fresh_tty = []" by (simp add: hist_list_def fresh_tty_def demo_tty_def)
qed

theorem history_keeps_last_lines_witness:
  "hist_list (tty_history_store ''ls'' fresh_tty) = [''ls'']"
  using history_keeps_last_lines [OF fresh_tty_ok(1), of "''ls''"] by (simp add: fresh_tty_ok(2))

subsection \<open>The remote terminal\<close>

text \<open>A terminal with one row of any length: its characters, its column, and how much of an escape sequence it has read.\<close>

type_synonym remote = "string \<times> nat \<times> nat"

definition put_col :: "nat \<Rightarrow> byte \<Rightarrow> string \<Rightarrow> string" where
  "put_col k c row = (if k < length row then row[k := c] else row @ replicate (k - length row) CHR '' '' @ [c])"

fun remote_byte :: "byte \<Rightarrow> remote \<Rightarrow> remote" where
  "remote_byte c (row, k, esc) =
     (if esc = 0 then
        if c = CHR 27 then (row, k, 1)
        else if c = CHR 8 then (row, k - 1, 0)
        else if 32 \<le> (of_char c :: nat) then (put_col k c row, k + 1, 0)
        else (row, k, 0)
      else if esc = 1 then (row, k, if c = CHR ''['' then 2 else 0)
      else (row, if c = CHR ''D'' then k - 1 else if c = CHR ''C'' then k + 1 else k, 0))"

declare remote_byte.simps [simp del]

definition remote_bytes :: "string \<Rightarrow> remote \<Rightarrow> remote" where
  "remote_bytes bs t = fold remote_byte bs t"

lemma remote_append: "remote_bytes (a @ b) t = remote_bytes b (remote_bytes a t)" "remote_bytes [] t = t"
  "remote_bytes (c # cs) t = remote_bytes cs (remote_byte c t)"
  by (simp_all add: remote_bytes_def)

definition printable :: "string \<Rightarrow> bool" where
  "printable s \<longleftrightarrow> (\<forall>c \<in> set s. 32 \<le> (of_char c :: nat))"

lemma remote_csi:
  "remote_bytes (csi n CHR ''D'') (row, k, 0) = (row, k - n, 0)" "remote_bytes (csi n CHR ''C'') (row, k, 0) = (row, k + n, 0)"
  by (induction n arbitrary: k) (simp_all add: csi_def remote_append remote_byte.simps)

lemma remote_print:
  assumes "printable w" "k \<le> length row"
  shows "remote_bytes w (row, k, 0) = (take k row @ w @ drop (k + length w) row, k + length w, 0)"
  using assms
proof (induction w arbitrary: row k)
  case (Cons c w)
  have c: "32 \<le> (of_char c :: nat)" "c \<noteq> CHR 27" "c \<noteq> CHR 8" using Cons.prems(1) by (auto simp: printable_def)
  have p: "put_col k c row = take k row @ c # drop (Suc k) row" using Cons.prems(2) by (auto simp: put_col_def upd_conv_take_nth_drop)
  have "remote_bytes w (put_col k c row, Suc k, 0) =
      (take (Suc k) (put_col k c row) @ w @ drop (Suc k + length w) (put_col k c row), Suc k + length w, 0)"
    by (rule Cons.IH) (use Cons.prems in \<open>auto simp: printable_def put_col_def\<close>)
  then show ?case using Cons.prems(2) c by (simp add: remote_append remote_byte.simps p min_def add.commute)
qed (simp add: remote_append)

text \<open>The terminal shows what stood there before, the line, and nothing behind it; its cursor is at the place in the line.\<close>

definition displays :: "string \<Rightarrow> editor \<Rightarrow> remote \<Rightarrow> bool" where
  "displays prompt e t \<longleftrightarrow> (\<exists>n. t = (prompt @ ed_line e @ replicate n CHR '' '', length prompt + ed_cursor e, 0))"

definition editor_ok :: "nat \<Rightarrow> editor \<Rightarrow> bool" where
  "editor_ok sz e \<longleftrightarrow> printable (ed_line e) \<and> printable (ed_saved e) \<and> ed_cursor e \<le> length (ed_line e) \<and> length (ed_line e) \<le> sz - 1"

lemma printable_parts:
  "printable (a @ b) = (printable a \<and> printable b)" "printable (c # a) = (32 \<le> (of_char c :: nat) \<and> printable a)" "printable []"
  "printable a \<Longrightarrow> printable (take n a)" "printable a \<Longrightarrow> printable (drop n a)" "printable (replicate m CHR '' '')"
  by (auto simp: printable_def dest: in_set_takeD in_set_dropD)

text \<open>An editing step is right when what it sends brings the terminal from the old line to the new one.\<close>

definition step_ok :: "nat \<Rightarrow> editor \<Rightarrow> string \<times> editor \<Rightarrow> bool" where
  "step_ok sz e r \<longleftrightarrow> editor_ok sz (snd r) \<and> (\<forall>prompt t. displays prompt e t \<longrightarrow> displays prompt (snd r) (remote_bytes (fst r) t))"

lemma step_nothing: "editor_ok sz e \<Longrightarrow> step_ok sz e ([], e)"
  by (simp add: step_ok_def remote_append)

lemma step_left: "editor_ok sz e \<Longrightarrow> n \<le> ed_cursor e \<Longrightarrow> step_ok sz e (serial_left n e)"
  by (auto simp: step_ok_def serial_left_def displays_def remote_csi editor_ok_def)

lemma step_right: "editor_ok sz e \<Longrightarrow> ed_cursor e + n \<le> length (ed_line e) \<Longrightarrow> step_ok sz e (serial_right n e)"
  by (auto simp: step_ok_def serial_right_def displays_def remote_csi editor_ok_def)

lemma step_home: "editor_ok sz e \<Longrightarrow> step_ok sz e (serial_home e)"
  by (simp add: serial_home_def step_left)

lemma step_end: "editor_ok sz e \<Longrightarrow> step_ok sz e (serial_end e)"
  by (simp add: serial_end_def step_right editor_ok_def)

lemma step_insert:
  assumes "editor_ok sz e" "32 \<le> (of_char c :: nat)" "length (ed_line e) < sz - 1"
  shows "step_ok sz e (drop (ed_cursor e) (ed_line (line_insert c e)) @ csi (length (ed_line (line_insert c e)) - ed_cursor (line_insert c e)) CHR ''D'', line_insert c e)"
proof -
  obtain a b where l: "ed_line e = a @ b" "ed_cursor e = length a" "take (ed_cursor e) (ed_line e) = a" "drop (ed_cursor e) (ed_line e) = b"
    using assms(1) by (metis append_take_drop_id editor_ok_def length_take min_absorb2)
  have pr: "printable (c # b)" "printable a" using assms(1,2) by (simp_all add: editor_ok_def l(1) printable_parts)
  have d: "displays prompt (line_insert c e) (remote_bytes (c # b @ csi (length b) CHR ''D'') t)" if disp: "displays prompt e t" for prompt t
  proof -
    obtain n where t: "t = ((prompt @ a) @ b @ replicate n CHR '' '', length (prompt @ a), 0)" using disp by (auto simp: displays_def l)
    have "remote_bytes (c # b) t = ((prompt @ a) @ (c # b) @ drop (Suc (length b)) (b @ replicate n CHR '' ''), length (prompt @ a) + Suc (length b), 0)"
      unfolding t using remote_print [OF pr(1), of "length (prompt @ a)" "(prompt @ a) @ b @ replicate n CHR '' ''"] by simp
    then show ?thesis unfolding append_Cons [symmetric] remote_append(1)
      by (auto simp: remote_csi displays_def line_insert_def l)
  qed
  have "editor_ok sz (line_insert c e)" using assms pr by (simp add: editor_ok_def line_insert_def l printable_parts)
  then show ?thesis using d by (simp add: step_ok_def line_insert_def l)
qed

lemma step_erase:
  assumes "editor_ok sz e" "0 < ed_cursor e"
  shows "step_ok sz e (CHR 8 # drop (ed_cursor (line_erase e)) (ed_line (line_erase e)) @
    CHR '' '' # csi (length (drop (ed_cursor (line_erase e)) (ed_line (line_erase e))) + 1) CHR ''D'', line_erase e)"
proof -
  obtain a x b where l: "ed_line e = a @ x # b" "ed_cursor e = Suc (length a)"
  proof -
    have "take (ed_cursor e) (ed_line e) \<noteq> []" using assms by (auto simp: editor_ok_def)
    then obtain a x where ax: "take (ed_cursor e) (ed_line e) = a @ [x]" by (metis append_butlast_last_id)
    have "ed_line e = a @ x # drop (ed_cursor e) (ed_line e)" using append_take_drop_id [of "ed_cursor e" "ed_line e"] by (simp add: ax)
    moreover have "ed_cursor e = Suc (length a)" using arg_cong [OF ax, of length] assms(1) by (simp add: editor_ok_def)
    ultimately show ?thesis using that by blast
  qed
  have le: "ed_line (line_erase e) = a @ b" "ed_cursor (line_erase e) = length a" by (simp_all add: line_erase_def l)
  have pr: "printable a" "printable b" using assms(1) by (simp_all add: editor_ok_def l printable_parts)
  have d: "displays prompt (line_erase e) (remote_bytes (CHR 8 # b @ CHR '' '' # csi (length b + 1) CHR ''D'') t)" if disp: "displays prompt e t" for prompt t
  proof -
    obtain n where t: "t = ((prompt @ a) @ (x # b) @ replicate n CHR '' '', length (prompt @ a) + 1, 0)" using disp by (auto simp: displays_def l)
    have "printable (b @ [CHR '' ''])" using pr(2) by (simp add: printable_parts)
    from remote_print [OF this, of "length (prompt @ a)" "(prompt @ a) @ (x # b) @ replicate n CHR '' ''"]
    have "remote_bytes (b @ [CHR '' '']) (remote_byte CHR 8 t) =
        ((prompt @ a) @ (b @ [CHR '' '']) @ replicate n CHR '' '', length (prompt @ a) + length b + 1, 0)"
      unfolding t by (simp add: remote_byte.simps)
    then have "remote_bytes ((b @ [CHR '' '']) @ csi (length b + 1) CHR ''D'') (remote_byte CHR 8 t) =
        ((prompt @ a) @ (b @ [CHR '' '']) @ replicate n CHR '' '', length (prompt @ a), 0)"
      unfolding remote_append(1) by (simp add: remote_csi)
    then have "remote_bytes (CHR 8 # b @ CHR '' '' # csi (length b + 1) CHR ''D'') t = (prompt @ (a @ b) @ replicate (Suc n) CHR '' '', length prompt + length a, 0)"
      by (simp add: remote_append(3))
    then show ?thesis unfolding displays_def le by blast
  qed
  have "editor_ok sz (line_erase e)" using assms pr by (simp add: editor_ok_def le printable_parts) (simp add: line_erase_def l)
  then show ?thesis using d by (simp add: step_ok_def le)
qed

lemma step_replace:
  assumes "editor_ok sz e" "printable line"
  shows "step_ok sz e (serial_replace sz line e)"
proof -
  let ?n = "length (ed_line e)"
  obtain l where l: "l = (if length line \<ge> sz then take (sz - 1) line else line)" by simp
  have pr: "printable l" "length l \<le> sz - 1" using assms(2) by (auto simp: l printable_parts)
  have d: "displays prompt (snd (serial_replace sz line e)) (remote_bytes (fst (serial_replace sz line e)) t)"
    if disp: "displays prompt e t" for prompt t
  proof -
    obtain m where t: "t = (prompt @ ed_line e @ replicate m CHR '' '', length prompt + ed_cursor e, 0)" using disp by (auto simp: displays_def)
    have "remote_bytes (replicate ?n CHR '' '') (prompt @ ed_line e @ replicate m CHR '' '', length prompt, 0) =
        (prompt @ replicate ?n CHR '' '' @ replicate m CHR '' '', length prompt + ?n, 0)"
      using remote_print [of "replicate ?n CHR '' ''" "length prompt" "prompt @ ed_line e @ replicate m CHR '' ''"] by (simp add: printable_parts)
    then have blank: "remote_bytes (csi (ed_cursor e) CHR ''D'' @ replicate ?n CHR '' '' @ csi ?n CHR ''D'') t =
        (prompt @ replicate (?n + m) CHR '' '', length prompt, 0)"
      unfolding t remote_append(1) remote_csi by (simp add: remote_csi replicate_add)
    have "remote_bytes l (prompt @ replicate (?n + m) CHR '' '', length prompt, 0) =
        (prompt @ l @ replicate (?n + m - length l) CHR '' '', length prompt + length l, 0)"
      using remote_print [OF pr(1), of "length prompt" "prompt @ replicate (?n + m) CHR '' ''"] by simp
    with blank have "remote_bytes ((csi (ed_cursor e) CHR ''D'' @ replicate ?n CHR '' '' @ csi ?n CHR ''D'') @ l) t =
        (prompt @ l @ replicate (?n + m - length l) CHR '' '', length prompt + length l, 0)"
      by (simp only: remote_append(1))
    then show ?thesis by (auto simp: serial_replace_def Let_def l [symmetric] displays_def)
  qed
  have "editor_ok sz (snd (serial_replace sz line e))" using assms(1) pr by (simp add: serial_replace_def Let_def l [symmetric] editor_ok_def)
  then show ?thesis using d by (simp add: step_ok_def)
qed

text \<open>Notes of the editor that the terminal does not show.\<close>

lemma step_notes:
  assumes "step_ok sz e1 r" "ed_line e1 = ed_line e" "ed_cursor e1 = ed_cursor e"
  shows "step_ok sz e r"
  using assms by (simp add: step_ok_def displays_def)

definition hist_printable :: "tty_device \<Rightarrow> bool" where
  "hist_printable d \<longleftrightarrow> (\<forall>k line. tty_history_get d k = Some line \<longrightarrow> printable line)"

lemma step_up:
  assumes "editor_ok sz e" "hist_printable d"
  shows "step_ok sz e (serial_up sz d e)"
proof -
  obtain e1 where e1: "e1 = (if ed_pos e < 0 then e\<lparr>ed_saved := ed_line e\<rparr> else e)" by simp
  obtain e2 where e2: "e2 = (if ed_pos e1 < int (tt_history_count d) - 1 then e1\<lparr>ed_pos := ed_pos e1 + 1\<rparr> else e1)" by simp
  have same: "ed_line e2 = ed_line e" "ed_cursor e2 = ed_cursor e" and ok: "editor_ok sz e2"
    using assms(1) by (simp_all add: e1 e2 editor_ok_def)
  have "step_ok sz e (serial_replace sz line e2)" if "printable line" for line by (rule step_notes [OF step_replace [OF ok that] same])
  moreover have "step_ok sz e ([], e2)" by (rule step_notes [OF step_nothing [OF ok] same])
  moreover have "serial_up sz d e = (if tt_history d = None \<or> tt_history_count d = 0 then ([], e)
      else case tty_history_get d (nat (ed_pos e2)) of None \<Rightarrow> ([], e2) | Some hline \<Rightarrow> serial_replace sz hline e2)"
    unfolding serial_up_def Let_def e1 [symmetric] e2 [symmetric] ..
  ultimately show ?thesis using assms step_nothing [OF assms(1)] by (auto simp: hist_printable_def split: option.split)
qed

lemma step_down:
  assumes "editor_ok sz e" "hist_printable d"
  shows "step_ok sz e (serial_down sz d e)"
proof -
  have rp: "step_ok sz e (serial_replace sz line (e\<lparr>ed_pos := p\<rparr>))" if "printable line" for line p
    by (rule step_notes [OF step_replace [of sz "e\<lparr>ed_pos := p\<rparr>"]]) (use assms(1) that in \<open>simp_all add: editor_ok_def\<close>)
  have "printable (ed_saved e)" "printable []" using assms(1) by (simp_all add: editor_ok_def printable_parts)
  then show ?thesis using assms rp step_nothing [OF assms(1)]
    by (auto simp: serial_down_def Let_def hist_printable_def split: option.split)
qed

lemma step_plain: "editor_ok sz e \<Longrightarrow> step_ok sz e (serial_plain sz c e)"
  using step_insert [of sz e c] step_erase [of sz e] step_nothing [of sz e] by (auto simp: serial_plain_def Let_def)

lemma step_csi: "editor_ok sz e \<Longrightarrow> hist_printable d \<Longrightarrow> step_ok sz e (serial_csi sz d c e)"
  by (auto simp: serial_csi_def step_home step_end step_left step_right step_up step_down step_nothing)

lemma step_tilde: "editor_ok sz e \<Longrightarrow> step_ok sz e (serial_tilde p e)"
  by (simp add: serial_tilde_def step_home step_end step_nothing)

lemma step_key:
  assumes "editor_ok sz (sl_ed l)" "hist_printable d" "serial_key sz d c l = (out, l1)"
  shows "step_ok sz (sl_ed l) (out, sl_ed l1)"
proof -
  have u: "upd_ed l0 r = (out, l1) \<Longrightarrow> step_ok sz (sl_ed l) r \<Longrightarrow> step_ok sz (sl_ed l) (out, sl_ed l1)" for l0 r
    by (cases r) (auto simp: upd_ed_def)
  show ?thesis using assms(3) step_nothing [OF assms(1)] step_plain [OF assms(1), of c] step_csi [OF assms(1,2), of c] step_tilde [OF assms(1)]
    by (auto simp: serial_key_def Let_def split: if_splits intro: u)
qed

text \<open>Bytes that arrive one after the other, and everything sent back.\<close>

fun serial_keys :: "nat \<Rightarrow> tty_device \<Rightarrow> string \<Rightarrow> sline \<Rightarrow> string \<times> sline" where
  "serial_keys sz d [] l = ([], l)"
| "serial_keys sz d (c # cs) l = (let (out, l1) = serial_key sz d c l; (outs, l2) = serial_keys sz d cs l1 in (out @ outs, l2))"

lemma keys_display:
  "serial_keys sz d cs l = (out, l') \<Longrightarrow> editor_ok sz (sl_ed l) \<Longrightarrow> hist_printable d \<Longrightarrow> displays prompt (sl_ed l) t \<Longrightarrow>
    displays prompt (sl_ed l') (remote_bytes out t) \<and> editor_ok sz (sl_ed l')"
proof (induction cs arbitrary: l t out)
  case (Cons c cs)
  obtain o1 l1 where k: "serial_key sz d c l = (o1, l1)" by fastforce
  obtain o2 where ks: "serial_keys sz d cs l1 = (o2, l')" "out = o1 @ o2"
    using Cons.prems(1) by (auto simp: k Let_def split: prod.splits)
  have "step_ok sz (sl_ed l) (o1, sl_ed l1)" by (rule step_key [OF Cons.prems(2,3) k])
  then have "displays prompt (sl_ed l1) (remote_bytes o1 t)" "editor_ok sz (sl_ed l1)" using Cons.prems(4) unfolding step_ok_def fst_conv snd_conv by blast+
  from Cons.IH [OF ks(1) this(2) Cons.prems(3) this(1)] show ?case by (simp add: ks(2) remote_append)
qed (simp add: remote_append)

text \<open>C27: Whatever bytes arrive while a line is edited, escape sequences complete or not: what has been sent back makes a terminal show the
  prompt and the line, with its cursor at the place in the line; the line fits the buffer.\<close>

theorem serial_editor_in_step:
  assumes "serial_keys sz d cs new_sline = (out, l)" "hist_printable d"
  shows "(\<exists>n. remote_bytes out (prompt, length prompt, 0) = (prompt @ ed_line (sl_ed l) @ replicate n CHR '' '', length prompt + ed_cursor (sl_ed l), 0)) \<and>
    ed_cursor (sl_ed l) \<le> length (ed_line (sl_ed l)) \<and> length (ed_line (sl_ed l)) \<le> sz - 1"
proof -
  have "editor_ok sz (sl_ed new_sline)" "displays prompt (sl_ed new_sline) (prompt, length prompt, 0)"
    by (simp_all add: editor_ok_def new_sline_def new_editor_def printable_parts displays_def)
  from keys_display [OF assms(1) this(1) assms(2) this(2)] show ?thesis by (auto simp: displays_def editor_ok_def)
qed

text \<open>Two letters, a step to the left and a letter between them.\<close>

theorem serial_editor_in_step_witness:
  "(\<exists>n. remote_bytes (fst (serial_keys 80 fresh_tty (''ac'' @ [CHR 27] @ ''[Db'') new_sline)) (''$ '', 2, 0) =
     (''$ abc'' @ replicate n CHR '' '', 4, 0))"
proof -
  have k: "serial_keys 80 fresh_tty (''ac'' @ [CHR 27] @ ''[Db'') new_sline =
      (''ac'' @ [CHR 27] @ ''[Dbc'' @ [CHR 27] @ ''[D'', \<lparr>sl_ed = \<lparr>ed_line = ''abc'', ed_cursor = 2, ed_pos = -1, ed_saved = [], ed_saved_cursor = 0\<rparr>, sl_esc = 0, sl_param = NUL\<rparr>)"
    by (simp add: new_sline_def new_editor_def serial_key_def serial_plain_def serial_csi_def serial_left_def line_insert_def csi_def upd_ed_def Let_def)
  have "hist_printable fresh_tty" by (simp add: hist_printable_def tty_history_get_def fresh_tty_def demo_tty_def)
  from serial_editor_in_step [OF k this, of "''$ ''"] show ?thesis unfolding k by (simp add: numeral_2_eq_2 numeral_eq_Suc)
qed

subsection \<open>Characters typed ahead\<close>

lemma kbd_frame [simp]:
  "ts_kbd (on_vga f s) = ts_kbd s" "ts_kbd (on_vesa h s) = ts_kbd s" "ts_kbd (upd_tty i g s) = ts_kbd s"
  by (simp_all add: on_vga_def on_vesa_def upd_tty_def)

lemma kbd_draw [simp]: "ts_kbd (tty_draw_cell x y c s) = ts_kbd s"
proof -
  have "ts_kbd (tty_draw_fallback_char px py c t) = ts_kbd t" for px py t
    unfolding tty_draw_fallback_char_def Let_def by (intro fold_frame) simp
  then show ?thesis by (simp add: tty_draw_cell_def Let_def split: option.split)
qed

lemma kbd_redraw [simp]: "ts_kbd (tty_redraw_row i y s) = ts_kbd s"
  by (simp add: tty_redraw_row_def Let_def fold_frame)

lemma kbd_rows [simp]: "ts_kbd (tty_next_row i s) = ts_kbd s" "ts_kbd (tty_advance i s) = ts_kbd s"
proof -
  have "ts_kbd (tty_scroll i t) = ts_kbd t" for t by (simp add: tty_scroll_def Let_def)
  then show n: "ts_kbd (tty_next_row i s) = ts_kbd s" for s by (simp add: tty_next_row_def Let_def)
  show "ts_kbd (tty_advance i s) = ts_kbd s" by (simp add: tty_advance_def Let_def n)
qed

lemma kbd_escape [simp]: "ts_kbd (snd (tty_consume_ansi i c s)) = ts_kbd s"
proof -
  have "ts_kbd (tty_erase_to_eol i s) = ts_kbd s" by (simp add: tty_erase_to_eol_def Let_def fold_frame)
  then have "ts_kbd (ansi_command i c s) = ts_kbd s" by (simp add: ansi_command_def Let_def)
  then show ?thesis by (simp add: tty_consume_ansi_def Let_def)
qed

lemma kbd_putc [simp]: "ts_kbd (tty_putc_vesa i c s) = ts_kbd s"
  using kbd_escape [of i c s] by (auto simp: tty_putc_vesa_def Let_def split: prod.split simp del: kbd_escape)

lemma getchar_cons:
  assumes "kbd_ok k" "chars k = c # cs"
  shows "\<exists>k'. keyboard_getchar [] k = Some (c, k') \<and> kbd_ok k' \<and> chars k' = cs \<and> events k' = events k"
proof -
  obtain r where r: "kring_get KEYBOARD_BUFFER_SIZE (keyboard_buffer k) = Some (c, r)" "kring_ok KEYBOARD_BUFFER_SIZE r" "kring_list r = cs"
    using kring.pop_cons [of KEYBOARD_BUFFER_SIZE "keyboard_buffer k" c cs] assms by (auto simp: kbd_ok_def)
  have "kr_count (keyboard_buffer k) \<noteq> 0" using r(1) by (simp add: kring_get_def split: if_splits)
  then have w: "wait_until keyboard_available [] k = Some k" by (subst wait_until.simps) (simp add: keyboard_available_def)
  have kf: "(if k_if k then k else k\<lparr>k_if := False\<rparr>) = k" by simp
  show ?thesis unfolding keyboard_getchar_def w option.map kf buffer_get_def r(1) option.case prod.case
    using assms(1) r(2,3) by (auto simp: kbd_ok_def)
qed

lemma getevent_cons:
  assumes "kbd_ok k" "events k = e # es"
  shows "\<exists>k'. keyboard_get_event [] k = Some (e, k') \<and> kbd_ok k' \<and> events k' = es \<and> chars k' = chars k"
proof -
  obtain r where r: "kring_get EVENT_BUFFER_SIZE (event_buffer k) = Some (e, r)" "kring_ok EVENT_BUFFER_SIZE r" "kring_list r = es"
    using kring.pop_cons [of EVENT_BUFFER_SIZE "event_buffer k" e es] assms by (auto simp: kbd_ok_def)
  have "kr_count (event_buffer k) \<noteq> 0" using r(1) by (simp add: kring_get_def split: if_splits)
  then have w: "wait_until keyboard_event_available [] k = Some k" by (subst wait_until.simps) (simp add: keyboard_event_available_def)
  have kf: "(if k_if k then k else k\<lparr>k_if := False\<rparr>) = k" by simp
  show ?thesis unfolding keyboard_get_event_def w option.map kf event_buffer_get_def r(1) option.case prod.case
    using assms(1) r(2,3) by (auto simp: kbd_ok_def)
qed

text \<open>A read of one character that finds its terminal shown and a key waiting.\<close>

lemma read_one_takes:
  assumes "is_active i s" "key_waits s" "one_key v irqs i s = Some (Ends r bs s2)"
  shows "read_one v irqs envs i s = Some (Some (r, bs), s2)"
proof -
  have w: "wait_key envs i s = Some (envs, s)"
    using assms(1,2) by (simp add: wait_key_def wait_while.simps [of "\<lambda>s. \<not> is_active i s"] wait_while.simps [of "\<lambda>s. \<not> key_waits s"])
  show ?thesis by (subst read_one.simps) (simp add: w assms(1,3))
qed

lemma kbd_available:
  "keyboard_available k \<longleftrightarrow> chars k \<noteq> []" "keyboard_event_available k \<longleftrightarrow> events k \<noteq> []"
  by (simp_all add: keyboard_available_def keyboard_event_available_def flip: length_0_conv)

definition plain_key :: "key_event \<Rightarrow> bool" where
  "plain_key e \<longleftrightarrow> ev_pressed e \<and> 32 \<le> (of_char (ev_ascii e) :: nat) \<and> ev_ascii e \<noteq> CHR 0x7F \<and>
     ev_scancode e \<noteq> KEY_ENTER \<and> ev_scancode e \<noteq> KEY_BACKSPACE \<and> ev_scancode e \<noteq> KEY_DEL"

lemma plain_key_chars:
  assumes "plain_key e"
  shows "ev_ascii e \<noteq> NUL" "ev_ascii e \<noteq> CHR 3" "ev_ascii e \<noteq> CHR 4" "ev_ascii e \<noteq> CHR 8" "ev_ascii e \<noteq> CHR 10" "ev_ascii e \<noteq> CHR 13"
  using assms by (auto simp: plain_key_def)

text \<open>With the event of a character in front: the character queued first is dropped, and the next one is read, or the event is used.\<close>

lemma one_key_reads:
  assumes "kbd_ok (ts_kbd s)" "events (ts_kbd s) = e1 # es" "plain_key e1" "plain_key e"
    "(chars (ts_kbd s) = [ev_ascii e1, ev_ascii e]) \<or> (chars (ts_kbd s) = [] \<and> e1 = e)"
  shows "\<exists>k. one_key True irqs i s = Some (Ends 1 [ev_ascii e] (tty_putc_vesa i (ev_ascii e) (s\<lparr>ts_kbd := k\<rparr>))) \<and>
    kbd_ok k \<and> events k = es \<and> chars k = []"
proof -
  note nc = plain_key_chars [OF assms(3)] plain_key_chars [OF assms(4)]
  obtain k1 where k1: "keyboard_get_event [] (ts_kbd s) = Some (e1, k1)" "kbd_ok k1" "events k1 = es" "chars k1 = chars (ts_kbd s)"
    using getevent_cons [OF assms(1,2)] by blast
  have ev: "one_key True irqs i s = one_event True irqs i e1 (s\<lparr>ts_kbd := k1\<rparr>)"
    using assms(2) by (simp add: one_key_def kbd_available get_event_def k1(1))
  have one: "one_char True irqs i False (ev_ascii e) t = Some (Ends 1 [ev_ascii e] (tty_putc_vesa i (ev_ascii e) t))" for t
    using nc assms(4) by (simp add: one_char_def echo_char_def put_echo_def plain_key_def)
  show ?thesis
  proof (cases "chars (ts_kbd s) = []")
    case True
    then have e: "e1 = e" "\<not> keyboard_available k1" using assms(5) by (simp_all add: kbd_available k1(4))
    have "one_key True irqs i s = Some (Ends 1 [ev_ascii e] (tty_putc_vesa i (ev_ascii e) (s\<lparr>ts_kbd := k1\<rparr>)))"
      using assms(4) nc unfolding ev
      by (simp add: one_event_def tty_take_input_char_def e tty_event_ascii_def no_return_def one plain_key_def Let_def)
    then show ?thesis using k1 True by auto
  next
    case False
    then have c: "chars k1 = [ev_ascii e1, ev_ascii e]" using assms(5) k1(4) by simp
    obtain k2 where k2: "keyboard_getchar [] k1 = Some (ev_ascii e1, k2)" "kbd_ok k2" "chars k2 = [ev_ascii e]" "events k2 = es"
      using getchar_cons [OF k1(2) c] k1(3) by auto
    obtain k3 where k3: "keyboard_getchar [] k2 = Some (ev_ascii e, k3)" "kbd_ok k3" "chars k3 = []" "events k3 = es"
      using getchar_cons [OF k2(2,3)] k2(4) by auto
    have "one_key True irqs i s = Some (Ends 1 [ev_ascii e] (tty_putc_vesa i (ev_ascii e) (s\<lparr>ts_kbd := k3\<rparr>)))"
      using assms(3,4) nc unfolding ev
      by (simp add: one_event_def tty_take_input_char_def kbd_available c k2 k3 get_char_def no_return_def one plain_key_def Let_def)
    then show ?thesis using k3 by auto
  qed
qed

text \<open>C34: Two keys pressed before a program that reads character by character from a terminal on the frame buffer asks for them: the
  first character is lost and the second is read twice.\<close>

theorem typed_ahead_lost:
  assumes "i < length (g_tty_v s)" "tt_type (tty s i) = TTY_VESA" "tt_cells (tty s i) \<noteq> None" "is_active i s" "kbd_ok (ts_kbd s)"
    "events (ts_kbd s) = [e1, e2]" "chars (ts_kbd s) = [ev_ascii e1, ev_ascii e2]" "plain_key e1" "plain_key e2"
  shows "\<exists>s1 s2. read_one True irqs envs i s = Some (Some (1, [ev_ascii e2]), s1) \<and>
    read_one True irqs envs i s1 = Some (Some (1, [ev_ascii e2]), s2)"
proof -
  obtain k where k: "one_key True irqs i s = Some (Ends 1 [ev_ascii e2] (tty_putc_vesa i (ev_ascii e2) (s\<lparr>ts_kbd := k\<rparr>)))"
      "kbd_ok k" "events k = [e2]" "chars k = []"
    using one_key_reads [OF assms(5,6,8,9)] assms(7) by blast
  obtain s1 where s1: "s1 = tty_putc_vesa i (ev_ascii e2) (s\<lparr>ts_kbd := k\<rparr>)" by simp
  have r1: "read_one True irqs envs i s = Some (Some (1, [ev_ascii e2]), s1)"
    unfolding s1 by (rule read_one_takes [OF assms(4) _ k(1)]) (simp add: key_waits_def kbd_available assms(6))
  have b: "becomes i (spec_putc (ev_ascii e2) (tty s i)) s s1"
    using putc_vesa_becomes [of i "s\<lparr>ts_kbd := k\<rparr>" "ev_ascii e2"] assms(1-3) by (simp add: s1 becomes_def)
  have a: "is_active i s1" using assms(4) b becomes_tty [OF b assms(1)] by (simp add: is_active_def becomes_def putc_index)
  have kb: "ts_kbd s1 = k" by (simp add: s1)
  have r: "\<exists>k'. one_key True irqs i s1 = Some (Ends 1 [ev_ascii e2] (tty_putc_vesa i (ev_ascii e2) (s1\<lparr>ts_kbd := k'\<rparr>)))"
    using one_key_reads [of s1 e2 "[]" e2] k(2-4) assms(9) by (auto simp: kb)
  have "key_waits s1" using k(3) by (simp add: key_waits_def kb kbd_available)
  then show ?thesis using r1 r read_one_takes [OF a] by blast
qed

text \<open>The keys a and b, both pressed before the first read.\<close>

definition typed :: "u8 \<Rightarrow> byte \<Rightarrow> key_event" where
  "typed sc c = zero_event\<lparr>ev_scancode := sc, ev_ascii := c, ev_pressed := True\<rparr>"

definition ahead_kbd :: kbd where
  "ahead_kbd = buffer_put CHR ''b'' (event_buffer_put (typed 0x30 CHR ''b'') (buffer_put CHR ''a'' (event_buffer_put (typed 0x1E CHR ''a'') demo_kbd)))"

lemma ahead_queues: "events ahead_kbd = [typed 0x1E CHR ''a'', typed 0x30 CHR ''b'']" "chars ahead_kbd = [CHR ''a'', CHR ''b'']"
proof -
  have r: "kring_ok EVENT_BUFFER_SIZE (event_buffer demo_kbd)" "kring_ok KEYBOARD_BUFFER_SIZE (keyboard_buffer demo_kbd)"
    using demo_kbd_ok by (simp_all add: kbd_ok_def)
  have n: "take EVENT_BUFFER_SIZE [x, y] = [x, y]" "take EVENT_BUFFER_SIZE [x] = [x]"
    "take KEYBOARD_BUFFER_SIZE [v, w] = [v, w]" "take KEYBOARD_BUFFER_SIZE [v] = [v]" for x y :: key_event and v w :: byte
    by (simp_all add: EVENT_BUFFER_SIZE_def KEYBOARD_BUFFER_SIZE_def)
  show "events ahead_kbd = [typed 0x1E CHR ''a'', typed 0x30 CHR ''b'']" "chars ahead_kbd = [CHR ''a'', CHR ''b'']"
    unfolding ahead_kbd_def buffer_put_def event_buffer_put_def
    by (simp_all add: kring.put_inv r kring.put_contents demo_kbd_empty n)
qed

theorem typed_ahead_lost_witness:
  "let s = demo_tsys\<lparr>g_tty_v := [(demo_tty 0)\<lparr>tt_type := TTY_VESA\<rparr>], ts_kbd := ahead_kbd\<rparr> in
    \<exists>s1 s2. read_one True [] [] 0 s = Some (Some (1, ''b''), s1) \<and> read_one True [] [] 0 s1 = Some (Some (1, ''b''), s2)"
proof -
  let ?s = "demo_tsys\<lparr>g_tty_v := [(demo_tty 0)\<lparr>tt_type := TTY_VESA\<rparr>], ts_kbd := ahead_kbd\<rparr>"
  have ok: "kbd_ok ahead_kbd" by (simp add: ahead_kbd_def demo_kbd_ok)
  have k: "plain_key (typed 0x1E CHR ''a'')" "plain_key (typed 0x30 CHR ''b'')" by (simp_all add: plain_key_def typed_def key_defs KEY_DEL_def)
  have a: "ev_ascii (typed sc c) = c" for sc c by (simp add: typed_def)
  have act: "is_active 0 ?s" by (simp add: is_active_def demo_tty_def demo_tsys_def)
  have t: "tt_type (tty ?s 0) = TTY_VESA" "tt_cells (tty ?s 0) \<noteq> None" by (simp_all add: demo_tty_def)
  have q: "events (ts_kbd ?s) = [typed 0x1E CHR ''a'', typed 0x30 CHR ''b'']"
      "chars (ts_kbd ?s) = [ev_ascii (typed 0x1E CHR ''a''), ev_ascii (typed 0x30 CHR ''b'')]" "kbd_ok (ts_kbd ?s)"
    by (simp_all add: ahead_queues a ok)
  show ?thesis using typed_ahead_lost [OF _ t act q(3) q(1,2) k, of "[]" "[]"] unfolding a Let_def by simp
qed

end
