(* ===== verification/Procfs.thy ===== *)
theory Procfs
  imports Fds Vfs Exec
begin

section \<open>The process file system\<close>

text \<open>
  Model of \<^verbatim>\<open>src/kernel/drivers/filesystem/procfs.c\<close>: files and directories that show the state of the kernel and of its
  tasks.  The operations only read the state: \<open>pe_k\<close> and \<open>pe_fds\<close> say where the kernel state and the descriptor tables lie in it.
  A text under construction is the string before its null byte.  The static buffers, which are filled anew by every call, are not
  part of the state, and what a failed call leaves in the buffer of the caller is left out.
\<close>

datatype proc_node_kind = PROC_NODE_NONE | PROC_NODE_ROOT_DIR | PROC_NODE_SYS_FILE | PROC_NODE_PID_DIR | PROC_NODE_PID_FILE
  | PROC_NODE_PID_FD_DIR | PROC_NODE_PID_FD_FILE

definition PROC_SYS_UPTIME :: nat where "PROC_SYS_UPTIME = 0"
definition PROC_SYS_MEMINFO :: nat where "PROC_SYS_MEMINFO = 1"
definition PROC_SYS_STAT :: nat where "PROC_SYS_STAT = 2"
definition PROC_SYS_VERSION :: nat where "PROC_SYS_VERSION = 3"

definition PROC_PID_CMDLINE :: nat where "PROC_PID_CMDLINE = 0"
definition PROC_PID_STATUS :: nat where "PROC_PID_STATUS = 1"
definition PROC_PID_STAT :: nat where "PROC_PID_STAT = 2"
definition PROC_PID_MEM :: nat where "PROC_PID_MEM = 3"
definition PROC_PID_TTY :: nat where "PROC_PID_TTY = 4"
definition PROC_PID_EXE :: nat where "PROC_PID_EXE = 5"

lemmas proc_ids = PROC_SYS_UPTIME_def PROC_SYS_MEMINFO_def PROC_SYS_STAT_def PROC_SYS_VERSION_def PROC_PID_CMDLINE_def
  PROC_PID_STATUS_def PROC_PID_STAT_def PROC_PID_MEM_def PROC_PID_TTY_def PROC_PID_EXE_def

definition PROC_SYS_TEXT_CAP :: nat where "PROC_SYS_TEXT_CAP = 256"
definition PROC_PID_TEXT_CAP :: nat where "PROC_PID_TEXT_CAP = 768"

definition HOUSEOS_VERSION_STR :: string where "HOUSEOS_VERSION_STR = ''0.1.0''"
definition HOUSEOS_RELEASE_STR :: string where "HOUSEOS_RELEASE_STR = ''HouseOS '' @ HOUSEOS_VERSION_STR"

record proc_path =
  pp_kind :: proc_node_kind
  pp_pid :: nat
  pp_fd :: nat
  pp_file_id :: nat

definition proc_path_zero :: proc_path where
  "proc_path_zero = \<lparr>pp_kind = PROC_NODE_NONE, pp_pid = 0, pp_fd = 0, pp_file_id = 0\<rparr>"

record 'w proc_env =
  pe_k :: "'w \<Rightarrow> kstate"
  pe_fds :: "'w \<Rightarrow> fd_state"

subsection \<open>Building texts\<close>

text \<open>Appending gives \<open>True\<close> for 0 and \<open>False\<close> for -1, with the text so far.\<close>

definition proc_append_text :: "nat \<Rightarrow> string \<Rightarrow> string \<Rightarrow> bool \<times> string" where
  "proc_append_text cap text out = (if length out + length text \<ge> cap then (False, out) else (True, out @ text))"

definition proc_append_char :: "nat \<Rightarrow> byte \<Rightarrow> string \<Rightarrow> bool \<times> string" where
  "proc_append_char cap c out = (if length out + 1 \<ge> cap then (False, out) else (True, out @ [c]))"

fun append_chars :: "nat \<Rightarrow> string \<Rightarrow> string \<Rightarrow> bool \<times> string" where
  "append_chars cap [] out = (True, out)"
| "append_chars cap (c # cs) out = (let (ok, o1) = proc_append_char cap c out in if ok then append_chars cap cs o1 else (False, o1))"

text \<open>The digits, lowest first, as they are put into an array of \<open>n\<close> characters.\<close>

fun low_digits :: "nat \<Rightarrow> nat \<Rightarrow> string" where
  "low_digits 0 v = []"
| "low_digits (Suc n) v = (if v = 0 then [] else char_of (48 + v mod 10) # low_digits n (v div 10))"

definition proc_append_u32 :: "nat \<Rightarrow> nat \<Rightarrow> string \<Rightarrow> bool \<times> string" where
  "proc_append_u32 cap v out = (if v = 0 then proc_append_char cap CHR ''0'' out else append_chars cap (rev (low_digits 16 v)) out)"

definition proc_append_i32 :: "nat \<Rightarrow> int \<Rightarrow> string \<Rightarrow> bool \<times> string" where
  "proc_append_i32 cap v out =
     (if v < 0
      then let (ok, o1) = proc_append_char cap CHR ''-'' out in if ok then proc_append_u32 cap (nat (- v)) o1 else (False, o1)
      else proc_append_u32 cap (nat v) out)"

text \<open>Appending one after the other until one fails, and whatever the results are.\<close>

fun all_appends :: "(string \<Rightarrow> bool \<times> string) list \<Rightarrow> string \<Rightarrow> bool \<times> string" where
  "all_appends [] out = (True, out)"
| "all_appends (f # fs) out = (let (ok, o1) = f out in if ok then all_appends fs o1 else (False, o1))"

definition each_append :: "(string \<Rightarrow> bool \<times> string) list \<Rightarrow> string \<Rightarrow> string" where
  "each_append fs out = fold (\<lambda>f o1. snd (f o1)) fs out"

definition proc_task_state_name :: "task_state \<Rightarrow> string" where
  "proc_task_state_name st = (case st of TASK_READY \<Rightarrow> ''READY'' | TASK_RUNNING \<Rightarrow> ''RUNNING'' | TASK_BLOCKED \<Rightarrow> ''BLOCKED''
     | TASK_TERMINATED \<Rightarrow> ''TERMINATED'')"

subsection \<open>Paths\<close>

definition digit :: "byte \<Rightarrow> bool" where
  "digit c \<longleftrightarrow> 48 \<le> (of_char c :: nat) \<and> (of_char c :: nat) \<le> 57"

fun token_loop_u32 :: "nat \<Rightarrow> string \<Rightarrow> nat \<times> string" where
  "token_loop_u32 v [] = (v, [])"
| "token_loop_u32 v (c # cs) = (if digit c then token_loop_u32 (add32 (mul32 v 10) (of_char c - 48)) cs else (v, c # cs))"

text \<open>The number and what follows it.\<close>

definition proc_parse_u32_token :: "string \<Rightarrow> (nat \<times> string) option" where
  "proc_parse_u32_token s = (case s of [] \<Rightarrow> None | c # cs \<Rightarrow> if digit c then Some (token_loop_u32 0 s) else None)"

definition sys_files :: "(string \<times> nat) list" where
  "sys_files = [(''uptime'', PROC_SYS_UPTIME), (''meminfo'', PROC_SYS_MEMINFO), (''stat'', PROC_SYS_STAT), (''version'', PROC_SYS_VERSION)]"

definition pid_files :: "(string \<times> nat) list" where
  "pid_files = [(''cmdline'', PROC_PID_CMDLINE), (''status'', PROC_PID_STATUS), (''stat'', PROC_PID_STAT), (''mem'', PROC_PID_MEM),
     (''tty'', PROC_PID_TTY), (''exe'', PROC_PID_EXE)]"

text \<open>The part behind the number of the task.\<close>

definition parse_pid_part :: "nat \<Rightarrow> string \<Rightarrow> proc_path option" where
  "parse_pid_part pid p =
     (let r = proc_path_zero\<lparr>pp_pid := pid\<rparr> in
      case p of
        [] \<Rightarrow> Some (r\<lparr>pp_kind := PROC_NODE_PID_DIR\<rparr>)
      | c # q \<Rightarrow>
          if c \<noteq> CHR ''/'' then None
          else if q = [] then Some (r\<lparr>pp_kind := PROC_NODE_PID_DIR\<rparr>)
          else if q = ''fd'' \<or> q = ''fd/'' then Some (r\<lparr>pp_kind := PROC_NODE_PID_FD_DIR\<rparr>)
          else if take 3 q = ''fd/'' then
            (case proc_parse_u32_token (drop 3 q) of
               Some (fd, []) \<Rightarrow> Some (r\<lparr>pp_kind := PROC_NODE_PID_FD_FILE, pp_fd := fd\<rparr>)
             | _ \<Rightarrow> None)
          else map_option (\<lambda>fid. r\<lparr>pp_kind := PROC_NODE_PID_FILE, pp_file_id := fid\<rparr>) (map_of pid_files q))"

definition proc_parse_path :: "string \<Rightarrow> kstate \<Rightarrow> proc_path option" where
  "proc_parse_path path k =
     (case path of
        [] \<Rightarrow> None
      | c # p \<Rightarrow>
          if c \<noteq> CHR ''/'' then None
          else if p = [] then Some (proc_path_zero\<lparr>pp_kind := PROC_NODE_ROOT_DIR\<rparr>)
          else (case map_of sys_files p of
              Some fid \<Rightarrow> Some (proc_path_zero\<lparr>pp_kind := PROC_NODE_SYS_FILE, pp_file_id := fid\<rparr>)
            | None \<Rightarrow>
                if take 4 p = ''self'' \<and> (drop 4 p = [] \<or> hd (drop 4 p) = CHR ''/'') then
                  (case current_task k of None \<Rightarrow> None | Some c \<Rightarrow> parse_pid_part (t_pid (tasks k ! c)) (drop 4 p))
                else
                  (case proc_parse_u32_token p of None \<Rightarrow> None | Some (pid, q) \<Rightarrow> parse_pid_part pid q)))"

subsection \<open>Directories\<close>

text \<open>The result of a listing, and the text in the buffer.\<close>

definition listed :: "bool \<times> string \<Rightarrow> int \<times> string" where
  "listed r = (if fst r then (int (length (snd r)), snd r) else (-1, []))"

definition proc_root_list :: "kstate \<Rightarrow> nat \<Rightarrow> int \<times> string" where
  "proc_root_list k out_size =
     (if out_size = 0 then (-1, [])
      else let (ok, out) = all_appends
             (proc_append_text out_size (''uptime'' @ [CHR 10] @ ''meminfo'' @ [CHR 10] @ ''stat'' @ [CHR 10] @ ''version'' @ [CHR 10] @ ''self/'' @ [CHR 10]) #
              concat (map (\<lambda>t. [proc_append_u32 out_size (t_pid t), proc_append_text out_size (CHR ''/'' # [CHR 10])])
                (filter (\<lambda>t. t_pid t \<noteq> 0) (take (task_count k) (tasks k))))) [] in
        listed (ok, if out \<noteq> [] \<and> last out = CHR 10 then butlast out else out))"

definition proc_pid_list :: "nat \<Rightarrow> int \<times> string" where
  "proc_pid_list out_size =
     (if out_size = 0 then (-1, [])
      else listed (proc_append_text out_size (''fd/'' @ [CHR 10] @ ''cmdline'' @ [CHR 10] @ ''status'' @ [CHR 10] @ ''stat'' @ [CHR 10] @
        ''mem'' @ [CHR 10] @ ''tty'' @ [CHR 10] @ ''exe'') []))"

fun fd_list_loop :: "nat \<Rightarrow> nat list \<Rightarrow> string \<Rightarrow> bool \<times> string" where
  "fd_list_loop cap [] out = (True, out)"
| "fd_list_loop cap (fd # fds) out =
     (let (ok, o1) = (if out \<noteq> [] then proc_append_char cap CHR 10 out else (True, out)) in
      if \<not> ok then (False, o1)
      else let (ok2, o2) = proc_append_u32 cap fd o1 in if \<not> ok2 then (False, o2) else fd_list_loop cap fds o2)"

definition proc_pid_fd_list :: "nat \<Rightarrow> kstate \<Rightarrow> fd_state \<Rightarrow> nat \<Rightarrow> int \<times> string" where
  "proc_pid_fd_list pid k F out_size =
     (if out_size = 0 then (-1, [])
      else listed (fd_list_loop out_size (filter (\<lambda>fd. syscall_task_fd_path pid fd 256 k F \<noteq> None) [0..<syscall_task_fd_max]) []))"

subsection \<open>Files\<close>

text \<open>The result of a read, cut to the size of the buffer.\<close>

definition cut_to :: "nat \<Rightarrow> string \<Rightarrow> int \<times> string" where
  "cut_to sz text = (int (min (length text) sz), take sz text)"

definition count_state :: "task_state \<Rightarrow> kstate \<Rightarrow> nat" where
  "count_state st k = length (filter (\<lambda>t. t_state t = st) (take (task_count k) (tasks k)))"

definition sys_text :: "nat \<Rightarrow> kstate \<Rightarrow> (string \<Rightarrow> bool \<times> string) list option" where
  "sys_text fid k =
     (let text = proc_append_text PROC_SYS_TEXT_CAP; num = proc_append_u32 PROC_SYS_TEXT_CAP in
      if fid = PROC_SYS_UPTIME then Some [num (timer_get_ticks k div 100), text [CHR 10]]
      else if fid = PROC_SYS_MEMINFO then Some
        [text ''HeapTotal: '', num (get_total_heap (mm k)), text (CHR 10 # ''HeapUsed: ''), num (get_used_heap (mm k)),
         text (CHR 10 # ''HeapFree: ''), num (get_free_heap (mm k)), text [CHR 10]]
      else if fid = PROC_SYS_STAT then Some
        [text ''tasks '', num (task_count k), text (CHR 10 # ''ready ''), num (count_state TASK_READY k),
         text (CHR 10 # ''running ''), num (count_state TASK_RUNNING k), text (CHR 10 # ''blocked ''), num (count_state TASK_BLOCKED k),
         text (CHR 10 # ''terminated ''), num (count_state TASK_TERMINATED k), text [CHR 10]]
      else if fid = PROC_SYS_VERSION then Some [text (HOUSEOS_RELEASE_STR @ [CHR 10])]
      else None)"

definition proc_read_system_file :: "nat \<Rightarrow> kstate \<Rightarrow> nat \<Rightarrow> int \<times> string" where
  "proc_read_system_file fid k sz =
     (case sys_text fid k of
        None \<Rightarrow> (-1, [])
      | Some fs \<Rightarrow> (case all_appends fs [] of (ok, text) \<Rightarrow> if ok then cut_to sz text else (-1, [])))"

definition or_dash :: "string \<Rightarrow> string" where
  "or_dash s = (if s \<noteq> [] then s else ''-'')"

text \<open>The texts of a task; results of the appending functions are not looked at.\<close>

definition pid_text :: "nat \<Rightarrow> task \<Rightarrow> (string \<Rightarrow> bool \<times> string) list option" where
  "pid_text file_id t =
     (let text = proc_append_text PROC_PID_TEXT_CAP; num = proc_append_u32 PROC_PID_TEXT_CAP; inum = proc_append_i32 PROC_PID_TEXT_CAP in
      if file_id = PROC_PID_CMDLINE then Some
        ((if t_cmdline t \<noteq> [] then [text (t_cmdline t)] else if t_prog_path t \<noteq> [] then [text (t_prog_path t)] else []) @ [text [CHR 10]])
      else if file_id = PROC_PID_STATUS then Some
        [text (''Pid:'' @ [CHR 9]), num (t_pid t), text (CHR 10 # ''State:'' @ [CHR 9]), text (proc_task_state_name (t_state t)),
         text (CHR 10 # ''Tty:'' @ [CHR 9]), text (or_dash (t_tty_path t)), text (CHR 10 # ''Exe:'' @ [CHR 9]), text (or_dash (t_prog_path t)),
         text (CHR 10 # ''Cmdline:'' @ [CHR 9]), text (or_dash (t_cmdline t)), text (CHR 10 # ''ExitStatus:'' @ [CHR 9]), inum (t_exit_status t),
         text (CHR 10 # ''TermSignal:'' @ [CHR 9]), num (t_term_signal t), text (CHR 10 # ''UserSlot:'' @ [CHR 9]),
         (if t_user_slot t = NO_SLOT then text ''-1'' else num (t_user_slot t)), text [CHR 10]]
      else if file_id = PROC_PID_STAT then Some
        [num (t_pid t), text '' '', text (proc_task_state_name (t_state t)), text '' '', inum (t_exit_status t), text '' '', num (t_term_signal t),
         text '' '', (if t_user_slot t = NO_SLOT then text ''0'' else num (t_user_phys_base t)), text [CHR 10]]
      else if file_id = PROC_PID_TTY then Some [text (or_dash (t_tty_path t)), text [CHR 10]]
      else if file_id = PROC_PID_EXE then Some [text (or_dash (t_prog_path t)), text [CHR 10]]
      else None)"

definition proc_read_pid_text :: "task \<Rightarrow> nat \<Rightarrow> nat \<Rightarrow> int \<times> string" where
  "proc_read_pid_text t file_id sz = (case pid_text file_id t of None \<Rightarrow> (-1, []) | Some fs \<Rightarrow> cut_to sz (each_append fs []))"

definition proc_read_pid_mem :: "task \<Rightarrow> kstate \<Rightarrow> nat \<Rightarrow> int \<times> string" where
  "proc_read_pid_mem t k sz =
     (if t_user_slot t = NO_SLOT \<or> t_user_phys_base t = 0 then (0, [])
      else let n = (if sz < USER_SLOT_SIZE_PHYS then sz else USER_SLOT_SIZE_PHYS) in (int n, uget (mm k) (t_user_phys_base t) n))"

definition proc_read_pid_fd :: "nat \<Rightarrow> nat \<Rightarrow> kstate \<Rightarrow> fd_state \<Rightarrow> nat \<Rightarrow> int \<times> string" where
  "proc_read_pid_fd pid fd k F sz =
     (case syscall_task_fd_path pid fd 256 k F of
        None \<Rightarrow> (-1, [])
      | Some path \<Rightarrow> cut_to sz (if length path + 1 \<le> 256 then path @ [CHR 10] else path))"

subsection \<open>The operations\<close>

definition proc_open_op :: "'w proc_env \<Rightarrow> addr \<Rightarrow> string \<Rightarrow> 'w \<Rightarrow> (int \<times> 'w) option" where
  "proc_open_op P ctx path w = Some (if proc_parse_path path (pe_k P w) \<noteq> None then 0 else -1, w)"

definition proc_close_op :: "addr \<Rightarrow> int \<Rightarrow> 'w \<Rightarrow> (int \<times> 'w) option" where
  "proc_close_op ctx fd w = Some (0, w)"

definition proc_read_path :: "'w proc_env \<Rightarrow> string \<Rightarrow> nat \<Rightarrow> 'w \<Rightarrow> int \<times> string" where
  "proc_read_path P path sz w =
     (let k = pe_k P w in
      case proc_parse_path path k of
        None \<Rightarrow> (-1, [])
      | Some pp \<Rightarrow>
          if pp_kind pp = PROC_NODE_SYS_FILE then proc_read_system_file (pp_file_id pp) k sz
          else if pp_pid pp = 0 then (-1, [])
          else (case task_find_by_pid (pp_pid pp) k of
              None \<Rightarrow> (-1, [])
            | Some i \<Rightarrow>
                if pp_kind pp = PROC_NODE_PID_FILE then
                  if pp_file_id pp = PROC_PID_MEM then proc_read_pid_mem (tasks k ! i) k sz
                  else proc_read_pid_text (tasks k ! i) (pp_file_id pp) sz
                else if pp_kind pp = PROC_NODE_PID_FD_FILE then proc_read_pid_fd (pp_pid pp) (pp_fd pp) k (pe_fds P w) sz
                else (-1, [])))"

definition proc_read_op :: "'w proc_env \<Rightarrow> addr \<Rightarrow> string \<Rightarrow> nat \<Rightarrow> 'w \<Rightarrow> ((int \<times> byte list) io \<times> 'w) option" where
  "proc_read_op P ctx path sz w = Some (Ret (proc_read_path P path sz w), w)"

definition proc_write_op :: "addr \<Rightarrow> string \<Rightarrow> byte list \<Rightarrow> 'w \<Rightarrow> (int io \<times> 'w) option" where
  "proc_write_op ctx path buf w = Some (Ret (-1), w)"

definition proc_append_op :: "addr \<Rightarrow> string \<Rightarrow> byte list \<Rightarrow> 'w \<Rightarrow> (int io \<times> 'w) option" where
  "proc_append_op ctx path buf w = Some (Ret (-1), w)"

definition proc_ioctl_op :: "addr \<Rightarrow> string \<Rightarrow> nat \<Rightarrow> addr \<Rightarrow> 'w \<Rightarrow> (int io \<times> 'w) option" where
  "proc_ioctl_op ctx path request arg w = Some (Ret (-1), w)"

definition proc_mkdir_op :: "addr \<Rightarrow> string \<Rightarrow> 'w \<Rightarrow> (int \<times> 'w) option" where
  "proc_mkdir_op ctx path w = Some (-1, w)"

definition proc_create_file_op :: "addr \<Rightarrow> string \<Rightarrow> 'w \<Rightarrow> (int \<times> 'w) option" where
  "proc_create_file_op ctx path w = Some (-1, w)"

definition proc_link_op :: "addr \<Rightarrow> string \<Rightarrow> string \<Rightarrow> 'w \<Rightarrow> (int \<times> 'w) option" where
  "proc_link_op ctx oldpath newpath w = Some (-1, w)"

definition proc_unlink_op :: "addr \<Rightarrow> string \<Rightarrow> 'w \<Rightarrow> (int \<times> 'w) option" where
  "proc_unlink_op ctx path w = Some (-1, w)"

definition proc_rmdir_op :: "addr \<Rightarrow> string \<Rightarrow> 'w \<Rightarrow> (int \<times> 'w) option" where
  "proc_rmdir_op ctx path w = Some (-1, w)"

definition proc_mkfifo_op :: "addr \<Rightarrow> string \<Rightarrow> 'w \<Rightarrow> (int \<times> 'w) option" where
  "proc_mkfifo_op ctx path w = Some (-1, w)"

definition proc_mksock_op :: "addr \<Rightarrow> string \<Rightarrow> 'w \<Rightarrow> (int \<times> 'w) option" where
  "proc_mksock_op ctx path w = Some (-1, w)"

definition proc_list_path :: "'w proc_env \<Rightarrow> string \<Rightarrow> nat \<Rightarrow> 'w \<Rightarrow> int \<times> string" where
  "proc_list_path P path out_size w =
     (let k = pe_k P w in
      case proc_parse_path path k of
        None \<Rightarrow> (-1, [])
      | Some pp \<Rightarrow>
          if pp_kind pp = PROC_NODE_ROOT_DIR then proc_root_list k out_size
          else if pp_kind pp = PROC_NODE_PID_DIR then
            (if task_find_by_pid (pp_pid pp) k = None then (-1, []) else proc_pid_list out_size)
          else if pp_kind pp = PROC_NODE_PID_FD_DIR then proc_pid_fd_list (pp_pid pp) k (pe_fds P w) out_size
          else (-1, []))"

definition proc_list_op :: "'w proc_env \<Rightarrow> addr \<Rightarrow> string \<Rightarrow> nat \<Rightarrow> 'w \<Rightarrow> ((int \<times> string) \<times> 'w) option" where
  "proc_list_op P ctx path out_size w = Some (proc_list_path P path out_size w, w)"

text \<open>Modes 0444 and 0555; the sizes are those of reads into a buffer of 2048 bytes.\<close>

definition proc_file_info :: "int \<Rightarrow> vfs_info" where
  "proc_file_info n = \<lparr>vi_type = VFS_NODE_FILE, vi_mode = 292, vi_uid = 0, vi_gid = 0, vi_size = (if n > 0 then nat n else 0)\<rparr>"

definition proc_info :: "'w proc_env \<Rightarrow> string \<Rightarrow> 'w \<Rightarrow> vfs_info option" where
  "proc_info P path w =
     (let k = pe_k P w in
      case proc_parse_path path k of
        None \<Rightarrow> None
      | Some pp \<Rightarrow>
          if pp_kind pp = PROC_NODE_ROOT_DIR \<or> pp_kind pp = PROC_NODE_PID_DIR \<or> pp_kind pp = PROC_NODE_PID_FD_DIR
          then Some \<lparr>vi_type = VFS_NODE_DIR, vi_mode = 365, vi_uid = 0, vi_gid = 0, vi_size = 0\<rparr>
          else if pp_kind pp = PROC_NODE_SYS_FILE then Some (proc_file_info (fst (proc_read_system_file (pp_file_id pp) k 2048)))
          else (case task_find_by_pid (pp_pid pp) k of
              None \<Rightarrow> None
            | Some i \<Rightarrow>
                if pp_kind pp = PROC_NODE_PID_FILE then Some (proc_file_info
                  (if pp_file_id pp = PROC_PID_MEM then int USER_SLOT_SIZE_PHYS else fst (proc_read_pid_text (tasks k ! i) (pp_file_id pp) 2048)))
                else if pp_kind pp = PROC_NODE_PID_FD_FILE then
                  (let n = fst (proc_read_pid_fd (pp_pid pp) (pp_fd pp) k (pe_fds P w) 2048) in if n < 0 then None else Some (proc_file_info n))
                else None))"

definition proc_get_info_op :: "'w proc_env \<Rightarrow> addr \<Rightarrow> string \<Rightarrow> 'w \<Rightarrow> (vfs_info option \<times> 'w) option" where
  "proc_get_info_op P ctx path w = Some (proc_info P path w, w)"

definition g_procfs_vfs_ops :: "'w proc_env \<Rightarrow> 'w vfs_ops" where
  "g_procfs_vfs_ops P = \<lparr>op_open = Some (proc_open_op P), op_close = Some proc_close_op, op_read = Some (proc_read_op P),
     op_write = Some proc_write_op, op_append = Some proc_append_op, op_ioctl = Some proc_ioctl_op,
     op_mkdir = Some proc_mkdir_op, op_create_file = Some proc_create_file_op, op_link = Some proc_link_op,
     op_unlink = Some proc_unlink_op, op_rmdir = Some proc_rmdir_op, op_mkfifo = Some proc_mkfifo_op,
     op_mksock = Some proc_mksock_op, op_list = Some (proc_list_op P), op_get_info = Some (proc_get_info_op P)\<rparr>"

end
