(* ===== verification/Procfs_Props.thy ===== *)
theory Procfs_Props
  imports Procfs Task_Props
begin

section \<open>Properties of the process file system\<close>

text \<open>
  Numbers are written and read back, so the directory of every task that the root directory lists is found under
  its name; every text stays inside its buffer, and a read gives at most what was asked for.  The text of
  a descriptor with a path of full length is one byte longer than its buffer.
\<close>

subsection \<open>Numbers\<close>

definition dec :: "nat \<Rightarrow> string" where
  "dec v = (if v = 0 then ''0'' else rev (low_digits 16 v))"

abbreviation digit_value :: "byte \<Rightarrow> nat" where
  "digit_value c \<equiv> of_char c - 48"

lemma low_digits_digit: "c \<in> set (low_digits n v) \<Longrightarrow> digit c"
proof (induction n v rule: low_digits.induct)
  case (2 n v)
  have "(48 + v mod 10) mod 256 = 48 + v mod 10" by (intro mod_less) linarith
  then have "digit (char_of (48 + v mod 10))" by (simp add: digit_def)
  then show ?case using 2 by (auto split: if_splits)
qed simp

lemma low_digits_value: "v < 10 ^ n \<Longrightarrow> foldr (\<lambda>c a. a * 10 + digit_value c) (low_digits n v) 0 = v"
proof (induction n v rule: low_digits.induct)
  case (2 n v)
  have "(48 + v mod 10) mod 256 = 48 + v mod 10" by (intro mod_less) linarith
  moreover have "v div 10 < 10 ^ n" using 2(2) by (simp add: less_mult_imp_div_less mult.commute)
  ultimately show ?case using 2(1) by (cases "v = 0") simp_all
qed simp

lemma dec_digits: "c \<in> set (dec v) \<Longrightarrow> digit c" "dec v \<noteq> []"
proof -
  have "digit CHR ''0''" by (simp add: digit_def)
  then show "c \<in> set (dec v) \<Longrightarrow> digit c" using low_digits_digit [of c 16 v] by (cases "v = 0") (simp_all add: dec_def)
  obtain n :: nat where n: "16 = Suc n" by (rule that [of 15]) simp
  show "dec v \<noteq> []" by (simp add: dec_def n)
qed

lemma dec_value: "v < 2 ^ 32 \<Longrightarrow> fold (\<lambda>c a. a * 10 + digit_value c) (dec v) 0 = v"
  using low_digits_value [of v 16] by (auto simp: dec_def foldr_conv_fold)

lemma fold_digits_mono: "(a :: nat) \<le> fold (\<lambda>c a. a * 10 + digit_value c) ds a"
proof (induction ds arbitrary: a)
  case (Cons c ds)
  have "a \<le> a * 10 + digit_value c" by simp
  also have "\<dots> \<le> fold (\<lambda>c a. a * 10 + digit_value c) ds (a * 10 + digit_value c)" by (rule Cons.IH)
  finally show ?case by simp
qed simp

lemma token_digits:
  assumes "\<And>c. c \<in> set ds \<Longrightarrow> digit c" "fold (\<lambda>c a. a * 10 + digit_value c) ds v < 2 ^ 32" "rest = [] \<or> \<not> digit (hd rest)"
  shows "token_loop_u32 v (ds @ rest) = (fold (\<lambda>c a. a * 10 + digit_value c) ds v, rest)"
  using assms
proof (induction ds arbitrary: v)
  case Nil
  then show ?case by (cases rest) simp_all
next
  case (Cons c ds)
  have "v * 10 + digit_value c < 2 ^ 32" using fold_digits_mono [of "v * 10 + digit_value c" ds] Cons.prems(2) by simp
  then have "add32 (mul32 v 10) (digit_value c) = v * 10 + digit_value c" by (simp add: add32_def mul32_def)
  then show ?case using Cons by simp
qed

text \<open>A number that was written is read back.\<close>

lemma parse_dec:
  assumes "v < 2 ^ 32" "rest = [] \<or> \<not> digit (hd rest)"
  shows "proc_parse_u32_token (dec v @ rest) = Some (v, rest)"
proof -
  obtain c cs where d: "dec v = c # cs" using dec_digits(2) by (cases "dec v") auto
  have "digit c" using dec_digits(1) [of c v] by (simp add: d)
  moreover have "token_loop_u32 0 (dec v @ rest) = (v, rest)"
    using token_digits [of "dec v" 0 rest] dec_digits(1) dec_value [OF assms(1)] assms by simp
  ultimately show ?thesis by (simp add: proc_parse_u32_token_def d)
qed

subsection \<open>Appending\<close>

lemma append_text_True: "proc_append_text cap s out = (True, o1) \<Longrightarrow> o1 = out @ s"
  by (simp add: proc_append_text_def split: if_splits)

lemma append_chars_True: "append_chars cap cs out = (True, o1) \<Longrightarrow> o1 = out @ cs"
  by (induction cap cs out rule: append_chars.induct) (auto simp: proc_append_char_def split: if_splits)

lemma append_u32_True: "proc_append_u32 cap v out = (True, o1) \<Longrightarrow> o1 = out @ dec v"
  using append_chars_True [of cap "rev (low_digits 16 v)" out o1]
  by (auto simp: proc_append_u32_def dec_def proc_append_char_def split: if_splits)

lemma all_appends_append:
  "all_appends (fs @ gs) out = (let (ok, o1) = all_appends fs out in if ok then all_appends gs o1 else (False, o1))"
  by (induction fs arbitrary: out) (auto simp: Let_def split: prod.split)

text \<open>A text is kept below the size of its buffer.\<close>

definition fits :: "nat \<Rightarrow> (string \<Rightarrow> bool \<times> string) \<Rightarrow> bool" where
  "fits cap f \<longleftrightarrow> (\<forall>out. length out < cap \<longrightarrow> length (snd (f out)) < cap)"

lemma fits_text: "fits cap (proc_append_text cap s)"
  by (simp add: fits_def proc_append_text_def)

lemma fits_chars: "length out < cap \<Longrightarrow> length (snd (append_chars cap cs out)) < cap"
  by (induction cap cs out rule: append_chars.induct) (auto simp: proc_append_char_def)

lemma fits_u32: "fits cap (proc_append_u32 cap v)"
  using fits_chars by (simp add: fits_def proc_append_u32_def proc_append_char_def)

lemma fits_i32: "fits cap (proc_append_i32 cap v)"
  using fits_u32 by (auto simp: fits_def proc_append_i32_def proc_append_char_def)

lemma each_append_fits:
  assumes "\<And>f. f \<in> set fs \<Longrightarrow> fits cap f" "length out < cap"
  shows "length (each_append fs out) < cap"
  using assms
proof (induction fs arbitrary: out)
  case (Cons f fs)
  then show ?case by (simp add: each_append_def fits_def)
qed (simp add: each_append_def)

lemma all_appends_fits:
  assumes "\<And>f. f \<in> set fs \<Longrightarrow> fits cap f" "length out < cap"
  shows "length (snd (all_appends fs out)) < cap"
  using assms
proof (induction fs arbitrary: out)
  case (Cons f fs)
  have "length (snd (f out)) < cap" using Cons.prems by (simp add: fits_def)
  then show ?case using Cons by (auto split: prod.split)
qed simp

text \<open>No text overruns its static buffer, whatever strings a task has.\<close>

theorem proc_texts_fit:
  "pid_text file_id t = Some fs \<Longrightarrow> length (each_append fs []) < PROC_PID_TEXT_CAP"
  "sys_text file_id k = Some fs \<Longrightarrow> length (snd (all_appends fs [])) < PROC_SYS_TEXT_CAP"
proof -
  assume "pid_text file_id t = Some fs"
  then have "\<And>f. f \<in> set fs \<Longrightarrow> fits PROC_PID_TEXT_CAP f"
    by (auto simp: pid_text_def Let_def fits_text fits_u32 fits_i32 split: if_splits)
  then show "length (each_append fs []) < PROC_PID_TEXT_CAP" by (rule each_append_fits) (simp_all add: PROC_PID_TEXT_CAP_def)
next
  assume "sys_text file_id k = Some fs"
  then have "\<And>f. f \<in> set fs \<Longrightarrow> fits PROC_SYS_TEXT_CAP f"
    by (auto simp: sys_text_def Let_def fits_text fits_u32 split: if_splits)
  then show "length (snd (all_appends fs [])) < PROC_SYS_TEXT_CAP" by (rule all_appends_fits) (simp_all add: PROC_SYS_TEXT_CAP_def)
qed

lemma cut_to_bounded: "cut_to sz text = (n, bs) \<Longrightarrow> n = int (length bs) \<and> length bs \<le> sz"
  by (auto simp: cut_to_def)

text \<open>A read fails or gives as many bytes as it says, and not more than asked for.\<close>

theorem proc_read_bounded:
  "proc_read_path P path sz w = (n, bs) \<Longrightarrow> n = -1 \<and> bs = [] \<or> n = int (length bs) \<and> length bs \<le> sz"
  by (auto simp: proc_read_path_def proc_read_system_file_def proc_read_pid_text_def proc_read_pid_mem_def proc_read_pid_fd_def uget_def Let_def
      dest: cut_to_bounded split: option.splits if_splits prod.splits bool.splits)

subsection \<open>The tasks in the root directory\<close>

lemma task_dir_found:
  assumes "pid < 2 ^ 32"
  shows "proc_parse_path (CHR ''/'' # dec pid) k = Some (proc_path_zero\<lparr>pp_pid := pid, pp_kind := PROC_NODE_PID_DIR\<rparr>)"
proof -
  obtain c cs where d: "dec pid = c # cs" using dec_digits(2) by (cases "dec pid") auto
  have c: "digit c" using dec_digits(1) [of c pid] by (simp add: d)
  then have s: "c \<noteq> CHR ''s''" and "c \<noteq> CHR ''u''" "c \<noteq> CHR ''m''" "c \<noteq> CHR ''s''" "c \<noteq> CHR ''v''" by (auto simp: digit_def)
  then have "map_of sys_files (c # cs) = None" "\<not> take 4 (c # cs) = ''self''" by (simp_all add: sys_files_def numeral_eq_Suc)
  moreover have "proc_parse_u32_token (dec pid) = Some (pid, [])" using parse_dec [OF assms, of "[]"] by simp
  ultimately show ?thesis using s by (simp add: proc_parse_path_def d parse_pid_part_def Let_def)
qed

text \<open>The line of a task, which ends with a newline.\<close>

definition task_line :: "task \<Rightarrow> string" where
  "task_line t = dec (t_pid t) @ CHR ''/'' # [CHR 10]"

lemma task_lines_end: "ts \<noteq> [] \<Longrightarrow> \<exists>a. concat (map task_line ts) = a @ [CHR 10]"
  by (induction ts rule: rev_induct) (auto simp: task_line_def)

lemma after_head: "h = a @ [CHR 10] \<Longrightarrow> \<exists>b. h @ concat (map task_line ts) = b @ [CHR 10]"
  using task_lines_end [of ts] by (cases "ts = []") auto

lemma task_lines:
  assumes "all_appends (concat (map (\<lambda>t. [proc_append_u32 cap (t_pid t), proc_append_text cap (CHR ''/'' # [CHR 10])]) ts)) out = (True, o1)"
  shows "o1 = out @ concat (map task_line ts)"
  using assms
proof (induction ts arbitrary: out)
  case (Cons t ts)
  obtain b o2 where u: "proc_append_u32 cap (t_pid t) out = (b, o2)" by fastforce
  have "b" using Cons.prems by (auto simp: u split: if_splits prod.splits)
  then have o2: "o2 = out @ dec (t_pid t)" using append_u32_True [of cap "t_pid t" out o2] u by simp
  obtain b2 o3 where v: "proc_append_text cap (CHR ''/'' # [CHR 10]) o2 = (b2, o3)" by fastforce
  have "b2" using Cons.prems \<open>b\<close> by (auto simp: u v split: if_splits prod.splits)
  then have o3: "o3 = o2 @ CHR ''/'' # [CHR 10]" using append_text_True [of cap _ o2 o3] v by simp
  have "proc_append_text cap (CHR ''/'' # [CHR 10]) (out @ dec (t_pid t)) = (True, out @ dec (t_pid t) @ CHR ''/'' # [CHR 10])"
    using v \<open>b2\<close> by (simp add: o2 o3)
  then show ?case using Cons.prems \<open>b\<close> Cons.IH [of o3] by (simp add: u o2 o3 task_line_def)
qed simp

text \<open>A root directory that could be listed has a line for every task, and the directory named there is that of the
  task: it can be opened and listed.\<close>

theorem proc_listed_task_found:
  assumes "proc_root_list k out_size = (n, text)" "0 \<le> n" "t \<in> set (take (task_count k) (tasks k))" "0 < t_pid t" "t_pid t < 2 ^ 32"
    "pe_k P w = k"
  shows "\<exists>name a b. text @ [CHR 10] = a @ CHR 10 # name @ CHR ''/'' # CHR 10 # b \<and>
    proc_open_op P ctx (CHR ''/'' # name) w = Some (0, w) \<and>
    proc_list_op P ctx (CHR ''/'' # name) 100 w = Some (proc_pid_list 100, w)"
proof -
  let ?ts = "filter (\<lambda>t. t_pid t \<noteq> 0) (take (task_count k) (tasks k))"
  let ?head = "''uptime'' @ [CHR 10] @ ''meminfo'' @ [CHR 10] @ ''stat'' @ [CHR 10] @ ''version'' @ [CHR 10] @ ''self/'' @ [CHR 10]"
  let ?apps = "concat (map (\<lambda>t. [proc_append_u32 out_size (t_pid t), proc_append_text out_size (CHR ''/'' # [CHR 10])]) ?ts)"
  have sz: "out_size \<noteq> 0" using assms(1,2) by (cases "out_size = 0") (simp_all add: proc_root_list_def)
  obtain h where h: "h = ?head" by blast
  obtain ok out where A: "all_appends (proc_append_text out_size h # ?apps) [] = (ok, out)" by fastforce
  have L: "proc_root_list k out_size = listed (ok, if out \<noteq> [] \<and> last out = CHR 10 then butlast out else out)"
    unfolding proc_root_list_def h [symmetric] A using sz by simp
  then have ok: "ok" and tx: "text = (if out \<noteq> [] \<and> last out = CHR 10 then butlast out else out)"
    using assms(1,2) by (auto simp: listed_def split: if_splits)
  have "proc_append_text out_size h [] = (True, h)" "all_appends ?apps h = (True, out)"
    using A ok by (auto simp: proc_append_text_def split: if_splits)
  then have out: "out = h @ concat (map task_line ?ts)" using task_lines by blast
  have "t \<in> set ?ts" using assms(3,4) by simp
  then obtain us vs where ts: "?ts = us @ t # vs" by (meson split_list)
  have o: "out = (h @ concat (map task_line us)) @ task_line t @ concat (map task_line vs)" unfolding out ts by simp
  obtain h1 where "h = h1 @ [CHR 10]" by (rule that [of "butlast h"]) (simp add: h)
  then obtain a e where a: "h @ concat (map task_line us) = a @ [CHR 10]" and e: "out = e @ [CHR 10]"
    using after_head [of h h1 us] after_head [of h h1 ?ts] unfolding out by blast
  have "text @ [CHR 10] = out" unfolding tx e by simp
  then have T: "text @ [CHR 10] = a @ CHR 10 # dec (t_pid t) @ CHR ''/'' # CHR 10 # concat (map task_line vs)"
    unfolding o a by (simp add: task_line_def)
  have P: "proc_parse_path (CHR ''/'' # dec (t_pid t)) k = Some (proc_path_zero\<lparr>pp_pid := t_pid t, pp_kind := PROC_NODE_PID_DIR\<rparr>)"
    by (rule task_dir_found [OF assms(5)])
  obtain j where j: "j < task_count k" "j < length (tasks k)" "tasks k ! j = t" using assms(3) by (auto simp: in_set_conv_nth)
  then have f: "task_find_by_pid (t_pid t) k \<noteq> None" by (auto simp: task_find_by_pid_def find_None_iff)
  have "proc_open_op P ctx (CHR ''/'' # dec (t_pid t)) w = Some (0, w)" by (simp add: proc_open_op_def assms(6) P)
  moreover have "proc_list_op P ctx (CHR ''/'' # dec (t_pid t)) 100 w = Some (proc_pid_list 100, w)"
    using f by (auto simp: proc_list_op_def proc_list_path_def assms(6) P proc_path_zero_def)
  ultimately show ?thesis using T by blast
qed

text \<open>The four tasks of \<open>demo_kernel\<close>, whose numbers are 1 to 4.\<close>

definition demo_proc :: "kstate proc_env" where
  "demo_proc = \<lparr>pe_k = (\<lambda>w. w), pe_fds = (\<lambda>w. \<lparr>g_fds = [], g_fd_init_done = False, g_task_fds = [], g_task_fd_init = []\<rparr>)\<rparr>"

lemma low_digits_numeral:
  "low_digits (numeral m) v = (if v = 0 then [] else char_of (48 + v mod 10) # low_digits (pred_numeral m) (v div 10))"
  by (simp add: numeral_eq_Suc)

lemma demo_root_list: "\<exists>text. proc_root_list demo_kernel 100 = (int (length text), text)"
  by (simp add: proc_root_list_def demo_kernel_def demo_task_def proc_append_text_def proc_append_u32_def low_digits_numeral
      proc_append_char_def listed_def)

theorem proc_listed_task_found_witness:
  "\<exists>name. proc_open_op demo_proc 0 (CHR ''/'' # name) demo_kernel = Some (0, demo_kernel) \<and>
    proc_list_op demo_proc 0 (CHR ''/'' # name) 100 demo_kernel = Some (proc_pid_list 100, demo_kernel)"
proof -
  obtain tx where l: "proc_root_list demo_kernel 100 = (int (length tx), tx)" using demo_root_list by blast
  have "demo_task 3 2 TASK_TERMINATED 3 \<in> set (take (task_count demo_kernel) (tasks demo_kernel))" by (simp add: demo_kernel_def)
  from proc_listed_task_found [OF l _ this, of demo_proc demo_kernel 0] show ?thesis by (auto simp: demo_task_def demo_proc_def)
qed

subsection \<open>The path of a descriptor\<close>

text \<open>A descriptor with a path of 255 characters: the text has 256 and its null byte is stored behind the 256 bytes of the
  array \<^verbatim>\<open>path\<close>.\<close>

theorem proc_fd_text_overruns:
  assumes "syscall_task_fd_path pid fd 256 k F = Some path" "length path = 255" "256 \<le> sz"
  shows "proc_read_pid_fd pid fd k F sz = (256, path @ [CHR 10])"
  using assms by (simp add: proc_read_pid_fd_def cut_to_def)

end
