(* ===== verification/Pci.thy ===== *)
theory Pci
  imports Devfs Ring
begin

unbundle bit_operations_syntax

section \<open>The PCI bus\<close>

text \<open>
  Model of \<^verbatim>\<open>src/kernel/drivers/pci.c\<close>: configuration space behind two ports, the search of all buses at the start, the table
  of devices, and their nodes in the device file system.  The ports are a parameter, a state \<open>'p\<close> that changes with every access.  The
  table is the list of the entries in use.  What is shown rests on the protocol of the ports, \<open>cfg_ports\<close>: reading the data port after a write
  of an address gives the word at that address.
\<close>

record 'p pci_ports =
  pci_indw :: "nat \<Rightarrow> 'p \<Rightarrow> u32 \<times> 'p"
  pci_outdw :: "nat \<Rightarrow> u32 \<Rightarrow> 'p \<Rightarrow> 'p"

definition PCI_CONFIG_ADDRESS :: nat where "PCI_CONFIG_ADDRESS = 0xCF8"
definition PCI_CONFIG_DATA :: nat where "PCI_CONFIG_DATA = 0xCFC"
definition PCI_INVALID_VENDOR :: u16 where "PCI_INVALID_VENDOR = 0xFFFF"
definition PCI_MAX_DEVICES :: nat where "PCI_MAX_DEVICES = 128"
definition DEV_IOCTL_PCI_GET_INFO :: nat where "DEV_IOCTL_PCI_GET_INFO = 0x1700"
definition DEV_IOCTL_PCI_CFG_READ32 :: nat where "DEV_IOCTL_PCI_CFG_READ32 = 0x1701"

record pci_device =
  pd_bus :: u8
  pd_slot :: u8
  pd_func :: u8
  pd_vendor_id :: u16
  pd_device_id :: u16
  pd_class_code :: u8
  pd_subclass :: u8
  pd_prog_if :: u8
  pd_revision :: u8
  pd_header_type :: u8
  pd_irq_line :: u8
  pd_bar :: "u32 list"

record 'p pci =
  pc_port :: 'p
  g_pci_devices :: "pci_device list"

subsection \<open>Configuration space\<close>

definition pci_cfg_addr :: "u8 \<Rightarrow> u8 \<Rightarrow> u8 \<Rightarrow> u8 \<Rightarrow> u32" where
  "pci_cfg_addr bus slot func offset =
     push_bit 31 1 OR push_bit 16 (ucast bus) OR push_bit 11 (ucast slot) OR push_bit 8 (ucast func) OR ucast (offset AND 0xFC)"

definition pci_read32 :: "'p pci_ports \<Rightarrow> u8 \<Rightarrow> u8 \<Rightarrow> u8 \<Rightarrow> u8 \<Rightarrow> 'p \<Rightarrow> u32 \<times> 'p" where
  "pci_read32 io bus slot func offset p =
     pci_indw io PCI_CONFIG_DATA (pci_outdw io PCI_CONFIG_ADDRESS (pci_cfg_addr bus slot func offset) p)"

definition pci_write32 :: "'p pci_ports \<Rightarrow> u8 \<Rightarrow> u8 \<Rightarrow> u8 \<Rightarrow> u8 \<Rightarrow> u32 \<Rightarrow> 'p \<Rightarrow> 'p" where
  "pci_write32 io bus slot func offset v p =
     pci_outdw io PCI_CONFIG_DATA v (pci_outdw io PCI_CONFIG_ADDRESS (pci_cfg_addr bus slot func offset) p)"

text \<open>The half and the byte of a word that an offset means.\<close>

definition half_of :: "u8 \<Rightarrow> u32 \<Rightarrow> u16" where
  "half_of offset v = ucast (drop_bit (unat (offset AND 2) * 8) v AND 0xFFFF)"

definition cfg_byte :: "u8 \<Rightarrow> u32 \<Rightarrow> u8" where
  "cfg_byte offset v = ucast (drop_bit (unat (offset AND 3) * 8) v AND 0xFF)"

definition pci_cfg_read16 :: "'p pci_ports \<Rightarrow> u8 \<Rightarrow> u8 \<Rightarrow> u8 \<Rightarrow> u8 \<Rightarrow> 'p \<Rightarrow> u16 \<times> 'p" where
  "pci_cfg_read16 io bus slot func offset p = (let (v, p1) = pci_read32 io bus slot func offset p in (half_of offset v, p1))"

text \<open>A word with one of its halves replaced.\<close>

definition put_half :: "u8 \<Rightarrow> u16 \<Rightarrow> u32 \<Rightarrow> u32" where
  "put_half offset value oldv =
     (let shift = unat (offset AND 2) * 8; msk = push_bit shift 0xFFFF in (oldv AND NOT msk) OR (push_bit shift (ucast value) AND msk))"

definition pci_cfg_write16 :: "'p pci_ports \<Rightarrow> u8 \<Rightarrow> u8 \<Rightarrow> u8 \<Rightarrow> u8 \<Rightarrow> u16 \<Rightarrow> 'p \<Rightarrow> 'p" where
  "pci_cfg_write16 io bus slot func offset value p =
     (let aligned = offset AND 0xFC; (oldv, p1) = pci_read32 io bus slot func aligned p in
      pci_write32 io bus slot func aligned (put_half offset value oldv) p1)"

definition pci_read8 :: "'p pci_ports \<Rightarrow> u8 \<Rightarrow> u8 \<Rightarrow> u8 \<Rightarrow> u8 \<Rightarrow> 'p \<Rightarrow> u8 \<times> 'p" where
  "pci_read8 io bus slot func offset p = (let (v, p1) = pci_read32 io bus slot func offset p in (cfg_byte offset v, p1))"

subsection \<open>The search\<close>

fun read_bars :: "'p pci_ports \<Rightarrow> u8 \<Rightarrow> u8 \<Rightarrow> u8 \<Rightarrow> nat list \<Rightarrow> 'p \<Rightarrow> u32 list \<times> 'p" where
  "read_bars io bus slot func [] p = ([], p)"
| "read_bars io bus slot func (i # is) p =
     (let (v, p1) = pci_read32 io bus slot func (word_of_nat (0x10 + i * 4)) p; (vs, p2) = read_bars io bus slot func is p1 in (v # vs, p2))"

definition pci_probe :: "'p pci_ports \<Rightarrow> u8 \<Rightarrow> u8 \<Rightarrow> u8 \<Rightarrow> 'p \<Rightarrow> pci_device \<times> 'p" where
  "pci_probe io bus slot func p =
     (let (vendor, p1) = pci_cfg_read16 io bus slot func 0 p;
          (device, p2) = pci_cfg_read16 io bus slot func 2 p1;
          (revision, p3) = pci_read8 io bus slot func 8 p2;
          (prog_if, p4) = pci_read8 io bus slot func 9 p3;
          (subclass, p5) = pci_read8 io bus slot func 0xA p4;
          (class_code, p6) = pci_read8 io bus slot func 0xB p5;
          (header, p7) = pci_read8 io bus slot func 0xE p6;
          (irq, p8) = pci_read8 io bus slot func 0x3C p7;
          (bars, p9) = (if header AND 0x7F = 0 then read_bars io bus slot func [0..<6] p8 else (replicate 6 0, p8)) in
      (\<lparr>pd_bus = bus, pd_slot = slot, pd_func = func, pd_vendor_id = vendor, pd_device_id = device, pd_class_code = class_code,
        pd_subclass = subclass, pd_prog_if = prog_if, pd_revision = revision, pd_header_type = header AND 0x7F, pd_irq_line = irq, pd_bar = bars\<rparr>, p9))"

definition pci_add_device :: "'p pci_ports \<Rightarrow> u8 \<Rightarrow> u8 \<Rightarrow> u8 \<Rightarrow> 'p pci \<Rightarrow> 'p pci" where
  "pci_add_device io bus slot func s =
     (if length (g_pci_devices s) \<ge> PCI_MAX_DEVICES then s
      else let (d, p) = pci_probe io bus slot func (pc_port s) in s\<lparr>pc_port := p, g_pci_devices := g_pci_devices s @ [d]\<rparr>)"

definition pci_func :: "'p pci_ports \<Rightarrow> u8 \<Rightarrow> u8 \<Rightarrow> nat \<Rightarrow> 'p pci \<Rightarrow> 'p pci" where
  "pci_func io bus slot f s =
     (let (vendor, p) = pci_cfg_read16 io bus slot (word_of_nat f) 0 (pc_port s); s1 = s\<lparr>pc_port := p\<rparr> in
      if vendor = PCI_INVALID_VENDOR then s1 else pci_add_device io bus slot (word_of_nat f) s1)"

definition pci_slot :: "'p pci_ports \<Rightarrow> u8 \<Rightarrow> nat \<Rightarrow> 'p pci \<Rightarrow> 'p pci" where
  "pci_slot io bus i s =
     (let slot = word_of_nat i; (vendor0, p) = pci_cfg_read16 io bus slot 0 0 (pc_port s); s1 = s\<lparr>pc_port := p\<rparr> in
      if vendor0 = PCI_INVALID_VENDOR then s1
      else let (header, p1) = pci_read8 io bus slot 0 0xE (pc_port s1); max_func = (if header AND 0x80 \<noteq> 0 then 8 else 1) in
        fold (pci_func io bus slot) [0..<max_func] (s1\<lparr>pc_port := p1\<rparr>))"

definition pci_init :: "'p pci_ports \<Rightarrow> 'p pci \<Rightarrow> 'p pci" where
  "pci_init io s = fold (\<lambda>bus. fold (pci_slot io (word_of_nat bus)) [0..<32]) [0..<256] s"

subsection \<open>The table\<close>

definition pci_device_count :: "'p pci \<Rightarrow> nat" where
  "pci_device_count s = length (g_pci_devices s)"

definition pci_get_device :: "nat \<Rightarrow> 'p pci \<Rightarrow> pci_device option" where
  "pci_get_device i s = (if i \<ge> pci_device_count s then None else Some (g_pci_devices s ! i))"

definition class_matches :: "u8 \<Rightarrow> u8 \<Rightarrow> u8 \<Rightarrow> pci_device \<Rightarrow> bool" where
  "class_matches class_code subclass prog_if d \<longleftrightarrow>
     pd_class_code d = class_code \<and> pd_subclass d = subclass \<and> (prog_if = 0xFF \<or> pd_prog_if d = prog_if)"

fun find_class_loop :: "u8 \<Rightarrow> u8 \<Rightarrow> u8 \<Rightarrow> nat \<Rightarrow> pci_device list \<Rightarrow> pci_device option" where
  "find_class_loop c sc pi occ [] = None"
| "find_class_loop c sc pi occ (d # ds) =
     (if \<not> class_matches c sc pi d then find_class_loop c sc pi occ ds
      else if occ = 0 then Some d
      else find_class_loop c sc pi (occ - 1) ds)"

definition pci_find_class :: "u8 \<Rightarrow> u8 \<Rightarrow> u8 \<Rightarrow> nat \<Rightarrow> 'p pci \<Rightarrow> pci_device option" where
  "pci_find_class c sc pi occ s = find_class_loop c sc pi occ (g_pci_devices s)"

subsection \<open>The nodes\<close>

definition hex2 :: "u8 \<Rightarrow> string" where
  "hex2 v = [''0123456789abcdef'' ! unat (drop_bit 4 v AND 0xF), ''0123456789abcdef'' ! unat (v AND 0xF)]"

text \<open>What a control call stores: the information is the device itself, or the word that was read.\<close>

datatype pci_out = Pci_nothing | Pci_info pci_device | Pci_word u32

text \<open>The argument is the offset in the structure it points to.\<close>

definition pci_dev_ioctl :: "'p pci_ports \<Rightarrow> pci_device option \<Rightarrow> nat \<Rightarrow> u32 option \<Rightarrow> 'p pci \<Rightarrow> int \<times> pci_out \<times> 'p pci" where
  "pci_dev_ioctl io ctx request arg s =
     (case (ctx, arg) of
        (Some d, Some offset) \<Rightarrow>
          if request = DEV_IOCTL_PCI_GET_INFO then (0, Pci_info d, s)
          else if request = DEV_IOCTL_PCI_CFG_READ32 then
            if offset AND 3 \<noteq> 0 \<or> offset > 0xFC then (-1, Pci_nothing, s)
            else let (v, p) = pci_read32 io (pd_bus d) (pd_slot d) (pd_func d) (ucast offset) (pc_port s) in (0, Pci_word v, s\<lparr>pc_port := p\<rparr>)
          else (-1, Pci_nothing, s)
      | _ \<Rightarrow> (-1, Pci_nothing, s))"

definition pci_node_path :: "pci_device \<Rightarrow> string" where
  "pci_node_path d = ''/bus/pci/'' @ hex2 (pd_bus d) @ ''.'' @ hex2 (pd_slot d) @ ''.'' @ [char_of (48 + unat (pd_func d AND 7))]"

text \<open>\<open>fn\<close> is the address of \<^verbatim>\<open>pci_dev_ioctl\<close> and \<open>ctx i\<close> that of the device \<open>i\<close> of the table.\<close>

fun create_nodes :: "addr \<Rightarrow> addr \<Rightarrow> (nat \<Rightarrow> addr) \<Rightarrow> (nat \<times> pci_device) list \<Rightarrow> dstate \<Rightarrow> (int \<times> dstate) option" where
  "create_nodes devfs fn ctx [] w = Some (0, w)"
| "create_nodes devfs fn ctx ((i, d) # ds) w = do {
     (r, w1) \<leftarrow> devfs_create_device_ops devfs (pci_node_path d) 0 0 0 fn (ctx i) w;
     if r \<noteq> 0 then Some (-1, w1) else create_nodes devfs fn ctx ds w1 }"

definition pci_devfs_init :: "addr \<Rightarrow> addr \<Rightarrow> (nat \<Rightarrow> addr) \<Rightarrow> 'p pci \<Rightarrow> dstate \<Rightarrow> (int \<times> dstate) option" where
  "pci_devfs_init devfs fn ctx s w =
     (if devfs = 0 then Some (-1, w)
      else do {
        fs \<leftarrow> devfss w devfs;
        if fs = 0 then Some (-1, w)
        else do {
          (r1, w1) \<leftarrow> devfs_create_dir devfs ''/bus'' w;
          if r1 \<noteq> 0 then Some (-1, w1)
          else do {
            (r2, w2) \<leftarrow> devfs_create_dir devfs ''/bus/pci'' w1;
            if r2 \<noteq> 0 then Some (-1, w2)
            else create_nodes devfs fn ctx (enumerate 0 (g_pci_devices s)) w2 } } })"

subsection \<open>What the search finds\<close>

text \<open>Ports that follow the protocol, over a configuration space that is not changed.\<close>

definition cfg_ports :: "'p pci_ports \<Rightarrow> (u32 \<Rightarrow> u32) \<Rightarrow> bool" where
  "cfg_ports io cfg \<longleftrightarrow> (\<forall>a p. fst (pci_indw io PCI_CONFIG_DATA (pci_outdw io PCI_CONFIG_ADDRESS a p)) = cfg a)"

text \<open>The half and the byte at an offset, a function of a device that is there, and all of them in order.\<close>

definition cfg16 :: "(u32 \<Rightarrow> u32) \<Rightarrow> u8 \<Rightarrow> u8 \<Rightarrow> u8 \<Rightarrow> u8 \<Rightarrow> u16" where
  "cfg16 cfg b s f off = half_of off (cfg (pci_cfg_addr b s f off))"

definition cfg8 :: "(u32 \<Rightarrow> u32) \<Rightarrow> u8 \<Rightarrow> u8 \<Rightarrow> u8 \<Rightarrow> u8 \<Rightarrow> u8" where
  "cfg8 cfg b s f off = cfg_byte off (cfg (pci_cfg_addr b s f off))"

definition present :: "(u32 \<Rightarrow> u32) \<Rightarrow> u8 \<Rightarrow> u8 \<Rightarrow> u8 \<Rightarrow> bool" where
  "present cfg b s f \<longleftrightarrow> cfg16 cfg b s f 0 \<noteq> PCI_INVALID_VENDOR"

definition device_at :: "(u32 \<Rightarrow> u32) \<Rightarrow> u8 \<Rightarrow> u8 \<Rightarrow> u8 \<Rightarrow> pci_device" where
  "device_at cfg b s f =
     \<lparr>pd_bus = b, pd_slot = s, pd_func = f, pd_vendor_id = cfg16 cfg b s f 0, pd_device_id = cfg16 cfg b s f 2, pd_class_code = cfg8 cfg b s f 0xB,
      pd_subclass = cfg8 cfg b s f 0xA, pd_prog_if = cfg8 cfg b s f 9, pd_revision = cfg8 cfg b s f 8, pd_header_type = cfg8 cfg b s f 0xE AND 0x7F,
      pd_irq_line = cfg8 cfg b s f 0x3C,
      pd_bar = (if cfg8 cfg b s f 0xE AND 0x7F = 0 then map (\<lambda>i. cfg (pci_cfg_addr b s f (word_of_nat (0x10 + i * 4)))) [0..<6] else replicate 6 0)\<rparr>"

definition slot_devices :: "(u32 \<Rightarrow> u32) \<Rightarrow> u8 \<Rightarrow> u8 \<Rightarrow> pci_device list" where
  "slot_devices cfg b s =
     (if present cfg b s 0
      then map (device_at cfg b s) (filter (present cfg b s) (map word_of_nat [0..<(if cfg8 cfg b s 0 0xE AND 0x80 \<noteq> 0 then 8 else 1)]))
      else [])"

definition all_devices :: "(u32 \<Rightarrow> u32) \<Rightarrow> pci_device list" where
  "all_devices cfg = concat (map (\<lambda>b. concat (map (\<lambda>s. slot_devices cfg (word_of_nat b) (word_of_nat s)) [0..<32])) [0..<256])"

lemma read32_cfg: "cfg_ports io cfg \<Longrightarrow> fst (pci_read32 io b s f off p) = cfg (pci_cfg_addr b s f off)"
  by (simp add: cfg_ports_def pci_read32_def)

lemma read16_cfg: "cfg_ports io cfg \<Longrightarrow> fst (pci_cfg_read16 io b s f off p) = cfg16 cfg b s f off"
  using read32_cfg [of io cfg b s f off p] by (simp add: pci_cfg_read16_def cfg16_def split_beta)

lemma read8_cfg: "cfg_ports io cfg \<Longrightarrow> fst (pci_read8 io b s f off p) = cfg8 cfg b s f off"
  using read32_cfg [of io cfg b s f off p] by (simp add: pci_read8_def cfg8_def split_beta)

lemma bars_cfg:
  "cfg_ports io cfg \<Longrightarrow> fst (read_bars io b s f is p) = map (\<lambda>i. cfg (pci_cfg_addr b s f (word_of_nat (0x10 + i * 4)))) is"
proof (induction "is" arbitrary: p)
  case (Cons i "is")
  obtain v p1 where r: "pci_read32 io b s f (word_of_nat (0x10 + i * 4)) p = (v, p1)" by fastforce
  then show ?case using Cons read32_cfg [OF Cons.prems, of b s f "word_of_nat (0x10 + i * 4)" p] by (simp add: split_beta)
qed simp

lemma probe_cfg: "cfg_ports io cfg \<Longrightarrow> fst (pci_probe io b s f p) = device_at cfg b s f"
  by (simp add: pci_probe_def device_at_def read16_cfg read8_cfg bars_cfg split_beta Let_def)

text \<open>What a step adds to the table, which has 128 places.\<close>

definition adds :: "('p pci \<Rightarrow> 'p pci) \<Rightarrow> pci_device list \<Rightarrow> bool" where
  "adds f ds \<longleftrightarrow> (\<forall>s. length (g_pci_devices s) \<le> PCI_MAX_DEVICES \<longrightarrow> g_pci_devices (f s) = take PCI_MAX_DEVICES (g_pci_devices s @ ds))"

lemma adds_comp: "adds f ds \<Longrightarrow> adds g es \<Longrightarrow> adds (\<lambda>s. g (f s)) (ds @ es)"
  by (simp add: adds_def take_append_take del: take_append)

lemma adds_nothing: "(\<And>s. g_pci_devices (f s) = g_pci_devices s) \<Longrightarrow> adds f []"
  by (simp add: adds_def)

lemma adds_fold: "(\<And>x. adds (f x) (h x)) \<Longrightarrow> adds (fold f xs) (concat (map h xs))"
proof (induction xs)
  case (Cons x xs)
  then have "adds (fold f xs) (concat (map h xs))" by blast
  from adds_comp [OF Cons.prems [of x] this] show ?case by (simp add: comp_def)
qed (simp add: adds_nothing)

lemma adds_func:
  assumes "cfg_ports io cfg"
  shows "adds (pci_func io b s i) (if present cfg b s (word_of_nat i) then [device_at cfg b s (word_of_nat i)] else [])"
  unfolding adds_def
proof (intro allI impI)
  fix t :: "'a pci"
  assume len: "length (g_pci_devices t) \<le> PCI_MAX_DEVICES"
  obtain v p where r: "pci_cfg_read16 io b s (word_of_nat i) 0 (pc_port t) = (v, p)" by fastforce
  then have v: "v = cfg16 cfg b s (word_of_nat i) 0" using read16_cfg [OF assms, of b s "word_of_nat i" 0 "pc_port t"] by simp
  obtain d q where pr: "pci_probe io b s (word_of_nat i) p = (d, q)" by fastforce
  then have "d = device_at cfg b s (word_of_nat i)" using probe_cfg [OF assms, of b s "word_of_nat i" p] by simp
  then show "g_pci_devices (pci_func io b s i t) =
      take PCI_MAX_DEVICES (g_pci_devices t @ (if present cfg b s (word_of_nat i) then [device_at cfg b s (word_of_nat i)] else []))"
    using len by (auto simp: pci_func_def r v present_def pci_add_device_def pr Let_def)
qed

lemma adds_slot:
  assumes "cfg_ports io cfg"
  shows "adds (pci_slot io b i) (slot_devices cfg b (word_of_nat i))"
  unfolding adds_def
proof (intro allI impI)
  fix t :: "'a pci"
  assume len: "length (g_pci_devices t) \<le> PCI_MAX_DEVICES"
  let ?s = "word_of_nat i :: u8"
  obtain v p where r: "pci_cfg_read16 io b ?s 0 0 (pc_port t) = (v, p)" by fastforce
  then have v: "v = cfg16 cfg b ?s 0 0" using read16_cfg [OF assms, of b ?s 0 0 "pc_port t"] by simp
  obtain h q where hd: "pci_read8 io b ?s 0 0xE p = (h, q)" by fastforce
  then have h: "h = cfg8 cfg b ?s 0 0xE" using read8_cfg [OF assms, of b ?s 0 "0xE" p] by simp
  have c: "concat (map (\<lambda>i. if P (w i) then [D (w i)] else []) xs) = map D (filter P (map w xs))"
    for P :: "u8 \<Rightarrow> bool" and D :: "u8 \<Rightarrow> pci_device" and w :: "nat \<Rightarrow> u8" and xs by (induction xs) auto
  have A: "adds (fold (pci_func io b ?s) xs) (map (device_at cfg b ?s) (filter (present cfg b ?s) (map word_of_nat xs)))" for xs
    unfolding c [symmetric] by (intro adds_fold adds_func [OF assms])
  show "g_pci_devices (pci_slot io b i t) = take PCI_MAX_DEVICES (g_pci_devices t @ slot_devices cfg b ?s)"
    using len A [of "[0]"] A by (auto simp: adds_def pci_slot_def r v hd h slot_devices_def present_def)
qed


text \<open>Ports over a given space, and a space with one device of one function.\<close>

definition plain_ports :: "(u32 \<Rightarrow> u32) \<Rightarrow> u32 pci_ports" where
  "plain_ports cfg = \<lparr>pci_indw = (\<lambda>port a. (cfg a, a)), pci_outdw = (\<lambda>port v a. v)\<rparr>"


text \<open>The n-th device of a class is the n-th of those that match.\<close>

lemma find_class_filter:
  "pci_find_class c sc pi occ s = (let ds = filter (class_matches c sc pi) (g_pci_devices s) in if occ < length ds then Some (ds ! occ) else None)"
proof -
  have "find_class_loop c sc pi occ xs = (let ds = filter (class_matches c sc pi) xs in if occ < length ds then Some (ds ! occ) else None)" for xs
    by (induction c sc pi occ xs rule: find_class_loop.induct) (auto simp: Let_def nth_Cons' split: if_splits)
  then show ?thesis by (simp add: pci_find_class_def)
qed

text \<open>Writing one half of a word keeps the other.\<close>

lemma put_half_halves:
  "half_of offset (put_half offset v w) = v" "half_of (offset XOR 2) (put_half offset v w) = half_of (offset XOR 2) w"
proof -
  have m: "bit (65535 :: int) n \<longleftrightarrow> n < 16" for n
  proof -
    have "bit (mask 16 :: int) n \<longleftrightarrow> n < 16" by (auto simp: bit_mask_iff)
    moreover have "(mask 16 :: int) = 65535" by (simp add: mask_eq_exp_minus_1)
    ultimately show ?thesis by (simp only:)
  qed
  have o: "offset AND 2 = (if bit offset 1 then 2 else 0)" by (rule bit_word_eqI) (auto simp: bit_simps)
  have x: "(offset XOR 2) AND 2 = (if bit offset 1 then 0 else 2)" by (rule bit_word_eqI) (auto simp: bit_simps)
  show "half_of offset (put_half offset v w) = v"
    by (rule bit_word_eqI) (auto simp: half_of_def put_half_def o m bit_simps Let_def)
  show "half_of (offset XOR 2) (put_half offset v w) = half_of (offset XOR 2) w"
    by (rule bit_word_eqI) (auto simp: half_of_def put_half_def o x m bit_simps Let_def)
qed

end
