(* ===== verification/Bootcfg.thy ===== *)
theory Bootcfg
  imports Ata_Drive Elf_Props Initramfs
begin

section \<open>The settings of the boot loader\<close>

text \<open>
  Model of \<^verbatim>\<open>src/kernel/drivers/bootloader.c\<close>: the settings that the boot loader leaves in memory at \<^verbatim>\<open>0x600\<close> and has in the sectors
  1 and 2 of the disk, reading and changing them by name, and the device for it.  The settings are a record of numbers in the range of
  their fields; \<open>cfg_bytes\<close> and \<open>cfg_at\<close> are its layout in memory, of 80 bytes.  The name in the argument of a control call is the string
  before its null byte.  The last part shows that a setting survives a restart on a drive that follows the protocol.
\<close>

definition CFG_MAGIC :: nat where "CFG_MAGIC = 0x47464348"
definition DEV_IOCTL_BOOTLOADER_SET :: nat where "DEV_IOCTL_BOOTLOADER_SET = 0x1600"
definition DEV_IOCTL_BOOTLOADER_GET :: nat where "DEV_IOCTL_BOOTLOADER_GET = 0x1601"
definition DEV_IOCTL_BOOTLOADER_GET_MODES :: nat where "DEV_IOCTL_BOOTLOADER_GET_MODES = 0x1602"
abbreviation (input) sizeof_bootcfg :: nat where "sizeof_bootcfg \<equiv> 80"
abbreviation (input) sizeof_bootloader_mode :: nat where "sizeof_bootloader_mode \<equiv> 8"

record bootcfg =
  bc_magic :: nat
  bc_version :: nat
  bc_kernel_size :: nat
  bc_kernel_lba :: nat
  bc_kernel_addr :: nat
  bc_initramfs_size :: nat
  bc_initramfs_lba :: nat
  bc_initramfs_addr :: nat
  bc_memmap_addr :: nat
  bc_video_output :: nat
  bc_vesa_mode :: nat
  bc_vga_mode :: nat
  bc_reserved0 :: nat
  bc_vesa_info_addr :: nat
  bc_vesa_mode_info_addr :: nat
  bc_vesa_modes_addr :: nat
  bc_stage2_lba :: nat
  bc_stage2_sectors :: nat
  bc_flags :: nat
  bc_rootfs_lba :: nat
  bc_rootfs_size :: nat
  bc_root_disk :: nat

definition cfg_zero :: bootcfg where
  "cfg_zero = \<lparr>bc_magic = 0, bc_version = 0, bc_kernel_size = 0, bc_kernel_lba = 0, bc_kernel_addr = 0, bc_initramfs_size = 0, bc_initramfs_lba = 0, bc_initramfs_addr = 0, bc_memmap_addr = 0, bc_video_output = 0, bc_vesa_mode = 0, bc_vga_mode = 0, bc_reserved0 = 0, bc_vesa_info_addr = 0, bc_vesa_mode_info_addr = 0, bc_vesa_modes_addr = 0, bc_stage2_lba = 0, bc_stage2_sectors = 0, bc_flags = 0, bc_rootfs_lba = 0, bc_rootfs_size = 0, bc_root_disk = 0\<rparr>"

definition cfg_bytes :: "bootcfg \<Rightarrow> byte list" where
  "cfg_bytes c =
     le32 (bc_magic c) @ le32 (bc_version c) @ le32 (bc_kernel_size c) @ le32 (bc_kernel_lba c) @ le32 (bc_kernel_addr c) @
     le32 (bc_initramfs_size c) @ le32 (bc_initramfs_lba c) @ le32 (bc_initramfs_addr c) @ le32 (bc_memmap_addr c) @ le16 (bc_video_output c) @
     le16 (bc_vesa_mode c) @ le16 (bc_vga_mode c) @ le16 (bc_reserved0 c) @ le32 (bc_vesa_info_addr c) @ le32 (bc_vesa_mode_info_addr c) @
     le32 (bc_vesa_modes_addr c) @ le32 (bc_stage2_lba c) @ le32 (bc_stage2_sectors c) @ le32 (bc_flags c) @ le32 (bc_rootfs_lba c) @
     le32 (bc_rootfs_size c) @ le32 (bc_root_disk c)"

definition cfg_at :: "mem \<Rightarrow> addr \<Rightarrow> bootcfg" where
  "cfg_at m a = \<lparr>bc_magic = load32 m (a + 0), bc_version = load32 m (a + 4), bc_kernel_size = load32 m (a + 8),
     bc_kernel_lba = load32 m (a + 12), bc_kernel_addr = load32 m (a + 16), bc_initramfs_size = load32 m (a + 20),
     bc_initramfs_lba = load32 m (a + 24), bc_initramfs_addr = load32 m (a + 28), bc_memmap_addr = load32 m (a + 32),
     bc_video_output = load16 m (a + 36), bc_vesa_mode = load16 m (a + 38), bc_vga_mode = load16 m (a + 40),
     bc_reserved0 = load16 m (a + 42), bc_vesa_info_addr = load32 m (a + 44), bc_vesa_mode_info_addr = load32 m (a + 48),
     bc_vesa_modes_addr = load32 m (a + 52), bc_stage2_lba = load32 m (a + 56), bc_stage2_sectors = load32 m (a + 60),
     bc_flags = load32 m (a + 64), bc_rootfs_lba = load32 m (a + 68), bc_rootfs_size = load32 m (a + 72),
     bc_root_disk = load32 m (a + 76)\<rparr>"

subsection \<open>Settings by name\<close>

text \<open>The names with the functions that change and read their fields.\<close>

definition cfg_setters :: "(string \<times> (nat \<Rightarrow> bootcfg \<Rightarrow> bootcfg)) list" where
  "cfg_setters =
    [(''kernel_size'', \<lambda>v c. c\<lparr>bc_kernel_size := v\<rparr>), (''kernel_lba'', \<lambda>v c. c\<lparr>bc_kernel_lba := v\<rparr>),
     (''kernel_addr'', \<lambda>v c. c\<lparr>bc_kernel_addr := v\<rparr>), (''initramfs_size'', \<lambda>v c. c\<lparr>bc_initramfs_size := v\<rparr>),
     (''initramfs_lba'', \<lambda>v c. c\<lparr>bc_initramfs_lba := v\<rparr>), (''initramfs_addr'', \<lambda>v c. c\<lparr>bc_initramfs_addr := v\<rparr>),
     (''memmap_addr'', \<lambda>v c. c\<lparr>bc_memmap_addr := v\<rparr>), (''video_output'', \<lambda>v c. c\<lparr>bc_video_output := v mod 65536\<rparr>),
     (''vesa_mode'', \<lambda>v c. c\<lparr>bc_vesa_mode := v mod 65536\<rparr>), (''vga_mode'', \<lambda>v c. c\<lparr>bc_vga_mode := v mod 65536\<rparr>),
     (''vesa_info_addr'', \<lambda>v c. c\<lparr>bc_vesa_info_addr := v\<rparr>), (''vesa_mode_info_addr'', \<lambda>v c. c\<lparr>bc_vesa_mode_info_addr := v\<rparr>),
     (''vesa_modes_addr'', \<lambda>v c. c\<lparr>bc_vesa_modes_addr := v\<rparr>), (''stage2_lba'', \<lambda>v c. c\<lparr>bc_stage2_lba := v\<rparr>),
     (''stage2_sectors'', \<lambda>v c. c\<lparr>bc_stage2_sectors := v\<rparr>), (''flags'', \<lambda>v c. c\<lparr>bc_flags := v\<rparr>),
     (''rootfs_lba'', \<lambda>v c. c\<lparr>bc_rootfs_lba := v\<rparr>), (''rootfs_size'', \<lambda>v c. c\<lparr>bc_rootfs_size := v\<rparr>),
     (''root_disk'', \<lambda>v c. c\<lparr>bc_root_disk := v\<rparr>), (''root'', \<lambda>v c. c\<lparr>bc_root_disk := v\<rparr>)]"

definition cfg_getters :: "(string \<times> (bootcfg \<Rightarrow> nat)) list" where
  "cfg_getters =
    [(''kernel_size'', bc_kernel_size), (''kernel_lba'', bc_kernel_lba), (''kernel_addr'', bc_kernel_addr), (''initramfs_size'', bc_initramfs_size),
     (''initramfs_lba'', bc_initramfs_lba), (''initramfs_addr'', bc_initramfs_addr), (''memmap_addr'', bc_memmap_addr), (''video_output'', bc_video_output),
     (''vesa_mode'', bc_vesa_mode), (''vga_mode'', bc_vga_mode), (''vesa_info_addr'', bc_vesa_info_addr), (''vesa_mode_info_addr'', bc_vesa_mode_info_addr),
     (''vesa_modes_addr'', bc_vesa_modes_addr), (''stage2_lba'', bc_stage2_lba), (''stage2_sectors'', bc_stage2_sectors), (''flags'', bc_flags),
     (''rootfs_lba'', bc_rootfs_lba), (''rootfs_size'', bc_rootfs_size), (''root_disk'', bc_root_disk), (''root'', bc_root_disk)]"

definition bootloader_set_prop :: "string \<Rightarrow> nat \<Rightarrow> bootcfg \<Rightarrow> bootcfg option" where
  "bootloader_set_prop name v c = (if name = [] then None else map_option (\<lambda>f. f v c) (map_of cfg_setters name))"

definition bootloader_get_prop :: "string \<Rightarrow> bootcfg \<Rightarrow> nat option" where
  "bootloader_get_prop name c = (if name = [] then None else map_option (\<lambda>f. f c) (map_of cfg_getters name))"

definition bootloader_cfg_flush :: "'p ata_ports \<Rightarrow> bootcfg \<Rightarrow> 'p disk \<Rightarrow> bool \<times> 'p disk" where
  "bootloader_cfg_flush io c d =
     (case disk_read_kernel io 1 2 d of
        (False, _, d1) \<Rightarrow> (False, d1)
      | (True, bs, d1) \<Rightarrow> disk_write_kernel io 1 2 (cfg_bytes c @ drop sizeof_bootcfg bs) d1)"

subsection \<open>The device\<close>

text \<open>What a control call stores through its argument: nothing, the value, or the count and the bytes of the video modes.\<close>

datatype boot_out = Boot_nothing | Boot_value nat | Boot_modes nat "byte list"

definition bootloader_get_modes :: "mem \<Rightarrow> bootcfg \<Rightarrow> int \<times> boot_out" where
  "bootloader_get_modes m c =
     (if bc_vesa_modes_addr c = 0 then (-1, Boot_modes 0 [])
      else let n = load32 m (bc_vesa_modes_addr c); count = (if n > 256 then 256 else n) in
        (if count > 0 then 0 else -1, Boot_modes count (get_bytes m (bc_vesa_modes_addr c + 4) (count * sizeof_bootloader_mode))))"

text \<open>The argument is the name and the value in the structure it points to.\<close>

definition bootloader_ioctl ::
    "'p ata_ports \<Rightarrow> nat \<Rightarrow> (string \<times> nat) option \<Rightarrow> mem \<Rightarrow> bootcfg \<Rightarrow> 'p disk \<Rightarrow> int \<times> boot_out \<times> bootcfg \<times> 'p disk" where
  "bootloader_ioctl io request arg m c d =
     (case arg of
        None \<Rightarrow> (-1, Boot_nothing, c, d)
      | Some (name, v) \<Rightarrow>
          if request = DEV_IOCTL_BOOTLOADER_SET then
            (case bootloader_set_prop name v c of
               None \<Rightarrow> (-1, Boot_nothing, c, d)
             | Some c1 \<Rightarrow> let (ok, d1) = bootloader_cfg_flush io c1 d in (if ok then 0 else -1, Boot_nothing, c1, d1))
          else if request = DEV_IOCTL_BOOTLOADER_GET then
            (case bootloader_get_prop name c of None \<Rightarrow> (-1, Boot_nothing, c, d) | Some x \<Rightarrow> (0, Boot_value x, c, d))
          else if request = DEV_IOCTL_BOOTLOADER_GET_MODES then
            (let (r, out) = bootloader_get_modes m c in (r, out, c, d))
          else (-1, Boot_nothing, c, d))"

text \<open>\<open>fn\<close> is the address of \<^verbatim>\<open>bootloader_ioctl\<close>.\<close>

definition bootloader_dev_init :: "addr \<Rightarrow> addr \<Rightarrow> bootcfg \<Rightarrow> dstate \<Rightarrow> (int \<times> bootcfg \<times> dstate) option" where
  "bootloader_dev_init devfs fn c w =
     (if devfs = 0 then Some (-1, c, w)
      else do {
        fs \<leftarrow> devfss w devfs;
        if fs = 0 then Some (-1, c, w)
        else do {
          let src = cfg_at (mm_mem (fs_mm (ds_files w))) BOOTCFG_ADDR;
          let c1 = (if bc_magic src = CFG_MAGIC then src else cfg_zero);
          (r, w1) \<leftarrow> devfs_create_device_ops devfs ''/bootloader'' 0 0 0 fn 0 w;
          Some (if r \<noteq> 0 then -1 else 0, c1, w1) } })"

definition bootloader_get_root_disk :: "bootcfg \<Rightarrow> nat" where "bootloader_get_root_disk c = bc_root_disk c"
definition bootloader_get_flags :: "bootcfg \<Rightarrow> nat" where "bootloader_get_flags c = bc_flags c"
definition bootloader_get_video_output :: "bootcfg \<Rightarrow> nat" where "bootloader_get_video_output c = bc_video_output c"

subsection \<open>Settings survive\<close>

definition cfg_ok :: "bootcfg \<Rightarrow> bool" where
  "cfg_ok c \<longleftrightarrow> bc_magic c = CFG_MAGIC \<and> list_all (\<lambda>v. v < 2 ^ 32)
     [bc_version c, bc_kernel_size c, bc_kernel_lba c, bc_kernel_addr c, bc_initramfs_size c, bc_initramfs_lba c,
      bc_initramfs_addr c, bc_memmap_addr c, bc_vesa_info_addr c, bc_vesa_mode_info_addr c, bc_vesa_modes_addr c, bc_stage2_lba c,
      bc_stage2_sectors c, bc_flags c, bc_rootfs_lba c, bc_rootfs_size c, bc_root_disk c] \<and>
     list_all (\<lambda>v. v < 2 ^ 16) [bc_video_output c, bc_vesa_mode c, bc_vga_mode c, bc_reserved0 c]"

lemma cfg_bytes_length [simp]: "length (cfg_bytes c) = 80"
  by (simp add: cfg_bytes_def)

text \<open>What lies in memory as bytes is read as the record.\<close>

lemma cfg_at_bytes:
  assumes "bytes_at m a (cfg_bytes c)" "cfg_ok c"
  shows "cfg_at m a = c"
proof -

  note B = assms(1) [unfolded cfg_bytes_def bytes_at_append le_length, simplified add.assoc, simplified]
  show ?thesis using assms(2) B
    by (simp add: cfg_at_def cfg_ok_def load32_le32 load16_le16 CFG_MAGIC_def)
qed

definition half_names :: "string list" where
  "half_names = [''video_output'', ''vesa_mode'', ''vga_mode'']"

lemma setters_ok: "cfg_ok c \<Longrightarrow> v < 2 ^ 32 \<Longrightarrow> list_all (\<lambda>(n, f). cfg_ok (f v c)) cfg_setters"
  by (simp add: cfg_setters_def cfg_ok_def)

lemma setters_getters:
  "list_all (\<lambda>(n, f). bootloader_get_prop n (f v c) = Some (if n \<in> set half_names then v mod 65536 else v)) cfg_setters"
  by (simp add: cfg_setters_def bootloader_get_prop_def cfg_getters_def half_names_def)

lemma set_prop_cases:
  assumes "bootloader_set_prop name v c = Some c1"
  obtains f where "(name, f) \<in> set cfg_setters" "c1 = f v c"
  using assms by (auto simp: bootloader_set_prop_def dest: map_of_SomeD split: if_splits)

lemma set_prop_ok: "bootloader_set_prop name v c = Some c1 \<Longrightarrow> cfg_ok c \<Longrightarrow> v < 2 ^ 32 \<Longrightarrow> cfg_ok c1"
  by (erule set_prop_cases) (use setters_ok in \<open>fastforce simp: list_all_iff\<close>)

lemma set_then_get:
  "bootloader_set_prop name v c = Some c1 \<Longrightarrow>
    bootloader_get_prop name c1 = Some (if name \<in> set half_names then v mod 65536 else v)"
  by (erule set_prop_cases) (use setters_getters in \<open>fastforce simp: list_all_iff\<close>)

text \<open>C31: A setting that is changed on a disk whose drive follows the protocol: the call succeeds, the device answers the new value, the
  settings are the first bytes of sector 1 and nothing else changes on the disk; when the boot loader has put these
  bytes to their place in memory, they are what the driver starts with.\<close>

theorem boot_setting_survives:
  assumes "disk_ok d" "3 \<le> g_total_sectors d" "cfg_ok c" "v < 2 ^ 32" "bootloader_set_prop name v c = Some c1"
  shows "\<exists>d1. bootloader_ioctl drive_ports DEV_IOCTL_BOOTLOADER_SET (Some (name, v)) m c d = (0, Boot_nothing, c1, d1) \<and>
    bootloader_get_prop name c1 = Some (if name \<in> set half_names then v mod 65536 else v) \<and>
    disk_sector d1 = (disk_sector d)(1 := cfg_bytes c1 @ drop 80 (disk_sector d 1)) \<and>
    (\<forall>m. bytes_at m BOOTCFG_ADDR (take 80 (disk_sector d1 1)) \<longrightarrow> cfg_at m BOOTCFG_ADDR = c1)"
proof -
  have r: "g_total_sectors d < 2 ^ 32" by (rule ata.total_bound [OF assms(1)])
  then have on: "sectors_on_disk (g_total_sectors d) 1 2" using assms(2) by (simp add: sectors_on_disk_def add32_def)
  have s: "[1..<1 + 2] = [1, Suc 1]" by (simp add: upt_rec)
  obtain e where e: "disk_read_kernel drive_ports 1 2 d = (True, disk_sector d 1 @ disk_sector d (Suc 1), e)" "disk_ok e"
      "disk_sector e = disk_sector d" "same_tables d e"
    using disk_reads [OF assms(1) on] by (auto simp: s)
  let ?bs = "cfg_bytes c1 @ drop 80 (disk_sector d 1 @ disk_sector d (Suc 1))"
  have len: "length (disk_sector d a) = 512" for a by (rule disk_sector_length [OF assms(1)])
  have "sectors_on_disk (g_total_sectors e) 1 2" using on e(4) by (simp add: same_tables_def)
  from disk_writes [OF e(2) this, of ?bs] len obtain d1 where w: "disk_write_kernel drive_ports 1 2 ?bs e = (True, d1)"
      "disk_sector d1 = (\<lambda>a. if 1 \<le> a \<and> a < 1 + 2 then take 512 (drop (512 * (a - 1)) ?bs) else disk_sector e a)" by auto
  have "take 512 ?bs = cfg_bytes c1 @ drop 80 (disk_sector d 1)" "take 512 (drop 512 ?bs) = disk_sector d (Suc 1)" by (simp_all add: len)
  moreover have "1 \<le> a \<and> a < 1 + 2 \<longleftrightarrow> a = 1 \<or> a = Suc 1" for a :: nat by auto
  ultimately have sec: "disk_sector d1 = (disk_sector d)(1 := cfg_bytes c1 @ drop 80 (disk_sector d 1))"
    unfolding w(2) e(3) by (auto simp: fun_eq_iff)
  have ok: "cfg_ok c1" by (rule set_prop_ok [OF assms(5,3,4)])
  have flush: "bootloader_cfg_flush drive_ports c1 d = (True, d1)"
    unfolding bootloader_cfg_flush_def e(1) by (simp only: prod.case bool.case w(1))
  have "bootloader_ioctl drive_ports DEV_IOCTL_BOOTLOADER_SET (Some (name, v)) m c d = (0, Boot_nothing, c1, d1)"
    by (simp add: bootloader_ioctl_def assms(5) flush)
  then show ?thesis using set_then_get [OF assms(5)] sec cfg_at_bytes [OF _ ok] by simp
qed

theorem boot_setting_survives_witness:
  "\<exists>c1 d1. bootloader_ioctl drive_ports DEV_IOCTL_BOOTLOADER_SET (Some (''vga_mode'', 65539)) (\<lambda>_. NUL) (cfg_zero\<lparr>bc_magic := CFG_MAGIC\<rparr>) demo_disk =
      (0, Boot_nothing, c1, d1) \<and> bootloader_get_prop ''vga_mode'' c1 = Some 3 \<and> bc_magic c1 = CFG_MAGIC"
proof -
  let ?c = "cfg_zero\<lparr>bc_magic := CFG_MAGIC\<rparr>"
  have d: "disk_ok demo_disk" "3 \<le> g_total_sectors demo_disk" by (simp_all add: demo_disk_def disk_ok_def drive_ok_def)
  have c: "cfg_ok ?c" by (simp add: cfg_ok_def cfg_zero_def)
  have s: "bootloader_set_prop ''vga_mode'' 65539 ?c = Some (?c\<lparr>bc_vga_mode := 3\<rparr>)" by (simp add: bootloader_set_prop_def cfg_setters_def)
  from boot_setting_survives [OF d c _ s, of "\<lambda>_. NUL"] show ?thesis by (auto simp: half_names_def)
qed

end
