(* ===== verification/Spec2Isabelle.thy ===== *)
theory Spec2Isabelle
  imports CString_Props Heap_Props Task_Props Pty Mouse Inputdev Devfs Keyboard_Props Initramfs_Props Elf_Props Fat32_Props Exec_Props Sys_Runs Vga Psf Serial Tty_Edit Procfs_Props Pci Bootcfg
begin

text \<open>
  HouseOS, a 32-bit kernel for i386, as theories: the C code below \<^verbatim>\<open>src/kernel\<close> that carries the kernel's own logic, translated
  function by function, and the theorems that make it correct.  Definitions keep the names of the C functions; helpers of a
  definition are named after the part of the function they stand for.

  \<^bold>\<open>The program and the theories.\<close>  The boot loader leaves a memory map, a video mode and an archive in memory; \<^verbatim>\<open>mm.c\<close> builds the
  heap, page directories and user slots from the map; \<^verbatim>\<open>memfs.c\<close>, filled by \<^verbatim>\<open>initramfs.c\<close>, \<^verbatim>\<open>devfs.c\<close> and \<^verbatim>\<open>fat32.c\<close>, which sits on
  \<^verbatim>\<open>disk.c\<close>, are file systems behind the mount table of \<^verbatim>\<open>vfs.c\<close>; \<^verbatim>\<open>task.c\<close> runs tasks, whose programs \<^verbatim>\<open>elf_loader.c\<close> loads and which
  reach everything through \<^verbatim>\<open>syscall.c\<close>; keyboard, mouse, pseudo terminals and the terminals of \<^verbatim>\<open>tty.c\<close> are devices of \<^verbatim>\<open>devfs.c\<close>.

  \<^item> Prelude: bytes (\<open>char\<close>), addresses (\<open>nat\<close>), the flat memory \<open>addr \<Rightarrow> byte\<close>, 32-bit arithmetic with its wrap-around
    (\<open>add32\<close>, \<open>sub32\<close>, \<open>mul32\<close>, \<open>sgn32\<close>).  Ring: queues in arrays.  Port_Io: the ports.  Byte_Lists: bytes laid out in memory.
  \<^item> CString, CString_Props: \<^verbatim>\<open>src/kernel/lib/string.c\<close>.
  \<^item> Heap_Model: \<^verbatim>\<open>src/kernel/arch/i386/mm.c\<close>.  Heap_Lists, Heap_Layout, Heap, Heap_Free, Heap_Api, Heap_Client, Heap_Props: from the
    doubly linked list of headers in memory to first fit on a list of blocks.  Allocator, Valloc: what the clients rely on.
  \<^item> Tasks: \<^verbatim>\<open>task.c\<close> and \<^verbatim>\<open>timer.c\<close> (a \<^verbatim>\<open>task_t*\<close> is an index, \<open>kstate\<close> the static variables with the memory manager).
    Task_Sched, Task_Props: the ring of tasks, creation, the next task.
  \<^item> Memfs: \<^verbatim>\<open>filesystem/memfs.c\<close>, objects by address on the kernel heap, file contents in the memory.  Memfs_Ok, Memfs_Rw, Memfs_Tree,
    Memfs_Create, Memfs_Delete, Memfs_Props: the invariant \<open>memfs_ok\<close> and what the operations do.  Initramfs, Initramfs_Props:
    \<^verbatim>\<open>initramfs.c\<close>.  Vfs, Vfs_Props: \<^verbatim>\<open>vfs.c\<close>, a table of operations is a record of functions.  Memfs_Vfs: the in-memory file
    system behind such a table.  Devfs: \<^verbatim>\<open>devfs.c\<close>.
  \<^item> Disk, Ata_Drive: \<^verbatim>\<open>disk.c\<close>, and a drive that follows the protocol.  Fat32, Fat32_Ops: \<^verbatim>\<open>fat32.c\<close>.  Fat32_Volume, Fat32_Chain,
    Fat32_Data, Fat32_Dir, Fat32_File, Fat32_Props: sectors, table, chains, directories, files.
  \<^item> Procfs, Procfs_Props: \<^verbatim>\<open>procfs.c\<close>.  Pci: \<^verbatim>\<open>pci.c\<close>.  Bootcfg: \<^verbatim>\<open>drivers/bootloader.c\<close>, the settings on the disk.
  \<^item> Elf, Elf_Props: \<^verbatim>\<open>elf_loader.c\<close>.  Exec, Exec_Props: command lines and the stack of a program.
  \<^item> User_Mem, Udp, Fds, Sys_State, Sys_Files, Sys_Io, Sys_Tasks, Syscall: \<^verbatim>\<open>syscall.c\<close>: access to user memory through the page
    directory, datagram sockets, descriptors, and every case of \<^verbatim>\<open>do_syscall_impl\<close>.  Udp_Props, Sys_Props, Sys_Runs: the invariants of
    its tables over any sequence of calls, and calls that wait.
  \<^item> Keyboard, Keyboard_Props, Mouse, Pty, Inputdev, Serial: \<^verbatim>\<open>keyboard.c\<close>, \<^verbatim>\<open>mouse.c\<close>, \<^verbatim>\<open>pty.c\<close>, \<^verbatim>\<open>inputdev.c\<close>, \<^verbatim>\<open>serial.c\<close> and \<^verbatim>\<open>power.c\<close>.
  \<^item> Vga: \<^verbatim>\<open>vga.c\<close>.  Vesa, Vesa_Props: \<^verbatim>\<open>vesa.c\<close>.  Psf: \<^verbatim>\<open>fonts/psf.c\<close> and \<^verbatim>\<open>fonts/font_renderer.c\<close>.
  \<^item> Tty (output), Tty_Input (reading on the screen), Tty_Serial (reading on the line and the start): \<^verbatim>\<open>tty.c\<close>, with the state
    \<open>tsys\<close> of its static variables and the drivers it calls.  Tty_Props, Tty_Screen, Tty_Edit: its properties.

  \<^bold>\<open>How the code is modelled.\<close>  Static variables of a file are a record, which functions take and return; a structure reached by
  pointers is a record under an index or an address, block headers of the heap, fonts, archives, programs and the frame buffer lie in the byte
  memory as in C.  A value of 32 bits is a \<open>nat\<close> with the wrap-around written out where arithmetic matters, smaller ones and
  flags are words.  A loop that may run for ever is a partial function, and \<open>None\<close> says that the code does not return; loops
  with counters are total.  The limit of 1000000 polls of \<^verbatim>\<open>disk.c\<close> and the bound of \<open>max_cluster + 8\<close> rounds in the chains of
  \<^verbatim>\<open>fat32.c\<close> are those of the code, no fuel is added.  Where a task waits, the function takes the list of what
  interrupts and other tasks do between its wake-ups; \<open>None\<close> when the list ends before the wait does.

  \<^bold>\<open>Parameters.\<close>  What is not C of the repository is an argument: the answers of devices at ports (\<open>port_io\<close>, the records of ports of
  the disk and of the PCI bus), time, the addresses of functions that are registered, and in \<open>sys_env\<close> where the state of the kernel lies
  in that of the file systems.  A drive is described by its protocol in Ata_Drive; theorems that rely on it say so.

  \<^bold>\<open>Contracts.\<close>  Locales state what one part promises another, and each is interpreted on the code's own functions: \<open>allocator\<close> by
  \<open>kmalloc\<close> and \<open>kfree\<close>; \<open>bounded_queue\<close> (drops the oldest) by pseudo terminals and mouse; \<open>dropping_queue\<close> (drops
  the new) by the keyboard and the sockets, both extensions of \<open>fifo_queue\<close>; \<open>byte_files\<close> by the tables of operations of memfs and devfs;
  \<open>sector_disk\<close> by the driver of the disk on a drive that follows its protocol.

  \<^bold>\<open>What is shown.\<close>
  \<^item> Memory: every call keeps the heap in order, \<open>kmalloc\<close> refines first fit, \<open>kfree\<close> joins neighbours, blocks of others stay
    as they are over any sequence of calls.
  \<^item> Tasks: creation keeps table and ring, \<open>schedule\<close> takes the next ready task, and every ready task gets its turn.
  \<^item> Files: what is written is read back in memfs, through the mount table, on FAT32 and on the disk; lookup in a directory of
    FAT32 refines a search in the list of entries; clusters are taken and released exactly; paths resolve to the
    longest mount; an archive is imported file by file.
  \<^item> Programs: the loader writes to user memory only, segments are where they belong, arguments arrive as written.
  \<^item> System calls: the tables of descriptors, sockets and pipes stay well formed over any sequence of calls and interleaving of tasks;
    ports never collide; datagrams arrive in order; a receiver with a limit returns in time.
  \<^item> The process file system finds every task that it lists; the PCI search finds exactly the functions that are present; a
    setting of the boot loader survives a restart.
  \<^item> Terminals: writing refines an emulation that knows nothing of screens, touches no other terminal and keeps the cursor inside;
    in text mode the screen always shows the active terminal; the history is the list of the last 32 lines; the
    editor on the serial line keeps the remote terminal in step.  Drawing stays in the frame buffer.
  \<^item> Faults of the code are theorems too, among them a directory search and an archive import without an end, a \<open>select\<close> that never wakes, a
    child that closes the socket of its parent, characters typed ahead that are lost.

  \<^bold>\<open>Not modelled.\<close>  \<^verbatim>\<open>xhci.c\<close> and \<^verbatim>\<open>usbkbd.c\<close> drive hardware through descriptors in shared memory, whose behaviour is not in
  the repository; \<^verbatim>\<open>kernel.c\<close> and \<^verbatim>\<open>module.c\<close> call the
  initialisers in turn; \<^verbatim>\<open>gdt.c\<close>, \<^verbatim>\<open>idt.c\<close>, \<^verbatim>\<open>tss.c\<close>, \<^verbatim>\<open>modes.c\<close>, the assembly and the boot loader program the
  processor; the viewers in \<^verbatim>\<open>drivers/images\<close> and the demonstration
  programs in \<^verbatim>\<open>src/kernel/progs\<close> are not part of the kernel's service; the programs below \<^verbatim>\<open>src/programs\<close> run in user mode behind the
  system calls.  Of the modelled files, messages on the serial line are left out except those of \<^verbatim>\<open>tty.c\<close>.
\<close>

end
